(* ===== verification/Prelude.thy ===== *)
theory Prelude
  imports Main "HOL-Library.Word"
begin

unbundle bit_operations_syntax

text \<open>
  Shared vocabulary of the development: machine integer types, a flat byte memory with
  little-endian reads and writes, the disjointness of address ranges, and the generic lemmas
  about them that the components use.
\<close>

subsection \<open>Machine integers and pointers\<close>

type_synonym u8 = "8 word"
type_synonym u16 = "16 word"
type_synonym u32 = "32 word"
type_synonym u64 = "64 word"
type_synonym addr = "64 word"

text \<open>A flat byte-addressed memory: every pointer of a program is an \<open>addr\<close> into it.\<close>

type_synonym mem = "addr \<Rightarrow> u8"

named_theorems frame_simps \<open>what an update leaves unchanged\<close>
named_theorems mem_simps \<open>reading back what was written\<close>

subsection \<open>Little-endian access\<close>

text \<open>
  \<open>read_le n m a\<close> is the loop \<^verbatim>\<open>for (i = 0; i < n; i++) val |= p[i] << (i * 8)\<close>;
  \<open>write_le n m a v\<close> is \<^verbatim>\<open>for (i = 0; i < n; i++) p[i] = (v >> (i * 8)) & 0xFF\<close>,
  which is also what an n-byte store of the little-endian machine does.
\<close>

definition read_le :: "nat \<Rightarrow> mem \<Rightarrow> addr \<Rightarrow> 'a::len word" where
  "read_le n m a = fold (\<lambda>i val. val OR push_bit (i * 8) (ucast (m (a + of_nat i)))) [0..<n] 0"

definition write_le :: "nat \<Rightarrow> mem \<Rightarrow> addr \<Rightarrow> 'a::len word \<Rightarrow> mem" where
  "write_le n m a v = fold (\<lambda>i m. m(a + of_nat i := ucast (drop_bit (i * 8) v AND mask 8))) [0..<n] m"

abbreviation read_u16 :: "mem \<Rightarrow> addr \<Rightarrow> u16" where "read_u16 \<equiv> read_le 2"
abbreviation read_u32 :: "mem \<Rightarrow> addr \<Rightarrow> u32" where "read_u32 \<equiv> read_le 4"
abbreviation read_u64 :: "mem \<Rightarrow> addr \<Rightarrow> u64" where "read_u64 \<equiv> read_le 8"
abbreviation write_u16 :: "mem \<Rightarrow> addr \<Rightarrow> u16 \<Rightarrow> mem" where "write_u16 \<equiv> write_le 2"
abbreviation write_u32 :: "mem \<Rightarrow> addr \<Rightarrow> u32 \<Rightarrow> mem" where "write_u32 \<equiv> write_le 4"
abbreviation write_u64 :: "mem \<Rightarrow> addr \<Rightarrow> u64 \<Rightarrow> mem" where "write_u64 \<equiv> write_le 8"

text \<open>The bytes of a range as a list.\<close>

definition bytes_at :: "mem \<Rightarrow> addr \<Rightarrow> nat \<Rightarrow> u8 list" where
  "bytes_at m a n = map (\<lambda>i. m (a + of_nat i)) [0..<n]"

text \<open>
  Two ranges \<open>[a, a + n)\<close> and \<open>[b, b + k)\<close> that neither wrap around the address space nor
  overlap. The definition is on naturals so that it evaluates on concrete layouts.
\<close>

definition fits :: "addr \<Rightarrow> nat \<Rightarrow> bool" where
  "fits a n \<longleftrightarrow> unat a + n \<le> 2 ^ 64"

definition apart :: "addr \<Rightarrow> nat \<Rightarrow> addr \<Rightarrow> nat \<Rightarrow> bool" where
  "apart a n b k \<longleftrightarrow> fits a n \<and> fits b k \<and> (unat a + n \<le> unat b \<or> unat b + k \<le> unat a)"

subsection \<open>Address arithmetic\<close>

lemma unat_add_off: "fits a n \<Longrightarrow> i < n \<Longrightarrow> unat (a + of_nat i) = unat a + i"
  by (simp add: fits_def unat_word_ariths unat_of_nat)

lemma fits_mono: "fits a n \<Longrightarrow> k \<le> n \<Longrightarrow> fits a k"
  by (simp add: fits_def)

lemma off_eq_iff: "i < 2 ^ 64 \<Longrightarrow> j < 2 ^ 64 \<Longrightarrow> (a + of_nat i = a + (of_nat j :: addr)) = (i = j)"
  by (simp add: word_of_nat_eq_iff take_bit_nat_eq_self)

lemma apart_sym: "apart a n b k \<Longrightarrow> apart b k a n"
  by (auto simp: apart_def)

lemma apart_mono: "apart a n b k \<Longrightarrow> n' \<le> n \<Longrightarrow> k' \<le> k \<Longrightarrow> apart a n' b k'"
  by (auto simp: apart_def fits_def)

lemma apart_neq:
  assumes "apart a n b k" "i < n" "j < k"
  shows "a + of_nat i \<noteq> b + of_nat j"
proof -
  from assms have "unat (a + of_nat i) = unat a + i" "unat (b + of_nat j) = unat b + j"
    by (auto simp: apart_def intro: unat_add_off)
  with assms have "unat (a + of_nat i) \<noteq> unat (b + of_nat j)" by (auto simp: apart_def)
  then show ?thesis by auto
qed

lemma apart_shift:
  assumes "apart a n b k" "off + n' \<le> n" "off' + k' \<le> k" "0 < n'" "0 < k'"
  shows "apart (a + of_nat off) n' (b + of_nat off') k'"
proof -
  from assms have f: "fits a n" "fits b k" by (auto simp: apart_def)
  have ua: "unat (a + of_nat off) = unat a + off" using unat_add_off[OF f(1)] assms by simp
  have ub: "unat (b + of_nat off') = unat b + off'" using unat_add_off[OF f(2)] assms by simp
  show ?thesis using assms f by (auto simp: apart_def fits_def ua ub)
qed

lemma apart_inside:
  assumes "fits a n" "i + k \<le> j \<or> j + l \<le> i" "i + k \<le> n" "j + l \<le> n" "0 < k" "0 < l"
  shows "apart (a + of_nat i) k (a + of_nat j) l"
proof -
  have ui: "unat (a + of_nat i) = unat a + i" using unat_add_off[OF assms(1)] assms by simp
  have uj: "unat (a + of_nat j) = unat a + j" using unat_add_off[OF assms(1)] assms by simp
  show ?thesis using assms by (auto simp: apart_def fits_def ui uj)
qed

subsection \<open>Bytes of reads and writes\<close>

lemma read_le_0: "read_le 0 m a = 0"
  by (simp add: read_le_def)

lemma read_le_Suc: "read_le (Suc n) m a = read_le n m a OR push_bit (n * 8) (ucast (m (a + of_nat n)))"
  by (simp add: read_le_def)

lemma write_le_0: "write_le 0 m a v = m"
  by (simp add: write_le_def)

lemma write_le_Suc:
  "write_le (Suc n) m a v = (write_le n m a v)(a + of_nat n := ucast (drop_bit (n * 8) v AND mask 8))"
  by (simp add: write_le_def)

lemma bit_read_le:
  "bit (read_le n m a :: 'a::len word) k \<longleftrightarrow>
     k < LENGTH('a) \<and> k div 8 < n \<and> bit (m (a + of_nat (k div 8))) (k mod 8)"
proof (induction n)
  case 0
  then show ?case by (simp add: read_le_0)
next
  case (Suc n)
  have step: "bit (push_bit (n * 8) (ucast x :: 'a word)) k \<longleftrightarrow>
     k < LENGTH('a) \<and> n * 8 \<le> k \<and> bit x (k - n * 8)" for x :: u8
    by (auto simp: bit_simps)
  show ?case
  proof (cases "k div 8 = n")
    case True
    then have "n * 8 \<le> k" "k - n * 8 = k mod 8" by (auto simp: minus_mult_div_eq_mod mult.commute)
    with True show ?thesis by (simp add: read_le_Suc bit_or_iff Suc step)
  next
    case False
    have "\<not> bit x (k - n * 8)" if "n * 8 \<le> k" for x :: u8
    proof -
      from False that have "8 \<le> k - n * 8" by presburger
      then show ?thesis using bit_imp_le_length[of x "k - n * 8"] by auto
    qed
    then have "\<not> bit (push_bit (n * 8) (ucast (m (a + of_nat n)) :: 'a word)) k"
      by (auto simp only: step)
    moreover have "k div 8 < Suc n \<longleftrightarrow> k div 8 < n" using False by linarith
    ultimately show ?thesis by (simp only: read_le_Suc bit_or_iff Suc) simp
  qed
qed

lemma read_le_cong: "(\<And>i. i < n \<Longrightarrow> m (a + of_nat i) = m' (a + of_nat i)) \<Longrightarrow> read_le n m a = read_le n m' a"
  by (induction n) (auto simp: read_le_0 read_le_Suc)

lemma write_le_other: "(\<And>i. i < n \<Longrightarrow> b \<noteq> a + of_nat i) \<Longrightarrow> write_le n m a v b = m b"
  by (induction n) (auto simp: write_le_0 write_le_Suc)

lemma write_le_byte:
  "i < n \<Longrightarrow> n \<le> 2 ^ 64 \<Longrightarrow> write_le n m a v (a + of_nat i) = ucast (drop_bit (i * 8) v AND mask 8)"
proof (induction n)
  case 0
  then show ?case by simp
next
  case (Suc n)
  show ?case
  proof (cases "i = n")
    case True
    then show ?thesis by (simp add: write_le_Suc)
  next
    case False
    with Suc.prems have "i < n" by simp
    moreover from this Suc.prems have "a + of_nat i \<noteq> a + (of_nat n :: addr)"
      by (subst off_eq_iff) auto
    moreover have "n \<le> 2 ^ 64" using Suc.prems by simp
    ultimately
    show ?thesis using Suc.IH by (simp add: write_le_Suc)
  qed
qed

lemma byte_of_word:
  "bit (ucast (drop_bit (i * 8) (v :: 'a::len word) AND mask 8) :: u8) j \<longleftrightarrow> j < 8 \<and> bit v (i * 8 + j)"
  by (auto simp: bit_simps ac_simps dest: bit_imp_le_length)

lemma read_write_le:
  assumes "LENGTH('a::len) \<le> n * 8" "n \<le> 2 ^ 64"
  shows "(read_le n (write_le n m a (v :: 'a word)) a :: 'a word) = v"
proof (rule bit_word_eqI)
  fix k assume k: "k < LENGTH('a)"
  then have "k div 8 < n" using assms(1) by linarith
  then show "bit (read_le n (write_le n m a v) a :: 'a word) k \<longleftrightarrow> bit v k"
    using k assms by (simp add: bit_read_le write_le_byte byte_of_word)
qed

lemma read_write_u [simp]:
  "read_u16 (write_u16 m a v16) a = v16"
  "read_u32 (write_u32 m a v32) a = v32"
  "read_u64 (write_u64 m a v64) a = v64"
  by (simp_all add: read_write_le)

lemma read_write_apart [frame_simps]:
  assumes "apart a n b k"
  shows "read_le n (write_le k m b v) a = read_le n m a"
  by (rule read_le_cong, rule write_le_other) (use apart_neq[OF assms] in auto)

subsection \<open>Ranges of bytes\<close>

lemma length_bytes_at [simp]: "length (bytes_at m a n) = n"
  by (simp add: bytes_at_def)

lemma nth_bytes_at [simp]: "i < n \<Longrightarrow> bytes_at m a n ! i = m (a + of_nat i)"
  by (simp add: bytes_at_def)

lemma bytes_at_cong: "(\<And>i. i < n \<Longrightarrow> m (a + of_nat i) = m' (a + of_nat i)) \<Longrightarrow> bytes_at m a n = bytes_at m' a n"
  by (simp add: bytes_at_def)

lemma bytes_at_write_apart [frame_simps]:
  assumes "apart a n b k"
  shows "bytes_at (write_le k m b v) a n = bytes_at m a n"
  by (rule bytes_at_cong, rule write_le_other) (use apart_neq[OF assms] in auto)

lemma take_bytes_at: "k \<le> n \<Longrightarrow> take k (bytes_at m a n) = bytes_at m a k"
  by (rule nth_equalityI) auto

subsection \<open>Byte-wise copies and fills\<close>

text \<open>\<^verbatim>\<open>for (i = 0; i < len; i++) d[i] = s[i]\<close> and \<^verbatim>\<open>for (i = 0; i < len; i++) p[i] = val\<close>.\<close>

definition copy_bytes :: "mem \<Rightarrow> addr \<Rightarrow> addr \<Rightarrow> nat \<Rightarrow> mem" where
  "copy_bytes m dst src len = fold (\<lambda>i m. m(dst + of_nat i := m (src + of_nat i))) [0..<len] m"

definition fill_bytes :: "mem \<Rightarrow> addr \<Rightarrow> u8 \<Rightarrow> nat \<Rightarrow> mem" where
  "fill_bytes m dst v len = fold (\<lambda>i m. m(dst + of_nat i := v)) [0..<len] m"

lemma copy_bytes_0: "copy_bytes m dst src 0 = m"
  by (simp add: copy_bytes_def)

lemma copy_bytes_Suc:
  "copy_bytes m dst src (Suc n) =
     (copy_bytes m dst src n)(dst + of_nat n := copy_bytes m dst src n (src + of_nat n))"
  by (simp add: copy_bytes_def)

lemma fill_bytes_0: "fill_bytes m dst v 0 = m"
  by (simp add: fill_bytes_def)

lemma fill_bytes_Suc: "fill_bytes m dst v (Suc n) = (fill_bytes m dst v n)(dst + of_nat n := v)"
  by (simp add: fill_bytes_def)

lemma copy_bytes_other: "(\<And>i. i < n \<Longrightarrow> b \<noteq> dst + of_nat i) \<Longrightarrow> copy_bytes m dst src n b = m b"
  by (induction n) (auto simp: copy_bytes_0 copy_bytes_Suc)

lemma fill_bytes_other: "(\<And>i. i < n \<Longrightarrow> b \<noteq> dst + of_nat i) \<Longrightarrow> fill_bytes m dst v n b = m b"
  by (induction n) (auto simp: fill_bytes_0 fill_bytes_Suc)

lemma fill_bytes_byte: "i < n \<Longrightarrow> n \<le> 2 ^ 64 \<Longrightarrow> fill_bytes m dst v n (dst + of_nat i) = v"
proof (induction n)
  case 0
  then show ?case by simp
next
  case (Suc n)
  then show ?case by (cases "i = n") (auto simp: fill_bytes_Suc)
qed

lemma copy_bytes_byte:
  assumes "apart dst n src k" "n \<le> k" "i < n"
  shows "copy_bytes m dst src n (dst + of_nat i) = m (src + of_nat i)"
proof -
  have "j \<le> n \<Longrightarrow> i < j \<Longrightarrow> copy_bytes m dst src j (dst + of_nat i) = m (src + of_nat i)" for j
  proof (induction j)
    case 0
    then show ?case by simp
  next
    case (Suc j)
    have src: "copy_bytes m dst src j (src + of_nat i') = m (src + of_nat i')" if "i' < n" for i'
    proof (rule copy_bytes_other)
      fix i'' assume "i'' < j"
      then show "src + of_nat i' \<noteq> dst + of_nat i''"
        using apart_neq[OF assms(1), of i'' i'] that Suc.prems assms(2) by auto
    qed
    have "n < 2 ^ 64 \<or> n = 2 ^ 64" using assms(1) by (auto simp: apart_def fits_def)
    then have "i < 2 ^ 64" "j < 2 ^ 64" using assms(3) Suc.prems by auto
    then have "(dst + of_nat i = dst + of_nat j) = (i = j)" by (rule off_eq_iff)
    then show ?case using Suc src by (cases "i = j") (auto simp: copy_bytes_Suc)
  qed
  then show ?thesis using assms(3) by blast
qed

lemma copy_bytes_apart [frame_simps]:
  assumes "apart a n b k"
  shows "read_le n (copy_bytes m b src k) a = read_le n m a"
    and "bytes_at (copy_bytes m b src k) a n = bytes_at m a n"
  by (rule read_le_cong bytes_at_cong, rule copy_bytes_other, use apart_neq[OF assms] in auto)+

lemma bytes_at_copy:
  assumes "apart dst n src k" "n \<le> k"
  shows "bytes_at (copy_bytes m dst src n) dst n = bytes_at m src n"
  using copy_bytes_byte[OF assms] by (simp add: bytes_at_def)

lemma bytes_at_fill: "n \<le> 2 ^ 64 \<Longrightarrow> bytes_at (fill_bytes m dst v n) dst n = replicate n v"
  by (rule nth_equalityI) (simp_all add: fill_bytes_byte)

subsection \<open>Ring indices\<close>

text \<open>\<open>ring_count cap t h\<close> is the number of used slots between a read index and a write index.\<close>

definition ring_count :: "nat \<Rightarrow> nat \<Rightarrow> nat \<Rightarrow> nat" where
  "ring_count cap t h = (h + cap - t) mod cap"

lemma ring_count_cases:
  "t < cap \<Longrightarrow> h < cap \<Longrightarrow> ring_count cap t h = (if t \<le> h then h - t else h + cap - t)"
  by (auto simp: ring_count_def mod_if)

lemma Suc_mod_cases: "h < cap \<Longrightarrow> Suc h mod cap = (if Suc h = cap then 0 else Suc h)"
  by (auto simp: mod_if)

lemma plus_mod_cases: "t < cap \<Longrightarrow> k < cap \<Longrightarrow> (t + k :: nat) mod cap = (if t + k < cap then t + k else t + k - cap)"
  by (simp add: le_mod_geq)

lemma ring_count_less: "t < cap \<Longrightarrow> h < cap \<Longrightarrow> ring_count cap t h < cap"
  by (auto simp: ring_count_cases)

lemma ring_count_zero: "t < cap \<Longrightarrow> h < cap \<Longrightarrow> ring_count cap t h = 0 \<longleftrightarrow> t = h"
  by (auto simp: ring_count_cases)

lemma ring_count_full:
  "t < cap \<Longrightarrow> h < cap \<Longrightarrow> Suc h mod cap = t \<longleftrightarrow> ring_count cap t h = cap - 1"
  by (auto simp: ring_count_cases Suc_mod_cases)

lemma ring_count_enq:
  "t < cap \<Longrightarrow> h < cap \<Longrightarrow> Suc h mod cap \<noteq> t \<Longrightarrow> ring_count cap t (Suc h mod cap) = Suc (ring_count cap t h)"
  by (auto simp: ring_count_cases Suc_mod_cases)

lemma ring_count_deq:
  "t < cap \<Longrightarrow> h < cap \<Longrightarrow> t \<noteq> h \<Longrightarrow> Suc (ring_count cap (Suc t mod cap) h) = ring_count cap t h"
  by (auto simp: ring_count_cases Suc_mod_cases)

lemma ring_index_end: "t < cap \<Longrightarrow> h < cap \<Longrightarrow> (t + ring_count cap t h) mod cap = h"
  by (auto simp: ring_count_cases mod_if)

lemma ring_index_neq:
  "t < cap \<Longrightarrow> h < cap \<Longrightarrow> k < ring_count cap t h \<Longrightarrow> (t + k) mod cap \<noteq> h"
  using ring_count_less[of t cap h] plus_mod_cases[of t cap k] by (auto simp: ring_count_cases split: if_splits)

lemma ring_index_shift: "(Suc t mod cap + k) mod cap = (t + Suc k) mod cap"
  using mod_add_left_eq[of "Suc t" cap k] by simp

subsection \<open>Further facts on words and copies\<close>

lemma bytes_at_split: "k \<le> n \<Longrightarrow> bytes_at m a n = bytes_at m a k @ bytes_at m (a + of_nat k) (n - k)"
  by (rule nth_equalityI) (auto simp: nth_append add.assoc simp flip: of_nat_add)

lemma unat_ucast_up: "LENGTH('a::len) \<le> LENGTH('b::len) \<Longrightarrow> unat (ucast (x :: 'a word) :: 'b word) = unat x"
proof -
  assume "LENGTH('a) \<le> LENGTH('b)"
  then have "(2::nat) ^ LENGTH('a) \<le> 2 ^ LENGTH('b)" by simp
  then have "unat x < 2 ^ LENGTH('b)" using unsigned_less[of x] by (rule order_less_le_trans[rotated])
  then show ?thesis by (simp add: unsigned_ucast_eq take_bit_nat_eq_self_iff)
qed

lemma apart_mono_right: "apart a n b k \<Longrightarrow> k' \<le> k \<Longrightarrow> apart a n b k'"
  by (rule apart_mono) auto

lemma apart_mono_left: "apart a n b k \<Longrightarrow> n' \<le> n \<Longrightarrow> apart a n' b k"
  by (rule apart_mono) auto

lemma bytes_at_copy_prefix:
  assumes "apart dst n src n" "n \<le> k" "fits dst k"
  shows "bytes_at (copy_bytes m dst src n) dst k = bytes_at m src n @ drop n (bytes_at m dst k)"
proof (rule nth_equalityI)
  fix i assume "i < length (bytes_at (copy_bytes m dst src n) dst k)"
  then have i: "i < k" by simp
  show "bytes_at (copy_bytes m dst src n) dst k ! i = (bytes_at m src n @ drop n (bytes_at m dst k)) ! i"
  proof (cases "i < n")
    case True
    then show ?thesis using i copy_bytes_byte[OF assms(1) order_refl True] by (simp add: nth_append)
  next
    case False
    have "k \<le> 2 ^ 64" using assms(3) by (simp add: fits_def)
    then have "dst + of_nat i \<noteq> dst + of_nat j" if "j < n" for j
      using off_eq_iff[of i j dst] that False i by auto
    then show ?thesis using i False by (simp add: nth_append copy_bytes_other)
  qed
qed (use assms in simp)

subsection \<open>Bytes of a value, and storing a list of bytes\<close>

definition le16 :: "u16 \<Rightarrow> u8 list" where
  "le16 w = [ucast w, ucast (drop_bit 8 w)]"

lemma bytes_at_sub: "i + k \<le> n \<Longrightarrow> bytes_at m (a + of_nat i) k = take k (drop i (bytes_at m a n))"
  by (rule nth_equalityI) (auto simp: add.assoc simp flip: of_nat_add)

lemma read_u16_le16:
  assumes "bytes_at m a 2 = le16 w"
  shows "read_u16 m a = w"
proof (rule bit_word_eqI)
  fix k assume k: "k < LENGTH(16)"
  have "m a = ucast w" "m (a + 1) = ucast (drop_bit 8 w)"
    using assms by (simp_all add: bytes_at_def le16_def upt_rec)
  then have "m (a + of_nat (k div 8)) = ucast (drop_bit (8 * (k div 8)) w)"
    using k by (cases "k div 8 = 0") (auto simp: div_eq_0_iff not_less le_div_geq)
  moreover have "8 * (k div 8) + k mod 8 = k" by simp
  moreover have "k div 8 < 2" using k by (simp add: less_mult_imp_div_less)
  ultimately show "bit (read_u16 m a) k = bit w k"
    using k by (simp add: bit_read_le bit_simps)
qed

text \<open>\<^verbatim>\<open>memcpy\<close> from a buffer whose content is the list \<open>bs\<close>.\<close>

definition put_bytes :: "mem \<Rightarrow> addr \<Rightarrow> u8 list \<Rightarrow> mem" where
  "put_bytes m a bs = fold (\<lambda>i m. m(a + of_nat i := bs ! i)) [0..<length bs] m"

lemma put_bytes_other: "(\<And>i. i < length bs \<Longrightarrow> b \<noteq> a + of_nat i) \<Longrightarrow> put_bytes m a bs b = m b"
proof -
  have "(\<And>i. i < n \<Longrightarrow> b \<noteq> a + of_nat i) \<Longrightarrow> fold (\<lambda>i m. m(a + of_nat i := bs ! i)) [0..<n] m b = m b" for n
    by (induction n) auto
  then show "(\<And>i. i < length bs \<Longrightarrow> b \<noteq> a + of_nat i) \<Longrightarrow> put_bytes m a bs b = m b" by (simp add: put_bytes_def)
qed

lemma put_bytes_byte:
  assumes "i < length bs" "length bs \<le> 2 ^ 64"
  shows "put_bytes m a bs (a + of_nat i) = bs ! i"
proof -
  have "i < n \<Longrightarrow> n \<le> length bs \<Longrightarrow> fold (\<lambda>i m. m(a + of_nat i := bs ! i)) [0..<n] m (a + of_nat i) = bs ! i" for n
  proof (induction n)
    case (Suc n)
    then show ?case using off_eq_iff[of i n a] assms by (cases "i = n") auto
  qed simp
  then show ?thesis using assms by (simp add: put_bytes_def)
qed

text \<open>The bytes of a range after a part of it was stored.\<close>

lemma bytes_at_put:
  assumes "j + length bs \<le> n" "n \<le> 2 ^ 64"
  shows "bytes_at (put_bytes m (a + of_nat j) bs) a n = take j (bytes_at m a n) @ bs @ drop (j + length bs) (bytes_at m a n)"
proof (rule nth_equalityI)
  fix i assume "i < length (bytes_at (put_bytes m (a + of_nat j) bs) a n)"
  then have i: "i < n" by simp
  show "bytes_at (put_bytes m (a + of_nat j) bs) a n ! i =
      (take j (bytes_at m a n) @ bs @ drop (j + length bs) (bytes_at m a n)) ! i"
  proof (cases "j \<le> i \<and> i < j + length bs")
    case True
    then have "a + of_nat i = a + of_nat j + of_nat (i - j)" by (simp add: add.assoc flip: of_nat_add)
    then show ?thesis using True i assms put_bytes_byte[of "i - j" bs m "a + of_nat j"] by (auto simp: nth_append)
  next
    case False
    have "put_bytes m (a + of_nat j) bs (a + of_nat i) = m (a + of_nat i)"
    proof (rule put_bytes_other)
      fix k assume "k < length bs"
      then show "a + of_nat i \<noteq> a + of_nat j + of_nat k"
        using False i assms off_eq_iff[of i "j + k" a] by (auto simp: add.assoc)
    qed
    then show ?thesis using False i assms by (auto simp: nth_append min_def)
  qed
qed (use assms in simp)

lemma put_bytes_apart [frame_simps]:
  assumes "apart a n b (length bs)"
  shows "read_le n (put_bytes m b bs) a = read_le n m a"
    and "bytes_at (put_bytes m b bs) a n = bytes_at m a n"
  by (rule read_le_cong bytes_at_cong, rule put_bytes_other, use apart_neq[OF assms] in auto)+

lemma byte_put: "(m :: mem)(a := v) = put_bytes m a [v]"
  by (simp add: put_bytes_def)

lemma write_u16_put: "write_u16 m a w = put_bytes m a (le16 w)"
proof -
  have "ucast (w AND mask 8) = (ucast w :: u8)" "ucast (drop_bit 8 w AND mask 8) = (ucast (drop_bit 8 w) :: u8)"
    by (rule bit_word_eqI; auto simp: bit_simps)+
  then show ?thesis by (simp add: write_le_def put_bytes_def le16_def numeral_2_eq_2 upt_rec)
qed

lemma length_le16 [simp]: "length (le16 w) = 2"
  by (simp add: le16_def)

lemma put_bytes_Nil [simp]: "put_bytes m a [] = m"
  by (simp add: put_bytes_def)

end
