(* ===== verification/SpinLock.thy ===== *)
theory SpinLock
  imports Prelude
begin

text \<open>
  The spin lock of a shared queue under concurrency, \<^verbatim>\<open>hyperamp_spinlock_lock\<close> and
  \<^verbatim>\<open>hyperamp_spinlock_unlock\<close> of \<^verbatim>\<open>front/src/hyperamp_shm_queue.c\<close> on AArch64, one instruction or
  store at a time. Any number of zones run the code. An exclusive load sets the zone's reservation;
  every store to the lock word, by any zone, clears all reservations; an exclusive store succeeds
  only with the reservation and may also fail without cause.
\<close>

type_synonym zone = u32

text \<open>Where a zone is: outside; before the exclusive load; at the branch on the loaded value; before
  the exclusive store; before the owner and the counter are written; inside the critical section; in
  the unlock function, before the owner is cleared and before the releasing store.\<close>

datatype pc = Outside | Ldaxr | Cbnz u32 | Stlxr | SetOwner | IncCount | Critical | ClearOwner | Stlr

record lock_state =
  lock_value :: u32
  owner_zone_id :: u32
  lock_count :: u32
  reservation :: "zone \<Rightarrow> bool"
  at :: "zone \<Rightarrow> pc"

definition lock_start :: "lock_state \<Rightarrow> bool" where
  "lock_start s \<longleftrightarrow> lock_value s = 0 \<and> (\<forall>z. at s z = Outside \<and> \<not> reservation s z)"

inductive lock_step :: "lock_state \<Rightarrow> lock_state \<Rightarrow> bool" where
  call_lock: "at s z = Outside \<Longrightarrow> lock_step s (s\<lparr>at := (at s)(z := Ldaxr)\<rparr>)"
| ldaxr: "at s z = Ldaxr \<Longrightarrow>
    lock_step s (s\<lparr>at := (at s)(z := Cbnz (lock_value s)), reservation := (reservation s)(z := True)\<rparr>)"
| cbnz: "at s z = Cbnz v \<Longrightarrow> lock_step s (s\<lparr>at := (at s)(z := if v \<noteq> 0 then Ldaxr else Stlxr)\<rparr>)"
| stlxr_ok: "at s z = Stlxr \<Longrightarrow> reservation s z \<Longrightarrow>
    lock_step s (s\<lparr>lock_value := 1, reservation := (\<lambda>_. False), at := (at s)(z := SetOwner)\<rparr>)"
| stlxr_fail: "at s z = Stlxr \<Longrightarrow>
    lock_step s (s\<lparr>reservation := (reservation s)(z := False), at := (at s)(z := Ldaxr)\<rparr>)"
| set_owner: "at s z = SetOwner \<Longrightarrow> lock_step s (s\<lparr>owner_zone_id := z, at := (at s)(z := IncCount)\<rparr>)"
| inc_count: "at s z = IncCount \<Longrightarrow>
    lock_step s (s\<lparr>lock_count := lock_count s + 1, at := (at s)(z := Critical)\<rparr>)"
| call_unlock: "at s z = Critical \<Longrightarrow> lock_step s (s\<lparr>at := (at s)(z := ClearOwner)\<rparr>)"
| clear_owner: "at s z = ClearOwner \<Longrightarrow> lock_step s (s\<lparr>owner_zone_id := 0, at := (at s)(z := Stlr)\<rparr>)"
| stlr: "at s z = Stlr \<Longrightarrow>
    lock_step s (s\<lparr>lock_value := 0, reservation := (\<lambda>_. False), at := (at s)(z := Outside)\<rparr>)"

inductive lock_reach :: "lock_state \<Rightarrow> bool" where
  reach_start: "lock_start s \<Longrightarrow> lock_reach s"
| reach_step: "lock_reach s \<Longrightarrow> lock_step s s' \<Longrightarrow> lock_reach s'"

fun holding :: "pc \<Rightarrow> bool" where
  "holding SetOwner = True"
| "holding IncCount = True"
| "holding Critical = True"
| "holding ClearOwner = True"
| "holding Stlr = True"
| "holding _ = False"

abbreviation holds :: "lock_state \<Rightarrow> zone \<Rightarrow> bool" where
  "holds s z \<equiv> holding (at s z)"

text \<open>The invariant, with the holder \<open>h\<close> of the lock: the lock word is 1 while a zone holds the lock
  and 0 otherwise, a zone about to store exclusively with its reservation saw the lock word as it
  still is, and the holder's number is recorded between the two writes of the owner.\<close>

definition lock_inv :: "zone option \<Rightarrow> lock_state \<Rightarrow> bool" where
  "lock_inv h s \<longleftrightarrow>
     (\<forall>z. holds s z = (h = Some z)) \<and>
     lock_value s = (if h = None then 0 else 1) \<and>
     (\<forall>z. reservation s z \<longrightarrow> at s z = Stlxr \<longrightarrow> h = None) \<and>
     (\<forall>z v. reservation s z \<longrightarrow> at s z = Cbnz v \<longrightarrow> lock_value s = v) \<and>
     (\<forall>z. at s z = IncCount \<or> at s z = Critical \<or> at s z = ClearOwner \<longrightarrow> owner_zone_id s = z)"

lemma lock_inv_start: "lock_start s \<Longrightarrow> lock_inv None s"
  by (simp add: lock_start_def lock_inv_def)

lemma lock_inv_holder: "lock_inv h s \<Longrightarrow> holds s z \<Longrightarrow> h = Some z"
  by (simp add: lock_inv_def)

lemma lock_inv_nonholder: "lock_inv h s \<Longrightarrow> \<not> holds s z \<Longrightarrow> h \<noteq> Some z"
  by (simp add: lock_inv_def)

lemma lock_inv_step: "lock_step s s' \<Longrightarrow> lock_inv h s \<Longrightarrow> \<exists>h'. lock_inv h' s'"
proof (induction rule: lock_step.induct)
  case (call_lock s z)
  then have "h \<noteq> Some z" by (auto dest: lock_inv_nonholder[of _ _ z])
  with call_lock show ?case by (intro exI[of _ h]) (auto simp add: lock_inv_def)
next
  case (ldaxr s z)
  then have "h \<noteq> Some z" by (auto dest: lock_inv_nonholder[of _ _ z])
  with ldaxr show ?case by (intro exI[of _ h]) (auto simp add: lock_inv_def)
next
  case (cbnz s z v)
  then have "h \<noteq> Some z" by (auto dest: lock_inv_nonholder[of _ _ z])
  with cbnz show ?case by (intro exI[of _ h]) (auto simp add: lock_inv_def split: if_splits)
next
  case (stlxr_ok s z)
  then have "h = None" by (auto simp: lock_inv_def)
  with stlxr_ok show ?case by (intro exI[of _ "Some z"]) (auto simp add: lock_inv_def)
next
  case (stlxr_fail s z)
  then have "h \<noteq> Some z" by (auto dest: lock_inv_nonholder[of _ _ z])
  with stlxr_fail show ?case by (intro exI[of _ h]) (auto simp add: lock_inv_def)
next
  case (set_owner s z)
  then have "h = Some z" by (auto intro: lock_inv_holder)
  with set_owner show ?case by (intro exI[of _ h]) (auto simp add: lock_inv_def)
next
  case (inc_count s z)
  then have "h = Some z" by (auto intro: lock_inv_holder)
  with inc_count show ?case by (intro exI[of _ h]) (auto simp add: lock_inv_def)
next
  case (call_unlock s z)
  then have "h = Some z" by (auto intro: lock_inv_holder)
  with call_unlock show ?case by (intro exI[of _ h]) (auto simp add: lock_inv_def)
next
  case (clear_owner s z)
  then have "h = Some z" by (auto intro: lock_inv_holder)
  with clear_owner show ?case by (intro exI[of _ h]) (auto simp add: lock_inv_def)
next
  case (stlr s z)
  then have "h = Some z" by (auto intro: lock_inv_holder)
  with stlr show ?case by (intro exI[of _ None]) (auto simp add: lock_inv_def)
qed

lemma lock_reach_inv: "lock_reach s \<Longrightarrow> \<exists>h. lock_inv h s"
  by (induction rule: lock_reach.induct) (auto intro: lock_inv_start lock_inv_step)

text \<open>C22: however the instructions of any number of zones interleave, at most one zone is
  between a successful acquisition and the releasing store; while a zone is in its critical section the
  lock word is 1 and the recorded owner is that zone; and the lock word is 0 exactly when no zone
  holds the lock.\<close>

theorem lock_mutex:
  assumes "lock_reach s"
  shows "(holds s z \<and> holds s z' \<longrightarrow> z = z') \<and>
    (at s z = Critical \<longrightarrow> lock_value s = 1 \<and> owner_zone_id s = z) \<and>
    (lock_value s = 0 \<longleftrightarrow> (\<forall>y. \<not> holds s y))"
proof -
  obtain h where h: "lock_inv h s" using lock_reach_inv[OF assms] by blast
  have "z = z'" if "holds s z" "holds s z'" using lock_inv_holder[OF h that(1)] lock_inv_holder[OF h that(2)] by simp
  moreover have "lock_value s = 1 \<and> owner_zone_id s = z" if "at s z = Critical"
    using h that lock_inv_holder[OF h, of z] by (auto simp: lock_inv_def)
  moreover have "lock_value s = 0 \<longleftrightarrow> (\<forall>y. \<not> holds s y)" using h by (cases h) (auto simp: lock_inv_def)
  ultimately show ?thesis by blast
qed

definition demo_lock :: lock_state where
  "demo_lock = \<lparr>lock_value = 0, owner_zone_id = 0, lock_count = 0, reservation = (\<lambda>_. False), at = (\<lambda>_. Outside)\<rparr>"

text \<open>Zone 1 acquires the lock: a run of the instructions up to the critical section.\<close>

definition demo_locked :: lock_state where
  "demo_locked = demo_lock\<lparr>lock_value := 1, owner_zone_id := 1, lock_count := 1, at := (\<lambda>_. Outside)(1 := Critical)\<rparr>"

lemma demo_locked_reach: "lock_reach demo_locked"
proof -
  define a where "a p = demo_lock\<lparr>at := (\<lambda>_. Outside)(1 := p)\<rparr>" for p
  define r where "r p = (a p)\<lparr>reservation := (\<lambda>_. False)(1 := True)\<rparr>" for p
  define k where "k p = (a p)\<lparr>lock_value := 1\<rparr>" for p
  have s0: "lock_reach demo_lock" by (rule reach_start) (simp add: lock_start_def demo_lock_def)
  have "lock_step demo_lock (a Ldaxr)" using call_lock[of demo_lock 1] by (simp add: a_def demo_lock_def)
  with s0 have s1: "lock_reach (a Ldaxr)" by (rule reach_step)
  have "lock_step (a Ldaxr) (r (Cbnz 0))" using ldaxr[of "a Ldaxr" 1] by (simp add: a_def r_def demo_lock_def)
  with s1 have s2: "lock_reach (r (Cbnz 0))" by (rule reach_step)
  have "lock_step (r (Cbnz 0)) (r Stlxr)" using cbnz[of "r (Cbnz 0)" 1 0] by (simp add: a_def r_def demo_lock_def)
  with s2 have s3: "lock_reach (r Stlxr)" by (rule reach_step)
  have "lock_step (r Stlxr) (k SetOwner)" using stlxr_ok[of "r Stlxr" 1] by (simp add: a_def r_def k_def demo_lock_def)
  with s3 have s4: "lock_reach (k SetOwner)" by (rule reach_step)
  have "lock_step (k SetOwner) ((k IncCount)\<lparr>owner_zone_id := 1\<rparr>)"
    using set_owner[of "k SetOwner" 1] by (simp add: a_def k_def demo_lock_def)
  with s4 have s5: "lock_reach ((k IncCount)\<lparr>owner_zone_id := 1\<rparr>)" by (rule reach_step)
  have "lock_step ((k IncCount)\<lparr>owner_zone_id := 1\<rparr>) demo_locked"
    using inc_count[of "(k IncCount)\<lparr>owner_zone_id := 1\<rparr>" 1] by (simp add: a_def k_def demo_lock_def demo_locked_def)
  with s5 show ?thesis by (rule reach_step)
qed

theorem lock_mutex_witness: "at demo_locked 1 = Critical \<and> owner_zone_id demo_locked = 1 \<and> \<not> holds demo_locked 2"
  using lock_mutex[OF demo_locked_reach, of 1 2] by (auto simp: demo_locked_def)

end
