(* ===== verification/Fifo.thy ===== *)
theory Fifo
  imports Main
begin

text \<open>
  The interface of a bounded first-in first-out queue, as a client relies on it: an accepted
  insertion appends, a removal takes the oldest element, every other step keeps the content,
  and the content never exceeds the bound. The laws are about single steps; the lemmas are
  about every interleaving of them.
\<close>

inductive fifo_run ::
  "('s \<Rightarrow> 'a \<Rightarrow> 's \<Rightarrow> bool) \<Rightarrow> ('s \<Rightarrow> 'a \<Rightarrow> 's \<Rightarrow> bool) \<Rightarrow> ('s \<Rightarrow> 's \<Rightarrow> bool) \<Rightarrow>
   's \<Rightarrow> 'a list \<Rightarrow> 'a list \<Rightarrow> 's \<Rightarrow> bool"
  for enq :: "'s \<Rightarrow> 'a \<Rightarrow> 's \<Rightarrow> bool" and deq :: "'s \<Rightarrow> 'a \<Rightarrow> 's \<Rightarrow> bool" and idle :: "'s \<Rightarrow> 's \<Rightarrow> bool"
where
  run_start: "fifo_run enq deq idle s [] [] s"
| run_enq: "fifo_run enq deq idle s xs ys s' \<Longrightarrow> enq s' x s'' \<Longrightarrow> fifo_run enq deq idle s (xs @ [x]) ys s''"
| run_deq: "fifo_run enq deq idle s xs ys s' \<Longrightarrow> deq s' y s'' \<Longrightarrow> fifo_run enq deq idle s xs (ys @ [y]) s''"
| run_idle: "fifo_run enq deq idle s xs ys s' \<Longrightarrow> idle s' s'' \<Longrightarrow> fifo_run enq deq idle s xs ys s''"

locale bounded_fifo =
  fixes inv :: "'s \<Rightarrow> bool"
    and content :: "'s \<Rightarrow> 'a list"
    and bound :: "'s \<Rightarrow> nat"
    and enq :: "'s \<Rightarrow> 'a \<Rightarrow> 's \<Rightarrow> bool"
    and deq :: "'s \<Rightarrow> 'a \<Rightarrow> 's \<Rightarrow> bool"
    and idle :: "'s \<Rightarrow> 's \<Rightarrow> bool"
  assumes enq_law: "inv s \<Longrightarrow> enq s x s' \<Longrightarrow> inv s' \<and> content s' = content s @ [x] \<and> bound s' = bound s"
    and deq_law: "inv s \<Longrightarrow> deq s y s' \<Longrightarrow> inv s' \<and> content s = y # content s' \<and> bound s' = bound s"
    and idle_law: "inv s \<Longrightarrow> idle s s' \<Longrightarrow> inv s' \<and> content s' = content s \<and> bound s' = bound s"
    and bound_law: "inv s \<Longrightarrow> length (content s) \<le> bound s"
begin

lemma run_conserves:
  "fifo_run enq deq idle s xs ys s' \<Longrightarrow> inv s \<Longrightarrow>
   inv s' \<and> bound s' = bound s \<and> content s @ xs = ys @ content s'"
proof (induction rule: fifo_run.induct)
  case (run_enq s xs ys s' x s'')
  then show ?case using enq_law[of s' x s''] by auto
next
  case (run_deq s xs ys s' y s'')
  then show ?case using deq_law[of s' y s''] by auto
next
  case (run_idle s xs ys s' s'')
  then show ?case using idle_law[of s' s''] by auto
qed simp

lemma run_fifo:
  assumes "fifo_run enq deq idle s xs ys s'" "inv s"
  shows "ys = take (length ys) (content s @ xs)"
  using run_conserves[OF assms] by simp

lemma run_bounded:
  assumes "fifo_run enq deq idle s xs ys s'" "inv s"
  shows "length (content s) + length xs \<le> length ys + bound s"
proof -
  have c: "inv s'" "bound s' = bound s" "content s @ xs = ys @ content s'"
    using run_conserves[OF assms] by auto
  have "length (content s) + length xs = length ys + length (content s')"
    using arg_cong[OF c(3), of length] by simp
  then show ?thesis using bound_law[OF c(1)] c(2) by simp
qed

end

end
