(* ===== verification/ShmQueue.thy ===== *)
theory ShmQueue
  imports Prelude Fifo "HOL-Library.Monad_Syntax"
begin

unbundle bit_operations_syntax

text \<open>
  The HyperAMP shared-memory queue, \<^verbatim>\<open>front/src/hyperamp_shm_queue.c\<close> and its header, which the
  front end and the HyperAMP server are both linked with. The control block
  \<^verbatim>\<open>HyperampShmQueue\<close> is a packed structure in a memory two zones share, so it is modelled as bytes:
  a field is read and written at its offset, byte by byte and little-endian, as the code does.
  An operation maps the memory before it to its result and the memory after it; an operation
  that takes the spin lock is \<open>None\<close> when the lock is held, since then it does not return before
  another zone releases it. Barriers and cache maintenance have no effect on this memory, and
  the messages printed on errors are not modelled.
\<close>

subsection \<open>Constants and layout\<close>

definition HYPERAMP_OK :: int where "HYPERAMP_OK = 0"
definition HYPERAMP_ERROR :: int where "HYPERAMP_ERROR = - 1"
definition HYPERAMP_AGAIN :: int where "HYPERAMP_AGAIN = 1"
definition HYPERAMP_QUEUE_MAGIC :: u32 where "HYPERAMP_QUEUE_MAGIC = 0x48415150"

lemma retcode_distinct [simp]:
  "HYPERAMP_OK \<noteq> HYPERAMP_AGAIN" "HYPERAMP_OK \<noteq> HYPERAMP_ERROR" "HYPERAMP_AGAIN \<noteq> HYPERAMP_ERROR"
  "HYPERAMP_AGAIN \<noteq> HYPERAMP_OK" "HYPERAMP_ERROR \<noteq> HYPERAMP_OK" "HYPERAMP_ERROR \<noteq> HYPERAMP_AGAIN"
  by (simp_all add: HYPERAMP_OK_def HYPERAMP_ERROR_def HYPERAMP_AGAIN_def)

text \<open>The address of the byte at an offset of a structure.\<close>

definition fld :: "addr \<Rightarrow> nat \<Rightarrow> addr" where
  "fld p off = p + of_nat off"

text \<open>\<^verbatim>\<open>offsetof(HyperampShmQueue, ...)\<close>: the structure is packed and has two tables of 125
  entries of 16 bytes before the lock.\<close>

abbreviation (input) OFF_map_mode1 :: nat where "OFF_map_mode1 \<equiv> 0"
abbreviation (input) OFF_map_mode2 :: nat where "OFF_map_mode2 \<equiv> 1"
abbreviation (input) OFF_header :: nat where "OFF_header \<equiv> 2"
abbreviation (input) OFF_tail :: nat where "OFF_tail \<equiv> 4"
abbreviation (input) OFF_capacity :: nat where "OFF_capacity \<equiv> 6"
abbreviation (input) OFF_block_size :: nat where "OFF_block_size \<equiv> 8"
abbreviation (input) OFF_reserved :: nat where "OFF_reserved \<equiv> 10"
abbreviation (input) OFF_phy_addr :: nat where "OFF_phy_addr \<equiv> 12"
abbreviation (input) OFF_virt_addr1 :: nat where "OFF_virt_addr1 \<equiv> 20"
abbreviation (input) OFF_virt_addr2 :: nat where "OFF_virt_addr2 \<equiv> 28"
abbreviation (input) OFF_queue_lock :: nat where "OFF_queue_lock \<equiv> 4036"
abbreviation (input) OFF_magic :: nat where "OFF_magic \<equiv> 4052"
abbreviation (input) OFF_version :: nat where "OFF_version \<equiv> 4056"
abbreviation (input) OFF_enqueue_count :: nat where "OFF_enqueue_count \<equiv> 4060"
abbreviation (input) OFF_dequeue_count :: nat where "OFF_dequeue_count \<equiv> 4064"
abbreviation (input) SIZEOF_queue :: nat where "SIZEOF_queue \<equiv> 4068"

record HyperampQueueConfig =
  cfg_map_mode :: u16
  cfg_capacity :: u16
  cfg_block_size :: u16
  cfg_phy_addr :: u64
  cfg_virt_addr :: u64

subsection \<open>The spin lock\<close>

text \<open>The fields of \<^verbatim>\<open>HyperampSpinlock\<close>: \<^verbatim>\<open>lock_value\<close> at 0, \<^verbatim>\<open>owner_zone_id\<close> at 4,
  \<^verbatim>\<open>lock_count\<close> at 8, \<^verbatim>\<open>contention_count\<close> at 12.\<close>

definition hyperamp_spinlock_init :: "mem \<Rightarrow> addr \<Rightarrow> mem" where
  "hyperamp_spinlock_init m lock =
     (if lock = 0 then m
      else let m = write_u32 m (fld lock 0) 0;
               m = write_u32 m (fld lock 4) 0;
               m = write_u32 m (fld lock 8) 0
           in write_u32 m (fld lock 12) 0)"

text \<open>
  The exclusive load and store of the AArch64 branch retry while \<^verbatim>\<open>lock_value\<close> is not zero: with
  nobody else running, a held lock is never acquired, hence \<open>None\<close>.
\<close>

definition hyperamp_spinlock_lock :: "mem \<Rightarrow> addr \<Rightarrow> u32 \<Rightarrow> mem option" where
  "hyperamp_spinlock_lock m lock zone_id =
     (if lock = 0 then Some m
      else if read_u32 m (fld lock 0) \<noteq> 0 then None
      else let m = write_u32 m (fld lock 0) 1;
               m = write_u32 m (fld lock 4) zone_id
           in Some (write_u32 m (fld lock 8) (read_u32 m (fld lock 8) + 1)))"

definition hyperamp_spinlock_unlock :: "mem \<Rightarrow> addr \<Rightarrow> mem" where
  "hyperamp_spinlock_unlock m lock =
     (if lock = 0 then m
      else let m = write_u32 m (fld lock 4) 0
           in write_u32 m (fld lock 0) 0)"

subsection \<open>Byte-wise memory access\<close>

definition hyperamp_safe_memset :: "mem \<Rightarrow> addr \<Rightarrow> u8 \<Rightarrow> u64 \<Rightarrow> mem" where
  "hyperamp_safe_memset m dst val len = fill_bytes m dst val (unat len)"

definition hyperamp_safe_memcpy :: "mem \<Rightarrow> addr \<Rightarrow> addr \<Rightarrow> u64 \<Rightarrow> mem" where
  "hyperamp_safe_memcpy m dst src len = copy_bytes m dst src (unat len)"

definition hyperamp_safe_read_u16 :: "mem \<Rightarrow> addr \<Rightarrow> nat \<Rightarrow> u16" where
  "hyperamp_safe_read_u16 m addr offset = read_le 2 m (fld addr offset)"

definition hyperamp_safe_read_u32 :: "mem \<Rightarrow> addr \<Rightarrow> nat \<Rightarrow> u32" where
  "hyperamp_safe_read_u32 m addr offset = read_le 4 m (fld addr offset)"

definition hyperamp_safe_read_u64 :: "mem \<Rightarrow> addr \<Rightarrow> nat \<Rightarrow> u64" where
  "hyperamp_safe_read_u64 m addr offset = read_le 8 m (fld addr offset)"

subsection \<open>Queue operations\<close>

definition hyperamp_queue_is_initialized :: "mem \<Rightarrow> addr \<Rightarrow> bool" where
  "hyperamp_queue_is_initialized m queue =
     (if queue = 0 then False
      else let capacity = (read_le 2 m (fld queue OFF_capacity) :: u16) in capacity > 0)"

definition hyperamp_queue_enqueue ::
  "mem \<Rightarrow> addr \<Rightarrow> u32 \<Rightarrow> addr \<Rightarrow> u64 \<Rightarrow> addr \<Rightarrow> (int \<times> mem) option" where
  "hyperamp_queue_enqueue m queue zone_id data data_len virt_base =
     (if queue = 0 \<or> data = 0 \<or> data_len = 0 then Some (HYPERAMP_ERROR, m)
      else
        let block_size = hyperamp_safe_read_u16 m queue OFF_block_size;
            capacity = hyperamp_safe_read_u16 m queue OFF_capacity
        in if data_len > ucast block_size then Some (HYPERAMP_ERROR, m)
           else do {
             m \<leftarrow> hyperamp_spinlock_lock m (fld queue OFF_queue_lock) zone_id;
             let header = hyperamp_safe_read_u16 m queue OFF_header;
             let tail = hyperamp_safe_read_u16 m queue OFF_tail;
             let new_header = header + 1;
             let new_header = (if new_header \<ge> capacity then new_header - capacity else new_header);
             if new_header = tail
             then Some (HYPERAMP_AGAIN, hyperamp_spinlock_unlock m (fld queue OFF_queue_lock))
             else do {
               let write_addr = virt_base + (ucast header + 1) * ucast block_size;
               let m = hyperamp_safe_memcpy m write_addr data data_len;
               let m = write_u16 m (fld queue OFF_header) new_header;
               let enqueue_count = hyperamp_safe_read_u32 m queue OFF_enqueue_count;
               let m = write_u32 m (fld queue OFF_enqueue_count) (enqueue_count + 1);
               Some (HYPERAMP_OK, hyperamp_spinlock_unlock m (fld queue OFF_queue_lock))
             }
           })"

definition hyperamp_queue_dequeue ::
  "mem \<Rightarrow> addr \<Rightarrow> u32 \<Rightarrow> addr \<Rightarrow> u64 \<Rightarrow> addr \<Rightarrow> addr \<Rightarrow> (int \<times> mem) option" where
  "hyperamp_queue_dequeue m queue zone_id data max_len actual_len virt_base =
     (if queue = 0 \<or> data = 0 \<or> max_len = 0 then Some (HYPERAMP_ERROR, m)
      else do {
        m \<leftarrow> hyperamp_spinlock_lock m (fld queue OFF_queue_lock) zone_id;
        let header = hyperamp_safe_read_u16 m queue OFF_header;
        let tail = hyperamp_safe_read_u16 m queue OFF_tail;
        let block_size = hyperamp_safe_read_u16 m queue OFF_block_size;
        let capacity = hyperamp_safe_read_u16 m queue OFF_capacity;
        if tail = header
        then Some (HYPERAMP_AGAIN, hyperamp_spinlock_unlock m (fld queue OFF_queue_lock))
        else do {
          let read_addr = virt_base + (ucast tail + 1) * ucast block_size;
          let read_len = (if max_len < ucast block_size then max_len else ucast block_size);
          let m = hyperamp_safe_memcpy m data read_addr read_len;
          let m = (if actual_len \<noteq> 0 then write_u64 m actual_len read_len else m);
          let new_tail = tail + 1;
          let new_tail = (if new_tail \<ge> capacity then new_tail - capacity else new_tail);
          let m = write_u16 m (fld queue OFF_tail) new_tail;
          let dequeue_count = hyperamp_safe_read_u32 m queue OFF_dequeue_count;
          let m = write_u32 m (fld queue OFF_dequeue_count) (dequeue_count + 1);
          Some (HYPERAMP_OK, hyperamp_spinlock_unlock m (fld queue OFF_queue_lock))
        }
      })"

text \<open>\<^verbatim>\<open>config\<close> is \<open>None\<close> for the null pointer. A byte store \<^verbatim>\<open>p[k] = v\<close> is \<open>m(fld p k := v)\<close>.\<close>

definition hyperamp_queue_init ::
  "mem \<Rightarrow> addr \<Rightarrow> HyperampQueueConfig option \<Rightarrow> bool \<Rightarrow> int \<times> mem" where
  "hyperamp_queue_init m queue config is_creator =
     (case config of
        None \<Rightarrow> (HYPERAMP_ERROR, m)
      | Some config \<Rightarrow>
          if queue = 0 then (HYPERAMP_ERROR, m)
          else if cfg_block_size config = 0 \<or> cfg_capacity config = 0 then (HYPERAMP_ERROR, m)
          else if is_creator then
            let m = m(fld queue OFF_map_mode1 := ucast (cfg_map_mode config));
                m = m(fld queue OFF_map_mode2 := ucast (cfg_map_mode config));
                m = write_u16 m (fld queue OFF_header) 0;
                m = write_u16 m (fld queue OFF_tail) 0;
                m = write_u16 m (fld queue OFF_capacity) (cfg_capacity config);
                m = write_u16 m (fld queue OFF_block_size) (cfg_block_size config);
                m = write_u16 m (fld queue OFF_reserved) 0;
                m = write_u64 m (fld queue OFF_phy_addr) (cfg_phy_addr config);
                m = write_u64 m (fld queue OFF_virt_addr1) (cfg_virt_addr config);
                m = write_u64 m (fld queue OFF_virt_addr2) 0;
                m = hyperamp_spinlock_init m (fld queue OFF_queue_lock);
                m = write_u32 m (fld queue OFF_magic) HYPERAMP_QUEUE_MAGIC;
                m = write_u32 m (fld queue (OFF_magic + 4)) 1;
                m = write_u32 m (fld queue (OFF_magic + 8)) 0;
                m = write_u32 m (fld queue (OFF_magic + 12)) 0
            in (HYPERAMP_OK, m)
          else (HYPERAMP_OK, write_u64 m (fld queue OFF_virt_addr2) (cfg_virt_addr config)))"

subsection \<open>The queue as a list of blocks\<close>

abbreviation q_header :: "mem \<Rightarrow> addr \<Rightarrow> u16" where "q_header m q \<equiv> read_u16 m (fld q OFF_header)"
abbreviation q_tail :: "mem \<Rightarrow> addr \<Rightarrow> u16" where "q_tail m q \<equiv> read_u16 m (fld q OFF_tail)"
abbreviation q_capacity :: "mem \<Rightarrow> addr \<Rightarrow> u16" where "q_capacity m q \<equiv> read_u16 m (fld q OFF_capacity)"
abbreviation q_block_size :: "mem \<Rightarrow> addr \<Rightarrow> u16" where "q_block_size m q \<equiv> read_u16 m (fld q OFF_block_size)"
abbreviation q_lock_value :: "mem \<Rightarrow> addr \<Rightarrow> u32" where "q_lock_value m q \<equiv> read_u32 m (fld q OFF_queue_lock)"
abbreviation q_enqueue_count :: "mem \<Rightarrow> addr \<Rightarrow> u32" where
  "q_enqueue_count m q \<equiv> read_u32 m (fld q OFF_enqueue_count)"
abbreviation q_dequeue_count :: "mem \<Rightarrow> addr \<Rightarrow> u32" where
  "q_dequeue_count m q \<equiv> read_u32 m (fld q OFF_dequeue_count)"

text \<open>Slot \<open>i\<close> of the data region, at \<^verbatim>\<open>virt_base + (i + 1) * block_size\<close>.\<close>

definition slot :: "addr \<Rightarrow> nat \<Rightarrow> nat \<Rightarrow> addr" where
  "slot vb bs i = vb + of_nat (Suc i * bs)"

text \<open>The slots fit the address space and lie outside the control block.\<close>

definition layout_ok :: "addr \<Rightarrow> addr \<Rightarrow> nat \<Rightarrow> nat \<Rightarrow> bool" where
  "layout_ok q vb cap bs \<longleftrightarrow>
     q \<noteq> 0 \<and> 0 < cap \<and> 0 < bs \<and> fits vb (Suc cap * bs) \<and> apart q SIZEOF_queue (slot vb bs 0) (cap * bs)"

text \<open>Well-formed control block: positive capacity and block size, indices below the capacity.\<close>

definition queue_wf :: "mem \<Rightarrow> addr \<Rightarrow> addr \<Rightarrow> bool" where
  "queue_wf m q vb \<longleftrightarrow>
     layout_ok q vb (unat (q_capacity m q)) (unat (q_block_size m q)) \<and>
     unat (q_header m q) < unat (q_capacity m q) \<and> unat (q_tail m q) < unat (q_capacity m q)"

definition queue_len :: "mem \<Rightarrow> addr \<Rightarrow> nat" where
  "queue_len m q = ring_count (unat (q_capacity m q)) (unat (q_tail m q)) (unat (q_header m q))"

text \<open>The blocks in the queue, oldest first.\<close>

definition queue_list :: "mem \<Rightarrow> addr \<Rightarrow> addr \<Rightarrow> u8 list list" where
  "queue_list m q vb =
     map (\<lambda>k. bytes_at m (slot vb (unat (q_block_size m q)) ((unat (q_tail m q) + k) mod unat (q_capacity m q)))
                (unat (q_block_size m q)))
         [0..<queue_len m q]"

text \<open>A private buffer of the caller: outside the control block and the slots.\<close>

definition outside :: "mem \<Rightarrow> addr \<Rightarrow> addr \<Rightarrow> addr \<Rightarrow> nat \<Rightarrow> bool" where
  "outside m q vb a n \<longleftrightarrow>
     apart a n q SIZEOF_queue \<and>
     apart a n (slot vb (unat (q_block_size m q)) 0) (unat (q_capacity m q) * unat (q_block_size m q))"

subsection \<open>Fields of the control block are independent\<close>

lemma fld_fld [simp]: "fld (fld q i) j = fld q (i + j)"
  by (simp add: fld_def add.assoc)

lemma fld_off: "fld q i + of_nat j = q + of_nat (i + j)"
  by (simp add: fld_def add.assoc)

lemma read_write_fld_gen:
  assumes "fits q N" "i + n \<le> j \<or> j + k \<le> i" "i + n \<le> N" "j + k \<le> N"
  shows "read_le n (write_le k m (fld q j) v) (fld q i) = read_le n m (fld q i)"
proof (rule read_le_cong, rule write_le_other)
  fix a b assume ab: "a < n" "b < k"
  then have "i + a < 2 ^ 64" "j + b < 2 ^ 64" using assms by (auto simp: fits_def)
  then show "fld q i + of_nat a \<noteq> fld q j + of_nat b"
    using assms ab off_eq_iff[of "i + a" "j + b" q] by (auto simp: fld_off simp del: of_nat_add)
qed

lemma fld_neq_apart:
  assumes "apart dst n q N" "j + k \<le> N" "a < k" "b < n"
  shows "fld q j + of_nat a \<noteq> dst + of_nat b"
  using apart_neq[OF assms(1), of b "j + a"] assms(2-4) by (auto simp: fld_off simp del: of_nat_add)

lemma read_copy_fld_gen:
  assumes "apart dst n q N" "j + k \<le> N"
  shows "read_le k (copy_bytes m dst src n) (fld q j) = read_le k m (fld q j)"
  by (rule read_le_cong, rule copy_bytes_other) (rule fld_neq_apart[OF assms])

lemma read_write_buf_fld_gen:
  assumes "apart dst n q N" "j + k \<le> N"
  shows "read_le k (write_le n m dst v) (fld q j) = read_le k m (fld q j)"
  by (rule read_le_cong, rule write_le_other) (rule fld_neq_apart[OF assms])

lemma write_fld_other:
  assumes "apart a n q N" "j + k \<le> N" "i < n"
  shows "write_le k m (fld q j) v (a + of_nat i) = m (a + of_nat i)"
  by (rule write_le_other) (use fld_neq_apart[OF assms(1,2) _ assms(3)] in metis)

lemma bytes_at_write_fld_gen:
  assumes "apart a n q N" "j + k \<le> N"
  shows "bytes_at (write_le k m (fld q j) v) a n = bytes_at m a n"
  by (rule bytes_at_cong) (rule write_fld_other[OF assms])

lemma read_write_fld_outside_gen:
  assumes "apart a n q N" "j + k \<le> N"
  shows "read_le n (write_le k m (fld q j) v) a = read_le n m a"
  by (rule read_le_cong) (rule write_fld_other[OF assms])

lemmas read_write_fld [mem_simps] = read_write_fld_gen[where N = SIZEOF_queue]
lemmas read_copy_fld [mem_simps] = read_copy_fld_gen[where N = SIZEOF_queue]
lemmas read_write_buf_fld [mem_simps] = read_write_buf_fld_gen[where N = SIZEOF_queue]
lemmas bytes_at_write_fld [mem_simps] = bytes_at_write_fld_gen[where N = SIZEOF_queue]
lemmas read_write_fld_outside [mem_simps] = read_write_fld_outside_gen[where N = SIZEOF_queue]

subsection \<open>Slots are disjoint\<close>

lemma slot_word: "vb + (ucast h + 1) * ucast bs = slot vb (unat (bs :: u16)) (unat (h :: u16))"
proof -
  have h: "(ucast h :: addr) = of_nat (unat h)" by simp
  have b: "(ucast bs :: addr) = of_nat (unat bs)" by simp
  show ?thesis unfolding slot_def h b by (simp add: algebra_simps del: word_of_nat_eq_iff of_nat_unat)
qed

lemma unat_slot: "fits vb (Suc cap * bs) \<Longrightarrow> i < cap \<Longrightarrow> 0 < bs \<Longrightarrow> unat (slot vb bs i) = unat vb + Suc i * bs"
  unfolding slot_def by (rule unat_add_off) auto

lemma slot_in_region: "i < cap \<Longrightarrow> Suc i * bs + bs \<le> Suc cap * (bs::nat)"
  using mult_le_mono1[of "Suc (Suc i)" "Suc cap" bs] by simp

lemma slot_apart_slot:
  assumes "fits vb (Suc cap * bs)" "i < cap" "j < cap" "i \<noteq> j" "0 < bs"
  shows "apart (slot vb bs i) bs (slot vb bs j) bs"
proof -
  have "Suc i * bs + bs \<le> Suc j * bs \<or> Suc j * bs + bs \<le> Suc i * bs"
    using assms(4) mult_le_mono1[of "Suc (Suc i)" "Suc j" bs] mult_le_mono1[of "Suc (Suc j)" "Suc i" bs]
    by (cases "i < j") auto
  then show ?thesis
    unfolding slot_def using assms slot_in_region[of i cap bs] slot_in_region[of j cap bs]
    by (intro apart_inside[OF assms(1)]) auto
qed

lemma apart_region_slot:
  assumes "apart a n (slot vb bs 0) (cap * bs)" "i < cap"
  shows "apart a n (slot vb bs i) bs"
proof -
  have le: "i * bs + bs \<le> cap * bs" using assms(2) mult_le_mono1[of "Suc i" cap bs] by simp
  have eq: "slot vb bs i = slot vb bs 0 + of_nat (i * bs)" by (simp add: slot_def algebra_simps)
  show ?thesis
  proof (cases "bs = 0")
    case True
    then show ?thesis using assms by (simp add: slot_def)
  next
    case False
    then have "unat (slot vb bs i) = unat (slot vb bs 0) + i * bs"
      unfolding eq using assms le by (intro unat_add_off[of _ "cap * bs"]) (use False in \<open>auto simp: apart_def\<close>)
    then show ?thesis using assms le by (auto simp: apart_def fits_def)
  qed
qed

lemma layout_slot_ctl: "layout_ok q vb cap bs \<Longrightarrow> i < cap \<Longrightarrow> apart (slot vb bs i) bs q SIZEOF_queue"
  unfolding layout_ok_def by (blast intro: apart_sym apart_region_slot)

lemma layout_fits: "layout_ok q vb cap bs \<Longrightarrow> fits q SIZEOF_queue"
  by (simp add: layout_ok_def apart_def)

lemma next_index:
  assumes "unat h < unat cap"
  shows "unat (let n = h + 1 in if n \<ge> cap then n - cap else (n :: u16)) = Suc (unat h) mod unat cap"
proof -
  have "unat cap < 2 ^ 16" using unsigned_less[of cap] by simp
  then have s: "unat (h + 1) = Suc (unat h)" using assms by (simp add: unat_word_ariths)
  then show ?thesis using assms
    by (auto simp: word_le_nat_alt mod_if unat_sub Let_def)
qed

subsection \<open>What the operations do on a well-formed queue\<close>

lemma queue_wf_layout: "queue_wf m q vb \<Longrightarrow> layout_ok q vb (unat (q_capacity m q)) (unat (q_block_size m q))"
  by (simp add: queue_wf_def)

lemma queue_wf_fits: "queue_wf m q vb \<Longrightarrow> fits q SIZEOF_queue"
  using layout_fits queue_wf_layout by blast

lemma queue_wf_index:
  "queue_wf m q vb \<Longrightarrow> unat (q_header m q) < unat (q_capacity m q)"
  "queue_wf m q vb \<Longrightarrow> unat (q_tail m q) < unat (q_capacity m q)"
  by (auto simp: queue_wf_def)

lemma queue_wf_slot: "queue_wf m q vb \<Longrightarrow> i < unat (q_capacity m q) \<Longrightarrow>
    apart (slot vb (unat (q_block_size m q)) i) (unat (q_block_size m q)) q SIZEOF_queue"
  using layout_slot_ctl queue_wf_layout by blast

lemma queue_wf_slots: "queue_wf m q vb \<Longrightarrow> i < unat (q_capacity m q) \<Longrightarrow> j < unat (q_capacity m q) \<Longrightarrow> i \<noteq> j \<Longrightarrow>
    apart (slot vb (unat (q_block_size m q)) i) (unat (q_block_size m q))
          (slot vb (unat (q_block_size m q)) j) (unat (q_block_size m q))"
  by (rule slot_apart_slot[of _ "unat (q_capacity m q)"]) (auto simp: queue_wf_def layout_ok_def)

lemma queue_len_less: "queue_wf m q vb \<Longrightarrow> queue_len m q < unat (q_capacity m q)"
  by (simp add: queue_wf_def queue_len_def ring_count_less)

lemma length_queue_list [simp]: "length (queue_list m q vb) = queue_len m q"
  by (simp add: queue_list_def)

lemma outside_slot:
  "outside m q vb a n \<Longrightarrow> i < unat (q_capacity m q) \<Longrightarrow>
   apart a n (slot vb (unat (q_block_size m q)) i) (unat (q_block_size m q))"
  by (auto simp: outside_def intro: apart_region_slot)

lemma fld_neq_0: 
  assumes "fits q n" "0 < i" "i < n"
  shows "fld q i \<noteq> 0"
proof -
  have "unat (fld q i) = unat q + i" using assms by (simp add: fld_def unat_add_off)
  then have "unat (fld q i) \<noteq> 0" using assms(2) by linarith
  then show ?thesis by (metis unsigned_0)
qed

text \<open>The memory once the lock of queue \<open>q\<close> is taken, and once it is released.\<close>

definition locked :: "mem \<Rightarrow> addr \<Rightarrow> u32 \<Rightarrow> mem" where
  "locked m q z =
    write_u32 (write_u32 (write_u32 m (fld q 4036) 1) (fld q 4040) z) (fld q 4044) (read_u32 m (fld q 4044) + 1)"

definition unlocked :: "mem \<Rightarrow> addr \<Rightarrow> mem" where
  "unlocked m q = write_u32 (write_u32 m (fld q 4040) 0) (fld q 4036) 0"

lemma lock_mem:
  assumes "fits q SIZEOF_queue"
  shows "hyperamp_spinlock_lock m (fld q OFF_queue_lock) z =
    (if q_lock_value m q = 0 then Some (locked m q z) else None)"
  using assms fld_neq_0[OF assms, of OFF_queue_lock]
  by (simp add: hyperamp_spinlock_lock_def locked_def Let_def mem_simps)

lemma unlock_mem: "fits q SIZEOF_queue \<Longrightarrow> hyperamp_spinlock_unlock m (fld q OFF_queue_lock) = unlocked m q"
  using fld_neq_0[of q SIZEOF_queue OFF_queue_lock] by (simp add: hyperamp_spinlock_unlock_def unlocked_def Let_def)

lemma read_locked [mem_simps]:
  "fits q SIZEOF_queue \<Longrightarrow> i + n \<le> 4036 \<or> 4048 \<le> i \<Longrightarrow> i + n \<le> SIZEOF_queue \<Longrightarrow>
   read_le n (locked m q z) (fld q i) = read_le n m (fld q i)"
  by (auto simp: locked_def mem_simps)

lemma read_unlocked [mem_simps]:
  "fits q SIZEOF_queue \<Longrightarrow> i + n \<le> 4036 \<or> 4048 \<le> i \<Longrightarrow> i + n \<le> SIZEOF_queue \<Longrightarrow>
   read_le n (unlocked m q) (fld q i) = read_le n m (fld q i)"
  by (auto simp: unlocked_def mem_simps)

lemma lock_value_unlocked [mem_simps]: "q_lock_value (unlocked m q) q = 0"
  by (simp add: unlocked_def)

lemma bytes_at_locked [mem_simps]:
  "apart a n q SIZEOF_queue \<Longrightarrow> bytes_at (locked m q z) a n = bytes_at m a n"
  "apart a n q SIZEOF_queue \<Longrightarrow> bytes_at (unlocked m q) a n = bytes_at m a n"
  by (simp_all add: locked_def unlocked_def mem_simps)

text \<open>The memory after a successful enqueue, as one chain of writes.\<close>

definition next_idx :: "u16 \<Rightarrow> u16 \<Rightarrow> u16" where
  "next_idx cap i = (let n = i + 1 in if n \<ge> cap then n - cap else n)"

definition enqueued :: "mem \<Rightarrow> addr \<Rightarrow> u32 \<Rightarrow> addr \<Rightarrow> nat \<Rightarrow> addr \<Rightarrow> mem" where
  "enqueued m q z data len vb =
    unlocked (write_u32 (write_u16
       (copy_bytes (locked m q z) (slot vb (unat (q_block_size m q)) (unat (q_header m q))) data len)
        (fld q OFF_header) (next_idx (q_capacity m q) (q_header m q)))
        (fld q OFF_enqueue_count) (q_enqueue_count m q + 1)) q"

lemma unat_next_idx: "unat i < unat cap \<Longrightarrow> unat (next_idx cap i) = Suc (unat i) mod unat cap"
  unfolding next_idx_def by (rule next_index)

lemma next_idx_eq_iff:
  "unat i < unat cap \<Longrightarrow> unat j < unat cap \<Longrightarrow> next_idx cap i = j \<longleftrightarrow> ring_count (unat cap) (unat j) (unat i) = unat cap - 1"
  using unat_next_idx[of i cap] ring_count_full[of "unat j" "unat cap" "unat i"] by (metis word_unat_eq_iff)

lemma len_block: "len \<le> (ucast (bs :: u16) :: u64) \<Longrightarrow> unat len \<le> unat bs"
  by (simp add: word_le_nat_alt unat_ucast_up)

lemma enqueue_mem:
  assumes wf: "queue_wf m q vb" and free: "q_lock_value m q = 0"
    and args: "data \<noteq> 0" "0 < len" "len \<le> ucast (q_block_size m q)"
  shows "hyperamp_queue_enqueue m q z data len vb =
    (if Suc (queue_len m q) = unat (q_capacity m q)
     then Some (HYPERAMP_AGAIN, unlocked (locked m q z) q)
     else Some (HYPERAMP_OK, enqueued m q z data (unat len) vb))"
proof -
  note f = queue_wf_fits[OF wf] and h = queue_wf_index[OF wf]
  have "q \<noteq> 0" using wf by (simp add: queue_wf_def layout_ok_def)
  have full: "next_idx (q_capacity m q) (q_header m q) = q_tail m q \<longleftrightarrow> Suc (queue_len m q) = unat (q_capacity m q)"
    using next_idx_eq_iff[OF h] queue_len_less[OF wf] by (auto simp: queue_len_def)
  have sl: "apart (slot vb (unat (q_block_size m q)) (unat (q_header m q))) (unat len) q SIZEOF_queue"
    using queue_wf_slot[OF wf h(1)] len_block[OF args(3)] by (rule apart_mono_left)
  show ?thesis
    unfolding hyperamp_queue_enqueue_def hyperamp_safe_read_u16_def hyperamp_safe_read_u32_def
      hyperamp_safe_memcpy_def lock_mem[OF f] unlock_mem[OF f] full[symmetric]
    using args \<open>q \<noteq> 0\<close> sl f free
    by (simp add: slot_word mem_simps not_less word_neq_0_conv enqueued_def Let_def next_idx_def)
qed


lemma enqueued_fields:
  assumes wf: "queue_wf m q vb" and len: "len \<le> unat (q_block_size m q)"
  shows "q_header (enqueued m q z data len vb) q = next_idx (q_capacity m q) (q_header m q)"
    "q_tail (enqueued m q z data len vb) q = q_tail m q"
    "q_capacity (enqueued m q z data len vb) q = q_capacity m q"
    "q_block_size (enqueued m q z data len vb) q = q_block_size m q"
    "q_lock_value (enqueued m q z data len vb) q = 0"
    "q_enqueue_count (enqueued m q z data len vb) q = q_enqueue_count m q + 1"
    "q_dequeue_count (enqueued m q z data len vb) q = q_dequeue_count m q"
  using queue_wf_fits[OF wf] apart_mono_left[OF queue_wf_slot[OF wf queue_wf_index(1)[OF wf]] len]
  by (simp_all add: enqueued_def mem_simps)

lemma enqueued_bytes:
  assumes "apart a n q SIZEOF_queue"
  shows "bytes_at (enqueued m q z data len vb) a n =
    bytes_at (copy_bytes (locked m q z) (slot vb (unat (q_block_size m q)) (unat (q_header m q))) data len) a n"
  using assms by (simp add: enqueued_def mem_simps)

lemma enqueued_old_block:
  assumes wf: "queue_wf m q vb" and len: "len \<le> unat (q_block_size m q)"
    and i: "i < unat (q_capacity m q)" "i \<noteq> unat (q_header m q)"
  shows "bytes_at (enqueued m q z data len vb) (slot vb (unat (q_block_size m q)) i) (unat (q_block_size m q)) =
    bytes_at m (slot vb (unat (q_block_size m q)) i) (unat (q_block_size m q))"
  using apart_mono_right[OF queue_wf_slots[OF wf i(1) queue_wf_index(1)[OF wf] i(2)] len] queue_wf_slot[OF wf i(1)]
  by (simp add: enqueued_bytes copy_bytes_apart mem_simps)

lemma enqueued_new_block:
  assumes wf: "queue_wf m q vb" and len: "len \<le> unat (q_block_size m q)" and out: "outside m q vb data len"
  shows "bytes_at (enqueued m q z data len vb) (slot vb (unat (q_block_size m q)) (unat (q_header m q))) (unat (q_block_size m q)) =
    bytes_at m data len @ drop len (bytes_at m (slot vb (unat (q_block_size m q)) (unat (q_header m q))) (unat (q_block_size m q)))"
proof -
  note h = queue_wf_index(1)[OF wf]
  note sl = queue_wf_slot[OF wf h]
  have "apart (slot vb (unat (q_block_size m q)) (unat (q_header m q))) len data len"
    using apart_mono_right[OF outside_slot[OF out h] len] by (rule apart_sym)
  moreover have "fits (slot vb (unat (q_block_size m q)) (unat (q_header m q))) (unat (q_block_size m q))"
    "apart data len q SIZEOF_queue" using sl out by (auto simp: apart_def outside_def)
  ultimately show ?thesis using sl len by (simp add: enqueued_bytes bytes_at_copy_prefix mem_simps)
qed

lemma enqueued_frame:
  assumes wf: "queue_wf m q vb" and len: "len \<le> unat (q_block_size m q)" and out: "outside m q vb a n"
  shows "bytes_at (enqueued m q z data len vb) a n = bytes_at m a n"
proof -
  have "apart a n q SIZEOF_queue" using out by (simp add: outside_def)
  then show ?thesis
    using apart_mono_right[OF outside_slot[OF out queue_wf_index(1)[OF wf]] len]
    by (simp add: enqueued_bytes copy_bytes_apart mem_simps)
qed

lemma enqueued_list:
  assumes wf: "queue_wf m q vb" and len: "len \<le> unat (q_block_size m q)" and out: "outside m q vb data len"
    and room: "Suc (queue_len m q) < unat (q_capacity m q)"
  shows "queue_list (enqueued m q z data len vb) q vb = queue_list m q vb @
    [bytes_at m data len @ drop len (bytes_at m (slot vb (unat (q_block_size m q)) (unat (q_header m q))) (unat (q_block_size m q)))]"
proof -
  note h = queue_wf_index[OF wf]
  note fs = enqueued_fields[OF wf len, of z data]
  have ne: "Suc (unat (q_header m q)) mod unat (q_capacity m q) \<noteq> unat (q_tail m q)"
    using ring_count_full[OF h(2,1)] room by (simp add: queue_len_def)
  have cnt: "queue_len (enqueued m q z data len vb) q = Suc (queue_len m q)"
    using h ne by (simp add: queue_len_def fs unat_next_idx ring_count_enq)
  have old: "(unat (q_tail m q) + k) mod unat (q_capacity m q) < unat (q_capacity m q)"
      "(unat (q_tail m q) + k) mod unat (q_capacity m q) \<noteq> unat (q_header m q)" if "k < queue_len m q" for k
    using that h ring_index_neq[OF h(2,1), of k] by (auto simp: queue_len_def)
  have last: "(unat (q_tail m q) + queue_len m q) mod unat (q_capacity m q) = unat (q_header m q)"
    using ring_index_end[OF h(2,1)] by (simp add: queue_len_def)
  show ?thesis
    unfolding queue_list_def cnt fs upt_Suc_append[OF le0] map_append list.map
    by (simp add: last enqueued_new_block[OF wf len out] enqueued_old_block[OF wf len] old)
qed

lemma enqueued_wf:
  "queue_wf m q vb \<Longrightarrow> len \<le> unat (q_block_size m q) \<Longrightarrow> queue_wf (enqueued m q z data len vb) q vb"
  by (auto simp: queue_wf_def[of "enqueued m q z data len vb"] enqueued_fields unat_next_idx queue_wf_index
      intro!: queue_wf_layout mod_less_divisor le_less_trans[OF le0 queue_wf_index(1)])

text \<open>The memory after a successful dequeue.\<close>

definition dequeued :: "mem \<Rightarrow> addr \<Rightarrow> u32 \<Rightarrow> addr \<Rightarrow> u64 \<Rightarrow> addr \<Rightarrow> addr \<Rightarrow> mem" where
  "dequeued m q z data len alen vb =
    (let m1 = copy_bytes (locked m q z) data (slot vb (unat (q_block_size m q)) (unat (q_tail m q))) (unat len);
         m2 = (if alen \<noteq> 0 then write_u64 m1 alen len else m1)
     in unlocked (write_u32 (write_u16 m2 (fld q OFF_tail) (next_idx (q_capacity m q) (q_tail m q)))
           (fld q OFF_dequeue_count) (q_dequeue_count m q + 1)) q)"

text \<open>The caller's buffers: the destination of \<open>len\<close> bytes, and the length word when it is given.\<close>

definition recv_bufs :: "mem \<Rightarrow> addr \<Rightarrow> addr \<Rightarrow> addr \<Rightarrow> nat \<Rightarrow> addr \<Rightarrow> bool" where
  "recv_bufs m q vb data len alen \<longleftrightarrow>
     data \<noteq> 0 \<and> outside m q vb data len \<and> (alen \<noteq> 0 \<longrightarrow> outside m q vb alen 8 \<and> apart alen 8 data len)"

definition read_len :: "mem \<Rightarrow> addr \<Rightarrow> u64 \<Rightarrow> u64" where
  "read_len m q max_len = (if max_len < ucast (q_block_size m q) then max_len else ucast (q_block_size m q))"

lemma read_len_le: "unat (read_len m q max_len) \<le> unat (q_block_size m q)"
  by (auto simp: read_len_def unat_ucast_up word_less_nat_alt)

lemma unat_read_len: "unat (read_len m q max_len) = min (unat max_len) (unat (q_block_size m q))"
  by (auto simp: read_len_def unat_ucast_up word_less_nat_alt)

lemma dequeue_mem:
  assumes wf: "queue_wf m q vb" and free: "q_lock_value m q = 0" and args: "0 < max_len"
    and bufs: "recv_bufs m q vb data (unat (read_len m q max_len)) alen"
  shows "hyperamp_queue_dequeue m q z data max_len alen vb =
    (if queue_len m q = 0
     then Some (HYPERAMP_AGAIN, unlocked (locked m q z) q)
     else Some (HYPERAMP_OK, dequeued m q z data (read_len m q max_len) alen vb))"
proof -
  note f = queue_wf_fits[OF wf] and h = queue_wf_index[OF wf]
  have "q \<noteq> 0" using wf by (simp add: queue_wf_def layout_ok_def)
  have empty: "q_tail m q = q_header m q \<longleftrightarrow> queue_len m q = 0"
    using ring_count_zero[OF h(2,1)] by (simp add: queue_len_def word_unat_eq_iff)
  have b: "apart data (unat (read_len m q max_len)) q SIZEOF_queue" "alen \<noteq> 0 \<Longrightarrow> apart alen 8 q SIZEOF_queue"
    "data \<noteq> 0" using bufs by (auto simp: recv_bufs_def outside_def)
  show ?thesis
    unfolding hyperamp_queue_dequeue_def hyperamp_safe_read_u16_def hyperamp_safe_read_u32_def
      hyperamp_safe_memcpy_def lock_mem[OF f] unlock_mem[OF f] empty[symmetric]
    using args \<open>q \<noteq> 0\<close> b f free
    by (cases "max_len < ucast (q_block_size m q)")
      (simp_all add: slot_word mem_simps word_neq_0_conv dequeued_def Let_def next_idx_def read_len_def)
qed

lemma dequeued_fields:
  assumes wf: "queue_wf m q vb" and bufs: "recv_bufs m q vb data (unat len) alen"
  shows "q_tail (dequeued m q z data len alen vb) q = next_idx (q_capacity m q) (q_tail m q)"
    "q_header (dequeued m q z data len alen vb) q = q_header m q"
    "q_capacity (dequeued m q z data len alen vb) q = q_capacity m q"
    "q_block_size (dequeued m q z data len alen vb) q = q_block_size m q"
    "q_lock_value (dequeued m q z data len alen vb) q = 0"
    "q_enqueue_count (dequeued m q z data len alen vb) q = q_enqueue_count m q"
    "q_dequeue_count (dequeued m q z data len alen vb) q = q_dequeue_count m q + 1"
  using queue_wf_fits[OF wf] bufs
  by (simp_all add: dequeued_def recv_bufs_def outside_def Let_def mem_simps)

lemma dequeued_bytes:
  assumes "apart a n q SIZEOF_queue" "apart a n data (unat len)" "alen \<noteq> 0 \<Longrightarrow> apart a n alen 8"
  shows "bytes_at (dequeued m q z data len alen vb) a n = bytes_at m a n"
  using assms by (simp add: dequeued_def Let_def mem_simps copy_bytes_apart bytes_at_write_apart)

lemma dequeued_block:
  assumes wf: "queue_wf m q vb" and bufs: "recv_bufs m q vb data (unat len) alen"
    and i: "i < unat (q_capacity m q)"
  shows "bytes_at (dequeued m q z data len alen vb) (slot vb (unat (q_block_size m q)) i) (unat (q_block_size m q)) =
    bytes_at m (slot vb (unat (q_block_size m q)) i) (unat (q_block_size m q))"
  using bufs queue_wf_slot[OF wf i]
  by (intro dequeued_bytes) (auto simp: recv_bufs_def intro: apart_sym outside_slot[OF _ i])

lemma dequeued_data:
  assumes wf: "queue_wf m q vb" and bufs: "recv_bufs m q vb data (unat len) alen"
    and len: "unat len \<le> unat (q_block_size m q)"
  shows "bytes_at (dequeued m q z data len alen vb) data (unat len) =
    bytes_at m (slot vb (unat (q_block_size m q)) (unat (q_tail m q))) (unat len)"
    "alen \<noteq> 0 \<Longrightarrow> read_u64 (dequeued m q z data len alen vb) alen = len"
proof -
  note t = queue_wf_index(2)[OF wf]
  have "apart data (unat len) (slot vb (unat (q_block_size m q)) (unat (q_tail m q))) (unat len)"
    using bufs outside_slot[OF _ t] len by (auto simp: recv_bufs_def intro: apart_mono_right)
  moreover have "apart (slot vb (unat (q_block_size m q)) (unat (q_tail m q))) (unat len) q SIZEOF_queue"
    using apart_mono_left[OF queue_wf_slot[OF wf t] len] .
  ultimately show "bytes_at (dequeued m q z data len alen vb) data (unat len) =
    bytes_at m (slot vb (unat (q_block_size m q)) (unat (q_tail m q))) (unat len)"
    using bufs apart_sym[of alen 8 data]
    by (simp add: dequeued_def recv_bufs_def outside_def Let_def mem_simps bytes_at_write_apart bytes_at_copy)
  show "read_u64 (dequeued m q z data len alen vb) alen = len" if "alen \<noteq> 0"
    using bufs that
    by (simp add: dequeued_def unlocked_def recv_bufs_def outside_def Let_def mem_simps)
qed

lemma dequeued_list:
  assumes wf: "queue_wf m q vb" and bufs: "recv_bufs m q vb data (unat len) alen"
    and ne: "queue_len m q \<noteq> 0"
  shows "queue_list m q vb = bytes_at m (slot vb (unat (q_block_size m q)) (unat (q_tail m q))) (unat (q_block_size m q))
      # queue_list (dequeued m q z data len alen vb) q vb"
proof -
  note h = queue_wf_index[OF wf]
  note fs = dequeued_fields[OF wf bufs, of z]
  have "unat (q_tail m q) \<noteq> unat (q_header m q)" using ne ring_count_zero[OF h(2,1)] by (simp add: queue_len_def)
  then have cnt: "Suc (queue_len (dequeued m q z data len alen vb) q) = queue_len m q"
    using h by (simp add: queue_len_def fs unat_next_idx ring_count_deq)
  have idx: "(unat (q_tail m q) + k) mod unat (q_capacity m q) < unat (q_capacity m q)" for k
    using h(1) by simp
  show ?thesis
    unfolding queue_list_def cnt[symmetric] fs upt_conv_Cons[OF zero_less_Suc] map_Suc_upt[symmetric] list.map
    by (simp add: unat_next_idx[OF h(2)] ring_index_shift dequeued_block[OF wf bufs] idx mod_less[OF h(2)]
        del: add_Suc_right)
qed

lemma dequeued_wf:
  "queue_wf m q vb \<Longrightarrow> recv_bufs m q vb data (unat len) alen \<Longrightarrow> queue_wf (dequeued m q z data len alen vb) q vb"
  by (auto simp: queue_wf_def[of "dequeued m q z data len alen vb"] dequeued_fields unat_next_idx queue_wf_index
      intro!: queue_wf_layout mod_less_divisor le_less_trans[OF le0 queue_wf_index(1)])

text \<open>Taking and releasing the lock changes neither the indices nor the blocks.\<close>

lemma unlocked_locked:
  assumes "queue_wf m q vb"
  shows "queue_wf (unlocked (locked m q z) q) q vb" "q_lock_value (unlocked (locked m q z) q) q = 0"
    "queue_list (unlocked (locked m q z) q) q vb = queue_list m q vb"
    "queue_len (unlocked (locked m q z) q) q = queue_len m q"
  using assms queue_wf_fits[OF assms] queue_wf_slot[OF assms] queue_wf_index[OF assms]
  by (auto simp: queue_wf_def queue_list_def queue_len_def mem_simps)

lemma unlocked_locked_frame:
  assumes "queue_wf m q vb"
  shows "outside m q vb a n \<Longrightarrow> bytes_at (unlocked (locked m q z) q) a n = bytes_at m a n"
    "q_capacity (unlocked (locked m q z) q) q = q_capacity m q" "q_block_size (unlocked (locked m q z) q) q = q_block_size m q"
    "q_enqueue_count (unlocked (locked m q z) q) q = q_enqueue_count m q"
    "q_dequeue_count (unlocked (locked m q z) q) q = q_dequeue_count m q"
  using queue_wf_fits[OF assms] by (auto simp: outside_def unlocked_def locked_def mem_simps)

subsection \<open>Initialisation\<close>

lemma byte_write_le: "(m :: mem)(a := v) = write_le 1 m a v"
  by (auto simp: write_le_def bit_simps intro!: bit_word_eqI arg_cong[of _ _ "fun_upd m a"])

lemma byte_read_le: "m a = (read_le 1 m a :: u8)"
  by (simp add: read_le_def)

text \<open>The memory after the creator has initialised a queue.\<close>

definition inited :: "mem \<Rightarrow> addr \<Rightarrow> HyperampQueueConfig \<Rightarrow> mem" where
  "inited m q c = snd (hyperamp_queue_init m q (Some c) True)"

lemma init_creator_mem:
  "q \<noteq> 0 \<Longrightarrow> cfg_block_size c \<noteq> 0 \<Longrightarrow> cfg_capacity c \<noteq> 0 \<Longrightarrow>
   hyperamp_queue_init m q (Some c) True = (HYPERAMP_OK, inited m q c)"
  by (simp add: inited_def hyperamp_queue_init_def Let_def)

lemma inited_fields:
  assumes "q \<noteq> 0" "cfg_block_size c \<noteq> 0" "cfg_capacity c \<noteq> 0" "fits q SIZEOF_queue"
  shows "q_header (inited m q c) q = 0" "q_tail (inited m q c) q = 0"
    "q_capacity (inited m q c) q = cfg_capacity c" "q_block_size (inited m q c) q = cfg_block_size c"
    "q_lock_value (inited m q c) q = 0"
    "q_enqueue_count (inited m q c) q = 0" "q_dequeue_count (inited m q c) q = 0"
    "read_u32 (inited m q c) (fld q OFF_magic) = HYPERAMP_QUEUE_MAGIC"
    "read_u32 (inited m q c) (fld q OFF_version) = 1"
    "read_u64 (inited m q c) (fld q OFF_phy_addr) = cfg_phy_addr c"
    "read_u64 (inited m q c) (fld q OFF_virt_addr1) = cfg_virt_addr c"
    "read_u64 (inited m q c) (fld q OFF_virt_addr2) = 0"
    "(read_le 1 (inited m q c) (fld q OFF_map_mode1) :: u8) = ucast (cfg_map_mode c)"
    "(read_le 1 (inited m q c) (fld q OFF_map_mode2) :: u8) = ucast (cfg_map_mode c)"
  using assms fld_neq_0[OF assms(4), of OFF_queue_lock]
  by (simp_all add: inited_def hyperamp_queue_init_def hyperamp_spinlock_init_def Let_def
      byte_write_le mem_simps read_write_le)

lemma inited_frame:
  assumes "q \<noteq> 0" "cfg_block_size c \<noteq> 0" "cfg_capacity c \<noteq> 0" "apart a n q SIZEOF_queue"
  shows "bytes_at (inited m q c) a n = bytes_at m a n"
  using assms
  by (simp add: inited_def hyperamp_queue_init_def hyperamp_spinlock_init_def Let_def byte_write_le mem_simps)

subsection \<open>The queue is a bounded first-in first-out queue\<close>

text \<open>Steps of the zones that share a queue. A sender calls enqueue with a buffer of its own;
  the block it adds is its data followed by what the slot held before.\<close>

definition shm_send :: "addr \<Rightarrow> addr \<Rightarrow> mem \<Rightarrow> u8 list \<Rightarrow> mem \<Rightarrow> bool" where
  "shm_send q vb m x m' \<longleftrightarrow> (\<exists>z data len. data \<noteq> 0 \<and> 0 < len \<and> len \<le> ucast (q_block_size m q) \<and>
     outside m q vb data (unat len) \<and>
     hyperamp_queue_enqueue m q z data len vb = Some (HYPERAMP_OK, m') \<and>
     x = bytes_at m data (unat len) @
         drop (unat len) (bytes_at m (slot vb (unat (q_block_size m q)) (unat (q_header m q))) (unat (q_block_size m q))))"

text \<open>A receiver calls dequeue with a buffer of at least one block.\<close>

definition shm_recv :: "addr \<Rightarrow> addr \<Rightarrow> mem \<Rightarrow> u8 list \<Rightarrow> mem \<Rightarrow> bool" where
  "shm_recv q vb m x m' \<longleftrightarrow> (\<exists>z data max_len alen. ucast (q_block_size m q) \<le> max_len \<and>
     recv_bufs m q vb data (unat (q_block_size m q)) alen \<and>
     hyperamp_queue_dequeue m q z data max_len alen vb = Some (HYPERAMP_OK, m') \<and>
     x = bytes_at m' data (unat (q_block_size m q)))"

text \<open>A zone finds the queue full or empty, or writes memory of its own.\<close>

definition shm_idle :: "addr \<Rightarrow> addr \<Rightarrow> mem \<Rightarrow> mem \<Rightarrow> bool" where
  "shm_idle q vb m m' \<longleftrightarrow>
     (\<exists>z data len. data \<noteq> 0 \<and> 0 < len \<and> len \<le> ucast (q_block_size m q) \<and>
        hyperamp_queue_enqueue m q z data len vb = Some (HYPERAMP_AGAIN, m')) \<or>
     (\<exists>z data max_len alen. 0 < max_len \<and> recv_bufs m q vb data (unat (read_len m q max_len)) alen \<and>
        hyperamp_queue_dequeue m q z data max_len alen vb = Some (HYPERAMP_AGAIN, m')) \<or>
     (bytes_at m' q SIZEOF_queue = bytes_at m q SIZEOF_queue \<and>
      bytes_at m' (slot vb (unat (q_block_size m q)) 0) (unat (q_capacity m q) * unat (q_block_size m q)) =
      bytes_at m (slot vb (unat (q_block_size m q)) 0) (unat (q_capacity m q) * unat (q_block_size m q)))"

definition shm_inv :: "addr \<Rightarrow> addr \<Rightarrow> mem \<Rightarrow> bool" where
  "shm_inv q vb m \<longleftrightarrow> queue_wf m q vb \<and> q_lock_value m q = 0"

lemma bytes_at_eqD: "bytes_at m' a n = bytes_at m a n \<Longrightarrow> i < n \<Longrightarrow> m' (a + of_nat i) = m (a + of_nat i)"
  by (metis nth_bytes_at)

lemma read_fld_same:
  assumes "bytes_at m' q SIZEOF_queue = bytes_at m q SIZEOF_queue" "i + n \<le> SIZEOF_queue"
  shows "read_le n m' (fld q i) = read_le n m (fld q i)"
  using bytes_at_eqD[OF assms(1)] assms(2) by (intro read_le_cong) (simp add: fld_off del: of_nat_add)

lemma slot_same:
  assumes "bytes_at m' (slot vb bs 0) (cap * bs) = bytes_at m (slot vb bs 0) (cap * bs)" "i < cap"
  shows "bytes_at m' (slot vb bs i) bs = bytes_at m (slot vb bs i) bs"
proof (rule bytes_at_cong)
  fix j assume "j < bs"
  then have "i * bs + j < cap * bs" using assms(2) mult_le_mono1[of "Suc i" cap bs] by simp
  moreover have "slot vb bs i + of_nat j = slot vb bs 0 + of_nat (i * bs + j)" by (simp add: slot_def algebra_simps)
  ultimately show "m' (slot vb bs i + of_nat j) = m (slot vb bs i + of_nat j)"
    using bytes_at_eqD[OF assms(1), of "i * bs + j"] by (simp only:)
qed

lemma shm_send_law:
  assumes "shm_inv q vb m" "shm_send q vb m x m'"
  shows "shm_inv q vb m' \<and> queue_list m' q vb = queue_list m q vb @ [x] \<and> q_capacity m' q = q_capacity m q"
proof -
  from assms(1) have wf: "queue_wf m q vb" and free: "q_lock_value m q = 0" by (auto simp: shm_inv_def)
  obtain z data len where a: "data \<noteq> 0" "0 < len" "len \<le> ucast (q_block_size m q)" "outside m q vb data (unat len)"
    "hyperamp_queue_enqueue m q z data len vb = Some (HYPERAMP_OK, m')"
    "x = bytes_at m data (unat len) @
         drop (unat len) (bytes_at m (slot vb (unat (q_block_size m q)) (unat (q_header m q))) (unat (q_block_size m q)))"
    using assms(2) unfolding shm_send_def by blast
  note len = len_block[OF a(3)]
  have "Suc (queue_len m q) < unat (q_capacity m q)" "m' = enqueued m q z data (unat len) vb"
    using a(5) enqueue_mem[OF wf free a(1,2,3), of z] queue_len_less[OF wf] by (auto split: if_splits)
  then show ?thesis
    using enqueued_list[OF wf len a(4)] enqueued_wf[OF wf len] enqueued_fields[OF wf len] a(6)
    by (simp add: shm_inv_def)
qed

lemma shm_recv_law:
  assumes "shm_inv q vb m" "shm_recv q vb m x m'"
  shows "shm_inv q vb m' \<and> queue_list m q vb = x # queue_list m' q vb \<and> q_capacity m' q = q_capacity m q"
proof -
  from assms(1) have wf: "queue_wf m q vb" and free: "q_lock_value m q = 0" by (auto simp: shm_inv_def)
  obtain z data max_len alen where a: "ucast (q_block_size m q) \<le> max_len"
    "recv_bufs m q vb data (unat (q_block_size m q)) alen"
    "hyperamp_queue_dequeue m q z data max_len alen vb = Some (HYPERAMP_OK, m')"
    "x = bytes_at m' data (unat (q_block_size m q))"
    using assms(2) unfolding shm_recv_def by blast
  have rl: "read_len m q max_len = ucast (q_block_size m q)" using a(1) by (auto simp: read_len_def)
  have bs: "unat (ucast (q_block_size m q) :: u64) = unat (q_block_size m q)" by (simp add: unat_ucast_up)
  have "0 < unat (q_block_size m q)" using wf by (simp add: queue_wf_def layout_ok_def)
  moreover have "unat (q_block_size m q) \<le> unat max_len" using a(1) by (simp add: word_le_nat_alt bs)
  ultimately have pos: "0 < max_len" by (simp add: word_less_nat_alt)
  note b = a(2)[folded bs]
  have "queue_len m q \<noteq> 0" "m' = dequeued m q z data (ucast (q_block_size m q)) alen vb"
    using a(3) dequeue_mem[OF wf free pos, of data alen z] b by (auto simp: rl split: if_splits)
  then show ?thesis
    using dequeued_list[OF wf b] dequeued_wf[OF wf b] dequeued_fields[OF wf b]
      dequeued_data(1)[OF wf b] a(4) by (simp add: shm_inv_def bs)
qed

lemma shm_idle_law:
  assumes "shm_inv q vb m" "shm_idle q vb m m'"
  shows "shm_inv q vb m' \<and> queue_list m' q vb = queue_list m q vb \<and> q_capacity m' q = q_capacity m q"
proof -
  from assms(1) have wf: "queue_wf m q vb" and free: "q_lock_value m q = 0" by (auto simp: shm_inv_def)
  have refused: ?thesis if "m' = unlocked (locked m q z) q" for z
    using unlocked_locked[OF wf] queue_wf_fits[OF wf] that by (simp add: shm_inv_def mem_simps)
  from assms(2) consider z where "m' = unlocked (locked m q z) q"
    | "bytes_at m' q SIZEOF_queue = bytes_at m q SIZEOF_queue"
      "bytes_at m' (slot vb (unat (q_block_size m q)) 0) (unat (q_capacity m q) * unat (q_block_size m q)) =
       bytes_at m (slot vb (unat (q_block_size m q)) 0) (unat (q_capacity m q) * unat (q_block_size m q))"
    unfolding shm_idle_def using enqueue_mem[OF wf free] dequeue_mem[OF wf free] by (auto split: if_splits)
  then show ?thesis
  proof cases
    case 1
    then show ?thesis by (rule refused)
  next
    case 2
    note same = read_fld_same[OF 2(1)]
    have "bytes_at m' (slot vb (unat (q_block_size m q)) ((unat (q_tail m q) + k) mod unat (q_capacity m q))) (unat (q_block_size m q)) =
      bytes_at m (slot vb (unat (q_block_size m q)) ((unat (q_tail m q) + k) mod unat (q_capacity m q))) (unat (q_block_size m q))" for k
      using queue_wf_index(1)[OF wf] by (intro slot_same[OF 2(2)] mod_less_divisor) simp
    then show ?thesis using wf free by (simp add: shm_inv_def queue_wf_def queue_list_def queue_len_def same)
  qed
qed

interpretation shmq: bounded_fifo "shm_inv q vb" "\<lambda>m. queue_list m q vb" "\<lambda>m. unat (q_capacity m q) - 1"
    "shm_send q vb" "shm_recv q vb" "shm_idle q vb" for q vb
proof (unfold_locales, goal_cases)
  case (1 s x s')
  then show ?case using shm_send_law[of q vb s x s'] by simp
next
  case (2 s y s')
  then show ?case using shm_recv_law[of q vb s y s'] by simp
next
  case (3 s s')
  then show ?case using shm_idle_law[of q vb s s'] by simp
next
  case (4 s)
  then show ?case using queue_len_less[of s q vb] by (simp add: shm_inv_def)
qed

subsection \<open>Properties\<close>

text \<open>C1: on a well-formed queue whose lock is free, enqueueing a buffer of 1 to
  \<^verbatim>\<open>block_size\<close> bytes that lies outside the queue always returns. With fewer than
  \<^verbatim>\<open>capacity - 1\<close> blocks queued it returns OK, the queue is well formed and unlocked again, its
  list is the old list followed by the data (with the slot's old bytes behind it), the counter of
  enqueued blocks went up by one. Otherwise it returns another result than OK and the queue holds the same list, with the
  same counters. In both cases no byte outside the queue changed.\<close>

theorem enqueue_refines:
  assumes wf: "queue_wf m q vb" and free: "q_lock_value m q = 0"
    and args: "data \<noteq> 0" "0 < len" "len \<le> ucast (q_block_size m q)"
    and out: "outside m q vb data (unat len)"
  shows "if Suc (queue_len m q) < unat (q_capacity m q)
    then \<exists>m'. hyperamp_queue_enqueue m q z data len vb = Some (HYPERAMP_OK, m') \<and>
      queue_wf m' q vb \<and> q_lock_value m' q = 0 \<and>
      q_capacity m' q = q_capacity m q \<and> q_block_size m' q = q_block_size m q \<and>
      queue_list m' q vb = queue_list m q vb @ [bytes_at m data (unat len) @
        drop (unat len) (bytes_at m (slot vb (unat (q_block_size m q)) (unat (q_header m q))) (unat (q_block_size m q)))] \<and>
      q_enqueue_count m' q = q_enqueue_count m q + 1 \<and> q_dequeue_count m' q = q_dequeue_count m q \<and>
      (\<forall>a n. outside m q vb a n \<longrightarrow> bytes_at m' a n = bytes_at m a n)
    else \<exists>r m'. hyperamp_queue_enqueue m q z data len vb = Some (r, m') \<and> r \<noteq> HYPERAMP_OK \<and>
      queue_wf m' q vb \<and> q_lock_value m' q = 0 \<and> queue_list m' q vb = queue_list m q vb \<and>
      q_capacity m' q = q_capacity m q \<and> q_block_size m' q = q_block_size m q \<and>
      q_enqueue_count m' q = q_enqueue_count m q \<and> q_dequeue_count m' q = q_dequeue_count m q \<and>
      (\<forall>a n. outside m q vb a n \<longrightarrow> bytes_at m' a n = bytes_at m a n)"
proof (cases "Suc (queue_len m q) < unat (q_capacity m q)")
  case True
  note len = len_block[OF args(3)]
  show ?thesis
    using True enqueue_mem[OF wf free args, of z] enqueued_wf[OF wf len, of z data]
      enqueued_fields[OF wf len, of z data] enqueued_list[OF wf len out True, of z] enqueued_frame[OF wf len, of _ _ z data]
    by (simp only: if_True) (intro exI[of _ "enqueued m q z data (unat len) vb"], simp)
next
  case False
  then have "Suc (queue_len m q) = unat (q_capacity m q)" using queue_len_less[OF wf] by simp
  then show ?thesis
    using False enqueue_mem[OF wf free args, of z] unlocked_locked[OF wf] unlocked_locked_frame[OF wf] by simp
qed

text \<open>C2: on a well-formed queue whose lock is free, dequeueing into buffers of the
  caller always returns. If the queue is empty it returns another result than OK and leaves it empty. Otherwise it
  returns OK, the oldest block leaves the list, its first \<^verbatim>\<open>min(max_len, block_size)\<close> bytes are in the
  caller's buffer, that number is in \<^verbatim>\<open>*actual_len\<close> when the pointer is given, and the counter of
  dequeued blocks went up by one. No byte outside the queue and the buffers changed.\<close>

theorem dequeue_refines:
  assumes wf: "queue_wf m q vb" and free: "q_lock_value m q = 0" and pos: "0 < max_len"
    and bufs: "recv_bufs m q vb data (unat (read_len m q max_len)) alen"
  shows "case queue_list m q vb of
      [] \<Rightarrow> \<exists>r m'. hyperamp_queue_dequeue m q z data max_len alen vb = Some (r, m') \<and> r \<noteq> HYPERAMP_OK \<and>
        queue_wf m' q vb \<and> q_lock_value m' q = 0 \<and> queue_list m' q vb = [] \<and>
        q_enqueue_count m' q = q_enqueue_count m q \<and> q_dequeue_count m' q = q_dequeue_count m q \<and>
        (\<forall>a n. outside m q vb a n \<longrightarrow> bytes_at m' a n = bytes_at m a n)
    | x # xs \<Rightarrow> \<exists>m'. hyperamp_queue_dequeue m q z data max_len alen vb = Some (HYPERAMP_OK, m') \<and>
        queue_wf m' q vb \<and> q_lock_value m' q = 0 \<and> queue_list m' q vb = xs \<and>
        (let n = min (unat max_len) (unat (q_block_size m q))
         in bytes_at m' data n = take n x \<and> (alen \<noteq> 0 \<longrightarrow> unat (read_u64 m' alen) = n)) \<and>
        q_dequeue_count m' q = q_dequeue_count m q + 1 \<and> q_enqueue_count m' q = q_enqueue_count m q \<and>
        (\<forall>a n. outside m q vb a n \<and> apart a n data (unat (read_len m q max_len)) \<and> (alen \<noteq> 0 \<longrightarrow> apart a n alen 8) \<longrightarrow>
           bytes_at m' a n = bytes_at m a n)"
proof (cases "queue_len m q = 0")
  case True
  then have "queue_list m q vb = []" by (simp add: queue_list_def)
  with True show ?thesis
    using dequeue_mem[OF wf free pos bufs, of z] unlocked_locked[OF wf, of z] unlocked_locked_frame[OF wf, where z = z] by simp
next
  case False
  let ?l = "read_len m q max_len"
  note lst = dequeued_list[OF wf bufs False, of z]
  show ?thesis
    unfolding lst
    using False dequeue_mem[OF wf free pos bufs, of z] dequeued_wf[OF wf bufs, of z]
      dequeued_fields[OF wf bufs, of z] dequeued_data[OF wf bufs read_len_le, of z] read_len_le[of m q max_len]
      dequeued_bytes[where q = q and data = data and len = ?l and alen = alen and z = z and m = m and vb = vb]
    by (simp add: Let_def unat_read_len[symmetric] take_bytes_at outside_def)
qed

text \<open>Initialising a queue as its creator gives a well-formed, unlocked, empty
  queue with the configured capacity, block size and addresses, the magic number and version 1, and
  changes no byte outside the control block.\<close>

lemma queue_init_empty:
  assumes "layout_ok q vb (unat (cfg_capacity c)) (unat (cfg_block_size c))"
  shows "\<exists>m'. hyperamp_queue_init m q (Some c) True = (HYPERAMP_OK, m') \<and>
    queue_wf m' q vb \<and> q_lock_value m' q = 0 \<and> queue_list m' q vb = [] \<and>
    hyperamp_queue_is_initialized m' q \<and>
    q_capacity m' q = cfg_capacity c \<and> q_block_size m' q = cfg_block_size c \<and>
    read_u64 m' (fld q OFF_phy_addr) = cfg_phy_addr c \<and> read_u64 m' (fld q OFF_virt_addr1) = cfg_virt_addr c \<and>
    read_u32 m' (fld q OFF_magic) = HYPERAMP_QUEUE_MAGIC \<and> read_u32 m' (fld q OFF_version) = 1 \<and>
    q_enqueue_count m' q = 0 \<and> q_dequeue_count m' q = 0 \<and>
    (\<forall>a n. apart a n q SIZEOF_queue \<longrightarrow> bytes_at m' a n = bytes_at m a n)"
proof -
  have c: "q \<noteq> 0" "cfg_block_size c \<noteq> 0" "cfg_capacity c \<noteq> 0" "fits q SIZEOF_queue"
    using assms layout_fits[OF assms] by (auto simp: layout_ok_def)
  note fs = inited_fields[OF c, of m]
  have "queue_wf (inited m q c) q vb" "queue_list (inited m q c) q vb = []"
    using assms by (auto simp: queue_wf_def queue_list_def queue_len_def ring_count_def fs layout_ok_def)
  moreover have "hyperamp_queue_is_initialized (inited m q c) q"
    using c by (simp add: hyperamp_queue_is_initialized_def fs word_neq_0_conv)
  ultimately show ?thesis
    using init_creator_mem[OF c(1-3), of m] fs inited_frame[OF c(1-3), of _ _ m]
    by (intro exI[of _ "inited m q c"]) simp
qed

text \<open>C3: over every interleaving of enqueues, dequeues, refused calls and writes of the
  zones to memory of their own, the blocks received are, in order, exactly the blocks queued at
  the start followed by the blocks sent, less those still queued; at most \<^verbatim>\<open>capacity - 1\<close> blocks are
  outstanding; and the queue stays well formed and unlocked.\<close>

theorem shm_fifo:
  assumes "fifo_run (shm_send q vb) (shm_recv q vb) (shm_idle q vb) m sent received m'"
    and "queue_wf m q vb" "q_lock_value m q = 0"
  shows "queue_list m q vb @ sent = received @ queue_list m' q vb \<and>
    length (queue_list m q vb) + length sent \<le> length received + (unat (q_capacity m q) - 1) \<and>
    queue_wf m' q vb \<and> q_lock_value m' q = 0"
  using shmq.run_conserves[OF assms(1)] shmq.run_bounded[OF assms(1)] assms(2,3) by (simp add: shm_inv_def)

text \<open>A null queue or buffer, a zero length and, for enqueue, data longer than a
  block are refused with ERROR and change nothing, even while the lock is held; an acceptable call
  on a queue whose lock is held does not return.\<close>

lemma queue_errors:
  "(q = 0 \<or> data = 0 \<or> len = 0 \<or> ucast (q_block_size m q) < len \<longrightarrow>
      hyperamp_queue_enqueue m q z data len vb = Some (HYPERAMP_ERROR, m)) \<and>
   (q = 0 \<or> data = 0 \<or> len = 0 \<longrightarrow>
      hyperamp_queue_dequeue m q z data len alen vb = Some (HYPERAMP_ERROR, m)) \<and>
   (fits q SIZEOF_queue \<and> q_lock_value m q \<noteq> 0 \<and> q \<noteq> 0 \<and> data \<noteq> 0 \<and> len \<noteq> 0 \<longrightarrow>
      hyperamp_queue_dequeue m q z data len alen vb = None \<and>
      (len \<le> ucast (q_block_size m q) \<longrightarrow> hyperamp_queue_enqueue m q z data len vb = None))"
proof (intro conjI impI)
  assume "q = 0 \<or> data = 0 \<or> len = 0 \<or> ucast (q_block_size m q) < len"
  then show "hyperamp_queue_enqueue m q z data len vb = Some (HYPERAMP_ERROR, m)"
    by (auto simp: hyperamp_queue_enqueue_def hyperamp_safe_read_u16_def Let_def)
next
  assume "q = 0 \<or> data = 0 \<or> len = 0"
  then show "hyperamp_queue_dequeue m q z data len alen vb = Some (HYPERAMP_ERROR, m)"
    by (simp add: hyperamp_queue_dequeue_def)
next
  assume a: "fits q SIZEOF_queue \<and> q_lock_value m q \<noteq> 0 \<and> q \<noteq> 0 \<and> data \<noteq> 0 \<and> len \<noteq> 0"
  then have lk: "hyperamp_spinlock_lock m (fld q OFF_queue_lock) z = None" by (simp add: lock_mem)
  show "hyperamp_queue_dequeue m q z data len alen vb = None"
    using a by (simp add: hyperamp_queue_dequeue_def lk)
  show "hyperamp_queue_enqueue m q z data len vb = None" if "len \<le> ucast (q_block_size m q)"
    using a that by (simp add: hyperamp_queue_enqueue_def hyperamp_safe_read_u16_def lk Let_def not_less)
qed

subsection \<open>Witnesses\<close>

text \<open>A queue of four slots of sixteen bytes at address 4096, with its data at 65536.\<close>

definition demo_config :: HyperampQueueConfig where
  "demo_config = \<lparr>cfg_map_mode = 0, cfg_capacity = 4, cfg_block_size = 16, cfg_phy_addr = 0, cfg_virt_addr = 4096\<rparr>"

definition demo_mem :: mem where
  "demo_mem = inited (\<lambda>a. if a = 131072 then 7 else 0) 4096 demo_config"

lemma demo_layout: "layout_ok 4096 65536 (unat (cfg_capacity demo_config)) (unat (cfg_block_size demo_config))"
  by (simp add: layout_ok_def demo_config_def apart_def fits_def slot_def)

lemma demo_fields:
  "q_header demo_mem 4096 = 0" "q_tail demo_mem 4096 = 0" "q_capacity demo_mem 4096 = 4"
  "q_block_size demo_mem 4096 = 16" "q_lock_value demo_mem 4096 = 0"
  unfolding demo_mem_def
  by (subst inited_fields, simp_all add: demo_config_def fits_def)+

lemma demo_wf: "queue_wf demo_mem 4096 65536"
  using demo_layout by (simp add: queue_wf_def demo_fields demo_config_def)

lemma demo_outside: "outside demo_mem 4096 65536 131072 16"
  by (simp add: outside_def demo_fields apart_def fits_def slot_def)

lemma demo_send: "\<exists>m' x. shm_send 4096 65536 demo_mem x m'"
proof -
  have "\<exists>m'. hyperamp_queue_enqueue demo_mem 4096 0 131072 16 65536 = Some (HYPERAMP_OK, m')"
    by (subst enqueue_mem[OF demo_wf]) (simp_all add: demo_fields queue_len_def ring_count_def)
  then obtain m' where "hyperamp_queue_enqueue demo_mem 4096 0 131072 16 65536 = Some (HYPERAMP_OK, m')" by blast
  then show ?thesis unfolding shm_send_def
    using demo_outside by (intro exI conjI) (auto simp: demo_fields)
qed

theorem enqueue_refines_witness:
  "\<exists>m'. hyperamp_queue_enqueue demo_mem 4096 1 131072 16 65536 = Some (HYPERAMP_OK, m') \<and>
     queue_list m' 4096 65536 = [bytes_at demo_mem 131072 16]"
  using enqueue_refines[OF demo_wf, where data = 131072 and len = 16 and z = 1] demo_outside
  by (auto simp: demo_fields queue_len_def ring_count_def queue_list_def[of demo_mem])

lemma demo_queued:
  "queue_wf (enqueued demo_mem 4096 1 131072 16 65536) 4096 65536" "q_lock_value (enqueued demo_mem 4096 1 131072 16 65536) 4096 = 0"
  "q_block_size (enqueued demo_mem 4096 1 131072 16 65536) 4096 = 16" "q_capacity (enqueued demo_mem 4096 1 131072 16 65536) 4096 = 4"
  "queue_list (enqueued demo_mem 4096 1 131072 16 65536) 4096 65536 = [bytes_at demo_mem 131072 16]"
  using enqueued_wf[OF demo_wf, of 16] enqueued_fields[OF demo_wf, of 16 1 131072] enqueued_list[OF demo_wf _ demo_outside, of 1]
  by (simp_all add: demo_fields queue_len_def ring_count_def queue_list_def[of demo_mem])

theorem dequeue_refines_witness:
  "\<exists>m'. hyperamp_queue_dequeue (enqueued demo_mem 4096 1 131072 16 65536) 4096 1 196608 16 204800 65536 = Some (HYPERAMP_OK, m') \<and>
     queue_list m' 4096 65536 = [] \<and> bytes_at m' 196608 16 = bytes_at demo_mem 131072 16 \<and> unat (read_u64 m' 204800) = 16"
proof -
  have "recv_bufs (enqueued demo_mem 4096 1 131072 16 65536) 4096 65536 196608
      (unat (read_len (enqueued demo_mem 4096 1 131072 16 65536) 4096 16)) 204800"
    by (simp add: recv_bufs_def read_len_def outside_def demo_queued apart_def fits_def slot_def)
  from dequeue_refines[OF demo_queued(1,2) _ this, of 1] show ?thesis by (auto simp: demo_queued)
qed

theorem shm_fifo_witness:
  "\<exists>m' x. fifo_run (shm_send 4096 65536) (shm_recv 4096 65536) (shm_idle 4096 65536) demo_mem [x] [] m' \<and>
     queue_list m' 4096 65536 = [x]"
proof -
  obtain m' x where snd: "shm_send 4096 65536 demo_mem x m'" using demo_send by blast
  have "fifo_run (shm_send 4096 65536) (shm_recv 4096 65536) (shm_idle 4096 65536) demo_mem ([] @ [x]) [] m'"
    by (rule run_enq, rule run_start, rule snd)
  then have run: "fifo_run (shm_send 4096 65536) (shm_recv 4096 65536) (shm_idle 4096 65536) demo_mem [x] [] m'"
    by simp
  have "queue_list demo_mem 4096 65536 = []" by (simp add: demo_fields queue_list_def queue_len_def ring_count_def)
  then have "queue_list m' 4096 65536 = [x]" using shm_fifo[OF run demo_wf] by (simp add: demo_fields)
  with run show ?thesis by blast
qed

end
