(* ===== verification/Channel.thy ===== *)
theory Channel
  imports ShmQueue
begin

unbundle bit_operations_syntax

text \<open>
  The channel layer of the HyperAMP server, \<^verbatim>\<open>hyperamp-server/src/channel.c\<close>: a channel is a pair of
  queues, one per direction, over one data region. A context is a record, the null pointer \<open>None\<close>;
  it lives in private memory of the server, so it is a value beside the shared memory.
\<close>

subsection \<open>Contexts\<close>

definition DEFAULT_BLOCK_SIZE :: u16 where "DEFAULT_BLOCK_SIZE = 4096"
definition ZONE_ID_SEL4 :: u32 where "ZONE_ID_SEL4 = 1"
definition CHANNEL_ID_CH0 :: int where "CHANNEL_ID_CH0 = 0"
definition CHANNEL_ID_CH1 :: int where "CHANNEL_ID_CH1 = 1"
definition CHANNEL_ID_CH2 :: int where "CHANNEL_ID_CH2 = 2"
definition CH0_QUEUE_CAPACITY :: u16 where "CH0_QUEUE_CAPACITY = 256"
definition CH1_QUEUE_CAPACITY :: u16 where "CH1_QUEUE_CAPACITY = 253"

datatype platform = IMX8MP_EVK | RK3588 | PHYTIUM_PI

fun SHM_BASE_PADDR :: "platform \<Rightarrow> u64" where
  "SHM_BASE_PADDR IMX8MP_EVK = 0x7E000000"
| "SHM_BASE_PADDR RK3588 = 0x7E000000"
| "SHM_BASE_PADDR PHYTIUM_PI = 0xDE000000"

record ChannelContext =
  channel_id :: int
  tx_queue :: addr
  rx_queue :: addr
  data_region :: addr
  queue_capacity :: u16
  initialized :: bool

subsection \<open>Operations\<close>

definition channel_init ::
  "platform \<Rightarrow> mem \<Rightarrow> ChannelContext option \<Rightarrow> int \<Rightarrow> u64 \<Rightarrow> u64 \<Rightarrow> u64 \<Rightarrow> u16 \<Rightarrow> int \<times> ChannelContext option \<times> mem" where
  "channel_init plat m ctx ch_id tx_va rx_va data_va capacity =
     (case ctx of
        None \<Rightarrow> (HYPERAMP_ERROR, None, m)
      | Some c \<Rightarrow>
          if tx_va = 0 \<or> rx_va = 0 \<or> data_va = 0 then (HYPERAMP_ERROR, Some c, m)
          else
            let c = c\<lparr>channel_id := ch_id, tx_queue := tx_va, rx_queue := rx_va, data_region := data_va,
                      queue_capacity := capacity, initialized := False\<rparr>;
                phy_offset = (if ch_id = CHANNEL_ID_CH1 then 0x200000 else 0);
                tx_phy = SHM_BASE_PADDR plat + phy_offset;
                rx_phy = SHM_BASE_PADDR plat + phy_offset + 0x1000;
                tx_config = \<lparr>cfg_map_mode = 0, cfg_capacity = capacity, cfg_block_size = DEFAULT_BLOCK_SIZE,
                             cfg_phy_addr = tx_phy, cfg_virt_addr = tx_queue c\<rparr>;
                rx_config = \<lparr>cfg_map_mode = 0, cfg_capacity = capacity, cfg_block_size = DEFAULT_BLOCK_SIZE,
                             cfg_phy_addr = rx_phy, cfg_virt_addr = rx_queue c\<rparr>;
                (ret, m) = hyperamp_queue_init m (tx_queue c) (Some tx_config) True
            in if ret \<noteq> HYPERAMP_OK then (HYPERAMP_ERROR, Some c, m)
               else
                 let (ret, m) = hyperamp_queue_init m (rx_queue c) (Some rx_config) True
                 in if ret \<noteq> HYPERAMP_OK then (HYPERAMP_ERROR, Some c, m)
                    else (HYPERAMP_OK, Some (c\<lparr>initialized := True\<rparr>), m))"

definition shm_read_buffer ::
  "mem \<Rightarrow> ChannelContext option \<Rightarrow> addr \<Rightarrow> u64 \<Rightarrow> addr \<Rightarrow> (int \<times> mem) option" where
  "shm_read_buffer m ctx buf max_len actual_len =
     (case ctx of
        None \<Rightarrow> Some (HYPERAMP_ERROR, m)
      | Some c \<Rightarrow>
          if \<not> initialized c \<or> buf = 0 then Some (HYPERAMP_ERROR, m)
          else hyperamp_queue_dequeue m (rx_queue c) ZONE_ID_SEL4 buf max_len actual_len (data_region c))"

definition shm_write_buffer :: "mem \<Rightarrow> ChannelContext option \<Rightarrow> addr \<Rightarrow> u64 \<Rightarrow> (int \<times> mem) option" where
  "shm_write_buffer m ctx buf len =
     (case ctx of
        None \<Rightarrow> Some (HYPERAMP_ERROR, m)
      | Some c \<Rightarrow>
          if \<not> initialized c \<or> buf = 0 \<or> len = 0 then Some (HYPERAMP_ERROR, m)
          else hyperamp_queue_enqueue m (tx_queue c) ZONE_ID_SEL4 buf len (data_region c))"

subsection \<open>A channel after its initialisation\<close>

text \<open>The queue of a control block that another zone's or queue's writes left alone.\<close>

lemma queue_same_ctl:
  assumes "bytes_at m' q SIZEOF_queue = bytes_at m q SIZEOF_queue"
  shows "queue_wf m' q vb = queue_wf m q vb" "q_lock_value m' q = q_lock_value m q"
    "q_capacity m' q = q_capacity m q" "q_block_size m' q = q_block_size m q"
    "queue_len m' q = queue_len m q" "q_header m' q = q_header m q" "q_tail m' q = q_tail m q"
  by (simp_all add: queue_wf_def queue_len_def read_fld_same[OF assms])

text \<open>
  A channel is ready when its context is initialised, both queues are well formed and unlocked over
  the common data region with the default block size, and the two control blocks do not overlap.
\<close>

definition channel_ready :: "mem \<Rightarrow> ChannelContext \<Rightarrow> bool" where
  "channel_ready m c \<longleftrightarrow> initialized c \<and>
     shm_inv (tx_queue c) (data_region c) m \<and> shm_inv (rx_queue c) (data_region c) m \<and>
     q_capacity m (tx_queue c) = queue_capacity c \<and> q_capacity m (rx_queue c) = queue_capacity c \<and>
     q_block_size m (tx_queue c) = DEFAULT_BLOCK_SIZE \<and> q_block_size m (rx_queue c) = DEFAULT_BLOCK_SIZE \<and>
     apart (tx_queue c) SIZEOF_queue (rx_queue c) SIZEOF_queue"

lemma inited_wf:
  assumes "layout_ok q vb (unat (cfg_capacity c)) (unat (cfg_block_size c))"
  shows "queue_wf (inited m q c) q vb" "q_lock_value (inited m q c) q = 0" "queue_list (inited m q c) q vb = []"
    "hyperamp_queue_init m q (Some c) True = (HYPERAMP_OK, inited m q c)"
    "q_capacity (inited m q c) q = cfg_capacity c" "q_block_size (inited m q c) q = cfg_block_size c"
proof -
  have c: "q \<noteq> 0" "cfg_block_size c \<noteq> 0" "cfg_capacity c \<noteq> 0" "fits q SIZEOF_queue"
    using assms layout_fits[OF assms] by (auto simp: layout_ok_def)
  note fs = inited_fields[OF c, of m]
  show "queue_wf (inited m q c) q vb" "q_lock_value (inited m q c) q = 0" "queue_list (inited m q c) q vb = []"
    "q_capacity (inited m q c) q = cfg_capacity c" "q_block_size (inited m q c) q = cfg_block_size c"
    using assms by (auto simp: queue_wf_def queue_list_def queue_len_def ring_count_def fs layout_ok_def)
  show "hyperamp_queue_init m q (Some c) True = (HYPERAMP_OK, inited m q c)"
    by (rule init_creator_mem[OF c(1-3)])
qed

lemma queue_list_empty: "queue_len m q = 0 \<Longrightarrow> queue_list m q vb = []"
  by (simp add: queue_list_def)

subsection \<open>Properties\<close>

text \<open>Given non-null addresses whose queues and data fit and do not overlap,
  channel initialisation succeeds, the context holds the addresses and is marked initialised, and
  both queues are well formed, unlocked and empty.\<close>

lemma channel_init_ready:
  assumes tx: "layout_ok tx dt (unat cap) 4096" and rx: "layout_ok rx dt (unat cap) 4096"
    and dt: "dt \<noteq> 0" and ctl: "apart tx SIZEOF_queue rx SIZEOF_queue"
  shows "\<exists>c' m'. channel_init plat m (Some c) ch tx rx dt cap = (HYPERAMP_OK, Some c', m') \<and>
    channel_ready m' c' \<and> channel_id c' = ch \<and> tx_queue c' = tx \<and> rx_queue c' = rx \<and>
    data_region c' = dt \<and> queue_capacity c' = cap \<and>
    queue_list m' tx dt = [] \<and> queue_list m' rx dt = []"
proof -
  define off :: u64 where "off = (if ch = CHANNEL_ID_CH1 then 0x200000 else 0)"
  define tc where "tc = \<lparr>cfg_map_mode = 0, cfg_capacity = cap, cfg_block_size = DEFAULT_BLOCK_SIZE,
    cfg_phy_addr = SHM_BASE_PADDR plat + off, cfg_virt_addr = tx\<rparr>"
  define rc where "rc = \<lparr>cfg_map_mode = 0, cfg_capacity = cap, cfg_block_size = DEFAULT_BLOCK_SIZE,
    cfg_phy_addr = SHM_BASE_PADDR plat + off + 0x1000, cfg_virt_addr = rx\<rparr>"
  define m1 where "m1 = inited m tx tc"
  define m2 where "m2 = inited m1 rx rc"
  have bs: "unat DEFAULT_BLOCK_SIZE = 4096" by (simp add: DEFAULT_BLOCK_SIZE_def)
  have lt: "layout_ok tx dt (unat (cfg_capacity tc)) (unat (cfg_block_size tc))"
    and lr: "layout_ok rx dt (unat (cfg_capacity rc)) (unat (cfg_block_size rc))"
    using tx rx by (simp_all add: tc_def rc_def bs)
  note t = inited_wf[OF lt, of m, folded m1_def] and r = inited_wf[OF lr, of m1, folded m2_def]
  have nz: "tx \<noteq> 0" "rx \<noteq> 0" "cfg_block_size rc \<noteq> 0" "cfg_capacity rc \<noteq> 0"
    using lt lr by (auto simp: layout_ok_def)
  have same: "bytes_at m2 tx SIZEOF_queue = bytes_at m1 tx SIZEOF_queue"
    unfolding m2_def using inited_frame[OF nz(2-4) ctl] .
  note st = queue_same_ctl[OF same]
  have "queue_list m2 tx dt = []"
    using arg_cong[OF t(3), of length] by (intro queue_list_empty) (simp add: st)
  moreover have "channel_init plat m (Some c) ch tx rx dt cap = (HYPERAMP_OK,
      Some (c\<lparr>channel_id := ch, tx_queue := tx, rx_queue := rx, data_region := dt,
              queue_capacity := cap, initialized := True\<rparr>), m2)"
    using nz(1,2) dt t(4)[unfolded tc_def off_def] r(4)[unfolded rc_def off_def]
    by (cases "ch = CHANNEL_ID_CH1") (simp_all add: channel_init_def Let_def)
  ultimately show ?thesis
    using t r ctl by (simp add: channel_ready_def shm_inv_def st) (simp add: tc_def rc_def)
qed

text \<open>C24: the two directions of a channel use the same slots. When the slot the
  next outgoing message goes to is the slot of the oldest message still waiting to be received, a
  full-block write replaces that waiting message: the receiving queue then delivers the bytes that
  were sent.\<close>

theorem channel_shared_slots:
  assumes rdy: "channel_ready m c" and same: "q_header m (tx_queue c) = q_tail m (rx_queue c)"
    and wait: "queue_list m (rx_queue c) (data_region c) \<noteq> []"
    and room: "Suc (queue_len m (tx_queue c)) < unat (queue_capacity c)"
    and buf: "buf \<noteq> 0" "outside m (tx_queue c) (data_region c) buf 4096"
  shows "\<exists>m'. shm_write_buffer m (Some c) buf 4096 = Some (HYPERAMP_OK, m') \<and>
    hd (queue_list m' (rx_queue c) (data_region c)) = bytes_at m buf 4096"
proof -
  let ?tx = "tx_queue c" and ?rx = "rx_queue c" and ?dt = "data_region c"
  have wf: "queue_wf m ?tx ?dt" "q_lock_value m ?tx = 0" "queue_wf m ?rx ?dt"
    and bs: "unat (q_block_size m ?tx) = 4096" "unat (q_block_size m ?rx) = 4096"
    and cap: "q_capacity m ?tx = queue_capacity c"
    using rdy by (auto simp: channel_ready_def shm_inv_def DEFAULT_BLOCK_SIZE_def)
  have len: "4096 \<le> unat (q_block_size m ?tx)" "unat (4096 :: u64) = 4096"
    "(4096 :: u64) \<le> ucast (q_block_size m ?tx)"
    by (simp_all add: bs word_le_nat_alt unat_ucast_up)
  define m' where "m' = enqueued m ?tx ZONE_ID_SEL4 buf 4096 ?dt"
  have eq: "shm_write_buffer m (Some c) buf 4096 = Some (HYPERAMP_OK, m')"
    using rdy room buf enqueue_mem[OF wf(1,2) buf(1) _ len(3), of ZONE_ID_SEL4]
    by (simp add: shm_write_buffer_def channel_ready_def cap m'_def)
  have rxctl: "apart ?rx SIZEOF_queue ?tx SIZEOF_queue" using rdy by (auto simp: channel_ready_def intro: apart_sym)
  have hdr: "unat (q_header m ?tx) < unat (queue_capacity c)" using queue_wf_index(1)[OF wf(1)] cap by simp
  have "apart (slot ?dt 4096 (unat (q_header m ?tx))) 4096 ?rx SIZEOF_queue"
    using queue_wf_slot[OF wf(3), of "unat (q_header m ?tx)"] hdr rdy bs by (simp add: channel_ready_def)
  then have ctl: "bytes_at m' ?rx SIZEOF_queue = bytes_at m ?rx SIZEOF_queue"
    unfolding m'_def using rxctl by (simp add: enqueued_bytes copy_bytes_apart apart_sym bs mem_simps)
  note s = queue_same_ctl[OF ctl]
  have new: "bytes_at m' (slot ?dt 4096 (unat (q_header m ?tx))) 4096 = bytes_at m buf 4096"
    unfolding m'_def using enqueued_new_block[OF wf(1), of 4096 buf] buf(2) by (simp add: bs)
  have "queue_len m ?rx \<noteq> 0" using wait by (auto simp: queue_list_def)
  then have "hd (queue_list m' ?rx ?dt) = bytes_at m' (slot ?dt 4096 (unat (q_tail m ?rx))) 4096"
    using queue_wf_index(2)[OF wf(3)] by (simp add: queue_list_def s bs hd_map)
  then show ?thesis using eq new same by auto
qed

subsection \<open>Witnesses\<close>

text \<open>A channel of four slots: queues at 65536 and 69632, data region at 73728; a private buffer at
  131072 of the other zone holds a request to encrypt four bytes, which it then sends.\<close>

definition demo_base :: mem where
  "demo_base = (\<lambda>a. if a = 131073 then 0x10 else if a = 131074 then 1 else if a = 131078 then 4 else 0)"

definition demo_qcfg :: HyperampQueueConfig where
  "demo_qcfg = \<lparr>cfg_map_mode = 0, cfg_capacity = 4, cfg_block_size = 4096, cfg_phy_addr = 0, cfg_virt_addr = 0\<rparr>"

definition demo_ctx :: ChannelContext where
  "demo_ctx = \<lparr>channel_id = 0, tx_queue = 65536, rx_queue = 69632, data_region = 73728, queue_capacity = 4, initialized = True\<rparr>"

definition demo_ch_mem :: mem where
  "demo_ch_mem = inited (inited demo_base 65536 demo_qcfg) 69632 demo_qcfg"

lemma demo_ch_layout: "layout_ok 65536 73728 4 4096" "layout_ok 69632 73728 4 4096"
  by (simp_all add: layout_ok_def apart_def fits_def slot_def)

lemma demo_ch_rx:
  "queue_wf demo_ch_mem 69632 73728" "q_lock_value demo_ch_mem 69632 = 0" "queue_list demo_ch_mem 69632 73728 = []"
  "q_capacity demo_ch_mem 69632 = 4" "q_block_size demo_ch_mem 69632 = 4096" "q_tail demo_ch_mem 69632 = 0"
proof -
  have l: "layout_ok 69632 73728 (unat (cfg_capacity demo_qcfg)) (unat (cfg_block_size demo_qcfg))"
    using demo_ch_layout by (simp add: demo_qcfg_def)
  note r = inited_wf[OF l, of "inited demo_base 65536 demo_qcfg", folded demo_ch_mem_def]
  show "queue_wf demo_ch_mem 69632 73728" "q_lock_value demo_ch_mem 69632 = 0" "queue_list demo_ch_mem 69632 73728 = []"
    "q_capacity demo_ch_mem 69632 = 4" "q_block_size demo_ch_mem 69632 = 4096" using r by (simp_all add: demo_qcfg_def)
  show "q_tail demo_ch_mem 69632 = 0"
    unfolding demo_ch_mem_def by (subst inited_fields) (simp_all add: demo_qcfg_def fits_def)
qed

lemma demo_ch_tx:
  "queue_wf demo_ch_mem 65536 73728" "q_lock_value demo_ch_mem 65536 = 0" "queue_len demo_ch_mem 65536 = 0"
  "q_capacity demo_ch_mem 65536 = 4" "q_block_size demo_ch_mem 65536 = 4096" "q_header demo_ch_mem 65536 = 0"
proof -
  let ?m = "inited demo_base 65536 demo_qcfg"
  have l: "layout_ok 65536 73728 (unat (cfg_capacity demo_qcfg)) (unat (cfg_block_size demo_qcfg))"
    using demo_ch_layout by (simp add: demo_qcfg_def)
  note r = inited_wf[OF l, of "demo_base"]
  have l0: "queue_len ?m 65536 = 0" using arg_cong[OF r(3), of length] by simp
  have h: "q_header ?m 65536 = 0" by (subst inited_fields) (simp_all add: demo_qcfg_def fits_def)
  have "bytes_at demo_ch_mem 65536 SIZEOF_queue = bytes_at ?m 65536 SIZEOF_queue"
    unfolding demo_ch_mem_def by (rule inited_frame) (simp_all add: demo_qcfg_def apart_def fits_def)
  note st = queue_same_ctl[OF this]
  show "queue_wf demo_ch_mem 65536 73728" "q_lock_value demo_ch_mem 65536 = 0" "queue_len demo_ch_mem 65536 = 0"
    "q_capacity demo_ch_mem 65536 = 4" "q_block_size demo_ch_mem 65536 = 4096" "q_header demo_ch_mem 65536 = 0"
    using r l0 h by (simp_all add: st) (simp_all add: demo_qcfg_def)
qed

definition demo_ch_mem1 :: mem where
  "demo_ch_mem1 = enqueued demo_ch_mem 69632 0 131072 4096 73728"

lemma demo_ch_ready:
  "channel_ready demo_ch_mem1 demo_ctx" "q_header demo_ch_mem1 65536 = 0" "q_tail demo_ch_mem1 69632 = 0"
  "queue_len demo_ch_mem1 65536 = 0" "queue_list demo_ch_mem1 69632 73728 \<noteq> []"
  "outside demo_ch_mem1 65536 73728 131072 4096" "q_block_size demo_ch_mem1 65536 = 4096"
  "q_capacity demo_ch_mem1 65536 = 4"
proof -
  have len: "4096 \<le> unat (q_block_size demo_ch_mem 69632)" by (simp add: demo_ch_rx)
  have out: "outside demo_ch_mem 69632 73728 65536 SIZEOF_queue" "outside demo_ch_mem 69632 73728 131072 4096"
    by (simp_all add: outside_def demo_ch_rx apart_def fits_def slot_def)
  have "bytes_at demo_ch_mem1 65536 SIZEOF_queue = bytes_at demo_ch_mem 65536 SIZEOF_queue"
    unfolding demo_ch_mem1_def by (rule enqueued_frame[OF demo_ch_rx(1) len out(1)])
  note st = queue_same_ctl[OF this] and f = enqueued_fields[OF demo_ch_rx(1) len, of 0 131072, folded demo_ch_mem1_def]
  have "queue_len demo_ch_mem 69632 = 0" using arg_cong[OF demo_ch_rx(3), of length] by simp
  then show "queue_list demo_ch_mem1 69632 73728 \<noteq> []"
    unfolding demo_ch_mem1_def
    by (subst enqueued_list[OF demo_ch_rx(1) len out(2)]) (simp_all add: demo_ch_rx)
  show "channel_ready demo_ch_mem1 demo_ctx" "q_header demo_ch_mem1 65536 = 0" "q_tail demo_ch_mem1 69632 = 0"
    "queue_len demo_ch_mem1 65536 = 0" "q_block_size demo_ch_mem1 65536 = 4096" "q_capacity demo_ch_mem1 65536 = 4"
    using enqueued_wf[OF demo_ch_rx(1) len, of 0 131072, folded demo_ch_mem1_def]
    by (simp_all add: channel_ready_def demo_ctx_def shm_inv_def st f demo_ch_tx demo_ch_rx DEFAULT_BLOCK_SIZE_def
        apart_def fits_def)
  show "outside demo_ch_mem1 65536 73728 131072 4096"
    by (simp add: outside_def st demo_ch_tx apart_def fits_def slot_def)
qed

theorem channel_shared_slots_witness:
  "\<exists>m'. shm_write_buffer demo_ch_mem1 (Some demo_ctx) 131072 4096 = Some (HYPERAMP_OK, m') \<and>
    hd (queue_list m' 69632 73728) = bytes_at demo_ch_mem1 131072 4096"
  using channel_shared_slots[OF demo_ch_ready(1), of 131072] demo_ch_ready by (simp add: demo_ctx_def)

end
