(* ===== verification/FEvents.thy ===== *)
theory FEvents
  imports Main
begin

text \<open>The states and events of sessions (\<^verbatim>\<open>front/include/session.h\<close>), which the channels of the server use too.\<close>

datatype FrontendSessState =
  FRONTEND_SESS_INITIALIZE | FRONTEND_SESS_CONNECTING | FRONTEND_SESS_CONNECTED | FRONTEND_SESS_CLOSED

datatype FrontendSessionEvent =
  FRONTEND_SESS_EVENT_CONN | FRONTEND_SESS_EVENT_RECVDATA | FRONTEND_SESS_EVENT_CLOSE
| FRONTEND_SESS_EVENT_TIMEOUT | FRONTEND_SESS_EVENT_ABNORMAL

end
