(* ===== verification/ChannelCh1.thy ===== *)
theory ChannelCh1
  imports Channel FEvents
begin

unbundle bit_operations_syntax

text \<open>
  The forwarding side of the network-proxy channel, \<^verbatim>\<open>hyperamp-server/src/channel_ch1.c\<close>: two
  sessions of the front-end engine, one for text results and one for bulk results. The engine's
  state is a type parameter here, and the three of its functions the channel calls are the fields of the
  record \<open>frontend_ops\<close> that every definition takes; \<open>FChannel\<close> gives the record for the engine of \<open>FEngine\<close>.
\<close>

subsection \<open>State\<close>

text \<open>The file's static variables, and the state of the engine.\<close>

record 'e ch1_state =
  g_ch1_text_session :: addr
  g_ch1_bulk_session :: addr
  g_forward_seq :: u32
  fe_state :: 'e

text \<open>
  The engine: the state of a session, queueing bytes of memory on a session (the number queued,
  or a negative error), and one round of the engine, which may call the callbacks below and use
  the shared memory.
\<close>

record 'e frontend_ops =
  fe_sess_state :: "'e \<Rightarrow> addr \<Rightarrow> FrontendSessState"
  fe_sess_send :: "'e \<Rightarrow> mem \<Rightarrow> addr \<Rightarrow> addr \<Rightarrow> u32 \<Rightarrow> int \<times> 'e"
  fe_run_once :: "'e ch1_state \<Rightarrow> mem \<Rightarrow> ('e ch1_state \<times> mem) option"

subsection \<open>Callbacks\<close>

definition ch1_text_session_callback :: "'e ch1_state \<Rightarrow> FrontendSessionEvent \<Rightarrow> 'e ch1_state" where
  "ch1_text_session_callback s event =
     (case event of FRONTEND_SESS_EVENT_CLOSE \<Rightarrow> s\<lparr>g_ch1_text_session := 0\<rparr> | _ \<Rightarrow> s)"

definition ch1_bulk_session_callback :: "'e ch1_state \<Rightarrow> FrontendSessionEvent \<Rightarrow> 'e ch1_state" where
  "ch1_bulk_session_callback s event =
     (case event of FRONTEND_SESS_EVENT_CLOSE \<Rightarrow> s\<lparr>g_ch1_bulk_session := 0\<rparr> | _ \<Rightarrow> s)"

subsection \<open>Message processing and readiness\<close>

definition ch1_process_message ::
  "'e frontend_ops \<Rightarrow> 'e ch1_state \<Rightarrow> mem \<Rightarrow> ChannelContext option \<Rightarrow> (int \<times> 'e ch1_state \<times> mem) option" where
  "ch1_process_message fe s m ctx =
     (case ctx of
        None \<Rightarrow> Some (HYPERAMP_ERROR, s, m)
      | Some c \<Rightarrow>
          if \<not> initialized c then Some (HYPERAMP_ERROR, s, m)
          else do {
            (s, m) \<leftarrow> fe_run_once fe s m;
            Some (HYPERAMP_OK, s, m)
          })"

definition ch1_is_text_ready :: "'e frontend_ops \<Rightarrow> 'e ch1_state \<Rightarrow> bool" where
  "ch1_is_text_ready fe s =
     (if g_ch1_text_session s = 0 then False
      else fe_sess_state fe (fe_state s) (g_ch1_text_session s) = FRONTEND_SESS_CONNECTED)"

definition ch1_is_bulk_ready :: "'e frontend_ops \<Rightarrow> 'e ch1_state \<Rightarrow> bool" where
  "ch1_is_bulk_ready fe s =
     (if g_ch1_bulk_session s = 0 then False
      else fe_sess_state fe (fe_state s) (g_ch1_bulk_session s) = FRONTEND_SESS_CONNECTED)"

definition ch1_is_ready :: "'e frontend_ops \<Rightarrow> 'e ch1_state \<Rightarrow> bool" where
  "ch1_is_ready fe s = (ch1_is_text_ready fe s \<or> ch1_is_bulk_ready fe s)"

subsection \<open>Forwarding\<close>

definition FORWARD_HEADER_MAGIC :: u32 where "FORWARD_HEADER_MAGIC = 0x48465744"

text \<open>The local variable \<^verbatim>\<open>hdr\<close> of type \<^verbatim>\<open>ForwardHeader\<close> (packed, 12 bytes) is at address \<open>hdr\<close>.\<close>

definition ch1_send_with_header ::
  "'e frontend_ops \<Rightarrow> 'e ch1_state \<Rightarrow> mem \<Rightarrow> addr \<Rightarrow> addr \<Rightarrow> addr \<Rightarrow> u64 \<Rightarrow> u8 \<Rightarrow> u8 \<Rightarrow> u32 \<Rightarrow> int \<times> 'e ch1_state \<times> mem" where
  "ch1_send_with_header fe s m hdr sess data len service_id is_bulk total_length =
     (if sess = 0 then (HYPERAMP_ERROR, s, m)
      else if fe_sess_state fe (fe_state s) sess \<noteq> FRONTEND_SESS_CONNECTED then (HYPERAMP_ERROR, s, m)
      else
        let s = s\<lparr>g_forward_seq := g_forward_seq s + 1\<rparr>;
            m = write_u32 m (fld hdr 0) FORWARD_HEADER_MAGIC;
            m = m(fld hdr 4 := service_id);
            m = m(fld hdr 5 := is_bulk);
            m = write_u16 m (fld hdr 6) 0;
            m = write_u32 m (fld hdr 8) total_length;
            (ret, e) = fe_sess_send fe (fe_state s) m sess hdr 12;
            s = s\<lparr>fe_state := e\<rparr>
        in if ret < 0 then (HYPERAMP_ERROR, s, m)
           else
             let (ret, e) = fe_sess_send fe (fe_state s) m sess data (ucast len);
                 s = s\<lparr>fe_state := e\<rparr>
             in if ret \<ge> 0 then (HYPERAMP_OK, s, m) else (HYPERAMP_ERROR, s, m))"

definition ch1_forward_text_data ::
  "'e frontend_ops \<Rightarrow> 'e ch1_state \<Rightarrow> mem \<Rightarrow> addr \<Rightarrow> addr \<Rightarrow> u64 \<Rightarrow> u8 \<Rightarrow> int \<times> 'e ch1_state \<times> mem" where
  "ch1_forward_text_data fe s m hdr data len service_id =
     ch1_send_with_header fe s m hdr (g_ch1_text_session s) data len service_id 0 (ucast len)"

definition ch1_forward_bulk_data ::
  "'e frontend_ops \<Rightarrow> 'e ch1_state \<Rightarrow> mem \<Rightarrow> addr \<Rightarrow> addr \<Rightarrow> u64 \<Rightarrow> u8 \<Rightarrow> u32 \<Rightarrow> int \<times> 'e ch1_state \<times> mem" where
  "ch1_forward_bulk_data fe s m hdr data len service_id total_length =
     ch1_send_with_header fe s m hdr (g_ch1_bulk_session s) data len service_id 1 total_length"

definition ch1_forward_data ::
  "'e frontend_ops \<Rightarrow> 'e ch1_state \<Rightarrow> mem \<Rightarrow> addr \<Rightarrow> addr \<Rightarrow> u64 \<Rightarrow> int \<times> 'e ch1_state \<times> mem" where
  "ch1_forward_data fe s m hdr data len = ch1_forward_text_data fe s m hdr data len 0"

definition ch1_forward_bulk_raw_data ::
  "'e frontend_ops \<Rightarrow> 'e ch1_state \<Rightarrow> mem \<Rightarrow> addr \<Rightarrow> u64 \<Rightarrow> int \<times> 'e ch1_state" where
  "ch1_forward_bulk_raw_data fe s m data len =
     (if g_ch1_bulk_session s = 0 \<or> fe_sess_state fe (fe_state s) (g_ch1_bulk_session s) \<noteq> FRONTEND_SESS_CONNECTED
      then (HYPERAMP_ERROR, s)
      else let (ret, e) = fe_sess_send fe (fe_state s) m (g_ch1_bulk_session s) data (ucast len)
           in (ret, s\<lparr>fe_state := e\<rparr>))"

end
