(* ===== verification/FMessage.thy ===== *)
theory FMessage
  imports ShmQueue
begin

unbundle bit_operations_syntax

text \<open>
  The messages of the proxy protocol between the front end and its back end,
  \<^verbatim>\<open>front/include/message.h\<close> and the first part of \<^verbatim>\<open>front/src/frontend_proto.c\<close>: packed headers and the
  functions that build a message in a buffer and put it into the transmit queue. A buffer that belongs to
  the caller is the list of its bytes; the buffer \<^verbatim>\<open>global_amp_tx_buf\<close> is memory, because the queue copies
  from it.
\<close>

subsection \<open>Headers\<close>

abbreviation (input) PROXY_MSG_TYPE_DEV :: u8 where "PROXY_MSG_TYPE_DEV \<equiv> 0"
abbreviation (input) PROXY_MSG_TYPE_STRGY :: u8 where "PROXY_MSG_TYPE_STRGY \<equiv> 1"
abbreviation (input) PROXY_MSG_TYPE_SESS :: u8 where "PROXY_MSG_TYPE_SESS \<equiv> 2"
abbreviation (input) PROXY_MSG_TYPE_DATA :: u8 where "PROXY_MSG_TYPE_DATA \<equiv> 3"
abbreviation (input) PROXY_MSG_TYPE_IOT :: u8 where "PROXY_MSG_TYPE_IOT \<equiv> 4"

abbreviation (input) PROXY_MSG_HDR_SIZE :: u64 where "PROXY_MSG_HDR_SIZE \<equiv> 8"
abbreviation (input) PROXY_MSG_INVALID_LEN :: int where "PROXY_MSG_INVALID_LEN \<equiv> - 1"
abbreviation (input) ACTION_TYPE_COMMAND :: u16 where "ACTION_TYPE_COMMAND \<equiv> 0"
abbreviation (input) ACTION_TYPE_RESPONSE :: u16 where "ACTION_TYPE_RESPONSE \<equiv> 1"
abbreviation (input) SESS_MSG_CLOSE :: u16 where "SESS_MSG_CLOSE \<equiv> 0"
abbreviation (input) SESS_MSG_CREATE :: u16 where "SESS_MSG_CREATE \<equiv> 1"
abbreviation (input) SESS_IPV4_PROTO :: u16 where "SESS_IPV4_PROTO \<equiv> 4"
abbreviation (input) SESS_IPV6_PROTO :: u16 where "SESS_IPV6_PROTO \<equiv> 6"

abbreviation (input) IOT_PROTO_TYPE_BLUETOOTH :: u16 where "IOT_PROTO_TYPE_BLUETOOTH \<equiv> 1"
abbreviation (input) IOT_PROTO_TYPE_ZIGBEE :: u16 where "IOT_PROTO_TYPE_ZIGBEE \<equiv> 2"
abbreviation (input) IOT_PROTO_TYPE_CAN :: u16 where "IOT_PROTO_TYPE_CAN \<equiv> 3"
abbreviation (input) IOT_PROTO_TYPE_LORA :: u16 where "IOT_PROTO_TYPE_LORA \<equiv> 4"
abbreviation (input) IOT_PROTO_TYPE_POWERLINK :: u16 where "IOT_PROTO_TYPE_POWERLINK \<equiv> 5"
abbreviation (input) IOT_PROTO_TYPE_MODBUSTCP :: u16 where "IOT_PROTO_TYPE_MODBUSTCP \<equiv> 6"

definition FRONTEND_PROXY_PROCESS_OK :: int where "FRONTEND_PROXY_PROCESS_OK = 0"
definition FRONTEND_PROXY_PROCESS_ERROR :: int where "FRONTEND_PROXY_PROCESS_ERROR = - 1"
definition FRONTEND_PROXY_PROCESS_AGAIN :: int where "FRONTEND_PROXY_PROCESS_AGAIN = 1"

lemma process_distinct [simp]:
  "FRONTEND_PROXY_PROCESS_OK \<noteq> FRONTEND_PROXY_PROCESS_ERROR" "FRONTEND_PROXY_PROCESS_OK \<noteq> FRONTEND_PROXY_PROCESS_AGAIN"
  "FRONTEND_PROXY_PROCESS_AGAIN \<noteq> FRONTEND_PROXY_PROCESS_ERROR" "FRONTEND_PROXY_PROCESS_AGAIN \<noteq> FRONTEND_PROXY_PROCESS_OK"
  "FRONTEND_PROXY_PROCESS_ERROR \<noteq> FRONTEND_PROXY_PROCESS_OK" "FRONTEND_PROXY_PROCESS_ERROR \<noteq> FRONTEND_PROXY_PROCESS_AGAIN"
  by (simp_all add: FRONTEND_PROXY_PROCESS_OK_def FRONTEND_PROXY_PROCESS_ERROR_def FRONTEND_PROXY_PROCESS_AGAIN_def)

record ProxyMsgHeader =
  proxy_version :: u8
  proxy_msg_type :: u8
  proxy_frontend_sess_id :: u16
  proxy_backend_sess_id :: u16
  proxy_payload_len :: u16

text \<open>
  The union of the inner headers: each of them is a packed sequence of five or six 16-bit fields, so the
  union is six words, and the fields of the four headers are names of these words.
\<close>

record InnerHeader =
  w0 :: u16
  w1 :: u16
  w2 :: u16
  w3 :: u16
  w4 :: u16
  w5 :: u16

definition DevMsgHeader :: "u16 \<Rightarrow> u16 \<Rightarrow> u16 \<Rightarrow> u16 \<Rightarrow> u16 \<Rightarrow> InnerHeader" where
  "DevMsgHeader version msg_type msg_id action_type payload_len =
     \<lparr>w0 = version, w1 = msg_type, w2 = msg_id, w3 = action_type, w4 = payload_len, w5 = 0\<rparr>"

definition SessMsgHeader :: "u16 \<Rightarrow> u16 \<Rightarrow> u16 \<Rightarrow> u16 \<Rightarrow> u16 \<Rightarrow> InnerHeader" where
  "SessMsgHeader version msg_type action_type ip_version payload_len =
     \<lparr>w0 = version, w1 = msg_type, w2 = action_type, w3 = ip_version, w4 = payload_len, w5 = 0\<rparr>"

definition IotMsgHeader :: "u16 \<Rightarrow> u16 \<Rightarrow> u16 \<Rightarrow> u16 \<Rightarrow> u16 \<Rightarrow> u16 \<Rightarrow> InnerHeader" where
  "IotMsgHeader proto_ver proto_type opcode dev_port_id payload_len reserve =
     \<lparr>w0 = proto_ver, w1 = proto_type, w2 = opcode, w3 = dev_port_id, w4 = payload_len, w5 = reserve\<rparr>"

record GeneralProxyMsgHeader =
  outer_header :: ProxyMsgHeader
  inner_header :: InnerHeader
  iot_addr_info :: "u8 list"
  iot_addr_len :: u16

subsection \<open>Lengths\<close>

definition DEV_MSG_PAYLOAD_LEN :: "u16 \<Rightarrow> u16 \<Rightarrow> int" where
  "DEV_MSG_PAYLOAD_LEN dev_msg_type action_type =
     (if dev_msg_type = 1
      then if action_type = ACTION_TYPE_COMMAND then 2 else if action_type = ACTION_TYPE_RESPONSE then 4 else PROXY_MSG_INVALID_LEN
      else if dev_msg_type = 0
      then if action_type = ACTION_TYPE_COMMAND then 2 else if action_type = ACTION_TYPE_RESPONSE then 2 else PROXY_MSG_INVALID_LEN
      else if dev_msg_type = 2
      then if action_type = ACTION_TYPE_COMMAND then 0 else if action_type = ACTION_TYPE_RESPONSE then 4 else PROXY_MSG_INVALID_LEN
      else PROXY_MSG_INVALID_LEN)"

definition STRGY_MSG_PAYLOAD_LEN :: "u16 \<Rightarrow> u16 \<Rightarrow> int" where
  "STRGY_MSG_PAYLOAD_LEN strgy_msg_type action_type =
     (if strgy_msg_type = 0
      then if action_type = ACTION_TYPE_COMMAND then 2 else if action_type = ACTION_TYPE_RESPONSE then 4 else PROXY_MSG_INVALID_LEN
      else if strgy_msg_type = 1
      then if action_type = ACTION_TYPE_COMMAND then 0 else if action_type = ACTION_TYPE_RESPONSE then 4 else PROXY_MSG_INVALID_LEN
      else PROXY_MSG_INVALID_LEN)"

definition SESS_MSG_PAYLOAD_LEN :: "u16 \<Rightarrow> u16 \<Rightarrow> u16 \<Rightarrow> int" where
  "SESS_MSG_PAYLOAD_LEN sess_msg_type action_type ip_version =
     (if sess_msg_type = SESS_MSG_CLOSE
      then if action_type = ACTION_TYPE_COMMAND then 0 else if action_type = ACTION_TYPE_RESPONSE then 2 else PROXY_MSG_INVALID_LEN
      else if sess_msg_type = SESS_MSG_CREATE
      then if action_type = ACTION_TYPE_RESPONSE then 2
           else if action_type = ACTION_TYPE_COMMAND
           then if ip_version = SESS_IPV4_PROTO then 10 else if ip_version = SESS_IPV6_PROTO then 22 else PROXY_MSG_INVALID_LEN
           else PROXY_MSG_INVALID_LEN
      else PROXY_MSG_INVALID_LEN)"

text \<open>The sizes of the packed address structures, for the protocols that have one.\<close>

definition get_iot_addr_length :: "u16 \<Rightarrow> nat" where
  "get_iot_addr_length addr_type =
     (if addr_type = IOT_PROTO_TYPE_BLUETOOTH then 20
      else if addr_type = IOT_PROTO_TYPE_CAN then 7
      else if addr_type = IOT_PROTO_TYPE_ZIGBEE then 11
      else if addr_type = IOT_PROTO_TYPE_LORA then 11
      else if addr_type = IOT_PROTO_TYPE_POWERLINK then 10
      else if addr_type = IOT_PROTO_TYPE_MODBUSTCP then 11
      else 0)"

subsection \<open>Building a message\<close>

text \<open>
  A payload is \<open>None\<close> for the null pointer, which the callers pass with length 0; its length is the
  \<^verbatim>\<open>payload_len\<close> argument of the code.
\<close>

definition payload_bytes :: "u8 list option \<Rightarrow> u8 list" where
  "payload_bytes payload = (case payload of None \<Rightarrow> [] | Some bs \<Rightarrow> bs)"

definition payload_len :: "u8 list option \<Rightarrow> u64" where
  "payload_len payload = of_nat (length (payload_bytes payload))"

definition build_proxy_dev_message :: "mem \<Rightarrow> InnerHeader \<Rightarrow> u8 list option \<Rightarrow> addr \<Rightarrow> int \<times> mem" where
  "build_proxy_dev_message m hdr payload msg =
     (if payload_len payload \<noteq> word_of_int (DEV_MSG_PAYLOAD_LEN (w1 hdr) (w3 hdr)) then (FRONTEND_PROXY_PROCESS_ERROR, m)
      else if payload_len payload \<noteq> ucast (w4 hdr) then (FRONTEND_PROXY_PROCESS_ERROR, m)
      else let m = write_u16 m (fld msg 0) (w0 hdr);
               m = write_u16 m (fld msg 2) (w1 hdr);
               m = write_u16 m (fld msg 4) (w2 hdr);
               m = write_u16 m (fld msg 6) (w3 hdr);
               m = write_u16 m (fld msg 8) (ucast (payload_len payload))
           in (FRONTEND_PROXY_PROCESS_OK, put_bytes m (fld msg 10) (payload_bytes payload)))"

definition build_proxy_strgy_message :: "mem \<Rightarrow> InnerHeader \<Rightarrow> u8 list option \<Rightarrow> addr \<Rightarrow> int \<times> mem" where
  "build_proxy_strgy_message m hdr payload msg =
     (if payload_len payload \<noteq> word_of_int (STRGY_MSG_PAYLOAD_LEN (w1 hdr) (w3 hdr)) then (FRONTEND_PROXY_PROCESS_ERROR, m)
      else if payload_len payload \<noteq> ucast (w4 hdr) then (FRONTEND_PROXY_PROCESS_ERROR, m)
      else let m = write_u16 m (fld msg 0) (w0 hdr);
               m = write_u16 m (fld msg 2) (w1 hdr);
               m = write_u16 m (fld msg 4) (w2 hdr);
               m = write_u16 m (fld msg 6) (w3 hdr);
               m = write_u16 m (fld msg 8) (ucast (payload_len payload))
           in (FRONTEND_PROXY_PROCESS_OK, put_bytes m (fld msg 10) (payload_bytes payload)))"

definition build_proxy_sess_message :: "mem \<Rightarrow> InnerHeader \<Rightarrow> u8 list option \<Rightarrow> addr \<Rightarrow> int \<times> mem" where
  "build_proxy_sess_message m hdr payload msg =
     (if payload_len payload \<noteq> word_of_int (SESS_MSG_PAYLOAD_LEN (w1 hdr) (w2 hdr) (w3 hdr)) then (FRONTEND_PROXY_PROCESS_ERROR, m)
      else if payload_len payload \<noteq> ucast (w4 hdr) then (FRONTEND_PROXY_PROCESS_ERROR, m)
      else let m = write_u16 m (fld msg 0) (w0 hdr);
               m = write_u16 m (fld msg 2) (w1 hdr);
               m = write_u16 m (fld msg 4) (w2 hdr);
               m = write_u16 m (fld msg 6) (w3 hdr);
               m = write_u16 m (fld msg 8) (w4 hdr)
           in if payload_len payload = 0
              then (if payload = None then FRONTEND_PROXY_PROCESS_OK else FRONTEND_PROXY_PROCESS_ERROR, m)
              else (FRONTEND_PROXY_PROCESS_OK, put_bytes m (fld msg 10) (payload_bytes payload)))"

definition build_proxy_data_message :: "mem \<Rightarrow> u8 list option \<Rightarrow> addr \<Rightarrow> int \<times> mem" where
  "build_proxy_data_message m payload msg = (FRONTEND_PROXY_PROCESS_OK, put_bytes m msg (payload_bytes payload))"

definition build_proxy_iot_message :: "mem \<Rightarrow> GeneralProxyMsgHeader \<Rightarrow> u8 list option \<Rightarrow> addr \<Rightarrow> int \<times> mem" where
  "build_proxy_iot_message m hdr payload msg =
     (if payload = None \<or> msg = 0 then (FRONTEND_PROXY_PROCESS_ERROR, m)
      else let proto_type = w1 (inner_header hdr);
               m = write_u16 m (fld msg 6) 0;
               m = write_u16 m (fld msg 4) 0;
               m = write_u16 m (fld msg 2) proto_type;
               m = write_u16 m (fld msg 0) 0;
               m = write_u16 m (fld msg 10) 0;
               len = get_iot_addr_length proto_type
           in if len = 0 then (FRONTEND_PROXY_PROCESS_ERROR, m)
              else let len = (if 0 < iot_addr_len hdr \<and> unat (iot_addr_len hdr) < len then unat (iot_addr_len hdr) else len);
                       m = put_bytes m (fld msg 12) (take len (iot_addr_info hdr));
                       m = put_bytes m (fld msg (12 + len)) (payload_bytes payload)
                   in (FRONTEND_PROXY_PROCESS_OK, write_u16 m (fld msg 8) (ucast (payload_len payload + of_nat len))))"

text \<open>
  The mode is \<^verbatim>\<open>MEMORY_ALLOC_AMPQUEUE\<close> in every call of the engine: the message is built in
  \<^verbatim>\<open>global_amp_tx_buf\<close> and copied into the queue at \<open>tx\<close>. For a message of an unknown type the code frees
  shared memory at an address it never set: that has no meaning and is \<open>None\<close>, as is a queue whose lock is held.
\<close>

abbreviation (input) HYPERAMP_ZONE_ID_SEL4 :: u32 where "HYPERAMP_ZONE_ID_SEL4 \<equiv> 1"
abbreviation (input) HYPERAMP_MSG_HDR_PLUS_MAX_SIZE :: nat where "HYPERAMP_MSG_HDR_PLUS_MAX_SIZE \<equiv> 4096"

definition put_proxy_header :: "mem \<Rightarrow> ProxyMsgHeader \<Rightarrow> addr \<Rightarrow> mem" where
  "put_proxy_header m h msg =
     (let m = m(fld msg 0 := proxy_version h);
          m = m(fld msg 1 := proxy_msg_type h);
          m = write_u16 m (fld msg 2) (proxy_frontend_sess_id h)
      in write_u16 m (fld msg 4) (proxy_backend_sess_id h))"

definition build_proxy_inner :: "mem \<Rightarrow> GeneralProxyMsgHeader \<Rightarrow> u8 list option \<Rightarrow> addr \<Rightarrow> (int \<times> u16 \<times> mem) option" where
  "build_proxy_inner m hdr payload msg_buf =
     (let ty = proxy_msg_type (outer_header hdr)
      in if ty = PROXY_MSG_TYPE_DEV
         then (case build_proxy_dev_message m (inner_header hdr) payload msg_buf of (ret, m) \<Rightarrow> Some (ret, 10, m))
         else if ty = PROXY_MSG_TYPE_STRGY
         then (case build_proxy_strgy_message m (inner_header hdr) payload msg_buf of (ret, m) \<Rightarrow> Some (ret, 10, m))
         else if ty = PROXY_MSG_TYPE_SESS
         then (case build_proxy_sess_message m (inner_header hdr) payload msg_buf of (ret, m) \<Rightarrow> Some (ret, 10, m))
         else if ty = PROXY_MSG_TYPE_DATA
         then (case build_proxy_data_message m payload msg_buf of (ret, m) \<Rightarrow> Some (ret, 0, m))
         else if ty = PROXY_MSG_TYPE_IOT
         then let sub_iot_hdr_len = get_iot_addr_length (w1 (inner_header hdr))
              in if sub_iot_hdr_len = 0 then Some (FRONTEND_PROXY_PROCESS_ERROR, 0, m)
                 else (case build_proxy_iot_message m hdr payload msg_buf of (ret, m) \<Rightarrow> Some (ret, 12 + of_nat sub_iot_hdr_len, m))
         else None)"

definition build_proxy_general_message ::
  "mem \<Rightarrow> addr \<Rightarrow> addr \<Rightarrow> addr \<Rightarrow> GeneralProxyMsgHeader \<Rightarrow> u8 list option \<Rightarrow> (int \<times> mem) option" where
  "build_proxy_general_message m tx vb buf hdr payload =
     (if tx = 0 then Some (FRONTEND_PROXY_PROCESS_ERROR, m)
      else do {
        let m = fill_bytes m buf 0 HYPERAMP_MSG_HDR_PLUS_MAX_SIZE;
        let m = put_proxy_header m (outer_header hdr) buf;
        (ret, proxy_msg_payload_len, m) \<leftarrow> build_proxy_inner m hdr payload (fld buf 8);
        if ret \<noteq> FRONTEND_PROXY_PROCESS_OK then Some (FRONTEND_PROXY_PROCESS_ERROR, m)
        else do {
          let m = write_u16 m (fld buf 6) (ucast (payload_len payload + ucast proxy_msg_payload_len));
          (ret, m) \<leftarrow> hyperamp_queue_enqueue m tx HYPERAMP_ZONE_ID_SEL4 buf
                         (payload_len payload + ucast proxy_msg_payload_len + PROXY_MSG_HDR_SIZE) vb;
          Some (if ret = HYPERAMP_OK then FRONTEND_PROXY_PROCESS_OK
                else if ret = HYPERAMP_AGAIN then FRONTEND_PROXY_PROCESS_AGAIN
                else FRONTEND_PROXY_PROCESS_ERROR, m)
        }
      })"

end
