(* ===== verification/FSession.thy ===== *)
theory FSession
  imports FMessage FEvents
begin

unbundle bit_operations_syntax

text \<open>
  The sessions of the front end and the pool that holds them: \<^verbatim>\<open>front/include/session.h\<close>,
  \<^verbatim>\<open>front/src/session.c\<close>, \<^verbatim>\<open>front/src/session_pool.c\<close> and \<^verbatim>\<open>front/src/frontend_api.c\<close>.

  The linked queues of the code are lists, as the macros of \<^verbatim>\<open>queue.h\<close> provide them as long as a node is
  in a queue at most once and only a node of the queue is removed: inserting a node that is linked and
  removing one that is not has no meaning and is \<open>None\<close>. The hash table is the list of its
  sessions with the identifiers under which they were inserted. A session that was freed is gone from \<open>sessions\<close>, so that an access to it
  is \<open>None\<close>. The results of \<^verbatim>\<open>malloc\<close> are a sequence of addresses with 0 for a failed allocation.
\<close>

subsection \<open>Data\<close>

datatype SessMsgSegType = SESS_MSG_SEG_DYNAMIC_ALLOC | SESS_MSG_SEG_SHARED_MEM

text \<open>A segment with the bytes its data pointer leads to; the pool of shared segments is not recorded.\<close>

record SessMsgSeg =
  seg_len :: u16
  seg_offset :: u16
  seg_type :: SessMsgSegType
  seg_data :: "u8 list"

text \<open>The callbacks of the front end itself, and those of an application by number.\<close>

datatype SESS_EVENT_CALLBACK = default_callback | placeholder_callback | app_callback nat

abbreviation (input) FRONTEND_SESS_LINKED_TO_QUEUE :: u8 where "FRONTEND_SESS_LINKED_TO_QUEUE \<equiv> 1"

record FrontendSession =
  sess_state :: FrontendSessState
  sess_ip_version :: u16
  frontend_sess_id :: u16
  backend_sess_id :: u16
  state_f2b :: u8
  state_b2f :: u8
  msg_f2b :: "SessMsgSeg list"
  msg_b2f :: "SessMsgSeg list"
  event_callback :: SESS_EVENT_CALLBACK

record FrontendSessionPool =
  sess_num :: int
  capacity :: int
  id_queue :: "u16 list"
  queue_f2b :: "addr list"
  queue_b2f :: "addr list"
  htable :: "(u16 \<times> addr) list"

text \<open>
  The state of the front end: the shared memory with the queues of the engine, the session objects, the
  pool of the engine, the static and local buffers of the code as addresses, which IoT sessions exist, the
  results of \<^verbatim>\<open>malloc\<close> with the number of calls so far, and the data of the application whose
  callbacks are bound to sessions. The engine and its pool exist and \<open>eng_ops\<close> says whether the pointer to the
  operations of the engine is set; the operations of the pool are the functions of \<^verbatim>\<open>fr_high_speed_pool_ops\<close>.
\<close>

record 'a frontend =
  fe_mem :: mem
  sessions :: "addr \<Rightarrow> FrontendSession option"
  pool :: FrontendSessionPool
  hyper_tx_queue :: addr
  hyper_rx_queue :: addr
  hyper_data_region :: addr
  eng_ops :: bool
  global_amp_tx_buf :: addr
  l_msg_buf :: addr
  l_block_size :: addr
  frontend_bluetooth_sess :: bool
  frontend_can_sess :: bool
  frontend_zigbee_sess :: bool
  frontend_lora_sess :: bool
  frontend_powerlink_sess :: bool
  frontend_modbustcp_sess :: bool
  malloc_result :: "nat \<Rightarrow> addr"
  mallocs :: nat
  app :: 'a

definition malloc :: "'a frontend \<Rightarrow> addr \<times> 'a frontend" where
  "malloc s = (malloc_result s (mallocs s), s\<lparr>mallocs := Suc (mallocs s)\<rparr>)"

definition upd_sess :: "addr \<Rightarrow> (FrontendSession \<Rightarrow> FrontendSession) \<Rightarrow> 'a frontend \<Rightarrow> 'a frontend option" where
  "upd_sess a f s = (case sessions s a of None \<Rightarrow> None | Some t \<Rightarrow> Some (s\<lparr>sessions := (sessions s)(a \<mapsto> f t)\<rparr>))"

definition upd_pool :: "(FrontendSessionPool \<Rightarrow> FrontendSessionPool) \<Rightarrow> 'a frontend \<Rightarrow> 'a frontend" where
  "upd_pool f s = s\<lparr>pool := f (pool s)\<rparr>"

text \<open>\<^verbatim>\<open>TAILQ_INSERT_TAIL\<close> and \<^verbatim>\<open>TAILQ_REMOVE\<close> on a list of nodes.\<close>

definition tailq_insert :: "'n list \<Rightarrow> 'n \<Rightarrow> 'n list option" where
  "tailq_insert q x = (if x \<in> set q then None else Some (q @ [x]))"

definition tailq_remove :: "'n list \<Rightarrow> 'n \<Rightarrow> 'n list option" where
  "tailq_remove q x = (if x \<in> set q then Some (remove1 x q) else None)"

subsection \<open>Linking sessions\<close>

definition FRONTEND_SESS_LINK_TO_QUEUE_f2b :: "addr \<Rightarrow> 'a frontend \<Rightarrow> 'a frontend option" where
  "FRONTEND_SESS_LINK_TO_QUEUE_f2b sess s = do {
     t \<leftarrow> sessions s sess;
     if state_f2b t AND FRONTEND_SESS_LINKED_TO_QUEUE = 0 then do {
       s \<leftarrow> upd_sess sess (\<lambda>t. t\<lparr>state_f2b := state_f2b t OR FRONTEND_SESS_LINKED_TO_QUEUE\<rparr>) s;
       q \<leftarrow> tailq_insert (queue_f2b (pool s)) sess;
       Some (upd_pool (\<lambda>p. p\<lparr>queue_f2b := q\<rparr>) s)
     } else Some s
   }"

definition FRONTEND_SESS_LINK_TO_QUEUE_b2f :: "addr \<Rightarrow> 'a frontend \<Rightarrow> 'a frontend option" where
  "FRONTEND_SESS_LINK_TO_QUEUE_b2f sess s = do {
     t \<leftarrow> sessions s sess;
     if state_b2f t AND FRONTEND_SESS_LINKED_TO_QUEUE = 0 then do {
       s \<leftarrow> upd_sess sess (\<lambda>t. t\<lparr>state_b2f := state_b2f t OR FRONTEND_SESS_LINKED_TO_QUEUE\<rparr>) s;
       q \<leftarrow> tailq_insert (queue_b2f (pool s)) sess;
       Some (upd_pool (\<lambda>p. p\<lparr>queue_b2f := q\<rparr>) s)
     } else Some s
   }"

definition FRONTEND_SESS_UNLINK_FROM_QUEUE_f2b :: "addr \<Rightarrow> 'a frontend \<Rightarrow> 'a frontend option" where
  "FRONTEND_SESS_UNLINK_FROM_QUEUE_f2b sess s = do {
     t \<leftarrow> sessions s sess;
     if state_f2b t AND FRONTEND_SESS_LINKED_TO_QUEUE \<noteq> 0 then do {
       q \<leftarrow> tailq_remove (queue_f2b (pool s)) sess;
       let s = upd_pool (\<lambda>p. p\<lparr>queue_f2b := q\<rparr>) s;
       upd_sess sess (\<lambda>t. t\<lparr>state_f2b := state_f2b t AND NOT FRONTEND_SESS_LINKED_TO_QUEUE\<rparr>) s
     } else Some s
   }"

subsection \<open>Segments\<close>

text \<open>
  A segment and its buffer, each from its own \<^verbatim>\<open>malloc\<close>; \<open>data\<close> is the content of the buffer after the copy
  with which both callers follow the allocation.
\<close>

definition sess_msg_seg_alloc :: "u8 list \<Rightarrow> 'a frontend \<Rightarrow> SessMsgSeg option \<times> 'a frontend" where
  "sess_msg_seg_alloc data s =
     (let (p, s) = malloc s
      in if p = 0 then (None, s)
         else let (d, s) = malloc s
              in if d = 0 then (None, s)
                 else (Some \<lparr>seg_len = of_nat (length data), seg_offset = 0, seg_type = SESS_MSG_SEG_DYNAMIC_ALLOC, seg_data = data\<rparr>, s))"

subsection \<open>Sending and receiving on a session\<close>

text \<open>
  The loop of \<^verbatim>\<open>frontend_sess_send\<close> over the bytes that remain, with the number of bytes queued so far; it
  stops at the first failed allocation. The chunk size is positive there.
\<close>

function sess_send_loop :: "addr \<Rightarrow> nat \<Rightarrow> u8 list \<Rightarrow> nat \<Rightarrow> 'a frontend \<Rightarrow> (nat \<times> 'a frontend) option" where
  "sess_send_loop sess max_payload data n s =
     (if data = [] \<or> max_payload = 0 then Some (n, s)
      else (case sess_msg_seg_alloc (take max_payload data) s of
              (None, s) \<Rightarrow> Some (n, s)
            | (Some seg, s) \<Rightarrow>
                (case upd_sess sess (\<lambda>t. t\<lparr>msg_f2b := msg_f2b t @ [seg]\<rparr>) s of
                   None \<Rightarrow> None
                 | Some s \<Rightarrow> sess_send_loop sess max_payload (drop max_payload data) (n + length (take max_payload data)) s)))"
  by pat_completeness auto
termination
  by (relation "measure (\<lambda>(_, _, data, _, _). length data)") auto

text \<open>\<open>data\<close> holds the \<open>size\<close> bytes of the caller's buffer, \<open>None\<close> for the null pointer; the result is the number queued.\<close>

definition frontend_sess_send :: "addr \<Rightarrow> u8 list option \<Rightarrow> 'a frontend \<Rightarrow> (int \<times> 'a frontend) option" where
  "frontend_sess_send sess data s =
     (if sess = 0 \<or> payload_bytes data = [] then Some (- 1, s)
      else let block_size = (if hyper_tx_queue s \<noteq> 0 then unat (q_block_size (fe_mem s) (hyper_tx_queue s)) else 0)
           in if block_size = 0 then Some (- 1, s)
              else if block_size \<le> 8 then Some (- 1, s)
              else do {
                (n, s) \<leftarrow> sess_send_loop sess (block_size - 8) (payload_bytes data) 0 s;
                s \<leftarrow> (if n > 0 then FRONTEND_SESS_LINK_TO_QUEUE_f2b sess s else Some s);
                Some (sint (of_nat n :: u32), s)
              })"

text \<open>The loop of \<^verbatim>\<open>frontend_sess_recv\<close> over the segments, with the room that is left and the bytes copied so far.\<close>

fun sess_recv_loop :: "SessMsgSeg list \<Rightarrow> nat \<Rightarrow> u8 list \<Rightarrow> u8 list \<times> SessMsgSeg list" where
  "sess_recv_loop [] room out = (out, [])"
| "sess_recv_loop (seg # segs) room out =
     (if room = 0 then (out, seg # segs)
      else if unat (seg_len seg) \<le> room
      then sess_recv_loop segs (room - unat (seg_len seg)) (out @ take (unat (seg_len seg)) (seg_data seg))
      else (out @ take room (seg_data seg),
            seg\<lparr>seg_data := drop room (seg_data seg), seg_len := seg_len seg - of_nat room, seg_offset := seg_offset seg + of_nat room\<rparr> # segs))"

text \<open>The result is the number of bytes, or -1, with the bytes written to the caller's buffer.\<close>

definition frontend_sess_recv :: "addr \<Rightarrow> bool \<Rightarrow> u32 \<Rightarrow> 'a frontend \<Rightarrow> (int \<times> u8 list \<times> 'a frontend) option" where
  "frontend_sess_recv sess data_ok sz s =
     (if sess = 0 \<or> \<not> data_ok \<or> sz = 0 then Some (- 1, [], s)
      else do {
        t \<leftarrow> sessions s sess;
        let (out, segs) = sess_recv_loop (msg_b2f t) (unat sz) [];
        s \<leftarrow> upd_sess sess (\<lambda>t. t\<lparr>msg_b2f := segs\<rparr>) s;
        Some (sint (of_nat (length out) :: u32), out, s)
      })"

definition frontend_sess_bind_callback :: "addr \<Rightarrow> SESS_EVENT_CALLBACK \<Rightarrow> 'a frontend \<Rightarrow> (int \<times> 'a frontend) option" where
  "frontend_sess_bind_callback sess cb s =
     (if sess = 0 then Some (FRONTEND_PROXY_PROCESS_ERROR, s)
      else do {
        s \<leftarrow> upd_sess sess (\<lambda>t. t\<lparr>event_callback := cb\<rparr>) s;
        Some (FRONTEND_PROXY_PROCESS_OK, s)
      })"

text \<open>A new session has the content \<open>garbage\<close> of the memory that was allocated, but for its callback.\<close>

definition frontend_sess_new :: "FrontendSession \<Rightarrow> 'a frontend \<Rightarrow> addr \<times> 'a frontend" where
  "frontend_sess_new garbage s =
     (let (p, s) = malloc s
      in if p = 0 then (0, s)
         else (p, s\<lparr>sessions := (sessions s)(p \<mapsto> garbage\<lparr>event_callback := default_callback\<rparr>)\<rparr>))"

subsection \<open>Events\<close>

text \<open>
  Calling the callback of a session: the default callback sends \<^verbatim>\<open>test msg\<close> when the session is connected.
  \<open>cbs\<close> gives the meaning of the callbacks of the application.
\<close>

type_synonym 'a callbacks = "nat \<Rightarrow> addr \<Rightarrow> FrontendSessionEvent \<Rightarrow> 'a frontend \<Rightarrow> 'a frontend option"

definition test_msg :: "u8 list" where
  "test_msg = [0x74, 0x65, 0x73, 0x74, 0x20, 0x6D, 0x73, 0x67]"

definition default_session_event_callback :: "addr \<Rightarrow> FrontendSessionEvent \<Rightarrow> 'a frontend \<Rightarrow> 'a frontend option" where
  "default_session_event_callback sess event s =
     (case event of
        FRONTEND_SESS_EVENT_CONN \<Rightarrow> map_option snd (frontend_sess_send sess (Some test_msg) s)
      | _ \<Rightarrow> Some s)"

definition call_event_callback :: "'a callbacks \<Rightarrow> addr \<Rightarrow> FrontendSessionEvent \<Rightarrow> 'a frontend \<Rightarrow> 'a frontend option" where
  "call_event_callback cbs sess event s = do {
     t \<leftarrow> sessions s sess;
     (case event_callback t of
        default_callback \<Rightarrow> default_session_event_callback sess event s
      | placeholder_callback \<Rightarrow> Some s
      | app_callback n \<Rightarrow> cbs n sess event s)
   }"

end
