(* ===== verification/FAddr.thy ===== *)
theory FAddr
  imports Prelude "HOL-Library.Monad_Syntax"
begin

text \<open>
  Reading an address string \<^verbatim>\<open>a.b.c.d:port\<close>: the macros of \<^verbatim>\<open>front/include/session.h\<close> over
  the conversions of \<^verbatim>\<open>sscanf\<close> they use, as the C library of the repository has them
  (\<^verbatim>\<open>musllibc/src/internal/intscan.c\<close> for a decimal number). A C string is the list of its characters. The
  macros leave the structure as it was when the string does not have the form, so its old content is an argument.
\<close>

subsection \<open>Decimal numbers\<close>

definition isspace :: "char \<Rightarrow> bool" where
  "isspace c = (of_char c = (32 :: nat) \<or> (9 \<le> (of_char c :: nat) \<and> of_char c \<le> (13 :: nat)))"

definition isdigit :: "char \<Rightarrow> bool" where
  "isdigit c = (48 \<le> (of_char c :: nat) \<and> of_char c \<le> (57 :: nat))"

definition digit :: "char \<Rightarrow> nat" where
  "digit c = of_char c - 48"

text \<open>The two loops over the digits: as long as 32 bits are enough, then as long as 64 bits are.\<close>

fun intscan_u32 :: "u32 \<Rightarrow> string \<Rightarrow> u32 \<times> string" where
  "intscan_u32 x [] = (x, [])"
| "intscan_u32 x (c # cs) =
     (if isdigit c \<and> x \<le> 0xFFFFFFFF div 10 - 1 then intscan_u32 (x * 10 + of_nat (digit c)) cs else (x, c # cs))"

fun intscan_u64 :: "u64 \<Rightarrow> string \<Rightarrow> u64 \<times> string" where
  "intscan_u64 y [] = (y, [])"
| "intscan_u64 y (c # cs) =
     (if isdigit c \<and> y \<le> 0xFFFFFFFFFFFFFFFF div 10 \<and> 10 * y \<le> 0xFFFFFFFFFFFFFFFF - of_nat (digit c)
      then intscan_u64 (y * 10 + of_nat (digit c)) cs else (y, c # cs))"

text \<open>The function for base 10 and the limit of 64 bits, which it returns for larger numbers. \<open>None\<close>: no number.\<close>

definition intscan :: "string \<Rightarrow> (u64 \<times> string) option" where
  "intscan s =
     (let s = dropWhile isspace s;
          (neg, s) = (case s of [] \<Rightarrow> (False, []) | c # cs \<Rightarrow> if c = CHR ''+'' \<or> c = CHR ''-'' then (c = CHR ''-'', cs) else (False, s))
      in case s of
           [] \<Rightarrow> None
         | c # _ \<Rightarrow>
             if \<not> isdigit c then None
             else
               let (x, s) = intscan_u32 0 s;
                   (y, s) = intscan_u64 (ucast x) s;
                   (y, neg, s) = (case s of [] \<Rightarrow> (y, neg, [])
                                  | c # _ \<Rightarrow> if isdigit c then (0xFFFFFFFFFFFFFFFF, False, dropWhile isdigit s) else (y, neg, s))
               in Some (if neg then - y else y, s))"

text \<open>The conversion \<^verbatim>\<open>%u\<close> stores the number in 32 bits; an ordinary character matches itself.\<close>

definition scan_u :: "string \<Rightarrow> (u32 \<times> string) option" where
  "scan_u s = map_option (\<lambda>(y, s). (ucast y, s)) (intscan s)"

definition match_char :: "char \<Rightarrow> string \<Rightarrow> string option" where
  "match_char c s = (case s of [] \<Rightarrow> None | d # ds \<Rightarrow> if d = c then Some ds else None)"

subsection \<open>Addresses\<close>

definition IPV4_STR_TO_ADDR :: "string \<Rightarrow> u8 list \<Rightarrow> u8 list" where
  "IPV4_STR_TO_ADDR ip_str addr =
     (case do {
        (a, s) \<leftarrow> scan_u ip_str; s \<leftarrow> match_char (CHR ''.'') s;
        (b, s) \<leftarrow> scan_u s; s \<leftarrow> match_char (CHR ''.'') s;
        (c, s) \<leftarrow> scan_u s; s \<leftarrow> match_char (CHR ''.'') s;
        (d, s) \<leftarrow> scan_u s;
        Some (a, b, c, d)
      } of
        None \<Rightarrow> addr
      | Some (a, b, c, d) \<Rightarrow>
          if a \<le> 255 \<and> b \<le> 255 \<and> c \<le> 255 \<and> d \<le> 255 then [ucast a, ucast b, ucast c, ucast d] else addr)"

text \<open>\<^verbatim>\<open>%15[^:]\<close> takes at least one and at most 15 characters other than the colon.\<close>

definition scan_until_colon :: "nat \<Rightarrow> string \<Rightarrow> (string \<times> string) option" where
  "scan_until_colon n s =
     (let w = takeWhile (\<lambda>c. c \<noteq> CHR '':'') (take n s) in if w = [] then None else Some (w, drop (length w) s))"

definition IPV4_PORT_STR_TO_TUPLE :: "string \<Rightarrow> u8 list \<times> u16 \<Rightarrow> u8 list \<times> u16" where
  "IPV4_PORT_STR_TO_TUPLE ip_port_str tuple =
     (case do {
        (ip_str, s) \<leftarrow> scan_until_colon 15 ip_port_str; s \<leftarrow> match_char (CHR '':'') s;
        (port, s) \<leftarrow> scan_u s;
        Some (ip_str, port)
      } of
        None \<Rightarrow> tuple
      | Some (ip_str, port) \<Rightarrow>
          (IPV4_STR_TO_ADDR ip_str (fst tuple), if port > 65535 then snd tuple else ucast port))"

subsection \<open>The number that is read\<close>

text \<open>The value of a string of digits, and the digits of a number.\<close>

definition dec_val :: "nat \<Rightarrow> string \<Rightarrow> nat" where
  "dec_val = foldl (\<lambda>n c. n * 10 + digit c)"

fun dec :: "nat \<Rightarrow> string" where
  "dec n = (if n < 10 then [char_of (n + 48)] else dec (n div 10) @ [char_of (n mod 10 + 48)])"

declare dec.simps [simp del]

lemma dec_val_simps [simp]: "dec_val n [] = n" "dec_val n (c # cs) = dec_val (n * 10 + digit c) cs"
  "dec_val n (s @ t) = dec_val (dec_val n s) t"
  by (simp_all add: dec_val_def)

lemma dec_val_mono: "n \<le> dec_val n cs"
proof (induction cs arbitrary: n)
  case (Cons c cs)
  from Cons[of "n * 10 + digit c"] show ?case by simp
qed simp

lemma digit_less: "isdigit c \<Longrightarrow> digit c < 10"
  by (auto simp: isdigit_def digit_def)

lemma digit_char [simp]: "n < 10 \<Longrightarrow> isdigit (char_of (n + 48)) \<and> digit (char_of (n + 48)) = n"
  by (simp add: isdigit_def digit_def of_char_of)

lemma dec_digits: "list_all isdigit (dec n)" "dec n \<noteq> []" "dec_val 0 (dec n) = n"
proof -
  show "list_all isdigit (dec n)" by (induction n rule: dec.induct) (subst dec.simps, simp)
  show "dec n \<noteq> []" by (subst dec.simps) simp
  show "dec_val 0 (dec n) = n" by (induction n rule: dec.induct) (subst dec.simps, simp)
qed

lemma length_dec: "n < 1000 \<Longrightarrow> length (dec n) \<le> 3"
  by (subst dec.simps, subst dec.simps, subst dec.simps) auto

lemma isdigit_not: "isdigit c \<Longrightarrow> \<not> isspace c \<and> c \<notin> {CHR ''+'', CHR ''-'', CHR ''.'', CHR '':''}"
  by (auto simp: isdigit_def isspace_def)

lemma intscan_u64_val:
  assumes "list_all isdigit ds" "rest \<noteq> [] \<longrightarrow> \<not> isdigit (hd rest)" "dec_val (unat y) ds < 2 ^ 64"
  shows "intscan_u64 y (ds @ rest) = (of_nat (dec_val (unat y) ds), rest)"
  using assms(1,3)
proof (induction ds arbitrary: y)
  case Nil
  then show ?case using assms(2) by (cases rest) simp_all
next
  case (Cons d ds)
  let ?n = "unat y * 10 + digit d"
  have n: "?n < 2 ^ 64" using Cons.prems(2) dec_val_mono[of ?n ds] by simp
  have d: "digit d < 10" using digit_less Cons.prems(1) by simp
  have w: "unat (y * 10 + of_nat (digit d)) = ?n"
    using n d by (simp add: unat_word_ariths unat_of_nat)
  have g: "y \<le> 0xFFFFFFFFFFFFFFFF div 10" "10 * y \<le> 0xFFFFFFFFFFFFFFFF - of_nat (digit d)"
    using n d by (simp_all add: word_le_nat_alt unat_word_ariths unat_of_nat unat_sub unat_div)
  show ?case using Cons.IH[of "y * 10 + of_nat (digit d)"] Cons.prems w g by simp
qed

lemma intscan_u32_val:
  assumes "list_all isdigit ds" "rest \<noteq> [] \<longrightarrow> \<not> isdigit (hd rest)" "dec_val (unat x) ds < 2 ^ 64"
  shows "(case intscan_u32 x (ds @ rest) of (x, s) \<Rightarrow> intscan_u64 (ucast x) s) = (of_nat (dec_val (unat x) ds), rest)"
  using assms(1,3)
proof (induction ds arbitrary: x)
  case Nil
  then show ?case using assms(2) by (cases rest) simp_all
next
  case (Cons d ds)
  show ?case
  proof (cases "x \<le> 0xFFFFFFFF div 10 - 1")
    case True
    have d: "digit d < 10" using digit_less Cons.prems(1) by simp
    then have "unat (x * 10 + of_nat (digit d)) = unat x * 10 + digit d"
      using True by (simp add: word_le_nat_alt unat_word_ariths unat_of_nat)
    then show ?thesis using Cons.IH[of "x * 10 + of_nat (digit d)"] Cons.prems True by simp
  next
    case False
    then show ?thesis using intscan_u64_val[OF Cons.prems(1) assms(2), of "ucast x"] Cons.prems(2) by (simp add: unat_ucast_up)
  qed
qed

text \<open>Both loops together read the value of the digits, as long as it fits into 64 bits.\<close>

lemma intscan_val:
  assumes "list_all isdigit ds" "ds \<noteq> []" "rest \<noteq> [] \<longrightarrow> \<not> isdigit (hd rest)" "dec_val 0 ds < 2 ^ 64"
  shows "intscan (ds @ rest) = Some (of_nat (dec_val 0 ds), rest)"
proof -
  obtain d ds' where d: "ds = d # ds'" "isdigit d" using assms(1,2) by (cases ds) auto
  have *: "(case intscan_u32 0 (ds @ rest) of (x, s) \<Rightarrow> intscan_u64 (ucast x) s) = (of_nat (dec_val 0 ds), rest)"
    using intscan_u32_val[OF assms(1,3), of 0] assms(4) by simp
  then show ?thesis using d isdigit_not[OF d(2)] assms(3)
    by (cases rest) (auto simp: intscan_def split: prod.splits)
qed

lemma scan_u_dec:
  assumes "rest \<noteq> [] \<longrightarrow> \<not> isdigit (hd rest)" "n < 2 ^ 32"
  shows "scan_u (dec n @ rest) = Some (of_nat n, rest)"
  using intscan_val[OF dec_digits(1,2) assms(1)] assms(2) dec_digits(3)[of n]
  by (simp add: scan_u_def unsigned_of_nat take_bit_nat_eq_self)

subsection \<open>Reading back\<close>

definition show_ip :: "u8 \<Rightarrow> u8 \<Rightarrow> u8 \<Rightarrow> u8 \<Rightarrow> string" where
  "show_ip a b c d = dec (unat a) @ ''.'' @ dec (unat b) @ ''.'' @ dec (unat c) @ ''.'' @ dec (unat d)"

lemma unat_bounds: "unat (x :: u8) < 256" "unat (p :: u16) < 65536"
  using unsigned_less[of x, where 'a = nat] unsigned_less[of p, where 'a = nat] by simp_all

lemma not_digit_chars [simp]: "\<not> isdigit (CHR ''.'')" "\<not> isdigit (CHR '':'')"
  by (simp_all add: isdigit_def)

lemma show_ip_colon: "CHR '':'' \<notin> set (show_ip a b c d)" "show_ip a b c d \<noteq> []" "length (show_ip a b c d) \<le> 15"
proof -
  have "CHR '':'' \<notin> set (dec n)" for n using dec_digits(1)[of n] isdigit_not by (auto simp: list_all_iff)
  then show "CHR '':'' \<notin> set (show_ip a b c d)" by (simp add: show_ip_def)
  show "show_ip a b c d \<noteq> []" by (simp add: show_ip_def)
  have "length (dec (unat x)) \<le> 3" for x :: u8 using length_dec[of "unat x"] unat_bounds(1)[of x] by simp
  from this[of a] this[of b] this[of c] this[of d] show "length (show_ip a b c d) \<le> 15" by (simp add: show_ip_def)
qed

lemma octet_word [simp]: "(ucast (x :: u8) :: u32) \<le> 255" "\<not> (ucast (p :: u16) :: u32) > 65535"
  "ucast (ucast x :: u32) = x" "ucast (ucast p :: u32) = p"
proof -
  show "(ucast x :: u32) \<le> 255" "\<not> (ucast p :: u32) > 65535"
    using unat_bounds(1)[of x] unat_bounds(2)[of p] by (simp_all add: word_le_nat_alt word_less_nat_alt unat_ucast_up)
  show "ucast (ucast x :: u32) = x" "ucast (ucast p :: u32) = p" by (rule bit_word_eqI; simp add: bit_simps)+
qed

lemma str_to_addr_show: "IPV4_STR_TO_ADDR (show_ip a b c d) addr = [a, b, c, d]"
proof -
  have l: "unat x < 2 ^ 32" for x :: u8 using unat_bounds(1)[of x] by simp
  note s = scan_u_dec[OF _ l]
  show ?thesis unfolding IPV4_STR_TO_ADDR_def show_ip_def
    using s[of "[]"] by (simp add: s match_char_def)
qed

text \<open>The string of an address and a port, printed with decimal numbers, is read as that address and that port, whatever
  the structure held before.\<close>

lemma addr_roundtrip: "IPV4_PORT_STR_TO_TUPLE (show_ip a b c d @ '':'' @ dec (unat port)) tuple = ([a, b, c, d], port)"
proof -
  let ?ip = "show_ip a b c d" and ?s = "show_ip a b c d @ '':'' @ dec (unat port)"
  have "takeWhile (\<lambda>c. c \<noteq> CHR '':'') (take 15 ?s) = ?ip"
    using show_ip_colon[of a b c d] by (cases "15 - length ?ip") (auto simp: takeWhile_append)
  then have "scan_until_colon 15 ?s = Some (?ip, '':'' @ dec (unat port))"
    using show_ip_colon(2) by (simp add: scan_until_colon_def)
  moreover have "scan_u (dec (unat port)) = Some (ucast port, [])"
    using scan_u_dec[of "[]" "unat port"] unat_bounds(2)[of port] by simp
  ultimately show ?thesis by (simp add: IPV4_PORT_STR_TO_TUPLE_def match_char_def str_to_addr_show)
qed

end
