(* ===== verification/FPool.thy ===== *)
theory FPool
  imports FSession FAddr
begin

unbundle bit_operations_syntax

text \<open>
  The session pool, \<^verbatim>\<open>front/src/session_pool.c\<close>: identifiers, the table of sessions, creating and closing
  a session, and turning the segments of a session into messages. \<open>None\<close> stands for leaving the program
  (\<^verbatim>\<open>exit\<close> when an allocation of a queue node fails) and for code that has no meaning, as in \<open>FSession\<close>.
\<close>

subsection \<open>Identifiers\<close>

definition allocate_id :: "'a frontend \<Rightarrow> u16 \<times> 'a frontend" where
  "allocate_id s = (case id_queue (pool s) of [] \<Rightarrow> (0, s) | i # is \<Rightarrow> (i, upd_pool (\<lambda>p. p\<lparr>id_queue := is\<rparr>) s))"

definition release_id :: "u16 \<Rightarrow> 'a frontend \<Rightarrow> 'a frontend option" where
  "release_id i s =
     (let (p, s) = malloc s
      in if p = 0 then None else Some (upd_pool (\<lambda>p. p\<lparr>id_queue := id_queue p @ [i]\<rparr>) s))"

fun fill_id_loop :: "u16 list \<Rightarrow> 'a frontend \<Rightarrow> 'a frontend option" where
  "fill_id_loop [] s = Some s"
| "fill_id_loop (i # is) s = (case release_id i s of None \<Rightarrow> None | Some s \<Rightarrow> fill_id_loop is s)"

definition fill_id_queue :: "'a frontend \<Rightarrow> 'a frontend option" where
  "fill_id_queue s = fill_id_loop (map of_nat [1..<1025]) s"

definition frontend_high_speed_init_pool :: "'a frontend \<Rightarrow> (int \<times> 'a frontend) option" where
  "frontend_high_speed_init_pool s = do {
     let s = upd_pool (\<lambda>p. p\<lparr>capacity := 1024, sess_num := 0, id_queue := []\<rparr>) s;
     s \<leftarrow> fill_id_queue s;
     let s = upd_pool (\<lambda>p. p\<lparr>queue_f2b := [], queue_b2f := [], htable := []\<rparr>) s;
     Some (FRONTEND_PROXY_PROCESS_OK, s)
   }"

subsection \<open>The table of sessions\<close>

definition inc_sess_num :: "'a frontend \<Rightarrow> 'a frontend" where
  "inc_sess_num = upd_pool (\<lambda>p. p\<lparr>sess_num := sess_num p + 1\<rparr>)"

definition dec_sess_num :: "'a frontend \<Rightarrow> 'a frontend" where
  "dec_sess_num = upd_pool (\<lambda>p. p\<lparr>sess_num := sess_num p - 1\<rparr>)"

definition frontend_high_speed_search_sess :: "'a frontend \<Rightarrow> u16 \<Rightarrow> addr option" where
  "frontend_high_speed_search_sess s i = map_of (htable (pool s)) i"

definition frontend_high_speed_insert_sess :: "addr \<Rightarrow> 'a frontend \<Rightarrow> (int \<times> 'a frontend) option" where
  "frontend_high_speed_insert_sess sess s = do {
     t \<leftarrow> sessions s sess;
     (case map_of (htable (pool s)) (frontend_sess_id t) of
        None \<Rightarrow> Some (FRONTEND_PROXY_PROCESS_OK, inc_sess_num (upd_pool (\<lambda>p. p\<lparr>htable := htable p @ [(frontend_sess_id t, sess)]\<rparr>) s))
      | Some _ \<Rightarrow> Some (FRONTEND_PROXY_PROCESS_ERROR, s))
   }"

text \<open>\<^verbatim>\<open>HASH_DEL\<close> takes a session out of the table; it has to be there.\<close>

definition hash_del :: "addr \<Rightarrow> 'a frontend \<Rightarrow> 'a frontend option" where
  "hash_del sess s =
     (if sess \<in> snd ` set (htable (pool s))
      then Some (upd_pool (\<lambda>p. p\<lparr>htable := filter (\<lambda>(_, a). a \<noteq> sess) (htable p)\<rparr>) s) else None)"

definition frontend_high_speed_delete_all_sess :: "'a frontend \<Rightarrow> 'a frontend" where
  "frontend_high_speed_delete_all_sess s =
     upd_pool (\<lambda>p. p\<lparr>htable := []\<rparr>)
       (s\<lparr>sessions := (\<lambda>a. if a \<in> snd ` set (htable (pool s)) then None else sessions s a)\<rparr>)"

definition frontend_high_speed_destroy_pool :: "'a frontend \<Rightarrow> 'a frontend" where
  "frontend_high_speed_destroy_pool s =
     frontend_high_speed_delete_all_sess (upd_pool (\<lambda>p. p\<lparr>capacity := 0, sess_num := 0\<rparr>) s)"

definition frontend_high_speed_delete_sess :: "addr \<Rightarrow> 'a frontend \<Rightarrow> (int \<times> 'a frontend) option" where
  "frontend_high_speed_delete_sess sess s =
     (if sess = 0 then Some (FRONTEND_PROXY_PROCESS_ERROR, s)
      else do {
        t \<leftarrow> sessions s sess;
        s \<leftarrow> hash_del sess s;
        s \<leftarrow> release_id (frontend_sess_id t) s;
        let s = dec_sess_num s;
        s \<leftarrow> FRONTEND_SESS_UNLINK_FROM_QUEUE_f2b sess s;
        Some (FRONTEND_PROXY_PROCESS_OK, s\<lparr>sessions := (sessions s)(sess := None)\<rparr>)
      })"

subsection \<open>Creating a session\<close>

record SessMsgPara =
  para_frontend_sess_id :: u16
  para_backend_sess_id :: u16
  para_dev_id :: u16
  para_ip_version :: u16
  para_trans_proto :: u16
  para_ipv4_addr :: "u8 list"
  para_port :: u16

definition build_message :: "GeneralProxyMsgHeader \<Rightarrow> u8 list option \<Rightarrow> 'a frontend \<Rightarrow> (int \<times> 'a frontend) option" where
  "build_message hdr payload s = do {
     (ret, m) \<leftarrow> build_proxy_general_message (fe_mem s) (hyper_tx_queue s) (hyper_data_region s) (global_amp_tx_buf s) hdr payload;
     Some (ret, s\<lparr>fe_mem := m\<rparr>)
   }"

definition sess_header :: "u16 \<Rightarrow> u16 \<Rightarrow> InnerHeader \<Rightarrow> GeneralProxyMsgHeader" where
  "sess_header fsid bsid inner =
     \<lparr>outer_header = \<lparr>proxy_version = 1, proxy_msg_type = PROXY_MSG_TYPE_SESS, proxy_frontend_sess_id = fsid,
                      proxy_backend_sess_id = bsid, proxy_payload_len = 20\<rparr>,
      inner_header = inner, iot_addr_info = replicate 20 0, iot_addr_len = 0\<rparr>"

text \<open>\<^verbatim>\<open>SessIPv4Params\<close>: device, protocol, address and port.\<close>

definition SessIPv4Params :: "SessMsgPara \<Rightarrow> u8 list" where
  "SessIPv4Params para = le16 (para_dev_id para) @ le16 (para_trans_proto para) @ para_ipv4_addr para @ le16 (para_port para)"

definition frontend_high_speed_create_sess_step1 :: "addr \<Rightarrow> SessMsgPara \<Rightarrow> 'a frontend \<Rightarrow> (int \<times> 'a frontend) option" where
  "frontend_high_speed_create_sess_step1 sess para s =
     (case allocate_id s of
        (new_sess_id, s) \<Rightarrow>
          if new_sess_id = 0 then Some (FRONTEND_PROXY_PROCESS_ERROR, s)
          else do {
            s \<leftarrow> upd_sess sess (\<lambda>t. t\<lparr>frontend_sess_id := new_sess_id, backend_sess_id := para_backend_sess_id para,
                    sess_ip_version := para_ip_version para,
                    state_f2b := state_f2b t AND FRONTEND_SESS_LINKED_TO_QUEUE,
                    state_b2f := state_b2f t AND FRONTEND_SESS_LINKED_TO_QUEUE,
                    sess_state := FRONTEND_SESS_INITIALIZE, msg_f2b := [], msg_b2f := []\<rparr>) s;
            (ret, s) \<leftarrow> build_message (sess_header new_sess_id (para_backend_sess_id para)
                           (SessMsgHeader 1 SESS_MSG_CREATE ACTION_TYPE_COMMAND (para_ip_version para) 10)) (Some (SessIPv4Params para)) s;
            if ret \<noteq> FRONTEND_PROXY_PROCESS_OK
            then do { s \<leftarrow> release_id new_sess_id s; Some (FRONTEND_PROXY_PROCESS_ERROR, s) }
            else do {
              s \<leftarrow> upd_sess sess (\<lambda>t. t\<lparr>sess_state := FRONTEND_SESS_CONNECTING\<rparr>) s;
              (ret, s) \<leftarrow> frontend_high_speed_insert_sess sess s;
              if ret \<noteq> FRONTEND_PROXY_PROCESS_OK
              then do { s \<leftarrow> release_id new_sess_id s; Some (FRONTEND_PROXY_PROCESS_ERROR, s) }
              else Some (FRONTEND_PROXY_PROCESS_OK, s)
            }
          })"

definition frontend_high_speed_create_sess_step2 :: "addr \<Rightarrow> u16 \<Rightarrow> u8 \<Rightarrow> 'a frontend \<Rightarrow> (int \<times> 'a frontend) option" where
  "frontend_high_speed_create_sess_step2 sess sess_id status s = do {
     t \<leftarrow> sessions s sess;
     s \<leftarrow> (if status \<noteq> 0 then release_id (frontend_sess_id t) s else Some s);
     s \<leftarrow> upd_sess sess (\<lambda>t. t\<lparr>backend_sess_id := sess_id, sess_state := FRONTEND_SESS_CONNECTED\<rparr>) s;
     Some (FRONTEND_PROXY_PROCESS_OK, s)
   }"

definition frontend_sess_connect :: "addr \<Rightarrow> SessMsgPara \<Rightarrow> 'a frontend \<Rightarrow> (int \<times> 'a frontend) option" where
  "frontend_sess_connect sess para s = frontend_high_speed_create_sess_step1 sess para s"

text \<open>The address and the port are read from the string \<^verbatim>\<open>a.b.c.d:port\<close>. When it does not have this form the request goes on with
  the content \<open>tuple\<close> that the local variable happens to have.\<close>

definition frontend_sess_connect_by_addrstr_devid ::
  "u8 list \<times> u16 \<Rightarrow> addr \<Rightarrow> u16 \<Rightarrow> string \<Rightarrow> u16 \<Rightarrow> 'a frontend \<Rightarrow> (int \<times> 'a frontend) option" where
  "frontend_sess_connect_by_addrstr_devid tuple sess proto addr_str dev_id s =
     (let (ip, port) = IPV4_PORT_STR_TO_TUPLE addr_str tuple
      in frontend_sess_connect sess
       \<lparr>para_frontend_sess_id = 0xFFFF, para_backend_sess_id = 0xFFFF, para_dev_id = dev_id, para_ip_version = SESS_IPV4_PROTO,
        para_trans_proto = proto, para_ipv4_addr = ip, para_port = port\<rparr> s)"

definition frontend_sess_connect_by_addrstr ::
  "u8 list \<times> u16 \<Rightarrow> addr \<Rightarrow> u16 \<Rightarrow> string \<Rightarrow> 'a frontend \<Rightarrow> (int \<times> 'a frontend) option" where
  "frontend_sess_connect_by_addrstr tuple sess proto addr_str s =
     (let (ip, port) = IPV4_PORT_STR_TO_TUPLE addr_str tuple
      in frontend_sess_connect sess
       \<lparr>para_frontend_sess_id = 0xFFFF, para_backend_sess_id = 0xFFFF, para_dev_id = 0xFF, para_ip_version = SESS_IPV4_PROTO,
        para_trans_proto = proto, para_ipv4_addr = ip, para_port = port\<rparr> s)"

subsection \<open>Closing a session\<close>

definition frontend_high_speed_close_sess_step1 :: "addr \<Rightarrow> 'a frontend \<Rightarrow> (int \<times> 'a frontend) option" where
  "frontend_high_speed_close_sess_step1 sess s =
     (if \<not> eng_ops s then Some (FRONTEND_PROXY_PROCESS_ERROR, s)
      else do {
        t \<leftarrow> sessions s sess;
        (ret, s) \<leftarrow> build_message (sess_header (frontend_sess_id t) (backend_sess_id t)
                       (SessMsgHeader 1 SESS_MSG_CLOSE ACTION_TYPE_COMMAND (sess_ip_version t) 0)) None s;
        Some (if ret \<noteq> FRONTEND_PROXY_PROCESS_OK then FRONTEND_PROXY_PROCESS_ERROR else FRONTEND_PROXY_PROCESS_OK, s)
      })"

definition frontend_sess_close :: "addr \<Rightarrow> 'a frontend \<Rightarrow> (int \<times> 'a frontend) option" where
  "frontend_sess_close sess s = frontend_high_speed_close_sess_step1 sess s"

text \<open>The argument is the field \<^verbatim>\<open>code\<close> of the response, which the code takes for its status.\<close>

definition frontend_high_speed_close_sess_step2 ::
  "'a callbacks \<Rightarrow> addr \<Rightarrow> u8 \<Rightarrow> 'a frontend \<Rightarrow> (int \<times> 'a frontend) option" where
  "frontend_high_speed_close_sess_step2 cbs sess code s =
     (if code \<noteq> 0
      then do { s \<leftarrow> call_event_callback cbs sess FRONTEND_SESS_EVENT_ABNORMAL s; Some (FRONTEND_PROXY_PROCESS_ERROR, s) }
      else do { s \<leftarrow> call_event_callback cbs sess FRONTEND_SESS_EVENT_CLOSE s; Some (FRONTEND_PROXY_PROCESS_OK, s) })"

subsection \<open>Sending the segments of a session\<close>

definition data_header :: "FrontendSession \<Rightarrow> SessMsgSeg \<Rightarrow> GeneralProxyMsgHeader" where
  "data_header t seg =
     \<lparr>outer_header = \<lparr>proxy_version = 1, proxy_msg_type = PROXY_MSG_TYPE_DATA, proxy_frontend_sess_id = frontend_sess_id t,
                      proxy_backend_sess_id = backend_sess_id t, proxy_payload_len = seg_len seg\<rparr>,
      inner_header = \<lparr>w0 = 0, w1 = 0, w2 = 0, w3 = 0, w4 = 0, w5 = 0\<rparr>, iot_addr_info = replicate 20 0, iot_addr_len = 0\<rparr>"

text \<open>The loop over the queue of the session: each segment that was sent is taken out of the queue and freed.\<close>

fun f2b_segments :: "addr \<Rightarrow> SessMsgSeg list \<Rightarrow> 'a frontend \<Rightarrow> (int \<times> 'a frontend) option" where
  "f2b_segments sess [] s = Some (FRONTEND_PROXY_PROCESS_OK, s)"
| "f2b_segments sess (seg # segs) s =
     (case sessions s sess of
        None \<Rightarrow> None
      | Some t \<Rightarrow>
          (case build_message (data_header t seg) (Some (take (unat (seg_len seg)) (seg_data seg))) s of
             None \<Rightarrow> None
           | Some (ret, s) \<Rightarrow>
               if ret = FRONTEND_PROXY_PROCESS_OK
               then (case upd_sess sess (\<lambda>t. t\<lparr>msg_f2b := segs\<rparr>) s of
                       None \<Rightarrow> None | Some s \<Rightarrow> f2b_segments sess segs s)
               else if ret = FRONTEND_PROXY_PROCESS_AGAIN then Some (FRONTEND_PROXY_PROCESS_AGAIN, s)
               else Some (FRONTEND_PROXY_PROCESS_ERROR, s)))"

definition frontend_high_speed_data_process_f2b :: "addr \<Rightarrow> 'a frontend \<Rightarrow> (int \<times> 'a frontend) option" where
  "frontend_high_speed_data_process_f2b sess s = do {
     t \<leftarrow> sessions s sess;
     f2b_segments sess (msg_f2b t) s
   }"

end
