(* ===== verification/FEngine.thy ===== *)
theory FEngine
  imports FPool
begin

unbundle bit_operations_syntax

text \<open>
  What the front end does with the messages of its back end, the second part of
  \<^verbatim>\<open>front/src/frontend_proto.c\<close>, the IoT sessions of \<^verbatim>\<open>front/src/session.c\<close>, and the rounds of the engine,
  \<^verbatim>\<open>front/src/engine.c\<close>. A message is read from the memory it was copied to.
\<close>

subsection \<open>IoT messages\<close>

definition iot_proxy_header :: "u16 \<Rightarrow> u8 list \<Rightarrow> u8 list \<Rightarrow> GeneralProxyMsgHeader" where
  "iot_proxy_header proto_type addr_info data =
     \<lparr>outer_header = \<lparr>proxy_version = 1, proxy_msg_type = PROXY_MSG_TYPE_IOT, proxy_frontend_sess_id = 0,
                      proxy_backend_sess_id = 0, proxy_payload_len = 0\<rparr>,
      inner_header = IotMsgHeader 0 proto_type 0 0 (of_nat (length data + get_iot_addr_length proto_type)) 0,
      iot_addr_info = addr_info, iot_addr_len = of_nat (get_iot_addr_length proto_type)\<rparr>"

text \<open>The destination \<^verbatim>\<open>A8:41:F4:8C:7F:E6\<close> with its final null character, and port 1001.\<close>

definition bluetooth_send_to_backend :: "u8 list \<Rightarrow> 'a frontend \<Rightarrow> (int \<times> 'a frontend) option" where
  "bluetooth_send_to_backend data s =
     build_message (iot_proxy_header IOT_PROTO_TYPE_BLUETOOTH
        ([0x41, 0x38, 0x3A, 0x34, 0x31, 0x3A, 0x46, 0x34, 0x3A, 0x38, 0x43, 0x3A, 0x37, 0x46, 0x3A, 0x45, 0x36, 0x00] @ le16 1001) data)
       (Some data) s"

definition can_send_to_backend :: "u8 list \<Rightarrow> 'a frontend \<Rightarrow> (int \<times> 'a frontend) option" where
  "can_send_to_backend data s =
     build_message (iot_proxy_header IOT_PROTO_TYPE_CAN (replicate 7 0) data) (Some data) s"

text \<open>Address 192.168.137.2, port 502, unit 0, one register from register 0.\<close>

definition modbustcp_send_to_backend :: "u8 list \<Rightarrow> 'a frontend \<Rightarrow> (int \<times> 'a frontend) option" where
  "modbustcp_send_to_backend data s =
     build_message (iot_proxy_header IOT_PROTO_TYPE_MODBUSTCP ([192, 168, 137, 2] @ le16 502 @ [0] @ le16 0 @ le16 1) data) (Some data) s"

definition FRONTEND_IOCT_SESS_GET_MAX_PAYLOAD :: "u16 \<Rightarrow> nat" where
  "FRONTEND_IOCT_SESS_GET_MAX_PAYLOAD sess_type =
     (if sess_type = IOT_PROTO_TYPE_BLUETOOTH then 244
      else if sess_type = IOT_PROTO_TYPE_ZIGBEE then 100
      else if sess_type = IOT_PROTO_TYPE_CAN then 64
      else if sess_type = IOT_PROTO_TYPE_LORA then 222
      else if sess_type = IOT_PROTO_TYPE_POWERLINK then 128
      else if sess_type = IOT_PROTO_TYPE_MODBUSTCP then 253
      else 0)"

text \<open>The functions bound to a session as \<^verbatim>\<open>send_to_backend\<close>; those of the other protocols only return.\<close>

definition iot_send_to_backend :: "u16 \<Rightarrow> u8 list \<Rightarrow> 'a frontend \<Rightarrow> (int \<times> 'a frontend) option" where
  "iot_send_to_backend sess_type data s =
     (if sess_type = IOT_PROTO_TYPE_BLUETOOTH then bluetooth_send_to_backend data s
      else if sess_type = IOT_PROTO_TYPE_CAN then can_send_to_backend data s
      else if sess_type = IOT_PROTO_TYPE_MODBUSTCP then modbustcp_send_to_backend data s
      else Some (FRONTEND_PROXY_PROCESS_OK, s))"

definition frontend_iot_sess_send :: "u16 \<Rightarrow> u8 list option \<Rightarrow> 'a frontend \<Rightarrow> (int \<times> 'a frontend) option" where
  "frontend_iot_sess_send sess_type data s =
     (case data of
        None \<Rightarrow> Some (- 1, s)
      | Some bs \<Rightarrow>
          let max_payload_size = FRONTEND_IOCT_SESS_GET_MAX_PAYLOAD sess_type
          in if max_payload_size = 0 then Some (- 1, s)
             else let data_size = (if length bs < max_payload_size then length bs else max_payload_size)
                  in do {
                    (ret, s) \<leftarrow> iot_send_to_backend sess_type (take data_size bs) s;
                    Some (if ret \<noteq> FRONTEND_PROXY_PROCESS_OK then - 1 else int data_size, s)
                  })"

text \<open>The default callbacks answer \<^verbatim>\<open>test bluetooth\<close> and \<^verbatim>\<open>Hello\<close>; the others do nothing.\<close>

definition default_bluetooth_event_callback :: "'a frontend \<Rightarrow> 'a frontend option" where
  "default_bluetooth_event_callback s = map_option snd (frontend_iot_sess_send IOT_PROTO_TYPE_BLUETOOTH
     (Some [0x74, 0x65, 0x73, 0x74, 0x20, 0x62, 0x6C, 0x75, 0x65, 0x74, 0x6F, 0x6F, 0x74, 0x68]) s)"

definition default_can_event_callback :: "'a frontend \<Rightarrow> 'a frontend option" where
  "default_can_event_callback s = map_option snd (frontend_iot_sess_send IOT_PROTO_TYPE_CAN
     (Some [0x48, 0x65, 0x6C, 0x6C, 0x6F]) s)"

definition frontend_proxy_bluetooth_msg_process :: "addr \<Rightarrow> 'a frontend \<Rightarrow> (int \<times> 'a frontend) option" where
  "frontend_proxy_bluetooth_msg_process iot_header s =
     (if read_u16 (fe_mem s) (fld iot_header 8) \<le> 20 then Some (FRONTEND_PROXY_PROCESS_ERROR, s)
      else if \<not> frontend_bluetooth_sess s then Some (FRONTEND_PROXY_PROCESS_ERROR, s)
      else do { s \<leftarrow> default_bluetooth_event_callback s; Some (FRONTEND_PROXY_PROCESS_OK, s) })"

definition frontend_proxy_can_msg_process :: "addr \<Rightarrow> 'a frontend \<Rightarrow> (int \<times> 'a frontend) option" where
  "frontend_proxy_can_msg_process iot_header s =
     (if read_u16 (fe_mem s) (fld iot_header 8) \<le> 7 then Some (FRONTEND_PROXY_PROCESS_ERROR, s)
      else if \<not> frontend_can_sess s then Some (FRONTEND_PROXY_PROCESS_ERROR, s)
      else do { s \<leftarrow> default_can_event_callback s; Some (FRONTEND_PROXY_PROCESS_OK, s) })"

definition frontend_proxy_modbustcp_msg_process :: "addr \<Rightarrow> 'a frontend \<Rightarrow> (int \<times> 'a frontend) option" where
  "frontend_proxy_modbustcp_msg_process iot_header s =
     (if read_u16 (fe_mem s) (fld iot_header 8) \<le> 11 then Some (FRONTEND_PROXY_PROCESS_ERROR, s)
      else if \<not> frontend_modbustcp_sess s then Some (FRONTEND_PROXY_PROCESS_ERROR, s)
      else Some (FRONTEND_PROXY_PROCESS_OK, s))"

definition iot_exists :: "bool \<Rightarrow> 'a frontend \<Rightarrow> (int \<times> 'a frontend) option" where
  "iot_exists sess s = Some (if sess then FRONTEND_PROXY_PROCESS_OK else FRONTEND_PROXY_PROCESS_ERROR, s)"

definition frontend_proxy_iot_msg_process :: "u16 \<Rightarrow> addr \<Rightarrow> 'a frontend \<Rightarrow> (int \<times> 'a frontend) option" where
  "frontend_proxy_iot_msg_process msg_len msg s =
     (let proto_type = read_u16 (fe_mem s) (fld msg 2)
      in if msg = 0 then Some (FRONTEND_PROXY_PROCESS_ERROR, s)
         else if get_iot_addr_length proto_type = 0 then Some (FRONTEND_PROXY_PROCESS_ERROR, s)
         else if unat msg_len < 12 + get_iot_addr_length proto_type then Some (FRONTEND_PROXY_PROCESS_ERROR, s)
         else if proto_type = IOT_PROTO_TYPE_BLUETOOTH then frontend_proxy_bluetooth_msg_process msg s
         else if proto_type = IOT_PROTO_TYPE_CAN then frontend_proxy_can_msg_process msg s
         else if proto_type = IOT_PROTO_TYPE_ZIGBEE then iot_exists (frontend_zigbee_sess s) s
         else if proto_type = IOT_PROTO_TYPE_LORA then iot_exists (frontend_lora_sess s) s
         else if proto_type = IOT_PROTO_TYPE_POWERLINK then iot_exists (frontend_powerlink_sess s) s
         else frontend_proxy_modbustcp_msg_process msg s)"

subsection \<open>Device messages\<close>

text \<open>Responses about devices are checked; the handlers of the three kinds of them have no effect.\<close>

definition frontend_proxy_dev_msg_process_ver1 :: "u16 \<Rightarrow> u16 \<Rightarrow> u16 \<Rightarrow> int" where
  "frontend_proxy_dev_msg_process_ver1 msg_type action_type plen =
     (let corr_len = DEV_MSG_PAYLOAD_LEN msg_type action_type
      in if corr_len = PROXY_MSG_INVALID_LEN \<or> corr_len \<noteq> uint plen then FRONTEND_PROXY_PROCESS_ERROR
         else FRONTEND_PROXY_PROCESS_OK)"

definition frontend_proxy_dev_msg_process :: "mem \<Rightarrow> addr \<Rightarrow> int" where
  "frontend_proxy_dev_msg_process m msg =
     (if msg = 0 then FRONTEND_PROXY_PROCESS_ERROR
      else if read_u16 m (fld msg 6) \<noteq> ACTION_TYPE_RESPONSE then FRONTEND_PROXY_PROCESS_ERROR
      else let ret = (if read_u16 m (fld msg 0) = 1
                      then frontend_proxy_dev_msg_process_ver1 (read_u16 m (fld msg 2)) (read_u16 m (fld msg 6)) (read_u16 m (fld msg 8))
                      else FRONTEND_PROXY_PROCESS_ERROR)
           in FRONTEND_PROXY_PROCESS_OK)"

subsection \<open>Session messages\<close>

definition frontend_proxy_sess_msg_process_active_create_ver1 ::
  "'a callbacks \<Rightarrow> u16 \<Rightarrow> u16 \<Rightarrow> addr \<Rightarrow> 'a frontend \<Rightarrow> (int \<times> 'a frontend) option" where
  "frontend_proxy_sess_msg_process_active_create_ver1 cbs fsid bsid msg_payload s =
     (case frontend_high_speed_search_sess s fsid of
        None \<Rightarrow> Some (FRONTEND_PROXY_PROCESS_ERROR, s)
      | Some sess \<Rightarrow> do {
          (ret, s) \<leftarrow> frontend_high_speed_create_sess_step2 sess bsid (fe_mem s (fld msg_payload 0)) s;
          s \<leftarrow> call_event_callback cbs sess
                 (if ret = FRONTEND_PROXY_PROCESS_OK then FRONTEND_SESS_EVENT_CONN else FRONTEND_SESS_EVENT_ABNORMAL) s;
          Some (ret, s)
        })"

text \<open>
  A back end that asks for a session: after the checks and the allocations the code calls
  \<^verbatim>\<open>create_sess_passive\<close> of the pool's operations, a pointer the pool leaves null.
\<close>

definition frontend_proxy_sess_msg_process_passive_create_ver1 ::
  "u16 \<Rightarrow> u16 \<Rightarrow> 'a frontend \<Rightarrow> (int \<times> 'a frontend) option" where
  "frontend_proxy_sess_msg_process_passive_create_ver1 fsid ip_version s =
     (if ip_version \<noteq> SESS_IPV4_PROTO then Some (FRONTEND_PROXY_PROCESS_ERROR, s)
      else if fsid \<noteq> 0xFFFF then Some (FRONTEND_PROXY_PROCESS_ERROR, s)
      else let (p, s) = malloc s
           in if p = 0 then Some (FRONTEND_PROXY_PROCESS_ERROR, s)
              else let (new_sess_id, s) = allocate_id s
                   in if new_sess_id = 0 then Some (FRONTEND_PROXY_PROCESS_ERROR, s) else None)"

definition frontend_proxy_sess_msg_process_close_ver1 ::
  "'a callbacks \<Rightarrow> u16 \<Rightarrow> addr \<Rightarrow> 'a frontend \<Rightarrow> (int \<times> 'a frontend) option" where
  "frontend_proxy_sess_msg_process_close_ver1 cbs fsid msg_payload s =
     (case frontend_high_speed_search_sess s fsid of
        None \<Rightarrow> Some (FRONTEND_PROXY_PROCESS_ERROR, s)
      | Some sess \<Rightarrow> do {
          (ret, s) \<leftarrow> frontend_high_speed_close_sess_step2 cbs sess (fe_mem s (fld msg_payload 1)) s;
          (ret, s) \<leftarrow> frontend_high_speed_delete_sess sess s;
          Some (FRONTEND_PROXY_PROCESS_OK, s)
        })"

definition frontend_proxy_sess_msg_process_ver1 ::
  "'a callbacks \<Rightarrow> u16 \<Rightarrow> u16 \<Rightarrow> u16 \<Rightarrow> u16 \<Rightarrow> u16 \<Rightarrow> u16 \<Rightarrow> addr \<Rightarrow> 'a frontend \<Rightarrow> (int \<times> 'a frontend) option" where
  "frontend_proxy_sess_msg_process_ver1 cbs fsid bsid msg_type action_type ip_version plen msg_payload s =
     (let corr_len = SESS_MSG_PAYLOAD_LEN msg_type action_type ip_version
      in if corr_len = PROXY_MSG_INVALID_LEN \<or> corr_len \<noteq> uint plen then Some (FRONTEND_PROXY_PROCESS_ERROR, s)
         else if msg_type = SESS_MSG_CREATE
         then if action_type = ACTION_TYPE_RESPONSE
              then frontend_proxy_sess_msg_process_active_create_ver1 cbs fsid bsid msg_payload s
              else if action_type = ACTION_TYPE_COMMAND
              then frontend_proxy_sess_msg_process_passive_create_ver1 fsid ip_version s
              else Some (FRONTEND_PROXY_PROCESS_ERROR, s)
         else frontend_proxy_sess_msg_process_close_ver1 cbs fsid msg_payload s)"

definition frontend_proxy_sess_msg_process ::
  "'a callbacks \<Rightarrow> u16 \<Rightarrow> u16 \<Rightarrow> addr \<Rightarrow> 'a frontend \<Rightarrow> (int \<times> 'a frontend) option" where
  "frontend_proxy_sess_msg_process cbs fsid bsid msg s =
     (if msg = 0 then Some (FRONTEND_PROXY_PROCESS_ERROR, s)
      else if read_u16 (fe_mem s) (fld msg 0) = 1
      then frontend_proxy_sess_msg_process_ver1 cbs fsid bsid (read_u16 (fe_mem s) (fld msg 2)) (read_u16 (fe_mem s) (fld msg 4))
             (read_u16 (fe_mem s) (fld msg 6)) (read_u16 (fe_mem s) (fld msg 8)) (fld msg 10) s
      else Some (FRONTEND_PROXY_PROCESS_ERROR, s))"

subsection \<open>Data messages\<close>

definition frontend_proxy_data_msg_prosess :: "u16 \<Rightarrow> u16 \<Rightarrow> addr \<Rightarrow> 'a frontend \<Rightarrow> (int \<times> 'a frontend) option" where
  "frontend_proxy_data_msg_prosess fsid data_len msg s =
     (case frontend_high_speed_search_sess s fsid of
        None \<Rightarrow> Some (FRONTEND_PROXY_PROCESS_ERROR, s)
      | Some sess \<Rightarrow>
          (case sess_msg_seg_alloc (bytes_at (fe_mem s) msg (unat data_len)) s of
             (None, s) \<Rightarrow> Some (FRONTEND_PROXY_PROCESS_ERROR, s)
           | (Some seg, s) \<Rightarrow> do {
               s \<leftarrow> upd_sess sess (\<lambda>t. t\<lparr>msg_b2f := msg_b2f t @ [seg]\<rparr>) s;
               s \<leftarrow> FRONTEND_SESS_LINK_TO_QUEUE_b2f sess s;
               Some (FRONTEND_PROXY_PROCESS_OK, s)
             }))"

subsection \<open>Dispatch\<close>

definition PROXY_MSG_TYPE_VALID :: "u8 \<Rightarrow> bool" where
  "PROXY_MSG_TYPE_VALID x \<longleftrightarrow> x = PROXY_MSG_TYPE_DEV \<or> x = PROXY_MSG_TYPE_STRGY \<or> x = PROXY_MSG_TYPE_SESS \<or>
     x = PROXY_MSG_TYPE_DATA \<or> x = PROXY_MSG_TYPE_IOT"

text \<open>The two checks below are written with a disjunction.\<close>

definition PROXY_MSG_LEN_VALID :: "u8 \<Rightarrow> bool" where
  "PROXY_MSG_LEN_VALID x \<longleftrightarrow> x \<ge> 1 \<or> unat x \<le> 4088"

definition APP_SESSION_ID_VALID :: "u16 \<Rightarrow> bool" where
  "APP_SESSION_ID_VALID x \<longleftrightarrow> x \<noteq> 0 \<or> x \<noteq> 0xFFFF"

text \<open>
  The handler of strategy messages reads its header through a pointer it never sets.
\<close>

definition frontend_proxy_msg_process :: "'a callbacks \<Rightarrow> addr \<Rightarrow> 'a frontend \<Rightarrow> (int \<times> 'a frontend) option" where
  "frontend_proxy_msg_process cbs msg s =
     (let m = fe_mem s; fsid = read_u16 m (fld msg 2); bsid = read_u16 m (fld msg 4);
          msg_type = m (fld msg 1); msg_len = read_u16 m (fld msg 6); msg_ptr = fld msg 8
      in if \<not> PROXY_MSG_TYPE_VALID msg_type then Some (FRONTEND_PROXY_PROCESS_ERROR, s)
         else if \<not> PROXY_MSG_LEN_VALID msg_type then Some (FRONTEND_PROXY_PROCESS_ERROR, s)
         else if msg_type = PROXY_MSG_TYPE_DEV
         then if fsid \<noteq> 0 \<or> bsid \<noteq> 0 then Some (FRONTEND_PROXY_PROCESS_ERROR, s)
              else let ret = frontend_proxy_dev_msg_process m msg_ptr in Some (FRONTEND_PROXY_PROCESS_OK, s)
         else if msg_type = PROXY_MSG_TYPE_STRGY
         then if fsid \<noteq> 0 \<or> bsid \<noteq> 0 then Some (FRONTEND_PROXY_PROCESS_ERROR, s) else None
         else if msg_type = PROXY_MSG_TYPE_SESS
         then map_option (\<lambda>(_, s). (FRONTEND_PROXY_PROCESS_OK, s)) (frontend_proxy_sess_msg_process cbs fsid bsid msg_ptr s)
         else if msg_type = PROXY_MSG_TYPE_DATA
         then if \<not> APP_SESSION_ID_VALID fsid \<or> \<not> APP_SESSION_ID_VALID bsid then Some (FRONTEND_PROXY_PROCESS_ERROR, s)
              else map_option (\<lambda>(_, s). (FRONTEND_PROXY_PROCESS_OK, s)) (frontend_proxy_data_msg_prosess fsid msg_len msg_ptr s)
         else map_option (\<lambda>(_, s). (FRONTEND_PROXY_PROCESS_OK, s)) (frontend_proxy_iot_msg_process msg_len msg_ptr s))"

subsection \<open>A round of the engine\<close>

definition frontend_engine_hyperamp_rx_queue_get :: "'a frontend \<Rightarrow> (int \<times> 'a frontend) option" where
  "frontend_engine_hyperamp_rx_queue_get s =
     (if hyper_rx_queue s = 0 \<or> l_msg_buf s = 0 \<or> l_block_size s = 0 then Some (FRONTEND_PROXY_PROCESS_ERROR, s)
      else if hyper_data_region s = 0 then Some (FRONTEND_PROXY_PROCESS_ERROR, s)
      else do {
        (ret, m) \<leftarrow> hyperamp_queue_dequeue (fe_mem s) (hyper_rx_queue s) HYPERAMP_ZONE_ID_SEL4 (l_msg_buf s) 4096
                       (l_block_size s) (hyper_data_region s);
        let s = s\<lparr>fe_mem := m\<rparr>;
        Some (if ret = HYPERAMP_ERROR then FRONTEND_PROXY_PROCESS_ERROR
              else if ret = HYPERAMP_AGAIN then FRONTEND_PROXY_PROCESS_AGAIN
              else FRONTEND_PROXY_PROCESS_OK, s)
      })"

definition frontend_engine_hyperamp_tx_queue_put :: "addr \<Rightarrow> u64 \<Rightarrow> 'a frontend \<Rightarrow> (int \<times> 'a frontend) option" where
  "frontend_engine_hyperamp_tx_queue_put data msg_len s =
     (if hyper_tx_queue s = 0 then Some (FRONTEND_PROXY_PROCESS_ERROR, s)
      else if msg_len > ucast (q_block_size (fe_mem s) (hyper_tx_queue s)) then Some (FRONTEND_PROXY_PROCESS_ERROR, s)
      else if hyper_data_region s = 0 then Some (FRONTEND_PROXY_PROCESS_ERROR, s)
      else if data = 0 then Some (FRONTEND_PROXY_PROCESS_ERROR, s)
      else do {
        (ret, m) \<leftarrow> hyperamp_queue_enqueue (fe_mem s) (hyper_tx_queue s) HYPERAMP_ZONE_ID_SEL4 data msg_len (hyper_data_region s);
        let s = s\<lparr>fe_mem := m\<rparr>;
        Some (if ret = HYPERAMP_ERROR then FRONTEND_PROXY_PROCESS_ERROR
              else if ret = HYPERAMP_AGAIN then FRONTEND_PROXY_PROCESS_AGAIN
              else FRONTEND_PROXY_PROCESS_OK, s)
      })"

text \<open>
  The three steps of a round: the received messages, one by one until the queue is empty (\<open>True\<close> when the
  round ends with an error of the queue); the sessions with received data; the sessions with data to
  send. The next session of a queue is taken from its links before the callback of the current one runs.
\<close>

partial_function (option) eng_run_step1 :: "'a callbacks \<Rightarrow> 'a frontend \<Rightarrow> (bool \<times> 'a frontend) option" where
  "eng_run_step1 cbs s = do {
     (ret, s) \<leftarrow> frontend_engine_hyperamp_rx_queue_get s;
     if ret = FRONTEND_PROXY_PROCESS_ERROR then Some (True, s)
     else if ret = FRONTEND_PROXY_PROCESS_AGAIN then Some (False, s)
     else do {
       (ret, s) \<leftarrow> frontend_proxy_msg_process cbs (l_msg_buf s) s;
       eng_run_step1 cbs s
     }
   }"

definition tailq_first :: "'n list \<Rightarrow> 'n option" where
  "tailq_first q = (case q of [] \<Rightarrow> None | x # _ \<Rightarrow> Some x)"

definition tailq_next :: "'n list \<Rightarrow> 'n \<Rightarrow> 'n option option" where
  "tailq_next q x = (case dropWhile (\<lambda>y. y \<noteq> x) q of [] \<Rightarrow> None | _ # ys \<Rightarrow> Some (tailq_first ys))"

definition b2f_body :: "'a callbacks \<Rightarrow> addr \<Rightarrow> 'a frontend \<Rightarrow> 'a frontend option" where
  "b2f_body cbs x s = do {
     s \<leftarrow> call_event_callback cbs x FRONTEND_SESS_EVENT_RECVDATA s;
     t \<leftarrow> sessions s x;
     if msg_b2f t = [] then do {
       q \<leftarrow> tailq_remove (queue_b2f (pool s)) x;
       let s = upd_pool (\<lambda>p. p\<lparr>queue_b2f := q\<rparr>) s;
       upd_sess x (\<lambda>t. t\<lparr>state_b2f := state_b2f t AND NOT FRONTEND_SESS_LINKED_TO_QUEUE\<rparr>) s
     } else Some s
   }"

partial_function (option) eng_run_step2 :: "'a callbacks \<Rightarrow> addr option \<Rightarrow> 'a frontend \<Rightarrow> 'a frontend option" where
  "eng_run_step2 cbs cur s = (case cur of
     None \<Rightarrow> Some s
   | Some x \<Rightarrow> do {
       nxt \<leftarrow> tailq_next (queue_b2f (pool s)) x;
       s \<leftarrow> b2f_body cbs x s;
       eng_run_step2 cbs nxt s
     })"

definition f2b_body :: "'a callbacks \<Rightarrow> addr \<Rightarrow> 'a frontend \<Rightarrow> 'a frontend option" where
  "f2b_body cbs x s = do {
     (ret, s) \<leftarrow> frontend_high_speed_data_process_f2b x s;
     s \<leftarrow> (if ret = FRONTEND_PROXY_PROCESS_OK then do {
             q \<leftarrow> tailq_remove (queue_f2b (pool s)) x;
             let s = upd_pool (\<lambda>p. p\<lparr>queue_f2b := q\<rparr>) s;
             upd_sess x (\<lambda>t. t\<lparr>state_f2b := state_f2b t AND NOT FRONTEND_SESS_LINKED_TO_QUEUE\<rparr>) s
           } else Some s);
     if ret = FRONTEND_PROXY_PROCESS_ERROR then do {
       q \<leftarrow> tailq_remove (queue_f2b (pool s)) x;
       let s = upd_pool (\<lambda>p. p\<lparr>queue_f2b := q\<rparr>) s;
       call_event_callback cbs x FRONTEND_SESS_EVENT_ABNORMAL s
     } else Some s
   }"

partial_function (option) eng_run_step3 :: "'a callbacks \<Rightarrow> addr option \<Rightarrow> 'a frontend \<Rightarrow> 'a frontend option" where
  "eng_run_step3 cbs cur s = (case cur of
     None \<Rightarrow> Some s
   | Some x \<Rightarrow> do {
       nxt \<leftarrow> tailq_next (queue_f2b (pool s)) x;
       s \<leftarrow> f2b_body cbs x s;
       eng_run_step3 cbs nxt s
     })"

definition frontend_engine_run_hyperamp_once :: "'a callbacks \<Rightarrow> 'a frontend \<Rightarrow> 'a frontend option" where
  "frontend_engine_run_hyperamp_once cbs s =
     (if hyper_rx_queue s = 0 \<or> hyper_tx_queue s = 0 then Some s
      else do {
        (failed, s) \<leftarrow> eng_run_step1 cbs s;
        if failed then Some s
        else do {
          s \<leftarrow> eng_run_step2 cbs (tailq_first (queue_b2f (pool s))) s;
          eng_run_step3 cbs (tailq_first (queue_f2b (pool s))) s
        }
      })"

end
