(* ===== verification/FMessageInv.thy ===== *)
theory FMessageInv
  imports FMessage
begin

unbundle bit_operations_syntax

text \<open>
  What building a message does to the shared memory: the block that is put into the transmit queue, with
  header and body as the receiver reads them, and everything else unchanged.
\<close>

subsection \<open>Storing lists of bytes\<close>

lemma put_bytes_append: "put_bytes (put_bytes m a xs) (a + of_nat (length xs)) ys = put_bytes m a (xs @ ys)"
proof -
  have "fold (\<lambda>i m. m(a + of_nat i := (xs @ ys) ! i)) [0..<length xs] M =
      fold (\<lambda>i m. m(a + of_nat i := xs ! i)) [0..<length xs] M" for M :: mem
    by (rule fold_cong) (auto simp: nth_append)
  moreover have "fold (\<lambda>i m. m(a + of_nat i := (xs @ ys) ! i)) [length xs..<length xs + k] M =
      fold (\<lambda>i m. m(a + of_nat (length xs) + of_nat i := ys ! i)) [0..<k] M" for k and M :: mem
    by (induction k arbitrary: M) (simp_all add: add.assoc)
  ultimately show ?thesis
    by (simp add: put_bytes_def upt_add_eq_append[of 0, simplified])
qed

lemma put_bytes_append_at: "b = a + of_nat (length xs) \<Longrightarrow> put_bytes (put_bytes m a xs) b ys = put_bytes m a (xs @ ys)"
  by (simp add: put_bytes_append)

lemma bytes_at_fill_apart:
  assumes "apart a n b k"
  shows "bytes_at (fill_bytes m b v k) a n = bytes_at m a n"
  by (rule bytes_at_cong, rule fill_bytes_other) (use apart_neq[OF assms] in auto)

lemma ucast_of_nat_u16: "ucast (of_nat n :: u64) = (of_nat n :: u16)"
  by (rule bit_word_eqI) (auto simp: bit_simps)

subsection \<open>The transmit queue\<close>

definition proxy_header_bytes :: "ProxyMsgHeader \<Rightarrow> u8 list" where
  "proxy_header_bytes h =
     [proxy_version h, proxy_msg_type h] @ le16 (proxy_frontend_sess_id h) @ le16 (proxy_backend_sess_id h)"

lemma length_proxy_header [simp]: "length (proxy_header_bytes h) = 6"
  by (simp add: proxy_header_bytes_def)

lemma put_proxy_header_bytes: "put_proxy_header m h a = put_bytes m a (proxy_header_bytes h)"
  unfolding put_proxy_header_def proxy_header_bytes_def Let_def byte_put write_u16_put fld_def
  by (simp add: put_bytes_append_at add.assoc)

text \<open>
  A queue for sending: well formed, unlocked, with blocks of at most 4096 bytes, and a buffer of 4096
  bytes outside it in which the messages are built.
\<close>

definition tx_ready :: "mem \<Rightarrow> addr \<Rightarrow> addr \<Rightarrow> addr \<Rightarrow> bool" where
  "tx_ready m tx vb buf \<longleftrightarrow>
     shm_inv tx vb m \<and> buf \<noteq> 0 \<and> outside m tx vb buf HYPERAMP_MSG_HDR_PLUS_MAX_SIZE \<and> unat (q_block_size m tx) \<le> HYPERAMP_MSG_HDR_PLUS_MAX_SIZE"

text \<open>The buffer after a message was built in it.\<close>

definition built :: "mem \<Rightarrow> addr \<Rightarrow> ProxyMsgHeader \<Rightarrow> u8 list \<Rightarrow> mem" where
  "built m buf h body = put_bytes (put_bytes (put_bytes (fill_bytes m buf 0 HYPERAMP_MSG_HDR_PLUS_MAX_SIZE) buf (proxy_header_bytes h))
       (fld buf 8) body) (fld buf 6) (le16 (of_nat (length body)))"

definition proxy_block :: "ProxyMsgHeader \<Rightarrow> u8 list \<Rightarrow> u8 list" where
  "proxy_block h body = proxy_header_bytes h @ le16 (of_nat (length body)) @ body"

lemma length_proxy_block [simp]: "length (proxy_block h body) = 8 + length body"
  by (simp add: proxy_block_def)

lemma built_block:
  assumes "8 + length body \<le> HYPERAMP_MSG_HDR_PLUS_MAX_SIZE"
  shows "bytes_at (built m buf h body) buf (8 + length body) = proxy_block h body"
proof -
  define m1 where "m1 = fill_bytes m buf 0 HYPERAMP_MSG_HDR_PLUS_MAX_SIZE"
  define m2 where "m2 = put_bytes m1 buf (proxy_header_bytes h)"
  define m3 where "m3 = put_bytes m2 (fld buf 8) body"
  let ?n = "8 + length body"
  have n: "?n \<le> 2 ^ 64" using assms by simp
  have b2: "take 6 (bytes_at m2 buf ?n) = proxy_header_bytes h"
    unfolding m2_def using bytes_at_put[of 0 "proxy_header_bytes h" ?n m1 buf] n by simp
  have "bytes_at m3 buf ?n = take 8 (bytes_at m2 buf ?n) @ body"
    unfolding m3_def fld_def using bytes_at_put[of 8 body ?n m2 buf] n by simp
  then have b3: "take 6 (bytes_at m3 buf ?n) = proxy_header_bytes h" "drop 8 (bytes_at m3 buf ?n) = body"
    using b2 by (simp_all add: min_def)
  have "built m buf h body = put_bytes m3 (fld buf 6) (le16 (of_nat (length body)))"
    by (simp add: built_def m3_def m2_def m1_def)
  then show ?thesis
    unfolding proxy_block_def fld_def using bytes_at_put[of 6 "le16 (of_nat (length body))" ?n m3 buf] n b3 by simp
qed

lemma built_frame:
  assumes "apart a n buf HYPERAMP_MSG_HDR_PLUS_MAX_SIZE" "8 + length body \<le> HYPERAMP_MSG_HDR_PLUS_MAX_SIZE"
  shows "bytes_at (built m buf h body) a n = bytes_at m a n"
proof -
  have fill: "bytes_at (fill_bytes m buf 0 HYPERAMP_MSG_HDR_PLUS_MAX_SIZE) a n = bytes_at m a n"
    by (rule bytes_at_fill_apart[OF assms(1)])
  have neq: "a + of_nat i \<noteq> fld buf j + of_nat k" if "i < n" "j + k < HYPERAMP_MSG_HDR_PLUS_MAX_SIZE" for i j k
    using apart_neq[OF assms(1) that] by (simp add: fld_def add.assoc)
  have put: "bytes_at (put_bytes M (fld buf j) bs) a n = bytes_at M a n" if "j + length bs \<le> HYPERAMP_MSG_HDR_PLUS_MAX_SIZE" for M j bs
    by (rule bytes_at_cong, rule put_bytes_other) (use neq that in auto)
  have "bytes_at (put_bytes M buf (proxy_header_bytes h)) a n = bytes_at M a n" for M
    using put[of 0 "proxy_header_bytes h" M] by (simp add: fld_def)
  then show ?thesis unfolding built_def using put fill assms(2) by simp
qed

lemma built_tx:
  fixes h :: ProxyMsgHeader
  assumes "tx_ready m tx vb buf" "8 + length body \<le> HYPERAMP_MSG_HDR_PLUS_MAX_SIZE"
  defines "m1 \<equiv> built m buf h body"
  shows "tx_ready m1 tx vb buf" "queue_list m1 tx vb = queue_list m tx vb" "queue_len m1 tx = queue_len m tx"
    "q_capacity m1 tx = q_capacity m tx" "q_block_size m1 tx = q_block_size m tx"
    "outside m1 tx vb a n = outside m tx vb a n"
proof -
  have inv: "shm_inv tx vb m" and out: "outside m tx vb buf HYPERAMP_MSG_HDR_PLUS_MAX_SIZE" using assms(1) by (auto simp: tx_ready_def)
  have ctl: "bytes_at m1 tx SIZEOF_queue = bytes_at m tx SIZEOF_queue"
    unfolding m1_def using out assms(2) by (intro built_frame[OF apart_sym]) (simp_all add: outside_def)
  have slots: "bytes_at m1 (slot vb (unat (q_block_size m tx)) 0) (unat (q_capacity m tx) * unat (q_block_size m tx)) =
      bytes_at m (slot vb (unat (q_block_size m tx)) 0) (unat (q_capacity m tx) * unat (q_block_size m tx))"
    unfolding m1_def using out assms(2) by (intro built_frame[OF apart_sym]) (simp_all add: outside_def)
  have "shm_idle tx vb m m1" using ctl slots by (simp add: shm_idle_def)
  note law = shm_idle_law[OF inv this] and same = read_fld_same[OF ctl]
  show f: "q_capacity m1 tx = q_capacity m tx" "q_block_size m1 tx = q_block_size m tx" by (simp_all add: same)
  show "outside m1 tx vb a n = outside m tx vb a n" by (simp add: outside_def f)
  show "queue_list m1 tx vb = queue_list m tx vb" using law by simp
  then show "queue_len m1 tx = queue_len m tx" by (metis length_queue_list)
  show "tx_ready m1 tx vb buf" using law assms(1) by (simp add: tx_ready_def outside_def f)
qed

text \<open>What a message that is built and handed to the queue leaves unchanged.\<close>

definition tx_kept :: "mem \<Rightarrow> mem \<Rightarrow> addr \<Rightarrow> addr \<Rightarrow> addr \<Rightarrow> bool" where
  "tx_kept m m' tx vb buf \<longleftrightarrow>
     tx_ready m' tx vb buf \<and> q_capacity m' tx = q_capacity m tx \<and> q_block_size m' tx = q_block_size m tx \<and>
     (\<forall>a n. outside m tx vb a n \<and> apart a n buf HYPERAMP_MSG_HDR_PLUS_MAX_SIZE \<longrightarrow> bytes_at m' a n = bytes_at m a n)"

lemma tx_kept_refl: "tx_ready m tx vb buf \<Longrightarrow> tx_kept m m tx vb buf"
  by (simp add: tx_kept_def)

lemma tx_kept_trans:
  assumes "tx_kept m m' tx vb buf" "tx_kept m' m'' tx vb buf"
  shows "tx_kept m m'' tx vb buf"
proof -
  have "outside m' tx vb a n = outside m tx vb a n" for a n using assms(1) by (simp add: tx_kept_def outside_def)
  then show ?thesis using assms by (simp add: tx_kept_def)
qed

lemma unlocked_locked_bytes: "apart a n q SIZEOF_queue \<Longrightarrow> bytes_at (unlocked (locked m q z) q) a n = bytes_at m a n"
  by (simp add: unlocked_def locked_def mem_simps)

text \<open>Enqueueing the built message.\<close>

lemma built_enqueue:
  assumes tx: "tx_ready m tx vb buf" and len: "8 + length body \<le> unat (q_block_size m tx)"
  shows "\<exists>m'. hyperamp_queue_enqueue (built m buf h body) tx z buf (of_nat (8 + length body)) vb =
      Some (if Suc (queue_len m tx) < unat (q_capacity m tx) then HYPERAMP_OK else HYPERAMP_AGAIN, m') \<and>
    tx_kept m m' tx vb buf \<and>
    (if Suc (queue_len m tx) < unat (q_capacity m tx)
     then \<exists>rest. queue_list m' tx vb = queue_list m tx vb @ [proxy_block h body @ rest]
     else queue_list m' tx vb = queue_list m tx vb)"
proof -
  let ?m1 = "built m buf h body" and ?n = "8 + length body"
  have small: "?n \<le> HYPERAMP_MSG_HDR_PLUS_MAX_SIZE" using len tx by (simp add: tx_ready_def)
  note b = built_tx[OF tx small, of h]
  have un: "unat (of_nat ?n :: u64) = ?n" using small by (simp add: unat_of_nat del: of_nat_add)
  have inv: "queue_wf ?m1 tx vb" "q_lock_value ?m1 tx = 0" and buf: "buf \<noteq> 0" "outside ?m1 tx vb buf HYPERAMP_MSG_HDR_PLUS_MAX_SIZE"
    using b(1) by (auto simp: tx_ready_def shm_inv_def)
  have out: "outside ?m1 tx vb buf ?n" using buf(2) small by (auto simp: outside_def intro: apart_mono_left)
  have pos: "0 < (of_nat ?n :: u64)" using un by (simp add: word_less_nat_alt)
  have le: "(of_nat ?n :: u64) \<le> ucast (q_block_size ?m1 tx)"
    using un len b(5) by (simp add: word_le_nat_alt unat_ucast_up)
  have len': "?n \<le> unat (q_block_size ?m1 tx)" using len b(5) by simp
  have frame: "bytes_at ?m1 a n = bytes_at m a n" if "apart a n buf HYPERAMP_MSG_HDR_PLUS_MAX_SIZE" for a n
    using built_frame[OF that small] .
  note enq = enqueue_mem[OF inv buf(1) pos le, of z, unfolded un b(3,4)]
  show ?thesis
  proof (cases "Suc (queue_len m tx) < unat (q_capacity m tx)")
    case True
    let ?m2 = "enqueued ?m1 tx z buf ?n vb"
    note f = enqueued_fields[OF inv(1) len', of z buf] and w = enqueued_wf[OF inv(1) len', of z buf]
    have "bytes_at ?m2 a n = bytes_at m a n" if "outside m tx vb a n" "apart a n buf HYPERAMP_MSG_HDR_PLUS_MAX_SIZE" for a n
      using enqueued_frame[OF inv(1) len', of a n z buf] that b(6)[of a n] frame by simp
    then have "tx_kept m ?m2 tx vb buf"
      using tx f w b(4,5) by (simp add: tx_kept_def tx_ready_def shm_inv_def outside_def)
    moreover have "\<exists>rest. queue_list ?m2 tx vb = queue_list m tx vb @ [proxy_block h body @ rest]"
      using enqueued_list[OF inv(1) len' out, of z] True b(2-4) built_block[OF small, of m buf h] by simp
    ultimately show ?thesis using True enq by (intro exI[of _ ?m2]) simp
  next
    case False
    let ?m2 = "unlocked (locked ?m1 tx z) tx"
    have full: "Suc (queue_len m tx) = unat (q_capacity m tx)" using False queue_len_less[OF inv(1)] b(3,4) by simp
    note u = unlocked_locked[OF inv(1), of z]
    have bytes: "bytes_at ?m2 a n = bytes_at ?m1 a n" if "apart a n tx SIZEOF_queue" for a n
      using that by (rule unlocked_locked_bytes)
    have f: "q_capacity ?m2 tx = q_capacity m tx" "q_block_size ?m2 tx = q_block_size m tx"
      using queue_wf_fits[OF inv(1)] b(4,5) by (simp_all add: unlocked_def locked_def mem_simps)
    have "tx_kept m ?m2 tx vb buf"
      using tx f u(1,2) bytes frame by (simp add: tx_kept_def tx_ready_def shm_inv_def outside_def)
    then show ?thesis using False full enq u(3) b(2) by (intro exI[of _ ?m2]) simp
  qed
qed

text \<open>
  The whole of \<^verbatim>\<open>build_proxy_general_message\<close>, for a message whose inner part writes the bytes \<open>body\<close>.
\<close>

lemma general_message:
  assumes tx: "tx_ready m tx vb buf" and len: "8 + length body \<le> unat (q_block_size m tx)"
    and inner: "\<And>M. build_proxy_inner M hdr payload (fld buf 8) = Some (FRONTEND_PROXY_PROCESS_OK, hl, put_bytes M (fld buf 8) body)"
    and hl: "length body = length (payload_bytes payload) + unat hl"
  defines "room \<equiv> Suc (queue_len m tx) < unat (q_capacity m tx)"
  shows "\<exists>m'. build_proxy_general_message m tx vb buf hdr payload =
      Some (if room then FRONTEND_PROXY_PROCESS_OK else FRONTEND_PROXY_PROCESS_AGAIN, m') \<and>
    tx_kept m m' tx vb buf \<and>
    (if room then \<exists>rest. queue_list m' tx vb = queue_list m tx vb @ [proxy_block (outer_header hdr) body @ rest]
     else queue_list m' tx vb = queue_list m tx vb)"
proof -
  have small: "length body \<le> 4088" using len tx by (simp add: tx_ready_def)
  have sum: "payload_len payload + ucast hl = (of_nat (length body) :: u64)"
    by (simp add: payload_len_def hl)
  have "tx \<noteq> 0" using tx by (auto simp: tx_ready_def shm_inv_def queue_wf_def layout_ok_def)
  moreover have "put_bytes (put_bytes (put_proxy_header (fill_bytes m buf 0 HYPERAMP_MSG_HDR_PLUS_MAX_SIZE) (outer_header hdr) buf) (fld buf 8) body)
      (fld buf 6) (le16 (ucast (of_nat (length body) :: u64))) = built m buf (outer_header hdr) body"
    by (simp add: built_def put_proxy_header_bytes ucast_of_nat_u16)
  moreover have "(of_nat (length body) :: u64) + 8 = of_nat (8 + length body)" by simp
  ultimately have "build_proxy_general_message m tx vb buf hdr payload =
      (case hyperamp_queue_enqueue (built m buf (outer_header hdr) body) tx HYPERAMP_ZONE_ID_SEL4 buf (of_nat (8 + length body)) vb of
         None \<Rightarrow> None
       | Some (ret, m) \<Rightarrow> Some (if ret = HYPERAMP_OK then FRONTEND_PROXY_PROCESS_OK
            else if ret = HYPERAMP_AGAIN then FRONTEND_PROXY_PROCESS_AGAIN else FRONTEND_PROXY_PROCESS_ERROR, m))"
    by (simp add: build_proxy_general_message_def Let_def inner sum write_u16_put del: of_nat_add split: option.splits)
  moreover obtain m' where "hyperamp_queue_enqueue (built m buf (outer_header hdr) body) tx HYPERAMP_ZONE_ID_SEL4 buf (of_nat (8 + length body)) vb =
      Some (if room then HYPERAMP_OK else HYPERAMP_AGAIN, m')" "tx_kept m m' tx vb buf"
    "if room then \<exists>rest. queue_list m' tx vb = queue_list m tx vb @ [proxy_block (outer_header hdr) body @ rest]
     else queue_list m' tx vb = queue_list m tx vb"
    using built_enqueue[OF tx len, of "outer_header hdr" HYPERAMP_ZONE_ID_SEL4] unfolding room_def by blast
  ultimately show ?thesis by (intro exI[of _ m']) (simp split: if_splits)
qed

subsection \<open>Bodies of messages\<close>

lemma data_inner:
  "proxy_msg_type (outer_header hdr) = PROXY_MSG_TYPE_DATA \<Longrightarrow>
   build_proxy_inner M hdr (Some bs) a = Some (FRONTEND_PROXY_PROCESS_OK, 0, put_bytes M a bs)"
  by (simp add: build_proxy_inner_def build_proxy_data_message_def payload_bytes_def)

definition sess_body :: "InnerHeader \<Rightarrow> u8 list \<Rightarrow> u8 list" where
  "sess_body h bs = le16 (w0 h) @ le16 (w1 h) @ le16 (w2 h) @ le16 (w3 h) @ le16 (w4 h) @ bs"

lemma length_sess_body [simp]: "length (sess_body h bs) = 10 + length bs"
  by (simp add: sess_body_def)

lemma sess_inner:
  assumes "proxy_msg_type (outer_header hdr) = PROXY_MSG_TYPE_SESS" "bs \<noteq> []"
    and "int (length bs) = SESS_MSG_PAYLOAD_LEN (w1 (inner_header hdr)) (w2 (inner_header hdr)) (w3 (inner_header hdr))"
    and "w4 (inner_header hdr) = of_nat (length bs)" "length bs < 65536"
  shows "build_proxy_inner M hdr (Some bs) a = Some (FRONTEND_PROXY_PROCESS_OK, 10, put_bytes M a (sess_body (inner_header hdr) bs))"
proof -
  have len: "payload_len (Some bs) = word_of_int (SESS_MSG_PAYLOAD_LEN (w1 (inner_header hdr)) (w2 (inner_header hdr)) (w3 (inner_header hdr)))"
    by (simp add: payload_len_def payload_bytes_def flip: assms(3))
  have "unat (of_nat (length bs) :: u64) = unat (ucast (of_nat (length bs) :: u16) :: u64)"
    using assms(5) by (simp add: unat_of_nat unat_ucast_up)
  then have w4: "payload_len (Some bs) = ucast (w4 (inner_header hdr))"
    by (simp only: payload_len_def payload_bytes_def option.case assms(4) word_unat_eq_iff)
  have "unat (payload_len (Some bs)) \<noteq> 0" using assms(2,5) by (simp add: payload_len_def payload_bytes_def unat_of_nat)
  then have "payload_len (Some bs) \<noteq> 0" by auto
  then show ?thesis
    using assms(1)
    by (simp add: build_proxy_inner_def build_proxy_sess_message_def Let_def len[symmetric] w4[symmetric] write_u16_put sess_body_def)
       (simp add: fld_def put_bytes_append_at add.assoc payload_bytes_def)
qed

end
