(* ===== verification/FStream.thy ===== *)
theory FStream
  imports FEngine FMessageInv
begin

unbundle bit_operations_syntax

text \<open>
  A session as a pair of byte streams: what an application hands to \<^verbatim>\<open>frontend_sess_send\<close> is what the
  messages to the back end carry, and what data messages bring is what \<^verbatim>\<open>frontend_sess_recv\<close> returns,
  however sending, receiving and the engine are interleaved.
\<close>

subsection \<open>The interface of a byte stream\<close>

inductive stream_run ::
  "('s \<Rightarrow> 'b list \<Rightarrow> 's \<Rightarrow> bool) \<Rightarrow> ('s \<Rightarrow> 'b list \<Rightarrow> 's \<Rightarrow> bool) \<Rightarrow> ('s \<Rightarrow> 's \<Rightarrow> bool) \<Rightarrow>
   's \<Rightarrow> 'b list \<Rightarrow> 'b list \<Rightarrow> 's \<Rightarrow> bool"
  for put get idle
where
  stream_start: "stream_run put get idle s [] [] s"
| stream_put: "stream_run put get idle s xs ys s' \<Longrightarrow> put s' x s'' \<Longrightarrow> stream_run put get idle s (xs @ x) ys s''"
| stream_get: "stream_run put get idle s xs ys s' \<Longrightarrow> get s' y s'' \<Longrightarrow> stream_run put get idle s xs (ys @ y) s''"
| stream_idle: "stream_run put get idle s xs ys s' \<Longrightarrow> idle s' s'' \<Longrightarrow> stream_run put get idle s xs ys s''"

locale byte_stream =
  fixes inv :: "'s \<Rightarrow> bool"
    and content :: "'s \<Rightarrow> 'b list"
    and put :: "'s \<Rightarrow> 'b list \<Rightarrow> 's \<Rightarrow> bool"
    and get :: "'s \<Rightarrow> 'b list \<Rightarrow> 's \<Rightarrow> bool"
    and idle :: "'s \<Rightarrow> 's \<Rightarrow> bool"
  assumes put_law: "inv s \<Longrightarrow> put s x s' \<Longrightarrow> inv s' \<and> content s' = content s @ x"
    and get_law: "inv s \<Longrightarrow> get s y s' \<Longrightarrow> inv s' \<and> content s = y @ content s'"
    and idle_law: "inv s \<Longrightarrow> idle s s' \<Longrightarrow> inv s' \<and> content s' = content s"
begin

lemma stream_conserves:
  "stream_run put get idle s xs ys s' \<Longrightarrow> inv s \<Longrightarrow> inv s' \<and> content s @ xs = ys @ content s'"
proof (induction rule: stream_run.induct)
  case (stream_put s xs ys s' x s'')
  then show ?case using put_law[of s' x s''] by (metis append.assoc)
next
  case (stream_get s xs ys s' y s'')
  then show ?case using get_law[of s' y s''] by (metis append.assoc)
next
  case (stream_idle s xs ys s' s'')
  then show ?case using idle_law[of s' s''] by simp
qed simp

end

subsection \<open>Segments\<close>

definition seg_ok :: "SessMsgSeg \<Rightarrow> bool" where
  "seg_ok seg \<longleftrightarrow> unat (seg_len seg) = length (seg_data seg)"

definition seg_stream :: "SessMsgSeg list \<Rightarrow> u8 list" where
  "seg_stream segs = concat (map seg_data segs)"

lemma seg_stream_simps [simp]:
  "seg_stream [] = []" "seg_stream (seg # segs) = seg_data seg @ seg_stream segs"
  "seg_stream (xs @ ys) = seg_stream xs @ seg_stream ys"
  by (simp_all add: seg_stream_def)

lemma unat_of_nat_small: "n < 2 ^ LENGTH('a::len) \<Longrightarrow> unat (of_nat n :: 'a word) = n"
  by (simp add: unat_of_nat)

lemma seg_trim_ok:
  assumes "seg_ok seg" "n < length (seg_data seg)"
  shows "seg_ok (seg\<lparr>seg_data := drop n (seg_data seg), seg_len := seg_len seg - of_nat n, seg_offset := x\<rparr>)"
proof -
  have len: "unat (seg_len seg) = length (seg_data seg)" using assms(1) by (simp add: seg_ok_def)
  then have n: "n < 65536" using assms(2) unsigned_less[of "seg_len seg", where 'a = nat] by simp
  then have "unat (of_nat n :: u16) = n" by (simp add: unat_of_nat)
  then have "(of_nat n :: u16) \<le> seg_len seg" using assms(2) len by (simp add: word_le_nat_alt)
  then have "unat (seg_len seg - of_nat n) = length (seg_data seg) - n"
    using len assms(2) \<open>unat (of_nat n :: u16) = n\<close> by (simp add: unat_sub_if')
  then show ?thesis by (simp add: seg_ok_def)
qed

lemma recv_loop_stream:
  "list_all seg_ok segs \<Longrightarrow> sess_recv_loop segs room out = (out', segs') \<Longrightarrow>
   out' = out @ take room (seg_stream segs) \<and> seg_stream segs' = drop room (seg_stream segs) \<and> list_all seg_ok segs'"
proof (induction segs room out arbitrary: out' segs' rule: sess_recv_loop.induct)
  case (2 seg segs room out)
  have ok: "seg_ok seg" "list_all seg_ok segs" and len: "unat (seg_len seg) = length (seg_data seg)"
    using 2(2) by (simp_all add: seg_ok_def[of seg])
  consider "room = 0" | "0 < room" "length (seg_data seg) \<le> room" | "0 < room" "room < length (seg_data seg)"
    by linarith
  then show ?case
  proof cases
    case 1
    then show ?thesis using 2 by auto
  next
    case 2
    then show ?thesis using "2.IH"[OF _ _ ok(2)] "2.prems"(2) by (auto simp: len)
  next
    case 3
    then show ?thesis using "2.prems"(2) ok seg_trim_ok[OF ok(1) 3(2)] by (auto simp: len)
  qed
qed simp

lemma seg_alloc:
  "sess_msg_seg_alloc data s =
     (if malloc_result s (mallocs s) = 0 then (None, s\<lparr>mallocs := Suc (mallocs s)\<rparr>)
      else if malloc_result s (Suc (mallocs s)) = 0 then (None, s\<lparr>mallocs := Suc (Suc (mallocs s))\<rparr>)
      else (Some \<lparr>seg_len = of_nat (length data), seg_offset = 0, seg_type = SESS_MSG_SEG_DYNAMIC_ALLOC, seg_data = data\<rparr>,
            s\<lparr>mallocs := Suc (Suc (mallocs s))\<rparr>))"
  by (simp add: sess_msg_seg_alloc_def malloc_def)

text \<open>The segments a send adds to a session: at most \<open>max_payload\<close> bytes each, none of them empty.\<close>

definition segs_fit :: "nat \<Rightarrow> SessMsgSeg list \<Rightarrow> bool" where
  "segs_fit mx segs \<longleftrightarrow> list_all (\<lambda>seg. seg_ok seg \<and> seg_data seg \<noteq> [] \<and> length (seg_data seg) \<le> mx) segs"

lemma send_loop_stream:
  assumes "sessions s sess = Some t" "0 < mx" "mx < 65536"
  shows "\<exists>new j. sess_send_loop sess mx data n s =
      Some (n + length (seg_stream new), s\<lparr>sessions := (sessions s)(sess \<mapsto> t\<lparr>msg_f2b := msg_f2b t @ new\<rparr>), mallocs := j\<rparr>) \<and>
    seg_stream new = take (length (seg_stream new)) data \<and> segs_fit mx new \<and>
    ((\<forall>i. malloc_result s i \<noteq> 0) \<longrightarrow> seg_stream new = data)"
  using assms(1)
proof (induction "length data" arbitrary: data n s t rule: less_induct)
  case less
  show ?case
  proof (cases "data = []")
    case True
    then show ?thesis using assms(2) less.prems
      by (intro exI[of _ "[]"] exI[of _ "mallocs s"]) (simp add: segs_fit_def fun_upd_idem)
  next
    case False
    show ?thesis
    proof (cases "malloc_result s (mallocs s) = 0 \<or> malloc_result s (Suc (mallocs s)) = 0")
      case True
      then have "\<exists>j. sess_send_loop sess mx data n s = Some (n, s\<lparr>mallocs := j\<rparr>)"
        using False assms(2) by (auto simp: seg_alloc)
      then obtain j where "sess_send_loop sess mx data n s = Some (n, s\<lparr>mallocs := j\<rparr>)" by blast
      then show ?thesis using True less.prems
        by (intro exI[of _ "[]"] exI[of _ j]) (auto simp: segs_fit_def fun_upd_idem simp del: sess_send_loop.simps)
    next
      case alloc: False
      define seg where "seg = \<lparr>seg_len = of_nat (length (take mx data)), seg_offset = 0, seg_type = SESS_MSG_SEG_DYNAMIC_ALLOC, seg_data = take mx data\<rparr>"
      define t1 where "t1 = t\<lparr>msg_f2b := msg_f2b t @ [seg]\<rparr>"
      define s1 where "s1 = s\<lparr>mallocs := Suc (Suc (mallocs s)), sessions := (sessions s)(sess \<mapsto> t1)\<rparr>"
      have step: "sess_send_loop sess mx data n s = sess_send_loop sess mx (drop mx data) (n + length (take mx data)) s1"
        using False alloc assms(2) less.prems
        by (subst sess_send_loop.simps) (simp add: seg_alloc upd_sess_def seg_def t1_def s1_def)
      have sz: "length (drop mx data) < length data" using False assms(2) by simp
      have "sessions s1 sess = Some t1" by (simp add: s1_def)
      then obtain new j where IH: "sess_send_loop sess mx (drop mx data) (n + length (take mx data)) s1 =
          Some (n + length (take mx data) + length (seg_stream new),
                s1\<lparr>sessions := (sessions s1)(sess \<mapsto> t1\<lparr>msg_f2b := msg_f2b t1 @ new\<rparr>), mallocs := j\<rparr>)"
        "seg_stream new = take (length (seg_stream new)) (drop mx data)" "segs_fit mx new"
        "(\<forall>i. malloc_result s1 i \<noteq> 0) \<longrightarrow> seg_stream new = drop mx data"
        using less.hyps[OF sz] by blast
      have sd: "seg_data seg = take mx data" "segs_fit mx [seg]"
        using False assms(2,3) by (auto simp: seg_def segs_fit_def seg_ok_def unat_of_nat min_def)
      have "sess_send_loop sess mx data n s =
          Some (n + length (seg_stream (seg # new)),
                s\<lparr>sessions := (sessions s)(sess \<mapsto> t\<lparr>msg_f2b := msg_f2b t @ seg # new\<rparr>), mallocs := j\<rparr>)"
        by (subst step, subst IH(1)) (simp add: s1_def t1_def sd(1) add.assoc)
      moreover have "seg_stream (seg # new) = take (length (seg_stream (seg # new))) data"
      proof -
        have "take (length (take mx data) + k) data = take mx data @ take k (drop mx data)" for k
          by (cases "length data \<le> mx") (simp_all add: take_add)
        then show ?thesis using IH(2) by (simp add: sd(1) del: length_take)
      qed
      moreover have "segs_fit mx (seg # new)" using sd(2) IH(3) by (simp add: segs_fit_def)
      moreover have "(\<forall>i. malloc_result s i \<noteq> 0) \<longrightarrow> seg_stream (seg # new) = data"
        using IH(4) by (simp add: s1_def sd(1))
      ultimately show ?thesis by blast
    qed
  qed
qed

text \<open>The mark of a session says whether it is in a queue of the pool.\<close>

definition linked :: "u8 \<Rightarrow> bool" where
  "linked st \<longleftrightarrow> st AND FRONTEND_SESS_LINKED_TO_QUEUE \<noteq> 0"

definition link_ok :: "addr \<Rightarrow> 'a frontend \<Rightarrow> bool" where
  "link_ok sess s \<longleftrightarrow> (case sessions s sess of None \<Rightarrow> False
     | Some t \<Rightarrow> (linked (state_f2b t) \<longleftrightarrow> sess \<in> set (queue_f2b (pool s))) \<and> (linked (state_b2f t) \<longleftrightarrow> sess \<in> set (queue_b2f (pool s))))"

lemma linked_bit: "linked st \<longleftrightarrow> bit st 0"
  by (simp add: linked_def and_one_eq bit_0 even_iff_mod_2_eq_zero)

lemma linked_marks [simp]:
  "linked (st OR FRONTEND_SESS_LINKED_TO_QUEUE)" "\<not> linked (st AND NOT FRONTEND_SESS_LINKED_TO_QUEUE)"
  "linked (st AND FRONTEND_SESS_LINKED_TO_QUEUE) = linked st" "\<not> linked 0"
  by (simp_all add: linked_bit bit_simps)

definition enq_once :: "'n \<Rightarrow> 'n list \<Rightarrow> 'n list" where
  "enq_once x q = (if x \<in> set q then q else q @ [x])"

lemma set_enq_once [simp]: "set (enq_once x q) = insert x (set q)"
  by (auto simp: enq_once_def)

lemma distinct_enq_once [simp]: "distinct (enq_once x q) = distinct q"
  by (simp add: enq_once_def)

lemma link_f2b:
  assumes "link_ok sess s" "sessions s sess = Some t"
  shows "\<exists>st. FRONTEND_SESS_LINK_TO_QUEUE_f2b sess s =
      Some (s\<lparr>sessions := (sessions s)(sess \<mapsto> t\<lparr>state_f2b := st\<rparr>),
              pool := (pool s)\<lparr>queue_f2b := enq_once sess (queue_f2b (pool s))\<rparr>\<rparr>) \<and>
    linked st"
proof (cases "linked (state_f2b t)")
  case True
  then show ?thesis using assms
    by (intro exI[of _ "state_f2b t"]) (simp add: FRONTEND_SESS_LINK_TO_QUEUE_f2b_def link_ok_def linked_def enq_once_def fun_upd_idem)
next
  case False
  then show ?thesis using assms
    by (intro exI[of _ "state_f2b t OR 1"])
       (simp add: FRONTEND_SESS_LINK_TO_QUEUE_f2b_def link_ok_def linked_def upd_sess_def upd_pool_def tailq_insert_def enq_once_def)
qed

lemma link_b2f:
  assumes "link_ok sess s" "sessions s sess = Some t"
  shows "\<exists>st. FRONTEND_SESS_LINK_TO_QUEUE_b2f sess s =
      Some (s\<lparr>sessions := (sessions s)(sess \<mapsto> t\<lparr>state_b2f := st\<rparr>),
              pool := (pool s)\<lparr>queue_b2f := enq_once sess (queue_b2f (pool s))\<rparr>\<rparr>) \<and>
    linked st"
proof (cases "linked (state_b2f t)")
  case True
  then show ?thesis using assms
    by (intro exI[of _ "state_b2f t"]) (simp add: FRONTEND_SESS_LINK_TO_QUEUE_b2f_def link_ok_def linked_def enq_once_def fun_upd_idem)
next
  case False
  then show ?thesis using assms
    by (intro exI[of _ "state_b2f t OR 1"])
       (simp add: FRONTEND_SESS_LINK_TO_QUEUE_b2f_def link_ok_def linked_def upd_sess_def upd_pool_def tailq_insert_def enq_once_def)
qed

subsection \<open>Sending\<close>

lemma int_length_u32: "n < 2 ^ 31 \<Longrightarrow> sint (of_nat n :: u32) = int n"
  by (simp add: signed_of_nat signed_take_bit_int_eq_self_iff)

lemma sess_send_effect:
  assumes "link_ok sess s" "sessions s sess = Some t" "sess \<noteq> 0" "data \<noteq> []" "length data < 2 ^ 31"
    and "hyper_tx_queue s \<noteq> 0" "8 < unat (q_block_size (fe_mem s) (hyper_tx_queue s))"
  shows "\<exists>new st j. frontend_sess_send sess (Some data) s = Some (int (length (seg_stream new)),
      s\<lparr>sessions := (sessions s)(sess \<mapsto> t\<lparr>msg_f2b := msg_f2b t @ new, state_f2b := st\<rparr>),
        pool := (pool s)\<lparr>queue_f2b := (if new = [] then queue_f2b (pool s) else enq_once sess (queue_f2b (pool s)))\<rparr>,
        mallocs := j\<rparr>) \<and>
    (linked st \<longleftrightarrow> linked (state_f2b t) \<or> new \<noteq> []) \<and>
    seg_stream new = take (length (seg_stream new)) data \<and>
    segs_fit (unat (q_block_size (fe_mem s) (hyper_tx_queue s)) - 8) new \<and>
    ((\<forall>i. malloc_result s i \<noteq> 0) \<longrightarrow> seg_stream new = data)"
proof -
  let ?mx = "unat (q_block_size (fe_mem s) (hyper_tx_queue s)) - 8"
  have mx: "0 < ?mx" "?mx < 65536" using assms(7) unsigned_less[of "q_block_size (fe_mem s) (hyper_tx_queue s)", where 'a = nat] by auto
  obtain new j where loop: "sess_send_loop sess ?mx data 0 s = Some (length (seg_stream new),
        s\<lparr>sessions := (sessions s)(sess \<mapsto> t\<lparr>msg_f2b := msg_f2b t @ new\<rparr>), mallocs := j\<rparr>)"
    and new: "seg_stream new = take (length (seg_stream new)) data" "segs_fit ?mx new"
      "(\<forall>i. malloc_result s i \<noteq> 0) \<longrightarrow> seg_stream new = data"
    using send_loop_stream[OF assms(2) mx, of data 0] by (auto simp del: sess_send_loop.simps)
  have "length (seg_stream new) \<le> length data" by (subst new(1)) simp
  then have ret: "sint (of_nat (length (seg_stream new)) :: u32) = int (length (seg_stream new))"
    using assms(5) by (intro int_length_u32) simp
  have empty: "length (seg_stream new) = 0 \<longleftrightarrow> new = []" using new(2) by (cases new) (auto simp: segs_fit_def)
  show ?thesis
  proof (cases "new = []")
    case True
    then show ?thesis using assms loop new
      by (intro exI[of _ "[]"] exI[of _ "state_f2b t"] exI[of _ j])
         (simp add: frontend_sess_send_def payload_bytes_def Let_def del: sess_send_loop.simps)
  next
    case False
    let ?s = "s\<lparr>sessions := (sessions s)(sess \<mapsto> t\<lparr>msg_f2b := msg_f2b t @ new\<rparr>), mallocs := j\<rparr>"
    have "link_ok sess ?s" "sessions ?s sess = Some (t\<lparr>msg_f2b := msg_f2b t @ new\<rparr>)" using assms(1,2) by (simp_all add: link_ok_def)
    from link_f2b[OF this] obtain st where link: "FRONTEND_SESS_LINK_TO_QUEUE_f2b sess ?s = Some
        (?s\<lparr>sessions := (sessions ?s)(sess \<mapsto> t\<lparr>msg_f2b := msg_f2b t @ new, state_f2b := st\<rparr>),
            pool := (pool s)\<lparr>queue_f2b := enq_once sess (queue_f2b (pool s))\<rparr>\<rparr>)" "linked st"
      by auto
    have pos: "0 < length (seg_stream new)" using False empty by simp
    have "frontend_sess_send sess (Some data) s = Some (int (length (seg_stream new)),
        s\<lparr>sessions := (sessions s)(sess \<mapsto> t\<lparr>msg_f2b := msg_f2b t @ new, state_f2b := st\<rparr>),
          pool := (pool s)\<lparr>queue_f2b := (if new = [] then queue_f2b (pool s) else enq_once sess (queue_f2b (pool s)))\<rparr>,
          mallocs := j\<rparr>)"
      using assms loop link(1) pos False ret
      by (simp add: frontend_sess_send_def payload_bytes_def Let_def del: sess_send_loop.simps)
    then show ?thesis using new link(2) False by blast
  qed
qed

subsection \<open>Data messages to the back end\<close>

definition data_block :: "u16 \<Rightarrow> u16 \<Rightarrow> u8 list \<Rightarrow> u8 list" where
  "data_block fsid bsid bs = [1, PROXY_MSG_TYPE_DATA] @ le16 fsid @ le16 bsid @ le16 (of_nat (length bs)) @ bs"

definition carries :: "u16 \<Rightarrow> u16 \<Rightarrow> SessMsgSeg \<Rightarrow> u8 list \<Rightarrow> bool" where
  "carries fsid bsid seg b \<longleftrightarrow> (\<exists>rest. b = data_block fsid bsid (seg_data seg) @ rest)"

abbreviation tx_list :: "'a frontend \<Rightarrow> u8 list list" where
  "tx_list s \<equiv> queue_list (fe_mem s) (hyper_tx_queue s) (hyper_data_region s)"

definition front_ready :: "'a frontend \<Rightarrow> bool" where
  "front_ready s \<longleftrightarrow> tx_ready (fe_mem s) (hyper_tx_queue s) (hyper_data_region s) (global_amp_tx_buf s)"

definition front_kept :: "'a frontend \<Rightarrow> mem \<Rightarrow> bool" where
  "front_kept s m' \<longleftrightarrow> tx_kept (fe_mem s) m' (hyper_tx_queue s) (hyper_data_region s) (global_amp_tx_buf s)"

text \<open>The number of blocks the transmit queue still takes.\<close>

definition tx_room :: "'a frontend \<Rightarrow> nat" where
  "tx_room s = unat (q_capacity (fe_mem s) (hyper_tx_queue s)) - Suc (queue_len (fe_mem s) (hyper_tx_queue s))"

lemma data_message_effect:
  assumes "front_ready s" "seg_ok seg" "8 + length (seg_data seg) \<le> unat (q_block_size (fe_mem s) (hyper_tx_queue s))"
  shows "\<exists>m'. build_message (data_header t seg) (Some (take (unat (seg_len seg)) (seg_data seg))) s =
      Some (if 0 < tx_room s then FRONTEND_PROXY_PROCESS_OK else FRONTEND_PROXY_PROCESS_AGAIN, s\<lparr>fe_mem := m'\<rparr>) \<and>
    front_kept s m' \<and>
    (if 0 < tx_room s then \<exists>b. carries (frontend_sess_id t) (backend_sess_id t) seg b \<and>
        queue_list m' (hyper_tx_queue s) (hyper_data_region s) = tx_list s @ [b]
     else queue_list m' (hyper_tx_queue s) (hyper_data_region s) = tx_list s)"
proof -
  have data: "take (unat (seg_len seg)) (seg_data seg) = seg_data seg" using assms(2) by (simp add: seg_ok_def)
  have ty: "proxy_msg_type (outer_header (data_header t seg)) = PROXY_MSG_TYPE_DATA" by (simp add: data_header_def)
  have blk: "proxy_block (outer_header (data_header t seg)) bs = data_block (frontend_sess_id t) (backend_sess_id t) bs" for bs
    by (simp add: proxy_block_def proxy_header_bytes_def data_header_def data_block_def)
  have room: "Suc (queue_len (fe_mem s) (hyper_tx_queue s)) < unat (q_capacity (fe_mem s) (hyper_tx_queue s)) \<longleftrightarrow> 0 < tx_room s"
    by (auto simp: tx_room_def)
  note gm = general_message[OF assms(1)[unfolded front_ready_def] assms(3) data_inner[OF ty], unfolded room blk]
  then show ?thesis
    unfolding data build_message_def front_kept_def carries_def
    by (auto simp: payload_bytes_def split: if_splits)
qed

lemma front_kept_room:
  assumes "front_kept s m'" "queue_list m' (hyper_tx_queue s) (hyper_data_region s) = tx_list s @ bs"
  shows "tx_room (s\<lparr>fe_mem := m', sessions := x\<rparr>) = tx_room s - length bs"
proof -
  have "queue_len m' (hyper_tx_queue s) = queue_len (fe_mem s) (hyper_tx_queue s) + length bs"
    using arg_cong[OF assms(2), of length] by simp
  then show ?thesis using assms(1) by (simp add: tx_room_def front_kept_def tx_kept_def)
qed

lemma f2b_segments_effect:
  assumes "front_ready s" "sessions s sess = Some t" "msg_f2b t = segs"
    "segs_fit (unat (q_block_size (fe_mem s) (hyper_tx_queue s)) - 8) segs" "8 < unat (q_block_size (fe_mem s) (hyper_tx_queue s))"
  shows "\<exists>m' bs. f2b_segments sess segs s =
      Some (if length segs \<le> tx_room s then FRONTEND_PROXY_PROCESS_OK else FRONTEND_PROXY_PROCESS_AGAIN,
            s\<lparr>fe_mem := m', sessions := (sessions s)(sess \<mapsto> t\<lparr>msg_f2b := drop (tx_room s) segs\<rparr>)\<rparr>) \<and>
    front_kept s m' \<and> queue_list m' (hyper_tx_queue s) (hyper_data_region s) = tx_list s @ bs \<and>
    list_all2 (carries (frontend_sess_id t) (backend_sess_id t)) (take (tx_room s) segs) bs"
  using assms
proof (induction segs arbitrary: s t)
  case Nil
  then show ?case
    by (intro exI[of _ "fe_mem s"] exI[of _ "[]"])
       (simp add: front_kept_def front_ready_def tx_kept_refl fun_upd_idem)
next
  case (Cons seg segs)
  let ?bs = "unat (q_block_size (fe_mem s) (hyper_tx_queue s))"
  have seg: "seg_ok seg" "8 + length (seg_data seg) \<le> ?bs" using Cons.prems(4,5) by (auto simp: segs_fit_def)
  from data_message_effect[OF Cons.prems(1) seg, of t] obtain m1 where m1:
    "build_message (data_header t seg) (Some (take (unat (seg_len seg)) (seg_data seg))) s =
      Some (if 0 < tx_room s then FRONTEND_PROXY_PROCESS_OK else FRONTEND_PROXY_PROCESS_AGAIN, s\<lparr>fe_mem := m1\<rparr>)"
    "front_kept s m1"
    "if 0 < tx_room s then \<exists>b. carries (frontend_sess_id t) (backend_sess_id t) seg b \<and>
        queue_list m1 (hyper_tx_queue s) (hyper_data_region s) = tx_list s @ [b]
     else queue_list m1 (hyper_tx_queue s) (hyper_data_region s) = tx_list s" by blast
  show ?case
  proof (cases "0 < tx_room s")
    case False
    then show ?thesis using Cons.prems m1
      by (intro exI[of _ m1] exI[of _ "[]"]) (simp add: fun_upd_idem)
  next
    case True
    then obtain b where b: "carries (frontend_sess_id t) (backend_sess_id t) seg b"
      "queue_list m1 (hyper_tx_queue s) (hyper_data_region s) = tx_list s @ [b]" using m1(3) by auto
    define t1 where "t1 = t\<lparr>msg_f2b := segs\<rparr>"
    define s1 where "s1 = s\<lparr>fe_mem := m1, sessions := (sessions s)(sess \<mapsto> t1)\<rparr>"
    have step: "f2b_segments sess (seg # segs) s = f2b_segments sess segs s1"
      using Cons.prems(2) m1(1) True by (simp add: upd_sess_def s1_def t1_def)
    have room: "tx_room s1 = tx_room s - 1" using front_kept_room[OF m1(2) b(2)] by (simp add: s1_def)
    have bsz: "q_block_size m1 (hyper_tx_queue s) = q_block_size (fe_mem s) (hyper_tx_queue s)"
      using m1(2) by (simp add: front_kept_def tx_kept_def)
    have "front_ready s1" using m1(2) by (simp add: front_ready_def front_kept_def tx_kept_def s1_def)
    moreover have "sessions s1 sess = Some t1" "msg_f2b t1 = segs" by (simp_all add: s1_def t1_def)
    moreover have "segs_fit (unat (q_block_size (fe_mem s1) (hyper_tx_queue s1)) - 8) segs"
      "8 < unat (q_block_size (fe_mem s1) (hyper_tx_queue s1))"
      using Cons.prems(4,5) by (simp_all add: s1_def bsz segs_fit_def)
    ultimately obtain m2 bs where IH: "f2b_segments sess segs s1 =
        Some (if length segs \<le> tx_room s1 then FRONTEND_PROXY_PROCESS_OK else FRONTEND_PROXY_PROCESS_AGAIN,
              s1\<lparr>fe_mem := m2, sessions := (sessions s1)(sess \<mapsto> t1\<lparr>msg_f2b := drop (tx_room s1) segs\<rparr>)\<rparr>)"
      "front_kept s1 m2" "queue_list m2 (hyper_tx_queue s1) (hyper_data_region s1) = tx_list s1 @ bs"
      "list_all2 (carries (frontend_sess_id t1) (backend_sess_id t1)) (take (tx_room s1) segs) bs"
      using Cons.IH by blast
    obtain r where r: "tx_room s = Suc r" using True by (cases "tx_room s") auto
    have "front_kept s m2"
      using m1(2) IH(2) tx_kept_trans[of "fe_mem s" m1 _ _ _ m2] by (simp add: front_kept_def s1_def)
    moreover have "f2b_segments sess (seg # segs) s =
        Some (if length (seg # segs) \<le> tx_room s then FRONTEND_PROXY_PROCESS_OK else FRONTEND_PROXY_PROCESS_AGAIN,
              s\<lparr>fe_mem := m2, sessions := (sessions s)(sess \<mapsto> t\<lparr>msg_f2b := drop (tx_room s) (seg # segs)\<rparr>)\<rparr>)"
      unfolding step IH(1) unfolding room r by (simp add: s1_def t1_def)
    moreover have "queue_list m2 (hyper_tx_queue s) (hyper_data_region s) = tx_list s @ b # bs"
      using IH(3) b(2) by (simp add: s1_def)
    moreover have "list_all2 (carries (frontend_sess_id t) (backend_sess_id t)) (take (tx_room s) (seg # segs)) (b # bs)"
      using IH(4) b(1) room r by (simp add: t1_def)
    ultimately show ?thesis by blast
  qed
qed

subsection \<open>Well-formed sessions\<close>

abbreviation tx_block_size :: "'a frontend \<Rightarrow> nat" where
  "tx_block_size s \<equiv> unat (q_block_size (fe_mem s) (hyper_tx_queue s))"

definition sess_ok :: "nat \<Rightarrow> FrontendSession \<Rightarrow> bool" where
  "sess_ok mx t \<longleftrightarrow> segs_fit mx (msg_f2b t) \<and> list_all seg_ok (msg_b2f t)"

definition front_inv :: "'a frontend \<Rightarrow> bool" where
  "front_inv s \<longleftrightarrow> front_ready s \<and> 8 < tx_block_size s \<and>
     (\<forall>a t. sessions s a = Some t \<longrightarrow> a \<noteq> 0 \<and> link_ok a s \<and> sess_ok (tx_block_size s - 8) t)"

definition up_stream :: "addr \<Rightarrow> 'a frontend \<Rightarrow> u8 list" where
  "up_stream a s = (case sessions s a of None \<Rightarrow> [] | Some t \<Rightarrow> seg_stream (msg_f2b t))"

definition down_stream :: "addr \<Rightarrow> 'a frontend \<Rightarrow> u8 list" where
  "down_stream a s = (case sessions s a of None \<Rightarrow> [] | Some t \<Rightarrow> seg_stream (msg_b2f t))"

text \<open>A step that changes one session, its membership in the two queues, and memory.\<close>

definition only_session :: "addr \<Rightarrow> FrontendSession \<Rightarrow> 'a frontend \<Rightarrow> 'a frontend \<Rightarrow> bool" where
  "only_session a t' s s' \<longleftrightarrow>
     sessions s' = (sessions s)(a \<mapsto> t') \<and> hyper_tx_queue s' = hyper_tx_queue s \<and>
     hyper_data_region s' = hyper_data_region s \<and> global_amp_tx_buf s' = global_amp_tx_buf s \<and>
     htable (pool s') = htable (pool s) \<and> id_queue (pool s') = id_queue (pool s) \<and> sess_num (pool s') = sess_num (pool s) \<and>
     hyper_rx_queue s' = hyper_rx_queue s \<and> l_msg_buf s' = l_msg_buf s \<and> l_block_size s' = l_block_size s \<and>
     (\<forall>t. sessions s a = Some t \<longrightarrow> frontend_sess_id t' = frontend_sess_id t \<and> backend_sess_id t' = backend_sess_id t \<and> event_callback t' = event_callback t) \<and>
     (distinct (queue_f2b (pool s)) \<longrightarrow> distinct (queue_f2b (pool s'))) \<and> (distinct (queue_b2f (pool s)) \<longrightarrow> distinct (queue_b2f (pool s'))) \<and>
     app s' = app s \<and> malloc_result s' = malloc_result s \<and> front_ready s' \<and> tx_block_size s' = tx_block_size s \<and>
     (linked (state_f2b t') \<longleftrightarrow> a \<in> set (queue_f2b (pool s'))) \<and> (linked (state_b2f t') \<longleftrightarrow> a \<in> set (queue_b2f (pool s'))) \<and>
     set (queue_f2b (pool s')) - {a} = set (queue_f2b (pool s)) - {a} \<and> set (queue_b2f (pool s')) - {a} = set (queue_b2f (pool s)) - {a} \<and>
     sess_ok (tx_block_size s - 8) t'"

lemma only_session_inv:
  assumes "front_inv s" "sessions s a = Some t" "only_session a t' s s'"
  shows "front_inv s'"
proof -
  have other: "b \<in> set (queue_f2b (pool s')) \<longleftrightarrow> b \<in> set (queue_f2b (pool s))"
    "b \<in> set (queue_b2f (pool s')) \<longleftrightarrow> b \<in> set (queue_b2f (pool s))" if "b \<noteq> a" for b
    using assms(3) that by (auto simp: only_session_def)
  have "link_ok b s'" if "sessions s' b = Some u" for b u
    using assms that other[of b] by (cases "b = a") (auto simp: only_session_def front_inv_def link_ok_def)
  then show ?thesis using assms by (auto simp: front_inv_def only_session_def)
qed

lemma only_session_streams:
  assumes "only_session a t' s s'"
  shows "up_stream a s' = seg_stream (msg_f2b t')" "down_stream a s' = seg_stream (msg_b2f t')"
    "b \<noteq> a \<Longrightarrow> sessions s' b = sessions s b"
  using assms by (simp_all add: only_session_def up_stream_def down_stream_def)

lemma front_invD:
  assumes "front_inv s" "sessions s a = Some t"
  shows "a \<noteq> 0" "link_ok a s" "sess_ok (tx_block_size s - 8) t" "front_ready s" "8 < tx_block_size s" "hyper_tx_queue s \<noteq> 0"
  using assms by (auto simp: front_inv_def front_ready_def tx_ready_def shm_inv_def queue_wf_def layout_ok_def)

subsection \<open>The operations on a session\<close>

lemma send_step:
  assumes "front_inv s" "sessions s a = Some t" "length data < 2 ^ 31" "frontend_sess_send a (Some data) s = Some (ret, s')" "data \<noteq> []"
  shows "\<exists>t'. only_session a t' s s' \<and> msg_b2f t' = msg_b2f t \<and> sess_state t' = sess_state t \<and> fe_mem s' = fe_mem s \<and> 0 \<le> ret \<and> ret \<le> int (length data) \<and>
    seg_stream (msg_f2b t') = seg_stream (msg_f2b t) @ take (nat ret) data \<and>
    (0 < ret \<longrightarrow> a \<in> set (queue_f2b (pool s'))) \<and> ((\<forall>i. malloc_result s i \<noteq> 0) \<longrightarrow> ret = int (length data))"
proof -
  note i = front_invD[OF assms(1,2)]
  obtain new st j where eff: "frontend_sess_send a (Some data) s = Some (int (length (seg_stream new)),
      s\<lparr>sessions := (sessions s)(a \<mapsto> t\<lparr>msg_f2b := msg_f2b t @ new, state_f2b := st\<rparr>),
        pool := (pool s)\<lparr>queue_f2b := (if new = [] then queue_f2b (pool s) else enq_once a (queue_f2b (pool s)))\<rparr>, mallocs := j\<rparr>)"
    "linked st \<longleftrightarrow> linked (state_f2b t) \<or> new \<noteq> []" "seg_stream new = take (length (seg_stream new)) data"
    "segs_fit (tx_block_size s - 8) new" "(\<forall>i. malloc_result s i \<noteq> 0) \<longrightarrow> seg_stream new = data"
    using sess_send_effect[OF i(2) assms(2) i(1) assms(5,3) i(6,5)] by blast
  let ?t = "t\<lparr>msg_f2b := msg_f2b t @ new, state_f2b := st\<rparr>"
  have s': "s' = s\<lparr>sessions := (sessions s)(a \<mapsto> ?t),
      pool := (pool s)\<lparr>queue_f2b := (if new = [] then queue_f2b (pool s) else enq_once a (queue_f2b (pool s)))\<rparr>, mallocs := j\<rparr>"
    and ret: "ret = int (length (seg_stream new))" using eff(1) assms(4) by auto
  have "only_session a ?t s s'"
    unfolding s' using i eff(2,4) assms(2)
    by (auto simp: only_session_def front_ready_def link_ok_def sess_ok_def segs_fit_def)
  moreover have "length (seg_stream new) \<le> length data" by (subst eff(3)) simp
  moreover have "a \<in> set (queue_f2b (pool s'))" if "0 < ret" using that ret by (cases new) (simp_all add: s')
  moreover have "fe_mem s' = fe_mem s" by (simp add: s')
  ultimately show ?thesis using eff(3,5) ret by (intro exI[of _ ?t]) auto
qed

lemma send_returns:
  assumes "front_inv s" "sessions s a = Some t" "length data < 2 ^ 31" "data \<noteq> []"
  shows "\<exists>ret s'. frontend_sess_send a (Some data) s = Some (ret, s')"
  using sess_send_effect[OF front_invD(2)[OF assms(1,2)] assms(2) front_invD(1)[OF assms(1,2)] assms(4,3) front_invD(6,5)[OF assms(1,2)]]
  by blast

lemma send_empty: "frontend_sess_send a (Some []) s = Some (- 1, s)"
  by (simp add: frontend_sess_send_def payload_bytes_def)

lemma recv_step:
  assumes "front_inv s" "sessions s a = Some t" "frontend_sess_recv a True sz s = Some (ret, out, s')" "0 < sz"
  shows "\<exists>t'. only_session a t' s s' \<and> msg_f2b t' = msg_f2b t \<and> fe_mem s' = fe_mem s \<and> pool s' = pool s \<and>
    out = take (unat sz) (seg_stream (msg_b2f t)) \<and> seg_stream (msg_b2f t') = drop (unat sz) (seg_stream (msg_b2f t)) \<and>
    (unat sz < 2 ^ 31 \<longrightarrow> ret = int (length out))"
proof -
  note i = front_invD[OF assms(1,2)]
  obtain o' segs' where l: "sess_recv_loop (msg_b2f t) (unat sz) [] = (o', segs')" by fastforce
  have ok: "list_all seg_ok (msg_b2f t)" using i(3) by (simp add: sess_ok_def)
  note r = recv_loop_stream[OF ok l]
  have s': "s' = s\<lparr>sessions := (sessions s)(a \<mapsto> t\<lparr>msg_b2f := segs'\<rparr>)\<rparr>" "out = o'" "ret = sint (of_nat (length o') :: u32)"
    using assms(2-) i(1) l word_gt_0[of sz] by (auto simp: frontend_sess_recv_def upd_sess_def)
  have "only_session a (t\<lparr>msg_b2f := segs'\<rparr>) s s'"
    unfolding s' using i(2-4) r assms(2) by (auto simp: only_session_def front_ready_def link_ok_def sess_ok_def)
  moreover have "ret = int (length out)" if "unat sz < 2 ^ 31"
    unfolding s'(2,3) using that r by (intro int_length_u32) simp
  ultimately show ?thesis using r s'(1,2) by (intro exI[of _ "t\<lparr>msg_b2f := segs'\<rparr>"]) auto
qed

lemma unat_of_nat_length: "unat (of_nat (length (bytes_at m a (unat (n :: u16)))) :: u16) = length (bytes_at m a (unat n))"
  by simp

lemma data_step:
  assumes "front_inv s" "sessions s a = Some t" "frontend_high_speed_search_sess s fsid = Some a"
  shows "\<exists>ret s' t'. frontend_proxy_data_msg_prosess fsid n msg s = Some (ret, s') \<and> only_session a t' s s' \<and>
    msg_f2b t' = msg_f2b t \<and> fe_mem s' = fe_mem s \<and> queue_f2b (pool s') = queue_f2b (pool s) \<and>
    (ret = FRONTEND_PROXY_PROCESS_OK \<and> seg_stream (msg_b2f t') = seg_stream (msg_b2f t) @ bytes_at (fe_mem s) msg (unat n) \<or>
     ret = FRONTEND_PROXY_PROCESS_ERROR \<and> msg_b2f t' = msg_b2f t \<and> (\<exists>i. malloc_result s i = 0))"
proof (cases "malloc_result s (mallocs s) = 0 \<or> malloc_result s (Suc (mallocs s)) = 0")
  case True
  define j where "j = (if malloc_result s (mallocs s) = 0 then Suc (mallocs s) else Suc (Suc (mallocs s)))"
  have "frontend_proxy_data_msg_prosess fsid n msg s = Some (FRONTEND_PROXY_PROCESS_ERROR, s\<lparr>mallocs := j\<rparr>)"
    using assms(3) True by (auto simp: frontend_proxy_data_msg_prosess_def seg_alloc j_def)
  moreover have "only_session a t s (s\<lparr>mallocs := j\<rparr>)"
    using front_invD[OF assms(1,2)] assms(2) by (auto simp: only_session_def front_ready_def link_ok_def fun_upd_idem)
  ultimately show ?thesis using True by auto
next
  case False
  note i = front_invD[OF assms(1,2)]
  define seg where "seg = \<lparr>seg_len = of_nat (length (bytes_at (fe_mem s) msg (unat n))), seg_offset = 0,
    seg_type = SESS_MSG_SEG_DYNAMIC_ALLOC, seg_data = bytes_at (fe_mem s) msg (unat n)\<rparr>"
  let ?t = "t\<lparr>msg_b2f := msg_b2f t @ [seg]\<rparr>"
  let ?s = "s\<lparr>mallocs := Suc (Suc (mallocs s)), sessions := (sessions s)(a \<mapsto> ?t)\<rparr>"
  have "link_ok a ?s" "sessions ?s a = Some ?t" using i(2) assms(2) by (simp_all add: link_ok_def)
  from link_b2f[OF this] obtain st where st: "FRONTEND_SESS_LINK_TO_QUEUE_b2f a ?s = Some (?s\<lparr>sessions := (sessions s)(a \<mapsto> ?t\<lparr>state_b2f := st\<rparr>),
      pool := (pool s)\<lparr>queue_b2f := enq_once a (queue_b2f (pool s))\<rparr>\<rparr>)" "linked st" by auto
  let ?s' = "?s\<lparr>sessions := (sessions s)(a \<mapsto> ?t\<lparr>state_b2f := st\<rparr>), pool := (pool s)\<lparr>queue_b2f := enq_once a (queue_b2f (pool s))\<rparr>\<rparr>"
  have "frontend_proxy_data_msg_prosess fsid n msg s = Some (FRONTEND_PROXY_PROCESS_OK, ?s')"
    using assms(2,3) False st(1) by (simp add: frontend_proxy_data_msg_prosess_def seg_alloc upd_sess_def seg_def)
  moreover have "seg_ok seg" by (simp add: seg_ok_def seg_def)
  then have "only_session a (?t\<lparr>state_b2f := st\<rparr>) s ?s'"
    using i st(2) assms(2) by (auto simp: only_session_def front_ready_def link_ok_def sess_ok_def)
  moreover have "seg_stream (msg_b2f (?t\<lparr>state_b2f := st\<rparr>)) = seg_stream (msg_b2f t) @ bytes_at (fe_mem s) msg (unat n)"
    by (simp add: seg_def)
  ultimately show ?thesis by (intro exI[of _ FRONTEND_PROXY_PROCESS_OK] exI[of _ ?s'] exI[of _ "?t\<lparr>state_b2f := st\<rparr>"]) simp
qed

lemma flush_step:
  assumes "front_inv s" "sessions s a = Some t"
  shows "\<exists>s' bs. frontend_high_speed_data_process_f2b a s =
      Some (if length (msg_f2b t) \<le> tx_room s then FRONTEND_PROXY_PROCESS_OK else FRONTEND_PROXY_PROCESS_AGAIN, s') \<and>
    only_session a (t\<lparr>msg_f2b := drop (tx_room s) (msg_f2b t)\<rparr>) s s' \<and> tx_list s' = tx_list s @ bs \<and>
    list_all2 (carries (frontend_sess_id t) (backend_sess_id t)) (take (tx_room s) (msg_f2b t)) bs \<and>
    pool s' = pool s \<and> front_kept s (fe_mem s')"
proof -
  note i = front_invD[OF assms]
  have fit: "segs_fit (tx_block_size s - 8) (msg_f2b t)" "list_all seg_ok (msg_b2f t)" using i(3) by (simp_all add: sess_ok_def)
  obtain m' bs where eff: "f2b_segments a (msg_f2b t) s =
      Some (if length (msg_f2b t) \<le> tx_room s then FRONTEND_PROXY_PROCESS_OK else FRONTEND_PROXY_PROCESS_AGAIN,
            s\<lparr>fe_mem := m', sessions := (sessions s)(a \<mapsto> t\<lparr>msg_f2b := drop (tx_room s) (msg_f2b t)\<rparr>)\<rparr>)"
    "front_kept s m'" "queue_list m' (hyper_tx_queue s) (hyper_data_region s) = tx_list s @ bs"
    "list_all2 (carries (frontend_sess_id t) (backend_sess_id t)) (take (tx_room s) (msg_f2b t)) bs"
    using f2b_segments_effect[OF i(4) assms(2) refl fit(1) i(5)] by blast
  let ?s = "s\<lparr>fe_mem := m', sessions := (sessions s)(a \<mapsto> t\<lparr>msg_f2b := drop (tx_room s) (msg_f2b t)\<rparr>)\<rparr>"
  have "segs_fit (tx_block_size s - 8) (drop (tx_room s) (msg_f2b t))"
    using fit(1) by (auto simp: segs_fit_def list_all_iff dest: in_set_dropD)
  then have "only_session a (t\<lparr>msg_f2b := drop (tx_room s) (msg_f2b t)\<rparr>) s ?s"
    using i(2) fit(2) eff(2) assms(2) by (simp add: only_session_def front_ready_def front_kept_def tx_kept_def link_ok_def sess_ok_def)
  then show ?thesis using eff assms(2)
    by (intro exI[of _ ?s] exI[of _ bs]) (simp add: frontend_high_speed_data_process_f2b_def)
qed

text \<open>What a receiver of a block takes for its payload.\<close>

definition block_payload :: "u8 list \<Rightarrow> u8 list" where
  "block_payload b = take (unat (ucast (b ! 6) OR push_bit 8 (ucast (b ! 7)) :: u16)) (drop 8 b)"

lemma le16_join:
  fixes w :: u16
  shows "(ucast (ucast w :: u8) OR push_bit 8 (ucast (ucast (drop_bit 8 w) :: u8)) :: u16) = w"
proof (rule bit_word_eqI)
  fix n assume "n < LENGTH(16)"
  then show "bit (ucast (ucast w :: u8) OR push_bit 8 (ucast (ucast (drop_bit 8 w) :: u8)) :: u16) n = bit w n"
    by (cases "n < 8") (auto simp: bit_simps)
qed

lemma data_block_payload:
  assumes "length bs < 65536"
  shows "block_payload (data_block fsid bsid bs @ rest) = bs"
  using assms by (simp add: block_payload_def data_block_def le16_def le16_join unat_of_nat)

lemma carries_payload:
  assumes "list_all2 (carries fsid bsid) segs bs" "list_all seg_ok segs"
  shows "concat (map block_payload bs) = seg_stream segs"
  using assms
proof (induction rule: list_all2_induct)
  case (Cons seg segs b bs)
  have "length (seg_data seg) < 65536"
    using Cons.prems unsigned_less[of "seg_len seg", where 'a = nat] by (simp add: seg_ok_def)
  then show ?case using Cons by (auto simp: carries_def data_block_payload)
qed simp

subsection \<open>Interleaved steps\<close>

definition send_on :: "addr \<Rightarrow> 'a frontend \<Rightarrow> u8 list \<Rightarrow> 'a frontend \<Rightarrow> bool" where
  "send_on a s x s' \<longleftrightarrow> (\<exists>data ret. sessions s a \<noteq> None \<and> length data < 2 ^ 31 \<and>
     frontend_sess_send a (Some data) s = Some (ret, s') \<and> x = take (nat ret) data)"

text \<open>The bytes are those a receiver of the blocks that were added to the transmit queue takes from them.\<close>

definition flush_on :: "addr \<Rightarrow> 'a frontend \<Rightarrow> u8 list \<Rightarrow> 'a frontend \<Rightarrow> bool" where
  "flush_on a s y s' \<longleftrightarrow> (\<exists>ret bs. frontend_high_speed_data_process_f2b a s = Some (ret, s') \<and>
     tx_list s' = tx_list s @ bs \<and> y = concat (map block_payload bs))"

definition arrive_on :: "addr \<Rightarrow> 'a frontend \<Rightarrow> u8 list \<Rightarrow> 'a frontend \<Rightarrow> bool" where
  "arrive_on a s x s' \<longleftrightarrow> (\<exists>fsid n msg ret. sessions s a \<noteq> None \<and> frontend_high_speed_search_sess s fsid = Some a \<and>
     frontend_proxy_data_msg_prosess fsid n msg s = Some (ret, s') \<and>
     x = (if ret = FRONTEND_PROXY_PROCESS_OK then bytes_at (fe_mem s) msg (unat n) else []))"

definition recv_on :: "addr \<Rightarrow> 'a frontend \<Rightarrow> u8 list \<Rightarrow> 'a frontend \<Rightarrow> bool" where
  "recv_on a s y s' \<longleftrightarrow> (\<exists>sz ret. 0 < sz \<and> frontend_sess_recv a True sz s = Some (ret, y, s'))"

text \<open>The back end, which takes blocks out of the transmit queue and writes to memory of its own.\<close>

definition peer_step :: "'a frontend \<Rightarrow> 'a frontend \<Rightarrow> bool" where
  "peer_step s s' \<longleftrightarrow> (\<exists>m'. s' = s\<lparr>fe_mem := m'\<rparr> \<and> front_ready s' \<and> tx_block_size s' = tx_block_size s)"

definition other_step :: "addr \<Rightarrow> 'a frontend \<Rightarrow> 'a frontend \<Rightarrow> bool" where
  "other_step a s s' \<longleftrightarrow> peer_step s s' \<or>
     (\<exists>b x. b \<noteq> a \<and> (send_on b s x s' \<or> flush_on b s x s' \<or> arrive_on b s x s' \<or> recv_on b s x s'))"

lemma send_on_law:
  assumes "front_inv s" "send_on a s x s'"
  shows "front_inv s' \<and> up_stream a s' = up_stream a s @ x \<and> down_stream a s' = down_stream a s \<and>
    (\<forall>b. b \<noteq> a \<longrightarrow> sessions s' b = sessions s b)"
proof -
  obtain data ret t where st: "sessions s a = Some t" "length data < 2 ^ 31"
    "frontend_sess_send a (Some data) s = Some (ret, s')" "x = take (nat ret) data"
    using assms(2) by (auto simp: send_on_def)
  show ?thesis
  proof (cases "data = []")
    case True
    then show ?thesis using assms(1) st(3,4) by (simp add: send_empty)
  next
    case False
    then obtain t' where t': "only_session a t' s s'" "msg_b2f t' = msg_b2f t"
      "seg_stream (msg_f2b t') = seg_stream (msg_f2b t) @ take (nat ret) data"
      using send_step[OF assms(1) st(1-3)] by blast
    show ?thesis
      using only_session_inv[OF assms(1) st(1) t'(1)] only_session_streams[OF t'(1)] t'(2,3) st(1,4)
      by (simp add: up_stream_def[of a s] down_stream_def[of a s])
  qed
qed

lemma flush_on_law:
  assumes "front_inv s" "flush_on a s y s'"
  shows "front_inv s' \<and> up_stream a s = y @ up_stream a s' \<and> down_stream a s' = down_stream a s \<and>
    (\<forall>b. b \<noteq> a \<longrightarrow> sessions s' b = sessions s b)"
proof -
  obtain ret bs where st: "frontend_high_speed_data_process_f2b a s = Some (ret, s')"
    "tx_list s' = tx_list s @ bs" "y = concat (map block_payload bs)" using assms(2) by (auto simp: flush_on_def)
  then obtain t where t: "sessions s a = Some t"
    by (cases "sessions s a") (simp_all add: frontend_high_speed_data_process_f2b_def)
  let ?t = "t\<lparr>msg_f2b := drop (tx_room s) (msg_f2b t)\<rparr>"
  from flush_step[OF assms(1) t] st(1,2) have f: "only_session a ?t s s'"
    "list_all2 (carries (frontend_sess_id t) (backend_sess_id t)) (take (tx_room s) (msg_f2b t)) bs" by auto
  have "list_all seg_ok (take (tx_room s) (msg_f2b t))"
    using front_invD(3)[OF assms(1) t] by (auto simp: sess_ok_def segs_fit_def list_all_iff dest: in_set_takeD)
  then have y: "y = seg_stream (take (tx_room s) (msg_f2b t))" using carries_payload[OF f(2)] st(3) by simp
  have "seg_stream (msg_f2b t) = y @ seg_stream (drop (tx_room s) (msg_f2b t))"
    unfolding y by (metis append_take_drop_id seg_stream_simps(3))
  then show ?thesis
    using only_session_inv[OF assms(1) t f(1)] only_session_streams[OF f(1)] t
    by (simp add: up_stream_def[of a s] down_stream_def[of a s])
qed

lemma arrive_on_law:
  assumes "front_inv s" "arrive_on a s x s'"
  shows "front_inv s' \<and> up_stream a s' = up_stream a s \<and> down_stream a s' = down_stream a s @ x \<and>
    (\<forall>b. b \<noteq> a \<longrightarrow> sessions s' b = sessions s b)"
proof -
  obtain fsid n msg ret t where st: "sessions s a = Some t" "frontend_high_speed_search_sess s fsid = Some a"
    "frontend_proxy_data_msg_prosess fsid n msg s = Some (ret, s')"
    "x = (if ret = FRONTEND_PROXY_PROCESS_OK then bytes_at (fe_mem s) msg (unat n) else [])"
    using assms(2) by (auto simp: arrive_on_def)
  obtain t' where t': "only_session a t' s s'" "msg_f2b t' = msg_f2b t" "seg_stream (msg_b2f t') = seg_stream (msg_b2f t) @ x"
    using data_step[OF assms(1) st(1,2), of n msg] st(3,4) by auto
  show ?thesis
    using only_session_inv[OF assms(1) st(1) t'(1)] only_session_streams[OF t'(1)] t'(2,3) st(1)
    by (simp add: up_stream_def[of a s] down_stream_def[of a s])
qed

lemma recv_on_law:
  assumes "front_inv s" "recv_on a s y s'"
  shows "front_inv s' \<and> up_stream a s' = up_stream a s \<and> down_stream a s = y @ down_stream a s' \<and>
    (\<forall>b. b \<noteq> a \<longrightarrow> sessions s' b = sessions s b)"
proof -
  obtain sz ret where st: "0 < sz" "frontend_sess_recv a True sz s = Some (ret, y, s')"
    using assms(2) by (auto simp: recv_on_def)
  show ?thesis
  proof (cases "a = 0")
    case True
    then show ?thesis using assms(1) st by (auto simp: frontend_sess_recv_def)
  next
    case False
    then obtain t where t: "sessions s a = Some t"
      using st by (cases "sessions s a") (auto simp: frontend_sess_recv_def word_gt_0)
    then obtain t' where t': "only_session a t' s s'" "msg_f2b t' = msg_f2b t"
      "y = take (unat sz) (seg_stream (msg_b2f t))" "seg_stream (msg_b2f t') = drop (unat sz) (seg_stream (msg_b2f t))"
      using recv_step[OF assms(1) _ st(2,1)] by blast
    show ?thesis
      using only_session_inv[OF assms(1) t t'(1)] only_session_streams[OF t'(1)] t'(2-4) t
      by (simp add: up_stream_def[of a s] down_stream_def[of a s])
  qed
qed

lemma stream_cong: "sessions s' a = sessions s a \<Longrightarrow> up_stream a s' = up_stream a s \<and> down_stream a s' = down_stream a s"
  by (simp add: up_stream_def down_stream_def)

lemma other_step_law:
  assumes "front_inv s" "other_step a s s'"
  shows "front_inv s' \<and> up_stream a s' = up_stream a s \<and> down_stream a s' = down_stream a s"
proof (cases "peer_step s s'")
  case True
  then show ?thesis using assms(1)
    unfolding peer_step_def front_inv_def link_ok_def up_stream_def down_stream_def by fastforce
next
  case False
  then have "front_inv s' \<and> sessions s' a = sessions s a"
    using assms send_on_law[OF assms(1)] flush_on_law[OF assms(1)] arrive_on_law[OF assms(1)] recv_on_law[OF assms(1)]
    unfolding other_step_def by metis
  then show ?thesis using stream_cong by blast
qed

interpretation upward: byte_stream front_inv "up_stream a" "send_on a" "flush_on a"
    "\<lambda>s s'. other_step a s s' \<or> (\<exists>x. arrive_on a s x s' \<or> recv_on a s x s')" for a
proof (unfold_locales, goal_cases)
  case (1 s x s')
  then show ?case using send_on_law[of s a x s'] by simp
next
  case (2 s y s')
  then show ?case using flush_on_law[of s a y s'] by simp
next
  case (3 s s')
  then show ?case using other_step_law[of s a s'] arrive_on_law[of s a _ s'] recv_on_law[of s a _ s'] by blast
qed

interpretation downward: byte_stream front_inv "down_stream a" "arrive_on a" "recv_on a"
    "\<lambda>s s'. other_step a s s' \<or> (\<exists>x. send_on a s x s' \<or> flush_on a s x s')" for a
proof (unfold_locales, goal_cases)
  case (1 s x s')
  then show ?case using arrive_on_law[of s a x s'] by simp
next
  case (2 s y s')
  then show ?case using recv_on_law[of s a y s'] by simp
next
  case (3 s s')
  then show ?case using other_step_law[of s a s'] send_on_law[of s a _ s'] flush_on_law[of s a _ s'] by blast
qed

subsection \<open>Properties\<close>

text \<open>Sending on a session of a well-formed front end returns the number \<open>k\<close> of bytes it
  took; these are the first \<open>k\<close> bytes of the data, they follow what the session had queued, and all
  are taken when no allocation fails. The session is in the queue of sessions to be served, the segments it holds fit
  a block of the transmit queue, and no other session changes.\<close>

lemma sess_send_queues:
  assumes "front_inv s" "sessions s a = Some t" "data \<noteq> []" "length data < 2 ^ 31"
  shows "\<exists>k s' t'. frontend_sess_send a (Some data) s = Some (int k, s') \<and> k \<le> length data \<and>
    front_inv s' \<and> sessions s' = (sessions s)(a \<mapsto> t') \<and>
    seg_stream (msg_f2b t') = seg_stream (msg_f2b t) @ take k data \<and> msg_b2f t' = msg_b2f t \<and>
    (0 < k \<longrightarrow> a \<in> set (queue_f2b (pool s'))) \<and> ((\<forall>i. malloc_result s i \<noteq> 0) \<longrightarrow> k = length data)"
proof -
  obtain ret s' where r: "frontend_sess_send a (Some data) s = Some (ret, s')"
    using send_returns[OF assms(1,2,4,3)] by blast
  obtain t' where t': "only_session a t' s s'" "msg_b2f t' = msg_b2f t" "0 \<le> ret" "ret \<le> int (length data)"
    "seg_stream (msg_f2b t') = seg_stream (msg_f2b t) @ take (nat ret) data"
    "0 < ret \<longrightarrow> a \<in> set (queue_f2b (pool s'))" "(\<forall>i. malloc_result s i \<noteq> 0) \<longrightarrow> ret = int (length data)"
    using send_step[OF assms(1,2,4) r assms(3)] by blast
  then show ?thesis using r only_session_inv[OF assms(1,2) t'(1)]
    by (intro exI[of _ "nat ret"] exI[of _ s'] exI[of _ t']) (auto simp: only_session_def)
qed

text \<open>C9: serving a session puts its segments, in order and as far as the transmit queue has room, into
  the queue as data messages, each with version 1, the type of data messages, the two identifiers
  of the session, the length and the bytes of the segment; it answers OK when all of them were
  sent and AGAIN with the rest still queued otherwise; no other session changes.\<close>

theorem f2b_flush:
  assumes "front_inv s" "sessions s a = Some t"
  defines "k \<equiv> min (tx_room s) (length (msg_f2b t))"
  shows "\<exists>s' bs. frontend_high_speed_data_process_f2b a s =
      Some (if k = length (msg_f2b t) then FRONTEND_PROXY_PROCESS_OK else FRONTEND_PROXY_PROCESS_AGAIN, s') \<and>
    front_inv s' \<and> tx_list s' = tx_list s @ bs \<and>
    list_all2 (\<lambda>seg b. \<exists>rest. b = [1, 3] @ le16 (frontend_sess_id t) @ le16 (backend_sess_id t) @
        le16 (seg_len seg) @ seg_data seg @ rest) (take k (msg_f2b t)) bs \<and>
    sessions s' = (sessions s)(a \<mapsto> t\<lparr>msg_f2b := drop k (msg_f2b t)\<rparr>)"
proof -
  obtain s' bs where f: "frontend_high_speed_data_process_f2b a s =
      Some (if length (msg_f2b t) \<le> tx_room s then FRONTEND_PROXY_PROCESS_OK else FRONTEND_PROXY_PROCESS_AGAIN, s')"
    "only_session a (t\<lparr>msg_f2b := drop (tx_room s) (msg_f2b t)\<rparr>) s s'" "tx_list s' = tx_list s @ bs"
    "list_all2 (carries (frontend_sess_id t) (backend_sess_id t)) (take (tx_room s) (msg_f2b t)) bs"
    using flush_step[OF assms(1,2)] by blast
  have k: "take k (msg_f2b t) = take (tx_room s) (msg_f2b t)" "drop k (msg_f2b t) = drop (tx_room s) (msg_f2b t)"
    "k = length (msg_f2b t) \<longleftrightarrow> length (msg_f2b t) \<le> tx_room s" by (auto simp: k_def min_def)
  have ok: "(of_nat (length (seg_data seg)) :: u16) = seg_len seg" if "seg \<in> set (take k (msg_f2b t))" for seg
  proof -
    have "unat (seg_len seg) = length (seg_data seg)"
      using front_invD(3)[OF assms(1,2)] in_set_takeD[OF that] by (simp add: sess_ok_def segs_fit_def list_all_iff seg_ok_def)
    then have "(of_nat (length (seg_data seg)) :: u16) = of_nat (unat (seg_len seg))" by simp
    then show ?thesis by simp
  qed
  have "list_all2 (\<lambda>seg b. \<exists>rest. b = [1, 3] @ le16 (frontend_sess_id t) @ le16 (backend_sess_id t) @
        le16 (seg_len seg) @ seg_data seg @ rest) (take k (msg_f2b t)) bs"
    by (rule list.rel_mono_strong[OF f(4)[folded k(1)]]) (auto simp: carries_def data_block_def ok)
  then show ?thesis using f(1-3) k only_session_inv[OF assms(1,2) f(2)]
    by (intro exI[of _ s'] exI[of _ bs]) (simp add: only_session_def)
qed

text \<open>C7: however sends on a session, rounds that serve it, and steps of other sessions, of
  the receiving side and of the back end are interleaved, the bytes carried by its data messages are
  the bytes it had queued and those it was given to send, in order, less those still queued.\<close>

theorem session_upstream:
  assumes "stream_run (send_on a) (flush_on a) (\<lambda>s s'. other_step a s s' \<or> (\<exists>x. arrive_on a s x s' \<or> recv_on a s x s')) s sent carried s'"
    and "front_inv s"
  shows "up_stream a s @ sent = carried @ up_stream a s' \<and> front_inv s'"
  using upward.stream_conserves[OF assms] by simp

text \<open>C8: however data messages for a session, receives on it, and steps of other sessions,
  of the sending side and of the back end are interleaved, the bytes received are the bytes that were waiting and those
  the messages brought, in order, less those still waiting.\<close>

theorem session_downstream:
  assumes "stream_run (arrive_on a) (recv_on a) (\<lambda>s s'. other_step a s s' \<or> (\<exists>x. send_on a s x s' \<or> flush_on a s x s')) s brought received s'"
    and "front_inv s"
  shows "down_stream a s @ brought = received @ down_stream a s' \<and> front_inv s'"
  using downward.stream_conserves[OF assms] by simp

subsection \<open>Witnesses\<close>

text \<open>A front end over the queue of \<open>ShmQueue\<close>'s example, with one session that has two bytes to send.\<close>

definition demo_seg :: SessMsgSeg where
  "demo_seg = \<lparr>seg_len = 2, seg_offset = 0, seg_type = SESS_MSG_SEG_DYNAMIC_ALLOC, seg_data = [104, 105]\<rparr>"

definition demo_session :: FrontendSession where
  "demo_session = \<lparr>sess_state = FRONTEND_SESS_CONNECTED, sess_ip_version = 4, frontend_sess_id = 1, backend_sess_id = 7,
     state_f2b = 1, state_b2f = 0, msg_f2b = [demo_seg], msg_b2f = [], event_callback = default_callback\<rparr>"

definition demo_front :: "unit frontend" where
  "demo_front = \<lparr>fe_mem = demo_mem, sessions = [16777216 \<mapsto> demo_session],
     pool = \<lparr>sess_num = 1, capacity = 1024, id_queue = [2, 3], queue_f2b = [16777216], queue_b2f = [], htable = [(1, 16777216)]\<rparr>,
     hyper_tx_queue = 4096, hyper_rx_queue = 262144, hyper_data_region = 65536, eng_ops = False,
     global_amp_tx_buf = 131072, l_msg_buf = 196608, l_block_size = 204800,
     frontend_bluetooth_sess = False, frontend_can_sess = False, frontend_zigbee_sess = False, frontend_lora_sess = False,
     frontend_powerlink_sess = False, frontend_modbustcp_sess = False,
     malloc_result = (\<lambda>n. 33554432), mallocs = 0, app = ()\<rparr>"

lemma demo_front_simps:
  "fe_mem demo_front = demo_mem" "hyper_tx_queue demo_front = 4096" "hyper_data_region demo_front = 65536"
  "global_amp_tx_buf demo_front = 131072" "sessions demo_front = [16777216 \<mapsto> demo_session]" "malloc_result demo_front n \<noteq> 0"
  "queue_f2b (pool demo_front) = [16777216]" "queue_b2f (pool demo_front) = []" "htable (pool demo_front) = [(1, 16777216)]"
  by (simp_all add: demo_front_def)

lemma demo_front_session: "sessions demo_front 16777216 = Some demo_session"
  by (simp add: demo_front_simps)

lemma demo_front_inv: "front_inv demo_front"
proof -
  have "front_ready demo_front"
    using demo_wf
    by (simp add: front_ready_def tx_ready_def shm_inv_def demo_front_simps demo_fields outside_def apart_def fits_def slot_def)
  moreover have "seg_ok demo_seg" by (simp add: seg_ok_def demo_seg_def)
  ultimately show ?thesis
    by (simp add: front_inv_def demo_front_simps demo_fields link_ok_def linked_def sess_ok_def segs_fit_def demo_session_def)
       (simp add: demo_seg_def)
qed

lemma demo_front_room: "tx_room demo_front = 3" "tx_list demo_front = []"
  by (simp_all add: tx_room_def demo_front_simps demo_fields queue_len_def ring_count_def queue_list_def)

theorem f2b_flush_witness:
  "\<exists>s' b. frontend_high_speed_data_process_f2b 16777216 demo_front = Some (FRONTEND_PROXY_PROCESS_OK, s') \<and>
     tx_list s' = [b] \<and> take 10 b = [1, 3, 1, 0, 7, 0, 2, 0, 104, 105]"
proof -
  obtain s' bs where "frontend_high_speed_data_process_f2b 16777216 demo_front = Some (FRONTEND_PROXY_PROCESS_OK, s')"
    "tx_list s' = bs" "list_all2 (\<lambda>seg b. \<exists>rest. b = [1, 3] @ le16 1 @ le16 7 @ le16 (seg_len seg) @ seg_data seg @ rest) [demo_seg] bs"
    using f2b_flush[OF demo_front_inv demo_front_session] by (auto simp: demo_front_room demo_session_def)
  then show ?thesis by (auto simp: list_all2_Cons1 demo_seg_def le16_def)
qed

theorem session_upstream_witness:
  "\<exists>s'. stream_run (send_on 16777216) (flush_on 16777216)
      (\<lambda>s s'. other_step 16777216 s s' \<or> (\<exists>x. arrive_on 16777216 s x s' \<or> recv_on 16777216 s x s')) demo_front [] [104, 105] s' \<and>
    up_stream 16777216 s' = []"
proof -
  obtain s' bs where f: "frontend_high_speed_data_process_f2b 16777216 demo_front = Some (FRONTEND_PROXY_PROCESS_OK, s')"
    "tx_list s' = bs" "list_all2 (carries 1 7) [demo_seg] bs"
    using flush_step[OF demo_front_inv demo_front_session] by (auto simp: demo_front_room demo_session_def)
  have pay: "concat (map block_payload bs) = [104, 105]"
    using carries_payload[OF f(3)] by (simp add: seg_ok_def demo_seg_def)
  have flush: "flush_on 16777216 demo_front [104, 105] s'"
    using f(1,2) pay by (auto simp: flush_on_def demo_front_room)
  have run: "stream_run (send_on 16777216) (flush_on 16777216)
      (\<lambda>s s'. other_step 16777216 s s' \<or> (\<exists>x. arrive_on 16777216 s x s' \<or> recv_on 16777216 s x s')) demo_front [] ([] @ [104, 105]) s'"
    by (rule stream_get, rule stream_start, rule flush)
  have "up_stream 16777216 demo_front = [104, 105]"
    by (simp add: up_stream_def demo_front_simps demo_session_def demo_seg_def)
  then show ?thesis using run session_upstream[OF run demo_front_inv] by auto
qed

theorem session_downstream_witness:
  "\<exists>s''. stream_run (arrive_on 16777216) (recv_on 16777216)
      (\<lambda>s s'. other_step 16777216 s s' \<or> (\<exists>x. send_on 16777216 s x s' \<or> flush_on 16777216 s x s')) demo_front [7, 0, 0] [7, 0] s'' \<and>
    down_stream 16777216 s'' = [0]"
proof -
  have srch: "frontend_high_speed_search_sess demo_front 1 = Some 16777216"
    by (simp add: frontend_high_speed_search_sess_def demo_front_simps)
  obtain ret s' where d: "frontend_proxy_data_msg_prosess 1 3 131072 demo_front = Some (ret, s')" "ret = FRONTEND_PROXY_PROCESS_OK"
    using data_step[OF demo_front_inv demo_front_session srch, of 3 131072] by (auto simp: demo_front_simps)
  have bytes: "bytes_at demo_mem 131072 3 = [7, 0, 0]"
    unfolding demo_mem_def by (subst inited_frame) (simp_all add: demo_config_def apart_def fits_def bytes_at_def upt_rec)
  have arr: "arrive_on 16777216 demo_front [7, 0, 0] s'"
  proof -
    have "sessions demo_front 16777216 \<noteq> None \<and> [7, 0, 0] = (if ret = FRONTEND_PROXY_PROCESS_OK then bytes_at (fe_mem demo_front) 131072 (unat (3 :: u16)) else [])"
      using d(2) bytes by (simp add: demo_front_simps)
    then show ?thesis unfolding arrive_on_def using d(1) srch by blast
  qed
  then have inv: "front_inv s'" "down_stream 16777216 s' = [7, 0, 0]"
    using arrive_on_law[OF demo_front_inv arr] by (auto simp: down_stream_def[of _ demo_front] demo_front_simps demo_session_def)
  then obtain t where t: "sessions s' 16777216 = Some t" by (cases "sessions s' 16777216") (auto simp: down_stream_def)
  obtain r out s'' where r: "frontend_sess_recv 16777216 True 2 s' = Some (r, out, s'')"
    using t by (cases "sess_recv_loop (msg_b2f t) (unat (2 :: u32)) []") (auto simp: frontend_sess_recv_def upd_sess_def)
  then have "out = [7, 0]" using recv_step[OF inv(1) t r] inv(2) t by (auto simp: down_stream_def)
  then have "0 < (2 :: u32) \<and> frontend_sess_recv 16777216 True 2 s' = Some (r, [7, 0], s'')" using r by simp
  then have get: "recv_on 16777216 s' [7, 0] s''" unfolding recv_on_def by blast
  have run: "stream_run (arrive_on 16777216) (recv_on 16777216)
      (\<lambda>s s'. other_step 16777216 s s' \<or> (\<exists>x. send_on 16777216 s x s' \<or> flush_on 16777216 s x s')) demo_front ([] @ [7, 0, 0]) ([] @ [7, 0]) s''"
    by (rule stream_get, rule stream_put, rule stream_start, rule arr, rule get)
  then show ?thesis using session_downstream[OF run demo_front_inv]
    by (auto simp: down_stream_def[of _ demo_front] demo_front_simps demo_session_def)
qed

end
