(* ===== verification/FEngineInv.thy ===== *)
theory FEngineInv
  imports FStream
begin

unbundle bit_operations_syntax

text \<open>
  Rounds of the engine: every message in the receive queue is taken and handled, data messages reach
  the stream of their session, and every session that is waiting is served until the transmit queue is full.
\<close>

subsection \<open>Reading a message\<close>

definition block_word :: "u8 list \<Rightarrow> nat \<Rightarrow> u16" where
  "block_word b k = ucast (b ! k) OR push_bit 8 (ucast (b ! Suc k))"

lemma block_payload_word: "block_payload b = take (unat (block_word b 6)) (drop 8 b)"
  by (simp add: block_payload_def block_word_def numeral_eq_Suc)

lemma read_u16_block:
  assumes "bytes_at m a n = b" "k + 2 \<le> n"
  shows "read_u16 m (fld a k) = block_word b k"
proof -
  have "m (fld a k) = b ! k" "m (fld a k + 1) = b ! Suc k"
    using assms by (auto simp: fld_def add.assoc add.commute[of 1])
  then show ?thesis by (simp add: read_le_def block_word_def upt_rec numeral_2_eq_2)
qed

lemma byte_block: "bytes_at m a n = b \<Longrightarrow> k < n \<Longrightarrow> m (fld a k) = b ! k"
  by (auto simp: fld_def)

text \<open>A data message whose length field stays within the block.\<close>

definition data_msg :: "u8 list \<Rightarrow> bool" where
  "data_msg b \<longleftrightarrow> 8 \<le> length b \<and> b ! 1 = PROXY_MSG_TYPE_DATA \<and> 8 + unat (block_word b 6) \<le> length b"

lemma valid_checks: "PROXY_MSG_LEN_VALID x" "APP_SESSION_ID_VALID i" "PROXY_MSG_TYPE_VALID PROXY_MSG_TYPE_DATA"
  by (auto simp: PROXY_MSG_LEN_VALID_def APP_SESSION_ID_VALID_def PROXY_MSG_TYPE_VALID_def word_le_nat_alt
      order.trans[OF less_imp_le[OF unsigned_less[of x, where 'a = nat]]])

lemma data_msg_dispatch:
  assumes "bytes_at (fe_mem s) msg (length b) = b" "data_msg b"
  shows "frontend_proxy_msg_process cbs msg s =
    map_option (\<lambda>(_, s). (FRONTEND_PROXY_PROCESS_OK, s)) (frontend_proxy_data_msg_prosess (block_word b 2) (block_word b 6) (fld msg 8) s)"
proof -
  have len: "8 \<le> length b" using assms(2) by (simp add: data_msg_def)
  have "fe_mem s (fld msg 1) = PROXY_MSG_TYPE_DATA" using byte_block[OF assms(1), of 1] assms(2) by (simp add: data_msg_def)
  moreover have "read_u16 (fe_mem s) (fld msg 2) = block_word b 2" "read_u16 (fe_mem s) (fld msg 6) = block_word b 6"
    using read_u16_block[OF assms(1)] len by simp_all
  ultimately show ?thesis by (simp add: frontend_proxy_msg_process_def valid_checks Let_def)
qed

lemma payload_at:
  assumes "bytes_at m msg (length b) = b" "data_msg b"
  shows "bytes_at m (fld msg 8) (unat (block_word b 6)) = block_payload b"
  using bytes_at_sub[of 8 "unat (block_word b 6)" "length b" m msg] assms
  by (simp add: data_msg_def block_payload_word fld_def)

subsection \<open>The receive queue\<close>

abbreviation rx_list :: "'a frontend \<Rightarrow> u8 list list" where
  "rx_list s \<equiv> queue_list (fe_mem s) (hyper_rx_queue s) (hyper_data_region s)"

abbreviation rx_block_size :: "'a frontend \<Rightarrow> nat" where
  "rx_block_size s \<equiv> unat (q_block_size (fe_mem s) (hyper_rx_queue s))"

text \<open>
  The receive queue is well formed and unlocked, the local buffers of the engine are apart from it and
  from the transmit queue, and so is its control block from the transmit queue.
\<close>

definition rx_ready :: "'a frontend \<Rightarrow> bool" where
  "rx_ready s \<longleftrightarrow>
     shm_inv (hyper_rx_queue s) (hyper_data_region s) (fe_mem s) \<and> hyper_data_region s \<noteq> 0 \<and> l_block_size s \<noteq> 0 \<and>
     recv_bufs (fe_mem s) (hyper_rx_queue s) (hyper_data_region s) (l_msg_buf s) (rx_block_size s) (l_block_size s) \<and>
     rx_block_size s \<le> 4096 \<and> apart (hyper_rx_queue s) SIZEOF_queue (global_amp_tx_buf s) HYPERAMP_MSG_HDR_PLUS_MAX_SIZE \<and>
     outside (fe_mem s) (hyper_tx_queue s) (hyper_data_region s) (hyper_rx_queue s) SIZEOF_queue \<and>
     outside (fe_mem s) (hyper_tx_queue s) (hyper_data_region s) (l_msg_buf s) (rx_block_size s) \<and>
     outside (fe_mem s) (hyper_tx_queue s) (hyper_data_region s) (l_block_size s) 8"

lemma tx_untouched:
  assumes "front_inv s"
    and same: "bytes_at m' (hyper_tx_queue s) SIZEOF_queue = bytes_at (fe_mem s) (hyper_tx_queue s) SIZEOF_queue"
      "bytes_at m' (slot (hyper_data_region s) (tx_block_size s) 0) (unat (q_capacity (fe_mem s) (hyper_tx_queue s)) * tx_block_size s) =
       bytes_at (fe_mem s) (slot (hyper_data_region s) (tx_block_size s) 0) (unat (q_capacity (fe_mem s) (hyper_tx_queue s)) * tx_block_size s)"
  shows "front_inv (s\<lparr>fe_mem := m'\<rparr>)" "q_block_size m' (hyper_tx_queue s) = q_block_size (fe_mem s) (hyper_tx_queue s)"
    "q_capacity m' (hyper_tx_queue s) = q_capacity (fe_mem s) (hyper_tx_queue s)"
    "queue_list m' (hyper_tx_queue s) (hyper_data_region s) = tx_list s"
proof -
  have inv: "shm_inv (hyper_tx_queue s) (hyper_data_region s) (fe_mem s)"
    using assms(1) by (simp add: front_inv_def front_ready_def tx_ready_def)
  have "shm_idle (hyper_tx_queue s) (hyper_data_region s) (fe_mem s) m'" using same by (simp add: shm_idle_def)
  note law = shm_idle_law[OF inv this]
  show f: "q_block_size m' (hyper_tx_queue s) = q_block_size (fe_mem s) (hyper_tx_queue s)"
    "q_capacity m' (hyper_tx_queue s) = q_capacity (fe_mem s) (hyper_tx_queue s)"
    by (simp_all add: read_fld_same[OF same(1)])
  show "queue_list m' (hyper_tx_queue s) (hyper_data_region s) = tx_list s" using law by simp
  have "peer_step s (s\<lparr>fe_mem := m'\<rparr>)"
    using assms(1) law f by (auto simp: peer_step_def front_ready_def tx_ready_def outside_def front_inv_def)
  then show "front_inv (s\<lparr>fe_mem := m'\<rparr>)" using other_step_law[OF assms(1)] by (auto simp: other_step_def)
qed

lemma rx_get_unfold:
  assumes "rx_ready s"
  shows "frontend_engine_hyperamp_rx_queue_get s =
    (if rx_list s = []
     then Some (FRONTEND_PROXY_PROCESS_AGAIN, s\<lparr>fe_mem := unlocked (locked (fe_mem s) (hyper_rx_queue s) HYPERAMP_ZONE_ID_SEL4) (hyper_rx_queue s)\<rparr>)
     else Some (FRONTEND_PROXY_PROCESS_OK, s\<lparr>fe_mem := dequeued (fe_mem s) (hyper_rx_queue s) HYPERAMP_ZONE_ID_SEL4 (l_msg_buf s)
             (read_len (fe_mem s) (hyper_rx_queue s) 4096) (l_block_size s) (hyper_data_region s)\<rparr>))"
proof -
  let ?m = "fe_mem s" and ?q = "hyper_rx_queue s" and ?vb = "hyper_data_region s"
  have wf: "queue_wf ?m ?q ?vb" "q_lock_value ?m ?q = 0" using assms by (auto simp: rx_ready_def shm_inv_def)
  have "unat (read_len ?m ?q 4096) = rx_block_size s" using assms by (simp add: unat_read_len rx_ready_def)
  then have bufs: "recv_bufs ?m ?q ?vb (l_msg_buf s) (unat (read_len ?m ?q 4096)) (l_block_size s)"
    using assms by (simp add: rx_ready_def)
  have "?q \<noteq> 0" "l_msg_buf s \<noteq> 0" using wf(1) bufs by (auto simp: queue_wf_def layout_ok_def recv_bufs_def)
  moreover have "rx_list s = [] \<longleftrightarrow> queue_len ?m ?q = 0" by (metis length_queue_list length_0_conv)
  ultimately show ?thesis
    using dequeue_mem[OF wf _ bufs, of HYPERAMP_ZONE_ID_SEL4] assms
    by (simp add: frontend_engine_hyperamp_rx_queue_get_def rx_ready_def)
qed

lemma rx_again:
  assumes "front_inv s" "rx_ready s" "rx_list s = []"
  shows "\<exists>m'. frontend_engine_hyperamp_rx_queue_get s = Some (FRONTEND_PROXY_PROCESS_AGAIN, s\<lparr>fe_mem := m'\<rparr>) \<and>
    front_inv (s\<lparr>fe_mem := m'\<rparr>) \<and> rx_ready (s\<lparr>fe_mem := m'\<rparr>) \<and> rx_list (s\<lparr>fe_mem := m'\<rparr>) = [] \<and> tx_list (s\<lparr>fe_mem := m'\<rparr>) = tx_list s"
proof -
  let ?m' = "unlocked (locked (fe_mem s) (hyper_rx_queue s) HYPERAMP_ZONE_ID_SEL4) (hyper_rx_queue s)"
  have out: "outside (fe_mem s) (hyper_tx_queue s) (hyper_data_region s) (hyper_rx_queue s) SIZEOF_queue"
    using assms(2) by (simp add: rx_ready_def)
  have wf: "queue_wf (fe_mem s) (hyper_rx_queue s) (hyper_data_region s)" using assms(2) by (simp add: rx_ready_def shm_inv_def)
  note u = unlocked_locked[OF wf, of HYPERAMP_ZONE_ID_SEL4]
  have tx: "front_inv (s\<lparr>fe_mem := ?m'\<rparr>)" "q_block_size ?m' (hyper_tx_queue s) = q_block_size (fe_mem s) (hyper_tx_queue s)"
    "q_capacity ?m' (hyper_tx_queue s) = q_capacity (fe_mem s) (hyper_tx_queue s)"
    "queue_list ?m' (hyper_tx_queue s) (hyper_data_region s) = tx_list s"
    by (rule tx_untouched[OF assms(1)]; rule unlocked_locked_bytes; use out in \<open>auto simp: outside_def intro: apart_sym\<close>)+
  have f: "q_capacity ?m' (hyper_rx_queue s) = q_capacity (fe_mem s) (hyper_rx_queue s)"
    "q_block_size ?m' (hyper_rx_queue s) = q_block_size (fe_mem s) (hyper_rx_queue s)"
    using queue_wf_fits[OF wf] by (simp_all add: unlocked_def locked_def mem_simps)
  have "rx_ready (s\<lparr>fe_mem := ?m'\<rparr>)"
    using assms(2) u(1,2) f tx(2,3) by (simp add: rx_ready_def shm_inv_def recv_bufs_def outside_def)
  moreover have "rx_list (s\<lparr>fe_mem := ?m'\<rparr>) = []" using assms(3) u(3) by simp
  ultimately show ?thesis using rx_get_unfold[OF assms(2)] assms(3) tx(1,4) by (intro exI[of _ ?m']) simp
qed

lemma rx_take:
  assumes "front_inv s" "rx_ready s" "rx_list s = x # xs"
  shows "\<exists>m'. frontend_engine_hyperamp_rx_queue_get s = Some (FRONTEND_PROXY_PROCESS_OK, s\<lparr>fe_mem := m'\<rparr>) \<and>
    front_inv (s\<lparr>fe_mem := m'\<rparr>) \<and> rx_ready (s\<lparr>fe_mem := m'\<rparr>) \<and> rx_list (s\<lparr>fe_mem := m'\<rparr>) = xs \<and>
    tx_list (s\<lparr>fe_mem := m'\<rparr>) = tx_list s \<and> bytes_at m' (l_msg_buf s) (length x) = x"
proof -
  let ?m = "fe_mem s" and ?q = "hyper_rx_queue s" and ?vb = "hyper_data_region s" and ?tx = "hyper_tx_queue s"
  let ?l = "read_len ?m ?q 4096"
  let ?m' = "dequeued ?m ?q HYPERAMP_ZONE_ID_SEL4 (l_msg_buf s) ?l (l_block_size s) ?vb"
  have wf: "queue_wf ?m ?q ?vb" "q_lock_value ?m ?q = 0" using assms by (auto simp: rx_ready_def shm_inv_def)
  have l: "unat ?l = rx_block_size s" using assms by (simp add: unat_read_len rx_ready_def)
  then have bufs: "recv_bufs ?m ?q ?vb (l_msg_buf s) (unat ?l) (l_block_size s)"
    using assms by (simp add: rx_ready_def)
  have ne: "queue_len ?m ?q \<noteq> 0" using assms(3) length_queue_list[of ?m ?q ?vb] by simp
  have lst: "x = bytes_at ?m (slot ?vb (rx_block_size s) (unat (q_tail ?m ?q))) (rx_block_size s)" "queue_list ?m' ?q ?vb = xs"
    using dequeued_list[OF wf(1) bufs ne, of HYPERAMP_ZONE_ID_SEL4] assms(3) by simp_all
  have out: "outside ?m ?tx ?vb ?q SIZEOF_queue" "outside ?m ?tx ?vb (l_msg_buf s) (unat ?l)" "outside ?m ?tx ?vb (l_block_size s) 8"
    using assms(2) l by (simp_all add: rx_ready_def)
  have tx: "front_inv (s\<lparr>fe_mem := ?m'\<rparr>)" "q_block_size ?m' ?tx = q_block_size ?m ?tx" "q_capacity ?m' ?tx = q_capacity ?m ?tx"
    "queue_list ?m' ?tx ?vb = tx_list s"
    by (rule tx_untouched[OF assms(1)]; rule dequeued_bytes; use out in \<open>auto simp: outside_def intro: apart_sym\<close>)+
  note f = dequeued_fields[OF wf(1) bufs, of HYPERAMP_ZONE_ID_SEL4]
  have "rx_ready (s\<lparr>fe_mem := ?m'\<rparr>)"
    using assms(2) f(3-5) dequeued_wf[OF wf(1) bufs] tx(2,3) by (simp add: rx_ready_def shm_inv_def recv_bufs_def outside_def)
  moreover have "bytes_at ?m' (l_msg_buf s) (length x) = x"
    using dequeued_data(1)[OF wf(1) bufs read_len_le, of HYPERAMP_ZONE_ID_SEL4] l lst(1) by simp
  ultimately show ?thesis using rx_get_unfold[OF assms(2)] assms(3) tx(1,4) lst(2) by (intro exI[of _ ?m']) simp
qed

subsection \<open>Receiving everything\<close>

text \<open>
  The pool: every identifier and every session is in the table once, the session has that identifier, and
  only sessions of the table are in a queue, once.
\<close>

definition pool_ok :: "'a frontend \<Rightarrow> bool" where
  "pool_ok s \<longleftrightarrow> distinct (map fst (htable (pool s))) \<and> distinct (map snd (htable (pool s))) \<and>
     (\<forall>(i, a) \<in> set (htable (pool s)). \<exists>t. sessions s a = Some t \<and> frontend_sess_id t = i) \<and>
     distinct (queue_f2b (pool s)) \<and> distinct (queue_b2f (pool s)) \<and>
     set (queue_f2b (pool s)) \<subseteq> snd ` set (htable (pool s)) \<and> set (queue_b2f (pool s)) \<subseteq> snd ` set (htable (pool s))"

lemma search_in: "frontend_high_speed_search_sess s i = Some a \<Longrightarrow> (i, a) \<in> set (htable (pool s))"
  by (simp add: frontend_high_speed_search_sess_def map_of_SomeD)

lemma pool_search:
  assumes "pool_ok s"
  shows "frontend_high_speed_search_sess s i = Some a \<longleftrightarrow> (i, a) \<in> set (htable (pool s))"
    "(i, a) \<in> set (htable (pool s)) \<Longrightarrow> \<exists>t. sessions s a = Some t \<and> frontend_sess_id t = i"
    "(i, a) \<in> set (htable (pool s)) \<Longrightarrow> (j, a) \<in> set (htable (pool s)) \<Longrightarrow> i = j"
  using assms by (auto simp: pool_ok_def frontend_high_speed_search_sess_def distinct_map dest: inj_onD[of snd _ "(i, a)" "(j, a)"])

lemma pool_queued:
  assumes "pool_ok s"
  shows "x \<in> set (queue_f2b (pool s)) \<Longrightarrow> x \<in> snd ` set (htable (pool s))" "x \<in> set (queue_b2f (pool s)) \<Longrightarrow> x \<in> snd ` set (htable (pool s))"
  using assms by (auto simp: pool_ok_def)

text \<open>What a round never changes.\<close>

definition same_env :: "'a frontend \<Rightarrow> 'a frontend \<Rightarrow> bool" where
  "same_env s s' \<longleftrightarrow> hyper_rx_queue s' = hyper_rx_queue s \<and> hyper_tx_queue s' = hyper_tx_queue s \<and>
     hyper_data_region s' = hyper_data_region s \<and> global_amp_tx_buf s' = global_amp_tx_buf s \<and> l_msg_buf s' = l_msg_buf s \<and>
     l_block_size s' = l_block_size s \<and> malloc_result s' = malloc_result s \<and> htable (pool s') = htable (pool s)"

lemma same_env_trans: "same_env s s' \<Longrightarrow> same_env s' s'' \<Longrightarrow> same_env s s''"
  by (simp add: same_env_def)

lemma only_session_env: "only_session a t' s s' \<Longrightarrow> same_env s s'"
  by (simp add: only_session_def same_env_def)

lemma only_session_pool:
  assumes "pool_ok s" "sessions s a = Some t" "a \<in> snd ` set (htable (pool s))" "only_session a t' s s'"
  shows "pool_ok s'"
proof -
  have sub: "set q' \<subseteq> T" if "set q' - {a} = set q - {a}" "set q \<subseteq> T" "a \<in> T" for q q' :: "addr list" and T
    using that by blast
  have q: "set (queue_f2b (pool s')) \<subseteq> snd ` set (htable (pool s))"
    by (rule sub[of _ "queue_f2b (pool s)"]) (use assms(1,3,4) in \<open>simp_all add: pool_ok_def only_session_def\<close>)
  have q': "set (queue_b2f (pool s')) \<subseteq> snd ` set (htable (pool s))"
    by (rule sub[of _ "queue_b2f (pool s)"]) (use assms(1,3,4) in \<open>simp_all add: pool_ok_def only_session_def\<close>)
  have "\<exists>u. sessions s' b = Some u \<and> frontend_sess_id u = i" if "(i, b) \<in> set (htable (pool s))" for i b
    using pool_search(2)[OF assms(1) that] assms(2,4) by (cases "b = a") (auto simp: only_session_def)
  then have "\<forall>(i, b) \<in> set (htable (pool s)). \<exists>u. sessions s' b = Some u \<and> frontend_sess_id u = i" by blast
  moreover have "htable (pool s') = htable (pool s)" "distinct (queue_f2b (pool s'))" "distinct (queue_b2f (pool s'))"
    using assms(1,4) by (simp_all add: pool_ok_def only_session_def)
  ultimately show ?thesis using assms(1) q q' unfolding pool_ok_def by simp
qed

text \<open>The payloads of the messages for a session identifier.\<close>

definition payloads_for :: "u16 \<Rightarrow> u8 list list \<Rightarrow> u8 list" where
  "payloads_for i bs = concat (map block_payload (filter (\<lambda>b. block_word b 2 = i) bs))"

lemma payloads_for_simps [simp]: "payloads_for i [] = []" "payloads_for i (bs @ bs') = payloads_for i bs @ payloads_for i bs'"
  by (simp_all add: payloads_for_def)

lemma payloads_for_Cons: "payloads_for i (b # bs) = payloads_for i [b] @ payloads_for i bs"
  by (simp add: payloads_for_def)

lemma data_msg_step:
  assumes "front_inv s" "pool_ok s" "bytes_at (fe_mem s) msg (length b) = b" "data_msg b" "\<forall>i. malloc_result s i \<noteq> 0"
  shows "\<exists>s'. frontend_proxy_msg_process cbs msg s = Some (FRONTEND_PROXY_PROCESS_OK, s') \<and>
    front_inv s' \<and> fe_mem s' = fe_mem s \<and> same_env s s' \<and> pool_ok s' \<and> app s' = app s \<and> queue_f2b (pool s') = queue_f2b (pool s) \<and>
    (\<forall>i a. (i, a) \<in> set (htable (pool s)) \<longrightarrow> down_stream a s' = down_stream a s @ payloads_for i [b] \<and> up_stream a s' = up_stream a s)"
proof (cases "frontend_high_speed_search_sess s (block_word b 2)")
  case None
  then have "frontend_proxy_data_msg_prosess (block_word b 2) (block_word b 6) (fld msg 8) s = Some (FRONTEND_PROXY_PROCESS_ERROR, s)"
    by (simp add: frontend_proxy_data_msg_prosess_def)
  moreover have "payloads_for i [b] = []" if "(i, a) \<in> set (htable (pool s))" for i a
    using that None pool_search(1)[OF assms(2), of i a] by (auto simp: payloads_for_def)
  ultimately show ?thesis using assms(1,2) data_msg_dispatch[OF assms(3,4), of cbs]
    by (intro exI[of _ s]) (auto simp: same_env_def)
next
  case (Some a)
  note ia = search_in[OF Some]
  then obtain t where t: "sessions s a = Some t" using pool_search(2)[OF assms(2)] by blast
  obtain s' t' where d: "frontend_proxy_data_msg_prosess (block_word b 2) (block_word b 6) (fld msg 8) s = Some (FRONTEND_PROXY_PROCESS_OK, s')"
    "only_session a t' s s'" "msg_f2b t' = msg_f2b t" "fe_mem s' = fe_mem s"
    "seg_stream (msg_b2f t') = seg_stream (msg_b2f t) @ block_payload b" "queue_f2b (pool s') = queue_f2b (pool s)"
    using data_step[OF assms(1) t Some, of "block_word b 6" "fld msg 8"] assms(5) payload_at[OF assms(3,4)] by auto
  have other: "down_stream a' s' = down_stream a' s @ payloads_for i [b] \<and> up_stream a' s' = up_stream a' s"
    if i: "(i, a') \<in> set (htable (pool s))" for i a'
  proof (cases "a' = a")
    case True
    then have "i = block_word b 2" using pool_search(3)[OF assms(2)] i ia by blast
    then show ?thesis using True only_session_streams[OF d(2)] d(3,5) t
      by (simp add: payloads_for_def up_stream_def[of _ s] down_stream_def[of _ s])
  next
    case False
    then have "i \<noteq> block_word b 2" using i Some pool_search(1)[OF assms(2), of i a'] by auto
    then show ?thesis using stream_cong[OF only_session_streams(3)[OF d(2) False]] by (auto simp: payloads_for_def)
  qed
  have "snd (block_word b 2, a) \<in> snd ` set (htable (pool s))" using ia by (rule imageI)
  then have "pool_ok s'" using only_session_pool[OF assms(2) t _ d(2)] by simp
  moreover have "app s' = app s" using d(2) by (simp add: only_session_def)
  ultimately show ?thesis
    using data_msg_dispatch[OF assms(3,4), of cbs] d other only_session_inv[OF assms(1) t d(2)] only_session_env[OF d(2)]
    by (intro exI[of _ s']) auto
qed

lemma rx_ready_cong: "rx_ready s \<Longrightarrow> fe_mem s' = fe_mem s \<Longrightarrow> same_env s s' \<Longrightarrow> rx_ready s'"
  by (simp add: rx_ready_def same_env_def)

lemma step1_receives:
  assumes "front_inv s" "rx_ready s" "pool_ok s" "\<forall>i. malloc_result s i \<noteq> 0" "rx_list s = bs" "list_all data_msg bs"
  shows "\<exists>s'. eng_run_step1 cbs s = Some (False, s') \<and> front_inv s' \<and> rx_ready s' \<and> rx_list s' = [] \<and> tx_list s' = tx_list s \<and>
    pool_ok s' \<and> same_env s s' \<and> app s' = app s \<and> queue_f2b (pool s') = queue_f2b (pool s) \<and>
    (\<forall>i a. (i, a) \<in> set (htable (pool s)) \<longrightarrow> down_stream a s' = down_stream a s @ payloads_for i bs \<and> up_stream a s' = up_stream a s)"
  using assms
proof (induction bs arbitrary: s)
  case Nil
  obtain m' where "frontend_engine_hyperamp_rx_queue_get s = Some (FRONTEND_PROXY_PROCESS_AGAIN, s\<lparr>fe_mem := m'\<rparr>)"
    "front_inv (s\<lparr>fe_mem := m'\<rparr>)" "rx_ready (s\<lparr>fe_mem := m'\<rparr>)" "rx_list (s\<lparr>fe_mem := m'\<rparr>) = []" "tx_list (s\<lparr>fe_mem := m'\<rparr>) = tx_list s"
    using rx_again[OF Nil(1,2,5)] by blast
  then show ?case using Nil(3)
    by (subst eng_run_step1.simps, intro exI[of _ "s\<lparr>fe_mem := m'\<rparr>"])
       (simp add: pool_ok_def same_env_def up_stream_def down_stream_def)
next
  case (Cons b bs)
  obtain m' where g: "frontend_engine_hyperamp_rx_queue_get s = Some (FRONTEND_PROXY_PROCESS_OK, s\<lparr>fe_mem := m'\<rparr>)"
    "front_inv (s\<lparr>fe_mem := m'\<rparr>)" "rx_ready (s\<lparr>fe_mem := m'\<rparr>)" "rx_list (s\<lparr>fe_mem := m'\<rparr>) = bs"
    "tx_list (s\<lparr>fe_mem := m'\<rparr>) = tx_list s" "bytes_at m' (l_msg_buf s) (length b) = b"
    using rx_take[OF Cons.prems(1,2,5)] by blast
  let ?s = "s\<lparr>fe_mem := m'\<rparr>"
  have "pool_ok ?s" "data_msg b" using Cons.prems(3,6) by (simp_all add: pool_ok_def)
  then obtain s1 where s1: "frontend_proxy_msg_process cbs (l_msg_buf s) ?s = Some (FRONTEND_PROXY_PROCESS_OK, s1)"
    "front_inv s1" "fe_mem s1 = m'" "same_env ?s s1" "pool_ok s1" "app s1 = app s" "queue_f2b (pool s1) = queue_f2b (pool s)"
    "\<And>i a. (i, a) \<in> set (htable (pool s)) \<Longrightarrow> down_stream a s1 = down_stream a ?s @ payloads_for i [b] \<and> up_stream a s1 = up_stream a ?s"
    using data_msg_step[OF g(2), of "l_msg_buf s" b cbs] g(6) Cons.prems(4) by auto
  have step: "eng_run_step1 cbs s = eng_run_step1 cbs s1"
    by (subst eng_run_step1.simps) (simp add: g(1) s1(1))
  have env: "same_env s s1" using s1(4) by (simp add: same_env_def)
  have "rx_ready s1" using s1(3,4) by (intro rx_ready_cong[OF g(3)]) simp_all
  moreover have "rx_list s1 = bs" "tx_list s1 = tx_list s" using g(4,5) s1(3) env by (simp_all add: same_env_def)
  moreover have "\<forall>i. malloc_result s1 i \<noteq> 0" "list_all data_msg bs" using env Cons.prems(4,6) by (simp_all add: same_env_def)
  ultimately obtain s' where s': "eng_run_step1 cbs s1 = Some (False, s')" "front_inv s'" "rx_ready s'" "rx_list s' = []" "tx_list s' = tx_list s"
    "pool_ok s'" "same_env s1 s'" "app s' = app s1" "queue_f2b (pool s') = queue_f2b (pool s1)"
    "\<And>i a. (i, a) \<in> set (htable (pool s1)) \<Longrightarrow> down_stream a s' = down_stream a s1 @ payloads_for i bs \<and> up_stream a s' = up_stream a s1"
    using Cons.IH[OF s1(2) _ s1(5)] by metis
  have "down_stream a s' = down_stream a s @ payloads_for i (b # bs) \<and> up_stream a s' = up_stream a s"
    if "(i, a) \<in> set (htable (pool s))" for i a
    using s'(10)[of i a] s1(8)[of i a] that env stream_cong[of ?s a s] by (simp add: payloads_for_Cons[of i b bs] same_env_def)
  then show ?case using s' s1(6,7) step same_env_trans[OF env s'(7)] by auto
qed

subsection \<open>Serving everything\<close>

lemma data_block_word: "block_word (data_block fsid bsid bs @ rest) 2 = fsid"
  by (simp add: block_word_def data_block_def le16_def le16_join)

lemma carries_word: "list_all2 (carries fsid bsid) segs bs \<Longrightarrow> \<forall>b \<in> set bs. block_word b 2 = fsid"
  by (induction rule: list_all2_induct) (auto simp: carries_def data_block_word)

lemma carries_payloads_for:
  assumes "list_all2 (carries fsid bsid) segs bs" "list_all seg_ok segs"
  shows "payloads_for i bs = (if i = fsid then seg_stream segs else [])"
proof -
  have "filter (\<lambda>b. block_word b 2 = i) bs = (if i = fsid then bs else [])" using carries_word[OF assms(1)] by (auto simp: filter_id_conv filter_empty_conv)
  then show ?thesis using carries_payload[OF assms] by (simp add: payloads_for_def)
qed

lemma tailq_next_app: "distinct (pre @ x # rest) \<Longrightarrow> tailq_next (pre @ x # rest) x = Some (tailq_first rest)"
  unfolding tailq_next_def by (subst dropWhile_append2) auto

lemma linked_clear [simp]: "\<not> linked (st AND - 2)"
  using linked_marks(2)[of st] by simp

text \<open>The rest of the work of a round for a session that was served completely.\<close>

lemma unlink_step:
  assumes "front_inv s" "pool_ok s" "sessions s x = Some t" "x \<in> set (queue_f2b (pool s))"
  defines "t' \<equiv> t\<lparr>state_f2b := state_f2b t AND NOT FRONTEND_SESS_LINKED_TO_QUEUE\<rparr>"
  shows "only_session x t' s (s\<lparr>pool := (pool s)\<lparr>queue_f2b := remove1 x (queue_f2b (pool s))\<rparr>, sessions := (sessions s)(x \<mapsto> t')\<rparr>)"
proof -
  have "distinct (queue_f2b (pool s))" using assms(2) by (simp add: pool_ok_def)
  then show ?thesis
    using front_invD[OF assms(1,3)] assms(3) by (auto simp: only_session_def front_ready_def link_ok_def sess_ok_def t'_def)
qed

lemma only_session_upd: "only_session a t' s s' \<Longrightarrow> only_session a t'' s' s'' \<Longrightarrow> only_session a t'' s s''"
  unfolding only_session_def by (elim conjE) simp

lemma f2b_body_effect:
  assumes "front_inv s" "pool_ok s" "sessions s x = Some t" "x \<in> set (queue_f2b (pool s))"
  shows "\<exists>s' bs t'. f2b_body cbs x s = Some s' \<and> only_session x t' s s' \<and> msg_b2f t' = msg_b2f t \<and>
    tx_list s' = tx_list s @ bs \<and> front_kept s (fe_mem s') \<and> tx_room s' = tx_room s - length bs \<and>
    (if length (msg_f2b t) \<le> tx_room s then queue_f2b (pool s') = remove1 x (queue_f2b (pool s)) \<and> msg_f2b t' = []
     else queue_f2b (pool s') = queue_f2b (pool s) \<and> tx_room s' = 0) \<and> (\<forall>b \<in> set bs. block_word b 2 = frontend_sess_id t) \<and>
    (\<forall>i. payloads_for i bs = (if i = frontend_sess_id t then concat (map block_payload bs) else [])) \<and>
    seg_stream (msg_f2b t) = concat (map block_payload bs) @ seg_stream (msg_f2b t') \<and> queue_b2f (pool s') = queue_b2f (pool s)"
proof -
  let ?t = "t\<lparr>msg_f2b := drop (tx_room s) (msg_f2b t)\<rparr>"
  obtain s1 bs where f: "frontend_high_speed_data_process_f2b x s =
      Some (if length (msg_f2b t) \<le> tx_room s then FRONTEND_PROXY_PROCESS_OK else FRONTEND_PROXY_PROCESS_AGAIN, s1)"
    "only_session x ?t s s1" "tx_list s1 = tx_list s @ bs"
    "list_all2 (carries (frontend_sess_id t) (backend_sess_id t)) (take (tx_room s) (msg_f2b t)) bs"
    "pool s1 = pool s" "front_kept s (fe_mem s1)"
    using flush_step[OF assms(1,3)] by blast
  have ok: "list_all seg_ok (take (tx_room s) (msg_f2b t))"
    using front_invD(3)[OF assms(1,3)] by (auto simp: sess_ok_def segs_fit_def list_all_iff dest: in_set_takeD)
  have pay: "concat (map block_payload bs) = seg_stream (take (tx_room s) (msg_f2b t))"
    "payloads_for i bs = (if i = frontend_sess_id t then concat (map block_payload bs) else [])" for i
    using carries_payload[OF f(4) ok] carries_payloads_for[OF f(4) ok] by simp_all
  have bw: "\<forall>b \<in> set bs. block_word b 2 = frontend_sess_id t" using carries_word[OF f(4)] .
  have split: "seg_stream (msg_f2b t) = concat (map block_payload bs) @ seg_stream (drop (tx_room s) (msg_f2b t))"
    unfolding pay(1) by (metis append_take_drop_id seg_stream_simps(3))
  have env: "hyper_tx_queue s1 = hyper_tx_queue s" "hyper_data_region s1 = hyper_data_region s" using f(2) by (simp_all add: only_session_def)
  have "queue_list (fe_mem s1) (hyper_tx_queue s) (hyper_data_region s) = tx_list s @ bs" using f(3) env by simp
  from front_kept_room[OF f(6) this] have room: "tx_room s1 = tx_room s - length bs" by (simp add: tx_room_def env)
  have len: "length bs = min (tx_room s) (length (msg_f2b t))" using list_all2_lengthD[OF f(4)] by simp
  note inv1 = only_session_inv[OF assms(1,3) f(2)]
  show ?thesis
  proof (cases "length (msg_f2b t) \<le> tx_room s")
    case True
    let ?t' = "?t\<lparr>state_f2b := state_f2b ?t AND NOT FRONTEND_SESS_LINKED_TO_QUEUE\<rparr>"
    let ?s' = "s1\<lparr>pool := (pool s1)\<lparr>queue_f2b := remove1 x (queue_f2b (pool s1))\<rparr>, sessions := (sessions s1)(x \<mapsto> ?t')\<rparr>"
    have s1: "sessions s1 x = Some ?t" using f(2) by (simp add: only_session_def)
    have p1: "pool_ok s1" using only_session_pool[OF assms(2,3) pool_queued(1)[OF assms(2,4)] f(2)] .
    have "f2b_body cbs x s = Some ?s'"
      using f(1,5) s1 True assms(4) by (simp add: f2b_body_def tailq_remove_def upd_pool_def upd_sess_def)
    moreover have "only_session x ?t' s ?s'"
      using only_session_upd[OF f(2) unlink_step[OF inv1 p1 s1]] f(5) assms(4) by simp
    moreover have "tx_list ?s' = tx_list s @ bs" "tx_room ?s' = tx_room s - length bs" using f(3) room by (simp_all add: tx_room_def)
    moreover have "seg_stream (msg_f2b t) = concat (map block_payload bs) @ seg_stream (msg_f2b ?t')" using split by simp
    moreover have "msg_b2f ?t' = msg_b2f t" by simp
    ultimately show ?thesis using True f(5,6) pay(2) bw
      by (intro exI[of _ ?s'] exI[of _ bs] exI[of _ ?t']) simp
  next
    case False
    then have "f2b_body cbs x s = Some s1" using f(1) by (simp add: f2b_body_def)
    then show ?thesis using False f room len split pay(2) bw by (intro exI[of _ s1] exI[of _ bs] exI[of _ ?t]) simp
  qed
qed

text \<open>What serving does to the streams of all sessions.\<close>

definition served :: "'a frontend \<Rightarrow> u8 list list \<Rightarrow> 'a frontend \<Rightarrow> bool" where
  "served s bs s' \<longleftrightarrow> front_inv s' \<and> pool_ok s' \<and> same_env s s' \<and> tx_list s' = tx_list s @ bs \<and> front_kept s (fe_mem s') \<and>
     tx_room s' = tx_room s - length bs \<and> app s' = app s \<and> (\<forall>b \<in> set bs. block_word b 2 \<in> fst ` set (htable (pool s))) \<and>
     (\<forall>i a. (i, a) \<in> set (htable (pool s)) \<longrightarrow> up_stream a s = payloads_for i bs @ up_stream a s' \<and> down_stream a s' = down_stream a s)"

lemma served_refl: "front_inv s \<Longrightarrow> pool_ok s \<Longrightarrow> served s [] s"
  by (simp add: served_def same_env_def front_kept_def front_inv_def front_ready_def tx_kept_refl)

lemma served_trans:
  assumes "served s bs s1" "served s1 cs s2"
  shows "served s (bs @ cs) s2"
proof -
  have env: "same_env s s1" "same_env s1 s2" using assms by (simp_all add: served_def)
  have "front_kept s (fe_mem s2)"
    using assms env tx_kept_trans[of "fe_mem s" "fe_mem s1" _ _ _ "fe_mem s2"]
    by (simp add: served_def front_kept_def same_env_def)
  moreover have "tx_list s1 = tx_list s @ bs" "tx_list s2 = tx_list s1 @ cs" using assms by (simp_all only: served_def)
  then have "tx_list s2 = tx_list s @ bs @ cs" by simp
  moreover
  have "up_stream a s = payloads_for i (bs @ cs) @ up_stream a s2 \<and> down_stream a s2 = down_stream a s"
    if "(i, a) \<in> set (htable (pool s))" for i a
    using assms env(1) that by (auto simp: served_def same_env_def)
  moreover have "\<forall>b \<in> set (bs @ cs). block_word b 2 \<in> fst ` set (htable (pool s))"
    using assms env(1) by (auto simp: served_def same_env_def)
  ultimately show ?thesis using assms same_env_trans[OF env] by (simp add: served_def)
qed

lemma f2b_body_served:
  assumes "front_inv s" "pool_ok s" "x \<in> set (queue_f2b (pool s))"
  shows "\<exists>s' bs. f2b_body cbs x s = Some s' \<and> served s bs s' \<and> queue_b2f (pool s') = queue_b2f (pool s) \<and>
    (queue_f2b (pool s') = remove1 x (queue_f2b (pool s)) \<and> up_stream x s' = [] \<or> queue_f2b (pool s') = queue_f2b (pool s) \<and> tx_room s' = 0)"
proof -
  obtain i where ix: "(i, x) \<in> set (htable (pool s))" using pool_queued(1)[OF assms(2,3)] by force
  then obtain t where t: "sessions s x = Some t" "frontend_sess_id t = i" using pool_search(2)[OF assms(2)] by blast
  obtain s' bs t' where b: "f2b_body cbs x s = Some s'" "only_session x t' s s'" "msg_b2f t' = msg_b2f t"
    "tx_list s' = tx_list s @ bs" "front_kept s (fe_mem s')" "tx_room s' = tx_room s - length bs"
    "if length (msg_f2b t) \<le> tx_room s then queue_f2b (pool s') = remove1 x (queue_f2b (pool s)) \<and> msg_f2b t' = []
     else queue_f2b (pool s') = queue_f2b (pool s) \<and> tx_room s' = 0"
    "\<And>i. payloads_for i bs = (if i = frontend_sess_id t then concat (map block_payload bs) else [])"
    "seg_stream (msg_f2b t) = concat (map block_payload bs) @ seg_stream (msg_f2b t')" "queue_b2f (pool s') = queue_b2f (pool s)"
    "\<forall>b \<in> set bs. block_word b 2 = frontend_sess_id t"
    using f2b_body_effect[OF assms(1,2) t(1) assms(3), of cbs] by blast
  have str: "up_stream a s = payloads_for j bs @ up_stream a s' \<and> down_stream a s' = down_stream a s"
    if j: "(j, a) \<in> set (htable (pool s))" for j a
  proof (cases "a = x")
    case True
    then have "j = i" using pool_search(3)[OF assms(2) j] ix by blast
    then show ?thesis using True b(3,8,9) t only_session_streams(1,2)[OF b(2)] by (simp add: up_stream_def[of _ s] down_stream_def[of _ s])
  next
    case False
    have "j \<noteq> i" using False j ix assms(2) by (auto simp: pool_ok_def distinct_map dest: inj_onD[of fst _ "(j, a)" "(i, x)"])
    then show ?thesis using b(8)[of j] t(2) stream_cong[OF only_session_streams(3)[OF b(2) False]] by simp
  qed
  have own: "app s' = app s" using b(2) by (simp add: only_session_def)
  have "fst (i, x) \<in> fst ` set (htable (pool s))" using ix by (rule imageI)
  then have ids: "\<forall>b \<in> set bs. block_word b 2 \<in> fst ` set (htable (pool s))" using b(11) t(2) by simp
  have "served s bs s'"
    unfolding served_def
    using only_session_inv[OF assms(1) t(1) b(2)] only_session_pool[OF assms(2) t(1) pool_queued(1)[OF assms(2,3)] b(2)]
      only_session_env[OF b(2)] b(4-6) str own ids by blast
  moreover have "up_stream x s' = seg_stream (msg_f2b t')" by (rule only_session_streams(1)[OF b(2)])
  ultimately show ?thesis using b(1,7,10) by (intro exI[of _ s'] exI[of _ bs]) (auto split: if_splits)
qed

lemma step3_serves:
  assumes "front_inv s" "pool_ok s" "queue_f2b (pool s) = pre @ rest"
  shows "\<exists>s' bs rest'. eng_run_step3 cbs (tailq_first rest) s = Some s' \<and> served s bs s' \<and>
    queue_f2b (pool s') = pre @ rest' \<and> (rest' = [] \<or> tx_room s' = 0) \<and> 
    (\<forall>y \<in> set rest. up_stream y s' = [] \<or> y \<in> set (queue_f2b (pool s')) \<and> tx_room s' = 0)"
  using assms
proof (induction rest arbitrary: s pre)
  case Nil
  then show ?case
    by (intro exI[of _ s] exI[of _ "[]"]) (simp add: tailq_first_def eng_run_step3.simps served_refl)
next
  case (Cons x rest)
  have x: "x \<in> set (queue_f2b (pool s))" and dist: "distinct (pre @ x # rest)" using Cons.prems(2,3) by (auto simp: pool_ok_def)
  obtain s1 bs where b: "f2b_body cbs x s = Some s1" "served s bs s1"
    "queue_f2b (pool s1) = remove1 x (queue_f2b (pool s)) \<and> up_stream x s1 = [] \<or> queue_f2b (pool s1) = queue_f2b (pool s) \<and> tx_room s1 = 0"
    using f2b_body_served[OF Cons.prems(1,2) x, of cbs] by blast
  have step: "eng_run_step3 cbs (tailq_first (x # rest)) s = eng_run_step3 cbs (tailq_first rest) s1"
    by (subst eng_run_step3.simps) (simp add: tailq_first_def[of "x # rest"] Cons.prems(3) tailq_next_app[OF dist] b(1))
  have inv: "front_inv s1" "pool_ok s1" using b(2) by (simp_all add: served_def)
  from b(3) show ?case
  proof
    assume r: "queue_f2b (pool s1) = remove1 x (queue_f2b (pool s)) \<and> up_stream x s1 = []"
    then have "queue_f2b (pool s1) = pre @ rest" using dist by (simp add: Cons.prems(3) remove1_append)
    from Cons.IH[OF inv this] obtain s' cs rest' where s': "eng_run_step3 cbs (tailq_first rest) s1 = Some s'" "served s1 cs s'"
      "queue_f2b (pool s') = pre @ rest'" "rest' = [] \<or> tx_room s' = 0" "\<forall>y \<in> set rest. up_stream y s' = [] \<or> y \<in> set (queue_f2b (pool s')) \<and> tx_room s' = 0" by blast
    obtain i where "(i, x) \<in> set (htable (pool s1))" using pool_queued(1)[OF Cons.prems(2) x] b(2) by (force simp: served_def same_env_def)
    then have "up_stream x s' = []" using s'(2) r by (auto simp: served_def)
    then have "\<forall>y \<in> set (x # rest). up_stream y s' = [] \<or> y \<in> set (queue_f2b (pool s')) \<and> tx_room s' = 0" using s'(5) by simp
    then show ?thesis using s'(1,3,4) served_trans[OF b(2) s'(2)] step by metis
  next
    assume r: "queue_f2b (pool s1) = queue_f2b (pool s) \<and> tx_room s1 = 0"
    then have "queue_f2b (pool s1) = (pre @ [x]) @ rest" by (simp add: Cons.prems(3))
    from Cons.IH[OF inv this] obtain s' cs rest' where "eng_run_step3 cbs (tailq_first rest) s1 = Some s'" "served s1 cs s'"
      "queue_f2b (pool s') = (pre @ [x]) @ rest'" "\<forall>y \<in> set rest. up_stream y s' = [] \<or> y \<in> set (queue_f2b (pool s')) \<and> tx_room s' = 0" by blast
    moreover from this r have "tx_room s' = 0" by (simp add: served_def)
    ultimately show ?thesis using served_trans[OF b(2)] step
      by (intro exI[of _ s'] exI[of _ "bs @ cs"] exI[of _ "x # rest'"]) simp
  qed
qed

subsection \<open>Reporting received data\<close>

text \<open>
  Callbacks of an application that, when told of received data, receive some of them or do nothing, and keep in their data what
  they received: \<open>log\<close> gives, for the data of the application, the bytes that were taken from each session so far.
\<close>

definition receiving :: "('a \<Rightarrow> addr \<Rightarrow> u8 list) \<Rightarrow> 'a callbacks \<Rightarrow> bool" where
  "receiving log cbs \<longleftrightarrow> (\<forall>n a s. front_inv s \<and> sessions s a \<noteq> None \<longrightarrow>
     (\<exists>s' y x. cbs n a FRONTEND_SESS_EVENT_RECVDATA s = Some (s'\<lparr>app := x\<rparr>) \<and> (s' = s \<and> y = [] \<or> recv_on a s y s') \<and>
        log x = (log (app s))(a := log (app s) a @ y)))"

lemma app_cong [simp]:
  "front_inv (s\<lparr>app := x\<rparr>) = front_inv s" "pool_ok (s\<lparr>app := x\<rparr>) = pool_ok s" "same_env s' (s\<lparr>app := x\<rparr>) = same_env s' s"
  "up_stream a (s\<lparr>app := x\<rparr>) = up_stream a s" "down_stream a (s\<lparr>app := x\<rparr>) = down_stream a s"
  by (auto simp: front_inv_def front_ready_def link_ok_def pool_ok_def same_env_def up_stream_def down_stream_def)

lemma callback_receives:
  assumes "front_inv s" "receiving log cbs" "sessions s x = Some t"
  shows "\<exists>s' t' got y. call_event_callback cbs x FRONTEND_SESS_EVENT_RECVDATA s = Some (s'\<lparr>app := y\<rparr>) \<and> only_session x t' s s' \<and>
    fe_mem s' = fe_mem s \<and> pool s' = pool s \<and> msg_f2b t' = msg_f2b t \<and> seg_stream (msg_b2f t) = got @ seg_stream (msg_b2f t') \<and>
    log y = (log (app s))(x := log (app s) x @ got)"
proof -
  note i = front_invD[OF assms(1,3)]
  have same: "only_session x t s s"
    using i(2-4) assms(3) by (auto simp: only_session_def link_ok_def)
  have id: "s\<lparr>app := app s\<rparr> = s" by simp
  have "\<exists>s' y z. call_event_callback cbs x FRONTEND_SESS_EVENT_RECVDATA s = Some (s'\<lparr>app := z\<rparr>) \<and> (s' = s \<and> y = [] \<or> recv_on x s y s') \<and>
      log z = (log (app s))(x := log (app s) x @ y)"
  proof (cases "event_callback t")
    case (app_callback n)
    obtain s' y z where "cbs n x FRONTEND_SESS_EVENT_RECVDATA s = Some (s'\<lparr>app := z\<rparr>)" "s' = s \<and> y = [] \<or> recv_on x s y s'"
      "log z = (log (app s))(x := log (app s) x @ y)"
      using assms unfolding receiving_def by blast
    then show ?thesis using app_callback assms(3)
      by (intro exI[of _ s'] exI[of _ y] exI[of _ z]) (simp add: call_event_callback_def)
  qed (rule exI[of _ s] exI[of _ "[]"] exI[of _ "app s"]; simp add: call_event_callback_def assms(3) default_session_event_callback_def)+
  then obtain s' y z where c: "call_event_callback cbs x FRONTEND_SESS_EVENT_RECVDATA s = Some (s'\<lparr>app := z\<rparr>)"
    "s' = s \<and> y = [] \<or> recv_on x s y s'" "log z = (log (app s))(x := log (app s) x @ y)" by blast
  from c(2) show ?thesis
  proof
    assume "s' = s \<and> y = []"
    then show ?thesis using c(1,3) same by (intro exI[of _ s] exI[of _ t] exI[of _ "[]"] exI[of _ z]) simp
  next
    assume "recv_on x s y s'"
    then obtain sz ret where "0 < sz" "frontend_sess_recv x True sz s = Some (ret, y, s')" by (auto simp: recv_on_def)
    then obtain t' where "only_session x t' s s'" "msg_f2b t' = msg_f2b t" "fe_mem s' = fe_mem s" "pool s' = pool s"
      "seg_stream (msg_b2f t') = drop (unat sz) (seg_stream (msg_b2f t))" "y = take (unat sz) (seg_stream (msg_b2f t))"
      using recv_step[OF assms(1,3)] by blast
    then show ?thesis using c(1,3)
      by (intro exI[of _ s'] exI[of _ t'] exI[of _ y] exI[of _ z]) simp
  qed
qed

lemma unlink_b2f_step:
  assumes "front_inv s" "pool_ok s" "sessions s x = Some t"
  defines "t' \<equiv> t\<lparr>state_b2f := state_b2f t AND NOT FRONTEND_SESS_LINKED_TO_QUEUE\<rparr>"
  shows "only_session x t' s (s\<lparr>pool := (pool s)\<lparr>queue_b2f := remove1 x (queue_b2f (pool s))\<rparr>, sessions := (sessions s)(x \<mapsto> t')\<rparr>)"
proof -
  have "distinct (queue_b2f (pool s))" using assms(2) by (simp add: pool_ok_def)
  then show ?thesis
    using front_invD[OF assms(1,3)] assms(3) by (auto simp: only_session_def front_ready_def link_ok_def sess_ok_def t'_def)
qed

text \<open>What reporting received data does to the streams of all sessions: the bytes that left a stream are in the log.\<close>

definition reported :: "('a \<Rightarrow> addr \<Rightarrow> u8 list) \<Rightarrow> 'a frontend \<Rightarrow> 'a frontend \<Rightarrow> bool" where
  "reported log s s' \<longleftrightarrow> front_inv s' \<and> pool_ok s' \<and> same_env s s' \<and> fe_mem s' = fe_mem s \<and> queue_f2b (pool s') = queue_f2b (pool s) \<and>
     (\<forall>a. up_stream a s' = up_stream a s \<and> log (app s) a @ down_stream a s = log (app s') a @ down_stream a s')"

lemma reported_trans: "reported log s s1 \<Longrightarrow> reported log s1 s2 \<Longrightarrow> reported log s s2"
  using same_env_trans by (simp add: reported_def) blast

lemma b2f_body_reported:
  assumes "front_inv s" "pool_ok s" "receiving log cbs" "x \<in> set (queue_b2f (pool s))"
  shows "\<exists>s'. b2f_body cbs x s = Some s' \<and> reported log s s' \<and>
    (queue_b2f (pool s') = remove1 x (queue_b2f (pool s)) \<or> queue_b2f (pool s') = queue_b2f (pool s))"
proof -
  note tab = pool_queued(2)[OF assms(2,4)]
  then obtain t where t: "sessions s x = Some t" using pool_search(2)[OF assms(2)] by force
  obtain s1 t1 got y where c: "call_event_callback cbs x FRONTEND_SESS_EVENT_RECVDATA s = Some (s1\<lparr>app := y\<rparr>)" "only_session x t1 s s1"
    "fe_mem s1 = fe_mem s" "pool s1 = pool s" "msg_f2b t1 = msg_f2b t" "seg_stream (msg_b2f t) = got @ seg_stream (msg_b2f t1)"
    "log y = (log (app s))(x := log (app s) x @ got)"
    using callback_receives[OF assms(1,3) t] by blast
  have s1: "sessions s1 x = Some t1" using c(2) by (simp add: only_session_def)
  note inv1 = only_session_inv[OF assms(1) t c(2)] only_session_pool[OF assms(2) t tab c(2)]
  have rep: "reported log s (u\<lparr>app := y\<rparr>)" if "only_session x t' s u" "msg_f2b t' = msg_f2b t" "msg_b2f t' = msg_b2f t1" "fe_mem u = fe_mem s"
    "queue_f2b (pool u) = queue_f2b (pool s)" for u t'
  proof -
    have "up_stream a u = up_stream a s \<and> log (app s) a @ down_stream a s = log y a @ down_stream a u" for a
      using only_session_streams[OF that(1)] that(2,3) c(6,7) t stream_cong[of u a s]
      by (cases "a = x") (auto simp: up_stream_def[of x s] down_stream_def[of x s])
    then show ?thesis
      using only_session_inv[OF assms(1) t that(1)] only_session_pool[OF assms(2) t tab that(1)] only_session_env[OF that(1)] that(4,5)
      by (simp add: reported_def)
  qed
  show ?thesis
  proof (cases "msg_b2f t1 = []")
    case False
    then have "b2f_body cbs x s = Some (s1\<lparr>app := y\<rparr>)" using c(1) s1 by (simp add: b2f_body_def)
    then show ?thesis using rep[OF c(2,5) refl c(3)] c(4) by auto
  next
    case True
    let ?t' = "t1\<lparr>state_b2f := state_b2f t1 AND NOT FRONTEND_SESS_LINKED_TO_QUEUE\<rparr>"
    let ?s' = "s1\<lparr>pool := (pool s1)\<lparr>queue_b2f := remove1 x (queue_b2f (pool s1))\<rparr>, sessions := (sessions s1)(x \<mapsto> ?t')\<rparr>"
    have "b2f_body cbs x s = Some (?s'\<lparr>app := y\<rparr>)"
      using c(1,4) s1 True assms(4) by (simp add: b2f_body_def tailq_remove_def upd_pool_def upd_sess_def)
    moreover have "only_session x ?t' s ?s'" using only_session_upd[OF c(2) unlink_b2f_step[OF inv1 s1]] .
    then have "reported log s (?s'\<lparr>app := y\<rparr>)" using c(3-5) by (intro rep[of ?t']) simp_all
    ultimately show ?thesis using c(4) by (intro exI[of _ "?s'\<lparr>app := y\<rparr>"]) simp
  qed
qed

lemma step2_reports:
  assumes "front_inv s" "pool_ok s" "receiving log cbs" "queue_b2f (pool s) = pre @ rest"
  shows "\<exists>s'. eng_run_step2 cbs (tailq_first rest) s = Some s' \<and> reported log s s'"
  using assms
proof (induction rest arbitrary: s pre)
  case Nil
  then show ?case
    by (intro exI[of _ s]) (simp add: tailq_first_def eng_run_step2.simps reported_def same_env_def)
next
  case (Cons x rest)
  have x: "x \<in> set (queue_b2f (pool s))" and dist: "distinct (pre @ x # rest)" using Cons.prems(2,4) by (auto simp: pool_ok_def)
  obtain s1 where b: "b2f_body cbs x s = Some s1" "reported log s s1"
    "queue_b2f (pool s1) = remove1 x (queue_b2f (pool s)) \<or> queue_b2f (pool s1) = queue_b2f (pool s)"
    using b2f_body_reported[OF Cons.prems(1-3) x] by blast
  have step: "eng_run_step2 cbs (tailq_first (x # rest)) s = eng_run_step2 cbs (tailq_first rest) s1"
    by (subst eng_run_step2.simps) (simp add: tailq_first_def[of "x # rest"] Cons.prems(4) tailq_next_app[OF dist] b(1))
  have inv: "front_inv s1" "pool_ok s1" using b(2) by (simp_all add: reported_def)
  have "\<exists>pre'. queue_b2f (pool s1) = pre' @ rest"
    using b(3) dist by (auto simp: Cons.prems(4) remove1_append intro: exI[of _ "pre @ [x]"])
  then obtain pre' where "queue_b2f (pool s1) = pre' @ rest" by blast
  from Cons.IH[OF inv Cons.prems(3) this] show ?case using reported_trans[OF b(2)] step by metis
qed

subsection \<open>Properties\<close>

lemma rx_empty_kept:
  assumes "rx_ready s" "rx_list s = []" "front_kept s (fe_mem s')" "same_env s s'"
  shows "rx_list s' = []"
proof -
  have "bytes_at (fe_mem s') (hyper_rx_queue s) SIZEOF_queue = bytes_at (fe_mem s) (hyper_rx_queue s) SIZEOF_queue"
    using assms(1,3) by (simp add: rx_ready_def front_kept_def tx_kept_def)
  note same = read_fld_same[OF this]
  have "queue_len (fe_mem s') (hyper_rx_queue s) = queue_len (fe_mem s) (hyper_rx_queue s)"
    by (simp add: queue_len_def same)
  moreover have "queue_len (fe_mem s) (hyper_rx_queue s) = 0" using assms(2) by (metis length_queue_list list.size(3))
  ultimately show ?thesis using assms(4) by (simp add: queue_list_def same_env_def)
qed

text \<open>Every session that has bytes to send waits in the queue of such sessions.\<close>

definition sends_queued :: "'a frontend \<Rightarrow> bool" where
  "sends_queued s \<longleftrightarrow> (\<forall>(i, a) \<in> set (htable (pool s)). up_stream a s \<noteq> [] \<longrightarrow> a \<in> set (queue_f2b (pool s)))"

text \<open>The states of a round after its second and its third step.\<close>

lemma round_states:
  assumes "front_inv s" "pool_ok s" "rx_ready s" "\<forall>i. malloc_result s i \<noteq> 0" "list_all data_msg (rx_list s)" "receiving log cbs"
  shows "\<exists>s2 s3 bs. frontend_engine_run_hyperamp_once cbs s = Some s3 \<and> rx_ready s2 \<and> rx_list s2 = [] \<and> tx_list s2 = tx_list s \<and>
    queue_f2b (pool s2) = queue_f2b (pool s) \<and> htable (pool s2) = htable (pool s) \<and>
    (\<forall>i a. (i, a) \<in> set (htable (pool s)) \<longrightarrow> up_stream a s2 = up_stream a s \<and>
       log (app s) a @ down_stream a s @ payloads_for i (rx_list s) = log (app s2) a @ down_stream a s2) \<and>
    served s2 bs s3 \<and> (queue_f2b (pool s3) = [] \<or> tx_room s3 = 0) \<and>
    (\<forall>y \<in> set (queue_f2b (pool s2)). up_stream y s3 = [] \<or> y \<in> set (queue_f2b (pool s3)) \<and> tx_room s3 = 0)"
proof -
  obtain s1 where s1: "eng_run_step1 cbs s = Some (False, s1)" "front_inv s1" "rx_ready s1" "rx_list s1 = []" "tx_list s1 = tx_list s"
    "pool_ok s1" "same_env s s1" "app s1 = app s" "queue_f2b (pool s1) = queue_f2b (pool s)"
    "\<And>i a. (i, a) \<in> set (htable (pool s)) \<Longrightarrow> down_stream a s1 = down_stream a s @ payloads_for i (rx_list s) \<and> up_stream a s1 = up_stream a s"
    using step1_receives[OF assms(1,3,2,4) refl assms(5), of cbs] by blast
  obtain s2 where s2: "eng_run_step2 cbs (tailq_first (queue_b2f (pool s1))) s1 = Some s2" "reported log s1 s2"
    using step2_reports[OF s1(2,6) assms(6), of "[]"] by auto
  have r2: "front_inv s2" "pool_ok s2" "same_env s1 s2" "fe_mem s2 = fe_mem s1" "queue_f2b (pool s2) = queue_f2b (pool s1)"
    "\<And>a. up_stream a s2 = up_stream a s1" "\<And>a. log (app s1) a @ down_stream a s1 = log (app s2) a @ down_stream a s2"
    using s2(2) unfolding reported_def by blast+
  obtain s3 bs where s3: "eng_run_step3 cbs (tailq_first (queue_f2b (pool s2))) s2 = Some s3" "served s2 bs s3"
    "queue_f2b (pool s3) = [] \<or> tx_room s3 = 0"
    "\<forall>y \<in> set (queue_f2b (pool s2)). up_stream y s3 = [] \<or> y \<in> set (queue_f2b (pool s3)) \<and> tx_room s3 = 0"
    using step3_serves[OF r2(1,2), of "[]" "queue_f2b (pool s2)" cbs] by auto
  have "hyper_rx_queue s \<noteq> 0" "hyper_tx_queue s \<noteq> 0"
    using assms(1,3) by (auto simp: rx_ready_def front_inv_def front_ready_def tx_ready_def shm_inv_def queue_wf_def layout_ok_def)
  then have run: "frontend_engine_run_hyperamp_once cbs s = Some s3"
    using s1(1) s2(1) s3(1) by (simp add: frontend_engine_run_hyperamp_once_def)
  have rx2: "rx_ready s2" "rx_list s2 = []" "tx_list s2 = tx_list s"
    using rx_ready_cong[OF s1(3) r2(4,3)] s1(4,5) r2(3,4) by (simp_all add: same_env_def)
  have tab: "htable (pool s2) = htable (pool s)" "queue_f2b (pool s2) = queue_f2b (pool s)"
    using s1(7,9) r2(3,5) by (simp_all add: same_env_def)
  have "\<forall>i a. (i, a) \<in> set (htable (pool s)) \<longrightarrow> up_stream a s2 = up_stream a s \<and>
      log (app s) a @ down_stream a s @ payloads_for i (rx_list s) = log (app s2) a @ down_stream a s2"
  proof (intro allI impI)
    fix i a assume ia: "(i, a) \<in> set (htable (pool s))"
    show "up_stream a s2 = up_stream a s \<and>
        log (app s) a @ down_stream a s @ payloads_for i (rx_list s) = log (app s2) a @ down_stream a s2"
      using s1(8) s1(10)[OF ia] r2(6)[of a] r2(7)[of a] by simp
  qed
  then show ?thesis using run rx2 tab s3(2-4) by (intro exI[of _ s2] exI[of _ s3] exI[of _ bs] conjI)
qed

text \<open>C6: a round of the engine over a receive queue of data messages returns, when no allocation
  fails, the callbacks of the application only receive, and the sessions with bytes to send are queued. It empties the receive
  queue. For each session the bytes its callback has taken so far, followed by those still waiting, are the bytes taken before, those that waited and
  the payloads of the messages with its identifier: nothing is lost. The blocks it adds to the transmit queue all belong to
  sessions of the table and carry, for each session and in order, the first of the bytes queued on it; the rest stays queued, and there is a rest only when
  the transmit queue is full. The invariants hold again.\<close>

theorem engine_round:
  assumes "front_inv s" "pool_ok s" "rx_ready s" "\<forall>i. malloc_result s i \<noteq> 0" "list_all data_msg (rx_list s)" "receiving log cbs" "sends_queued s"
  shows "\<exists>s' bs. frontend_engine_run_hyperamp_once cbs s = Some s' \<and> front_inv s' \<and> pool_ok s' \<and> sends_queued s' \<and>
    rx_list s' = [] \<and> tx_list s' = tx_list s @ bs \<and> (queue_f2b (pool s') = [] \<or> tx_room s' = 0) \<and>
    (\<forall>b \<in> set bs. frontend_high_speed_search_sess s (block_word b 2) \<noteq> None) \<and>
    (\<forall>i a. frontend_high_speed_search_sess s i = Some a \<longrightarrow>
       up_stream a s = payloads_for i bs @ up_stream a s' \<and> (up_stream a s' = [] \<or> tx_room s' = 0) \<and>
       log (app s) a @ down_stream a s @ payloads_for i (rx_list s) = log (app s') a @ down_stream a s')"
proof -
  obtain s2 s3 bs where run: "frontend_engine_run_hyperamp_once cbs s = Some s3"
    and rx2: "rx_ready s2" "rx_list s2 = []" "tx_list s2 = tx_list s"
    and tab: "queue_f2b (pool s2) = queue_f2b (pool s)" "htable (pool s2) = htable (pool s)"
    and st: "\<And>i a. (i, a) \<in> set (htable (pool s)) \<Longrightarrow> up_stream a s2 = up_stream a s"
      "\<And>i a. (i, a) \<in> set (htable (pool s)) \<Longrightarrow> log (app s) a @ down_stream a s @ payloads_for i (rx_list s) = log (app s2) a @ down_stream a s2"
    and s3: "served s2 bs s3" "queue_f2b (pool s3) = [] \<or> tx_room s3 = 0"
      "\<forall>y \<in> set (queue_f2b (pool s2)). up_stream y s3 = [] \<or> y \<in> set (queue_f2b (pool s3)) \<and> tx_room s3 = 0"
    using round_states[OF assms(1-6)] by blast
  have env: "htable (pool s3) = htable (pool s)" using s3(1) tab(2) by (simp add: same_env_def served_def)
  have str: "up_stream a s = payloads_for i bs @ up_stream a s3 \<and>
      log (app s) a @ down_stream a s @ payloads_for i (rx_list s) = log (app s3) a @ down_stream a s3"
    if ia: "(i, a) \<in> set (htable (pool s))" for i a
    using s3(1) ia tab(2) st[OF ia] unfolding served_def by auto
  have q: "a \<in> set (queue_f2b (pool s2))" if "(i, a) \<in> set (htable (pool s))" "up_stream a s3 \<noteq> []" for i a
    using assms(7) str[OF that(1)] that tab(1) by (auto simp: sends_queued_def)
  have "rx_list s3 = []" using rx_empty_kept[OF rx2(1,2)] s3(1) by (simp add: served_def)
  moreover have "tx_list s3 = tx_list s @ bs" using s3(1) rx2(3) by (simp only: served_def)
  moreover have "sends_queued s3" using q s3(3) by (fastforce simp: sends_queued_def env)
  moreover have "\<forall>b \<in> set bs. frontend_high_speed_search_sess s (block_word b 2) \<noteq> None"
    using s3(1) tab(2) by (auto simp: served_def frontend_high_speed_search_sess_def map_of_eq_None_iff)
  moreover have "\<forall>i a. frontend_high_speed_search_sess s i = Some a \<longrightarrow>
      up_stream a s = payloads_for i bs @ up_stream a s3 \<and> (up_stream a s3 = [] \<or> tx_room s3 = 0) \<and>
      log (app s) a @ down_stream a s @ payloads_for i (rx_list s) = log (app s3) a @ down_stream a s3"
  proof (intro allI impI)
    fix i a assume "frontend_high_speed_search_sess s i = Some a"
    note ia = search_in[OF this]
    have "up_stream a s3 = [] \<or> tx_room s3 = 0" using bspec[OF s3(3) q[OF ia]] by (cases "up_stream a s3 = []") simp_all
    then show "up_stream a s = payloads_for i bs @ up_stream a s3 \<and> (up_stream a s3 = [] \<or> tx_room s3 = 0) \<and>
        log (app s) a @ down_stream a s @ payloads_for i (rx_list s) = log (app s3) a @ down_stream a s3"
      using str[OF ia] by blast
  qed
  moreover have "front_inv s3" "pool_ok s3" using s3(1) by (simp_all add: served_def)
  ultimately show ?thesis using run s3(2) by (intro exI[of _ s3] exI[of _ bs] conjI)
qed

text \<open>C10: building the data message of a segment on one side puts a block into the transmit queue there, as long as there is room and the
  segment fits. That block, handed to the message handler of the other side, adds exactly the bytes of the segment to the stream of the session
  with the identifier of the sending one and changes no other session, when no allocation fails.\<close>

theorem data_roundtrip:
  assumes "front_ready p" "seg_ok seg" "8 + length (seg_data seg) \<le> tx_block_size p" "0 < tx_room p"
    and "front_inv s" "pool_ok s" "frontend_high_speed_search_sess s (frontend_sess_id t) = Some a" "\<forall>i. malloc_result s i \<noteq> 0"
  shows "\<exists>p' b. build_message (data_header t seg) (Some (take (unat (seg_len seg)) (seg_data seg))) p = Some (FRONTEND_PROXY_PROCESS_OK, p') \<and>
    tx_list p' = tx_list p @ [b] \<and> length b = tx_block_size p \<and> carries (frontend_sess_id t) (backend_sess_id t) seg b \<and>
    (bytes_at (fe_mem s) msg (length b) = b \<longrightarrow>
      (\<exists>s'. frontend_proxy_msg_process cbs msg s = Some (FRONTEND_PROXY_PROCESS_OK, s') \<and>
        down_stream a s' = down_stream a s @ seg_data seg \<and> up_stream a s' = up_stream a s \<and> front_inv s' \<and> pool_ok s' \<and>
        (\<forall>j c. frontend_high_speed_search_sess s j = Some c \<and> c \<noteq> a \<longrightarrow> down_stream c s' = down_stream c s \<and> up_stream c s' = up_stream c s)))"
proof -
  obtain m' b where p': "build_message (data_header t seg) (Some (take (unat (seg_len seg)) (seg_data seg))) p =
      Some (FRONTEND_PROXY_PROCESS_OK, p\<lparr>fe_mem := m'\<rparr>)" "carries (frontend_sess_id t) (backend_sess_id t) seg b"
    "tx_list (p\<lparr>fe_mem := m'\<rparr>) = tx_list p @ [b]" "front_kept p m'"
    using data_message_effect[OF assms(1-3), of t] assms(4) by auto
  have "b \<in> set (tx_list (p\<lparr>fe_mem := m'\<rparr>))" unfolding p'(3) by simp
  then have lb: "length b = tx_block_size p" using p'(4) by (auto simp: queue_list_def front_kept_def tx_kept_def)
  have len: "length (seg_data seg) < 65536" using assms(2) unsigned_less[of "seg_len seg", where 'a = nat] by (simp add: seg_ok_def)
  obtain rest where b: "b = data_block (frontend_sess_id t) (backend_sess_id t) (seg_data seg) @ rest" using p'(2) by (auto simp: carries_def)
  have dm: "data_msg b" using len by (simp add: data_msg_def b data_block_def block_word_def le16_def le16_join unat_of_nat)
  have pay: "payloads_for j [b] = (if j = frontend_sess_id t then seg_data seg else [])" for j
    using carries_payloads_for[of "frontend_sess_id t" "backend_sess_id t" "[seg]" "[b]" j] p'(2) assms(2) by simp
  have "\<exists>s'. frontend_proxy_msg_process cbs msg s = Some (FRONTEND_PROXY_PROCESS_OK, s') \<and>
      down_stream a s' = down_stream a s @ seg_data seg \<and> up_stream a s' = up_stream a s \<and> front_inv s' \<and> pool_ok s' \<and>
      (\<forall>j c. frontend_high_speed_search_sess s j = Some c \<and> c \<noteq> a \<longrightarrow> down_stream c s' = down_stream c s \<and> up_stream c s' = up_stream c s)"
    if mem: "bytes_at (fe_mem s) msg (length b) = b"
  proof -
    obtain s' where s': "frontend_proxy_msg_process cbs msg s = Some (FRONTEND_PROXY_PROCESS_OK, s')" "front_inv s'" "pool_ok s'"
      "\<And>i a. (i, a) \<in> set (htable (pool s)) \<Longrightarrow> down_stream a s' = down_stream a s @ payloads_for i [b] \<and> up_stream a s' = up_stream a s"
      using data_msg_step[OF assms(5,6) mem dm assms(8), of cbs] by blast
    have "down_stream c s' = down_stream c s \<and> up_stream c s' = up_stream c s"
      if "frontend_high_speed_search_sess s j = Some c" "c \<noteq> a" for j c
      using s'(4)[OF search_in[OF that(1)]] pay that assms(7) by auto
    then show ?thesis using s'(1-3) s'(4)[OF search_in[OF assms(7)]] pay by (intro exI[of _ s']) auto
  qed
  with p' lb show ?thesis by (intro exI[of _ "p\<lparr>fe_mem := m'\<rparr>"] exI[of _ b]) simp
qed

subsection \<open>Witnesses\<close>

text \<open>
  The front end of \<open>FStream\<close>'s example with a receive queue at 262144 into which the other zone has put a data message
  for the session, from its buffer at 327680.
\<close>

definition demo_block :: "u8 list" where
  "demo_block = data_block 1 7 [5, 6]"

definition demo_rx_idle :: mem where
  "demo_rx_idle = put_bytes (inited demo_mem 262144 demo_config) 327680 demo_block"

definition demo_rx_mem :: mem where
  "demo_rx_mem = enqueued demo_rx_idle 262144 0 327680 10 65536"

definition demo_rx_front :: "unit frontend" where
  "demo_rx_front = demo_front\<lparr>fe_mem := demo_rx_mem\<rparr>"

lemma length_demo_block [simp]: "length demo_block = 10"
  by (simp add: demo_block_def data_block_def)

lemma demo_rx_fields:
  "q_header demo_rx_idle 262144 = 0" "q_tail demo_rx_idle 262144 = 0" "q_capacity demo_rx_idle 262144 = 4"
  "q_block_size demo_rx_idle 262144 = 16" "q_lock_value demo_rx_idle 262144 = 0"
proof -
  have "read_le n demo_rx_idle (fld 262144 k) = read_le n (inited demo_mem 262144 demo_config) (fld 262144 k)"
    if "0 < n" "k + n \<le> SIZEOF_queue" for n k
    unfolding demo_rx_idle_def
    using that by (intro put_bytes_apart(1)) (simp add: fld_def apart_def fits_def unat_word_ariths unat_of_nat)
  note f = this and i = inited_fields[of 262144 demo_config demo_mem]
  show "q_header demo_rx_idle 262144 = 0" "q_tail demo_rx_idle 262144 = 0" "q_capacity demo_rx_idle 262144 = 4"
    "q_block_size demo_rx_idle 262144 = 16" "q_lock_value demo_rx_idle 262144 = 0"
    using i by (simp_all add: f demo_config_def fits_def)
qed

lemma demo_rx_wf: "queue_wf demo_rx_idle 262144 65536"
  by (simp add: queue_wf_def demo_rx_fields layout_ok_def apart_def fits_def slot_def)

lemma demo_rx_outside: "outside demo_rx_idle 262144 65536 327680 10"
  by (simp add: outside_def demo_rx_fields apart_def fits_def slot_def)

lemma demo_rx_state:
  "queue_wf demo_rx_mem 262144 65536" "q_lock_value demo_rx_mem 262144 = 0" "q_capacity demo_rx_mem 262144 = 4"
  "q_block_size demo_rx_mem 262144 = 16" "\<exists>rest. length rest = 6 \<and> queue_list demo_rx_mem 262144 65536 = [demo_block @ rest]"
proof -
  have len: "10 \<le> unat (q_block_size demo_rx_idle 262144)" by (simp add: demo_rx_fields)
  show "queue_wf demo_rx_mem 262144 65536" unfolding demo_rx_mem_def by (rule enqueued_wf[OF demo_rx_wf len])
  note f = enqueued_fields[OF demo_rx_wf len, of 0 327680]
  show "q_lock_value demo_rx_mem 262144 = 0" "q_capacity demo_rx_mem 262144 = 4" "q_block_size demo_rx_mem 262144 = 16"
    unfolding demo_rx_mem_def using f by (simp_all add: demo_rx_fields)
  have ql: "queue_len demo_rx_idle 262144 = 0" "queue_list demo_rx_idle 262144 65536 = []"
    by (simp_all add: queue_list_def queue_len_def demo_rx_fields ring_count_def)
  have "bytes_at demo_rx_idle 327680 10 = demo_block"
    unfolding demo_rx_idle_def using bytes_at_put[of 0 demo_block 10 "inited demo_mem 262144 demo_config" 327680] by simp
  then show "\<exists>rest. length rest = 6 \<and> queue_list demo_rx_mem 262144 65536 = [demo_block @ rest]"
    unfolding demo_rx_mem_def using enqueued_list[OF demo_rx_wf len demo_rx_outside, of 0] ql by (auto simp: demo_rx_fields)
qed

lemma demo_idle_ctl: "bytes_at demo_rx_idle 4096 SIZEOF_queue = bytes_at demo_mem 4096 SIZEOF_queue"
proof -
  have "bytes_at demo_rx_idle 4096 SIZEOF_queue = bytes_at (inited demo_mem 262144 demo_config) 4096 SIZEOF_queue"
    unfolding demo_rx_idle_def by (rule put_bytes_apart(2)) (simp add: apart_def fits_def)
  also have "\<dots> = bytes_at demo_mem 4096 SIZEOF_queue"
    by (rule inited_frame) (simp_all add: demo_config_def apart_def fits_def)
  finally show ?thesis .
qed

lemma demo_same_tx:
  assumes "bytes_at m 4096 SIZEOF_queue = bytes_at demo_mem 4096 SIZEOF_queue"
  shows "queue_wf m 4096 65536" "q_lock_value m 4096 = 0" "q_block_size m 4096 = 16" "q_capacity m 4096 = 4" "queue_len m 4096 = 0"
    "queue_list m 4096 65536 = []"
proof -
  note same = read_fld_same[OF assms]
  show "queue_wf m 4096 65536" "q_lock_value m 4096 = 0" "q_block_size m 4096 = 16" "q_capacity m 4096 = 4" and l: "queue_len m 4096 = 0"
    using demo_wf by (simp_all add: queue_wf_def queue_len_def same demo_fields ring_count_def)
  show "queue_list m 4096 65536 = []" by (simp add: queue_list_def l)
qed

lemma demo_rx_ctl: "bytes_at demo_rx_mem 4096 SIZEOF_queue = bytes_at demo_mem 4096 SIZEOF_queue"
proof -
  have out: "outside demo_rx_idle 262144 65536 4096 SIZEOF_queue"
    by (simp add: outside_def demo_rx_fields apart_def fits_def slot_def)
  have len: "10 \<le> unat (q_block_size demo_rx_idle 262144)" by (simp add: demo_rx_fields)
  show ?thesis unfolding demo_rx_mem_def using enqueued_frame[OF demo_rx_wf len out] demo_idle_ctl by simp
qed

lemmas demo_rx_tx = demo_same_tx[OF demo_rx_ctl]
lemmas demo_idle_tx = demo_same_tx[OF demo_idle_ctl]

lemma demo_rx_front_inv: "front_inv demo_rx_front"
proof -
  have ok: "link_ok a demo_front \<and> sess_ok 8 t" if "sessions demo_front a = Some t" for a t
    using front_invD[OF demo_front_inv that] by (simp add: demo_front_simps demo_fields)
  have "front_ready demo_rx_front"
    using demo_rx_tx(1,2)
    by (simp add: front_ready_def tx_ready_def shm_inv_def demo_rx_front_def demo_front_simps demo_rx_tx outside_def apart_def fits_def slot_def)
  then show ?thesis using ok front_invD(1)[OF demo_front_inv]
    by (simp add: front_inv_def demo_rx_front_def demo_rx_tx demo_front_simps(2) link_ok_def)
qed

lemma demo_rx_ready: "rx_ready demo_rx_front"
  using demo_rx_state(1,2)
  by (simp add: rx_ready_def demo_rx_front_def demo_front_def shm_inv_def recv_bufs_def outside_def demo_rx_state(3,4) demo_rx_tx
      apart_def fits_def slot_def)

lemma demo_rx_pool: "pool_ok demo_rx_front"
  by (simp add: pool_ok_def demo_rx_front_def demo_front_def demo_session_def)

lemma demo_rx_search: "frontend_high_speed_search_sess demo_rx_front 1 = Some 16777216"
  by (simp add: frontend_high_speed_search_sess_def demo_rx_front_def demo_front_simps)

lemma demo_rx_down: "down_stream 16777216 demo_rx_front = []"
  by (simp add: down_stream_def demo_rx_front_def demo_front_def demo_session_def)

lemma demo_rx_sends: "sends_queued demo_rx_front"
  by (simp add: sends_queued_def demo_rx_front_def demo_front_def)

theorem engine_round_witness:
  "\<exists>s' bs. frontend_engine_run_hyperamp_once (\<lambda>_ _ _ s. Some s) demo_rx_front = Some s' \<and> rx_list s' = [] \<and>
     down_stream 16777216 s' = [5, 6] \<and> [104, 105] = payloads_for 1 bs @ up_stream 16777216 s'"
proof -
  obtain rest where r: "length rest = 6" "rx_list demo_rx_front = [demo_block @ rest]"
    using demo_rx_state(5) by (auto simp: demo_rx_front_def demo_front_def)
  have "data_msg (demo_block @ rest)"
    using r(1) by (simp add: data_msg_def demo_block_def data_block_def block_word_def le16_def)
  then have dm: "list_all data_msg (rx_list demo_rx_front)" using r(2) by simp
  define lg :: "unit \<Rightarrow> addr \<Rightarrow> u8 list" where "lg = (\<lambda>_ _. [])"
  have rc: "receiving lg (\<lambda>_ _ _ s. Some s)" unfolding receiving_def
  proof (intro allI impI)
    fix n a and s :: "unit frontend"
    show "\<exists>s' y x. Some s = Some (s'\<lparr>app := x\<rparr>) \<and> (s' = s \<and> y = [] \<or> recv_on a s y s') \<and> lg x = (lg (app s))(a := lg (app s) a @ y)"
      by (intro exI[of _ s] exI[of _ "[]"] exI[of _ "app s"]) (auto simp: lg_def)
  qed
  have "\<forall>i. malloc_result demo_rx_front i \<noteq> 0" by (simp add: demo_rx_front_def demo_front_simps)
  from engine_round[OF demo_rx_front_inv demo_rx_pool demo_rx_ready this dm rc demo_rx_sends]
  obtain s' bs where e: "frontend_engine_run_hyperamp_once (\<lambda>_ _ _ s. Some s) demo_rx_front = Some s'" "rx_list s' = []"
    "up_stream 16777216 demo_rx_front = payloads_for 1 bs @ up_stream 16777216 s'"
    "lg (app demo_rx_front) 16777216 @ down_stream 16777216 demo_rx_front @ payloads_for 1 (rx_list demo_rx_front) =
       lg (app s') 16777216 @ down_stream 16777216 s'"
    using demo_rx_search by blast
  moreover have "payloads_for 1 (rx_list demo_rx_front) = [5, 6]"
    using data_block_payload[of "[5, 6]" 1 7 rest] data_block_word[of 1 7 "[5, 6]" rest]
    unfolding r(2) demo_block_def by (simp add: payloads_for_def)
  moreover have "up_stream 16777216 demo_rx_front = [104, 105]"
    by (simp add: up_stream_def demo_rx_front_def demo_front_def demo_session_def demo_seg_def)
  ultimately show ?thesis using demo_rx_down by (intro exI[of _ s'] exI[of _ bs]) (simp add: lg_def)
qed

text \<open>A segment that fills a block, and the front end with the block for it in its message buffer.\<close>

definition demo_full_seg :: SessMsgSeg where
  "demo_full_seg = demo_seg\<lparr>seg_len := 8, seg_data := [1, 2, 3, 4, 5, 6, 7, 8]\<rparr>"

definition demo_full_front :: "unit frontend" where
  "demo_full_front = demo_front\<lparr>fe_mem := put_bytes demo_mem 327680 (data_block 1 7 (seg_data demo_full_seg))\<rparr>"

lemma demo_full:
  "front_inv demo_full_front" "pool_ok demo_full_front" "frontend_high_speed_search_sess demo_full_front 1 = Some 16777216"
  "\<forall>i. malloc_result demo_full_front i \<noteq> 0" "down_stream 16777216 demo_full_front = []"
  "bytes_at (fe_mem demo_full_front) 327680 16 = data_block 1 7 (seg_data demo_full_seg)"
proof -
  have "bytes_at (fe_mem demo_full_front) 4096 SIZEOF_queue = bytes_at demo_mem 4096 SIZEOF_queue"
    unfolding demo_full_front_def by (simp, rule put_bytes_apart(2)) (simp add: apart_def fits_def demo_full_seg_def data_block_def)
  note tx = demo_same_tx[OF this]
  have ok: "link_ok a demo_front \<and> sess_ok 8 t" if "sessions demo_front a = Some t" for a t
    using front_invD[OF demo_front_inv that] by (simp add: demo_front_simps demo_fields)
  have "front_ready demo_full_front"
    using tx(1,2,3,4)
    by (simp add: front_ready_def tx_ready_def shm_inv_def demo_full_front_def demo_front_simps outside_def apart_def fits_def slot_def)
  then show "front_inv demo_full_front" using ok front_invD(1)[OF demo_front_inv] tx(3)
    by (simp add: front_inv_def demo_full_front_def demo_front_simps(2) link_ok_def)
  show "pool_ok demo_full_front" "frontend_high_speed_search_sess demo_full_front 1 = Some 16777216"
    "\<forall>i. malloc_result demo_full_front i \<noteq> 0" "down_stream 16777216 demo_full_front = []"
    by (simp_all add: pool_ok_def demo_full_front_def demo_front_def demo_session_def frontend_high_speed_search_sess_def down_stream_def)
  show "bytes_at (fe_mem demo_full_front) 327680 16 = data_block 1 7 (seg_data demo_full_seg)"
    unfolding demo_full_front_def using bytes_at_put[of 0 "data_block 1 7 (seg_data demo_full_seg)" 16 demo_mem 327680]
    by (simp add: demo_full_seg_def data_block_def)
qed

theorem data_roundtrip_witness:
  "\<exists>p' b s'. build_message (data_header demo_session demo_full_seg) (Some [1, 2, 3, 4, 5, 6, 7, 8]) demo_front = Some (FRONTEND_PROXY_PROCESS_OK, p') \<and>
     tx_list p' = [b] \<and> bytes_at (fe_mem demo_full_front) 327680 16 = b \<and>
     frontend_proxy_msg_process (\<lambda>_ _ _ s. Some s) 327680 demo_full_front = Some (FRONTEND_PROXY_PROCESS_OK, s') \<and>
     down_stream 16777216 s' = [1, 2, 3, 4, 5, 6, 7, 8]"
proof -
  have h: "front_ready demo_front" "seg_ok demo_full_seg" "8 + length (seg_data demo_full_seg) \<le> tx_block_size demo_front" "0 < tx_room demo_front"
    using demo_front_inv by (simp_all add: front_inv_def seg_ok_def demo_full_seg_def demo_front_simps demo_fields demo_front_room)
  have i: "frontend_high_speed_search_sess demo_full_front (frontend_sess_id demo_session) = Some 16777216"
    using demo_full(3) by (simp add: demo_session_def)
  have seg: "take (unat (seg_len demo_full_seg)) (seg_data demo_full_seg) = [1, 2, 3, 4, 5, 6, 7, 8]" "seg_data demo_full_seg = [1, 2, 3, 4, 5, 6, 7, 8]"
    "tx_block_size demo_front = 16" "frontend_sess_id demo_session = 1" "backend_sess_id demo_session = 7"
    by (simp_all add: demo_full_seg_def demo_front_simps demo_fields demo_session_def)
  note rt = data_roundtrip[OF h demo_full(1,2) i demo_full(4), of 327680 "\<lambda>_ _ _ s. Some s", unfolded seg(1)]
  then obtain p' b where
    b: "build_message (data_header demo_session demo_full_seg) (Some [1, 2, 3, 4, 5, 6, 7, 8]) demo_front = Some (FRONTEND_PROXY_PROCESS_OK, p')"
    "tx_list p' = [b]" "length b = 16" "carries 1 7 demo_full_seg b"
    "bytes_at (fe_mem demo_full_front) 327680 (length b) = b \<longrightarrow> (\<exists>s'. frontend_proxy_msg_process (\<lambda>_ _ _ s. Some s) 327680 demo_full_front =
       Some (FRONTEND_PROXY_PROCESS_OK, s') \<and> down_stream 16777216 s' = [1, 2, 3, 4, 5, 6, 7, 8])"
    unfolding seg(2-5) demo_full(5) demo_front_room(2) append_Nil by blast
  have "b = data_block 1 7 (seg_data demo_full_seg)" using b(3,4) by (auto simp: carries_def seg(2) data_block_def)
  then show ?thesis using b demo_full(6) by auto
qed

end
