(* ===== verification/FChannel.thy ===== *)
theory FChannel
  imports ChannelCh1 FEngineInv
begin

unbundle bit_operations_syntax

text \<open>
  Channel CH1 over the front-end engine: the engine of \<open>FEngine\<close> as the provider of what the channel relies on, and
  what forwarding puts on the sessions of the engine.
\<close>

subsection \<open>The engine behind the channel\<close>

text \<open>
  The data of the application are the two session pointers of the channel. The text session has callback 0, the bulk
  session callback 1. A session that is gone has no state: readiness is asked of pointers the callbacks have not cleared.
\<close>

type_synonym ch1_engine = "(addr \<times> addr) frontend"

definition ch1_callbacks :: "(addr \<times> addr) callbacks" where
  "ch1_callbacks n sess event e =
     (let s = \<lparr>g_ch1_text_session = fst (app e), g_ch1_bulk_session = snd (app e), g_forward_seq = 0, fe_state = ()\<rparr>;
          s = (if n = 0 then ch1_text_session_callback s event else ch1_bulk_session_callback s event)
      in Some (e\<lparr>app := (g_ch1_text_session s, g_ch1_bulk_session s)\<rparr>))"

definition engine_ops :: "ch1_engine frontend_ops" where
  "engine_ops = \<lparr>
     fe_sess_state = (\<lambda>e a. case sessions e a of None \<Rightarrow> FRONTEND_SESS_CLOSED | Some t \<Rightarrow> sess_state t),
     fe_sess_send = (\<lambda>e m a p n.
        case frontend_sess_send a (if p = 0 then None else Some (bytes_at m p (unat n))) (e\<lparr>fe_mem := m\<rparr>) of
          None \<Rightarrow> (- 1, e) | Some (ret, e) \<Rightarrow> (ret, e)),
     fe_run_once = (\<lambda>s m.
        case frontend_engine_run_hyperamp_once ch1_callbacks
               ((fe_state s)\<lparr>fe_mem := m, app := (g_ch1_text_session s, g_ch1_bulk_session s)\<rparr>) of
          None \<Rightarrow> None
        | Some e \<Rightarrow> Some (s\<lparr>g_ch1_text_session := fst (app e), g_ch1_bulk_session := snd (app e), fe_state := e\<rparr>, fe_mem e))\<rparr>"

subsection \<open>Forwarding\<close>

text \<open>The descriptor that precedes forwarded data: magic number, service, kind, reserved field and total length.\<close>

definition forward_header :: "u8 \<Rightarrow> u8 \<Rightarrow> u32 \<Rightarrow> u8 list" where
  "forward_header service_id is_bulk total_length =
     [0x44, 0x57, 0x46, 0x48, service_id, is_bulk, 0, 0] @
     [ucast total_length, ucast (drop_bit 8 total_length), ucast (drop_bit 16 total_length), ucast (drop_bit 24 total_length)]"

lemma write_u32_put:
  "write_u32 m a w = put_bytes m a [ucast w, ucast (drop_bit 8 w), ucast (drop_bit 16 w), ucast (drop_bit 24 w)]"
proof -
  have "ucast (drop_bit k w AND mask 8) = (ucast (drop_bit k w) :: u8)" for k
    by (rule bit_word_eqI; auto simp: bit_simps)
  from this this[of 0] show ?thesis by (simp add: write_le_def put_bytes_def numeral_eq_Suc)
qed

lemma length_forward_header [simp]: "length (forward_header sid bulk tot) = 12"
  by (simp add: forward_header_def)

lemma forward_header_written:
  "write_u32 (write_u16 ((write_u32 m (fld hdr 0) FORWARD_HEADER_MAGIC)(fld hdr 4 := sid, fld hdr 5 := bulk)) (fld hdr 6) 0) (fld hdr 8) tot =
   put_bytes m hdr (forward_header sid bulk tot)"
proof -
  have "[ucast FORWARD_HEADER_MAGIC, ucast (drop_bit 8 FORWARD_HEADER_MAGIC), ucast (drop_bit 16 FORWARD_HEADER_MAGIC),
      ucast (drop_bit 24 FORWARD_HEADER_MAGIC)] = [0x44, 0x57, 0x46, 0x48 :: u8]"
    by (simp add: FORWARD_HEADER_MAGIC_def)
  then show ?thesis
    unfolding byte_put write_u16_put write_u32_put fld_def
    by (simp add: put_bytes_append_at add.assoc forward_header_def le16_def)
qed

text \<open>Sending through the record of the engine.\<close>

lemma engine_send:
  assumes "front_inv (e\<lparr>fe_mem := m\<rparr>)" "sessions e a = Some t" "p \<noteq> 0" "0 < n" "n < 2 ^ 31" "\<forall>i. malloc_result e i \<noteq> 0"
  shows "\<exists>e' t'. fe_sess_send engine_ops e m a p n = (int (unat n), e') \<and> front_inv (e'\<lparr>fe_mem := m\<rparr>) \<and>
    sessions e' = (sessions e)(a \<mapsto> t') \<and> sess_state t' = sess_state t \<and> malloc_result e' = malloc_result e \<and>
    seg_stream (msg_f2b t') = seg_stream (msg_f2b t) @ bytes_at m p (unat n)"
proof -
  let ?e = "e\<lparr>fe_mem := m\<rparr>" and ?d = "bytes_at m p (unat n)"
  have s: "sessions ?e a = Some t" "\<forall>i. malloc_result ?e i \<noteq> 0" using assms(2,6) by simp_all
  have pos: "0 < unat n" "unat n < 2 ^ 31" using assms(4,5) by (simp_all add: word_less_nat_alt)
  have d: "?d \<noteq> []" "length ?d < 2 ^ 31" using pos by (auto simp flip: length_greater_0_conv)
  obtain ret e' where r: "frontend_sess_send a (Some ?d) ?e = Some (ret, e')"
    using send_returns[OF assms(1) s(1) d(2,1)] by blast
  obtain t' where t': "only_session a t' ?e e'" "sess_state t' = sess_state t" "fe_mem e' = fe_mem ?e" "0 \<le> ret"
    "seg_stream (msg_f2b t') = seg_stream (msg_f2b t) @ take (nat ret) ?d" "(\<forall>i. malloc_result ?e i \<noteq> 0) \<longrightarrow> ret = int (length ?d)"
    using send_step[OF assms(1) s(1) d(2) r d(1)] by blast
  have "front_inv e'" using only_session_inv[OF assms(1) s(1) t'(1)] .
  moreover have "e' = e'\<lparr>fe_mem := m\<rparr>" using t'(3) by simp
  ultimately have "front_inv (e'\<lparr>fe_mem := m\<rparr>)" by simp
  moreover have "fe_sess_send engine_ops e m a p n = (int (unat n), e')"
    using r assms(3) t'(6) s(2) by (simp add: engine_ops_def)
  ultimately show ?thesis using t' s(2) by (intro exI[of _ e'] exI[of _ t']) (simp add: only_session_def)
qed

text \<open>A buffer outside the transmit queue of the engine.\<close>

definition outside_tx :: "'a frontend \<Rightarrow> mem \<Rightarrow> addr \<Rightarrow> nat \<Rightarrow> bool" where
  "outside_tx e m a n \<longleftrightarrow> outside m (hyper_tx_queue e) (hyper_data_region e) a n"

lemma put_outside_inv:
  assumes "front_inv (e\<lparr>fe_mem := m\<rparr>)" "outside_tx e m a (length bs)"
  shows "front_inv (e\<lparr>fe_mem := put_bytes m a bs\<rparr>)"
proof -
  have "front_inv (e\<lparr>fe_mem := m, fe_mem := put_bytes m a bs\<rparr>)"
    using assms(2) by (intro tx_untouched(1)[OF assms(1)]) (simp_all add: outside_tx_def outside_def put_bytes_apart(2)[OF apart_sym])
  then show ?thesis by simp
qed

subsection \<open>Properties\<close>

text \<open>C14: forwarding on a connected session of the engine, from a buffer apart from the local descriptor and with both outside the
  transmit queue, succeeds when no allocation fails: it counts the message and puts the descriptor (magic number, service, kind,
  total length) and then the data on the stream of the session, and nothing on any other.\<close>

theorem ch1_forward:
  fixes s :: "ch1_engine ch1_state"
  assumes "front_inv ((fe_state s)\<lparr>fe_mem := m\<rparr>)" "sessions (fe_state s) sess = Some t" "sess_state t = FRONTEND_SESS_CONNECTED"
    and "\<forall>i. malloc_result (fe_state s) i \<noteq> 0" "hdr \<noteq> 0" "outside_tx (fe_state s) m hdr 12"
    and "data \<noteq> 0" "0 < len" "len < 2 ^ 31" "apart data (unat len) hdr 12"
  shows "\<exists>s' m'. ch1_send_with_header engine_ops s m hdr sess data len sid bulk tot = (HYPERAMP_OK, s', m') \<and>
    g_forward_seq s' = g_forward_seq s + 1 \<and> front_inv ((fe_state s')\<lparr>fe_mem := m'\<rparr>) \<and>
    up_stream sess (fe_state s') = up_stream sess (fe_state s) @
      [0x44, 0x57, 0x46, 0x48, sid, bulk, 0, 0, ucast tot, ucast (drop_bit 8 tot), ucast (drop_bit 16 tot), ucast (drop_bit 24 tot)] @
      bytes_at m data (unat len) \<and>
    (\<forall>b. b \<noteq> sess \<longrightarrow> sessions (fe_state s') b = sessions (fe_state s) b)"
proof -
  let ?e = "fe_state s" and ?m = "put_bytes m hdr (forward_header sid bulk tot)"
  have inv: "front_inv (?e\<lparr>fe_mem := ?m\<rparr>)" by (rule put_outside_inv[OF assms(1)]) (simp add: assms(6))
  have n: "unat (ucast len :: u32) = unat len" "0 < (ucast len :: u32)" "(ucast len :: u32) < 2 ^ 31"
  proof -
    have "unat len < 2 ^ 31" using assms(9) by (simp add: word_less_nat_alt)
    then show u: "unat (ucast len :: u32) = unat len" by (simp add: unsigned_ucast_eq take_bit_nat_eq_self)
    show "0 < (ucast len :: u32)" "(ucast len :: u32) < 2 ^ 31" using assms(8,9) u by (simp_all add: word_less_nat_alt)
  qed
  obtain e1 t1 where e1: "fe_sess_send engine_ops ?e ?m sess hdr 12 = (int (unat (12 :: u32)), e1)" "front_inv (e1\<lparr>fe_mem := ?m\<rparr>)"
    "sessions e1 = (sessions ?e)(sess \<mapsto> t1)" "malloc_result e1 = malloc_result ?e"
    "seg_stream (msg_f2b t1) = seg_stream (msg_f2b t) @ bytes_at ?m hdr (unat (12 :: u32))"
    using engine_send[OF inv assms(2,5) _ _ assms(4), of 12] by auto
  have e1': "sessions e1 sess = Some t1" "\<forall>i. malloc_result e1 i \<noteq> 0" using e1(3,4) assms(4) by simp_all
  obtain e2 t2 where e2: "fe_sess_send engine_ops e1 ?m sess data (ucast len) = (int (unat len), e2)" "front_inv (e2\<lparr>fe_mem := ?m\<rparr>)"
    "sessions e2 = (sessions e1)(sess \<mapsto> t2)" "seg_stream (msg_f2b t2) = seg_stream (msg_f2b t1) @ bytes_at ?m data (unat len)"
    using engine_send[OF e1(2) e1'(1) assms(7) n(2,3) e1'(2)] n(1) by auto
  have bytes: "bytes_at ?m hdr 12 = forward_header sid bulk tot" "bytes_at ?m data (unat len) = bytes_at m data (unat len)"
    using bytes_at_put[of 0 "forward_header sid bulk tot" 12 m hdr] put_bytes_apart(2)[of data "unat len" hdr "forward_header sid bulk tot" m] assms(10)
    by simp_all
  have "sess \<noteq> 0" using front_invD(1)[OF assms(1)] assms(2) by simp
  moreover have "fe_sess_state engine_ops ?e sess = FRONTEND_SESS_CONNECTED" using assms(2,3) by (simp add: engine_ops_def)
  ultimately have "ch1_send_with_header engine_ops s m hdr sess data len sid bulk tot =
      (HYPERAMP_OK, s\<lparr>g_forward_seq := g_forward_seq s + 1, fe_state := e2\<rparr>, ?m)"
    using e1(1) e2(1) by (simp add: ch1_send_with_header_def Let_def forward_header_written)
  then show ?thesis
    using e1 e2 bytes assms(2) by (simp add: up_stream_def forward_header_def)
qed

subsection \<open>Witnesses\<close>

definition demo_ch1_engine :: ch1_engine where
  "demo_ch1_engine = \<lparr>fe_mem = demo_mem, sessions = [16777216 \<mapsto> demo_session],
     pool = \<lparr>sess_num = 1, capacity = 1024, id_queue = [2, 3], queue_f2b = [16777216], queue_b2f = [], htable = [(1, 16777216)]\<rparr>,
     hyper_tx_queue = 4096, hyper_rx_queue = 262144, hyper_data_region = 65536, eng_ops = False,
     global_amp_tx_buf = 131072, l_msg_buf = 196608, l_block_size = 204800,
     frontend_bluetooth_sess = False, frontend_can_sess = False, frontend_zigbee_sess = False, frontend_lora_sess = False,
     frontend_powerlink_sess = False, frontend_modbustcp_sess = False,
     malloc_result = (\<lambda>n. 33554432), mallocs = 0, app = (16777216, 0)\<rparr>"

definition demo_ch1_state :: "ch1_engine ch1_state" where
  "demo_ch1_state = \<lparr>g_ch1_text_session = 16777216, g_ch1_bulk_session = 0, g_forward_seq = 0, fe_state = demo_ch1_engine\<rparr>"

lemma demo_ch1_inv: "front_inv (demo_ch1_engine\<lparr>fe_mem := demo_mem\<rparr>)"
proof -
  have "front_ready demo_ch1_engine"
    using demo_wf
    by (simp add: front_ready_def tx_ready_def shm_inv_def demo_ch1_engine_def demo_fields outside_def apart_def fits_def slot_def)
  moreover have "seg_ok demo_seg" by (simp add: seg_ok_def demo_seg_def)
  ultimately show ?thesis
    by (simp add: front_inv_def front_ready_def demo_ch1_engine_def demo_fields link_ok_def linked_def sess_ok_def segs_fit_def demo_session_def)
       (simp add: demo_seg_def)
qed

theorem ch1_forward_witness:
  "\<exists>s' m'. ch1_send_with_header engine_ops demo_ch1_state demo_mem 393216 16777216 458752 3 2 0 3 = (HYPERAMP_OK, s', m') \<and>
     up_stream 16777216 (fe_state s') =
       [104, 105, 0x44, 0x57, 0x46, 0x48, 2, 0, 0, 0, 3, 0, 0, 0] @ bytes_at demo_mem 458752 3"
proof -
  have a: "front_inv ((fe_state demo_ch1_state)\<lparr>fe_mem := demo_mem\<rparr>)" using demo_ch1_inv by (simp add: demo_ch1_state_def)
  have b: "sessions (fe_state demo_ch1_state) 16777216 = Some demo_session" "sess_state demo_session = FRONTEND_SESS_CONNECTED"
    "\<forall>i. malloc_result (fe_state demo_ch1_state) i \<noteq> 0" "(393216 :: addr) \<noteq> 0" "outside_tx (fe_state demo_ch1_state) demo_mem 393216 12"
    "(458752 :: addr) \<noteq> 0" "0 < (3 :: u64)" "(3 :: u64) < 2 ^ 31" "apart 458752 (unat (3 :: u64)) 393216 12"
    by (simp_all add: demo_ch1_state_def demo_ch1_engine_def demo_session_def outside_tx_def outside_def demo_fields apart_def fits_def slot_def)
  have "up_stream 16777216 (fe_state demo_ch1_state) = [104, 105]"
    by (simp add: up_stream_def demo_ch1_state_def demo_ch1_engine_def demo_session_def demo_seg_def)
  then show ?thesis using ch1_forward[OF a b, of 2 0 3] by auto
qed

end
