(* ===== verification/FPoolInv.thy ===== *)
theory FPoolInv
  imports FEngineInv
begin

unbundle bit_operations_syntax

text \<open>
  The life of a session: the identifiers of the pool, the request for a session, the answers of the back
  end, and what closing a session leaves behind.
\<close>

subsection \<open>Identifiers\<close>

text \<open>Free identifiers are distinct, not 0 and not in use; the pool counts its sessions.\<close>

definition ids_ok :: "'a frontend \<Rightarrow> bool" where
  "ids_ok s \<longleftrightarrow> distinct (id_queue (pool s)) \<and> 0 \<notin> set (id_queue (pool s)) \<and> 0 \<notin> fst ` set (htable (pool s)) \<and>
     fst ` set (htable (pool s)) \<inter> set (id_queue (pool s)) = {} \<and> sess_num (pool s) = int (length (htable (pool s)))"

lemma release_id_effect:
  "malloc_result s (mallocs s) \<noteq> 0 \<Longrightarrow>
   release_id i s = Some (s\<lparr>mallocs := Suc (mallocs s), pool := (pool s)\<lparr>id_queue := id_queue (pool s) @ [i]\<rparr>\<rparr>)"
  by (simp add: release_id_def malloc_def upd_pool_def)

lemma fill_id_loop_effect:
  assumes "\<forall>i. malloc_result s i \<noteq> 0"
  shows "fill_id_loop is s = Some (s\<lparr>mallocs := mallocs s + length is, pool := (pool s)\<lparr>id_queue := id_queue (pool s) @ is\<rparr>\<rparr>)"
  using assms by (induction "is" arbitrary: s) (simp_all add: release_id_effect)

text \<open>A pool that was just set up has the identifiers 1 to 1024.\<close>

definition fresh_pool :: FrontendSessionPool where
  "fresh_pool = \<lparr>sess_num = 0, capacity = 1024, id_queue = map of_nat [1..<1025], queue_f2b = [], queue_b2f = [], htable = []\<rparr>"

lemma init_pool_run:
  assumes "\<forall>i. malloc_result s i \<noteq> 0"
  shows "frontend_high_speed_init_pool s = Some (FRONTEND_PROXY_PROCESS_OK, s\<lparr>mallocs := mallocs s + 1024, pool := fresh_pool\<rparr>)"
  using assms
  by (simp add: frontend_high_speed_init_pool_def fill_id_queue_def fill_id_loop_effect upd_pool_def fresh_pool_def del: upt_Suc map_map)

lemma fresh_pool_ok:
  assumes "pool s = fresh_pool"
  shows "ids_ok s" "pool_ok s"
proof -
  have inj: "inj_on (of_nat :: nat \<Rightarrow> u16) {1..<1025}"
    by (rule inj_onI) (simp add: word_of_nat_eq_iff take_bit_nat_eq_self)
  have "(of_nat n :: u16) \<noteq> 0" if "n \<in> {1..<1025}" for n
    using inj_onD[OF inj, of n] that by (simp add: word_of_nat_eq_0_iff nat_dvd_not_less)
  then have "distinct (map (of_nat :: nat \<Rightarrow> u16) [1..<1025])" "0 \<notin> set (map (of_nat :: nat \<Rightarrow> u16) [1..<1025])"
    using inj by (force simp: distinct_map)+
  then show "ids_ok s" "pool_ok s"
    using assms by (simp_all add: fresh_pool_def ids_ok_def pool_ok_def del: upt_Suc map_map)
qed

subsection \<open>Requesting a session\<close>

definition create_header :: "u16 \<Rightarrow> SessMsgPara \<Rightarrow> GeneralProxyMsgHeader" where
  "create_header i para = sess_header i (para_backend_sess_id para) (SessMsgHeader 1 SESS_MSG_CREATE ACTION_TYPE_COMMAND (para_ip_version para) 10)"

text \<open>The request as it is put into the queue.\<close>

definition create_block :: "u16 \<Rightarrow> SessMsgPara \<Rightarrow> u8 list" where
  "create_block i para = [1, PROXY_MSG_TYPE_SESS] @ le16 i @ le16 (para_backend_sess_id para) @ le16 20 @
     le16 1 @ le16 SESS_MSG_CREATE @ le16 ACTION_TYPE_COMMAND @ le16 (para_ip_version para) @ le16 10 @ SessIPv4Params para"

lemma create_message_effect:
  assumes "front_ready s" "28 \<le> tx_block_size s" "para_ip_version para = SESS_IPV4_PROTO" "length (para_ipv4_addr para) = 4"
  shows "\<exists>m'. build_message (create_header i para) (Some (SessIPv4Params para)) s =
      Some (if 0 < tx_room s then FRONTEND_PROXY_PROCESS_OK else FRONTEND_PROXY_PROCESS_AGAIN, s\<lparr>fe_mem := m'\<rparr>) \<and> front_kept s m' \<and>
    (if 0 < tx_room s then \<exists>rest. queue_list m' (hyper_tx_queue s) (hyper_data_region s) = tx_list s @ [create_block i para @ rest]
     else queue_list m' (hyper_tx_queue s) (hyper_data_region s) = tx_list s)"
proof -
  let ?bs = "SessIPv4Params para" and ?hdr = "create_header i para"
  have len: "length ?bs = 10" using assms(4) by (simp add: SessIPv4Params_def)
  have inner: "build_proxy_inner M ?hdr (Some ?bs) b = Some (FRONTEND_PROXY_PROCESS_OK, 10, put_bytes M b (sess_body (inner_header ?hdr) ?bs))" for M b
    by (rule sess_inner) (use len assms(3) in \<open>auto simp: create_header_def sess_header_def SessMsgHeader_def SESS_MSG_PAYLOAD_LEN_def\<close>)
  have blk: "proxy_block (outer_header ?hdr) (sess_body (inner_header ?hdr) ?bs) = create_block i para"
    using len by (simp add: proxy_block_def proxy_header_bytes_def create_header_def sess_header_def SessMsgHeader_def sess_body_def create_block_def)
  have room: "Suc (queue_len (fe_mem s) (hyper_tx_queue s)) < unat (q_capacity (fe_mem s) (hyper_tx_queue s)) \<longleftrightarrow> 0 < tx_room s"
    by (auto simp: tx_room_def)
  have fit: "8 + length (sess_body (inner_header ?hdr) ?bs) \<le> unat (q_block_size (fe_mem s) (hyper_tx_queue s))" using assms(2) len by simp
  have pl: "length (sess_body (inner_header ?hdr) ?bs) = length (payload_bytes (Some ?bs)) + unat (10 :: u16)"
    by (simp add: payload_bytes_def)
  show ?thesis
    using general_message[OF assms(1)[unfolded front_ready_def] fit inner pl, unfolded room blk]
    unfolding build_message_def front_kept_def by (auto split: if_splits)
qed

text \<open>The session object after the request was prepared.\<close>

definition init_session :: "u16 \<Rightarrow> SessMsgPara \<Rightarrow> FrontendSession \<Rightarrow> FrontendSession" where
  "init_session i para t = t\<lparr>frontend_sess_id := i, backend_sess_id := para_backend_sess_id para, sess_ip_version := para_ip_version para,
     state_f2b := state_f2b t AND FRONTEND_SESS_LINKED_TO_QUEUE, state_b2f := state_b2f t AND FRONTEND_SESS_LINKED_TO_QUEUE,
     sess_state := FRONTEND_SESS_INITIALIZE, msg_f2b := [], msg_b2f := []\<rparr>"

lemma create_step1_unfold:
  "id_queue (pool s) = i # is \<Longrightarrow> i \<noteq> 0 \<Longrightarrow> sessions s a = Some t \<Longrightarrow>
   s0 = s\<lparr>pool := (pool s)\<lparr>id_queue := is\<rparr>, sessions := (sessions s)(a \<mapsto> init_session i para t)\<rparr> \<Longrightarrow>
   frontend_high_speed_create_sess_step1 a para s =
     (case build_message (create_header i para) (Some (SessIPv4Params para)) s0 of
        None \<Rightarrow> None
      | Some (ret, s) \<Rightarrow>
          if ret \<noteq> FRONTEND_PROXY_PROCESS_OK then map_option (Pair FRONTEND_PROXY_PROCESS_ERROR) (release_id i s)
          else (case upd_sess a (\<lambda>t. t\<lparr>sess_state := FRONTEND_SESS_CONNECTING\<rparr>) s of
                  None \<Rightarrow> None
                | Some s \<Rightarrow>
                    (case frontend_high_speed_insert_sess a s of
                       None \<Rightarrow> None
                     | Some (ret, s) \<Rightarrow>
                         if ret \<noteq> FRONTEND_PROXY_PROCESS_OK then map_option (Pair FRONTEND_PROXY_PROCESS_ERROR) (release_id i s)
                         else Some (FRONTEND_PROXY_PROCESS_OK, s))))"
  by (simp add: frontend_high_speed_create_sess_step1_def allocate_id_def upd_sess_def upd_pool_def init_session_def create_header_def
      map_option_case bind_split split: option.splits)

text \<open>Invariants of a front end in which the object of a session that is not in the table changed.\<close>

lemma new_session_inv:
  assumes "front_inv s" "pool_ok s" "sessions s a = Some t" "a \<notin> snd ` set (htable (pool s))"
    and "sessions s' = (sessions s)(a \<mapsto> t')" "same_env s (s'\<lparr>pool := pool s\<rparr>)" "front_kept s (fe_mem s')"
    and "queue_f2b (pool s') = queue_f2b (pool s)" "queue_b2f (pool s') = queue_b2f (pool s)"
    and "linked (state_f2b t') = linked (state_f2b t)" "linked (state_b2f t') = linked (state_b2f t)" "msg_f2b t' = []" "msg_b2f t' = []"
  shows "front_inv s'"
    "htable (pool s') = htable (pool s) \<Longrightarrow> pool_ok s'"
    "htable (pool s') = htable (pool s) @ [(i, a)] \<Longrightarrow> i \<notin> fst ` set (htable (pool s)) \<Longrightarrow> frontend_sess_id t' = i \<Longrightarrow> pool_ok s'"
proof -
  note k = assms(7)[unfolded front_kept_def tx_kept_def]
  have env: "hyper_tx_queue s' = hyper_tx_queue s" "hyper_data_region s' = hyper_data_region s" "global_amp_tx_buf s' = global_amp_tx_buf s"
    using assms(6) by (simp_all add: same_env_def)
  have "b \<noteq> 0 \<and> link_ok b s' \<and> sess_ok (tx_block_size s' - 8) u" if "sessions s' b = Some u" for b u
  proof (cases "b = a")
    case True
    then show ?thesis using that assms(5,8-) front_invD(1,2)[OF assms(1,3)] assms(3) by (simp add: link_ok_def sess_ok_def segs_fit_def)
  next
    case False
    then have "sessions s b = Some u" using that assms(5) by simp
    then show ?thesis using front_invD[OF assms(1) \<open>sessions s b = Some u\<close>] False assms(5,8,9) k env by (simp add: link_ok_def)
  qed
  then show "front_inv s'" using k env assms(1) by (simp add: front_inv_def front_ready_def)
  have old: "\<exists>u. sessions s' b = Some u \<and> frontend_sess_id u = j" if "(j, b) \<in> set (htable (pool s))" for j b
    using pool_search(2)[OF assms(2) that] assms(4,5) that by (cases "b = a") force+
  show "pool_ok s'" if "htable (pool s') = htable (pool s)"
    using assms(2,8,9) that old by (auto simp: pool_ok_def)
  show "pool_ok s'" if "htable (pool s') = htable (pool s) @ [(i, a)]" "i \<notin> fst ` set (htable (pool s))" "frontend_sess_id t' = i"
  proof -
    have "sessions s' a = Some t'" using assms(5) by simp
    then have "\<forall>(j, b) \<in> set (htable (pool s')). \<exists>u. sessions s' b = Some u \<and> frontend_sess_id u = j" using that old by auto
    then show ?thesis using assms(2,4,8,9) that(1,2) unfolding pool_ok_def by auto
  qed
qed

text \<open>The front end after a request that was accepted: the object \<open>a\<close> is in the table under identifier \<open>i\<close>.\<close>

definition requested :: "addr \<Rightarrow> u16 \<Rightarrow> u16 list \<Rightarrow> SessMsgPara \<Rightarrow> FrontendSession \<Rightarrow> mem \<Rightarrow> 'a frontend \<Rightarrow> 'a frontend" where
  "requested a i is para t m s = s\<lparr>fe_mem := m, sessions := (sessions s)(a \<mapsto> (init_session i para t)\<lparr>sess_state := FRONTEND_SESS_CONNECTING\<rparr>),
     pool := (pool s)\<lparr>id_queue := is, htable := htable (pool s) @ [(i, a)], sess_num := sess_num (pool s) + 1\<rparr>\<rparr>"

lemma sess_connect_ok:
  assumes "front_inv s" "pool_ok s" "ids_ok s" "sessions s a = Some t" "a \<notin> snd ` set (htable (pool s))"
    and "para_ip_version para = SESS_IPV4_PROTO" "length (para_ipv4_addr para) = 4" "28 \<le> tx_block_size s"
    and "id_queue (pool s) = i # is" "0 < tx_room s"
  shows "\<exists>m' rest. frontend_sess_connect a para s = Some (FRONTEND_PROXY_PROCESS_OK, requested a i is para t m' s) \<and>
    front_kept s m' \<and> front_inv (requested a i is para t m' s) \<and> pool_ok (requested a i is para t m' s) \<and>
    ids_ok (requested a i is para t m' s) \<and> frontend_high_speed_search_sess (requested a i is para t m' s) i = Some a \<and>
    tx_list (requested a i is para t m' s) = tx_list s @ [create_block i para @ rest]"
proof -
  have i: "i \<noteq> 0" "i \<notin> fst ` set (htable (pool s))" "i \<notin> set is" using assms(3,9) by (auto simp: ids_ok_def)
  let ?t = "init_session i para t"
  define s0 where "s0 = s\<lparr>pool := (pool s)\<lparr>id_queue := is\<rparr>, sessions := (sessions s)(a \<mapsto> ?t)\<rparr>"
  have same: "tx_room s0 = tx_room s" "tx_list s0 = tx_list s" "front_ready s0" "tx_block_size s0 = tx_block_size s"
    "\<And>m. front_kept s0 m = front_kept s m"
    using assms(1) by (simp_all add: s0_def tx_room_def front_inv_def front_ready_def front_kept_def)
  from create_message_effect[OF same(3) _ assms(6,7), of i, unfolded same] assms(8,10) obtain m' rest where m':
    "build_message (create_header i para) (Some (SessIPv4Params para)) s0 = Some (FRONTEND_PROXY_PROCESS_OK, s0\<lparr>fe_mem := m'\<rparr>)"
    "front_kept s m'" "queue_list m' (hyper_tx_queue s0) (hyper_data_region s0) = tx_list s @ [create_block i para @ rest]" by auto
  note run = create_step1_unfold[OF assms(9) i(1) assms(4) s0_def, unfolded m'(1)]
  let ?t' = "?t\<lparr>sess_state := FRONTEND_SESS_CONNECTING\<rparr>" and ?s' = "requested a i is para t m' s"
  have ts: "linked (state_f2b ?t) = linked (state_f2b t)" "linked (state_b2f ?t) = linked (state_b2f t)" "msg_f2b ?t = []" "msg_b2f ?t = []"
    "frontend_sess_id ?t = i"
    by (simp_all add: init_session_def)
  have nf: "map_of (htable (pool s)) i = None" using i(2) by (simp add: map_of_eq_None_iff)
  have "frontend_sess_connect a para s = Some (FRONTEND_PROXY_PROCESS_OK, ?s')"
    using run nf ts(5)
    by (simp add: frontend_sess_connect_def requested_def s0_def upd_sess_def frontend_high_speed_insert_sess_def inc_sess_num_def upd_pool_def)
  moreover have "front_inv ?s'"
    by (rule new_session_inv(1)[OF assms(1,2,4,5), of _ ?t']; use m'(2) ts in \<open>simp add: requested_def same_env_def\<close>)
  moreover have "pool_ok ?s'"
    by (rule new_session_inv(3)[OF assms(1,2,4,5), of _ ?t' i]; use m'(2) ts i(2) in \<open>simp add: requested_def same_env_def\<close>)
  moreover have "ids_ok ?s'" using assms(3,9) i(3) by (auto simp: ids_ok_def requested_def)
  moreover have "frontend_high_speed_search_sess ?s' i = Some a"
    using nf by (simp add: requested_def frontend_high_speed_search_sess_def map_add_def)
  moreover have "tx_list ?s' = tx_list s @ [create_block i para @ rest]" using m'(3) by (simp add: requested_def s0_def)
  ultimately show ?thesis using m'(2) by blast
qed

text \<open>What the memory of a session object held before plays no role for a request, but for the linked bits.\<close>

lemma sess_connect_garbage:
  assumes "sessions s a = Some t" "id_queue (pool s) = i # is" "i \<noteq> 0"
  shows "frontend_sess_connect a para s = frontend_sess_connect a para (s\<lparr>sessions := (sessions s)(a \<mapsto> t\<lparr>msg_f2b := [], msg_b2f := []\<rparr>)\<rparr>)"
proof -
  let ?t = "t\<lparr>msg_f2b := [], msg_b2f := []\<rparr>" and ?u = "s\<lparr>pool := (pool s)\<lparr>id_queue := is\<rparr>, sessions := (sessions s)(a \<mapsto> init_session i para t)\<rparr>"
  let ?s = "s\<lparr>sessions := (sessions s)(a \<mapsto> ?t)\<rparr>"
  have "init_session i para ?t = init_session i para t" by (simp add: init_session_def)
  then have "?u = ?s\<lparr>pool := (pool ?s)\<lparr>id_queue := is\<rparr>, sessions := (sessions ?s)(a \<mapsto> init_session i para ?t)\<rparr>" by simp
  from create_step1_unfold[OF assms(2,3,1) refl] create_step1_unfold[OF _ assms(3) _ this] assms(2)
  show ?thesis by (simp add: frontend_sess_connect_def)
qed

text \<open>C11: a request for a session over IPv4, for an object that is not in the table of a well-formed pool.
  Without a free identifier it is refused and nothing changes. When the transmit queue is full it is refused, the
  identifier that was taken goes to the end of the free ones and the table is as before. Otherwise the session is entered
  under the first free identifier in state CONNECTING and the request, with identifiers, protocol, address and port, is the
  newest block of the transmit queue. The invariants of sessions, table, queues and identifiers are kept in every case.\<close>

theorem session_create:
  assumes "front_inv s" "pool_ok s" "ids_ok s" "sessions s a = Some t" "a \<notin> snd ` set (htable (pool s))"
    and "para_ip_version para = SESS_IPV4_PROTO" "length (para_ipv4_addr para) = 4" "28 \<le> tx_block_size s" "\<forall>i. malloc_result s i \<noteq> 0"
  shows "case id_queue (pool s) of
      [] \<Rightarrow> frontend_sess_connect a para s = Some (FRONTEND_PROXY_PROCESS_ERROR, s)
    | i # is \<Rightarrow>
        if tx_room s = 0
        then \<exists>s'. frontend_sess_connect a para s = Some (FRONTEND_PROXY_PROCESS_ERROR, s') \<and>
          front_inv s' \<and> pool_ok s' \<and> ids_ok s' \<and> htable (pool s') = htable (pool s) \<and> id_queue (pool s') = is @ [i] \<and> tx_list s' = tx_list s
        else \<exists>s' t' rest. frontend_sess_connect a para s = Some (FRONTEND_PROXY_PROCESS_OK, s') \<and>
          front_inv s' \<and> pool_ok s' \<and> ids_ok s' \<and> frontend_high_speed_search_sess s' i = Some a \<and> id_queue (pool s') = is \<and>
          sessions s' = (sessions s)(a \<mapsto> t') \<and> sess_state t' = FRONTEND_SESS_CONNECTING \<and> frontend_sess_id t' = i \<and>
          tx_list s' = tx_list s @ [create_block i para @ rest]"
proof (cases "id_queue (pool s)")
  case Nil
  then show ?thesis by (simp add: frontend_sess_connect_def frontend_high_speed_create_sess_step1_def allocate_id_def)
next
  case (Cons i "is")
  show ?thesis
  proof (cases "tx_room s = 0")
    case True
    have i: "i \<noteq> 0" using assms(3) Cons by (auto simp: ids_ok_def)
    let ?t = "init_session i para t"
    define s0 where "s0 = s\<lparr>pool := (pool s)\<lparr>id_queue := is\<rparr>, sessions := (sessions s)(a \<mapsto> ?t)\<rparr>"
    have same: "tx_room s0 = tx_room s" "tx_list s0 = tx_list s" "front_ready s0" "tx_block_size s0 = tx_block_size s"
      "\<And>m. front_kept s0 m = front_kept s m"
      using assms(1) by (simp_all add: s0_def tx_room_def front_inv_def front_ready_def front_kept_def)
    from create_message_effect[OF same(3) _ assms(6,7), of i, unfolded same] assms(8) True obtain m' where m':
      "build_message (create_header i para) (Some (SessIPv4Params para)) s0 = Some (FRONTEND_PROXY_PROCESS_AGAIN, s0\<lparr>fe_mem := m'\<rparr>)"
      "front_kept s m'" "queue_list m' (hyper_tx_queue s0) (hyper_data_region s0) = tx_list s" by auto
    note run = create_step1_unfold[OF Cons i assms(4) s0_def, unfolded m'(1)]
    let ?s' = "s0\<lparr>fe_mem := m', mallocs := Suc (mallocs s), pool := (pool s)\<lparr>id_queue := is @ [i]\<rparr>\<rparr>"
    have "frontend_sess_connect a para s = Some (FRONTEND_PROXY_PROCESS_ERROR, ?s')"
      using run assms(9) by (simp add: frontend_sess_connect_def release_id_effect s0_def)
    moreover have "front_inv ?s'" "pool_ok ?s'"
      by (rule new_session_inv[OF assms(1,2,4,5), of _ ?t]; use m'(2) in \<open>simp add: s0_def same_env_def init_session_def\<close>)+
    moreover have "ids_ok ?s'" using assms(3) Cons by (auto simp: ids_ok_def)
    ultimately show ?thesis using True Cons m'(3) by (simp add: s0_def)
  next
    case False
    then obtain m' rest where r: "frontend_sess_connect a para s = Some (FRONTEND_PROXY_PROCESS_OK, requested a i is para t m' s)"
      "front_inv (requested a i is para t m' s)" "pool_ok (requested a i is para t m' s)" "ids_ok (requested a i is para t m' s)"
      "frontend_high_speed_search_sess (requested a i is para t m' s) i = Some a"
      "tx_list (requested a i is para t m' s) = tx_list s @ [create_block i para @ rest]"
      using sess_connect_ok[OF assms(1-8) Cons] by blast
    have "sessions (requested a i is para t m' s) = (sessions s)(a \<mapsto> (init_session i para t)\<lparr>sess_state := FRONTEND_SESS_CONNECTING\<rparr>)"
      "id_queue (pool (requested a i is para t m' s)) = is" by (simp_all add: requested_def)
    moreover have "frontend_sess_id (init_session i para t) = i" by (simp add: init_session_def)
    ultimately show ?thesis using False Cons r
      by auto
  qed
qed

subsection \<open>Closing a session\<close>

lemma length_filter_snd:
  "distinct (map snd l) \<Longrightarrow> a \<in> snd ` set l \<Longrightarrow> Suc (length (filter (\<lambda>(_, b). b \<noteq> a) l)) = length l"
proof (induction l)
  case (Cons p l)
  show ?case
  proof (cases "snd p = a")
    case True
    then have "\<forall>q \<in> set l. snd q \<noteq> a" using Cons.prems(1) by (metis distinct.simps(2) imageI list.set_map list.simps(9))
    then have "filter (\<lambda>(_, b). b \<noteq> a) l = l" by (intro filter_True) auto
    then show ?thesis using True by (cases p) simp
  next
    case False
    then show ?thesis using Cons by (cases p) auto
  qed
qed simp

lemma delete_sess_effect:
  assumes "front_inv s" "pool_ok s" "ids_ok s" "(i, a) \<in> set (htable (pool s))" "\<forall>i. malloc_result s i \<noteq> 0"
  shows "\<exists>s'. frontend_high_speed_delete_sess a s = Some (FRONTEND_PROXY_PROCESS_OK, s') \<and>
    sessions s' = (sessions s)(a := None) \<and> htable (pool s') = filter (\<lambda>(_, b). b \<noteq> a) (htable (pool s)) \<and>
    id_queue (pool s') = id_queue (pool s) @ [i] \<and> queue_f2b (pool s') = remove1 a (queue_f2b (pool s)) \<and>
    queue_b2f (pool s') = queue_b2f (pool s) \<and> sess_num (pool s') = sess_num (pool s) - 1 \<and>
    fe_mem s' = fe_mem s \<and> same_env s (s'\<lparr>pool := pool s\<rparr>)"
proof -
  obtain t where t: "sessions s a = Some t" "frontend_sess_id t = i" using pool_search(2)[OF assms(2,4)] by blast
  note inv = front_invD[OF assms(1) t(1)]
  have in_table: "a \<in> snd ` set (htable (pool s))" using assms(4) by force
  define s1 where "s1 = s\<lparr>mallocs := Suc (mallocs s), pool := (pool s)\<lparr>htable := filter (\<lambda>(_, b). b \<noteq> a) (htable (pool s)),
    id_queue := id_queue (pool s) @ [i], sess_num := sess_num (pool s) - 1\<rparr>\<rparr>"
  have "frontend_high_speed_delete_sess a s =
      map_option (\<lambda>s. (FRONTEND_PROXY_PROCESS_OK, s\<lparr>sessions := (sessions s)(a := None)\<rparr>)) (FRONTEND_SESS_UNLINK_FROM_QUEUE_f2b a s1)"
    using inv(1) t in_table assms(5)
    by (simp add: frontend_high_speed_delete_sess_def hash_del_def release_id_effect dec_sess_num_def upd_pool_def s1_def map_option_case bind_split
        split: option.splits)
  moreover have "\<exists>st. FRONTEND_SESS_UNLINK_FROM_QUEUE_f2b a s1 = Some (s1\<lparr>pool := (pool s1)\<lparr>queue_f2b := remove1 a (queue_f2b (pool s))\<rparr>,
      sessions := (sessions s)(a \<mapsto> t\<lparr>state_f2b := st\<rparr>)\<rparr>)"
  proof (cases "linked (state_f2b t)")
    case True
    then show ?thesis using inv(2) t
      by (simp add: FRONTEND_SESS_UNLINK_FROM_QUEUE_f2b_def s1_def link_ok_def linked_def tailq_remove_def upd_pool_def upd_sess_def) blast
  next
    case False
    then show ?thesis using inv(2) t
      by (intro exI[of _ "state_f2b t"])
         (simp add: FRONTEND_SESS_UNLINK_FROM_QUEUE_f2b_def s1_def link_ok_def linked_def remove1_idem fun_upd_idem)
  qed
  ultimately show ?thesis by (auto simp: s1_def same_env_def)
qed

text \<open>Invariants after a session is gone; its identifier is free again.\<close>

lemma deleted_inv:
  assumes "front_inv s" "pool_ok s" "ids_ok s" "(i, a) \<in> set (htable (pool s))"
    and "sessions s' = (sessions s)(a := None)" "htable (pool s') = filter (\<lambda>(_, b). b \<noteq> a) (htable (pool s))"
      "id_queue (pool s') = id_queue (pool s) @ [i]" "queue_f2b (pool s') = remove1 a (queue_f2b (pool s))"
      "queue_b2f (pool s') = queue_b2f (pool s)" "sess_num (pool s') = sess_num (pool s) - 1"
      "fe_mem s' = fe_mem s" "same_env s (s'\<lparr>pool := pool s\<rparr>)"
  shows "front_inv s'" "ids_ok s'" "frontend_high_speed_search_sess s' i = None" "a \<notin> set (queue_b2f (pool s)) \<Longrightarrow> pool_ok s'"
proof -
  have dist: "distinct (queue_f2b (pool s))" "distinct (map fst (htable (pool s)))" "distinct (map snd (htable (pool s)))"
    using assms(2) by (simp_all add: pool_ok_def)
  have q: "set (queue_f2b (pool s')) = set (queue_f2b (pool s)) - {a}" using dist(1) assms(8) by simp
  have sub: "set (htable (pool s')) \<subseteq> set (htable (pool s))" using assms(6) by auto
  show "front_inv s'"
    using assms(1,5,9,11,12) q unfolding front_inv_def front_ready_def same_env_def
    by (auto simp: link_ok_def split: if_splits)
  have i: "i \<notin> set (id_queue (pool s))" "i \<noteq> 0" using assms(3,4) by (force simp: ids_ok_def)+
  have gone: "i \<notin> fst ` set (htable (pool s'))"
  proof
    assume "i \<in> fst ` set (htable (pool s'))"
    then obtain b where "(i, b) \<in> set (htable (pool s'))" by auto
    then have "(i, b) \<in> set (htable (pool s))" "b \<noteq> a" using assms(6) by auto
    then show False using assms(4) dist(2) by (auto simp: distinct_map dest: inj_onD[of fst _ "(i, a)" "(i, b)"])
  qed
  then show "frontend_high_speed_search_sess s' i = None" by (simp add: frontend_high_speed_search_sess_def map_of_eq_None_iff)
  have "a \<in> snd ` set (htable (pool s))" using assms(4) by force
  note len = length_filter_snd[OF dist(3) this]
  have ids: "distinct (id_queue (pool s'))" "0 \<notin> set (id_queue (pool s'))" using assms(3,7) i by (simp_all add: ids_ok_def)
  have zero: "0 \<notin> fst ` set (htable (pool s'))" using sub assms(3) by (auto simp: ids_ok_def)
  have "fst ` set (htable (pool s')) \<inter> set (id_queue (pool s')) = {}"
  proof -
    have "fst ` set (htable (pool s')) \<subseteq> fst ` set (htable (pool s))" using sub by blast
    moreover have "fst ` set (htable (pool s)) \<inter> set (id_queue (pool s)) = {}" using assms(3) by (simp add: ids_ok_def)
    ultimately show ?thesis using assms(7) gone by (simp add: disjoint_iff) blast
  qed
  then show "ids_ok s'" using ids zero assms(3,6,10) len by (simp add: ids_ok_def)
  show "pool_ok s'" if no: "a \<notin> set (queue_b2f (pool s))"
  proof -
    have d: "distinct (map fst (htable (pool s')))" "distinct (map snd (htable (pool s')))"
      using dist(2,3) unfolding assms(6) by (simp_all add: distinct_map_filter)
    have e: "\<forall>(j, b) \<in> set (htable (pool s')). \<exists>u. sessions s' b = Some u \<and> frontend_sess_id u = j"
      using assms(2,5,6) by (auto simp: pool_ok_def)
    have img: "b \<in> snd ` set (htable (pool s'))" if "b \<in> snd ` set (htable (pool s))" "b \<noteq> a" for b
      using that assms(6) by force
    have "set (queue_f2b (pool s')) \<subseteq> snd ` set (htable (pool s'))" "set (queue_b2f (pool s')) \<subseteq> snd ` set (htable (pool s'))"
      unfolding q assms(9) using img no pool_queued[OF assms(2)] by blast+
    then show ?thesis using d e assms(2,8,9) unfolding pool_ok_def by simp
  qed
qed

text \<open>C12: when the back end answers that a session is closed, and the callback of the session touches nothing but
  data of the application, the session is freed, its identifier is the last of the free ones, no other session changes, the
  invariants of identifiers and sessions are kept, and those of table and queues too unless the session has unread data.\<close>

theorem session_close:
  assumes "front_inv s" "pool_ok s" "ids_ok s" "frontend_high_speed_search_sess s i = Some a" "\<forall>i. malloc_result s i \<noteq> 0"
    and "call_event_callback cbs a (if fe_mem s (fld msg 1) \<noteq> 0 then FRONTEND_SESS_EVENT_ABNORMAL else FRONTEND_SESS_EVENT_CLOSE) s = Some (s\<lparr>app := x\<rparr>)"
  shows "\<exists>s'. frontend_proxy_sess_msg_process_close_ver1 cbs i msg s = Some (FRONTEND_PROXY_PROCESS_OK, s') \<and>
    sessions s' = (sessions s)(a := None) \<and> frontend_high_speed_search_sess s' i = None \<and>
    id_queue (pool s') = id_queue (pool s) @ [i] \<and> front_inv s' \<and> ids_ok s' \<and>
    (a \<notin> set (queue_b2f (pool s)) \<longrightarrow> pool_ok s')"
proof -
  let ?s = "s\<lparr>app := x\<rparr>"
  have inv: "front_inv ?s" "pool_ok ?s" "ids_ok ?s" "(i, a) \<in> set (htable (pool ?s))" "\<forall>i. malloc_result ?s i \<noteq> 0"
    using assms(1-3,5) search_in[OF assms(4)] by (simp_all add: front_inv_def front_ready_def link_ok_def pool_ok_def ids_ok_def)
  obtain s' where s': "frontend_high_speed_delete_sess a ?s = Some (FRONTEND_PROXY_PROCESS_OK, s')"
    and eff: "sessions s' = (sessions ?s)(a := None)" "htable (pool s') = filter (\<lambda>(_, b). b \<noteq> a) (htable (pool ?s))"
    "id_queue (pool s') = id_queue (pool ?s) @ [i]" "queue_f2b (pool s') = remove1 a (queue_f2b (pool ?s))"
    "queue_b2f (pool s') = queue_b2f (pool ?s)" "sess_num (pool s') = sess_num (pool ?s) - 1"
    "fe_mem s' = fe_mem ?s" "same_env ?s (s'\<lparr>pool := pool ?s\<rparr>)"
    using delete_sess_effect[OF inv] by blast
  have "frontend_proxy_sess_msg_process_close_ver1 cbs i msg s = Some (FRONTEND_PROXY_PROCESS_OK, s')"
    using assms(4,6) s' by (simp add: frontend_proxy_sess_msg_process_close_ver1_def frontend_high_speed_close_sess_step2_def split: if_splits)
  then show ?thesis using deleted_inv[OF inv(1-4) eff] eff(1,3) by (intro exI[of _ s']) simp
qed

text \<open>C13: closing a session whose received data are unread leaves the freed session in the queue of sessions with received data;
  when it is the first of them, the next round of the engine uses the freed session.\<close>

theorem close_unread:
  assumes "front_inv s" "pool_ok s" "ids_ok s" "rx_ready s" "rx_list s = []"
    and "frontend_high_speed_search_sess s i = Some a" "queue_b2f (pool s) = a # rest" "\<forall>i. malloc_result s i \<noteq> 0"
  shows "\<exists>s'. frontend_high_speed_delete_sess a s = Some (FRONTEND_PROXY_PROCESS_OK, s') \<and> sessions s' a = None \<and>
    queue_b2f (pool s') = a # rest \<and> frontend_engine_run_hyperamp_once cbs s' = None"
proof -
  note ia = search_in[OF assms(6)]
  obtain s' where s': "frontend_high_speed_delete_sess a s = Some (FRONTEND_PROXY_PROCESS_OK, s')"
    and eff: "sessions s' = (sessions s)(a := None)" "htable (pool s') = filter (\<lambda>(_, b). b \<noteq> a) (htable (pool s))"
    "id_queue (pool s') = id_queue (pool s) @ [i]" "queue_f2b (pool s') = remove1 a (queue_f2b (pool s))"
    "queue_b2f (pool s') = queue_b2f (pool s)" "sess_num (pool s') = sess_num (pool s) - 1"
    "fe_mem s' = fe_mem s" "same_env s (s'\<lparr>pool := pool s\<rparr>)"
    using delete_sess_effect[OF assms(1-3) ia assms(8)] by blast
  have rx: "rx_ready s'" "rx_list s' = []"
    using assms(4,5) eff(7,8) by (simp_all add: rx_ready_def same_env_def)
  obtain m' where "frontend_engine_hyperamp_rx_queue_get s' = Some (FRONTEND_PROXY_PROCESS_AGAIN, s'\<lparr>fe_mem := m'\<rparr>)"
    using rx_again[OF deleted_inv(1)[OF assms(1-3) ia eff] rx] by blast
  then have step1: "eng_run_step1 cbs s' = Some (False, s'\<lparr>fe_mem := m'\<rparr>)" by (subst eng_run_step1.simps) simp
  have "eng_run_step2 cbs (tailq_first (queue_b2f (pool s'))) (s'\<lparr>fe_mem := m'\<rparr>) = None"
    using eff(1,5) assms(7)
    by (subst eng_run_step2.simps) (simp add: tailq_first_def tailq_next_def b2f_body_def call_event_callback_def)
  moreover have "hyper_rx_queue s' \<noteq> 0" "hyper_tx_queue s' \<noteq> 0"
    using rx(1) deleted_inv(1)[OF assms(1-3) ia eff]
    by (auto simp: rx_ready_def front_inv_def front_ready_def tx_ready_def shm_inv_def queue_wf_def layout_ok_def)
  ultimately have "frontend_engine_run_hyperamp_once cbs s' = None"
    using step1 by (simp add: frontend_engine_run_hyperamp_once_def)
  then show ?thesis using s' eff(1,5) assms(7) by (intro exI[of _ s']) simp
qed

text \<open>When the back end refuses a session, its identifier is given back although the session stays in the table,
  and the session is marked as connected: an identifier is free and in use at once.\<close>

lemma refused_create:
  assumes "pool_ok s" "frontend_high_speed_search_sess s i = Some a" "\<forall>i. malloc_result s i \<noteq> 0" "status \<noteq> 0"
  shows "\<exists>s' t'. frontend_high_speed_create_sess_step2 a bsid status s = Some (FRONTEND_PROXY_PROCESS_OK, s') \<and>
    sessions s' a = Some t' \<and> sess_state t' = FRONTEND_SESS_CONNECTED \<and> frontend_high_speed_search_sess s' i = Some a \<and>
    i \<in> set (id_queue (pool s')) \<and> \<not> ids_ok s'"
proof -
  obtain t where t: "sessions s a = Some t" "frontend_sess_id t = i"
    using pool_search(2)[OF assms(1) search_in[OF assms(2)]] by blast
  have "i \<in> fst ` set (htable (pool s))" using search_in[OF assms(2)] by force
  then show ?thesis using assms(2-4) t
    by (auto simp: frontend_high_speed_create_sess_step2_def release_id_effect upd_sess_def frontend_high_speed_search_sess_def ids_ok_def)
qed

subsection \<open>Witnesses\<close>

definition demo_para :: SessMsgPara where
  "demo_para = \<lparr>para_frontend_sess_id = 0xFFFF, para_backend_sess_id = 0xFFFF, para_dev_id = 0xFF, para_ip_version = SESS_IPV4_PROTO,
     para_trans_proto = 6, para_ipv4_addr = [10, 0, 0, 1], para_port = 80\<rparr>"

text \<open>A transmit queue with blocks of 32 bytes, and a front end with a session object that is not in the table yet.\<close>

definition demo_config32 :: HyperampQueueConfig where
  "demo_config32 = demo_config\<lparr>cfg_block_size := 32\<rparr>"

definition demo_new_front :: "unit frontend" where
  "demo_new_front = demo_front\<lparr>fe_mem := inited (\<lambda>_. 0) 4096 demo_config32, pool := (pool demo_front)\<lparr>htable := [], sess_num := 0, queue_f2b := []\<rparr>,
     sessions := [16777216 \<mapsto> demo_session\<lparr>state_f2b := 0, msg_f2b := []\<rparr>]\<rparr>"

lemma demo_new_fields:
  "q_header (inited (\<lambda>_. 0) 4096 demo_config32) 4096 = 0" "q_tail (inited (\<lambda>_. 0) 4096 demo_config32) 4096 = 0"
  "q_capacity (inited (\<lambda>_. 0) 4096 demo_config32) 4096 = 4" "q_block_size (inited (\<lambda>_. 0) 4096 demo_config32) 4096 = 32"
  "q_lock_value (inited (\<lambda>_. 0) 4096 demo_config32) 4096 = 0"
  by (subst inited_fields, simp_all add: demo_config32_def demo_config_def fits_def)+

lemma demo_new_inv: "front_inv demo_new_front" "pool_ok demo_new_front" "ids_ok demo_new_front"
proof -
  have "front_ready demo_new_front"
    by (simp add: front_ready_def tx_ready_def shm_inv_def queue_wf_def layout_ok_def demo_new_front_def demo_front_def demo_new_fields
        outside_def apart_def fits_def slot_def)
  then show "front_inv demo_new_front"
    by (simp add: front_inv_def demo_new_front_def demo_front_def demo_new_fields link_ok_def linked_def sess_ok_def segs_fit_def demo_session_def)
qed (simp_all add: pool_ok_def ids_ok_def demo_new_front_def demo_front_def)

theorem session_create_witness:
  "\<exists>s' rest. frontend_sess_connect 16777216 demo_para demo_new_front = Some (FRONTEND_PROXY_PROCESS_OK, s') \<and>
     frontend_high_speed_search_sess s' 2 = Some 16777216 \<and>
     tx_list s' = [create_block 2 demo_para @ rest]"
proof -
  have "sessions demo_new_front 16777216 = Some (demo_session\<lparr>state_f2b := 0, msg_f2b := []\<rparr>)" "16777216 \<notin> snd ` set (htable (pool demo_new_front))"
    "para_ip_version demo_para = SESS_IPV4_PROTO" "length (para_ipv4_addr demo_para) = 4" "28 \<le> tx_block_size demo_new_front"
    "\<forall>i. malloc_result demo_new_front i \<noteq> 0"
    by (simp_all add: demo_new_front_def demo_front_def demo_para_def demo_new_fields)
  from session_create[OF demo_new_inv this] show ?thesis
    by (auto simp: demo_new_front_def demo_front_def tx_room_def demo_new_fields queue_len_def ring_count_def queue_list_def[of "inited _ _ _"])
qed

lemma demo_rx_ids: "ids_ok demo_rx_front"
  by (simp add: ids_ok_def demo_rx_front_def demo_front_def)

lemma demo_rx_malloc: "\<forall>i. malloc_result demo_rx_front i \<noteq> 0"
  by (simp add: demo_rx_front_def demo_front_simps)

theorem session_close_witness:
  "\<exists>s'. frontend_proxy_sess_msg_process_close_ver1 (\<lambda>_ _ _ s. Some s) 1 0 demo_rx_front = Some (FRONTEND_PROXY_PROCESS_OK, s') \<and>
     sessions s' 16777216 = None \<and> id_queue (pool s') = [2, 3, 1] \<and> pool_ok s'"
proof -
  have "call_event_callback (\<lambda>_ _ _ s. Some s) 16777216 e demo_rx_front = Some (demo_rx_front\<lparr>app := ()\<rparr>)"
    if "e = FRONTEND_SESS_EVENT_ABNORMAL \<or> e = FRONTEND_SESS_EVENT_CLOSE" for e
    using that by (auto simp: call_event_callback_def demo_rx_front_def demo_front_def demo_session_def default_session_event_callback_def)
  then have "call_event_callback (\<lambda>_ _ _ s. Some s) 16777216 (if fe_mem demo_rx_front (fld 0 1) \<noteq> 0 then FRONTEND_SESS_EVENT_ABNORMAL
      else FRONTEND_SESS_EVENT_CLOSE) demo_rx_front = Some (demo_rx_front\<lparr>app := ()\<rparr>)" by simp
  from session_close[OF demo_rx_front_inv demo_rx_pool demo_rx_ids demo_rx_search demo_rx_malloc this]
  show ?thesis by (auto simp: demo_rx_front_def demo_front_def)
qed

text \<open>The front end with a received segment that is unread.\<close>

definition demo_unread_front :: "unit frontend" where
  "demo_unread_front = demo_front\<lparr>fe_mem := demo_rx_idle, pool := (pool demo_front)\<lparr>queue_b2f := [16777216]\<rparr>,
     sessions := [16777216 \<mapsto> demo_session\<lparr>state_b2f := 1, msg_b2f := [demo_seg]\<rparr>]\<rparr>"

lemma demo_unread_inv:
  "front_inv demo_unread_front" "pool_ok demo_unread_front" "ids_ok demo_unread_front" "rx_ready demo_unread_front" "rx_list demo_unread_front = []"
proof -
  have "front_ready demo_unread_front"
    using demo_idle_tx(1,2)
    by (simp add: front_ready_def tx_ready_def shm_inv_def demo_unread_front_def demo_front_def demo_idle_tx outside_def apart_def fits_def slot_def)
  moreover have "seg_ok demo_seg" by (simp add: seg_ok_def demo_seg_def)
  ultimately show "front_inv demo_unread_front"
    by (simp add: front_inv_def demo_unread_front_def demo_front_def demo_idle_tx link_ok_def linked_def sess_ok_def segs_fit_def demo_session_def)
       (simp add: demo_seg_def)
  show "rx_ready demo_unread_front"
    using demo_rx_wf
    by (simp add: rx_ready_def demo_unread_front_def demo_front_def shm_inv_def recv_bufs_def outside_def demo_rx_fields demo_idle_tx
        apart_def fits_def slot_def)
  show "rx_list demo_unread_front = []"
    by (simp add: demo_unread_front_def demo_front_def queue_list_def queue_len_def demo_rx_fields ring_count_def)
qed (simp_all add: pool_ok_def ids_ok_def demo_unread_front_def demo_front_def demo_session_def)

theorem close_unread_witness:
  "\<exists>s'. frontend_high_speed_delete_sess 16777216 demo_unread_front = Some (FRONTEND_PROXY_PROCESS_OK, s') \<and>
     frontend_engine_run_hyperamp_once (\<lambda>_ _ _ s. Some s) s' = None"
proof -
  have "frontend_high_speed_search_sess demo_unread_front 1 = Some 16777216" "queue_b2f (pool demo_unread_front) = [16777216]"
    "\<forall>i. malloc_result demo_unread_front i \<noteq> 0"
    by (simp_all add: frontend_high_speed_search_sess_def demo_unread_front_def demo_front_def)
  from close_unread[OF demo_unread_inv this] show ?thesis by blast
qed

end
