(* ===== verification/ChannelCh0.thy ===== *)
theory ChannelCh0
  imports ChannelCh1 "HOL-Library.Sublist"
begin

unbundle bit_operations_syntax

text \<open>
  The encryption and verification channel of the HyperAMP server,
  \<^verbatim>\<open>hyperamp-server/src/channel_ch0.c\<close>. A request is a block of the receive queue: an 8-byte header
  and a payload, or a header and a 16-byte descriptor of a region of the data area (a bulk request).
  Local variables whose address the code takes are at the addresses of the record \<open>ch0_locals\<close>;
  messages that are only printed are not modelled.
\<close>

subsection \<open>Constants and local buffers\<close>

definition CH0_DATA_SIZE :: u32 where "CH0_DATA_SIZE = 2 * 1024 * 1024 - 8192"
definition HYPERAMP_MSG_MAX_SIZE :: u64 where "HYPERAMP_MSG_MAX_SIZE = 4088"

definition HYPERAMP_MSG_TYPE_DATA :: u8 where "HYPERAMP_MSG_TYPE_DATA = 3"
definition HYPERAMP_MSG_TYPE_SERVICE :: u8 where "HYPERAMP_MSG_TYPE_SERVICE = 0x10"
definition HYPERAMP_MSG_TYPE_BULK :: u8 where "HYPERAMP_MSG_TYPE_BULK = 0x20"

abbreviation (input) SERVICE_ECHO :: "'a::len word" where "SERVICE_ECHO \<equiv> 0"
abbreviation (input) SERVICE_ENCRYPT :: "'a::len word" where "SERVICE_ENCRYPT \<equiv> 1"
abbreviation (input) SERVICE_DECRYPT :: "'a::len word" where "SERVICE_DECRYPT \<equiv> 2"
abbreviation (input) SERVICE_VERIFY_ONLY :: "'a::len word" where "SERVICE_VERIFY_ONLY \<equiv> 3"
abbreviation (input) SERVICE_VERIFY_ENCRYPT :: "'a::len word" where "SERVICE_VERIFY_ENCRYPT \<equiv> 4"
abbreviation (input) SERVICE_VERIFY_DECRYPT :: "'a::len word" where "SERVICE_VERIFY_DECRYPT \<equiv> 5"
abbreviation (input) SERVICE_VALIDATE_ENCRYPT :: "'a::len word" where "SERVICE_VALIDATE_ENCRYPT \<equiv> 7"
abbreviation (input) SERVICE_VALIDATE_DECRYPT :: "'a::len word" where "SERVICE_VALIDATE_DECRYPT \<equiv> 8"

definition AUTH_OK :: int where "AUTH_OK = 0"
definition AUTH_FAILED_BAD_MAGIC :: int where "AUTH_FAILED_BAD_MAGIC = - 1"
definition AUTH_FAILED_BAD_SIG :: int where "AUTH_FAILED_BAD_SIG = - 2"
definition AUTH_FAILED_BAD_LEN :: int where "AUTH_FAILED_BAD_LEN = - 3"
definition VALIDATE_OK :: int where "VALIDATE_OK = 0"
definition VALIDATE_FAILED_MISSING :: int where "VALIDATE_FAILED_MISSING = - 10"
definition SIG_MAGIC :: u32 where "SIG_MAGIC = 0x53494731"

text \<open>\<^verbatim>\<open>sizeof(HyperampMsgHeader)\<close>, \<^verbatim>\<open>sizeof(HyperampBulkDescriptor)\<close>, \<^verbatim>\<open>sizeof(HyperampSignedHeader)\<close>.\<close>

abbreviation (input) SIZEOF_msg_hdr :: "u64" where "SIZEOF_msg_hdr \<equiv> 8"
abbreviation (input) SIZEOF_bulk_desc :: "u64" where "SIZEOF_bulk_desc \<equiv> 16"
abbreviation (input) SIZEOF_signed_hdr :: "u64" where "SIZEOF_signed_hdr \<equiv> 84"

record ch0_locals =
  l_msg_hdr :: addr      \<comment> \<open>\<^verbatim>\<open>HyperampMsgHeader msg_hdr\<close>, 8 bytes\<close>
  l_reply_buf :: addr    \<comment> \<open>\<^verbatim>\<open>char msg_buf[4096]\<close> of \<^verbatim>\<open>ch0_send_reply\<close>\<close>
  l_bulk_buf :: addr     \<comment> \<open>\<^verbatim>\<open>char msg_buf[128]\<close> of \<^verbatim>\<open>ch0_send_bulk_reply\<close>\<close>
  l_result_buf :: addr   \<comment> \<open>\<^verbatim>\<open>uint8_t result_buf[4088]\<close>\<close>
  l_chunk_buf :: addr    \<comment> \<open>\<^verbatim>\<open>uint8_t chunk_buf[4096]\<close>\<close>
  l_fwd_hdr :: addr      \<comment> \<open>\<^verbatim>\<open>ForwardHeader hdr\<close>, 12 bytes\<close>
  l_rx_buf :: addr       \<comment> \<open>\<^verbatim>\<open>char msg_buf[4096]\<close> of \<^verbatim>\<open>ch0_process_message\<close>\<close>
  l_rx_len :: addr       \<comment> \<open>\<^verbatim>\<open>size_t msg_len\<close>\<close>

text \<open>The packed message header: version, type, front-end session, back-end session, payload length.\<close>

definition put_msg_header :: "mem \<Rightarrow> addr \<Rightarrow> u8 \<Rightarrow> u8 \<Rightarrow> u16 \<Rightarrow> u16 \<Rightarrow> u16 \<Rightarrow> mem" where
  "put_msg_header m p version proxy_msg_type frontend_sess_id backend_sess_id payload_len =
     (let m = m(fld p 0 := version);
          m = m(fld p 1 := proxy_msg_type);
          m = write_u16 m (fld p 2) frontend_sess_id;
          m = write_u16 m (fld p 4) backend_sess_id
      in write_u16 m (fld p 6) payload_len)"

subsection \<open>Replies\<close>

definition ch0_send_reply ::
  "ch0_locals \<Rightarrow> mem \<Rightarrow> ChannelContext option \<Rightarrow> addr \<Rightarrow> u64 \<Rightarrow> u16 \<Rightarrow> u16 \<Rightarrow> (int \<times> mem) option" where
  "ch0_send_reply l m ctx reply_data reply_len frontend_sess backend_sess =
     (let m = put_msg_header m (l_msg_hdr l) 1 HYPERAMP_MSG_TYPE_DATA frontend_sess backend_sess (ucast reply_len);
          total_size = SIZEOF_msg_hdr + reply_len
      in if total_size > ucast DEFAULT_BLOCK_SIZE then Some (HYPERAMP_ERROR, m)
         else
           let m = hyperamp_safe_memcpy m (l_reply_buf l) (l_msg_hdr l) SIZEOF_msg_hdr;
               m = (if reply_len > 0 then hyperamp_safe_memcpy m (l_reply_buf l + SIZEOF_msg_hdr) reply_data reply_len else m)
           in shm_write_buffer m ctx (l_reply_buf l) total_size)"

definition ch0_send_bulk_reply :: "ch0_locals \<Rightarrow> mem \<Rightarrow> ChannelContext option \<Rightarrow> addr \<Rightarrow> (int \<times> mem) option" where
  "ch0_send_bulk_reply l m ctx desc =
     (let m = put_msg_header m (l_msg_hdr l) 1 HYPERAMP_MSG_TYPE_BULK 0 0 (ucast SIZEOF_bulk_desc);
          m = hyperamp_safe_memcpy m (l_bulk_buf l) (l_msg_hdr l) SIZEOF_msg_hdr;
          m = hyperamp_safe_memcpy m (l_bulk_buf l + SIZEOF_msg_hdr) desc SIZEOF_bulk_desc
      in shm_write_buffer m ctx (l_bulk_buf l) (SIZEOF_msg_hdr + SIZEOF_bulk_desc))"

subsection \<open>Forwarding to the network channel\<close>

definition ch0_try_forward_to_ch1 ::
  "'e frontend_ops \<Rightarrow> ch0_locals \<Rightarrow> 'e ch1_state \<Rightarrow> mem \<Rightarrow> addr \<Rightarrow> u64 \<Rightarrow> u8 \<Rightarrow> int \<times> 'e ch1_state \<times> mem" where
  "ch0_try_forward_to_ch1 fe l s m data len service_id =
     (if \<not> ch1_is_text_ready fe s then (HYPERAMP_ERROR, s, m)
      else ch1_forward_text_data fe s m (l_fwd_hdr l) data len service_id)"

text \<open>
  The loop of \<^verbatim>\<open>ch0_try_forward_bulk_to_ch1\<close>. It retries a chunk as long as the session accepts
  nothing, so it need not end: \<open>None\<close> when it does not.
\<close>

partial_function (option) ch0_forward_bulk_loop ::
  "'e frontend_ops \<Rightarrow> ch0_locals \<Rightarrow> addr \<Rightarrow> u32 \<Rightarrow> u8 \<Rightarrow> u32 \<Rightarrow> u32 \<Rightarrow> bool \<Rightarrow> 'e ch1_state \<Rightarrow> mem \<Rightarrow>
   (int \<times> 'e ch1_state \<times> mem) option" where
  "ch0_forward_bulk_loop fe l src len service_id remaining pos first_chunk s m =
     (if remaining = 0 then Some (HYPERAMP_OK, s, m)
      else
        let chunk = (if remaining > 4096 then 4096 else remaining);
            m = hyperamp_safe_memcpy m (l_chunk_buf l) (src + ucast pos) (ucast chunk)
        in if first_chunk then
             let (ret, s, m) = ch1_forward_bulk_data fe s m (l_fwd_hdr l) (l_chunk_buf l) (ucast chunk) service_id len
             in if ret = HYPERAMP_OK then do {
                  (s, m) \<leftarrow> fe_run_once fe s m;
                  ch0_forward_bulk_loop fe l src len service_id (remaining - chunk) (pos + chunk) False s m
                }
                else Some (HYPERAMP_ERROR, s, m)
           else
             let (ret, s) = ch1_forward_bulk_raw_data fe s m (l_chunk_buf l) (ucast chunk)
             in if ret < 0 then Some (HYPERAMP_ERROR, s, m)
                else if ret = 0 then do {
                  (s, m) \<leftarrow> fe_run_once fe s m;
                  ch0_forward_bulk_loop fe l src len service_id remaining pos False s m
                }
                else do {
                  (s, m) \<leftarrow> fe_run_once fe s m;
                  ch0_forward_bulk_loop fe l src len service_id (remaining - of_int ret) (pos + of_int ret) False s m
                })"

definition ch0_try_forward_bulk_to_ch1 ::
  "'e frontend_ops \<Rightarrow> ch0_locals \<Rightarrow> 'e ch1_state \<Rightarrow> mem \<Rightarrow> ChannelContext \<Rightarrow> u32 \<Rightarrow> u32 \<Rightarrow> u8 \<Rightarrow>
   (int \<times> 'e ch1_state \<times> mem) option" where
  "ch0_try_forward_bulk_to_ch1 fe l s m ctx offset len service_id =
     (if \<not> ch1_is_bulk_ready fe s then Some (HYPERAMP_ERROR, s, m)
      else ch0_forward_bulk_loop fe l (data_region ctx + ucast offset) len service_id len 0 True s m)"

subsection \<open>Services\<close>

text \<open>\<^verbatim>\<open>for (i = 0; i < n; i++) p[i] ^= 0x5A\<close>, the loop of every encryption and decryption.\<close>

definition xor_bytes :: "mem \<Rightarrow> addr \<Rightarrow> nat \<Rightarrow> mem" where
  "xor_bytes m p n = fold (\<lambda>i m. m(p + of_nat i := m (p + of_nat i) XOR 0x5A)) [0..<n] m"

definition ch0_service_echo :: "addr \<Rightarrow> u64 \<Rightarrow> int" where
  "ch0_service_echo data_ptr len = HYPERAMP_OK"

definition ch0_service_encrypt ::
  "'e frontend_ops \<Rightarrow> ch0_locals \<Rightarrow> 'e ch1_state \<Rightarrow> mem \<Rightarrow> ChannelContext option \<Rightarrow> addr \<Rightarrow> u64 \<Rightarrow> u16 \<Rightarrow> u16 \<Rightarrow>
   (int \<times> 'e ch1_state \<times> mem) option" where
  "ch0_service_encrypt fe l s m ctx data_ptr len frontend_sess backend_sess =
     (let result_len = (if len > HYPERAMP_MSG_MAX_SIZE then HYPERAMP_MSG_MAX_SIZE else len);
          m = hyperamp_safe_memcpy m (l_result_buf l) data_ptr result_len;
          m = xor_bytes m (l_result_buf l) (unat result_len);
          (_, s, m) = ch0_try_forward_to_ch1 fe l s m (l_result_buf l) result_len SERVICE_ENCRYPT
      in do {
        (ret, m) \<leftarrow> ch0_send_reply l m ctx (l_result_buf l) result_len frontend_sess backend_sess;
        Some (ret, s, m)
      })"

definition ch0_service_decrypt ::
  "'e frontend_ops \<Rightarrow> ch0_locals \<Rightarrow> 'e ch1_state \<Rightarrow> mem \<Rightarrow> ChannelContext option \<Rightarrow> addr \<Rightarrow> u64 \<Rightarrow> u16 \<Rightarrow> u16 \<Rightarrow>
   (int \<times> 'e ch1_state \<times> mem) option" where
  "ch0_service_decrypt fe l s m ctx data_ptr len frontend_sess backend_sess =
     (let result_len = (if len > HYPERAMP_MSG_MAX_SIZE then HYPERAMP_MSG_MAX_SIZE else len);
          m = hyperamp_safe_memcpy m (l_result_buf l) data_ptr result_len;
          m = xor_bytes m (l_result_buf l) (unat result_len);
          (_, s, m) = ch0_try_forward_to_ch1 fe l s m (l_result_buf l) result_len SERVICE_DECRYPT
      in do {
        (ret, m) \<leftarrow> ch0_send_reply l m ctx (l_result_buf l) result_len frontend_sess backend_sess;
        Some (ret, s, m)
      })"

subsection \<open>Signed data\<close>

text \<open>\<^verbatim>\<open>HyperampSignedHeader\<close>: magic at 0, signature length at 4, payload length at 8, signature at 12.
  The outputs \<^verbatim>\<open>*payload_out\<close> and \<^verbatim>\<open>*payload_len_out\<close> are returned when they are set.\<close>

definition ch0_verify_signed_data :: "mem \<Rightarrow> addr \<Rightarrow> u64 \<Rightarrow> int \<times> (addr \<times> u64) option" where
  "ch0_verify_signed_data m data total_len =
     (if total_len < SIZEOF_signed_hdr then (AUTH_FAILED_BAD_LEN, None)
      else if read_u32 m (fld data 0) \<noteq> SIG_MAGIC then (AUTH_FAILED_BAD_MAGIC, None)
      else
        let sig_len = read_u16 m (fld data 4);
            payload_len = read_u32 m (fld data 8)
        in if sig_len < 64 \<or> sig_len > 72 then (AUTH_FAILED_BAD_SIG, None)
           else
             let expected_total = SIZEOF_signed_hdr + ucast payload_len
             in if total_len < expected_total then (AUTH_FAILED_BAD_LEN, None)
                else if m (fld data 12) \<noteq> 0x30 then (AUTH_FAILED_BAD_SIG, None)
                else (AUTH_OK, Some (data + SIZEOF_signed_hdr, ucast payload_len)))"

subsection \<open>Field validation\<close>

text \<open>The inner loop compares the needle with the haystack at one position; the outer loop tries
  \<open>n\<close> positions from \<open>i\<close> on. The result is the null pointer when no position matches.\<close>

fun strstr_match :: "mem \<Rightarrow> addr \<Rightarrow> u8 list \<Rightarrow> bool" where
  "strstr_match m p [] = True"
| "strstr_match m p (c # cs) = (if m p \<noteq> c then False else strstr_match m (p + 1) cs)"

fun strstr_scan :: "mem \<Rightarrow> addr \<Rightarrow> u8 list \<Rightarrow> nat \<Rightarrow> nat \<Rightarrow> addr" where
  "strstr_scan m haystack needle i 0 = 0"
| "strstr_scan m haystack needle i (Suc n) =
     (if strstr_match m (haystack + of_nat i) needle then haystack + of_nat i
      else strstr_scan m haystack needle (Suc i) n)"

definition ch0_simple_strstr :: "mem \<Rightarrow> addr \<Rightarrow> u64 \<Rightarrow> u8 list \<Rightarrow> addr" where
  "ch0_simple_strstr m haystack haystack_len needle =
     (if length needle > unat haystack_len then 0
      else strstr_scan m haystack needle 0 (Suc (unat haystack_len - length needle)))"

text \<open>The required fields: ``\<^verbatim>\<open>"ts":\<close>'', ``\<^verbatim>\<open>"img":\<close>'', ``\<^verbatim>\<open>"lvl":\<close>'', ``\<^verbatim>\<open>"scr":\<close>'',
  ``\<^verbatim>\<open>"cnt":\<close>'', ``\<^verbatim>\<open>"tgt":\<close>'', as ASCII bytes.\<close>

definition required_fields :: "u8 list list" where
  "required_fields =
     [[0x22, 0x74, 0x73, 0x22, 0x3A], [0x22, 0x69, 0x6D, 0x67, 0x22, 0x3A],
      [0x22, 0x6C, 0x76, 0x6C, 0x22, 0x3A], [0x22, 0x73, 0x63, 0x72, 0x22, 0x3A],
      [0x22, 0x63, 0x6E, 0x74, 0x22, 0x3A], [0x22, 0x74, 0x67, 0x74, 0x22, 0x3A]]"

fun validate_fields :: "mem \<Rightarrow> addr \<Rightarrow> u64 \<Rightarrow> u8 list list \<Rightarrow> int" where
  "validate_fields m data len [] = VALIDATE_OK"
| "validate_fields m data len (f # fs) =
     (if ch0_simple_strstr m data len f = 0 then VALIDATE_FAILED_MISSING else validate_fields m data len fs)"

definition ch0_validate_mission_data :: "mem \<Rightarrow> addr \<Rightarrow> u64 \<Rightarrow> int" where
  "ch0_validate_mission_data m data len = validate_fields m data len required_fields"

subsection \<open>Bulk requests\<close>

text \<open>
  The fields of a descriptor at \<open>desc\<close>: offset at 0, length at 4, service at 8, status at 12. The
  switch over the service works on the region \<open>data\<close> and updates the descriptor; the
  descriptor's length is read once, since the descriptor lies outside the region.
\<close>

definition put_status :: "mem \<Rightarrow> addr \<Rightarrow> int \<Rightarrow> mem" where
  "put_status m desc v = write_u32 m (fld desc 12) (of_int v)"

definition ch0_bulk_service :: "mem \<Rightarrow> addr \<Rightarrow> addr \<Rightarrow> mem" where
  "ch0_bulk_service m desc data =
     (let offset = read_u32 m (fld desc 0);
          len = read_u32 m (fld desc 4);
          service_id = read_u32 m (fld desc 8)
      in if service_id = SERVICE_ENCRYPT \<or> service_id = SERVICE_DECRYPT then
           put_status (xor_bytes m data (unat len)) desc 1
         else if service_id = SERVICE_VERIFY_ENCRYPT \<or> service_id = SERVICE_VERIFY_DECRYPT then
           (case ch0_verify_signed_data m data (ucast len) of
              (result, Some (actual_payload, actual_len)) \<Rightarrow>
                let m = xor_bytes m actual_payload (unat actual_len);
                    m = write_u32 m (fld desc 0) (offset + ucast SIZEOF_signed_hdr);
                    m = write_u32 m (fld desc 4) (ucast actual_len)
                in put_status m desc 1
            | (result, None) \<Rightarrow> put_status m desc result)
         else if service_id = SERVICE_VERIFY_ONLY then
           (let result = fst (ch0_verify_signed_data m data (ucast len))
            in put_status m desc (if result = AUTH_OK then 1 else result))
         else if service_id = SERVICE_VALIDATE_ENCRYPT then
           (let result = ch0_validate_mission_data m data (ucast len)
            in if result \<noteq> VALIDATE_OK then put_status m desc result
               else put_status (xor_bytes m data (unat len)) desc 1)
         else if service_id = SERVICE_VALIDATE_DECRYPT then
           (let m = xor_bytes m data (unat len);
                result = ch0_validate_mission_data m data (ucast len)
            in put_status m desc (if result = VALIDATE_OK then 1 else result))
         else put_status (xor_bytes m data (unat len)) desc 1)"

definition ch0_process_bulk ::
  "'e frontend_ops \<Rightarrow> ch0_locals \<Rightarrow> 'e ch1_state \<Rightarrow> mem \<Rightarrow> ChannelContext \<Rightarrow> addr \<Rightarrow> u64 \<Rightarrow>
   (int \<times> 'e ch1_state \<times> mem) option" where
  "ch0_process_bulk fe l s m ctx desc len =
     (if len < SIZEOF_bulk_desc then Some (HYPERAMP_ERROR, s, m)
      else if read_u32 m (fld desc 0) + read_u32 m (fld desc 4) > CH0_DATA_SIZE then do {
        (ret, m) \<leftarrow> ch0_send_bulk_reply l (put_status m desc (- 1)) (Some ctx) desc;
        Some (ret, s, m)
      }
      else do {
        let data = data_region ctx + ucast (read_u32 m (fld desc 0));
        let m = ch0_bulk_service m desc data;
        let service_id = read_u32 m (fld desc 8);
        (s, m) \<leftarrow>
          (if read_u32 m (fld desc 12) = 1 \<and>
              service_id \<in> {SERVICE_ENCRYPT, SERVICE_VERIFY_ENCRYPT, SERVICE_VALIDATE_ENCRYPT,
                            SERVICE_DECRYPT, SERVICE_VERIFY_DECRYPT, SERVICE_VALIDATE_DECRYPT}
           then do {
             (_, s, m) \<leftarrow> ch0_try_forward_bulk_to_ch1 fe l s m ctx (read_u32 m (fld desc 0))
                            (read_u32 m (fld desc 4)) (ucast service_id);
             Some (s, m)
           }
           else Some (s, m));
        (ret, m) \<leftarrow> ch0_send_bulk_reply l m (Some ctx) desc;
        Some (ret, s, m)
      })"

subsection \<open>Dispatch\<close>

definition ch0_process_normal_message ::
  "'e frontend_ops \<Rightarrow> ch0_locals \<Rightarrow> 'e ch1_state \<Rightarrow> mem \<Rightarrow> ChannelContext \<Rightarrow> addr \<Rightarrow> u64 \<Rightarrow> u16 \<Rightarrow> u16 \<Rightarrow> u16 \<Rightarrow>
   (int \<times> 'e ch1_state \<times> mem) option" where
  "ch0_process_normal_message fe l s m ctx data_ptr len service_id frontend_sess backend_sess =
     (if service_id = SERVICE_ECHO then Some (ch0_service_echo data_ptr len, s, m)
      else if service_id = SERVICE_ENCRYPT then
        ch0_service_encrypt fe l s m (Some ctx) data_ptr len frontend_sess backend_sess
      else if service_id = SERVICE_DECRYPT then
        ch0_service_decrypt fe l s m (Some ctx) data_ptr len frontend_sess backend_sess
      else Some (ch0_service_echo data_ptr len, s, m))"

definition ch0_process_message ::
  "'e frontend_ops \<Rightarrow> ch0_locals \<Rightarrow> 'e ch1_state \<Rightarrow> mem \<Rightarrow> ChannelContext option \<Rightarrow> (int \<times> 'e ch1_state \<times> mem) option" where
  "ch0_process_message fe l s m ctx =
     (case ctx of
        None \<Rightarrow> Some (HYPERAMP_ERROR, s, m)
      | Some c \<Rightarrow>
          if \<not> initialized c then Some (HYPERAMP_ERROR, s, m)
          else do {
            (ret, m) \<leftarrow> shm_read_buffer m (Some c) (l_rx_buf l) 4096 (l_rx_len l);
            if ret \<noteq> HYPERAMP_OK then Some (ret, s, m)
            else if read_u64 m (l_rx_len l) < SIZEOF_msg_hdr then Some (HYPERAMP_ERROR, s, m)
            else
              let hdr = l_rx_buf l;
                  payload_ptr = l_rx_buf l + SIZEOF_msg_hdr;
                  payload_len = ucast (read_u16 m (fld hdr 6));
                  proxy_msg_type = m (fld hdr 1);
                  frontend_sess_id = read_u16 m (fld hdr 2);
                  backend_sess_id = read_u16 m (fld hdr 4)
              in if proxy_msg_type = HYPERAMP_MSG_TYPE_BULK then
                   ch0_process_bulk fe l s m c payload_ptr payload_len
                 else if proxy_msg_type = HYPERAMP_MSG_TYPE_SERVICE then
                   ch0_process_normal_message fe l s m c payload_ptr payload_len frontend_sess_id
                     frontend_sess_id backend_sess_id
                 else
                   ch0_process_normal_message fe l s m c payload_ptr payload_len (ucast proxy_msg_type + 10)
                     frontend_sess_id backend_sess_id
          })"

subsection \<open>The XOR loop\<close>

lemma xor_bytes_0: "xor_bytes m p 0 = m"
  by (simp add: xor_bytes_def)

lemma xor_bytes_Suc:
  "xor_bytes m p (Suc n) = (xor_bytes m p n)(p + of_nat n := xor_bytes m p n (p + of_nat n) XOR 0x5A)"
  by (simp add: xor_bytes_def)

lemma xor_bytes_other: "(\<And>i. i < n \<Longrightarrow> b \<noteq> p + of_nat i) \<Longrightarrow> xor_bytes m p n b = m b"
  by (induction n) (auto simp: xor_bytes_0 xor_bytes_Suc)

lemma xor_bytes_byte: "i < n \<Longrightarrow> n \<le> 2 ^ 64 \<Longrightarrow> xor_bytes m p n (p + of_nat i) = m (p + of_nat i) XOR 0x5A"
proof (induction n)
  case 0
  then show ?case by simp
next
  case (Suc n)
  have neq: "p + of_nat i \<noteq> p + of_nat j" if "j \<noteq> i" "j < Suc n" for j
    using off_eq_iff[of i j p] that Suc.prems by auto
  show ?case
  proof (cases "i = n")
    case True
    then show ?thesis using neq by (simp add: xor_bytes_Suc xor_bytes_other)
  next
    case False
    then show ?thesis using Suc neq[of n] by (simp add: xor_bytes_Suc)
  qed
qed

definition crypt :: "u8 list \<Rightarrow> u8 list" where
  "crypt = map (\<lambda>b. b XOR 0x5A)"

lemma crypt_crypt [simp]: "crypt (crypt xs) = xs"
  by (simp add: crypt_def comp_def xor.assoc)

lemma length_crypt [simp]: "length (crypt xs) = length xs"
  by (simp add: crypt_def)

lemma bytes_at_xor: "n \<le> 2 ^ 64 \<Longrightarrow> bytes_at (xor_bytes m p n) p n = crypt (bytes_at m p n)"
  by (rule nth_equalityI) (simp_all add: crypt_def xor_bytes_byte)

lemma xor_bytes_apart [frame_simps]:
  assumes "apart a n p k"
  shows "read_le n (xor_bytes m p k) a = read_le n m a" "bytes_at (xor_bytes m p k) a n = bytes_at m a n"
  by (rule read_le_cong bytes_at_cong, rule xor_bytes_other, use apart_neq[OF assms] in auto)+

lemma apart_le: "apart a n b k \<Longrightarrow> n \<le> 2 ^ 64" "apart a n b k \<Longrightarrow> k \<le> 2 ^ 64"
  by (auto simp: apart_def fits_def)

subsection \<open>Searching a needle\<close>

lemma strstr_match_iff: "strstr_match m p needle \<longleftrightarrow> bytes_at m p (length needle) = needle"
proof (induction needle arbitrary: p)
  case Nil
  then show ?case by (simp add: bytes_at_def)
next
  case (Cons c cs)
  have "bytes_at m p (Suc (length cs)) = m p # bytes_at m (p + 1) (length cs)"
    using bytes_at_split[of 1 "Suc (length cs)" m p] by (simp add: bytes_at_def)
  then show ?case using Cons by auto
qed

lemma strstr_scan_spec:
  assumes "haystack \<noteq> 0" "fits haystack (i + n)"
  shows "if \<exists>k<n. strstr_match m (haystack + of_nat (i + k)) needle
    then \<exists>k<n. strstr_scan m haystack needle i n = haystack + of_nat (i + k) \<and> haystack + of_nat (i + k) \<noteq> 0 \<and>
       strstr_match m (haystack + of_nat (i + k)) needle \<and>
       (\<forall>j<k. \<not> strstr_match m (haystack + of_nat (i + j)) needle)
    else strstr_scan m haystack needle i n = 0"
  using assms
proof (induction n arbitrary: i)
  case 0
  then show ?case by simp
next
  case (Suc n)
  have nz: "haystack + of_nat i \<noteq> 0"
  proof -
    have "unat (haystack + of_nat i) = unat haystack + i" using Suc.prems(2) by (intro unat_add_off) auto
    moreover have "unat haystack \<noteq> 0" using Suc.prems(1) by (simp add: unsigned_eq_0_iff)
    ultimately show ?thesis by (metis add_is_0 unsigned_0)
  qed
  show ?case
  proof (cases "strstr_match m (haystack + of_nat i) needle")
    case True
    then show ?thesis using nz by (auto intro!: exI[of _ 0])
  next
    case False
    have ih: "if \<exists>k<n. strstr_match m (haystack + of_nat (Suc i + k)) needle
      then \<exists>k<n. strstr_scan m haystack needle (Suc i) n = haystack + of_nat (Suc i + k) \<and> haystack + of_nat (Suc i + k) \<noteq> 0 \<and>
         strstr_match m (haystack + of_nat (Suc i + k)) needle \<and>
         (\<forall>j<k. \<not> strstr_match m (haystack + of_nat (Suc i + j)) needle)
      else strstr_scan m haystack needle (Suc i) n = 0"
      using Suc.prems by (intro Suc.IH) auto
    have ex: "(\<exists>k<Suc n. strstr_match m (haystack + of_nat (i + k)) needle) \<longleftrightarrow>
        (\<exists>k<n. strstr_match m (haystack + of_nat (Suc i + k)) needle)"
      using False by (simp only: Ex_less_Suc2) simp
    show ?thesis
    proof (cases "\<exists>k<n. strstr_match m (haystack + of_nat (Suc i + k)) needle")
      case True
      then obtain k where k: "k < n" "strstr_scan m haystack needle (Suc i) n = haystack + of_nat (Suc i + k)"
         "haystack + of_nat (Suc i + k) \<noteq> 0" "strstr_match m (haystack + of_nat (Suc i + k)) needle"
         "\<forall>j<k. \<not> strstr_match m (haystack + of_nat (Suc i + j)) needle" using ih by auto
      have "\<forall>j<Suc k. \<not> strstr_match m (haystack + of_nat (i + j)) needle"
        using False k(5) by (simp only: All_less_Suc2) simp
      then show ?thesis unfolding ex using True k False by (intro if_P[THEN iffD2, OF True] exI[of _ "Suc k"]) auto
    qed (use ih False ex in auto)
  qed
qed

lemma sublist_bytes_at:
  "sublist needle (bytes_at m a n) \<longleftrightarrow> (\<exists>i. i + length needle \<le> n \<and> bytes_at m (a + of_nat i) (length needle) = needle)"
proof
  assume "sublist needle (bytes_at m a n)"
  then obtain ps ss where eq: "bytes_at m a n = ps @ needle @ ss" by (auto simp: sublist_def)
  then have len: "length ps + length needle + length ss = n" by (metis length_append length_bytes_at add.assoc)
  have "bytes_at m (a + of_nat (length ps)) (length needle) = needle"
  proof (rule nth_equalityI)
    fix j assume "j < length (bytes_at m (a + of_nat (length ps)) (length needle))"
    then have j: "j < length needle" by simp
    then have "bytes_at m a n ! (length ps + j) = needle ! j" by (simp add: eq nth_append)
    then show "bytes_at m (a + of_nat (length ps)) (length needle) ! j = needle ! j"
      using j len by (simp add: add.assoc)
  qed simp
  then show "\<exists>i. i + length needle \<le> n \<and> bytes_at m (a + of_nat i) (length needle) = needle"
    using len by (intro exI[of _ "length ps"]) simp
next
  assume "\<exists>i. i + length needle \<le> n \<and> bytes_at m (a + of_nat i) (length needle) = needle"
  then obtain i where i: "i + length needle \<le> n" "bytes_at m (a + of_nat i) (length needle) = needle" by blast
  have "bytes_at m a n = bytes_at m a i @ bytes_at m (a + of_nat i) (n - i)"
    using i(1) by (intro bytes_at_split) simp
  also have "bytes_at m (a + of_nat i) (n - i) =
      bytes_at m (a + of_nat i) (length needle) @ bytes_at m (a + of_nat i + of_nat (length needle)) (n - i - length needle)"
    using i(1) by (intro bytes_at_split) simp
  finally show "sublist needle (bytes_at m a n)" unfolding sublist_def i(2) by blast
qed

lemma strstr_found:
  assumes "haystack \<noteq> 0" "fits haystack (Suc (unat len))"
  shows "ch0_simple_strstr m haystack len needle \<noteq> 0 \<longleftrightarrow> sublist needle (bytes_at m haystack (unat len))"
proof (cases "length needle > unat len")
  case True
  then show ?thesis by (auto simp: ch0_simple_strstr_def sublist_bytes_at)
next
  case False
  define n where "n = Suc (unat len - length needle)"
  have f: "fits haystack (0 + n)" using assms(2) by (simp add: n_def fits_def)
  have "ch0_simple_strstr m haystack len needle \<noteq> 0 \<longleftrightarrow> (\<exists>k<n. strstr_match m (haystack + of_nat k) needle)"
    using strstr_scan_spec[OF assms(1) f, of m needle] False
    by (auto simp: ch0_simple_strstr_def n_def split: if_splits)
  also have "\<dots> \<longleftrightarrow> sublist needle (bytes_at m haystack (unat len))"
    using False by (auto simp: strstr_match_iff sublist_bytes_at n_def less_Suc_eq_le le_diff_conv2)
  finally show ?thesis .
qed

lemma validate_fields_iff:
  "validate_fields m data len fs =
     (if \<forall>f \<in> set fs. ch0_simple_strstr m data len f \<noteq> 0 then VALIDATE_OK else VALIDATE_FAILED_MISSING)"
  by (induction fs) auto

subsection \<open>Properties\<close>

text \<open>Searching a needle returns the address of its first occurrence within the
  given length, and the null pointer exactly when there is none.\<close>

lemma strstr_first:
  assumes "haystack \<noteq> 0" "fits haystack (Suc (unat len))"
  shows "let p = ch0_simple_strstr m haystack len needle in
    (p \<noteq> 0 \<longleftrightarrow> sublist needle (bytes_at m haystack (unat len))) \<and>
    (p \<noteq> 0 \<longrightarrow> (\<exists>k. p = haystack + of_nat k \<and> k + length needle \<le> unat len \<and>
       bytes_at m p (length needle) = needle \<and>
       (\<forall>j<k. bytes_at m (haystack + of_nat j) (length needle) \<noteq> needle)))"
proof -
  have first: "\<exists>k. ch0_simple_strstr m haystack len needle = haystack + of_nat k \<and> k + length needle \<le> unat len \<and>
       bytes_at m (haystack + of_nat k) (length needle) = needle \<and>
       (\<forall>j<k. bytes_at m (haystack + of_nat j) (length needle) \<noteq> needle)"
    if nz: "ch0_simple_strstr m haystack len needle \<noteq> 0"
  proof -
    have le: "length needle \<le> unat len" using nz by (auto simp: ch0_simple_strstr_def split: if_splits)
    define n where "n = Suc (unat len - length needle)"
    have f: "fits haystack (0 + n)" using assms(2) by (simp add: n_def fits_def)
    have eq: "ch0_simple_strstr m haystack len needle = strstr_scan m haystack needle 0 n"
      using le by (simp add: ch0_simple_strstr_def n_def)
    obtain k where "k < n" "strstr_scan m haystack needle 0 n = haystack + of_nat k"
       "strstr_match m (haystack + of_nat k) needle" "\<forall>j<k. \<not> strstr_match m (haystack + of_nat j) needle"
      using strstr_scan_spec[OF assms(1) f, of m needle] nz by (auto simp: eq split: if_splits)
    then show ?thesis using le by (intro exI[of _ k]) (auto simp: eq strstr_match_iff n_def)
  qed
  show ?thesis
  proof (unfold Let_def, intro conjI impI)
    assume "ch0_simple_strstr m haystack len needle \<noteq> 0"
    from first[OF this] obtain k where "ch0_simple_strstr m haystack len needle = haystack + of_nat k"
      "k + length needle \<le> unat len" "bytes_at m (haystack + of_nat k) (length needle) = needle"
      "\<forall>j<k. bytes_at m (haystack + of_nat j) (length needle) \<noteq> needle" by blast
    then show "\<exists>k. ch0_simple_strstr m haystack len needle = haystack + of_nat k \<and> k + length needle \<le> unat len \<and>
       bytes_at m (ch0_simple_strstr m haystack len needle) (length needle) = needle \<and>
       (\<forall>j<k. bytes_at m (haystack + of_nat j) (length needle) \<noteq> needle)"
      by (intro exI[of _ k] conjI) (simp_all only:)
  qed (rule strstr_found[OF assms])
qed

text \<open>Mission data is accepted exactly when each of the six required field
  names occurs in it.\<close>

lemma validate_mission:
  assumes "data \<noteq> 0" "fits data (Suc (unat len))"
  shows "ch0_validate_mission_data m data len =
    (if \<forall>f \<in> set required_fields. sublist f (bytes_at m data (unat len)) then VALIDATE_OK else VALIDATE_FAILED_MISSING)"
  by (simp add: ch0_validate_mission_data_def validate_fields_iff strstr_found[OF assms])

text \<open>C25: signed data is accepted exactly when it has the whole header, the magic
  number, a signature length between 64 and 72, at least the announced payload, and a signature that
  starts with the DER sequence tag; then the payload handed on starts behind the header and lies
  within the data. Every other outcome is one of the three error codes and hands on nothing.\<close>

theorem verify_signed:
  "case ch0_verify_signed_data m data total_len of
      (r, Some (payload, plen)) \<Rightarrow> r = AUTH_OK \<and> 84 \<le> total_len \<and> read_u32 m (fld data 0) = SIG_MAGIC \<and>
        64 \<le> read_u16 m (fld data 4) \<and> read_u16 m (fld data 4) \<le> 72 \<and> m (fld data 12) = 0x30 \<and>
        plen = ucast (read_u32 m (fld data 8)) \<and> payload = data + 84 \<and>
        unat payload + unat plen \<le> unat data + unat total_len
    | (r, None) \<Rightarrow>
        (r = AUTH_FAILED_BAD_LEN \<and> (total_len < 84 \<or> unat total_len < 84 + unat (read_u32 m (fld data 8)))) \<or>
        (r = AUTH_FAILED_BAD_MAGIC \<and> read_u32 m (fld data 0) \<noteq> SIG_MAGIC) \<or>
        (r = AUTH_FAILED_BAD_SIG \<and> (read_u16 m (fld data 4) < 64 \<or> 72 < read_u16 m (fld data 4) \<or> m (fld data 12) \<noteq> 0x30))"
proof -
  define pl where "pl = read_u32 m (fld data 8)"
  have pl: "unat (84 + ucast pl :: u64) = 84 + unat pl"
  proof -
    have "unat pl < 2 ^ 32" using unsigned_less[of pl] by simp
    then show ?thesis by (simp add: unat_word_ariths unat_ucast_up)
  qed
  have pay: "unat (data + 84) \<le> unat data + 84" by (simp add: unat_word_ariths)
  have le: "\<not> total_len < 84 + ucast pl \<longleftrightarrow> 84 + unat pl \<le> unat total_len"
    by (simp add: word_less_nat_alt pl not_less)
  show ?thesis
    using pay le by (auto simp: ch0_verify_signed_data_def pl_def[symmetric] Let_def unat_ucast_up not_less)
qed

subsection \<open>Bulk services\<close>

lemma desc_xor:
  "apart desc N p k \<Longrightarrow> i + n \<le> N \<Longrightarrow> read_le n (xor_bytes m p k) (fld desc i) = read_le n m (fld desc i)"
  by (rule read_le_cong, rule xor_bytes_other) (auto dest: fld_neq_apart[OF apart_sym])

lemmas desc_simps = read_write_fld_gen[where N = 16] bytes_at_write_fld_gen[where N = 16] desc_xor[where N = 16]

lemma validate_cong:
  assumes "bytes_at m' data (unat len) = bytes_at m data (unat len)" "data \<noteq> 0" "fits data (Suc (unat len))"
  shows "ch0_validate_mission_data m' data len = ch0_validate_mission_data m data len"
  using assms(1) by (simp add: ch0_validate_mission_data_def validate_fields_iff strstr_found[OF assms(2,3)])

text \<open>The services that transform the whole region, and when they do.\<close>

definition bulk_accepts :: "mem \<Rightarrow> addr \<Rightarrow> addr \<Rightarrow> bool" where
  "bulk_accepts m desc data \<longleftrightarrow> read_u32 m (fld desc 8) \<in> {1, 2} \<or>
     (read_u32 m (fld desc 8) = 7 \<and> ch0_validate_mission_data m data (ucast (read_u32 m (fld desc 4))) = VALIDATE_OK) \<or>
     (read_u32 m (fld desc 8) = 8 \<and>
      ch0_validate_mission_data (xor_bytes m data (unat (read_u32 m (fld desc 4)))) data (ucast (read_u32 m (fld desc 4))) = VALIDATE_OK)"

lemma bulk_accepts_mem:
  "bulk_accepts m desc data \<Longrightarrow>
   ch0_bulk_service m desc data = put_status (xor_bytes m data (unat (read_u32 m (fld desc 4)))) desc 1"
  by (auto simp: bulk_accepts_def ch0_bulk_service_def Let_def)

lemma bulk_accepts_effect:
  assumes "bulk_accepts m desc data" "apart desc 16 data (unat (read_u32 m (fld desc 4)))"
  shows "bytes_at (ch0_bulk_service m desc data) data (unat (read_u32 m (fld desc 4))) =
      crypt (bytes_at m data (unat (read_u32 m (fld desc 4))))"
    "read_u32 (ch0_bulk_service m desc data) (fld desc 12) = 1"
    "i + k \<le> 12 \<Longrightarrow> read_le k (ch0_bulk_service m desc data) (fld desc i) = read_le k m (fld desc i)"
  using assms(2) apart_sym[OF assms(2)] apart_le[OF assms(2)]
  by (auto simp: bulk_accepts_mem[OF assms(1)] put_status_def desc_simps bytes_at_xor apart_def)

text \<open>Encrypting a bulk region (plainly, or after validating its fields) turns
  every byte \<open>b\<close> of it into \<open>b XOR 0x5A\<close> and reports success; asking for the matching decryption of
  the result restores the region and reports success again.\<close>

lemma bulk_roundtrip:
  assumes sep: "apart desc 16 data n" and n: "n = unat (read_u32 m (fld desc 4))"
    and data: "data \<noteq> 0" "fits data (Suc n)"
    and fwd: "read_u32 m (fld desc 8) = 1 \<and> back = 2 \<or>
      read_u32 m (fld desc 8) = 7 \<and> back = 8 \<and>
      (\<forall>f \<in> set required_fields. sublist f (bytes_at m data n))"
  shows "let m1 = ch0_bulk_service m desc data;
             m2 = ch0_bulk_service (write_u32 m1 (fld desc 8) back) desc data
    in bytes_at m1 data n = crypt (bytes_at m data n) \<and> read_u32 m1 (fld desc 12) = 1 \<and>
       bytes_at m2 data n = bytes_at m data n \<and> read_u32 m2 (fld desc 12) = 1"
proof -
  let ?len = "read_u32 m (fld desc 4)"
  define m1 where "m1 = ch0_bulk_service m desc data"
  define mb where "mb = write_u32 m1 (fld desc 8) back"
  have n': "unat (ucast ?len :: u64) = n" by (simp add: n unat_ucast_up)
  have f: "fits desc 16" using sep by (simp add: apart_def)
  have val: "ch0_validate_mission_data m data (ucast ?len) = VALIDATE_OK" if "read_u32 m (fld desc 8) = 7"
    using fwd that strstr_found[of data "ucast ?len", unfolded n', OF data]
    by (auto simp: ch0_validate_mission_data_def validate_fields_iff)
  then have "bulk_accepts m desc data" using fwd by (auto simp: bulk_accepts_def)
  note e1 = bulk_accepts_effect[OF this sep[unfolded n], folded m1_def n]
  have len: "read_u32 mb (fld desc 4) = ?len" "read_u32 mb (fld desc 8) = back"
    using f e1(3)[of 4 4] by (simp_all add: mb_def desc_simps)
  have bytes: "bytes_at mb data n = crypt (bytes_at m data n)"
    using e1(1) apart_sym[OF sep] by (simp add: mb_def desc_simps)
  have "bytes_at (xor_bytes mb data n) data n = bytes_at m data n"
    using apart_le[OF sep] by (simp add: bytes_at_xor bytes)
  then have "ch0_validate_mission_data (xor_bytes mb data n) data (ucast ?len) = ch0_validate_mission_data m data (ucast ?len)"
    by (intro validate_cong) (simp_all add: n' data)
  then have "bulk_accepts mb desc data" using fwd val by (auto simp: bulk_accepts_def len n[symmetric])
  note e2 = bulk_accepts_effect[OF this, unfolded len, folded n, OF sep]
  show ?thesis using e1(1,2) e2(1,2) by (simp add: m1_def[symmetric] mb_def[symmetric] bytes Let_def)
qed




subsection \<open>A service request from the receive queue to the reply\<close>

text \<open>The local buffers and their sizes: none is null, all are outside both queues of the channel,
  and no two overlap.\<close>

definition ch0_bufs :: "ch0_locals \<Rightarrow> (addr \<times> nat) list" where
  "ch0_bufs l = [(l_msg_hdr l, 8), (l_reply_buf l, 4096), (l_bulk_buf l, 128), (l_result_buf l, 4088),
     (l_chunk_buf l, 4096), (l_fwd_hdr l, 12), (l_rx_buf l, 4096), (l_rx_len l, 8)]"

definition locals_ok :: "mem \<Rightarrow> ChannelContext \<Rightarrow> ch0_locals \<Rightarrow> bool" where
  "locals_ok m c l \<longleftrightarrow>
     list_all (\<lambda>(a, n). a \<noteq> 0 \<and> outside m (tx_queue c) (data_region c) a n \<and> outside m (rx_queue c) (data_region c) a n)
       (ch0_bufs l) \<and>
     sorted_wrt (\<lambda>(a, n) (b, k). apart a n b k \<and> apart b k a n) (ch0_bufs l)"

lemma bytes_at_put_msg_header:
  "fits p 8 \<Longrightarrow> bytes_at (put_msg_header m p v t fs bs pl) p 8 = [v, t] @ le16 fs @ le16 bs @ le16 pl"
proof -
  assume f: "fits p 8"
  have off: "(fld p i = fld p j) = (i = j)" if "i < 8" "j < 8" for i j
    using off_eq_iff[of i j p] that by (simp add: fld_def)
  have low: "ucast (w AND mask 8) = (ucast w :: u8)" "ucast (drop_bit 8 w AND mask 8) = (ucast (drop_bit 8 w) :: u8)" for w :: u16
    by (rule bit_word_eqI; auto simp: bit_simps)+
  have w16: "write_u16 m (fld p i) w = m(fld p i := ucast w, fld p (Suc i) := ucast (drop_bit 8 w))" for m i w
    by (simp add: write_le_def numeral_2_eq_2 upt_rec low fld_def add.assoc add.commute[of 1])
  have "bytes_at mm p 8 = map (\<lambda>i. mm (fld p i)) [0, 1, 2, 3, 4, 5, 6, 7]" for mm
    by (simp add: bytes_at_def fld_def upt_rec)
  then show ?thesis by (simp add: put_msg_header_def Let_def w16 off le16_def)
qed

lemma put_msg_header_apart:
  assumes "apart a n p 8"
  shows "bytes_at (put_msg_header m p v t fs bs pl) a n = bytes_at m a n"
  using assms by (simp add: put_msg_header_def Let_def byte_write_le bytes_at_write_fld_gen[where N = 8])

lemma bytes_at_append:
  "bytes_at m a (n + k) = bytes_at m a n @ bytes_at m (a + of_nat n) k"
  using bytes_at_split[of n "n + k" m a] by simp

text \<open>Writes outside a queue keep it.\<close>

lemma queue_keep:
  assumes "shm_inv q vb m"
    "bytes_at m' q SIZEOF_queue = bytes_at m q SIZEOF_queue"
    "bytes_at m' (slot vb (unat (q_block_size m q)) 0) (unat (q_capacity m q) * unat (q_block_size m q)) =
     bytes_at m (slot vb (unat (q_block_size m q)) 0) (unat (q_capacity m q) * unat (q_block_size m q))"
  shows "shm_inv q vb m'" "queue_list m' q vb = queue_list m q vb"
  using shm_idle_law[OF assms(1), of m'] assms(2,3) by (auto simp: shm_idle_def)

lemma send_reply_mem:
  assumes "apart (l_reply_buf l) 4096 (l_msg_hdr l) 8" "apart (l_reply_buf l) 4096 data 4088"
    "apart (l_msg_hdr l) 8 data 4088" "unat len \<le> 4088"
  shows "\<exists>m'. ch0_send_reply l m ctx data len fs bs = shm_write_buffer m' ctx (l_reply_buf l) (8 + len) \<and>
    bytes_at m' (l_reply_buf l) (8 + unat len) =
      [1, HYPERAMP_MSG_TYPE_DATA] @ le16 fs @ le16 bs @ le16 (ucast len) @ bytes_at m data (unat len) \<and>
    (\<forall>a n. apart a n (l_msg_hdr l) 8 \<and> apart a n (l_reply_buf l) 4096 \<longrightarrow> bytes_at m' a n = bytes_at m a n)"
proof -
  let ?R = "l_reply_buf l" and ?H = "l_msg_hdr l"
  define m1 where "m1 = put_msg_header m ?H 1 HYPERAMP_MSG_TYPE_DATA fs bs (ucast len)"
  define m2 where "m2 = copy_bytes m1 ?R ?H 8"
  define m3 where "m3 = copy_bytes m2 (?R + 8) data (unat len)"
  have u: "unat (8 + len) = 8 + unat len" using assms(4) by (simp add: unat_word_ariths)
  then have small: "\<not> 8 + len > ucast DEFAULT_BLOCK_SIZE"
    using assms(4) by (simp add: word_less_nat_alt unat_ucast_up DEFAULT_BLOCK_SIZE_def)
  have m3': "m3 = (if len > 0 then copy_bytes m2 (?R + 8) data (unat len) else m2)"
    by (cases "len = 0") (auto simp: m3_def copy_bytes_0 word_neq_0_conv)
  have eq: "ch0_send_reply l m ctx data len fs bs = shm_write_buffer m3 ctx ?R (8 + len)"
    unfolding m3' m2_def m1_def using small
    by (simp add: ch0_send_reply_def hyperamp_safe_memcpy_def Let_def)
  have fR: "fits ?R 4096" using assms(1) by (simp add: apart_def)
  have uR: "unat (?R + 8) = unat ?R + 8" using unat_add_off[OF fR, of 8] by simp
  have shift: "apart a n (?R + 8) (unat len)" if "apart a n ?R 4096" for a n
    using that assms(4) by (auto simp: apart_def fits_def uR)
  have frame: "bytes_at m3 a n = bytes_at m a n" if "apart a n ?H 8" "apart a n ?R 4096" for a n
  proof -
    have "apart a n ?R 8" using apart_mono_right[OF that(2)] by simp
    then show ?thesis using that shift[OF that(2)]
      by (simp add: m3_def m2_def m1_def copy_bytes_apart put_msg_header_apart)
  qed
  have r8: "apart ?R 8 (?R + 8) (unat len)"
    using assms(4) fR by (auto simp: apart_def fits_def uR)
  have "bytes_at m3 ?R 8 = bytes_at m1 ?H 8"
    using r8 bytes_at_copy[OF apart_mono[OF assms(1), of 8 8]] by (simp add: m3_def m2_def copy_bytes_apart)
  moreover have "bytes_at m3 (?R + 8) (unat len) = bytes_at m data (unat len)"
  proof -
    have d: "apart data (unat len) ?R 4096" "apart data (unat len) ?H 8"
      using assms by (auto intro: apart_sym apart_mono_left)
    have "bytes_at m3 (?R + 8) (unat len) = bytes_at m2 data (unat len)"
      unfolding m3_def using apart_sym[OF shift[OF d(1)]] by (rule bytes_at_copy) simp
    also have "\<dots> = bytes_at m data (unat len)"
      using d apart_mono_right[OF d(1), of 8] by (simp add: m2_def m1_def copy_bytes_apart put_msg_header_apart)
    finally show ?thesis .
  qed
  moreover have "bytes_at m1 ?H 8 = [1, HYPERAMP_MSG_TYPE_DATA] @ le16 fs @ le16 bs @ le16 (ucast len)"
    unfolding m1_def by (rule bytes_at_put_msg_header) (use assms(1) in \<open>simp add: apart_def\<close>)
  ultimately show ?thesis
    using eq frame bytes_at_append[of m3 ?R 8 "unat len"] by (intro exI[of _ m3]) auto
qed

text \<open>Encryption and decryption of a message are the same loop.\<close>

lemma service_crypt_mem:
  assumes "\<not> ch1_is_text_ready fe s" "unat len \<le> 4088"
  shows "ch0_service_encrypt fe l s m ctx p len fs bs =
      do { (ret, m) \<leftarrow> ch0_send_reply l (xor_bytes (copy_bytes m (l_result_buf l) p (unat len)) (l_result_buf l) (unat len))
             ctx (l_result_buf l) len fs bs; Some (ret, s, m) }"
    "ch0_service_decrypt fe l s m ctx p len fs bs = ch0_service_encrypt fe l s m ctx p len fs bs"
proof -
  have "\<not> len > HYPERAMP_MSG_MAX_SIZE" using assms(2) by (simp add: HYPERAMP_MSG_MAX_SIZE_def word_less_nat_alt)
  then show "ch0_service_encrypt fe l s m ctx p len fs bs =
      do { (ret, m) \<leftarrow> ch0_send_reply l (xor_bytes (copy_bytes m (l_result_buf l) p (unat len)) (l_result_buf l) (unat len))
             ctx (l_result_buf l) len fs bs; Some (ret, s, m) }"
    "ch0_service_decrypt fe l s m ctx p len fs bs = ch0_service_encrypt fe l s m ctx p len fs bs"
    using assms(1) by (simp_all add: ch0_service_encrypt_def ch0_service_decrypt_def hyperamp_safe_memcpy_def
        ch0_try_forward_to_ch1_def Let_def)
qed

lemma locals_okD:
  assumes "locals_ok m c l"
  shows "outside m (tx_queue c) (data_region c) (l_msg_hdr l) 8" "outside m (tx_queue c) (data_region c) (l_reply_buf l) 4096"
    "outside m (tx_queue c) (data_region c) (l_result_buf l) 4088" "outside m (tx_queue c) (data_region c) (l_rx_buf l) 4096"
    "outside m (tx_queue c) (data_region c) (l_rx_len l) 8"
    "outside m (rx_queue c) (data_region c) (l_msg_hdr l) 8" "outside m (rx_queue c) (data_region c) (l_reply_buf l) 4096"
    "outside m (rx_queue c) (data_region c) (l_result_buf l) 4088" "outside m (rx_queue c) (data_region c) (l_rx_buf l) 4096"
    "outside m (rx_queue c) (data_region c) (l_rx_len l) 8"
    "l_rx_buf l \<noteq> 0" "l_rx_len l \<noteq> 0" "l_reply_buf l \<noteq> 0"
    "apart (l_rx_len l) 8 (l_rx_buf l) 4096" "apart (l_reply_buf l) 4096 (l_msg_hdr l) 8"
    "apart (l_reply_buf l) 4096 (l_result_buf l) 4088" "apart (l_msg_hdr l) 8 (l_result_buf l) 4088"
    "apart (l_result_buf l) 4088 (l_rx_buf l) 4096"
  using assms by (simp_all add: locals_ok_def ch0_bufs_def)

lemma outside_same:
  assumes "bytes_at m' q SIZEOF_queue = bytes_at m q SIZEOF_queue"
  shows "outside m' q vb a n = outside m q vb a n"
  by (simp add: outside_def queue_same_ctl[OF assms])

lemma receive_request:
  assumes rdy: "channel_ready m c" and loc: "locals_ok m c l"
    and req: "queue_list m (rx_queue c) (data_region c) = x # xs"
  shows "\<exists>m1. shm_read_buffer m (Some c) (l_rx_buf l) 4096 (l_rx_len l) = Some (HYPERAMP_OK, m1) \<and>
    bytes_at m1 (l_rx_buf l) 4096 = x \<and> read_u64 m1 (l_rx_len l) = 4096 \<and>
    shm_inv (tx_queue c) (data_region c) m1 \<and>
    queue_list m1 (tx_queue c) (data_region c) = queue_list m (tx_queue c) (data_region c) \<and>
    bytes_at m1 (tx_queue c) SIZEOF_queue = bytes_at m (tx_queue c) SIZEOF_queue \<and>
    locals_ok m1 c l \<and> queue_len m1 (rx_queue c) = length xs \<and> q_header m1 (rx_queue c) = q_header m (rx_queue c) \<and>
    q_tail m1 (rx_queue c) = next_idx (q_capacity m (rx_queue c)) (q_tail m (rx_queue c)) \<and>
    outside m1 (tx_queue c) (data_region c) (rx_queue c) SIZEOF_queue"
proof -
  let ?q = "rx_queue c" and ?tx = "tx_queue c" and ?vb = "data_region c" and ?X = "l_rx_buf l" and ?L = "l_rx_len l"
  note d = locals_okD[OF loc]
  have wf: "queue_wf m ?q ?vb" "q_lock_value m ?q = 0" and txi: "shm_inv ?tx ?vb m"
    and bs: "unat (q_block_size m ?q) = 4096" "unat (q_block_size m ?tx) = 4096"
    and caps: "q_capacity m ?tx = q_capacity m ?q" and ctl: "apart ?tx SIZEOF_queue ?q SIZEOF_queue" and ini: "initialized c"
    using rdy by (auto simp: channel_ready_def shm_inv_def DEFAULT_BLOCK_SIZE_def)
  have rl: "unat (read_len m ?q 4096) = 4096" "read_len m ?q 4096 = 4096"
    by (simp_all add: unat_read_len bs word_unat_eq_iff)
  have bufs: "recv_bufs m ?q ?vb ?X (unat (read_len m ?q 4096)) ?L" using d by (simp add: recv_bufs_def rl)
  have ne: "queue_len m ?q \<noteq> 0" using arg_cong[OF req, of length] by simp
  define m1 where "m1 = dequeued m ?q ZONE_ID_SEL4 ?X 4096 ?L ?vb"
  note b = bufs[unfolded rl(2)]
  have eq: "shm_read_buffer m (Some c) ?X 4096 ?L = Some (HYPERAMP_OK, m1)"
    using dequeue_mem[OF wf _ bufs, of ZONE_ID_SEL4] ne ini d(11) by (simp add: shm_read_buffer_def m1_def rl(2))
  have lst: "queue_list m ?q ?vb = bytes_at m (slot ?vb 4096 (unat (q_tail m ?q))) 4096 # queue_list m1 ?q ?vb"
    using dequeued_list[OF wf(1) b ne, of ZONE_ID_SEL4] by (simp add: m1_def bs)
  have dat: "bytes_at m1 ?X 4096 = x" "read_u64 m1 ?L = 4096"
    using dequeued_data[OF wf(1) b, of ZONE_ID_SEL4] lst req d(12) by (simp_all add: m1_def bs)
  have same: "bytes_at m1 ?tx SIZEOF_queue = bytes_at m ?tx SIZEOF_queue"
    unfolding m1_def using ctl d(4,5) by (intro dequeued_bytes) (auto simp: outside_def intro: apart_sym)
  have "apart (slot ?vb 4096 0) (unat (q_capacity m ?q) * 4096) ?q SIZEOF_queue"
    using wf(1) by (auto simp: queue_wf_def layout_ok_def bs intro: apart_sym)
  then have "bytes_at m1 (slot ?vb 4096 0) (unat (q_capacity m ?q) * 4096) = bytes_at m (slot ?vb 4096 0) (unat (q_capacity m ?q) * 4096)"
    unfolding m1_def using d(9,10) by (intro dequeued_bytes) (auto simp: outside_def bs intro: apart_sym)
  note k = queue_keep[OF txi same, unfolded bs caps, OF this]
  have "outside m1 ?q ?vb a n = outside m ?q ?vb a n" for a n
    using dequeued_fields(3,4)[OF wf(1) b, of ZONE_ID_SEL4] by (simp add: outside_def m1_def)
  then have "locals_ok m1 c l" using loc by (simp add: locals_ok_def outside_same[OF same])
  moreover have "queue_len m1 ?q = length xs" using arg_cong[OF lst, of length] arg_cong[OF req, of length] by simp
  moreover have "outside m1 ?tx ?vb ?q SIZEOF_queue"
    unfolding outside_same[OF same] using wf(1) apart_sym[OF ctl] by (simp add: outside_def queue_wf_def layout_ok_def bs caps)
  ultimately show ?thesis using eq dat k same dequeued_fields(1,2)[OF wf(1) b, of ZONE_ID_SEL4]
    by (intro exI[of _ m1]) (simp add: m1_def[symmetric])
qed

lemma outside_mono: "outside m q vb a n \<Longrightarrow> k \<le> n \<Longrightarrow> outside m q vb a k"
  by (auto simp: outside_def intro: apart_mono_left)

lemma xor_copy_frame:
  assumes "apart a n b k" "len \<le> k"
  shows "bytes_at (xor_bytes (copy_bytes m b src len) b len) a n = bytes_at m a n"
  using apart_mono_right[OF assms] by (simp add: xor_bytes_apart copy_bytes_apart)

lemma crypt_into:
  assumes "apart b 4088 p 4096" "len \<le> 4088"
  shows "bytes_at (xor_bytes (copy_bytes m b (p + 8) len) b len) b len = crypt (bytes_at m (p + 8) len)"
proof -
  have "unat (p + 8) = unat p + 8" using unat_add_off[of p 4096 8] assms(1) by (simp add: apart_def)
  then have "apart b len (p + 8) len" using assms by (auto simp: apart_def fits_def)
  then show ?thesis using assms(2) by (simp add: bytes_at_xor bytes_at_copy)
qed

lemma write_block:
  assumes inv: "shm_inv (tx_queue c) (data_region c) m" and ini: "initialized c"
    and bs: "unat (q_block_size m (tx_queue c)) = 4096" and len: "0 < len" "unat len \<le> 4096"
    and room: "Suc (queue_len m (tx_queue c)) < unat (q_capacity m (tx_queue c))"
    and buf: "buf \<noteq> 0" "outside m (tx_queue c) (data_region c) buf (unat len)"
  shows "\<exists>m' blk. shm_write_buffer m (Some c) buf len = Some (HYPERAMP_OK, m') \<and>
    queue_list m' (tx_queue c) (data_region c) = queue_list m (tx_queue c) (data_region c) @ [blk] \<and>
    take (unat len) blk = bytes_at m buf (unat len) \<and>
    (\<forall>a n. outside m (tx_queue c) (data_region c) a n \<longrightarrow> bytes_at m' a n = bytes_at m a n)"
proof -
  have wf: "queue_wf m (tx_queue c) (data_region c)" "q_lock_value m (tx_queue c) = 0" using inv by (auto simp: shm_inv_def)
  have l: "unat len \<le> unat (q_block_size m (tx_queue c))" "len \<le> ucast (q_block_size m (tx_queue c))"
    using len by (simp_all add: bs word_le_nat_alt unat_ucast_up)
  have "len \<noteq> 0" using len(1) by auto
  then have "shm_write_buffer m (Some c) buf len = Some (HYPERAMP_OK, enqueued m (tx_queue c) ZONE_ID_SEL4 buf (unat len) (data_region c))"
    using enqueue_mem[OF wf buf(1) len(1) l(2)] room ini buf(1) by (simp add: shm_write_buffer_def)
  then show ?thesis
    using enqueued_list[OF wf(1) l(1) buf(2) room] enqueued_frame[OF wf(1) l(1)] by simp
qed

lemma send_crypted:
  assumes txi: "shm_inv (tx_queue c) (data_region c) m1" and ini: "initialized c"
    and bs: "unat (q_block_size m1 (tx_queue c)) = 4096"
    and room: "Suc (queue_len m1 (tx_queue c)) < unat (q_capacity m1 (tx_queue c))"
    and loc: "locals_ok m1 c l" and fwd: "\<not> ch1_is_text_ready fe s" and len: "unat len \<le> 4088"
    and rx: "outside m1 (tx_queue c) (data_region c) (rx_queue c) SIZEOF_queue"
  shows "\<exists>m' blk. ch0_service_encrypt fe l s m1 (Some c) (l_rx_buf l + 8) len fs bsess = Some (HYPERAMP_OK, s, m') \<and>
    queue_list m' (tx_queue c) (data_region c) = queue_list m1 (tx_queue c) (data_region c) @ [blk] \<and>
    take (8 + unat len) blk = [1, HYPERAMP_MSG_TYPE_DATA] @ le16 fs @ le16 bsess @ le16 (ucast len) @
       crypt (bytes_at m1 (l_rx_buf l + 8) (unat len)) \<and>
    bytes_at m' (rx_queue c) SIZEOF_queue = bytes_at m1 (rx_queue c) SIZEOF_queue"
proof -
  let ?tx = "tx_queue c" and ?vb = "data_region c" and ?B = "l_result_buf l" and ?R = "l_reply_buf l"
  note d = locals_okD[OF loc]
  define m2 where "m2 = xor_bytes (copy_bytes m1 ?B (l_rx_buf l + 8) (unat len)) ?B (unat len)"
  have fr2: "bytes_at m2 a n = bytes_at m1 a n" if "apart a n ?B 4088" for a n
    unfolding m2_def by (rule xor_copy_frame[OF that len])
  obtain m3 where m3: "ch0_send_reply l m2 (Some c) ?B len fs bsess = shm_write_buffer m3 (Some c) ?R (8 + len)"
      "bytes_at m3 ?R (8 + unat len) = [1, HYPERAMP_MSG_TYPE_DATA] @ le16 fs @ le16 bsess @ le16 (ucast len) @ bytes_at m2 ?B (unat len)"
      "\<And>a n. apart a n (l_msg_hdr l) 8 \<Longrightarrow> apart a n ?R 4096 \<Longrightarrow> bytes_at m3 a n = bytes_at m2 a n"
    using send_reply_mem[OF d(15-17) len, of m2 "Some c" fs bsess] by blast
  have fr3: "bytes_at m3 a n = bytes_at m1 a n" if "apart (l_msg_hdr l) 8 a n" "apart ?R 4096 a n" "apart ?B 4088 a n" for a n
    using m3(3) fr2 that by (simp add: apart_sym)
  have ctl: "bytes_at m3 ?tx SIZEOF_queue = bytes_at m1 ?tx SIZEOF_queue"
    using d(1-3) by (intro fr3) (simp_all add: outside_def)
  have "bytes_at m3 (slot ?vb (unat (q_block_size m1 ?tx)) 0) (unat (q_capacity m1 ?tx) * unat (q_block_size m1 ?tx)) =
      bytes_at m1 (slot ?vb (unat (q_block_size m1 ?tx)) 0) (unat (q_capacity m1 ?tx) * unat (q_block_size m1 ?tx))"
    using d(1-3) by (intro fr3) (simp_all add: outside_def)
  note k = queue_keep[OF txi ctl this] and st = queue_same_ctl[OF ctl]
  have u: "unat (8 + len) = 8 + unat len" using len by (simp add: unat_word_ariths)
  then have pos: "0 < 8 + len" by (simp add: word_less_nat_alt)
  have R: "outside m3 ?tx ?vb ?R (unat (8 + len))" using d(2) len by (simp add: outside_same[OF ctl] u outside_mono)
  obtain m' blk where "shm_write_buffer m3 (Some c) ?R (8 + len) = Some (HYPERAMP_OK, m')"
    "queue_list m' ?tx ?vb = queue_list m1 ?tx ?vb @ [blk]" "take (8 + unat len) blk = bytes_at m3 ?R (8 + unat len)"
    and keep: "\<And>a n. outside m3 ?tx ?vb a n \<Longrightarrow> bytes_at m' a n = bytes_at m3 a n"
    using write_block[OF k(1) ini _ pos _ _ d(13) R] room bs len by (auto simp: st u k(2))
  moreover have "bytes_at m' (rx_queue c) SIZEOF_queue = bytes_at m1 (rx_queue c) SIZEOF_queue"
    using keep[of "rx_queue c" SIZEOF_queue] rx fr3[of "rx_queue c" SIZEOF_queue] d(6-8)
    unfolding outside_same[OF ctl] by (simp add: outside_def)
  ultimately show ?thesis
    using service_crypt_mem(1)[OF fwd len, of l m1 "Some c" "l_rx_buf l + 8" fs bsess] m3(1,2) crypt_into[OF d(18) len, of m1]
    by (intro exI[of _ m'] exI[of _ blk]) (simp add: m2_def)
qed

text \<open>C23: when a channel is ready, its transmit queue has room and the text session of the network
  channel is not ready, processing the oldest waiting message, if it is a service request for
  encryption or decryption with a payload of at most 4088 bytes, succeeds: the receive queue's read index moves on by one block and
  its length is that of the rest, and the transmit queue gains one block that starts with the reply header (version 1,
  type DATA, the request's session numbers and payload length) and the transformed payload.\<close>

theorem crypt_request_reply:
  assumes rdy: "channel_ready m c" and loc: "locals_ok m c l" and fwd: "\<not> ch1_is_text_ready fe s"
    and room: "Suc (queue_len m (tx_queue c)) < unat (queue_capacity c)"
    and req: "queue_list m (rx_queue c) (data_region c) = x # xs"
    and hdr: "take 8 x = [v, HYPERAMP_MSG_TYPE_SERVICE] @ le16 sid @ le16 bsess @ le16 plen"
    and sid: "sid = 1 \<or> sid = 2" and plen: "unat plen \<le> 4088"
  shows "\<exists>m' blk. ch0_process_message fe l s m (Some c) = Some (HYPERAMP_OK, s, m') \<and>
    queue_list m' (tx_queue c) (data_region c) = queue_list m (tx_queue c) (data_region c) @ [blk] \<and>
    take (8 + unat plen) blk = [1, HYPERAMP_MSG_TYPE_DATA] @ le16 sid @ le16 bsess @ le16 plen @
      crypt (take (unat plen) (drop 8 x)) \<and>
    queue_len m' (rx_queue c) = length xs \<and> q_header m' (rx_queue c) = q_header m (rx_queue c) \<and>
    q_tail m' (rx_queue c) = next_idx (q_capacity m (rx_queue c)) (q_tail m (rx_queue c))"
proof -
  let ?tx = "tx_queue c" and ?vb = "data_region c" and ?X = "l_rx_buf l"
  obtain m1 where m1: "shm_read_buffer m (Some c) ?X 4096 (l_rx_len l) = Some (HYPERAMP_OK, m1)"
    "bytes_at m1 ?X 4096 = x" "read_u64 m1 (l_rx_len l) = 4096" "shm_inv ?tx ?vb m1"
    "queue_list m1 ?tx ?vb = queue_list m ?tx ?vb" "bytes_at m1 ?tx SIZEOF_queue = bytes_at m ?tx SIZEOF_queue"
    "locals_ok m1 c l" "outside m1 ?tx ?vb (rx_queue c) SIZEOF_queue"
    and rx: "queue_len m1 (rx_queue c) = length xs" "q_header m1 (rx_queue c) = q_header m (rx_queue c)"
    "q_tail m1 (rx_queue c) = next_idx (q_capacity m (rx_queue c)) (q_tail m (rx_queue c))"
    using receive_request[OF rdy loc req] by blast
  note st = queue_same_ctl[OF m1(6)]
  have ini: "initialized c" and bs: "unat (q_block_size m1 ?tx) = 4096"
    and rm: "Suc (queue_len m1 ?tx) < unat (q_capacity m1 ?tx)"
    using rdy room by (auto simp: channel_ready_def st DEFAULT_BLOCK_SIZE_def)
  have field: "bytes_at m1 (fld ?X i) k = take k (drop i (take 8 x))" if "i + k \<le> 8" for i k
    using that bytes_at_sub[of i k 4096 m1 ?X] m1(2) by (simp add: fld_def drop_take min_def)
  have h: "m1 (fld ?X 1) = HYPERAMP_MSG_TYPE_SERVICE" "read_u16 m1 (fld ?X 2) = sid"
    "read_u16 m1 (fld ?X 4) = bsess" "read_u16 m1 (fld ?X 6) = plen"
    using field[of 1 1] field[of 2 2] field[of 4 2] field[of 6 2]
    by (auto simp: hdr le16_def bytes_at_def intro!: read_u16_le16)
  have u: "unat (ucast plen :: u64) = unat plen" "ucast (ucast plen :: u64) = plen"
    by (simp add: unat_ucast_up, rule bit_word_eqI, simp add: bit_simps)
  have pay: "bytes_at m1 (?X + 8) (unat plen) = take (unat plen) (drop 8 x)"
    using bytes_at_sub[of 8 "unat plen" 4096 m1 ?X] plen m1(2) by simp
  obtain m' blk where "ch0_service_encrypt fe l s m1 (Some c) (?X + 8) (ucast plen) sid bsess = Some (HYPERAMP_OK, s, m')"
    "queue_list m' ?tx ?vb = queue_list m ?tx ?vb @ [blk]"
    "take (8 + unat plen) blk = [1, HYPERAMP_MSG_TYPE_DATA] @ le16 sid @ le16 bsess @ le16 plen @ crypt (take (unat plen) (drop 8 x))"
    and ctl: "bytes_at m' (rx_queue c) SIZEOF_queue = bytes_at m1 (rx_queue c) SIZEOF_queue"
    using send_crypted[OF m1(4) ini bs rm m1(7) fwd _ m1(8), of "ucast plen" sid bsess] plen by (auto simp: u m1(5) pay)
  moreover have "HYPERAMP_MSG_TYPE_SERVICE \<noteq> HYPERAMP_MSG_TYPE_BULK"
    by (simp add: HYPERAMP_MSG_TYPE_SERVICE_def HYPERAMP_MSG_TYPE_BULK_def)
  ultimately show ?thesis
    using rx queue_same_ctl[OF ctl] sid ini m1(1,3) h service_crypt_mem(2)[OF fwd, of "ucast plen"] plen
    by (intro exI[of _ m'] exI[of _ blk])
      (auto simp: ch0_process_message_def ch0_process_normal_message_def Let_def u)
qed

subsection \<open>Witnesses\<close>

text \<open>Memory that holds the six field names one after the other at address 4096, and a bulk
  descriptor (length 35, service 7) at 64.\<close>

definition demo_fields_mem :: mem where
  "demo_fields_mem = (\<lambda>a. if a = 68 then 35 else if a = 72 then 7
     else if 4096 \<le> a \<and> a < 4096 + 35 then concat required_fields ! (unat (a - 4096)) else 0)"

lemma demo_fields_bytes: "bytes_at demo_fields_mem 4096 35 = concat required_fields"
  by (simp add: bytes_at_def demo_fields_mem_def required_fields_def upt_rec)

lemma demo_fields_sub: "\<forall>f \<in> set required_fields. sublist f (concat required_fields)"
  by code_simp

lemma demo_fields_desc: "read_u32 demo_fields_mem (fld 64 4) = 35" "read_u32 demo_fields_mem (fld 64 8) = 7"
  by (simp_all add: read_le_def fld_def demo_fields_mem_def upt_rec)

theorem verify_signed_witness: "fst (ch0_verify_signed_data (\<lambda>_. 0) 4096 10) = AUTH_FAILED_BAD_LEN"
  using verify_signed[where m = "\<lambda>_. 0" and data = 4096 and total_len = 10]
  by (auto simp: ch0_verify_signed_data_def AUTH_FAILED_BAD_MAGIC_def AUTH_FAILED_BAD_LEN_def AUTH_FAILED_BAD_SIG_def)

definition demo_fe :: "unit frontend_ops" where
  "demo_fe = \<lparr>fe_sess_state = (\<lambda>_ _. FRONTEND_SESS_CONNECTING), fe_sess_send = (\<lambda>_ _ _ _ _. (- 1, ())),
     fe_run_once = (\<lambda>s m. Some (s, m))\<rparr>"

definition demo_ch1 :: "unit ch1_state" where
  "demo_ch1 = \<lparr>g_ch1_text_session = 0, g_ch1_bulk_session = 0, g_forward_seq = 0, fe_state = ()\<rparr>"

definition demo_locals :: ch0_locals where
  "demo_locals = \<lparr>l_msg_hdr = 262144, l_reply_buf = 266240, l_bulk_buf = 274432, l_result_buf = 278528,
     l_chunk_buf = 286720, l_fwd_hdr = 294912, l_rx_buf = 299008, l_rx_len = 307200\<rparr>"




lemma demo_request:
  "queue_list demo_ch_mem1 69632 73728 = [bytes_at demo_ch_mem 131072 4096]"
  "take 8 (bytes_at demo_ch_mem 131072 4096) = [0, HYPERAMP_MSG_TYPE_SERVICE] @ le16 1 @ le16 0 @ le16 4"
proof -
  have len: "4096 \<le> unat (q_block_size demo_ch_mem 69632)" by (simp add: demo_ch_rx)
  have out: "outside demo_ch_mem 69632 73728 131072 4096"
    by (simp add: outside_def demo_ch_rx apart_def fits_def slot_def)
  have "queue_len demo_ch_mem 69632 = 0" using arg_cong[OF demo_ch_rx(3), of length] by simp
  then show "queue_list demo_ch_mem1 69632 73728 = [bytes_at demo_ch_mem 131072 4096]"
    unfolding demo_ch_mem1_def using enqueued_list[OF demo_ch_rx(1) len out, of 0] by (simp add: demo_ch_rx)
  have "bytes_at demo_ch_mem 131072 8 = bytes_at demo_base 131072 8"
    unfolding demo_ch_mem_def by (subst inited_frame, simp_all add: demo_qcfg_def apart_def fits_def)+
  also have "\<dots> = [0, HYPERAMP_MSG_TYPE_SERVICE] @ le16 1 @ le16 0 @ le16 4"
    by (simp add: bytes_at_def demo_base_def upt_rec le16_def HYPERAMP_MSG_TYPE_SERVICE_def)
  finally show "take 8 (bytes_at demo_ch_mem 131072 4096) = [0, HYPERAMP_MSG_TYPE_SERVICE] @ le16 1 @ le16 0 @ le16 4"
    by (simp add: take_bytes_at)
qed

lemma demo_locals_ok: "locals_ok demo_ch_mem1 demo_ctx demo_locals"
proof -
  have len: "4096 \<le> unat (q_block_size demo_ch_mem 69632)" by (simp add: demo_ch_rx)
  have "q_block_size demo_ch_mem1 69632 = 4096" "q_capacity demo_ch_mem1 69632 = 4"
    unfolding demo_ch_mem1_def by (simp_all add: enqueued_fields[OF demo_ch_rx(1) len] demo_ch_rx)
  then show ?thesis
    by (simp add: locals_ok_def ch0_bufs_def demo_locals_def demo_ctx_def outside_def demo_ch_ready(7,8) apart_def fits_def slot_def)
qed

theorem crypt_request_reply_witness:
  "\<exists>m' blk. ch0_process_message demo_fe demo_locals demo_ch1 demo_ch_mem1 (Some demo_ctx) = Some (HYPERAMP_OK, demo_ch1, m') \<and>
     queue_list m' 65536 73728 = [blk] \<and> take 2 blk = [1, HYPERAMP_MSG_TYPE_DATA] \<and> queue_len m' 69632 = 0"
proof -
  have c: "tx_queue demo_ctx = 65536" "rx_queue demo_ctx = 69632" "data_region demo_ctx = 73728" "queue_capacity demo_ctx = 4"
    by (simp_all add: demo_ctx_def)
  have r: "\<not> ch1_is_text_ready demo_fe demo_ch1" by (simp add: ch1_is_text_ready_def demo_ch1_def)
  have e: "queue_list demo_ch_mem1 65536 73728 = []" using demo_ch_ready(4) by (simp add: queue_list_def)
  obtain m' blk where "ch0_process_message demo_fe demo_locals demo_ch1 demo_ch_mem1 (Some demo_ctx) = Some (HYPERAMP_OK, demo_ch1, m')"
    "queue_list m' 65536 73728 = [blk]" "queue_len m' 69632 = 0" and
    t: "take 12 blk = [1, HYPERAMP_MSG_TYPE_DATA] @ le16 1 @ le16 0 @ le16 4 @
      crypt (take 4 (drop 8 (bytes_at demo_ch_mem 131072 4096)))"
    using crypt_request_reply[OF demo_ch_ready(1) demo_locals_ok r, unfolded c, OF _ demo_request(1) demo_request(2)]
    by (auto simp: demo_ch_ready(4) e)
  moreover have "take 2 blk = [1, HYPERAMP_MSG_TYPE_DATA]" using arg_cong[OF t, of "take 2"] by simp
  ultimately show ?thesis by blast
qed

end
