(* ===== verification/FStart.thy ===== *)
theory FStart
  imports FChannel FPoolInv ChannelCh0
begin

unbundle bit_operations_syntax

text \<open>
  Bringing up the front-end engine: its devices and IoT sessions (\<^verbatim>\<open>front/src/engine.c\<close>, \<^verbatim>\<open>front/src/dev.c\<close>), the queues
  of the stand-alone front end, and the start of channel CH1 over the engine (\<^verbatim>\<open>hyperamp-server/src/channel_ch1.c\<close>) with its
  two sessions. The session objects and the local address structures hold what their memory held before, the record
  \<open>start_garbage\<close>. Of an IoT session only its existence is recorded, since its fields are fixed by its protocol.
\<close>

subsection \<open>Devices\<close>

record FrontendDevInfo =
  dev_id :: int
  dev_type :: int
  dev_status :: int
  dev_name :: string

datatype IotDevStatus = IOT_DEV_STATUS_OFFLINE | IOT_DEV_STATUS_ONLINE | IOT_DEV_STATUS_ERROR | IOT_DEV_STATUS_CONFIGURING

record IotDevice =
  iot_dev_type :: u16
  iot_dev_status :: IotDevStatus

text \<open>The device sets of the engine, \<open>None\<close> for a null pointer.\<close>

record engine_devs =
  dev_set :: "FrontendDevInfo list option"
  iot_dev_set :: "IotDevice list option"
  iot_dev_num :: nat

definition MAX_HS_DEV_NUM :: nat where "MAX_HS_DEV_NUM = 16"
definition MIN_HS_DEV_NUM :: nat where "MIN_HS_DEV_NUM = 1"
definition MAX_IOT_DEV_NUM :: nat where "MAX_IOT_DEV_NUM = 16"

definition dev_array :: "FrontendDevInfo list" where
  "dev_array = [\<lparr>dev_id = 0, dev_type = 1, dev_status = 0, dev_name = ''Frontend_Dev0''\<rparr>]"

text \<open>The number of configured devices and the array of them.\<close>

definition frontend_init_dev_list :: "nat \<times> FrontendDevInfo list" where
  "frontend_init_dev_list = (length dev_array, dev_array)"

text \<open>The loop that copies the entries. As in the code, the type of a device is set to its configured status.\<close>

fun copy_devs :: "nat \<Rightarrow> FrontendDevInfo list \<Rightarrow> FrontendDevInfo list \<Rightarrow> FrontendDevInfo list" where
  "copy_devs i [] ds = ds"
| "copy_devs i (c # cs) ds =
     copy_devs (Suc i) cs (ds[i := (ds ! i)\<lparr>dev_id := dev_id c, dev_type := dev_status c, dev_name := dev_name c\<rparr>])"

definition engine_init_hs_net_dev :: "engine_devs \<Rightarrow> 'a frontend \<Rightarrow> int \<times> engine_devs \<times> 'a frontend" where
  "engine_init_hs_net_dev d s =
     (let (p, s) = malloc s
      in if p = 0 then (FRONTEND_PROXY_PROCESS_ERROR, d, s)
         else
           let (dev_num, cfg) = frontend_init_dev_list
           in if dev_num > MAX_HS_DEV_NUM \<or> dev_num < MIN_HS_DEV_NUM then (FRONTEND_PROXY_PROCESS_ERROR, d, s)
              else
                let ds = replicate MAX_HS_DEV_NUM \<lparr>dev_id = 0, dev_type = 0, dev_status = 0, dev_name = []\<rparr>
                in (FRONTEND_PROXY_PROCESS_OK, d\<lparr>dev_set := Some (copy_devs 0 (take dev_num cfg) ds)\<rparr>, s))"

definition set_iot_dev :: "nat \<Rightarrow> u16 \<Rightarrow> IotDevice list \<Rightarrow> IotDevice list" where
  "set_iot_dev i ty ds = ds[i := (ds ! i)\<lparr>iot_dev_type := ty, iot_dev_status := IOT_DEV_STATUS_ONLINE\<rparr>]"

definition engine_init_iot_devices :: "engine_devs \<Rightarrow> 'a frontend \<Rightarrow> int \<times> engine_devs \<times> 'a frontend" where
  "engine_init_iot_devices d s =
     (let (ds, s) = (case iot_dev_set d of
            Some ds \<Rightarrow> (Some ds, s)
          | None \<Rightarrow> (let (p, s) = malloc s
                     in (if p = 0 then None
                         else Some (replicate MAX_IOT_DEV_NUM \<lparr>iot_dev_type = 0, iot_dev_status = IOT_DEV_STATUS_OFFLINE\<rparr>), s)))
      in case ds of
           None \<Rightarrow> (FRONTEND_PROXY_PROCESS_ERROR, d, s)
         | Some ds \<Rightarrow>
             let ds = set_iot_dev 0 IOT_PROTO_TYPE_BLUETOOTH ds;
                 ds = set_iot_dev 1 IOT_PROTO_TYPE_CAN ds;
                 ds = set_iot_dev 2 IOT_PROTO_TYPE_ZIGBEE ds;
                 ds = set_iot_dev 3 IOT_PROTO_TYPE_LORA ds;
                 ds = set_iot_dev 4 IOT_PROTO_TYPE_POWERLINK ds;
                 ds = set_iot_dev 5 IOT_PROTO_TYPE_MODBUSTCP ds
             in (FRONTEND_PROXY_PROCESS_OK, d\<lparr>iot_dev_set := Some ds, iot_dev_num := 6\<rparr>, s))"

subsection \<open>IoT sessions\<close>

text \<open>The global session pointer of a protocol, \<open>None\<close> for a protocol that has none, and its update.\<close>

definition iot_sess :: "u16 \<Rightarrow> 'a frontend \<Rightarrow> bool option" where
  "iot_sess ty s =
     (if ty = IOT_PROTO_TYPE_BLUETOOTH then Some (frontend_bluetooth_sess s)
      else if ty = IOT_PROTO_TYPE_CAN then Some (frontend_can_sess s)
      else if ty = IOT_PROTO_TYPE_ZIGBEE then Some (frontend_zigbee_sess s)
      else if ty = IOT_PROTO_TYPE_LORA then Some (frontend_lora_sess s)
      else if ty = IOT_PROTO_TYPE_POWERLINK then Some (frontend_powerlink_sess s)
      else if ty = IOT_PROTO_TYPE_MODBUSTCP then Some (frontend_modbustcp_sess s)
      else None)"

definition set_iot_sess :: "u16 \<Rightarrow> 'a frontend \<Rightarrow> 'a frontend" where
  "set_iot_sess ty s =
     (if ty = IOT_PROTO_TYPE_BLUETOOTH then s\<lparr>frontend_bluetooth_sess := True\<rparr>
      else if ty = IOT_PROTO_TYPE_CAN then s\<lparr>frontend_can_sess := True\<rparr>
      else if ty = IOT_PROTO_TYPE_ZIGBEE then s\<lparr>frontend_zigbee_sess := True\<rparr>
      else if ty = IOT_PROTO_TYPE_LORA then s\<lparr>frontend_lora_sess := True\<rparr>
      else if ty = IOT_PROTO_TYPE_POWERLINK then s\<lparr>frontend_powerlink_sess := True\<rparr>
      else s\<lparr>frontend_modbustcp_sess := True\<rparr>)"

definition clear_iot_sess :: "'a frontend \<Rightarrow> 'a frontend" where
  "clear_iot_sess s =
     s\<lparr>frontend_bluetooth_sess := False, frontend_can_sess := False, frontend_zigbee_sess := False,
       frontend_lora_sess := False, frontend_powerlink_sess := False, frontend_modbustcp_sess := False\<rparr>"

text \<open>The loop over the devices; \<open>False\<close> when it leaves for the label \<^verbatim>\<open>init_iot_sess_error\<close>.\<close>

fun iot_sess_loop :: "IotDevice list \<Rightarrow> 'a frontend \<Rightarrow> bool \<times> 'a frontend" where
  "iot_sess_loop [] s = (True, s)"
| "iot_sess_loop (dev # devs) s =
     (if iot_dev_status dev \<noteq> IOT_DEV_STATUS_ONLINE then iot_sess_loop devs s
      else case iot_sess (iot_dev_type dev) s of
             None \<Rightarrow> (False, s)
           | Some True \<Rightarrow> (False, s)
           | Some False \<Rightarrow>
               let (p, s) = malloc s
               in if p = 0 then (False, s) else iot_sess_loop devs (set_iot_sess (iot_dev_type dev) s))"

definition engine_init_iot_sessions :: "engine_devs \<Rightarrow> 'a frontend \<Rightarrow> int \<times> 'a frontend" where
  "engine_init_iot_sessions d s =
     (let s = clear_iot_sess s
      in case iot_dev_set d of
           None \<Rightarrow> (FRONTEND_PROXY_PROCESS_ERROR, s)
         | Some ds \<Rightarrow>
             let (ok, s) = iot_sess_loop (take (iot_dev_num d) ds) s
             in if ok then (FRONTEND_PROXY_PROCESS_OK, s) else (FRONTEND_PROXY_PROCESS_ERROR, clear_iot_sess s))"

subsection \<open>The stand-alone front end\<close>

text \<open>
  The queues of the stand-alone front end are those of channel CH1, when the message registers \<open>mr\<close> of the IPC buffer
  name them, and those of CH0 otherwise.
\<close>

definition engine_init_hyperamp_queue :: "platform \<Rightarrow> (nat \<Rightarrow> u64) \<Rightarrow> 'a frontend \<Rightarrow> int \<times> 'a frontend" where
  "engine_init_hyperamp_queue plat mr s =
     (let ch1 = (mr 5 \<noteq> 0 \<and> mr 6 \<noteq> 0 \<and> mr 7 \<noteq> 0);
          tx = (if ch1 then mr 5 else mr 2);
          rx = (if ch1 then mr 6 else mr 3);
          dt = (if ch1 then mr 7 else mr 4);
          phy_offset = (if ch1 then 0x200000 else 0);
          cap = (if ch1 then CH1_QUEUE_CAPACITY else CH0_QUEUE_CAPACITY);
          s = s\<lparr>hyper_data_region := dt\<rparr>;
          tx_config = \<lparr>cfg_map_mode = 0, cfg_capacity = cap, cfg_block_size = 4096,
                       cfg_phy_addr = SHM_BASE_PADDR plat + phy_offset, cfg_virt_addr = tx\<rparr>;
          rx_config = \<lparr>cfg_map_mode = 0, cfg_capacity = cap, cfg_block_size = 4096,
                       cfg_phy_addr = SHM_BASE_PADDR plat + 0x1000 + phy_offset, cfg_virt_addr = rx\<rparr>;
          (ret, m) = hyperamp_queue_init (fe_mem s) tx (Some tx_config) True;
          s = s\<lparr>fe_mem := m\<rparr>
      in if ret \<noteq> HYPERAMP_OK then (FRONTEND_PROXY_PROCESS_ERROR, s)
         else
           let (ret, m) = hyperamp_queue_init (fe_mem s) rx (Some rx_config) True;
               s = s\<lparr>fe_mem := m\<rparr>
           in if ret \<noteq> HYPERAMP_OK then (FRONTEND_PROXY_PROCESS_ERROR, s)
              else (FRONTEND_PROXY_PROCESS_OK, s\<lparr>hyper_tx_queue := tx, hyper_rx_queue := rx\<rparr>))"

text \<open>The engine after \<^verbatim>\<open>memset\<close>: no device sets, no queues, no operations.\<close>

definition no_devs :: engine_devs where
  "no_devs = \<lparr>dev_set = None, iot_dev_set = None, iot_dev_num = 0\<rparr>"

definition clear_engine :: "'a frontend \<Rightarrow> 'a frontend" where
  "clear_engine s = s\<lparr>hyper_tx_queue := 0, hyper_rx_queue := 0, eng_ops := False\<rparr>"

text \<open>Leaving the program (\<^verbatim>\<open>abort\<close>) is \<open>None\<close>; it is also left when the pool could not be allocated.\<close>

definition frontend_engine_init :: "platform \<Rightarrow> (nat \<Rightarrow> u64) \<Rightarrow> 'a frontend \<Rightarrow> (engine_devs \<times> 'a frontend) option" where
  "frontend_engine_init plat mr s =
     (let s = clear_engine s;
          (p, s) = malloc s
      in if p = 0 then None
         else do {
           (ret, s) \<leftarrow> frontend_high_speed_init_pool s;
           if ret \<noteq> FRONTEND_PROXY_PROCESS_OK then None
           else do {
             let (ret, d, s) = engine_init_hs_net_dev no_devs s;
             if ret \<noteq> FRONTEND_PROXY_PROCESS_OK then None
             else do {
               let (ret, s) = engine_init_hyperamp_queue plat mr s;
               if ret \<noteq> FRONTEND_PROXY_PROCESS_OK then None
               else do {
                 let (ret, d, s) = engine_init_iot_devices d s;
                 if ret \<noteq> FRONTEND_PROXY_PROCESS_OK then None
                 else do {
                   let (ret, s) = engine_init_iot_sessions d s;
                   if ret \<noteq> FRONTEND_PROXY_PROCESS_OK then None else Some (d, s)
                 }
               }
             }
           }
         })"

subsection \<open>Starting channel CH1\<close>





subsection \<open>What the start establishes\<close>


text \<open>All six IoT sessions exist.\<close>

definition all_iot :: "'a frontend \<Rightarrow> 'a frontend" where
  "all_iot s = s\<lparr>frontend_bluetooth_sess := True, frontend_can_sess := True, frontend_zigbee_sess := True,
     frontend_lora_sess := True, frontend_powerlink_sess := True, frontend_modbustcp_sess := True\<rparr>"












lemma all_iot_sess: "ty \<in> {1, 2, 3, 4, 5, 6} \<Longrightarrow> iot_sess ty (all_iot s) = Some True"
  by (auto simp: iot_sess_def all_iot_def)


subsection \<open>Witness\<close>





end
