(* ===== verification/KStructures.thy ===== *)
theory KStructures
  imports Prelude "HOL-Library.Monad_Syntax"
begin

unbundle bit_operations_syntax

text \<open>
  The data of the seL4 kernel, \<^verbatim>\<open>kernel/include/object/structures.h\<close>,
  \<^verbatim>\<open>kernel/include/object/structures_64.bf\<close> and \<^verbatim>\<open>kernel/include/model/statedata.h\<close>, for the
  configuration the repository builds: AArch64, one core, no MCS scheduling. Objects live in partial
  maps from addresses, a null pointer is 0, and an operation is a function from states to an optional
  state: \<open>None\<close> is a failed assertion, a call of \<^verbatim>\<open>fail\<close> or an access through a pointer to no object.
  Bit fields are values of the word they are extracted to.
\<close>

type_synonym word_t = u64
type_synonym ptr = u64
type_synonym prio_t = u64
type_synonym dom_t = u64
type_synonym cptr_t = u64
type_synonym irq_t = u64

definition wordBits :: nat where "wordBits = 64"
definition wordRadix :: nat where "wordRadix = 6"
definition CONFIG_NUM_PRIORITIES :: word_t where "CONFIG_NUM_PRIORITIES = 256"
definition CONFIG_TIME_SLICE :: word_t where "CONFIG_TIME_SLICE = 5"
definition seL4_MaxPrio :: prio_t where "seL4_MaxPrio = 255"
definition seL4_MinPrio :: prio_t where "seL4_MinPrio = 0"
definition L2_BITMAP_SIZE :: word_t where "L2_BITMAP_SIZE = 4"

text \<open>\<^verbatim>\<open>BIT(n)\<close> and \<^verbatim>\<open>MASK(n)\<close>.\<close>

definition BIT :: "nat \<Rightarrow> word_t" where "BIT n = push_bit n 1"
definition MASK :: "nat \<Rightarrow> word_t" where "MASK n = BIT n - 1"

lemma MASK_mask: "MASK n = mask n"
  by (simp add: MASK_def BIT_def mask_eq_exp_minus_1 push_bit_eq_mult)

subsection \<open>Capabilities\<close>

datatype vm_page_size = ARMSmallPage | ARMLargePage | ARMHugePage

datatype vm_rights = VMKernelOnly | VMReadWrite | VMReadOnly

datatype arch_cap =
    FrameCap (capFMappedASID: word_t) (capFBasePtr: ptr) (capFSize: vm_page_size) (capFMappedAddress: ptr)
      (capFVMRights: vm_rights) (capFIsDevice: bool)
  | PageTableCap (capPTMappedASID: word_t) (capPTBasePtr: ptr) (capPTIsMapped: bool) (capPTMappedAddress: ptr)
  | VSpaceCap (capVSMappedASID: word_t) (capVSBasePtr: ptr) (capVSIsMapped: bool)
  | ASIDControlCap
  | ASIDPoolCap (capASIDBase: word_t) (capASIDPool: ptr)
  | SGISignalCap (capSGIIRQ: word_t) (capSGITarget: word_t)

datatype cap =
    NullCap
  | UntypedCap (capIsDevice: bool) (capBlockSize: word_t) (capFreeIndex: word_t) (capPtr: ptr)
  | EndpointCap (capEPBadge: word_t) (capCanGrantReply: bool) (capCanGrant: bool) (capCanSend: bool)
      (capCanReceive: bool) (capEPPtr: ptr)
  | NotificationCap (capNtfnBadge: word_t) (capNtfnCanReceive: bool) (capNtfnCanSend: bool) (capNtfnPtr: ptr)
  | ReplyCap (capReplyCanGrant: bool) (capReplyMaster: bool) (capReplyTCBPtr: ptr)
  | CNodeCap (capCNodeRadix: word_t) (capCNodeGuardSize: word_t) (capCNodeGuard: word_t) (capCNodePtr: ptr)
  | ThreadCap (capTCBPtr: ptr)
  | IRQControlCap
  | IRQHandlerCap (capIRQ: irq_t)
  | ZombieCap (capZombieID: word_t) (capZombieType: word_t)
  | DomainCap
  | ArchCap arch_cap

text \<open>A node of the capability derivation tree: a doubly linked list in depth-first order.\<close>

record mdb_node =
  mdbNext :: ptr
  mdbRevocable :: bool
  mdbFirstBadged :: bool
  mdbPrev :: ptr

record cte =
  cte_cap :: cap
  cteMDBNode :: mdb_node

definition nullMDBNode :: mdb_node where
  "nullMDBNode = \<lparr>mdbNext = 0, mdbRevocable = False, mdbFirstBadged = False, mdbPrev = 0\<rparr>"

subsection \<open>Faults and errors\<close>

datatype lookup_fault =
    Lookup_invalid_root
  | Lookup_missing_capability (lf_bitsLeft: word_t)
  | Lookup_depth_mismatch (lf_bitsFound: word_t) (lf_bitsLeft2: word_t)
  | Lookup_guard_mismatch (lf_guardFound: word_t) (lf_bitsLeft3: word_t) (lf_guardSize: word_t)

datatype seL4_Fault =
    Fault_NullFault
  | Fault_CapFault word_t bool
  | Fault_UnknownSyscall word_t
  | Fault_UserException word_t word_t
  | Fault_VMFault word_t word_t bool

datatype syscall_error_type =
    seL4_InvalidArgument | seL4_InvalidCapability | seL4_IllegalOperation | seL4_RangeError
  | seL4_AlignmentError | seL4_FailedLookup | seL4_TruncatedMessage | seL4_DeleteFirst
  | seL4_RevokeFirst | seL4_NotEnoughMemory

text \<open>The error a system call reports, with the fields that belong to its type.\<close>

record syscall_error =
  se_type :: syscall_error_type
  invalidArgumentNumber :: word_t
  invalidCapNumber :: word_t
  rangeErrorMin :: word_t
  rangeErrorMax :: word_t
  memoryLeft :: word_t
  failedLookupWasSource :: bool
  se_lookup_fault :: lookup_fault

definition no_error :: "syscall_error_type \<Rightarrow> syscall_error" where
  "no_error ty = \<lparr>se_type = ty, invalidArgumentNumber = 0, invalidCapNumber = 0, rangeErrorMin = 0,
     rangeErrorMax = 0, memoryLeft = 0, failedLookupWasSource = False, se_lookup_fault = Lookup_invalid_root\<rparr>"

subsection \<open>Threads, endpoints, notifications\<close>

datatype thread_state_type =
    ThreadState_Inactive | ThreadState_Running | ThreadState_Restart | ThreadState_BlockedOnReceive
  | ThreadState_BlockedOnSend | ThreadState_BlockedOnReply | ThreadState_BlockedOnNotification
  | ThreadState_IdleThreadState

record tcb =
  tsType :: thread_state_type
  tcbQueued :: bool
  blockingObject :: ptr
  blockingIPCBadge :: word_t
  blockingIPCCanGrant :: bool
  blockingIPCCanGrantReply :: bool
  blockingIPCIsCall :: bool
  tcbBoundNotification :: ptr
  tcbFault :: seL4_Fault
  tcbLookupFailure :: lookup_fault
  tcbDomain :: dom_t
  tcbFlags :: word_t
  tcbMCP :: prio_t
  tcbPriority :: prio_t
  tcbTimeSlice :: word_t
  tcbFaultHandler :: cptr_t
  tcbIPCBuffer :: word_t
  tcbSchedNext :: ptr
  tcbSchedPrev :: ptr
  tcbEPNext :: ptr
  tcbEPPrev :: ptr
  tcbContext :: "nat \<Rightarrow> word_t"

datatype endpoint_state = EPState_Idle | EPState_Send | EPState_Recv

record endpoint =
  epQueue_head :: ptr
  epQueue_tail :: ptr
  ep_state :: endpoint_state

datatype notification_state = NtfnState_Idle | NtfnState_Waiting | NtfnState_Active

record notification =
  ntfnBoundTCB :: ptr
  ntfnMsgIdentifier :: word_t
  ntfnQueue_head :: ptr
  ntfnQueue_tail :: ptr
  ntfn_state :: notification_state

record tcb_queue =
  head :: ptr
  end_ptr :: ptr

datatype irq_state = IRQInactive | IRQSignal | IRQTimer | IRQReserved

subsection \<open>Address spaces\<close>

text \<open>
  An entry of a translation table, decoded: the tagged union \<^verbatim>\<open>pte\<close> of
  \<^verbatim>\<open>kernel/include/arch/arm/arch/64/mode/object/structures.bf\<close>. Page tables and address space identifier
  pools are arrays in kernel memory. Of the hardware, \<open>ttbr\<close> is the translation table base register of the
  user address space (identifier and physical address) and \<open>tlbOps\<close> lists the invalidations of the
  translation lookaside buffer so far, the latest first.
\<close>

datatype pte =
    pte_invalid
  | pte_table (pt_base_address: word_t)
  | pte_page (pte_UXN: bool) (page_base_address: word_t) (pte_nG: word_t) (pte_AF: word_t) (pte_SH: word_t)
      (pte_AP: word_t) (pte_AttrIndx: word_t)
  | pte_4k_page (pte_UXN: bool) (page_base_address: word_t) (pte_nG: word_t) (pte_AF: word_t) (pte_SH: word_t)
      (pte_AP: word_t) (pte_AttrIndx: word_t)

datatype asid_map = asid_map_none | asid_map_vspace (asid_vspace_root: ptr)

datatype tlb_op = TlbASID word_t | TlbSingle word_t

record arch_state =
  ptes :: "ptr \<Rightarrow> pte"
  armKSASIDTable :: "word_t \<Rightarrow> ptr"
  asidPools :: "ptr \<Rightarrow> word_t \<Rightarrow> asid_map"
  armKSGlobalUserVSpace :: word_t
  ttbr :: "word_t \<times> word_t"
  tlbOps :: "tlb_op list"

subsection \<open>The kernel state\<close>

text \<open>An entry of the table of servers that \<^verbatim>\<open>handleRegister\<close> of \<^verbatim>\<open>kernel/src/api/syscall.c\<close> fills.\<close>

record ipcServerItem =
  ServerThread :: ptr
  svc_func :: word_t
  svc_stk :: word_t

text \<open>
  \<^verbatim>\<open>ksSchedulerAction\<close> holds 0, 1 or a pointer to a thread. Of the hardware, the state has the mask of the
  interrupt controller (\<open>irqMasked\<close>), the interrupts acknowledged to it so far (\<open>irqAcks\<close>), its answers to
  the polls for a pending interrupt to come (\<open>irqPolls\<close>; none is pending after the last one), its
  configuration registers (\<open>gicConfig\<close>) and what was written to its register for software interrupts (\<open>sgiControl\<close>,
  the last first), and the words of the message buffers in user memory (\<open>userMem\<close>).
\<close>

definition SchedulerAction_ResumeCurrentThread :: ptr where "SchedulerAction_ResumeCurrentThread = 0"
definition SchedulerAction_ChooseNewThread :: ptr where "SchedulerAction_ChooseNewThread = 1"

record kernel_state =
  numDomains :: word_t
  tcbs :: "ptr \<Rightarrow> tcb option"
  eps :: "ptr \<Rightarrow> endpoint option"
  ntfns :: "ptr \<Rightarrow> notification option"
  ctes :: "ptr \<Rightarrow> cte option"
  ksReadyQueues :: "word_t \<Rightarrow> tcb_queue"
  ksReadyQueuesL1Bitmap :: "dom_t \<Rightarrow> word_t"
  ksReadyQueuesL2Bitmap :: "dom_t \<Rightarrow> word_t \<Rightarrow> word_t"
  ksCurThread :: ptr
  ksIdleThread :: ptr
  ksSchedulerAction :: ptr
  ksCurDomain :: dom_t
  ksDomainTime :: word_t
  ksDomScheduleIdx :: word_t
  ksDomSchedule :: "(dom_t \<times> word_t) list"
  ksWorkUnitsCompleted :: word_t
  intStateIRQTable :: "irq_t \<Rightarrow> irq_state"
  intStateIRQNode :: ptr
  irqMasked :: "irq_t \<Rightarrow> bool"
  irqAcks :: "irq_t list"
  userMem :: "ptr \<Rightarrow> word_t"
  ksArch :: arch_state
  irqPolls :: "bool list"
  gicConfig :: "word_t \<Rightarrow> u32"
  sgiControl :: "u32 list"
  ipcServerList :: "ipcServerItem list"
  ipcServerList_top :: int

text \<open>Reading and updating an object through a pointer; \<open>None\<close> when there is none.\<close>

definition upd_tcb :: "ptr \<Rightarrow> (tcb \<Rightarrow> tcb) \<Rightarrow> kernel_state \<Rightarrow> kernel_state option" where
  "upd_tcb p f s = (case tcbs s p of None \<Rightarrow> None | Some t \<Rightarrow> Some (s\<lparr>tcbs := (tcbs s)(p := Some (f t))\<rparr>))"

definition upd_ep :: "ptr \<Rightarrow> (endpoint \<Rightarrow> endpoint) \<Rightarrow> kernel_state \<Rightarrow> kernel_state option" where
  "upd_ep p f s = (case eps s p of None \<Rightarrow> None | Some e \<Rightarrow> Some (s\<lparr>eps := (eps s)(p := Some (f e))\<rparr>))"

definition upd_ntfn :: "ptr \<Rightarrow> (notification \<Rightarrow> notification) \<Rightarrow> kernel_state \<Rightarrow> kernel_state option" where
  "upd_ntfn p f s = (case ntfns s p of None \<Rightarrow> None | Some n \<Rightarrow> Some (s\<lparr>ntfns := (ntfns s)(p := Some (f n))\<rparr>))"

definition upd_cte :: "ptr \<Rightarrow> (cte \<Rightarrow> cte) \<Rightarrow> kernel_state \<Rightarrow> kernel_state option" where
  "upd_cte p f s = (case ctes s p of None \<Rightarrow> None | Some c \<Rightarrow> Some (s\<lparr>ctes := (ctes s)(p := Some (f c))\<rparr>))"

text \<open>\<^verbatim>\<open>assert(b)\<close>.\<close>

definition kassert :: "bool \<Rightarrow> unit option" where
  "kassert b = (if b then Some () else None)"

lemma kassert_True [simp]: "kassert True = Some ()" "kassert False = None"
  by (simp_all add: kassert_def)

lemma upd_tcb_Some [simp]: "tcbs s p = Some t \<Longrightarrow> upd_tcb p f s = Some (s\<lparr>tcbs := (tcbs s)(p := Some (f t))\<rparr>)"
  by (simp add: upd_tcb_def)

lemma upd_ep_Some [simp]: "eps s p = Some t \<Longrightarrow> upd_ep p f s = Some (s\<lparr>eps := (eps s)(p := Some (f t))\<rparr>)"
  by (simp add: upd_ep_def)

lemma upd_ntfn_Some [simp]: "ntfns s p = Some t \<Longrightarrow> upd_ntfn p f s = Some (s\<lparr>ntfns := (ntfns s)(p := Some (f t))\<rparr>)"
  by (simp add: upd_ntfn_def)

lemma upd_cte_Some [simp]: "ctes s p = Some t \<Longrightarrow> upd_cte p f s = Some (s\<lparr>ctes := (ctes s)(p := Some (f t))\<rparr>)"
  by (simp add: upd_cte_def)

text \<open>Total correctness of an operation: it returns, and its result satisfies the postcondition.\<close>

definition succeeds :: "'a option \<Rightarrow> ('a \<Rightarrow> bool) \<Rightarrow> bool" where
  "succeeds r P \<longleftrightarrow> (\<exists>x. r = Some x \<and> P x)"

lemma succeeds_Some [simp]: "succeeds (Some x) P \<longleftrightarrow> P x"
  by (simp add: succeeds_def)

lemma succeeds_None [simp]: "\<not> succeeds None P"
  by (simp add: succeeds_def)

lemma succeeds_bind [simp]: "succeeds (Option.bind r f) P \<longleftrightarrow> succeeds r (\<lambda>x. succeeds (f x) P)"
  by (cases r) auto

lemma succeeds_map [simp]: "succeeds (map_option f r) P \<longleftrightarrow> succeeds r (\<lambda>x. P (f x))"
  by (cases r) auto

lemma succeeds_kassert [simp]: "succeeds (kassert b) P \<longleftrightarrow> b \<and> P ()"
  by (cases b) auto

lemma succeeds_if: "succeeds (if b then r else r') P \<longleftrightarrow> (if b then succeeds r P else succeeds r' P)"
  by simp

lemma succeeds_mono: "succeeds r P \<Longrightarrow> (\<And>x. r = Some x \<Longrightarrow> P x \<Longrightarrow> P' x) \<Longrightarrow> succeeds r P'"
  by (auto simp: succeeds_def)

lemma succeeds_conj: "succeeds r P \<Longrightarrow> succeeds r P' \<Longrightarrow> succeeds r (\<lambda>x. P x \<and> P' x)"
  by (auto simp: succeeds_def)

lemma succeeds_upd_tcb [simp]:
  "succeeds (upd_tcb p f s) P \<longleftrightarrow> (\<exists>t. tcbs s p = Some t \<and> P (s\<lparr>tcbs := (tcbs s)(p := Some (f t))\<rparr>))"
  by (auto simp: upd_tcb_def split: option.splits)

subsection \<open>Thread states\<close>

fun runnable_type :: "thread_state_type \<Rightarrow> bool" where
  "runnable_type ThreadState_Running = True"
| "runnable_type ThreadState_Restart = True"
| "runnable_type _ = False"

definition isRunnable :: "kernel_state \<Rightarrow> ptr \<Rightarrow> bool option" where
  "isRunnable s thread = map_option (\<lambda>t. runnable_type (tsType t)) (tcbs s thread)"

definition isBlocked :: "kernel_state \<Rightarrow> ptr \<Rightarrow> bool option" where
  "isBlocked s thread = map_option (\<lambda>t. case tsType t of
       ThreadState_BlockedOnReceive \<Rightarrow> True | ThreadState_BlockedOnSend \<Rightarrow> True
     | ThreadState_BlockedOnNotification \<Rightarrow> True | ThreadState_BlockedOnReply \<Rightarrow> True | _ \<Rightarrow> False) (tcbs s thread)"

definition isStopped :: "kernel_state \<Rightarrow> ptr \<Rightarrow> bool option" where
  "isStopped s thread = map_option (\<lambda>t. case tsType t of
       ThreadState_Inactive \<Rightarrow> True | ThreadState_BlockedOnReceive \<Rightarrow> True | ThreadState_BlockedOnSend \<Rightarrow> True
     | ThreadState_BlockedOnNotification \<Rightarrow> True | ThreadState_BlockedOnReply \<Rightarrow> True | _ \<Rightarrow> False) (tcbs s thread)"

end
