(* ===== verification/KCaps.thy ===== *)
theory KCaps
  imports KStructures
begin

unbundle bit_operations_syntax

text \<open>
  What the kernel computes on capabilities alone: sizes and regions, comparison of regions and of
  objects, masking of rights and setting of badges and guards (\<^verbatim>\<open>kernel/src/object/objecttype.c\<close>,
  \<^verbatim>\<open>kernel/src/arch/arm/64/object/objecttype.c\<close>, the zombie capabilities of
  \<^verbatim>\<open>kernel/include/object/structures.h\<close>), for AArch64 without hypervisor, SMMU and SMC capabilities.
  The lemmas say what a region comparison means in terms of address ranges, that no operation on a
  capability adds rights or replaces a badge, and that a zombie keeps its number and its pointer.
\<close>

definition seL4_SlotBits :: word_t where "seL4_SlotBits = 5"
definition seL4_TCBBits :: word_t where "seL4_TCBBits = 11"
definition seL4_EndpointBits :: word_t where "seL4_EndpointBits = 4"
definition seL4_NotificationBits :: word_t where "seL4_NotificationBits = 5"
definition seL4_PageBits :: word_t where "seL4_PageBits = 12"
definition seL4_LargePageBits :: word_t where "seL4_LargePageBits = 21"
definition seL4_HugePageBits :: word_t where "seL4_HugePageBits = 30"
definition seL4_PageTableBits :: word_t where "seL4_PageTableBits = 12"
definition seL4_VSpaceBits :: word_t where "seL4_VSpaceBits = 12"
definition seL4_ASIDPoolBits :: word_t where "seL4_ASIDPoolBits = 12"
definition seL4_MinUntypedBits :: word_t where "seL4_MinUntypedBits = 4"
definition seL4_MaxUntypedBits :: word_t where "seL4_MaxUntypedBits = 47"
definition asidInvalid :: word_t where "asidInvalid = 0"
definition TCB_CNODE_RADIX :: word_t where "TCB_CNODE_RADIX = 4"

text \<open>The masks of C at a shift count of word type.\<close>

definition BITw :: "word_t \<Rightarrow> word_t" where "BITw n = BIT (unat n)"
definition MASKw :: "word_t \<Rightarrow> word_t" where "MASKw n = MASK (unat n)"

text \<open>The slots of a thread's own capability table: \<open>TCB_PTR_CTE_PTR\<close>.\<close>

definition tcbCTable :: word_t where "tcbCTable = 0"
definition tcbVTable :: word_t where "tcbVTable = 1"
definition tcbReply :: word_t where "tcbReply = 2"
definition tcbCaller :: word_t where "tcbCaller = 3"
definition tcbBuffer :: word_t where "tcbBuffer = 4"
definition tcbCNodeEntries :: word_t where "tcbCNodeEntries = 5"

text \<open>The address of the \<open>i\<close>-th slot of an array of slots: a \<^verbatim>\<open>cte_t\<close> has 32 bytes.\<close>

definition cte_at_index :: "ptr \<Rightarrow> word_t \<Rightarrow> ptr" where
  "cte_at_index p i = p + push_bit 5 i"

definition TCB_PTR_CTE_PTR :: "ptr \<Rightarrow> word_t \<Rightarrow> ptr" where
  "TCB_PTR_CTE_PTR p i = cte_at_index (p AND NOT (MASKw seL4_TCBBits)) i"

fun isArchCap :: "cap \<Rightarrow> bool" where
  "isArchCap (ArchCap _) = True"
| "isArchCap _ = False"

subsection \<open>Zombies\<close>

text \<open>A zombie packs the address of a slot array and the number of its slots that are left.\<close>

definition ZombieType_ZombieTCB :: word_t where "ZombieType_ZombieTCB = BIT wordRadix"
definition ZombieType_ZombieCNode :: "word_t \<Rightarrow> word_t" where "ZombieType_ZombieCNode n = n AND MASK wordRadix"

definition Zombie_new :: "word_t \<Rightarrow> word_t \<Rightarrow> ptr \<Rightarrow> cap" where
  "Zombie_new number ty p =
     (let mk = (if ty = ZombieType_ZombieTCB then MASKw (TCB_CNODE_RADIX + 1) else MASKw (ty + 1))
      in ZombieCap ((p AND NOT mk) OR (number AND mk)) ty)"

definition cap_zombie_cap_get_capZombieBits :: "word_t \<Rightarrow> word_t" where
  "cap_zombie_cap_get_capZombieBits ty =
     (if ty = ZombieType_ZombieTCB then TCB_CNODE_RADIX else ZombieType_ZombieCNode ty)"

definition cap_zombie_cap_get_capZombieNumber :: "word_t \<Rightarrow> word_t \<Rightarrow> word_t" where
  "cap_zombie_cap_get_capZombieNumber zid ty = zid AND MASKw (cap_zombie_cap_get_capZombieBits ty + 1)"

definition cap_zombie_cap_get_capZombiePtr :: "word_t \<Rightarrow> word_t \<Rightarrow> ptr" where
  "cap_zombie_cap_get_capZombiePtr zid ty = zid AND NOT (MASKw (cap_zombie_cap_get_capZombieBits ty + 1))"

definition cap_zombie_cap_set_capZombieNumber :: "word_t \<Rightarrow> word_t \<Rightarrow> word_t \<Rightarrow> cap" where
  "cap_zombie_cap_set_capZombieNumber zid ty n =
     (let radix = cap_zombie_cap_get_capZombieBits ty;
          p = zid AND NOT (MASKw (radix + 1))
      in ZombieCap (p OR (n AND MASKw (radix + 1))) ty)"

subsection \<open>Sizes and regions\<close>

fun pageBitsForSize :: "vm_page_size \<Rightarrow> word_t" where
  "pageBitsForSize ARMSmallPage = seL4_PageBits"
| "pageBitsForSize ARMLargePage = seL4_LargePageBits"
| "pageBitsForSize ARMHugePage = seL4_HugePageBits"

fun cap_get_archCapSizeBits :: "arch_cap \<Rightarrow> word_t" where
  "cap_get_archCapSizeBits (FrameCap _ _ sz _ _ _) = pageBitsForSize sz"
| "cap_get_archCapSizeBits (PageTableCap _ _ _ _) = seL4_PageTableBits"
| "cap_get_archCapSizeBits (VSpaceCap _ _ _) = seL4_VSpaceBits"
| "cap_get_archCapSizeBits (ASIDPoolCap _ _) = seL4_ASIDPoolBits"
| "cap_get_archCapSizeBits ASIDControlCap = 0"
| "cap_get_archCapSizeBits (SGISignalCap _ _) = 0"

fun cap_get_archCapIsPhysical :: "arch_cap \<Rightarrow> bool" where
  "cap_get_archCapIsPhysical (FrameCap _ _ _ _ _ _) = True"
| "cap_get_archCapIsPhysical (PageTableCap _ _ _ _) = True"
| "cap_get_archCapIsPhysical (VSpaceCap _ _ _) = True"
| "cap_get_archCapIsPhysical (ASIDPoolCap _ _) = True"
| "cap_get_archCapIsPhysical ASIDControlCap = False"
| "cap_get_archCapIsPhysical (SGISignalCap _ _) = False"

fun cap_get_archCapPtr :: "arch_cap \<Rightarrow> ptr" where
  "cap_get_archCapPtr (FrameCap _ p _ _ _ _) = p"
| "cap_get_archCapPtr (PageTableCap _ p _ _) = p"
| "cap_get_archCapPtr (VSpaceCap _ p _) = p"
| "cap_get_archCapPtr ASIDControlCap = 0"
| "cap_get_archCapPtr (ASIDPoolCap _ p) = p"
| "cap_get_archCapPtr (SGISignalCap _ _) = 0"

fun cap_get_capSizeBits :: "cap \<Rightarrow> word_t" where
  "cap_get_capSizeBits (UntypedCap _ bits _ _) = bits"
| "cap_get_capSizeBits (EndpointCap _ _ _ _ _ _) = seL4_EndpointBits"
| "cap_get_capSizeBits (NotificationCap _ _ _ _) = seL4_NotificationBits"
| "cap_get_capSizeBits (CNodeCap radix _ _ _) = radix + seL4_SlotBits"
| "cap_get_capSizeBits (ThreadCap _) = seL4_TCBBits"
| "cap_get_capSizeBits (ZombieCap _ ty) =
     (if ty = ZombieType_ZombieTCB then seL4_TCBBits else ZombieType_ZombieCNode ty + seL4_SlotBits)"
| "cap_get_capSizeBits NullCap = 0"
| "cap_get_capSizeBits DomainCap = 0"
| "cap_get_capSizeBits (ReplyCap _ _ _) = 0"
| "cap_get_capSizeBits IRQControlCap = 0"
| "cap_get_capSizeBits (IRQHandlerCap _) = 0"
| "cap_get_capSizeBits (ArchCap c) = cap_get_archCapSizeBits c"

fun cap_get_capIsPhysical :: "cap \<Rightarrow> bool" where
  "cap_get_capIsPhysical (UntypedCap _ _ _ _) = True"
| "cap_get_capIsPhysical (EndpointCap _ _ _ _ _ _) = True"
| "cap_get_capIsPhysical (NotificationCap _ _ _ _) = True"
| "cap_get_capIsPhysical (CNodeCap _ _ _ _) = True"
| "cap_get_capIsPhysical (ThreadCap _) = True"
| "cap_get_capIsPhysical (ZombieCap _ _) = True"
| "cap_get_capIsPhysical (ArchCap c) = cap_get_archCapIsPhysical c"
| "cap_get_capIsPhysical NullCap = False"
| "cap_get_capIsPhysical DomainCap = False"
| "cap_get_capIsPhysical (ReplyCap _ _ _) = False"
| "cap_get_capIsPhysical IRQControlCap = False"
| "cap_get_capIsPhysical (IRQHandlerCap _) = False"

fun cap_get_capPtr :: "cap \<Rightarrow> ptr" where
  "cap_get_capPtr (UntypedCap _ _ _ p) = p"
| "cap_get_capPtr (EndpointCap _ _ _ _ _ p) = p"
| "cap_get_capPtr (NotificationCap _ _ _ p) = p"
| "cap_get_capPtr (CNodeCap _ _ _ p) = p"
| "cap_get_capPtr (ThreadCap p) = TCB_PTR_CTE_PTR p 0"
| "cap_get_capPtr (ZombieCap zid ty) = cap_zombie_cap_get_capZombiePtr zid ty"
| "cap_get_capPtr (ArchCap c) = cap_get_archCapPtr c"
| "cap_get_capPtr NullCap = 0"
| "cap_get_capPtr DomainCap = 0"
| "cap_get_capPtr (ReplyCap _ _ _) = 0"
| "cap_get_capPtr IRQControlCap = 0"
| "cap_get_capPtr (IRQHandlerCap _) = 0"

subsection \<open>Comparing capabilities\<close>

fun Arch_isIRQControlDescendant :: "cap \<Rightarrow> bool" where
  "Arch_isIRQControlDescendant (ArchCap (SGISignalCap _ _)) = True"
| "Arch_isIRQControlDescendant _ = False"

fun Arch_sameRegionAs :: "arch_cap \<Rightarrow> arch_cap \<Rightarrow> bool" where
  "Arch_sameRegionAs (FrameCap _ botA szA _ _ _) (FrameCap _ botB szB _ _ _) =
     (let topA = botA + MASKw (pageBitsForSize szA); topB = botB + MASKw (pageBitsForSize szB)
      in botA \<le> botB \<and> topA \<ge> topB \<and> botB \<le> topB)"
| "Arch_sameRegionAs (PageTableCap _ p _ _) (PageTableCap _ q _ _) = (p = q)"
| "Arch_sameRegionAs (VSpaceCap _ p _) (VSpaceCap _ q _) = (p = q)"
| "Arch_sameRegionAs ASIDControlCap ASIDControlCap = True"
| "Arch_sameRegionAs (ASIDPoolCap _ p) (ASIDPoolCap _ q) = (p = q)"
| "Arch_sameRegionAs (SGISignalCap i t) (SGISignalCap j u) = (i = j \<and> t = u)"
| "Arch_sameRegionAs _ _ = False"

definition sameRegionAs :: "cap \<Rightarrow> cap \<Rightarrow> bool" where
  "sameRegionAs cap_a cap_b = (case cap_a of
     UntypedCap _ bits _ aBase \<Rightarrow>
       cap_get_capIsPhysical cap_b \<and>
       (let bBase = cap_get_capPtr cap_b; aTop = aBase + MASKw bits; bTop = bBase + MASKw (cap_get_capSizeBits cap_b)
        in aBase \<le> bBase \<and> bTop \<le> aTop \<and> bBase \<le> bTop)
   | EndpointCap _ _ _ _ _ p \<Rightarrow> (case cap_b of EndpointCap _ _ _ _ _ q \<Rightarrow> p = q | _ \<Rightarrow> False)
   | NotificationCap _ _ _ p \<Rightarrow> (case cap_b of NotificationCap _ _ _ q \<Rightarrow> p = q | _ \<Rightarrow> False)
   | CNodeCap r _ _ p \<Rightarrow> (case cap_b of CNodeCap r' _ _ q \<Rightarrow> p = q \<and> r = r' | _ \<Rightarrow> False)
   | ThreadCap p \<Rightarrow> (case cap_b of ThreadCap q \<Rightarrow> p = q | _ \<Rightarrow> False)
   | ReplyCap _ _ p \<Rightarrow> (case cap_b of ReplyCap _ _ q \<Rightarrow> p = q | _ \<Rightarrow> False)
   | DomainCap \<Rightarrow> cap_b = DomainCap
   | IRQControlCap \<Rightarrow> (case cap_b of IRQControlCap \<Rightarrow> True | IRQHandlerCap _ \<Rightarrow> True | _ \<Rightarrow> Arch_isIRQControlDescendant cap_b)
   | IRQHandlerCap i \<Rightarrow> (case cap_b of IRQHandlerCap j \<Rightarrow> i = j | _ \<Rightarrow> False)
   | ArchCap a \<Rightarrow> (case cap_b of ArchCap b \<Rightarrow> Arch_sameRegionAs a b | _ \<Rightarrow> False)
   | _ \<Rightarrow> False)"

fun Arch_sameObjectAs :: "arch_cap \<Rightarrow> arch_cap \<Rightarrow> bool" where
  "Arch_sameObjectAs (FrameCap _ p sz _ _ d) (FrameCap _ q sz' _ _ d') = (p = q \<and> sz = sz' \<and> d = d')"
| "Arch_sameObjectAs (SGISignalCap _ _) _ = False"
| "Arch_sameObjectAs a b = Arch_sameRegionAs a b"

definition sameObjectAs :: "cap \<Rightarrow> cap \<Rightarrow> bool" where
  "sameObjectAs cap_a cap_b = (case cap_a of
     UntypedCap _ _ _ _ \<Rightarrow> False
   | IRQControlCap \<Rightarrow> False
   | ArchCap a \<Rightarrow> (case cap_b of ArchCap b \<Rightarrow> Arch_sameObjectAs a b | _ \<Rightarrow> sameRegionAs cap_a cap_b)
   | _ \<Rightarrow> sameRegionAs cap_a cap_b)"

subsection \<open>Rights, badges and guards\<close>

record seL4_CapRights =
  capAllowGrantReply :: bool
  capAllowGrant :: bool
  capAllowRead :: bool
  capAllowWrite :: bool

definition rightsFromWord :: "word_t \<Rightarrow> seL4_CapRights" where
  "rightsFromWord w = \<lparr>capAllowGrantReply = bit w 3, capAllowGrant = bit w 2, capAllowRead = bit w 1, capAllowWrite = bit w 0\<rparr>"

fun hasCancelSendRights :: "cap \<Rightarrow> bool" where
  "hasCancelSendRights (EndpointCap _ gr g se rcv _) = (se \<and> rcv \<and> gr \<and> g)"
| "hasCancelSendRights _ = False"

definition Arch_updateCapData :: "bool \<Rightarrow> word_t \<Rightarrow> arch_cap \<Rightarrow> cap" where
  "Arch_updateCapData preserve data c = ArchCap c"

fun updateCapData :: "bool \<Rightarrow> word_t \<Rightarrow> cap \<Rightarrow> cap" where
  "updateCapData preserve newData (ArchCap c) = Arch_updateCapData preserve newData c"
| "updateCapData preserve newData (EndpointCap badge gr g se rcv p) =
     (if \<not> preserve \<and> badge = 0 then EndpointCap newData gr g se rcv p else NullCap)"
| "updateCapData preserve newData (NotificationCap badge rcv se p) =
     (if \<not> preserve \<and> badge = 0 then NotificationCap newData rcv se p else NullCap)"
| "updateCapData preserve newData (CNodeCap radix gs g p) =
     (let guardSize = newData AND MASK 6
      in if guardSize + radix > of_nat wordBits then NullCap
         else CNodeCap radix guardSize (drop_bit 6 newData AND MASKw guardSize) p)"
| "updateCapData preserve newData cap = cap"

definition maskVMRights :: "vm_rights \<Rightarrow> seL4_CapRights \<Rightarrow> vm_rights" where
  "maskVMRights vr m =
     (if vr = VMReadOnly \<and> capAllowRead m then VMReadOnly
      else if vr = VMReadWrite \<and> capAllowRead m then (if \<not> capAllowWrite m then VMReadOnly else VMReadWrite)
      else VMKernelOnly)"

fun Arch_maskCapRights :: "seL4_CapRights \<Rightarrow> arch_cap \<Rightarrow> arch_cap" where
  "Arch_maskCapRights m (FrameCap asid p sz va vr d) = FrameCap asid p sz va (maskVMRights vr m) d"
| "Arch_maskCapRights m c = c"

fun maskCapRights :: "seL4_CapRights \<Rightarrow> cap \<Rightarrow> cap" where
  "maskCapRights m (ArchCap c) = ArchCap (Arch_maskCapRights m c)"
| "maskCapRights m (EndpointCap badge gr g se rcv p) =
     EndpointCap badge (gr \<and> capAllowGrantReply m) (g \<and> capAllowGrant m) (se \<and> capAllowWrite m) (rcv \<and> capAllowRead m) p"
| "maskCapRights m (NotificationCap badge rcv se p) = NotificationCap badge (rcv \<and> capAllowRead m) (se \<and> capAllowWrite m) p"
| "maskCapRights m (ReplyCap g master p) = ReplyCap (g \<and> capAllowGrant m) master p"
| "maskCapRights m cap = cap"

text \<open>
  Whether a new capability is revocable separately from its source; \<open>None\<close> when the badge of a
  capability of another kind would be read.
\<close>

fun Arch_isCapRevocable :: "arch_cap \<Rightarrow> cap \<Rightarrow> bool" where
  "Arch_isCapRevocable (SGISignalCap _ _) srcCap = (srcCap = IRQControlCap)"
| "Arch_isCapRevocable _ srcCap = False"

definition isCapRevocable :: "cap \<Rightarrow> cap \<Rightarrow> bool option" where
  "isCapRevocable derivedCap srcCap = (case derivedCap of
     ArchCap c \<Rightarrow> Some (Arch_isCapRevocable c srcCap)
   | EndpointCap b _ _ _ _ _ \<Rightarrow> (case srcCap of EndpointCap b' _ _ _ _ _ \<Rightarrow> Some (b \<noteq> b') | _ \<Rightarrow> None)
   | NotificationCap b _ _ _ \<Rightarrow> (case srcCap of NotificationCap b' _ _ _ \<Rightarrow> Some (b \<noteq> b') | _ \<Rightarrow> None)
   | IRQHandlerCap _ \<Rightarrow> Some (srcCap = IRQControlCap)
   | UntypedCap _ _ _ _ \<Rightarrow> Some True
   | _ \<Rightarrow> Some False)"

fun Arch_isMDBParentOf :: "cap \<Rightarrow> cap \<Rightarrow> bool \<Rightarrow> bool" where
  "Arch_isMDBParentOf (ArchCap (SGISignalCap _ _)) cap_b firstBadged = (\<not> firstBadged)"
| "Arch_isMDBParentOf cap_a cap_b firstBadged = True"

subsection \<open>Masks\<close>

lemma MASKw_mask: "MASKw n = mask (unat n)"
  by (simp add: MASKw_def MASK_mask)

lemma and_MASKw: "w AND MASKw n = take_bit (unat n) w"
  by (simp add: MASKw_mask take_bit_eq_mask)

lemma unat_2p: "n < 64 \<Longrightarrow> unat (2 ^ n :: word_t) = 2 ^ n"
proof -
  assume "n < 64"
  then have "(2::nat) ^ n < 2 ^ 64" by (intro power_strict_increasing) auto
  moreover have "unat (2 ^ n :: word_t) = unat (of_nat (2 ^ n) :: word_t)" by simp
  ultimately show ?thesis by (simp only: unat_of_nat) simp
qed

lemma unat_BITw: "n < 64 \<Longrightarrow> unat (BITw n) = 2 ^ unat n"
  using unat_2p[of "unat n"] by (simp add: BITw_def BIT_def push_bit_eq_mult word_less_nat_alt)

lemma unat_MASKw: "n < 64 \<Longrightarrow> unat (MASKw n) = 2 ^ unat n - 1"
proof -
  assume "n < 64"
  then have n: "unat n < 64" by (simp add: word_less_nat_alt)
  have "(1::word_t) \<le> 2 ^ unat n" using unat_2p[OF n] by (simp add: word_le_nat_alt)
  then have "unat (2 ^ unat n - 1 :: word_t) = unat (2 ^ unat n :: word_t) - unat (1 :: word_t)" by (rule unat_sub)
  then show ?thesis using unat_2p[OF n] by (simp add: MASKw_mask mask_eq_exp_minus_1)
qed

subsection \<open>Zombies keep their number and pointer\<close>

lemma zombie_bits:
  "ty = ZombieType_ZombieTCB \<or> ty < 63 \<Longrightarrow> 
   (if ty = ZombieType_ZombieTCB then MASKw (TCB_CNODE_RADIX + 1) else MASKw (ty + 1)) = MASKw (cap_zombie_cap_get_capZombieBits ty + 1)"
proof -
  have "ty AND MASK 6 = ty" if "ty < 63"
  proof -
    have "unat ty < 64" using that by (simp add: word_less_nat_alt)
    then have "take_bit 6 (unat ty) = unat ty" by (simp add: take_bit_nat_eq_self)
    then have "unat (take_bit 6 ty) = unat ty" by (simp only: unsigned_take_bit_eq)
    then show ?thesis by (simp add: MASK_mask take_bit_eq_mask[symmetric] word_unat_eq_iff)
  qed
  then show "ty = ZombieType_ZombieTCB \<or> ty < 63 \<Longrightarrow> ?thesis"
    by (auto simp: cap_zombie_cap_get_capZombieBits_def ZombieType_ZombieCNode_def wordRadix_def)
qed

lemma and_or_split:
  fixes p :: word_t
  assumes "p AND m = 0" "n AND m = n"
  shows "((p AND NOT m) OR (n AND m)) AND m = n" "((p AND NOT m) OR (n AND m)) AND NOT m = p"
proof -
  have p: "bit p i \<Longrightarrow> \<not> bit m i" for i using assms(1) bit_and_iff[of p m i] by simp
  have n: "bit n i \<Longrightarrow> bit m i" for i using assms(2) bit_and_iff[of n m i] by simp
  show "((p AND NOT m) OR (n AND m)) AND m = n" "((p AND NOT m) OR (n AND m)) AND NOT m = p"
    using p n by (auto intro!: bit_word_eqI simp: bit_simps)
qed

lemma small_and_mask: "n \<le> BITw k \<Longrightarrow> k < 63 \<Longrightarrow> n AND MASKw (k + 1) = n"
proof -
  assume a: "n \<le> BITw k" "k < 63"
  have k: "unat (k + 1) = unat k + 1" "unat k < 63" using a(2) by (auto simp: word_less_nat_alt unat_word_ariths)
  have "unat (BITw k) = 2 ^ unat k" using k(2) by (intro unat_BITw) (simp add: word_less_nat_alt)
  moreover have "(2::nat) ^ unat k < 2 ^ (unat k + 1)" by simp
  ultimately have "unat n < 2 ^ (unat k + 1)" using a(1) unfolding word_le_nat_alt by linarith
  then have "take_bit (unat k + 1) (unat n) = unat n" by (simp add: take_bit_nat_eq_self)
  then have "unat (take_bit (unat k + 1) n) = unat n" by (simp add: unsigned_take_bit_eq)
  then show ?thesis by (simp add: and_MASKw k(1) word_unat_eq_iff)
qed

text \<open>
  A zombie made for a slot array whose address is aligned to more than its number of slots yields the
  array and the number of slots again, and setting a new number keeps the array.
\<close>

lemma zombie_roundtrip:
  assumes "ty = ZombieType_ZombieTCB \<or> ty < 63" "p AND MASKw (cap_zombie_cap_get_capZombieBits ty + 1) = 0"
    "number \<le> BITw (cap_zombie_cap_get_capZombieBits ty)" "n \<le> BITw (cap_zombie_cap_get_capZombieBits ty)"
  shows "\<exists>zid zid'. Zombie_new number ty p = ZombieCap zid ty \<and>
    cap_zombie_cap_get_capZombieNumber zid ty = number \<and> cap_zombie_cap_get_capZombiePtr zid ty = p \<and>
    cap_zombie_cap_set_capZombieNumber zid ty n = ZombieCap zid' ty \<and>
    cap_zombie_cap_get_capZombieNumber zid' ty = n \<and> cap_zombie_cap_get_capZombiePtr zid' ty = p"
proof -
  let ?k = "cap_zombie_cap_get_capZombieBits ty"
  let ?m = "MASKw (?k + 1)"
  have "?k < 63" using assms(1) zombie_bits[OF assms(1)]
    by (auto simp: cap_zombie_cap_get_capZombieBits_def TCB_CNODE_RADIX_def ZombieType_ZombieCNode_def word_and_le1 intro: le_less_trans[OF word_and_le2])
  then have n: "number AND ?m = number" "n AND ?m = n" using assms(3,4) small_and_mask by blast+
  note s = and_or_split[OF assms(2) n(1)] and s' = and_or_split[OF assms(2) n(2)]
  let ?z = "(p AND NOT ?m) OR (number AND ?m)"
  have "Zombie_new number ty p = ZombieCap ?z ty" using zombie_bits[OF assms(1)] by (simp add: Zombie_new_def Let_def)
  moreover have "cap_zombie_cap_set_capZombieNumber ?z ty n = ZombieCap ((p AND NOT ?m) OR (n AND ?m)) ty"
  proof -
    have "p AND NOT ?m = p" using s(2) and_or_split[OF assms(2), of 0] by simp
    then show ?thesis using s(2) by (simp add: cap_zombie_cap_set_capZombieNumber_def Let_def)
  qed
  ultimately show ?thesis using s s'
    by (simp add: cap_zombie_cap_get_capZombieNumber_def cap_zombie_cap_get_capZombiePtr_def)
qed

subsection \<open>Regions\<close>

text \<open>The addresses a capability with memory covers, when they do not wrap around.\<close>

definition cap_region :: "cap \<Rightarrow> nat set" where
  "cap_region c = {unat (cap_get_capPtr c) ..< unat (cap_get_capPtr c) + 2 ^ unat (cap_get_capSizeBits c)}"

definition cap_fits :: "cap \<Rightarrow> bool" where
  "cap_fits c \<longleftrightarrow> cap_get_capSizeBits c < 64 \<and> unat (cap_get_capPtr c) + 2 ^ unat (cap_get_capSizeBits c) \<le> 2 ^ 64"

lemma top_of_region:
  assumes "b < 64" "unat p + 2 ^ unat b \<le> 2 ^ 64"
  shows "unat (p + MASKw b) = unat p + 2 ^ unat b - 1" "p \<le> p + MASKw b"
proof -
  have g: "(0::nat) < 2 ^ unat b" by simp
  have "unat p + unat (MASKw b) < 2 ^ 64" using assms g unfolding unat_MASKw[OF assms(1)] by linarith
  then show u: "unat (p + MASKw b) = unat p + 2 ^ unat b - 1"
    using g unfolding unat_MASKw[OF assms(1), symmetric] by (simp add: unat_word_ariths unat_MASKw[OF assms(1)])
  show "p \<le> p + MASKw b" using u g unfolding word_le_nat_alt by linarith
qed

lemma interval_le:
  fixes a b :: word_t
  assumes "m < 64" "unat a + 2 ^ unat m \<le> 2 ^ 64" "n < 64" "unat b + 2 ^ unat n \<le> 2 ^ 64"
  shows "a \<le> b \<and> b + MASKw n \<le> a + MASKw m \<and> b \<le> b + MASKw n \<longleftrightarrow>
    {unat b ..< unat b + 2 ^ unat n} \<subseteq> {unat a ..< unat a + 2 ^ unat m}"
proof -
  have g: "(0::nat) < 2 ^ unat n" "(0::nat) < 2 ^ unat m" by simp_all
  have "{unat b ..< unat b + 2 ^ unat n} \<subseteq> {unat a ..< unat a + 2 ^ unat m} \<longleftrightarrow>
      unat a \<le> unat b \<and> unat b + 2 ^ unat n \<le> unat a + 2 ^ unat m" unfolding ivl_subset using g by linarith
  also have "\<dots> \<longleftrightarrow> a \<le> b \<and> b + MASKw n \<le> a + MASKw m"
    unfolding word_le_nat_alt top_of_region(1)[OF assms(1,2)] top_of_region(1)[OF assms(3,4)] using g by linarith
  finally show ?thesis using top_of_region(2)[OF assms(3,4)] by blast
qed

text \<open>
  Comparing the regions of capabilities is inclusion of address ranges: an untyped capability covers
  exactly the capabilities with memory whose addresses lie in its own range, and a frame capability
  exactly the frames in its range, also where the ends of the ranges are computed in machine words. A
  capability without memory is never covered.
\<close>

lemma region_comparison:
  assumes "cap_fits a" "cap_fits b"
    "(\<exists>d s f p. a = UntypedCap d s f p) \<or> (\<exists>as p sz va vr d as' p' sz' va' vr' d'. a = ArchCap (FrameCap as p sz va vr d) \<and> b = ArchCap (FrameCap as' p' sz' va' vr' d'))"
  shows "sameRegionAs a b \<longleftrightarrow> cap_get_capIsPhysical b \<and> cap_region b \<subseteq> cap_region a"
proof -
  note iv = interval_le[of "cap_get_capSizeBits a" "cap_get_capPtr a" "cap_get_capSizeBits b" "cap_get_capPtr b"]
  have iv': "cap_get_capPtr a \<le> cap_get_capPtr b \<and> cap_get_capPtr b + MASKw (cap_get_capSizeBits b) \<le> cap_get_capPtr a + MASKw (cap_get_capSizeBits a) \<and>
      cap_get_capPtr b \<le> cap_get_capPtr b + MASKw (cap_get_capSizeBits b) \<longleftrightarrow> cap_region b \<subseteq> cap_region a"
    unfolding cap_region_def by (rule iv) (use assms(1,2) in \<open>auto simp: cap_fits_def\<close>)
  from assms(3) show ?thesis
  proof (elim disjE exE conjE)
    fix d s f p assume "a = UntypedCap d s f p"
    then show ?thesis using iv' by (simp add: sameRegionAs_def Let_def)
  next
    fix as p sz va vr d as' p' sz' va' vr' d'
    assume "a = ArchCap (FrameCap as p sz va vr d)" "b = ArchCap (FrameCap as' p' sz' va' vr' d')"
    then show ?thesis using iv' by (simp add: sameRegionAs_def Let_def)
  qed
qed

subsection \<open>Rights\<close>

datatype right = Read | Write | Grant | GrantReply

definition mask_rights :: "seL4_CapRights \<Rightarrow> right set" where
  "mask_rights m = (if capAllowRead m then {Read} else {}) \<union> (if capAllowWrite m then {Write} else {}) \<union>
     (if capAllowGrant m then {Grant} else {}) \<union> (if capAllowGrantReply m then {GrantReply} else {})"

fun vm_right_set :: "vm_rights \<Rightarrow> right set" where
  "vm_right_set VMKernelOnly = {}"
| "vm_right_set VMReadOnly = {Read}"
| "vm_right_set VMReadWrite = {Read, Write}"

text \<open>The rights a capability carries that the kernel can take away.\<close>

fun cap_right_set :: "cap \<Rightarrow> right set" where
  "cap_right_set (EndpointCap _ gr g se rcv _) = (if gr then {GrantReply} else {}) \<union> (if g then {Grant} else {}) \<union>
     (if se then {Write} else {}) \<union> (if rcv then {Read} else {})"
| "cap_right_set (NotificationCap _ rcv se _) = (if se then {Write} else {}) \<union> (if rcv then {Read} else {})"
| "cap_right_set (ReplyCap g _ _) = (if g then {Grant} else {})"
| "cap_right_set (ArchCap (FrameCap _ _ _ _ vr _)) = vm_right_set vr"
| "cap_right_set _ = {}"

fun is_frame_cap :: "cap \<Rightarrow> bool" where
  "is_frame_cap (ArchCap (FrameCap _ _ _ _ _ _)) = True"
| "is_frame_cap _ = False"

text \<open>The kind of a capability and the object it stands for, with everything a holder can not change.\<close>

fun cap_identity :: "cap \<Rightarrow> cap" where
  "cap_identity (EndpointCap _ _ _ _ _ p) = EndpointCap 0 False False False False p"
| "cap_identity (NotificationCap _ _ _ p) = NotificationCap 0 False False p"
| "cap_identity (ReplyCap _ m p) = ReplyCap False m p"
| "cap_identity (CNodeCap r _ _ p) = CNodeCap r 0 0 p"
| "cap_identity (ArchCap (FrameCap as p sz va _ d)) = ArchCap (FrameCap as p sz va VMKernelOnly d)"
| "cap_identity c = c"

fun cap_badge :: "cap \<Rightarrow> word_t" where
  "cap_badge (EndpointCap b _ _ _ _ _) = b"
| "cap_badge (NotificationCap b _ _ _) = b"
| "cap_badge _ = 0"

text \<open>A CNode capability whose guard fits its size, and whose guard and radix fit a word.\<close>

fun valid_cnode_cap :: "cap \<Rightarrow> bool" where
  "valid_cnode_cap (CNodeCap r gs g _) = (unat r + unat gs \<le> 64 \<and> 0 < unat r \<and> unat r < 64 \<and> unat gs < 64 \<and> g AND MASKw gs = g)"
| "valid_cnode_cap _ = True"

lemma mask_right_set: "cap_right_set (maskCapRights m c) \<subseteq> cap_right_set c \<inter> mask_rights m"
proof (cases c)
  case (ArchCap x12)
  then show ?thesis by (cases x12) (auto simp: mask_rights_def maskVMRights_def)
qed (auto simp: mask_rights_def)

lemma mask_right_set_eq: "\<not> is_frame_cap c \<Longrightarrow> cap_right_set (maskCapRights m c) = cap_right_set c \<inter> mask_rights m"
proof (cases c)
  case (ArchCap x12)
  assume "\<not> is_frame_cap c"
  then show ?thesis using ArchCap by (cases x12) auto
qed (auto simp: mask_rights_def)

lemma mask_identity: "cap_identity (maskCapRights m c) = cap_identity c \<and> cap_badge (maskCapRights m c) = cap_badge c"
proof (cases c)
  case (ArchCap x12)
  then show ?thesis by (cases x12) auto
qed auto

lemma update_cap_data:
  "updateCapData preserve d c = NullCap \<or>
   cap_right_set (updateCapData preserve d c) = cap_right_set c \<and> cap_identity (updateCapData preserve d c) = cap_identity c \<and>
   (cap_badge (updateCapData preserve d c) = cap_badge c \<or> \<not> preserve \<and> cap_badge c = 0)"
  by (cases c) (auto simp: Arch_updateCapData_def Let_def)

lemma update_cnode_valid: "valid_cnode_cap c \<Longrightarrow> valid_cnode_cap (updateCapData preserve d c)"
proof (cases c)
  case (CNodeCap r gs g p)
  assume v: "valid_cnode_cap c"
  let ?gs = "d AND MASK 6"
  have gl: "unat ?gs < 64"
    using take_bit_nat_less_exp[of 6 "unat d"] by (simp add: MASK_mask take_bit_eq_mask[symmetric] unsigned_take_bit_eq)
  have r: "unat r < 64" "0 < unat r" using v CNodeCap by auto
  then have "unat (?gs + r) = unat ?gs + unat r" using gl by (simp add: unat_word_ariths)
  then have "unat r + unat ?gs \<le> 64" if "\<not> (64 < ?gs + r)" using that by (simp add: word_less_nat_alt)
  then show ?thesis using CNodeCap gl r by (auto simp: Let_def wordBits_def and.assoc)
qed (auto simp: Arch_updateCapData_def)

text \<open>
  Masking rights and setting data, as copying and minting a capability do, never adds authority: the
  result is the null capability, or a capability of the same kind for the same object whose rights
  are among those of the source and of the mask (all of them, except that a frame can not be mapped
  for writing only), whose badge is the source's unless that had none, and whose guard still fits.
\<close>

lemma mint_no_escalation:
  assumes "valid_cnode_cap c"
  shows "let c' = updateCapData preserve d (maskCapRights m c) in
    valid_cnode_cap c' \<and>
    (c' = NullCap \<or>
      cap_identity c' = cap_identity c \<and> cap_right_set c' \<subseteq> cap_right_set c \<inter> mask_rights m \<and>
      (\<not> is_frame_cap c \<longrightarrow> cap_right_set c' = cap_right_set c \<inter> mask_rights m) \<and>
      (cap_badge c' = cap_badge c \<or> \<not> preserve \<and> cap_badge c = 0))"
proof -
  let ?m = "maskCapRights m c"
  have "valid_cnode_cap ?m" using assms by (cases c) auto
  then have "valid_cnode_cap (updateCapData preserve d ?m)" by (rule update_cnode_valid)
  then show ?thesis unfolding Let_def
    using update_cap_data[of preserve d ?m] mask_right_set[of m c] mask_right_set_eq[of c m] mask_identity[of m c] by metis
qed

end
