(* ===== verification/KCSpace.thy ===== *)
theory KCSpace
  imports KCaps
begin

unbundle bit_operations_syntax

text \<open>
  Looking up slots in the capability space of a thread, \<^verbatim>\<open>kernel/src/kernel/cspace.c\<close>. A lookup yields
  \<open>None\<close> when an assertion fails, a shift count is undefined or a slot does not exist, \<open>Some (Inl e)\<close>
  when the kernel reports the fault or error \<open>e\<close>, and \<open>Some (Inr x)\<close> otherwise. The main result relates
  the lookup by shifts and masks to a walk over the bits of the address.
\<close>

subsection \<open>Resolving an address\<close>

function resolve_loop :: "kernel_state \<Rightarrow> cap \<Rightarrow> cptr_t \<Rightarrow> word_t \<Rightarrow> (lookup_fault + ptr \<times> word_t) option" where
  "resolve_loop s nodeCap capptr n_bits = (case nodeCap of CNodeCap radixBits guardBits capGuard node \<Rightarrow>
     let levelBits = radixBits + guardBits in
     if levelBits = 0 then None
     else let guard = drop_bit (unat ((n_bits - guardBits) AND MASK wordRadix)) capptr AND MASKw guardBits in
       if guardBits > n_bits \<or> guard \<noteq> capGuard then Some (Inl (Lookup_guard_mismatch capGuard n_bits guardBits))
       else if levelBits > n_bits then Some (Inl (Lookup_depth_mismatch levelBits n_bits))
       else if \<not> unat (n_bits - levelBits) < wordBits then None
       else let offset = drop_bit (unat (n_bits - levelBits)) capptr AND MASKw radixBits;
                slot = cte_at_index node offset
            in if n_bits = levelBits then Some (Inr (slot, 0))
               else (case ctes s slot of None \<Rightarrow> None
                | Some c \<Rightarrow> (case cte_cap c of CNodeCap _ _ _ _ \<Rightarrow> resolve_loop s (cte_cap c) capptr (n_bits - levelBits)
                    | _ \<Rightarrow> Some (Inr (slot, n_bits - levelBits))))
   | _ \<Rightarrow> None)"
  by pat_completeness auto
termination
proof (relation "measure (\<lambda>(s, c, p, n). unat n)", goal_cases)
  case (2 s nodeCap capptr n_bits radixBits guardBits capGuard node levelBits)
  have "unat (n_bits - levelBits) = unat n_bits - unat levelBits" using 2 by (intro unat_sub) (simp add: not_less)
  moreover have "0 < unat levelBits" "unat levelBits \<le> unat n_bits" using 2 by (simp_all add: not_less word_le_nat_alt unat_gt_0)
  ultimately show ?case by simp
qed simp

declare resolve_loop.simps [simp del]

definition resolveAddressBits :: "kernel_state \<Rightarrow> cap \<Rightarrow> cptr_t \<Rightarrow> word_t \<Rightarrow> (lookup_fault + ptr \<times> word_t) option" where
  "resolveAddressBits s nodeCap capptr n_bits = (case nodeCap of
     CNodeCap _ _ _ _ \<Rightarrow> resolve_loop s nodeCap capptr n_bits
   | _ \<Rightarrow> Some (Inl Lookup_invalid_root))"

definition lookupSlot :: "kernel_state \<Rightarrow> ptr \<Rightarrow> cptr_t \<Rightarrow> (lookup_fault + ptr) option" where
  "lookupSlot s thread capptr = do {
     root \<leftarrow> ctes s (TCB_PTR_CTE_PTR thread tcbCTable);
     r \<leftarrow> resolveAddressBits s (cte_cap root) capptr (of_nat wordBits);
     Some (map_sum id fst r)
   }"

definition lookupCap :: "kernel_state \<Rightarrow> ptr \<Rightarrow> cptr_t \<Rightarrow> (lookup_fault + cap) option" where
  "lookupCap s thread cPtr = do {
     lu \<leftarrow> lookupSlot s thread cPtr;
     (case lu of Inl f \<Rightarrow> Some (Inl f) | Inr slot \<Rightarrow> map_option (\<lambda>c. Inr (cte_cap c)) (ctes s slot))
   }"

definition lookupCapAndSlot :: "kernel_state \<Rightarrow> ptr \<Rightarrow> cptr_t \<Rightarrow> (lookup_fault + ptr \<times> cap) option" where
  "lookupCapAndSlot s thread cPtr = do {
     lu \<leftarrow> lookupSlot s thread cPtr;
     (case lu of Inl f \<Rightarrow> Some (Inl f) | Inr slot \<Rightarrow> map_option (\<lambda>c. Inr (slot, cte_cap c)) (ctes s slot))
   }"

definition lookup_error :: "bool \<Rightarrow> lookup_fault \<Rightarrow> syscall_error" where
  "lookup_error isSource f = (no_error seL4_FailedLookup)\<lparr>failedLookupWasSource := isSource, se_lookup_fault := f\<rparr>"

definition lookupSlotForCNodeOp :: "bool \<Rightarrow> kernel_state \<Rightarrow> cap \<Rightarrow> cptr_t \<Rightarrow> word_t \<Rightarrow> (syscall_error + ptr) option" where
  "lookupSlotForCNodeOp isSource s root capptr depth =
     (case root of
        CNodeCap _ _ _ _ \<Rightarrow>
          if depth < 1 \<or> depth > of_nat wordBits
          then Some (Inl ((no_error seL4_RangeError)\<lparr>rangeErrorMin := 1, rangeErrorMax := of_nat wordBits\<rparr>))
          else do {
            res \<leftarrow> resolveAddressBits s root capptr depth;
            (case res of
               Inl f \<Rightarrow> Some (Inl (lookup_error isSource f))
             | Inr (slot, bitsRemaining) \<Rightarrow>
                 if bitsRemaining \<noteq> 0 then Some (Inl (lookup_error isSource (Lookup_depth_mismatch 0 bitsRemaining)))
                 else Some (Inr slot))
          }
      | _ \<Rightarrow> Some (Inl (lookup_error isSource Lookup_invalid_root)))"

definition lookupSourceSlot :: "kernel_state \<Rightarrow> cap \<Rightarrow> cptr_t \<Rightarrow> word_t \<Rightarrow> (syscall_error + ptr) option" where
  "lookupSourceSlot = lookupSlotForCNodeOp True"

definition lookupTargetSlot :: "kernel_state \<Rightarrow> cap \<Rightarrow> cptr_t \<Rightarrow> word_t \<Rightarrow> (syscall_error + ptr) option" where
  "lookupTargetSlot = lookupSlotForCNodeOp False"

definition lookupPivotSlot :: "kernel_state \<Rightarrow> cap \<Rightarrow> cptr_t \<Rightarrow> word_t \<Rightarrow> (syscall_error + ptr) option" where
  "lookupPivotSlot = lookupSlotForCNodeOp True"

subsection \<open>Addresses as lists of bits\<close>

text \<open>The low \<open>n\<close> bits of an address, most significant first, and the number a list of bits stands for.\<close>

definition bits_of :: "nat \<Rightarrow> word_t \<Rightarrow> bool list" where
  "bits_of n w = map (bit w) (rev [0..<n])"

definition index_of :: "bool list \<Rightarrow> nat" where
  "index_of bs = foldl (\<lambda>a b. 2 * a + of_bool b) 0 bs"

lemma length_bits_of [simp]: "length (bits_of n w) = n"
  by (simp add: bits_of_def)

lemma nth_bits_of: "i < n \<Longrightarrow> bits_of n w ! i = bit w (n - 1 - i)"
  by (simp add: bits_of_def rev_nth)

lemma take_bits_of: "k \<le> n \<Longrightarrow> take k (bits_of n w) = bits_of k (drop_bit (n - k) w)"
  by (rule nth_equalityI) (auto simp: nth_bits_of bit_drop_bit_eq algebra_simps)

lemma drop_bits_of: "k \<le> n \<Longrightarrow> drop k (bits_of n w) = bits_of (n - k) w"
  by (rule nth_equalityI) (auto simp: nth_bits_of)

lemma bits_of_eq_iff: "bits_of k v = bits_of k w \<longleftrightarrow> take_bit k v = take_bit k w"
proof
  assume a: "bits_of k v = bits_of k w"
  have "bit v i = bit w i" if "i < k" for i
    using arg_cong[OF a, of "\<lambda>xs. xs ! (k - 1 - i)"] that by (simp add: nth_bits_of)
  then show "take_bit k v = take_bit k w" by (intro bit_word_eqI) (auto simp: bit_take_bit_iff)
next
  assume a: "take_bit k v = take_bit k w"
  have "bit v i = bit w i" if "i < k" for i using arg_cong[OF a, of "\<lambda>x. bit x i"] that by (simp add: bit_take_bit_iff)
  then show "bits_of k v = bits_of k w" by (simp add: bits_of_def)
qed

lemma bits_of_Suc: "bits_of (Suc k) w = bit w k # bits_of k w"
  by (simp add: bits_of_def)

lemma index_bits_of: "index_of (bits_of k w) = take_bit k (unat w)"
proof -
  have "foldl (\<lambda>a b. 2 * a + of_bool b) acc (bits_of k w) = acc * 2 ^ k + take_bit k (unat w)" for acc
  proof (induction k arbitrary: acc)
    case 0
    show ?case by (simp add: bits_of_def)
  next
    case (Suc k)
    have "bit (unat w) k = bit w k" by (simp add: bit_unsigned_iff)
    then have "take_bit (Suc k) (unat w) = 2 ^ k * of_bool (bit w k) + take_bit k (unat w)"
      by (simp add: take_bit_Suc_from_most)
    then show ?case unfolding bits_of_Suc foldl_Cons Suc.IH by (simp add: algebra_simps)
  qed
  then show ?thesis by (simp add: index_of_def)
qed

subsection \<open>Resolution as a walk over the bits\<close>

text \<open>
  Resolving an address given as a list of bits: a CNode consumes its guard and then the bits that
  select one of its slots; the walk ends at the slot that uses up the address or that holds no CNode.
\<close>

inductive resolves :: "kernel_state \<Rightarrow> cap \<Rightarrow> bool list \<Rightarrow> lookup_fault + ptr \<times> word_t \<Rightarrow> bool" for s :: kernel_state where
  guard_mismatch: "take (unat gs) bs \<noteq> bits_of (unat gs) g \<Longrightarrow>
    resolves s (CNodeCap r gs g p) bs (Inl (Lookup_guard_mismatch g (of_nat (length bs)) gs))"
| depth_mismatch: "take (unat gs) bs = bits_of (unat gs) g \<Longrightarrow> length bs < unat r + unat gs \<Longrightarrow>
    resolves s (CNodeCap r gs g p) bs (Inl (Lookup_depth_mismatch (r + gs) (of_nat (length bs))))"
| found: "bs = bits_of (unat gs) g @ ix \<Longrightarrow> length ix = unat r \<Longrightarrow>
    resolves s (CNodeCap r gs g p) bs (Inr (cte_at_index p (of_nat (index_of ix)), 0))"
| leaf: "bs = bits_of (unat gs) g @ ix @ rest \<Longrightarrow> length ix = unat r \<Longrightarrow> rest \<noteq> [] \<Longrightarrow>
    ctes s (cte_at_index p (of_nat (index_of ix))) = Some c \<Longrightarrow> (\<And>r' gs' g' p'. cte_cap c \<noteq> CNodeCap r' gs' g' p') \<Longrightarrow>
    resolves s (CNodeCap r gs g p) bs (Inr (cte_at_index p (of_nat (index_of ix)), of_nat (length rest)))"
| step: "bs = bits_of (unat gs) g @ ix @ rest \<Longrightarrow> length ix = unat r \<Longrightarrow> rest \<noteq> [] \<Longrightarrow>
    ctes s (cte_at_index p (of_nat (index_of ix))) = Some c \<Longrightarrow> cte_cap c = CNodeCap r' gs' g' p' \<Longrightarrow>
    resolves s (cte_cap c) rest res \<Longrightarrow> resolves s (CNodeCap r gs g p) bs res"

text \<open>Every slot of a CNode exists and every CNode capability is well formed.\<close>

definition cnode_slots :: "kernel_state \<Rightarrow> cap \<Rightarrow> bool" where
  "cnode_slots s cap \<longleftrightarrow> valid_cnode_cap cap \<and> (\<forall>r gs g p. cap = CNodeCap r gs g p \<longrightarrow>
     (\<forall>i < 2 ^ unat r. ctes s (cte_at_index p (of_nat i)) \<noteq> None))"

definition valid_cspace :: "kernel_state \<Rightarrow> bool" where
  "valid_cspace s \<longleftrightarrow> (\<forall>p c. ctes s p = Some c \<longrightarrow> cnode_slots s (cte_cap c))"

lemma offset_index: "drop_bit k w AND MASKw r = (of_nat (index_of (bits_of (unat r) (drop_bit k w))) :: word_t)"
  by (simp add: index_bits_of and_MASKw unsigned_take_bit_eq[symmetric])

lemma guard_test:
  assumes gs: "unat gs \<le> n" "n \<le> 64" "unat gs < 64" and g: "g AND MASKw gs = g"
  shows "drop_bit (unat ((of_nat n - gs) AND MASK wordRadix)) w AND MASKw gs = g \<longleftrightarrow> take (unat gs) (bits_of n w) = bits_of (unat gs) g"
proof (cases "gs = 0")
  case True
  then show ?thesis using g by (auto simp: MASKw_mask bits_of_def)
next
  case False
  then have pos: "0 < unat gs" by (simp add: unat_gt_0)
  have "unat (of_nat n - gs) = n - unat gs"
    using gs by (subst unat_sub) (simp_all add: word_le_nat_alt unat_of_nat)
  moreover have "take_bit 6 (n - unat gs) = n - unat gs" using gs pos by (intro take_bit_nat_eq_self) simp
  ultimately have "unat ((of_nat n - gs) AND MASK wordRadix) = n - unat gs"
    by (simp add: MASK_mask take_bit_eq_mask[symmetric] unsigned_take_bit_eq wordRadix_def)
  moreover have "take_bit (unat gs) g = g" using g by (simp add: and_MASKw)
  ultimately show ?thesis by (simp add: take_bits_of[OF gs(1)] bits_of_eq_iff and_MASKw)
qed

lemma resolve_loop_resolves:
  assumes "valid_cspace s"
  shows "cnode_slots s (CNodeCap r gs g p) \<Longrightarrow> n \<le> 64 \<Longrightarrow>
    \<exists>res. resolve_loop s (CNodeCap r gs g p) w (of_nat n) = Some res \<and> resolves s (CNodeCap r gs g p) (bits_of n w) res"
proof (induction n arbitrary: r gs g p rule: less_induct)
  case (less n)
  have v: "unat r + unat gs \<le> 64" "0 < unat r" "unat r < 64" "unat gs < 64" "g AND MASKw gs = g"
    and slots: "\<And>i. i < 2 ^ unat r \<Longrightarrow> ctes s (cte_at_index p (of_nat i)) \<noteq> None"
    using less.prems(1) by (auto simp: cnode_slots_def)
  have ul: "unat (r + gs) = unat r + unat gs" using v(1) by (simp add: unat_word_ariths)
  then have nz: "r + gs \<noteq> 0" using v(2) by (metis add_gr_0 unat_0 less_irrefl)
  have un: "unat (of_nat n :: word_t) = n" using less.prems(2) by (simp add: unat_of_nat)
  consider (short) "n < unat gs" | (guard) "unat gs \<le> n" "take (unat gs) (bits_of n w) \<noteq> bits_of (unat gs) g"
    | (depth) "unat gs \<le> n" "take (unat gs) (bits_of n w) = bits_of (unat gs) g" "n < unat r + unat gs"
    | (ok) "take (unat gs) (bits_of n w) = bits_of (unat gs) g" "unat r + unat gs \<le> n" by linarith
  then show ?case
  proof cases
    case short
    then have "take (unat gs) (bits_of n w) \<noteq> bits_of (unat gs) g" by (metis length_bits_of length_take min_less_iff_conj less_irrefl)
    moreover have "resolve_loop s (CNodeCap r gs g p) w (of_nat n) = Some (Inl (Lookup_guard_mismatch g (of_nat n) gs))"
      using short nz un by (subst resolve_loop.simps) (simp add: Let_def word_less_nat_alt)
    ultimately show ?thesis using guard_mismatch[of gs "bits_of n w" g] by auto
  next
    case guard
    then have "resolve_loop s (CNodeCap r gs g p) w (of_nat n) = Some (Inl (Lookup_guard_mismatch g (of_nat n) gs))"
      using guard_test[OF guard(1) less.prems(2) v(4,5), of w] nz by (subst resolve_loop.simps) (simp add: Let_def)
    then show ?thesis using guard_mismatch[OF guard(2), of s r p] by auto
  next
    case depth
    then have "resolve_loop s (CNodeCap r gs g p) w (of_nat n) = Some (Inl (Lookup_depth_mismatch (r + gs) (of_nat n)))"
      using guard_test[OF depth(1) less.prems(2) v(4,5), of w] nz un ul
      by (subst resolve_loop.simps) (simp add: Let_def word_less_nat_alt)
    then show ?thesis using depth_mismatch[OF depth(2), of r s p] depth(3) by auto
  next
    case ok
    let ?k = "n - (unat r + unat gs)"
    let ?ix = "bits_of (unat r) (drop_bit ?k w)" and ?rest = "bits_of ?k w"
    let ?slot = "cte_at_index p (of_nat (index_of ?ix))"
    have bs: "bits_of n w = bits_of (unat gs) g @ ?ix @ ?rest"
    proof -
      have "drop (unat gs) (bits_of n w) = bits_of (n - unat gs) w" using ok(2) by (intro drop_bits_of) simp
      also have "\<dots> = take (unat r) (bits_of (n - unat gs) w) @ drop (unat r) (bits_of (n - unat gs) w)" by simp
      also have "\<dots> = ?ix @ ?rest" using ok(2) by (simp add: take_bits_of drop_bits_of add.commute)
      finally show ?thesis using ok(1) append_take_drop_id[of "unat gs" "bits_of n w"] by simp
    qed
    have gle: "gs \<le> of_nat n" "r + gs \<le> of_nat n" "unat (of_nat n - (r + gs)) = ?k"
      using ok(2) un ul by (simp_all add: word_le_nat_alt unat_sub)
    have gt: "drop_bit (unat ((of_nat n - gs) AND MASK wordRadix)) w AND MASKw gs = g"
      using guard_test[of gs n g w] ok less.prems(2) v(4,5) by simp
    have k64: "?k < wordBits" using v(2) less.prems(2) by (simp add: wordBits_def)
    have nl: "\<not> of_nat n < gs" "\<not> of_nat n < r + gs" using gle(1,2) by (simp_all add: not_less)
    have off: "drop_bit ?k w AND MASKw r = of_nat (index_of ?ix)" by (rule offset_index)
    have eq: "resolve_loop s (CNodeCap r gs g p) w (of_nat n) =
      (if of_nat n = r + gs then Some (Inr (?slot, 0))
       else (case ctes s ?slot of None \<Rightarrow> None
                | Some c \<Rightarrow> (case cte_cap c of CNodeCap _ _ _ _ \<Rightarrow> resolve_loop s (cte_cap c) w (of_nat n - (r + gs))
                    | _ \<Rightarrow> Some (Inr (?slot, of_nat n - (r + gs))))))"
      by (subst resolve_loop.simps)
        (simp only: cap.case Let_def nl gt off nz gle(3) k64 if_False if_True not_False_eq_True not_True_eq_False simp_thms)
    have end_iff: "of_nat n = r + gs \<longleftrightarrow> ?k = 0" using ok(2) un ul by (metis word_unat_eq_iff diff_is_0_eq order_antisym le_refl)
    have rem: "of_nat n - (r + gs) = of_nat ?k" using arg_cong[OF gle(3), of "of_nat :: nat \<Rightarrow> word_t"] by simp
    show ?thesis
    proof (cases "?k = 0")
      case True
      then have "resolves s (CNodeCap r gs g p) (bits_of n w) (Inr (?slot, 0))"
        using bs by (intro found) (auto simp: bits_of_def)
      then show ?thesis using eq end_iff True by auto
    next
      case False
      then have rne: "?rest \<noteq> []" by (metis length_bits_of length_0_conv)
      have "index_of ?ix < 2 ^ unat r" by (simp add: index_bits_of)
      then obtain c where c: "ctes s ?slot = Some c" using slots by blast
      show ?thesis
      proof (cases "\<exists>r' gs' g' p'. cte_cap c = CNodeCap r' gs' g' p'")
        case True
        then obtain r' gs' g' p' where c': "cte_cap c = CNodeCap r' gs' g' p'" by blast
        have "cnode_slots s (cte_cap c)" using assms c by (auto simp: valid_cspace_def)
        then obtain res where res: "resolve_loop s (cte_cap c) w (of_nat ?k) = Some res" "resolves s (cte_cap c) ?rest res"
        proof -
          have kl: "?k < n" "?k \<le> 64" using v(2) ok(2) less.prems(2) by linarith+
          have "cnode_slots s (CNodeCap r' gs' g' p')" using \<open>cnode_slots s (cte_cap c)\<close> c' by simp
          from less.IH[OF kl(1) this kl(2)] show ?thesis using that c' by auto
        qed
        have "resolves s (CNodeCap r gs g p) (bits_of n w) res" by (rule step[OF bs _ rne c c' res(2)]) simp
        moreover have "resolve_loop s (CNodeCap r gs g p) w (of_nat n) = resolve_loop s (cte_cap c) w (of_nat ?k)"
          using end_iff False unfolding eq c rem by (simp add: c')
        ultimately show ?thesis using res(1) by simp
      next
        case nc: False
        then have "resolves s (CNodeCap r gs g p) (bits_of n w) (Inr (?slot, of_nat (length ?rest)))"
          by (intro leaf[OF bs _ rne c]) auto
        moreover have "resolve_loop s (CNodeCap r gs g p) w (of_nat n) = Some (Inr (?slot, of_nat ?k))"
          using end_iff False nc unfolding eq c rem by (auto split: cap.splits)
        ultimately show ?thesis by auto
      qed
    qed
  qed
qed

text \<open>
  C38. With well-formed CNodes, resolving an address of at most 64 bits always terminates, never shifts by an
  undefined amount or leaves the slots that exist, and does what the walk over the bits of the
  address says: the guards and slot indices the kernel extracts by shifting and masking are the next
  bits of the address, and the fault or the slot and the number of bits left are those of the walk.
\<close>

theorem resolve_walks_bits:
  assumes "valid_cspace s" "cnode_slots s cap" "n \<le> 64"
  shows "\<exists>res. resolveAddressBits s cap capptr (of_nat n) = Some res \<and>
    (if \<exists>r gs g p. cap = CNodeCap r gs g p then resolves s cap (bits_of n capptr) res else res = Inl Lookup_invalid_root)"
proof (cases cap)
  case (CNodeCap r gs g p)
  then show ?thesis using resolve_loop_resolves[OF assms(1), of r gs g p n capptr] assms(2,3) by (simp add: resolveAddressBits_def)
qed (simp_all add: resolveAddressBits_def)

text \<open>A root CNode with four slots, whose second slot holds an endpoint capability.\<close>

definition ex_cspace :: "kernel_state \<Rightarrow> kernel_state" where
  "ex_cspace s = s\<lparr>ctes := (\<lambda>p. if p \<in> {0x8000, 0x8040, 0x8060} then Some \<lparr>cte_cap = NullCap, cteMDBNode = nullMDBNode\<rparr>
     else if p = 0x8020 then Some \<lparr>cte_cap = EndpointCap 0 True True True True 0x9000, cteMDBNode = nullMDBNode\<rparr> else None)\<rparr>"

lemma ex_cspace_valid: "valid_cspace (ex_cspace s)" "cnode_slots (ex_cspace s) (CNodeCap 2 3 5 0x8000)"
proof -
  show "valid_cspace (ex_cspace s)" by (auto simp: valid_cspace_def ex_cspace_def cnode_slots_def split: if_splits)
  have "ctes (ex_cspace s) (cte_at_index 0x8000 (of_nat i)) \<noteq> None" if "i < 4" for i :: nat
  proof -
    have "i = 0 \<or> i = 1 \<or> i = 2 \<or> i = 3" using that by arith
    then show ?thesis by (elim disjE) (simp_all add: ex_cspace_def cte_at_index_def push_bit_eq_mult)
  qed
  then show "cnode_slots (ex_cspace s) (CNodeCap 2 3 5 0x8000)"
    by (auto simp: cnode_slots_def MASKw_def MASK_def BIT_def push_bit_eq_mult)
qed

theorem resolve_walks_bits_witness:
  "\<forall>s. resolveAddressBits (ex_cspace s) (CNodeCap 2 3 5 0x8000) 0xA9 8 = Some (Inr (0x8020, 3)) \<and>
    resolves (ex_cspace s) (CNodeCap 2 3 5 0x8000) (bits_of 8 0xA9) (Inr (0x8020, 3))"
proof
  fix s
  have e: "resolveAddressBits (ex_cspace s) (CNodeCap 2 3 5 0x8000) 0xA9 8 = Some (Inr (0x8020, 3))"
    by (simp add: resolveAddressBits_def, subst resolve_loop.simps)
      (simp add: ex_cspace_def Let_def MASKw_def MASK_def BIT_def push_bit_eq_mult drop_bit_eq_div wordRadix_def wordBits_def cte_at_index_def)
  then show "resolveAddressBits (ex_cspace s) (CNodeCap 2 3 5 0x8000) 0xA9 8 = Some (Inr (0x8020, 3)) \<and>
      resolves (ex_cspace s) (CNodeCap 2 3 5 0x8000) (bits_of 8 0xA9) (Inr (0x8020, 3))"
    using resolve_walks_bits[OF ex_cspace_valid, of 8 s "0xA9"] by simp
qed

text \<open>
  The lookup of the slots of a CNode operation fails with the error the specification of the system call
  names: a root that is no CNode is an invalid root, a depth outside 1 to 64 a range error, and an
  address that faults or leaves bits over is a failed lookup of the source or the target; otherwise
  it returns the slot that resolving the address at this depth yields with no bit left.
\<close>

lemma cnode_op_lookup:
  assumes "valid_cspace s" "cnode_slots s root"
  shows "\<exists>r. lookupSlotForCNodeOp isSource s root capptr depth = Some r \<and>
    (case r of
       Inr slot \<Rightarrow> 1 \<le> depth \<and> depth \<le> 64 \<and> resolves s root (bits_of (unat depth) capptr) (Inr (slot, 0))
     | Inl e \<Rightarrow> if (\<nexists>r gs g p. root = CNodeCap r gs g p) then e = lookup_error isSource Lookup_invalid_root
        else if depth < 1 \<or> depth > 64 then se_type e = seL4_RangeError \<and> rangeErrorMin e = 1 \<and> rangeErrorMax e = 64
        else \<exists>res. resolves s root (bits_of (unat depth) capptr) res \<and>
          (case res of Inl f \<Rightarrow> e = lookup_error isSource f
             | Inr (slot, k) \<Rightarrow> k \<noteq> 0 \<and> e = lookup_error isSource (Lookup_depth_mismatch 0 k)))"
proof (cases "\<exists>r gs g p. root = CNodeCap r gs g p")
  case False
  then have "lookupSlotForCNodeOp isSource s root capptr depth = Some (Inl (lookup_error isSource Lookup_invalid_root))"
    by (auto simp: lookupSlotForCNodeOp_def split: cap.splits)
  then show ?thesis using False by auto
next
  case True
  then obtain r gs g p where root: "root = CNodeCap r gs g p" by blast
  show ?thesis
  proof (cases "depth < 1 \<or> depth > 64")
    case True
    then show ?thesis using root by (auto simp: lookupSlotForCNodeOp_def wordBits_def no_error_def)
  next
    case False
    then have d: "unat depth \<le> 64" "1 \<le> depth" "depth \<le> 64" by (auto simp: word_le_nat_alt not_less unat_gt_0 Suc_le_eq word_less_nat_alt)
    obtain res where res: "resolveAddressBits s root capptr depth = Some res" "resolves s root (bits_of (unat depth) capptr) res"
      using resolve_loop_resolves[OF assms(1), of r gs g p "unat depth" capptr] assms(2) d(1) root
      by (auto simp: resolveAddressBits_def)
    then show ?thesis using False root d(2,3)
      by (cases res) (auto simp: lookupSlotForCNodeOp_def wordBits_def split: prod.splits)
  qed
qed

end
