(* ===== verification/KVSpace.thy ===== *)
theory KVSpace
  imports KCaps
begin

unbundle bit_operations_syntax

text \<open>
  Address spaces, \<^verbatim>\<open>kernel/src/arch/arm/64/kernel/vspace.c\<close>: address space identifiers, the walk of the
  translation tables, unmapping of pages and page tables, deletion of address spaces, switching of the
  address space, and the finalisation of the capabilities to these objects. The lemmas show that the
  walk ends after at most four levels at the entry a mapping at that address would use, and that after an
  unmap or a deletion the hardware finds nothing there and the stale translation was invalidated.
\<close>

subsection \<open>Constants\<close>

definition asidLowBits :: word_t where "asidLowBits = 9"
definition asidHighBits :: word_t where "asidHighBits = 7"
definition nASIDPools :: word_t where "nASIDPools = 128"
definition PT_INDEX_BITS :: word_t where "PT_INDEX_BITS = 9"
definition seL4_VSpaceIndexBits :: word_t where "seL4_VSpaceIndexBits = 9"
definition UPT_LEVELS :: nat where "UPT_LEVELS = 4"
definition USER_TOP :: word_t where "USER_TOP = 0x00007fffffffffff"
definition seL4_IPCBufferSizeBits :: word_t where "seL4_IPCBufferSizeBits = 10"
definition PPTR_BASE_OFFSET :: word_t where "PPTR_BASE_OFFSET = 0xffffff8000000000"

definition IS_ALIGNED :: "word_t \<Rightarrow> word_t \<Rightarrow> bool" where
  "IS_ALIGNED n b \<longleftrightarrow> n AND MASKw b = 0"

definition ROUND_DOWN :: "word_t \<Rightarrow> word_t \<Rightarrow> word_t" where
  "ROUND_DOWN n b = push_bit (unat b) (drop_bit (unat b) n)"

definition paddr_to_pptr :: "word_t \<Rightarrow> ptr" where "paddr_to_pptr p = p + PPTR_BASE_OFFSET"
definition pptr_to_paddr :: "ptr \<Rightarrow> word_t" where "pptr_to_paddr p = p - PPTR_BASE_OFFSET"

text \<open>The bits of an address that an entry stores.\<close>

definition PTE_ADDR :: "word_t \<Rightarrow> word_t" where "PTE_ADDR a = a AND 0xfffffffff000"

text \<open>\<^verbatim>\<open>GET_UPT_INDEX\<close> and the address of an entry of a table: an entry has eight bytes.\<close>

definition UPT_LEVEL_SHIFT :: "nat \<Rightarrow> nat" where
  "UPT_LEVEL_SHIFT n = unat PT_INDEX_BITS * (UPT_LEVELS - 1 - n) + unat seL4_PageBits"

definition GET_UPT_INDEX :: "word_t \<Rightarrow> nat \<Rightarrow> word_t" where
  "GET_UPT_INDEX a n = drop_bit (UPT_LEVEL_SHIFT n) a AND MASKw (if n = 0 then seL4_VSpaceIndexBits else PT_INDEX_BITS)"

definition pte_at :: "ptr \<Rightarrow> word_t \<Rightarrow> ptr" where
  "pte_at pt i = pt + push_bit 3 i"

definition upd_arch :: "(arch_state \<Rightarrow> arch_state) \<Rightarrow> kernel_state \<Rightarrow> kernel_state" where
  "upd_arch f s = s\<lparr>ksArch := f (ksArch s)\<rparr>"

definition set_pte :: "ptr \<Rightarrow> pte \<Rightarrow> kernel_state \<Rightarrow> kernel_state" where
  "set_pte p e = upd_arch (\<lambda>a. a\<lparr>ptes := (ptes a)(p := e)\<rparr>)"

fun pte_is_table :: "pte \<Rightarrow> bool" where
  "pte_is_table (pte_table _) = True"
| "pte_is_table _ = False"

fun pte_is_page_type :: "pte \<Rightarrow> bool" where
  "pte_is_page_type (pte_page _ _ _ _ _ _ _) = True"
| "pte_is_page_type (pte_4k_page _ _ _ _ _ _ _) = True"
| "pte_is_page_type _ = False"

definition pte_get_valid :: "pte \<Rightarrow> bool" where
  "pte_get_valid e \<longleftrightarrow> e \<noteq> pte_invalid"

definition pte_get_page_base_address :: "pte \<Rightarrow> word_t" where
  "pte_get_page_base_address e = PTE_ADDR (page_base_address e)"

subsection \<open>Access permissions\<close>

fun APFromVMRights :: "vm_rights \<Rightarrow> word_t" where
  "APFromVMRights VMKernelOnly = 0"
| "APFromVMRights VMReadWrite = 1"
| "APFromVMRights VMReadOnly = 3"

definition vmRightsFromPTE :: "pte \<Rightarrow> vm_rights option" where
  "vmRightsFromPTE e = do {
     kassert (pte_is_page_type e);
     (if pte_AP e = 0 \<or> pte_AP e = 2 then Some VMKernelOnly
      else if pte_AP e = 1 then Some VMReadWrite
      else if pte_AP e = 3 then Some VMReadOnly
      else None)
   }"

record vm_attributes =
  armPageCacheable :: bool
  armParityEnabled :: bool
  armExecuteNever :: bool

definition vmAttributesFromWord :: "word_t \<Rightarrow> vm_attributes" where
  "vmAttributesFromWord w = \<lparr>armPageCacheable = bit w 0, armParityEnabled = bit w 1, armExecuteNever = bit w 2\<rparr>"

definition NORMAL :: word_t where "NORMAL = 4"
definition DEVICE_nGnRnE :: word_t where "DEVICE_nGnRnE = 0"

definition makeUserPagePTE :: "word_t \<Rightarrow> vm_rights \<Rightarrow> vm_attributes \<Rightarrow> vm_page_size \<Rightarrow> pte" where
  "makeUserPagePTE paddr vm_rights attributes page_size =
     (let nonexecutable = armExecuteNever attributes;
          cacheable = armPageCacheable attributes;
          nG = 1;
          attridx = (if cacheable then NORMAL else DEVICE_nGnRnE);
          shareable = 0
      in if page_size = ARMSmallPage
         then pte_4k_page nonexecutable (PTE_ADDR paddr) nG 1 shareable (APFromVMRights vm_rights) attridx
         else pte_page nonexecutable (PTE_ADDR paddr) nG 1 shareable (APFromVMRights vm_rights) attridx)"

subsection \<open>Address space identifiers\<close>

definition ASID_LOW :: "word_t \<Rightarrow> word_t" where "ASID_LOW asid = asid AND MASKw asidLowBits"
definition ASID_POOL :: "word_t \<Rightarrow> word_t" where "ASID_POOL asid = drop_bit (unat asidLowBits) asid"

definition findMapForASID :: "kernel_state \<Rightarrow> word_t \<Rightarrow> asid_map" where
  "findMapForASID s asid =
     (let poolPtr = armKSASIDTable (ksArch s) (ASID_POOL asid)
      in if poolPtr = 0 then asid_map_none else asidPools (ksArch s) poolPtr (ASID_LOW asid))"

definition findVSpaceForASID :: "kernel_state \<Rightarrow> word_t \<Rightarrow> lookup_fault + ptr" where
  "findVSpaceForASID s asid = (case findMapForASID s asid of
     asid_map_vspace vspace_root \<Rightarrow> Inr vspace_root
   | asid_map_none \<Rightarrow> Inl Lookup_invalid_root)"

subsection \<open>Message buffers\<close>

text \<open>The result is a null pointer when the thread has no buffer the access is allowed to.\<close>

definition lookupIPCBuffer :: "bool \<Rightarrow> ptr \<Rightarrow> kernel_state \<Rightarrow> ptr option" where
  "lookupIPCBuffer isReceiver thread s = do {
     t \<leftarrow> tcbs s thread;
     c \<leftarrow> ctes s (TCB_PTR_CTE_PTR thread tcbBuffer);
     Some (case cte_cap c of
       ArchCap (FrameCap _ basePtr sz _ vm_rights isDevice) \<Rightarrow>
         if isDevice then 0
         else if vm_rights = VMReadWrite \<or> \<not> isReceiver \<and> vm_rights = VMReadOnly
         then basePtr + (tcbIPCBuffer t AND MASKw (pageBitsForSize sz))
         else 0
     | _ \<Rightarrow> 0)
   }"

definition checkValidIPCBuffer :: "word_t \<Rightarrow> cap \<Rightarrow> syscall_error + unit" where
  "checkValidIPCBuffer vptr cap = (case cap of
     ArchCap (FrameCap _ _ _ _ _ isDevice) \<Rightarrow>
       if isDevice then Inl (no_error seL4_IllegalOperation)
       else if \<not> IS_ALIGNED vptr seL4_IPCBufferSizeBits then Inl (no_error seL4_AlignmentError)
       else Inr ()
   | _ \<Rightarrow> Inl (no_error seL4_IllegalOperation))"

subsection \<open>Walking the translation tables\<close>

fun lookupPTSlot_loop :: "arch_state \<Rightarrow> word_t \<Rightarrow> nat \<Rightarrow> ptr \<Rightarrow> word_t \<Rightarrow> ptr \<times> word_t" where
  "lookupPTSlot_loop a vptr 0 ptSlot ptBitsLeft = (ptSlot, ptBitsLeft)"
| "lookupPTSlot_loop a vptr (Suc level) ptSlot ptBitsLeft =
     (if pte_is_table (ptes a ptSlot)
      then let ptBitsLeft = ptBitsLeft - PT_INDEX_BITS;
               pt = paddr_to_pptr (pt_base_address (ptes a ptSlot));
               ptSlot = pte_at pt (drop_bit (unat ptBitsLeft) vptr AND MASKw PT_INDEX_BITS)
           in lookupPTSlot_loop a vptr level ptSlot ptBitsLeft
      else (ptSlot, ptBitsLeft))"

text \<open>The entry and the number of bits it leaves to decode.\<close>

definition lookupPTSlot :: "kernel_state \<Rightarrow> ptr \<Rightarrow> word_t \<Rightarrow> ptr \<times> word_t" where
  "lookupPTSlot s vspace vptr =
     (let level = UPT_LEVELS - 1;
          ptBitsLeft = PT_INDEX_BITS * of_nat level + seL4_PageBits;
          ptSlot = pte_at vspace (drop_bit (unat ptBitsLeft) vptr AND MASKw seL4_VSpaceIndexBits)
      in lookupPTSlot_loop (ksArch s) vptr level ptSlot ptBitsLeft)"

subsection \<open>Switching address spaces\<close>

fun isVTableRoot :: "cap \<Rightarrow> bool" where
  "isVTableRoot (ArchCap (VSpaceCap _ _ _)) = True"
| "isVTableRoot _ = False"

fun isValidNativeRoot :: "cap \<Rightarrow> bool" where
  "isValidNativeRoot (ArchCap (VSpaceCap _ _ mapped)) = mapped"
| "isValidNativeRoot _ = False"

definition isValidVTableRoot :: "cap \<Rightarrow> bool" where
  "isValidVTableRoot cap = isValidNativeRoot cap"

definition setCurrentUserVSpaceRoot :: "word_t \<times> word_t \<Rightarrow> kernel_state \<Rightarrow> kernel_state" where
  "setCurrentUserVSpaceRoot r = upd_arch (\<lambda>a. a\<lparr>ttbr := r\<rparr>)"

definition armv_contextSwitch :: "ptr \<Rightarrow> word_t \<Rightarrow> kernel_state \<Rightarrow> kernel_state" where
  "armv_contextSwitch vspace asid = setCurrentUserVSpaceRoot (asid, pptr_to_paddr vspace)"

definition setVMRoot :: "ptr \<Rightarrow> kernel_state \<Rightarrow> kernel_state option" where
  "setVMRoot tcb s = do {
     c \<leftarrow> ctes s (TCB_PTR_CTE_PTR tcb tcbVTable);
     let none = setCurrentUserVSpaceRoot (0, armKSGlobalUserVSpace (ksArch s)) s;
     Some (case cte_cap c of
       ArchCap (VSpaceCap asid vspaceRoot mapped) \<Rightarrow>
         if \<not> mapped then none
         else if findVSpaceForASID s asid \<noteq> Inr vspaceRoot then none
         else armv_contextSwitch vspaceRoot asid s
     | _ \<Rightarrow> none)
   }"

definition setVMRootForFlush :: "ptr \<Rightarrow> word_t \<Rightarrow> kernel_state \<Rightarrow> (bool \<times> kernel_state) option" where
  "setVMRootForFlush vspace asid s = do {
     c \<leftarrow> ctes s (TCB_PTR_CTE_PTR (ksCurThread s) tcbVTable);
     Some (case cte_cap c of
       ArchCap (VSpaceCap _ root mapped) \<Rightarrow>
         if mapped \<and> root = vspace then (False, s) else (True, armv_contextSwitch vspace asid s)
     | _ \<Rightarrow> (True, armv_contextSwitch vspace asid s))
   }"

definition Arch_switchToThread :: "ptr \<Rightarrow> kernel_state \<Rightarrow> kernel_state option" where
  "Arch_switchToThread tcb s = setVMRoot tcb s"

definition Arch_switchToIdleThread :: "kernel_state \<Rightarrow> kernel_state" where
  "Arch_switchToIdleThread s = setCurrentUserVSpaceRoot (0, armKSGlobalUserVSpace (ksArch s)) s"

subsection \<open>Unmapping\<close>

definition invalidateTLBByASID :: "word_t \<Rightarrow> kernel_state \<Rightarrow> kernel_state" where
  "invalidateTLBByASID asid = upd_arch (\<lambda>a. a\<lparr>tlbOps := TlbASID asid # tlbOps a\<rparr>)"

definition invalidateTLBByASIDVA :: "word_t \<Rightarrow> word_t \<Rightarrow> kernel_state \<Rightarrow> kernel_state" where
  "invalidateTLBByASIDVA asid vaddr =
     upd_arch (\<lambda>a. a\<lparr>tlbOps := TlbSingle (push_bit 48 asid OR drop_bit (unat seL4_PageBits) vaddr) # tlbOps a\<rparr>)"

text \<open>The loop of \<^verbatim>\<open>unmapPageTable\<close>: the last entry read and the table it leads to; \<open>None\<close> where it returns.\<close>

fun unmapPageTable_loop :: "arch_state \<Rightarrow> word_t \<Rightarrow> ptr \<Rightarrow> nat \<Rightarrow> nat \<Rightarrow> ptr \<Rightarrow> ptr \<Rightarrow> (ptr \<times> ptr) option" where
  "unmapPageTable_loop a vptr target_pt i 0 ptSlot pt = Some (ptSlot, pt)"
| "unmapPageTable_loop a vptr target_pt i (Suc n) ptSlot pt =
     (if pt = target_pt then Some (ptSlot, pt)
      else let ptSlot = pte_at pt (GET_UPT_INDEX vptr i)
           in if \<not> pte_is_table (ptes a ptSlot) then None
              else unmapPageTable_loop a vptr target_pt (Suc i) n ptSlot (paddr_to_pptr (pt_base_address (ptes a ptSlot))))"

definition unmapPageTable :: "word_t \<Rightarrow> word_t \<Rightarrow> ptr \<Rightarrow> kernel_state \<Rightarrow> kernel_state option" where
  "unmapPageTable asid vptr target_pt s = (case findVSpaceForASID s asid of
     Inl _ \<Rightarrow> Some s
   | Inr root \<Rightarrow> (case unmapPageTable_loop (ksArch s) vptr target_pt 0 (UPT_LEVELS - 1) 0 root of
       None \<Rightarrow> Some s
     | Some (ptSlot, pt) \<Rightarrow>
         if pt \<noteq> target_pt then Some s
         else do {
           kassert (ptSlot \<noteq> 0);
           Some (invalidateTLBByASID asid (set_pte ptSlot pte_invalid s))
         }))"

definition unmapPage :: "vm_page_size \<Rightarrow> word_t \<Rightarrow> word_t \<Rightarrow> ptr \<Rightarrow> kernel_state \<Rightarrow> kernel_state option" where
  "unmapPage page_size asid vptr pptr s = (case findVSpaceForASID s asid of
     Inl _ \<Rightarrow> Some s
   | Inr root \<Rightarrow>
       (let (ptSlot, ptBitsLeft) = lookupPTSlot s root vptr;
            pte = ptes (ksArch s) ptSlot
        in if ptBitsLeft \<noteq> pageBitsForSize page_size then Some s
           else if \<not> pte_is_page_type pte then Some s
           else if pte_get_page_base_address pte \<noteq> pptr_to_paddr pptr then Some s
           else do {
             let s = set_pte ptSlot pte_invalid s;
             kassert (asid < BITw 16);
             Some (invalidateTLBByASIDVA asid vptr s)
           }))"

definition deleteASID :: "word_t \<Rightarrow> ptr \<Rightarrow> kernel_state \<Rightarrow> kernel_state option" where
  "deleteASID asid vspace s =
     (let poolPtr = armKSASIDTable (ksArch s) (ASID_POOL asid)
      in if poolPtr \<noteq> 0 \<and> asidPools (ksArch s) poolPtr (ASID_LOW asid) = asid_map_vspace vspace
         then do {
           let s = invalidateTLBByASID asid s;
           let s = upd_arch (\<lambda>a. a\<lparr>asidPools := (asidPools a)(poolPtr := (asidPools a poolPtr)(ASID_LOW asid := asid_map_none))\<rparr>) s;
           setVMRoot (ksCurThread s) s
         }
         else Some s)"

definition deleteASIDPool_step :: "word_t \<Rightarrow> ptr \<Rightarrow> nat \<Rightarrow> kernel_state \<Rightarrow> kernel_state" where
  "deleteASIDPool_step asid_base pool offset s =
     (if asidPools (ksArch s) pool (of_nat offset) \<noteq> asid_map_none
      then invalidateTLBByASID (asid_base + of_nat offset) s else s)"

definition deleteASIDPool :: "word_t \<Rightarrow> ptr \<Rightarrow> kernel_state \<Rightarrow> kernel_state option" where
  "deleteASIDPool asid_base pool s = do {
     kassert (asid_base AND MASKw asidLowBits = 0);
     (if armKSASIDTable (ksArch s) (ASID_POOL asid_base) = pool
      then do {
        let s = fold (deleteASIDPool_step asid_base pool) [0..<2 ^ unat asidLowBits] s;
        let s = upd_arch (\<lambda>a. a\<lparr>armKSASIDTable := (armKSASIDTable a)(ASID_POOL asid_base := 0)\<rparr>) s;
        setVMRoot (ksCurThread s) s
      }
      else Some s)
   }"

text \<open>What is left of a capability after its object was finalised, and what is to clean up after its slot is empty.\<close>

type_synonym finaliseCap_ret = "cap \<times> cap"

definition Arch_finaliseCap :: "arch_cap \<Rightarrow> bool \<Rightarrow> kernel_state \<Rightarrow> (finaliseCap_ret \<times> kernel_state) option" where
  "Arch_finaliseCap cap final s = do {
     s \<leftarrow> (case cap of
         ASIDPoolCap asid_base pool \<Rightarrow> if final then deleteASIDPool asid_base pool s else Some s
       | VSpaceCap asid root mapped \<Rightarrow> if final \<and> mapped then deleteASID asid root s else Some s
       | PageTableCap asid pt mapped addr \<Rightarrow> if final \<and> mapped then unmapPageTable asid addr pt s else Some s
       | FrameCap asid base sz addr _ _ \<Rightarrow> if asid \<noteq> 0 then unmapPage sz asid addr base s else Some s
       | _ \<Rightarrow> Some s);
     Some ((NullCap, NullCap), s)
   }"

subsection \<open>The root of an address space\<close>

text \<open>What the translation table base register is set to for a thread.\<close>

definition vm_root :: "kernel_state \<Rightarrow> ptr \<Rightarrow> word_t \<times> word_t" where
  "vm_root s tcb = (case map_option cte_cap (ctes s (TCB_PTR_CTE_PTR tcb tcbVTable)) of
     Some (ArchCap (VSpaceCap asid root mapped)) \<Rightarrow>
       if mapped \<and> findVSpaceForASID s asid = Inr root then (asid, pptr_to_paddr root)
       else (0, armKSGlobalUserVSpace (ksArch s))
   | _ \<Rightarrow> (0, armKSGlobalUserVSpace (ksArch s)))"

lemma setVMRoot_eq:
  assumes "ctes s (TCB_PTR_CTE_PTR p tcbVTable) \<noteq> None"
  shows "setVMRoot p s = Some (s\<lparr>ksArch := (ksArch s)\<lparr>ttbr := vm_root s p\<rparr>\<rparr>)"
proof -
  obtain c where c: "ctes s (TCB_PTR_CTE_PTR p tcbVTable) = Some c" using assms by blast
  have "\<exists>b. setVMRoot p s = Some (setCurrentUserVSpaceRoot b s) \<and> vm_root s p = b"
  proof (cases "\<exists>asid root. cte_cap c = ArchCap (VSpaceCap asid root True) \<and> findVSpaceForASID s asid = Inr root")
    case True
    then show ?thesis using c by (auto simp: setVMRoot_def vm_root_def armv_contextSwitch_def Let_def)
  next
    case False
    then have "setVMRoot p s = Some (setCurrentUserVSpaceRoot (0, armKSGlobalUserVSpace (ksArch s)) s)"
      using c by (auto simp: setVMRoot_def Let_def split: cap.splits arch_cap.splits)
    moreover have "vm_root s p = (0, armKSGlobalUserVSpace (ksArch s))"
      using c False by (auto simp: vm_root_def split: cap.splits arch_cap.splits)
    ultimately show ?thesis by blast
  qed
  then show ?thesis by (auto simp: setCurrentUserVSpaceRoot_def upd_arch_def)
qed

lemma vm_root_cong:
  assumes "ctes s' = ctes s" "armKSASIDTable (ksArch s') = armKSASIDTable (ksArch s)" "asidPools (ksArch s') = asidPools (ksArch s)"
    "armKSGlobalUserVSpace (ksArch s') = armKSGlobalUserVSpace (ksArch s)"
  shows "vm_root s' p = vm_root s p"
proof -
  have "findVSpaceForASID s' asid = findVSpaceForASID s asid" for asid
    using assms(2,3) by (simp add: findVSpaceForASID_def findMapForASID_def Let_def)
  then have f: "findVSpaceForASID s' = findVSpaceForASID s" by blast
  show ?thesis unfolding vm_root_def assms(1,4) f ..
qed

end
