(* ===== verification/DLinks.thy ===== *)
theory DLinks
  imports Prelude
begin

text \<open>
  Doubly linked lists in a map of objects, as the kernel uses them for its scheduler queues and its
  endpoint queues. \<open>dlink nx pv m b xs a\<close> says that the objects \<open>xs\<close> are linked in order through the
  fields read by \<open>nx\<close> and \<open>pv\<close>, the first one pointing back to \<open>b\<close> and the last one forward to \<open>a\<close>.
  The locale states what its clients need of the two link fields; the kernel's two pairs of link
  fields interpret it.
\<close>

fun dlink :: "('n \<Rightarrow> u64) \<Rightarrow> ('n \<Rightarrow> u64) \<Rightarrow> (u64 \<Rightarrow> 'n option) \<Rightarrow> u64 \<Rightarrow> u64 list \<Rightarrow> u64 \<Rightarrow> bool" where
  "dlink nx pv m b [] a = True"
| "dlink nx pv m b (x # xs) a =
     (case m x of None \<Rightarrow> False | Some n \<Rightarrow> pv n = b \<and> nx n = hd (xs @ [a]) \<and> dlink nx pv m x xs a)"

text \<open>A queue: head and end pointers, null when it is empty, and a null-terminated list.\<close>

definition is_queue :: "('n \<Rightarrow> u64) \<Rightarrow> ('n \<Rightarrow> u64) \<Rightarrow> (u64 \<Rightarrow> 'n option) \<Rightarrow> u64 \<Rightarrow> u64 \<Rightarrow> u64 list \<Rightarrow> bool" where
  "is_queue nx pv m h e xs \<longleftrightarrow>
     h = hd (xs @ [0]) \<and> e = last (0 # xs) \<and> dlink nx pv m 0 xs 0 \<and> distinct xs \<and> 0 \<notin> set xs"

subsection \<open>Segments\<close>

lemma dlink_append:
  "dlink nx pv m b (xs @ ys) a \<longleftrightarrow> dlink nx pv m b xs (hd (ys @ [a])) \<and> dlink nx pv m (last (b # xs)) ys a"
proof (induction xs arbitrary: b)
  case (Cons x xs)
  then show ?case by (cases xs) (auto split: option.splits)
qed simp

lemma dlink_frame: "p \<notin> set xs \<Longrightarrow> dlink nx pv (m(p := v)) b xs a = dlink nx pv m b xs a"
  by (induction xs arbitrary: b) (auto split: option.splits)

lemma dlink_cong:
  "(\<And>p. p \<in> set xs \<Longrightarrow> map_option (\<lambda>n. (nx n, pv n)) (m p) = map_option (\<lambda>n. (nx n, pv n)) (m' p)) \<Longrightarrow>
   dlink nx pv m b xs a = dlink nx pv m' b xs a"
proof (induction xs arbitrary: b)
  case (Cons x xs)
  have "map_option (\<lambda>n. (nx n, pv n)) (m x) = map_option (\<lambda>n. (nx n, pv n)) (m' x)" using Cons.prems by simp
  moreover have "dlink nx pv m x xs a = dlink nx pv m' x xs a" using Cons by simp
  ultimately show ?case by (cases "m x"; cases "m' x") auto
qed simp

lemma dlink_mem: "dlink nx pv m b xs a \<Longrightarrow> p \<in> set xs \<Longrightarrow> \<exists>n. m p = Some n"
  by (induction xs arbitrary: b) (auto split: option.splits)

lemma is_queue_empty: "is_queue nx pv m h e xs \<Longrightarrow> h = 0 \<longleftrightarrow> xs = []"
  by (cases xs) (auto simp: is_queue_def)

lemma is_queue_head: "is_queue nx pv m h e (x # xs) \<Longrightarrow> h = x"
  by (simp add: is_queue_def)

lemma is_queue_Nil [simp]: "is_queue nx pv m 0 0 []"
  by (simp add: is_queue_def)

lemma is_queue_mem: "is_queue nx pv m h e xs \<Longrightarrow> p \<in> set xs \<Longrightarrow> \<exists>n. m p = Some n"
  by (auto simp: is_queue_def dest: dlink_mem)

lemma is_queue_cong:
  assumes "\<And>p. p \<in> set xs \<Longrightarrow> map_option (\<lambda>n. (nx n, pv n)) (m p) = map_option (\<lambda>n. (nx n, pv n)) (m' p)"
  shows "is_queue nx pv m h e xs = is_queue nx pv m' h e xs"
proof -
  have "dlink nx pv m 0 xs 0 = dlink nx pv m' 0 xs 0" by (rule dlink_cong) (rule assms)
  then show ?thesis by (simp add: is_queue_def)
qed

lemma is_queue_frame: "p \<notin> set xs \<Longrightarrow> is_queue nx pv (m(p := v)) h e xs = is_queue nx pv m h e xs"
  by (simp add: is_queue_def dlink_frame)

lemma dlink_rename:
  assumes "\<And>p. p \<in> set xs \<Longrightarrow> \<exists>n n'. m p = Some n \<and> m' (f p) = Some n' \<and> nx n' = f (nx n) \<and> pv n' = f (pv n)"
  shows "dlink nx pv m b xs a \<Longrightarrow> dlink nx pv m' (f b) (map f xs) (f a)"
  using assms
proof (induction xs arbitrary: b)
  case (Cons x xs)
  obtain n n' where n: "m x = Some n" "m' (f x) = Some n'" "nx n' = f (nx n)" "pv n' = f (pv n)" using Cons.prems(2)[of x] by auto
  have "hd (map f xs @ [f a]) = f (hd (xs @ [a]))" by (cases xs) auto
  then show ?case using Cons n by simp
qed simp

text \<open>Inserting a node after another one, and removing a node, as changes of the nodes around it.\<close>

lemma dlink_insert_after:
  assumes d: "dlink nx pv m b (ys @ x # zs) a" and dist: "distinct (ys @ x # zs)" "y \<notin> set (ys @ x # zs)"
    and same: "\<And>p. p \<in> set ys \<union> set (tl zs) \<Longrightarrow> map_option (\<lambda>n. (nx n, pv n)) (m' p) = map_option (\<lambda>n. (nx n, pv n)) (m p)"
    and x: "m x = Some n" "m' x = Some n'" "nx n' = y" "pv n' = pv n"
    and y: "m' y = Some k" "nx k = hd (zs @ [a])" "pv k = x"
    and z: "\<And>z zs'. zs = z # zs' \<Longrightarrow> \<exists>k k'. m z = Some k \<and> m' z = Some k' \<and> nx k' = nx k \<and> pv k' = y"
  shows "dlink nx pv m' b (ys @ x # y # zs) a"
proof -
  have "dlink nx pv m b ys x" "dlink nx pv m x zs a" and px: "pv n = last (b # ys)" using d x(1) by (auto simp: dlink_append)
  then have "dlink nx pv m' b ys x" using same by (subst dlink_cong[of ys nx pv m' m]) auto
  moreover have "dlink nx pv m' y zs a"
  proof (cases zs)
    case (Cons z zs')
    obtain k k' where k: "m z = Some k" "m' z = Some k'" "nx k' = nx k" "pv k' = y" using z[OF Cons] by blast
    have "dlink nx pv m z zs' a" "nx k = hd (zs' @ [a])" using \<open>dlink nx pv m x zs a\<close> Cons k(1) by auto
    moreover have "dlink nx pv m' z zs' a = dlink nx pv m z zs' a" using same Cons by (intro dlink_cong) auto
    ultimately show ?thesis using Cons k by simp
  qed simp
  ultimately show ?thesis using x y px by (simp add: dlink_append)
qed

lemma dlink_remove:
  assumes d: "dlink nx pv m b (ys @ x # zs) a" and dist: "distinct (ys @ x # zs)"
    and same: "\<And>p. p \<in> set (butlast ys) \<union> set (tl zs) \<Longrightarrow> map_option (\<lambda>n. (nx n, pv n)) (m' p) = map_option (\<lambda>n. (nx n, pv n)) (m p)"
    and l: "\<And>l ls. ys = ls @ [l] \<Longrightarrow> \<exists>k k'. m l = Some k \<and> m' l = Some k' \<and> nx k' = hd (zs @ [a]) \<and> pv k' = pv k"
    and z: "\<And>z zs'. zs = z # zs' \<Longrightarrow> \<exists>k k'. m z = Some k \<and> m' z = Some k' \<and> nx k' = nx k \<and> pv k' = last (b # ys)"
  shows "dlink nx pv m' b (ys @ zs) a"
proof -
  have dy: "dlink nx pv m b ys x" and dz: "dlink nx pv m x zs a" using d by (auto simp: dlink_append split: option.splits)
  have "dlink nx pv m' b ys (hd (zs @ [a]))"
  proof (cases ys rule: rev_cases)
    case (snoc ls l)
    obtain k k' where k: "m l = Some k" "m' l = Some k'" "nx k' = hd (zs @ [a])" "pv k' = pv k" using l[OF snoc] by blast
    have "dlink nx pv m b ls l" "pv k = last (b # ls)" using dy snoc k(1) by (auto simp: dlink_append)
    moreover have "dlink nx pv m' b ls l = dlink nx pv m b ls l" using same snoc by (intro dlink_cong) auto
    ultimately show ?thesis using snoc k by (simp add: dlink_append)
  qed simp
  moreover have "dlink nx pv m' (last (b # ys)) zs a"
  proof (cases zs)
    case (Cons z zs')
    obtain k k' where k: "m z = Some k" "m' z = Some k'" "nx k' = nx k" "pv k' = last (b # ys)" using z[OF Cons] by blast
    have "dlink nx pv m z zs' a" "nx k = hd (zs' @ [a])" using dz Cons k(1) by auto
    moreover have "dlink nx pv m' z zs' a = dlink nx pv m z zs' a" using same Cons by (intro dlink_cong) auto
    ultimately show ?thesis using Cons k by simp
  qed simp
  ultimately show ?thesis by (simp add: dlink_append)
qed

subsection \<open>Updating links\<close>

locale links =
  fixes nx :: "'n \<Rightarrow> u64" and pv :: "'n \<Rightarrow> u64"
    and set_nx :: "u64 \<Rightarrow> 'n \<Rightarrow> 'n" and set_pv :: "u64 \<Rightarrow> 'n \<Rightarrow> 'n"
  assumes nx_nx: "nx (set_nx p n) = p" and nx_pv: "nx (set_pv p n) = nx n"
    and pv_pv: "pv (set_pv p n) = p" and pv_nx: "pv (set_nx p n) = pv n"
begin

lemmas link_simps = nx_nx nx_pv pv_pv pv_nx

lemma first_prev:
  "dlink nx pv m b (x # xs) a \<Longrightarrow> x \<notin> set xs \<Longrightarrow> m x = Some n \<Longrightarrow>
   dlink nx pv (m(x := Some (set_pv b' n))) b' (x # xs) a"
  by (simp add: dlink_frame link_simps)

lemma last_next:
  "dlink nx pv m b (xs @ [x]) a \<Longrightarrow> x \<notin> set xs \<Longrightarrow> m x = Some n \<Longrightarrow>
   dlink nx pv (m(x := Some (set_nx a' n))) b (xs @ [x]) a'"
  by (simp add: dlink_append dlink_frame link_simps)

text \<open>A list has an object before and after each of its elements.\<close>

lemma neighbours:
  assumes "dlink nx pv m 0 (ys @ x # zs) 0" "m x = Some n"
  shows "pv n = last (0 # ys)" "nx n = hd (zs @ [0])"
  using assms by (simp_all add: dlink_append)

lemma queue_prepend:
  assumes "is_queue nx pv m h e xs" "xs \<noteq> []" "x \<notin> set xs" "x \<noteq> 0" "m x = Some n" "pv n = 0" "m h = Some k"
  shows "is_queue nx pv (m(x := Some (set_nx h n), h := Some (set_pv x k))) x e (x # xs)"
proof -
  obtain y ys where xs: "xs = y # ys" using assms(2) by (cases xs) auto
  then have h: "h = y" "x \<noteq> y" "y \<notin> set ys" using assms by (auto simp: is_queue_def)
  have "dlink nx pv (m(x := Some (set_nx y n))) 0 (y # ys) 0"
    using assms(1,3) by (simp add: is_queue_def xs dlink_frame del: dlink.simps)
  then have "dlink nx pv (m(x := Some (set_nx y n), y := Some (set_pv x k))) x (y # ys) 0"
    using h assms(7) by (intro first_prev) auto
  then show ?thesis using assms h by (simp add: is_queue_def xs link_simps)
qed

lemma queue_append:
  assumes "is_queue nx pv m h e xs" "xs \<noteq> []" "x \<notin> set xs" "x \<noteq> 0" "m x = Some n" "nx n = 0" "m e = Some k"
  shows "is_queue nx pv (m(x := Some (set_pv e n), e := Some (set_nx x k))) h x (xs @ [x])"
proof -
  obtain ys y where xs: "xs = ys @ [y]" using assms(2) by (cases xs rule: rev_cases) auto
  then have h: "e = y" "x \<noteq> y" "y \<notin> set ys" "x \<notin> set ys" using assms by (auto simp: is_queue_def)
  have "dlink nx pv (m(x := Some (set_pv y n))) 0 (ys @ [y]) 0"
    using assms(1,3) by (simp add: is_queue_def xs dlink_frame)
  then have "dlink nx pv (m(x := Some (set_pv y n), y := Some (set_nx x k))) 0 (ys @ [y]) x"
    using h assms(7) by (intro last_next) auto
  then have "dlink nx pv (m(x := Some (set_pv y n), y := Some (set_nx x k))) 0 ((ys @ [y]) @ [x]) 0"
    unfolding dlink_append[of _ _ _ _ "ys @ [y]"] using h assms(6) by (simp add: link_simps)
  moreover have "h = hd (ys @ [y, x, 0])" using assms(1) xs by (cases ys) (auto simp: is_queue_def)
  ultimately show ?thesis using assms h xs by (simp add: is_queue_def)
qed

lemma queue_single: "m x = Some n \<Longrightarrow> pv n = 0 \<Longrightarrow> nx n = 0 \<Longrightarrow> x \<noteq> 0 \<Longrightarrow> is_queue nx pv m x x [x]"
  by (simp add: is_queue_def)

lemma queue_remove_head:
  assumes "is_queue nx pv m h e (x # y # ys)" "m y = Some k"
  shows "is_queue nx pv (m(y := Some (set_pv 0 k))) y e (y # ys)"
proof -
  have "dlink nx pv m x (y # ys) 0" "y \<notin> set ys" using assms(1) by (auto simp: is_queue_def split: option.splits)
  then have "dlink nx pv (m(y := Some (set_pv 0 k))) 0 (y # ys) 0" using assms(2) by (intro first_prev) auto
  then show ?thesis using assms(1) by (simp add: is_queue_def del: dlink.simps)
qed

lemma queue_remove_last:
  assumes "is_queue nx pv m h e (ys @ [y, x])" "m y = Some k"
  shows "is_queue nx pv (m(y := Some (set_nx 0 k))) h y (ys @ [y])"
proof -
  have "dlink nx pv m 0 (ys @ [y]) x" using assms(1) dlink_append[of nx pv m 0 "ys @ [y]" "[x]" 0] by (simp add: is_queue_def)
  then have "dlink nx pv (m(y := Some (set_nx 0 k))) 0 (ys @ [y]) 0"
    using assms by (intro last_next) (auto simp: is_queue_def)
  moreover have "h = hd (ys @ [y, 0])" using assms(1) by (cases ys) (auto simp: is_queue_def)
  ultimately show ?thesis using assms(1) by (simp add: is_queue_def)
qed

lemma queue_remove_middle:
  assumes "is_queue nx pv m h e (ys @ [b] @ x # a # zs)" "m b = Some kb" "m a = Some ka"
  shows "is_queue nx pv (m(b := Some (set_nx a kb), a := Some (set_pv b ka))) h e (ys @ [b] @ a # zs)"
proof -
  have d: "distinct (ys @ [b] @ x # a # zs)" using assms(1) by (simp add: is_queue_def)
  have l: "dlink nx pv m 0 (ys @ [b]) x" "dlink nx pv m x (a # zs) 0"
    using assms(1) dlink_append[of nx pv m 0 "ys @ [b]" "x # a # zs" 0] by (auto simp: is_queue_def split: option.splits)
  have "dlink nx pv (m(b := Some (set_nx a kb))) 0 (ys @ [b]) a"
    using l(1) d assms(2) by (intro last_next) auto
  then have 1: "dlink nx pv (m(b := Some (set_nx a kb), a := Some (set_pv b ka))) 0 (ys @ [b]) a"
    using d by (subst dlink_frame) auto
  have "dlink nx pv (m(b := Some (set_nx a kb))) x (a # zs) 0" using l(2) d by (simp add: dlink_frame del: dlink.simps)
  then have 2: "dlink nx pv (m(b := Some (set_nx a kb), a := Some (set_pv b ka))) b (a # zs) 0"
    using d assms(3) by (intro first_prev) auto
  have "dlink nx pv (m(b := Some (set_nx a kb), a := Some (set_pv b ka))) 0 ((ys @ [b]) @ a # zs) 0"
    using 1 2 dlink_append[of nx pv _ 0 "ys @ [b]" "a # zs" 0] by (simp del: dlink.simps)
  moreover have "h = hd (ys @ [b, 0])" using assms(1) by (cases ys) (auto simp: is_queue_def)
  ultimately show ?thesis using assms(1) d by (cases ys) (auto simp: is_queue_def simp del: dlink.simps)
qed

end

end
