(* ===== verification/KMdb.thy ===== *)
theory KMdb
  imports KCSpace DLinks
begin

unbundle bit_operations_syntax

text \<open>
  The capability derivation tree, \<^verbatim>\<open>kernel/src/object/cnode.c\<close>: the slots with a capability are linked in
  doubly linked lists, in depth-first order of derivation. The lemmas show what each operation does
  to these lists: inserting, moving, swapping and removing capabilities.
\<close>

subsection \<open>State of interrupt lines\<close>

definition maskInterrupt :: "bool \<Rightarrow> irq_t \<Rightarrow> kernel_state \<Rightarrow> kernel_state" where
  "maskInterrupt disable irq s = s\<lparr>irqMasked := (irqMasked s)(irq := disable)\<rparr>"

definition setIRQState :: "irq_state \<Rightarrow> irq_t \<Rightarrow> kernel_state \<Rightarrow> kernel_state" where
  "setIRQState irqState irq s =
     maskInterrupt (irqState = IRQInactive) irq (s\<lparr>intStateIRQTable := (intStateIRQTable s)(irq := irqState)\<rparr>)"

definition isIRQActive :: "kernel_state \<Rightarrow> irq_t \<Rightarrow> bool" where
  "isIRQActive s irq \<longleftrightarrow> intStateIRQTable s irq \<noteq> IRQInactive"

definition deletedIRQHandler :: "irq_t \<Rightarrow> kernel_state \<Rightarrow> kernel_state" where
  "deletedIRQHandler irq s = setIRQState IRQInactive irq s"

definition postCapDeletion :: "cap \<Rightarrow> kernel_state \<Rightarrow> kernel_state" where
  "postCapDeletion cap s = (case cap of IRQHandlerCap irq \<Rightarrow> deletedIRQHandler irq s | _ \<Rightarrow> s)"

subsection \<open>Slots and nodes\<close>

definition upd_mdb :: "ptr \<Rightarrow> (mdb_node \<Rightarrow> mdb_node) \<Rightarrow> kernel_state \<Rightarrow> kernel_state option" where
  "upd_mdb p f s = upd_cte p (\<lambda>c. c\<lparr>cteMDBNode := f (cteMDBNode c)\<rparr>) s"

definition set_cap :: "ptr \<Rightarrow> cap \<Rightarrow> kernel_state \<Rightarrow> kernel_state option" where
  "set_cap p cap s = upd_cte p (\<lambda>c. c\<lparr>cte_cap := cap\<rparr>) s"

definition set_node :: "ptr \<Rightarrow> mdb_node \<Rightarrow> kernel_state \<Rightarrow> kernel_state option" where
  "set_node p node s = upd_cte p (\<lambda>c. c\<lparr>cteMDBNode := node\<rparr>) s"

text \<open>An update through a pointer that may be null: \<^verbatim>\<open>if (ptr) ...\<close>.\<close>

definition upd_mdb_nz :: "ptr \<Rightarrow> (mdb_node \<Rightarrow> mdb_node) \<Rightarrow> kernel_state \<Rightarrow> kernel_state option" where
  "upd_mdb_nz p f s = (if p \<noteq> 0 then upd_mdb p f s else Some s)"

subsection \<open>Operations\<close>

definition MAX_FREE_INDEX :: "word_t \<Rightarrow> word_t" where
  "MAX_FREE_INDEX sizeBits = BITw (sizeBits - seL4_MinUntypedBits)"

definition setUntypedCapAsFull :: "cap \<Rightarrow> cap \<Rightarrow> ptr \<Rightarrow> kernel_state \<Rightarrow> kernel_state option" where
  "setUntypedCapAsFull srcCap newCap srcSlot s = (case srcCap of
     UntypedCap dev bits fi p \<Rightarrow> (case newCap of
        UntypedCap _ bits' _ p' \<Rightarrow>
          if p = p' \<and> bits' = bits
          then upd_cte srcSlot (\<lambda>c. case cte_cap c of UntypedCap d b _ q \<Rightarrow> c\<lparr>cte_cap := UntypedCap d b (MAX_FREE_INDEX bits) q\<rparr> | _ \<Rightarrow> c) s
          else Some s
      | _ \<Rightarrow> Some s)
   | _ \<Rightarrow> Some s)"

definition cteInsert :: "cap \<Rightarrow> ptr \<Rightarrow> ptr \<Rightarrow> kernel_state \<Rightarrow> kernel_state option" where
  "cteInsert newCap srcSlot destSlot s = do {
     src \<leftarrow> ctes s srcSlot;
     let srcMDB = cteMDBNode src;
     let srcCap = cte_cap src;
     newCapIsRevocable \<leftarrow> isCapRevocable newCap srcCap;
     let newMDB = srcMDB\<lparr>mdbPrev := srcSlot\<rparr>;
     let newMDB = newMDB\<lparr>mdbRevocable := newCapIsRevocable\<rparr>;
     let newMDB = newMDB\<lparr>mdbFirstBadged := newCapIsRevocable\<rparr>;
     dest \<leftarrow> ctes s destSlot;
     kassert (cte_cap dest = NullCap);
     kassert (mdbNext (cteMDBNode dest) = 0 \<and> mdbPrev (cteMDBNode dest) = 0);
     s \<leftarrow> setUntypedCapAsFull srcCap newCap srcSlot s;
     s \<leftarrow> set_cap destSlot newCap s;
     s \<leftarrow> set_node destSlot newMDB s;
     s \<leftarrow> upd_mdb srcSlot (\<lambda>n. n\<lparr>mdbNext := destSlot\<rparr>) s;
     upd_mdb_nz (mdbNext newMDB) (\<lambda>n. n\<lparr>mdbPrev := destSlot\<rparr>) s
   }"

definition cteMove :: "cap \<Rightarrow> ptr \<Rightarrow> ptr \<Rightarrow> kernel_state \<Rightarrow> kernel_state option" where
  "cteMove newCap srcSlot destSlot s = do {
     dest \<leftarrow> ctes s destSlot;
     kassert (cte_cap dest = NullCap);
     kassert (mdbNext (cteMDBNode dest) = 0 \<and> mdbPrev (cteMDBNode dest) = 0);
     src \<leftarrow> ctes s srcSlot;
     let mdb = cteMDBNode src;
     s \<leftarrow> set_cap destSlot newCap s;
     s \<leftarrow> set_cap srcSlot NullCap s;
     s \<leftarrow> set_node destSlot mdb s;
     s \<leftarrow> set_node srcSlot nullMDBNode s;
     s \<leftarrow> upd_mdb_nz (mdbPrev mdb) (\<lambda>n. n\<lparr>mdbNext := destSlot\<rparr>) s;
     upd_mdb_nz (mdbNext mdb) (\<lambda>n. n\<lparr>mdbPrev := destSlot\<rparr>) s
   }"

definition cteSwap :: "cap \<Rightarrow> ptr \<Rightarrow> cap \<Rightarrow> ptr \<Rightarrow> kernel_state \<Rightarrow> kernel_state option" where
  "cteSwap cap1 slot1 cap2 slot2 s = do {
     s \<leftarrow> set_cap slot1 cap2 s;
     s \<leftarrow> set_cap slot2 cap1 s;
     c1 \<leftarrow> ctes s slot1;
     let mdb1 = cteMDBNode c1;
     s \<leftarrow> upd_mdb_nz (mdbPrev mdb1) (\<lambda>n. n\<lparr>mdbNext := slot2\<rparr>) s;
     s \<leftarrow> upd_mdb_nz (mdbNext mdb1) (\<lambda>n. n\<lparr>mdbPrev := slot2\<rparr>) s;
     c2 \<leftarrow> ctes s slot2;
     let mdb2 = cteMDBNode c2;
     s \<leftarrow> set_node slot1 mdb2 s;
     s \<leftarrow> set_node slot2 mdb1 s;
     s \<leftarrow> upd_mdb_nz (mdbPrev mdb2) (\<lambda>n. n\<lparr>mdbNext := slot1\<rparr>) s;
     upd_mdb_nz (mdbNext mdb2) (\<lambda>n. n\<lparr>mdbPrev := slot1\<rparr>) s
   }"

definition capSwapForDelete :: "ptr \<Rightarrow> ptr \<Rightarrow> kernel_state \<Rightarrow> kernel_state option" where
  "capSwapForDelete slot1 slot2 s =
     (if slot1 = slot2 then Some s
      else do {
        c1 \<leftarrow> ctes s slot1;
        c2 \<leftarrow> ctes s slot2;
        cteSwap (cte_cap c1) slot1 (cte_cap c2) slot2 s
      })"

definition emptySlot :: "ptr \<Rightarrow> cap \<Rightarrow> kernel_state \<Rightarrow> kernel_state option" where
  "emptySlot slot cleanupInfo s = do {
     c \<leftarrow> ctes s slot;
     if cte_cap c \<noteq> NullCap then do {
       let mdbNode = cteMDBNode c;
       let prv = mdbPrev mdbNode;
       let nxt = mdbNext mdbNode;
       s \<leftarrow> upd_mdb_nz prv (\<lambda>n. n\<lparr>mdbNext := nxt\<rparr>) s;
       s \<leftarrow> upd_mdb_nz nxt (\<lambda>n. n\<lparr>mdbPrev := prv\<rparr>) s;
       s \<leftarrow> upd_mdb_nz nxt (\<lambda>n. n\<lparr>mdbFirstBadged := mdbFirstBadged n \<or> mdbFirstBadged mdbNode\<rparr>) s;
       s \<leftarrow> set_cap slot NullCap s;
       s \<leftarrow> set_node slot nullMDBNode s;
       Some (postCapDeletion cleanupInfo s)
     }
     else Some s
   }"

definition insertNewCap :: "ptr \<Rightarrow> ptr \<Rightarrow> cap \<Rightarrow> kernel_state \<Rightarrow> kernel_state option" where
  "insertNewCap parent slot cap s = do {
     p \<leftarrow> ctes s parent;
     let nxt = mdbNext (cteMDBNode p);
     s \<leftarrow> set_cap slot cap s;
     s \<leftarrow> set_node slot \<lparr>mdbNext = nxt, mdbRevocable = True, mdbFirstBadged = True, mdbPrev = parent\<rparr> s;
     s \<leftarrow> upd_mdb_nz nxt (\<lambda>n. n\<lparr>mdbPrev := slot\<rparr>) s;
     upd_mdb parent (\<lambda>n. n\<lparr>mdbNext := slot\<rparr>) s
   }"

definition setupReplyMaster :: "ptr \<Rightarrow> kernel_state \<Rightarrow> kernel_state option" where
  "setupReplyMaster thread s = do {
     let slot = TCB_PTR_CTE_PTR thread tcbReply;
     c \<leftarrow> ctes s slot;
     if cte_cap c = NullCap then do {
       s \<leftarrow> set_cap slot (ReplyCap True True thread) s;
       s \<leftarrow> set_node slot nullMDBNode s;
       s \<leftarrow> upd_mdb slot (\<lambda>n. n\<lparr>mdbRevocable := True\<rparr>) s;
       upd_mdb slot (\<lambda>n. n\<lparr>mdbFirstBadged := True\<rparr>) s
     }
     else Some s
   }"

subsection \<open>Queries\<close>

definition isMDBParentOf :: "cte \<Rightarrow> cte \<Rightarrow> bool" where
  "isMDBParentOf cte_a cte_b =
     (if \<not> mdbRevocable (cteMDBNode cte_a) then False
      else if \<not> sameRegionAs (cte_cap cte_a) (cte_cap cte_b) then False
      else if \<not> Arch_isMDBParentOf (cte_cap cte_a) (cte_cap cte_b) (mdbFirstBadged (cteMDBNode cte_b)) then False
      else (case cte_cap cte_a of
          EndpointCap badge _ _ _ _ _ \<Rightarrow>
            badge = 0 \<or> badge = cap_badge (cte_cap cte_b) \<and> \<not> mdbFirstBadged (cteMDBNode cte_b)
        | NotificationCap badge _ _ _ \<Rightarrow>
            badge = 0 \<or> badge = cap_badge (cte_cap cte_b) \<and> \<not> mdbFirstBadged (cteMDBNode cte_b)
        | _ \<Rightarrow> True))"

definition ensureNoChildren :: "kernel_state \<Rightarrow> ptr \<Rightarrow> (syscall_error + unit) option" where
  "ensureNoChildren s slot = do {
     c \<leftarrow> ctes s slot;
     if mdbNext (cteMDBNode c) \<noteq> 0 then do {
       n \<leftarrow> ctes s (mdbNext (cteMDBNode c));
       if isMDBParentOf c n then Some (Inl (no_error seL4_RevokeFirst)) else Some (Inr ())
     }
     else Some (Inr ())
   }"

definition ensureEmptySlot :: "kernel_state \<Rightarrow> ptr \<Rightarrow> (syscall_error + unit) option" where
  "ensureEmptySlot s slot = do {
     c \<leftarrow> ctes s slot;
     if cte_cap c \<noteq> NullCap then Some (Inl (no_error seL4_DeleteFirst)) else Some (Inr ())
   }"

definition isFinalCapability :: "kernel_state \<Rightarrow> ptr \<Rightarrow> bool option" where
  "isFinalCapability s slot = do {
     c \<leftarrow> ctes s slot;
     let mdb = cteMDBNode c;
     prevIsSameObject \<leftarrow> (if mdbPrev mdb = 0 then Some False
        else map_option (\<lambda>p. sameObjectAs (cte_cap p) (cte_cap c)) (ctes s (mdbPrev mdb)));
     if prevIsSameObject then Some False
     else if mdbNext mdb = 0 then Some True
     else map_option (\<lambda>n. \<not> sameObjectAs (cte_cap c) (cte_cap n)) (ctes s (mdbNext mdb))
   }"

definition slotCapLongRunningDelete :: "kernel_state \<Rightarrow> ptr \<Rightarrow> bool option" where
  "slotCapLongRunningDelete s slot = do {
     c \<leftarrow> ctes s slot;
     if cte_cap c = NullCap then Some False
     else do {
       f \<leftarrow> isFinalCapability s slot;
       if \<not> f then Some False
       else Some (case cte_cap c of ThreadCap _ \<Rightarrow> True | ZombieCap _ _ \<Rightarrow> True | CNodeCap _ _ _ _ \<Rightarrow> True | _ \<Rightarrow> False)
     }
   }"

definition capRemovable :: "cap \<Rightarrow> ptr \<Rightarrow> bool option" where
  "capRemovable cap slot = (case cap of
     NullCap \<Rightarrow> Some True
   | ZombieCap zid ty \<Rightarrow>
       (let n = cap_zombie_cap_get_capZombieNumber zid ty; z_slot = cap_zombie_cap_get_capZombiePtr zid ty
        in Some (n = 0 \<or> n = 1 \<and> slot = z_slot))
   | _ \<Rightarrow> None)"

definition capCyclicZombie :: "cap \<Rightarrow> ptr \<Rightarrow> bool" where
  "capCyclicZombie cap slot = (case cap of ZombieCap zid ty \<Rightarrow> cap_zombie_cap_get_capZombiePtr zid ty = slot | _ \<Rightarrow> False)"

subsection \<open>Deriving capabilities\<close>

definition Arch_deriveCap :: "arch_cap \<Rightarrow> (syscall_error + cap)" where
  "Arch_deriveCap c = (case c of
     VSpaceCap _ _ mapped \<Rightarrow> if mapped then Inr (ArchCap c) else Inl (no_error seL4_IllegalOperation)
   | PageTableCap _ _ mapped _ \<Rightarrow> if mapped then Inr (ArchCap c) else Inl (no_error seL4_IllegalOperation)
   | FrameCap _ p sz va vr d \<Rightarrow> Inr (ArchCap (FrameCap asidInvalid p sz va vr d))
   | ASIDControlCap \<Rightarrow> Inr (ArchCap c)
   | ASIDPoolCap _ _ \<Rightarrow> Inr (ArchCap c)
   | SGISignalCap _ _ \<Rightarrow> Inr (ArchCap c))"

definition deriveCap :: "kernel_state \<Rightarrow> ptr \<Rightarrow> cap \<Rightarrow> (syscall_error + cap) option" where
  "deriveCap s slot cap = (case cap of
     ArchCap c \<Rightarrow> Some (Arch_deriveCap c)
   | ZombieCap _ _ \<Rightarrow> Some (Inr NullCap)
   | IRQControlCap \<Rightarrow> Some (Inr NullCap)
   | UntypedCap _ _ _ _ \<Rightarrow> map_option (map_sum id (\<lambda>_. cap)) (ensureNoChildren s slot)
   | ReplyCap _ _ _ \<Rightarrow> Some (Inr NullCap)
   | _ \<Rightarrow> Some (Inr cap))"

end
