(* ===== verification/KMessage.thy ===== *)
theory KMessage
  imports KCSpace KVSpace KMdb
begin

unbundle bit_operations_syntax

text \<open>
  Registers, message tags and message buffers: what a message consists of and how the kernel copies it
  between threads (\<^verbatim>\<open>kernel/src/object/tcb.c\<close>, \<^verbatim>\<open>kernel/include/object/tcb.h\<close>, \<^verbatim>\<open>kernel/src/api/faults.c\<close>,
  \<^verbatim>\<open>kernel/src/arch/arm/api/faults.c\<close>, \<^verbatim>\<open>kernel/src/kernel/thread.c\<close>). A buffer is an array of words in the
  memory \<open>userMem\<close>; the null pointer stands for no buffer.
\<close>

subsection \<open>Registers\<close>

definition capRegister :: nat where "capRegister = 0"
definition badgeRegister :: nat where "badgeRegister = 0"
definition msgInfoRegister :: nat where "msgInfoRegister = 1"
definition SP_EL0 :: nat where "SP_EL0 = 31"
definition ELR_EL1 :: nat where "ELR_EL1 = 32"
definition NextIP :: nat where "NextIP = 32"
definition SPSR_EL1 :: nat where "SPSR_EL1 = 33"
definition FaultIP :: nat where "FaultIP = 34"

definition msgRegisters :: "nat list" where "msgRegisters = [2, 3, 4, 5]"
definition n_msgRegisters :: nat where "n_msgRegisters = 4"

definition syscallMessage :: "nat list" where
  "syscallMessage = [0, 1, 2, 3, 4, 5, 6, 7, FaultIP, SP_EL0, ELR_EL1, SPSR_EL1]"
definition exceptionMessage :: "nat list" where
  "exceptionMessage = [FaultIP, SP_EL0, SPSR_EL1]"

definition getRegister :: "kernel_state \<Rightarrow> ptr \<Rightarrow> nat \<Rightarrow> word_t option" where
  "getRegister s thread r = map_option (\<lambda>t. tcbContext t r) (tcbs s thread)"

definition setRegister :: "ptr \<Rightarrow> nat \<Rightarrow> word_t \<Rightarrow> kernel_state \<Rightarrow> kernel_state option" where
  "setRegister thread r v s = upd_tcb thread (\<lambda>t. t\<lparr>tcbContext := (tcbContext t)(r := v)\<rparr>) s"

definition getRestartPC :: "kernel_state \<Rightarrow> ptr \<Rightarrow> word_t option" where
  "getRestartPC s thread = getRegister s thread FaultIP"

definition setNextPC :: "ptr \<Rightarrow> word_t \<Rightarrow> kernel_state \<Rightarrow> kernel_state option" where
  "setNextPC thread v s = setRegister thread NextIP v s"

definition updateRestartPC :: "ptr \<Rightarrow> kernel_state \<Rightarrow> kernel_state option" where
  "updateRestartPC tcb s = do {
     pc \<leftarrow> getRegister s tcb NextIP;
     setRegister tcb FaultIP pc s
   }"

definition PSTATE_USER :: word_t where "PSTATE_USER = 0x140"

definition sanitiseRegister :: "nat \<Rightarrow> word_t \<Rightarrow> bool \<Rightarrow> word_t" where
  "sanitiseRegister reg v archInfo =
     (if reg = SPSR_EL1
      then if archInfo \<and> (v AND 0x1f = 0 \<or> v AND 0x1f = 4 \<or> v AND 0x1f = 5) then v
           else (v AND 0xf0000000) OR PSTATE_USER
      else v)"

definition Arch_getSanitiseRegisterInfo :: "ptr \<Rightarrow> bool" where
  "Arch_getSanitiseRegisterInfo thread = False"

subsection \<open>Message tags\<close>

text \<open>The block \<^verbatim>\<open>seL4_MessageInfo\<close>: label, bits of unwrapped capabilities, number of capabilities, length.\<close>

type_synonym message_info = word_t

definition seL4_MsgMaxLength :: word_t where "seL4_MsgMaxLength = 120"
definition seL4_MsgMaxExtraCaps :: nat where "seL4_MsgMaxExtraCaps = 3"

definition mi_get_label :: "message_info \<Rightarrow> word_t" where "mi_get_label mi = drop_bit 12 mi"
definition mi_get_capsUnwrapped :: "message_info \<Rightarrow> word_t" where "mi_get_capsUnwrapped mi = drop_bit 9 mi AND 7"
definition mi_get_extraCaps :: "message_info \<Rightarrow> word_t" where "mi_get_extraCaps mi = drop_bit 7 mi AND 3"
definition mi_get_length :: "message_info \<Rightarrow> word_t" where "mi_get_length mi = mi AND 0x7f"

definition mi_set_capsUnwrapped :: "message_info \<Rightarrow> word_t \<Rightarrow> message_info" where
  "mi_set_capsUnwrapped mi v = (mi AND NOT 0xe00) OR (push_bit 9 v AND 0xe00)"
definition mi_set_extraCaps :: "message_info \<Rightarrow> word_t \<Rightarrow> message_info" where
  "mi_set_extraCaps mi v = (mi AND NOT 0x180) OR (push_bit 7 v AND 0x180)"
definition mi_set_length :: "message_info \<Rightarrow> word_t \<Rightarrow> message_info" where
  "mi_set_length mi v = (mi AND NOT 0x7f) OR (v AND 0x7f)"

definition seL4_MessageInfo_new :: "word_t \<Rightarrow> word_t \<Rightarrow> word_t \<Rightarrow> word_t \<Rightarrow> message_info" where
  "seL4_MessageInfo_new lab capsUnwrapped extraCaps len =
     push_bit 12 lab OR push_bit 9 (capsUnwrapped AND 7) OR push_bit 7 (extraCaps AND 3) OR (len AND 0x7f)"

definition messageInfoFromWord :: "word_t \<Rightarrow> message_info" where
  "messageInfoFromWord w = (if mi_get_length w > seL4_MsgMaxLength then mi_set_length w seL4_MsgMaxLength else w)"

definition wordFromMessageInfo :: "message_info \<Rightarrow> word_t" where
  "wordFromMessageInfo mi = mi"

subsection \<open>Message words\<close>

definition word_at :: "ptr \<Rightarrow> word_t \<Rightarrow> ptr" where
  "word_at buf i = buf + push_bit 3 i"

definition set_word :: "ptr \<Rightarrow> word_t \<Rightarrow> word_t \<Rightarrow> kernel_state \<Rightarrow> kernel_state" where
  "set_word buf i v s = s\<lparr>userMem := (userMem s)(word_at buf i := v)\<rparr>"

definition getSyscallArg :: "kernel_state \<Rightarrow> nat \<Rightarrow> ptr \<Rightarrow> word_t option" where
  "getSyscallArg s i ipc_buffer =
     (if i < n_msgRegisters then getRegister s (ksCurThread s) (msgRegisters ! i)
      else do {
        kassert (ipc_buffer \<noteq> 0);
        Some (userMem s (word_at ipc_buffer (of_nat i + 1)))
      })"

text \<open>Writes a message word; the result is the length of the message so far.\<close>

definition setMR :: "ptr \<Rightarrow> ptr \<Rightarrow> nat \<Rightarrow> word_t \<Rightarrow> kernel_state \<Rightarrow> (word_t \<times> kernel_state) option" where
  "setMR receiver receiveIPCBuffer offset reg s =
     (if offset \<ge> n_msgRegisters
      then Some (if receiveIPCBuffer \<noteq> 0
                 then (of_nat offset + 1, set_word receiveIPCBuffer (of_nat offset + 1) reg s)
                 else (of_nat n_msgRegisters, s))
      else do {
        s \<leftarrow> setRegister receiver (msgRegisters ! offset) reg s;
        Some (of_nat offset + 1, s)
      })"

definition getExtraCPtr :: "kernel_state \<Rightarrow> ptr \<Rightarrow> nat \<Rightarrow> cptr_t" where
  "getExtraCPtr s bufferPtr i = userMem s (word_at bufferPtr (seL4_MsgMaxLength + 2 + of_nat i))"

definition setExtraBadge :: "ptr \<Rightarrow> word_t \<Rightarrow> nat \<Rightarrow> kernel_state \<Rightarrow> kernel_state" where
  "setExtraBadge bufferPtr badge i s = set_word bufferPtr (seL4_MsgMaxLength + 2 + of_nat i) badge s"

text \<open>
  The capabilities a message names: the slots, or the fault of the first lookup that fails. The result
  stands for the null-terminated array \<^verbatim>\<open>current_extra_caps\<close>.
\<close>

fun lookupExtraCaps_loop :: "kernel_state \<Rightarrow> ptr \<Rightarrow> ptr \<Rightarrow> nat \<Rightarrow> nat \<Rightarrow> (seL4_Fault \<times> lookup_fault + ptr list) option" where
  "lookupExtraCaps_loop s thread bufferPtr i 0 = Some (Inr [])"
| "lookupExtraCaps_loop s thread bufferPtr i (Suc n) = do {
     let cptr = getExtraCPtr s bufferPtr i;
     lu_ret \<leftarrow> lookupSlot s thread cptr;
     (case lu_ret of
        Inl f \<Rightarrow> Some (Inl (Fault_CapFault cptr False, f))
      | Inr slot \<Rightarrow> map_option (map_sum id (\<lambda>xs. slot # xs)) (lookupExtraCaps_loop s thread bufferPtr (Suc i) n))
   }"

definition lookupExtraCaps :: "kernel_state \<Rightarrow> ptr \<Rightarrow> ptr \<Rightarrow> message_info \<Rightarrow> (seL4_Fault \<times> lookup_fault + ptr list) option" where
  "lookupExtraCaps s thread bufferPtr info =
     (if bufferPtr = 0 then Some (Inr [])
      else lookupExtraCaps_loop s thread bufferPtr 0 (unat (mi_get_extraCaps info)))"

definition copyMRs_regs :: "ptr \<Rightarrow> ptr \<Rightarrow> nat \<Rightarrow> kernel_state option \<Rightarrow> kernel_state option" where
  "copyMRs_regs sender receiver i so = do {
     s \<leftarrow> so;
     v \<leftarrow> getRegister s sender (msgRegisters ! i);
     setRegister receiver (msgRegisters ! i) v s
   }"

definition copyMRs :: "ptr \<Rightarrow> ptr \<Rightarrow> ptr \<Rightarrow> ptr \<Rightarrow> nat \<Rightarrow> kernel_state \<Rightarrow> (word_t \<times> kernel_state) option" where
  "copyMRs sender sendBuf receiver recvBuf n s = do {
     s \<leftarrow> fold (copyMRs_regs sender receiver) [0..<min n n_msgRegisters] (Some s);
     Some (if recvBuf = 0 \<or> sendBuf = 0 then (of_nat (min n n_msgRegisters), s)
           else (of_nat n, fold (\<lambda>i s. set_word recvBuf (of_nat i + 1) (userMem s (word_at sendBuf (of_nat i + 1))) s)
                   [min n n_msgRegisters..<n] s))
   }"

subsection \<open>Fault messages\<close>

fun lufType :: "lookup_fault \<Rightarrow> word_t" where
  "lufType Lookup_invalid_root = 0"
| "lufType (Lookup_missing_capability _) = 1"
| "lufType (Lookup_depth_mismatch _ _) = 2"
| "lufType (Lookup_guard_mismatch _ _ _) = 3"

fun seL4_FaultType :: "seL4_Fault \<Rightarrow> word_t" where
  "seL4_FaultType Fault_NullFault = 0"
| "seL4_FaultType (Fault_CapFault _ _) = 1"
| "seL4_FaultType (Fault_UnknownSyscall _) = 2"
| "seL4_FaultType (Fault_UserException _ _) = 3"
| "seL4_FaultType (Fault_VMFault _ _ _) = 5"

definition setMRs_lookup_failure :: "ptr \<Rightarrow> ptr \<Rightarrow> lookup_fault \<Rightarrow> nat \<Rightarrow> kernel_state \<Rightarrow> (word_t \<times> kernel_state) option" where
  "setMRs_lookup_failure receiver buf luf offset s = do {
     (i, s) \<leftarrow> setMR receiver buf offset (lufType luf + 1) s;
     kassert (offset = 3 \<or> offset = 1);
     (case luf of
        Lookup_invalid_root \<Rightarrow> Some (i, s)
      | Lookup_missing_capability bitsLeft \<Rightarrow> setMR receiver buf (offset + 1) bitsLeft s
      | Lookup_depth_mismatch bitsFound bitsLeft \<Rightarrow> do {
          (_, s) \<leftarrow> setMR receiver buf (offset + 1) bitsLeft s;
          setMR receiver buf (offset + 2) bitsFound s
        }
      | Lookup_guard_mismatch guardFound bitsLeft bitsFound \<Rightarrow> do {
          (_, s) \<leftarrow> setMR receiver buf (offset + 1) bitsLeft s;
          (_, s) \<leftarrow> setMR receiver buf (offset + 2) guardFound s;
          setMR receiver buf (offset + 3) bitsFound s
        })
   }"

definition copyMRsFaultReply_step :: "ptr \<Rightarrow> nat list \<Rightarrow> (kernel_state \<Rightarrow> nat \<Rightarrow> word_t option) \<Rightarrow> bool \<Rightarrow> nat \<Rightarrow> kernel_state option \<Rightarrow> kernel_state option" where
  "copyMRsFaultReply_step receiver regs src archInfo i so = do {
     s \<leftarrow> so;
     v \<leftarrow> src s i;
     setRegister receiver (regs ! i) (sanitiseRegister (regs ! i) v archInfo) s
   }"

definition copyMRsFaultReply :: "ptr \<Rightarrow> ptr \<Rightarrow> nat list \<Rightarrow> nat \<Rightarrow> kernel_state \<Rightarrow> kernel_state option" where
  "copyMRsFaultReply sender receiver regs len s = do {
     let archInfo = Arch_getSanitiseRegisterInfo receiver;
     s \<leftarrow> fold (copyMRsFaultReply_step receiver regs (\<lambda>s i. getRegister s sender (msgRegisters ! i)) archInfo)
           [0..<min len n_msgRegisters] (Some s);
     if min len n_msgRegisters < len then do {
       sendBuf \<leftarrow> lookupIPCBuffer False sender s;
       if sendBuf \<noteq> 0
       then fold (copyMRsFaultReply_step receiver regs (\<lambda>s i. Some (userMem s (word_at sendBuf (of_nat i + 1)))) archInfo)
              [min len n_msgRegisters..<len] (Some s)
       else Some s
     }
     else Some s
   }"

definition copyMRsFault_step :: "ptr \<Rightarrow> nat list \<Rightarrow> (nat \<Rightarrow> word_t \<Rightarrow> kernel_state \<Rightarrow> kernel_state option) \<Rightarrow> nat \<Rightarrow> kernel_state option \<Rightarrow> kernel_state option" where
  "copyMRsFault_step sender regs dst i so = do {
     s \<leftarrow> so;
     v \<leftarrow> getRegister s sender (regs ! i);
     dst i v s
   }"

definition copyMRsFault :: "ptr \<Rightarrow> ptr \<Rightarrow> nat list \<Rightarrow> nat \<Rightarrow> ptr \<Rightarrow> kernel_state \<Rightarrow> kernel_state option" where
  "copyMRsFault sender receiver regs len receiveIPCBuffer s = do {
     s \<leftarrow> fold (copyMRsFault_step sender regs (\<lambda>i v. setRegister receiver (msgRegisters ! i) v)) [0..<min len n_msgRegisters] (Some s);
     if receiveIPCBuffer \<noteq> 0
     then fold (copyMRsFault_step sender regs (\<lambda>i v s. Some (set_word receiveIPCBuffer (of_nat i + 1) v s))) [min len n_msgRegisters..<len] (Some s)
     else Some s
   }"

definition handleFaultReply :: "ptr \<Rightarrow> ptr \<Rightarrow> kernel_state \<Rightarrow> (bool \<times> kernel_state) option" where
  "handleFaultReply receiver sender s = do {
     w \<leftarrow> getRegister s sender msgInfoRegister;
     let tag = messageInfoFromWord w;
     let lab = mi_get_label tag;
     let len = unat (mi_get_length tag);
     r \<leftarrow> tcbs s receiver;
     (case tcbFault r of
        Fault_CapFault _ _ \<Rightarrow> Some (True, s)
      | Fault_UnknownSyscall _ \<Rightarrow>
          map_option (\<lambda>s. (lab = 0, s)) (copyMRsFaultReply sender receiver syscallMessage (min len (length syscallMessage)) s)
      | Fault_UserException _ _ \<Rightarrow>
          map_option (\<lambda>s. (lab = 0, s)) (copyMRsFaultReply sender receiver exceptionMessage (min len (length exceptionMessage)) s)
      | Fault_VMFault _ _ _ \<Rightarrow> Some (True, s)
      | Fault_NullFault \<Rightarrow> None)
   }"

definition Arch_setMRs_fault :: "ptr \<Rightarrow> ptr \<Rightarrow> ptr \<Rightarrow> kernel_state \<Rightarrow> (word_t \<times> kernel_state) option" where
  "Arch_setMRs_fault sender receiver buf s = do {
     t \<leftarrow> tcbs s sender;
     (case tcbFault t of
        Fault_VMFault address fsr instructionFault \<Rightarrow> do {
          pc \<leftarrow> getRestartPC s sender;
          (_, s) \<leftarrow> setMR receiver buf 0 pc s;
          (_, s) \<leftarrow> setMR receiver buf 1 address s;
          (_, s) \<leftarrow> setMR receiver buf 2 (of_bool instructionFault) s;
          setMR receiver buf 3 fsr s
        }
      | _ \<Rightarrow> None)
   }"

definition setMRs_fault :: "ptr \<Rightarrow> ptr \<Rightarrow> ptr \<Rightarrow> kernel_state \<Rightarrow> (word_t \<times> kernel_state) option" where
  "setMRs_fault sender receiver buf s = do {
     t \<leftarrow> tcbs s sender;
     (case tcbFault t of
        Fault_CapFault address inReceivePhase \<Rightarrow> do {
          pc \<leftarrow> getRestartPC s sender;
          (_, s) \<leftarrow> setMR receiver buf 0 pc s;
          (_, s) \<leftarrow> setMR receiver buf 1 address s;
          (_, s) \<leftarrow> setMR receiver buf 2 (of_bool inReceivePhase) s;
          t \<leftarrow> tcbs s sender;
          setMRs_lookup_failure receiver buf (tcbLookupFailure t) 3 s
        }
      | Fault_UnknownSyscall syscallNumber \<Rightarrow> do {
          s \<leftarrow> copyMRsFault sender receiver syscallMessage (length syscallMessage) buf s;
          setMR receiver buf (length syscallMessage) syscallNumber s
        }
      | Fault_UserException number code \<Rightarrow> do {
          s \<leftarrow> copyMRsFault sender receiver exceptionMessage (length exceptionMessage) buf s;
          (_, s) \<leftarrow> setMR receiver buf (length exceptionMessage) number s;
          setMR receiver buf (length exceptionMessage + 1) code s
        }
      | _ \<Rightarrow> Arch_setMRs_fault sender receiver buf s)
   }"

subsection \<open>Error messages\<close>

fun syscall_error_number :: "syscall_error_type \<Rightarrow> word_t" where
  "syscall_error_number seL4_InvalidArgument = 1"
| "syscall_error_number seL4_InvalidCapability = 2"
| "syscall_error_number seL4_IllegalOperation = 3"
| "syscall_error_number seL4_RangeError = 4"
| "syscall_error_number seL4_AlignmentError = 5"
| "syscall_error_number seL4_FailedLookup = 6"
| "syscall_error_number seL4_TruncatedMessage = 7"
| "syscall_error_number seL4_DeleteFirst = 8"
| "syscall_error_number seL4_RevokeFirst = 9"
| "syscall_error_number seL4_NotEnoughMemory = 10"

definition setMRs_syscall_error :: "ptr \<Rightarrow> ptr \<Rightarrow> syscall_error \<Rightarrow> kernel_state \<Rightarrow> (word_t \<times> kernel_state) option" where
  "setMRs_syscall_error thread buf e s = (case se_type e of
     seL4_InvalidArgument \<Rightarrow> setMR thread buf 0 (invalidArgumentNumber e) s
   | seL4_InvalidCapability \<Rightarrow> setMR thread buf 0 (invalidCapNumber e) s
   | seL4_IllegalOperation \<Rightarrow> Some (0, s)
   | seL4_RangeError \<Rightarrow> do {
       (_, s) \<leftarrow> setMR thread buf 0 (rangeErrorMin e) s;
       setMR thread buf 1 (rangeErrorMax e) s
     }
   | seL4_AlignmentError \<Rightarrow> Some (0, s)
   | seL4_FailedLookup \<Rightarrow> do {
       (_, s) \<leftarrow> setMR thread buf 0 (of_bool (failedLookupWasSource e)) s;
       setMRs_lookup_failure thread buf (se_lookup_fault e) 1 s
     }
   | seL4_TruncatedMessage \<Rightarrow> Some (0, s)
   | seL4_DeleteFirst \<Rightarrow> Some (0, s)
   | seL4_RevokeFirst \<Rightarrow> Some (0, s)
   | seL4_NotEnoughMemory \<Rightarrow> setMR thread buf 0 (memoryLeft e) s)"

definition replyFromKernel_error :: "ptr \<Rightarrow> syscall_error \<Rightarrow> kernel_state \<Rightarrow> kernel_state option" where
  "replyFromKernel_error thread e s = do {
     ipcBuffer \<leftarrow> lookupIPCBuffer True thread s;
     s \<leftarrow> setRegister thread badgeRegister 0 s;
     (len, s) \<leftarrow> setMRs_syscall_error thread ipcBuffer e s;
     setRegister thread msgInfoRegister (wordFromMessageInfo (seL4_MessageInfo_new (syscall_error_number (se_type e)) 0 0 len)) s
   }"

definition replyFromKernel_success_empty :: "ptr \<Rightarrow> kernel_state \<Rightarrow> kernel_state option" where
  "replyFromKernel_success_empty thread s = do {
     s \<leftarrow> setRegister thread badgeRegister 0 s;
     setRegister thread msgInfoRegister (wordFromMessageInfo (seL4_MessageInfo_new 0 0 0 0)) s
   }"

subsection \<open>Receiving capabilities\<close>

definition loadCapTransfer :: "kernel_state \<Rightarrow> ptr \<Rightarrow> cptr_t \<times> cptr_t \<times> word_t" where
  "loadCapTransfer s buffer =
     (let offset = seL4_MsgMaxLength + of_nat seL4_MsgMaxExtraCaps + 2
      in (userMem s (word_at buffer offset), userMem s (word_at buffer (offset + 1)), userMem s (word_at buffer (offset + 2))))"

text \<open>The empty slot the receiver names for a capability, or the null pointer.\<close>

definition getReceiveSlots :: "ptr \<Rightarrow> ptr \<Rightarrow> kernel_state \<Rightarrow> ptr option" where
  "getReceiveSlots thread buffer s =
     (if buffer = 0 then Some 0
      else do {
        let (ctReceiveRoot, ctReceiveIndex, ctReceiveDepth) = loadCapTransfer s buffer;
        luc_ret \<leftarrow> lookupCap s thread ctReceiveRoot;
        (case luc_ret of
           Inl _ \<Rightarrow> Some 0
         | Inr cnode \<Rightarrow> do {
             lus_ret \<leftarrow> lookupTargetSlot s cnode ctReceiveIndex ctReceiveDepth;
             (case lus_ret of
                Inl _ \<Rightarrow> Some 0
              | Inr slot \<Rightarrow> map_option (\<lambda>c. if cte_cap c \<noteq> NullCap then 0 else slot) (ctes s slot))
           })
      })"

text \<open>The loop of \<^verbatim>\<open>transferCaps\<close>: the tag and the number of capabilities handled.\<close>

fun transferCaps_loop :: "nat \<Rightarrow> ptr list \<Rightarrow> ptr \<Rightarrow> ptr \<Rightarrow> ptr \<Rightarrow> message_info \<Rightarrow> kernel_state \<Rightarrow> (message_info \<times> nat \<times> kernel_state) option" where
  "transferCaps_loop i [] endpoint receiveBuffer destSlot info s = Some (info, i, s)"
| "transferCaps_loop i (slot # slots) endpoint receiveBuffer destSlot info s =
     (if i \<ge> seL4_MsgMaxExtraCaps then Some (info, i, s)
      else do {
        c \<leftarrow> ctes s slot;
        let cap = cte_cap c;
        (case cap of
           EndpointCap badge _ _ _ _ ep \<Rightarrow> Some (ep = endpoint, badge)
         | _ \<Rightarrow> Some (False, 0)) \<bind>
        (\<lambda>(unwrap, badge).
           if unwrap
           then transferCaps_loop (Suc i) slots endpoint receiveBuffer destSlot
                  (mi_set_capsUnwrapped info (mi_get_capsUnwrapped info OR push_bit i 1)) (setExtraBadge receiveBuffer badge i s)
           else if destSlot = 0 then Some (info, i, s)
           else do {
             dc_ret \<leftarrow> deriveCap s slot cap;
             (case dc_ret of
                Inl _ \<Rightarrow> Some (info, i, s)
              | Inr newCap \<Rightarrow>
                  if newCap = NullCap then Some (info, i, s)
                  else do {
                    s \<leftarrow> cteInsert newCap slot destSlot s;
                    transferCaps_loop (Suc i) slots endpoint receiveBuffer 0 info s
                  })
           })
      })"

definition transferCaps :: "message_info \<Rightarrow> ptr list \<Rightarrow> ptr \<Rightarrow> ptr \<Rightarrow> ptr \<Rightarrow> kernel_state \<Rightarrow> (message_info \<times> kernel_state) option" where
  "transferCaps info excaps endpoint receiver receiveBuffer s = do {
     let info = mi_set_extraCaps info 0;
     let info = mi_set_capsUnwrapped info 0;
     if excaps = [] \<or> receiveBuffer = 0 then Some (info, s)
     else do {
       destSlot \<leftarrow> getReceiveSlots receiver receiveBuffer s;
       (info, i, s) \<leftarrow> transferCaps_loop 0 excaps endpoint receiveBuffer destSlot info s;
       Some (mi_set_extraCaps info (of_nat i), s)
     }
   }"

subsection \<open>Transfers\<close>

definition doNormalTransfer :: "ptr \<Rightarrow> ptr \<Rightarrow> ptr \<Rightarrow> word_t \<Rightarrow> bool \<Rightarrow> ptr \<Rightarrow> ptr \<Rightarrow> kernel_state \<Rightarrow> kernel_state option" where
  "doNormalTransfer sender sendBuffer endpoint badge canGrant receiver receiveBuffer s = do {
     w \<leftarrow> getRegister s sender msgInfoRegister;
     let tag = messageInfoFromWord w;
     excaps \<leftarrow> (if canGrant
        then map_option (\<lambda>r. case r of Inl _ \<Rightarrow> [] | Inr xs \<Rightarrow> xs) (lookupExtraCaps s sender sendBuffer tag)
        else Some []);
     (msgTransferred, s) \<leftarrow> copyMRs sender sendBuffer receiver receiveBuffer (unat (mi_get_length tag)) s;
     (tag, s) \<leftarrow> transferCaps tag excaps endpoint receiver receiveBuffer s;
     let tag = mi_set_length tag msgTransferred;
     s \<leftarrow> setRegister receiver msgInfoRegister (wordFromMessageInfo tag) s;
     setRegister receiver badgeRegister badge s
   }"

definition doFaultTransfer :: "word_t \<Rightarrow> ptr \<Rightarrow> ptr \<Rightarrow> ptr \<Rightarrow> kernel_state \<Rightarrow> kernel_state option" where
  "doFaultTransfer badge sender receiver receiverIPCBuffer s = do {
     (sent, s) \<leftarrow> setMRs_fault sender receiver receiverIPCBuffer s;
     t \<leftarrow> tcbs s sender;
     let msgInfo = seL4_MessageInfo_new (seL4_FaultType (tcbFault t)) 0 0 sent;
     s \<leftarrow> setRegister receiver msgInfoRegister (wordFromMessageInfo msgInfo) s;
     setRegister receiver badgeRegister badge s
   }"

definition doIPCTransfer :: "ptr \<Rightarrow> ptr \<Rightarrow> word_t \<Rightarrow> bool \<Rightarrow> ptr \<Rightarrow> kernel_state \<Rightarrow> kernel_state option" where
  "doIPCTransfer sender endpoint badge grant receiver s = do {
     receiveBuffer \<leftarrow> lookupIPCBuffer True receiver s;
     t \<leftarrow> tcbs s sender;
     if tcbFault t = Fault_NullFault then do {
       sendBuffer \<leftarrow> lookupIPCBuffer False sender s;
       doNormalTransfer sender sendBuffer endpoint badge grant receiver receiveBuffer s
     }
     else doFaultTransfer badge sender receiver receiveBuffer s
   }"

definition doNBRecvFailedTransfer :: "ptr \<Rightarrow> kernel_state \<Rightarrow> kernel_state option" where
  "doNBRecvFailedTransfer thread s = setRegister thread badgeRegister 0 s"

end
