(* ===== verification/KReady.thy ===== *)
theory KReady
  imports KStructures DLinks
begin

unbundle bit_operations_syntax

text \<open>
  The ready queues of the scheduler: one doubly linked queue of threads per domain and priority, and
  a two-level bitmap of the priorities that have a thread (\<^verbatim>\<open>kernel/src/object/tcb.c\<close>,
  \<^verbatim>\<open>kernel/include/object/tcb.h\<close>, \<^verbatim>\<open>kernel/include/kernel/thread.h\<close>). The lemmas show that the bitmap
  operations and the queue operations keep the invariant \<open>valid_queues\<close>, which ties the links, the
  marks and the bitmap to one abstract list of threads per queue.
\<close>

subsection \<open>Ready queue indices and bitmaps\<close>

definition ready_queues_index :: "kernel_state \<Rightarrow> dom_t \<Rightarrow> prio_t \<Rightarrow> word_t option" where
  "ready_queues_index s dm prio =
     (if numDomains s > 1 then Some (dm * CONFIG_NUM_PRIORITIES + prio)
      else do { kassert (dm = 0); Some prio })"

definition prio_to_l1index :: "word_t \<Rightarrow> word_t" where
  "prio_to_l1index prio = drop_bit wordRadix prio"

definition l1index_to_prio :: "word_t \<Rightarrow> word_t" where
  "l1index_to_prio l1index = push_bit wordRadix l1index"

definition invert_l1index :: "word_t \<Rightarrow> word_t option" where
  "invert_l1index l1index =
     (let inverted = L2_BITMAP_SIZE - 1 - l1index in do { kassert (inverted < L2_BITMAP_SIZE); Some inverted })"

text \<open>\<^verbatim>\<open>clzl\<close>: the number of leading zero bits of a word.\<close>

definition clzl :: "word_t \<Rightarrow> nat" where
  "clzl w = length (takeWhile (\<lambda>i. \<not> bit w i) (rev [0..<wordBits]))"

definition addToBitmap :: "dom_t \<Rightarrow> prio_t \<Rightarrow> kernel_state \<Rightarrow> kernel_state option" where
  "addToBitmap dm prio s = do {
     let l1index = prio_to_l1index prio;
     l1index_inverted \<leftarrow> invert_l1index l1index;
     let s = s\<lparr>ksReadyQueuesL1Bitmap := (ksReadyQueuesL1Bitmap s)
                 (dm := ksReadyQueuesL1Bitmap s dm OR BIT (unat l1index))\<rparr>;
     Some (s\<lparr>ksReadyQueuesL2Bitmap := (ksReadyQueuesL2Bitmap s)
               (dm := (ksReadyQueuesL2Bitmap s dm)
                  (l1index_inverted := ksReadyQueuesL2Bitmap s dm l1index_inverted OR BIT (unat (prio AND MASK wordRadix))))\<rparr>)
   }"

definition removeFromBitmap :: "dom_t \<Rightarrow> prio_t \<Rightarrow> kernel_state \<Rightarrow> kernel_state option" where
  "removeFromBitmap dm prio s = do {
     let l1index = prio_to_l1index prio;
     l1index_inverted \<leftarrow> invert_l1index l1index;
     let s = s\<lparr>ksReadyQueuesL2Bitmap := (ksReadyQueuesL2Bitmap s)
                 (dm := (ksReadyQueuesL2Bitmap s dm)
                    (l1index_inverted := ksReadyQueuesL2Bitmap s dm l1index_inverted AND NOT (BIT (unat (prio AND MASK wordRadix)))))\<rparr>;
     if ksReadyQueuesL2Bitmap s dm l1index_inverted = 0
     then Some (s\<lparr>ksReadyQueuesL1Bitmap := (ksReadyQueuesL1Bitmap s)
                    (dm := ksReadyQueuesL1Bitmap s dm AND NOT (BIT (unat l1index)))\<rparr>)
     else Some s
   }"

definition getHighestPrio :: "kernel_state \<Rightarrow> dom_t \<Rightarrow> prio_t option" where
  "getHighestPrio s dm = do {
     kassert (ksReadyQueuesL1Bitmap s dm \<noteq> 0);
     let l1index = of_nat (wordBits - 1 - clzl (ksReadyQueuesL1Bitmap s dm));
     l1index_inverted \<leftarrow> invert_l1index l1index;
     kassert (ksReadyQueuesL2Bitmap s dm l1index_inverted \<noteq> 0);
     let l2index = of_nat (wordBits - 1 - clzl (ksReadyQueuesL2Bitmap s dm l1index_inverted));
     Some (l1index_to_prio l1index OR l2index)
   }"

definition isHighestPrio :: "kernel_state \<Rightarrow> dom_t \<Rightarrow> prio_t \<Rightarrow> bool option" where
  "isHighestPrio s dm prio =
     (if ksReadyQueuesL1Bitmap s dm = 0 then Some True
      else map_option (\<lambda>h. prio \<ge> h) (getHighestPrio s dm))"

subsection \<open>Queues of threads\<close>

definition tcb_queue_empty :: "tcb_queue \<Rightarrow> bool" where
  "tcb_queue_empty queue \<longleftrightarrow> head queue = 0"

definition tcb_queue_prepend :: "tcb_queue \<Rightarrow> ptr \<Rightarrow> kernel_state \<Rightarrow> (tcb_queue \<times> kernel_state) option" where
  "tcb_queue_prepend queue tcb s =
     (if tcb_queue_empty queue then Some (queue\<lparr>end_ptr := tcb, head := tcb\<rparr>, s)
      else do {
        s \<leftarrow> upd_tcb tcb (\<lambda>t. t\<lparr>tcbSchedNext := head queue\<rparr>) s;
        s \<leftarrow> upd_tcb (head queue) (\<lambda>t. t\<lparr>tcbSchedPrev := tcb\<rparr>) s;
        Some (queue\<lparr>head := tcb\<rparr>, s)
      })"

definition tcb_queue_append :: "tcb_queue \<Rightarrow> ptr \<Rightarrow> kernel_state \<Rightarrow> (tcb_queue \<times> kernel_state) option" where
  "tcb_queue_append queue tcb s =
     (if tcb_queue_empty queue then Some (queue\<lparr>head := tcb, end_ptr := tcb\<rparr>, s)
      else do {
        s \<leftarrow> upd_tcb tcb (\<lambda>t. t\<lparr>tcbSchedPrev := end_ptr queue\<rparr>) s;
        s \<leftarrow> upd_tcb (end_ptr queue) (\<lambda>t. t\<lparr>tcbSchedNext := tcb\<rparr>) s;
        Some (queue\<lparr>end_ptr := tcb\<rparr>, s)
      })"

definition tcb_queue_insert :: "ptr \<Rightarrow> ptr \<Rightarrow> kernel_state \<Rightarrow> kernel_state option" where
  "tcb_queue_insert tcb after s = do {
     a \<leftarrow> tcbs s after;
     let before = tcbSchedPrev a;
     kassert (before \<noteq> 0);
     kassert (before \<noteq> after);
     s \<leftarrow> upd_tcb tcb (\<lambda>t. t\<lparr>tcbSchedPrev := before\<rparr>) s;
     s \<leftarrow> upd_tcb tcb (\<lambda>t. t\<lparr>tcbSchedNext := after\<rparr>) s;
     s \<leftarrow> upd_tcb after (\<lambda>t. t\<lparr>tcbSchedPrev := tcb\<rparr>) s;
     upd_tcb before (\<lambda>t. t\<lparr>tcbSchedNext := tcb\<rparr>) s
   }"

definition tcb_queue_remove :: "tcb_queue \<Rightarrow> ptr \<Rightarrow> kernel_state \<Rightarrow> (tcb_queue \<times> kernel_state) option" where
  "tcb_queue_remove queue tcb s = do {
     t \<leftarrow> tcbs s tcb;
     let before = tcbSchedPrev t;
     let after = tcbSchedNext t;
     if head queue = tcb \<and> end_ptr queue = tcb then Some (queue\<lparr>head := 0, end_ptr := 0\<rparr>, s)
     else if head queue = tcb then do {
       s \<leftarrow> upd_tcb after (\<lambda>t. t\<lparr>tcbSchedPrev := 0\<rparr>) s;
       s \<leftarrow> upd_tcb tcb (\<lambda>t. t\<lparr>tcbSchedNext := 0\<rparr>) s;
       Some (queue\<lparr>head := after\<rparr>, s)
     }
     else if end_ptr queue = tcb then do {
       s \<leftarrow> upd_tcb before (\<lambda>t. t\<lparr>tcbSchedNext := 0\<rparr>) s;
       s \<leftarrow> upd_tcb tcb (\<lambda>t. t\<lparr>tcbSchedPrev := 0\<rparr>) s;
       Some (queue\<lparr>end_ptr := before\<rparr>, s)
     }
     else do {
       s \<leftarrow> upd_tcb before (\<lambda>t. t\<lparr>tcbSchedNext := after\<rparr>) s;
       s \<leftarrow> upd_tcb after (\<lambda>t. t\<lparr>tcbSchedPrev := before\<rparr>) s;
       s \<leftarrow> upd_tcb tcb (\<lambda>t. t\<lparr>tcbSchedPrev := 0\<rparr>) s;
       s \<leftarrow> upd_tcb tcb (\<lambda>t. t\<lparr>tcbSchedNext := 0\<rparr>) s;
       Some (queue, s)
     }
   }"

definition tcbSchedEnqueue :: "ptr \<Rightarrow> kernel_state \<Rightarrow> kernel_state option" where
  "tcbSchedEnqueue tcb s = do {
     t \<leftarrow> tcbs s tcb;
     if \<not> tcbQueued t then do {
       let dm = tcbDomain t;
       let prio = tcbPriority t;
       idx \<leftarrow> ready_queues_index s dm prio;
       let queue = ksReadyQueues s idx;
       s \<leftarrow> (if tcb_queue_empty queue then addToBitmap dm prio s else Some s);
       (queue, s) \<leftarrow> tcb_queue_prepend queue tcb s;
       let s = s\<lparr>ksReadyQueues := (ksReadyQueues s)(idx := queue)\<rparr>;
       upd_tcb tcb (\<lambda>t. t\<lparr>tcbQueued := True\<rparr>) s
     }
     else Some s
   }"

definition tcbSchedAppend :: "ptr \<Rightarrow> kernel_state \<Rightarrow> kernel_state option" where
  "tcbSchedAppend tcb s = do {
     t \<leftarrow> tcbs s tcb;
     if \<not> tcbQueued t then do {
       let dm = tcbDomain t;
       let prio = tcbPriority t;
       idx \<leftarrow> ready_queues_index s dm prio;
       let queue = ksReadyQueues s idx;
       s \<leftarrow> (if tcb_queue_empty queue then addToBitmap dm prio s else Some s);
       (queue, s) \<leftarrow> tcb_queue_append queue tcb s;
       let s = s\<lparr>ksReadyQueues := (ksReadyQueues s)(idx := queue)\<rparr>;
       upd_tcb tcb (\<lambda>t. t\<lparr>tcbQueued := True\<rparr>) s
     }
     else Some s
   }"

definition tcbSchedDequeue :: "ptr \<Rightarrow> kernel_state \<Rightarrow> kernel_state option" where
  "tcbSchedDequeue tcb s = do {
     t \<leftarrow> tcbs s tcb;
     if tcbQueued t then do {
       let dm = tcbDomain t;
       let prio = tcbPriority t;
       idx \<leftarrow> ready_queues_index s dm prio;
       let queue = ksReadyQueues s idx;
       (new_queue, s) \<leftarrow> tcb_queue_remove queue tcb s;
       let s = s\<lparr>ksReadyQueues := (ksReadyQueues s)(idx := new_queue)\<rparr>;
       s \<leftarrow> upd_tcb tcb (\<lambda>t. t\<lparr>tcbQueued := False\<rparr>) s;
       if tcb_queue_empty new_queue then removeFromBitmap dm prio s else Some s
     }
     else Some s
   }"

subsection \<open>Bits of words\<close>

lemma bit_BIT [simp]: "bit (BIT n) i \<longleftrightarrow> i = n \<and> n < 64"
  by (auto simp: BIT_def bit_simps)

lemma clzl_spec:
  assumes "w \<noteq> 0"
  shows "clzl w < 64" "bit w (63 - clzl w)" "\<And>i. bit w i \<Longrightarrow> i \<le> 63 - clzl w"
proof -
  let ?xs = "rev [0..<wordBits]" and ?P = "\<lambda>i. \<not> bit w i"
  have nth: "?xs ! i = 63 - i" if "i < 64" for i using that by (simp add: wordBits_def rev_nth)
  have len: "length ?xs = 64" by (simp add: wordBits_def)
  obtain k where "bit w k" using assms bit_eq_iff[of w 0] by auto
  then have "k < 64" using bit_imp_le_length[of w k] by simp
  with \<open>bit w k\<close> have "\<exists>x\<in>set ?xs. \<not> ?P x" by (auto simp: wordBits_def intro!: bexI[of _ k])
  then have "length (takeWhile ?P ?xs) < length ?xs"
    by (metis takeWhile_eq_all_conv length_takeWhile_le linorder_neqE_nat not_less takeWhile_eq_take take_all_iff)
  then show l: "clzl w < 64" by (simp add: clzl_def wordBits_def)
  have "\<not> ?P (?xs ! length (takeWhile ?P ?xs))" using l by (intro nth_length_takeWhile) (simp add: clzl_def wordBits_def)
  then show "bit w (63 - clzl w)" using nth[OF l] by (simp add: clzl_def)
  show "i \<le> 63 - clzl w" if b: "bit w i" for i
  proof (rule ccontr)
    assume "\<not> i \<le> 63 - clzl w"
    moreover have i: "i < 64" using bit_imp_le_length[OF b] by simp
    ultimately have j: "63 - i < clzl w" by linarith
    have "takeWhile ?P ?xs ! (63 - i) \<in> set (takeWhile ?P ?xs)" using j by (intro nth_mem) (simp add: clzl_def)
    then have "?P (takeWhile ?P ?xs ! (63 - i))" using set_takeWhileD by fast
    moreover have "takeWhile ?P ?xs ! (63 - i) = i" using j i nth[of "63 - i"] by (simp add: takeWhile_nth clzl_def)
    ultimately show False using b by simp
  qed
qed

subsection \<open>The two-level bitmap\<close>

text \<open>The bitmap of a domain records for which priorities \<open>N\<close> holds.\<close>

definition bitmap_ok :: "(dom_t \<Rightarrow> word_t) \<Rightarrow> (dom_t \<Rightarrow> word_t \<Rightarrow> word_t) \<Rightarrow> (dom_t \<Rightarrow> nat \<Rightarrow> bool) \<Rightarrow> bool" where
  "bitmap_ok l1 l2 N \<longleftrightarrow> (\<forall>d.
     (\<forall>p<256. bit (l2 d (of_nat (3 - p div 64))) (p mod 64) \<longleftrightarrow> N d p) \<and>
     (\<forall>i<4. bit (l1 d) i \<longleftrightarrow> l2 d (of_nat (3 - i)) \<noteq> 0) \<and>
     (\<forall>i\<ge>4. \<not> bit (l1 d) i))"

lemma less_4: "i < 4 \<Longrightarrow> i = 0 \<or> i = 1 \<or> i = 2 \<or> i = (3 :: nat)"
  by arith

lemma invert_of_nat: "i < 4 \<Longrightarrow> invert_l1index (of_nat i) = Some (of_nat (3 - i))"
  using less_4[of i] by (auto simp: invert_l1index_def L2_BITMAP_SIZE_def)

lemma prio_l1: "prio \<le> seL4_MaxPrio \<Longrightarrow> prio_to_l1index prio = of_nat (unat prio div 64) \<and> unat prio div 64 < 4"
proof -
  assume a: "prio \<le> seL4_MaxPrio"
  have "unat prio \<le> 255" using a by (simp add: seL4_MaxPrio_def word_le_nat_alt)
  moreover have "unat (drop_bit 6 prio) = unat prio div 64" by (simp add: drop_bit_eq_div unat_div)
  then have "of_nat (unat (drop_bit 6 prio)) = (of_nat (unat prio div 64) :: word_t)" by (rule arg_cong)
  then have "drop_bit 6 prio = of_nat (unat prio div 64)" by simp
  ultimately show ?thesis by (auto simp: prio_to_l1index_def wordRadix_def)
qed

lemma prio_l2: "unat (prio AND MASK wordRadix) = unat prio mod 64"
  by (simp add: MASK_mask wordRadix_def take_bit_eq_mask[symmetric] take_bit_eq_mod unat_mod)

lemma inv_inj: "i < 4 \<Longrightarrow> j < 4 \<Longrightarrow> (of_nat (3 - i) :: word_t) = of_nat (3 - j) \<longleftrightarrow> i = j"
  using less_4[of i] less_4[of j] by auto


text \<open>The bitmaps with one priority added or removed.\<close>

lemma addToBitmap_ok:
  assumes ok: "bitmap_ok (ksReadyQueuesL1Bitmap s) (ksReadyQueuesL2Bitmap s) N" and p: "prio \<le> seL4_MaxPrio"
  shows "\<exists>l1 l2. addToBitmap d prio s = Some (s\<lparr>ksReadyQueuesL1Bitmap := l1, ksReadyQueuesL2Bitmap := l2\<rparr>) \<and>
    bitmap_ok l1 l2 (N(d := (N d)(unat prio := True)))"
proof -
  let ?l1 = "ksReadyQueuesL1Bitmap s" and ?l2 = "ksReadyQueuesL2Bitmap s"
  let ?i = "unat prio div 64" and ?j = "unat prio mod 64"
  let ?v = "of_nat (3 - ?i) :: word_t"
  define l1 where "l1 = ?l1(d := ?l1 d OR BIT ?i)"
  define l2 where "l2 = ?l2(d := (?l2 d)(?v := ?l2 d ?v OR BIT ?j))"
  have i4: "?i < 4" and ix: "prio_to_l1index prio = of_nat ?i" using prio_l1[OF p] by auto
  have ui: "unat (of_nat ?i :: word_t) = ?i" using i4 by (simp add: unat_of_nat)
  have eq: "addToBitmap d prio s = Some (s\<lparr>ksReadyQueuesL1Bitmap := l1, ksReadyQueuesL2Bitmap := l2\<rparr>)"
    by (simp add: addToBitmap_def ix invert_of_nat[OF i4] prio_l2 ui l1_def l2_def)
  have j: "?j < 64" by simp
  have l2_bit: "bit (l2 d' (of_nat (3 - q div 64))) (q mod 64) \<longleftrightarrow>
      bit (?l2 d' (of_nat (3 - q div 64))) (q mod 64) \<or> (d' = d \<and> q = unat prio)" if "q < 256" for d' q
  proof -
    have "q div 64 < 4" using that by simp
    then have "of_nat (3 - q div 64) = ?v \<longleftrightarrow> q div 64 = ?i" by (rule inv_inj[OF _ i4])
    moreover have "q div 64 = ?i \<and> q mod 64 = ?j \<longleftrightarrow> q = unat prio" by (metis div_mult_mod_eq)
    ultimately show ?thesis by (auto simp: l2_def bit_or_iff)
  qed
  have l2_nz: "l2 d' (of_nat (3 - k)) \<noteq> 0 \<longleftrightarrow> ?l2 d' (of_nat (3 - k)) \<noteq> 0 \<or> (d' = d \<and> k = ?i)" if "k < 4" for d' k
  proof -
    have "?l2 d ?v OR BIT ?j \<noteq> 0" using j by (metis bit_BIT bit_0_eq bit_or_iff bot_apply bot_bool_def)
    then show ?thesis using inv_inj[OF that i4] by (auto simp: l2_def)
  qed
  have "bitmap_ok l1 l2 (N(d := (N d)(unat prio := True)))"
    unfolding bitmap_ok_def
  proof (intro allI conjI impI)
    fix d' q assume "q < (256::nat)"
    then show "bit (l2 d' (of_nat (3 - q div 64))) (q mod 64) = (N(d := (N d)(unat prio := True))) d' q"
      using ok l2_bit[of q d'] by (auto simp: bitmap_ok_def)
  next
    fix d' k assume "k < (4::nat)"
    then show "bit (l1 d') k = (l2 d' (of_nat (3 - k)) \<noteq> 0)"
      using ok l2_nz[of k d'] i4 by (auto simp: bitmap_ok_def l1_def bit_or_iff)
  next
    fix d' k assume "4 \<le> (k::nat)"
    then show "\<not> bit (l1 d') k" using ok i4 by (auto simp: bitmap_ok_def l1_def bit_or_iff)
  qed
  then show ?thesis using eq by blast
qed

lemma removeFromBitmap_ok:
  assumes ok: "bitmap_ok (ksReadyQueuesL1Bitmap s) (ksReadyQueuesL2Bitmap s) N" and p: "prio \<le> seL4_MaxPrio"
  shows "\<exists>l1 l2. removeFromBitmap d prio s = Some (s\<lparr>ksReadyQueuesL1Bitmap := l1, ksReadyQueuesL2Bitmap := l2\<rparr>) \<and>
    bitmap_ok l1 l2 (N(d := (N d)(unat prio := False)))"
proof -
  let ?l1 = "ksReadyQueuesL1Bitmap s" and ?l2 = "ksReadyQueuesL2Bitmap s"
  let ?i = "unat prio div 64" and ?j = "unat prio mod 64"
  let ?v = "of_nat (3 - ?i) :: word_t"
  define l2 where "l2 = ?l2(d := (?l2 d)(?v := ?l2 d ?v AND NOT (BIT ?j)))"
  define l1 where "l1 = (if l2 d ?v = 0 then ?l1(d := ?l1 d AND NOT (BIT ?i)) else ?l1)"
  have i4: "?i < 4" and ix: "prio_to_l1index prio = of_nat ?i" using prio_l1[OF p] by auto
  have ui: "unat (of_nat ?i :: word_t) = ?i" using i4 by (simp add: unat_of_nat)
  have eq: "removeFromBitmap d prio s = Some (s\<lparr>ksReadyQueuesL1Bitmap := l1, ksReadyQueuesL2Bitmap := l2\<rparr>)"
    by (simp add: removeFromBitmap_def ix invert_of_nat[OF i4] prio_l2 ui l1_def l2_def Let_def)
  have l2_bit: "bit (l2 d' (of_nat (3 - q div 64))) (q mod 64) \<longleftrightarrow>
      bit (?l2 d' (of_nat (3 - q div 64))) (q mod 64) \<and> \<not> (d' = d \<and> q = unat prio)" if "q < 256" for d' q
  proof -
    have "q div 64 < 4" using that by simp
    then have "of_nat (3 - q div 64) = ?v \<longleftrightarrow> q div 64 = ?i" by (rule inv_inj[OF _ i4])
    moreover have "q div 64 = ?i \<and> q mod 64 = ?j \<longleftrightarrow> q = unat prio" by (metis div_mult_mod_eq)
    ultimately show ?thesis by (auto simp: l2_def bit_and_iff bit_not_iff)
  qed
  have l2_k: "l2 d' (of_nat (3 - k)) = (if d' = d \<and> k = ?i then l2 d ?v else ?l2 d' (of_nat (3 - k)))" if "k < 4" for d' k
    using inv_inj[OF that i4] by (auto simp: l2_def)
  have "bitmap_ok l1 l2 (N(d := (N d)(unat prio := False)))"
    unfolding bitmap_ok_def
  proof (intro allI conjI impI)
    fix d' q assume "q < (256::nat)"
    then show "bit (l2 d' (of_nat (3 - q div 64))) (q mod 64) = (N(d := (N d)(unat prio := False))) d' q"
      using ok l2_bit[of q d'] by (auto simp: bitmap_ok_def)
  next
    fix d' k assume k: "k < (4::nat)"
    have "?l2 d ?v \<noteq> 0" if "l2 d ?v \<noteq> 0" using that by (auto simp: l2_def)
    then show "bit (l1 d') k = (l2 d' (of_nat (3 - k)) \<noteq> 0)"
      using ok k i4 l2_k[OF k, of d'] by (auto simp: bitmap_ok_def l1_def bit_and_iff bit_not_iff)
  next
    fix d' k assume "4 \<le> (k::nat)"
    then show "\<not> bit (l1 d') k" using ok by (auto simp: bitmap_ok_def l1_def bit_and_iff)
  qed
  then show ?thesis using eq by blast
qed

lemma unat_prio_parts:
  assumes "i < 4" "j < 64"
  shows "unat (l1index_to_prio (of_nat i) OR of_nat j) = 64 * i + j"
proof -
  have "\<not> bit j n" if "6 \<le> n" for n
  proof -
    have "(2::nat) ^ 6 \<le> 2 ^ n" using that by (intro power_increasing) auto
    then have "j div 2 ^ n = 0" using assms(2) by simp
    then show ?thesis by (simp add: bit_iff_odd)
  qed
  then have "l1index_to_prio (of_nat i) OR of_nat j = l1index_to_prio (of_nat i) + (of_nat j :: word_t)"
    by (intro disjunctive_add[symmetric]) (auto simp: l1index_to_prio_def wordRadix_def bit_simps not_le)
  also have "\<dots> = of_nat (64 * i + j)" by (simp add: l1index_to_prio_def wordRadix_def push_bit_eq_mult)
  finally have "unat (l1index_to_prio (of_nat i) OR of_nat j) = unat (of_nat (64 * i + j) :: word_t)" by (rule arg_cong)
  then show ?thesis using assms by (simp only: unat_of_nat) simp
qed

lemma getHighestPrio_ok:
  assumes ok: "bitmap_ok (ksReadyQueuesL1Bitmap s) (ksReadyQueuesL2Bitmap s) N"
  shows "ksReadyQueuesL1Bitmap s d \<noteq> 0 \<longleftrightarrow> (\<exists>p<256. N d p)"
    "ksReadyQueuesL1Bitmap s d \<noteq> 0 \<Longrightarrow> \<exists>h. getHighestPrio s d = Some h \<and> unat h < 256 \<and> N d (unat h) \<and>
       (\<forall>p<256. N d p \<longrightarrow> p \<le> unat h)"
proof -
  let ?w = "ksReadyQueuesL1Bitmap s d" and ?l2 = "ksReadyQueuesL2Bitmap s d"
  have b2: "bit (?l2 (of_nat (3 - p div 64))) (p mod 64) \<longleftrightarrow> N d p" if "p < 256" for p
    using ok that by (auto simp: bitmap_ok_def)
  have b1: "bit ?w i \<longleftrightarrow> ?l2 (of_nat (3 - i)) \<noteq> 0" if "i < 4" for i using ok that by (auto simp: bitmap_ok_def)
  have top: "i < 4" if "bit ?w i" for i using ok that by (auto simp: bitmap_ok_def not_le[symmetric])
  have N_bit: "bit ?w (p div 64)" if "p < 256" "N d p" for p
    using b2[of p] b1[of "p div 64"] that by (auto simp: less_mult_imp_div_less)
  have highest: "\<exists>h. getHighestPrio s d = Some h \<and> unat h < 256 \<and> N d (unat h) \<and> (\<forall>p<256. N d p \<longrightarrow> p \<le> unat h)"
    if nz: "?w \<noteq> 0"
  proof -
    define i where "i = 63 - clzl ?w"
    have i: "bit ?w i" "i < 4" using clzl_spec[OF nz] top by (auto simp: i_def)
    define v where "v = ?l2 (of_nat (3 - i))"
    have v: "v \<noteq> 0" using b1[OF i(2)] i(1) by (simp add: v_def)
    define j where "j = 63 - clzl v"
    have j: "bit v j" "j < 64" using clzl_spec[OF v] by (auto simp: j_def)
    define h :: word_t where "h = l1index_to_prio (of_nat i) OR of_nat j"
    have uh: "unat h = 64 * i + j" unfolding h_def by (rule unat_prio_parts[OF i(2) j(2)])
    have hd: "unat h div 64 = i" "unat h mod 64 = j" "unat h < 256" using j(2) i(2) by (auto simp: uh)
    have get: "getHighestPrio s d = Some h"
      using nz v by (simp add: getHighestPrio_def wordBits_def i_def[symmetric] invert_of_nat[OF i(2)] v_def[symmetric] j_def[symmetric] h_def)
    have Nh: "N d (unat h)" using b2[OF hd(3)] j(1) by (simp add: hd v_def)
    have "p \<le> unat h" if p: "p < 256" "N d p" for p
    proof -
      have le: "p div 64 \<le> i" using clzl_spec(3)[OF nz N_bit[OF p]] by (simp add: i_def)
      show ?thesis
      proof (cases "p div 64 = i")
        case True
        then have "p mod 64 \<le> j" using clzl_spec(3)[OF v, of "p mod 64"] b2[OF p(1)] p(2) by (simp add: v_def j_def)
        then show ?thesis using True div_mult_mod_eq[of p 64] by (simp add: uh)
      next
        case False
        then have "p div 64 * 64 + 64 \<le> i * 64" using le by simp
        then show ?thesis using div_mult_mod_eq[of p 64] mod_less_divisor[of 64 p] by (simp add: uh)
      qed
    qed
    then show ?thesis using get Nh hd(3) by blast
  qed
  show "?w \<noteq> 0 \<longleftrightarrow> (\<exists>p<256. N d p)"
    using highest N_bit by (metis bit_0_eq bot_apply bot_bool_def)
  show "?w \<noteq> 0 \<Longrightarrow> \<exists>h. getHighestPrio s d = Some h \<and> unat h < 256 \<and> N d (unat h) \<and> (\<forall>p<256. N d p \<longrightarrow> p \<le> unat h)"
    by (rule highest)
qed

subsection \<open>Ready queues\<close>

interpretation sched: links tcbSchedNext tcbSchedPrev "\<lambda>p t. t\<lparr>tcbSchedNext := p\<rparr>" "\<lambda>p t. t\<lparr>tcbSchedPrev := p\<rparr>"
  by unfold_locales simp_all

text \<open>The index of the ready queue of a domain and a priority.\<close>

definition rqi :: "kernel_state \<Rightarrow> dom_t \<Rightarrow> prio_t \<Rightarrow> word_t" where
  "rqi s d p = (if numDomains s > 1 then d * CONFIG_NUM_PRIORITIES + p else p)"

definition qidx :: "kernel_state \<Rightarrow> tcb \<Rightarrow> word_t" where
  "qidx s t = rqi s (tcbDomain t) (tcbPriority t)"

text \<open>
  The invariant of the ready queues, with the threads \<open>Q i\<close> of each queue as a list: every queue is a
  well-linked list; a thread is in the queue of its domain and priority if it is marked queued, and in
  no other queue; threads that are not queued have null links; and the bitmap has a bit for exactly
  the priorities with a thread.
\<close>

definition valid_tcb :: "kernel_state \<Rightarrow> ptr \<Rightarrow> tcb \<Rightarrow> bool" where
  "valid_tcb s p t \<longleftrightarrow> p \<noteq> 0 \<and> tcbDomain t < numDomains s \<and> tcbPriority t \<le> seL4_MaxPrio \<and>
     (\<not> tcbQueued t \<longrightarrow> tcbSchedNext t = 0 \<and> tcbSchedPrev t = 0)"

definition nonempty :: "kernel_state \<Rightarrow> (word_t \<Rightarrow> ptr list) \<Rightarrow> dom_t \<Rightarrow> nat \<Rightarrow> bool" where
  "nonempty s Q d p \<longleftrightarrow> d < numDomains s \<and> p < 256 \<and> Q (rqi s d (of_nat p)) \<noteq> []"

definition valid_queues :: "kernel_state \<Rightarrow> (word_t \<Rightarrow> ptr list) \<Rightarrow> bool" where
  "valid_queues s Q \<longleftrightarrow>
     1 \<le> numDomains s \<and> numDomains s \<le> 256 \<and>
     (\<forall>i. is_queue tcbSchedNext tcbSchedPrev (tcbs s) (head (ksReadyQueues s i)) (end_ptr (ksReadyQueues s i)) (Q i)) \<and>
     (\<forall>p t. tcbs s p = Some t \<longrightarrow> valid_tcb s p t) \<and>
     (\<forall>i p. p \<in> set (Q i) \<longleftrightarrow> (\<exists>t. tcbs s p = Some t \<and> tcbQueued t \<and> qidx s t = i)) \<and>
     bitmap_ok (ksReadyQueuesL1Bitmap s) (ksReadyQueuesL2Bitmap s) (nonempty s Q)"

lemma valid_queuesD:
  assumes "valid_queues s Q"
  shows "is_queue tcbSchedNext tcbSchedPrev (tcbs s) (head (ksReadyQueues s i)) (end_ptr (ksReadyQueues s i)) (Q i)"
    "tcbs s p = Some t \<Longrightarrow> valid_tcb s p t"
    "p \<in> set (Q i) \<longleftrightarrow> (\<exists>t. tcbs s p = Some t \<and> tcbQueued t \<and> qidx s t = i)"
    "bitmap_ok (ksReadyQueuesL1Bitmap s) (ksReadyQueuesL2Bitmap s) (nonempty s Q)"
    "1 \<le> numDomains s" "numDomains s \<le> 256"
  using assms by (auto simp: valid_queues_def)

lemma ready_queues_index_rqi:
  assumes "valid_queues s Q" "d < numDomains s"
  shows "ready_queues_index s d p = Some (rqi s d p)"
proof (cases "numDomains s > 1")
  case False
  then have "numDomains s = 1" using valid_queuesD(5)[OF assms(1)] by (simp add: not_less order_antisym)
  then have "d = 0" using assms(2) by (simp add: word_less_1)
  then show ?thesis using False by (simp add: ready_queues_index_def rqi_def)
qed (simp add: ready_queues_index_def rqi_def)

text \<open>Different domains and priorities have different queues.\<close>

lemma rqi_inj:
  assumes "valid_queues s Q" "d < numDomains s" "d' < numDomains s" "p \<le> seL4_MaxPrio" "p' \<le> seL4_MaxPrio"
    "rqi s d p = rqi s d' p'"
  shows "d = d' \<and> p = p'"
proof (cases "numDomains s > 1")
  case True
  have nd: "unat (numDomains s) \<le> 256" using valid_queuesD(6)[OF assms(1)] by (simp add: word_le_nat_alt)
  have u: "unat d < 256" "unat d' < 256" "unat p < 256" "unat p' < 256"
    using assms(2-5) nd by (auto simp: word_less_nat_alt word_le_nat_alt seL4_MaxPrio_def)
  have ur: "unat (e * CONFIG_NUM_PRIORITIES + q) = unat e * 256 + unat q" if "unat e < 256" "unat q < 256" for e q
    using that by (simp add: unat_word_ariths CONFIG_NUM_PRIORITIES_def)
  have e: "(x * 256 + y) div 256 = x" "(x * 256 + y) mod 256 = y" if "y < 256" for x y :: nat using that by simp_all
  have "unat d * 256 + unat p = unat d' * 256 + unat p'"
    using arg_cong[OF assms(6), of unat] True ur u by (simp add: rqi_def)
  then have "unat d = unat d' \<and> unat p = unat p'"
    using u e[of "unat p" "unat d"] e[of "unat p'" "unat d'"] by simp
  then show ?thesis by (simp add: word_unat_eq_iff)
next
  case False
  then have "numDomains s = 1" using valid_queuesD(5)[OF assms(1)] by (simp add: not_less order_antisym)
  then have "d = 0" "d' = 0" using assms(2,3) by (simp_all add: word_less_1)
  then show ?thesis using assms(6) False by (simp add: rqi_def)
qed

text \<open>What the queue operations may change of a thread: its two links and its mark.\<close>

definition core :: "tcb \<Rightarrow> tcb" where
  "core t = t\<lparr>tcbSchedNext := 0, tcbSchedPrev := 0, tcbQueued := False\<rparr>"

definition sched_frame :: "kernel_state \<Rightarrow> kernel_state \<Rightarrow> bool" where
  "sched_frame s s' \<longleftrightarrow> (\<forall>p. map_option core (tcbs s' p) = map_option core (tcbs s p)) \<and>
     numDomains s' = numDomains s \<and> eps s' = eps s \<and> ntfns s' = ntfns s \<and> ctes s' = ctes s \<and>
     ksCurThread s' = ksCurThread s \<and> ksIdleThread s' = ksIdleThread s \<and> ksSchedulerAction s' = ksSchedulerAction s \<and>
     ksCurDomain s' = ksCurDomain s \<and> ksDomainTime s' = ksDomainTime s \<and> ksDomScheduleIdx s' = ksDomScheduleIdx s \<and>
     ksDomSchedule s' = ksDomSchedule s \<and> ksWorkUnitsCompleted s' = ksWorkUnitsCompleted s \<and>
     intStateIRQTable s' = intStateIRQTable s \<and> intStateIRQNode s' = intStateIRQNode s \<and>
     irqMasked s' = irqMasked s \<and> irqAcks s' = irqAcks s \<and> userMem s' = userMem s \<and> ksArch s' = ksArch s \<and>
     irqPolls s' = irqPolls s \<and> gicConfig s' = gicConfig s \<and> sgiControl s' = sgiControl s \<and> ipcServerList s' = ipcServerList s \<and> ipcServerList_top s' = ipcServerList_top s"

lemma sched_frame_refl [simp]: "sched_frame s s"
  by (simp add: sched_frame_def)

lemma sched_frame_trans [trans]: "sched_frame s s' \<Longrightarrow> sched_frame s' s'' \<Longrightarrow> sched_frame s s''"
  by (simp add: sched_frame_def)

lemma core_fields:
  assumes "core t = core t'"
  shows "tsType t = tsType t'" "tcbDomain t = tcbDomain t'" "tcbPriority t = tcbPriority t'" "tcbMCP t = tcbMCP t'"
    "tcbTimeSlice t = tcbTimeSlice t'" "tcbEPNext t = tcbEPNext t'" "tcbEPPrev t = tcbEPPrev t'"
  using arg_cong[OF assms, of tsType] arg_cong[OF assms, of tcbDomain] arg_cong[OF assms, of tcbPriority]
    arg_cong[OF assms, of tcbMCP] arg_cong[OF assms, of tcbTimeSlice] arg_cong[OF assms, of tcbEPNext]
    arg_cong[OF assms, of tcbEPPrev] by (simp_all add: core_def)

lemma sched_frame_tcb:
  assumes "sched_frame s s'" "tcbs s p = Some t"
  obtains t' where "tcbs s' p = Some t'" "core t' = core t"
  using assms unfolding sched_frame_def by (metis (no_types, lifting) map_option_eq_Some option.map(2))

lemma sched_frame_fields:
  assumes "sched_frame s s'"
  shows "numDomains s' = numDomains s" "ksCurThread s' = ksCurThread s" "ksIdleThread s' = ksIdleThread s"
    "ksSchedulerAction s' = ksSchedulerAction s" "ksCurDomain s' = ksCurDomain s" "ksDomainTime s' = ksDomainTime s"
    "ksDomScheduleIdx s' = ksDomScheduleIdx s" "ksDomSchedule s' = ksDomSchedule s"
    "eps s' = eps s" "ntfns s' = ntfns s" "ctes s' = ctes s"
  using assms unfolding sched_frame_def by auto

text \<open>Replacing the list of one queue: the thread \<open>p\<close> joins it (\<open>b\<close>) or leaves it.\<close>

lemma valid_queues_step:
  assumes vq: "valid_queues s Q" and p: "tcbs s p = Some t0" and i: "i = qidx s t0"
    and q: "is_queue tcbSchedNext tcbSchedPrev m' h e xs"
    and oth: "\<And>q. q \<noteq> p \<Longrightarrow> q \<notin> set (Q i) \<Longrightarrow> m' q = tcbs s q"
    and cor: "\<And>q. map_option core (m' q) = map_option core (tcbs s q)"
    and que: "\<And>q t t'. q \<noteq> p \<Longrightarrow> tcbs s q = Some t \<Longrightarrow> m' q = Some t' \<Longrightarrow> tcbQueued t' = tcbQueued t"
    and p': "m' p = Some t1" "tcbQueued t1 = b" "\<not> b \<Longrightarrow> tcbSchedNext t1 = 0 \<and> tcbSchedPrev t1 = 0"
    and xs: "set xs = (if b then insert p (set (Q i)) else set (Q i) - {p})"
    and bm: "bitmap_ok l1 l2 (nonempty s (Q(i := xs)))"
  shows "valid_queues (s\<lparr>tcbs := m', ksReadyQueues := (ksReadyQueues s)(i := \<lparr>head = h, end_ptr = e\<rparr>),
           ksReadyQueuesL1Bitmap := l1, ksReadyQueuesL2Bitmap := l2\<rparr>) (Q(i := xs))"
proof -
  let ?s = "s\<lparr>tcbs := m', ksReadyQueues := (ksReadyQueues s)(i := \<lparr>head = h, end_ptr = e\<rparr>),
           ksReadyQueuesL1Bitmap := l1, ksReadyQueuesL2Bitmap := l2\<rparr>"
  note v = valid_queuesD[OF vq]
  have idx: "qidx ?s t = qidx s t" "rqi ?s d pr = rqi s d pr" for t d pr by (simp_all add: qidx_def rqi_def)
  have bk: "\<exists>t. tcbs s q = Some t \<and> core t' = core t" if "m' q = Some t'" for q t'
    using cor[of q] that by (cases "tcbs s q") auto
  have qc: "qidx s t' = qidx s t" if "core t' = core t" for t t' using core_fields[OF that] by (simp add: qidx_def)
  have "is_queue tcbSchedNext tcbSchedPrev m' (head (ksReadyQueues ?s j)) (end_ptr (ksReadyQueues ?s j)) ((Q(i := xs)) j)" for j
  proof (cases "j = i")
    case False
    have "m' q = tcbs s q" if "q \<in> set (Q j)" for q
    proof -
      obtain t where "tcbs s q = Some t" "qidx s t = j" using v(3)[of q j] \<open>q \<in> set (Q j)\<close> by blast
      then have "q \<noteq> p" "q \<notin> set (Q i)" using v(3)[of q i] p i False by auto
      then show ?thesis by (rule oth)
    qed
    then show ?thesis using v(1)[of j] False
      by (simp add: is_queue_cong[of "Q j" tcbSchedNext tcbSchedPrev m' "tcbs s"])
  qed (use q in simp)
  moreover have "valid_tcb ?s q t'" if t': "m' q = Some t'" for q t'
  proof -
    obtain t where t: "tcbs s q = Some t" "core t' = core t" using bk[OF t'] by blast
    have "tcbSchedNext t' = 0 \<and> tcbSchedPrev t' = 0" if nq: "\<not> tcbQueued t'"
    proof (cases "q = p")
      case False
      then have "\<not> tcbQueued t" using que[OF False t(1) t'] nq by simp
      then have "q \<notin> set (Q i)" using v(3)[of q i] t(1) by auto
      then show ?thesis using oth[OF False] t' t(1) v(2)[OF t(1)] \<open>\<not> tcbQueued t\<close> by (simp add: valid_tcb_def)
    qed (use p' t' nq in simp)
    then show ?thesis using v(2)[OF t(1)] core_fields[OF t(2)] by (simp add: valid_tcb_def)
  qed
  moreover have "q \<in> set ((Q(i := xs)) j) \<longleftrightarrow> (\<exists>t'. m' q = Some t' \<and> tcbQueued t' \<and> qidx s t' = j)" for q j
  proof (cases "q = p")
    case True
    have "core t1 = core t0" using bk[OF p'(1)] p by auto
    then have "qidx s t1 = i" unfolding i by (rule qc)
    then have "(\<exists>t'. m' q = Some t' \<and> tcbQueued t' \<and> qidx s t' = j) \<longleftrightarrow> b \<and> j = i" using True p'(1,2) by auto
    moreover have "p \<in> set xs \<longleftrightarrow> b" using xs by simp
    moreover have "p \<notin> set (Q j)" if "j \<noteq> i" using v(3)[of p j] p i that by auto
    ultimately show ?thesis using True by (cases "j = i") simp_all
  next
    case False
    have "(\<exists>t'. m' q = Some t' \<and> tcbQueued t' \<and> qidx s t' = j) \<longleftrightarrow> (\<exists>t. tcbs s q = Some t \<and> tcbQueued t \<and> qidx s t = j)"
    proof (cases "tcbs s q")
      case None
      then show ?thesis using cor[of q] by auto
    next
      case (Some t)
      then obtain t' where t': "m' q = Some t'" using cor[of q] by (cases "m' q") auto
      then have "core t' = core t" using bk[OF t'] Some by auto
      then have "qidx s t' = qidx s t" by (rule qc)
      then show ?thesis using que[OF False Some t'] Some t' by auto
    qed
    then show ?thesis using v(3)[of q j] xs False by auto
  qed
  moreover have "nonempty ?s (Q(i := xs)) = nonempty s (Q(i := xs))" by (intro ext) (simp add: nonempty_def idx)
  ultimately show ?thesis using v(5,6) bm unfolding valid_queues_def idx by simp
qed

subsection \<open>Operations on one queue\<close>

text \<open>The map after an operation that writes links of the threads in \<open>A\<close> only.\<close>

definition lcore :: "tcb \<Rightarrow> tcb" where
  "lcore t = t\<lparr>tcbSchedNext := 0, tcbSchedPrev := 0\<rparr>"

definition link_upd :: "ptr set \<Rightarrow> (ptr \<Rightarrow> tcb option) \<Rightarrow> (ptr \<Rightarrow> tcb option) \<Rightarrow> bool" where
  "link_upd A m m' \<longleftrightarrow> (\<forall>q. q \<notin> A \<longrightarrow> m' q = m q) \<and> (\<forall>q. map_option lcore (m' q) = map_option lcore (m q))"

lemma link_upd_refl [simp]: "link_upd A m m"
  by (simp add: link_upd_def)

lemma link_upd_one:
  "link_upd A m m' \<Longrightarrow> m' q = Some t \<Longrightarrow> q \<in> A \<Longrightarrow> lcore t' = lcore t \<Longrightarrow> link_upd A m (m'(q := Some t'))"
  by (auto simp: link_upd_def) (metis option.map(2))

lemma lcore_upd [simp]: "lcore (t\<lparr>tcbSchedNext := a\<rparr>) = lcore t" "lcore (t\<lparr>tcbSchedPrev := a\<rparr>) = lcore t"
  by (simp_all add: lcore_def)

lemma lcore_core: "lcore t = lcore t' \<Longrightarrow> core t = core t' \<and> tcbQueued t = tcbQueued t'"
proof -
  assume a: "lcore t = lcore t'"
  have "tcbQueued t = tcbQueued t'" using arg_cong[OF a, of tcbQueued] by (simp add: lcore_def)
  moreover have "core t = core t'" using arg_cong[OF a, of "\<lambda>t. t\<lparr>tcbQueued := False\<rparr>"] by (simp add: lcore_def core_def)
  ultimately show ?thesis by simp
qed

lemma prepend_ok:
  assumes q: "is_queue tcbSchedNext tcbSchedPrev (tcbs s) (head queue) (end_ptr queue) xs"
    and p: "tcbs s p = Some t" "p \<notin> set xs" "p \<noteq> 0" "tcbSchedNext t = 0" "tcbSchedPrev t = 0"
  shows "\<exists>m' q'. tcb_queue_prepend queue p s = Some (q', s\<lparr>tcbs := m'\<rparr>) \<and>
    is_queue tcbSchedNext tcbSchedPrev m' (head q') (end_ptr q') (p # xs) \<and> link_upd (insert p (set xs)) (tcbs s) m'"
proof (cases "xs = []")
  case True
  then have "tcb_queue_empty queue" using is_queue_empty[OF q] by (simp add: tcb_queue_empty_def)
  then show ?thesis using p sched.queue_single[of "tcbs s" p t] True
    by (intro exI[of _ "tcbs s"]) (simp add: tcb_queue_prepend_def)
next
  case False
  then have h: "head queue \<in> set xs" "head queue \<noteq> 0" "\<not> tcb_queue_empty queue"
    using q is_queue_empty[OF q] by (auto simp: is_queue_def tcb_queue_empty_def)
  obtain k where k: "tcbs s (head queue) = Some k" using is_queue_mem[OF q h(1)] by blast
  have ne: "head queue \<noteq> p" using h(1) p(2) by auto
  let ?m1 = "(tcbs s)(p := Some (t\<lparr>tcbSchedNext := head queue\<rparr>))"
  let ?m2 = "?m1(head queue := Some (k\<lparr>tcbSchedPrev := p\<rparr>))"
  have "tcb_queue_prepend queue p s = Some (queue\<lparr>head := p\<rparr>, s\<lparr>tcbs := ?m2\<rparr>)"
    using h(3) p(1) k ne by (simp add: tcb_queue_prepend_def)
  moreover have "is_queue tcbSchedNext tcbSchedPrev ?m2 p (end_ptr queue) (p # xs)"
    by (rule sched.queue_prepend[OF q False p(2,3,1,5) k])
  moreover have "link_upd (insert p (set xs)) (tcbs s) ?m1" using p(1) by (intro link_upd_one) auto
  then have "link_upd (insert p (set xs)) (tcbs s) ?m2" using h(1) k ne by (intro link_upd_one[of _ _ ?m1 "head queue" k]) auto
  ultimately show ?thesis by (intro exI[of _ ?m2] exI[of _ "queue\<lparr>head := p\<rparr>"]) simp
qed

lemma append_ok:
  assumes q: "is_queue tcbSchedNext tcbSchedPrev (tcbs s) (head queue) (end_ptr queue) xs"
    and p: "tcbs s p = Some t" "p \<notin> set xs" "p \<noteq> 0" "tcbSchedNext t = 0" "tcbSchedPrev t = 0"
  shows "\<exists>m' q'. tcb_queue_append queue p s = Some (q', s\<lparr>tcbs := m'\<rparr>) \<and>
    is_queue tcbSchedNext tcbSchedPrev m' (head q') (end_ptr q') (xs @ [p]) \<and> link_upd (insert p (set xs)) (tcbs s) m'"
proof (cases "xs = []")
  case True
  then have "tcb_queue_empty queue" using is_queue_empty[OF q] by (simp add: tcb_queue_empty_def)
  then show ?thesis using p sched.queue_single[of "tcbs s" p t] True
    by (intro exI[of _ "tcbs s"]) (simp add: tcb_queue_append_def)
next
  case False
  then have h: "end_ptr queue \<in> set xs" "\<not> tcb_queue_empty queue"
    using q is_queue_empty[OF q] by (auto simp: is_queue_def tcb_queue_empty_def)
  obtain k where k: "tcbs s (end_ptr queue) = Some k" using is_queue_mem[OF q h(1)] by blast
  have ne: "end_ptr queue \<noteq> p" using h(1) p(2) by auto
  let ?m1 = "(tcbs s)(p := Some (t\<lparr>tcbSchedPrev := end_ptr queue\<rparr>))"
  let ?m2 = "?m1(end_ptr queue := Some (k\<lparr>tcbSchedNext := p\<rparr>))"
  have "tcb_queue_append queue p s = Some (queue\<lparr>end_ptr := p\<rparr>, s\<lparr>tcbs := ?m2\<rparr>)"
    using h(2) p(1) k ne by (simp add: tcb_queue_append_def)
  moreover have "is_queue tcbSchedNext tcbSchedPrev ?m2 (head queue) p (xs @ [p])"
    by (rule sched.queue_append[OF q False p(2,3,1,4) k])
  moreover have "link_upd (insert p (set xs)) (tcbs s) ?m1" using p(1) by (intro link_upd_one) auto
  then have "link_upd (insert p (set xs)) (tcbs s) ?m2" using h(1) k ne by (intro link_upd_one[of _ _ ?m1 "end_ptr queue" k]) auto
  ultimately show ?thesis by (intro exI[of _ ?m2] exI[of _ "queue\<lparr>end_ptr := p\<rparr>"]) simp
qed

text \<open>Removal of the only thread, from the front, the back and the middle of a queue.\<close>

definition removed :: "kernel_state \<Rightarrow> tcb_queue \<Rightarrow> ptr \<Rightarrow> ptr list \<Rightarrow> ptr list \<Rightarrow> bool" where
  "removed s queue p ys zs \<longleftrightarrow> (\<exists>m' q' t'. tcb_queue_remove queue p s = Some (q', s\<lparr>tcbs := m'\<rparr>) \<and>
    is_queue tcbSchedNext tcbSchedPrev m' (head q') (end_ptr q') (ys @ zs) \<and>
    link_upd (set (ys @ p # zs)) (tcbs s) m' \<and> m' p = Some t' \<and> tcbSchedNext t' = 0 \<and> tcbSchedPrev t' = 0)"

lemma removedI:
  assumes "tcb_queue_remove queue p s = Some (q', s\<lparr>tcbs := m1(p := Some t')\<rparr>)"
    "is_queue tcbSchedNext tcbSchedPrev m1 (head q') (end_ptr q') (ys @ zs)" "p \<notin> set (ys @ zs)"
    "link_upd (set (ys @ p # zs)) (tcbs s) m1" "m1 p = Some t" "lcore t' = lcore t"
    "tcbSchedNext t' = 0" "tcbSchedPrev t' = 0"
  shows "removed s queue p ys zs"
proof -
  have "is_queue tcbSchedNext tcbSchedPrev (m1(p := Some t')) (head q') (end_ptr q') (ys @ zs)"
    using assms(2,3) by (subst is_queue_frame) auto
  moreover have "link_upd (set (ys @ p # zs)) (tcbs s) (m1(p := Some t'))"
    using assms(4-6) by (intro link_upd_one) auto
  ultimately show ?thesis unfolding removed_def using assms(1,7,8)
    by (intro exI[of _ "m1(p := Some t')"] exI[of _ q'] exI[of _ t']) simp
qed

lemma queue_ends:
  assumes "is_queue nx pv m h e (ys @ p # zs)"
  shows "h = hd (ys @ [p])" "e = last (p # zs)"
  using assms by (cases ys; auto simp: is_queue_def)+

lemma remove_single:
  assumes "is_queue tcbSchedNext tcbSchedPrev (tcbs s) (head queue) (end_ptr queue) [p]" "tcbs s p = Some t"
  shows "removed s queue p [] []"
  using assms by (intro removedI[of _ _ _ "queue\<lparr>head := 0, end_ptr := 0\<rparr>" "tcbs s" t _ _ t])
    (auto simp: tcb_queue_remove_def is_queue_def fun_upd_idem)

lemma remove_first:
  assumes q: "is_queue tcbSchedNext tcbSchedPrev (tcbs s) (head queue) (end_ptr queue) (p # a # zs)" and p: "tcbs s p = Some t"
  shows "removed s queue p [] (a # zs)"
proof -
  have d: "a \<noteq> p" "p \<notin> set zs" "last (p # a # zs) \<noteq> p"
    using q last_in_set[of "a # zs"] by (auto simp: is_queue_def)
  have l: "tcbSchedPrev t = 0" "tcbSchedNext t = a" using q p by (auto simp: is_queue_def)
  obtain ka where ka: "tcbs s a = Some ka" using is_queue_mem[OF q, of a] by auto
  let ?m1 = "(tcbs s)(a := Some (ka\<lparr>tcbSchedPrev := 0\<rparr>))"
  show ?thesis
  proof (rule removedI)
    show "tcb_queue_remove queue p s = Some (queue\<lparr>head := a\<rparr>, s\<lparr>tcbs := ?m1(p := Some (t\<lparr>tcbSchedNext := 0\<rparr>))\<rparr>)"
      using p ka d l queue_ends[of tcbSchedNext tcbSchedPrev "tcbs s" "head queue" "end_ptr queue" "[]" p "a # zs"] q
      by (simp add: tcb_queue_remove_def)
    show "is_queue tcbSchedNext tcbSchedPrev ?m1 (head (queue\<lparr>head := a\<rparr>)) (end_ptr (queue\<lparr>head := a\<rparr>)) ([] @ a # zs)"
      using sched.queue_remove_head[OF q ka] by simp
    show "link_upd (set ([] @ p # a # zs)) (tcbs s) ?m1" using ka by (intro link_upd_one) auto
  qed (use p d l in auto)
qed

lemma remove_last:
  assumes q: "is_queue tcbSchedNext tcbSchedPrev (tcbs s) (head queue) (end_ptr queue) (ys @ [b, p])" and p: "tcbs s p = Some t"
  shows "removed s queue p (ys @ [b]) []"
proof -
  have d: "b \<noteq> p" "p \<notin> set ys" "hd (ys @ [b] @ [p]) \<noteq> p" using q by (cases ys; auto simp: is_queue_def)+
  have l: "tcbSchedPrev t = b" "tcbSchedNext t = 0" using sched.neighbours[of "tcbs s" "ys @ [b]" p "[]" t] q p by (auto simp: is_queue_def)
  obtain kb where kb: "tcbs s b = Some kb" using is_queue_mem[OF q, of b] by auto
  let ?m1 = "(tcbs s)(b := Some (kb\<lparr>tcbSchedNext := 0\<rparr>))"
  show ?thesis
  proof (rule removedI)
    show "tcb_queue_remove queue p s = Some (queue\<lparr>end_ptr := b\<rparr>, s\<lparr>tcbs := ?m1(p := Some (t\<lparr>tcbSchedPrev := 0\<rparr>))\<rparr>)"
      using p kb d l queue_ends[of tcbSchedNext tcbSchedPrev "tcbs s" "head queue" "end_ptr queue" "ys @ [b]" p "[]"] q
      by (simp add: tcb_queue_remove_def)
    show "is_queue tcbSchedNext tcbSchedPrev ?m1 (head (queue\<lparr>end_ptr := b\<rparr>)) (end_ptr (queue\<lparr>end_ptr := b\<rparr>)) ((ys @ [b]) @ [])"
      using sched.queue_remove_last[OF q kb] by simp
    show "link_upd (set ((ys @ [b]) @ p # [])) (tcbs s) ?m1" using kb by (intro link_upd_one) auto
  qed (use p d l in auto)
qed

lemma remove_middle:
  assumes q: "is_queue tcbSchedNext tcbSchedPrev (tcbs s) (head queue) (end_ptr queue) (ys @ [b] @ p # a # zs)" and p: "tcbs s p = Some t"
  shows "removed s queue p (ys @ [b]) (a # zs)"
proof -
  have d: "b \<noteq> p" "a \<noteq> p" "b \<noteq> a" "p \<notin> set ys" "p \<notin> set zs" "hd (ys @ [b] @ [p]) \<noteq> p" "last (p # a # zs) \<noteq> p"
    using q last_in_set[of "a # zs"] by (cases ys; auto simp: is_queue_def)+
  have l: "tcbSchedPrev t = b" "tcbSchedNext t = a"
    using sched.neighbours[of "tcbs s" "ys @ [b]" p "a # zs" t] q p by (auto simp: is_queue_def)
  obtain ka kb where ka: "tcbs s a = Some ka" and kb: "tcbs s b = Some kb" using is_queue_mem[OF q, of a] is_queue_mem[OF q, of b] by auto
  let ?m0 = "(tcbs s)(b := Some (kb\<lparr>tcbSchedNext := a\<rparr>))"
  let ?m1 = "?m0(a := Some (ka\<lparr>tcbSchedPrev := b\<rparr>))"
  show ?thesis
  proof (rule removedI)
    show "tcb_queue_remove queue p s = Some (queue, s\<lparr>tcbs := ?m1(p := Some (t\<lparr>tcbSchedPrev := 0, tcbSchedNext := 0\<rparr>))\<rparr>)"
      using p ka kb d l queue_ends[of tcbSchedNext tcbSchedPrev "tcbs s" "head queue" "end_ptr queue" "ys @ [b]" p "a # zs"] q
      by (simp add: tcb_queue_remove_def)
    show "is_queue tcbSchedNext tcbSchedPrev ?m1 (head queue) (end_ptr queue) ((ys @ [b]) @ a # zs)"
      using sched.queue_remove_middle[OF q kb ka] by simp
    have "link_upd (set ((ys @ [b]) @ p # a # zs)) (tcbs s) ?m0" using kb by (intro link_upd_one) auto
    then show "link_upd (set ((ys @ [b]) @ p # a # zs)) (tcbs s) ?m1" using ka d by (intro link_upd_one[of _ _ ?m0 a ka]) auto
  qed (use p d l in auto)
qed

lemma remove_ok:
  assumes "is_queue tcbSchedNext tcbSchedPrev (tcbs s) (head queue) (end_ptr queue) (ys @ p # zs)" "tcbs s p = Some t"
  shows "removed s queue p ys zs"
proof (cases ys rule: rev_cases)
  case Nil
  then show ?thesis using assms remove_single remove_first by (cases zs) auto
next
  case (snoc ys' b)
  then show ?thesis using assms remove_last[of s queue ys' b p t] remove_middle[of s queue ys' b p _ _ t] by (cases zs) auto
qed

subsection \<open>The ready-queue operations keep the invariant\<close>

lemma nonempty_upd:
  assumes vq: "valid_queues s Q" and t: "valid_tcb s p t"
  shows "nonempty s (Q(qidx s t := xs)) =
    (nonempty s Q)(tcbDomain t := (nonempty s Q (tcbDomain t))(unat (tcbPriority t) := (xs \<noteq> [])))"
proof (intro ext)
  fix d' q
  have lt: "unat (tcbPriority t) < 256" using t by (simp add: valid_tcb_def seL4_MaxPrio_def word_le_nat_alt)
  have "q = unat (tcbPriority t)" "d' = tcbDomain t"
    if "d' < numDomains s" "q < 256" "rqi s d' (of_nat q) = qidx s t"
  proof -
    have "unat (of_nat q :: word_t) = q" using that(2) by (simp add: unat_of_nat)
    moreover have "(of_nat q :: word_t) \<le> seL4_MaxPrio" using that(2) calculation by (simp add: word_le_nat_alt seL4_MaxPrio_def)
    ultimately show "q = unat (tcbPriority t)" "d' = tcbDomain t"
      using rqi_inj[OF vq that(1), of "tcbDomain t" "of_nat q" "tcbPriority t"] that(3) t by (auto simp: valid_tcb_def qidx_def)
  qed
  note inj = this
  have eq: "rqi s (tcbDomain t) (of_nat (unat (tcbPriority t))) = qidx s t" by (simp add: qidx_def)
  show "nonempty s (Q(qidx s t := xs)) d' q =
    ((nonempty s Q)(tcbDomain t := (nonempty s Q (tcbDomain t))(unat (tcbPriority t) := (xs \<noteq> [])))) d' q"
  proof (cases "d' < numDomains s \<and> q < 256 \<and> rqi s d' (of_nat q) = qidx s t")
    case True
    then have "q = unat (tcbPriority t)" "d' = tcbDomain t" using inj by auto
    then show ?thesis using True by (simp add: nonempty_def)
  next
    case False
    then have "\<not> (q = unat (tcbPriority t) \<and> d' = tcbDomain t)" using eq lt t by (auto simp: valid_tcb_def)
    moreover have "nonempty s (Q(qidx s t := xs)) d' q = nonempty s Q d' q" using False by (auto simp: nonempty_def)
    ultimately show ?thesis by auto
  qed
qed

lemma link_upd_core: "link_upd A m m' \<Longrightarrow> map_option core (m' q) = map_option core (m q)"
proof -
  assume "link_upd A m m'"
  then have "map_option lcore (m' q) = map_option lcore (m q)" by (simp add: link_upd_def)
  then show ?thesis by (cases "m' q"; cases "m q") (auto dest: lcore_core)
qed

lemma link_upd_queued: "link_upd A m m' \<Longrightarrow> m q = Some t \<Longrightarrow> m' q = Some t' \<Longrightarrow> tcbQueued t' = tcbQueued t"
proof -
  assume a: "link_upd A m m'" "m q = Some t" "m' q = Some t'"
  have "map_option lcore (m' q) = map_option lcore (m q)" using a(1) by (simp add: link_upd_def)
  then have "lcore t' = lcore t" unfolding a(2,3) by simp
  then show ?thesis by (auto dest: lcore_core)
qed

lemma core_queued [simp]: "core (t\<lparr>tcbQueued := b\<rparr>) = core t"
  by (simp add: core_def)

text \<open>The state after the links, the queue, the bitmaps and the mark of one thread were updated.\<close>

lemma valid_queues_commit:
  assumes vq: "valid_queues s Q" and p: "tcbs s p = Some t" and up: "link_upd (insert p (set (Q (qidx s t)))) (tcbs s) m'"
    and q: "is_queue tcbSchedNext tcbSchedPrev m' (head q') (end_ptr q') xs"
    and t': "m' p = Some t'" "\<not> b \<Longrightarrow> tcbSchedNext t' = 0 \<and> tcbSchedPrev t' = 0"
    and xs: "set xs = (if b then insert p (set (Q (qidx s t))) else set (Q (qidx s t)) - {p})"
    and bm: "bitmap_ok l1 l2 (nonempty s (Q(qidx s t := xs)))"
  defines "s' \<equiv> s\<lparr>tcbs := m'(p := Some (t'\<lparr>tcbQueued := b\<rparr>)), ksReadyQueues := (ksReadyQueues s)(qidx s t := q'),
           ksReadyQueuesL1Bitmap := l1, ksReadyQueuesL2Bitmap := l2\<rparr>"
  shows "valid_queues s' (Q(qidx s t := xs))" "sched_frame s s'"
proof -
  let ?m = "m'(p := Some (t'\<lparr>tcbQueued := b\<rparr>))"
  have "is_queue tcbSchedNext tcbSchedPrev ?m (head q') (end_ptr q') xs"
    using q t'(1) by (subst is_queue_cong[of xs _ _ ?m m']) auto
  moreover have cor: "map_option core (?m r) = map_option core (tcbs s r)" for r
    using link_upd_core[OF up, of r] link_upd_core[OF up, of p] t'(1) by (auto simp: core_def)
  ultimately have "valid_queues (s\<lparr>tcbs := ?m, ksReadyQueues := (ksReadyQueues s)(qidx s t := \<lparr>head = head q', end_ptr = end_ptr q'\<rparr>),
           ksReadyQueuesL1Bitmap := l1, ksReadyQueuesL2Bitmap := l2\<rparr>) (Q(qidx s t := xs))"
    using up link_upd_queued[OF up] t' xs bm
    by (intro valid_queues_step[OF vq p refl, of ?m "head q'" "end_ptr q'" xs "t'\<lparr>tcbQueued := b\<rparr>" b])
      (auto simp: link_upd_def)
  moreover have "\<lparr>head = head q', end_ptr = end_ptr q'\<rparr> = q'" by (cases q') simp
  ultimately show "valid_queues s' (Q(qidx s t := xs))" by (simp add: s'_def)
  show "sched_frame s s'" using cor by (simp add: sched_frame_def s'_def)
qed

lemma unqueued_facts:
  assumes "valid_queues s Q" "tcbs s p = Some t" "\<not> tcbQueued t"
  shows "p \<notin> set (Q i)" "p \<noteq> 0" "tcbSchedNext t = 0" "tcbSchedPrev t = 0"
  using valid_queuesD(2,3)[OF assms(1)] assms(2,3) by (auto simp: valid_tcb_def)

text \<open>The bitmaps once a thread is about to join its queue.\<close>

lemma join_bitmap:
  assumes vq: "valid_queues s Q" and p: "tcbs s p = Some t" and xs: "xs \<noteq> []"
  shows "\<exists>l1 l2. (if tcb_queue_empty (ksReadyQueues s (qidx s t)) then addToBitmap (tcbDomain t) (tcbPriority t) s else Some s) =
      Some (s\<lparr>ksReadyQueuesL1Bitmap := l1, ksReadyQueuesL2Bitmap := l2\<rparr>) \<and>
    bitmap_ok l1 l2 (nonempty s (Q(qidx s t := xs)))"
proof -
  note v = valid_queuesD[OF vq]
  have vt: "valid_tcb s p t" using v(2)[OF p] .
  have up: "nonempty s (Q(qidx s t := xs)) = (nonempty s Q)(tcbDomain t := (nonempty s Q (tcbDomain t))(unat (tcbPriority t) := True))"
    using nonempty_upd[OF vq vt, of xs] xs by simp
  show ?thesis
  proof (cases "Q (qidx s t) = []")
    case True
    then have "tcb_queue_empty (ksReadyQueues s (qidx s t))" using is_queue_empty[OF v(1)] by (simp add: tcb_queue_empty_def)
    then show ?thesis using addToBitmap_ok[OF v(4), of "tcbPriority t" "tcbDomain t"] vt by (simp add: up valid_tcb_def)
  next
    case False
    then have "\<not> tcb_queue_empty (ksReadyQueues s (qidx s t))" using is_queue_empty[OF v(1)] by (simp add: tcb_queue_empty_def)
    moreover have "nonempty s (Q(qidx s t := xs)) = nonempty s Q"
      using False xs by (intro ext) (auto simp: nonempty_def)
    ultimately show ?thesis using v(4)
      by (intro exI[of _ "ksReadyQueuesL1Bitmap s"] exI[of _ "ksReadyQueuesL2Bitmap s"]) simp
  qed
qed

lemma tcbSchedEnqueue_ok:
  assumes vq: "valid_queues s Q" and p: "tcbs s p = Some t" and nq: "\<not> tcbQueued t"
  shows "\<exists>s'. tcbSchedEnqueue p s = Some s' \<and> valid_queues s' (Q(qidx s t := p # Q (qidx s t))) \<and> sched_frame s s'"
proof -
  let ?i = "qidx s t"
  note v = valid_queuesD[OF vq]
  have idx: "ready_queues_index s (tcbDomain t) (tcbPriority t) = Some ?i"
    using ready_queues_index_rqi[OF vq] v(2)[OF p] by (simp add: valid_tcb_def qidx_def)
  obtain l1 l2 where bm: "(if tcb_queue_empty (ksReadyQueues s ?i) then addToBitmap (tcbDomain t) (tcbPriority t) s else Some s) =
      Some (s\<lparr>ksReadyQueuesL1Bitmap := l1, ksReadyQueuesL2Bitmap := l2\<rparr>)" "bitmap_ok l1 l2 (nonempty s (Q(?i := p # Q ?i)))"
    using join_bitmap[OF vq p, of "p # Q ?i"] by auto
  let ?s1 = "s\<lparr>ksReadyQueuesL1Bitmap := l1, ksReadyQueuesL2Bitmap := l2\<rparr>"
  obtain m' q' where pre: "tcb_queue_prepend (ksReadyQueues s ?i) p ?s1 = Some (q', ?s1\<lparr>tcbs := m'\<rparr>)"
      "is_queue tcbSchedNext tcbSchedPrev m' (head q') (end_ptr q') (p # Q ?i)" "link_upd (insert p (set (Q ?i))) (tcbs s) m'"
    using prepend_ok[of ?s1 "ksReadyQueues s ?i" "Q ?i" p t] v(1)[of ?i] p unqueued_facts[OF vq p nq] by auto
  obtain t' where t': "m' p = Some t'" using is_queue_mem[OF pre(2), of p] by auto
  let ?s' = "s\<lparr>tcbs := m'(p := Some (t'\<lparr>tcbQueued := True\<rparr>)), ksReadyQueues := (ksReadyQueues s)(?i := q'),
           ksReadyQueuesL1Bitmap := l1, ksReadyQueuesL2Bitmap := l2\<rparr>"
  have "tcbSchedEnqueue p s = Some ?s'" using t' by (simp add: tcbSchedEnqueue_def p nq idx bm(1) pre(1))
  then show ?thesis using valid_queues_commit[OF vq p pre(3,2) t' _ _ bm(2), of True] by simp
qed

lemma tcbSchedAppend_ok:
  assumes vq: "valid_queues s Q" and p: "tcbs s p = Some t" and nq: "\<not> tcbQueued t"
  shows "\<exists>s'. tcbSchedAppend p s = Some s' \<and> valid_queues s' (Q(qidx s t := Q (qidx s t) @ [p])) \<and> sched_frame s s'"
proof -
  let ?i = "qidx s t"
  note v = valid_queuesD[OF vq]
  have idx: "ready_queues_index s (tcbDomain t) (tcbPriority t) = Some ?i"
    using ready_queues_index_rqi[OF vq] v(2)[OF p] by (simp add: valid_tcb_def qidx_def)
  obtain l1 l2 where bm: "(if tcb_queue_empty (ksReadyQueues s ?i) then addToBitmap (tcbDomain t) (tcbPriority t) s else Some s) =
      Some (s\<lparr>ksReadyQueuesL1Bitmap := l1, ksReadyQueuesL2Bitmap := l2\<rparr>)" "bitmap_ok l1 l2 (nonempty s (Q(?i := Q ?i @ [p])))"
    using join_bitmap[OF vq p, of "Q ?i @ [p]"] by auto
  let ?s1 = "s\<lparr>ksReadyQueuesL1Bitmap := l1, ksReadyQueuesL2Bitmap := l2\<rparr>"
  obtain m' q' where pre: "tcb_queue_append (ksReadyQueues s ?i) p ?s1 = Some (q', ?s1\<lparr>tcbs := m'\<rparr>)"
      "is_queue tcbSchedNext tcbSchedPrev m' (head q') (end_ptr q') (Q ?i @ [p])" "link_upd (insert p (set (Q ?i))) (tcbs s) m'"
    using append_ok[of ?s1 "ksReadyQueues s ?i" "Q ?i" p t] v(1)[of ?i] p unqueued_facts[OF vq p nq] by auto
  obtain t' where t': "m' p = Some t'" using is_queue_mem[OF pre(2), of p] by auto
  let ?s' = "s\<lparr>tcbs := m'(p := Some (t'\<lparr>tcbQueued := True\<rparr>)), ksReadyQueues := (ksReadyQueues s)(?i := q'),
           ksReadyQueuesL1Bitmap := l1, ksReadyQueuesL2Bitmap := l2\<rparr>"
  have "tcbSchedAppend p s = Some ?s'" using t' by (simp add: tcbSchedAppend_def p nq idx bm(1) pre(1))
  then show ?thesis using valid_queues_commit[OF vq p pre(3,2) t' _ _ bm(2), of True] by simp
qed

lemma tcbSchedDequeue_ok:
  assumes vq: "valid_queues s Q" and p: "tcbs s p = Some t" and q: "tcbQueued t"
  shows "\<exists>s'. tcbSchedDequeue p s = Some s' \<and> valid_queues s' (Q(qidx s t := remove1 p (Q (qidx s t)))) \<and> sched_frame s s'"
proof -
  let ?i = "qidx s t"
  note v = valid_queuesD[OF vq]
  have vt: "valid_tcb s p t" using v(2)[OF p] .
  have idx: "ready_queues_index s (tcbDomain t) (tcbPriority t) = Some ?i"
    using ready_queues_index_rqi[OF vq] vt by (simp add: valid_tcb_def qidx_def)
  obtain ys zs where yz: "Q ?i = ys @ p # zs" using v(3)[of p ?i] p q by (auto dest: split_list)
  have iq: "is_queue tcbSchedNext tcbSchedPrev (tcbs s) (head (ksReadyQueues s ?i)) (end_ptr (ksReadyQueues s ?i)) (ys @ p # zs)"
    using v(1)[of ?i] by (simp add: yz)
  have dist: "p \<notin> set ys" "p \<notin> set zs" using iq by (auto simp: is_queue_def)
  have rem: "remove1 p (Q ?i) = ys @ zs" using dist by (simp add: yz remove1_append)
  obtain m' q' t' where rm: "tcb_queue_remove (ksReadyQueues s ?i) p s = Some (q', s\<lparr>tcbs := m'\<rparr>)"
    "is_queue tcbSchedNext tcbSchedPrev m' (head q') (end_ptr q') (ys @ zs)" "link_upd (set (ys @ p # zs)) (tcbs s) m'"
    "m' p = Some t'" "tcbSchedNext t' = 0" "tcbSchedPrev t' = 0"
    using remove_ok[OF iq p] unfolding removed_def by blast
  let ?s1 = "s\<lparr>tcbs := m'(p := Some (t'\<lparr>tcbQueued := False\<rparr>)), ksReadyQueues := (ksReadyQueues s)(?i := q')\<rparr>"
  have up: "link_upd (insert p (set (Q ?i))) (tcbs s) m'" using rm(3) by (simp add: yz insert_commute)
  have emp: "tcb_queue_empty q' \<longleftrightarrow> ys @ zs = []" using is_queue_empty[OF rm(2)] by (simp add: tcb_queue_empty_def)
  have "\<exists>l1 l2. (if tcb_queue_empty q' then removeFromBitmap (tcbDomain t) (tcbPriority t) ?s1 else Some ?s1) =
      Some (?s1\<lparr>ksReadyQueuesL1Bitmap := l1, ksReadyQueuesL2Bitmap := l2\<rparr>) \<and> bitmap_ok l1 l2 (nonempty s (Q(?i := ys @ zs)))"
  proof (cases "ys @ zs = []")
    case True
    then show ?thesis using emp nonempty_upd[OF vq vt, of "[]"] vt
        removeFromBitmap_ok[of ?s1 "nonempty s Q" "tcbPriority t" "tcbDomain t"] v(4) by (simp add: valid_tcb_def)
  next
    case False
    then have "nonempty s (Q(?i := ys @ zs)) = nonempty s Q" by (intro ext) (auto simp: nonempty_def yz)
    moreover have "\<not> tcb_queue_empty q'" using False emp by simp
    ultimately show ?thesis using v(4)
      by (intro exI[of _ "ksReadyQueuesL1Bitmap s"] exI[of _ "ksReadyQueuesL2Bitmap s"]) simp
  qed
  then obtain l1 l2 where bm: "(if tcb_queue_empty q' then removeFromBitmap (tcbDomain t) (tcbPriority t) ?s1 else Some ?s1) =
      Some (?s1\<lparr>ksReadyQueuesL1Bitmap := l1, ksReadyQueuesL2Bitmap := l2\<rparr>)" "bitmap_ok l1 l2 (nonempty s (Q(?i := ys @ zs)))" by blast
  have comm: "s\<lparr>ksReadyQueues := (ksReadyQueues s)(?i := q'), tcbs := m'(p := Some (t'\<lparr>tcbQueued := False\<rparr>))\<rparr> = ?s1" by simp
  have "tcbSchedDequeue p s = Some (?s1\<lparr>ksReadyQueuesL1Bitmap := l1, ksReadyQueuesL2Bitmap := l2\<rparr>)"
    by (simp add: tcbSchedDequeue_def p q idx rm(1,4) comm bm(1) split del: if_split)
  moreover have "set (ys @ zs) = set (Q ?i) - {p}" using dist by (auto simp: yz)
  ultimately show ?thesis using valid_queues_commit[OF vq p up rm(2,4) _ _ bm(2), of False] rm(5,6) unfolding rem by simp
qed

end
