(* ===== verification/KSchedule.thy ===== *)
theory KSchedule
  imports KReady KVSpace
begin

unbundle bit_operations_syntax

text \<open>
  The choice of the next thread, \<^verbatim>\<open>kernel/src/kernel/thread.c\<close>, over the ready queues. The FPU context that
  \<^verbatim>\<open>switchToThread\<close> restores is outside this state. The invariant \<open>valid_sched\<close> adds
  to the well-formed queues that queued threads are runnable and that the scheduler action makes
  sense; every operation succeeds and keeps it, and \<open>schedule\<close> leaves a thread that is not outranked,
  with its address space active.
\<close>

subsection \<open>Scheduling\<close>

definition rescheduleRequired :: "kernel_state \<Rightarrow> kernel_state option" where
  "rescheduleRequired s = do {
     s \<leftarrow> (if ksSchedulerAction s \<noteq> SchedulerAction_ResumeCurrentThread \<and>
              ksSchedulerAction s \<noteq> SchedulerAction_ChooseNewThread
           then tcbSchedEnqueue (ksSchedulerAction s) s else Some s);
     Some (s\<lparr>ksSchedulerAction := SchedulerAction_ChooseNewThread\<rparr>)
   }"

definition possibleSwitchTo :: "ptr \<Rightarrow> kernel_state \<Rightarrow> kernel_state option" where
  "possibleSwitchTo target s = do {
     t \<leftarrow> tcbs s target;
     if ksCurDomain s \<noteq> tcbDomain t then tcbSchedEnqueue target s
     else if ksSchedulerAction s \<noteq> SchedulerAction_ResumeCurrentThread then do {
       s \<leftarrow> rescheduleRequired s;
       tcbSchedEnqueue target s
     }
     else Some (s\<lparr>ksSchedulerAction := target\<rparr>)
   }"

definition scheduleTCB :: "ptr \<Rightarrow> kernel_state \<Rightarrow> kernel_state option" where
  "scheduleTCB tptr s = do {
     r \<leftarrow> isRunnable s tptr;
     if tptr = ksCurThread s \<and> ksSchedulerAction s = SchedulerAction_ResumeCurrentThread \<and> \<not> r
     then rescheduleRequired s else Some s
   }"

definition setThreadState :: "ptr \<Rightarrow> thread_state_type \<Rightarrow> kernel_state \<Rightarrow> kernel_state option" where
  "setThreadState tptr ts s = do {
     s \<leftarrow> upd_tcb tptr (\<lambda>t. t\<lparr>tsType := ts\<rparr>) s;
     scheduleTCB tptr s
   }"

definition setDomain :: "ptr \<Rightarrow> dom_t \<Rightarrow> kernel_state \<Rightarrow> kernel_state option" where
  "setDomain tptr dm s = do {
     s \<leftarrow> tcbSchedDequeue tptr s;
     s \<leftarrow> upd_tcb tptr (\<lambda>t. t\<lparr>tcbDomain := dm\<rparr>) s;
     r \<leftarrow> isRunnable s tptr;
     s \<leftarrow> (if r then tcbSchedEnqueue tptr s else Some s);
     if tptr = ksCurThread s then rescheduleRequired s else Some s
   }"

definition setMCPriority :: "ptr \<Rightarrow> prio_t \<Rightarrow> kernel_state \<Rightarrow> kernel_state option" where
  "setMCPriority tptr mcp s = upd_tcb tptr (\<lambda>t. t\<lparr>tcbMCP := mcp\<rparr>) s"

definition setPriority :: "ptr \<Rightarrow> prio_t \<Rightarrow> kernel_state \<Rightarrow> kernel_state option" where
  "setPriority tptr prio s = do {
     s \<leftarrow> tcbSchedDequeue tptr s;
     s \<leftarrow> upd_tcb tptr (\<lambda>t. t\<lparr>tcbPriority := prio\<rparr>) s;
     r \<leftarrow> isRunnable s tptr;
     if r then (if tptr = ksCurThread s then rescheduleRequired s else possibleSwitchTo tptr s)
     else Some s
   }"

definition switchToThread :: "ptr \<Rightarrow> kernel_state \<Rightarrow> kernel_state option" where
  "switchToThread thread s = do {
     s \<leftarrow> Arch_switchToThread thread s;
     s \<leftarrow> tcbSchedDequeue thread s;
     Some (s\<lparr>ksCurThread := thread\<rparr>)
   }"

definition switchToIdleThread :: "kernel_state \<Rightarrow> kernel_state" where
  "switchToIdleThread s = (Arch_switchToIdleThread s)\<lparr>ksCurThread := ksIdleThread s\<rparr>"

definition chooseThread :: "kernel_state \<Rightarrow> kernel_state option" where
  "chooseThread s =
     (let dm = (if numDomains s > 1 then ksCurDomain s else 0)
      in if ksReadyQueuesL1Bitmap s dm \<noteq> 0 then do {
           prio \<leftarrow> getHighestPrio s dm;
           idx \<leftarrow> ready_queues_index s dm prio;
           let thread = head (ksReadyQueues s idx);
           kassert (thread \<noteq> 0);
           r \<leftarrow> isRunnable s thread;
           kassert r;
           switchToThread thread s
         }
         else Some (switchToIdleThread s))"

definition nextDomain :: "kernel_state \<Rightarrow> kernel_state option" where
  "nextDomain s = do {
     let s = s\<lparr>ksDomScheduleIdx := ksDomScheduleIdx s + 1\<rparr>;
     let s = (if unat (ksDomScheduleIdx s) \<ge> length (ksDomSchedule s) then s\<lparr>ksDomScheduleIdx := 0\<rparr> else s);
     let s = s\<lparr>ksWorkUnitsCompleted := 0\<rparr>;
     kassert (unat (ksDomScheduleIdx s) < length (ksDomSchedule s));
     let s = s\<lparr>ksCurDomain := fst (ksDomSchedule s ! unat (ksDomScheduleIdx s))\<rparr>;
     Some (s\<lparr>ksDomainTime := snd (ksDomSchedule s ! unat (ksDomScheduleIdx s))\<rparr>)
   }"

definition scheduleChooseNewThread :: "kernel_state \<Rightarrow> kernel_state option" where
  "scheduleChooseNewThread s = do {
     s \<leftarrow> (if ksDomainTime s = 0 then nextDomain s else Some s);
     chooseThread s
   }"

text \<open>The branch of \<^verbatim>\<open>schedule\<close> for a thread that another operation proposed to switch to.\<close>

definition scheduleCandidate :: "bool \<Rightarrow> ptr \<Rightarrow> kernel_state \<Rightarrow> kernel_state option" where
  "scheduleCandidate was_runnable candidate s = do {
     r \<leftarrow> isRunnable s candidate;
     kassert r;
     c \<leftarrow> tcbs s candidate;
     t \<leftarrow> tcbs s (ksCurThread s);
     let fastfail = (ksCurThread s = ksIdleThread s \<or> tcbPriority c < tcbPriority t);
     h \<leftarrow> (if fastfail then isHighestPrio s (ksCurDomain s) (tcbPriority c) else Some True);
     if fastfail \<and> \<not> h then do {
       s \<leftarrow> tcbSchedEnqueue candidate s;
       scheduleChooseNewThread (s\<lparr>ksSchedulerAction := SchedulerAction_ChooseNewThread\<rparr>)
     }
     else if was_runnable \<and> tcbPriority c = tcbPriority t then do {
       s \<leftarrow> tcbSchedAppend candidate s;
       scheduleChooseNewThread (s\<lparr>ksSchedulerAction := SchedulerAction_ChooseNewThread\<rparr>)
     }
     else do {
       kassert (candidate \<noteq> ksCurThread s);
       switchToThread candidate s
     }
   }"

definition schedule :: "kernel_state \<Rightarrow> kernel_state option" where
  "schedule s = do {
     s \<leftarrow> (if ksSchedulerAction s \<noteq> SchedulerAction_ResumeCurrentThread then do {
         was_runnable \<leftarrow> isRunnable s (ksCurThread s);
         s \<leftarrow> (if was_runnable then tcbSchedEnqueue (ksCurThread s) s else Some s);
         if ksSchedulerAction s = SchedulerAction_ChooseNewThread then scheduleChooseNewThread s
         else scheduleCandidate was_runnable (ksSchedulerAction s) s
       }
       else Some s);
     Some (s\<lparr>ksSchedulerAction := SchedulerAction_ResumeCurrentThread\<rparr>)
   }"

definition timerTick :: "kernel_state \<Rightarrow> kernel_state option" where
  "timerTick s = do {
     t \<leftarrow> tcbs s (ksCurThread s);
     s \<leftarrow> (if tsType t = ThreadState_Running then
            (if tcbTimeSlice t > 1
             then upd_tcb (ksCurThread s) (\<lambda>t. t\<lparr>tcbTimeSlice := tcbTimeSlice t - 1\<rparr>) s
             else do {
               s \<leftarrow> upd_tcb (ksCurThread s) (\<lambda>t. t\<lparr>tcbTimeSlice := CONFIG_TIME_SLICE\<rparr>) s;
               s \<leftarrow> tcbSchedAppend (ksCurThread s) s;
               rescheduleRequired s
             })
          else Some s);
     if numDomains s > 1 then do {
       let s = s\<lparr>ksDomainTime := ksDomainTime s - 1\<rparr>;
       if ksDomainTime s = 0 then rescheduleRequired s else Some s
     }
     else Some s
   }"

subsection \<open>The queues as a set of threads\<close>

definition valid_q :: "kernel_state \<Rightarrow> bool" where
  "valid_q s \<longleftrightarrow> (\<exists>Q. valid_queues s Q)"

definition qset :: "kernel_state \<Rightarrow> ptr set" where
  "qset s = {p. \<exists>t. tcbs s p = Some t \<and> tcbQueued t}"

lemma qset_queues: "valid_queues s Q \<Longrightarrow> qset s = (\<Union>i. set (Q i))"
  using valid_queuesD(3)[of s Q] by (auto simp: qset_def)

lemma qset_step: "valid_queues s Q \<Longrightarrow> p \<notin> (\<Union>j\<in>-{i}. set (Q j)) \<Longrightarrow> valid_queues s' (Q(i := xs)) \<Longrightarrow>
    set xs = insert p (set (Q i)) \<Longrightarrow> qset s' = insert p (qset s)"
  unfolding qset_queues by (auto split: if_splits)

lemma other_queue:
  "valid_queues s Q \<Longrightarrow> tcbs s p = Some t \<Longrightarrow> i \<noteq> qidx s t \<Longrightarrow> p \<notin> set (Q i)"
  using valid_queuesD(3)[of s Q p i] by auto

lemma tcbSchedEnqueue_wp:
  assumes "valid_q s" "tcbs s p = Some t"
  shows "succeeds (tcbSchedEnqueue p s) (\<lambda>s'. valid_q s' \<and> sched_frame s s' \<and> qset s' = insert p (qset s))"
proof -
  obtain Q where vq: "valid_queues s Q" using assms(1) by (auto simp: valid_q_def)
  show ?thesis
  proof (cases "tcbQueued t")
    case True
    then have "qset s = insert p (qset s)" using assms(2) by (auto simp: qset_def)
    then show ?thesis using True assms by (simp add: tcbSchedEnqueue_def)
  next
    case False
    obtain s' where s': "tcbSchedEnqueue p s = Some s'" "valid_queues s' (Q(qidx s t := p # Q (qidx s t)))" "sched_frame s s'"
      using tcbSchedEnqueue_ok[OF vq assms(2) False] by blast
    then show ?thesis using qset_step[OF vq _ s'(2), of p] other_queue[OF vq assms(2)] by (auto simp: valid_q_def)
  qed
qed

lemma tcbSchedAppend_wp:
  assumes "valid_q s" "tcbs s p = Some t"
  shows "succeeds (tcbSchedAppend p s) (\<lambda>s'. valid_q s' \<and> sched_frame s s' \<and> qset s' = insert p (qset s))"
proof -
  obtain Q where vq: "valid_queues s Q" using assms(1) by (auto simp: valid_q_def)
  show ?thesis
  proof (cases "tcbQueued t")
    case True
    then have "qset s = insert p (qset s)" using assms(2) by (auto simp: qset_def)
    then show ?thesis using True assms by (simp add: tcbSchedAppend_def)
  next
    case False
    obtain s' where s': "tcbSchedAppend p s = Some s'" "valid_queues s' (Q(qidx s t := Q (qidx s t) @ [p]))" "sched_frame s s'"
      using tcbSchedAppend_ok[OF vq assms(2) False] by blast
    then show ?thesis using qset_step[OF vq _ s'(2), of p] other_queue[OF vq assms(2)] by (auto simp: valid_q_def)
  qed
qed

lemma tcbSchedDequeue_wp:
  assumes "valid_q s" "tcbs s p = Some t"
  shows "succeeds (tcbSchedDequeue p s) (\<lambda>s'. valid_q s' \<and> sched_frame s s' \<and> qset s' = qset s - {p})"
proof -
  obtain Q where vq: "valid_queues s Q" using assms(1) by (auto simp: valid_q_def)
  show ?thesis
  proof (cases "tcbQueued t")
    case False
    then have "qset s = qset s - {p}" using assms(2) by (auto simp: qset_def)
    then show ?thesis using False assms by (simp add: tcbSchedDequeue_def)
  next
    case True
    obtain s' where s': "tcbSchedDequeue p s = Some s'" "valid_queues s' (Q(qidx s t := remove1 p (Q (qidx s t))))" "sched_frame s s'"
      using tcbSchedDequeue_ok[OF vq assms(2) True] by blast
    have "distinct (Q (qidx s t))" using valid_queuesD(1)[OF vq] by (auto simp: is_queue_def)
    then have "qset s' = qset s - {p}" using other_queue[OF vq assms(2)] unfolding qset_queues[OF vq] qset_queues[OF s'(2)]
      by (auto split: if_splits)
    then show ?thesis using s' by (auto simp: valid_q_def)
  qed
qed

text \<open>Updates outside the queues.\<close>

lemma valid_q_upd_tcb:
  assumes "valid_q s" "tcbs s p = Some t" "tcbSchedNext t' = tcbSchedNext t" "tcbSchedPrev t' = tcbSchedPrev t"
    "tcbQueued t' = tcbQueued t" "tcbDomain t' < numDomains s" "tcbPriority t' \<le> seL4_MaxPrio"
    "\<not> tcbQueued t \<or> tcbDomain t' = tcbDomain t \<and> tcbPriority t' = tcbPriority t"
  shows "valid_q (s\<lparr>tcbs := (tcbs s)(p := Some t')\<rparr>)" "qset (s\<lparr>tcbs := (tcbs s)(p := Some t')\<rparr>) = qset s"
proof -
  let ?s = "s\<lparr>tcbs := (tcbs s)(p := Some t')\<rparr>"
  obtain Q where vq: "valid_queues s Q" using assms(1) by (auto simp: valid_q_def)
  note v = valid_queuesD[OF vq]
  have idx: "qidx ?s = qidx s" "rqi ?s = rqi s" by (intro ext; simp add: qidx_def rqi_def)+
  have n: "nonempty ?s Q = nonempty s Q" by (intro ext) (simp add: nonempty_def idx)
  have q: "qidx s t' = qidx s t" if "tcbQueued t" using assms(8) that by (simp add: qidx_def)
  have "is_queue tcbSchedNext tcbSchedPrev (tcbs ?s) h e (Q i) = is_queue tcbSchedNext tcbSchedPrev (tcbs s) h e (Q i)" for h e i
    using assms(2-4) by (intro is_queue_cong) auto
  moreover have "valid_tcb ?s q u" if "tcbs ?s q = Some u" for q u
    using that v(2)[of q u] v(2)[OF assms(2)] assms(3-7) by (auto simp: valid_tcb_def split: if_splits)
  moreover have "p' \<in> set (Q i) \<longleftrightarrow> (\<exists>t. tcbs ?s p' = Some t \<and> tcbQueued t \<and> qidx s t = i)" for i p'
  proof (cases "p' = p")
    case True
    then have "(\<exists>t. tcbs ?s p' = Some t \<and> tcbQueued t \<and> qidx s t = i) \<longleftrightarrow> tcbQueued t \<and> qidx s t = i"
      using assms(5) q by (cases "tcbQueued t") simp_all
    then show ?thesis using v(3)[of p i] assms(2) True by simp
  qed (use v(3)[of p' i] in simp)
  ultimately have "valid_queues ?s Q" unfolding valid_queues_def idx n using v(1,4-6) by simp
  then show "valid_q ?s" by (auto simp: valid_q_def)
  show "qset ?s = qset s" using assms(2,5) by (auto simp: qset_def)
qed

subsection \<open>The invariant of the scheduler\<close>

lemma actions_differ [simp]:
  "SchedulerAction_ChooseNewThread \<noteq> SchedulerAction_ResumeCurrentThread"
  "SchedulerAction_ResumeCurrentThread \<noteq> SchedulerAction_ChooseNewThread"
  by (simp_all add: SchedulerAction_ResumeCurrentThread_def SchedulerAction_ChooseNewThread_def)

definition runnable :: "kernel_state \<Rightarrow> ptr \<Rightarrow> bool" where
  "runnable s p \<longleftrightarrow> isRunnable s p = Some True"

definition valid_dom :: "kernel_state \<Rightarrow> bool" where
  "valid_dom s \<longleftrightarrow> ksCurDomain s < numDomains s \<and> unat (ksDomScheduleIdx s) < length (ksDomSchedule s) \<and>
     length (ksDomSchedule s) < 2 ^ 64 \<and>
     (\<forall>e\<in>set (ksDomSchedule s). fst e < numDomains s)"

text \<open>
  \<open>base_sched A\<close>: the queues are well formed, every queued thread outside \<open>A\<close> is runnable, the domain
  schedule names domains that exist, the current and the idle thread exist, and every thread has its own
  slots.
\<close>

definition thread_slots :: "kernel_state \<Rightarrow> bool" where
  "thread_slots s \<longleftrightarrow> (\<forall>p i. tcbs s p \<noteq> None \<and> i < tcbCNodeEntries \<longrightarrow> ctes s (TCB_PTR_CTE_PTR p i) \<noteq> None)"

definition base_sched :: "ptr set \<Rightarrow> kernel_state \<Rightarrow> bool" where
  "base_sched A s \<longleftrightarrow> valid_q s \<and> tcbs s 1 = None \<and> (\<forall>p\<in>qset s - A. runnable s p) \<and> valid_dom s \<and>
     tcbs s (ksCurThread s) \<noteq> None \<and> map_option tsType (tcbs s (ksIdleThread s)) = Some ThreadState_IdleThreadState \<and> thread_slots s"

text \<open>
  The scheduler action: a resumed thread is runnable or the idle thread, is in no queue and its address
  space is active; a
  candidate is runnable, in no queue, of the current domain and not the current thread.
\<close>

definition vm_current :: "kernel_state \<Rightarrow> bool" where
  "vm_current s \<longleftrightarrow> ttbr (ksArch s) = (if ksCurThread s = ksIdleThread s then (0, armKSGlobalUserVSpace (ksArch s)) else vm_root s (ksCurThread s))"

lemma vm_current_cong:
  "ctes s' = ctes s \<Longrightarrow> ksArch s' = ksArch s \<Longrightarrow> ksCurThread s' = ksCurThread s \<Longrightarrow> ksIdleThread s' = ksIdleThread s \<Longrightarrow> vm_current s' = vm_current s"
  using vm_root_cong[of s' s] by (simp add: vm_current_def)

lemma vm_current_irrelevant [simp]:
  "vm_current (s\<lparr>ksSchedulerAction := a\<rparr>) = vm_current s" "vm_current (s\<lparr>ksDomainTime := x\<rparr>) = vm_current s"
  "vm_current (s\<lparr>tcbs := m\<rparr>) = vm_current s"
  by (rule vm_current_cong; simp)+

lemma vm_current_frame: "sched_frame s s' \<Longrightarrow> vm_current s' = vm_current s"
  by (rule vm_current_cong) (simp_all add: sched_frame_def)

definition valid_action :: "kernel_state \<Rightarrow> bool" where
  "valid_action s \<longleftrightarrow>
     (ksSchedulerAction s = SchedulerAction_ResumeCurrentThread \<longrightarrow>
        ksCurThread s \<notin> qset s \<and> (runnable s (ksCurThread s) \<or> ksCurThread s = ksIdleThread s) \<and> vm_current s) \<and>
     (ksSchedulerAction s \<noteq> SchedulerAction_ResumeCurrentThread \<and> ksSchedulerAction s \<noteq> SchedulerAction_ChooseNewThread \<longrightarrow>
        runnable s (ksSchedulerAction s) \<and> ksSchedulerAction s \<notin> qset s \<and> ksSchedulerAction s \<noteq> ksCurThread s \<and>
        map_option tcbDomain (tcbs s (ksSchedulerAction s)) = Some (ksCurDomain s))"

definition valid_sched :: "kernel_state \<Rightarrow> bool" where
  "valid_sched s \<longleftrightarrow> base_sched {} s \<and> valid_action s"

lemma runnable_tcb: "runnable s p \<longleftrightarrow> (\<exists>t. tcbs s p = Some t \<and> runnable_type (tsType t))"
  by (auto simp: runnable_def isRunnable_def)

lemma runnable_frame: "sched_frame s s' \<Longrightarrow> runnable s' p = runnable s p"
proof -
  assume "sched_frame s s'"
  then have "map_option core (tcbs s' p) = map_option core (tcbs s p)" by (simp add: sched_frame_def)
  then show ?thesis by (cases "tcbs s' p"; cases "tcbs s p") (auto simp: runnable_tcb dest: core_fields)
qed

lemma sched_frame_field:
  assumes "sched_frame s s'" "\<And>t t'. core t = core t' \<Longrightarrow> f t = f t'"
  shows "map_option f (tcbs s' p) = map_option f (tcbs s p)"
proof -
  have "map_option core (tcbs s' p) = map_option core (tcbs s p)" using assms(1) by (simp add: sched_frame_def)
  then show ?thesis by (cases "tcbs s' p"; cases "tcbs s p") (auto intro: assms(2))
qed

lemma sched_frame_None: "sched_frame s s' \<Longrightarrow> tcbs s' p = None \<longleftrightarrow> tcbs s p = None"
  using sched_frame_field[of s s' "\<lambda>_. ()" p] by auto

lemma idle_not_queued: "base_sched A s \<Longrightarrow> ksIdleThread s \<notin> A \<Longrightarrow> ksIdleThread s \<notin> qset s"
  by (force simp: base_sched_def runnable_tcb)

lemma thread_slots_frame: "sched_frame s s' \<Longrightarrow> thread_slots s \<Longrightarrow> thread_slots s'"
  using sched_frame_None[of s s'] unfolding thread_slots_def by (simp add: sched_frame_def)

lemma thread_slots_upd [simp]:
  "tcbs s p \<noteq> None \<Longrightarrow> thread_slots (s\<lparr>tcbs := (tcbs s)(p := Some t)\<rparr>) = thread_slots s"
  by (auto simp: thread_slots_def)

lemma thread_slots_irrelevant [simp]:
  "thread_slots (s\<lparr>ksSchedulerAction := a\<rparr>) = thread_slots s" "thread_slots (s\<lparr>ksCurThread := a\<rparr>) = thread_slots s"
  "thread_slots (s\<lparr>ksDomainTime := x\<rparr>) = thread_slots s" "thread_slots (s\<lparr>ksCurDomain := x\<rparr>) = thread_slots s"
  "thread_slots (s\<lparr>ksDomScheduleIdx := x\<rparr>) = thread_slots s" "thread_slots (s\<lparr>ksWorkUnitsCompleted := x\<rparr>) = thread_slots s"
  "thread_slots (s\<lparr>ksArch := y\<rparr>) = thread_slots s"
  by (simp_all add: thread_slots_def)

lemma runnable_not_idle: "base_sched A s \<Longrightarrow> runnable s p \<Longrightarrow> p \<noteq> ksIdleThread s"
  by (auto simp: base_sched_def runnable_tcb)

lemma base_sched_frame:
  assumes "base_sched A s" "sched_frame s s'" "valid_q s'" "\<forall>p\<in>qset s' - A'. runnable s p"
  shows "base_sched A' s'"
proof -
  note f = sched_frame_fields[OF assms(2)]
  have "map_option tsType (tcbs s' (ksIdleThread s)) = map_option tsType (tcbs s (ksIdleThread s))"
    by (rule sched_frame_field[OF assms(2) core_fields(1)])
  then show ?thesis using assms(1,3,4) sched_frame_None[OF assms(2)] runnable_frame[OF assms(2)] thread_slots_frame[OF assms(2)]
    unfolding base_sched_def valid_dom_def f by auto
qed

lemma valid_q_irrelevant [simp]:
  "valid_q (s\<lparr>ksSchedulerAction := a\<rparr>) = valid_q s" "qset (s\<lparr>ksSchedulerAction := a\<rparr>) = qset s"
  "valid_q (s\<lparr>ksCurThread := a\<rparr>) = valid_q s" "qset (s\<lparr>ksCurThread := a\<rparr>) = qset s"
  "valid_q (s\<lparr>ksDomainTime := a\<rparr>) = valid_q s" "qset (s\<lparr>ksDomainTime := a\<rparr>) = qset s"
  "valid_q (s\<lparr>ksCurDomain := a\<rparr>) = valid_q s" "qset (s\<lparr>ksCurDomain := a\<rparr>) = qset s"
  "valid_q (s\<lparr>ksDomScheduleIdx := a\<rparr>) = valid_q s" "qset (s\<lparr>ksDomScheduleIdx := a\<rparr>) = qset s"
  "valid_q (s\<lparr>ksWorkUnitsCompleted := a\<rparr>) = valid_q s" "qset (s\<lparr>ksWorkUnitsCompleted := a\<rparr>) = qset s"
  "valid_q (s\<lparr>ksArch := y\<rparr>) = valid_q s" "qset (s\<lparr>ksArch := y\<rparr>) = qset s"
  by (simp_all add: valid_q_def valid_queues_def qset_def valid_tcb_def qidx_def rqi_def nonempty_def[abs_def] )

lemma runnable_irrelevant [simp]:
  "runnable (s\<lparr>ksSchedulerAction := a\<rparr>) p = runnable s p" "runnable (s\<lparr>ksCurThread := a\<rparr>) p = runnable s p"
  "runnable (s\<lparr>ksDomainTime := x\<rparr>) p = runnable s p" "runnable (s\<lparr>ksCurDomain := x\<rparr>) p = runnable s p"
  "runnable (s\<lparr>ksDomScheduleIdx := x\<rparr>) p = runnable s p" "runnable (s\<lparr>ksWorkUnitsCompleted := x\<rparr>) p = runnable s p"
  "runnable (s\<lparr>ksArch := y\<rparr>) p = runnable s p"
  by (simp_all add: runnable_tcb)

lemma base_sched_irrelevant [simp]:
  "base_sched A (s\<lparr>ksSchedulerAction := a\<rparr>) = base_sched A s" "base_sched A (s\<lparr>ksDomainTime := x\<rparr>) = base_sched A s"
  "base_sched A (s\<lparr>ksArch := y\<rparr>) = base_sched A s"
  by (simp_all add: base_sched_def valid_dom_def)

text \<open>The effect of an operation that only moves threads between queues and sets the scheduler action.\<close>

definition action_frame :: "kernel_state \<Rightarrow> kernel_state \<Rightarrow> bool" where
  "action_frame s s' \<longleftrightarrow> sched_frame (s\<lparr>ksSchedulerAction := ksSchedulerAction s'\<rparr>) s'"

lemma action_frame_sched: "sched_frame s s' \<Longrightarrow> action_frame s s'"
  by (simp add: action_frame_def sched_frame_def)

lemma action_frame_set: "action_frame s s' \<Longrightarrow> action_frame s (s'\<lparr>ksSchedulerAction := a\<rparr>)"
  by (simp add: action_frame_def sched_frame_def)

lemma action_frame_refl [simp]: "action_frame s s"
  by (simp add: action_frame_def sched_frame_def)

lemma action_frame_trans: "action_frame s s' \<Longrightarrow> action_frame s' s'' \<Longrightarrow> action_frame s s''"
  by (simp add: action_frame_def sched_frame_def)

lemma action_frame_fields:
  assumes "action_frame s s'"
  shows "ksCurThread s' = ksCurThread s" "ksIdleThread s' = ksIdleThread s" "ksCurDomain s' = ksCurDomain s"
    "ksDomainTime s' = ksDomainTime s" "numDomains s' = numDomains s" "runnable s' p = runnable s p"
    "map_option tcbDomain (tcbs s' p) = map_option tcbDomain (tcbs s p)" "tcbs s' p = None \<longleftrightarrow> tcbs s p = None"
    "map_option tcbPriority (tcbs s' p) = map_option tcbPriority (tcbs s p)"
    "eps s' = eps s" "ntfns s' = ntfns s" "ctes s' = ctes s"
proof -
  let ?s = "s\<lparr>ksSchedulerAction := ksSchedulerAction s'\<rparr>"
  have f: "sched_frame ?s s'" using assms by (simp add: action_frame_def)
  show "ksCurThread s' = ksCurThread s" "ksIdleThread s' = ksIdleThread s" "ksCurDomain s' = ksCurDomain s"
    "ksDomainTime s' = ksDomainTime s" "numDomains s' = numDomains s" "eps s' = eps s" "ntfns s' = ntfns s" "ctes s' = ctes s"
    using sched_frame_fields[OF f] by simp_all
  show "runnable s' p = runnable s p" using runnable_frame[OF f] by simp
  show "map_option tcbDomain (tcbs s' p) = map_option tcbDomain (tcbs s p)"
    using sched_frame_field[OF f core_fields(2), where p = p] by simp
  show "map_option tcbPriority (tcbs s' p) = map_option tcbPriority (tcbs s p)"
    using sched_frame_field[OF f core_fields(3), where p = p] by simp
  show "tcbs s' p = None \<longleftrightarrow> tcbs s p = None" using sched_frame_None[OF f, of p] by simp
qed

subsection \<open>Operations keep the invariant\<close>

lemma rescheduleRequired_wp:
  assumes b: "base_sched A s"
    and r: "ksSchedulerAction s \<noteq> SchedulerAction_ResumeCurrentThread \<Longrightarrow> ksSchedulerAction s \<noteq> SchedulerAction_ChooseNewThread \<Longrightarrow>
      runnable s (ksSchedulerAction s)"
  shows "succeeds (rescheduleRequired s) (\<lambda>s'. base_sched A s' \<and> action_frame s s' \<and>
    ksSchedulerAction s' = SchedulerAction_ChooseNewThread \<and> qset s \<subseteq> qset s' \<and> qset s' \<subseteq> insert (ksSchedulerAction s) (qset s))"
proof (cases "ksSchedulerAction s \<noteq> SchedulerAction_ResumeCurrentThread \<and> ksSchedulerAction s \<noteq> SchedulerAction_ChooseNewThread")
  case True
  obtain t where t: "tcbs s (ksSchedulerAction s) = Some t" using r True by (auto simp: runnable_tcb)
  have vq: "valid_q s" using b by (simp add: base_sched_def)
  show ?thesis unfolding rescheduleRequired_def using True
  proof (simp, intro succeeds_mono[OF tcbSchedEnqueue_wp[OF vq t]], elim conjE)
    fix s' assume a: "valid_q s'" "sched_frame s s'" "qset s' = insert (ksSchedulerAction s) (qset s)"
    have "base_sched A s'" using a r True b by (intro base_sched_frame[OF b a(2,1)]) (auto simp: base_sched_def)
    then show "base_sched A s' \<and> action_frame s (s'\<lparr>ksSchedulerAction := SchedulerAction_ChooseNewThread\<rparr>) \<and> qset s \<subseteq> qset s' \<and>
        qset s' \<subseteq> insert (ksSchedulerAction s) (qset s)"
      using a by (auto intro: action_frame_set action_frame_sched)
  qed
next
  case False
  then show ?thesis using b by (auto simp: rescheduleRequired_def intro: action_frame_set)
qed

lemma valid_action_choose: "ksSchedulerAction s = SchedulerAction_ChooseNewThread \<Longrightarrow> valid_action s"
  by (simp add: valid_action_def)

lemma rescheduleRequired_sched:
  assumes "base_sched {} s" "valid_action s \<or> ksSchedulerAction s = SchedulerAction_ResumeCurrentThread"
  shows "succeeds (rescheduleRequired s) (\<lambda>s'. valid_sched s' \<and> action_frame s s' \<and>
    ksSchedulerAction s' = SchedulerAction_ChooseNewThread \<and> qset s \<subseteq> qset s' \<and> qset s' \<subseteq> insert (ksSchedulerAction s) (qset s))"
  using assms by (intro succeeds_mono[OF rescheduleRequired_wp[OF assms(1)]])
    (auto simp: valid_sched_def valid_action_def intro: valid_action_choose)

subsection \<open>Choosing the next thread\<close>

text \<open>No thread in the queues of the current domain outranks \<open>c\<close>.\<close>

definition top_thread :: "kernel_state \<Rightarrow> ptr \<Rightarrow> bool" where
  "top_thread s c \<longleftrightarrow> (\<forall>p t. tcbs s p = Some t \<and> tcbQueued t \<and> tcbDomain t = ksCurDomain s \<longrightarrow>
     (\<exists>u. tcbs s c = Some u \<and> runnable_type (tsType u) \<and> tcbDomain u = ksCurDomain s \<and> tcbPriority t \<le> tcbPriority u))"

text \<open>The highest priority of a domain with a queued thread, and the head of its queue.\<close>

lemma highest_queue:
  assumes vq: "valid_queues s Q" and d: "d < numDomains s" and nz: "ksReadyQueuesL1Bitmap s d \<noteq> 0"
  shows "\<exists>h x t. getHighestPrio s d = Some h \<and> ready_queues_index s d h = Some (rqi s d h) \<and>
    x = hd (Q (rqi s d h)) \<and> head (ksReadyQueues s (rqi s d h)) = x \<and> x \<noteq> 0 \<and>
    tcbs s x = Some t \<and> tcbQueued t \<and> tcbDomain t = d \<and> tcbPriority t = h \<and>
    (\<forall>q u. tcbs s q = Some u \<and> tcbQueued u \<and> tcbDomain u = d \<longrightarrow> tcbPriority u \<le> h)"
proof -
  note v = valid_queuesD[OF vq]
  obtain h where h: "getHighestPrio s d = Some h" "unat h < 256" "nonempty s Q d (unat h)"
      "\<forall>p<256. nonempty s Q d p \<longrightarrow> p \<le> unat h"
    using getHighestPrio_ok(2)[OF v(4) nz] by blast
  have ne: "Q (rqi s d h) \<noteq> []" using h(3) by (simp add: nonempty_def)
  have hm: "h \<le> seL4_MaxPrio" using h(2) by (simp add: word_le_nat_alt seL4_MaxPrio_def)
  let ?x = "hd (Q (rqi s d h))"
  have mem: "?x \<in> set (Q (rqi s d h))" using ne by simp
  obtain t where t: "tcbs s ?x = Some t" "tcbQueued t" "qidx s t = rqi s d h" using v(3)[of ?x "rqi s d h"] mem by auto
  have vt: "valid_tcb s ?x t" using v(2)[OF t(1)] .
  have dt: "tcbDomain t = d" "tcbPriority t = h"
    using rqi_inj[OF vq _ d _ hm, of "tcbDomain t" "tcbPriority t"] vt t(3) by (auto simp: valid_tcb_def qidx_def)
  have hd: "head (ksReadyQueues s (rqi s d h)) = ?x"
    using v(1)[of "rqi s d h"] ne is_queue_head[of tcbSchedNext tcbSchedPrev "tcbs s"] by (cases "Q (rqi s d h)") auto
  have "tcbPriority u \<le> h" if u: "tcbs s q = Some u" "tcbQueued u" "tcbDomain u = d" for q u
  proof -
    have vu: "valid_tcb s q u" using v(2)[OF u(1)] .
    have "q \<in> set (Q (qidx s u))" using v(3)[of q "qidx s u"] u by auto
    then have "nonempty s Q d (unat (tcbPriority u))"
      using d u(3) vu by (auto simp: nonempty_def qidx_def valid_tcb_def seL4_MaxPrio_def word_le_nat_alt)
    then have "unat (tcbPriority u) \<le> unat h" using h(4) vu by (auto simp: valid_tcb_def seL4_MaxPrio_def word_le_nat_alt)
    then show ?thesis by (simp add: word_le_nat_alt)
  qed
  moreover have "?x \<noteq> 0" using vt by (simp add: valid_tcb_def)
  ultimately show ?thesis using h(1) ready_queues_index_rqi[OF vq d] t hd dt by blast
qed

lemma no_queue:
  assumes vq: "valid_queues s Q" and nz: "ksReadyQueuesL1Bitmap s d = 0"
    and t: "tcbs s p = Some t" "tcbQueued t" "tcbDomain t = d"
  shows False
proof -
  note v = valid_queuesD[OF vq]
  have vt: "valid_tcb s p t" using v(2)[OF t(1)] .
  have "p \<in> set (Q (qidx s t))" using v(3)[of p "qidx s t"] t by auto
  then have "nonempty s Q d (unat (tcbPriority t))" "unat (tcbPriority t) < 256"
    using t(3) vt by (auto simp: nonempty_def qidx_def valid_tcb_def seL4_MaxPrio_def word_le_nat_alt)
  then show False using getHighestPrio_ok(1)[OF v(4), of d] nz by blast
qed

lemma switchToThread_wp:
  assumes b: "base_sched A s" and t: "tcbs s p = Some t"
  shows "succeeds (switchToThread p s) (\<lambda>s'. base_sched (A - {p}) s' \<and> ksCurThread s' = p \<and> qset s' = qset s - {p} \<and>
    sched_frame s (s'\<lparr>ksCurThread := ksCurThread s, ksArch := ksArch s\<rparr>) \<and> ksArch s' = (ksArch s)\<lparr>ttbr := vm_root s p\<rparr>)"
proof -
  let ?a = "(ksArch s)\<lparr>ttbr := vm_root s p\<rparr>"
  let ?r = "s\<lparr>ksArch := ?a\<rparr>"
  have b': "base_sched A ?r" using b by simp
  then have vq: "valid_q ?r" by (simp add: base_sched_def)
  have t': "tcbs ?r p = Some t" using t by simp
  have "ctes s (TCB_PTR_CTE_PTR p tcbVTable) \<noteq> None"
    using b t by (auto simp: base_sched_def thread_slots_def tcbVTable_def tcbCNodeEntries_def)
  then have e: "Arch_switchToThread p s = Some ?r" unfolding Arch_switchToThread_def by (rule setVMRoot_eq)
  have "succeeds (switchToThread p s) P = succeeds (tcbSchedDequeue p ?r) (\<lambda>s'. P (s'\<lparr>ksCurThread := p\<rparr>))" for P
    unfolding switchToThread_def e by simp
  then show ?thesis
  proof (simp only:, intro succeeds_mono[OF tcbSchedDequeue_wp[OF vq t']], elim conjE)
    fix s' assume a: "valid_q s'" "sched_frame ?r s'" "qset s' = qset ?r - {p}"
    have "base_sched (A - {p}) s'" using b' a(3) by (intro base_sched_frame[OF b' a(2,1)]) (auto simp: base_sched_def)
    then have "base_sched (A - {p}) (s'\<lparr>ksCurThread := p\<rparr>)"
      using t' sched_frame_None[OF a(2), of p] by (simp add: base_sched_def valid_dom_def)
    moreover have "sched_frame s (s'\<lparr>ksCurThread := ksCurThread s, ksArch := ksArch s\<rparr>)" using a(2) by (simp add: sched_frame_def)
    moreover have "ksArch s' = ?a" using a(2) by (simp add: sched_frame_def)
    ultimately show "base_sched (A - {p}) (s'\<lparr>ksCurThread := p\<rparr>) \<and> ksCurThread (s'\<lparr>ksCurThread := p\<rparr>) = p \<and>
        qset (s'\<lparr>ksCurThread := p\<rparr>) = qset s - {p} \<and>
        sched_frame s (s'\<lparr>ksCurThread := p, ksCurThread := ksCurThread s, ksArch := ksArch s\<rparr>) \<and>
        ksArch (s'\<lparr>ksCurThread := p\<rparr>) = ?a" using a(3) by simp
  qed
qed

lemma switched_vm_current:
  assumes "sched_frame s (s'\<lparr>ksCurThread := ksCurThread s, ksArch := ksArch s\<rparr>)" "ksArch s' = (ksArch s)\<lparr>ttbr := vm_root s p\<rparr>"
    "ksCurThread s' = p" "p \<noteq> ksIdleThread s"
  shows "vm_current s'"
proof -
  have f: "ctes s' = ctes s" "ksIdleThread s' = ksIdleThread s" using assms(1) by (auto simp: sched_frame_def)
  then have "vm_root s' p = vm_root s p" using assms(2) by (intro vm_root_cong) auto
  then show ?thesis using assms f by (simp add: vm_current_def)
qed

text \<open>What holds of the thread the scheduler leaves as the current one.\<close>

definition scheduled :: "kernel_state \<Rightarrow> bool" where
  "scheduled s \<longleftrightarrow> base_sched {} s \<and> ksCurThread s \<notin> qset s \<and> (runnable s (ksCurThread s) \<or> ksCurThread s = ksIdleThread s) \<and> vm_current s"

lemma chooseThread_wp:
  assumes b: "base_sched {} s"
  shows "succeeds (chooseThread s) (\<lambda>s'. scheduled s' \<and> top_thread s' (ksCurThread s') \<and>
    sched_frame s (s'\<lparr>ksCurThread := ksCurThread s, ksArch := ksArch s\<rparr>) \<and> qset s' = qset s - {ksCurThread s'} \<and>
    (if ksReadyQueuesL1Bitmap s (ksCurDomain s) = 0 then ksCurThread s' = ksIdleThread s else ksCurThread s' \<in> qset s))"
proof -
  obtain Q where vq: "valid_queues s Q" using b by (auto simp: base_sched_def valid_q_def)
  note v = valid_queuesD[OF vq]
  have d: "ksCurDomain s < numDomains s" using b by (simp add: base_sched_def valid_dom_def)
  have "(if numDomains s > 1 then ksCurDomain s else 0) = ksCurDomain s"
  proof (cases "numDomains s > 1")
    case False
    then have "numDomains s = 1" using v(5) by (simp add: not_less order_antisym)
    then show ?thesis using d False by (simp add: word_less_1)
  qed simp
  note dom = this
  show ?thesis
  proof (cases "ksReadyQueuesL1Bitmap s (ksCurDomain s) = 0")
    case True
    have ni: "ksIdleThread s \<notin> qset s" using idle_not_queued[OF b] by simp
    let ?r = "s\<lparr>ksArch := (ksArch s)\<lparr>ttbr := (0, armKSGlobalUserVSpace (ksArch s))\<rparr>, ksCurThread := ksIdleThread s\<rparr>"
    have "base_sched {} ?r" using b by (auto simp: base_sched_def valid_dom_def)
    then have "scheduled ?r" using ni by (simp add: scheduled_def vm_current_def)
    moreover have "top_thread ?r (ksIdleThread s)"
      using no_queue[OF vq True] by (auto simp: top_thread_def)
    moreover have "chooseThread s = Some ?r"
      using True by (simp add: chooseThread_def dom switchToIdleThread_def Let_def Arch_switchToIdleThread_def setCurrentUserVSpaceRoot_def upd_arch_def)
    ultimately show ?thesis using True ni by (simp add: sched_frame_def)
  next
    case False
    obtain h x t where h: "getHighestPrio s (ksCurDomain s) = Some h" "ready_queues_index s (ksCurDomain s) h = Some (rqi s (ksCurDomain s) h)"
      "head (ksReadyQueues s (rqi s (ksCurDomain s) h)) = x" "x \<noteq> 0" "tcbs s x = Some t" "tcbQueued t" "tcbDomain t = ksCurDomain s" "tcbPriority t = h"
      "\<forall>q u. tcbs s q = Some u \<and> tcbQueued u \<and> tcbDomain u = ksCurDomain s \<longrightarrow> tcbPriority u \<le> h"
      using highest_queue[OF vq d False] by blast
    have x: "x \<in> qset s" using h(5,6) by (auto simp: qset_def)
    then have r: "runnable s x" using b by (auto simp: base_sched_def)
    have "succeeds (chooseThread s) P = succeeds (switchToThread x s) P" for P
      using False h r by (simp add: chooseThread_def dom Let_def runnable_def)
    moreover have "succeeds (switchToThread x s) (\<lambda>s'. scheduled s' \<and> top_thread s' (ksCurThread s') \<and>
      sched_frame s (s'\<lparr>ksCurThread := ksCurThread s, ksArch := ksArch s\<rparr>) \<and> qset s' = qset s - {ksCurThread s'} \<and> ksCurThread s' \<in> qset s)"
    proof (rule succeeds_mono[OF switchToThread_wp[OF b h(5)]], elim conjE)
      fix s' assume a: "base_sched ({} - {x}) s'" "ksCurThread s' = x" "qset s' = qset s - {x}" "sched_frame s (s'\<lparr>ksCurThread := ksCurThread s, ksArch := ksArch s\<rparr>)"
        "ksArch s' = (ksArch s)\<lparr>ttbr := vm_root s x\<rparr>"
      have vm: "vm_current s'" using switched_vm_current[OF a(4,5,2)] idle_not_queued[OF b] x by auto
      note f = sched_frame_fields[OF a(4), simplified]
      have rs: "runnable s' q = runnable s q" for q using runnable_frame[OF a(4), of q] by simp
      obtain u where u: "tcbs s' x = Some u" "core u = core t" using sched_frame_tcb[OF a(4) h(5)] by auto
      have "tcbPriority w \<le> h" if w: "tcbs s' q = Some w" "tcbQueued w" "tcbDomain w = ksCurDomain s" for q w
      proof -
        have "q \<in> qset s" using w a(3) by (auto simp: qset_def)
        then obtain w' where w': "tcbs s q = Some w'" "tcbQueued w'" by (auto simp: qset_def)
        then have "core w = core w'" using sched_frame_tcb[OF a(4) w'(1)] w(1) by auto
        then show ?thesis using h(9) w' w(3) core_fields[of w w'] by auto
      qed
      then have "top_thread s' x" unfolding top_thread_def f using u core_fields[OF u(2)] h(7,8) r by (auto simp: runnable_tcb h(5))
      then show "scheduled s' \<and> top_thread s' (ksCurThread s') \<and> sched_frame s (s'\<lparr>ksCurThread := ksCurThread s, ksArch := ksArch s\<rparr>) \<and>
          qset s' = qset s - {ksCurThread s'} \<and> ksCurThread s' \<in> qset s" using a(1-4) r rs x vm by (auto simp: scheduled_def)
    qed
    ultimately show ?thesis using False by simp
  qed
qed

lemma nextDomain_wp:
  assumes b: "base_sched A s"
  shows "succeeds (nextDomain s) (\<lambda>s'. base_sched A s' \<and> tcbs s' = tcbs s \<and> ksCurThread s' = ksCurThread s \<and>
    ksIdleThread s' = ksIdleThread s \<and> ksSchedulerAction s' = ksSchedulerAction s \<and>
    (ksCurDomain s', ksDomainTime s') = ksDomSchedule s ! ((unat (ksDomScheduleIdx s) + 1) mod length (ksDomSchedule s)))"
proof -
  let ?i = "ksDomScheduleIdx s" and ?l = "ksDomSchedule s"
  define j where "j = (if unat (?i + 1) \<ge> length ?l then 0 else ?i + 1)"
  have i: "unat ?i < length ?l" "length ?l < 2 ^ 64" and dm: "\<forall>e\<in>set ?l. fst e < numDomains s"
    using b by (auto simp: base_sched_def valid_dom_def)
  have "unat (?i + 1) = unat ?i + 1" using i by (simp add: unat_word_ariths)
  then have j: "unat j = (unat ?i + 1) mod length ?l" using i by (auto simp: j_def not_le le_Suc_eq)
  then have jl: "unat j < length ?l" using i by (metis mod_less_divisor gr_implies_not0 not_gr_zero)
  let ?s' = "s\<lparr>ksDomScheduleIdx := j, ksWorkUnitsCompleted := 0, ksCurDomain := fst (?l ! unat j), ksDomainTime := snd (?l ! unat j)\<rparr>"
  have "nextDomain s = Some ?s'" using jl i by (auto simp: nextDomain_def j_def Let_def not_le)
  moreover have "base_sched A ?s'" using b jl dm by (auto simp: base_sched_def valid_dom_def)
  ultimately show ?thesis by (simp add: j)
qed

lemma switch_fields:
  assumes "sched_frame s (s'\<lparr>ksCurThread := c, ksArch := a\<rparr>)"
  shows "ksIdleThread s' = ksIdleThread s" "ksSchedulerAction s' = ksSchedulerAction s" "ksCurDomain s' = ksCurDomain s"
    "ksDomainTime s' = ksDomainTime s"
  using sched_frame_fields[OF assms] by simp_all

lemma scheduleChooseNewThread_wp:
  assumes b: "base_sched {} s"
  shows "succeeds (scheduleChooseNewThread s) (\<lambda>s'. scheduled s' \<and> top_thread s' (ksCurThread s') \<and>
    ksIdleThread s' = ksIdleThread s \<and> ksSchedulerAction s' = ksSchedulerAction s \<and> qset s' = qset s - {ksCurThread s'} \<and>
    (ksDomainTime s \<noteq> 0 \<longrightarrow> ksCurDomain s' = ksCurDomain s) \<and>
    (ksDomainTime s = 0 \<longrightarrow>
      (ksCurDomain s', ksDomainTime s') = ksDomSchedule s ! ((unat (ksDomScheduleIdx s) + 1) mod length (ksDomSchedule s))))"
proof -
  have step: "succeeds (chooseThread r) (\<lambda>s'. scheduled s' \<and> top_thread s' (ksCurThread s') \<and>
      ksIdleThread s' = ksIdleThread r \<and> ksSchedulerAction s' = ksSchedulerAction r \<and> qset s' = qset r - {ksCurThread s'} \<and>
      ksCurDomain s' = ksCurDomain r \<and> ksDomainTime s' = ksDomainTime r)" if "base_sched {} r" for r
    by (rule succeeds_mono[OF chooseThread_wp[OF that]], elim conjE, frule switch_fields, frule switch_fields(2),
        frule switch_fields(3), frule switch_fields(4), simp)
  show ?thesis
  proof (cases "ksDomainTime s = 0")
    case True
    have "succeeds (nextDomain s) (\<lambda>r. succeeds (chooseThread r) (\<lambda>s'. scheduled s' \<and> top_thread s' (ksCurThread s') \<and>
      ksIdleThread s' = ksIdleThread s \<and> ksSchedulerAction s' = ksSchedulerAction s \<and> qset s' = qset s - {ksCurThread s'} \<and>
      (ksCurDomain s', ksDomainTime s') = ksDomSchedule s ! ((unat (ksDomScheduleIdx s) + 1) mod length (ksDomSchedule s))))"
    proof (rule succeeds_mono[OF nextDomain_wp[OF b]], elim conjE)
      fix r assume r: "base_sched {} r" "tcbs r = tcbs s" "ksIdleThread r = ksIdleThread s" "ksSchedulerAction r = ksSchedulerAction s"
        "(ksCurDomain r, ksDomainTime r) = ksDomSchedule s ! ((unat (ksDomScheduleIdx s) + 1) mod length (ksDomSchedule s))"
      have "qset r = qset s" using r(2) by (simp add: qset_def)
      then show "succeeds (chooseThread r) (\<lambda>s'. scheduled s' \<and> top_thread s' (ksCurThread s') \<and>
        ksIdleThread s' = ksIdleThread s \<and> ksSchedulerAction s' = ksSchedulerAction s \<and> qset s' = qset s - {ksCurThread s'} \<and>
        (ksCurDomain s', ksDomainTime s') = ksDomSchedule s ! ((unat (ksDomScheduleIdx s) + 1) mod length (ksDomSchedule s)))"
        using r(3-5) by (intro succeeds_mono[OF step[OF r(1)]]) simp
    qed
    then show ?thesis using True by (simp add: scheduleChooseNewThread_def)
  next
    case False
    then show ?thesis unfolding scheduleChooseNewThread_def by (simp, intro succeeds_mono[OF step[OF b]]) auto
  qed
qed


subsection \<open>Operations keep the invariant of the scheduler\<close>

lemma runnable_upd: "runnable (s\<lparr>tcbs := (tcbs s)(p := Some t)\<rparr>) q = (if q = p then runnable_type (tsType t) else runnable s q)"
  by (simp add: runnable_tcb)

lemma enqueue_base:
  assumes b: "base_sched A s" and r: "runnable s p"
  shows "succeeds (tcbSchedEnqueue p s) (\<lambda>s'. base_sched A s' \<and> sched_frame s s' \<and> qset s' = insert p (qset s))"
proof -
  obtain t where t: "tcbs s p = Some t" using r by (auto simp: runnable_tcb)
  show ?thesis using b r
    by (intro succeeds_mono[OF tcbSchedEnqueue_wp[OF _ t]]) (auto simp: base_sched_def[of A s] intro!: base_sched_frame[OF b])
qed

lemma append_base:
  assumes b: "base_sched A s" and r: "runnable s p"
  shows "succeeds (tcbSchedAppend p s) (\<lambda>s'. base_sched A s' \<and> sched_frame s s' \<and> qset s' = insert p (qset s))"
proof -
  obtain t where t: "tcbs s p = Some t" using r by (auto simp: runnable_tcb)
  show ?thesis using b r
    by (intro succeeds_mono[OF tcbSchedAppend_wp[OF _ t]]) (auto simp: base_sched_def[of A s] intro!: base_sched_frame[OF b])
qed

lemma dequeue_base:
  assumes b: "base_sched A s" and t: "tcbs s p = Some t"
  shows "succeeds (tcbSchedDequeue p s) (\<lambda>s'. base_sched (A - {p}) s' \<and> sched_frame s s' \<and> qset s' = qset s - {p})"
  using b by (intro succeeds_mono[OF tcbSchedDequeue_wp[OF _ t]]) (auto simp: base_sched_def[of A s] intro!: base_sched_frame[OF b])

text \<open>The action stays valid when threads other than those it constrains are queued.\<close>

lemma valid_action_frame:
  assumes "valid_action s" "sched_frame s s'"
    "ksSchedulerAction s = SchedulerAction_ResumeCurrentThread \<Longrightarrow> ksCurThread s \<notin> qset s'"
    "ksSchedulerAction s \<noteq> SchedulerAction_ResumeCurrentThread \<Longrightarrow> ksSchedulerAction s \<noteq> SchedulerAction_ChooseNewThread \<Longrightarrow>
       ksSchedulerAction s \<notin> qset s'"
  shows "valid_action s'"
  using vm_current_frame[OF assms(2)] assms(1,3,4) runnable_frame[OF assms(2)] sched_frame_field[OF assms(2) core_fields(2)]
    unfolding valid_action_def sched_frame_fields[OF assms(2)] by simp

lemma possibleSwitchTo_wp:
  assumes v: "base_sched {} s" "valid_action s" and r: "runnable s p" "p \<notin> qset s" "p \<noteq> ksCurThread s"
    and d: "map_option tcbDomain (tcbs s p) = Some dm" "dm = ksCurDomain s \<or> p \<noteq> ksSchedulerAction s"
  shows "succeeds (possibleSwitchTo p s) (\<lambda>s'. valid_sched s' \<and> action_frame s s' \<and> (p \<in> qset s' \<or> ksSchedulerAction s' = p))"
proof -
  obtain t where t: "tcbs s p = Some t" "tcbDomain t = dm" using d(1) by auto
  have p: "p \<noteq> 0" "p \<noteq> 1" using v(1) t valid_queuesD(2)[OF _ t(1)] by (auto simp: base_sched_def valid_q_def valid_tcb_def)
  consider (other) "ksCurDomain s \<noteq> dm" | (busy) "ksCurDomain s = dm" "ksSchedulerAction s \<noteq> SchedulerAction_ResumeCurrentThread"
    | (free) "ksCurDomain s = dm" "ksSchedulerAction s = SchedulerAction_ResumeCurrentThread" by blast
  then show ?thesis
  proof cases
    case other
    have "succeeds (tcbSchedEnqueue p s) (\<lambda>s'. valid_sched s' \<and> action_frame s s' \<and> p \<in> qset s')"
    proof (rule succeeds_mono[OF enqueue_base[OF v(1) r(1)]], elim conjE)
      fix s' assume a: "base_sched {} s'" "sched_frame s s'" "qset s' = insert p (qset s)"
      have "valid_action s'" using v(2) a(3) r(3) d(2) other by (intro valid_action_frame[OF v(2) a(2)]) (auto simp: valid_action_def)
      then show "valid_sched s' \<and> action_frame s s' \<and> p \<in> qset s'" using a by (simp add: valid_sched_def action_frame_sched)
    qed
    then show ?thesis using other t by (auto simp: possibleSwitchTo_def intro: succeeds_mono)
  next
    case busy
    have "succeeds (rescheduleRequired s) (\<lambda>s1. succeeds (tcbSchedEnqueue p s1) (\<lambda>s'. valid_sched s' \<and> action_frame s s' \<and> p \<in> qset s'))"
    proof (rule succeeds_mono[OF rescheduleRequired_sched[OF v(1)]], goal_cases)
      case (2 s1)
      then have f: "action_frame s s1" "base_sched {} s1" "ksSchedulerAction s1 = SchedulerAction_ChooseNewThread" by (auto simp: valid_sched_def)
      have r1: "runnable s1 p" using action_frame_fields(6)[OF f(1)] r(1) by simp
      show ?case
      proof (rule succeeds_mono[OF enqueue_base[OF f(2) r1]], elim conjE)
        fix s' assume a: "base_sched {} s'" "sched_frame s1 s'" "qset s' = insert p (qset s1)"
        have "valid_action s'" using f(3) sched_frame_fields[OF a(2)] by (intro valid_action_choose) simp
        then show "valid_sched s' \<and> action_frame s s' \<and> p \<in> qset s'"
          using a action_frame_trans[OF f(1) action_frame_sched[OF a(2)]] by (simp add: valid_sched_def)
      qed
    qed (use v(2) in simp)
    then show ?thesis using busy t by (auto simp: possibleSwitchTo_def elim!: succeeds_mono)
  next
    case free
    then show ?thesis using v r t p by (auto simp: possibleSwitchTo_def valid_sched_def valid_action_def action_frame_set)
  qed
qed

lemma base_upd_tcb:
  assumes b: "base_sched A s" and t: "tcbs s p = Some t"
    and u: "tcbSchedNext t' = tcbSchedNext t" "tcbSchedPrev t' = tcbSchedPrev t"
      "tcbQueued t' = tcbQueued t" "tcbDomain t' < numDomains s" "tcbPriority t' \<le> seL4_MaxPrio"
      "p \<notin> qset s \<or> tcbDomain t' = tcbDomain t \<and> tcbPriority t' = tcbPriority t"
    and i: "p = ksIdleThread s \<Longrightarrow> tsType t' = tsType t" and r: "p \<in> qset s - A' \<Longrightarrow> runnable_type (tsType t')" and A: "A \<subseteq> insert p A'"
  shows "base_sched A' (s\<lparr>tcbs := (tcbs s)(p := Some t')\<rparr>)" "qset (s\<lparr>tcbs := (tcbs s)(p := Some t')\<rparr>) = qset s"
proof -
  have "\<not> tcbQueued t \<or> tcbDomain t' = tcbDomain t \<and> tcbPriority t' = tcbPriority t" using u(6) t by (auto simp: qset_def)
  note q = valid_q_upd_tcb[OF _ t u(1-5) this]
  show "qset (s\<lparr>tcbs := (tcbs s)(p := Some t')\<rparr>) = qset s" using b q(2) by (simp add: base_sched_def)
  then show "base_sched A' (s\<lparr>tcbs := (tcbs s)(p := Some t')\<rparr>)"
    using b q(1) t i r A by (auto simp: base_sched_def valid_dom_def runnable_upd)
qed

lemma tcb_valid: "base_sched A s \<Longrightarrow> tcbs s p = Some t \<Longrightarrow> tcbDomain t < numDomains s \<and> tcbPriority t \<le> seL4_MaxPrio \<and> p \<noteq> 0 \<and> p \<noteq> 1"
  using valid_queuesD(2)[of s _ p t] by (auto simp: base_sched_def valid_q_def valid_tcb_def)

lemma in_qset: "tcbs s p = Some t \<Longrightarrow> p \<in> qset s \<longleftrightarrow> tcbQueued t"
  by (auto simp: qset_def)

text \<open>Setting the state of a thread: the current thread is rescheduled when it stops being runnable.\<close>

lemma setThreadState_wp:
  assumes b: "base_sched A s" and va: "valid_action s" and t: "tcbs s p = Some t" and i: "p \<noteq> ksIdleThread s"
    and a: "p \<noteq> ksSchedulerAction s \<or> runnable_type ts" and A: "p \<in> A' \<or> runnable_type ts \<or> p \<notin> qset s" "A \<subseteq> insert p A'"
  shows "succeeds (setThreadState p ts s) (\<lambda>s'. base_sched A' s' \<and> valid_action s' \<and> qset s' = qset s \<and>
    action_frame (s\<lparr>tcbs := (tcbs s)(p := Some (t\<lparr>tsType := ts\<rparr>))\<rparr>) s' \<and>
    ksSchedulerAction s' \<in> {ksSchedulerAction s, SchedulerAction_ChooseNewThread})"
proof -
  let ?s = "s\<lparr>tcbs := (tcbs s)(p := Some (t\<lparr>tsType := ts\<rparr>))\<rparr>"
  have b1: "base_sched A' ?s" "qset ?s = qset s"
    using tcb_valid[OF b t] i A by (intro base_upd_tcb[OF b t]; auto)+
  have r: "runnable ?s q = (if q = p then runnable_type ts else runnable s q)" for q by (simp add: runnable_upd)
  show ?thesis
  proof (cases "p = ksCurThread s \<and> ksSchedulerAction s = SchedulerAction_ResumeCurrentThread \<and> \<not> runnable_type ts")
    case True
    then have "succeeds (setThreadState p ts s) P = succeeds (rescheduleRequired ?s) P" for P
      using t by (simp add: setThreadState_def scheduleTCB_def isRunnable_def)
    moreover have "succeeds (rescheduleRequired ?s) (\<lambda>s'. base_sched A' s' \<and> valid_action s' \<and> qset s' = qset s \<and>
      action_frame ?s s' \<and> ksSchedulerAction s' \<in> {ksSchedulerAction s, SchedulerAction_ChooseNewThread})"
      using True b1 by (simp add: rescheduleRequired_def valid_action_choose action_frame_set)
    ultimately show ?thesis by simp
  next
    case False
    then have "succeeds (setThreadState p ts s) P = P ?s" for P
      using t by (auto simp: setThreadState_def scheduleTCB_def isRunnable_def)
    moreover have "valid_action ?s" using va False t a unfolding valid_action_def r b1(2) by auto
    ultimately show ?thesis using b1 by simp
  qed
qed

lemma setPriority_wp:
  assumes v: "valid_sched s" and t: "tcbs s p = Some t" and prio: "prio \<le> seL4_MaxPrio"
  shows "succeeds (setPriority p prio s) (\<lambda>s'. valid_sched s' \<and> map_option tcbPriority (tcbs s' p) = Some prio \<and>
    (ctes s' = ctes s \<and> (\<forall>q. map_option core (tcbs s' q) = (if q = p then Some (core (t\<lparr>tcbPriority := prio\<rparr>)) else map_option core (tcbs s q)))) \<and>
    (runnable s p \<longrightarrow> p = ksCurThread s \<or> p \<in> qset s' \<or> ksSchedulerAction s' = p))"
proof -
  have b: "base_sched {} s" and va: "valid_action s" using v by (auto simp: valid_sched_def)
  define F :: "kernel_state \<Rightarrow> bool" where "F x \<longleftrightarrow> ctes x = ctes s \<and> (\<forall>q. map_option core (tcbs x q) = (if q = p then Some (core (t\<lparr>tcbPriority := prio\<rparr>)) else map_option core (tcbs s q)))" for x
  define P where "P s2 \<longleftrightarrow> base_sched {} s2 \<and> valid_action s2 \<and> p \<notin> qset s2 \<and> runnable s2 p = runnable s p \<and>
     ksCurThread s2 = ksCurThread s \<and> ksSchedulerAction s2 = ksSchedulerAction s \<and> ksCurDomain s2 = ksCurDomain s \<and>
     map_option tcbPriority (tcbs s2 p) = Some prio \<and> map_option tcbDomain (tcbs s2 p) = Some (tcbDomain t) \<and> F s2" for s2
  have "succeeds (tcbSchedDequeue p s) (\<lambda>s1. succeeds (upd_tcb p (\<lambda>t. t\<lparr>tcbPriority := prio\<rparr>) s1) P)"
  proof (rule succeeds_mono[OF dequeue_base[OF b t]], elim conjE)
    fix s1 assume a: "base_sched ({} - {p}) s1" "sched_frame s s1" "qset s1 = qset s - {p}"
    have va1: "valid_action s1" using va a(3) by (intro valid_action_frame[OF va a(2)]) (auto simp: valid_action_def)
    obtain t1 where t1: "tcbs s1 p = Some t1" "core t1 = core t" using sched_frame_tcb[OF a(2) t] by auto
    let ?s2 = "s1\<lparr>tcbs := (tcbs s1)(p := Some (t1\<lparr>tcbPriority := prio\<rparr>))\<rparr>"
    have b2: "base_sched {} ?s2" "qset ?s2 = qset s1"
      using tcb_valid[OF a(1) t1(1)] prio a(3) by (intro base_upd_tcb[OF a(1) t1(1)]; auto)+
    have r2: "runnable ?s2 q = runnable s q" for q using t1(1) runnable_frame[OF a(2), of q] by (auto simp: runnable_tcb)
    have "map_option tcbDomain (tcbs ?s2 q) = map_option tcbDomain (tcbs s1 q)" for q using t1(1) by simp
    moreover have "runnable s1 q = runnable s q" for q using runnable_frame[OF a(2), of q] .
    ultimately have "valid_action ?s2" using va1 unfolding valid_action_def b2(2) r2 by simp
    moreover have "core (t1\<lparr>tcbPriority := prio\<rparr>) = core (t\<lparr>tcbPriority := prio\<rparr>)" using t1(2) by (cases t1; cases t) (simp add: core_def)
    then have "F ?s2" using a(2) by (simp add: F_def sched_frame_def)
    ultimately show "succeeds (upd_tcb p (\<lambda>t. t\<lparr>tcbPriority := prio\<rparr>) s1) P" unfolding P_def
      using t1 b2 r2[of p] a(3) sched_frame_fields[OF a(2)] core_fields[OF t1(2)] by simp
  qed
  then show ?thesis unfolding setPriority_def succeeds_bind F_def[symmetric]
  proof (rule succeeds_mono, elim succeeds_mono)
    fix s2 assume "P s2"
    then have s2: "base_sched {} s2" "valid_action s2" "p \<notin> qset s2" "runnable s2 p = runnable s p"
     "ksCurThread s2 = ksCurThread s" "ksSchedulerAction s2 = ksSchedulerAction s" "ksCurDomain s2 = ksCurDomain s"
     "map_option tcbPriority (tcbs s2 p) = Some prio" "map_option tcbDomain (tcbs s2 p) = Some (tcbDomain t)" "F s2" unfolding P_def by blast+
    have pr: "map_option tcbPriority (tcbs x p) = Some prio" "F x" if "action_frame s2 x" for x
      using s2(8,10) that unfolding action_frame_fields(9)[OF that] by (simp_all add: F_def action_frame_def sched_frame_def)
    have ir: "isRunnable s2 p = Some (runnable s p)" using s2(4,8) by (cases "tcbs s2 p") (auto simp: isRunnable_def runnable_tcb)
    consider (no) "\<not> runnable s p" | (cur) "runnable s p" "p = ksCurThread s" | (other) "runnable s p" "p \<noteq> ksCurThread s" by blast
    then show "succeeds (isRunnable s2 p) (\<lambda>r. succeeds (if r then if p = ksCurThread s2 then rescheduleRequired s2 else possibleSwitchTo p s2 else Some s2)
      (\<lambda>s'. valid_sched s' \<and> map_option tcbPriority (tcbs s' p) = Some prio \<and> F s' \<and>
        (runnable s p \<longrightarrow> p = ksCurThread s \<or> p \<in> qset s' \<or> ksSchedulerAction s' = p)))"
    proof cases
      case no
      then show ?thesis using ir s2(1,2,8,10) by (simp add: valid_sched_def)
    next
      case cur
      have "succeeds (rescheduleRequired s2) (\<lambda>s'. valid_sched s' \<and> map_option tcbPriority (tcbs s' p) = Some prio \<and> F s')"
        by (rule succeeds_mono[OF rescheduleRequired_sched[of s2]]) (use s2(1,2) pr in blast)+
      then show ?thesis using cur ir s2(5) by simp
    next
      case other
      have "tcbDomain t = ksCurDomain s2 \<or> p \<noteq> ksSchedulerAction s2"
        using va t tcb_valid[OF b t] s2(6,7) by (auto simp: valid_action_def SchedulerAction_ResumeCurrentThread_def SchedulerAction_ChooseNewThread_def)
      then have "succeeds (possibleSwitchTo p s2) (\<lambda>s'. valid_sched s' \<and> map_option tcbPriority (tcbs s' p) = Some prio \<and> F s' \<and>
          (p \<in> qset s' \<or> ksSchedulerAction s' = p))"
        using s2(1-5,9) other by (intro succeeds_mono[OF possibleSwitchTo_wp[of s2 p "tcbDomain t"]]) (use pr in auto)
      then show ?thesis using ir other s2(5) by simp
    qed
  qed
qed

lemma reschedule_if:
  assumes "base_sched {} s" "valid_action s \<or> c \<and> ksSchedulerAction s = SchedulerAction_ResumeCurrentThread"
  shows "succeeds (if c then rescheduleRequired s else Some s) (\<lambda>s'. valid_sched s' \<and> action_frame s s' \<and> qset s \<subseteq> qset s' \<and>
    (c \<longrightarrow> ksSchedulerAction s' = SchedulerAction_ChooseNewThread) \<and> (\<not> c \<longrightarrow> s' = s))"
proof (cases c)
  case True
  then show ?thesis using assms by (simp, intro succeeds_mono[OF rescheduleRequired_sched[OF assms(1)]]) auto
next
  case False
  then show ?thesis using assms by (simp add: valid_sched_def)
qed

lemma setDomain_wp:
  assumes v: "valid_sched s" and t: "tcbs s p = Some t" and dm: "dm < numDomains s" and na: "ksSchedulerAction s \<noteq> p"
  shows "succeeds (setDomain p dm s) (\<lambda>s'. valid_sched s' \<and> map_option tcbDomain (tcbs s' p) = Some dm \<and>
    (runnable s p \<longrightarrow> p \<in> qset s') \<and>
    (p = ksCurThread s \<longrightarrow> ksSchedulerAction s' = SchedulerAction_ChooseNewThread))"
proof -
  have b: "base_sched {} s" and va: "valid_action s" using v by (auto simp: valid_sched_def)
  define ok where "ok r \<longleftrightarrow> base_sched {} r \<and> (p = ksCurThread s \<and> ksSchedulerAction r = SchedulerAction_ResumeCurrentThread \<or> valid_action r) \<and>
     runnable r p = runnable s p \<and> ksCurThread r = ksCurThread s \<and> ksSchedulerAction r = ksSchedulerAction s \<and>
     map_option tcbDomain (tcbs r p) = Some dm" for r
  have "succeeds (tcbSchedDequeue p s) (\<lambda>s1. succeeds (upd_tcb p (\<lambda>t. t\<lparr>tcbDomain := dm\<rparr>) s1) ok)"
  proof (rule succeeds_mono[OF dequeue_base[OF b t]], elim conjE)
    fix s1 assume a: "base_sched ({} - {p}) s1" "sched_frame s s1" "qset s1 = qset s - {p}"
    note f = sched_frame_fields[OF a(2)]
    obtain t1 where t1: "tcbs s1 p = Some t1" "core t1 = core t" using sched_frame_tcb[OF a(2) t] by auto
    let ?s2 = "s1\<lparr>tcbs := (tcbs s1)(p := Some (t1\<lparr>tcbDomain := dm\<rparr>))\<rparr>"
    have b2: "base_sched {} ?s2" "qset ?s2 = qset s1"
      using tcb_valid[OF a(1) t1(1)] dm f(1) a(3) by (intro base_upd_tcb[OF a(1) t1(1)]; auto)+
    have r2: "runnable ?s2 q = runnable s q" for q using t1(1) runnable_frame[OF a(2), of q] by (auto simp: runnable_tcb)
    have "map_option tcbDomain (tcbs ?s2 (ksSchedulerAction s)) = map_option tcbDomain (tcbs s (ksSchedulerAction s))"
      using na sched_frame_field[OF a(2) core_fields(2), where p = "ksSchedulerAction s"] by simp
    then have "valid_action ?s2" using va f vm_current_frame[OF a(2)] unfolding valid_action_def b2(2) r2 a(3) by auto
    then show "succeeds (upd_tcb p (\<lambda>t. t\<lparr>tcbDomain := dm\<rparr>) s1) ok" using t1 b2 r2[of p] f by (simp add: ok_def)
  qed
  moreover have "succeeds (isRunnable r p) (\<lambda>ru. succeeds (if ru then tcbSchedEnqueue p r else Some r)
      (\<lambda>r'. ok r' \<and> (runnable s p \<longrightarrow> p \<in> qset r')))" if "ok r" for r
  proof -
    have r: "base_sched {} r" "p = ksCurThread s \<and> ksSchedulerAction r = SchedulerAction_ResumeCurrentThread \<or> valid_action r"
       "runnable r p = runnable s p" "ksCurThread r = ksCurThread s" "map_option tcbDomain (tcbs r p) = Some dm"
       "ksSchedulerAction r = ksSchedulerAction s"
      using that unfolding ok_def by blast+
    have ir: "isRunnable r p = Some (runnable s p)" using r(3,5) by (cases "tcbs r p") (auto simp: isRunnable_def runnable_tcb)
    show ?thesis
    proof (cases "runnable s p")
      case True
      have "succeeds (tcbSchedEnqueue p r) (\<lambda>r'. ok r' \<and> p \<in> qset r')"
      proof (rule succeeds_mono[OF enqueue_base[OF r(1)]], goal_cases)
        case (2 r')
        then have a: "base_sched {} r'" "sched_frame r r'" "qset r' = insert p (qset r)" by blast+
        note f = sched_frame_fields[OF a(2)]
        have va2: "valid_action r'" if "valid_action r" "\<not> (p = ksCurThread s \<and> ksSchedulerAction r = SchedulerAction_ResumeCurrentThread)"
          using that a(3) r(4,6) na by (intro valid_action_frame[OF _ a(2)]) (auto simp: valid_action_def)
        then show ?case using a r f runnable_frame[OF a(2), of p] sched_frame_field[OF a(2) core_fields(2), where p = p] unfolding ok_def by auto
      qed (use True r in simp)
      then show ?thesis using True ir by simp
    qed (use ir that in simp)
  qed
  ultimately have "succeeds (tcbSchedDequeue p s) (\<lambda>s1. succeeds (upd_tcb p (\<lambda>t. t\<lparr>tcbDomain := dm\<rparr>) s1)
     (\<lambda>s2. succeeds (isRunnable s2 p) (\<lambda>ru. succeeds (if ru then tcbSchedEnqueue p s2 else Some s2) (\<lambda>r'. ok r' \<and> (runnable s p \<longrightarrow> p \<in> qset r')))))"
    by (elim succeeds_mono) blast
  then show ?thesis unfolding setDomain_def succeeds_bind
  proof (elim succeeds_mono, goal_cases)
    case (1 s1 s2 ru s3)
    then have s3: "ok s3" "runnable s p \<longrightarrow> p \<in> qset s3" by blast+
    have c: "ksCurThread s3 = ksCurThread s" using s3(1) unfolding ok_def by blast
    have "map_option tcbDomain (tcbs x p) = Some dm" if "action_frame s3 x" for x
      unfolding action_frame_fields(7)[OF that] using s3(1) unfolding ok_def by blast
    then show ?case unfolding c using s3
      by (intro succeeds_mono[OF reschedule_if[of s3 "p = ksCurThread s"]]) (unfold ok_def, blast+)
  qed
qed

lemma timerTick_wp:
  assumes v: "valid_sched s" and t: "tcbs s (ksCurThread s) = Some t"
  shows "succeeds (timerTick s) (\<lambda>s'. valid_sched s' \<and> ksCurThread s' = ksCurThread s \<and>
    (tsType t = ThreadState_Running \<longrightarrow> 
      map_option tcbTimeSlice (tcbs s' (ksCurThread s)) = Some (if tcbTimeSlice t > 1 then tcbTimeSlice t - 1 else CONFIG_TIME_SLICE) \<and>
      (\<not> tcbTimeSlice t > 1 \<longrightarrow> ksCurThread s \<in> qset s' \<and> ksSchedulerAction s' = SchedulerAction_ChooseNewThread)) \<and>
    (numDomains s > 1 \<longrightarrow> ksDomainTime s' = ksDomainTime s - 1 \<and>
      (ksDomainTime s = 1 \<longrightarrow> ksSchedulerAction s' = SchedulerAction_ChooseNewThread)))"
proof -
  let ?c = "ksCurThread s"
  have b: "base_sched {} s" and va: "valid_action s" using v by (auto simp: valid_sched_def)
  define post where "post r \<longleftrightarrow> (tsType t = ThreadState_Running \<longrightarrow>
      map_option tcbTimeSlice (tcbs r ?c) = Some (if tcbTimeSlice t > 1 then tcbTimeSlice t - 1 else CONFIG_TIME_SLICE) \<and>
      (\<not> tcbTimeSlice t > 1 \<longrightarrow> ?c \<in> qset r \<and> ksSchedulerAction r = SchedulerAction_ChooseNewThread))" for r
  define ok where "ok r \<longleftrightarrow> valid_sched r \<and> ksCurThread r = ?c \<and> numDomains r = numDomains s \<and> ksDomainTime r = ksDomainTime s \<and> post r" for r
  have upd: "valid_sched (s\<lparr>tcbs := (tcbs s)(?c := Some (t\<lparr>tcbTimeSlice := n\<rparr>))\<rparr>)" for n
  proof -
    let ?s = "s\<lparr>tcbs := (tcbs s)(?c := Some (t\<lparr>tcbTimeSlice := n\<rparr>))\<rparr>"
    have b2: "base_sched {} ?s" "qset ?s = qset s"
      using tcb_valid[OF b t] b t by (intro base_upd_tcb[OF b t]; auto simp: base_sched_def runnable_tcb)+
    moreover have "runnable ?s q = runnable s q" for q using t by (auto simp: runnable_tcb)
    ultimately show ?thesis using va t by (auto simp: valid_sched_def valid_action_def)
  qed
  have 1: "succeeds (if tsType t = ThreadState_Running then
            (if tcbTimeSlice t > 1 then upd_tcb ?c (\<lambda>t. t\<lparr>tcbTimeSlice := tcbTimeSlice t - 1\<rparr>) s
             else do { s \<leftarrow> upd_tcb ?c (\<lambda>t. t\<lparr>tcbTimeSlice := CONFIG_TIME_SLICE\<rparr>) s;
               s \<leftarrow> tcbSchedAppend (ksCurThread s) s; rescheduleRequired s })
          else Some s) ok"
  proof (cases "tsType t = ThreadState_Running \<and> \<not> tcbTimeSlice t > 1")
    case False
    then show ?thesis using t upd v by (auto simp: ok_def post_def)
  next
    case True
    let ?s = "s\<lparr>tcbs := (tcbs s)(?c := Some (t\<lparr>tcbTimeSlice := CONFIG_TIME_SLICE\<rparr>))\<rparr>"
    have b1: "base_sched {} ?s" and va1: "valid_action ?s" using upd[of CONFIG_TIME_SLICE] by (auto simp: valid_sched_def)
    have r1: "runnable ?s ?c" using True by (simp add: runnable_tcb)
    have "succeeds (tcbSchedAppend ?c ?s) (\<lambda>r. succeeds (rescheduleRequired r) ok)"
    proof (rule succeeds_mono[OF append_base[OF b1 r1]], elim conjE)
      fix r assume a: "base_sched {} r" "sched_frame ?s r" "qset r = insert ?c (qset ?s)"
      have va2: "valid_action r \<or> ksSchedulerAction r = SchedulerAction_ResumeCurrentThread"
      proof (cases "ksSchedulerAction ?s = SchedulerAction_ResumeCurrentThread")
        case False
        have "ksSchedulerAction ?s \<notin> qset r" if "ksSchedulerAction ?s \<noteq> SchedulerAction_ChooseNewThread"
          using va1 False that unfolding valid_action_def a(3) by simp
        then have "valid_action r" by (intro valid_action_frame[OF va1 a(2)]) (use False in simp_all)
        then show ?thesis ..
      qed (use sched_frame_fields(4)[OF a(2)] in simp)
      show "succeeds (rescheduleRequired r) ok"
      proof (rule succeeds_mono[OF rescheduleRequired_sched[OF a(1) va2]], elim conjE)
        fix r' assume a': "valid_sched r'" "action_frame r r'" "ksSchedulerAction r' = SchedulerAction_ChooseNewThread" "qset r \<subseteq> qset r'"
        have f: "action_frame ?s r'" using action_frame_trans[OF action_frame_sched[OF a(2)] a'(2)] .
        have ts: "map_option tcbTimeSlice (tcbs r' ?c) = Some CONFIG_TIME_SLICE"
          using sched_frame_field[where f = tcbTimeSlice and p = ?c, OF f[unfolded action_frame_def] core_fields(5)] by simp
        have "?c \<in> qset r'" using a(3) a'(4) by blast
        then have "post r'" unfolding post_def using True ts a'(3) by simp
        then show "ok r'" unfolding ok_def using a'(1) action_frame_fields(1,4,5)[OF f] by simp
      qed
    qed
    then show ?thesis using True t by simp
  qed
  have 2: "succeeds (if numDomains r > 1 then do { let s = r\<lparr>ksDomainTime := ksDomainTime r - 1\<rparr>; if ksDomainTime s = 0 then rescheduleRequired s else Some s }
     else Some r) (\<lambda>s'. valid_sched s' \<and> ksCurThread s' = ?c \<and> post s' \<and> (numDomains s > 1 \<longrightarrow> ksDomainTime s' = ksDomainTime s - 1 \<and>
      (ksDomainTime s = 1 \<longrightarrow> ksSchedulerAction s' = SchedulerAction_ChooseNewThread)))" if r: "ok r" for r
  proof (cases "numDomains r > 1")
    case True
    let ?r = "r\<lparr>ksDomainTime := ksDomainTime r - 1\<rparr>"
    have v: "base_sched {} ?r" "valid_action ?r" using r by (auto simp: ok_def valid_sched_def valid_action_def)
    have "succeeds (if ksDomainTime r - 1 = 0 then rescheduleRequired ?r else Some ?r) (\<lambda>s'. valid_sched s' \<and> ksCurThread s' = ?c \<and> post s' \<and>
       ksDomainTime s' = ksDomainTime s - 1 \<and> (ksDomainTime s = 1 \<longrightarrow> ksSchedulerAction s' = SchedulerAction_ChooseNewThread))"
    proof (rule succeeds_mono[OF reschedule_if[OF v(1)]], goal_cases)
      case (2 r')
      then have f: "action_frame ?r r'" by blast
      have "map_option tcbTimeSlice (tcbs r' ?c) = map_option tcbTimeSlice (tcbs r ?c)"
        using sched_frame_field[where f = tcbTimeSlice and p = ?c, OF f[unfolded action_frame_def] core_fields(5)] by simp
      then have "post r'" using r 2 unfolding ok_def post_def by (cases "ksDomainTime r - 1 = 0") auto
      then show ?case using 2 r action_frame_fields(1,4)[OF f] by (auto simp: ok_def)
    qed (use v(2) in simp)
    then show ?thesis using True r by (cases "ksDomainTime s = 1") (simp_all add: Let_def ok_def)
  qed (use r in \<open>simp add: ok_def\<close>)
  have get: "Option.bind (tcbs s ?c) f = f t" for f :: "tcb \<Rightarrow> kernel_state option" using t by simp
  show ?thesis unfolding timerTick_def get post_def[symmetric]
    by (subst succeeds_bind, rule succeeds_mono[OF 1]) (rule 2)
qed

subsection \<open>The scheduler\<close>

lemma scheduled_valid: "scheduled s \<Longrightarrow> valid_sched (s\<lparr>ksSchedulerAction := SchedulerAction_ResumeCurrentThread\<rparr>)"
  by (simp add: scheduled_def valid_sched_def valid_action_def)

lemma top_thread_action [simp]: "top_thread (s\<lparr>ksSchedulerAction := a\<rparr>) c = top_thread s c"
  by (simp add: top_thread_def)

lemma isHighestPrio_ok:
  assumes b: "base_sched A s"
  shows "\<exists>h. isHighestPrio s (ksCurDomain s) prio = Some h \<and>
    (h \<longrightarrow> (\<forall>p t. tcbs s p = Some t \<and> tcbQueued t \<and> tcbDomain t = ksCurDomain s \<longrightarrow> tcbPriority t \<le> prio))"
proof -
  obtain Q where vq: "valid_queues s Q" using b by (auto simp: base_sched_def valid_q_def)
  have d: "ksCurDomain s < numDomains s" using b by (simp add: base_sched_def valid_dom_def)
  show ?thesis
  proof (cases "ksReadyQueuesL1Bitmap s (ksCurDomain s) = 0")
    case True
    then show ?thesis using no_queue[OF vq True] by (auto simp: isHighestPrio_def)
  next
    case False
    then show ?thesis using highest_queue[OF vq d False] by (auto simp: isHighestPrio_def intro: order_trans)
  qed
qed

text \<open>The current thread after a switch to the candidate outranks the queued threads.\<close>

lemma switch_top:
  assumes b: "base_sched {} s" and c: "tcbs s p = Some c" "runnable s p" "tcbDomain c = ksCurDomain s"
    and top: "\<And>q t. tcbs s q = Some t \<Longrightarrow> tcbQueued t \<Longrightarrow> tcbDomain t = ksCurDomain s \<Longrightarrow> tcbPriority t \<le> tcbPriority c"
  shows "succeeds (switchToThread p s) (\<lambda>s'. scheduled s' \<and> top_thread s' (ksCurThread s') \<and> ksCurThread s' = p)"
proof (rule succeeds_mono[OF switchToThread_wp[OF b c(1)]], elim conjE)
  fix s' assume a: "base_sched ({} - {p}) s'" "ksCurThread s' = p" "qset s' = qset s - {p}" "sched_frame s (s'\<lparr>ksCurThread := ksCurThread s, ksArch := ksArch s\<rparr>)"
    "ksArch s' = (ksArch s)\<lparr>ttbr := vm_root s p\<rparr>"
  have vm: "vm_current s'" using switched_vm_current[OF a(4,5,2) runnable_not_idle[OF b c(2)]] .
  have f: "ksCurDomain s' = ksCurDomain s" using switch_fields[OF a(4)] by simp
  have r: "runnable s' p" using runnable_frame[OF a(4), of p] c(2) by simp
  obtain u where u: "tcbs s' p = Some u" "core u = core c" using sched_frame_tcb[OF a(4) c(1)] by auto
  have "tcbPriority w \<le> tcbPriority c" if w: "tcbs s' q = Some w" "tcbQueued w" "tcbDomain w = ksCurDomain s" for q w
  proof -
    have "q \<in> qset s" using w a(3) by (auto simp: qset_def)
    then obtain w' where w': "tcbs s q = Some w'" "tcbQueued w'" by (auto simp: qset_def)
    then have "core w = core w'" using sched_frame_tcb[OF a(4) w'(1)] w(1) by auto
    then show ?thesis using top[OF w'] w(3) core_fields[of w w'] by auto
  qed
  then have "top_thread s' p" unfolding top_thread_def f using u core_fields[OF u(2)] r c by (auto simp: runnable_tcb)
  then show "scheduled s' \<and> top_thread s' (ksCurThread s') \<and> ksCurThread s' = p" using a(1-4) r vm by (simp add: scheduled_def)
qed

text \<open>No queued thread of the current domain has a higher priority than the current thread.\<close>

definition outranks_queued :: "kernel_state \<Rightarrow> bool" where
  "outranks_queued s \<longleftrightarrow> (\<forall>p t c. tcbs s p = Some t \<and> tcbQueued t \<and> tcbDomain t = ksCurDomain s \<and>
     tcbs s (ksCurThread s) = Some c \<longrightarrow> tcbPriority t \<le> tcbPriority c)"

lemma choose_done:
  assumes "base_sched {} s"
  shows "succeeds (scheduleChooseNewThread (s\<lparr>ksSchedulerAction := SchedulerAction_ChooseNewThread\<rparr>)) (\<lambda>s'. scheduled s' \<and> top_thread s' (ksCurThread s'))"
  using assms by (intro succeeds_mono[OF scheduleChooseNewThread_wp]) simp_all

text \<open>The candidate's case of \<^verbatim>\<open>schedule\<close>, after the current thread was queued when it is runnable.\<close>

lemma schedule_candidate:
  assumes b: "base_sched {} s" and c: "tcbs s p = Some c" "runnable s p" "tcbDomain c = ksCurDomain s" "p \<noteq> ksCurThread s"
    and t: "tcbs s (ksCurThread s) = Some t"
  shows "succeeds (scheduleCandidate wr p s)
    (\<lambda>s'. scheduled s' \<and> (ksCurThread s = ksIdleThread s \<or> outranks_queued s \<longrightarrow> top_thread s' (ksCurThread s')))" (is "succeeds _ ?P")
proof -
  define fastfail where "fastfail \<longleftrightarrow> ksCurThread s = ksIdleThread s \<or> tcbPriority c < tcbPriority t"
  obtain h where h: "isHighestPrio s (ksCurDomain s) (tcbPriority c) = Some h"
      "h \<longrightarrow> (\<forall>q u. tcbs s q = Some u \<and> tcbQueued u \<and> tcbDomain u = ksCurDomain s \<longrightarrow> tcbPriority u \<le> tcbPriority c)"
    using isHighestPrio_ok[OF b, of "tcbPriority c"] by blast
  have enq: "succeeds (tcbSchedEnqueue p s) (\<lambda>s. succeeds (scheduleChooseNewThread (s\<lparr>ksSchedulerAction := SchedulerAction_ChooseNewThread\<rparr>)) ?P)"
    by (rule succeeds_mono[OF enqueue_base[OF b c(2)]], elim conjE, rule succeeds_mono[OF choose_done]) auto
  have app: "succeeds (tcbSchedAppend p s) (\<lambda>s. succeeds (scheduleChooseNewThread (s\<lparr>ksSchedulerAction := SchedulerAction_ChooseNewThread\<rparr>)) ?P)"
    by (rule succeeds_mono[OF append_base[OF b c(2)]], elim conjE, rule succeeds_mono[OF choose_done]) auto
  have sw: "succeeds (switchToThread p s) ?P" if "fastfail \<longrightarrow> h"
  proof (cases "ksCurThread s = ksIdleThread s \<or> outranks_queued s")
    case top: True
    show ?thesis
    proof (rule succeeds_mono[OF switch_top[OF b c(1-3)]])
      fix q u assume u: "tcbs s q = Some u" "tcbQueued u" "tcbDomain u = ksCurDomain s"
      show "tcbPriority u \<le> tcbPriority c"
      proof (cases fastfail)
        case True
        then show ?thesis using h(2) that u by blast
      next
        case False
        then have "tcbPriority u \<le> tcbPriority t" "tcbPriority t \<le> tcbPriority c"
          using top t u by (auto simp: outranks_queued_def fastfail_def not_less)
        then show ?thesis by (rule order_trans)
      qed
    qed auto
  next
    case False
    show ?thesis
    proof (rule succeeds_mono[OF switchToThread_wp[OF b c(1)]], elim conjE)
      fix s' assume a: "base_sched ({} - {p}) s'" "ksCurThread s' = p" "qset s' = qset s - {p}" "sched_frame s (s'\<lparr>ksCurThread := ksCurThread s, ksArch := ksArch s\<rparr>)"
    "ksArch s' = (ksArch s)\<lparr>ttbr := vm_root s p\<rparr>"
      have "vm_current s'" using switched_vm_current[OF a(4,5,2) runnable_not_idle[OF b c(2)]] .
      then have "scheduled s'" using a(1-4) runnable_frame[OF a(4), of p] c(2) by (simp add: scheduled_def)
      then show "?P s'" using False by simp
    qed
  qed
  have "isRunnable s p = Some True" using c(2) by (simp add: runnable_def)
  then show ?thesis using enq app sw c(1,4) t h(1)
    by (cases fastfail; cases h) (simp_all add: scheduleCandidate_def fastfail_def[symmetric])
qed

lemma schedule_wp:
  assumes v: "valid_sched s"
  shows "succeeds (schedule s) (\<lambda>s'. valid_sched s' \<and> ksSchedulerAction s' = SchedulerAction_ResumeCurrentThread \<and>
    (ksSchedulerAction s = SchedulerAction_ResumeCurrentThread \<longrightarrow> ksCurThread s' = ksCurThread s) \<and>
    (ksSchedulerAction s = SchedulerAction_ChooseNewThread \<or>
     ksSchedulerAction s \<noteq> SchedulerAction_ResumeCurrentThread \<and> (ksCurThread s = ksIdleThread s \<or> outranks_queued s) \<longrightarrow>
       top_thread s' (ksCurThread s')))"
proof (cases "ksSchedulerAction s = SchedulerAction_ResumeCurrentThread")
  case True
  then have "schedule s = Some s" by (simp add: schedule_def)
  then show ?thesis using True v by simp
next
  case act: False
  have b: "base_sched {} s" and va: "valid_action s" using v by (auto simp: valid_sched_def)
  obtain t where t: "tcbs s (ksCurThread s) = Some t" using b by (auto simp: base_sched_def)
  let ?wr = "runnable_type (tsType t)"
  let ?P = "\<lambda>s'. scheduled s' \<and> (ksSchedulerAction s = SchedulerAction_ChooseNewThread \<or> ksCurThread s = ksIdleThread s \<or> outranks_queued s \<longrightarrow>
     top_thread s' (ksCurThread s'))"
  have "succeeds (if ?wr then tcbSchedEnqueue (ksCurThread s) s else Some s) (\<lambda>r. base_sched {} r \<and> sched_frame s r \<and>
     qset r \<subseteq> insert (ksCurThread s) (qset s))"
    using b t by (cases ?wr) (auto simp: runnable_tcb intro!: succeeds_mono[OF enqueue_base[OF b]])
  then have "succeeds (if ?wr then tcbSchedEnqueue (ksCurThread s) s else Some s) (\<lambda>r.
     succeeds (if ksSchedulerAction r = SchedulerAction_ChooseNewThread then scheduleChooseNewThread r
         else scheduleCandidate ?wr (ksSchedulerAction r) r) ?P)"
  proof (rule succeeds_mono, elim conjE)
    fix r assume r: "base_sched {} r" "sched_frame s r" "qset r \<subseteq> insert (ksCurThread s) (qset s)"
    note f = sched_frame_fields[OF r(2)]
    show "succeeds (if ksSchedulerAction r = SchedulerAction_ChooseNewThread then scheduleChooseNewThread r
         else scheduleCandidate ?wr (ksSchedulerAction r) r) ?P"
    proof (cases "ksSchedulerAction s = SchedulerAction_ChooseNewThread")
      case True
      then show ?thesis using f r(1) by (auto intro: succeeds_mono[OF scheduleChooseNewThread_wp])
    next
      case False
      let ?a = "ksSchedulerAction s"
      have a: "runnable s ?a" "?a \<noteq> ksCurThread s" "map_option tcbDomain (tcbs s ?a) = Some (ksCurDomain s)"
        using va act False unfolding valid_action_def by blast+
      obtain c where c: "tcbs r ?a = Some c" "tcbDomain c = ksCurDomain s"
        using sched_frame_field[where f = tcbDomain and p = ?a, OF r(2) core_fields(2)] a(3) by auto
      obtain t' where t': "tcbs r (ksCurThread s) = Some t'" "core t' = core t" using sched_frame_tcb[OF r(2) t] by auto
      have "outranks_queued r" if o: "outranks_queued s" unfolding outranks_queued_def f
      proof (intro allI impI, elim conjE)
        fix p w c assume w: "tcbs r p = Some w" "tcbQueued w" "tcbDomain w = ksCurDomain s" "tcbs r (ksCurThread s) = Some c"
        have "p = ksCurThread s \<or> p \<in> qset s" using r(3) w in_qset[OF w(1)] by auto
        then show "tcbPriority w \<le> tcbPriority c"
        proof
          assume "p \<in> qset s"
          then obtain w' where w': "tcbs s p = Some w'" "tcbQueued w'" by (auto simp: qset_def)
          then have "core w = core w'" using sched_frame_tcb[OF r(2) w'(1)] w(1) by auto
          then show ?thesis using o w w' t t' core_fields[of w w'] core_fields[OF t'(2)] by (auto simp: outranks_queued_def)
        qed (use w in simp)
      qed
      then have "succeeds (scheduleCandidate ?wr ?a r) ?P"
        using runnable_frame[OF r(2), of ?a] a(1,2) c t'(1) f False
        by (intro succeeds_mono[OF schedule_candidate[OF r(1) c(1)]]) auto
      then show ?thesis using f False by simp
    qed
  qed
  note ready = this
  have "isRunnable s (ksCurThread s) = Some ?wr" using t by (simp add: isRunnable_def)
  then have "schedule s = Option.bind (Option.bind (if ?wr then tcbSchedEnqueue (ksCurThread s) s else Some s)
      (\<lambda>r. if ksSchedulerAction r = SchedulerAction_ChooseNewThread then scheduleChooseNewThread r
         else scheduleCandidate ?wr (ksSchedulerAction r) r)) (\<lambda>s. Some (s\<lparr>ksSchedulerAction := SchedulerAction_ResumeCurrentThread\<rparr>))"
    using act by (simp add: schedule_def split del: if_split)
  then show ?thesis unfolding succeeds_bind succeeds_Some
    by (simp only: succeeds_bind succeeds_Some)
      (rule succeeds_mono[OF ready], erule succeeds_mono, use act in \<open>simp add: scheduled_valid\<close>)
qed

subsection \<open>A small system\<close>

text \<open>An idle thread, a running thread of priority 5 and a runnable one of priority 7, in two domains.\<close>

definition ex_thread :: "thread_state_type \<Rightarrow> prio_t \<Rightarrow> tcb" where
  "ex_thread ts prio = \<lparr>tsType = ts, tcbQueued = False, blockingObject = 0, blockingIPCBadge = 0, blockingIPCCanGrant = False,
     blockingIPCCanGrantReply = False, blockingIPCIsCall = False, tcbBoundNotification = 0, tcbFault = Fault_NullFault,
     tcbLookupFailure = Lookup_invalid_root, tcbDomain = 0, tcbFlags = 0, tcbMCP = 255, tcbPriority = prio, tcbTimeSlice = 5,
     tcbFaultHandler = 0, tcbIPCBuffer = 0, tcbSchedNext = 0, tcbSchedPrev = 0, tcbEPNext = 0, tcbEPPrev = 0,
     tcbContext = (\<lambda>_. 0)\<rparr>"

definition ex_kernel :: kernel_state where
  "ex_kernel = \<lparr>numDomains = 2,
     tcbs = [0x1000 \<mapsto> ex_thread ThreadState_IdleThreadState 0, 0x2000 \<mapsto> ex_thread ThreadState_Running 5,
             0x3000 \<mapsto> ex_thread ThreadState_Restart 7],
     eps = Map.empty, ntfns = Map.empty, ctes = (\<lambda>_. Some \<lparr>cte_cap = NullCap, cteMDBNode = nullMDBNode\<rparr>), ksReadyQueues = (\<lambda>_. \<lparr>head = 0, end_ptr = 0\<rparr>),
     ksReadyQueuesL1Bitmap = (\<lambda>_. 0), ksReadyQueuesL2Bitmap = (\<lambda>_ _. 0), ksCurThread = 0x2000, ksIdleThread = 0x1000,
     ksSchedulerAction = 0, ksCurDomain = 0, ksDomainTime = 3, ksDomScheduleIdx = 0, ksDomSchedule = [(0, 10), (1, 20)],
     ksWorkUnitsCompleted = 0, intStateIRQTable = (\<lambda>_. IRQInactive), intStateIRQNode = 0,
     irqMasked = (\<lambda>_. True), irqAcks = [], userMem = (\<lambda>_. 0),
     ksArch = \<lparr>ptes = (\<lambda>_. pte_invalid), armKSASIDTable = (\<lambda>_. 0), asidPools = (\<lambda>_ _. asid_map_none), armKSGlobalUserVSpace = 0x40000,
       ttbr = (0, 0x40000), tlbOps = []\<rparr>,
     irqPolls = [], gicConfig = (\<lambda>_. 0), sgiControl = [], ipcServerList = replicate 128 \<lparr>ServerThread = 0, svc_func = 0, svc_stk = 0\<rparr>, ipcServerList_top = 10\<rparr>"

lemma ex_queues: "valid_queues ex_kernel (\<lambda>_. [])"
  by (auto simp: valid_queues_def ex_kernel_def valid_tcb_def ex_thread_def bitmap_ok_def nonempty_def seL4_MaxPrio_def split: if_splits)

lemma ex_qset: "qset ex_kernel = {}"
  using qset_queues[OF ex_queues] by simp

lemma ex_tcbs: "tcbs ex_kernel 0x2000 = Some (ex_thread ThreadState_Running 5)" "tcbs ex_kernel 0x3000 = Some (ex_thread ThreadState_Restart 7)"
  by (simp_all add: ex_kernel_def)

lemma ex_base: "base_sched {} ex_kernel"
  unfolding base_sched_def using ex_queues ex_qset
  by (auto simp: valid_q_def valid_dom_def thread_slots_def) (auto simp: ex_kernel_def ex_thread_def)

lemma ex_valid: "valid_sched ex_kernel"
  unfolding valid_sched_def valid_action_def ex_qset vm_current_def vm_root_def using ex_base
  by (simp add: runnable_tcb) (simp add: ex_kernel_def ex_thread_def SchedulerAction_ResumeCurrentThread_def)

lemma ex_idx: "qidx ex_kernel (ex_thread ts 5) = 5" "\<not> tcbQueued (ex_thread ts n)"
  by (simp_all add: qidx_def rqi_def ex_thread_def ex_kernel_def CONFIG_NUM_PRIORITIES_def)

lemma ex_enqueued:
  "\<exists>s1. tcbSchedEnqueue 0x2000 ex_kernel = Some s1 \<and> valid_queues s1 ((\<lambda>_. [])(5 := [0x2000])) \<and> sched_frame ex_kernel s1"
  using tcbSchedEnqueue_ok[OF ex_queues ex_tcbs(1) ex_idx(2)] unfolding ex_idx by simp

subsection \<open>Properties of the ready queues\<close>

text \<open>
  In a state with well-formed ready queues, putting a thread that is not queued into its
  ready queue never fails: \<^verbatim>\<open>tcbSchedEnqueue\<close> puts it at the front and \<^verbatim>\<open>tcbSchedAppend\<close> at the back of the
  queue of its domain and priority, the links, the marks and the two-level bitmap stay consistent
  with the queues, and nothing else changes.
\<close>

lemma ready_queue_insert:
  assumes "valid_queues s Q" "tcbs s p = Some t" "\<not> tcbQueued t"
  shows "\<exists>s1 s2. tcbSchedEnqueue p s = Some s1 \<and> valid_queues s1 (Q(qidx s t := p # Q (qidx s t))) \<and> sched_frame s s1 \<and>
    tcbSchedAppend p s = Some s2 \<and> valid_queues s2 (Q(qidx s t := Q (qidx s t) @ [p])) \<and> sched_frame s s2"
  using tcbSchedEnqueue_ok[OF assms] tcbSchedAppend_ok[OF assms] by blast

text \<open>
  Removing a queued thread from its ready queue never fails wherever the thread is in the
  queue: it leaves the other threads of the queue in their order, clears the bitmap bits of a queue
  that became empty, and changes nothing else. A thread that is not queued is left alone.
\<close>

lemma ready_queue_remove:
  assumes "valid_queues s Q" "tcbs s p = Some t"
  shows "\<exists>s'. tcbSchedDequeue p s = Some s' \<and> valid_queues s' (Q(qidx s t := remove1 p (Q (qidx s t)))) \<and> sched_frame s s'"
proof (cases "tcbQueued t")
  case True
  then show ?thesis using tcbSchedDequeue_ok[OF assms] by blast
next
  case False
  then have "p \<notin> set (Q (qidx s t))" using unqueued_facts(1)[OF assms] by blast
  then show ?thesis using assms False by (simp add: tcbSchedDequeue_def remove1_idem)
qed

text \<open>
  The two-level bitmap lookup \<^verbatim>\<open>getHighestPrio\<close> computes what a search of all queues would: the
  bitmap of a domain is zero exactly when the domain has no queued thread; otherwise the lookup
  returns the greatest priority of a queued thread, and the queue of that priority starts with a thread.
\<close>

lemma highest_prio_max:
  assumes "valid_queues s Q" "d < numDomains s"
  shows "(ksReadyQueuesL1Bitmap s d = 0 \<longleftrightarrow> (\<nexists>p t. tcbs s p = Some t \<and> tcbQueued t \<and> tcbDomain t = d)) \<and>
    (ksReadyQueuesL1Bitmap s d \<noteq> 0 \<longrightarrow> (\<exists>h x t. getHighestPrio s d = Some h \<and>
      head (ksReadyQueues s (rqi s d h)) = x \<and> tcbs s x = Some t \<and> tcbQueued t \<and> tcbDomain t = d \<and> tcbPriority t = h \<and>
      (\<forall>q u. tcbs s q = Some u \<and> tcbQueued u \<and> tcbDomain u = d \<longrightarrow> tcbPriority u \<le> h)))"
  using highest_queue[OF assms] no_queue[OF assms(1)] by (cases "ksReadyQueuesL1Bitmap s d = 0") blast+

subsection \<open>Properties of the scheduler\<close>

text \<open>
  With well-formed queues that hold runnable threads only, \<^verbatim>\<open>chooseThread\<close> never trips an
  assertion. It makes the head of the highest-priority non-empty queue of the current domain the
  current thread and takes it out of the queues, or the idle thread when the domain has no queued
  thread; afterwards no queued thread of the domain outranks the current thread.
\<close>

lemma choose_thread_highest:
  assumes "base_sched {} s"
  shows "\<exists>s'. chooseThread s = Some s' \<and> base_sched {} s' \<and> qset s' = qset s - {ksCurThread s'} \<and> top_thread s' (ksCurThread s') \<and>
    (if \<exists>p t. p \<in> qset s \<and> tcbs s p = Some t \<and> tcbDomain t = ksCurDomain s then ksCurThread s' \<in> qset s \<and> runnable s' (ksCurThread s')
     else ksCurThread s' = ksIdleThread s)"
proof -
  obtain Q where vq: "valid_queues s Q" using assms by (auto simp: base_sched_def valid_q_def)
  have d: "ksCurDomain s < numDomains s" using assms by (simp add: base_sched_def valid_dom_def)
  have q: "(\<exists>p t. p \<in> qset s \<and> tcbs s p = Some t \<and> tcbDomain t = ksCurDomain s) \<longleftrightarrow> ksReadyQueuesL1Bitmap s (ksCurDomain s) \<noteq> 0"
  proof
    assume "\<exists>p t. p \<in> qset s \<and> tcbs s p = Some t \<and> tcbDomain t = ksCurDomain s"
    then show "ksReadyQueuesL1Bitmap s (ksCurDomain s) \<noteq> 0" using no_queue[OF vq, of "ksCurDomain s"] in_qset by blast
  next
    assume "ksReadyQueuesL1Bitmap s (ksCurDomain s) \<noteq> 0"
    then show "\<exists>p t. p \<in> qset s \<and> tcbs s p = Some t \<and> tcbDomain t = ksCurDomain s"
      using highest_queue[OF vq d] in_qset by blast
  qed
  obtain s' where s': "chooseThread s = Some s'" "scheduled s'" "top_thread s' (ksCurThread s')" "qset s' = qset s - {ksCurThread s'}"
    "sched_frame s (s'\<lparr>ksCurThread := ksCurThread s, ksArch := ksArch s\<rparr>)"
    "if ksReadyQueuesL1Bitmap s (ksCurDomain s) = 0 then ksCurThread s' = ksIdleThread s else ksCurThread s' \<in> qset s"
    using chooseThread_wp[OF assms] unfolding succeeds_def by blast
  have "runnable s' p" if "p \<in> qset s" for p
    using that assms runnable_frame[OF s'(5), of p] by (simp add: base_sched_def)
  then show ?thesis unfolding q using s' by (auto simp: scheduled_def split: if_splits)
qed

text \<open>
  C27. In a state that satisfies the invariant of the scheduler, \<^verbatim>\<open>schedule\<close> returns, none of its assertions
  fails, and it leaves a state that satisfies the invariant again, with the action reset: the current
  thread is runnable or the idle thread, is in no queue, and the translation table base register holds
  the address space of its capability, or the empty one if that capability is stale. When the action is to resume the current thread, nothing
  changes at all. When it is to choose a new thread, no
  queued thread of the current domain outranks the thread it chose; this also holds when another
  operation proposed a thread to switch to, provided the thread that was running was not outranked
  before (or was the idle thread), although in that case the bitmap is not always consulted. For a
  proposal made while the running thread was already outranked nothing is claimed about the rank of the result.
\<close>

theorem schedule_correct:
  assumes "valid_sched s"
  shows "\<exists>s'. schedule s = Some s' \<and> valid_sched s' \<and> ksSchedulerAction s' = SchedulerAction_ResumeCurrentThread \<and>
    ksCurThread s' \<notin> qset s' \<and> (runnable s' (ksCurThread s') \<or> ksCurThread s' = ksIdleThread s') \<and>
    ttbr (ksArch s') = (if ksCurThread s' = ksIdleThread s' then (0, armKSGlobalUserVSpace (ksArch s')) else vm_root s' (ksCurThread s')) \<and>
    (ksSchedulerAction s = SchedulerAction_ResumeCurrentThread \<longrightarrow> s' = s) \<and>
    (ksSchedulerAction s = SchedulerAction_ChooseNewThread \<or>
     ksSchedulerAction s \<noteq> SchedulerAction_ResumeCurrentThread \<and> (ksCurThread s = ksIdleThread s \<or> outranks_queued s) \<longrightarrow>
       top_thread s' (ksCurThread s'))"
proof -
  obtain s' where s': "schedule s = Some s'" "valid_sched s'" "ksSchedulerAction s' = SchedulerAction_ResumeCurrentThread"
    "ksSchedulerAction s = SchedulerAction_ChooseNewThread \<or>
     ksSchedulerAction s \<noteq> SchedulerAction_ResumeCurrentThread \<and> (ksCurThread s = ksIdleThread s \<or> outranks_queued s) \<longrightarrow>
       top_thread s' (ksCurThread s')"
    using schedule_wp[OF assms] unfolding succeeds_def by blast
  then have "ksCurThread s' \<notin> qset s'" "runnable s' (ksCurThread s') \<or> ksCurThread s' = ksIdleThread s'" "vm_current s'"
    by (auto simp: valid_sched_def valid_action_def)
  moreover have "s' = s" if "ksSchedulerAction s = SchedulerAction_ResumeCurrentThread"
    using s'(1) that by (auto simp: schedule_def)
  ultimately show ?thesis using s' unfolding vm_current_def by blast
qed

theorem schedule_correct_witness:
  "\<exists>s1 s2. possibleSwitchTo 0x3000 ex_kernel = Some s1 \<and> schedule s1 = Some s2 \<and> valid_sched s2 \<and> top_thread s2 (ksCurThread s2)"
proof -
  have r: "runnable ex_kernel 0x3000" "0x3000 \<noteq> ksCurThread ex_kernel" "map_option tcbDomain (tcbs ex_kernel 0x3000) = Some 0"
    "0 = ksCurDomain ex_kernel \<or> 0x3000 \<noteq> ksSchedulerAction ex_kernel"
    by (simp_all add: runnable_tcb ex_kernel_def ex_thread_def)
  have v: "base_sched {} ex_kernel" "valid_action ex_kernel" using ex_valid by (simp_all add: valid_sched_def)
  obtain s1 where s1: "possibleSwitchTo 0x3000 ex_kernel = Some s1" "valid_sched s1" "action_frame ex_kernel s1"
    using possibleSwitchTo_wp[OF v r(1) _ r(2-4)] ex_qset unfolding succeeds_def by blast
  have s1_eq: "s1 = ex_kernel\<lparr>ksSchedulerAction := 0x3000\<rparr>"
    using s1(1) by (simp add: possibleSwitchTo_def ex_tcbs) (simp add: ex_kernel_def ex_thread_def SchedulerAction_ResumeCurrentThread_def)
  have "outranks_queued s1" using ex_qset unfolding outranks_queued_def s1_eq qset_def by auto
  then show ?thesis using schedule_correct[OF s1(2)] s1(1)
    by (auto simp: s1_eq SchedulerAction_ResumeCurrentThread_def)
qed

text \<open>
  Setting the priority of a thread to a valid one keeps the invariant of the scheduler, whatever
  the state of the thread and wherever it is queued, and a runnable thread stays known to the
  scheduler: it is the current thread, in a queue (of its new priority), or the thread to switch to.
\<close>

lemma set_priority_valid:
  assumes "valid_sched s" "tcbs s p = Some t" "prio \<le> seL4_MaxPrio"
  shows "\<exists>s'. setPriority p prio s = Some s' \<and> valid_sched s' \<and> map_option tcbPriority (tcbs s' p) = Some prio \<and>
    (runnable s p \<longrightarrow> p = ksCurThread s \<or> p \<in> qset s' \<or> ksSchedulerAction s' = p)"
  using setPriority_wp[OF assms] unfolding succeeds_def by blast

text \<open>
  Moving a thread to another existing domain keeps the invariant of the scheduler, provided the
  thread is not the one the scheduler was asked to switch to: a runnable thread is queued in its new
  domain, and moving the current thread forces a new choice.
\<close>

lemma set_domain_valid:
  assumes "valid_sched s" "tcbs s p = Some t" "dm < numDomains s" "ksSchedulerAction s \<noteq> p"
  shows "\<exists>s'. setDomain p dm s = Some s' \<and> valid_sched s' \<and> map_option tcbDomain (tcbs s' p) = Some dm \<and>
    (runnable s p \<longrightarrow> p \<in> qset s') \<and> (p = ksCurThread s \<longrightarrow> ksSchedulerAction s' = SchedulerAction_ChooseNewThread)"
  using setDomain_wp[OF assms] unfolding succeeds_def by blast

text \<open>
  A timer tick keeps the invariant of the scheduler. A running thread loses one unit of its time
  slice; when it has used the slice up it gets a new one, goes to the back of its queue and the
  scheduler has to choose again. With several domains the domain loses one unit of time too, and the
  scheduler has to choose again when there is none left.
\<close>

lemma timer_tick_preempts:
  assumes "valid_sched s" "tcbs s (ksCurThread s) = Some t"
  shows "\<exists>s'. timerTick s = Some s' \<and> valid_sched s' \<and> ksCurThread s' = ksCurThread s \<and>
    (tsType t = ThreadState_Running \<longrightarrow>
      map_option tcbTimeSlice (tcbs s' (ksCurThread s)) = Some (if tcbTimeSlice t > 1 then tcbTimeSlice t - 1 else CONFIG_TIME_SLICE) \<and>
      (\<not> tcbTimeSlice t > 1 \<longrightarrow> ksCurThread s \<in> qset s' \<and> ksSchedulerAction s' = SchedulerAction_ChooseNewThread)) \<and>
    (numDomains s > 1 \<longrightarrow> ksDomainTime s' = ksDomainTime s - 1 \<and>
      (ksDomainTime s = 1 \<longrightarrow> ksSchedulerAction s' = SchedulerAction_ChooseNewThread))"
  using timerTick_wp[OF assms] unfolding succeeds_def by blast

end
