(* ===== verification/KMdbInv.thy ===== *)
theory KMdbInv
  imports KMdb KSchedule
begin

unbundle bit_operations_syntax

text \<open>
  The invariant of the capability derivation tree and what the operations of \<open>KMdb\<close> do to it: inserting,
  moving, swapping and removing a capability change one place of one chain, and the question whether a
  capability is the last one of its object is answered by its two neighbours.
\<close>

subsection \<open>The invariant of the derivation tree\<close>

definition mnext :: "cte \<Rightarrow> ptr" where "mnext c = mdbNext (cteMDBNode c)"
definition mprev :: "cte \<Rightarrow> ptr" where "mprev c = mdbPrev (cteMDBNode c)"

text \<open>A null-terminated chain of slots.\<close>

definition is_chain :: "(ptr \<Rightarrow> cte option) \<Rightarrow> ptr list \<Rightarrow> bool" where
  "is_chain m xs \<longleftrightarrow> xs \<noteq> [] \<and> dlink mnext mprev m 0 xs 0 \<and> distinct xs \<and> 0 \<notin> set xs"

text \<open>
  The slots with a capability form the chains \<open>L\<close>, each slot in exactly one place of one chain, and the
  empty slots have null links.
\<close>

definition valid_mdb :: "kernel_state \<Rightarrow> ptr list set \<Rightarrow> bool" where
  "valid_mdb s L \<longleftrightarrow> ctes s 0 = None \<and>
     (\<forall>xs\<in>L. is_chain (ctes s) xs) \<and> (\<forall>xs\<in>L. \<forall>ys\<in>L. xs \<noteq> ys \<longrightarrow> set xs \<inter> set ys = {}) \<and>
     (\<forall>p. p \<in> \<Union>(set ` L) \<longleftrightarrow> (\<exists>c. ctes s p = Some c \<and> cte_cap c \<noteq> NullCap)) \<and>
     (\<forall>p c. ctes s p = Some c \<and> cte_cap c = NullCap \<longrightarrow> mnext c = 0 \<and> mprev c = 0)"

lemma valid_mdbD:
  assumes "valid_mdb s L"
  shows "xs \<in> L \<Longrightarrow> is_chain (ctes s) xs" "xs \<in> L \<Longrightarrow> ys \<in> L \<Longrightarrow> p \<in> set xs \<Longrightarrow> p \<in> set ys \<Longrightarrow> xs = ys"
    "xs \<in> L \<Longrightarrow> p \<in> set xs \<Longrightarrow> \<exists>c. ctes s p = Some c \<and> cte_cap c \<noteq> NullCap"
    "ctes s p = Some c \<Longrightarrow> cte_cap c \<noteq> NullCap \<Longrightarrow> \<exists>xs\<in>L. p \<in> set xs"
    "ctes s p = Some c \<Longrightarrow> cte_cap c = NullCap \<Longrightarrow> mnext c = 0 \<and> mprev c = 0"
    "ctes s p = Some c \<Longrightarrow> cte_cap c = NullCap \<Longrightarrow> xs \<in> L \<Longrightarrow> p \<notin> set xs"
    "ctes s 0 = None"
proof -
  show "ctes s 0 = None" using assms by (simp add: valid_mdb_def)
  have a: "\<forall>xs\<in>L. is_chain (ctes s) xs" "\<forall>xs\<in>L. \<forall>ys\<in>L. xs \<noteq> ys \<longrightarrow> set xs \<inter> set ys = {}"
    and b: "\<forall>p. p \<in> \<Union>(set ` L) \<longleftrightarrow> (\<exists>c. ctes s p = Some c \<and> cte_cap c \<noteq> NullCap)"
    and e: "\<forall>p c. ctes s p = Some c \<and> cte_cap c = NullCap \<longrightarrow> mnext c = 0 \<and> mprev c = 0"
    using assms unfolding valid_mdb_def by - (elim conjE, assumption)+
  have b: "p \<in> \<Union>(set ` L) \<longleftrightarrow> (\<exists>c. ctes s p = Some c \<and> cte_cap c \<noteq> NullCap)" for p using b by (rule spec)
  show "xs \<in> L \<Longrightarrow> is_chain (ctes s) xs" using a(1) by blast
  show "xs \<in> L \<Longrightarrow> ys \<in> L \<Longrightarrow> p \<in> set xs \<Longrightarrow> p \<in> set ys \<Longrightarrow> xs = ys" using a(2) by blast
  show "xs \<in> L \<Longrightarrow> p \<in> set xs \<Longrightarrow> \<exists>c. ctes s p = Some c \<and> cte_cap c \<noteq> NullCap" using b[of p] by blast
  show "ctes s p = Some c \<Longrightarrow> cte_cap c \<noteq> NullCap \<Longrightarrow> \<exists>xs\<in>L. p \<in> set xs" using b[of p] by auto
  show "ctes s p = Some c \<Longrightarrow> cte_cap c = NullCap \<Longrightarrow> mnext c = 0 \<and> mprev c = 0" using e by blast
  show "ctes s p = Some c \<Longrightarrow> cte_cap c = NullCap \<Longrightarrow> xs \<in> L \<Longrightarrow> p \<notin> set xs" using b[of p] by auto
qed

lemma chain_neighbours:
  assumes "is_chain m (ys @ x # zs)" "m x = Some c"
  shows "mprev c = last (0 # ys)" "mnext c = hd (zs @ [0])"
  using assms by (auto simp: is_chain_def dlink_append)

text \<open>A link leads to a slot that links back.\<close>

lemma chain_next:
  assumes "is_chain m xs" "x \<in> set xs" "m x = Some c" "mnext c \<noteq> 0"
  shows "mnext c \<in> set xs" "mnext c \<noteq> x" "\<exists>n. m (mnext c) = Some n \<and> mprev n = x"
proof -
  obtain ys zs where xs: "xs = ys @ x # zs" using assms(2) by (auto dest: split_list)
  obtain z zs' where z: "zs = z # zs'" using chain_neighbours(2)[of m ys x zs c] assms xs by (cases zs) auto
  have n: "mnext c = z" using chain_neighbours(2)[of m ys x zs c] assms xs z by simp
  show "mnext c \<in> set xs" "mnext c \<noteq> x" using n xs z assms(1) by (auto simp: is_chain_def)
  obtain n where "m z = Some n" using dlink_mem[of mnext mprev m 0 xs 0 z] assms(1) xs z by (auto simp: is_chain_def)
  moreover have "is_chain m ((ys @ [x]) @ z # zs')" using assms(1) xs z by simp
  ultimately show "\<exists>n. m (mnext c) = Some n \<and> mprev n = x" using chain_neighbours(1)[of m "ys @ [x]" z zs'] n by fastforce
qed

lemma chain_prev:
  assumes "is_chain m xs" "x \<in> set xs" "m x = Some c" "mprev c \<noteq> 0"
  shows "mprev c \<in> set xs" "mprev c \<noteq> x" "\<exists>n. m (mprev c) = Some n \<and> mnext n = x"
proof -
  obtain ys zs where xs: "xs = ys @ x # zs" using assms(2) by (auto dest: split_list)
  obtain y ys' where y: "ys = ys' @ [y]" using chain_neighbours(1)[of m ys x zs c] assms xs by (cases ys rule: rev_cases) auto
  have n: "mprev c = y" using chain_neighbours(1)[of m ys x zs c] assms xs y by simp
  show "mprev c \<in> set xs" "mprev c \<noteq> x" using n xs y assms(1) by (auto simp: is_chain_def)
  obtain n where "m y = Some n" using dlink_mem[of mnext mprev m 0 xs 0 y] assms(1) xs y by (auto simp: is_chain_def)
  moreover have "is_chain m (ys' @ y # x # zs)" using assms(1) xs y by simp
  ultimately show "\<exists>n. m (mprev c) = Some n \<and> mnext n = x" using chain_neighbours(2)[of m ys' y "x # zs"] n by fastforce
qed

text \<open>Replacing a chain.\<close>

lemma valid_mdb_replace:
  assumes v: "valid_mdb s L" and xs: "xs \<in> L" and ch: "xs' = [] \<or> is_chain (ctes s') xs'"
    and same: "\<And>p. p \<notin> set xs \<union> set xs' \<Longrightarrow> ctes s' p = ctes s p"
    and new: "\<And>p. p \<in> set xs' \<Longrightarrow> \<exists>c. ctes s' p = Some c \<and> cte_cap c \<noteq> NullCap"
    and old: "\<And>p. p \<in> set xs - set xs' \<Longrightarrow> \<exists>c. ctes s' p = Some c \<and> cte_cap c = NullCap \<and> mnext c = 0 \<and> mprev c = 0"
    and fresh: "\<And>p. p \<in> set xs' - set xs \<Longrightarrow> \<exists>c. ctes s p = Some c \<and> cte_cap c = NullCap"
  shows "valid_mdb s' (if xs' = [] then L - {xs} else insert xs' (L - {xs}))" (is "valid_mdb s' ?L")
proof -
  note d = valid_mdbD[OF v]
  have L: "?L = (L - {xs}) \<union> (if xs' = [] then {} else {xs'})" by auto
  have disj: "set ys \<inter> (set xs \<union> set xs') = {}" if ys: "ys \<in> L" "ys \<noteq> xs" for ys
  proof -
    have "p \<notin> set xs \<union> set xs'" if p: "p \<in> set ys" for p
    proof
      assume "p \<in> set xs \<union> set xs'"
      then consider "p \<in> set xs" | "p \<in> set xs' - set xs" by blast
      then show False using d(2)[OF ys(1) xs p] ys(2) d(3)[OF ys(1) p] fresh by cases force+
    qed
    then show ?thesis by blast
  qed
  have "is_chain (ctes s') ys" if ys: "ys \<in> ?L" for ys
  proof (cases "ys = xs' \<and> xs' \<noteq> []")
    case False
    then have yL: "ys \<in> L" "ys \<noteq> xs" using ys by (auto split: if_splits)
    have "dlink mnext mprev (ctes s') 0 ys 0 = dlink mnext mprev (ctes s) 0 ys 0"
      using disj[OF yL] same by (intro dlink_cong) force
    then show ?thesis using d(1)[OF yL(1)] by (simp add: is_chain_def)
  qed (use ch in auto)
  moreover have "set ys \<inter> set zs = {}" if "ys \<in> ?L" "zs \<in> ?L" "ys \<noteq> zs" for ys zs
    using that disj d(2) xs by (auto split: if_splits)
  moreover have "p \<in> \<Union>(set ` ?L) \<longleftrightarrow> (\<exists>c. ctes s' p = Some c \<and> cte_cap c \<noteq> NullCap)" for p
  proof -
    consider (new) "p \<in> set xs'" | (old) "p \<in> set xs - set xs'" | (other) "p \<notin> set xs \<union> set xs'" by blast
    then show ?thesis
    proof cases
      case new
      then have "xs' \<noteq> []" by auto
      then show ?thesis using assms(5)[OF new] new by auto
    next
      case old
      then have "p \<notin> \<Union>(set ` ?L)" using disj by (auto split: if_splits)
      then show ?thesis using assms(6)[OF old] by auto
    next
      case other
      then have "p \<in> \<Union>(set ` ?L) \<longleftrightarrow> p \<in> \<Union>(set ` L)" by (auto split: if_splits)
      then show ?thesis using same[OF other] v by (simp add: valid_mdb_def)
    qed
  qed
  moreover have "mnext c = 0 \<and> mprev c = 0" if c: "ctes s' p = Some c" "cte_cap c = NullCap" for p c
  proof -
    consider (new) "p \<in> set xs'" | (old) "p \<in> set xs - set xs'" | (other) "p \<notin> set xs \<union> set xs'" by blast
    then show ?thesis
      using new[of p] old[of p] same[of p] c d(5)[of p c] by cases auto
  qed
  moreover have "ctes s' 0 = None"
  proof -
    have "0 \<notin> set xs \<union> set xs'" using d(3)[OF xs, of 0] d(7) fresh[of 0] by auto
    then show ?thesis using same[of 0] d(7) by simp
  qed
  ultimately show ?thesis unfolding valid_mdb_def by blast
qed

subsection \<open>Inserting\<close>

text \<open>An untyped capability that was copied has no free memory left.\<close>

definition as_full :: "cap \<Rightarrow> cap \<Rightarrow> cap" where
  "as_full newCap cap = (case cap of
     UntypedCap dev bits fi p \<Rightarrow> (case newCap of
        UntypedCap _ bits' _ p' \<Rightarrow> if p = p' \<and> bits' = bits then UntypedCap dev bits (MAX_FREE_INDEX bits) p else cap
      | _ \<Rightarrow> cap)
   | _ \<Rightarrow> cap)"

lemma as_full_null [simp]: "as_full newCap cap = NullCap \<longleftrightarrow> cap = NullCap"
  by (auto simp: as_full_def split: cap.splits)

lemma setUntypedCapAsFull_eq:
  assumes "ctes s src = Some c"
  shows "setUntypedCapAsFull (cte_cap c) newCap src s = Some (s\<lparr>ctes := (ctes s)(src := Some (c\<lparr>cte_cap := as_full newCap (cte_cap c)\<rparr>))\<rparr>)"
proof -
  show ?thesis
  proof (cases "\<exists>dev bits fi p dev' fi'. cte_cap c = UntypedCap dev bits fi p \<and> newCap = UntypedCap dev' bits fi' p")
    case True
    then show ?thesis using assms by (auto simp: setUntypedCapAsFull_def as_full_def)
  next
    case False
    then have "setUntypedCapAsFull (cte_cap c) newCap src s = Some s" "as_full newCap (cte_cap c) = cte_cap c"
      by (auto simp: setUntypedCapAsFull_def as_full_def split: cap.splits)
    then show ?thesis using assms by (simp add: fun_upd_idem)
  qed
qed

lemma upd_mdb_nz_eq:
  "upd_mdb_nz p f s = (if p = 0 then Some s else case ctes s p of None \<Rightarrow> None
     | Some c \<Rightarrow> Some (s\<lparr>ctes := (ctes s)(p := Some (c\<lparr>cteMDBNode := f (cteMDBNode c)\<rparr>))\<rparr>))"
  by (simp add: upd_mdb_nz_def upd_mdb_def upd_cte_def)

text \<open>
  Two slots updated next to each other in a chain: the parent keeps its previous link and links to the
  new slot, the new slot links to both neighbours, and the next slot, if any, links back to the new one.
\<close>

lemma insert_chain:
  assumes v: "valid_mdb s L" and ch: "ys @ x # zs \<in> L" and y: "ctes s y = Some d" "cte_cap d = NullCap"
    and x: "ctes s x = Some n" "ctes s' x = Some n'" "mnext n' = y" "mprev n' = mprev n" "cte_cap n' \<noteq> NullCap"
    and y': "ctes s' y = Some k" "mnext k = mnext n" "mprev k = x" "cte_cap k \<noteq> NullCap"
    and z: "\<And>q. mnext n \<noteq> 0 \<Longrightarrow> ctes s (mnext n) = Some q \<Longrightarrow> \<exists>q'. ctes s' (mnext n) = Some q' \<and> mnext q' = mnext q \<and> mprev q' = y \<and> cte_cap q' = cte_cap q"
    and same: "\<And>p. p \<notin> {x, y, mnext n} \<or> p = 0 \<Longrightarrow> ctes s' p = ctes s p"
  shows "valid_mdb s' (insert (ys @ x # y # zs) (L - {ys @ x # zs}))"
proof -
  note dv = valid_mdbD[OF v]
  let ?xs = "ys @ x # zs" and ?xs' = "ys @ x # y # zs"
  have c: "is_chain (ctes s) ?xs" using dv(1)[OF ch] .
  have dist: "distinct ?xs" "0 \<notin> set ?xs" "y \<notin> set ?xs" using c dv(6)[OF y ch] by (auto simp: is_chain_def)
  have y0: "y \<noteq> 0" using y(1) dv(7) by auto
  have nx: "mnext n = hd (zs @ [0])" using chain_neighbours(2)[OF c x(1)] .
  have z_in: "\<exists>q. ctes s z = Some q \<and> cte_cap q \<noteq> NullCap" if "z \<in> set ?xs" for z using dv(3)[OF ch that] .
  have nxt: "\<exists>q q'. ctes s z = Some q \<and> ctes s' z = Some q' \<and> mnext q' = mnext q \<and> mprev q' = y \<and> cte_cap q' = cte_cap q"
    if "zs = z # zs'" for z zs'
  proof -
    have "mnext n = z" "z \<noteq> 0" using nx that dist(2) by auto
    then show ?thesis using z z_in[of z] that by auto
  qed
  have same': "ctes s' p = ctes s p" if "p \<in> set ys \<union> set (tl zs)" for p
  proof (rule same)
    have "p \<in> set ?xs" using that by (cases zs) auto
    then have "p \<noteq> y" using dist(3) by blast
    moreover have "p \<noteq> x" "p \<noteq> mnext n" using that dist nx by (cases zs; auto)+
    ultimately show "p \<notin> {x, y, mnext n} \<or> p = 0" by simp
  qed
  have "dlink mnext mprev (ctes s') 0 ?xs' 0"
  proof (rule dlink_insert_after[where m = "ctes s" and n = n and n' = n' and k = k])
    show "dlink mnext mprev (ctes s) 0 ?xs 0" using c by (simp add: is_chain_def)
    show "map_option (\<lambda>n. (mnext n, mprev n)) (ctes s' p) = map_option (\<lambda>n. (mnext n, mprev n)) (ctes s p)"
      if "p \<in> set ys \<union> set (tl zs)" for p using same'[OF that] by simp
    show "\<exists>k k'. ctes s z = Some k \<and> ctes s' z = Some k' \<and> mnext k' = mnext k \<and> mprev k' = y" if "zs = z # zs'" for z zs'
      using nxt[OF that] by blast
  qed (use dist x y' nx in auto)
  then have ch': "is_chain (ctes s') ?xs'" using dist y0 by (auto simp: is_chain_def)
  have "valid_mdb s' (if ?xs' = [] then L - {?xs} else insert ?xs' (L - {?xs}))"
  proof (rule valid_mdb_replace[OF v ch])
    show "ctes s' p = ctes s p" if "p \<notin> set ?xs \<union> set ?xs'" for p
    proof (cases "p = mnext n")
      case True
      then have "zs = []" "p = 0" using that nx by (cases zs; auto)+
      then show ?thesis using same by blast
    qed (use that in \<open>intro same, auto\<close>)
    show "\<exists>c. ctes s' p = Some c \<and> cte_cap c \<noteq> NullCap" if p: "p \<in> set ?xs'" for p
    proof -
      consider "p = x" | "p = y" | z zs' where "zs = z # zs'" "p = z" | "p \<in> set ys \<union> set (tl zs)" using p by (cases zs) auto
      then show ?thesis
      proof cases
        case 3
        have "p \<in> set ?xs" using 3 by simp
        then show ?thesis using nxt[OF 3(1)] z_in[of p] 3(2) by auto
      next
        case 4
        then have "p \<in> set ?xs" by (cases zs) auto
        then show ?thesis using same'[OF 4] z_in[of p] by auto
      qed (use x y' in auto)
    qed
  qed (use ch' y dist in auto)
  then show ?thesis by simp
qed

lemmas cte_upds = set_cap_def set_node_def upd_mdb_def upd_mdb_nz_eq

text \<open>The slot before and the slot after one of a chain exist, differ from it and from an empty slot.\<close>

lemma valid_mdb_next:
  assumes "valid_mdb s L" "ctes s p = Some c" "mnext c \<noteq> 0"
  obtains n where "ctes s (mnext c) = Some n" "mprev n = p" "mnext c \<noteq> p" "cte_cap n \<noteq> NullCap" "mnext c \<noteq> mprev c"
proof -
  have "cte_cap c \<noteq> NullCap" using valid_mdbD(5)[OF assms(1,2)] assms(3) by blast
  then obtain xs where xs: "xs \<in> L" "p \<in> set xs" using valid_mdbD(4)[OF assms(1,2)] by blast
  note ch = valid_mdbD(1)[OF assms(1) xs(1)]
  note n = chain_next[OF ch xs(2) assms(2,3)]
  obtain ys zs where sp: "xs = ys @ p # zs" using xs(2) by (auto dest: split_list)
  have "mprev c = last (0 # ys)" "mnext c = hd (zs @ [0])" using chain_neighbours[of "ctes s" ys p zs c] ch sp assms(2) by auto
  then have "mnext c \<noteq> mprev c" using ch sp assms(3) by (cases ys rule: rev_cases; cases zs) (auto simp: is_chain_def)
  then show thesis using that n valid_mdbD(3)[OF assms(1) xs(1) n(1)] by auto
qed

lemma valid_mdb_prev:
  assumes "valid_mdb s L" "ctes s p = Some c" "mprev c \<noteq> 0"
  obtains n where "ctes s (mprev c) = Some n" "mnext n = p" "mprev c \<noteq> p" "cte_cap n \<noteq> NullCap"
proof -
  have "cte_cap c \<noteq> NullCap" using valid_mdbD(5)[OF assms(1,2)] assms(3) by blast
  then obtain xs where xs: "xs \<in> L" "p \<in> set xs" using valid_mdbD(4)[OF assms(1,2)] by blast
  note n = chain_prev[OF valid_mdbD(1)[OF assms(1) xs(1)] xs(2) assms(2,3)]
  show thesis using that n valid_mdbD(3)[OF assms(1) xs(1) n(1)] by auto
qed

lemma cteInsert_wp:
  assumes v: "valid_mdb s L" and ch: "ys @ src # zs \<in> L" and dst: "ctes s dst = Some d" "cte_cap d = NullCap"
    and c: "ctes s src = Some c" and rv: "isCapRevocable newCap (cte_cap c) = Some rv" and new: "newCap \<noteq> NullCap"
  shows "succeeds (cteInsert newCap src dst s) (\<lambda>s'.
     valid_mdb s' (insert (ys @ src # dst # zs) (L - {ys @ src # zs})) \<and>
     ctes s' dst = Some (d\<lparr>cte_cap := newCap, cteMDBNode := \<lparr>mdbNext = mnext c, mdbRevocable = rv, mdbFirstBadged = rv, mdbPrev = src\<rparr>\<rparr>) \<and>
     ctes s' src = Some (c\<lparr>cte_cap := as_full newCap (cte_cap c), cteMDBNode := (cteMDBNode c)\<lparr>mdbNext := dst\<rparr>\<rparr>))"
proof -
  have cn: "cte_cap c \<noteq> NullCap" "src \<noteq> dst" using valid_mdbD(3)[OF v ch, of src] c dst by auto
  have d0: "mdbNext (cteMDBNode d) = 0" "mdbPrev (cteMDBNode d) = 0" using valid_mdbD(5)[OF v dst] by (auto simp: mnext_def mprev_def)
  have nz: "src \<noteq> 0" "dst \<noteq> 0" using c dst valid_mdbD(7)[OF v] by auto
  have nd: "mdbNext (cteMDBNode c) \<noteq> dst"
    using valid_mdb_next[OF v c] dst valid_mdbD(7)[OF v] by (metis mnext_def option.inject option.simps(3))
  let ?n = "c\<lparr>cte_cap := as_full newCap (cte_cap c), cteMDBNode := (cteMDBNode c)\<lparr>mdbNext := dst\<rparr>\<rparr>" and ?k = "d\<lparr>cte_cap := newCap, cteMDBNode := (cteMDBNode c)\<lparr>mdbPrev := src, mdbRevocable := rv, mdbFirstBadged := rv\<rparr>\<rparr>"
  show ?thesis
  proof (cases "mdbNext (cteMDBNode c) = 0")
    case True
    let ?s = "s\<lparr>ctes := (ctes s)(src := Some ?n,
        dst := Some ?k)\<rparr>"
    have "cteInsert newCap src dst s = Some ?s"
      using c dst d0 rv cn True by (simp add: cteInsert_def setUntypedCapAsFull_eq cte_upds fun_upd_twist Let_def)
    moreover have "valid_mdb ?s (insert (ys @ src # dst # zs) (L - {ys @ src # zs}))"
      by (rule insert_chain[OF v ch dst c, where n' = ?n and k = ?k]) (use cn nz new True in \<open>auto simp: mnext_def mprev_def\<close>)
    ultimately show ?thesis using cn by (simp add: mnext_def)
  next
    case False
    then obtain n where n: "ctes s (mdbNext (cteMDBNode c)) = Some n" "mdbNext (cteMDBNode c) \<noteq> src"
      using valid_mdb_next[OF v c] by (metis mnext_def)
    let ?s = "s\<lparr>ctes := (ctes s)(src := Some ?n,
        dst := Some ?k,
        mdbNext (cteMDBNode c) := Some (n\<lparr>cteMDBNode := (cteMDBNode n)\<lparr>mdbPrev := dst\<rparr>\<rparr>))\<rparr>"
    have "cteInsert newCap src dst s = Some ?s"
      using c dst d0 rv cn False nd n by (simp add: cteInsert_def setUntypedCapAsFull_eq cte_upds fun_upd_twist Let_def)
    moreover have "valid_mdb ?s (insert (ys @ src # dst # zs) (L - {ys @ src # zs}))"
      by (rule insert_chain[OF v ch dst c, where n' = ?n and k = ?k]) (use cn nz new False n nd in \<open>auto simp: mnext_def mprev_def\<close>)
    ultimately show ?thesis using cn nd n by (simp add: mnext_def)
  qed
qed

lemma insertNewCap_wp:
  assumes v: "valid_mdb s L" and ch: "ys @ par # zs \<in> L" and dst: "ctes s dst = Some d" "cte_cap d = NullCap" and new: "newCap \<noteq> NullCap"
  shows "succeeds (insertNewCap par dst newCap s) (\<lambda>s'.
     valid_mdb s' (insert (ys @ par # dst # zs) (L - {ys @ par # zs})) \<and> map_option cte_cap (ctes s' dst) = Some newCap)"
proof -
  obtain c where c: "ctes s par = Some c" "cte_cap c \<noteq> NullCap" using valid_mdbD(3)[OF v ch, of par] by auto
  have pd: "par \<noteq> dst" using c dst by auto
  have nz: "par \<noteq> 0" "dst \<noteq> 0" using c dst valid_mdbD(7)[OF v] by auto
  have nd: "mdbNext (cteMDBNode c) \<noteq> dst"
    using valid_mdb_next[OF v c(1)] dst valid_mdbD(7)[OF v] by (metis mnext_def option.inject option.simps(3))
  let ?n = "c\<lparr>cteMDBNode := (cteMDBNode c)\<lparr>mdbNext := dst\<rparr>\<rparr>" and ?k = "d\<lparr>cte_cap := newCap, cteMDBNode := \<lparr>mdbNext = mdbNext (cteMDBNode c), mdbRevocable = True, mdbFirstBadged = True, mdbPrev = par\<rparr>\<rparr>"
  show ?thesis
  proof (cases "mdbNext (cteMDBNode c) = 0")
    case True
    let ?s = "s\<lparr>ctes := (ctes s)(par := Some ?n,
        dst := Some ?k)\<rparr>"
    have "insertNewCap par dst newCap s = Some ?s"
      using c dst pd True by (simp add: insertNewCap_def cte_upds fun_upd_twist Let_def)
    moreover have "valid_mdb ?s (insert (ys @ par # dst # zs) (L - {ys @ par # zs}))"
      by (rule insert_chain[OF v ch dst c(1), where n' = ?n and k = ?k]) (use c(2) pd nz new True in \<open>auto simp: mnext_def mprev_def\<close>)
    ultimately show ?thesis by simp
  next
    case False
    then obtain n where n: "ctes s (mdbNext (cteMDBNode c)) = Some n" "mdbNext (cteMDBNode c) \<noteq> par"
      using valid_mdb_next[OF v c(1)] by (metis mnext_def)
    let ?s = "s\<lparr>ctes := (ctes s)(par := Some ?n,
        dst := Some ?k,
        mdbNext (cteMDBNode c) := Some (n\<lparr>cteMDBNode := (cteMDBNode n)\<lparr>mdbPrev := dst\<rparr>\<rparr>))\<rparr>"
    have "insertNewCap par dst newCap s = Some ?s"
      using c dst pd False nd n by (simp add: insertNewCap_def cte_upds fun_upd_twist Let_def)
    moreover have "valid_mdb ?s (insert (ys @ par # dst # zs) (L - {ys @ par # zs}))"
      by (rule insert_chain[OF v ch dst c(1), where n' = ?n and k = ?k]) (use c(2) pd nz new False n nd in \<open>auto simp: mnext_def mprev_def\<close>)
    ultimately show ?thesis using nd by simp
  qed
qed

subsection \<open>Removing\<close>

lemma remove_chain:
  assumes v: "valid_mdb s L" and ch: "ys @ x # zs \<in> L" and x: "ctes s x = Some n"
    and x': "ctes s' x = Some n'" "cte_cap n' = NullCap" "mnext n' = 0" "mprev n' = 0"
    and p: "\<And>q. mprev n \<noteq> 0 \<Longrightarrow> ctes s (mprev n) = Some q \<Longrightarrow> \<exists>q'. ctes s' (mprev n) = Some q' \<and> mnext q' = mnext n \<and> mprev q' = mprev q \<and> cte_cap q' = cte_cap q"
    and z: "\<And>q. mnext n \<noteq> 0 \<Longrightarrow> ctes s (mnext n) = Some q \<Longrightarrow> \<exists>q'. ctes s' (mnext n) = Some q' \<and> mnext q' = mnext q \<and> mprev q' = mprev n \<and> cte_cap q' = cte_cap q"
    and same: "\<And>p. p \<notin> {x, mprev n, mnext n} \<or> p = 0 \<Longrightarrow> ctes s' p = ctes s p"
  shows "valid_mdb s' (if ys @ zs = [] then L - {ys @ x # zs} else insert (ys @ zs) (L - {ys @ x # zs}))"
proof -
  note dv = valid_mdbD[OF v]
  let ?xs = "ys @ x # zs"
  have c: "is_chain (ctes s) ?xs" using dv(1)[OF ch] .
  have dist: "distinct ?xs" "0 \<notin> set ?xs" using c by (auto simp: is_chain_def)
  have nx: "mnext n = hd (zs @ [0])" "mprev n = last (0 # ys)" using chain_neighbours[OF c x] by auto
  have z_in: "\<exists>q. ctes s z = Some q \<and> cte_cap q \<noteq> NullCap" if "z \<in> set ?xs" for z using dv(3)[OF ch that] .
  have nxt: "\<exists>q q'. ctes s z = Some q \<and> ctes s' z = Some q' \<and> mnext q' = mnext q \<and> mprev q' = last (0 # ys) \<and> cte_cap q' = cte_cap q"
    if "zs = z # zs'" for z zs'
  proof -
    have "mnext n = z" "z \<noteq> 0" using nx that dist(2) by auto
    then show ?thesis using z z_in[of z] that nx(2) by auto
  qed
  have prv: "\<exists>q q'. ctes s l = Some q \<and> ctes s' l = Some q' \<and> mnext q' = hd (zs @ [0]) \<and> mprev q' = mprev q \<and> cte_cap q' = cte_cap q"
    if "ys = ls @ [l]" for l ls
  proof -
    have "mprev n = l" "l \<noteq> 0" using nx that dist(2) by auto
    then show ?thesis using p z_in[of l] that nx(1) by auto
  qed
  have same': "ctes s' p = ctes s p" if "p \<in> set (butlast ys) \<union> set (tl zs)" for p
  proof (rule same)
    have "p \<in> set ?xs" using that by (cases zs) (auto dest: in_set_butlastD)
    then show "p \<notin> {x, mprev n, mnext n} \<or> p = 0"
      using that dist nx by (cases ys rule: rev_cases; cases zs) auto
  qed
  have "dlink mnext mprev (ctes s') 0 (ys @ zs) 0"
  proof (rule dlink_remove[where m = "ctes s" and x = x])
    show "dlink mnext mprev (ctes s) 0 ?xs 0" using c by (simp add: is_chain_def)
    show "map_option (\<lambda>n. (mnext n, mprev n)) (ctes s' p) = map_option (\<lambda>n. (mnext n, mprev n)) (ctes s p)"
      if "p \<in> set (butlast ys) \<union> set (tl zs)" for p using same'[OF that] by simp
  qed (use dist nxt prv in blast)+
  then have ch': "ys @ zs = [] \<or> is_chain (ctes s') (ys @ zs)" using dist by (auto simp: is_chain_def)
  show ?thesis
  proof (rule valid_mdb_replace[OF v ch ch'])
    show "ctes s' p = ctes s p" if "p \<notin> set ?xs \<union> set (ys @ zs)" for p
      by (rule same) (use that nx in \<open>cases ys rule: rev_cases; cases zs; auto\<close>)
    show "\<exists>c. ctes s' p = Some c \<and> cte_cap c \<noteq> NullCap" if p: "p \<in> set (ys @ zs)" for p
    proof -
      have p': "p \<in> set ?xs" using p by auto
      consider l ls where "ys = ls @ [l]" "p = l" | z zs' where "zs = z # zs'" "p = z" | "p \<in> set (butlast ys) \<union> set (tl zs)"
        using p by (cases zs; cases ys rule: rev_cases) auto
      then show ?thesis using nxt prv same' z_in[OF p'] by cases force+
    qed
  qed (use x' in auto)
qed

lemma postCapDeletion_ctes [simp]: "ctes (postCapDeletion cap s) = ctes s"
  by (simp add: postCapDeletion_def deletedIRQHandler_def setIRQState_def maskInterrupt_def split: cap.splits)

lemma valid_mdb_postCapDeletion [simp]: "valid_mdb (postCapDeletion cap s) L = valid_mdb s L"
  by (simp add: valid_mdb_def)

lemma emptySlot_wp:
  assumes v: "valid_mdb s L" and ch: "ys @ x # zs \<in> L"
  shows "succeeds (emptySlot x info s) (\<lambda>s'.
     valid_mdb s' (if ys @ zs = [] then L - {ys @ x # zs} else insert (ys @ zs) (L - {ys @ x # zs})) \<and>
     map_option (\<lambda>c. (cte_cap c, cteMDBNode c)) (ctes s' x) = Some (NullCap, nullMDBNode))"
proof -
  obtain c where c: "ctes s x = Some c" "cte_cap c \<noteq> NullCap" using valid_mdbD(3)[OF v ch, of x] by auto
  define nxt prv where "nxt = mdbNext (cteMDBNode c)" and "prv = mdbPrev (cteMDBNode c)"
  have x0: "x \<noteq> 0" using c valid_mdbD(7)[OF v] by auto
  have n: "\<exists>n. ctes s nxt = Some n" "nxt \<noteq> x" "nxt \<noteq> prv" if "nxt \<noteq> 0"
    using valid_mdb_next[OF v c(1)] that by (auto simp: nxt_def prv_def mnext_def mprev_def)
  have p: "\<exists>n. ctes s prv = Some n" "prv \<noteq> x" if "prv \<noteq> 0"
    using valid_mdb_prev[OF v c(1)] that by (auto simp: prv_def mprev_def)
  let ?fin = "\<lambda>m. m(x := Some (c\<lparr>cte_cap := NullCap, cteMDBNode := nullMDBNode\<rparr>))"
  let ?P = "\<lambda>m. if prv = 0 then m else m(prv := map_option (\<lambda>q. q\<lparr>cteMDBNode := (cteMDBNode q)\<lparr>mdbNext := nxt\<rparr>\<rparr>) (m prv))"
  let ?N = "\<lambda>m. if nxt = 0 then m else m(nxt := map_option (\<lambda>q. q\<lparr>cteMDBNode := (cteMDBNode q)\<lparr>mdbPrev := prv, mdbFirstBadged := mdbFirstBadged (cteMDBNode q) \<or> mdbFirstBadged (cteMDBNode c)\<rparr>\<rparr>) (m nxt))"
  let ?s = "s\<lparr>ctes := ?fin (?N (?P (ctes s)))\<rparr>"
  have e: "emptySlot x info s = Some (postCapDeletion info ?s)"
    using c x0 n p by (cases "prv = 0"; cases "nxt = 0") (auto simp: emptySlot_def cte_upds Let_def simp flip: nxt_def prv_def)
  have "valid_mdb ?s (if ys @ zs = [] then L - {ys @ x # zs} else insert (ys @ zs) (L - {ys @ x # zs}))"
    by (rule remove_chain[OF v ch c(1), where n' = "c\<lparr>cte_cap := NullCap, cteMDBNode := nullMDBNode\<rparr>"])
      (use n p x0 in \<open>auto simp: mnext_def mprev_def nullMDBNode_def simp flip: nxt_def prv_def\<close>)
  then show ?thesis unfolding e succeeds_Some valid_mdb_postCapDeletion by (rule conjI) simp
qed

subsection \<open>Moving and swapping\<close>

definition swp :: "ptr \<Rightarrow> ptr \<Rightarrow> ptr \<Rightarrow> ptr" where
  "swp a b p = (if p = a then b else if p = b then a else p)"

lemma swp_swp [simp]: "swp a b (swp a b p) = p"
  by (simp add: swp_def)

lemma swp_simps [simp]: "swp a b a = b" "swp a b b = a" "p \<noteq> a \<Longrightarrow> p \<noteq> b \<Longrightarrow> swp a b p = p"
  by (simp_all add: swp_def)

lemma swp_inj: "inj (swp a b)"
  by (rule inj_on_inverseI[of _ "swp a b"]) simp

text \<open>Exchanging two slots in all chains.\<close>

lemma valid_mdb_rename:
  assumes v: "valid_mdb s L" and ab: "a \<noteq> 0" "b \<noteq> 0"
    and none: "\<And>p. ctes s p = None \<Longrightarrow> ctes s' (swp a b p) = None"
    and some: "\<And>p c. ctes s p = Some c \<Longrightarrow> \<exists>c'. ctes s' (swp a b p) = Some c' \<and> mnext c' = swp a b (mnext c) \<and> mprev c' = swp a b (mprev c) \<and> (cte_cap c' = NullCap \<longleftrightarrow> cte_cap c = NullCap)"
  shows "valid_mdb s' (map (swp a b) ` L)"
proof -
  let ?f = "swp a b"
  note dv = valid_mdbD[OF v]
  have f0: "?f 0 = 0" using ab by simp
  have back': "\<exists>c. ctes s (?f p) = Some c \<and> mnext c' = ?f (mnext c) \<and> mprev c' = ?f (mprev c) \<and> (cte_cap c' = NullCap \<longleftrightarrow> cte_cap c = NullCap)"
    if c': "ctes s' p = Some c'" for p c'
  proof (cases "ctes s (?f p)")
    case None
    then show ?thesis using none[of "?f p"] c' by simp
  next
    case (Some c)
    then show ?thesis using some[OF Some] c' by auto
  qed
  have "is_chain (ctes s') (map ?f xs)" if xs: "xs \<in> L" for xs
  proof -
    have c: "is_chain (ctes s) xs" using dv(1)[OF xs] .
    have "dlink mnext mprev (ctes s') (?f 0) (map ?f xs) (?f 0)"
    proof (rule dlink_rename[where m = "ctes s"])
      show "dlink mnext mprev (ctes s) 0 xs 0" using c by (simp add: is_chain_def)
      show "\<exists>n n'. ctes s p = Some n \<and> ctes s' (?f p) = Some n' \<and> mnext n' = ?f (mnext n) \<and> mprev n' = ?f (mprev n)" if "p \<in> set xs" for p
        using dv(3)[OF xs that] some[of p] by blast
    qed
    moreover have "0 \<notin> ?f ` set xs" using c f0 swp_swp by (auto simp: is_chain_def) (metis f0 swp_swp)
    ultimately show ?thesis using c f0 by (simp add: is_chain_def distinct_map inj_on_subset[OF swp_inj])
  qed
  moreover have "set (map ?f xs) \<inter> set (map ?f ys) = {}" if "xs \<in> L" "ys \<in> L" "map ?f xs \<noteq> map ?f ys" for xs ys
  proof -
    have "set xs \<inter> set ys = {}" using dv(2)[OF that(1,2)] that(3) by auto
    then show ?thesis by (simp add: image_Int[OF swp_inj, symmetric])
  qed
  moreover have "p \<in> \<Union>(set ` map ?f ` L) \<longleftrightarrow> (\<exists>c. ctes s' p = Some c \<and> cte_cap c \<noteq> NullCap)" for p
  proof -
    have "p \<in> \<Union>(set ` map ?f ` L) \<longleftrightarrow> ?f p \<in> \<Union>(set ` L)" by (auto simp: image_iff) (metis swp_swp)
    also have "\<dots> \<longleftrightarrow> (\<exists>c. ctes s (?f p) = Some c \<and> cte_cap c \<noteq> NullCap)" using v by (simp add: valid_mdb_def)
    also have "\<dots> \<longleftrightarrow> (\<exists>c. ctes s' p = Some c \<and> cte_cap c \<noteq> NullCap)" using some[of "?f p"] back'[of p] by fastforce
    finally show ?thesis .
  qed
  moreover have "mnext c = 0 \<and> mprev c = 0" if c: "ctes s' p = Some c" "cte_cap c = NullCap" for p c
  proof -
    obtain c0 where "ctes s (?f p) = Some c0" "mnext c = ?f (mnext c0)" "mprev c = ?f (mprev c0)" "cte_cap c0 = NullCap"
      using back'[OF c(1)] c(2) by blast
    then show ?thesis using dv(5)[of "?f p" c0] f0 by simp
  qed
  moreover have "ctes s' 0 = None" using none[OF dv(7)] f0 by simp
  ultimately show ?thesis unfolding valid_mdb_def by blast
qed

text \<open>Links are mutual.\<close>

lemma valid_mdb_link:
  assumes v: "valid_mdb s L" and p: "ctes s p = Some c" and q: "ctes s q = Some d"
  shows "mnext c = q \<longleftrightarrow> mprev d = p" "mnext c \<noteq> p" "mprev c \<noteq> p"
proof -
  have nz: "p \<noteq> 0" "q \<noteq> 0" using p q valid_mdbD(7)[OF v] by auto
  show "mnext c = q \<longleftrightarrow> mprev d = p"
  proof
    assume "mnext c = q"
    then show "mprev d = p" using valid_mdb_next[OF v p] nz q by auto
  next
    assume "mprev d = p"
    then show "mnext c = q" using valid_mdb_prev[OF v q] nz p by auto
  qed
  show "mnext c \<noteq> p" "mprev c \<noteq> p" using valid_mdb_next[OF v p] valid_mdb_prev[OF v p] nz by auto
qed

text \<open>The links of the slots as a map, and the effect of an update of one link on it.\<close>

definition relink :: "ptr \<Rightarrow> (mdb_node \<Rightarrow> mdb_node) \<Rightarrow> (ptr \<Rightarrow> cte option) \<Rightarrow> ptr \<Rightarrow> cte option" where
  "relink p f m = (if p = 0 then m else m(p := map_option (\<lambda>c. c\<lparr>cteMDBNode := f (cteMDBNode c)\<rparr>) (m p)))"

lemma upd_mdb_nz_relink: "p = 0 \<or> ctes s p \<noteq> None \<Longrightarrow> upd_mdb_nz p f s = Some (s\<lparr>ctes := relink p f (ctes s)\<rparr>)"
  by (auto simp: upd_mdb_nz_eq relink_def)

lemma relink_None [simp]: "relink p f m q = None \<longleftrightarrow> m q = None"
  by (simp add: relink_def)

lemma relink_ex [simp]: "(\<exists>c. relink p f m q = Some c) \<longleftrightarrow> (\<exists>c. m q = Some c)"
  by (metis not_None_eq relink_None)

lemma relink_Some:
  "m q = Some c \<Longrightarrow> relink p f m q = Some (if p = q \<and> p \<noteq> 0 then c\<lparr>cteMDBNode := f (cteMDBNode c)\<rparr> else c)"
  unfolding relink_def by auto

lemma link_simps [simp]:
  "mnext (c\<lparr>cteMDBNode := (cteMDBNode k)\<lparr>mdbNext := p\<rparr>\<rparr>) = p" "mprev (c\<lparr>cteMDBNode := (cteMDBNode k)\<lparr>mdbNext := p\<rparr>\<rparr>) = mprev k"
  "mnext (c\<lparr>cteMDBNode := (cteMDBNode k)\<lparr>mdbPrev := p\<rparr>\<rparr>) = mnext k" "mprev (c\<lparr>cteMDBNode := (cteMDBNode k)\<lparr>mdbPrev := p\<rparr>\<rparr>) = p"
  "mnext (c\<lparr>cte_cap := cap\<rparr>) = mnext c" "mprev (c\<lparr>cte_cap := cap\<rparr>) = mprev c"
  "mnext (c\<lparr>cteMDBNode := cteMDBNode k\<rparr>) = mnext k" "mprev (c\<lparr>cteMDBNode := cteMDBNode k\<rparr>) = mprev k"
  "mnext (c\<lparr>cteMDBNode := nullMDBNode\<rparr>) = 0" "mprev (c\<lparr>cteMDBNode := nullMDBNode\<rparr>) = 0"
  by (simp_all add: mnext_def mprev_def nullMDBNode_def)

lemma cteMove_wp:
  assumes v: "valid_mdb s L" and d: "ctes s dst = Some d" "cte_cap d = NullCap" and c: "ctes s src = Some c" "cte_cap c \<noteq> NullCap"
    and new: "newCap \<noteq> NullCap"
  shows "succeeds (cteMove newCap src dst s) (\<lambda>s'. valid_mdb s' (map (swp src dst) ` L) \<and>
     ctes s' dst = Some (d\<lparr>cte_cap := newCap, cteMDBNode := cteMDBNode c\<rparr>) \<and>
     map_option cte_cap (ctes s' src) = Some NullCap)"
proof -
  have nz: "src \<noteq> 0" "dst \<noteq> 0" "src \<noteq> dst" using c d valid_mdbD(7)[OF v] by auto
  have d0: "mnext d = 0" "mprev d = 0" using valid_mdbD(5)[OF v d] by auto
  have lk: "mnext c = p \<longleftrightarrow> mprev n = src" "mprev c = p \<longleftrightarrow> mnext n = src" if "ctes s p = Some n" for p n
    using valid_mdb_link(1)[OF v c(1) that] valid_mdb_link(1)[OF v that c(1)] by auto
  have dl: "mnext n \<noteq> dst" "mprev n \<noteq> dst" if "ctes s p = Some n" for p n
    using valid_mdb_link(1)[OF v that d(1)] valid_mdb_link(1)[OF v d(1) that] d0 that valid_mdbD(7)[OF v] by auto
  have cl: "mnext c \<noteq> src" "mprev c \<noteq> src" "mnext c \<noteq> dst" "mprev c \<noteq> dst" using valid_mdb_link[OF v c(1) c(1)] dl[OF c(1)] by auto
  have ex: "mprev c = 0 \<or> ctes s (mprev c) \<noteq> None" "mnext c = 0 \<or> ctes s (mnext c) \<noteq> None"
    by (metis option.distinct(1) valid_mdb_prev[OF v c(1)], metis option.distinct(1) valid_mdb_next[OF v c(1)])
  let ?m = "(ctes s)(dst := Some (d\<lparr>cte_cap := newCap, cteMDBNode := cteMDBNode c\<rparr>), src := Some (c\<lparr>cte_cap := NullCap, cteMDBNode := nullMDBNode\<rparr>))"
  let ?s = "s\<lparr>ctes := relink (mnext c) (\<lambda>n. n\<lparr>mdbPrev := dst\<rparr>) (relink (mprev c) (\<lambda>n. n\<lparr>mdbNext := dst\<rparr>) ?m)\<rparr>"
  have e: "cteMove newCap src dst s = Some ?s"
    using c d d0 nz ex cl
    by (simp add: cteMove_def set_cap_def set_node_def upd_mdb_nz_relink Let_def fun_upd_twist flip: mnext_def mprev_def)
  have "valid_mdb ?s (map (swp src dst) ` L)"
  proof (rule valid_mdb_rename[OF v nz(1,2)])
    show "ctes ?s (swp src dst p) = None" if "ctes s p = None" for p using that c d by (auto simp: swp_def)
    show "\<exists>c'. ctes ?s (swp src dst p) = Some c' \<and> mnext c' = swp src dst (mnext n) \<and> mprev c' = swp src dst (mprev n) \<and> (cte_cap c' = NullCap \<longleftrightarrow> cte_cap n = NullCap)"
      if n: "ctes s p = Some n" for p n
    proof -
      have p0: "p \<noteq> 0" using n valid_mdbD(7)[OF v] by auto
      consider "p = src" | "p = dst" | "p \<noteq> src" "p \<noteq> dst" by blast
      then show ?thesis
      proof cases
        case 1
        then show ?thesis using n c cl nz new by (simp add: relink_Some)
      next
        case 2
        then show ?thesis using n d d0 cl nz by (simp add: relink_Some)
      next
        case 3
        then show ?thesis using n lk[OF n] dl[OF n] cl nz p0 by (simp add: relink_Some) (auto simp: swp_def)
      qed
    qed
  qed
  then show ?thesis using e cl nz by (simp add: relink_def)
qed


lemma cteSwap_wp:
  assumes v: "valid_mdb s L" and c: "ctes s x = Some c" and d: "ctes s y = Some d" and xy: "x \<noteq> y"
    and null: "cap1 = NullCap \<longleftrightarrow> cte_cap c = NullCap" "cap2 = NullCap \<longleftrightarrow> cte_cap d = NullCap"
  shows "succeeds (cteSwap cap1 x cap2 y s) (\<lambda>s'. valid_mdb s' (map (swp x y) ` L) \<and>
     map_option cte_cap (ctes s' x) = Some cap2 \<and> map_option cte_cap (ctes s' y) = Some cap1)"
proof -
  have nz: "x \<noteq> 0" "y \<noteq> 0" using c d valid_mdbD(7)[OF v] by auto
  have cl: "mnext c \<noteq> x" "mprev c \<noteq> x" "mnext d \<noteq> y" "mprev d \<noteq> y" using valid_mdb_link[OF v c c] valid_mdb_link[OF v d d] by auto
  have cd: "mnext c = y \<longleftrightarrow> mprev d = x" "mprev c = y \<longleftrightarrow> mnext d = x"
    using valid_mdb_link(1)[OF v c d] valid_mdb_link(1)[OF v d c] by auto
  have dd: "mnext c = mprev c \<longrightarrow> mnext c = 0" "mnext d = mprev d \<longrightarrow> mnext d = 0"
    using valid_mdb_next[OF v c] valid_mdb_next[OF v d] by blast+
  have ex: "mprev c = 0 \<or> ctes s (mprev c) \<noteq> None" "mnext c = 0 \<or> ctes s (mnext c) \<noteq> None"
    "mprev d = 0 \<or> ctes s (mprev d) \<noteq> None" "mnext d = 0 \<or> ctes s (mnext d) \<noteq> None"
    by (metis option.distinct(1) valid_mdb_prev[OF v c], metis option.distinct(1) valid_mdb_next[OF v c],
        metis option.distinct(1) valid_mdb_prev[OF v d], metis option.distinct(1) valid_mdb_next[OF v d])
  define d' where "d' = (cteMDBNode d)\<lparr>mdbNext := if mprev c = y then y else mnext d, mdbPrev := if mnext c = y then y else mprev d\<rparr>"
  let ?m1 = "relink (mnext c) (\<lambda>n. n\<lparr>mdbPrev := y\<rparr>) (relink (mprev c) (\<lambda>n. n\<lparr>mdbNext := y\<rparr>) ((ctes s)(x := Some (c\<lparr>cte_cap := cap2\<rparr>), y := Some (d\<lparr>cte_cap := cap1\<rparr>))))"
  let ?m2 = "?m1(x := Some (c\<lparr>cte_cap := cap2, cteMDBNode := d'\<rparr>), y := Some (d\<lparr>cte_cap := cap1, cteMDBNode := cteMDBNode c\<rparr>))"
  let ?s = "s\<lparr>ctes := relink (mdbNext d') (\<lambda>n. n\<lparr>mdbPrev := x\<rparr>) (relink (mdbPrev d') (\<lambda>n. n\<lparr>mdbNext := x\<rparr>) ?m2)\<rparr>"
  have m1: "?m1 x = Some (c\<lparr>cte_cap := cap2\<rparr>)" "?m1 y = Some (d\<lparr>cte_cap := cap1, cteMDBNode := d'\<rparr>)"
    using xy cl nz dd by (auto simp: relink_def d'_def mnext_def mprev_def)
  have d'0: "mdbPrev d' = 0 \<or> ctes s (mdbPrev d') \<noteq> None" "mdbNext d' = 0 \<or> ctes s (mdbNext d') \<noteq> None"
    using ex d by (auto simp: d'_def)
  then have d'1: "mdbPrev d' = 0 \<or> (\<exists>k. ?m2 (mdbPrev d') = Some k)" "mdbNext d' = 0 \<or> (\<exists>k. ?m2 (mdbNext d') = Some k)"
    by auto
  have ml: "mprev (d\<lparr>cte_cap := cap1, cteMDBNode := d'\<rparr>) = mdbPrev d'" "mnext (d\<lparr>cte_cap := cap1, cteMDBNode := d'\<rparr>) = mdbNext d'"
    by (simp_all add: mnext_def mprev_def)
  have e: "cteSwap cap1 x cap2 y s = Some ?s"
    using c d xy ex m1 d'1 ml
    by (simp add: cteSwap_def set_cap_def set_node_def upd_mdb_nz_relink Let_def flip: mnext_def mprev_def)
  have "valid_mdb ?s (map (swp x y) ` L)"
  proof (rule valid_mdb_rename[OF v nz])
    show "ctes ?s (swp x y p) = None" if "ctes s p = None" for p using that c d by (auto simp: swp_def)
    show "\<exists>c'. ctes ?s (swp x y p) = Some c' \<and> mnext c' = swp x y (mnext n) \<and> mprev c' = swp x y (mprev n) \<and> (cte_cap c' = NullCap \<longleftrightarrow> cte_cap n = NullCap)"
      if n: "ctes s p = Some n" for p n
    proof -
      have lk: "mnext c = p \<longleftrightarrow> mprev n = x" "mprev c = p \<longleftrightarrow> mnext n = x" "mnext d = p \<longleftrightarrow> mprev n = y" "mprev d = p \<longleftrightarrow> mnext n = y"
        using valid_mdb_link(1)[OF v c n] valid_mdb_link(1)[OF v n c] valid_mdb_link(1)[OF v d n] valid_mdb_link(1)[OF v n d] by auto
      have p0: "p \<noteq> 0" using n valid_mdbD(7)[OF v] by auto
      consider "p = x" | "p = y" | "p \<noteq> x" "p \<noteq> y" by blast
      then show ?thesis
      proof cases
        case 1
        then show ?thesis using n c cl cd dd nz null xy
          by (simp add: relink_Some) (auto simp: d'_def swp_def mnext_def mprev_def)
      next
        case 2
        then show ?thesis using n d cl cd dd nz null xy
          by (simp add: relink_Some) (auto simp: d'_def swp_def mnext_def mprev_def)
      next
        case 3
        then show ?thesis using n lk cl cd dd nz xy p0
          by (simp add: relink_Some) (auto simp: d'_def swp_def mnext_def mprev_def)
      qed
    qed
  qed
  moreover have "map_option cte_cap (ctes ?s x) = Some cap2" "map_option cte_cap (ctes ?s y) = Some cap1"
    using xy by (simp_all add: relink_Some)
  ultimately show ?thesis unfolding e succeeds_Some by blast
qed

lemma capSwapForDelete_wp:
  assumes v: "valid_mdb s L" and c: "ctes s x = Some c" and d: "ctes s y = Some d"
  shows "succeeds (capSwapForDelete x y s) (\<lambda>s'. valid_mdb s' (map (swp x y) ` L) \<and>
     map_option cte_cap (ctes s' x) = Some (cte_cap d) \<and> map_option cte_cap (ctes s' y) = Some (cte_cap c))"
proof (cases "x = y")
  case True
  have "swp x x = id" by (auto simp: swp_def)
  then show ?thesis using True c d v by (simp add: capSwapForDelete_def)
next
  case False
  then show ?thesis using cteSwap_wp[OF v c d False, of "cte_cap c" "cte_cap d"] c d by (simp add: capSwapForDelete_def)
qed

subsection \<open>The final capability of an object\<close>

text \<open>
  Capabilities of one object are next to each other in a chain: all slots between two of them have
  capabilities of the same object.
\<close>

definition contiguous :: "(ptr \<Rightarrow> cte option) \<Rightarrow> ptr list \<Rightarrow> bool" where
  "contiguous m xs \<longleftrightarrow> (\<forall>i j k. i < j \<and> j < k \<and> k < length xs \<and>
     sameObjectAs (cte_cap (the (m (xs ! i)))) (cte_cap (the (m (xs ! k)))) \<longrightarrow>
     sameObjectAs (cte_cap (the (m (xs ! i)))) (cte_cap (the (m (xs ! j)))) \<and>
     sameObjectAs (cte_cap (the (m (xs ! j)))) (cte_cap (the (m (xs ! k)))))"

lemma isFinalCapability_eq:
  assumes "is_chain (ctes s) (ys @ x # zs)" "ctes s x = Some c"
  shows "isFinalCapability s x =
     Some (\<not> (ys \<noteq> [] \<and> sameObjectAs (cte_cap (the (ctes s (last ys)))) (cte_cap c)) \<and>
           \<not> (zs \<noteq> [] \<and> sameObjectAs (cte_cap c) (cte_cap (the (ctes s (hd zs))))))"
proof -
  have n: "mprev c = last (0 # ys)" "mnext c = hd (zs @ [0])" using chain_neighbours[OF assms] by auto
  have ex: "\<exists>n. ctes s p = Some n" if "p \<in> set (ys @ x # zs)" for p
    using dlink_mem[of mnext mprev "ctes s" 0 "ys @ x # zs" 0 p] assms(1) that by (auto simp: is_chain_def)
  have z: "0 \<notin> set ys" "0 \<notin> set zs" using assms(1) by (auto simp: is_chain_def)
  show ?thesis
    using assms(2) n z ex[of "last ys"] ex[of "hd zs"]
    by (cases ys rule: rev_cases; cases zs) (auto simp: isFinalCapability_def Let_def mnext_def mprev_def)
qed

lemma final_no_other:
  assumes ch: "is_chain (ctes s) (ys @ x # zs)" and c: "ctes s x = Some c" and con: "contiguous (ctes s) (ys @ x # zs)"
  shows "isFinalCapability s x = Some (\<not> (\<exists>p\<in>set ys. sameObjectAs (cte_cap (the (ctes s p))) (cte_cap c)) \<and>
     \<not> (\<exists>p\<in>set zs. sameObjectAs (cte_cap c) (cte_cap (the (ctes s p)))))"
proof -
  let ?cap = "\<lambda>p. cte_cap (the (ctes s p))" and ?n = "length ys"
  let ?xs = "ys @ x # zs"
  have c': "?cap x = cte_cap c" using c by simp
  have ys: "sameObjectAs (?cap (last ys)) (cte_cap c)" if p: "p \<in> set ys" "sameObjectAs (?cap p) (cte_cap c)" for p
  proof -
    obtain i where i: "i < ?n" "ys ! i = p" using p(1) by (auto simp: in_set_conv_nth)
    show ?thesis
    proof (cases "i = ?n - 1")
      case True
      moreover have "ys \<noteq> []" using i by auto
      ultimately show ?thesis using i p(2) by (simp add: last_conv_nth)
    next
      case False
      have "i < ?n - 1 \<and> ?n - 1 < ?n \<and> ?n < length ?xs \<and> sameObjectAs (?cap (?xs ! i)) (?cap (?xs ! ?n))"
        using i False p(2) c' by (auto simp: nth_append)
      then have "sameObjectAs (?cap (?xs ! (?n - 1))) (?cap (?xs ! ?n))" using con unfolding contiguous_def by blast
      moreover have "?xs ! (?n - 1) = last ys" using i by (cases ys rule: rev_cases) (auto simp: nth_append)
      ultimately show ?thesis using c' by simp
    qed
  qed
  have zs: "sameObjectAs (cte_cap c) (?cap (hd zs))" if p: "p \<in> set zs" "sameObjectAs (cte_cap c) (?cap p)" for p
  proof -
    obtain i where i: "i < length zs" "zs ! i = p" using p(1) by (auto simp: in_set_conv_nth)
    have hd: "zs ! 0 = hd zs" using i by (cases zs) auto
    show ?thesis
    proof (cases i)
      case 0
      then show ?thesis using i p(2) hd by simp
    next
      case (Suc k)
      have at: "?xs ! (?n + Suc j) = zs ! j" for j by (simp add: nth_append)
      have "?n < ?n + Suc 0 \<and> ?n + Suc 0 < ?n + Suc i \<and> ?n + Suc i < length ?xs \<and> sameObjectAs (?cap (?xs ! ?n)) (?cap (?xs ! (?n + Suc i)))"
        using i Suc p(2) c' at[of i] by simp
      then have "sameObjectAs (?cap (?xs ! ?n)) (?cap (?xs ! (?n + Suc 0)))" using con unfolding contiguous_def by blast
      then show ?thesis using c' at[of 0] hd by simp
    qed
  qed
  have "(ys \<noteq> [] \<and> sameObjectAs (?cap (last ys)) (cte_cap c)) \<longleftrightarrow> (\<exists>p\<in>set ys. sameObjectAs (?cap p) (cte_cap c))"
  proof
    assume "\<exists>p\<in>set ys. sameObjectAs (?cap p) (cte_cap c)"
    then show "ys \<noteq> [] \<and> sameObjectAs (?cap (last ys)) (cte_cap c)" using ys by auto
  qed (use last_in_set in blast)
  moreover have "(zs \<noteq> [] \<and> sameObjectAs (cte_cap c) (?cap (hd zs))) \<longleftrightarrow> (\<exists>p\<in>set zs. sameObjectAs (cte_cap c) (?cap p))"
  proof
    assume "\<exists>p\<in>set zs. sameObjectAs (cte_cap c) (?cap p)"
    then show "zs \<noteq> [] \<and> sameObjectAs (cte_cap c) (?cap (hd zs))" using zs by auto
  qed (use hd_in_set in blast)
  ultimately show ?thesis using isFinalCapability_eq[OF ch c] by simp
qed

subsection \<open>Properties\<close>

text \<open>Inserting a capability derived from that of a slot of the derivation tree into an
  empty slot succeeds and puts the new slot right after its source in the source's chain, with the
  revocable flag that the capability's kind asks for; the source's untyped memory is marked used up
  if the copy covers the same memory. The derivation tree stays well formed.\<close>

lemma mdb_insert:
  assumes "valid_mdb s L" "ys @ src # zs \<in> L" "ctes s src = Some c" "ctes s dst = Some d" "cte_cap d = NullCap"
    "isCapRevocable newCap (cte_cap c) = Some rv" "newCap \<noteq> NullCap"
  shows "\<exists>s'. cteInsert newCap src dst s = Some s' \<and>
     valid_mdb s' (insert (ys @ src # dst # zs) (L - {ys @ src # zs})) \<and>
     map_option (\<lambda>k. (cte_cap k, mdbRevocable (cteMDBNode k))) (ctes s' dst) = Some (newCap, rv) \<and>
     map_option cte_cap (ctes s' src) = Some (as_full newCap (cte_cap c))"
  using cteInsert_wp[OF assms(1,2,4,5,3,6,7)] by (auto simp: succeeds_def)

text \<open>Moving a capability to an empty slot puts the destination at the place of the source in
  its chain and empties the source; every other slot keeps its place.\<close>

lemma mdb_move:
  assumes "valid_mdb s L" "ctes s dst = Some d" "cte_cap d = NullCap" "ctes s src = Some c" "cte_cap c \<noteq> NullCap" "newCap \<noteq> NullCap"
  shows "\<exists>s'. cteMove newCap src dst s = Some s' \<and> valid_mdb s' (map (swp src dst) ` L) \<and>
     map_option cte_cap (ctes s' dst) = Some newCap \<and> map_option cte_cap (ctes s' src) = Some NullCap"
  using cteMove_wp[OF assms] by (auto simp: succeeds_def)

text \<open>Swapping two slots exchanges their capabilities and their places in the derivation tree,
  whether the slots are neighbours, one of them is empty or they are the same slot; swapping them
  again restores the chains.\<close>

lemma mdb_swap:
  assumes "valid_mdb s L" "ctes s x = Some c" "ctes s y = Some d"
  shows "\<exists>s' s''. capSwapForDelete x y s = Some s' \<and> valid_mdb s' (map (swp x y) ` L) \<and>
     map_option cte_cap (ctes s' x) = Some (cte_cap d) \<and> map_option cte_cap (ctes s' y) = Some (cte_cap c) \<and>
     capSwapForDelete x y s' = Some s'' \<and> valid_mdb s'' L \<and>
     map_option cte_cap (ctes s'' x) = Some (cte_cap c) \<and> map_option cte_cap (ctes s'' y) = Some (cte_cap d)"
proof -
  obtain s' where s': "capSwapForDelete x y s = Some s'" "valid_mdb s' (map (swp x y) ` L)"
    and m: "map_option cte_cap (ctes s' x) = Some (cte_cap d)" "map_option cte_cap (ctes s' y) = Some (cte_cap c)"
    using capSwapForDelete_wp[OF assms] unfolding succeeds_def by blast
  from m obtain c' d' where k: "ctes s' x = Some c'" "ctes s' y = Some d'" "cte_cap c' = cte_cap d" "cte_cap d' = cte_cap c" by auto
  have "map (swp x y) ` map (swp x y) ` L = L" by (simp add: image_image comp_def)
  then show ?thesis using capSwapForDelete_wp[OF s'(2) k(1,2)] s' m k(3,4) unfolding succeeds_def by auto
qed

text \<open>Emptying the slot a capability was just inserted in restores the chains of the
  derivation tree and leaves the slot empty with null links.\<close>

lemma mdb_insert_remove:
  assumes "valid_mdb s L" "ys @ src # zs \<in> L" "ctes s src = Some c" "ctes s dst = Some d" "cte_cap d = NullCap"
    "isCapRevocable newCap (cte_cap c) = Some rv" "newCap \<noteq> NullCap"
  shows "\<exists>s' s''. cteInsert newCap src dst s = Some s' \<and> emptySlot dst info s' = Some s'' \<and> valid_mdb s'' L \<and>
     map_option (\<lambda>k. (cte_cap k, cteMDBNode k)) (ctes s'' dst) = Some (NullCap, nullMDBNode)"
proof -
  let ?old = "ys @ src # zs" and ?new = "ys @ src # dst # zs"
  obtain s' where s': "cteInsert newCap src dst s = Some s'" "valid_mdb s' (insert ?new (L - {?old}))"
    using cteInsert_wp[OF assms(1,2,4,5,3,6,7)] unfolding succeeds_def by blast
  have "?new \<notin> L" using valid_mdbD(6)[OF assms(1,4,5), of ?new] by auto
  then have "insert ?old (insert ?new (L - {?old}) - {?new}) = L" using assms(2) by auto
  moreover have "(ys @ [src]) @ dst # zs \<in> insert ?new (L - {?old})" by simp
  ultimately show ?thesis using emptySlot_wp[OF s'(2), of "ys @ [src]" dst zs info] s'(1) unfolding succeeds_def by auto
qed

text \<open>Where the capabilities of an object are contiguous in a chain, a capability is
  reported final exactly if no other slot of its chain has a capability of the same object, although
  only its two neighbours are looked at.\<close>

lemma final_capability:
  assumes "valid_mdb s L" "ys @ x # zs \<in> L" "contiguous (ctes s) (ys @ x # zs)"
  shows "\<exists>c. ctes s x = Some c \<and> isFinalCapability s x =
     Some (\<not> (\<exists>p\<in>set ys. sameObjectAs (cte_cap (the (ctes s p))) (cte_cap c)) \<and>
           \<not> (\<exists>p\<in>set zs. sameObjectAs (cte_cap c) (cte_cap (the (ctes s p)))))"
proof -
  obtain c where c: "ctes s x = Some c" using valid_mdbD(3)[OF assms(1,2), of x] by auto
  then show ?thesis using final_no_other[OF valid_mdbD(1)[OF assms(1,2)] c assms(3)] by blast
qed

subsection \<open>Witnesses\<close>

definition ex_mdb :: kernel_state where
  "ex_mdb = ex_kernel\<lparr>ctes := (\<lambda>_. None)
     (0x1000 := Some \<lparr>cte_cap = UntypedCap False 12 0 0x80000, cteMDBNode = \<lparr>mdbNext = 0x1020, mdbRevocable = True, mdbFirstBadged = True, mdbPrev = 0\<rparr>\<rparr>,
      0x1020 := Some \<lparr>cte_cap = EndpointCap 0 True True True True 0x80000, cteMDBNode = \<lparr>mdbNext = 0, mdbRevocable = True, mdbFirstBadged = True, mdbPrev = 0x1000\<rparr>\<rparr>,
      0x1040 := Some \<lparr>cte_cap = NullCap, cteMDBNode = nullMDBNode\<rparr>)\<rparr>"

lemma ex_mdb_valid: "valid_mdb ex_mdb {[0x1000, 0x1020]}"
  unfolding valid_mdb_def by (auto simp: ex_mdb_def is_chain_def mnext_def mprev_def nullMDBNode_def)

lemma ex_mdb_ctes:
  "\<exists>c. ctes ex_mdb 0x1020 = Some c \<and> cte_cap c = EndpointCap 0 True True True True 0x80000"
  "\<exists>c. ctes ex_mdb 0x1040 = Some c \<and> cte_cap c = NullCap"
  by (simp_all add: ex_mdb_def)

end
