(* ===== verification/KIpc.thy ===== *)
theory KIpc
  imports KMessage KMdbInv
begin

unbundle bit_operations_syntax

text \<open>
  Endpoints and notifications: \<^verbatim>\<open>kernel/src/object/endpoint.c\<close>, \<^verbatim>\<open>kernel/src/object/notification.c\<close>,
  the endpoint queues of \<^verbatim>\<open>kernel/src/object/tcb.c\<close>, reply capabilities, faults
  (\<^verbatim>\<open>kernel/src/kernel/faulthandler.c\<close>) and the operations of \<^verbatim>\<open>kernel/src/kernel/thread.c\<close> and
  \<^verbatim>\<open>kernel/src/object/objecttype.c\<close> that use them.
\<close>

subsection \<open>Queues of blocked threads\<close>

definition tcbEPAppend :: "ptr \<Rightarrow> tcb_queue \<Rightarrow> kernel_state \<Rightarrow> (tcb_queue \<times> kernel_state) option" where
  "tcbEPAppend tcb queue s = do {
     (queue', s) \<leftarrow> (if head queue = 0 then Some (queue\<lparr>head := tcb\<rparr>, s)
        else map_option (\<lambda>s. (queue, s)) (upd_tcb (end_ptr queue) (\<lambda>t. t\<lparr>tcbEPNext := tcb\<rparr>) s));
     s \<leftarrow> upd_tcb tcb (\<lambda>t. t\<lparr>tcbEPPrev := end_ptr queue\<rparr>) s;
     s \<leftarrow> upd_tcb tcb (\<lambda>t. t\<lparr>tcbEPNext := 0\<rparr>) s;
     Some (queue'\<lparr>end_ptr := tcb\<rparr>, s)
   }"

definition tcbEPDequeue :: "ptr \<Rightarrow> tcb_queue \<Rightarrow> kernel_state \<Rightarrow> (tcb_queue \<times> kernel_state) option" where
  "tcbEPDequeue tcb queue s = do {
     t \<leftarrow> tcbs s tcb;
     (queue, s) \<leftarrow> (if tcbEPPrev t \<noteq> 0
        then map_option (\<lambda>s. (queue, s)) (upd_tcb (tcbEPPrev t) (\<lambda>u. u\<lparr>tcbEPNext := tcbEPNext t\<rparr>) s)
        else Some (queue\<lparr>head := tcbEPNext t\<rparr>, s));
     t \<leftarrow> tcbs s tcb;
     if tcbEPNext t \<noteq> 0
     then map_option (\<lambda>s. (queue, s)) (upd_tcb (tcbEPNext t) (\<lambda>u. u\<lparr>tcbEPPrev := tcbEPPrev t\<rparr>) s)
     else Some (queue\<lparr>end_ptr := tcbEPPrev t\<rparr>, s)
   }"

definition ep_ptr_get_queue :: "endpoint \<Rightarrow> tcb_queue" where
  "ep_ptr_get_queue ep = \<lparr>head = epQueue_head ep, end_ptr = epQueue_tail ep\<rparr>"

definition ep_ptr_set_queue :: "ptr \<Rightarrow> tcb_queue \<Rightarrow> kernel_state \<Rightarrow> kernel_state option" where
  "ep_ptr_set_queue epptr queue = upd_ep epptr (\<lambda>e. e\<lparr>epQueue_head := head queue, epQueue_tail := end_ptr queue\<rparr>)"

definition endpoint_ptr_set_state :: "ptr \<Rightarrow> endpoint_state \<Rightarrow> kernel_state \<Rightarrow> kernel_state option" where
  "endpoint_ptr_set_state epptr st = upd_ep epptr (\<lambda>e. e\<lparr>ep_state := st\<rparr>)"

definition ntfn_ptr_get_queue :: "notification \<Rightarrow> tcb_queue" where
  "ntfn_ptr_get_queue n = \<lparr>head = ntfnQueue_head n, end_ptr = ntfnQueue_tail n\<rparr>"

definition ntfn_ptr_set_queue :: "ptr \<Rightarrow> tcb_queue \<Rightarrow> kernel_state \<Rightarrow> kernel_state option" where
  "ntfn_ptr_set_queue ntfnPtr queue = upd_ntfn ntfnPtr (\<lambda>n. n\<lparr>ntfnQueue_head := head queue, ntfnQueue_tail := end_ptr queue\<rparr>)"

definition notification_ptr_set_state :: "ptr \<Rightarrow> notification_state \<Rightarrow> kernel_state \<Rightarrow> kernel_state option" where
  "notification_ptr_set_state ntfnPtr st = upd_ntfn ntfnPtr (\<lambda>n. n\<lparr>ntfn_state := st\<rparr>)"

definition ntfn_set_active :: "ptr \<Rightarrow> word_t \<Rightarrow> kernel_state \<Rightarrow> kernel_state option" where
  "ntfn_set_active ntfnPtr badge = upd_ntfn ntfnPtr (\<lambda>n. n\<lparr>ntfn_state := NtfnState_Active, ntfnMsgIdentifier := badge\<rparr>)"

subsection \<open>Removing all blocked threads\<close>

text \<open>The loop of \<^verbatim>\<open>cancelAllIPC\<close> and of \<^verbatim>\<open>cancelAllSignals\<close>; it ends where the list of threads does.\<close>

partial_function (option) restart_all :: "ptr \<Rightarrow> kernel_state \<Rightarrow> kernel_state option" where
  "restart_all thread s =
     (if thread = 0 then Some s
      else do {
        s \<leftarrow> setThreadState thread ThreadState_Restart s;
        s \<leftarrow> tcbSchedEnqueue thread s;
        t \<leftarrow> tcbs s thread;
        restart_all (tcbEPNext t) s
      })"

definition cancelAllIPC :: "ptr \<Rightarrow> kernel_state \<Rightarrow> kernel_state option" where
  "cancelAllIPC epptr s = do {
     ep \<leftarrow> eps s epptr;
     if ep_state ep = EPState_Idle then Some s
     else do {
       let thread = epQueue_head ep;
       s \<leftarrow> endpoint_ptr_set_state epptr EPState_Idle s;
       s \<leftarrow> ep_ptr_set_queue epptr \<lparr>head = 0, end_ptr = 0\<rparr> s;
       s \<leftarrow> restart_all thread s;
       rescheduleRequired s
     }
   }"

partial_function (option) cancelBadgedSends_loop :: "word_t \<Rightarrow> ptr \<Rightarrow> tcb_queue \<Rightarrow> kernel_state \<Rightarrow> (tcb_queue \<times> kernel_state) option" where
  "cancelBadgedSends_loop badge thread queue s =
     (if thread = 0 then Some (queue, s)
      else do {
        t \<leftarrow> tcbs s thread;
        r \<leftarrow> (if blockingIPCBadge t = badge
           then do {
             s \<leftarrow> setThreadState thread ThreadState_Restart s;
             s \<leftarrow> tcbSchedEnqueue thread s;
             tcbEPDequeue thread queue s
           }
           else Some (queue, s));
        cancelBadgedSends_loop badge (tcbEPNext t) (fst r) (snd r)
      })"

definition cancelBadgedSends :: "ptr \<Rightarrow> word_t \<Rightarrow> kernel_state \<Rightarrow> kernel_state option" where
  "cancelBadgedSends epptr badge s = do {
     ep \<leftarrow> eps s epptr;
     if ep_state ep = EPState_Send
     then do {
       let queue = ep_ptr_get_queue ep;
       s \<leftarrow> endpoint_ptr_set_state epptr EPState_Idle s;
       s \<leftarrow> ep_ptr_set_queue epptr \<lparr>head = 0, end_ptr = 0\<rparr> s;
       (queue, s) \<leftarrow> cancelBadgedSends_loop badge (head queue) queue s;
       s \<leftarrow> ep_ptr_set_queue epptr queue s;
       s \<leftarrow> (if head queue \<noteq> 0 then endpoint_ptr_set_state epptr EPState_Send s else Some s);
       rescheduleRequired s
     }
     else Some s
   }"

definition cancelAllSignals :: "ptr \<Rightarrow> kernel_state \<Rightarrow> kernel_state option" where
  "cancelAllSignals ntfnPtr s = do {
     n \<leftarrow> ntfns s ntfnPtr;
     if ntfn_state n = NtfnState_Waiting
     then do {
       let thread = ntfnQueue_head n;
       s \<leftarrow> notification_ptr_set_state ntfnPtr NtfnState_Idle s;
       s \<leftarrow> ntfn_ptr_set_queue ntfnPtr \<lparr>head = 0, end_ptr = 0\<rparr> s;
       s \<leftarrow> restart_all thread s;
       rescheduleRequired s
     }
     else Some s
   }"

definition cancelSignal :: "ptr \<Rightarrow> ptr \<Rightarrow> kernel_state \<Rightarrow> kernel_state option" where
  "cancelSignal threadPtr ntfnPtr s = do {
     n \<leftarrow> ntfns s ntfnPtr;
     kassert (ntfn_state n = NtfnState_Waiting);
     (ntfn_queue, s) \<leftarrow> tcbEPDequeue threadPtr (ntfn_ptr_get_queue n) s;
     s \<leftarrow> ntfn_ptr_set_queue ntfnPtr ntfn_queue s;
     s \<leftarrow> (if head ntfn_queue = 0 then notification_ptr_set_state ntfnPtr NtfnState_Idle s else Some s);
     setThreadState threadPtr ThreadState_Inactive s
   }"

subsection \<open>Binding\<close>

definition doUnbindNotification :: "ptr \<Rightarrow> ptr \<Rightarrow> kernel_state \<Rightarrow> kernel_state option" where
  "doUnbindNotification ntfnPtr tcbptr s = do {
     s \<leftarrow> upd_ntfn ntfnPtr (\<lambda>n. n\<lparr>ntfnBoundTCB := 0\<rparr>) s;
     upd_tcb tcbptr (\<lambda>t. t\<lparr>tcbBoundNotification := 0\<rparr>) s
   }"

definition unbindMaybeNotification :: "ptr \<Rightarrow> kernel_state \<Rightarrow> kernel_state option" where
  "unbindMaybeNotification ntfnPtr s = do {
     n \<leftarrow> ntfns s ntfnPtr;
     if ntfnBoundTCB n \<noteq> 0 then doUnbindNotification ntfnPtr (ntfnBoundTCB n) s else Some s
   }"

definition unbindNotification :: "ptr \<Rightarrow> kernel_state \<Rightarrow> kernel_state option" where
  "unbindNotification tcb s = do {
     t \<leftarrow> tcbs s tcb;
     if tcbBoundNotification t \<noteq> 0 then doUnbindNotification (tcbBoundNotification t) tcb s else Some s
   }"

definition bindNotification :: "ptr \<Rightarrow> ptr \<Rightarrow> kernel_state \<Rightarrow> kernel_state option" where
  "bindNotification tcb ntfnPtr s = do {
     s \<leftarrow> upd_ntfn ntfnPtr (\<lambda>n. n\<lparr>ntfnBoundTCB := tcb\<rparr>) s;
     upd_tcb tcb (\<lambda>t. t\<lparr>tcbBoundNotification := ntfnPtr\<rparr>) s
   }"

subsection \<open>Deleting capabilities that are removed at once\<close>

text \<open>The first part of \<^verbatim>\<open>finaliseCap\<close>, up to the point where it fails if the capability is exposed; \<open>None\<close> for the kinds it leaves.\<close>

definition finaliseCap_immediate :: "cap \<Rightarrow> bool \<Rightarrow> kernel_state \<Rightarrow> (finaliseCap_ret \<times> kernel_state) option option" where
  "finaliseCap_immediate cap final s = (case cap of
     ArchCap c \<Rightarrow> Some (Arch_finaliseCap c final s)
   | EndpointCap _ _ _ _ _ ep \<Rightarrow>
       Some (map_option (\<lambda>s. ((NullCap, NullCap), s)) (if final then cancelAllIPC ep s else Some s))
   | NotificationCap _ _ _ ntfn \<Rightarrow>
       Some (map_option (\<lambda>s. ((NullCap, NullCap), s))
         (if final then do { s \<leftarrow> unbindMaybeNotification ntfn s; cancelAllSignals ntfn s } else Some s))
   | ReplyCap _ _ _ \<Rightarrow> Some (Some ((NullCap, NullCap), s))
   | NullCap \<Rightarrow> Some (Some ((NullCap, NullCap), s))
   | DomainCap \<Rightarrow> Some (Some ((NullCap, NullCap), s))
   | _ \<Rightarrow> None)"

definition finaliseCap_exposed :: "cap \<Rightarrow> bool \<Rightarrow> kernel_state \<Rightarrow> (finaliseCap_ret \<times> kernel_state) option" where
  "finaliseCap_exposed cap final s = (case finaliseCap_immediate cap final s of Some r \<Rightarrow> r | None \<Rightarrow> None)"

definition cteDeleteOne :: "ptr \<Rightarrow> kernel_state \<Rightarrow> kernel_state option" where
  "cteDeleteOne slot s = do {
     c \<leftarrow> ctes s slot;
     if cte_cap c \<noteq> NullCap then do {
       final \<leftarrow> isFinalCapability s slot;
       ((remainder, cleanupInfo), s) \<leftarrow> finaliseCap_exposed (cte_cap c) final s;
       removable \<leftarrow> capRemovable remainder slot;
       kassert (removable \<and> cleanupInfo = NullCap);
       emptySlot slot NullCap s
     }
     else Some s
   }"

subsection \<open>Reply capabilities\<close>

definition setupCallerCap :: "ptr \<Rightarrow> ptr \<Rightarrow> bool \<Rightarrow> kernel_state \<Rightarrow> kernel_state option" where
  "setupCallerCap sender receiver canGrant s = do {
     s \<leftarrow> setThreadState sender ThreadState_BlockedOnReply s;
     let replySlot = TCB_PTR_CTE_PTR sender tcbReply;
     r \<leftarrow> ctes s replySlot;
     kassert (cte_cap r = ReplyCap True True sender);
     let callerSlot = TCB_PTR_CTE_PTR receiver tcbCaller;
     c \<leftarrow> ctes s callerSlot;
     kassert (cte_cap c = NullCap);
     cteInsert (ReplyCap canGrant False sender) replySlot callerSlot s
   }"

definition deleteCallerCap :: "ptr \<Rightarrow> kernel_state \<Rightarrow> kernel_state option" where
  "deleteCallerCap receiver s = cteDeleteOne (TCB_PTR_CTE_PTR receiver tcbCaller) s"

subsection \<open>Cancelling a blocked operation\<close>

definition cancelIPC :: "ptr \<Rightarrow> kernel_state \<Rightarrow> kernel_state option" where
  "cancelIPC tptr s = do {
     t \<leftarrow> tcbs s tptr;
     (case tsType t of
        ThreadState_BlockedOnNotification \<Rightarrow> cancelSignal tptr (blockingObject t) s
      | ThreadState_BlockedOnReply \<Rightarrow> do {
          s \<leftarrow> upd_tcb tptr (\<lambda>t. t\<lparr>tcbFault := Fault_NullFault\<rparr>) s;
          c \<leftarrow> ctes s (TCB_PTR_CTE_PTR tptr tcbReply);
          let callerCap = mdbNext (cteMDBNode c);
          if callerCap \<noteq> 0 then cteDeleteOne callerCap s else Some s
        }
      | _ \<Rightarrow>
        if tsType t = ThreadState_BlockedOnSend \<or> tsType t = ThreadState_BlockedOnReceive
        then do {
          let epptr = blockingObject t;
          ep \<leftarrow> eps s epptr;
          kassert (ep_state ep \<noteq> EPState_Idle);
          (queue, s) \<leftarrow> tcbEPDequeue tptr (ep_ptr_get_queue ep) s;
          s \<leftarrow> ep_ptr_set_queue epptr queue s;
          s \<leftarrow> (if head queue = 0 then endpoint_ptr_set_state epptr EPState_Idle s else Some s);
          setThreadState tptr ThreadState_Inactive s
        }
        else Some s)
   }"

subsection \<open>Signals\<close>

definition sendSignal :: "ptr \<Rightarrow> word_t \<Rightarrow> kernel_state \<Rightarrow> kernel_state option" where
  "sendSignal ntfnPtr badge s = do {
     n \<leftarrow> ntfns s ntfnPtr;
     (case ntfn_state n of
        NtfnState_Idle \<Rightarrow> do {
          let tcb = ntfnBoundTCB n;
          if tcb \<noteq> 0 then do {
            t \<leftarrow> tcbs s tcb;
            if tsType t = ThreadState_BlockedOnReceive
            then do {
              s \<leftarrow> cancelIPC tcb s;
              s \<leftarrow> setThreadState tcb ThreadState_Running s;
              s \<leftarrow> setRegister tcb badgeRegister badge s;
              possibleSwitchTo tcb s
            }
            else ntfn_set_active ntfnPtr badge s
          }
          else ntfn_set_active ntfnPtr badge s
        }
      | NtfnState_Waiting \<Rightarrow> do {
          let dest = ntfnQueue_head n;
          kassert (dest \<noteq> 0);
          (ntfn_queue, s) \<leftarrow> tcbEPDequeue dest (ntfn_ptr_get_queue n) s;
          s \<leftarrow> ntfn_ptr_set_queue ntfnPtr ntfn_queue s;
          s \<leftarrow> (if head ntfn_queue = 0 then notification_ptr_set_state ntfnPtr NtfnState_Idle s else Some s);
          s \<leftarrow> setThreadState dest ThreadState_Running s;
          s \<leftarrow> setRegister dest badgeRegister badge s;
          possibleSwitchTo dest s
        }
      | NtfnState_Active \<Rightarrow> upd_ntfn ntfnPtr (\<lambda>n. n\<lparr>ntfnMsgIdentifier := ntfnMsgIdentifier n OR badge\<rparr>) s)
   }"

definition receiveSignal :: "ptr \<Rightarrow> cap \<Rightarrow> bool \<Rightarrow> kernel_state \<Rightarrow> kernel_state option" where
  "receiveSignal thread cap isBlocking s = (case cap of
     NotificationCap _ _ _ ntfnPtr \<Rightarrow> do {
       n \<leftarrow> ntfns s ntfnPtr;
       if ntfn_state n = NtfnState_Active
       then do {
         s \<leftarrow> setRegister thread badgeRegister (ntfnMsgIdentifier n) s;
         notification_ptr_set_state ntfnPtr NtfnState_Idle s
       }
       else if isBlocking then do {
         s \<leftarrow> upd_tcb thread (\<lambda>t. t\<lparr>tsType := ThreadState_BlockedOnNotification, blockingObject := ntfnPtr\<rparr>) s;
         s \<leftarrow> scheduleTCB thread s;
         n \<leftarrow> ntfns s ntfnPtr;
         (ntfn_queue, s) \<leftarrow> tcbEPAppend thread (ntfn_ptr_get_queue n) s;
         s \<leftarrow> notification_ptr_set_state ntfnPtr NtfnState_Waiting s;
         ntfn_ptr_set_queue ntfnPtr ntfn_queue s
       }
       else doNBRecvFailedTransfer thread s
     }
   | _ \<Rightarrow> None)"

definition completeSignal :: "ptr \<Rightarrow> ptr \<Rightarrow> kernel_state \<Rightarrow> kernel_state option" where
  "completeSignal ntfnPtr tcb s = do {
     n \<leftarrow> ntfns s ntfnPtr;
     if tcb \<noteq> 0 \<and> ntfn_state n = NtfnState_Active
     then do {
       s \<leftarrow> setRegister tcb badgeRegister (ntfnMsgIdentifier n) s;
       notification_ptr_set_state ntfnPtr NtfnState_Idle s
     }
     else None
   }"

subsection \<open>Messages through an endpoint\<close>

definition sendIPC :: "bool \<Rightarrow> bool \<Rightarrow> word_t \<Rightarrow> bool \<Rightarrow> bool \<Rightarrow> ptr \<Rightarrow> ptr \<Rightarrow> kernel_state \<Rightarrow> kernel_state option" where
  "sendIPC blocking do_call badge canGrant canGrantReply thread epptr s = do {
     ep \<leftarrow> eps s epptr;
     if ep_state ep \<noteq> EPState_Recv
     then if blocking then do {
         s \<leftarrow> upd_tcb thread (\<lambda>t. t\<lparr>tsType := ThreadState_BlockedOnSend, blockingObject := epptr,
                blockingIPCBadge := badge, blockingIPCCanGrant := canGrant,
                blockingIPCCanGrantReply := canGrantReply, blockingIPCIsCall := do_call\<rparr>) s;
         s \<leftarrow> scheduleTCB thread s;
         ep \<leftarrow> eps s epptr;
         (queue, s) \<leftarrow> tcbEPAppend thread (ep_ptr_get_queue ep) s;
         s \<leftarrow> endpoint_ptr_set_state epptr EPState_Send s;
         ep_ptr_set_queue epptr queue s
       }
       else Some s
     else do {
       let dest = epQueue_head ep;
       kassert (dest \<noteq> 0);
       (queue, s) \<leftarrow> tcbEPDequeue dest (ep_ptr_get_queue ep) s;
       s \<leftarrow> ep_ptr_set_queue epptr queue s;
       s \<leftarrow> (if head queue = 0 then endpoint_ptr_set_state epptr EPState_Idle s else Some s);
       s \<leftarrow> doIPCTransfer thread epptr badge canGrant dest s;
       d \<leftarrow> tcbs s dest;
       let replyCanGrant = blockingIPCCanGrant d;
       s \<leftarrow> setThreadState dest ThreadState_Running s;
       s \<leftarrow> possibleSwitchTo dest s;
       if do_call then
         if canGrant \<or> canGrantReply then setupCallerCap thread dest replyCanGrant s
         else setThreadState thread ThreadState_Inactive s
       else Some s
     }
   }"

definition receiveIPC :: "ptr \<Rightarrow> cap \<Rightarrow> bool \<Rightarrow> kernel_state \<Rightarrow> kernel_state option" where
  "receiveIPC thread cap isBlocking s = (case cap of
     EndpointCap _ _ recvCanGrant _ _ epptr \<Rightarrow> do {
       t \<leftarrow> tcbs s thread;
       let ntfnPtr = tcbBoundNotification t;
       active \<leftarrow> (if ntfnPtr \<noteq> 0 then map_option (\<lambda>n. ntfn_state n = NtfnState_Active) (ntfns s ntfnPtr) else Some False);
       if active then completeSignal ntfnPtr thread s
       else do {
         ep \<leftarrow> eps s epptr;
         if ep_state ep \<noteq> EPState_Send
         then if isBlocking then do {
             s \<leftarrow> upd_tcb thread (\<lambda>t. t\<lparr>tsType := ThreadState_BlockedOnReceive, blockingObject := epptr,
                    blockingIPCCanGrant := recvCanGrant\<rparr>) s;
             s \<leftarrow> scheduleTCB thread s;
             ep \<leftarrow> eps s epptr;
             (queue, s) \<leftarrow> tcbEPAppend thread (ep_ptr_get_queue ep) s;
             s \<leftarrow> endpoint_ptr_set_state epptr EPState_Recv s;
             ep_ptr_set_queue epptr queue s
           }
           else doNBRecvFailedTransfer thread s
         else do {
           let sender = epQueue_head ep;
           kassert (sender \<noteq> 0);
           (queue, s) \<leftarrow> tcbEPDequeue sender (ep_ptr_get_queue ep) s;
           s \<leftarrow> ep_ptr_set_queue epptr queue s;
           s \<leftarrow> (if head queue = 0 then endpoint_ptr_set_state epptr EPState_Idle s else Some s);
           st \<leftarrow> tcbs s sender;
           let badge = blockingIPCBadge st;
           let canGrant = blockingIPCCanGrant st;
           let canGrantReply = blockingIPCCanGrantReply st;
           s \<leftarrow> doIPCTransfer sender epptr badge canGrant thread s;
           st \<leftarrow> tcbs s sender;
           let do_call = blockingIPCIsCall st;
           if do_call then
             if canGrant \<or> canGrantReply then setupCallerCap sender thread recvCanGrant s
             else setThreadState sender ThreadState_Inactive s
           else do {
             s \<leftarrow> setThreadState sender ThreadState_Running s;
             possibleSwitchTo sender s
           }
         }
       }
     }
   | _ \<Rightarrow> None)"

definition doReplyTransfer :: "ptr \<Rightarrow> ptr \<Rightarrow> ptr \<Rightarrow> bool \<Rightarrow> kernel_state \<Rightarrow> kernel_state option" where
  "doReplyTransfer sender receiver slot grant s = do {
     r \<leftarrow> tcbs s receiver;
     kassert (tsType r = ThreadState_BlockedOnReply);
     if tcbFault r = Fault_NullFault
     then do {
       s \<leftarrow> doIPCTransfer sender 0 0 grant receiver s;
       s \<leftarrow> cteDeleteOne slot s;
       s \<leftarrow> setThreadState receiver ThreadState_Running s;
       possibleSwitchTo receiver s
     }
     else do {
       s \<leftarrow> cteDeleteOne slot s;
       (restart, s) \<leftarrow> handleFaultReply receiver sender s;
       s \<leftarrow> upd_tcb receiver (\<lambda>t. t\<lparr>tcbFault := Fault_NullFault\<rparr>) s;
       if restart then do {
         s \<leftarrow> setThreadState receiver ThreadState_Restart s;
         possibleSwitchTo receiver s
       }
       else setThreadState receiver ThreadState_Inactive s
     }
   }"

subsection \<open>Faults\<close>

text \<open>
  The fault and the lookup failure the kernel keeps in the globals \<^verbatim>\<open>current_fault\<close> and
  \<^verbatim>\<open>current_lookup_fault\<close> are arguments. The result tells whether a handler took the fault; the second
  fault that \<^verbatim>\<open>sendFaultIPC\<close> records otherwise is only printed.
\<close>

definition sendFaultIPC :: "ptr \<Rightarrow> seL4_Fault \<Rightarrow> lookup_fault \<Rightarrow> kernel_state \<Rightarrow> (bool \<times> kernel_state) option" where
  "sendFaultIPC tptr fault original_lookup_fault s = do {
     t \<leftarrow> tcbs s tptr;
     lu_ret \<leftarrow> lookupCap s tptr (tcbFaultHandler t);
     (case lu_ret of
        Inl _ \<Rightarrow> Some (False, s)
      | Inr handlerCap \<Rightarrow>
          (case handlerCap of
             EndpointCap badge canGrantReply canGrant canSend _ ep \<Rightarrow>
               if canSend \<and> (canGrant \<or> canGrantReply) then do {
                 s \<leftarrow> upd_tcb tptr (\<lambda>t. t\<lparr>tcbFault := fault\<rparr>) s;
                 s \<leftarrow> (case fault of Fault_CapFault _ _ \<Rightarrow> upd_tcb tptr (\<lambda>t. t\<lparr>tcbLookupFailure := original_lookup_fault\<rparr>) s | _ \<Rightarrow> Some s);
                 map_option (\<lambda>s. (True, s)) (sendIPC True True badge canGrant True tptr ep s)
               }
               else Some (False, s)
           | _ \<Rightarrow> Some (False, s)))
   }"

definition handleDoubleFault :: "ptr \<Rightarrow> kernel_state \<Rightarrow> kernel_state option" where
  "handleDoubleFault tptr s = setThreadState tptr ThreadState_Inactive s"

definition handleFault :: "ptr \<Rightarrow> seL4_Fault \<Rightarrow> lookup_fault \<Rightarrow> kernel_state \<Rightarrow> kernel_state option" where
  "handleFault tptr fault luf s = do {
     (handled, s) \<leftarrow> sendFaultIPC tptr fault luf s;
     if handled then Some s else handleDoubleFault tptr s
   }"

subsection \<open>Threads\<close>

definition activateThread :: "kernel_state \<Rightarrow> kernel_state option" where
  "activateThread s = do {
     t \<leftarrow> tcbs s (ksCurThread s);
     (case tsType t of
        ThreadState_Running \<Rightarrow> Some s
      | ThreadState_Restart \<Rightarrow> do {
          pc \<leftarrow> getRestartPC s (ksCurThread s);
          s \<leftarrow> setNextPC (ksCurThread s) pc s;
          setThreadState (ksCurThread s) ThreadState_Running s
        }
      | ThreadState_IdleThreadState \<Rightarrow> Some s
      | _ \<Rightarrow> None)
   }"

definition suspend :: "ptr \<Rightarrow> kernel_state \<Rightarrow> kernel_state option" where
  "suspend target s = do {
     s \<leftarrow> cancelIPC target s;
     t \<leftarrow> tcbs s target;
     s \<leftarrow> (if tsType t = ThreadState_Running then updateRestartPC target s else Some s);
     s \<leftarrow> setThreadState target ThreadState_Inactive s;
     tcbSchedDequeue target s
   }"

definition restart :: "ptr \<Rightarrow> kernel_state \<Rightarrow> kernel_state option" where
  "restart target s = do {
     stopped \<leftarrow> isStopped s target;
     if stopped then do {
       s \<leftarrow> cancelIPC target s;
       s \<leftarrow> setupReplyMaster target s;
       s \<leftarrow> setThreadState target ThreadState_Restart s;
       s \<leftarrow> tcbSchedEnqueue target s;
       possibleSwitchTo target s
     }
     else Some s
   }"

end
