(* ===== verification/KSyscall.thy ===== *)
theory KSyscall
  imports KIpc
begin

unbundle bit_operations_syntax

text \<open>
  Entries into the kernel: interrupts (\<^verbatim>\<open>kernel/src/object/interrupt.c\<close>), system calls and faults
  (\<^verbatim>\<open>kernel/src/api/syscall.c\<close>), with the registration of servers that this version of the kernel adds.
  What the hardware reports is an argument: the pending interrupt (\<open>None\<close> for none), the greatest interrupt
  number of the platform, and the fault address and status. The interrupt controller is a GICv2, which is
  masked while an interrupt is delivered. The argument \<open>decode\<close> stands for the decoders of the objects
  other than endpoints, notifications and reply capabilities.
\<close>

subsection \<open>Interrupts\<close>

definition irqSlot :: "kernel_state \<Rightarrow> irq_t \<Rightarrow> ptr" where
  "irqSlot s irq = cte_at_index (intStateIRQNode s) irq"

definition ackInterrupt :: "irq_t \<Rightarrow> kernel_state \<Rightarrow> kernel_state" where
  "ackInterrupt irq s = s\<lparr>irqAcks := irq # irqAcks s\<rparr>"

definition invokeIRQControl :: "irq_t \<Rightarrow> ptr \<Rightarrow> ptr \<Rightarrow> kernel_state \<Rightarrow> kernel_state option" where
  "invokeIRQControl irq handlerSlot controlSlot s = cteInsert (IRQHandlerCap irq) controlSlot handlerSlot (setIRQState IRQSignal irq s)"

definition invokeIRQHandler_AckIRQ :: "irq_t \<Rightarrow> kernel_state \<Rightarrow> kernel_state" where
  "invokeIRQHandler_AckIRQ irq s = maskInterrupt False irq s"

definition invokeIRQHandler_SetIRQHandler :: "irq_t \<Rightarrow> cap \<Rightarrow> ptr \<Rightarrow> kernel_state \<Rightarrow> kernel_state option" where
  "invokeIRQHandler_SetIRQHandler irq cap slot s = do {
     let irqSlot = irqSlot s irq;
     s \<leftarrow> cteDeleteOne irqSlot s;
     cteInsert cap slot irqSlot s
   }"

definition invokeIRQHandler_ClearIRQHandler :: "irq_t \<Rightarrow> kernel_state \<Rightarrow> kernel_state option" where
  "invokeIRQHandler_ClearIRQHandler irq s = cteDeleteOne (irqSlot s irq) s"

definition deletingIRQHandler :: "irq_t \<Rightarrow> kernel_state \<Rightarrow> kernel_state option" where
  "deletingIRQHandler irq s = cteDeleteOne (irqSlot s irq) s"

definition handleInterrupt :: "irq_t \<Rightarrow> irq_t \<Rightarrow> kernel_state \<Rightarrow> kernel_state option" where
  "handleInterrupt maxIRQ irq s =
     (if irq > maxIRQ then Some (ackInterrupt irq (maskInterrupt True irq s))
      else do {
        s \<leftarrow> (case intStateIRQTable s irq of
            IRQSignal \<Rightarrow> do {
              c \<leftarrow> ctes s (irqSlot s irq);
              s \<leftarrow> (case cte_cap c of
                  NotificationCap badge _ canSend ntfn \<Rightarrow> if canSend then sendSignal ntfn badge s else Some s
                | _ \<Rightarrow> Some s);
              Some (maskInterrupt True irq s)
            }
          | IRQTimer \<Rightarrow> timerTick s
          | IRQReserved \<Rightarrow> Some s
          | IRQInactive \<Rightarrow> Some (maskInterrupt True irq s));
        Some (ackInterrupt irq s)
      })"

subsection \<open>Invocations\<close>

datatype exception = EXCEPTION_NONE | EXCEPTION_SYSCALL_ERROR syscall_error | EXCEPTION_PREEMPTED

text \<open>The label, the length, the capability, its slot and its address, whether it is a call, the buffer and the extra capabilities.\<close>

type_synonym decoder = "word_t \<Rightarrow> word_t \<Rightarrow> cptr_t \<Rightarrow> ptr \<Rightarrow> cap \<Rightarrow> bool \<Rightarrow> ptr \<Rightarrow> ptr list \<Rightarrow> kernel_state \<Rightarrow> (exception \<times> kernel_state) option"

definition performInvocation_Endpoint :: "ptr \<Rightarrow> word_t \<Rightarrow> bool \<Rightarrow> bool \<Rightarrow> bool \<Rightarrow> bool \<Rightarrow> kernel_state \<Rightarrow> (exception \<times> kernel_state) option" where
  "performInvocation_Endpoint ep badge canGrant canGrantReply block call s = do {
     s \<leftarrow> sendIPC block call badge canGrant canGrantReply (ksCurThread s) ep s;
     Some (EXCEPTION_NONE, s)
   }"

definition performInvocation_Notification :: "ptr \<Rightarrow> word_t \<Rightarrow> kernel_state \<Rightarrow> (exception \<times> kernel_state) option" where
  "performInvocation_Notification ntfn badge s = do {
     s \<leftarrow> sendSignal ntfn badge s;
     Some (EXCEPTION_NONE, s)
   }"

definition performInvocation_Reply :: "ptr \<Rightarrow> ptr \<Rightarrow> bool \<Rightarrow> kernel_state \<Rightarrow> (exception \<times> kernel_state) option" where
  "performInvocation_Reply thread slot canGrant s = do {
     s \<leftarrow> doReplyTransfer (ksCurThread s) thread slot canGrant s;
     Some (EXCEPTION_NONE, s)
   }"

definition invalid_cap_error :: exception where
  "invalid_cap_error = EXCEPTION_SYSCALL_ERROR ((no_error seL4_InvalidCapability)\<lparr>invalidCapNumber := 0\<rparr>)"

definition decodeInvocation :: "decoder \<Rightarrow> word_t \<Rightarrow> word_t \<Rightarrow> cptr_t \<Rightarrow> ptr \<Rightarrow> cap \<Rightarrow> bool \<Rightarrow> bool \<Rightarrow> ptr \<Rightarrow> ptr list \<Rightarrow>
    kernel_state \<Rightarrow> (exception \<times> kernel_state) option" where
  "decodeInvocation decode invLabel len capIndex slot cap block call buffer excaps s = (case cap of
     NullCap \<Rightarrow> Some (invalid_cap_error, s)
   | ZombieCap _ _ \<Rightarrow> Some (invalid_cap_error, s)
   | EndpointCap badge canGrantReply canGrant canSend _ ep \<Rightarrow>
       if \<not> canSend then Some (invalid_cap_error, s)
       else do {
         s \<leftarrow> setThreadState (ksCurThread s) ThreadState_Restart s;
         performInvocation_Endpoint ep badge canGrant canGrantReply block call s
       }
   | NotificationCap badge _ canSend ntfn \<Rightarrow>
       if \<not> canSend then Some (invalid_cap_error, s)
       else do {
         s \<leftarrow> setThreadState (ksCurThread s) ThreadState_Restart s;
         performInvocation_Notification ntfn badge s
       }
   | ReplyCap canGrant master thread \<Rightarrow>
       if master then Some (invalid_cap_error, s)
       else do {
         s \<leftarrow> setThreadState (ksCurThread s) ThreadState_Restart s;
         performInvocation_Reply thread slot canGrant s
       }
   | _ \<Rightarrow> decode invLabel len capIndex slot cap call buffer excaps s)"

text \<open>What \<^verbatim>\<open>handleInvocation\<close> does with the status of the invocation; the result tells whether it was preempted.\<close>

definition handleInvocation_finish :: "bool \<Rightarrow> ptr \<Rightarrow> exception \<Rightarrow> kernel_state \<Rightarrow> (bool \<times> kernel_state) option" where
  "handleInvocation_finish isCall thread status s = (case status of
     EXCEPTION_PREEMPTED \<Rightarrow> Some (True, s)
   | EXCEPTION_SYSCALL_ERROR e \<Rightarrow> map_option (Pair False) (if isCall then replyFromKernel_error thread e s else Some s)
   | EXCEPTION_NONE \<Rightarrow> do {
       t \<leftarrow> tcbs s thread;
       s \<leftarrow> (if tsType t = ThreadState_Restart then do {
               s \<leftarrow> (if isCall then replyFromKernel_success_empty thread s else Some s);
               setThreadState thread ThreadState_Running s
             }
             else Some s);
       Some (False, s)
     })"

definition handleInvocation :: "decoder \<Rightarrow> bool \<Rightarrow> bool \<Rightarrow> kernel_state \<Rightarrow> (bool \<times> kernel_state) option" where
  "handleInvocation decode isCall isBlocking s = do {
     let thread = ksCurThread s;
     w \<leftarrow> getRegister s thread msgInfoRegister;
     let info = messageInfoFromWord w;
     cptr \<leftarrow> getRegister s thread capRegister;
     lu_ret \<leftarrow> lookupCapAndSlot s thread cptr;
     (case lu_ret of
        Inl f \<Rightarrow> map_option (Pair False) (if isBlocking then handleFault thread (Fault_CapFault cptr False) f s else Some s)
      | Inr (slot, cap) \<Rightarrow> do {
          buffer \<leftarrow> lookupIPCBuffer False thread s;
          lec_ret \<leftarrow> lookupExtraCaps s thread buffer info;
          (case lec_ret of
             Inl (fault, f) \<Rightarrow> map_option (Pair False) (if isBlocking then handleFault thread fault f s else Some s)
           | Inr excaps \<Rightarrow> do {
               let len = mi_get_length info;
               let len = (if len > of_nat n_msgRegisters \<and> buffer = 0 then of_nat n_msgRegisters else len);
               (status, s) \<leftarrow> decodeInvocation decode (mi_get_label info) len cptr slot cap isBlocking isCall buffer excaps s;
               handleInvocation_finish isCall thread status s
             })
        })
   }"

subsection \<open>Replying, receiving and yielding\<close>

definition handleReply :: "kernel_state \<Rightarrow> kernel_state option" where
  "handleReply s = do {
     let callerSlot = TCB_PTR_CTE_PTR (ksCurThread s) tcbCaller;
     c \<leftarrow> ctes s callerSlot;
     (case cte_cap c of
        ReplyCap canGrant master caller \<Rightarrow>
          if master then None
          else do {
            kassert (caller \<noteq> ksCurThread s);
            doReplyTransfer (ksCurThread s) caller callerSlot canGrant s
          }
      | NullCap \<Rightarrow> Some s
      | _ \<Rightarrow> None)
   }"

definition handleRecv :: "bool \<Rightarrow> kernel_state \<Rightarrow> kernel_state option" where
  "handleRecv isBlocking s = do {
     let thread = ksCurThread s;
     epCPtr \<leftarrow> getRegister s thread capRegister;
     lu_ret \<leftarrow> lookupCap s thread epCPtr;
     let bad = (\<lambda>luf. handleFault thread (Fault_CapFault epCPtr True) luf s);
     (case lu_ret of
        Inl f \<Rightarrow> bad f
      | Inr cap \<Rightarrow>
          (case cap of
             EndpointCap _ _ _ _ canReceive _ \<Rightarrow>
               if \<not> canReceive then bad (Lookup_missing_capability 0)
               else do {
                 s \<leftarrow> deleteCallerCap thread s;
                 receiveIPC thread cap isBlocking s
               }
           | NotificationCap _ canReceive _ ntfnPtr \<Rightarrow> do {
               n \<leftarrow> ntfns s ntfnPtr;
               if \<not> canReceive \<or> ntfnBoundTCB n \<noteq> 0 \<and> ntfnBoundTCB n \<noteq> thread
               then bad (Lookup_missing_capability 0)
               else receiveSignal thread cap isBlocking s
             }
           | _ \<Rightarrow> bad (Lookup_missing_capability 0)))
   }"

definition handleYield :: "kernel_state \<Rightarrow> kernel_state option" where
  "handleYield s = do {
     s \<leftarrow> tcbSchedDequeue (ksCurThread s) s;
     s \<leftarrow> tcbSchedAppend (ksCurThread s) s;
     rescheduleRequired s
   }"

subsection \<open>Registering a server\<close>

definition SERVER_PORT_NUM :: int where "SERVER_PORT_NUM = 128"

definition X4 :: nat where "X4 = 4"
definition X5 :: nat where "X5 = 5"

definition handleRegister :: "kernel_state \<Rightarrow> kernel_state option" where
  "handleRegister s = do {
     let thread = ksCurThread s;
     portInfo \<leftarrow> getRegister s thread X4;
     funcInfo \<leftarrow> getRegister s thread X5;
     let newIpc = \<lparr>ServerThread = thread, svc_func = funcInfo, svc_stk = portInfo\<rparr>;
     let top = ipcServerList_top s;
     kassert (0 \<le> top \<and> nat top < length (ipcServerList s));
     let s = s\<lparr>ipcServerList := (ipcServerList s)[nat top := newIpc]\<rparr>;
     s \<leftarrow> setRegister thread X4 (word_of_int top) s;
     Some (s\<lparr>ipcServerList_top := (top + 1) mod SERVER_PORT_NUM\<rparr>)
   }"

subsection \<open>Entries\<close>

datatype syscall = SysCall | SysReplyRecv | SysSend | SysNBSend | SysRecv | SysReply | SysYield | SysNBRecv | SysRegister

definition handlePreempted :: "irq_t \<Rightarrow> irq_t option \<Rightarrow> bool \<times> kernel_state \<Rightarrow> kernel_state option" where
  "handlePreempted maxIRQ active r = (case r of
     (False, s) \<Rightarrow> Some s
   | (True, s) \<Rightarrow> (case active of None \<Rightarrow> Some s | Some irq \<Rightarrow> handleInterrupt maxIRQ irq s))"

definition schedule_activate :: "kernel_state \<Rightarrow> kernel_state option" where
  "schedule_activate s = do { s \<leftarrow> schedule s; activateThread s }"

definition handleSyscall :: "decoder \<Rightarrow> irq_t \<Rightarrow> irq_t option \<Rightarrow> syscall \<Rightarrow> kernel_state \<Rightarrow> kernel_state option" where
  "handleSyscall decode maxIRQ active sys s = do {
     s \<leftarrow> (case sys of
         SysSend \<Rightarrow> handleInvocation decode False True s \<bind> handlePreempted maxIRQ active
       | SysNBSend \<Rightarrow> handleInvocation decode False False s \<bind> handlePreempted maxIRQ active
       | SysCall \<Rightarrow> handleInvocation decode True True s \<bind> handlePreempted maxIRQ active
       | SysRegister \<Rightarrow> handleRegister s
       | SysRecv \<Rightarrow> handleRecv True s
       | SysReply \<Rightarrow> handleReply s
       | SysReplyRecv \<Rightarrow> do { s \<leftarrow> handleReply s; handleRecv True s }
       | SysNBRecv \<Rightarrow> handleRecv False s
       | SysYield \<Rightarrow> handleYield s);
     schedule_activate s
   }"

definition handleInterruptEntry :: "irq_t \<Rightarrow> irq_t option \<Rightarrow> kernel_state \<Rightarrow> kernel_state option" where
  "handleInterruptEntry maxIRQ active s = do {
     s \<leftarrow> (case active of None \<Rightarrow> Some s | Some irq \<Rightarrow> handleInterrupt maxIRQ irq s);
     schedule_activate s
   }"

text \<open>A fault of the current thread that is no failed lookup leaves the recorded lookup failure as it is.\<close>

definition handleUnknownSyscall :: "word_t \<Rightarrow> lookup_fault \<Rightarrow> kernel_state \<Rightarrow> kernel_state option" where
  "handleUnknownSyscall w luf s = do {
     s \<leftarrow> handleFault (ksCurThread s) (Fault_UnknownSyscall w) luf s;
     schedule_activate s
   }"

definition handleUserLevelFault :: "word_t \<Rightarrow> word_t \<Rightarrow> lookup_fault \<Rightarrow> kernel_state \<Rightarrow> kernel_state option" where
  "handleUserLevelFault w_a w_b luf s = do {
     s \<leftarrow> handleFault (ksCurThread s) (Fault_UserException (w_a AND MASKw 32) (w_b AND MASKw 28)) luf s;
     schedule_activate s
   }"

datatype vm_fault_type = ARMDataAbort | ARMPrefetchAbort

definition handleVMFault :: "kernel_state \<Rightarrow> word_t \<Rightarrow> word_t \<Rightarrow> ptr \<Rightarrow> vm_fault_type \<Rightarrow> seL4_Fault option" where
  "handleVMFault s far fsr thread ty = (case ty of
     ARMDataAbort \<Rightarrow> Some (Fault_VMFault far (fsr AND MASKw 32) False)
   | ARMPrefetchAbort \<Rightarrow> map_option (\<lambda>pc. Fault_VMFault pc (fsr AND MASKw 32) True) (getRestartPC s thread))"

definition handleVMFaultEvent :: "word_t \<Rightarrow> word_t \<Rightarrow> vm_fault_type \<Rightarrow> lookup_fault \<Rightarrow> kernel_state \<Rightarrow> kernel_state option" where
  "handleVMFaultEvent far fsr ty luf s = do {
     fault \<leftarrow> handleVMFault s far fsr (ksCurThread s) ty;
     s \<leftarrow> handleFault (ksCurThread s) fault luf s;
     schedule_activate s
   }"

end
