(* ===== verification/KFastpath.thy ===== *)
theory KFastpath
  imports KSyscall
begin

unbundle bit_operations_syntax

text \<open>
  The fast paths of \<^verbatim>\<open>kernel/src/fastpath/fastpath.c\<close> with the helpers of
  \<^verbatim>\<open>kernel/include/fastpath/fastpath.h\<close> and of the AArch64 \<^verbatim>\<open>fastpath.h\<close>: a call through an endpoint, a
  reply followed by a receive, and the call of a registered server that this version of the kernel adds. A
  fast path either leaves the state as it is and continues in the slow path, or changes the state and
  returns to the current thread with two of its registers, the badge and the message tag, passed in
  hardware registers rather than in its saved context. \<open>None\<close> is undefined behaviour.
\<close>

subsection \<open>Helpers\<close>

datatype fp_outcome = Slowpath syscall | Restore word_t word_t

definition n_contextRegisters :: nat where "n_contextRegisters = 37"

definition fastpath_mi_check :: "word_t \<Rightarrow> bool" where
  "fastpath_mi_check msgInfo \<longleftrightarrow> msgInfo AND 0x1ff > 4"

definition fastpath_reply_cap_check :: "cap \<Rightarrow> bool" where
  "fastpath_reply_cap_check cap = (case cap of ReplyCap _ _ _ \<Rightarrow> True | _ \<Rightarrow> False)"

definition isValidVTableRoot_fp :: "cap \<Rightarrow> bool" where
  "isValidVTableRoot_fp cap = (case cap of ArchCap (VSpaceCap _ _ mapped) \<Rightarrow> mapped | _ \<Rightarrow> False)"

text \<open>The address space identifier and the root the accessors read; from the zero words of a null capability they read zero.\<close>

definition cap_vspace_cap_get :: "cap \<Rightarrow> (word_t \<times> ptr) option" where
  "cap_vspace_cap_get cap = (case cap of
     ArchCap (VSpaceCap asid root _) \<Rightarrow> Some (asid, root)
   | NullCap \<Rightarrow> Some (0, 0)
   | _ \<Rightarrow> None)"

definition asid_map_is :: "kernel_state \<Rightarrow> word_t \<Rightarrow> ptr \<Rightarrow> bool" where
  "asid_map_is s asid cap_pd \<longleftrightarrow> findMapForASID s asid = asid_map_vspace cap_pd"

text \<open>The loop of \<^verbatim>\<open>lookup_fp\<close>: the capability found and the bits it consumed; \<open>Inl\<close> where it returns a null capability.\<close>

partial_function (option) lookup_fp_loop :: "kernel_state \<Rightarrow> cptr_t \<Rightarrow> cap \<Rightarrow> word_t \<Rightarrow> (unit + cap \<times> word_t) option" where
  "lookup_fp_loop s cptr cap bits = (case cap of
     CNodeCap radixBits guardBits capGuard node \<Rightarrow>
       let cptr2 = push_bit (unat bits) cptr in
       if guardBits \<noteq> 0 \<and> drop_bit (64 - unat guardBits) cptr2 \<noteq> capGuard then Some (Inl ())
       else if radixBits = 0 then None
       else let radix = drop_bit (64 - unat radixBits) (push_bit (unat guardBits) cptr2);
                slot = cte_at_index node radix;
                bits = bits + (guardBits + radixBits)
            in (case ctes s slot of None \<Rightarrow> None
                | Some c \<Rightarrow>
                    (case cte_cap c of
                       CNodeCap _ _ _ _ \<Rightarrow> if bits < of_nat wordBits then lookup_fp_loop s cptr (cte_cap c) bits
                                           else Some (Inr (cte_cap c, bits))
                     | _ \<Rightarrow> Some (Inr (cte_cap c, bits))))
   | _ \<Rightarrow> None)"

definition lookup_fp :: "kernel_state \<Rightarrow> cap \<Rightarrow> cptr_t \<Rightarrow> cap option" where
  "lookup_fp s cap cptr = (case cap of
     CNodeCap _ _ _ _ \<Rightarrow> do {
       r \<leftarrow> lookup_fp_loop s cptr cap 0;
       Some (case r of Inl _ \<Rightarrow> NullCap | Inr (cap, bits) \<Rightarrow> if bits > of_nat wordBits then NullCap else cap)
     }
   | _ \<Rightarrow> Some NullCap)"

text \<open>Both write the word that holds the state of the thread and the object it waits for.\<close>

definition thread_state_ptr_mset_blockingObject_tsType :: "ptr \<Rightarrow> ptr \<Rightarrow> thread_state_type \<Rightarrow> kernel_state \<Rightarrow> kernel_state option" where
  "thread_state_ptr_mset_blockingObject_tsType p ep_ref ts s = upd_tcb p (\<lambda>t. t\<lparr>tsType := ts, blockingObject := ep_ref\<rparr>) s"

definition thread_state_ptr_set_tsType_np :: "ptr \<Rightarrow> thread_state_type \<Rightarrow> kernel_state \<Rightarrow> kernel_state option" where
  "thread_state_ptr_set_tsType_np p ts s = upd_tcb p (\<lambda>t. t\<lparr>tsType := ts, blockingObject := 0\<rparr>) s"

definition cap_reply_cap_ptr_new_np :: "ptr \<Rightarrow> bool \<Rightarrow> bool \<Rightarrow> ptr \<Rightarrow> kernel_state \<Rightarrow> kernel_state option" where
  "cap_reply_cap_ptr_new_np slot canGrant master tcb s = upd_cte slot (\<lambda>c. c\<lparr>cte_cap := ReplyCap canGrant master tcb\<rparr>) s"

definition mdb_node_ptr_set_mdbPrev_np :: "ptr \<Rightarrow> ptr \<Rightarrow> kernel_state \<Rightarrow> kernel_state option" where
  "mdb_node_ptr_set_mdbPrev_np slot p s = upd_cte slot (\<lambda>c. c\<lparr>cteMDBNode := (cteMDBNode c)\<lparr>mdbPrev := p\<rparr>\<rparr>) s"

definition mdb_node_ptr_mset_mdbNext_mdbRevocable_mdbFirstBadged :: "ptr \<Rightarrow> ptr \<Rightarrow> bool \<Rightarrow> bool \<Rightarrow> kernel_state \<Rightarrow> kernel_state option" where
  "mdb_node_ptr_mset_mdbNext_mdbRevocable_mdbFirstBadged slot n r fb s =
     upd_cte slot (\<lambda>c. c\<lparr>cteMDBNode := (cteMDBNode c)\<lparr>mdbNext := n, mdbRevocable := r, mdbFirstBadged := fb\<rparr>\<rparr>) s"

definition endpoint_ptr_mset_epQueue_tail_state :: "ptr \<Rightarrow> ptr \<Rightarrow> endpoint_state \<Rightarrow> kernel_state \<Rightarrow> kernel_state option" where
  "endpoint_ptr_mset_epQueue_tail_state p tail st s = upd_ep p (\<lambda>e. e\<lparr>epQueue_tail := tail, ep_state := st\<rparr>) s"

definition endpoint_ptr_set_epQueue_head_np :: "ptr \<Rightarrow> ptr \<Rightarrow> kernel_state \<Rightarrow> kernel_state option" where
  "endpoint_ptr_set_epQueue_head_np p h s = upd_ep p (\<lambda>e. e\<lparr>epQueue_head := h\<rparr>) s"

fun fastpath_copy_mrs_loop :: "ptr \<Rightarrow> ptr \<Rightarrow> nat \<Rightarrow> nat \<Rightarrow> kernel_state \<Rightarrow> kernel_state option" where
  "fastpath_copy_mrs_loop src dest i 0 s = Some s"
| "fastpath_copy_mrs_loop src dest i (Suc n) s = do {
     let reg = msgRegisters ! 0 + i;
     kassert (reg < n_contextRegisters);
     v \<leftarrow> getRegister s src reg;
     s \<leftarrow> setRegister dest reg v s;
     fastpath_copy_mrs_loop src dest (Suc i) n s
   }"

definition fastpath_copy_mrs :: "nat \<Rightarrow> ptr \<Rightarrow> ptr \<Rightarrow> kernel_state \<Rightarrow> kernel_state option" where
  "fastpath_copy_mrs len src dest s = fastpath_copy_mrs_loop src dest 0 len s"

definition switchToThread_fp :: "ptr \<Rightarrow> ptr \<Rightarrow> word_t \<Rightarrow> kernel_state \<Rightarrow> kernel_state" where
  "switchToThread_fp thread vroot stored_hw_asid s =
     (setCurrentUserVSpaceRoot (stored_hw_asid AND 0xffff, pptr_to_paddr vroot) s)\<lparr>ksCurThread := thread\<rparr>"

text \<open>The reply capability for the current thread, in the caller slot of \<open>dest\<close>.\<close>

definition fp_insert_reply :: "ptr \<Rightarrow> ptr \<Rightarrow> kernel_state \<Rightarrow> kernel_state option" where
  "fp_insert_reply cur dest s = do {
     let replySlot = TCB_PTR_CTE_PTR cur tcbReply;
     let callerSlot = TCB_PTR_CTE_PTR dest tcbCaller;
     d \<leftarrow> tcbs s dest;
     s \<leftarrow> cap_reply_cap_ptr_new_np callerSlot (blockingIPCCanGrant d) False cur s;
     s \<leftarrow> mdb_node_ptr_set_mdbPrev_np callerSlot replySlot s;
     mdb_node_ptr_mset_mdbNext_mdbRevocable_mdbFirstBadged replySlot callerSlot True True s
   }"

subsection \<open>Calling through an endpoint\<close>

text \<open>After the point of no return.\<close>

definition fastpath_call_commit :: "ptr \<Rightarrow> ptr \<Rightarrow> ptr \<Rightarrow> word_t \<Rightarrow> word_t \<Rightarrow> kernel_state \<Rightarrow> kernel_state option" where
  "fastpath_call_commit ep_ptr dest cap_pd asid info s = do {
     let cur = ksCurThread s;
     d \<leftarrow> tcbs s dest;
     s \<leftarrow> endpoint_ptr_set_epQueue_head_np ep_ptr (tcbEPNext d) s;
     s \<leftarrow> (if tcbEPNext d \<noteq> 0 then upd_tcb (tcbEPNext d) (\<lambda>t. t\<lparr>tcbEPPrev := 0\<rparr>) s
           else endpoint_ptr_mset_epQueue_tail_state ep_ptr 0 EPState_Idle s);
     s \<leftarrow> thread_state_ptr_set_tsType_np cur ThreadState_BlockedOnReply s;
     s \<leftarrow> fp_insert_reply cur dest s;
     s \<leftarrow> fastpath_copy_mrs (unat (mi_get_length info)) cur dest s;
     s \<leftarrow> thread_state_ptr_set_tsType_np dest ThreadState_Running s;
     Some (switchToThread_fp dest cap_pd asid s)
   }"

definition fastpath_call :: "cptr_t \<Rightarrow> word_t \<Rightarrow> kernel_state \<Rightarrow> (fp_outcome \<times> kernel_state) option" where
  "fastpath_call cptr msgInfo s = do {
     let slow = Some (Slowpath SysCall, s);
     let cur = ksCurThread s;
     t \<leftarrow> tcbs s cur;
     if fastpath_mi_check msgInfo \<or> tcbFault t \<noteq> Fault_NullFault then slow
     else do {
       c \<leftarrow> ctes s (TCB_PTR_CTE_PTR cur tcbCTable);
       ep_cap \<leftarrow> lookup_fp s (cte_cap c) cptr;
       (case ep_cap of
          EndpointCap badge canGrantReply canGrant canSend _ ep_ptr \<Rightarrow>
            if \<not> canSend then slow
            else do {
              ep \<leftarrow> eps s ep_ptr;
              let dest = epQueue_head ep;
              if ep_state ep \<noteq> EPState_Recv then slow
              else do {
                d \<leftarrow> tcbs s dest;
                v \<leftarrow> ctes s (TCB_PTR_CTE_PTR dest tcbVTable);
                let newVTable = cte_cap v;
                if \<not> isValidVTableRoot_fp newVTable then slow
                else do {
                  (asid, cap_pd) \<leftarrow> cap_vspace_cap_get newVTable;
                  if \<not> asid_map_is s asid cap_pd then slow
                  else do {
                    let dm = (if numDomains s > 1 then ksCurDomain s else 0);
                    top \<leftarrow> (if tcbPriority d < tcbPriority t then isHighestPrio s dm (tcbPriority d) else Some True);
                    if \<not> top then slow
                    else if \<not> canGrant \<and> \<not> canGrantReply then slow
                    else if tcbDomain d \<noteq> ksCurDomain s \<and> numDomains s > 1 then slow
                    else do {
                      s \<leftarrow> fastpath_call_commit ep_ptr dest cap_pd asid msgInfo s;
                      Some (Restore badge (wordFromMessageInfo (mi_set_capsUnwrapped msgInfo 0)), s)
                    }
                  }
                }
              }
            }
        | _ \<Rightarrow> slow)
     }
   }"

subsection \<open>Replying and receiving\<close>

definition fastpath_reply_recv_commit :: "cap \<Rightarrow> ptr \<Rightarrow> ptr \<Rightarrow> ptr \<Rightarrow> word_t \<Rightarrow> word_t \<Rightarrow> kernel_state \<Rightarrow> kernel_state option" where
  "fastpath_reply_recv_commit ep_cap ep_ptr caller cap_pd asid info s = do {
     let cur = ksCurThread s;
     let callerSlot = TCB_PTR_CTE_PTR cur tcbCaller;
     s \<leftarrow> thread_state_ptr_mset_blockingObject_tsType cur ep_ptr ThreadState_BlockedOnReceive s;
     s \<leftarrow> upd_tcb cur (\<lambda>t. t\<lparr>blockingIPCCanGrant := capCanGrant ep_cap\<rparr>) s;
     ep \<leftarrow> eps s ep_ptr;
     let endpointTail = epQueue_tail ep;
     s \<leftarrow> (if endpointTail = 0 then do {
             s \<leftarrow> upd_tcb cur (\<lambda>t. t\<lparr>tcbEPPrev := 0, tcbEPNext := 0\<rparr>) s;
             s \<leftarrow> endpoint_ptr_set_epQueue_head_np ep_ptr cur s;
             endpoint_ptr_mset_epQueue_tail_state ep_ptr cur EPState_Recv s
           }
           else do {
             s \<leftarrow> upd_tcb endpointTail (\<lambda>t. t\<lparr>tcbEPNext := cur\<rparr>) s;
             s \<leftarrow> upd_tcb cur (\<lambda>t. t\<lparr>tcbEPPrev := endpointTail, tcbEPNext := 0\<rparr>) s;
             endpoint_ptr_mset_epQueue_tail_state ep_ptr cur EPState_Recv s
           });
     c \<leftarrow> ctes s callerSlot;
     s \<leftarrow> mdb_node_ptr_mset_mdbNext_mdbRevocable_mdbFirstBadged (mdbPrev (cteMDBNode c)) 0 True True s;
     s \<leftarrow> upd_cte callerSlot (\<lambda>c. c\<lparr>cte_cap := NullCap, cteMDBNode := nullMDBNode\<rparr>) s;
     s \<leftarrow> fastpath_copy_mrs (unat (mi_get_length info)) cur caller s;
     s \<leftarrow> thread_state_ptr_set_tsType_np caller ThreadState_Running s;
     Some (switchToThread_fp caller cap_pd asid s)
   }"

definition fastpath_reply_recv :: "cptr_t \<Rightarrow> word_t \<Rightarrow> kernel_state \<Rightarrow> (fp_outcome \<times> kernel_state) option" where
  "fastpath_reply_recv cptr msgInfo s = do {
     let slow = Some (Slowpath SysReplyRecv, s);
     let cur = ksCurThread s;
     t \<leftarrow> tcbs s cur;
     if fastpath_mi_check msgInfo \<or> tcbFault t \<noteq> Fault_NullFault then slow
     else do {
       c \<leftarrow> ctes s (TCB_PTR_CTE_PTR cur tcbCTable);
       ep_cap \<leftarrow> lookup_fp s (cte_cap c) cptr;
       (case ep_cap of
          EndpointCap _ _ _ _ canReceive ep_ptr \<Rightarrow>
            if \<not> canReceive then slow
            else do {
              active \<leftarrow> (if tcbBoundNotification t \<noteq> 0
                 then map_option (\<lambda>n. ntfn_state n = NtfnState_Active) (ntfns s (tcbBoundNotification t)) else Some False);
              if active then slow
              else do {
                ep \<leftarrow> eps s ep_ptr;
                if ep_state ep = EPState_Send then slow
                else do {
                cc \<leftarrow> ctes s (TCB_PTR_CTE_PTR cur tcbCaller);
                (case cte_cap cc of
                   ReplyCap _ _ caller \<Rightarrow> do {
                     d \<leftarrow> tcbs s caller;
                     if tcbFault d \<noteq> Fault_NullFault then slow
                     else do {
                     v \<leftarrow> ctes s (TCB_PTR_CTE_PTR caller tcbVTable);
                     let newVTable = cte_cap v;
                     if \<not> isValidVTableRoot_fp newVTable then slow
                     else do {
                       (asid, cap_pd) \<leftarrow> cap_vspace_cap_get newVTable;
                       if \<not> asid_map_is s asid cap_pd then slow
                       else do {
                         let dm = (if numDomains s > 1 then ksCurDomain s else 0);
                         top \<leftarrow> isHighestPrio s dm (tcbPriority d);
                         if \<not> top then slow
                         else if tcbDomain d \<noteq> ksCurDomain s \<and> numDomains s > 1 then slow
                         else do {
                           s \<leftarrow> fastpath_reply_recv_commit ep_cap ep_ptr caller cap_pd asid msgInfo s;
                           Some (Restore 0 (wordFromMessageInfo (mi_set_capsUnwrapped msgInfo 0)), s)
                         }
                       }
                     }
                     }
                   }
                 | _ \<Rightarrow> slow)
                }
              }
            }
        | _ \<Rightarrow> slow)
     }
   }"

subsection \<open>Calling a registered server\<close>

definition X21 :: nat where "X21 = 21"

definition fastpath_callBoost :: "cptr_t \<Rightarrow> word_t \<Rightarrow> kernel_state \<Rightarrow> (fp_outcome \<times> kernel_state) option" where
  "fastpath_callBoost cptr msgInfo s = do {
     let cur = ksCurThread s;
     w \<leftarrow> getRegister s cur X5;
     let port = sint (ucast w :: 32 word);
     kassert (0 \<le> port \<and> nat port < length (ipcServerList s));
     let server = ipcServerList s ! nat port;
     let dest = ServerThread server;
     v \<leftarrow> ctes s (TCB_PTR_CTE_PTR dest tcbVTable);
     (asid, cap_pd) \<leftarrow> cap_vspace_cap_get (cte_cap v);
     if \<not> asid_map_is s asid cap_pd then Some (Slowpath SysCall, s)
     else do {
       s \<leftarrow> thread_state_ptr_set_tsType_np cur ThreadState_BlockedOnReply s;
       s \<leftarrow> fp_insert_reply cur dest s;
       s \<leftarrow> fastpath_copy_mrs (unat (mi_get_length msgInfo)) cur dest s;
       s \<leftarrow> setRegister dest X21 (svc_stk server) s;
       s \<leftarrow> setRegister dest NextIP (svc_func server) s;
       s \<leftarrow> thread_state_ptr_set_tsType_np dest ThreadState_Running s;
       Some (Restore 1 (wordFromMessageInfo (mi_set_capsUnwrapped msgInfo 0)), switchToThread_fp dest cap_pd asid s)
     }
   }"

end
