(* ===== verification/KIpcInv.thy ===== *)
theory KIpcInv
  imports KIpc
begin

text \<open>
  What endpoints and notifications guarantee. \<open>valid_ipc s W\<close> says that the threads queued on the
  endpoint or notification \<open>ob\<close> are exactly \<open>W ob\<close>, in this order and linked through
  \<open>tcbEPNext\<close> and \<open>tcbEPPrev\<close>, and that each of them is blocked on \<open>ob\<close> in the state of the
  object. The operations of \<open>endpoint.c\<close> and \<open>notification.c\<close> refine operations on \<open>W\<close>: blocking
  appends, sending and receiving take the front, cancelling removes from the middle or empties the queue.
\<close>

unbundle bit_operations_syntax

subsection \<open>What the scheduler sees of a state\<close>

text \<open>Two states the scheduler does not distinguish: threads may differ in all but their scheduling fields.\<close>

definition sview :: "tcb \<Rightarrow> thread_state_type \<times> bool \<times> ptr \<times> ptr \<times> dom_t \<times> prio_t" where
  "sview t = (tsType t, tcbQueued t, tcbSchedNext t, tcbSchedPrev t, tcbDomain t, tcbPriority t)"

definition same_sched :: "kernel_state \<Rightarrow> kernel_state \<Rightarrow> bool" where
  "same_sched s s' \<longleftrightarrow> (\<forall>p. map_option sview (tcbs s' p) = map_option sview (tcbs s p)) \<and>
     numDomains s' = numDomains s \<and> ksReadyQueues s' = ksReadyQueues s \<and>
     ksReadyQueuesL1Bitmap s' = ksReadyQueuesL1Bitmap s \<and> ksReadyQueuesL2Bitmap s' = ksReadyQueuesL2Bitmap s \<and>
     ksCurThread s' = ksCurThread s \<and> ksIdleThread s' = ksIdleThread s \<and> ksSchedulerAction s' = ksSchedulerAction s \<and>
     ksCurDomain s' = ksCurDomain s \<and> ksDomScheduleIdx s' = ksDomScheduleIdx s \<and> ksDomSchedule s' = ksDomSchedule s \<and>
     ctes s' = ctes s \<and> ksArch s' = ksArch s"

lemma same_sched_refl [simp]: "same_sched s s"
  by (simp add: same_sched_def)

lemma same_sched_sym: "same_sched s s' \<Longrightarrow> same_sched s' s"
  by (simp add: same_sched_def)

lemma same_sched_trans [trans]: "same_sched s s' \<Longrightarrow> same_sched s' s'' \<Longrightarrow> same_sched s s''"
  by (simp add: same_sched_def)

lemma same_sched_tcb:
  assumes "same_sched s s'" "tcbs s' p = Some t'"
  obtains t where "tcbs s p = Some t" "sview t = sview t'"
  using assms unfolding same_sched_def by (metis map_option_eq_Some)

lemma same_sched_queues: "same_sched s s' \<Longrightarrow> valid_queues s Q \<Longrightarrow> valid_queues s' Q"
proof -
  assume s: "same_sched s s'" and v: "valid_queues s Q"
  note d = valid_queuesD[OF v]
  have m: "map_option sview (tcbs s' p) = map_option sview (tcbs s p)" for p using s by (simp add: same_sched_def)
  have n: "map_option (\<lambda>n. (tcbSchedNext n, tcbSchedPrev n)) (tcbs s' p) = map_option (\<lambda>n. (tcbSchedNext n, tcbSchedPrev n)) (tcbs s p)" for p
    using m[of p] by (cases "tcbs s' p"; cases "tcbs s p") (auto simp: sview_def)
  have q: "is_queue tcbSchedNext tcbSchedPrev (tcbs s') h e xs = is_queue tcbSchedNext tcbSchedPrev (tcbs s) h e xs" for h e xs
    by (rule is_queue_cong) (rule n)
  have f: "ksReadyQueues s' = ksReadyQueues s" "numDomains s' = numDomains s" "ksReadyQueuesL1Bitmap s' = ksReadyQueuesL1Bitmap s"
    "ksReadyQueuesL2Bitmap s' = ksReadyQueuesL2Bitmap s" using s by (auto simp: same_sched_def)
  have idx: "qidx s' = qidx s" "nonempty s' Q = nonempty s Q" by (intro ext; simp add: qidx_def rqi_def nonempty_def f)+
  have vt: "valid_tcb s' p t" if "tcbs s' p = Some t" for p t
    using m[of p] d(2)[of p] that f by (cases "tcbs s p") (auto simp: valid_tcb_def sview_def)
  have mem: "(\<exists>t. tcbs s' p = Some t \<and> tcbQueued t \<and> qidx s t = i) \<longleftrightarrow> (\<exists>t. tcbs s p = Some t \<and> tcbQueued t \<and> qidx s t = i)" for p i
    using m[of p] by (cases "tcbs s' p"; cases "tcbs s p") (auto simp: sview_def qidx_def)
  show ?thesis unfolding valid_queues_def idx f q mem using d vt by blast
qed

lemma same_sched_view:
  assumes "same_sched s s'"
  shows "valid_q s' = valid_q s" "qset s' = qset s" "runnable s' p = runnable s p"
proof -
  show "valid_q s' = valid_q s" using same_sched_queues[OF assms] same_sched_queues[OF same_sched_sym[OF assms]] by (auto simp: valid_q_def)
  have m: "map_option sview (tcbs s' p) = map_option sview (tcbs s p)" for p using assms by (simp add: same_sched_def)
  have "p \<in> qset s' \<longleftrightarrow> p \<in> qset s" for p using m[of p] by (cases "tcbs s' p"; cases "tcbs s p") (auto simp: qset_def sview_def)
  then show "qset s' = qset s" by blast
  show "runnable s' p = runnable s p" using m[of p] by (cases "tcbs s' p"; cases "tcbs s p") (auto simp: runnable_tcb sview_def)
qed

lemma same_sched_field:
  assumes "same_sched s s'" "\<And>t t'. sview t = sview t' \<Longrightarrow> f t = f t'"
  shows "map_option f (tcbs s' p) = map_option f (tcbs s p)"
proof -
  have "map_option sview (tcbs s' p) = map_option sview (tcbs s p)" using assms(1) by (simp add: same_sched_def)
  then show ?thesis by (cases "tcbs s' p"; cases "tcbs s p") (auto intro: assms(2))
qed

lemma same_sched_inv:
  assumes "same_sched s s'"
  shows "base_sched A s' = base_sched A s" "valid_action s' = valid_action s" "valid_sched s' = valid_sched s"
proof -
  note v = same_sched_view[OF assms]
  have f: "ksCurThread s' = ksCurThread s" "ksIdleThread s' = ksIdleThread s" "ksSchedulerAction s' = ksSchedulerAction s" "ctes s' = ctes s"
    "ksCurDomain s' = ksCurDomain s" "numDomains s' = numDomains s" "ksDomScheduleIdx s' = ksDomScheduleIdx s" "ksDomSchedule s' = ksDomSchedule s"
    using assms by (auto simp: same_sched_def)
  have n: "tcbs s' p = None \<longleftrightarrow> tcbs s p = None" for p using same_sched_field[OF assms, of "\<lambda>_. ()" p] by auto
  have ty: "map_option tsType (tcbs s' p) = map_option tsType (tcbs s p)" "map_option tcbDomain (tcbs s' p) = map_option tcbDomain (tcbs s p)" for p
    by (rule same_sched_field[OF assms]; simp add: sview_def)+
  have "thread_slots s' = thread_slots s" by (simp add: thread_slots_def n f)
  moreover have "vm_current s' = vm_current s" by (rule vm_current_cong) (use assms in \<open>auto simp: same_sched_def\<close>)
  ultimately show "base_sched A s' = base_sched A s" "valid_action s' = valid_action s"
    by (simp_all add: base_sched_def valid_action_def valid_dom_def v f n ty)
  then show "valid_sched s' = valid_sched s" using \<open>base_sched A s' = base_sched A s\<close>
    unfolding valid_sched_def base_sched_def valid_dom_def v f ty n \<open>thread_slots s' = thread_slots s\<close> by simp
qed

lemma same_sched_upd:
  assumes "tcbs s p = Some t" "sview t' = sview t"
  shows "same_sched s (s\<lparr>tcbs := (tcbs s)(p := Some t')\<rparr>)"
  using assms by (simp add: same_sched_def)

lemma same_sched_objects [simp]:
  "same_sched s (s\<lparr>eps := x\<rparr>)" "same_sched s (s\<lparr>ntfns := y\<rparr>)" "same_sched s (s\<lparr>userMem := z\<rparr>)"
  by (simp_all add: same_sched_def)

subsection \<open>Endpoint queues\<close>

interpretation epl: links tcbEPNext tcbEPPrev "\<lambda>p t. t\<lparr>tcbEPNext := p\<rparr>" "\<lambda>p t. t\<lparr>tcbEPPrev := p\<rparr>"
  by unfold_locales simp_all

definition ep_queue :: "kernel_state \<Rightarrow> tcb_queue \<Rightarrow> ptr list \<Rightarrow> bool" where
  "ep_queue s q xs \<longleftrightarrow> is_queue tcbEPNext tcbEPPrev (tcbs s) (head q) (end_ptr q) xs"

text \<open>What the endpoint queue operations may change: the endpoint links of threads in \<open>X\<close>.\<close>

definition ep_core :: "tcb \<Rightarrow> tcb" where
  "ep_core t = t\<lparr>tcbEPNext := 0, tcbEPPrev := 0\<rparr>"

definition ep_frame :: "ptr set \<Rightarrow> kernel_state \<Rightarrow> kernel_state \<Rightarrow> bool" where
  "ep_frame X s s' \<longleftrightarrow> s' = s\<lparr>tcbs := tcbs s'\<rparr> \<and> (\<forall>p. map_option ep_core (tcbs s' p) = map_option ep_core (tcbs s p)) \<and>
     (\<forall>p. p \<notin> X \<longrightarrow> tcbs s' p = tcbs s p)"

lemma ep_frameI:
  "(\<And>p. map_option ep_core (m p) = map_option ep_core (tcbs s p)) \<Longrightarrow> (\<And>p. p \<notin> X \<Longrightarrow> m p = tcbs s p) \<Longrightarrow>
   ep_frame X s (s\<lparr>tcbs := m\<rparr>)"
  unfolding ep_frame_def by simp

lemma ep_core_upd [simp]:
  "ep_core (t\<lparr>tcbEPNext := x\<rparr>) = ep_core t" "ep_core (t\<lparr>tcbEPPrev := x\<rparr>) = ep_core t"
  by (simp_all add: ep_core_def)

lemma ep_core_sview: "ep_core t = ep_core t' \<Longrightarrow> sview t = sview t'"
proof -
  assume a: "ep_core t = ep_core t'"
  have "sview (ep_core t) = sview (ep_core t')" using a by simp
  then show ?thesis by (simp add: sview_def ep_core_def)
qed

lemma ep_frame_sched: "ep_frame X s s' \<Longrightarrow> same_sched s s'"
proof -
  assume a: "ep_frame X s s'"
  have "map_option sview (tcbs s' p) = map_option sview (tcbs s p)" for p
  proof -
    have "map_option ep_core (tcbs s' p) = map_option ep_core (tcbs s p)" using a by (simp add: ep_frame_def)
    then show ?thesis by (cases "tcbs s' p"; cases "tcbs s p") (auto intro: ep_core_sview)
  qed
  moreover obtain m where "s' = s\<lparr>tcbs := m\<rparr>" using a unfolding ep_frame_def by blast
  ultimately show ?thesis by (simp add: same_sched_def)
qed

lemma ep_queue_cong:
  "(\<And>p. p \<in> set xs \<Longrightarrow> map_option (\<lambda>n. (tcbEPNext n, tcbEPPrev n)) (tcbs s' p) = map_option (\<lambda>n. (tcbEPNext n, tcbEPPrev n)) (tcbs s p)) \<Longrightarrow>
   ep_queue s' q xs = ep_queue s q xs"
  unfolding ep_queue_def by (rule is_queue_cong) blast

lemma tcbEPAppend_wp:
  assumes q: "ep_queue s q xs" and x: "x \<notin> set xs" "x \<noteq> 0" and t: "tcbs s x = Some t"
  shows "succeeds (tcbEPAppend x q s) (\<lambda>(q', s'). ep_queue s' q' (xs @ [x]) \<and> ep_frame (insert x (set xs)) s s')"
proof (cases "xs = []")
  case True
  then have q': "head q = 0" "end_ptr q = 0" using q by (auto simp: ep_queue_def is_queue_def)
  have "tcbEPAppend x q s = Some (q\<lparr>head := x, end_ptr := x\<rparr>, s\<lparr>tcbs := (tcbs s)(x := Some (t\<lparr>tcbEPPrev := 0, tcbEPNext := 0\<rparr>))\<rparr>)"
    using q' t by (simp add: tcbEPAppend_def)
  moreover have "ep_frame (insert x (set xs)) s (s\<lparr>tcbs := (tcbs s)(x := Some (t\<lparr>tcbEPPrev := 0, tcbEPNext := 0\<rparr>))\<rparr>)"
    using t by (intro ep_frameI) auto
  moreover have "ep_queue (s\<lparr>tcbs := (tcbs s)(x := Some (t\<lparr>tcbEPPrev := 0, tcbEPNext := 0\<rparr>))\<rparr>) (q\<lparr>head := x, end_ptr := x\<rparr>) (xs @ [x])"
    using x True by (simp add: ep_queue_def is_queue_def)
  ultimately show ?thesis by simp
next
  case False
  then have h: "head q \<noteq> 0" using is_queue_empty[of tcbEPNext tcbEPPrev "tcbs s"] q by (auto simp: ep_queue_def)
  have e: "end_ptr q = last xs" using q False by (simp add: ep_queue_def is_queue_def)
  then obtain k where k: "tcbs s (end_ptr q) = Some k" using q False is_queue_mem[of tcbEPNext tcbEPPrev "tcbs s" _ _ xs "last xs"]
    by (auto simp: ep_queue_def)
  have ne: "end_ptr q \<noteq> x" using e x(1) False by auto
  let ?m = "(tcbs s)(x := Some (t\<lparr>tcbEPNext := 0\<rparr>))"
  let ?n = "(tcbs s)(end_ptr q := Some (k\<lparr>tcbEPNext := x\<rparr>), x := Some (t\<lparr>tcbEPPrev := end_ptr q, tcbEPNext := 0\<rparr>))"
  have "is_queue tcbEPNext tcbEPPrev ?m (head q) (end_ptr q) xs" using q x(1) by (simp add: ep_queue_def is_queue_frame)
  from epl.queue_append[OF this False x(1,2), of "t\<lparr>tcbEPNext := 0\<rparr>" k]
  have "is_queue tcbEPNext tcbEPPrev (?m(x := Some (t\<lparr>tcbEPNext := 0, tcbEPPrev := end_ptr q\<rparr>), end_ptr q := Some (k\<lparr>tcbEPNext := x\<rparr>))) (head q) x (xs @ [x])"
    using k ne by simp
  moreover have "?m(x := Some (t\<lparr>tcbEPNext := 0, tcbEPPrev := end_ptr q\<rparr>), end_ptr q := Some (k\<lparr>tcbEPNext := x\<rparr>)) =
      (tcbs s)(end_ptr q := Some (k\<lparr>tcbEPNext := x\<rparr>), x := Some (t\<lparr>tcbEPPrev := end_ptr q, tcbEPNext := 0\<rparr>))"
    using ne by (auto simp: fun_eq_iff)
  moreover have "ep_frame (insert x (set xs)) s (s\<lparr>tcbs := ?n\<rparr>)" using t k e False by (intro ep_frameI) auto
  moreover have "tcbEPAppend x q s = Some (q\<lparr>end_ptr := x\<rparr>, s\<lparr>tcbs := ?n\<rparr>)" using h k t ne by (simp add: tcbEPAppend_def)
  ultimately show ?thesis by (simp add: ep_queue_def)
qed

lemma ep_neighbours:
  assumes q: "ep_queue s q (ys @ x # zs)" and t: "tcbs s x = Some t"
  shows "tcbEPPrev t = last (0 # ys)" "tcbEPNext t = hd (zs @ [0])" "x \<notin> set ys" "x \<notin> set zs" "x \<noteq> 0" "0 \<notin> set ys" "0 \<notin> set zs"
    "head q = hd (ys @ [x])" "end_ptr q = last (x # zs)"
  using q epl.neighbours[of "tcbs s" ys x zs t] t by (auto simp: ep_queue_def is_queue_def hd_append)

lemma ep_queue_tcb: "ep_queue s q xs \<Longrightarrow> p \<in> set xs \<Longrightarrow> \<exists>t. tcbs s p = Some t"
  unfolding ep_queue_def by (rule is_queue_mem)

lemma tcbEPDequeue_wp:
  assumes q: "ep_queue s q (ys @ x # zs)"
  shows "succeeds (tcbEPDequeue x q s) (\<lambda>(q', s'). ep_queue s' q' (ys @ zs) \<and> ep_frame (set ys \<union> set zs) s s' \<and> tcbs s' x = tcbs s x)"
proof -
  obtain t where t: "tcbs s x = Some t" using ep_queue_tcb[OF q] by auto
  note n = ep_neighbours[OF q t]
  consider (one) "ys = []" "zs = []" | (first) z zs' where "ys = []" "zs = z # zs'" | (last) ys' y where "ys = ys' @ [y]" "zs = []"
    | (mid) ys' y z zs' where "ys = ys' @ [y]" "zs = z # zs'" by (cases ys rule: rev_cases; cases zs) auto
  then show ?thesis
  proof cases
    case one
    then have "tcbEPDequeue x q s = Some (q\<lparr>head := 0, end_ptr := 0\<rparr>, s)" using n t by (simp add: tcbEPDequeue_def)
    moreover have "ep_frame {} s s" using ep_frameI[of "tcbs s" s] by simp
    ultimately show ?thesis using one by (simp add: ep_queue_def)
  next
    case first
    obtain k where k: "tcbs s z = Some k" using ep_queue_tcb[OF q] first by auto
    have z: "z \<noteq> 0" "z \<noteq> x" using n first by auto
    let ?m = "(tcbs s)(z := Some (k\<lparr>tcbEPPrev := 0\<rparr>))"
    have "tcbEPDequeue x q s = Some (q\<lparr>head := z\<rparr>, s\<lparr>tcbs := ?m\<rparr>)" using n t k z first by (simp add: tcbEPDequeue_def)
    moreover have "ep_frame (set ys \<union> set zs) s (s\<lparr>tcbs := ?m\<rparr>)" using k first by (intro ep_frameI) auto
    moreover have "is_queue tcbEPNext tcbEPPrev ?m z (end_ptr q) (z # zs')"
      using epl.queue_remove_head[of "tcbs s" "head q" "end_ptr q" x z zs' k] q first k by (simp add: ep_queue_def)
    ultimately show ?thesis using first z by (simp add: ep_queue_def)
  next
    case last
    obtain k where k: "tcbs s y = Some k" using ep_queue_tcb[OF q] last by auto
    have y: "y \<noteq> 0" "y \<noteq> x" using n last by auto
    let ?m = "(tcbs s)(y := Some (k\<lparr>tcbEPNext := 0\<rparr>))"
    have "tcbEPDequeue x q s = Some (q\<lparr>end_ptr := y\<rparr>, s\<lparr>tcbs := ?m\<rparr>)" using n t k y last by (simp add: tcbEPDequeue_def)
    moreover have "ep_frame (set ys \<union> set zs) s (s\<lparr>tcbs := ?m\<rparr>)" using k last by (intro ep_frameI) auto
    moreover have "is_queue tcbEPNext tcbEPPrev ?m (head q) y (ys' @ [y])"
      using epl.queue_remove_last[of "tcbs s" "head q" "end_ptr q" ys' y x k] q last k by (simp add: ep_queue_def)
    ultimately show ?thesis using last y by (simp add: ep_queue_def)
  next
    case mid
    obtain k l where k: "tcbs s y = Some k" "tcbs s z = Some l" using ep_queue_tcb[OF q] mid by fastforce
    have y: "y \<noteq> 0" "y \<noteq> x" "z \<noteq> 0" "z \<noteq> x" "y \<noteq> z" using n mid q by (auto simp: ep_queue_def is_queue_def)
    let ?m = "(tcbs s)(y := Some (k\<lparr>tcbEPNext := z\<rparr>), z := Some (l\<lparr>tcbEPPrev := y\<rparr>))"
    have "tcbEPDequeue x q s = Some (q, s\<lparr>tcbs := ?m\<rparr>)" using n t k y mid by (simp add: tcbEPDequeue_def)
    moreover have "ep_frame (set ys \<union> set zs) s (s\<lparr>tcbs := ?m\<rparr>)" using k mid by (intro ep_frameI) auto
    moreover have "is_queue tcbEPNext tcbEPPrev ?m (head q) (end_ptr q) (ys' @ [y] @ z # zs')"
      using epl.queue_remove_middle[of "tcbs s" "head q" "end_ptr q" ys' y x z zs' k l] q mid k by (simp add: ep_queue_def)
    ultimately show ?thesis using mid y by (simp add: ep_queue_def)
  qed
qed

subsection \<open>The invariant of blocked threads\<close>

text \<open>
  An object threads wait for, in what way a thread waits, and for what. The invariant \<open>valid_ipc s W\<close> gives
  every endpoint and notification its list of waiting threads: the queue of the object is this list,
  well linked; the state of the object is idle exactly if the list is empty and says in what way its
  threads wait; and a thread is in the list of an object exactly if its own state says that it waits for it.
\<close>

datatype wait_obj = EP ptr | NTFN ptr

datatype wait_kind = WSend | WRecv | WNtfn

fun wait_of :: "thread_state_type \<Rightarrow> ptr \<Rightarrow> (wait_kind \<times> wait_obj) option" where
  "wait_of ThreadState_BlockedOnSend p = Some (WSend, EP p)"
| "wait_of ThreadState_BlockedOnReceive p = Some (WRecv, EP p)"
| "wait_of ThreadState_BlockedOnNotification p = Some (WNtfn, NTFN p)"
| "wait_of _ p = None"

definition waits :: "tcb \<Rightarrow> (wait_kind \<times> wait_obj) option" where
  "waits t = wait_of (tsType t) (blockingObject t)"

definition ep_kind :: "endpoint_state \<Rightarrow> wait_kind option" where
  "ep_kind st = (case st of EPState_Idle \<Rightarrow> None | EPState_Send \<Rightarrow> Some WSend | EPState_Recv \<Rightarrow> Some WRecv)"

definition ntfn_kind :: "notification_state \<Rightarrow> wait_kind option" where
  "ntfn_kind st = (if st = NtfnState_Waiting then Some WNtfn else None)"

definition wq :: "kernel_state \<Rightarrow> wait_obj \<Rightarrow> (tcb_queue \<times> wait_kind option) option" where
  "wq s ob = (case ob of
     EP p \<Rightarrow> map_option (\<lambda>e. (ep_ptr_get_queue e, ep_kind (ep_state e))) (eps s p)
   | NTFN p \<Rightarrow> map_option (\<lambda>n. (ntfn_ptr_get_queue n, ntfn_kind (ntfn_state n))) (ntfns s p))"

definition valid_wq :: "kernel_state \<Rightarrow> wait_obj \<Rightarrow> ptr list \<Rightarrow> bool" where
  "valid_wq s ob xs \<longleftrightarrow> (case wq s ob of
     None \<Rightarrow> xs = []
   | Some (q, k) \<Rightarrow> ep_queue s q xs \<and> (k = None \<longleftrightarrow> xs = []) \<and>
       (\<forall>x\<in>set xs. \<exists>t k'. tcbs s x = Some t \<and> k = Some k' \<and> waits t = Some (k', ob)))"

definition valid_ipc :: "kernel_state \<Rightarrow> (wait_obj \<Rightarrow> ptr list) \<Rightarrow> bool" where
  "valid_ipc s W \<longleftrightarrow> (\<forall>ob. valid_wq s ob (W ob)) \<and>
     (\<forall>x t k ob. tcbs s x = Some t \<and> waits t = Some (k, ob) \<longrightarrow> x \<in> set (W ob))"

lemma valid_ipcD:
  assumes "valid_ipc s W"
  shows "valid_wq s ob (W ob)" "tcbs s x = Some t \<Longrightarrow> waits t = Some (k, ob) \<Longrightarrow> x \<in> set (W ob)"
    "wq s ob = Some (q, k') \<Longrightarrow> ep_queue s q (W ob)" "wq s ob = Some (q, k') \<Longrightarrow> k' = None \<longleftrightarrow> W ob = []"
    "x \<in> set (W ob) \<Longrightarrow> \<exists>t k. tcbs s x = Some t \<and> waits t = Some (k, ob)"
    "wq s ob = Some (q, Some k) \<Longrightarrow> x \<in> set (W ob) \<Longrightarrow> tcbs s x = Some t \<Longrightarrow> waits t = Some (k, ob)"
  using assms by (auto simp: valid_ipc_def valid_wq_def split: option.splits prod.splits) (metis list.distinct(1) list.set_cases option.inject)+

definition wview :: "tcb \<Rightarrow> (wait_kind \<times> wait_obj) option \<times> ptr \<times> ptr" where
  "wview t = (waits t, tcbEPNext t, tcbEPPrev t)"

lemma wview_Some: "map_option wview x = map_option wview y \<Longrightarrow> x = Some t \<Longrightarrow> \<exists>t'. y = Some t' \<and> wview t' = wview t"
  by (cases y) auto

lemma wview_queue:
  assumes "\<And>x. x \<in> set xs \<Longrightarrow> map_option wview (tcbs s' x) = map_option wview (tcbs s x)"
  shows "ep_queue s' q xs = ep_queue s q xs"
proof (rule ep_queue_cong)
  fix x assume "x \<in> set xs"
  from assms[OF this] show "map_option (\<lambda>n. (tcbEPNext n, tcbEPPrev n)) (tcbs s' x) = map_option (\<lambda>n. (tcbEPNext n, tcbEPPrev n)) (tcbs s x)"
    by (cases "tcbs s' x"; cases "tcbs s x") (auto simp: wview_def)
qed

lemma valid_wq_cong:
  assumes "valid_wq s ob xs" "wq s' ob = wq s ob" "\<And>x. x \<in> set xs \<Longrightarrow> map_option wview (tcbs s' x) = map_option wview (tcbs s x)"
  shows "valid_wq s' ob xs"
proof (cases "wq s ob")
  case None
  then show ?thesis using assms(1,2) by (simp add: valid_wq_def)
next
  case (Some qk)
  obtain q k where qk: "qk = (q, k)" by fastforce
  have "\<exists>t k'. tcbs s' x = Some t \<and> k = Some k' \<and> waits t = Some (k', ob)" if x: "x \<in> set xs" for x
  proof -
    obtain t k' where t: "tcbs s x = Some t" "k = Some k'" "waits t = Some (k', ob)" using assms(1) Some qk x by (auto simp: valid_wq_def)
    then show ?thesis using wview_Some[OF assms(3)[OF x, symmetric] t(1)] by (auto simp: wview_def)
  qed
  then show ?thesis using assms(1,2) Some qk wview_queue[OF assms(3)] by (auto simp: valid_wq_def)
qed

text \<open>Replacing the list of one object.\<close>

lemma ipc_step:
  assumes v: "valid_ipc s W"
    and ob: "wq s' ob = Some (q, k)" "\<And>ob'. ob' \<noteq> ob \<Longrightarrow> wq s' ob' = wq s ob'"
    and q: "ep_queue s' q xs" "k = None \<longleftrightarrow> xs = []"
    and mem: "\<And>y. y \<in> set xs \<Longrightarrow> \<exists>t k'. tcbs s' y = Some t \<and> k = Some k' \<and> waits t = Some (k', ob)"
    and gone: "\<And>y t. y \<in> set (W ob) \<Longrightarrow> y \<notin> set xs \<Longrightarrow> tcbs s' y = Some t \<Longrightarrow> waits t = None"
    and new: "\<And>y t. y \<in> set xs \<Longrightarrow> y \<notin> set (W ob) \<Longrightarrow> tcbs s y = Some t \<Longrightarrow> waits t = None"
    and oth: "\<And>y. y \<notin> set xs \<Longrightarrow> y \<notin> set (W ob) \<Longrightarrow> map_option wview (tcbs s' y) = map_option wview (tcbs s y)"
  shows "valid_ipc s' (W(ob := xs))"
  unfolding valid_ipc_def
proof (intro conjI allI impI)
  fix ob'
  show "valid_wq s' ob' ((W(ob := xs)) ob')"
  proof (cases "ob' = ob")
    case True
    then show ?thesis using ob(1) q mem by (simp add: valid_wq_def)
  next
    case False
    have "map_option wview (tcbs s' x) = map_option wview (tcbs s x)" if x: "x \<in> set (W ob')" for x
    proof -
      obtain t k where t: "tcbs s x = Some t" "waits t = Some (k, ob')" using valid_ipcD(5)[OF v x] by blast
      have "x \<notin> set (W ob)" using valid_ipcD(5)[OF v, of x ob] t False by auto
      moreover from this have "x \<notin> set xs" using new[of x t] t by auto
      ultimately show ?thesis using oth by blast
    qed
    then show ?thesis using valid_wq_cong[OF valid_ipcD(1)[OF v] ob(2)[OF False]] False by simp
  qed
next
  fix x t k' ob' assume a: "tcbs s' x = Some t \<and> waits t = Some (k', ob')"
  show "x \<in> set ((W(ob := xs)) ob')"
  proof (cases "x \<in> set xs")
    case True
    then show ?thesis using mem[OF True] a by auto
  next
    case False
    then have "x \<notin> set (W ob)" using gone[of x t] a by auto
    then obtain u where u: "tcbs s x = Some u" "wview u = wview t" using wview_Some[OF oth[OF False], of t] a by auto
    then have "x \<in> set (W ob')" using valid_ipcD(2)[OF v u(1), of k' ob'] a by (auto simp: wview_def)
    then show ?thesis using \<open>x \<notin> set (W ob)\<close> by auto
  qed
qed

lemma ipc_same:
  assumes "valid_ipc s W" "\<And>ob. wq s' ob = wq s ob" "\<And>x. map_option wview (tcbs s' x) = map_option wview (tcbs s x)"
  shows "valid_ipc s' W"
  unfolding valid_ipc_def
proof (intro conjI allI impI)
  show "valid_wq s' ob (W ob)" for ob using valid_wq_cong[OF valid_ipcD(1)[OF assms(1)] assms(2,3)] by blast
next
  fix x t k ob assume "tcbs s' x = Some t \<and> waits t = Some (k, ob)"
  then show "x \<in> set (W ob)" using wview_Some[OF assms(3), of x t] valid_ipcD(2)[OF assms(1)] by (auto simp: wview_def)
qed

lemma core_wview:
  assumes "core t = core t'"
  shows "wview t = wview t'"
  using arg_cong[OF assms, of wview] by (simp add: core_def wview_def waits_def)

lemma action_frame_wview:
  assumes "action_frame s s'"
  shows "map_option wview (tcbs s' x) = map_option wview (tcbs s x)"
proof -
  have f: "sched_frame (s\<lparr>ksSchedulerAction := ksSchedulerAction s'\<rparr>) s'" using assms unfolding action_frame_def .
  show ?thesis using sched_frame_field[OF f core_wview, where p = x] by simp
qed

lemma wq_cong: "eps s' = eps s \<Longrightarrow> ntfns s' = ntfns s \<Longrightarrow> wq s' ob = wq s ob"
  by (simp add: wq_def split: wait_obj.splits)

lemma ipc_action_frame: "valid_ipc s W \<Longrightarrow> action_frame s s' \<Longrightarrow> valid_ipc s' W"
  using ipc_same[OF _ wq_cong action_frame_wview] action_frame_fields(10,11)[of s s'] by blast

lemma ep_core_waits: "ep_core t = ep_core t' \<Longrightarrow> waits t = waits t'"
proof -
  assume "ep_core t = ep_core t'"
  then have "waits (ep_core t) = waits (ep_core t')" by simp
  then show ?thesis by (simp add: ep_core_def waits_def)
qed

lemma ep_frame_waits: "ep_frame X s s' \<Longrightarrow> map_option waits (tcbs s' x) = map_option waits (tcbs s x)"
proof -
  assume "ep_frame X s s'"
  then have "map_option ep_core (tcbs s' x) = map_option ep_core (tcbs s x)" by (simp add: ep_frame_def)
  then show ?thesis by (cases "tcbs s' x"; cases "tcbs s x") (auto intro: ep_core_waits)
qed

lemma wview_waits: "map_option wview x = map_option wview y \<Longrightarrow> map_option waits x = map_option waits y"
  by (cases x; cases y) (auto simp: wview_def)

lemma waits_SomeD: "map_option waits x = Some w \<Longrightarrow> \<exists>t. x = Some t \<and> waits t = w"
  by auto

text \<open>A thread leaves the list of its object.\<close>

lemma ipc_unblock:
  assumes v: "valid_ipc s W" and w: "W ob = ys @ x # zs" "wq s ob = Some (q, k)"
    and d: "ep_queue s1 q' (ys @ zs)" "ep_frame (set ys \<union> set zs) s s1"
    and ob: "wq s' ob = Some (q', if ys @ zs = [] then None else k)" "\<And>ob'. ob' \<noteq> ob \<Longrightarrow> wq s' ob' = wq s ob'"
    and t: "\<And>y. y \<noteq> x \<Longrightarrow> map_option wview (tcbs s' y) = map_option wview (tcbs s1 y)" "\<And>t. tcbs s' x = Some t \<Longrightarrow> waits t = None"
  shows "valid_ipc s' (W(ob := ys @ zs))"
proof (rule ipc_step[OF v ob])
  have x: "x \<notin> set ys" "x \<notin> set zs" using valid_ipcD(3)[OF v w(2)] w(1) by (auto simp: ep_queue_def is_queue_def)
  then have "map_option wview (tcbs s' y) = map_option wview (tcbs s1 y)" if "y \<in> set (ys @ zs)" for y using that by (intro t(1)) auto
  from wview_queue[of "ys @ zs", OF this] show "ep_queue s' q' (ys @ zs)" using d(1) by blast
  have k: "k \<noteq> None" using valid_ipcD(4)[OF v w(2)] w(1) by simp
  then show "((if ys @ zs = [] then None else k) = None) = (ys @ zs = [])" by auto
  fix y
  show "\<exists>t k'. tcbs s' y = Some t \<and> (if ys @ zs = [] then None else k) = Some k' \<and> waits t = Some (k', ob)" if y: "y \<in> set (ys @ zs)"
  proof -
    obtain k' where k': "k = Some k'" using k by blast
    have "y \<noteq> x" using y x by auto
    obtain u where u: "tcbs s y = Some u" using valid_ipcD(5)[OF v, of y ob] w(1) y by auto
    have "waits u = Some (k', ob)" using valid_ipcD(6)[OF v, of ob q k' y u] w k' u y by auto
    then have "map_option waits (tcbs s' y) = Some (Some (k', ob))"
      using wview_waits[OF t(1)[OF \<open>y \<noteq> x\<close>]] ep_frame_waits[OF d(2), of y] u by simp
    then show ?thesis using y k' waits_SomeD by fastforce
  qed
  show "waits t = None" if "y \<in> set (W ob)" "y \<notin> set (ys @ zs)" "tcbs s' y = Some t" for t using that w(1) t(2) by auto
  show "waits t = None" if "y \<in> set (ys @ zs)" "y \<notin> set (W ob)" for t using that w(1) by auto
  show "map_option wview (tcbs s' y) = map_option wview (tcbs s y)" if "y \<notin> set (ys @ zs)" "y \<notin> set (W ob)"
  proof -
    have "tcbs s1 y = tcbs s y" using d(2) that by (simp add: ep_frame_def)
    then show ?thesis using t(1)[of y] that w(1) by auto
  qed
qed

text \<open>A thread that waits for nothing joins the list of an object.\<close>

lemma ipc_block:
  assumes v: "valid_ipc s W" and w: "wq s ob = Some (q, k)" "k = None \<or> k = Some k1" and x: "tcbs s x = Some t0" "waits t0 = None"
    and s0: "tcbs s0 x = Some t1" "waits t1 = Some (k1, ob)" "\<And>y. y \<noteq> x \<Longrightarrow> map_option wview (tcbs s0 y) = map_option wview (tcbs s y)"
    and d: "ep_queue s1 q' (W ob @ [x])" "ep_frame (insert x (set (W ob))) s0 s1"
    and ob: "wq s' ob = Some (q', Some k1)" "\<And>ob'. ob' \<noteq> ob \<Longrightarrow> wq s' ob' = wq s ob'"
    and t: "\<And>y. map_option wview (tcbs s' y) = map_option wview (tcbs s1 y)"
  shows "valid_ipc s' (W(ob := W ob @ [x]))"
proof (rule ipc_step[OF v ob])
  show "ep_queue s' q' (W ob @ [x])" using d(1) wview_queue[of "W ob @ [x]" s' s1 q'] t by auto
  fix y
  show "\<exists>t k'. tcbs s' y = Some t \<and> Some k1 = Some k' \<and> waits t = Some (k', ob)" if y: "y \<in> set (W ob @ [x])"
  proof -
    have "map_option waits (tcbs s0 y) = Some (Some (k1, ob))"
    proof (cases "y = x")
      case False
      then have y': "y \<in> set (W ob)" using y by simp
      then have k: "k = Some k1" using w(2) valid_ipcD(4)[OF v w(1)] by auto
      obtain u where u: "tcbs s y = Some u" using valid_ipcD(5)[OF v y'] by blast
      have "waits u = Some (k1, ob)" using valid_ipcD(6)[OF v, of ob q k1 y u] w(1) k u y' by auto
      then show ?thesis using wview_waits[OF s0(3)[OF False]] u by simp
    qed (use s0 in simp)
    then show ?thesis using wview_waits[OF t, of y] ep_frame_waits[OF d(2), of y] waits_SomeD by fastforce
  qed
  show "waits t = None" if "y \<in> set (W ob @ [x])" "y \<notin> set (W ob)" "tcbs s y = Some t" for t using that x by auto
  show "map_option wview (tcbs s' y) = map_option wview (tcbs s y)" if "y \<notin> set (W ob @ [x])" "y \<notin> set (W ob)"
  proof -
    have "tcbs s1 y = tcbs s0 y" using d(2) that by (simp add: ep_frame_def)
    then show ?thesis using t[of y] s0(3)[of y] that by auto
  qed
qed auto

text \<open>A thread that waits is neither queued nor the thread the scheduler is about to run.\<close>

lemma waiting_not_sched:
  assumes s: "valid_sched s" and v: "valid_ipc s W" and x: "x \<in> set (W ob)"
  shows "\<exists>t. tcbs s x = Some t \<and> \<not> runnable_type (tsType t) \<and> tsType t \<noteq> ThreadState_IdleThreadState \<and> waits t \<noteq> None"
    "x \<notin> qset s" "x \<noteq> ksIdleThread s" "x \<noteq> ksSchedulerAction s" "x \<noteq> 0"
proof -
  obtain t k where t: "tcbs s x = Some t" "waits t = Some (k, ob)" using valid_ipcD(5)[OF v x] by blast
  then have ty: "\<not> runnable_type (tsType t)" "tsType t \<noteq> ThreadState_IdleThreadState" by (cases "tsType t"; simp add: waits_def)+
  then show "\<exists>t. tcbs s x = Some t \<and> \<not> runnable_type (tsType t) \<and> tsType t \<noteq> ThreadState_IdleThreadState \<and> waits t \<noteq> None" using t by auto
  have r: "\<not> runnable s x" using t ty by (simp add: runnable_tcb)
  then show "x \<notin> qset s" "x \<noteq> ksIdleThread s" using s t ty by (auto simp: valid_sched_def base_sched_def)
  show "x \<noteq> 0" using s tcb_valid[OF _ t(1), of "{}"] by (simp add: valid_sched_def)
  have "x \<noteq> 1" using s tcb_valid[OF _ t(1), of "{}"] by (simp add: valid_sched_def)
  then show "x \<noteq> ksSchedulerAction s" using s r \<open>x \<noteq> 0\<close>
    by (auto simp: valid_sched_def valid_action_def SchedulerAction_ResumeCurrentThread_def SchedulerAction_ChooseNewThread_def)
qed

lemma ep_frame_fields:
  assumes "ep_frame X s s'"
  shows "eps s' = eps s" "ntfns s' = ntfns s" "ksCurThread s' = ksCurThread s" "ctes s' = ctes s" "userMem s' = userMem s"
proof -
  obtain m where "s' = s\<lparr>tcbs := m\<rparr>" using assms unfolding ep_frame_def by blast
  then show "eps s' = eps s" "ntfns s' = ntfns s" "ksCurThread s' = ksCurThread s" "ctes s' = ctes s" "userMem s' = userMem s" by simp_all
qed

subsection \<open>Waking a thread\<close>

lemma action_frame_tcb:
  assumes "action_frame s s'" "tcbs s p = Some t"
  obtains t' where "tcbs s' p = Some t'" "core t' = core t"
proof -
  have f: "sched_frame (s\<lparr>ksSchedulerAction := ksSchedulerAction s'\<rparr>) s'" using assms(1) unfolding action_frame_def .
  show thesis using sched_frame_tcb[OF f, of p t] assms(2) that by auto
qed

lemma core_ctx:
  assumes "core t = core t'"
  shows "tcbContext t = tcbContext t'"
  using arg_cong[OF assms, of tcbContext] by (simp add: core_def)

lemma core_set_ctx:
  assumes "core t = core t'"
  shows "core (t\<lparr>tcbContext := c\<rparr>) = core (t'\<lparr>tcbContext := c\<rparr>)"
proof -
  have "core (u\<lparr>tcbContext := c\<rparr>) = (core u)\<lparr>tcbContext := c\<rparr>" for u by (cases u) (simp add: core_def)
  then show ?thesis using assms by simp
qed

lemma action_frame_ctx:
  assumes "action_frame s s'" "tcbs s p = Some t" "tcbs s' p = Some t'"
  shows "action_frame (s\<lparr>tcbs := (tcbs s)(p := Some (t\<lparr>tcbContext := c\<rparr>))\<rparr>) (s'\<lparr>tcbs := (tcbs s')(p := Some (t'\<lparr>tcbContext := c\<rparr>))\<rparr>)"
proof -
  have f: "sched_frame (s\<lparr>ksSchedulerAction := ksSchedulerAction s'\<rparr>) s'" using assms(1) unfolding action_frame_def .
  have "core t' = core t" using f assms(2,3) unfolding sched_frame_def by (elim conjE allE[of _ p]) simp
  then have "core (t'\<lparr>tcbContext := c\<rparr>) = core (t\<lparr>tcbContext := c\<rparr>)" by (rule core_set_ctx)
  then show ?thesis using f unfolding action_frame_def sched_frame_def by simp
qed

lemma setRegister_same: "tcbs s p = Some t \<Longrightarrow> setRegister p r v s = Some (s\<lparr>tcbs := (tcbs s)(p := Some (t\<lparr>tcbContext := (tcbContext t)(r := v)\<rparr>))\<rparr>)"
  by (simp add: setRegister_def)

lemma sview_ctx [simp]: "sview (t\<lparr>tcbContext := c\<rparr>) = sview t"
  by (simp add: sview_def)

text \<open>A blocked thread is set running, gets a value in a register and is handed to the scheduler.\<close>

definition wake :: "ptr \<Rightarrow> nat \<Rightarrow> word_t \<Rightarrow> kernel_state \<Rightarrow> kernel_state option" where
  "wake x r v s = do {
     s \<leftarrow> setThreadState x ThreadState_Running s;
     s \<leftarrow> setRegister x r v s;
     possibleSwitchTo x s
   }"

lemma wake_wp:
  assumes v: "valid_sched s" and t: "tcbs s x = Some t"
    and x: "x \<noteq> ksIdleThread s" "x \<noteq> ksSchedulerAction s" "x \<notin> qset s" "x \<noteq> ksCurThread s"
  shows "succeeds (wake x r v s) (\<lambda>s'. valid_sched s' \<and> (x \<in> qset s' \<or> ksSchedulerAction s' = x) \<and>
    action_frame (s\<lparr>tcbs := (tcbs s)(x := Some (t\<lparr>tsType := ThreadState_Running, tcbContext := (tcbContext t)(r := v)\<rparr>))\<rparr>) s')"
  unfolding wake_def succeeds_bind
proof (rule succeeds_mono[OF setThreadState_wp[of "{}" s x t _ "{}"]], goal_cases)
  case (8 s3)
  let ?s2 = "s\<lparr>tcbs := (tcbs s)(x := Some (t\<lparr>tsType := ThreadState_Running\<rparr>))\<rparr>"
  have f: "action_frame ?s2 s3" and b: "base_sched {} s3" "valid_action s3" and q: "qset s3 = qset s"
    and a: "ksSchedulerAction s3 \<in> {ksSchedulerAction s, SchedulerAction_ChooseNewThread}" using 8(2) by auto
  obtain t3 where t3: "tcbs s3 x = Some t3" "core t3 = core (t\<lparr>tsType := ThreadState_Running\<rparr>)"
    using action_frame_tcb[OF f, of x "t\<lparr>tsType := ThreadState_Running\<rparr>"] by auto
  let ?c = "(tcbContext t)(r := v)"
  let ?s4 = "s3\<lparr>tcbs := (tcbs s3)(x := Some (t3\<lparr>tcbContext := ?c\<rparr>))\<rparr>"
  have "tcbContext t3 = tcbContext t" using core_ctx[OF t3(2)] by simp
  then have r: "setRegister x r v s3 = Some ?s4" using t3(1) by (simp add: setRegister_same)
  have ss: "same_sched s3 ?s4" using t3(1) by (intro same_sched_upd) auto
  have v4: "base_sched {} ?s4" "valid_action ?s4" "qset ?s4 = qset s" using same_sched_inv[OF ss] same_sched_view[OF ss] b q by auto
  have f4: "action_frame (?s2\<lparr>tcbs := (tcbs ?s2)(x := Some ((t\<lparr>tsType := ThreadState_Running\<rparr>)\<lparr>tcbContext := ?c\<rparr>))\<rparr>) ?s4"
    using t3(1) by (intro action_frame_ctx[OF f]) auto
  have ty: "tsType t3 = ThreadState_Running" "tcbDomain t3 = tcbDomain t" using core_fields[OF t3(2)] by auto
  have "x \<noteq> 1" using tcb_valid[OF _ t, of "{}"] v by (auto simp: valid_sched_def)
  then have an: "ksSchedulerAction ?s4 \<noteq> x" using a x(2) by (auto simp: SchedulerAction_ChooseNewThread_def)
  have "succeeds (possibleSwitchTo x ?s4) (\<lambda>s'. valid_sched s' \<and> action_frame ?s4 s' \<and> (x \<in> qset s' \<or> ksSchedulerAction s' = x))"
  proof (rule possibleSwitchTo_wp[OF v4(1,2)])
    show "runnable ?s4 x" using ty by (simp add: runnable_tcb)
    show "x \<notin> qset ?s4" using v4(3) x(3) by simp
    show "x \<noteq> ksCurThread ?s4" using x(4) action_frame_fields(1)[OF f] by simp
    show "map_option tcbDomain (tcbs ?s4 x) = Some (tcbDomain t)" using ty by simp
    show "tcbDomain t = ksCurDomain ?s4 \<or> x \<noteq> ksSchedulerAction ?s4" using an by simp
  qed
  then show ?case unfolding r succeeds_Some using action_frame_trans[OF f4] by (auto elim!: succeeds_mono)
qed (use v t x in \<open>auto simp: valid_sched_def\<close>)

subsection \<open>Signals\<close>

definition ntfn_dequeued :: "tcb_queue \<Rightarrow> notification \<Rightarrow> notification" where
  "ntfn_dequeued q n = n\<lparr>ntfnQueue_head := head q, ntfnQueue_tail := end_ptr q, ntfn_state := if head q = 0 then NtfnState_Idle else ntfn_state n\<rparr>"

lemma ntfn_dequeued_eq:
  assumes "ntfns s np = Some n"
  shows "do { s \<leftarrow> ntfn_ptr_set_queue np q s; s \<leftarrow> (if head q = 0 then notification_ptr_set_state np NtfnState_Idle s else Some s); f s } =
    f (s\<lparr>ntfns := (ntfns s)(np := Some (ntfn_dequeued q n))\<rparr>)"
  using assms by (simp add: ntfn_ptr_set_queue_def notification_ptr_set_state_def ntfn_dequeued_def)

definition ep_dequeued :: "tcb_queue \<Rightarrow> endpoint \<Rightarrow> endpoint" where
  "ep_dequeued q e = e\<lparr>epQueue_head := head q, epQueue_tail := end_ptr q, ep_state := if head q = 0 then EPState_Idle else ep_state e\<rparr>"

lemma ep_dequeued_eq:
  assumes "eps s p = Some e"
  shows "do { s \<leftarrow> ep_ptr_set_queue p q s; s \<leftarrow> (if head q = 0 then endpoint_ptr_set_state p EPState_Idle s else Some s); f s } =
    f (s\<lparr>eps := (eps s)(p := Some (ep_dequeued q e))\<rparr>)"
  using assms by (simp add: ep_ptr_set_queue_def endpoint_ptr_set_state_def ep_dequeued_def)

lemma ep_queue_head0: "ep_queue s q xs \<Longrightarrow> head q = 0 \<longleftrightarrow> xs = []"
  unfolding ep_queue_def by (rule is_queue_empty)

lemma get_dequeued [simp]:
  "ntfn_ptr_get_queue (ntfn_dequeued q n) = q" "ep_ptr_get_queue (ep_dequeued q e) = q"
  by (simp_all add: ntfn_dequeued_def ntfn_ptr_get_queue_def ep_dequeued_def ep_ptr_get_queue_def)

lemma wq_ntfn: "ntfns s np = Some n \<Longrightarrow> wq s (NTFN np) = Some (ntfn_ptr_get_queue n, ntfn_kind (ntfn_state n))"
  by (simp add: wq_def)

lemma wq_ep: "eps s p = Some e \<Longrightarrow> wq s (EP p) = Some (ep_ptr_get_queue e, ep_kind (ep_state e))"
  by (simp add: wq_def)

lemma wq_upd:
  assumes "eps s1 = eps s" "ntfns s1 = ntfns s"
  shows "ob \<noteq> NTFN np \<Longrightarrow> wq (s1\<lparr>ntfns := (ntfns s1)(np := n)\<rparr>) ob = wq s ob"
    "ob \<noteq> EP p \<Longrightarrow> wq (s1\<lparr>eps := (eps s1)(p := e)\<rparr>) ob = wq s ob"
  using assms by (auto simp: wq_def split: wait_obj.splits)

lemma ntfn_kind_dequeued:
  "ep_queue s q xs \<Longrightarrow> ntfn_state n = NtfnState_Waiting \<Longrightarrow> ntfn_kind (ntfn_state (ntfn_dequeued q n)) = (if xs = [] then None else ntfn_kind (ntfn_state n))"
  using ep_queue_head0[of s q xs] by (simp add: ntfn_dequeued_def ntfn_kind_def)

lemma ep_kind_dequeued:
  "ep_queue s q xs \<Longrightarrow> ep_kind (ep_state (ep_dequeued q e)) = (if xs = [] then None else ep_kind (ep_state e))"
  using ep_queue_head0[of s q xs] by (simp add: ep_dequeued_def ep_kind_def)

lemma running_waits [simp]: "waits (t\<lparr>tsType := ThreadState_Running, tcbContext := c\<rparr>) = None"
  by (simp add: waits_def)

lemma action_frame_waits: "action_frame s s' \<Longrightarrow> map_option waits (tcbs s' x) = map_option waits (tcbs s x)"
  using wview_waits action_frame_wview by blast

lemma sendSignal_waiting:
  assumes v: "valid_sched s" "valid_ipc s W" and n: "ntfns s np = Some n" and w: "W (NTFN np) = x # xs" and c: "x \<noteq> ksCurThread s"
  shows "succeeds (sendSignal np badge s) (\<lambda>s'. valid_sched s' \<and> valid_ipc s' (W(NTFN np := xs)) \<and>
    (x \<in> qset s' \<or> ksSchedulerAction s' = x) \<and> runnable s' x \<and> map_option (\<lambda>t. tcbContext t badgeRegister) (tcbs s' x) = Some badge)"
proof -
  note wqn = wq_ntfn[OF n]
  have st: "ntfn_state n = NtfnState_Waiting" using valid_ipcD(4)[OF v(2) wqn] w by (auto simp: ntfn_kind_def split: if_splits)
  have q: "ep_queue s (ntfn_ptr_get_queue n) ([] @ x # xs)" using valid_ipcD(3)[OF v(2) wqn] w by simp
  note x = waiting_not_sched[OF v, of x "NTFN np"]
  obtain t where t: "tcbs s x = Some t" using x(1) w by auto
  have hd: "ntfnQueue_head n = x" "x \<noteq> 0" using ep_neighbours[OF q t] by (auto simp: ntfn_ptr_get_queue_def)
  obtain q' s1 where s1: "tcbEPDequeue x (ntfn_ptr_get_queue n) s = Some (q', s1)" "ep_queue s1 q' ([] @ xs)"
      "ep_frame (set [] \<union> set xs) s s1" "tcbs s1 x = tcbs s x"
    using tcbEPDequeue_wp[OF q] by (auto simp: succeeds_def)
  note f1 = ep_frame_fields[OF s1(3)]
  let ?n = "ntfn_dequeued q' n"
  let ?s2 = "s1\<lparr>ntfns := (ntfns s1)(np := Some ?n)\<rparr>"
  have n1: "ntfns s1 np = Some n" using f1 n by simp
  have eq: "sendSignal np badge s = wake x badgeRegister badge ?s2"
    using n st hd s1(1) ntfn_dequeued_eq[OF n1, of q'] by (simp add: sendSignal_def wake_def)
  have ss: "same_sched s ?s2" using same_sched_trans[OF ep_frame_sched[OF s1(3)] same_sched_objects(2)] .
  have t2: "tcbs ?s2 x = Some t" using s1(4) t by simp
  have v2: "valid_sched ?s2" using same_sched_inv(3)[OF ss] v(1) by simp
  have pre: "x \<noteq> ksIdleThread ?s2" "x \<noteq> ksSchedulerAction ?s2" "x \<notin> qset ?s2" "x \<noteq> ksCurThread ?s2"
    using x(2-4) w c ss same_sched_view(2)[OF ss] unfolding same_sched_def by auto
  let ?r = "?s2\<lparr>tcbs := (tcbs ?s2)(x := Some (t\<lparr>tsType := ThreadState_Running, tcbContext := (tcbContext t)(badgeRegister := badge)\<rparr>))\<rparr>"
  show ?thesis unfolding eq
  proof (rule succeeds_mono[OF wake_wp[OF v2 t2 pre]], elim conjE)
    fix s' assume a: "valid_sched s'" "x \<in> qset s' \<or> ksSchedulerAction s' = x" "action_frame ?r s'"
    have fr: "eps s' = eps s1" "ntfns s' = ntfns ?s2" using action_frame_fields(10,11)[OF a(3)] by simp_all
    obtain t' where t': "tcbs s' x = Some t'" "core t' = core (t\<lparr>tsType := ThreadState_Running, tcbContext := (tcbContext t)(badgeRegister := badge)\<rparr>)"
      using action_frame_tcb[OF a(3), of x] by auto
    have "valid_ipc s' (W(NTFN np := [] @ xs))"
    proof (rule ipc_unblock[OF v(2) _ wqn s1(2,3)])
      show "wq s' (NTFN np) = Some (q', if [] @ xs = [] then None else ntfn_kind (ntfn_state n))"
        using wq_ntfn[of s' np ?n] fr ntfn_kind_dequeued[OF s1(2) st] by simp
      show "wq s' ob' = wq s ob'" if "ob' \<noteq> NTFN np" for ob'
        using wq_upd(1)[OF f1(1,2) that] wq_cong[of s' ?s2] fr by simp
      show "map_option wview (tcbs s' y) = map_option wview (tcbs s1 y)" if "y \<noteq> x" for y
        using action_frame_wview[OF a(3), of y] that by simp
      show "waits t'' = None" if "tcbs s' x = Some t''" for t'' using action_frame_waits[OF a(3), of x] that by simp
    qed (use w in simp)
    moreover have "runnable s' x" using core_fields(1)[OF t'(2)] t'(1) by (simp add: runnable_tcb)
    moreover have "tcbContext t' badgeRegister = badge" using core_ctx[OF t'(2)] by simp
    ultimately show "valid_sched s' \<and> valid_ipc s' (W(NTFN np := xs)) \<and> (x \<in> qset s' \<or> ksSchedulerAction s' = x) \<and> runnable s' x \<and>
        map_option (\<lambda>t. tcbContext t badgeRegister) (tcbs s' x) = Some badge" using a t'(1) by simp
  qed
qed

subsection \<open>Blocking\<close>

text \<open>What a blocked thread remembers of its operation; neither kind of queue changes it.\<close>

definition ipc_fields :: "tcb \<Rightarrow> thread_state_type \<times> ptr \<times> word_t \<times> bool \<times> bool \<times> bool" where
  "ipc_fields t = (tsType t, blockingObject t, blockingIPCBadge t, blockingIPCCanGrant t, blockingIPCCanGrantReply t, blockingIPCIsCall t)"

lemma ipc_fields_core:
  assumes "core t = core t' \<or> ep_core t = ep_core t'"
  shows "ipc_fields t = ipc_fields t'"
proof -
  have "ipc_fields (core t) = ipc_fields t" "ipc_fields (ep_core t) = ipc_fields t" for t by (simp_all add: ipc_fields_def core_def ep_core_def)
  then show ?thesis using assms by metis
qed

lemma block_wp:
  assumes v: "valid_sched s" and t: "tcbs s x = Some t" and f: "\<And>t. g t = (f t)\<lparr>tsType := ts\<rparr>" "sview (f t) = sview t"
    and x: "x \<noteq> ksIdleThread s" "x \<noteq> ksSchedulerAction s" "x \<notin> qset s"
  shows "succeeds (do { s \<leftarrow> upd_tcb x g s; scheduleTCB x s }) (\<lambda>s'. valid_sched s' \<and> action_frame (s\<lparr>tcbs := (tcbs s)(x := Some (g t))\<rparr>) s')"
proof -
  let ?r = "s\<lparr>tcbs := (tcbs s)(x := Some (f t))\<rparr>"
  have ss: "same_sched s ?r" using t f(2) by (intro same_sched_upd) auto
  have r: "valid_sched ?r" "qset ?r = qset s" using same_sched_inv[OF ss] same_sched_view[OF ss] v by auto
  have g: "g = (\<lambda>t. (f t)\<lparr>tsType := ts\<rparr>)" using f(1) by blast
  have eq: "do { s \<leftarrow> upd_tcb x g s; scheduleTCB x s } = setThreadState x ts ?r"
    using t by (simp add: g setThreadState_def)
  show ?thesis unfolding eq
  proof (rule succeeds_mono[OF setThreadState_wp[of "{}" ?r x "f t" ts "{}"]])
    show "base_sched {} ?r" "valid_action ?r" using r by (auto simp: valid_sched_def)
  qed (use x r g in \<open>auto simp: valid_sched_def\<close>)
qed

lemma blocked_append:
  assumes v: "valid_sched s" "valid_ipc s W" and t: "tcbs s x = Some t" "waits t = None" and w: "wq s ob = Some (q, k)"
    and s0: "valid_sched s0" "action_frame (s\<lparr>tcbs := (tcbs s)(x := Some t1)\<rparr>) s0"
  shows "succeeds (tcbEPAppend x q s0) (\<lambda>(q', s1). ep_queue s1 q' (W ob @ [x]) \<and> ep_frame (insert x (set (W ob))) s0 s1)"
proof -
  have x: "x \<notin> set (W ob)" using valid_ipcD(5)[OF v(2), of x ob] t by auto
  have "map_option wview (tcbs s0 y) = map_option wview (tcbs s y)" if "y \<in> set (W ob)" for y
    using action_frame_wview[OF s0(2), of y] x that by auto
  then have q: "ep_queue s0 q (W ob)" using wview_queue valid_ipcD(3)[OF v(2) w] by blast
  obtain t' where t': "tcbs s0 x = Some t'" using action_frame_tcb[OF s0(2), of x t1] by auto
  have "x \<noteq> 0" using tcb_valid[OF _ t(1), of "{}"] v(1) by (simp add: valid_sched_def)
  then show ?thesis using tcbEPAppend_wp[OF q x _ t'] by simp
qed

text \<open>A thread sets its state, leaves the scheduler and joins the queue of an object.\<close>

lemma blocked_done:
  assumes v: "valid_ipc s W" and t: "tcbs s x = Some t" "waits t = None"
    and w: "wq s ob = Some (q, k)" "k = None \<or> k = Some k1" and t1: "waits t1 = Some (k1, ob)"
    and s0: "valid_sched s0" "action_frame (s\<lparr>tcbs := (tcbs s)(x := Some t1)\<rparr>) s0"
    and s1: "ep_queue s1 q' (W ob @ [x])" "ep_frame (insert x (set (W ob))) s0 s1"
    and s': "tcbs s' = tcbs s1" "same_sched s1 s'" "wq s' ob = Some (q', Some k1)" "\<And>ob'. ob' \<noteq> ob \<Longrightarrow> wq s' ob' = wq s ob'"
  shows "valid_sched s' \<and> valid_ipc s' (W(ob := W ob @ [x])) \<and> map_option ipc_fields (tcbs s' x) = Some (ipc_fields t1)"
proof -
  obtain t0 where t0: "tcbs s0 x = Some t0" "core t0 = core t1" using action_frame_tcb[OF s0(2), of x t1] by auto
  have "waits t0 = Some (k1, ob)" using action_frame_waits[OF s0(2), of x] t0(1) t1 by simp
  moreover have "map_option wview (tcbs s0 y) = map_option wview (tcbs s y)" if "y \<noteq> x" for y
    using action_frame_wview[OF s0(2), of y] that by simp
  ultimately have "valid_ipc s' (W(ob := W ob @ [x]))"
    using ipc_block[OF v w t t0(1) _ _ s1 s'(3,4)] s'(1) by simp
  moreover have "valid_sched s'" using same_sched_inv(3)[OF same_sched_trans[OF ep_frame_sched[OF s1(2)] s'(2)]] s0(1) by simp
  moreover have "map_option ipc_fields (tcbs s' x) = Some (ipc_fields t1)"
  proof -
    have "map_option ep_core (tcbs s1 x) = map_option ep_core (tcbs s0 x)" using s1(2) by (simp add: ep_frame_def)
    then obtain t2 where t2: "tcbs s1 x = Some t2" "ep_core t2 = ep_core t0" using t0(1) by auto
    then show ?thesis using s'(1) ipc_fields_core[of t2 t0] ipc_fields_core[of t0 t1] t0(2) by simp
  qed
  ultimately show ?thesis by blast
qed

lemma sendIPC_blocks:
  assumes v: "valid_sched s" "valid_ipc s W" and t: "tcbs s x = Some t" "waits t = None"
    and x: "x \<noteq> ksIdleThread s" "x \<noteq> ksSchedulerAction s" "x \<notin> qset s"
    and e: "eps s p = Some e" "ep_state e \<noteq> EPState_Recv"
  shows "succeeds (sendIPC True do_call badge cg cgr x p s) (\<lambda>s'. valid_sched s' \<and> valid_ipc s' (W(EP p := W (EP p) @ [x])) \<and>
    map_option ipc_fields (tcbs s' x) = Some (ThreadState_BlockedOnSend, p, badge, cg, cgr, do_call))"
proof -
  let ?g = "\<lambda>t :: tcb. t\<lparr>tsType := ThreadState_BlockedOnSend, blockingObject := p, blockingIPCBadge := badge,
    blockingIPCCanGrant := cg, blockingIPCCanGrantReply := cgr, blockingIPCIsCall := do_call\<rparr>"
  let ?f = "\<lambda>t :: tcb. t\<lparr>blockingObject := p, blockingIPCBadge := badge,
    blockingIPCCanGrant := cg, blockingIPCCanGrantReply := cgr, blockingIPCIsCall := do_call\<rparr>"
  have "?g t = (?f t)\<lparr>tsType := ThreadState_BlockedOnSend\<rparr>" for t by (cases t) simp
  moreover have "sview (?f t) = sview t" by (simp add: sview_def)
  ultimately obtain s0 where s0: "do { s \<leftarrow> upd_tcb x ?g s; scheduleTCB x s } = Some s0" "valid_sched s0"
      "action_frame (s\<lparr>tcbs := (tcbs s)(x := Some (?g t))\<rparr>) s0"
    using block_wp[OF v(1) t(1) _ _ x, where g = ?g and f = ?f and ts = ThreadState_BlockedOnSend] unfolding succeeds_def by blast
  note w = wq_ep[OF e(1)]
  obtain q' s1 where s1: "tcbEPAppend x (ep_ptr_get_queue e) s0 = Some (q', s1)" "ep_queue s1 q' (W (EP p) @ [x])" "ep_frame (insert x (set (W (EP p)))) s0 s1"
    using blocked_append[OF v t w s0(2,3)] by (auto simp: succeeds_def)
  have e0: "eps s0 = eps s" "ntfns s0 = ntfns s" using action_frame_fields(10,11)[OF s0(3)] by simp_all
  have e1: "eps s1 = eps s" "ntfns s1 = ntfns s" using ep_frame_fields(1,2)[OF s1(3)] e0 by simp_all
  let ?e = "e\<lparr>ep_state := EPState_Send, epQueue_head := head q', epQueue_tail := end_ptr q'\<rparr>"
  let ?s = "s1\<lparr>eps := (eps s1)(p := Some ?e)\<rparr>"
  obtain sa where sa: "upd_tcb x ?g s = Some sa" "scheduleTCB x sa = Some s0" using s0(1) t(1) by auto
  have eq: "sendIPC True do_call badge cg cgr x p s = Some ?s"
    using e sa s1(1) e0 e1 by (simp add: sendIPC_def endpoint_ptr_set_state_def ep_ptr_set_queue_def)
  have "valid_sched ?s \<and> valid_ipc ?s (W(EP p := W (EP p) @ [x])) \<and> map_option ipc_fields (tcbs ?s x) = Some (ipc_fields (?g t))"
  proof (rule blocked_done[OF v(2) t w _ _ s0(2,3) s1(2,3)])
    show "ep_kind (ep_state e) = None \<or> ep_kind (ep_state e) = Some WSend" using e(2) by (cases "ep_state e") (auto simp: ep_kind_def)
    show "waits (?g t) = Some (WSend, EP p)" by (simp add: waits_def)
    show "wq ?s (EP p) = Some (q', Some WSend)" by (simp add: wq_def ep_kind_def ep_ptr_get_queue_def)
    show "wq ?s ob' = wq s ob'" if "ob' \<noteq> EP p" for ob' using wq_upd(2)[OF e1 that] by simp
  qed simp_all
  then show ?thesis using eq by (simp add: ipc_fields_def)
qed

lemma receiveIPC_blocks:
  assumes v: "valid_sched s" "valid_ipc s W" and t: "tcbs s x = Some t" "waits t = None"
    and x: "x \<noteq> ksIdleThread s" "x \<noteq> ksSchedulerAction s" "x \<notin> qset s"
    and e: "eps s p = Some e" "ep_state e \<noteq> EPState_Send"
    and b: "tcbBoundNotification t = 0 \<or> (\<exists>n. ntfns s (tcbBoundNotification t) = Some n \<and> ntfn_state n \<noteq> NtfnState_Active)"
  shows "succeeds (receiveIPC x (EndpointCap badge cgr cg cs cr p) True s) (\<lambda>s'. valid_sched s' \<and> valid_ipc s' (W(EP p := W (EP p) @ [x])) \<and>
    map_option tsType (tcbs s' x) = Some ThreadState_BlockedOnReceive \<and> map_option blockingIPCCanGrant (tcbs s' x) = Some cg)"
proof -
  let ?g = "\<lambda>t :: tcb. t\<lparr>tsType := ThreadState_BlockedOnReceive, blockingObject := p, blockingIPCCanGrant := cg\<rparr>"
  let ?f = "\<lambda>t :: tcb. t\<lparr>blockingObject := p, blockingIPCCanGrant := cg\<rparr>"
  have "?g t = (?f t)\<lparr>tsType := ThreadState_BlockedOnReceive\<rparr>" for t by (cases t) simp
  moreover have "sview (?f t) = sview t" by (simp add: sview_def)
  ultimately obtain s0 where s0: "do { s \<leftarrow> upd_tcb x ?g s; scheduleTCB x s } = Some s0" "valid_sched s0"
      "action_frame (s\<lparr>tcbs := (tcbs s)(x := Some (?g t))\<rparr>) s0"
    using block_wp[OF v(1) t(1) _ _ x, where g = ?g and f = ?f and ts = ThreadState_BlockedOnReceive] unfolding succeeds_def by blast
  note w = wq_ep[OF e(1)]
  obtain q' s1 where s1: "tcbEPAppend x (ep_ptr_get_queue e) s0 = Some (q', s1)" "ep_queue s1 q' (W (EP p) @ [x])" "ep_frame (insert x (set (W (EP p)))) s0 s1"
    using blocked_append[OF v t w s0(2,3)] by (auto simp: succeeds_def)
  have e0: "eps s0 = eps s" "ntfns s0 = ntfns s" using action_frame_fields(10,11)[OF s0(3)] by simp_all
  have e1: "eps s1 = eps s" "ntfns s1 = ntfns s" using ep_frame_fields(1,2)[OF s1(3)] e0 by simp_all
  let ?e = "e\<lparr>ep_state := EPState_Recv, epQueue_head := head q', epQueue_tail := end_ptr q'\<rparr>"
  let ?s = "s1\<lparr>eps := (eps s1)(p := Some ?e)\<rparr>"
  obtain sa where sa: "upd_tcb x ?g s = Some sa" "scheduleTCB x sa = Some s0" using s0(1) t(1) by auto
  have na: "(if tcbBoundNotification t \<noteq> 0 then map_option (\<lambda>n. ntfn_state n = NtfnState_Active) (ntfns s (tcbBoundNotification t)) else Some False) = Some False"
    using b by auto
  have eq: "receiveIPC x (EndpointCap badge cgr cg cs cr p) True s = Some ?s"
    unfolding receiveIPC_def cap.case Let_def t(1) bind.bind_lunit na
    using e sa s1(1) e0 e1 by (simp add: endpoint_ptr_set_state_def ep_ptr_set_queue_def)
  have "valid_sched ?s \<and> valid_ipc ?s (W(EP p := W (EP p) @ [x])) \<and> map_option ipc_fields (tcbs ?s x) = Some (ipc_fields (?g t))"
  proof (rule blocked_done[OF v(2) t w _ _ s0(2,3) s1(2,3)])
    show "ep_kind (ep_state e) = None \<or> ep_kind (ep_state e) = Some WRecv" using e(2) by (cases "ep_state e") (auto simp: ep_kind_def)
    show "waits (?g t) = Some (WRecv, EP p)" by (simp add: waits_def)
    show "wq ?s (EP p) = Some (q', Some WRecv)" by (simp add: wq_def ep_kind_def ep_ptr_get_queue_def)
    show "wq ?s ob' = wq s ob'" if "ob' \<noteq> EP p" for ob' using wq_upd(2)[OF e1 that] by simp
  qed simp_all
  then show ?thesis using eq by (auto simp: ipc_fields_def)
qed

lemma receiveSignal_blocks:
  assumes v: "valid_sched s" "valid_ipc s W" and t: "tcbs s x = Some t" "waits t = None"
    and x: "x \<noteq> ksIdleThread s" "x \<noteq> ksSchedulerAction s" "x \<notin> qset s"
    and n: "ntfns s p = Some n" "ntfn_state n \<noteq> NtfnState_Active"
  shows "succeeds (receiveSignal x (NotificationCap badge cr cs p) True s) (\<lambda>s'. valid_sched s' \<and> valid_ipc s' (W(NTFN p := W (NTFN p) @ [x])))"
proof -
  let ?g = "\<lambda>t :: tcb. t\<lparr>tsType := ThreadState_BlockedOnNotification, blockingObject := p\<rparr>"
  let ?f = "\<lambda>t :: tcb. t\<lparr>blockingObject := p\<rparr>"
  have "?g t = (?f t)\<lparr>tsType := ThreadState_BlockedOnNotification\<rparr>" for t by (cases t) simp
  moreover have "sview (?f t) = sview t" by (simp add: sview_def)
  ultimately obtain s0 where s0: "do { s \<leftarrow> upd_tcb x ?g s; scheduleTCB x s } = Some s0" "valid_sched s0"
      "action_frame (s\<lparr>tcbs := (tcbs s)(x := Some (?g t))\<rparr>) s0"
    using block_wp[OF v(1) t(1) _ _ x, where g = ?g and f = ?f and ts = ThreadState_BlockedOnNotification] unfolding succeeds_def by blast
  note w = wq_ntfn[OF n(1)]
  obtain q' s1 where s1: "tcbEPAppend x (ntfn_ptr_get_queue n) s0 = Some (q', s1)" "ep_queue s1 q' (W (NTFN p) @ [x])" "ep_frame (insert x (set (W (NTFN p)))) s0 s1"
    using blocked_append[OF v t w s0(2,3)] by (auto simp: succeeds_def)
  have e0: "eps s0 = eps s" "ntfns s0 = ntfns s" using action_frame_fields(10,11)[OF s0(3)] by simp_all
  have e1: "eps s1 = eps s" "ntfns s1 = ntfns s" using ep_frame_fields(1,2)[OF s1(3)] e0 by simp_all
  let ?n = "n\<lparr>ntfn_state := NtfnState_Waiting, ntfnQueue_head := head q', ntfnQueue_tail := end_ptr q'\<rparr>"
  let ?s = "s1\<lparr>ntfns := (ntfns s1)(p := Some ?n)\<rparr>"
  obtain sa where sa: "upd_tcb x ?g s = Some sa" "scheduleTCB x sa = Some s0" using s0(1) t(1) by auto
  have eq: "receiveSignal x (NotificationCap badge cr cs p) True s = Some ?s"
    using n sa s1(1) e0 e1 by (simp add: receiveSignal_def notification_ptr_set_state_def ntfn_ptr_set_queue_def)
  have "valid_sched ?s \<and> valid_ipc ?s (W(NTFN p := W (NTFN p) @ [x])) \<and> map_option ipc_fields (tcbs ?s x) = Some (ipc_fields (?g t))"
  proof (rule blocked_done[OF v(2) t w _ _ s0(2,3) s1(2,3)])
    show "ntfn_kind (ntfn_state n) = None \<or> ntfn_kind (ntfn_state n) = Some WNtfn" by (simp add: ntfn_kind_def)
    show "waits (?g t) = Some (WNtfn, NTFN p)" by (simp add: waits_def)
    show "wq ?s (NTFN p) = Some (q', Some WNtfn)" by (simp add: wq_def ntfn_kind_def ntfn_ptr_get_queue_def)
    show "wq ?s ob' = wq s ob'" if "ob' \<noteq> NTFN p" for ob' using wq_upd(1)[OF e1 that] by simp
  qed simp_all
  then show ?thesis using eq by simp
qed

subsection \<open>Cancelling\<close>

lemma setInactive_wp:
  assumes v: "valid_sched s" and t: "tcbs s x = Some t" and x: "x \<noteq> ksIdleThread s" "x \<noteq> ksSchedulerAction s" "x \<notin> qset s"
  shows "succeeds (setThreadState x ThreadState_Inactive s) (\<lambda>s'. valid_sched s' \<and>
    action_frame (s\<lparr>tcbs := (tcbs s)(x := Some (t\<lparr>tsType := ThreadState_Inactive\<rparr>))\<rparr>) s')"
  using v by (intro succeeds_mono[OF setThreadState_wp[of "{}" s x t _ "{}"]]) (use t x in \<open>auto simp: valid_sched_def\<close>)

lemma cancelled:
  assumes v: "valid_ipc s W" and w: "W ob = ys @ x # zs" "wq s ob = Some (q, k)"
    and s1: "ep_queue s1 q' (ys @ zs)" "ep_frame (set ys \<union> set zs) s s1"
    and s2: "tcbs s2 = tcbs s1" "wq s2 ob = Some (q', if ys @ zs = [] then None else k)" "\<And>ob'. ob' \<noteq> ob \<Longrightarrow> wq s2 ob' = wq s ob'"
    and s': "action_frame (s2\<lparr>tcbs := (tcbs s2)(x := Some (t\<lparr>tsType := ThreadState_Inactive\<rparr>))\<rparr>) s'"
  shows "valid_ipc s' (W(ob := ys @ zs)) \<and> map_option tsType (tcbs s' x) = Some ThreadState_Inactive"
proof -
  have o: "wq s' ob' = wq s2 ob'" for ob' using action_frame_fields(10,11)[OF s'] by (intro wq_cong) auto
  obtain t' where t': "tcbs s' x = Some t'" "core t' = core (t\<lparr>tsType := ThreadState_Inactive\<rparr>)" using action_frame_tcb[OF s', of x] by auto
  have "valid_ipc s' (W(ob := ys @ zs))"
  proof (rule ipc_unblock[OF v w s1])
    show "map_option wview (tcbs s' y) = map_option wview (tcbs s1 y)" if "y \<noteq> x" for y
      using action_frame_wview[OF s', of y] that s2(1) by simp
    show "waits u = None" if "tcbs s' x = Some u" for u using action_frame_waits[OF s', of x] that by (simp add: waits_def)
  qed (use o s2 in auto)
  then show ?thesis using t'(1) core_fields(1)[OF t'(2)] by simp
qed

lemma cancelIPC_waiting:
  assumes v: "valid_sched s" "valid_ipc s W" and w: "W ob = ys @ x # zs"
  shows "succeeds (cancelIPC x s) (\<lambda>s'. valid_sched s' \<and> valid_ipc s' (W(ob := ys @ zs)) \<and> map_option tsType (tcbs s' x) = Some ThreadState_Inactive)"
proof -
  have xw: "x \<in> set (W ob)" using w by simp
  note x = waiting_not_sched[OF v xw]
  obtain t k where t: "tcbs s x = Some t" "waits t = Some (k, ob)" using valid_ipcD(5)[OF v(2) xw] by blast
  have vw: "valid_wq s ob (W ob)" using valid_ipcD(1)[OF v(2)] .
  obtain q k' where wqo: "wq s ob = Some (q, k')" using vw w by (auto simp: valid_wq_def split: option.splits)
  have kk: "k' \<noteq> None" using valid_ipcD(4)[OF v(2) wqo] w by simp
  have q: "ep_queue s q (ys @ x # zs)" using valid_ipcD(3)[OF v(2) wqo] w by simp
  obtain q' s1 where s1: "tcbEPDequeue x q s = Some (q', s1)" "ep_queue s1 q' (ys @ zs)" "ep_frame (set ys \<union> set zs) s s1" "tcbs s1 x = tcbs s x"
    using tcbEPDequeue_wp[OF q] by (auto simp: succeeds_def)
  note f1 = ep_frame_fields[OF s1(3)]
  have go: "succeeds (setThreadState x ThreadState_Inactive s2) (\<lambda>s'. valid_sched s' \<and> valid_ipc s' (W(ob := ys @ zs)) \<and> map_option tsType (tcbs s' x) = Some ThreadState_Inactive)"
    if s2: "same_sched s1 s2" "tcbs s2 = tcbs s1" "wq s2 ob = Some (q', if ys @ zs = [] then None else k')" "\<And>ob'. ob' \<noteq> ob \<Longrightarrow> wq s2 ob' = wq s ob'" for s2
  proof -
    have ss: "same_sched s s2" using same_sched_trans[OF ep_frame_sched[OF s1(3)] s2(1)] .
    have v2: "valid_sched s2" "qset s2 = qset s" using same_sched_inv(3)[OF ss] same_sched_view(2)[OF ss] v(1) by auto
    have t2: "tcbs s2 x = Some t" using s2(2) s1(4) t(1) by simp
    show ?thesis
    proof (rule succeeds_mono[OF setInactive_wp[OF v2(1) t2]], goal_cases)
      case (4 s')
      then show ?case using cancelled[OF v(2) w wqo s1(2,3) s2(2-4)] by blast
    qed (use x v2(2) ss in \<open>simp_all add: same_sched_def\<close>)
  qed
  show ?thesis
  proof (cases ob)
    case (EP p)
    then obtain e where e: "eps s p = Some e" "q = ep_ptr_get_queue e" "k' = ep_kind (ep_state e)" using wqo by (auto simp: wq_def)
    have ty: "tsType t = ThreadState_BlockedOnSend \<or> tsType t = ThreadState_BlockedOnReceive" "blockingObject t = p"
      using t(2) EP by (cases "tsType t"; simp add: waits_def)+
    have ns: "ep_state e \<noteq> EPState_Idle" using kk e(3) by (auto simp: ep_kind_def)
    have e1: "eps s1 p = Some e" using f1 e by simp
    let ?s2 = "s1\<lparr>eps := (eps s1)(p := Some (ep_dequeued q' e))\<rparr>"
    have "cancelIPC x s = setThreadState x ThreadState_Inactive ?s2"
      using t(1) ty ns e s1(1) ep_dequeued_eq[OF e1, of q'] by (auto simp: cancelIPC_def Let_def)
    moreover have "wq ?s2 ob = Some (q', if ys @ zs = [] then None else k')"
      using wq_ep[of ?s2 p "ep_dequeued q' e"] EP ep_kind_dequeued[OF s1(2), of e] e(3) by simp
    moreover have "wq ?s2 ob' = wq s ob'" if "ob' \<noteq> ob" for ob' using wq_upd(2)[OF f1(1,2)] that EP by simp
    ultimately show ?thesis using go[of ?s2] by simp
  next
    case (NTFN p)
    then obtain n where n: "ntfns s p = Some n" "q = ntfn_ptr_get_queue n" "k' = ntfn_kind (ntfn_state n)" using wqo by (auto simp: wq_def)
    have ty: "tsType t = ThreadState_BlockedOnNotification" "blockingObject t = p"
      using t(2) NTFN by (cases "tsType t"; simp add: waits_def)+
    have ns: "ntfn_state n = NtfnState_Waiting" using kk n(3) by (auto simp: ntfn_kind_def split: if_splits)
    have n1: "ntfns s1 p = Some n" using f1 n by simp
    let ?s2 = "s1\<lparr>ntfns := (ntfns s1)(p := Some (ntfn_dequeued q' n))\<rparr>"
    have "cancelIPC x s = setThreadState x ThreadState_Inactive ?s2"
      using t(1) ty ns n s1(1) ntfn_dequeued_eq[OF n1, of q'] by (auto simp: cancelIPC_def cancelSignal_def Let_def)
    moreover have "wq ?s2 ob = Some (q', if ys @ zs = [] then None else k')"
      using wq_ntfn[of ?s2 p "ntfn_dequeued q' n"] NTFN ntfn_kind_dequeued[OF s1(2) ns] n(3) by simp
    moreover have "wq ?s2 ob' = wq s ob'" if "ob' \<noteq> ob" for ob' using wq_upd(1)[OF f1(1,2)] that NTFN by simp
    ultimately show ?thesis using go[of ?s2] by simp
  qed
qed

subsection \<open>Restarting all threads of an object\<close>

text \<open>All but the scheduling links and marks of the threads; the threads of the list have the state Restart.\<close>

definition restarted :: "ptr set \<Rightarrow> kernel_state \<Rightarrow> kernel_state \<Rightarrow> bool" where
  "restarted X s s' \<longleftrightarrow> eps s' = eps s \<and> ntfns s' = ntfns s \<and> ctes s' = ctes s \<and> ksCurThread s' = ksCurThread s \<and>
     (\<forall>y. map_option core (tcbs s' y) = map_option (\<lambda>t. core (if y \<in> X then t\<lparr>tsType := ThreadState_Restart\<rparr> else t)) (tcbs s y))"

lemma core_set_ts:
  assumes "core t = core t'"
  shows "core (t\<lparr>tsType := ts\<rparr>) = core (t'\<lparr>tsType := ts\<rparr>)"
proof -
  have "core (u\<lparr>tsType := ts\<rparr>) = (core u)\<lparr>tsType := ts\<rparr>" for u by (cases u) (simp add: core_def)
  then show ?thesis using assms by simp
qed

lemma restarted_trans:
  assumes "restarted X s s1" "restarted Y s1 s'"
  shows "restarted (X \<union> Y) s s'"
proof -
  have "map_option core (tcbs s' y) = map_option (\<lambda>t. core (if y \<in> X \<union> Y then t\<lparr>tsType := ThreadState_Restart\<rparr> else t)) (tcbs s y)" for y
  proof -
    have a: "map_option core (tcbs s1 y) = map_option (\<lambda>t. core (if y \<in> X then t\<lparr>tsType := ThreadState_Restart\<rparr> else t)) (tcbs s y)"
      and b: "map_option core (tcbs s' y) = map_option (\<lambda>t. core (if y \<in> Y then t\<lparr>tsType := ThreadState_Restart\<rparr> else t)) (tcbs s1 y)"
      using assms by (simp_all add: restarted_def)
    show ?thesis
    proof (cases "tcbs s y")
      case (Some t)
      obtain t1 where t1: "tcbs s1 y = Some t1" "core t1 = core (if y \<in> X then t\<lparr>tsType := ThreadState_Restart\<rparr> else t)" using a Some by auto
      obtain t' where t': "tcbs s' y = Some t'" "core t' = core (if y \<in> Y then t1\<lparr>tsType := ThreadState_Restart\<rparr> else t1)" using b t1(1) by auto
      have "core (t1\<lparr>tsType := ThreadState_Restart\<rparr>) = core (t\<lparr>tsType := ThreadState_Restart\<rparr>)"
        using core_set_ts[OF t1(2), of ThreadState_Restart] by (simp split: if_splits)
      then show ?thesis using Some t1(2) t' by simp
    qed (use a b in simp)
  qed
  then show ?thesis using assms by (simp add: restarted_def)
qed

lemma restart_one:
  assumes v: "valid_sched s" and t: "tcbs s x = Some t" and x: "x \<noteq> ksIdleThread s" "x \<noteq> ksSchedulerAction s" "x \<noteq> ksCurThread s"
  shows "succeeds (do { s \<leftarrow> setThreadState x ThreadState_Restart s; tcbSchedEnqueue x s }) (\<lambda>s'. valid_sched s' \<and> restarted {x} s s' \<and>
    qset s' = insert x (qset s) \<and> ksIdleThread s' = ksIdleThread s \<and> ksSchedulerAction s' \<in> {ksSchedulerAction s, SchedulerAction_ChooseNewThread})"
  unfolding succeeds_bind
proof (rule succeeds_mono[OF setThreadState_wp[of "{}" s x t ThreadState_Restart "{}"]], goal_cases)
  case (8 s1)
  let ?r = "s\<lparr>tcbs := (tcbs s)(x := Some (t\<lparr>tsType := ThreadState_Restart\<rparr>))\<rparr>"
  have f: "action_frame ?r s1" and b: "base_sched {} s1" "valid_action s1" and q: "qset s1 = qset s"
    and a: "ksSchedulerAction s1 \<in> {ksSchedulerAction s, SchedulerAction_ChooseNewThread}" using 8(2) by auto
  have run: "runnable s1 x" using action_frame_fields(6)[OF f] by (simp add: runnable_upd)
  show ?case
  proof (rule succeeds_mono[OF enqueue_base[OF b(1) run]], elim conjE)
    fix s' assume s': "base_sched {} s'" "sched_frame s1 s'" "qset s' = insert x (qset s1)"
    have x1: "x \<noteq> 1" using tcb_valid[OF _ t, of "{}"] v by (auto simp: valid_sched_def)
    have va: "valid_action s'"
      using b(2) s'(3) x a x1 action_frame_fields(1)[OF f]
      by (intro valid_action_frame[OF b(2) s'(2)]) (auto simp: valid_action_def SchedulerAction_ChooseNewThread_def)
    have af: "action_frame ?r s'" using action_frame_trans[OF f action_frame_sched[OF s'(2)]] .
    have "map_option core (tcbs s' y) = map_option core (tcbs ?r y)" for y using af by (simp add: action_frame_def sched_frame_def)
    then have "restarted {x} s s'" using action_frame_fields(1,10-12)[OF af] t by (simp add: restarted_def)
    then show "valid_sched s' \<and> restarted {x} s s' \<and> qset s' = insert x (qset s) \<and> ksIdleThread s' = ksIdleThread s \<and>
        ksSchedulerAction s' \<in> {ksSchedulerAction s, SchedulerAction_ChooseNewThread}"
      using s' va q a action_frame_fields(2)[OF af] sched_frame_fields(4)[OF s'(2)] by (simp add: valid_sched_def)
  qed
qed (use v t x in \<open>auto simp: valid_sched_def\<close>)

lemma restart_all_wp:
  assumes "valid_sched s" "dlink tcbEPNext tcbEPPrev (tcbs s) b xs 0" "distinct xs" "0 \<notin> set xs" "1 \<notin> set xs"
    "\<And>x. x \<in> set xs \<Longrightarrow> x \<noteq> ksIdleThread s \<and> x \<noteq> ksSchedulerAction s \<and> x \<noteq> ksCurThread s"
  shows "succeeds (restart_all (hd (xs @ [0])) s) (\<lambda>s'. valid_sched s' \<and> restarted (set xs) s s' \<and> set xs \<subseteq> qset s' \<and> qset s \<subseteq> qset s')"
  using assms
proof (induction xs arbitrary: s b)
  case Nil
  then show ?case by (subst restart_all.simps) (simp add: restarted_def)
next
  case (Cons x xs)
  obtain t where t: "tcbs s x = Some t" "tcbEPNext t = hd (xs @ [0])" "dlink tcbEPNext tcbEPPrev (tcbs s) x xs 0"
    using Cons.prems(2) by (auto split: option.splits)
  obtain s1 where s1: "do { s \<leftarrow> setThreadState x ThreadState_Restart s; tcbSchedEnqueue x s } = Some s1" "valid_sched s1" "restarted {x} s s1"
      "qset s1 = insert x (qset s)" "ksIdleThread s1 = ksIdleThread s" "ksSchedulerAction s1 \<in> {ksSchedulerAction s, SchedulerAction_ChooseNewThread}"
    using restart_one[OF Cons.prems(1) t(1)] Cons.prems(6)[of x] unfolding succeeds_def by auto
  have c: "map_option core (tcbs s1 y) = map_option (\<lambda>t. core (if y \<in> {x} then t\<lparr>tsType := ThreadState_Restart\<rparr> else t)) (tcbs s y)" for y
    using s1(3) by (simp add: restarted_def)
  have link: "map_option (\<lambda>n. (tcbEPNext n, tcbEPPrev n)) (tcbs s1 y) = map_option (\<lambda>n. (tcbEPNext n, tcbEPPrev n)) (tcbs s y)" for y
    using c[of y] by (cases "tcbs s1 y"; cases "tcbs s y") (auto dest: core_fields(6,7) split: if_splits)
  obtain t1 where t1: "tcbs s1 x = Some t1" "tcbEPNext t1 = hd (xs @ [0])" using link[of x] t by auto
  obtain sa where sa: "setThreadState x ThreadState_Restart s = Some sa" "tcbSchedEnqueue x sa = Some s1"
    using s1(1) by (cases "setThreadState x ThreadState_Restart s") auto
  have "succeeds (restart_all (hd (xs @ [0])) s1) (\<lambda>s'. valid_sched s' \<and> restarted (set xs) s1 s' \<and> set xs \<subseteq> qset s' \<and> qset s1 \<subseteq> qset s')"
  proof (rule Cons.IH[OF s1(2)])
    show "dlink tcbEPNext tcbEPPrev (tcbs s1) x xs 0" using t(3) dlink_cong[of xs tcbEPNext tcbEPPrev "tcbs s1" "tcbs s"] link by simp
    show "y \<noteq> ksIdleThread s1 \<and> y \<noteq> ksSchedulerAction s1 \<and> y \<noteq> ksCurThread s1" if "y \<in> set xs" for y
      using that Cons.prems(5,6) s1(3,5,6) by (auto simp: restarted_def SchedulerAction_ChooseNewThread_def)
  qed (use Cons.prems in auto)
  moreover have "restart_all x s = restart_all (hd (xs @ [0])) s1"
    using Cons.prems(4) sa t1 by (subst restart_all.simps) simp
  ultimately show ?case using restarted_trans[OF s1(3)] s1(4) by (auto elim!: succeeds_mono)
qed

lemma restarted_wview:
  assumes "restarted X s s'"
  shows "y \<notin> X \<Longrightarrow> map_option wview (tcbs s' y) = map_option wview (tcbs s y)" "y \<in> X \<Longrightarrow> tcbs s' y = Some t \<Longrightarrow> tsType t = ThreadState_Restart"
proof -
  have c: "map_option core (tcbs s' y) = map_option (\<lambda>t. core (if y \<in> X then t\<lparr>tsType := ThreadState_Restart\<rparr> else t)) (tcbs s y)"
    using assms by (simp add: restarted_def)
  show "y \<notin> X \<Longrightarrow> map_option wview (tcbs s' y) = map_option wview (tcbs s y)" using c by (cases "tcbs s' y"; cases "tcbs s y") (auto intro: core_wview)
  show "y \<in> X \<Longrightarrow> tcbs s' y = Some t \<Longrightarrow> tsType t = ThreadState_Restart" using c by (cases "tcbs s y") (auto dest: core_fields(1))
qed

lemma restart_queue:
  assumes v: "valid_sched s" "valid_ipc s W" and w: "wq s ob = Some (q, k)" and c: "ksCurThread s \<notin> set (W ob)"
    and s1: "same_sched s s1" "tcbs s1 = tcbs s" "wq s1 ob = Some (\<lparr>head = 0, end_ptr = 0\<rparr>, None)" "\<And>ob'. ob' \<noteq> ob \<Longrightarrow> wq s1 ob' = wq s ob'"
  shows "succeeds (do { s \<leftarrow> restart_all (head q) s1; rescheduleRequired s }) (\<lambda>s'. valid_sched s' \<and> valid_ipc s' (W(ob := [])) \<and>
    (\<forall>x\<in>set (W ob). runnable s' x \<and> x \<in> qset s'))"
proof -
  let ?xs = "W ob"
  have q: "is_queue tcbEPNext tcbEPPrev (tcbs s) (head q) (end_ptr q) ?xs" using valid_ipcD(3)[OF v(2) w] by (simp add: ep_queue_def)
  then have h: "head q = hd (?xs @ [0])" "dlink tcbEPNext tcbEPPrev (tcbs s1) 0 ?xs 0" "distinct ?xs" "0 \<notin> set ?xs"
    using s1(2) by (auto simp: is_queue_def)
  have v1: "valid_sched s1" using same_sched_inv(3)[OF s1(1)] v(1) by simp
  have one: "1 \<notin> set ?xs" using v(1) valid_ipcD(5)[OF v(2), of 1 ob] by (auto simp: valid_sched_def base_sched_def)
  have x: "x \<noteq> ksIdleThread s1 \<and> x \<noteq> ksSchedulerAction s1 \<and> x \<noteq> ksCurThread s1" if "x \<in> set ?xs" for x
    using waiting_not_sched[OF v that] s1(1) c that by (auto simp: same_sched_def)
  show ?thesis unfolding succeeds_bind h(1)
  proof (rule succeeds_mono[OF restart_all_wp[OF v1 h(2-4) one x]], goal_cases)
    case (2 s2)
    then have s2: "valid_sched s2" "restarted (set ?xs) s1 s2" "set ?xs \<subseteq> qset s2" by auto
    show ?case
    proof (rule succeeds_mono[OF rescheduleRequired_sched], goal_cases)
      case (3 s')
      then have s': "valid_sched s'" "action_frame s2 s'" "qset s2 \<subseteq> qset s'" by auto
      have o: "wq s' ob' = wq s1 ob'" for ob'
        using s2(2) action_frame_fields(10,11)[OF s'(2)] by (intro wq_cong) (auto simp: restarted_def)
      have ty: "map_option wview (tcbs s' y) = map_option wview (tcbs s2 y)" for y by (rule action_frame_wview[OF s'(2)])
      have "valid_ipc s' (W(ob := []))"
      proof (rule ipc_step[OF v(2)])
        show "wq s' ob = Some (\<lparr>head = 0, end_ptr = 0\<rparr>, None)" using o s1(3) by simp
        show "wq s' ob' = wq s ob'" if "ob' \<noteq> ob" for ob' using o s1(4)[OF that] by simp
        show "ep_queue s' \<lparr>head = 0, end_ptr = 0\<rparr> []" by (simp add: ep_queue_def)
        show "waits t = None" if y: "y \<in> set (W ob)" "tcbs s' y = Some t" for y t
        proof -
          obtain u where u: "tcbs s2 y = Some u" "wview u = wview t" using wview_Some[OF ty y(2)] by auto
          have "tsType u = ThreadState_Restart" using restarted_wview(2)[OF s2(2) y(1) u(1)] .
          then show ?thesis using u(2) by (simp add: wview_def waits_def)
        qed
        show "map_option wview (tcbs s' y) = map_option wview (tcbs s y)" if "y \<notin> set (W ob)" for y
          using ty restarted_wview(1)[OF s2(2) that] s1(2) by simp
      qed simp_all
      moreover have "runnable s' x" if "x \<in> set ?xs" for x
        using s2(1,3) that action_frame_fields(6)[OF s'(2)] by (auto simp: valid_sched_def base_sched_def)
      ultimately show ?case using s' s2(3) by auto
    qed (use s2(1) in \<open>auto simp: valid_sched_def\<close>)
  qed
qed

lemma cancelAllIPC_wp:
  assumes v: "valid_sched s" "valid_ipc s W" and e: "eps s p = Some e" and c: "ksCurThread s \<notin> set (W (EP p))"
  shows "succeeds (cancelAllIPC p s) (\<lambda>s'. valid_sched s' \<and> valid_ipc s' (W(EP p := [])) \<and> (\<forall>x\<in>set (W (EP p)). runnable s' x \<and> x \<in> qset s'))"
proof (cases "ep_state e = EPState_Idle")
  case True
  then have "W (EP p) = []" using valid_ipcD(4)[OF v(2) wq_ep[OF e]] by (simp add: ep_kind_def)
  then have "W(EP p := []) = W" by (metis fun_upd_triv)
  then show ?thesis using True e v \<open>W (EP p) = []\<close> by (simp add: cancelAllIPC_def)
next
  case False
  let ?s1 = "s\<lparr>eps := (eps s)(p := Some (e\<lparr>ep_state := EPState_Idle, epQueue_head := 0, epQueue_tail := 0\<rparr>))\<rparr>"
  have "cancelAllIPC p s = do { s \<leftarrow> restart_all (head (ep_ptr_get_queue e)) ?s1; rescheduleRequired s }"
    using False e by (simp add: cancelAllIPC_def endpoint_ptr_set_state_def ep_ptr_set_queue_def ep_ptr_get_queue_def)
  moreover have "wq ?s1 (EP p) = Some (\<lparr>head = 0, end_ptr = 0\<rparr>, None)" by (simp add: wq_def ep_ptr_get_queue_def ep_kind_def)
  moreover have "wq ?s1 ob' = wq s ob'" if "ob' \<noteq> EP p" for ob' using wq_upd(2)[of s s, OF _ _ that] by simp
  ultimately show ?thesis using restart_queue[OF v wq_ep[OF e] c, of ?s1] by simp
qed

lemma cancelAllSignals_wp:
  assumes v: "valid_sched s" "valid_ipc s W" and n: "ntfns s p = Some n" and c: "ksCurThread s \<notin> set (W (NTFN p))"
  shows "succeeds (cancelAllSignals p s) (\<lambda>s'. valid_sched s' \<and> valid_ipc s' (W(NTFN p := [])) \<and> (\<forall>x\<in>set (W (NTFN p)). runnable s' x \<and> x \<in> qset s'))"
proof (cases "ntfn_state n = NtfnState_Waiting")
  case False
  then have "W (NTFN p) = []" using valid_ipcD(4)[OF v(2) wq_ntfn[OF n]] by (simp add: ntfn_kind_def)
  then have "W(NTFN p := []) = W" by (metis fun_upd_triv)
  then show ?thesis using False n v \<open>W (NTFN p) = []\<close> by (simp add: cancelAllSignals_def)
next
  case True
  let ?s1 = "s\<lparr>ntfns := (ntfns s)(p := Some (n\<lparr>ntfn_state := NtfnState_Idle, ntfnQueue_head := 0, ntfnQueue_tail := 0\<rparr>))\<rparr>"
  have "cancelAllSignals p s = do { s \<leftarrow> restart_all (head (ntfn_ptr_get_queue n)) ?s1; rescheduleRequired s }"
    using True n by (simp add: cancelAllSignals_def notification_ptr_set_state_def ntfn_ptr_set_queue_def ntfn_ptr_get_queue_def)
  moreover have "wq ?s1 (NTFN p) = Some (\<lparr>head = 0, end_ptr = 0\<rparr>, None)" by (simp add: wq_def ntfn_ptr_get_queue_def ntfn_kind_def)
  moreover have "wq ?s1 ob' = wq s ob'" if "ob' \<noteq> NTFN p" for ob' using wq_upd(1)[of s s, OF _ _ that] by simp
  ultimately show ?thesis using restart_queue[OF v wq_ntfn[OF n] c, of ?s1] by simp
qed

subsection \<open>Signals are merged\<close>

lemma sendSignal_active:
  assumes "ntfns s np = Some n" "ntfn_state n = NtfnState_Active"
  shows "sendSignal np b s = Some (s\<lparr>ntfns := (ntfns s)(np := Some (n\<lparr>ntfnMsgIdentifier := ntfnMsgIdentifier n OR b\<rparr>))\<rparr>)"
  using assms by (simp add: sendSignal_def)

lemma sendSignal_idle:
  assumes "ntfns s np = Some n" "ntfn_state n = NtfnState_Idle"
    "ntfnBoundTCB n = 0 \<or> (\<exists>t. tcbs s (ntfnBoundTCB n) = Some t \<and> tsType t \<noteq> ThreadState_BlockedOnReceive)"
  shows "sendSignal np b s = Some (s\<lparr>ntfns := (ntfns s)(np := Some (n\<lparr>ntfn_state := NtfnState_Active, ntfnMsgIdentifier := b\<rparr>))\<rparr>)"
  using assms by (auto simp: sendSignal_def ntfn_set_active_def Let_def)

definition sendSignals :: "ptr \<Rightarrow> word_t list \<Rightarrow> kernel_state \<Rightarrow> kernel_state option" where
  "sendSignals np bs s = fold (\<lambda>b so. Option.bind so (sendSignal np b)) bs (Some s)"

lemma sendSignals_active:
  "ntfns s np = Some n \<Longrightarrow> ntfn_state n = NtfnState_Active \<Longrightarrow>
   sendSignals np bs s = Some (s\<lparr>ntfns := (ntfns s)(np := Some (n\<lparr>ntfnMsgIdentifier := fold (OR) bs (ntfnMsgIdentifier n)\<rparr>))\<rparr>)"
proof (induction bs arbitrary: s n)
  case Nil
  then have "(ntfns s)(np := Some n) = ntfns s" by (simp add: fun_upd_idem)
  then show ?case by (simp add: sendSignals_def)
next
  case (Cons b bs)
  let ?n = "n\<lparr>ntfnMsgIdentifier := ntfnMsgIdentifier n OR b\<rparr>"
  let ?s = "s\<lparr>ntfns := (ntfns s)(np := Some ?n)\<rparr>"
  have "sendSignals np (b # bs) s = sendSignals np bs ?s" using sendSignal_active[OF Cons.prems] by (simp add: sendSignals_def)
  then show ?case using Cons.IH[of ?s ?n] Cons.prems by (simp add: or.commute fun_upd_same fun_upd_upd del: fun_upd_apply)
qed

lemma signals_received:
  assumes n: "ntfns s np = Some n" "ntfn_state n = NtfnState_Idle"
    "ntfnBoundTCB n = 0 \<or> (\<exists>t. tcbs s (ntfnBoundTCB n) = Some t \<and> tsType t \<noteq> ThreadState_BlockedOnReceive)"
    and t: "tcbs s x = Some t"
  shows "\<exists>s1 s2 n'. sendSignals np (b # bs) s = Some s1 \<and> receiveSignal x (NotificationCap badge cr cs np) blocking s1 = Some s2 \<and>
    tcbs s2 = (tcbs s)(x := Some (t\<lparr>tcbContext := (tcbContext t)(badgeRegister := fold (OR) bs b)\<rparr>)) \<and> ntfns s2 np = Some n' \<and> ntfn_state n' = NtfnState_Idle"
proof -
  let ?n = "n\<lparr>ntfn_state := NtfnState_Active, ntfnMsgIdentifier := b\<rparr>"
  let ?s = "s\<lparr>ntfns := (ntfns s)(np := Some ?n)\<rparr>"
  have "sendSignals np (b # bs) s = sendSignals np bs ?s" using sendSignal_idle[OF n] by (simp add: sendSignals_def)
  also have "\<dots> = Some (?s\<lparr>ntfns := (ntfns ?s)(np := Some (?n\<lparr>ntfnMsgIdentifier := fold (OR) bs b\<rparr>))\<rparr>)" using sendSignals_active[of ?s np ?n bs] by simp
  finally show ?thesis using t by (simp add: receiveSignal_def setRegister_def notification_ptr_set_state_def)
qed

subsection \<open>Message tags\<close>

lemma mi_fields:
  assumes "l < 128"
  shows "mi_get_length (mi_set_length w l) = l" "mi_get_label (mi_set_length w l) = mi_get_label w"
    "mi_get_extraCaps (mi_set_length w l) = mi_get_extraCaps w" "mi_get_capsUnwrapped (mi_set_length w l) = mi_get_capsUnwrapped w"
proof -
  have m: "(0x7f :: word_t) = mask 7" by (simp add: mask_eq_exp_minus_1)
  have l: "take_bit 7 l = l"
  proof -
    have "unat l < 128" using assms by (simp add: word_less_nat_alt)
    then have "take_bit 7 (unat l) = unat l" by (simp add: take_bit_nat_eq_self)
    then have "unat (take_bit 7 l) = unat l" by (simp only: unsigned_take_bit_eq)
    then show ?thesis by (simp add: word_unat_eq_iff)
  qed
  have lb: "bit l i \<Longrightarrow> i < 7" for i using l bit_take_bit_iff[of 7 l i] by simp
  show "mi_get_length (mi_set_length w l) = l"
    unfolding mi_get_length_def mi_set_length_def m using lb by (auto intro!: bit_word_eqI simp: bit_simps)
  have wb: "bit w i \<Longrightarrow> i < 64" for i using bit_imp_le_length[of w i] by simp
  show "mi_get_label (mi_set_length w l) = mi_get_label w"
    unfolding mi_get_label_def mi_set_length_def m by (auto intro!: bit_word_eqI simp: bit_simps dest!: wb)
  show "mi_get_extraCaps (mi_set_length w l) = mi_get_extraCaps w"
    unfolding mi_get_extraCaps_def mi_set_length_def m by (auto intro!: bit_word_eqI simp: bit_simps dest!: wb)
  show "mi_get_capsUnwrapped (mi_set_length w l) = mi_get_capsUnwrapped w"
    unfolding mi_get_capsUnwrapped_def mi_set_length_def m by (auto intro!: bit_word_eqI simp: bit_simps dest!: wb)
qed

definition mi_no_caps :: "message_info \<Rightarrow> message_info" where
  "mi_no_caps w = mi_set_capsUnwrapped (mi_set_extraCaps w 0) 0"

lemma mi_no_caps_bit: "bit (mi_no_caps w) i \<longleftrightarrow> bit w i \<and> \<not> (7 \<le> i \<and> i < 12)"
proof -
  have a: "(0xe00 :: word_t) = push_bit 9 (mask 3)" "(0x180 :: word_t) = push_bit 7 (mask 2)" by (simp_all add: mask_eq_exp_minus_1 push_bit_eq_mult)
  show ?thesis unfolding mi_no_caps_def mi_set_capsUnwrapped_def mi_set_extraCaps_def a by (auto simp: bit_simps dest: bit_imp_le_length)
qed

lemma mi_no_caps_fields:
  "mi_get_label (mi_no_caps w) = mi_get_label w" "mi_get_extraCaps (mi_no_caps w) = 0" "mi_get_capsUnwrapped (mi_no_caps w) = 0"
proof -
  have a: "(7 :: word_t) = mask 3" "(3 :: word_t) = mask 2" by (simp_all add: mask_eq_exp_minus_1)
  show "mi_get_label (mi_no_caps w) = mi_get_label w" unfolding mi_get_label_def
    by (auto intro!: bit_word_eqI simp: bit_simps mi_no_caps_bit)
  show "mi_get_extraCaps (mi_no_caps w) = 0" unfolding mi_get_extraCaps_def a
    by (auto intro!: bit_word_eqI simp: bit_simps mi_no_caps_bit)
  show "mi_get_capsUnwrapped (mi_no_caps w) = 0" unfolding mi_get_capsUnwrapped_def a
    by (auto intro!: bit_word_eqI simp: bit_simps mi_no_caps_bit)
qed

lemma mi_length_bound: "unat (mi_get_length (messageInfoFromWord w)) \<le> 120"
proof (cases "mi_get_length w > seL4_MsgMaxLength")
  case True
  have "mi_get_length (mi_set_length w 120) = 120" by (rule mi_fields(1)) simp
  then show ?thesis using True by (simp add: messageInfoFromWord_def seL4_MsgMaxLength_def)
next
  case False
  then have "messageInfoFromWord w = w" "mi_get_length w \<le> 120" by (auto simp: messageInfoFromWord_def seL4_MsgMaxLength_def)
  then show ?thesis by (simp add: word_le_nat_alt)
qed

subsection \<open>Copying a message\<close>

lemma msg_regs: "distinct msgRegisters" "length msgRegisters = n_msgRegisters" "badgeRegister \<notin> set msgRegisters" "msgInfoRegister \<notin> set msgRegisters" "badgeRegister \<noteq> msgInfoRegister"
  by (simp_all add: msgRegisters_def n_msgRegisters_def badgeRegister_def msgInfoRegister_def)

definition copied_regs :: "nat \<Rightarrow> (nat \<Rightarrow> word_t) \<Rightarrow> (nat \<Rightarrow> word_t) \<Rightarrow> nat \<Rightarrow> word_t" where
  "copied_regs k ca cb = (\<lambda>r. if r \<in> set (take k msgRegisters) then ca r else cb r)"

lemma copyMRs_regs_fold:
  assumes "k \<le> n_msgRegisters" "a \<noteq> b" "tcbs s a = Some ta" "tcbs s b = Some tb"
  shows "fold (copyMRs_regs a b) [0..<k] (Some s) = Some (s\<lparr>tcbs := (tcbs s)(b := Some (tb\<lparr>tcbContext := copied_regs k (tcbContext ta) (tcbContext tb)\<rparr>))\<rparr>)"
  using assms(1)
proof (induction k)
  case 0
  have "(tcbs s)(b := Some tb) = tcbs s" using assms(4) by (simp add: fun_upd_idem)
  then show ?case by (simp add: copied_regs_def)
next
  case (Suc k)
  let ?c = "copied_regs k (tcbContext ta) (tcbContext tb)"
  have t: "take (Suc k) msgRegisters = take k msgRegisters @ [msgRegisters ! k]" using Suc.prems msg_regs(2) by (simp add: take_Suc_conv_app_nth)
  have "copied_regs (Suc k) (tcbContext ta) (tcbContext tb) = ?c(msgRegisters ! k := tcbContext ta (msgRegisters ! k))"
    by (auto simp: copied_regs_def t)
  then show ?case using Suc assms(2,3) by (simp add: copyMRs_regs_def getRegister_def setRegister_def fun_upd_upd del: fun_upd_apply)
      (simp add: fun_upd_same fun_upd_other fun_upd_upd del: fun_upd_apply)
qed

definition buffers_apart :: "ptr \<Rightarrow> ptr \<Rightarrow> bool" where
  "buffers_apart a b \<longleftrightarrow> (\<forall>i<128. \<forall>j<128. word_at a (of_nat i) \<noteq> word_at b (of_nat j))"

lemma word_at_inj: "i < 128 \<Longrightarrow> j < 128 \<Longrightarrow> word_at b (of_nat i) = word_at b (of_nat j) \<Longrightarrow> i = j"
proof -
  assume a: "i < 128" "j < 128" "word_at b (of_nat i) = word_at b (of_nat j)"
  then have "unat (8 * of_nat i :: word_t) = unat (8 * of_nat j :: word_t)" by (simp add: word_at_def push_bit_eq_mult mult.commute)
  moreover have "unat (8 * of_nat k :: word_t) = 8 * k" if "k < 128" for k
  proof -
    have "(8 * of_nat k :: word_t) = of_nat (8 * k)" by simp
    then show ?thesis using that by (simp only: unat_of_nat) simp
  qed
  ultimately show ?thesis using a by simp
qed

lemma copy_words:
  assumes "buffers_apart sb rb" "n \<le> 120"
  shows "\<exists>m. fold (\<lambda>i s. set_word rb (of_nat i + 1) (userMem s (word_at sb (of_nat i + 1))) s) [k..<n] s = s\<lparr>userMem := m\<rparr> \<and>
    (\<forall>i. k \<le> i \<and> i < n \<longrightarrow> m (word_at rb (of_nat i + 1)) = userMem s (word_at sb (of_nat i + 1))) \<and>
    (\<forall>i<128. m (word_at sb (of_nat i)) = userMem s (word_at sb (of_nat i)))"
  using assms(2)
proof (induction n)
  case 0
  show ?case by (intro exI[of _ "userMem s"]) simp
next
  case (Suc n)
  show ?case
  proof (cases "k \<le> n")
    case False
    then have "[k..<Suc n] = []" by simp
    then show ?thesis using False by (intro exI[of _ "userMem s"]) auto
  next
    case True
    obtain m where m: "fold (\<lambda>i s. set_word rb (of_nat i + 1) (userMem s (word_at sb (of_nat i + 1))) s) [k..<n] s = s\<lparr>userMem := m\<rparr>"
      "\<forall>i. k \<le> i \<and> i < n \<longrightarrow> m (word_at rb (of_nat i + 1)) = userMem s (word_at sb (of_nat i + 1))"
      "\<forall>i<128. m (word_at sb (of_nat i)) = userMem s (word_at sb (of_nat i))" using Suc by auto
    have suc: "word_at b (of_nat i + 1) = word_at b (of_nat (Suc i))" for b i by (simp add: add.commute)
    let ?m = "m(word_at rb (of_nat n + 1) := userMem s (word_at sb (of_nat n + 1)))"
    have sn: "m (word_at sb (of_nat n + 1)) = userMem s (word_at sb (of_nat n + 1))" using m(3) Suc.prems unfolding suc by (simp del: of_nat_Suc)
    have ne: "word_at rb (of_nat i + 1) \<noteq> word_at rb (of_nat n + 1)" if "i < n" for i
      using word_at_inj[of "Suc i" "Suc n" rb] that Suc.prems unfolding suc by (auto simp del: of_nat_Suc)
    have ap: "word_at sb (of_nat i) \<noteq> word_at rb (of_nat n + 1)" if "i < 128" for i
      using assms(1) that Suc.prems unfolding suc buffers_apart_def by (auto simp del: of_nat_Suc)
    have "fold (\<lambda>i s. set_word rb (of_nat i + 1) (userMem s (word_at sb (of_nat i + 1))) s) [k..<Suc n] s = s\<lparr>userMem := ?m\<rparr>"
      using m(1) sn True by (simp add: set_word_def)
    moreover have "\<forall>i. k \<le> i \<and> i < Suc n \<longrightarrow> ?m (word_at rb (of_nat i + 1)) = userMem s (word_at sb (of_nat i + 1))"
      using m(2) ne by (auto simp: less_Suc_eq)
    moreover have "\<forall>i<128. ?m (word_at sb (of_nat i)) = userMem s (word_at sb (of_nat i))" using m(3) ap by simp
    ultimately show ?thesis by blast
  qed
qed

lemma copy_words_frame:
  "\<exists>m. fold (\<lambda>i s. set_word rb (of_nat i + 1) (userMem s (word_at sb (of_nat i + 1))) s) xs s = s\<lparr>userMem := m\<rparr>"
proof (induction xs arbitrary: s)
  case Nil
  show ?case by (intro exI[of _ "userMem s"]) simp
next
  case (Cons x xs)
  obtain m where "fold (\<lambda>i s. set_word rb (of_nat i + 1) (userMem s (word_at sb (of_nat i + 1))) s) xs
      (set_word rb (of_nat x + 1) (userMem s (word_at sb (of_nat x + 1))) s) = (set_word rb (of_nat x + 1) (userMem s (word_at sb (of_nat x + 1))) s)\<lparr>userMem := m\<rparr>"
    using Cons by blast
  then show ?case by (auto simp: set_word_def)
qed

text \<open>
  The message a sender with registers \<open>ca\<close> and buffer \<open>sb\<close> leaves with a receiver with buffer \<open>rb\<close>: badge, tag
  without capabilities, the words in registers, and the words in the buffer if both have one that do
  not overlap.
\<close>

definition transferred :: "ptr \<Rightarrow> ptr \<Rightarrow> word_t \<Rightarrow> nat" where
  "transferred sb rb w = (let n = unat (mi_get_length (messageInfoFromWord w)) in if sb = 0 \<or> rb = 0 then min n n_msgRegisters else n)"

definition delivered :: "word_t \<Rightarrow> (nat \<Rightarrow> word_t) \<Rightarrow> ptr \<Rightarrow> (ptr \<Rightarrow> word_t) \<Rightarrow> (nat \<Rightarrow> word_t) \<Rightarrow> ptr \<Rightarrow> (ptr \<Rightarrow> word_t) \<Rightarrow> bool" where
  "delivered badge ca sb ma cb rb mb \<longleftrightarrow>
     cb badgeRegister = badge \<and>
     mi_get_label (cb msgInfoRegister) = mi_get_label (messageInfoFromWord (ca msgInfoRegister)) \<and>
     mi_get_extraCaps (cb msgInfoRegister) = 0 \<and> mi_get_capsUnwrapped (cb msgInfoRegister) = 0 \<and>
     unat (mi_get_length (cb msgInfoRegister)) = transferred sb rb (ca msgInfoRegister) \<and>
     (\<forall>i<min n_msgRegisters (transferred sb rb (ca msgInfoRegister)). cb (msgRegisters ! i) = ca (msgRegisters ! i)) \<and>
     (buffers_apart sb rb \<longrightarrow> (\<forall>i. n_msgRegisters \<le> i \<and> i < transferred sb rb (ca msgInfoRegister) \<longrightarrow>
        mb (word_at rb (of_nat i + 1)) = ma (word_at sb (of_nat i + 1))))"

lemma copyMRs_ok:
  assumes "a \<noteq> b" "tcbs s a = Some ta" "tcbs s b = Some tb" and n: "n \<le> 120"
  shows "\<exists>m. copyMRs a sb b rb n s = Some (of_nat (if sb = 0 \<or> rb = 0 then min n n_msgRegisters else n),
      s\<lparr>tcbs := (tcbs s)(b := Some (tb\<lparr>tcbContext := copied_regs (min n n_msgRegisters) (tcbContext ta) (tcbContext tb)\<rparr>)), userMem := m\<rparr>) \<and>
    (buffers_apart sb rb \<longrightarrow> sb \<noteq> 0 \<longrightarrow> rb \<noteq> 0 \<longrightarrow>
       (\<forall>i. n_msgRegisters \<le> i \<and> i < n \<longrightarrow> m (word_at rb (of_nat i + 1)) = userMem s (word_at sb (of_nat i + 1))))"
proof -
  let ?k = "min n n_msgRegisters"
  let ?s = "s\<lparr>tcbs := (tcbs s)(b := Some (tb\<lparr>tcbContext := copied_regs ?k (tcbContext ta) (tcbContext tb)\<rparr>))\<rparr>"
  let ?f = "\<lambda>i s. set_word rb (of_nat i + 1) (userMem s (word_at sb (of_nat i + 1))) s"
  have r: "fold (copyMRs_regs a b) [0..<?k] (Some s) = Some ?s" using assms(1-3) by (intro copyMRs_regs_fold) auto
  show ?thesis
  proof (cases "sb = 0 \<or> rb = 0")
    case True
    have "?s = ?s\<lparr>userMem := userMem s\<rparr>" by simp
    then show ?thesis using True r by (intro exI[of _ "userMem s"]) (auto simp: copyMRs_def)
  next
    case False
    show ?thesis
    proof (cases "buffers_apart sb rb")
      case True
      obtain m where m: "fold ?f [?k..<n] ?s = ?s\<lparr>userMem := m\<rparr>" "\<forall>i. ?k \<le> i \<and> i < n \<longrightarrow> m (word_at rb (of_nat i + 1)) = userMem ?s (word_at sb (of_nat i + 1))"
        using copy_words[OF True n, of ?k ?s] by blast
      then show ?thesis using False r by (intro exI[of _ m]) (auto simp: copyMRs_def)
    next
      case apart: False
      obtain m where "fold ?f [?k..<n] ?s = ?s\<lparr>userMem := m\<rparr>" using copy_words_frame[of rb sb "[?k..<n]" ?s] by blast
      then show ?thesis using False apart r by (intro exI[of _ m]) (auto simp: copyMRs_def)
    qed
  qed
qed

lemma doIPCTransfer_plain:
  assumes ab: "a \<noteq> b" and ta: "tcbs s a = Some ta" and tb: "tcbs s b = Some tb" and nf: "tcbFault ta = Fault_NullFault"
    and buf: "lookupIPCBuffer True b s = Some rb" "lookupIPCBuffer False a s = Some sb"
  shows "\<exists>c m. doIPCTransfer a ep badge False b s = Some (s\<lparr>tcbs := (tcbs s)(b := Some (tb\<lparr>tcbContext := c\<rparr>)), userMem := m\<rparr>) \<and>
    delivered badge (tcbContext ta) sb (userMem s) c rb m"
proof -
  define w where "w = tcbContext ta msgInfoRegister"
  define tag where "tag = messageInfoFromWord w"
  define n where "n = unat (mi_get_length tag)"
  define k where "k = min n n_msgRegisters"
  define nt where "nt = (if sb = 0 \<or> rb = 0 then k else n)"
  have n120: "n \<le> 120" unfolding n_def tag_def by (rule mi_length_bound)
  have nt: "nt = transferred sb rb w" by (simp add: nt_def transferred_def n_def tag_def k_def Let_def)
  obtain m where m: "copyMRs a sb b rb n s = Some (of_nat nt, s\<lparr>tcbs := (tcbs s)(b := Some (tb\<lparr>tcbContext := copied_regs k (tcbContext ta) (tcbContext tb)\<rparr>)), userMem := m\<rparr>)"
    "buffers_apart sb rb \<longrightarrow> sb \<noteq> 0 \<longrightarrow> rb \<noteq> 0 \<longrightarrow> (\<forall>i. n_msgRegisters \<le> i \<and> i < n \<longrightarrow> m (word_at rb (of_nat i + 1)) = userMem s (word_at sb (of_nat i + 1)))"
    using copyMRs_ok[OF ab ta tb n120, of sb rb] unfolding k_def nt_def by blast
  let ?c = "(copied_regs k (tcbContext ta) (tcbContext tb))(msgInfoRegister := mi_set_length (mi_no_caps tag) (of_nat nt), badgeRegister := badge)"
  have "doIPCTransfer a ep badge False b s = Some (s\<lparr>tcbs := (tcbs s)(b := Some (tb\<lparr>tcbContext := ?c\<rparr>)), userMem := m\<rparr>)"
    using buf ta nf m(1)
    by (simp add: doIPCTransfer_def doNormalTransfer_def getRegister_def transferCaps_def Let_def setRegister_def wordFromMessageInfo_def
        mi_no_caps_def[symmetric] w_def[symmetric] tag_def[symmetric] n_def[symmetric] fun_upd_upd fun_upd_same del: fun_upd_apply)
  moreover have "delivered badge (tcbContext ta) sb (userMem s) ?c rb m"
  proof -
    have n4: "nt < 128" using n120 by (auto simp: nt_def k_def n_msgRegisters_def min_def)
    have l: "(of_nat nt :: word_t) < 128" using n4 by (simp add: word_less_nat_alt unat_of_nat)
    have u: "unat (of_nat nt :: word_t) = nt" using n4 by (simp add: unat_of_nat)
    have reg: "?c (msgRegisters ! i) = tcbContext ta (msgRegisters ! i)" if "i < min n_msgRegisters nt" for i
    proof -
      have i: "i < k" "i < length msgRegisters" using that msg_regs(2) by (auto simp: nt_def k_def split: if_splits)
      then have "msgRegisters ! i \<in> set (take k msgRegisters)" using nth_mem[of i "take k msgRegisters"] by simp
      moreover have "msgRegisters ! i \<noteq> badgeRegister" "msgRegisters ! i \<noteq> msgInfoRegister" using i(2) msg_regs(3,4) nth_mem by metis+
      ultimately show ?thesis by (simp add: copied_regs_def)
    qed
    have "m (word_at rb (of_nat i + 1)) = userMem s (word_at sb (of_nat i + 1))" if "buffers_apart sb rb" "n_msgRegisters \<le> i" "i < nt" for i
      using m(2) that by (auto simp: nt_def k_def split: if_splits)
    then show ?thesis unfolding delivered_def using reg msg_regs(5) mi_fields[OF l] mi_no_caps_fields u
      by (simp add: nt[symmetric] w_def[symmetric] tag_def)
  qed
  ultimately show ?thesis by blast
qed

subsection \<open>Messages through an endpoint\<close>

lemma action_frame_userMem: "action_frame s s' \<Longrightarrow> userMem s' = userMem s"
  by (simp add: action_frame_def sched_frame_def)

text \<open>A blocked thread is set running and handed to the scheduler: \<open>wake\<close> with the value a register has.\<close>

lemma run_wp:
  assumes v: "valid_sched s" and t: "tcbs s x = Some t"
    and x: "x \<noteq> ksIdleThread s" "x \<noteq> ksSchedulerAction s" "x \<notin> qset s" "x \<noteq> ksCurThread s"
  shows "succeeds (do { s \<leftarrow> setThreadState x ThreadState_Running s; possibleSwitchTo x s }) (\<lambda>s'. valid_sched s' \<and> (x \<in> qset s' \<or> ksSchedulerAction s' = x) \<and>
    action_frame (s\<lparr>tcbs := (tcbs s)(x := Some (t\<lparr>tsType := ThreadState_Running\<rparr>))\<rparr>) s')"
proof -
  let ?v = "tcbContext t badgeRegister"
  obtain s3 where s3: "setThreadState x ThreadState_Running s = Some s3" "action_frame (s\<lparr>tcbs := (tcbs s)(x := Some (t\<lparr>tsType := ThreadState_Running\<rparr>))\<rparr>) s3"
    using setThreadState_wp[of "{}" s x t ThreadState_Running "{}"] v t x unfolding succeeds_def valid_sched_def by auto
  obtain t3 where t3: "tcbs s3 x = Some t3" "core t3 = core (t\<lparr>tsType := ThreadState_Running\<rparr>)"
    using action_frame_tcb[OF s3(2), of x] by auto
  have "tcbContext t3 = tcbContext t" using core_ctx[OF t3(2)] by simp
  then have r: "setRegister x badgeRegister ?v s3 = Some s3" using t3(1) by (simp add: setRegister_same fun_upd_idem)
  have c: "t\<lparr>tsType := ThreadState_Running, tcbContext := (tcbContext t)(badgeRegister := ?v)\<rparr> = t\<lparr>tsType := ThreadState_Running\<rparr>" by simp
  have "wake x badgeRegister ?v s = do { s \<leftarrow> setThreadState x ThreadState_Running s; possibleSwitchTo x s }" using s3(1) r by (simp add: wake_def)
  then show ?thesis using wake_wp[OF v t x, of badgeRegister ?v] unfolding c by simp
qed

lemma lookupIPCBuffer_cong:
  assumes "map_option tcbIPCBuffer (tcbs s' x) = map_option tcbIPCBuffer (tcbs s x)" "ctes s' = ctes s"
  shows "lookupIPCBuffer b x s' = lookupIPCBuffer b x s"
proof (cases "tcbs s x")
  case (Some t)
  then obtain t' where t': "tcbs s' x = Some t'" "tcbIPCBuffer t' = tcbIPCBuffer t" using assms(1) by auto
  show ?thesis unfolding lookupIPCBuffer_def Some t'(1) bind.bind_lunit assms(2) t'(2) ..
qed (use assms in \<open>simp add: lookupIPCBuffer_def\<close>)

text \<open>A thread leaves the queue of an endpoint and a message is copied between it and the running thread.\<close>

lemma endpoint_rendezvous:
  assumes v: "valid_sched s" "valid_ipc s W" and e: "eps s p = Some e" and w: "W (EP p) = y # ys"
  shows "\<exists>q' s1. tcbEPDequeue y (ep_ptr_get_queue e) s = Some (q', s1) \<and> eps s1 p = Some e \<and> epQueue_head e = y \<and> y \<noteq> 0 \<and>
    (let s2 = s1\<lparr>eps := (eps s1)(p := Some (ep_dequeued q' e))\<rparr> in
     same_sched s s2 \<and> tcbs s2 y = tcbs s y \<and> (\<forall>x. x \<notin> set ys \<longrightarrow> tcbs s2 x = tcbs s x) \<and> ctes s2 = ctes s \<and> userMem s2 = userMem s \<and>
     (\<forall>s' t. (\<forall>x. x \<noteq> y \<longrightarrow> map_option wview (tcbs s' x) = map_option wview (tcbs s2 x)) \<and> eps s' = eps s2 \<and> ntfns s' = ntfns s2 \<and>
        tcbs s' y = Some t \<and> waits t = None \<longrightarrow> valid_ipc s' (W(EP p := ys))))"
proof -
  note wqn = wq_ep[OF e]
  have q: "ep_queue s (ep_ptr_get_queue e) ([] @ y # ys)" using valid_ipcD(3)[OF v(2) wqn] w by simp
  obtain t where t: "tcbs s y = Some t" using waiting_not_sched(1)[OF v, of y "EP p"] w by auto
  have hd: "epQueue_head e = y" "y \<noteq> 0" using ep_neighbours[OF q t] by (auto simp: ep_ptr_get_queue_def)
  obtain q' s1 where s1: "tcbEPDequeue y (ep_ptr_get_queue e) s = Some (q', s1)" "ep_queue s1 q' ([] @ ys)"
      "ep_frame (set [] \<union> set ys) s s1" "tcbs s1 y = tcbs s y"
    using tcbEPDequeue_wp[OF q] by (auto simp: succeeds_def)
  note f1 = ep_frame_fields[OF s1(3)]
  let ?s2 = "s1\<lparr>eps := (eps s1)(p := Some (ep_dequeued q' e))\<rparr>"
  have ipc: "valid_ipc s' (W(EP p := [] @ ys))"
    if s': "\<forall>x. x \<noteq> y \<longrightarrow> map_option wview (tcbs s' x) = map_option wview (tcbs ?s2 x)" "eps s' = eps ?s2" "ntfns s' = ntfns ?s2" "tcbs s' y = Some t'" "waits t' = None" for s' t'
  proof (rule ipc_unblock[OF v(2) _ wqn s1(2,3)])
    show "wq s' (EP p) = Some (q', if [] @ ys = [] then None else ep_kind (ep_state e))"
      using wq_ep[of s' p "ep_dequeued q' e"] s'(2) ep_kind_dequeued[OF s1(2), of e] by simp
    show "wq s' ob' = wq s ob'" if "ob' \<noteq> EP p" for ob' using wq_upd(2)[OF f1(1,2) that] wq_cong[OF s'(2,3), of ob'] by simp
  qed (use s' w in auto)
  have ss: "same_sched s ?s2" using same_sched_trans[OF ep_frame_sched[OF s1(3)] same_sched_objects(1)] .
  have oth: "\<forall>x. x \<notin> set ys \<longrightarrow> tcbs ?s2 x = tcbs s x" using s1(3) by (simp add: ep_frame_def)
  show ?thesis unfolding Let_def
  proof (intro exI[of _ q'] exI[of _ s1] conjI allI impI, goal_cases)
    case (10 s' t')
    then show ?case using ipc[of s' t'] by simp
  qed (use s1 hd f1 e ss oth in auto)
qed

lemma tcb_slots_apart: "i < 8 \<Longrightarrow> j < 8 \<Longrightarrow> TCB_PTR_CTE_PTR p i = TCB_PTR_CTE_PTR q j \<Longrightarrow> i = j"
proof -
  assume a: "i < 8" "j < 8" "TCB_PTR_CTE_PTR p i = TCB_PTR_CTE_PTR q j"
  have m: "MASKw seL4_TCBBits = 0x7FF" by (simp add: MASKw_def MASK_def BIT_def seL4_TCBBits_def push_bit_eq_mult)
  have s: "push_bit 5 k AND 0x7FF = push_bit 5 k \<and> push_bit 5 k AND NOT 0x7FF = 0" if "k < 8" for k :: word_t
  proof -
    have "k \<in> {0, 1, 2, 3, 4, 5, 6, 7}" using that by (auto simp: word_less_nat_alt word_unat_eq_iff) 
    then show ?thesis by (auto simp: push_bit_eq_mult)
  qed
  have "(r AND NOT 0x7FF) + push_bit 5 k = (r AND NOT 0x7FF) OR push_bit 5 k" if "k < 8" for r k :: word_t
    by (rule disjunctive_add_eq_or) (use s[OF that] in \<open>simp add: ac_simps\<close>)
  moreover have "((r AND NOT 0x7FF) OR k) AND 0x7FF = k AND 0x7FF" for r k :: word_t
  proof -
    have "(r AND NOT 0x7FF) AND 0x7FF = (0 :: word_t)" by (simp only: and.assoc and.commute[of "NOT 0x7FF"] bit.conj_cancel_right bit.conj_zero_right)
    then show ?thesis by (simp only: bit.conj_disj_distrib2 or.left_neutral)
  qed
  ultimately have "(TCB_PTR_CTE_PTR r k) AND 0x7FF = push_bit 5 k" if "k < 8" for r k
    using that s[OF that] unfolding TCB_PTR_CTE_PTR_def cte_at_index_def m by metis
  from this[OF a(1), of p] this[OF a(2), of q] a(3) have "push_bit 5 i = push_bit 5 j" by simp
  moreover have "i \<in> {0, 1, 2, 3, 4, 5, 6, 7}" "j \<in> {0, 1, 2, 3, 4, 5, 6, 7}" using a(1,2) by (auto simp: word_less_nat_alt word_unat_eq_iff)
  ultimately show "i = j" by (auto simp: push_bit_eq_mult)
qed

lemma possibleSwitchTo_keeps:
  assumes v: "base_sched {} s" and r: "runnable s p" and x: "x \<noteq> p" "x \<noteq> ksSchedulerAction s" "x \<notin> qset s" "x \<noteq> 1"
    and c: "ksSchedulerAction s \<noteq> SchedulerAction_ResumeCurrentThread \<and> ksSchedulerAction s \<noteq> SchedulerAction_ChooseNewThread \<longrightarrow> runnable s (ksSchedulerAction s)"
    and s': "possibleSwitchTo p s = Some s'"
  shows "x \<notin> qset s' \<and> x \<noteq> ksSchedulerAction s'"
proof -
  obtain t where t: "tcbs s p = Some t" using r by (auto simp: runnable_tcb)
  have e: "x \<notin> qset s2 \<and> ksSchedulerAction s2 = ksSchedulerAction s1 \<and> base_sched {} s2 \<and> runnable s2 p"
    if "tcbSchedEnqueue q s1 = Some s2" "base_sched {} s1" "runnable s1 q" "x \<noteq> q" "x \<notin> qset s1" "runnable s1 p" for q s1 s2
    using enqueue_base[OF that(2,3)] that(1,4-6) runnable_frame[of s1 s2 p] by (auto simp: succeeds_def sched_frame_def)
  show ?thesis
  proof (cases "ksCurDomain s \<noteq> tcbDomain t")
    case True
    then show ?thesis using s' t e[OF _ v r x(1,3) r, of s'] x(2) by (simp add: possibleSwitchTo_def)
  next
    case False
    show ?thesis
    proof (cases "ksSchedulerAction s = SchedulerAction_ResumeCurrentThread")
      case True
      then show ?thesis using s' t False x(1,3) by (auto simp: possibleSwitchTo_def qset_def)
    next
      case busy: False
      obtain s1 where s1: "rescheduleRequired s = Some s1" "tcbSchedEnqueue p s1 = Some s'"
        using s' t False busy by (auto simp: possibleSwitchTo_def bind_eq_Some_conv)
      have a: "x \<notin> qset s1 \<and> ksSchedulerAction s1 = SchedulerAction_ChooseNewThread \<and> base_sched {} s1 \<and> runnable s1 p"
      proof (cases "ksSchedulerAction s = SchedulerAction_ChooseNewThread")
        case True
        then have "s1 = s" using s1(1) busy by (auto simp: rescheduleRequired_def SchedulerAction_ChooseNewThread_def SchedulerAction_ResumeCurrentThread_def)
        then show ?thesis using True v r x(3) by simp
      next
        case False
        then obtain s0 where s0: "tcbSchedEnqueue (ksSchedulerAction s) s = Some s0" "s1 = s0\<lparr>ksSchedulerAction := SchedulerAction_ChooseNewThread\<rparr>"
          using s1(1) busy by (auto simp: rescheduleRequired_def bind_eq_Some_conv)
        have "runnable s (ksSchedulerAction s)" using c busy False by blast
        from e[OF s0(1) v this x(2,3) r] show ?thesis unfolding s0(2) by (simp add: runnable_tcb qset_def)
      qed
      then show ?thesis using e[OF s1(2) _ _ x(1)] x(4) by (simp add: SchedulerAction_ChooseNewThread_def)
    qed
  qed
qed

text \<open>Setting the state of a thread that is in no queue to one that is not runnable keeps the scheduler's view of all others.\<close>

lemma block_thread:
  assumes v: "valid_sched s" "valid_ipc s W" and t: "tcbs s x = Some t" "waits t = None"
    and x: "x \<noteq> ksIdleThread s" "x \<noteq> ksSchedulerAction s" "x \<notin> qset s"
    and ts: "ts = ThreadState_BlockedOnReply \<or> ts = ThreadState_Inactive"
    and y: "y \<noteq> x" "y \<in> qset s \<or> ksSchedulerAction s = y" "y \<noteq> 0" "runnable s y"
  shows "\<exists>s'. setThreadState x ts s = Some s' \<and> valid_sched s' \<and> valid_ipc s' W \<and> (y \<in> qset s' \<or> ksSchedulerAction s' = y) \<and> runnable s' y \<and>
    action_frame (s\<lparr>tcbs := (tcbs s)(x := Some (t\<lparr>tsType := ts\<rparr>))\<rparr>) s'"
proof -
  let ?s1 = "s\<lparr>tcbs := (tcbs s)(x := Some (t\<lparr>tsType := ts\<rparr>))\<rparr>"
  obtain s' where s': "setThreadState x ts s = Some s'" "base_sched {} s'" "valid_action s'" "qset s' = qset s" "action_frame ?s1 s'"
    using setThreadState_wp[of "{}" s x t ts "{}"] v(1) t x unfolding succeeds_def valid_sched_def by auto
  have act: "ksSchedulerAction s' = y" if "ksSchedulerAction s = y"
    using s'(1) that y(3) t(1) by (auto simp: setThreadState_def scheduleTCB_def isRunnable_def SchedulerAction_ResumeCurrentThread_def)
  have "runnable s' y" using action_frame_fields(6)[OF s'(5), of y] y(1,4) by (simp add: runnable_upd)
  moreover have "valid_ipc s' W"
  proof (rule ipc_same[OF v(2)])
    show "map_option wview (tcbs s' p) = map_option wview (tcbs s p)" for p
      using action_frame_wview[OF s'(5), of p] t ts by (auto simp: wview_def waits_def split: if_splits)
    show "wq s' ob = wq s ob" for ob using action_frame_fields(10,11)[OF s'(5)] by (cases ob) (simp_all add: wq_def)
  qed
  ultimately show ?thesis using s' act y(2) by (auto simp: valid_sched_def)
qed

lemma valid_sched_ctes:
  assumes "valid_sched s" "\<And>p. ctes s p \<noteq> None \<Longrightarrow> m p \<noteq> None"
    "\<And>p. map_option cte_cap (m (TCB_PTR_CTE_PTR p tcbVTable)) = map_option cte_cap (ctes s (TCB_PTR_CTE_PTR p tcbVTable))"
  shows "valid_sched (s\<lparr>ctes := m\<rparr>)"
proof -
  let ?s = "s\<lparr>ctes := m\<rparr>"
  have f: "findVSpaceForASID ?s a = findVSpaceForASID s a" "ctes ?s = m" "ksArch ?s = ksArch s" for a
    by (simp_all add: findVSpaceForASID_def findMapForASID_def Let_def)
  have "vm_root ?s p = vm_root s p" for p unfolding vm_root_def f assms(3) ..
  then have "vm_current ?s = vm_current s" by (simp add: vm_current_def)
  moreover have "thread_slots ?s" using assms(1,2) by (auto simp: valid_sched_def base_sched_def thread_slots_def)
  moreover have "qset ?s = qset s" "runnable ?s p = runnable s p" "valid_q ?s = valid_q s" "valid_dom ?s = valid_dom s" for p
    by (simp_all add: qset_def runnable_tcb valid_q_def valid_queues_def valid_dom_def valid_tcb_def bitmap_ok_def nonempty_def qidx_def rqi_def ready_queues_index_def)
  ultimately show ?thesis using assms(1) by (simp add: valid_sched_def base_sched_def valid_action_def)
qed

text \<open>
  The reply master of a thread without an outstanding call, and the empty caller slot of a thread that
  waits for a message.
\<close>

definition reply_master :: "ptr \<Rightarrow> cte" where
  "reply_master p = \<lparr>cte_cap = ReplyCap True True p, cteMDBNode = \<lparr>mdbNext = 0, mdbRevocable = True, mdbFirstBadged = True, mdbPrev = 0\<rparr>\<rparr>"

definition empty_cte :: cte where
  "empty_cte = \<lparr>cte_cap = NullCap, cteMDBNode = nullMDBNode\<rparr>"

definition reply_ctes :: "(ptr \<Rightarrow> cte option) \<Rightarrow> bool \<Rightarrow> ptr \<Rightarrow> ptr \<Rightarrow> ptr \<Rightarrow> cte option" where
  "reply_ctes m g cur dest = m(
     TCB_PTR_CTE_PTR dest tcbCaller := Some \<lparr>cte_cap = ReplyCap g False cur,
       cteMDBNode = \<lparr>mdbNext = 0, mdbRevocable = False, mdbFirstBadged = False, mdbPrev = TCB_PTR_CTE_PTR cur tcbReply\<rparr>\<rparr>,
     TCB_PTR_CTE_PTR cur tcbReply := Some \<lparr>cte_cap = ReplyCap True True cur,
       cteMDBNode = \<lparr>mdbNext = TCB_PTR_CTE_PTR dest tcbCaller, mdbRevocable = True, mdbFirstBadged = True, mdbPrev = 0\<rparr>\<rparr>)"

lemma reply_slots_apart:
  assumes "ctes s (TCB_PTR_CTE_PTR cur tcbReply) = Some (reply_master cur)" "ctes s (TCB_PTR_CTE_PTR dest tcbCaller) = Some empty_cte"
  shows "TCB_PTR_CTE_PTR cur tcbReply \<noteq> TCB_PTR_CTE_PTR dest tcbCaller"
  using assms by (auto simp: reply_master_def empty_cte_def)

lemma cteInsert_reply:
  assumes r: "ctes s (TCB_PTR_CTE_PTR cur tcbReply) = Some (reply_master cur)" "ctes s (TCB_PTR_CTE_PTR dest tcbCaller) = Some empty_cte"
  shows "cteInsert (ReplyCap g False cur) (TCB_PTR_CTE_PTR cur tcbReply) (TCB_PTR_CTE_PTR dest tcbCaller) s = Some (s\<lparr>ctes := reply_ctes (ctes s) g cur dest\<rparr>)"
  using assms reply_slots_apart[OF assms]
  by (simp add: cteInsert_def Let_def isCapRevocable_def setUntypedCapAsFull_def set_cap_def set_node_def upd_mdb_def upd_mdb_nz_def
      reply_master_def empty_cte_def nullMDBNode_def reply_ctes_def)

lemma reply_ctes_vtable:
  "reply_ctes m g cur dest (TCB_PTR_CTE_PTR p tcbVTable) = m (TCB_PTR_CTE_PTR p tcbVTable)" "m p \<noteq> None \<Longrightarrow> reply_ctes m g cur dest p \<noteq> None"
  using tcb_slots_apart[of tcbVTable tcbCaller p dest] tcb_slots_apart[of tcbVTable tcbReply p cur]
  by (auto simp: reply_ctes_def tcbVTable_def tcbCaller_def tcbReply_def)

text \<open>A thread that made a call blocks, and its partner gets the reply capability.\<close>

lemma setupCallerCap_reply:
  assumes v: "valid_sched s" "valid_ipc s W" and t: "tcbs s x = Some t" "waits t = None"
    and x: "x \<noteq> ksIdleThread s" "x \<noteq> ksSchedulerAction s" "x \<notin> qset s"
    and y: "y \<noteq> x" "y \<in> qset s \<or> ksSchedulerAction s = y" "y \<noteq> 0" "runnable s y"
    and r: "ctes s (TCB_PTR_CTE_PTR x tcbReply) = Some (reply_master x)" "ctes s (TCB_PTR_CTE_PTR y tcbCaller) = Some empty_cte"
  shows "\<exists>s'. setupCallerCap x y g s = Some s' \<and> valid_sched s' \<and> valid_ipc s' W \<and> (y \<in> qset s' \<or> ksSchedulerAction s' = y) \<and> runnable s' y \<and>
    action_frame (s\<lparr>tcbs := (tcbs s)(x := Some (t\<lparr>tsType := ThreadState_BlockedOnReply\<rparr>)), ctes := reply_ctes (ctes s) g x y\<rparr>) s'"
proof -
  obtain s1 where s1: "setThreadState x ThreadState_BlockedOnReply s = Some s1" "valid_sched s1" "valid_ipc s1 W"
    "y \<in> qset s1 \<or> ksSchedulerAction s1 = y" "runnable s1 y"
    "action_frame (s\<lparr>tcbs := (tcbs s)(x := Some (t\<lparr>tsType := ThreadState_BlockedOnReply\<rparr>))\<rparr>) s1"
    using block_thread[OF v t x disjI1[OF refl] y] by blast
  have c: "ctes s1 = ctes s" using action_frame_fields(12)[OF s1(6)] by simp
  let ?s' = "s1\<lparr>ctes := reply_ctes (ctes s1) g x y\<rparr>"
  have "setupCallerCap x y g s = Some ?s'"
    using s1(1) cteInsert_reply[of s1 x y g] r c by (simp add: setupCallerCap_def Let_def reply_master_def empty_cte_def)
  moreover have "valid_sched ?s'" by (intro valid_sched_ctes[OF s1(2)]) (simp_all add: reply_ctes_vtable)
  moreover have "valid_ipc ?s' W" by (rule ipc_same[OF s1(3)]) (simp_all add: wq_def split: wait_obj.splits)
  moreover have "y \<in> qset ?s' \<or> ksSchedulerAction ?s' = y" "runnable ?s' y" using s1(4,5) by (simp_all add: qset_def runnable_tcb)
  moreover have "action_frame (s\<lparr>tcbs := (tcbs s)(x := Some (t\<lparr>tsType := ThreadState_BlockedOnReply\<rparr>)), ctes := reply_ctes (ctes s) g x y\<rparr>) ?s'"
    using s1(6) c by (simp add: action_frame_def sched_frame_def)
  ultimately show ?thesis by blast
qed

lemma doIPCTransfer_nocaps:
  assumes "tcbs s a = Some ta" "lookupIPCBuffer False a s = Some sb"
    and "g \<longrightarrow> sb = 0 \<or> mi_get_extraCaps (messageInfoFromWord (tcbContext ta msgInfoRegister)) = 0"
  shows "doIPCTransfer a ep badge g b s = doIPCTransfer a ep badge False b s"
proof -
  have n: "doNormalTransfer a sb ep badge g b rb s = doNormalTransfer a sb ep badge False b rb s" for rb
    using assms by (auto simp: doNormalTransfer_def lookupExtraCaps_def getRegister_def Let_def)
  show ?thesis unfolding doIPCTransfer_def assms(1,2) bind.bind_lunit n ..
qed

lemma action_frame_context:
  assumes "action_frame s s'"
  shows "map_option tcbContext (tcbs s' p) = map_option tcbContext (tcbs s p)" "map_option tsType (tcbs s' p) = map_option tsType (tcbs s p)"
proof -
  have "map_option tcbContext (tcbs s' p) = map_option tcbContext (tcbs s p) \<and> map_option tsType (tcbs s' p) = map_option tsType (tcbs s p)"
  proof (cases "tcbs s p")
    case None
    then show ?thesis using action_frame_fields(8)[OF assms, of p] by simp
  next
    case (Some t)
    then obtain t' where t': "tcbs s' p = Some t'" "core t' = core t" using action_frame_tcb[OF assms] by blast
    show ?thesis using core_ctx[OF t'(2)] core_fields(1)[OF t'(2)] t'(1) Some by simp
  qed
  then show "map_option tcbContext (tcbs s' p) = map_option tcbContext (tcbs s p)" "map_option tsType (tcbs s' p) = map_option tsType (tcbs s p)" by blast+
qed

text \<open>What a call adds to a send: the caller waits for the reply, for which the receiver gets a reply capability; without the right to reply it is stopped.\<close>

definition call_effect :: "bool \<Rightarrow> bool \<Rightarrow> bool \<Rightarrow> ptr \<Rightarrow> ptr \<Rightarrow> kernel_state \<Rightarrow> kernel_state \<Rightarrow> bool" where
  "call_effect do_call may_reply g x y s s' \<longleftrightarrow>
     (if \<not> do_call then ctes s' = ctes s \<and> map_option tsType (tcbs s' x) = map_option tsType (tcbs s x)
      else if may_reply then ctes s' = reply_ctes (ctes s) g x y \<and> map_option tsType (tcbs s' x) = Some ThreadState_BlockedOnReply
      else ctes s' = ctes s \<and> map_option tsType (tcbs s' x) = Some ThreadState_Inactive)"

lemma run_keeps:
  assumes v: "valid_sched s" and t: "tcbs s y = Some t" and y: "y \<noteq> ksIdleThread s" "y \<noteq> ksSchedulerAction s" "y \<notin> qset s"
    and x: "x \<noteq> y" "x \<noteq> ksSchedulerAction s" "x \<notin> qset s" "tcbs s x \<noteq> None"
    and r: "do { s \<leftarrow> setThreadState y ThreadState_Running s; possibleSwitchTo y s } = Some s'"
  shows "x \<notin> qset s' \<and> x \<noteq> ksSchedulerAction s'"
proof -
  have x1: "x \<noteq> 1" using tcb_valid[of "{}" s x] v x(4) by (auto simp: valid_sched_def)
  obtain sa where sa: "setThreadState y ThreadState_Running s = Some sa" "possibleSwitchTo y sa = Some s'"
    using r by (auto simp: bind_eq_Some_conv)
  have wa: "base_sched {} sa" "valid_action sa" "qset sa = qset s" "ksSchedulerAction sa = ksSchedulerAction s \<or> ksSchedulerAction sa = 1"
    "action_frame (s\<lparr>tcbs := (tcbs s)(y := Some (t\<lparr>tsType := ThreadState_Running\<rparr>))\<rparr>) sa"
    using setThreadState_wp[of "{}" s y t ThreadState_Running "{}"] v t y sa(1)
    unfolding succeeds_def valid_sched_def SchedulerAction_ChooseNewThread_def by auto
  have "runnable sa y" using action_frame_fields(6)[OF wa(5), of y] by (simp add: runnable_tcb)
  moreover have "x \<noteq> ksSchedulerAction sa" "x \<notin> qset sa" using wa(3,4) x x1 by metis+
  moreover have "ksSchedulerAction sa \<noteq> SchedulerAction_ResumeCurrentThread \<and> ksSchedulerAction sa \<noteq> SchedulerAction_ChooseNewThread \<longrightarrow>
      runnable sa (ksSchedulerAction sa)" using wa(2) unfolding valid_action_def by blast
  ultimately show ?thesis using possibleSwitchTo_keeps[OF wa(1) _ x(1) _ _ x1 _ sa(2)] by blast
qed

lemma call_finishes:
  assumes v: "valid_sched s" "valid_ipc s W" and t: "tcbs s x = Some t" "waits t = None"
    and x: "x \<noteq> ksIdleThread s" "x \<noteq> ksSchedulerAction s" "x \<notin> qset s"
    and y: "y \<noteq> x" "y \<in> qset s \<or> ksSchedulerAction s = y" "y \<noteq> 0" "runnable s y"
    and r: "may \<longrightarrow> ctes s (TCB_PTR_CTE_PTR x tcbReply) = Some (reply_master x) \<and> ctes s (TCB_PTR_CTE_PTR y tcbCaller) = Some empty_cte"
  shows "\<exists>s'. (if may then setupCallerCap x y g s else setThreadState x ThreadState_Inactive s) = Some s' \<and> valid_sched s' \<and> valid_ipc s' W \<and>
    (y \<in> qset s' \<or> ksSchedulerAction s' = y) \<and> runnable s' y \<and> map_option tcbContext (tcbs s' y) = map_option tcbContext (tcbs s y) \<and>
    userMem s' = userMem s \<and> call_effect True may g x y s s'"
proof -
  define r where "r = s\<lparr>tcbs := (tcbs s)(x := Some (t\<lparr>tsType := if may then ThreadState_BlockedOnReply else ThreadState_Inactive\<rparr>)),
    ctes := if may then reply_ctes (ctes s) g x y else ctes s\<rparr>"
  obtain s' where s': "(if may then setupCallerCap x y g s else setThreadState x ThreadState_Inactive s) = Some s'" "valid_sched s'" "valid_ipc s' W"
    "y \<in> qset s' \<or> ksSchedulerAction s' = y" "runnable s' y" "action_frame r s'"
    using setupCallerCap_reply[OF v t x y, of g] block_thread[OF v t x disjI2[OF refl] y] r by (cases may) (auto simp: r_def)
  note f = action_frame_context(1)[OF s'(6), of y] action_frame_context(2)[OF s'(6), of x] action_frame_userMem[OF s'(6)] action_frame_fields(12)[OF s'(6)]
  have "map_option tcbContext (tcbs s' y) = map_option tcbContext (tcbs s y)" "userMem s' = userMem s" "call_effect True may g x y s s'"
    using f y(1) by (auto simp: r_def call_effect_def)
  then show ?thesis using s'(1-5) by blast
qed

lemma sendIPC_delivers:
  assumes v: "valid_sched s" "valid_ipc s W" and e: "eps s p = Some e" "ep_state e = EPState_Recv" and w: "W (EP p) = y # ys"
    and x: "tcbs s x = Some tx" "waits tx = None" "tcbFault tx = Fault_NullFault" and y: "tcbs s y = Some ty" "y \<noteq> ksCurThread s"
    and buf: "lookupIPCBuffer True y s = Some rb" "lookupIPCBuffer False x s = Some sb"
    and cg: "cg \<longrightarrow> mi_get_extraCaps (messageInfoFromWord (tcbContext tx msgInfoRegister)) = 0"
    and call: "do_call \<longrightarrow> x \<noteq> ksIdleThread s \<and> x \<noteq> ksSchedulerAction s \<and> x \<notin> qset s"
      "do_call \<and> (cg \<or> cgr) \<longrightarrow> ctes s (TCB_PTR_CTE_PTR x tcbReply) = Some (reply_master x) \<and> ctes s (TCB_PTR_CTE_PTR y tcbCaller) = Some empty_cte"
  shows "\<exists>s' cy. sendIPC blocking do_call badge cg cgr x p s = Some s' \<and> valid_sched s' \<and> valid_ipc s' (W(EP p := ys)) \<and>
    (y \<in> qset s' \<or> ksSchedulerAction s' = y) \<and> runnable s' y \<and>
    map_option tcbContext (tcbs s' y) = Some cy \<and> delivered badge (tcbContext tx) sb (userMem s) cy rb (userMem s') \<and>
    call_effect do_call (cg \<or> cgr) (blockingIPCCanGrant ty) x y s s'"
proof -
  have xn: "x \<notin> set (W (EP p))" using valid_ipcD(5)[OF v(2), of x "EP p"] x by auto
  then have xy: "x \<noteq> y" "x \<notin> set ys" using w by auto
  note yw = waiting_not_sched[OF v, of y "EP p"]
  obtain q' s1 s2 where s1: "tcbEPDequeue y (ep_ptr_get_queue e) s = Some (q', s1)" "eps s1 p = Some e" "epQueue_head e = y" "y \<noteq> 0"
    and s2d: "s2 = s1\<lparr>eps := (eps s1)(p := Some (ep_dequeued q' e))\<rparr>"
    and s2: "same_sched s s2" "tcbs s2 y = tcbs s y" "\<forall>x. x \<notin> set ys \<longrightarrow> tcbs s2 x = tcbs s x" "ctes s2 = ctes s" "userMem s2 = userMem s"
    and ipc: "\<And>s' t. (\<forall>x. x \<noteq> y \<longrightarrow> map_option wview (tcbs s' x) = map_option wview (tcbs s2 x)) \<Longrightarrow> eps s' = eps s2 \<Longrightarrow> ntfns s' = ntfns s2 \<Longrightarrow>
      tcbs s' y = Some t \<Longrightarrow> waits t = None \<Longrightarrow> valid_ipc s' (W(EP p := ys))"
    using endpoint_rendezvous[OF v e(1) w] unfolding Let_def by blast
  have b2: "lookupIPCBuffer True y s2 = Some rb" "lookupIPCBuffer False x s2 = Some sb"
    using buf s2 xy lookupIPCBuffer_cong[of s2 _ s] by auto
  have t2: "tcbs s2 x = Some tx" "tcbs s2 y = Some ty" using s2 xy x y by auto
  obtain cy m where m: "doIPCTransfer x p badge cg y s2 = Some (s2\<lparr>tcbs := (tcbs s2)(y := Some (ty\<lparr>tcbContext := cy\<rparr>)), userMem := m\<rparr>)"
    "delivered badge (tcbContext tx) sb (userMem s) cy rb m"
    using doIPCTransfer_plain[OF xy(1) t2 x(3) b2, of p badge] s2(5) doIPCTransfer_nocaps[OF t2(1) b2(2), of cg p badge y] cg by auto
  let ?s3 = "s2\<lparr>tcbs := (tcbs s2)(y := Some (ty\<lparr>tcbContext := cy\<rparr>)), userMem := m\<rparr>"
  let ?r = "?s3\<lparr>tcbs := (tcbs ?s3)(y := Some (ty\<lparr>tcbContext := cy, tsType := ThreadState_Running\<rparr>))\<rparr>"
  let ?fin = "\<lambda>s. if do_call then if cg \<or> cgr then setupCallerCap x y (blockingIPCCanGrant ty) s else setThreadState x ThreadState_Inactive s else Some s"
  have ss: "same_sched s ?s3"
    using same_sched_trans[OF s2(1)] same_sched_trans[OF same_sched_upd[OF t2(2), of "ty\<lparr>tcbContext := cy\<rparr>"] same_sched_objects(3)] by simp
  have v3: "valid_sched ?s3" "qset ?s3 = qset s" using same_sched_inv(3)[OF ss] same_sched_view(2)[OF ss] v(1) by auto
  have f3: "ksIdleThread ?s3 = ksIdleThread s" "ksSchedulerAction ?s3 = ksSchedulerAction s" "ksCurThread ?s3 = ksCurThread s" "ctes ?s3 = ctes s"
    using ss by (auto simp: same_sched_def)
  have t3: "tcbs ?s3 y = Some (ty\<lparr>tcbContext := cy\<rparr>)" by simp
  obtain s4 where s4: "do { s \<leftarrow> setThreadState y ThreadState_Running ?s3; possibleSwitchTo y s } = Some s4" "valid_sched s4"
    "y \<in> qset s4 \<or> ksSchedulerAction s4 = y" "action_frame ?r s4"
    using run_wp[OF v3(1) t3] yw w y(2) unfolding f3 v3(2) succeeds_def by auto
  note fr = action_frame_fields[OF s4(4)]
  have eq: "sendIPC blocking do_call badge cg cgr x p s = ?fin s4"
  proof -
    have "sendIPC blocking do_call badge cg cgr x p s = do { s \<leftarrow> setThreadState y ThreadState_Running ?s3; s \<leftarrow> possibleSwitchTo y s; ?fin s }"
      using e s1(1,3,4) m(1) by (simp add: sendIPC_def ep_dequeued_eq[OF s1(2)] s2d[symmetric] Let_def cong: if_cong)
    also have "\<dots> = do { s \<leftarrow> do { s \<leftarrow> setThreadState y ThreadState_Running ?s3; possibleSwitchTo y s }; ?fin s }" by simp
    finally show ?thesis unfolding s4(1) by simp
  qed
  obtain y4 where y4: "tcbs s4 y = Some y4" "tsType y4 = ThreadState_Running" "tcbContext y4 = cy"
  proof -
    obtain t where t: "tcbs s4 y = Some t" "core t = core (ty\<lparr>tcbContext := cy, tsType := ThreadState_Running\<rparr>)"
      using action_frame_tcb[OF s4(4), of y] by auto
    then show thesis using that[OF t(1)] core_fields(1)[OF t(2)] core_ctx[OF t(2)] by simp
  qed
  obtain x4 where x4: "tcbs s4 x = Some x4" "core x4 = core tx" using action_frame_tcb[OF s4(4), of x tx] t2(1) xy(1) by auto
  have x4': "tsType x4 = tsType tx" "waits x4 = None" using core_fields(1)[OF x4(2)] core_wview[OF x4(2)] x(2) by (auto simp: wview_def)
  have ry: "runnable s4 y" using y4 by (simp add: runnable_tcb)
  have v4: "valid_ipc s4 (W(EP p := ys))"
    using action_frame_wview[OF s4(4)] fr(10,11) y4(1,2) by (intro ipc[of s4 y4]) (simp_all add: waits_def)
  have um: "userMem s4 = m" "ctes s4 = ctes s" using action_frame_userMem[OF s4(4)] fr(12) s2(4) by simp_all
  show ?thesis
  proof (cases do_call)
    case False
    then show ?thesis using eq s4(2,3) v4 ry y4 m(2) um x4 x4' x by (intro exI[of _ s4] exI[of _ cy]) (simp add: call_effect_def)
  next
    case True
    have xs: "x \<notin> qset s4 \<and> x \<noteq> ksSchedulerAction s4"
      using run_keeps[OF v3(1) t3 _ _ _ xy(1) _ _ _ s4(1)] yw w call(1) True t2(1) xy(1) unfolding f3 v3(2) by auto
    moreover have "x \<noteq> ksIdleThread s4" using call(1) True fr(2) f3(1) by simp
    ultimately obtain s' where s': "(if cg \<or> cgr then setupCallerCap x y (blockingIPCCanGrant ty) s4 else setThreadState x ThreadState_Inactive s4) = Some s'"
      "valid_sched s'" "valid_ipc s' (W(EP p := ys))" "y \<in> qset s' \<or> ksSchedulerAction s' = y" "runnable s' y"
      "map_option tcbContext (tcbs s' y) = map_option tcbContext (tcbs s4 y)" "userMem s' = userMem s4"
      "call_effect True (cg \<or> cgr) (blockingIPCCanGrant ty) x y s4 s'"
      using call_finishes[OF s4(2) v4 x4(1) x4'(2) _ _ _ xy(1)[symmetric] s4(3) s1(4) ry, of "cg \<or> cgr" "blockingIPCCanGrant ty"] call(2) True um(2) by auto
    then have "call_effect do_call (cg \<or> cgr) (blockingIPCCanGrant ty) x y s s'" using True um(2) by (simp add: call_effect_def)
    then show ?thesis using eq s' True m(2) y4 um(1) by (intro exI[of _ s'] exI[of _ cy]) simp
  qed
qed

lemma receiveIPC_delivers:
  assumes v: "valid_sched s" "valid_ipc s W" and e: "eps s p = Some e" "ep_state e = EPState_Send" and w: "W (EP p) = y # ys"
    and x: "tcbs s x = Some tx" "waits tx = None" and c: "y \<noteq> ksCurThread s"
    and nb: "tcbBoundNotification tx = 0 \<or> (\<exists>n. ntfns s (tcbBoundNotification tx) = Some n \<and> ntfn_state n \<noteq> NtfnState_Active)"
    and y: "tcbs s y = Some ty" "tcbFault ty = Fault_NullFault" "\<not> blockingIPCCanGrant ty" "\<not> blockingIPCIsCall ty"
    and buf: "lookupIPCBuffer True x s = Some rb" "lookupIPCBuffer False y s = Some sb"
  shows "succeeds (receiveIPC x (EndpointCap bd cgr cg cs cr p) blocking s) (\<lambda>s'. valid_sched s' \<and> valid_ipc s' (W(EP p := ys)) \<and>
    (y \<in> qset s' \<or> ksSchedulerAction s' = y) \<and> runnable s' y \<and>
    (\<exists>cx. map_option tcbContext (tcbs s' x) = Some cx \<and> delivered (blockingIPCBadge ty) (tcbContext ty) sb (userMem s) cx rb (userMem s')))"
proof -
  have xn: "x \<notin> set (W (EP p))" using valid_ipcD(5)[OF v(2), of x "EP p"] x by auto
  then have xy: "y \<noteq> x" "x \<notin> set ys" using w by auto
  note yw = waiting_not_sched[OF v, of y "EP p"]
  obtain q' s1 s2 where s1: "tcbEPDequeue y (ep_ptr_get_queue e) s = Some (q', s1)" "eps s1 p = Some e" "epQueue_head e = y" "y \<noteq> 0"
    and s2d: "s2 = s1\<lparr>eps := (eps s1)(p := Some (ep_dequeued q' e))\<rparr>"
    and s2: "same_sched s s2" "tcbs s2 y = tcbs s y" "\<forall>x. x \<notin> set ys \<longrightarrow> tcbs s2 x = tcbs s x" "ctes s2 = ctes s" "userMem s2 = userMem s"
    and ipc: "\<And>s' t. (\<forall>x. x \<noteq> y \<longrightarrow> map_option wview (tcbs s' x) = map_option wview (tcbs s2 x)) \<Longrightarrow> eps s' = eps s2 \<Longrightarrow> ntfns s' = ntfns s2 \<Longrightarrow>
      tcbs s' y = Some t \<Longrightarrow> waits t = None \<Longrightarrow> valid_ipc s' (W(EP p := ys))"
    using endpoint_rendezvous[OF v e(1) w] unfolding Let_def by blast
  have b2: "lookupIPCBuffer True x s2 = Some rb" "lookupIPCBuffer False y s2 = Some sb"
    using buf s2 xy lookupIPCBuffer_cong[of s2 _ s] by auto
  have t2: "tcbs s2 y = Some ty" "tcbs s2 x = Some tx" using s2 xy x y by auto
  obtain cx m where m: "doIPCTransfer y p (blockingIPCBadge ty) False x s2 = Some (s2\<lparr>tcbs := (tcbs s2)(x := Some (tx\<lparr>tcbContext := cx\<rparr>)), userMem := m\<rparr>)"
    "delivered (blockingIPCBadge ty) (tcbContext ty) sb (userMem s) cx rb m"
    using doIPCTransfer_plain[OF xy(1) t2 y(2) b2, of p "blockingIPCBadge ty"] s2(5) by auto
  let ?s3 = "s2\<lparr>tcbs := (tcbs s2)(x := Some (tx\<lparr>tcbContext := cx\<rparr>)), userMem := m\<rparr>"
  have na: "(if tcbBoundNotification tx \<noteq> 0 then map_option (\<lambda>n. ntfn_state n = NtfnState_Active) (ntfns s (tcbBoundNotification tx)) else Some False) = Some False"
    using nb by auto
  have eq: "receiveIPC x (EndpointCap bd cgr cg cs cr p) blocking s = do { s \<leftarrow> setThreadState y ThreadState_Running ?s3; possibleSwitchTo y s }"
    unfolding receiveIPC_def cap.case Let_def x(1) bind.bind_lunit na
    using e s1(1,3,4) m(1) t2(1) y(3,4) xy(1) by (simp add: ep_dequeued_eq[OF s1(2)] s2d[symmetric])
  have ss3: "same_sched s2 ?s3"
    using same_sched_trans[OF same_sched_upd[OF t2(2), of "tx\<lparr>tcbContext := cx\<rparr>"] same_sched_objects(3)] by simp
  have ss: "same_sched s ?s3" using same_sched_trans[OF s2(1) ss3] .
  have v3: "valid_sched ?s3" "qset ?s3 = qset s" using same_sched_inv(3)[OF ss] same_sched_view(2)[OF ss] v(1) by auto
  have t3: "tcbs ?s3 y = Some ty" using t2 xy by simp
  show ?thesis unfolding eq
  proof (rule succeeds_mono[OF run_wp[OF v3(1) t3]], goal_cases)
    case (5 s')
    then have a: "valid_sched s'" "y \<in> qset s' \<or> ksSchedulerAction s' = y"
      "action_frame (?s3\<lparr>tcbs := (tcbs ?s3)(y := Some (ty\<lparr>tsType := ThreadState_Running\<rparr>))\<rparr>) s'" by auto
    obtain t' where t': "tcbs s' y = Some t'" "core t' = core (ty\<lparr>tsType := ThreadState_Running\<rparr>)"
      using action_frame_tcb[OF a(3), of y] by auto
    obtain tx' where tx': "tcbs s' x = Some tx'" "core tx' = core (tx\<lparr>tcbContext := cx\<rparr>)"
      using action_frame_tcb[OF a(3), of x "tx\<lparr>tcbContext := cx\<rparr>"] xy by auto
    have "tsType t' = ThreadState_Running" using core_fields(1)[OF t'(2)] by simp
    moreover have "tcbContext tx' = cx" using core_ctx[OF tx'(2)] by simp
    moreover have "valid_ipc s' (W(EP p := ys))"
    proof (rule ipc[OF _ _ _ t'(1)])
      have "map_option wview (tcbs ?s3 z) = map_option wview (tcbs s2 z)" for z using t2(2) by (simp add: wview_def waits_def)
      then show "\<forall>x. x \<noteq> y \<longrightarrow> map_option wview (tcbs s' x) = map_option wview (tcbs s2 x)" using action_frame_wview[OF a(3)] by simp
      show "eps s' = eps s2" "ntfns s' = ntfns s2" using action_frame_fields(10,11)[OF a(3)] by simp_all
      show "waits t' = None" using \<open>tsType t' = ThreadState_Running\<close> by (simp add: waits_def)
    qed
    moreover have "userMem s' = m" using action_frame_userMem[OF a(3)] by simp
    ultimately show ?case using a t'(1) tx'(1) m(2) by (simp add: runnable_tcb)
  qed (use yw w c ss v3(2) in \<open>auto simp: same_sched_def\<close>)
qed

subsection \<open>A small system with blocked threads\<close>

text \<open>
  The running thread and, beside it, a receiver blocked on the endpoint \<open>0x5000\<close>, a sender blocked on the
  endpoint \<open>0x8000\<close> and a thread that waits on the notification \<open>0x6000\<close>.
\<close>

definition ex_blocked :: "thread_state_type \<Rightarrow> ptr \<Rightarrow> tcb" where
  "ex_blocked ts p = (ex_thread ts 9)\<lparr>blockingObject := p, blockingIPCBadge := 0x77\<rparr>"

definition ex_ipc :: kernel_state where
  "ex_ipc = ex_kernel\<lparr>
     tcbs := [0x1000 \<mapsto> ex_thread ThreadState_IdleThreadState 0, 0x2000 \<mapsto> ex_thread ThreadState_Running 5,
              0x3000 \<mapsto> ex_blocked ThreadState_BlockedOnReceive 0x5000, 0x4000 \<mapsto> ex_blocked ThreadState_BlockedOnNotification 0x6000,
              0x9000 \<mapsto> ex_blocked ThreadState_BlockedOnSend 0x8000],
     eps := [0x5000 \<mapsto> \<lparr>epQueue_head = 0x3000, epQueue_tail = 0x3000, ep_state = EPState_Recv\<rparr>,
             0x8000 \<mapsto> \<lparr>epQueue_head = 0x9000, epQueue_tail = 0x9000, ep_state = EPState_Send\<rparr>],
     ntfns := [0x6000 \<mapsto> \<lparr>ntfnBoundTCB = 0, ntfnMsgIdentifier = 0, ntfnQueue_head = 0x4000, ntfnQueue_tail = 0x4000, ntfn_state = NtfnState_Waiting\<rparr>,
               0x7000 \<mapsto> \<lparr>ntfnBoundTCB = 0, ntfnMsgIdentifier = 0, ntfnQueue_head = 0, ntfnQueue_tail = 0, ntfn_state = NtfnState_Idle\<rparr>]\<rparr>"

definition ex_waiting :: "wait_obj \<Rightarrow> ptr list" where
  "ex_waiting = (\<lambda>_. [])(EP 0x5000 := [0x3000], EP 0x8000 := [0x9000], NTFN 0x6000 := [0x4000])"

lemma ex_ipc_tcbs:
  "tcbs ex_ipc 0x2000 = Some (ex_thread ThreadState_Running 5)" "tcbs ex_ipc 0x9000 = Some (ex_blocked ThreadState_BlockedOnSend 0x8000)"
  "ksCurThread ex_ipc = 0x2000" "ksIdleThread ex_ipc = 0x1000" "ksSchedulerAction ex_ipc = 0" "qset ex_ipc = {}"
  by (auto simp: ex_ipc_def ex_kernel_def qset_def ex_thread_def ex_blocked_def split: if_splits)

lemma ex_ipc_queues: "valid_queues ex_ipc (\<lambda>_. [])"
  by (auto simp: valid_queues_def ex_ipc_def ex_kernel_def valid_tcb_def ex_thread_def ex_blocked_def bitmap_ok_def nonempty_def seL4_MaxPrio_def split: if_splits)

lemma ex_ipc_sched: "valid_sched ex_ipc"
proof -
  have "base_sched {} ex_ipc" unfolding base_sched_def ex_ipc_tcbs(3,4,6) using ex_ipc_queues
    by (auto simp: valid_q_def valid_dom_def thread_slots_def) (auto simp: ex_ipc_def ex_kernel_def ex_thread_def ex_blocked_def)
  moreover have "valid_action ex_ipc" unfolding valid_action_def ex_ipc_tcbs(3-6) vm_current_def vm_root_def
    by (auto simp: runnable_tcb ex_ipc_tcbs SchedulerAction_ResumeCurrentThread_def) (simp_all add: ex_ipc_def ex_kernel_def ex_thread_def)
  ultimately show ?thesis by (simp add: valid_sched_def)
qed

lemma ex_ipc_valid: "valid_ipc ex_ipc ex_waiting"
  unfolding valid_ipc_def
proof (intro conjI allI impI)
  show "valid_wq ex_ipc ob (ex_waiting ob)" for ob
    by (auto simp: valid_wq_def wq_def ex_ipc_def ex_waiting_def ep_queue_def is_queue_def ep_ptr_get_queue_def ntfn_ptr_get_queue_def
        ep_kind_def ntfn_kind_def waits_def ex_blocked_def ex_thread_def split: wait_obj.splits)
next
  fix x t k ob
  assume "tcbs ex_ipc x = Some t \<and> waits t = Some (k, ob)"
  then show "x \<in> set (ex_waiting ob)"
    by (auto simp: ex_ipc_def ex_waiting_def waits_def ex_blocked_def ex_thread_def split: if_splits)
qed

lemma ex_ipc_objects:
  "\<exists>n. ntfns ex_ipc 0x6000 = Some n" "\<exists>e. eps ex_ipc 0x5000 = Some e \<and> ep_state e = EPState_Recv" "\<exists>e. eps ex_ipc 0x8000 = Some e \<and> ep_state e = EPState_Send"
  "\<exists>n. ntfns ex_ipc 0x7000 = Some n \<and> ntfn_state n = NtfnState_Idle \<and> ntfnBoundTCB n = 0"
  by (simp_all add: ex_ipc_def)

lemma ex_ipc_buffer: "\<exists>t. tcbs ex_ipc x = Some t \<Longrightarrow> lookupIPCBuffer b x ex_ipc = Some 0"
  by (auto simp: lookupIPCBuffer_def ex_ipc_def ex_kernel_def split: if_splits)

lemma ex_waits: "waits (ex_thread ThreadState_Running n) = None" "tcbFault (ex_thread ts n) = Fault_NullFault" "tcbBoundNotification (ex_thread ts n) = 0"
  "tcbFault (ex_blocked ts p) = Fault_NullFault" "\<not> blockingIPCCanGrant (ex_blocked ts p)" "\<not> blockingIPCIsCall (ex_blocked ts p)"
  by (simp_all add: waits_def ex_thread_def ex_blocked_def)

subsection \<open>Properties of endpoints and notifications\<close>

text \<open>
  C20. A signal to a notification with waiting threads returns and wakes the first of them: the
  thread becomes runnable, is queued or the next to run, finds the badge in its badge register, and the
  other waiting threads keep their order.
\<close>

theorem signal_wakes:
  assumes "valid_sched s" "valid_ipc s W" "ntfns s np = Some n" "W (NTFN np) = x # xs" "x \<noteq> ksCurThread s"
  shows "\<exists>s'. sendSignal np badge s = Some s' \<and> valid_sched s' \<and> valid_ipc s' (W(NTFN np := xs)) \<and>
    (x \<in> qset s' \<or> ksSchedulerAction s' = x) \<and> runnable s' x \<and> map_option (\<lambda>t. tcbContext t badgeRegister) (tcbs s' x) = Some badge"
  using sendSignal_waiting[OF assms] by (auto simp: succeeds_def)

theorem signal_wakes_witness:
  "\<exists>s'. sendSignal 0x6000 0x11 ex_ipc = Some s' \<and> runnable s' 0x4000 \<and> map_option (\<lambda>t. tcbContext t badgeRegister) (tcbs s' 0x4000) = Some 0x11"
proof -
  obtain n where "ntfns ex_ipc 0x6000 = Some n" using ex_ipc_objects by blast
  from signal_wakes[OF ex_ipc_sched ex_ipc_valid this, of "0x4000" "[]" "0x11"] show ?thesis by (auto simp: ex_waiting_def ex_ipc_tcbs)
qed

text \<open>
  Signals sent to an idle notification that no bound thread is waiting for are collected: a
  later receive finds the bitwise disjunction of all their badges, and the notification is idle again.
\<close>

lemma signals_merge:
  assumes "ntfns s np = Some n" "ntfn_state n = NtfnState_Idle"
    "ntfnBoundTCB n = 0 \<or> (\<exists>t. tcbs s (ntfnBoundTCB n) = Some t \<and> tsType t \<noteq> ThreadState_BlockedOnReceive)" "tcbs s x = Some t"
  shows "\<exists>s1 s2 n'. sendSignals np (b # bs) s = Some s1 \<and> receiveSignal x (NotificationCap badge cr cs np) blocking s1 = Some s2 \<and>
    tcbs s2 = (tcbs s)(x := Some (t\<lparr>tcbContext := (tcbContext t)(badgeRegister := fold (OR) bs b)\<rparr>)) \<and> ntfns s2 np = Some n' \<and> ntfn_state n' = NtfnState_Idle"
  by (rule signals_received[OF assms])

text \<open>
  C19. A thread that sends to an endpoint without receivers, receives from an endpoint without
  senders or waits on a notification without a pending signal is blocked and put behind every thread that
  already waits there; the invariants of the scheduler and of the wait queues are kept.
\<close>

theorem blocking_fifo:
  assumes "valid_sched s" "valid_ipc s W" "tcbs s x = Some t" "waits t = None" "x \<noteq> ksIdleThread s" "x \<noteq> ksSchedulerAction s" "x \<notin> qset s"
    and "tcbBoundNotification t = 0 \<or> (\<exists>n. ntfns s (tcbBoundNotification t) = Some n \<and> ntfn_state n \<noteq> NtfnState_Active)"
  shows "(\<forall>e. eps s p = Some e \<and> ep_state e \<noteq> EPState_Recv \<longrightarrow>
      (\<exists>s'. sendIPC True do_call badge cg cgr x p s = Some s' \<and> valid_sched s' \<and> valid_ipc s' (W(EP p := W (EP p) @ [x])) \<and>
        map_option ipc_fields (tcbs s' x) = Some (ThreadState_BlockedOnSend, p, badge, cg, cgr, do_call))) \<and>
    (\<forall>e. eps s p = Some e \<and> ep_state e \<noteq> EPState_Send \<longrightarrow>
      (\<exists>s'. receiveIPC x (EndpointCap badge cgr cg cs cr p) True s = Some s' \<and> valid_sched s' \<and> valid_ipc s' (W(EP p := W (EP p) @ [x])) \<and>
        map_option tsType (tcbs s' x) = Some ThreadState_BlockedOnReceive)) \<and>
    (\<forall>n. ntfns s p = Some n \<and> ntfn_state n \<noteq> NtfnState_Active \<longrightarrow>
      (\<exists>s'. receiveSignal x (NotificationCap badge cr cs p) True s = Some s' \<and> valid_sched s' \<and> valid_ipc s' (W(NTFN p := W (NTFN p) @ [x]))))"
proof (intro conjI allI impI; elim conjE)
  fix e assume "eps s p = Some e" "ep_state e \<noteq> EPState_Recv"
  from sendIPC_blocks[OF assms(1-7) this, of do_call badge cg cgr]
  show "\<exists>s'. sendIPC True do_call badge cg cgr x p s = Some s' \<and> valid_sched s' \<and> valid_ipc s' (W(EP p := W (EP p) @ [x])) \<and>
        map_option ipc_fields (tcbs s' x) = Some (ThreadState_BlockedOnSend, p, badge, cg, cgr, do_call)" by (simp add: succeeds_def)
next
  fix e assume "eps s p = Some e" "ep_state e \<noteq> EPState_Send"
  from receiveIPC_blocks[OF assms(1-7) this assms(8), of badge cgr cg cs cr]
  show "\<exists>s'. receiveIPC x (EndpointCap badge cgr cg cs cr p) True s = Some s' \<and> valid_sched s' \<and> valid_ipc s' (W(EP p := W (EP p) @ [x])) \<and>
        map_option tsType (tcbs s' x) = Some ThreadState_BlockedOnReceive" by (auto simp: succeeds_def)
next
  fix n assume "ntfns s p = Some n" "ntfn_state n \<noteq> NtfnState_Active"
  from receiveSignal_blocks[OF assms(1-7) this, of badge cr cs]
  show "\<exists>s'. receiveSignal x (NotificationCap badge cr cs p) True s = Some s' \<and> valid_sched s' \<and> valid_ipc s' (W(NTFN p := W (NTFN p) @ [x]))"
    by (simp add: succeeds_def)
qed

theorem blocking_fifo_witness:
  "\<exists>s'. sendIPC True True 5 False True 0x2000 0x8000 ex_ipc = Some s' \<and> valid_ipc s' (ex_waiting(EP 0x8000 := [0x9000, 0x2000]))"
proof -
  obtain e where e: "eps ex_ipc 0x8000 = Some e" "ep_state e = EPState_Send" using ex_ipc_objects by blast
  have w: "ex_waiting (EP 0x8000) = [0x9000]" by (simp add: ex_waiting_def)
  have "0x2000 \<noteq> ksIdleThread ex_ipc" "0x2000 \<noteq> ksSchedulerAction ex_ipc" "0x2000 \<notin> qset ex_ipc" by (simp_all add: ex_ipc_tcbs)
  from blocking_fifo[OF ex_ipc_sched ex_ipc_valid ex_ipc_tcbs(1) ex_waits(1) this disjI1[OF ex_waits(3)],
      THEN conjunct1, rule_format, of "0x8000" e True 5 False True] e
  show ?thesis by (auto simp: w)
qed

text \<open>
  C18. A send or call to an endpoint with waiting receivers, by a thread without a pending fault and with a message that passes no
  capabilities when the sender has the grant right, returns and delivers to the first
  of them: the receiver gets the badge, the label and the length of the message, the message registers and,
  when both threads have IPC buffers that do not overlap, the rest of the message;
  the receiver becomes runnable and the other receivers keep waiting in order. A send leaves all capabilities and the state of the sender alone. After a call
  with the right to be replied to, the caller is blocked on the reply, and the receiver's caller slot holds a reply capability for it, derived from the caller's
  reply master and with the grant right of the receiver; without that right, the caller is inactive. Calls are claimed for callers in no ready queue, with
  a free reply master and a receiver with an empty caller slot.
\<close>

theorem ipc_send_delivers:
  assumes "valid_sched s" "valid_ipc s W" "eps s p = Some e" "ep_state e = EPState_Recv" "W (EP p) = y # ys"
    and "tcbs s x = Some tx" "waits tx = None" "tcbFault tx = Fault_NullFault" "tcbs s y = Some ty" "y \<noteq> ksCurThread s"
    and "lookupIPCBuffer True y s = Some rb" "lookupIPCBuffer False x s = Some sb"
    and "cg \<longrightarrow> mi_get_extraCaps (messageInfoFromWord (tcbContext tx msgInfoRegister)) = 0"
    and "do_call \<longrightarrow> x \<noteq> ksIdleThread s \<and> x \<noteq> ksSchedulerAction s \<and> x \<notin> qset s"
    and "do_call \<and> (cg \<or> cgr) \<longrightarrow>
      ctes s (TCB_PTR_CTE_PTR x tcbReply) = Some (reply_master x) \<and> ctes s (TCB_PTR_CTE_PTR y tcbCaller) = Some empty_cte"
  shows "\<exists>s' cy. sendIPC blocking do_call badge cg cgr x p s = Some s' \<and> valid_sched s' \<and> valid_ipc s' (W(EP p := ys)) \<and>
    (y \<in> qset s' \<or> ksSchedulerAction s' = y) \<and> runnable s' y \<and>
    map_option tcbContext (tcbs s' y) = Some cy \<and> delivered badge (tcbContext tx) sb (userMem s) cy rb (userMem s') \<and>
    call_effect do_call (cg \<or> cgr) (blockingIPCCanGrant ty) x y s s'"
  by (rule sendIPC_delivers[OF assms])

definition ex_caller :: kernel_state where
  "ex_caller = ex_ipc\<lparr>ctes := (ctes ex_ipc)(TCB_PTR_CTE_PTR 0x2000 tcbReply := Some (reply_master 0x2000))\<rparr>"

lemma ex_caller_valid: "valid_sched ex_caller" "valid_ipc ex_caller ex_waiting"
proof -
  show "valid_sched ex_caller" unfolding ex_caller_def
    using tcb_slots_apart[of tcbVTable tcbReply _ "0x2000"] by (intro valid_sched_ctes[OF ex_ipc_sched]) (auto simp: tcbVTable_def tcbReply_def)
  show "valid_ipc ex_caller ex_waiting" unfolding ex_caller_def by (rule ipc_same[OF ex_ipc_valid]) (simp_all add: wq_def split: wait_obj.splits)
qed

theorem ipc_send_delivers_witness:
  "\<exists>s' cy. sendIPC True True 5 False True 0x2000 0x5000 ex_caller = Some s' \<and> runnable s' 0x3000 \<and>
    map_option tcbContext (tcbs s' 0x3000) = Some cy \<and> cy badgeRegister = 5 \<and>
    map_option tsType (tcbs s' 0x2000) = Some ThreadState_BlockedOnReply \<and>
    map_option cte_cap (ctes s' (TCB_PTR_CTE_PTR 0x3000 tcbCaller)) = Some (ReplyCap False False 0x2000)"
proof -
  obtain e where e: "eps ex_caller 0x5000 = Some e" "ep_state e = EPState_Recv" using ex_ipc_objects by (auto simp: ex_caller_def)
  have t: "tcbs ex_caller 0x2000 = Some (ex_thread ThreadState_Running 5)" "tcbs ex_caller 0x3000 = Some (ex_blocked ThreadState_BlockedOnReceive 0x5000)"
    by (simp_all add: ex_caller_def ex_ipc_tcbs) (simp add: ex_ipc_def)
  have f: "ex_waiting (EP 0x5000) = [0x3000]" "ksCurThread ex_caller = 0x2000" "ksIdleThread ex_caller = 0x1000" "ksSchedulerAction ex_caller = 0"
    "qset ex_caller = {}"
    using ex_ipc_tcbs(3-6) by (simp_all add: ex_waiting_def ex_caller_def qset_def)
  have b: "lookupIPCBuffer True 0x3000 ex_caller = Some 0" "lookupIPCBuffer False 0x2000 ex_caller = Some 0"
    using tcb_slots_apart[of tcbBuffer tcbReply "0x3000" "0x2000"] tcb_slots_apart[of tcbBuffer tcbReply "0x2000" "0x2000"]
    by (auto simp: lookupIPCBuffer_def t) (auto simp: ex_caller_def ex_ipc_def ex_kernel_def tcbBuffer_def tcbReply_def)
  have c: "ctes ex_caller (TCB_PTR_CTE_PTR 0x2000 tcbReply) = Some (reply_master 0x2000)"
    "ctes ex_caller (TCB_PTR_CTE_PTR 0x3000 tcbCaller) = Some empty_cte"
    using tcb_slots_apart[of tcbCaller tcbReply "0x3000" "0x2000"]
    by (auto simp: ex_caller_def tcbCaller_def tcbReply_def) (auto simp: ex_ipc_def ex_kernel_def empty_cte_def)
  note slots = reply_slots_apart[OF c]
  from ipc_send_delivers[OF ex_caller_valid e f(1) t(1) ex_waits(1,2) t(2) _ b, of False True True True 5]
  obtain s' cy where "sendIPC True True 5 False True 0x2000 0x5000 ex_caller = Some s'" "runnable s' 0x3000"
    "map_option tcbContext (tcbs s' 0x3000) = Some cy" "delivered 5 (tcbContext (ex_thread ThreadState_Running 5)) 0 (userMem ex_caller) cy 0 (userMem s')"
    "call_effect True True False 0x2000 0x3000 ex_caller s'"
    using c by (auto simp: f ex_waits(5))
  then show ?thesis using slots by (intro exI[of _ s'] exI[of _ cy]) (auto simp: delivered_def call_effect_def reply_ctes_def)
qed

text \<open>
  A receive from an endpoint with waiting senders, by a thread without a pending
  signal on its bound notification, returns and takes the message of the first sender, which becomes runnable
  when it did not ask for a reply; the other senders keep waiting in order.
\<close>

lemma ipc_receive_delivers:
  assumes "valid_sched s" "valid_ipc s W" "eps s p = Some e" "ep_state e = EPState_Send" "W (EP p) = y # ys"
    and "tcbs s x = Some tx" "waits tx = None" "y \<noteq> ksCurThread s"
    and "tcbBoundNotification tx = 0 \<or> (\<exists>n. ntfns s (tcbBoundNotification tx) = Some n \<and> ntfn_state n \<noteq> NtfnState_Active)"
    and "tcbs s y = Some ty" "tcbFault ty = Fault_NullFault" "\<not> blockingIPCCanGrant ty" "\<not> blockingIPCIsCall ty"
    and "lookupIPCBuffer True x s = Some rb" "lookupIPCBuffer False y s = Some sb"
  shows "\<exists>s' cx. receiveIPC x (EndpointCap bd cgr cg cs cr p) blocking s = Some s' \<and> valid_sched s' \<and> valid_ipc s' (W(EP p := ys)) \<and>
    (y \<in> qset s' \<or> ksSchedulerAction s' = y) \<and> runnable s' y \<and>
    map_option tcbContext (tcbs s' x) = Some cx \<and> delivered (blockingIPCBadge ty) (tcbContext ty) sb (userMem s) cx rb (userMem s')"
  using receiveIPC_delivers[OF assms, of bd cgr cg cs cr blocking] by (auto simp: succeeds_def)

text \<open>
  Cancelling the wait of a thread anywhere in the queue of an endpoint or a notification
  returns, takes exactly this thread out of the queue and makes it inactive; the object is idle when nobody
  is left.
\<close>

lemma cancel_ipc:
  assumes "valid_sched s" "valid_ipc s W" "W ob = ys @ x # zs"
  shows "\<exists>s'. cancelIPC x s = Some s' \<and> valid_sched s' \<and> valid_ipc s' (W(ob := ys @ zs)) \<and> map_option tsType (tcbs s' x) = Some ThreadState_Inactive"
  using cancelIPC_waiting[OF assms] by (auto simp: succeeds_def)

text \<open>
  C21. The loops of \<open>cancelAllIPC\<close> and \<open>cancelAllSignals\<close>, which walk a queue while the threads on it
  are restarted, end: every thread that was waiting on the object is runnable and in a ready queue, nobody
  waits on the object any more and the waits on all other objects are untouched.
\<close>

theorem cancel_all:
  assumes "valid_sched s" "valid_ipc s W"
  shows "(\<forall>e. eps s p = Some e \<and> ksCurThread s \<notin> set (W (EP p)) \<longrightarrow>
      (\<exists>s'. cancelAllIPC p s = Some s' \<and> valid_sched s' \<and> valid_ipc s' (W(EP p := [])) \<and> (\<forall>x\<in>set (W (EP p)). runnable s' x \<and> x \<in> qset s'))) \<and>
    (\<forall>n. ntfns s p = Some n \<and> ksCurThread s \<notin> set (W (NTFN p)) \<longrightarrow>
      (\<exists>s'. cancelAllSignals p s = Some s' \<and> valid_sched s' \<and> valid_ipc s' (W(NTFN p := [])) \<and> (\<forall>x\<in>set (W (NTFN p)). runnable s' x \<and> x \<in> qset s')))"
  using cancelAllIPC_wp[OF assms] cancelAllSignals_wp[OF assms] unfolding succeeds_def by blast

theorem cancel_all_witness:
  "\<exists>s'. cancelAllIPC 0x5000 ex_ipc = Some s' \<and> valid_ipc s' (ex_waiting(EP 0x5000 := [])) \<and> 0x3000 \<in> qset s'"
proof -
  obtain e where e: "eps ex_ipc 0x5000 = Some e" using ex_ipc_objects by blast
  have w: "ex_waiting (EP 0x5000) = [0x3000]" by (simp add: ex_waiting_def)
  from cancel_all[OF ex_ipc_sched ex_ipc_valid, THEN conjunct1, rule_format, of "0x5000" e] e
  show ?thesis by (auto simp: w ex_ipc_tcbs)
qed

end
