(* ===== verification/KFastpathInv.thy ===== *)
theory KFastpathInv
  imports KFastpath KIpcInv
begin

text \<open>
  The fast paths against the slow path. \<open>kernel_entry\<close> collects the invariants that hold when a running
  thread enters the kernel; from such a state a fast path is always defined, and when it does not fall back
  to the slow path it produces the state that \<open>handleSyscall\<close> produces. The proof computes both sides. The
  call of a registered server, which omits the checks of the other fast paths, is shown to enter the server
  without a capability and to break the capability derivation tree when a reply is pending.
\<close>

unbundle bit_operations_syntax

subsection \<open>Looking up a capability\<close>

text \<open>The bits below the leading \<open>64 - n\<close> ones, read from the top by two shifts.\<close>

lemma shift_field:
  fixes w :: word_t
  assumes "a + k \<le> n" "n \<le> 64" "0 < k"
  shows "drop_bit (64 - k) (push_bit a (push_bit (64 - n) w)) = take_bit k (drop_bit (n - (a + k)) w)"
proof (rule bit_word_eqI)
  fix i :: nat
  assume "i < LENGTH(64)"
  show "bit (drop_bit (64 - k) (push_bit a (push_bit (64 - n) w))) i = bit (take_bit k (drop_bit (n - (a + k)) w)) i"
  proof (cases "i < k")
    case True
    have "64 - k + i - a - (64 - n) = n - (a + k) + i" "a \<le> 64 - k + i" "a + (64 - n) \<le> 64 - k + i" "64 - k + i < 64" using assms True by linarith+
    then show ?thesis using True by (simp add: bit_drop_bit_eq bit_push_bit_iff bit_take_bit_iff)
  next
    case False
    then have "\<not> 64 - k + i < 64" using assms by linarith
    then show ?thesis using False by (auto simp: bit_drop_bit_eq bit_take_bit_iff dest!: bit_imp_le_length)
  qed
qed

definition fp_found :: "unit + cap \<times> word_t \<Rightarrow> cap" where
  "fp_found r = (case r of Inl _ \<Rightarrow> NullCap | Inr (cap, bits) \<Rightarrow> if bits > of_nat wordBits then NullCap else cap)"

definition resolved_cap :: "kernel_state \<Rightarrow> lookup_fault + ptr \<times> word_t \<Rightarrow> cap" where
  "resolved_cap s r = (case r of Inl _ \<Rightarrow> NullCap | Inr (slot, _) \<Rightarrow> (case ctes s slot of None \<Rightarrow> NullCap | Some c \<Rightarrow> cte_cap c))"

lemma fp_step:
  assumes "guardBits = 0 \<or> drop_bit (64 - unat guardBits) (push_bit (unat bits) w) = capGuard" "radixBits \<noteq> 0"
    and "ctes s (cte_at_index node (drop_bit (64 - unat radixBits) (push_bit (unat guardBits) (push_bit (unat bits) w)))) = Some c"
  shows "lookup_fp_loop s w (CNodeCap radixBits guardBits capGuard node) bits =
    (if (\<exists>r gs g p. cte_cap c = CNodeCap r gs g p) \<and> bits + (guardBits + radixBits) < of_nat wordBits
     then lookup_fp_loop s w (cte_cap c) (bits + (guardBits + radixBits)) else Some (Inr (cte_cap c, bits + (guardBits + radixBits))))"
  using assms by (subst lookup_fp_loop.simps) (auto simp: Let_def split: cap.splits)

lemma fp_mismatch:
  "guardBits \<noteq> 0 \<Longrightarrow> drop_bit (64 - unat guardBits) (push_bit (unat bits) w) \<noteq> capGuard \<Longrightarrow>
   lookup_fp_loop s w (CNodeCap radixBits guardBits capGuard node) bits = Some (Inl ())"
  by (subst lookup_fp_loop.simps) (simp add: Let_def)

lemma drop_bit_small:
  fixes w :: word_t
  assumes "0 < r" "r < 64"
  shows "\<exists>i. i < 2 ^ r \<and> drop_bit (64 - r) w = of_nat i"
proof -
  have "unat (drop_bit (64 - r) w) = unat w div 2 ^ (64 - r)" 
    using assms by (simp only: unsigned_drop_bit_eq) (simp add: drop_bit_eq_div unsigned_take_bit_eq[symmetric] take_bit_word_eq_self)
  moreover have "unat w < 2 ^ (64 - r) * 2 ^ r" using assms unsigned_less[of w] by (simp flip: power_add)
  ultimately have "unat (drop_bit (64 - r) w) < 2 ^ r" by (simp add: less_mult_imp_div_less mult.commute)
  then show ?thesis by (intro exI[of _ "unat (drop_bit (64 - r) w)"]) simp
qed

lemma lookup_fp_loop_resolves:
  assumes "valid_cspace s"
  shows "cnode_slots s (CNodeCap r gs g p) \<Longrightarrow> 0 < n \<Longrightarrow> n \<le> 64 \<Longrightarrow>
    resolves s (CNodeCap r gs g p) (bits_of n w) res \<Longrightarrow>
    \<exists>res'. lookup_fp_loop s w (CNodeCap r gs g p) (of_nat (64 - n)) = Some res' \<and> fp_found res' = resolved_cap s res"
proof (induction n arbitrary: r gs g p rule: less_induct)
  case (less n)
  have v: "unat r + unat gs \<le> 64" "0 < unat r" "unat r < 64" "unat gs < 64" "g AND MASKw gs = g"
    and slots: "\<And>i. i < 2 ^ unat r \<Longrightarrow> ctes s (cte_at_index p (of_nat i)) \<noteq> None"
    using less.prems(1) by (auto simp: cnode_slots_def)
  have r0: "r \<noteq> 0" using v(2) by auto
  have ub: "unat (of_nat (64 - n) :: word_t) = 64 - n" by (simp add: unat_of_nat)
  let ?i = "drop_bit (64 - unat r) (push_bit (unat gs) (push_bit (64 - n) w))"
  obtain c where c: "ctes s (cte_at_index p ?i) = Some c" using drop_bit_small[OF v(2,3)] slots by (metis not_None_eq)
  let ?fg = "drop_bit (64 - unat gs) (push_bit (64 - n) w)"
  let ?bits = "of_nat (64 - n) + (gs + r) :: word_t"
  have bits: "unat ?bits = 64 - n + unat gs + unat r" using v(1) ub by (simp add: unat_word_ariths)
  have fast: "lookup_fp_loop s w (CNodeCap r gs g p) (of_nat (64 - n)) =
    (if gs \<noteq> 0 \<and> ?fg \<noteq> g then Some (Inl ())
     else if (\<exists>r gs g p. cte_cap c = CNodeCap r gs g p) \<and> ?bits < of_nat wordBits then lookup_fp_loop s w (cte_cap c) ?bits
     else Some (Inr (cte_cap c, ?bits)))"
    using fp_step[of gs "of_nat (64 - n)" w g r s p c] fp_mismatch[of gs "of_nat (64 - n)" w g s r p] r0 c ub by simp
  have guard: "gs = 0 \<or> ?fg = g \<longleftrightarrow> take (unat gs) (bits_of n w) = bits_of (unat gs) g" if "unat gs \<le> n"
  proof (cases "gs = 0")
    case False
    then have "?fg = take_bit (unat gs) (drop_bit (n - unat gs) w)"
      using shift_field[of 0 "unat gs" n w] that less.prems by (simp add: unat_gt_0)
    moreover have "take_bit (unat gs) g = g" using v(5) by (simp add: and_MASKw)
    ultimately show ?thesis using False by (auto simp: take_bits_of[OF that] bits_of_eq_iff)
  qed (simp add: bits_of_def)
  have idx: "?i = of_nat (index_of ix) \<and> unat gs + unat r + length rest = n \<and> rest = bits_of (length rest) w \<and> (gs = 0 \<or> ?fg = g)"
    if "bits_of n w = bits_of (unat gs) g @ ix @ rest" "length ix = unat r" for ix rest
  proof -
    have n: "unat gs + unat r + length rest = n" using arg_cong[OF that(1), of length] that(2) by simp
    have t: "take (unat gs) (bits_of n w) = bits_of (unat gs) g" using that(1) by simp
    have d: "ix @ rest = bits_of (n - unat gs) w" using arg_cong[OF that(1), of "drop (unat gs)"] n by (simp add: drop_bits_of)
    have "ix = take (unat r) (bits_of (n - unat gs) w)" using d that(2) by (metis append_eq_conv_conj)
    moreover have nr: "n - unat gs - unat r = length rest" "unat r \<le> n - unat gs" using n by linarith+
    ultimately have ix: "ix = bits_of (unat r) (drop_bit (length rest) w)" by (simp add: take_bits_of)
    have "rest = drop (unat r) (bits_of (n - unat gs) w)" using d that(2) by (metis append_eq_conv_conj)
    then have rest: "rest = bits_of (length rest) w" using nr by (simp add: drop_bits_of)
    have nn: "n - (unat gs + unat r) = length rest" using n by linarith
    have "?i = take_bit (unat r) (drop_bit (length rest) w)" using shift_field[of "unat gs" "unat r" n w] n v(2) less.prems(3) unfolding nn by simp
    then have "?i = of_nat (index_of ix)" using offset_index[of "length rest" w r] unfolding ix by (simp add: and_MASKw)
    then show ?thesis using n rest guard t by auto
  qed
  from less.prems(4) show ?case
  proof cases
    case guard_mismatch
    show ?thesis
    proof (cases "unat gs \<le> n")
      case True
      then show ?thesis using guard guard_mismatch fast by (auto simp: fp_found_def resolved_cap_def)
    next
      case False
      then have "\<not> ?bits < of_nat wordBits" "?bits > of_nat wordBits" using bits v(2) by (auto simp: word_less_nat_alt wordBits_def)
      then show ?thesis using guard_mismatch fast by (auto simp: fp_found_def resolved_cap_def)
    qed
  next
    case depth_mismatch
    then have "\<not> ?bits < of_nat wordBits" "?bits > of_nat wordBits" using bits less.prems(3) by (auto simp: word_less_nat_alt wordBits_def)
    then show ?thesis using depth_mismatch fast by (auto simp: fp_found_def resolved_cap_def)
  next
    case (found ix)
    then have "?i = of_nat (index_of ix)" "unat gs + unat r = n" "gs = 0 \<or> ?fg = g" using idx[of ix "[]"] by auto
    moreover have "\<not> ?bits < of_nat wordBits" "\<not> ?bits > of_nat wordBits" using bits less.prems(3) calculation(2) by (auto simp: word_less_nat_alt wordBits_def)
    ultimately show ?thesis using found fast c by (auto simp: fp_found_def resolved_cap_def)
  next
    case (leaf ix rest c')
    then have "?i = of_nat (index_of ix)" "unat gs + unat r + length rest = n" "gs = 0 \<or> ?fg = g" using idx[of ix rest] by auto
    moreover have "\<not> ?bits > of_nat wordBits" using bits less.prems(3) calculation(2) by (auto simp: word_less_nat_alt wordBits_def)
    ultimately show ?thesis using leaf fast c by (auto simp: fp_found_def resolved_cap_def)
  next
    case (step ix rest c' r' gs' g' p')
    have i: "?i = of_nat (index_of ix)" "unat gs + unat r + length rest = n" "gs = 0 \<or> ?fg = g" "rest = bits_of (length rest) w"
      using idx[OF step(1,2)] by auto
    have c': "c' = c" using step(4) c i(1) by simp
    have l: "0 < length rest" "length rest < n" "length rest \<le> 64" using step(3) i(2) v(2) less.prems(3) by auto
    have cn: "cnode_slots s (CNodeCap r' gs' g' p')" using assms c step(5) c' by (metis valid_cspace_def)
    have "resolves s (CNodeCap r' gs' g' p') (bits_of (length rest) w) res" using step(5,6) i(4) by simp
    from less.IH[OF l(2) cn l(1,3) this]
    obtain res' where r: "lookup_fp_loop s w (cte_cap c) (of_nat (64 - length rest)) = Some res'" "fp_found res' = resolved_cap s res"
      using step(5) c' by auto
    have "unat ?bits = 64 - length rest" using bits i(2) less.prems(3) by linarith
    from arg_cong[OF this, of "of_nat :: nat \<Rightarrow> word_t"] have b: "?bits = of_nat (64 - length rest)" by simp
    have lt: "?bits < of_nat wordBits" using bits i(2) l(1) less.prems(3) by (auto simp: word_less_nat_alt wordBits_def)
    show ?thesis using r lt b fast i(3) step(5) c' by auto
  qed
qed

lemma index_of_less: "index_of bs < 2 ^ length bs"
  by (induction bs rule: rev_induct) (auto simp: index_of_def)

lemma resolves_slot:
  "resolves s cap bs res \<Longrightarrow> valid_cspace s \<Longrightarrow> cnode_slots s cap \<Longrightarrow> res = Inr (slot, b) \<Longrightarrow> ctes s slot \<noteq> None"
proof (induction rule: resolves.induct)
  case (found bs gs g ix r p)
  then show ?case using index_of_less[of ix] unfolding cnode_slots_def by auto
next
  case (step bs gs g ix rest r p c r' gs' g' p' res)
  have "cnode_slots s (cte_cap c)" using step unfolding valid_cspace_def by blast
  then show ?case using step by blast
qed auto

lemma lookup_fp_eq:
  assumes v: "valid_cspace s" and root: "ctes s (TCB_PTR_CTE_PTR thread tcbCTable) = Some root"
  shows "\<exists>r. lookupCap s thread cptr = Some r \<and> lookup_fp s (cte_cap root) cptr = Some (case r of Inl _ \<Rightarrow> NullCap | Inr cap \<Rightarrow> cap)"
proof (cases "\<exists>r gs g p. cte_cap root = CNodeCap r gs g p")
  case True
  then obtain r gs g p where cap: "cte_cap root = CNodeCap r gs g p" by blast
  have cs: "cnode_slots s (CNodeCap r gs g p)" using v root cap by (metis valid_cspace_def)
  obtain res where res: "resolve_loop s (CNodeCap r gs g p) cptr (of_nat 64) = Some res" "resolves s (CNodeCap r gs g p) (bits_of 64 cptr) res"
    using resolve_loop_resolves[OF v cs order_refl] by blast
  obtain res' where res': "lookup_fp_loop s cptr (CNodeCap r gs g p) (of_nat (64 - 64)) = Some res'" "fp_found res' = resolved_cap s res"
    using lookup_fp_loop_resolves[OF v cs _ order_refl res(2)] by auto
  have "lookup_fp s (cte_cap root) cptr = Some (resolved_cap s res)" using res' cap by (simp add: lookup_fp_def fp_found_def)
  moreover have "\<exists>r. lookupCap s thread cptr = Some r \<and> resolved_cap s res = (case r of Inl _ \<Rightarrow> NullCap | Inr cap \<Rightarrow> cap)"
  proof (cases res)
    case (Inr q)
    obtain slot b where q: "q = (slot, b)" by (cases q)
    obtain c where "ctes s slot = Some c" using resolves_slot[OF res(2) v cs] Inr q by blast
    then show ?thesis using res(1) root cap Inr q by (simp add: lookupCap_def lookupSlot_def resolveAddressBits_def resolved_cap_def wordBits_def)
  qed (use res(1) root cap in \<open>simp add: lookupCap_def lookupSlot_def resolveAddressBits_def resolved_cap_def wordBits_def\<close>)
  ultimately show ?thesis by auto
next
  case False
  then show ?thesis using root by (cases "cte_cap root") (auto simp: lookupCap_def lookupSlot_def resolveAddressBits_def lookup_fp_def)
qed

subsection \<open>Short messages\<close>

lemma short_message:
  assumes "\<not> fastpath_mi_check w"
  shows "mi_get_extraCaps w = 0" "unat (mi_get_length w) \<le> 4" "messageInfoFromWord w = w"
    "mi_set_length (mi_no_caps w) (mi_get_length w) = mi_set_capsUnwrapped w 0"
proof -
  define x where "x = take_bit 9 w"
  have m: "(0x1ff :: word_t) = mask 9" "(0x7f :: word_t) = mask 7" "(3 :: word_t) = mask 2" "(0xe00 :: word_t) = push_bit 9 (mask 3)"
    by (simp_all add: mask_eq_exp_minus_1 push_bit_eq_mult)
  have x4: "x \<le> 4" using assms unfolding fastpath_mi_check_def m x_def by (simp add: take_bit_eq_mask not_less)
  then have "unat x \<le> 4" by (simp add: word_le_nat_alt)
  then have "take_bit 3 (unat x) = unat x" by (intro take_bit_nat_eq_self) simp
  then have x3: "take_bit 3 x = x" by (intro word_unat_eq_iff[THEN iffD2]) (simp add: unsigned_take_bit_eq)
  have b: "\<not> bit w i" if "3 \<le> i" "i < 9" for i
    using arg_cong[OF x3, of "\<lambda>y. bit y i"] that by (simp add: bit_take_bit_iff x_def)
  show "mi_get_extraCaps w = 0" unfolding mi_get_extraCaps_def m by (rule bit_word_eqI) (use b in \<open>auto simp: bit_simps\<close>)
  have l: "mi_get_length w = x" unfolding mi_get_length_def m x_def 
  proof (rule bit_word_eqI)
    fix n show "bit (w AND mask 7) n = bit (take_bit 9 w) n" using b[of n] by (cases "n < 7"; cases "n < 9") (auto simp: bit_simps)
  qed
  then show "unat (mi_get_length w) \<le> 4" using \<open>unat x \<le> 4\<close> by simp
  have "\<not> x > 120" using \<open>unat x \<le> 4\<close> by (simp add: word_less_nat_alt)
  then show "messageInfoFromWord w = w" using l by (simp add: messageInfoFromWord_def seL4_MsgMaxLength_def)
  show "mi_set_length (mi_no_caps w) (mi_get_length w) = mi_set_capsUnwrapped w 0"
  proof (rule bit_word_eqI)
    fix i assume "i < LENGTH(64)"
    have "bit (mi_set_length (mi_no_caps w) (mi_get_length w)) i \<longleftrightarrow> (if i < 7 then bit w i else bit w i \<and> \<not> i < 12)"
      using \<open>i < LENGTH(64)\<close> unfolding mi_set_length_def mi_get_length_def m by (auto simp: bit_simps mi_no_caps_bit)
    moreover have "bit (mi_set_capsUnwrapped w 0) i \<longleftrightarrow> bit w i \<and> \<not> (9 \<le> i \<and> i < 12)"
      using \<open>i < LENGTH(64)\<close> unfolding mi_set_capsUnwrapped_def m by (auto simp: bit_simps)
    ultimately show "bit (mi_set_length (mi_no_caps w) (mi_get_length w)) i = bit (mi_set_capsUnwrapped w 0) i"
      using b[of i] by (cases "i < 7"; cases "i < 9") auto
  qed
qed

text \<open>The context after \<open>n\<close> registers from the \<open>i\<close>-th message register on were copied.\<close>

definition regs_from :: "nat \<Rightarrow> nat \<Rightarrow> (nat \<Rightarrow> word_t) \<Rightarrow> (nat \<Rightarrow> word_t) \<Rightarrow> nat \<Rightarrow> word_t" where
  "regs_from i n ca cb = (\<lambda>r. if 2 + i \<le> r \<and> r < 2 + i + n then ca r else cb r)"

lemma regs_from_0: "regs_from i 0 ca cb = cb"
  by (auto simp: regs_from_def fun_eq_iff)

lemma regs_from_Suc: "regs_from (Suc i) n ca (cb(2 + i := ca (2 + i))) = regs_from i (Suc n) ca cb"
  by (auto simp: regs_from_def fun_eq_iff)

lemma copy_mrs_loop:
  assumes "a \<noteq> b" "tcbs s a = Some ta" "2 + i + n \<le> n_contextRegisters"
  shows "tcbs s b = Some tb \<Longrightarrow> fastpath_copy_mrs_loop a b i n s =
    Some (s\<lparr>tcbs := (tcbs s)(b := Some (tb\<lparr>tcbContext := regs_from i n (tcbContext ta) (tcbContext tb)\<rparr>))\<rparr>)"
  using assms
proof (induction n arbitrary: i s tb)
  case 0
  then show ?case by (simp add: regs_from_0 fun_upd_idem)
next
  case (Suc n)
  let ?c = "(tcbContext tb)(2 + i := tcbContext ta (2 + i))"
  let ?s = "s\<lparr>tcbs := (tcbs s)(b := Some (tb\<lparr>tcbContext := ?c\<rparr>))\<rparr>"
  have "fastpath_copy_mrs_loop a b i (Suc n) s = fastpath_copy_mrs_loop a b (Suc i) n ?s"
    using Suc.prems by (simp add: msgRegisters_def getRegister_def setRegister_def)
  also have "\<dots> = Some (?s\<lparr>tcbs := (tcbs ?s)(b := Some (tb\<lparr>tcbContext := ?c\<rparr>\<lparr>tcbContext := regs_from (Suc i) n (tcbContext ta) (tcbContext (tb\<lparr>tcbContext := ?c\<rparr>))\<rparr>))\<rparr>)"
    by (rule Suc.IH) (use Suc.prems in simp_all)
  also have "tcbContext (tb\<lparr>tcbContext := ?c\<rparr>) = ?c" by simp
  also have "regs_from (Suc i) n (tcbContext ta) ?c = regs_from i (Suc n) (tcbContext ta) (tcbContext tb)" by (rule regs_from_Suc)
  also have "?s\<lparr>tcbs := (tcbs ?s)(b := Some (tb\<lparr>tcbContext := ?c\<rparr>\<lparr>tcbContext := regs_from i (Suc n) (tcbContext ta) (tcbContext tb)\<rparr>))\<rparr> =
      s\<lparr>tcbs := (tcbs s)(b := Some (tb\<lparr>tcbContext := regs_from i (Suc n) (tcbContext ta) (tcbContext tb)\<rparr>))\<rparr>" by simp
  finally show ?case .
qed

text \<open>For a short message both ways of copying registers agree.\<close>

lemma fastpath_copy_mrs_short:
  assumes "n \<le> n_msgRegisters" "a \<noteq> b" "tcbs s a = Some ta" "tcbs s b = Some tb"
  shows "fastpath_copy_mrs n a b s = Some (s\<lparr>tcbs := (tcbs s)(b := Some (tb\<lparr>tcbContext := copied_regs n (tcbContext ta) (tcbContext tb)\<rparr>))\<rparr>)"
proof -
  have "n = 0 \<or> n = 1 \<or> n = 2 \<or> n = 3 \<or> n = 4" using assms(1) by (auto simp: n_msgRegisters_def)
  then have "(2 \<le> r \<and> r < 2 + n) = (r \<in> set (take n msgRegisters))" for r by (elim disjE) (auto simp: msgRegisters_def take_Cons')
  then have "regs_from 0 n (tcbContext ta) (tcbContext tb) = copied_regs n (tcbContext ta) (tcbContext tb)"
    by (simp add: copied_regs_def regs_from_def fun_eq_iff)
  then show ?thesis using copy_mrs_loop[OF assms(2,3), of 0 n tb] assms by (simp add: fastpath_copy_mrs_def n_contextRegisters_def n_msgRegisters_def)
qed

lemma copyMRs_short:
  assumes "n \<le> n_msgRegisters" "a \<noteq> b" "tcbs s a = Some ta" "tcbs s b = Some tb"
  shows "copyMRs a sb b rb n s = Some (of_nat n, s\<lparr>tcbs := (tcbs s)(b := Some (tb\<lparr>tcbContext := copied_regs n (tcbContext ta) (tcbContext tb)\<rparr>))\<rparr>)"
proof -
  have "min n n_msgRegisters = n" using assms(1) by simp
  then show ?thesis using copyMRs_regs_fold[OF assms] by (simp add: copyMRs_def)
qed

lemma doIPCTransfer_short:
  assumes ab: "a \<noteq> b" and ta: "tcbs s a = Some ta" and tb: "tcbs s b = Some tb" and nf: "tcbFault ta = Fault_NullFault"
    and buf: "lookupIPCBuffer True b s = Some rb" "lookupIPCBuffer False a s = Some sb"
    and w: "tcbContext ta msgInfoRegister = w" "\<not> fastpath_mi_check w"
  shows "doIPCTransfer a ep badge grant b s = Some (s\<lparr>tcbs := (tcbs s)(b := Some (tb\<lparr>tcbContext :=
    (copied_regs (unat (mi_get_length w)) (tcbContext ta) (tcbContext tb))(msgInfoRegister := mi_set_capsUnwrapped w 0, badgeRegister := badge)\<rparr>))\<rparr>)"
proof -
  note sm = short_message[OF w(2)]
  have n: "unat (mi_get_length w) \<le> n_msgRegisters" using sm(2) by (simp add: n_msgRegisters_def)
  have ex: "lookupExtraCaps s a sb w = Some (Inr [])" using sm(1) by (simp add: lookupExtraCaps_def)
  have tr: "transferCaps w [] ep b rb s' = Some (mi_no_caps w, s')" for s' by (simp add: transferCaps_def Let_def mi_no_caps_def)
  show ?thesis
    using ta buf nf w(1) copyMRs_short[OF n ab ta tb]
    by (simp add: doIPCTransfer_def doNormalTransfer_def getRegister_def setRegister_def Let_def sm(3,4) ex tr wordFromMessageInfo_def)
qed

subsection \<open>The steps of a call, computed\<close>

text \<open>Taking the first thread off an endpoint.\<close>

definition deq_tcbs :: "(ptr \<Rightarrow> tcb option) \<Rightarrow> ptr \<Rightarrow> ptr \<Rightarrow> tcb option" where
  "deq_tcbs m next = (if next = 0 then m else m(next := map_option (\<lambda>t. t\<lparr>tcbEPPrev := 0\<rparr>) (m next)))"

definition deq_ep :: "endpoint \<Rightarrow> ptr \<Rightarrow> endpoint" where
  "deq_ep e next = (if next = 0 then \<lparr>epQueue_head = 0, epQueue_tail = 0, ep_state = EPState_Idle\<rparr> else e\<lparr>epQueue_head := next\<rparr>)"

lemma deq_tcbs_other [simp]: "p \<noteq> next \<Longrightarrow> deq_tcbs m next p = m p"
  by (simp add: deq_tcbs_def)

lemma dequeue_first:
  assumes "tcbs s dest = Some d" "tcbEPPrev d = 0" "tcbEPNext d \<noteq> 0 \<longrightarrow> tcbs s (tcbEPNext d) \<noteq> None"
  shows "tcbEPDequeue dest q s = Some (\<lparr>head = tcbEPNext d, end_ptr = if tcbEPNext d = 0 then 0 else end_ptr q\<rparr>, s\<lparr>tcbs := deq_tcbs (tcbs s) (tcbEPNext d)\<rparr>)"
proof (cases "tcbEPNext d = 0")
  case False
  then obtain u where "tcbs s (tcbEPNext d) = Some u" using assms(3) by blast
  then show ?thesis using False assms(1,2) by (cases q) (simp add: tcbEPDequeue_def deq_tcbs_def)
qed (use assms in \<open>cases q, simp add: tcbEPDequeue_def deq_tcbs_def\<close>)

lemma fp_dequeue_first:
  assumes "eps s p = Some e" "tcbEPNext d \<noteq> 0 \<longrightarrow> tcbs s (tcbEPNext d) \<noteq> None"
  shows "do {
     s \<leftarrow> endpoint_ptr_set_epQueue_head_np p (tcbEPNext d) s;
     (if tcbEPNext d \<noteq> 0 then upd_tcb (tcbEPNext d) (\<lambda>t. t\<lparr>tcbEPPrev := 0\<rparr>) s
           else endpoint_ptr_mset_epQueue_tail_state p 0 EPState_Idle s)
   } = Some (s\<lparr>tcbs := deq_tcbs (tcbs s) (tcbEPNext d), eps := (eps s)(p := Some (deq_ep e (tcbEPNext d)))\<rparr>)"
proof (cases "tcbEPNext d = 0")
  case False
  then obtain u where "tcbs s (tcbEPNext d) = Some u" using assms(2) by blast
  then show ?thesis using False assms(1) by (cases s) (simp add: endpoint_ptr_set_epQueue_head_np_def deq_tcbs_def deq_ep_def)
next
  case True
  then show ?thesis using assms(1)
    by (cases s; cases e) (simp add: endpoint_ptr_set_epQueue_head_np_def endpoint_ptr_mset_epQueue_tail_state_def deq_tcbs_def deq_ep_def)
qed

lemma fp_insert_reply_eq:
  assumes r: "ctes s (TCB_PTR_CTE_PTR cur tcbReply) = Some (reply_master cur)" "ctes s (TCB_PTR_CTE_PTR dest tcbCaller) = Some empty_cte"
    and d: "tcbs s dest = Some d"
  shows "fp_insert_reply cur dest s = Some (s\<lparr>ctes := reply_ctes (ctes s) (blockingIPCCanGrant d) cur dest\<rparr>)"
  using assms reply_slots_apart[OF r]
  by (simp add: fp_insert_reply_def Let_def cap_reply_cap_ptr_new_np_def mdb_node_ptr_set_mdbPrev_np_def
      mdb_node_ptr_mset_mdbNext_mdbRevocable_mdbFirstBadged_def reply_master_def empty_cte_def nullMDBNode_def reply_ctes_def)

lemma lookupIPCBuffer_exists: "tcbs s p \<noteq> None \<Longrightarrow> ctes s (TCB_PTR_CTE_PTR p tcbBuffer) \<noteq> None \<Longrightarrow> \<exists>b. lookupIPCBuffer r p s = Some b"
  by (auto simp: lookupIPCBuffer_def)

text \<open>The context of the receiver after a short message; \<open>w\<close> is the tag.\<close>

definition short_context :: "word_t \<Rightarrow> word_t \<Rightarrow> (nat \<Rightarrow> word_t) \<Rightarrow> (nat \<Rightarrow> word_t) \<Rightarrow> nat \<Rightarrow> word_t" where
  "short_context w badge ca cb = (copied_regs (unat (mi_get_length w)) ca cb)(msgInfoRegister := mi_set_capsUnwrapped w 0, badgeRegister := badge)"

definition call_tcbs :: "(ptr \<Rightarrow> tcb option) \<Rightarrow> ptr \<Rightarrow> ptr \<Rightarrow> tcb \<Rightarrow> tcb \<Rightarrow> (nat \<Rightarrow> word_t) \<Rightarrow> ptr \<Rightarrow> tcb option" where
  "call_tcbs m cur dest t d c = (deq_tcbs m (tcbEPNext d))(
     dest := Some (d\<lparr>tsType := ThreadState_Running, tcbContext := c\<rparr>), cur := Some (t\<lparr>tsType := ThreadState_BlockedOnReply\<rparr>))"

lemma setThreadState_runnable:
  "tcbs s p = Some t \<Longrightarrow> runnable_type ts \<Longrightarrow> setThreadState p ts s = Some (s\<lparr>tcbs := (tcbs s)(p := Some (t\<lparr>tsType := ts\<rparr>))\<rparr>)"
  by (simp add: setThreadState_def scheduleTCB_def isRunnable_def)

lemma setThreadState_decided:
  "tcbs s p = Some t \<Longrightarrow> ksSchedulerAction s \<noteq> 0 \<Longrightarrow> setThreadState p ts s = Some (s\<lparr>tcbs := (tcbs s)(p := Some (t\<lparr>tsType := ts\<rparr>))\<rparr>)"
  by (simp add: setThreadState_def scheduleTCB_def isRunnable_def SchedulerAction_ResumeCurrentThread_def)

lemma sendIPC_call:
  assumes e: "eps s ep = Some e" "ep_state e = EPState_Recv" "epQueue_head e = dest" "dest \<noteq> 0"
    and d: "tcbs s dest = Some d" "tcbEPPrev d = 0" "tcbEPNext d \<noteq> 0 \<longrightarrow> tcbs s (tcbEPNext d) \<noteq> None" "tcbEPNext d \<noteq> dest" "tcbEPNext d \<noteq> cur"
    and t: "tcbs s cur = Some t" "cur \<noteq> dest" "tcbFault t = Fault_NullFault" "tcbContext t msgInfoRegister = w" "\<not> fastpath_mi_check w"
    and g: "cg \<or> cgr"
    and a: "ksSchedulerAction s = 0" "tcbDomain d = ksCurDomain s"
    and r: "ctes s (TCB_PTR_CTE_PTR cur tcbReply) = Some (reply_master cur)" "ctes s (TCB_PTR_CTE_PTR dest tcbCaller) = Some empty_cte"
    and b: "ctes s (TCB_PTR_CTE_PTR cur tcbBuffer) \<noteq> None" "ctes s (TCB_PTR_CTE_PTR dest tcbBuffer) \<noteq> None"
  shows "sendIPC True True badge cg cgr cur ep s = Some (s\<lparr>
     tcbs := call_tcbs (tcbs s) cur dest t d (short_context w badge (tcbContext t) (tcbContext d)),
     eps := (eps s)(ep := Some (deq_ep e (tcbEPNext d))),
     ctes := reply_ctes (ctes s) (blockingIPCCanGrant d) cur dest,
     ksSchedulerAction := dest\<rparr>)"
proof -
  let ?n = "tcbEPNext d"
  let ?m = "deq_tcbs (tcbs s) ?n"
  let ?c = "short_context w badge (tcbContext t) (tcbContext d)"
  define s2 where "s2 = s\<lparr>tcbs := ?m, eps := (eps s)(ep := Some (deq_ep e ?n))\<rparr>"
  define q where "q = \<lparr>head = ?n, end_ptr = if ?n = 0 then 0 else end_ptr (ep_ptr_get_queue e)\<rparr>"
  have q1: "tcbEPDequeue dest (ep_ptr_get_queue e) s = Some (q, s\<lparr>tcbs := ?m\<rparr>)" unfolding q_def by (rule dequeue_first[OF d(1-3)])
  obtain s1 where s1: "ep_ptr_set_queue ep q (s\<lparr>tcbs := ?m\<rparr>) = Some s1"
      "(if head q = 0 then endpoint_ptr_set_state ep EPState_Idle s1 else Some s1) = Some s2"
  proof
    let ?s1 = "s\<lparr>tcbs := ?m, eps := (eps s)(ep := Some (e\<lparr>epQueue_head := head q, epQueue_tail := end_ptr q\<rparr>))\<rparr>"
    show "ep_ptr_set_queue ep q (s\<lparr>tcbs := ?m\<rparr>) = Some ?s1" using e(1) by (cases s) (simp add: ep_ptr_set_queue_def)
    show "(if head q = 0 then endpoint_ptr_set_state ep EPState_Idle ?s1 else Some ?s1) = Some s2"
      by (cases s; cases e) (simp add: endpoint_ptr_set_state_def s2_def q_def deq_ep_def ep_ptr_get_queue_def)
  qed
  have s2: "tcbs s2 dest = Some d" "tcbs s2 cur = Some t" "ctes s2 = ctes s" "ksSchedulerAction s2 = 0" "ksCurDomain s2 = ksCurDomain s"
    using d t a by (simp_all add: s2_def)
  have "\<exists>b. lookupIPCBuffer True dest s2 = Some b" "\<exists>b. lookupIPCBuffer False cur s2 = Some b"
    using s2 b by (simp_all add: lookupIPCBuffer_exists)
  then obtain b1 b2 where buf: "lookupIPCBuffer True dest s2 = Some b1" "lookupIPCBuffer False cur s2 = Some b2" by blast
  let ?s3 = "s2\<lparr>tcbs := (tcbs s2)(dest := Some (d\<lparr>tcbContext := ?c\<rparr>))\<rparr>"
  have tr: "doIPCTransfer cur ep badge cg dest s2 = Some ?s3"
    using doIPCTransfer_short[OF t(2) s2(2,1) t(3) buf t(4,5)] by (simp add: short_context_def)
  let ?s4 = "s2\<lparr>tcbs := (tcbs s2)(dest := Some (d\<lparr>tcbContext := ?c, tsType := ThreadState_Running\<rparr>))\<rparr>"
  have run: "setThreadState dest ThreadState_Running ?s3 = Some ?s4" using setThreadState_runnable[of ?s3 dest] by simp
  have sw: "possibleSwitchTo dest ?s4 = Some (?s4\<lparr>ksSchedulerAction := dest\<rparr>)"
    using a s2 by (simp add: possibleSwitchTo_def SchedulerAction_ResumeCurrentThread_def)
  let ?s5 = "?s4\<lparr>ksSchedulerAction := dest\<rparr>"
  let ?s6 = "?s5\<lparr>tcbs := (tcbs ?s5)(cur := Some (t\<lparr>tsType := ThreadState_BlockedOnReply\<rparr>))\<rparr>"
  have bl: "setThreadState cur ThreadState_BlockedOnReply ?s5 = Some ?s6" using setThreadState_decided[of ?s5 cur t] t(2) s2(2) e(4) by simp
  have "ctes ?s6 (TCB_PTR_CTE_PTR cur tcbReply) = Some (reply_master cur)" "ctes ?s6 (TCB_PTR_CTE_PTR dest tcbCaller) = Some empty_cte" using r s2 by simp_all
  from cteInsert_reply[OF this, of "blockingIPCCanGrant d"]
  have sc: "setupCallerCap cur dest (blockingIPCCanGrant d) ?s5 = Some (?s6\<lparr>ctes := reply_ctes (ctes ?s6) (blockingIPCCanGrant d) cur dest\<rparr>)"
    using bl r s2 by (simp add: setupCallerCap_def Let_def reply_master_def empty_cte_def)
  have "sendIPC True True badge cg cgr cur ep s = Some (?s6\<lparr>ctes := reply_ctes (ctes ?s6) (blockingIPCCanGrant d) cur dest\<rparr>)"
    using e g q1 s1 tr run sw sc by (simp add: sendIPC_def Let_def fun_upd_same del: fun_upd_apply)
  also have "?s6\<lparr>ctes := reply_ctes (ctes ?s6) (blockingIPCCanGrant d) cur dest\<rparr> = s\<lparr>
     tcbs := call_tcbs (tcbs s) cur dest t d ?c, eps := (eps s)(ep := Some (deq_ep e ?n)),
     ctes := reply_ctes (ctes s) (blockingIPCCanGrant d) cur dest, ksSchedulerAction := dest\<rparr>"
    by (cases s; cases d) (simp add: s2_def call_tcbs_def)
  finally show ?thesis .
qed

lemma schedule_switch:
  assumes a: "ksSchedulerAction s = dest" "dest \<noteq> 0" "dest \<noteq> 1" "dest \<noteq> ksCurThread s" "ksCurThread s \<noteq> ksIdleThread s"
    and t: "tcbs s (ksCurThread s) = Some t" "\<not> runnable_type (tsType t)"
    and d: "tcbs s dest = Some d" "runnable_type (tsType d)" "\<not> tcbQueued d"
    and h: "tcbPriority d < tcbPriority t \<longrightarrow> isHighestPrio s (ksCurDomain s) (tcbPriority d) = Some True"
    and c: "ctes s (TCB_PTR_CTE_PTR dest tcbVTable) \<noteq> None"
  shows "schedule s = Some (s\<lparr>ksArch := (ksArch s)\<lparr>ttbr := vm_root s dest\<rparr>, ksCurThread := dest, ksSchedulerAction := 0\<rparr>)"
proof -
  have sw: "switchToThread dest s = Some (s\<lparr>ksArch := (ksArch s)\<lparr>ttbr := vm_root s dest\<rparr>, ksCurThread := dest\<rparr>)"
    using d by (simp add: switchToThread_def Arch_switchToThread_def setVMRoot_eq[OF c] tcbSchedDequeue_def)
  have "scheduleCandidate False dest s = switchToThread dest s"
    using a t d h by (auto simp: scheduleCandidate_def isRunnable_def Let_def)
  then show ?thesis using a t sw
    by (simp add: schedule_def isRunnable_def SchedulerAction_ResumeCurrentThread_def SchedulerAction_ChooseNewThread_def)
qed

lemma fastpath_call_commit_eq:
  assumes e: "eps s ep = Some e"
    and d: "tcbs s dest = Some d" "tcbEPNext d \<noteq> 0 \<longrightarrow> tcbs s (tcbEPNext d) \<noteq> None" "tcbEPNext d \<noteq> dest" "tcbEPNext d \<noteq> cur"
    and t: "ksCurThread s = cur" "tcbs s cur = Some t" "cur \<noteq> dest" "\<not> fastpath_mi_check w"
    and r: "ctes s (TCB_PTR_CTE_PTR cur tcbReply) = Some (reply_master cur)" "ctes s (TCB_PTR_CTE_PTR dest tcbCaller) = Some empty_cte"
  shows "fastpath_call_commit ep dest cap_pd asid w s = Some (s\<lparr>
     tcbs := (deq_tcbs (tcbs s) (tcbEPNext d))(
        dest := Some (d\<lparr>tsType := ThreadState_Running, blockingObject := 0,
          tcbContext := copied_regs (unat (mi_get_length w)) (tcbContext t) (tcbContext d)\<rparr>),
        cur := Some (t\<lparr>tsType := ThreadState_BlockedOnReply, blockingObject := 0\<rparr>)),
     eps := (eps s)(ep := Some (deq_ep e (tcbEPNext d))),
     ctes := reply_ctes (ctes s) (blockingIPCCanGrant d) cur dest,
     ksArch := (ksArch s)\<lparr>ttbr := (asid AND 0xffff, pptr_to_paddr cap_pd)\<rparr>, ksCurThread := dest\<rparr>)"
proof -
  let ?m = "deq_tcbs (tcbs s) (tcbEPNext d)"
  let ?n = "unat (mi_get_length w)"
  define s2 where "s2 = s\<lparr>tcbs := ?m, eps := (eps s)(ep := Some (deq_ep e (tcbEPNext d)))\<rparr>"
  have dq: "Option.bind (endpoint_ptr_set_epQueue_head_np ep (tcbEPNext d) s)
      (\<lambda>s. if tcbEPNext d \<noteq> 0 then upd_tcb (tcbEPNext d) (\<lambda>t. t\<lparr>tcbEPPrev := 0\<rparr>) s
           else endpoint_ptr_mset_epQueue_tail_state ep 0 EPState_Idle s) = Some s2"
    unfolding s2_def by (rule fp_dequeue_first[OF e d(2)])
  have s2: "tcbs s2 dest = Some d" "tcbs s2 cur = Some t" "ctes s2 = ctes s" using d t by (simp_all add: s2_def)
  let ?t = "t\<lparr>tsType := ThreadState_BlockedOnReply, blockingObject := 0\<rparr>"
  let ?s3 = "s2\<lparr>tcbs := (tcbs s2)(cur := Some ?t)\<rparr>"
  have s3: "thread_state_ptr_set_tsType_np cur ThreadState_BlockedOnReply s2 = Some ?s3" using s2 by (simp add: thread_state_ptr_set_tsType_np_def)
  have "ctes ?s3 (TCB_PTR_CTE_PTR cur tcbReply) = Some (reply_master cur)" "ctes ?s3 (TCB_PTR_CTE_PTR dest tcbCaller) = Some empty_cte"
    "tcbs ?s3 dest = Some d" using r s2 t(3) by simp_all
  from fp_insert_reply_eq[OF this]
  have s4: "fp_insert_reply cur dest ?s3 = Some (?s3\<lparr>ctes := reply_ctes (ctes s) (blockingIPCCanGrant d) cur dest\<rparr>)" using s2(3) by simp
  let ?s4 = "?s3\<lparr>ctes := reply_ctes (ctes s) (blockingIPCCanGrant d) cur dest\<rparr>"
  have n: "?n \<le> n_msgRegisters" using short_message(2)[OF t(4)] by (simp add: n_msgRegisters_def)
  let ?s5 = "?s4\<lparr>tcbs := (tcbs ?s4)(dest := Some (d\<lparr>tcbContext := copied_regs ?n (tcbContext t) (tcbContext d)\<rparr>))\<rparr>"
  have s5: "fastpath_copy_mrs ?n cur dest ?s4 = Some ?s5"
    using fastpath_copy_mrs_short[OF n t(3), of ?s4 ?t d] s2 t(3) by simp
  have s6: "thread_state_ptr_set_tsType_np dest ThreadState_Running ?s5 =
      Some (?s5\<lparr>tcbs := (tcbs ?s5)(dest := Some (d\<lparr>tcbContext := copied_regs ?n (tcbContext t) (tcbContext d), tsType := ThreadState_Running, blockingObject := 0\<rparr>))\<rparr>)"
    by (simp add: thread_state_ptr_set_tsType_np_def)
  have "fastpath_call_commit ep dest cap_pd asid w s = Option.bind (Option.bind (endpoint_ptr_set_epQueue_head_np ep (tcbEPNext d) s)
      (\<lambda>s. if tcbEPNext d \<noteq> 0 then upd_tcb (tcbEPNext d) (\<lambda>t. t\<lparr>tcbEPPrev := 0\<rparr>) s
           else endpoint_ptr_mset_epQueue_tail_state ep 0 EPState_Idle s))
      (\<lambda>s. do {
         s \<leftarrow> thread_state_ptr_set_tsType_np cur ThreadState_BlockedOnReply s;
         s \<leftarrow> fp_insert_reply cur dest s;
         s \<leftarrow> fastpath_copy_mrs ?n cur dest s;
         s \<leftarrow> thread_state_ptr_set_tsType_np dest ThreadState_Running s;
         Some (switchToThread_fp dest cap_pd asid s)
       })"
    using d(1) t(1) by (simp add: fastpath_call_commit_def Let_def)
  also have "\<dots> = Some (switchToThread_fp dest cap_pd asid
      (?s5\<lparr>tcbs := (tcbs ?s5)(dest := Some (d\<lparr>tcbContext := copied_regs ?n (tcbContext t) (tcbContext d), tsType := ThreadState_Running, blockingObject := 0\<rparr>))\<rparr>))"
    unfolding dq Option.bind.bind_lunit s3 s4 s5 s6 ..
  also have "\<dots> = Some (s\<lparr>
     tcbs := ?m(dest := Some (d\<lparr>tsType := ThreadState_Running, blockingObject := 0, tcbContext := copied_regs ?n (tcbContext t) (tcbContext d)\<rparr>), cur := Some ?t),
     eps := (eps s)(ep := Some (deq_ep e (tcbEPNext d))), ctes := reply_ctes (ctes s) (blockingIPCCanGrant d) cur dest,
     ksArch := (ksArch s)\<lparr>ttbr := (asid AND 0xffff, pptr_to_paddr cap_pd)\<rparr>, ksCurThread := dest\<rparr>)"
    using t(3) by (cases s; cases d) (simp add: switchToThread_fp_def setCurrentUserVSpaceRoot_def upd_arch_def s2_def fun_upd_twist)
  finally show ?thesis .
qed

subsection \<open>The fast path of a call against the slow path\<close>

text \<open>
  The capability of a running thread's reply slot is its reply master, without a reply capability derived
  from it, and a thread that waits for a message has an empty caller slot.
\<close>

definition valid_replies :: "kernel_state \<Rightarrow> bool" where
  "valid_replies s \<longleftrightarrow>
     (\<forall>p t. tcbs s p = Some t \<and> runnable_type (tsType t) \<longrightarrow> ctes s (TCB_PTR_CTE_PTR p tcbReply) = Some (reply_master p)) \<and>
     (\<forall>p t. tcbs s p = Some t \<and> tsType t = ThreadState_BlockedOnReceive \<longrightarrow> ctes s (TCB_PTR_CTE_PTR p tcbCaller) = Some empty_cte)"

text \<open>Endpoint capabilities name endpoints, and address space identifiers have 16 bits.\<close>

definition valid_cap_objs :: "kernel_state \<Rightarrow> bool" where
  "valid_cap_objs s \<longleftrightarrow> (\<forall>p c. ctes s p = Some c \<longrightarrow> (case cte_cap c of
     EndpointCap _ _ _ _ _ ep \<Rightarrow> eps s ep \<noteq> None
   | ArchCap (VSpaceCap asid _ _) \<Rightarrow> asid < 0x10000
   | _ \<Rightarrow> True))"

text \<open>
  A caller slot is empty or holds the only reply capability derived from the reply master of a thread that
  is blocked on the reply.
\<close>

definition called_master :: "ptr \<Rightarrow> ptr \<Rightarrow> cte" where
  "called_master q slot = \<lparr>cte_cap = ReplyCap True True q, cteMDBNode = \<lparr>mdbNext = slot, mdbRevocable = True, mdbFirstBadged = True, mdbPrev = 0\<rparr>\<rparr>"

definition reply_cte :: "bool \<Rightarrow> ptr \<Rightarrow> cte" where
  "reply_cte g q = \<lparr>cte_cap = ReplyCap g False q, cteMDBNode = \<lparr>mdbNext = 0, mdbRevocable = False, mdbFirstBadged = False, mdbPrev = TCB_PTR_CTE_PTR q tcbReply\<rparr>\<rparr>"

definition valid_callers :: "kernel_state \<Rightarrow> bool" where
  "valid_callers s \<longleftrightarrow> ctes s 0 = None \<and> (\<forall>p t. tcbs s p = Some t \<longrightarrow>
     ctes s (TCB_PTR_CTE_PTR p tcbCaller) = Some empty_cte \<or>
     (\<exists>g q d. ctes s (TCB_PTR_CTE_PTR p tcbCaller) = Some (reply_cte g q) \<and>
        ctes s (TCB_PTR_CTE_PTR q tcbReply) = Some (called_master q (TCB_PTR_CTE_PTR p tcbCaller)) \<and>
        tcbs s q = Some d \<and> tsType d = ThreadState_BlockedOnReply))"

definition valid_bound :: "kernel_state \<Rightarrow> bool" where
  "valid_bound s \<longleftrightarrow> (\<forall>p t. tcbs s p = Some t \<and> tcbBoundNotification t \<noteq> 0 \<longrightarrow> ntfns s (tcbBoundNotification t) \<noteq> None)"

text \<open>The state in which the kernel is entered by a running thread.\<close>

definition kernel_entry :: "kernel_state \<Rightarrow> (wait_obj \<Rightarrow> ptr list) \<Rightarrow> bool" where
  "kernel_entry s W \<longleftrightarrow> valid_sched s \<and> valid_ipc s W \<and> valid_cspace s \<and> valid_replies s \<and> valid_callers s \<and> valid_cap_objs s \<and> valid_bound s \<and>
     ksSchedulerAction s = SchedulerAction_ResumeCurrentThread \<and> map_option tsType (tcbs s (ksCurThread s)) = Some ThreadState_Running"

text \<open>
  The object of a thread that waits for none has no meaning: the slow path keeps the pointer and the fast
  paths clear it. The registers passed in hardware registers belong to the context of the current thread.
\<close>

definition forget_object :: "tcb \<Rightarrow> tcb" where
  "forget_object t = (if waits t = None then t\<lparr>blockingObject := 0\<rparr> else t)"

definition same_but_objects :: "kernel_state \<Rightarrow> kernel_state \<Rightarrow> bool" where
  "same_but_objects s s' \<longleftrightarrow>
     s\<lparr>tcbs := \<lambda>p. map_option forget_object (tcbs s p)\<rparr> = s'\<lparr>tcbs := \<lambda>p. map_option forget_object (tcbs s' p)\<rparr>"

definition restored :: "word_t \<Rightarrow> word_t \<Rightarrow> kernel_state \<Rightarrow> kernel_state" where
  "restored badge info s = s\<lparr>tcbs := (tcbs s)(ksCurThread s :=
     map_option (\<lambda>t. t\<lparr>tcbContext := (tcbContext t)(msgInfoRegister := info, badgeRegister := badge)\<rparr>) (tcbs s (ksCurThread s)))\<rparr>"

lemma forget_object_simps:
  "forget_object (t\<lparr>tsType := ThreadState_Running, blockingObject := 0, tcbContext := c\<rparr>) = forget_object (t\<lparr>tsType := ThreadState_Running, tcbContext := c\<rparr>)"
  "forget_object (t\<lparr>tsType := ThreadState_BlockedOnReply, blockingObject := 0\<rparr>) = forget_object (t\<lparr>tsType := ThreadState_BlockedOnReply\<rparr>)"
  by (cases t; simp add: forget_object_def waits_def)+

lemma asid_16: "asid < 0x10000 \<Longrightarrow> (asid AND 0xffff :: word_t) = asid"
proof -
  assume "asid < 0x10000"
  then have "unat asid < 2 ^ 16" by (simp add: word_less_nat_alt)
  then have "take_bit 16 (unat asid) = unat asid" by (rule take_bit_nat_eq_self)
  then have "take_bit 16 asid = asid" by (intro word_unat_eq_iff[THEN iffD2]) (simp add: unsigned_take_bit_eq)
  moreover have "(0xffff :: word_t) = mask 16" by (simp add: mask_eq_exp_minus_1)
  ultimately show ?thesis by (simp add: take_bit_eq_mask)
qed

lemma isHighestPrio_cong:
  "ksReadyQueuesL1Bitmap s' = ksReadyQueuesL1Bitmap s \<Longrightarrow> ksReadyQueuesL2Bitmap s' = ksReadyQueuesL2Bitmap s \<Longrightarrow>
   isHighestPrio s' dm p = isHighestPrio s dm p"
  by (simp add: isHighestPrio_def getHighestPrio_def)

text \<open>What the invariants say about the first thread that waits on an endpoint.\<close>

lemma first_receiver:
  assumes k: "kernel_entry s W" and e: "eps s ep = Some e" "ep_state e = EPState_Recv"
  obtains d where "tcbs s (epQueue_head e) = Some d" "tsType d = ThreadState_BlockedOnReceive" "\<not> tcbQueued d" "epQueue_head e \<noteq> 0" "epQueue_head e \<noteq> 1"
    "epQueue_head e \<noteq> ksCurThread s" "tcbEPPrev d = 0" "tcbEPNext d \<noteq> 0 \<longrightarrow> tcbs s (tcbEPNext d) \<noteq> None"
    "tcbEPNext d \<noteq> epQueue_head e" "tcbEPNext d \<noteq> ksCurThread s" "ctes s (TCB_PTR_CTE_PTR (epQueue_head e) tcbCaller) = Some empty_cte"
proof -
  have v: "valid_sched s" "valid_ipc s W" using k by (simp_all add: kernel_entry_def)
  obtain y ys where w: "W (EP ep) = y # ys" using valid_ipcD(4)[OF v(2) wq_ep[OF e(1)]] e(2) by (cases "W (EP ep)") (auto simp: ep_kind_def)
  have q: "ep_queue s (ep_ptr_get_queue e) ([] @ y # ys)" using valid_ipcD(3)[OF v(2) wq_ep[OF e(1)]] w by simp
  have wk: "valid_wq s (EP ep) (W (EP ep))" using valid_ipcD(1)[OF v(2)] .
  then obtain d where d: "tcbs s y = Some d" "waits d = Some (WRecv, EP ep)" using w e by (auto simp: valid_wq_def wq_def ep_kind_def)
  then have ty: "tsType d = ThreadState_BlockedOnReceive" by (cases "tsType d") (auto simp: waits_def)
  note nb = ep_neighbours[OF q d(1)]
  have y: "epQueue_head e = y" using nb(8) by (simp add: ep_ptr_get_queue_def)
  have cur: "x \<noteq> ksCurThread s" if "x \<in> set (W (EP ep))" for x
    using waiting_not_sched(1)[OF v that] k by (auto simp: kernel_entry_def)
  have z: "tcbs s 0 = None" using v(1) tcb_valid[of "{}" s 0] by (fastforce simp: valid_sched_def)
  have c0: "ksCurThread s \<noteq> 0" using k z by (auto simp: kernel_entry_def)
  show thesis
  proof (rule that[of d, unfolded y])
    show "tcbs s y = Some d" "tsType d = ThreadState_BlockedOnReceive" "y \<noteq> 0" "tcbEPPrev d = 0" using d ty nb by auto
    show "\<not> tcbQueued d" using waiting_not_sched(2)[OF v, of y "EP ep"] w d(1) by (auto simp: qset_def)
    show "y \<noteq> 1" using v(1) d(1) by (auto simp: valid_sched_def base_sched_def)
    show "y \<noteq> ksCurThread s" using cur w by simp
    show "tcbEPNext d \<noteq> 0 \<longrightarrow> tcbs s (tcbEPNext d) \<noteq> None" using nb(2) ep_queue_tcb[OF q, of "hd ys"] by (cases ys) auto
    show "tcbEPNext d \<noteq> y" using nb(2,4,5) by (cases ys) auto
    show "tcbEPNext d \<noteq> ksCurThread s" using nb(2) cur w c0 by (cases ys) auto
    show "ctes s (TCB_PTR_CTE_PTR y tcbCaller) = Some empty_cte" using k d ty by (auto simp: kernel_entry_def valid_replies_def)
  qed
qed

lemma entry_slots:
  assumes "kernel_entry s W" "tcbs s p \<noteq> None"
  shows "ctes s (TCB_PTR_CTE_PTR p tcbCTable) \<noteq> None" "ctes s (TCB_PTR_CTE_PTR p tcbVTable) \<noteq> None" "ctes s (TCB_PTR_CTE_PTR p tcbBuffer) \<noteq> None"
  using assms unfolding kernel_entry_def valid_sched_def base_sched_def thread_slots_def
  by (auto simp: tcbCTable_def tcbVTable_def tcbBuffer_def tcbCNodeEntries_def)

lemma lookup_slot_of_cap: "lookupCap s thread cptr = Some (Inr cap) \<Longrightarrow> \<exists>slot. lookupCapAndSlot s thread cptr = Some (Inr (slot, cap))"
proof -
  assume "lookupCap s thread cptr = Some (Inr cap)"
  then show ?thesis unfolding lookupCap_def lookupCapAndSlot_def
    by (cases "lookupSlot s thread cptr") (auto split: sum.split_asm)
qed

lemma vm_root_mapped:
  assumes "ctes s' (TCB_PTR_CTE_PTR p tcbVTable) = Some v" "cte_cap v = ArchCap (VSpaceCap asid root True)" "asid_map_is s asid root" "ksArch s' = ksArch s"
  shows "vm_root s' p = (asid, pptr_to_paddr root)"
proof -
  have "findMapForASID s' asid = findMapForASID s asid" unfolding findMapForASID_def assms(4) ..
  then have "findVSpaceForASID s' asid = Inr root" using assms(3) by (simp add: asid_map_is_def findVSpaceForASID_def)
  then show ?thesis using assms(1,2) by (simp add: vm_root_def)
qed

lemma vtable_reply:
  assumes "ctes s (TCB_PTR_CTE_PTR dest tcbVTable) = Some v" "cte_cap v = ArchCap c"
    and "ctes s (TCB_PTR_CTE_PTR cur tcbReply) = Some (reply_master cur)" "ctes s (TCB_PTR_CTE_PTR dest tcbCaller) = Some empty_cte"
  shows "reply_ctes (ctes s) g cur dest (TCB_PTR_CTE_PTR dest tcbVTable) = Some v"
proof -
  have "TCB_PTR_CTE_PTR dest tcbVTable \<noteq> TCB_PTR_CTE_PTR cur tcbReply" "TCB_PTR_CTE_PTR dest tcbVTable \<noteq> TCB_PTR_CTE_PTR dest tcbCaller"
    using assms by (auto simp: reply_master_def empty_cte_def)
  then show ?thesis using assms(1) by (simp add: reply_ctes_def)
qed

lemma same_but_objectsI:
  assumes "\<And>p. map_option forget_object (tcbs s p) = map_option forget_object (tcbs s' p)" "s\<lparr>tcbs := Map.empty\<rparr> = s'\<lparr>tcbs := Map.empty\<rparr>"
  shows "same_but_objects s s'"
proof -
  let ?m = "\<lambda>p. map_option forget_object (tcbs s p)"
  have "(s\<lparr>tcbs := Map.empty\<rparr>)\<lparr>tcbs := ?m\<rparr> = (s'\<lparr>tcbs := Map.empty\<rparr>)\<lparr>tcbs := ?m\<rparr>" using assms(2) by (rule arg_cong)
  moreover have "?m = (\<lambda>p. map_option forget_object (tcbs s' p))" using assms(1) by blast
  ultimately show ?thesis unfolding same_but_objects_def by simp
qed

lemma call_agrees:
  assumes k: "kernel_entry s W" and t: "tcbs s (ksCurThread s) = Some t" "tcbFault t = Fault_NullFault"
    and regs: "tcbContext t capRegister = cptr" "tcbContext t msgInfoRegister = w" "\<not> fastpath_mi_check w"
    and cap: "lookupCap s (ksCurThread s) cptr = Some (Inr (EndpointCap badge cgr cg True cr ep))" "cg \<or> cgr"
    and e: "eps s ep = Some e" "ep_state e = EPState_Recv" "epQueue_head e = dest"
    and d: "tcbs s dest = Some d" "tcbDomain d = ksCurDomain s"
    and v: "ctes s (TCB_PTR_CTE_PTR dest tcbVTable) = Some v" "cte_cap v = ArchCap (VSpaceCap asid root True)" "asid_map_is s asid root"
    and h: "tcbPriority d < tcbPriority t \<longrightarrow> isHighestPrio s (ksCurDomain s) (tcbPriority d) = Some True"
  shows "\<exists>s' s2. fastpath_call_commit ep dest root asid w s = Some s' \<and> handleSyscall decode maxIRQ active SysCall s = Some s2 \<and>
    same_but_objects (restored badge (mi_set_capsUnwrapped w 0) s') s2"
proof -
  let ?cur = "ksCurThread s"
  obtain d' where fd: "tcbs s dest = Some d'" "tsType d' = ThreadState_BlockedOnReceive" "\<not> tcbQueued d'" "dest \<noteq> 0" "dest \<noteq> 1"
    "dest \<noteq> ?cur" "tcbEPPrev d' = 0" "tcbEPNext d' \<noteq> 0 \<longrightarrow> tcbs s (tcbEPNext d') \<noteq> None"
    "tcbEPNext d' \<noteq> dest" "tcbEPNext d' \<noteq> ?cur" "ctes s (TCB_PTR_CTE_PTR dest tcbCaller) = Some empty_cte"
    using first_receiver[OF k e(1,2)] unfolding e(3) by metis
  have dd: "d' = d" using d(1) fd(1) by simp
  note fd = fd[unfolded dd]
  have ty: "tsType t = ThreadState_Running" using k t(1) by (simp add: kernel_entry_def)
  have act: "ksSchedulerAction s = 0" using k by (simp add: kernel_entry_def SchedulerAction_ResumeCurrentThread_def)
  have idle: "?cur \<noteq> ksIdleThread s" using k t(1) ty by (auto simp: kernel_entry_def valid_sched_def base_sched_def)
  have rm: "ctes s (TCB_PTR_CTE_PTR ?cur tcbReply) = Some (reply_master ?cur)" using k t(1) ty by (auto simp: kernel_entry_def valid_replies_def)
  have sl: "ctes s (TCB_PTR_CTE_PTR ?cur tcbBuffer) \<noteq> None" "ctes s (TCB_PTR_CTE_PTR dest tcbBuffer) \<noteq> None" using entry_slots[OF k] t(1) d(1) by simp_all
  have as: "asid AND 0xffff = asid" using k v by (intro asid_16) (fastforce simp: kernel_entry_def valid_cap_objs_def split: cap.splits arch_cap.splits)
  let ?c = "short_context w badge (tcbContext t) (tcbContext d)"
  let ?E = "(eps s)(ep := Some (deq_ep e (tcbEPNext d)))"
  let ?C = "reply_ctes (ctes s) (blockingIPCCanGrant d) ?cur dest"
  let ?t1 = "t\<lparr>tsType := ThreadState_Restart\<rparr>"
  define s1 where "s1 = s\<lparr>tcbs := (tcbs s)(?cur := Some ?t1)\<rparr>"
  have r1: "setThreadState ?cur ThreadState_Restart s = Some s1" using setThreadState_runnable[of s ?cur t] t(1) by (simp add: s1_def)
  let ?s2 = "s1\<lparr>tcbs := call_tcbs (tcbs s1) ?cur dest ?t1 d ?c, eps := ?E, ctes := ?C, ksSchedulerAction := dest\<rparr>"
  have send: "sendIPC True True badge cg cgr ?cur ep s1 = Some ?s2"
    using sendIPC_call[of s1 ep e dest d ?cur ?t1 w cg cgr badge] e d t regs fd rm sl act cap(2) by (auto simp: s1_def)
  obtain slot where slot: "lookupCapAndSlot s ?cur cptr = Some (Inr (slot, EndpointCap badge cgr cg True cr ep))" using lookup_slot_of_cap[OF cap(1)] by blast
  obtain b where b: "lookupIPCBuffer False ?cur s = Some b" using lookupIPCBuffer_exists[of s ?cur] t(1) sl by auto
  note sm = short_message[OF regs(3)]
  have ex: "lookupExtraCaps s ?cur b w = Some (Inr [])" using sm(1) by (simp add: lookupExtraCaps_def)
  have cur2: "tcbs ?s2 ?cur = Some (t\<lparr>tsType := ThreadState_BlockedOnReply\<rparr>)" by (simp add: call_tcbs_def)
  have "handleInvocation decode True True s = Some (False, ?s2)"
    using slot b ex t(1) regs r1 send cur2
    by (simp add: handleInvocation_def getRegister_def Let_def sm(3) decodeInvocation_def performInvocation_Endpoint_def handleInvocation_finish_def s1_def)
  moreover
  let ?d = "d\<lparr>tsType := ThreadState_Running, tcbContext := ?c\<rparr>"
  have t2: "tcbs ?s2 dest = Some ?d" using fd by (simp add: call_tcbs_def)
  have vt: "vm_root ?s2 dest = (asid, pptr_to_paddr root)" 
    by (rule vm_root_mapped[OF _ v(2,3)]) (use vtable_reply[OF v(1,2) rm fd(11)] in \<open>simp_all add: s1_def\<close>)
  have cv: "ctes ?s2 (TCB_PTR_CTE_PTR dest tcbVTable) \<noteq> None" using v(1) by (simp add: reply_ctes_def)
  have "isHighestPrio ?s2 (ksCurDomain ?s2) (tcbPriority ?d) = isHighestPrio s (ksCurDomain s) (tcbPriority d)" 
    using isHighestPrio_cong[of ?s2 s "ksCurDomain s" "tcbPriority d"] by (simp add: s1_def)
  then have "schedule ?s2 = Some (?s2\<lparr>ksArch := (ksArch ?s2)\<lparr>ttbr := vm_root ?s2 dest\<rparr>, ksCurThread := dest, ksSchedulerAction := 0\<rparr>)"
    by (intro schedule_switch[where t = "t\<lparr>tsType := ThreadState_BlockedOnReply\<rparr>" and d = ?d]) (use h cur2 t2 cv fd idle in \<open>simp_all add: s1_def\<close>)
  ultimately have "handleSyscall decode maxIRQ active SysCall s = Some (?s2\<lparr>ksArch := (ksArch ?s2)\<lparr>ttbr := vm_root ?s2 dest\<rparr>, ksCurThread := dest, ksSchedulerAction := 0\<rparr>)"
    using t2 by (simp add: handleSyscall_def handlePreempted_def schedule_activate_def activateThread_def)
  moreover note fastpath_call_commit_eq[OF e(1) d(1) fd(8,9,10) refl t(1) fd(6)[symmetric] regs(3) rm fd(11), of root asid]
  moreover have "same_but_objects (restored badge (mi_set_capsUnwrapped w 0) (s\<lparr>
     tcbs := (deq_tcbs (tcbs s) (tcbEPNext d))(
        dest := Some (d\<lparr>tsType := ThreadState_Running, blockingObject := 0,
          tcbContext := copied_regs (unat (mi_get_length w)) (tcbContext t) (tcbContext d)\<rparr>),
        ?cur := Some (t\<lparr>tsType := ThreadState_BlockedOnReply, blockingObject := 0\<rparr>)),
     eps := ?E, ctes := ?C, ksArch := (ksArch s)\<lparr>ttbr := (asid AND 0xffff, pptr_to_paddr root)\<rparr>, ksCurThread := dest\<rparr>))
     (?s2\<lparr>ksArch := (ksArch ?s2)\<lparr>ttbr := vm_root ?s2 dest\<rparr>, ksCurThread := dest, ksSchedulerAction := 0\<rparr>)" (is "same_but_objects (restored _ _ ?f) ?r")
  proof (rule same_but_objectsI)
    fix p
    show "map_option forget_object (tcbs (restored badge (mi_set_capsUnwrapped w 0) ?f) p) = map_option forget_object (tcbs ?r p)"
      by (cases "p = dest"; cases "p = ?cur"; cases "p = tcbEPNext d") (use fd t(1) in \<open>auto simp: restored_def call_tcbs_def s1_def forget_object_simps short_context_def deq_tcbs_def\<close>)
  qed (use act vt as in \<open>cases s; simp add: restored_def s1_def\<close>)
  ultimately show ?thesis by blast
qed

definition fp_agrees :: "decoder \<Rightarrow> irq_t \<Rightarrow> irq_t option \<Rightarrow> syscall \<Rightarrow> kernel_state \<Rightarrow> fp_outcome \<times> kernel_state \<Rightarrow> bool" where
  "fp_agrees decode maxIRQ active sys s r \<longleftrightarrow> (case r of
     (Slowpath sys', s') \<Rightarrow> sys' = sys \<and> s' = s
   | (Restore badge info, s') \<Rightarrow>
       succeeds (handleSyscall decode maxIRQ active sys s) (same_but_objects (restored badge info s')))"

lemma fp_agrees_slow [simp]: "fp_agrees decode maxIRQ active sys s (Slowpath sys, s)"
  by (simp add: fp_agrees_def)

text \<open>What the fast paths of system calls have in common.\<close>

locale fast_path =
  fixes fp :: "cptr_t \<Rightarrow> word_t \<Rightarrow> kernel_state \<Rightarrow> (fp_outcome \<times> kernel_state) option" and sys :: syscall
  assumes agrees: "kernel_entry s W \<Longrightarrow> tcbs s (ksCurThread s) = Some t \<Longrightarrow> tcbContext t capRegister = cptr \<Longrightarrow> tcbContext t msgInfoRegister = w \<Longrightarrow>
    succeeds (fp cptr w s) (fp_agrees decode maxIRQ active sys s)"
begin

lemma slowpath:
  assumes "kernel_entry s W" "tcbs s (ksCurThread s) = Some t" "tcbContext t capRegister = cptr" "tcbContext t msgInfoRegister = w"
  shows "fp cptr w s = Some (Slowpath sys, s) \<or>
    (\<exists>badge info s' s2. fp cptr w s = Some (Restore badge info, s') \<and> handleSyscall decode maxIRQ active sys s = Some s2 \<and> same_but_objects (restored badge info s') s2)"
proof -
  obtain out s' where r: "fp cptr w s = Some (out, s')" "fp_agrees decode maxIRQ active sys s (out, s')"
    using agrees[OF assms, of decode maxIRQ active] by (auto simp: succeeds_def)
  then show ?thesis by (cases out) (auto simp: fp_agrees_def succeeds_def)
qed

end

lemma lookup_fp_cap:
  assumes k: "kernel_entry s W" and t: "tcbs s thread \<noteq> None"
  obtains root cap where "ctes s (TCB_PTR_CTE_PTR thread tcbCTable) = Some root" "lookup_fp s (cte_cap root) cptr = Some cap"
    "cap \<noteq> NullCap \<Longrightarrow> lookupCap s thread cptr = Some (Inr cap)"
    "\<And>b cgr cg cs cr ep. cap = EndpointCap b cgr cg cs cr ep \<Longrightarrow> eps s ep \<noteq> None"
proof -
  have v: "valid_cspace s" "valid_cap_objs s" using k by (simp_all add: kernel_entry_def)
  obtain root where root: "ctes s (TCB_PTR_CTE_PTR thread tcbCTable) = Some root" using entry_slots(1)[OF k t] by blast
  obtain r where r: "lookupCap s thread cptr = Some r" "lookup_fp s (cte_cap root) cptr = Some (case r of Inl _ \<Rightarrow> NullCap | Inr cap \<Rightarrow> cap)"
    using lookup_fp_eq[OF v(1) root] by blast
  have ep: "eps s ep \<noteq> None" if q: "r = Inr (EndpointCap b cgr cg cs cr ep)" for b cgr cg cs cr ep
  proof -
    obtain slot where "ctes s slot \<noteq> None" "map_option cte_cap (ctes s slot) = Some (EndpointCap b cgr cg cs cr ep)"
      using r(1) unfolding lookupCap_def q by (cases "lookupSlot s thread cptr") (auto split: sum.split_asm)
    then obtain c where "ctes s slot = Some c" "cte_cap c = EndpointCap b cgr cg cs cr ep" by auto
    then show ?thesis using v(2) by (fastforce simp: valid_cap_objs_def)
  qed
  show thesis
  proof (cases r)
    case (Inr cap)
    show ?thesis by (rule that[OF root, of cap]) (use r Inr ep in auto)
  qed (use that[OF root, of NullCap] r in auto)
qed

lemma valid_vtable:
  assumes "isValidVTableRoot_fp cap"
  obtains asid root where "cap = ArchCap (VSpaceCap asid root True)" "cap_vspace_cap_get cap = Some (asid, root)"
proof -
  obtain asid root where "cap = ArchCap (VSpaceCap asid root True)"
    using assms by (auto simp: isValidVTableRoot_fp_def split: cap.split_asm arch_cap.split_asm)
  then show thesis using that by (simp add: cap_vspace_cap_get_def)
qed

lemma domain_guard:
  assumes k: "kernel_entry s W" and d: "tcbs s p = Some d"
  shows "(if numDomains s > 1 then ksCurDomain s else 0) = ksCurDomain s" "\<not> (tcbDomain d \<noteq> ksCurDomain s \<and> numDomains s > 1) \<Longrightarrow> tcbDomain d = ksCurDomain s"
proof -
  have b: "base_sched {} s" using k by (simp add: kernel_entry_def valid_sched_def)
  have c: "ksCurDomain s < numDomains s" using b by (simp add: base_sched_def valid_dom_def)
  have dd: "tcbDomain d < numDomains s" using tcb_valid[OF b d] by (auto simp: valid_tcb_def)
  show "(if numDomains s > 1 then ksCurDomain s else 0) = ksCurDomain s" using c by (auto simp: word_less_nat_alt unat_eq_0 simp flip: unat_0_iff)
  show "tcbDomain d = ksCurDomain s" if "\<not> (tcbDomain d \<noteq> ksCurDomain s \<and> numDomains s > 1)"
    using c dd that by (cases "unat (numDomains s) \<le> 1") (auto simp: word_less_nat_alt word_unat_eq_iff)
qed

lemma fastpath_call_agrees:
  assumes k: "kernel_entry s W" and t: "tcbs s (ksCurThread s) = Some t"
    and regs: "tcbContext t capRegister = cptr" "tcbContext t msgInfoRegister = w"
  shows "succeeds (fastpath_call cptr w s) (fp_agrees decode maxIRQ active SysCall s)"
proof (cases "fastpath_mi_check w \<or> tcbFault t \<noteq> Fault_NullFault")
  case True
  then show ?thesis using t by (simp add: fastpath_call_def Let_def)
next
  case f: False
  obtain root cap where cap: "ctes s (TCB_PTR_CTE_PTR (ksCurThread s) tcbCTable) = Some root" "lookup_fp s (cte_cap root) cptr = Some cap"
    "cap \<noteq> NullCap \<Longrightarrow> lookupCap s (ksCurThread s) cptr = Some (Inr cap)"
    "\<And>b cgr cg cs cr ep. cap = EndpointCap b cgr cg cs cr ep \<Longrightarrow> eps s ep \<noteq> None"
    using lookup_fp_cap[OF k, of "ksCurThread s" cptr] t by auto
  note start = t f cap(1,2)
  show ?thesis
  proof (cases "\<exists>b cgr cg cr ep. cap = EndpointCap b cgr cg True cr ep")
    case False
    then show ?thesis using start by (cases cap) (auto simp: fastpath_call_def Let_def)
  next
    case True
    then obtain b cgr cg cr ep where c: "cap = EndpointCap b cgr cg True cr ep" by blast
    obtain e where e: "eps s ep = Some e" using cap(4)[OF c] by blast
    show ?thesis
    proof (cases "ep_state e = EPState_Recv")
      case False
      then show ?thesis using start c e by (simp add: fastpath_call_def Let_def)
    next
      case True
      obtain d where d: "tcbs s (epQueue_head e) = Some d" using first_receiver[OF k e True] by blast
      obtain v where v: "ctes s (TCB_PTR_CTE_PTR (epQueue_head e) tcbVTable) = Some v" using entry_slots(2)[OF k] d by blast
      note start = start c e True d v
      show ?thesis
      proof (cases "isValidVTableRoot_fp (cte_cap v)")
        case False
        then show ?thesis using start by (simp add: fastpath_call_def Let_def)
      next
        case valid: True
        obtain asid root' where vs: "cte_cap v = ArchCap (VSpaceCap asid root' True)" "cap_vspace_cap_get (cte_cap v) = Some (asid, root')" using valid_vtable[OF valid] by blast
        obtain h where h: "isHighestPrio s (ksCurDomain s) (tcbPriority d) = Some h" 
          using isHighestPrio_ok[of "{}" s "tcbPriority d"] k unfolding kernel_entry_def valid_sched_def by blast
        note dm = domain_guard[OF k d]
        let ?top = "tcbPriority d < tcbPriority t \<longrightarrow> h"
        let ?ok = "asid_map_is s asid root' \<and> ?top \<and> (cg \<or> cgr) \<and> \<not> (tcbDomain d \<noteq> ksCurDomain s \<and> numDomains s > 1)"
        have eq: "fastpath_call cptr w s = (if ?ok then do { s \<leftarrow> fastpath_call_commit ep (epQueue_head e) root' asid w s; Some (Restore b (wordFromMessageInfo (mi_set_capsUnwrapped w 0)), s) }
            else Some (Slowpath SysCall, s))"
          using start valid vs(2) h unfolding fastpath_call_def by (auto simp: Let_def dm(1))
        show ?thesis
        proof (cases ?ok)
          case True
          then have g: "tcbDomain d = ksCurDomain s" "tcbPriority d < tcbPriority t \<longrightarrow> isHighestPrio s (ksCurDomain s) (tcbPriority d) = Some True"
              "cg \<or> cgr" "asid_map_is s asid root'"
            using dm(2) h by auto
          have nf: "tcbFault t = Fault_NullFault" "\<not> fastpath_mi_check w" and lc: "lookupCap s (ksCurThread s) cptr = Some (Inr (EndpointCap b cgr cg True cr ep))"
            using f cap(3) c by simp_all
          obtain s' s2 where "fastpath_call_commit ep (epQueue_head e) root' asid w s = Some s'" "handleSyscall decode maxIRQ active SysCall s = Some s2"
              "same_but_objects (restored b (mi_set_capsUnwrapped w 0) s') s2"
            using call_agrees[OF k t nf(1) regs nf(2) lc g(3) e \<open>ep_state e = EPState_Recv\<close> refl d g(1) v vs(1) g(4,2)] by blast
          then show ?thesis using True unfolding eq by (simp add: fp_agrees_def wordFromMessageInfo_def)
        qed (auto simp: eq)
      qed
    qed
  qed
qed

subsection \<open>Registered servers\<close>

definition valid_ports :: "kernel_state \<Rightarrow> bool" where
  "valid_ports s \<longleftrightarrow> length (ipcServerList s) = nat SERVER_PORT_NUM \<and> 0 \<le> ipcServerList_top s \<and> ipcServerList_top s < SERVER_PORT_NUM"

lemma handleRegister_eq:
  assumes "valid_ports s" "tcbs s (ksCurThread s) = Some t"
  shows "handleRegister s = Some (s\<lparr>
    tcbs := (tcbs s)(ksCurThread s := Some (t\<lparr>tcbContext := (tcbContext t)(X4 := word_of_int (ipcServerList_top s))\<rparr>)),
    ipcServerList := (ipcServerList s)[nat (ipcServerList_top s) := \<lparr>ServerThread = ksCurThread s, svc_func = tcbContext t X5, svc_stk = tcbContext t X4\<rparr>],
    ipcServerList_top := (ipcServerList_top s + 1) mod SERVER_PORT_NUM\<rparr>)"
proof -
  have "0 \<le> ipcServerList_top s" "nat (ipcServerList_top s) < length (ipcServerList s)" using assms(1) by (simp_all add: valid_ports_def)
  then show ?thesis using assms(2) by (simp add: handleRegister_def getRegister_def setRegister_def Let_def)
qed

text \<open>The state after a call of a server, whatever the two slots hold.\<close>

definition boost_ctes :: "(ptr \<Rightarrow> cte option) \<Rightarrow> bool \<Rightarrow> ptr \<Rightarrow> ptr \<Rightarrow> ptr \<Rightarrow> cte option" where
  "boost_ctes m g cur dest = m(
     TCB_PTR_CTE_PTR dest tcbCaller := map_option (\<lambda>c. c\<lparr>cte_cap := ReplyCap g False cur,
       cteMDBNode := (cteMDBNode c)\<lparr>mdbPrev := TCB_PTR_CTE_PTR cur tcbReply\<rparr>\<rparr>) (m (TCB_PTR_CTE_PTR dest tcbCaller)),
     TCB_PTR_CTE_PTR cur tcbReply := map_option (\<lambda>c. c\<lparr>cteMDBNode := (cteMDBNode c)\<lparr>mdbNext := TCB_PTR_CTE_PTR dest tcbCaller,
       mdbRevocable := True, mdbFirstBadged := True\<rparr>\<rparr>) (m (TCB_PTR_CTE_PTR cur tcbReply)))"

lemma fp_insert_reply_any:
  assumes "tcbs s dest = Some d" "ctes s (TCB_PTR_CTE_PTR cur tcbReply) = Some r" "ctes s (TCB_PTR_CTE_PTR dest tcbCaller) = Some c"
    "TCB_PTR_CTE_PTR cur tcbReply \<noteq> TCB_PTR_CTE_PTR dest tcbCaller"
  shows "fp_insert_reply cur dest s = Some (s\<lparr>ctes := boost_ctes (ctes s) (blockingIPCCanGrant d) cur dest\<rparr>)"
  using assms
  by (simp add: fp_insert_reply_def Let_def cap_reply_cap_ptr_new_np_def mdb_node_ptr_set_mdbPrev_np_def
      mdb_node_ptr_mset_mdbNext_mdbRevocable_mdbFirstBadged_def boost_ctes_def)

lemma callBoost_eq:
  assumes t: "tcbs s (ksCurThread s) = Some t" "tcbContext t X5 = word_of_int port"
    and p: "0 \<le> port" "nat port < length (ipcServerList s)" "port < SERVER_PORT_NUM"
    and srv: "ipcServerList s ! nat port = \<lparr>ServerThread = dest, svc_func = func, svc_stk = stk\<rparr>"
    and d: "tcbs s dest = Some d" "dest \<noteq> ksCurThread s"
    and v: "map_option cte_cap (ctes s (TCB_PTR_CTE_PTR dest tcbVTable)) = Some (ArchCap (VSpaceCap asid root mapped))" "asid_map_is s asid root"
    and c: "ctes s (TCB_PTR_CTE_PTR (ksCurThread s) tcbReply) = Some r" "ctes s (TCB_PTR_CTE_PTR dest tcbCaller) = Some cc"
      "TCB_PTR_CTE_PTR (ksCurThread s) tcbReply \<noteq> TCB_PTR_CTE_PTR dest tcbCaller"
    and n: "2 + unat (mi_get_length w) \<le> n_contextRegisters"
  shows "fastpath_callBoost cptr w s = Some (Restore 1 (mi_set_capsUnwrapped w 0), s\<lparr>
    tcbs := (tcbs s)(ksCurThread s := Some (t\<lparr>tsType := ThreadState_BlockedOnReply, blockingObject := 0\<rparr>),
      dest := Some (d\<lparr>tsType := ThreadState_Running, blockingObject := 0,
        tcbContext := (regs_from 0 (unat (mi_get_length w)) (tcbContext t) (tcbContext d))(X21 := stk, NextIP := func)\<rparr>)),
    ctes := boost_ctes (ctes s) (blockingIPCCanGrant d) (ksCurThread s) dest,
    ksArch := (ksArch s)\<lparr>ttbr := (asid AND 0xffff, pptr_to_paddr root)\<rparr>, ksCurThread := dest\<rparr>)"
proof -
  let ?cur = "ksCurThread s"
  let ?n = "unat (mi_get_length w)"
  have port: "sint (ucast (word_of_int port :: word_t) :: 32 word) = port"
  proof -
    have "(ucast (word_of_int port :: word_t) :: 32 word) = word_of_int port" by (rule bit_word_eqI) (simp add: bit_simps)
    moreover have "sint (word_of_int port :: 32 word) = port" using p unfolding sint_sbintrunc'
      by (simp add: signed_take_bit_int_eq_self SERVER_PORT_NUM_def)
    ultimately show ?thesis by simp
  qed
  obtain vc where vc: "ctes s (TCB_PTR_CTE_PTR dest tcbVTable) = Some vc" "cte_cap vc = ArchCap (VSpaceCap asid root mapped)" using v(1) by auto
  let ?t = "t\<lparr>tsType := ThreadState_BlockedOnReply, blockingObject := 0\<rparr>"
  let ?s3 = "s\<lparr>tcbs := (tcbs s)(?cur := Some ?t)\<rparr>"
  have s3: "thread_state_ptr_set_tsType_np ?cur ThreadState_BlockedOnReply s = Some ?s3" using t by (simp add: thread_state_ptr_set_tsType_np_def)
  let ?s4 = "?s3\<lparr>ctes := boost_ctes (ctes s) (blockingIPCCanGrant d) ?cur dest\<rparr>"
  have s4: "fp_insert_reply ?cur dest ?s3 = Some ?s4" using fp_insert_reply_any[of ?s3 dest d ?cur r cc] c d by simp
  let ?c = "regs_from 0 ?n (tcbContext t) (tcbContext d)"
  let ?s5 = "?s4\<lparr>tcbs := (tcbs ?s4)(dest := Some (d\<lparr>tcbContext := ?c\<rparr>))\<rparr>"
  have s5: "fastpath_copy_mrs ?n ?cur dest ?s4 = Some ?s5"
    using copy_mrs_loop[of ?cur dest ?s4 ?t 0 ?n d] d n by (simp add: fastpath_copy_mrs_def)
  show ?thesis
    using t p(1,2) port srv vc v(2) s3 s4 s5 d(2)
    by (cases s; cases d) (simp add: fastpath_callBoost_def Let_def getRegister_def setRegister_def thread_state_ptr_set_tsType_np_def cap_vspace_cap_get_def
        switchToThread_fp_def setCurrentUserVSpaceRoot_def upd_arch_def wordFromMessageInfo_def)
qed

lemma mdb_next_prev:
  assumes v: "valid_mdb s L" and c: "ctes s p = Some c" "cte_cap c \<noteq> NullCap" "mdbNext (cteMDBNode c) = q" "q \<noteq> 0"
  shows "\<exists>c'. ctes s q = Some c' \<and> mdbPrev (cteMDBNode c') = p"
proof -
  obtain xs where xs: "xs \<in> L" "p \<in> set xs" using valid_mdbD(4)[OF v c(1,2)] by blast
  show ?thesis using chain_next(3)[OF valid_mdbD(1)[OF v xs(1)] xs(2) c(1)] c(3,4) by (auto simp: mnext_def mprev_def)
qed

subsection \<open>The steps of a reply followed by a receive, computed\<close>

definition unreply_ctes :: "(ptr \<Rightarrow> cte option) \<Rightarrow> ptr \<Rightarrow> ptr \<Rightarrow> ptr \<Rightarrow> cte option" where
  "unreply_ctes m cur caller = m(TCB_PTR_CTE_PTR caller tcbReply := Some (reply_master caller), TCB_PTR_CTE_PTR cur tcbCaller := Some empty_cte)"

lemma cteDeleteOne_reply:
  assumes z: "ctes s 0 = None" and c: "ctes s (TCB_PTR_CTE_PTR cur tcbCaller) = Some (reply_cte g caller)"
    and r: "ctes s (TCB_PTR_CTE_PTR caller tcbReply) = Some (called_master caller (TCB_PTR_CTE_PTR cur tcbCaller))"
  shows "cteDeleteOne (TCB_PTR_CTE_PTR cur tcbCaller) s = Some (s\<lparr>ctes := unreply_ctes (ctes s) cur caller\<rparr>)"
proof -
  have n: "TCB_PTR_CTE_PTR caller tcbReply \<noteq> 0" "TCB_PTR_CTE_PTR caller tcbReply \<noteq> TCB_PTR_CTE_PTR cur tcbCaller"
    using z c r by (auto simp: reply_cte_def called_master_def)
  have "\<exists>b. isFinalCapability s (TCB_PTR_CTE_PTR cur tcbCaller) = Some b" using c r n by (simp add: isFinalCapability_def Let_def reply_cte_def) blast
  then obtain b where "isFinalCapability s (TCB_PTR_CTE_PTR cur tcbCaller) = Some b" by blast
  then show ?thesis using c r n
    by (simp add: cteDeleteOne_def reply_cte_def called_master_def finaliseCap_exposed_def finaliseCap_immediate_def capRemovable_def emptySlot_def
        Let_def upd_mdb_nz_def upd_mdb_def set_cap_def set_node_def postCapDeletion_def unreply_ctes_def reply_master_def empty_cte_def)
qed

lemma fp_delete_reply:
  assumes c: "ctes s (TCB_PTR_CTE_PTR cur tcbCaller) = Some (reply_cte g caller)"
    and r: "ctes s (TCB_PTR_CTE_PTR caller tcbReply) = Some (called_master caller (TCB_PTR_CTE_PTR cur tcbCaller))"
  shows "do {
     c \<leftarrow> ctes s (TCB_PTR_CTE_PTR cur tcbCaller);
     s \<leftarrow> mdb_node_ptr_mset_mdbNext_mdbRevocable_mdbFirstBadged (mdbPrev (cteMDBNode c)) 0 True True s;
     upd_cte (TCB_PTR_CTE_PTR cur tcbCaller) (\<lambda>c. c\<lparr>cte_cap := NullCap, cteMDBNode := nullMDBNode\<rparr>) s
   } = Some (s\<lparr>ctes := unreply_ctes (ctes s) cur caller\<rparr>)"
proof -
  have n: "TCB_PTR_CTE_PTR caller tcbReply \<noteq> TCB_PTR_CTE_PTR cur tcbCaller" using c r by (auto simp: reply_cte_def called_master_def)
  then show ?thesis using c r
    by (simp add: reply_cte_def called_master_def mdb_node_ptr_mset_mdbNext_mdbRevocable_mdbFirstBadged_def unreply_ctes_def reply_master_def empty_cte_def)
qed

text \<open>A lookup sees only where CNodes are.\<close>

fun is_cnode :: "cap \<Rightarrow> bool" where
  "is_cnode (CNodeCap _ _ _ _) = True"
| "is_cnode _ = False"

definition same_cnodes :: "(ptr \<Rightarrow> cte option) \<Rightarrow> (ptr \<Rightarrow> cte option) \<Rightarrow> bool" where
  "same_cnodes m m' \<longleftrightarrow> (\<forall>p. (m p = None \<longleftrightarrow> m' p = None) \<and>
     (\<forall>c c'. m p = Some c \<and> m' p = Some c' \<longrightarrow> cte_cap c' = cte_cap c \<or> \<not> is_cnode (cte_cap c) \<and> \<not> is_cnode (cte_cap c')))"

lemma same_cnodesD:
  assumes "same_cnodes m m'"
  shows "m p = None \<and> m' p = None \<or> (\<exists>c c'. m p = Some c \<and> m' p = Some c' \<and> (cte_cap c' = cte_cap c \<or> \<not> is_cnode (cte_cap c) \<and> \<not> is_cnode (cte_cap c')))"
proof -
  have "m p = None \<longleftrightarrow> m' p = None" "\<forall>c c'. m p = Some c \<and> m' p = Some c' \<longrightarrow> cte_cap c' = cte_cap c \<or> \<not> is_cnode (cte_cap c) \<and> \<not> is_cnode (cte_cap c')"
    using assms unfolding same_cnodes_def by blast+
  then show ?thesis by (cases "m p"; cases "m' p") simp_all
qed

lemma resolve_loop_same:
  assumes "same_cnodes (ctes s) (ctes s')"
  shows "resolve_loop s' cap w n = resolve_loop s cap w n"
proof (induction "unat n" arbitrary: cap n rule: less_induct)
  case less
  show ?case
  proof (cases cap)
    case (CNodeCap r gs g p)
    let ?slot = "cte_at_index p (drop_bit (unat (n - (r + gs))) w AND MASKw r)"
    show ?thesis
    proof (cases "r + gs = 0 \<or> r + gs > n")
      case True
      then show ?thesis unfolding CNodeCap by (subst (1 2) resolve_loop.simps) (auto simp: Let_def)
    next
      case False
      then have "unat (n - (r + gs)) = unat n - unat (r + gs)" "0 < unat (r + gs)" "unat (r + gs) \<le> unat n"
        by (simp_all add: unat_sub not_less word_le_nat_alt unat_gt_0)
      then have IH: "resolve_loop s' cap' w (n - (r + gs)) = resolve_loop s cap' w (n - (r + gs))" for cap' by (intro less) linarith
      have "ctes s ?slot = None \<and> ctes s' ?slot = None \<or> (\<exists>c c'. ctes s ?slot = Some c \<and> ctes s' ?slot = Some c' \<and>
          (cte_cap c' = cte_cap c \<or> \<not> is_cnode (cte_cap c) \<and> \<not> is_cnode (cte_cap c')))"
        using same_cnodesD[OF assms] .
      then show ?thesis unfolding CNodeCap by (subst (1 2) resolve_loop.simps) (auto simp: Let_def IH split: cap.splits)
    qed
  qed (simp_all add: resolve_loop.simps)
qed

lemma lookupCap_same:
  assumes "same_cnodes (ctes s) (ctes s')" "lookupCap s thread cptr = Some (Inr cap)" "\<And>p c. ctes s p = Some c \<Longrightarrow> cte_cap c = cap \<Longrightarrow> ctes s' p = Some c"
  shows "lookupCap s' thread cptr = Some (Inr cap)"
proof -
  obtain slot where slot: "lookupSlot s thread cptr = Some (Inr slot)" "map_option cte_cap (ctes s slot) = Some cap"
    using assms(2) unfolding lookupCap_def by (cases "lookupSlot s thread cptr") (auto split: sum.split_asm)
  obtain root where root: "ctes s (TCB_PTR_CTE_PTR thread tcbCTable) = Some root" using slot(1) by (auto simp: lookupSlot_def bind_eq_Some_conv)
  obtain root' where root': "ctes s' (TCB_PTR_CTE_PTR thread tcbCTable) = Some root'"
      "cte_cap root' = cte_cap root \<or> \<not> is_cnode (cte_cap root) \<and> \<not> is_cnode (cte_cap root')"
    using same_cnodesD[OF assms(1), of "TCB_PTR_CTE_PTR thread tcbCTable"] root by auto
  have "is_cnode (cte_cap root)" using slot(1) root by (cases "cte_cap root") (auto simp: lookupSlot_def resolveAddressBits_def)
  then have "cte_cap root' = cte_cap root" using root'(2) by simp
  then have "lookupSlot s' thread cptr = lookupSlot s thread cptr" using root root'(1) resolve_loop_same[OF assms(1)]
    by (simp add: lookupSlot_def resolveAddressBits_def cong: cap.case_cong)
  then show ?thesis using slot assms(3)[of slot] by (auto simp: lookupCap_def)
qed

definition app_tcbs :: "(ptr \<Rightarrow> tcb option) \<Rightarrow> ptr \<Rightarrow> ptr \<Rightarrow> tcb \<Rightarrow> ptr \<Rightarrow> tcb option" where
  "app_tcbs m cur tail t = (if tail = 0 then m else m(tail := map_option (\<lambda>u. u\<lparr>tcbEPNext := cur\<rparr>) (m tail)))(
     cur := Some (t\<lparr>tcbEPPrev := tail, tcbEPNext := 0\<rparr>))"

definition app_ep :: "endpoint \<Rightarrow> ptr \<Rightarrow> endpoint" where
  "app_ep e cur = \<lparr>epQueue_head = if epQueue_tail e = 0 then cur else epQueue_head e, epQueue_tail = cur, ep_state = EPState_Recv\<rparr>"

definition receiving :: "ptr \<Rightarrow> bool \<Rightarrow> tcb \<Rightarrow> tcb" where
  "receiving ep cg t = t\<lparr>tsType := ThreadState_BlockedOnReceive, blockingObject := ep, blockingIPCCanGrant := cg\<rparr>"

lemma app_tcbs_other [simp]: "p \<noteq> cur \<Longrightarrow> p \<noteq> tail \<Longrightarrow> app_tcbs m cur tail t p = m p"
  by (simp add: app_tcbs_def)

lemma append_last:
  assumes "tcbs s cur = Some t" "end_ptr q = tail" "head q = 0 \<longleftrightarrow> tail = 0" "tail \<noteq> 0 \<longrightarrow> tcbs s tail \<noteq> None" "tail \<noteq> cur"
  shows "tcbEPAppend cur q s = Some (\<lparr>head = if tail = 0 then cur else head q, end_ptr = cur\<rparr>, s\<lparr>tcbs := app_tcbs (tcbs s) cur tail t\<rparr>)"
proof (cases "tail = 0")
  case False
  then obtain u where "tcbs s tail = Some u" using assms(4) by blast
  moreover have "head q \<noteq> 0" using False assms(3) by simp
  ultimately show ?thesis using False assms(1,5) assms(2)[symmetric] by (cases q) (simp add: tcbEPAppend_def app_tcbs_def)
next
  case True
  then have "end_ptr q = 0" "head q = 0" using assms(2,3) by simp_all
  then show ?thesis using True assms(1) by (cases q) (simp add: tcbEPAppend_def app_tcbs_def)
qed

lemma receiveIPC_append:
  assumes t: "tcbs s cur = Some t" and a: "ksSchedulerAction s \<noteq> 0"
    and nb: "tcbBoundNotification t = 0 \<or> (\<exists>n. ntfns s (tcbBoundNotification t) = Some n \<and> ntfn_state n \<noteq> NtfnState_Active)"
    and e: "eps s ep = Some e" "ep_state e \<noteq> EPState_Send"
    and q: "epQueue_head e = 0 \<longleftrightarrow> epQueue_tail e = 0" "epQueue_tail e \<noteq> 0 \<longrightarrow> tcbs s (epQueue_tail e) \<noteq> None" "epQueue_tail e \<noteq> cur"
  shows "receiveIPC cur (EndpointCap bd cgr cg cs cr ep) True s =
    Some (s\<lparr>tcbs := app_tcbs (tcbs s) cur (epQueue_tail e) (receiving ep cg t), eps := (eps s)(ep := Some (app_ep e cur))\<rparr>)"
proof -
  let ?tl = "epQueue_tail e"
  let ?s1 = "s\<lparr>tcbs := (tcbs s)(cur := Some (receiving ep cg t))\<rparr>"
  have u: "upd_tcb cur (\<lambda>t. t\<lparr>tsType := ThreadState_BlockedOnReceive, blockingObject := ep, blockingIPCCanGrant := cg\<rparr>) s = Some ?s1"
    using t by (simp add: receiving_def)
  have sc: "scheduleTCB cur ?s1 = Some ?s1" using a by (simp add: scheduleTCB_def isRunnable_def SchedulerAction_ResumeCurrentThread_def)
  have m: "app_tcbs (tcbs ?s1) cur ?tl (receiving ep cg t) = app_tcbs (tcbs s) cur ?tl (receiving ep cg t)"
    using q(3) by (auto simp: app_tcbs_def fun_eq_iff)
  have ap: "tcbEPAppend cur (ep_ptr_get_queue e) ?s1 = Some (\<lparr>head = if ?tl = 0 then cur else epQueue_head e, end_ptr = cur\<rparr>,
      s\<lparr>tcbs := app_tcbs (tcbs s) cur ?tl (receiving ep cg t)\<rparr>)"
    using append_last[of ?s1 cur "receiving ep cg t" "ep_ptr_get_queue e" ?tl] q m by (simp add: ep_ptr_get_queue_def)
  have na: "(if tcbBoundNotification t \<noteq> 0 then map_option (\<lambda>n. ntfn_state n = NtfnState_Active) (ntfns s (tcbBoundNotification t)) else Some False) = Some False"
    using nb by auto
  let ?s2 = "s\<lparr>tcbs := app_tcbs (tcbs s) cur ?tl (receiving ep cg t)\<rparr>"
  let ?s3 = "?s2\<lparr>eps := (eps s)(ep := Some (e\<lparr>ep_state := EPState_Recv\<rparr>))\<rparr>"
  have s3: "endpoint_ptr_set_state ep EPState_Recv ?s2 = Some ?s3" using e by (simp add: endpoint_ptr_set_state_def)
  have s4: "ep_ptr_set_queue ep \<lparr>head = if ?tl = 0 then cur else epQueue_head e, end_ptr = cur\<rparr> ?s3 = Some (?s2\<lparr>eps := (eps s)(ep := Some (app_ep e cur))\<rparr>)"
    by (cases e) (simp add: ep_ptr_set_queue_def app_ep_def)
  have e1: "eps ?s1 ep = Some e" using e by simp
  have "receiveIPC cur (EndpointCap bd cgr cg cs cr ep) True s = do {
      s \<leftarrow> upd_tcb cur (\<lambda>t. t\<lparr>tsType := ThreadState_BlockedOnReceive, blockingObject := ep, blockingIPCCanGrant := cg\<rparr>) s;
      s \<leftarrow> scheduleTCB cur s;
      e \<leftarrow> eps s ep;
      (queue, s) \<leftarrow> tcbEPAppend cur (ep_ptr_get_queue e) s;
      s \<leftarrow> endpoint_ptr_set_state ep EPState_Recv s;
      ep_ptr_set_queue ep queue s
    }"
    using t e na by (simp add: receiveIPC_def Let_def)
  also have "\<dots> = Some (?s2\<lparr>eps := (eps s)(ep := Some (app_ep e cur))\<rparr>)"
    unfolding u Option.bind.bind_lunit sc e1 ap split_conv s3 s4 ..
  finally show ?thesis by simp
qed

lemma handleReply_eq:
  assumes t: "tcbs s (ksCurThread s) = Some t" "tcbFault t = Fault_NullFault" "tcbContext t msgInfoRegister = w" "\<not> fastpath_mi_check w"
    and d: "tcbs s caller = Some d" "tsType d = ThreadState_BlockedOnReply" "caller \<noteq> ksCurThread s" "tcbFault d = Fault_NullFault" "tcbDomain d = ksCurDomain s"
    and c: "ctes s 0 = None" "ctes s (TCB_PTR_CTE_PTR (ksCurThread s) tcbCaller) = Some (reply_cte g caller)"
      "ctes s (TCB_PTR_CTE_PTR caller tcbReply) = Some (called_master caller (TCB_PTR_CTE_PTR (ksCurThread s) tcbCaller))"
    and b: "ctes s (TCB_PTR_CTE_PTR (ksCurThread s) tcbBuffer) \<noteq> None" "ctes s (TCB_PTR_CTE_PTR caller tcbBuffer) \<noteq> None"
    and a: "ksSchedulerAction s = 0"
  shows "handleReply s = Some (s\<lparr>
     tcbs := (tcbs s)(caller := Some (d\<lparr>tsType := ThreadState_Running, tcbContext := short_context w 0 (tcbContext t) (tcbContext d)\<rparr>)),
     ctes := unreply_ctes (ctes s) (ksCurThread s) caller, ksSchedulerAction := caller\<rparr>)"
proof -
  let ?cur = "ksCurThread s"
  let ?c = "short_context w 0 (tcbContext t) (tcbContext d)"
  obtain b1 b2 where buf: "lookupIPCBuffer True caller s = Some b1" "lookupIPCBuffer False ?cur s = Some b2"
    using lookupIPCBuffer_exists[of s caller True] lookupIPCBuffer_exists[of s ?cur False] t d b by auto
  let ?s1 = "s\<lparr>tcbs := (tcbs s)(caller := Some (d\<lparr>tcbContext := ?c\<rparr>))\<rparr>"
  have tr: "doIPCTransfer ?cur 0 0 g caller s = Some ?s1"
    using doIPCTransfer_short[OF d(3)[symmetric] t(1) d(1) t(2) buf t(3,4)] by (simp add: short_context_def)
  let ?s2 = "?s1\<lparr>ctes := unreply_ctes (ctes s) ?cur caller\<rparr>"
  have del: "cteDeleteOne (TCB_PTR_CTE_PTR ?cur tcbCaller) ?s1 = Some ?s2" using cteDeleteOne_reply[of ?s1 ?cur g caller] c by simp
  let ?s3 = "?s2\<lparr>tcbs := (tcbs ?s2)(caller := Some (d\<lparr>tcbContext := ?c, tsType := ThreadState_Running\<rparr>))\<rparr>"
  have run: "setThreadState caller ThreadState_Running ?s2 = Some ?s3" using setThreadState_runnable[of ?s2 caller] by simp
  have sw: "possibleSwitchTo caller ?s3 = Some (?s3\<lparr>ksSchedulerAction := caller\<rparr>)"
    using a d by (simp add: possibleSwitchTo_def SchedulerAction_ResumeCurrentThread_def)
  have "doReplyTransfer ?cur caller (TCB_PTR_CTE_PTR ?cur tcbCaller) g s = Some (?s3\<lparr>ksSchedulerAction := caller\<rparr>)"
    using d tr del run sw by (simp add: doReplyTransfer_def)
  moreover have "handleReply s = doReplyTransfer ?cur caller (TCB_PTR_CTE_PTR ?cur tcbCaller) g s"
    using c(2) d(3) by (simp add: handleReply_def Let_def reply_cte_def)
  ultimately show ?thesis by (cases s; cases d) simp
qed

lemma fastpath_reply_recv_commit_eq:
  assumes t: "tcbs s (ksCurThread s) = Some t" "\<not> fastpath_mi_check w"
    and d: "tcbs s caller = Some d" "caller \<noteq> ksCurThread s"
    and c: "ctes s (TCB_PTR_CTE_PTR (ksCurThread s) tcbCaller) = Some (reply_cte g caller)"
      "ctes s (TCB_PTR_CTE_PTR caller tcbReply) = Some (called_master caller (TCB_PTR_CTE_PTR (ksCurThread s) tcbCaller))"
    and e: "eps s ep = Some e"
    and q: "epQueue_tail e \<noteq> 0 \<longrightarrow> tcbs s (epQueue_tail e) \<noteq> None" "epQueue_tail e \<noteq> ksCurThread s" "epQueue_tail e \<noteq> caller"
  shows "fastpath_reply_recv_commit (EndpointCap bd cgr cg cs cr ep) ep caller root asid w s = Some (s\<lparr>
     tcbs := (app_tcbs (tcbs s) (ksCurThread s) (epQueue_tail e) (receiving ep cg t))(caller := Some (d\<lparr>tsType := ThreadState_Running, blockingObject := 0,
        tcbContext := copied_regs (unat (mi_get_length w)) (tcbContext t) (tcbContext d)\<rparr>)),
     eps := (eps s)(ep := Some (app_ep e (ksCurThread s))), ctes := unreply_ctes (ctes s) (ksCurThread s) caller,
     ksArch := (ksArch s)\<lparr>ttbr := (asid AND 0xffff, pptr_to_paddr root)\<rparr>, ksCurThread := caller\<rparr>)"
proof -
  let ?cur = "ksCurThread s" and ?tl = "epQueue_tail e" and ?n = "unat (mi_get_length w)"
  let ?slot = "TCB_PTR_CTE_PTR ?cur tcbCaller"
  let ?s1 = "s\<lparr>tcbs := (tcbs s)(?cur := Some (receiving ep cg t))\<rparr>"
  let ?m = "app_tcbs (tcbs s) ?cur ?tl (receiving ep cg t)"
  let ?s2 = "s\<lparr>tcbs := ?m, eps := (eps s)(ep := Some (app_ep e ?cur))\<rparr>"
  let ?enq = "\<lambda>s. if ?tl = 0 then do {
             s \<leftarrow> upd_tcb ?cur (\<lambda>t. t\<lparr>tcbEPPrev := 0, tcbEPNext := 0\<rparr>) s;
             s \<leftarrow> endpoint_ptr_set_epQueue_head_np ep ?cur s;
             endpoint_ptr_mset_epQueue_tail_state ep ?cur EPState_Recv s
           }
           else do {
             s \<leftarrow> upd_tcb ?tl (\<lambda>t. t\<lparr>tcbEPNext := ?cur\<rparr>) s;
             s \<leftarrow> upd_tcb ?cur (\<lambda>t. t\<lparr>tcbEPPrev := ?tl, tcbEPNext := 0\<rparr>) s;
             endpoint_ptr_mset_epQueue_tail_state ep ?cur EPState_Recv s
           }"
  have enq: "?enq ?s1 = Some ?s2"
  proof (cases "?tl = 0")
    case True
    then show ?thesis using e
      by (cases s; cases e) (simp add: endpoint_ptr_set_epQueue_head_np_def endpoint_ptr_mset_epQueue_tail_state_def app_tcbs_def app_ep_def)
  next
    case False
    then obtain u where "tcbs s ?tl = Some u" using q(1) by blast
    then show ?thesis using False e q(2)
      by (cases s; cases e) (simp add: endpoint_ptr_mset_epQueue_tail_state_def app_tcbs_def app_ep_def fun_upd_twist)
  qed
  have del: "Option.bind (ctes ?s2 ?slot) (\<lambda>c. Option.bind (mdb_node_ptr_mset_mdbNext_mdbRevocable_mdbFirstBadged (mdbPrev (cteMDBNode c)) 0 True True ?s2)
      (upd_cte ?slot (\<lambda>c. c\<lparr>cte_cap := NullCap, cteMDBNode := nullMDBNode\<rparr>))) = Some (?s2\<lparr>ctes := unreply_ctes (ctes s) ?cur caller\<rparr>)"
    using fp_delete_reply[of ?s2 ?cur g caller] c by simp
  let ?s3 = "?s2\<lparr>ctes := unreply_ctes (ctes s) ?cur caller\<rparr>"
  have n: "?n \<le> n_msgRegisters" using short_message(2)[OF t(2)] by (simp add: n_msgRegisters_def)
  have m: "tcbs ?s3 ?cur = Some ((receiving ep cg t)\<lparr>tcbEPPrev := ?tl, tcbEPNext := 0\<rparr>)" "tcbs ?s3 caller = Some d" using d q by (simp_all add: app_tcbs_def)
  let ?s4 = "?s3\<lparr>tcbs := ?m(caller := Some (d\<lparr>tcbContext := copied_regs ?n (tcbContext t) (tcbContext d)\<rparr>))\<rparr>"
  have s4: "fastpath_copy_mrs ?n ?cur caller ?s3 = Some ?s4"
    using fastpath_copy_mrs_short[OF n d(2)[symmetric] m] by (simp add: receiving_def)
  have first: "thread_state_ptr_mset_blockingObject_tsType ?cur ep ThreadState_BlockedOnReceive s = Some (s\<lparr>tcbs := (tcbs s)(?cur := Some (t\<lparr>tsType := ThreadState_BlockedOnReceive, blockingObject := ep\<rparr>))\<rparr>)"
      "upd_tcb ?cur (\<lambda>t. t\<lparr>blockingIPCCanGrant := cg\<rparr>) (s\<lparr>tcbs := (tcbs s)(?cur := Some (t\<lparr>tsType := ThreadState_BlockedOnReceive, blockingObject := ep\<rparr>))\<rparr>) = Some ?s1"
    using t by (simp_all add: thread_state_ptr_mset_blockingObject_tsType_def receiving_def)
  have e1: "eps ?s1 ep = Some e" using e by simp
  have "fastpath_reply_recv_commit (EndpointCap bd cgr cg cs cr ep) ep caller root asid w s =
     Option.bind (?enq ?s1) (\<lambda>s. Option.bind (ctes s ?slot) (\<lambda>c. Option.bind (mdb_node_ptr_mset_mdbNext_mdbRevocable_mdbFirstBadged (mdbPrev (cteMDBNode c)) 0 True True s)
      (\<lambda>s. Option.bind (upd_cte ?slot (\<lambda>c. c\<lparr>cte_cap := NullCap, cteMDBNode := nullMDBNode\<rparr>) s)
        (\<lambda>s. do { s \<leftarrow> fastpath_copy_mrs ?n ?cur caller s; s \<leftarrow> thread_state_ptr_set_tsType_np caller ThreadState_Running s; Some (switchToThread_fp caller root asid s) }))))"
    unfolding fastpath_reply_recv_commit_def Let_def cap.sel first Option.bind.bind_lunit e1 ..
  also have "\<dots> = Option.bind (Option.bind (ctes ?s2 ?slot) (\<lambda>c. Option.bind (mdb_node_ptr_mset_mdbNext_mdbRevocable_mdbFirstBadged (mdbPrev (cteMDBNode c)) 0 True True ?s2)
      (upd_cte ?slot (\<lambda>c. c\<lparr>cte_cap := NullCap, cteMDBNode := nullMDBNode\<rparr>))))
      (\<lambda>s. do { s \<leftarrow> fastpath_copy_mrs ?n ?cur caller s; s \<leftarrow> thread_state_ptr_set_tsType_np caller ThreadState_Running s; Some (switchToThread_fp caller root asid s) })"
    unfolding enq by (simp only: Option.bind.bind_lunit Option.bind_assoc)
  also have "\<dots> = do { s \<leftarrow> thread_state_ptr_set_tsType_np caller ThreadState_Running ?s4; Some (switchToThread_fp caller root asid s) }"
    unfolding del Option.bind.bind_lunit s4 ..
  also have "\<dots> = Some (s\<lparr>
     tcbs := ?m(caller := Some (d\<lparr>tsType := ThreadState_Running, blockingObject := 0, tcbContext := copied_regs ?n (tcbContext t) (tcbContext d)\<rparr>)),
     eps := (eps s)(ep := Some (app_ep e ?cur)), ctes := unreply_ctes (ctes s) ?cur caller,
     ksArch := (ksArch s)\<lparr>ttbr := (asid AND 0xffff, pptr_to_paddr root)\<rparr>, ksCurThread := caller\<rparr>)"
    by (cases s; cases d) (simp add: thread_state_ptr_set_tsType_np_def switchToThread_fp_def setCurrentUserVSpaceRoot_def upd_arch_def)
  finally show ?thesis .
qed

lemma last_waiting:
  assumes k: "kernel_entry s W" and e: "eps s ep = Some e"
  shows "epQueue_head e = 0 \<longleftrightarrow> epQueue_tail e = 0" "epQueue_tail e \<noteq> 0 \<longrightarrow> (\<exists>t. tcbs s (epQueue_tail e) = Some t \<and> waits t \<noteq> None)"
proof -
  have v: "valid_ipc s W" using k by (simp add: kernel_entry_def)
  have "ep_queue s (ep_ptr_get_queue e) (W (EP ep))" using valid_ipcD(3)[OF v wq_ep[OF e]] .
  then have q: "epQueue_head e = hd (W (EP ep) @ [0])" "epQueue_tail e = last (0 # W (EP ep))" "0 \<notin> set (W (EP ep))"
    by (simp_all add: ep_queue_def is_queue_def ep_ptr_get_queue_def)
  show "epQueue_head e = 0 \<longleftrightarrow> epQueue_tail e = 0" using q by (cases "W (EP ep)") (auto, metis last_in_set)
  show "epQueue_tail e \<noteq> 0 \<longrightarrow> (\<exists>t. tcbs s (epQueue_tail e) = Some t \<and> waits t \<noteq> None)"
    using q valid_ipcD(5)[OF v, of "epQueue_tail e" "EP ep"] by (cases "W (EP ep)") auto
qed

lemma unreply_cnodes:
  assumes "ctes s (TCB_PTR_CTE_PTR cur tcbCaller) = Some (reply_cte g caller)"
      "ctes s (TCB_PTR_CTE_PTR caller tcbReply) = Some (called_master caller (TCB_PTR_CTE_PTR cur tcbCaller))"
  shows "same_cnodes (ctes s) (unreply_ctes (ctes s) cur caller)"
    "ctes s p = Some c \<Longrightarrow> cte_cap c \<noteq> ReplyCap g False caller \<Longrightarrow> cte_cap c \<noteq> ReplyCap True True caller \<Longrightarrow> unreply_ctes (ctes s) cur caller p = Some c"
  using assms by (auto simp: same_cnodes_def unreply_ctes_def reply_cte_def called_master_def reply_master_def empty_cte_def)

lemma handleRecv_append:
  assumes t: "tcbs s (ksCurThread s) = Some t" "tcbContext t capRegister = cptr" and a: "ksSchedulerAction s \<noteq> 0"
    and cap: "lookupCap s (ksCurThread s) cptr = Some (Inr (EndpointCap bd cgr cg cs True ep))"
    and c: "ctes s (TCB_PTR_CTE_PTR (ksCurThread s) tcbCaller) = Some empty_cte"
    and r: "tcbBoundNotification t = 0 \<or> (\<exists>n. ntfns s (tcbBoundNotification t) = Some n \<and> ntfn_state n \<noteq> NtfnState_Active)"
      "eps s ep = Some e" "ep_state e \<noteq> EPState_Send"
      "epQueue_head e = 0 \<longleftrightarrow> epQueue_tail e = 0" "epQueue_tail e \<noteq> 0 \<longrightarrow> tcbs s (epQueue_tail e) \<noteq> None" "epQueue_tail e \<noteq> ksCurThread s"
  shows "handleRecv True s = Some (s\<lparr>tcbs := app_tcbs (tcbs s) (ksCurThread s) (epQueue_tail e) (receiving ep cg t), eps := (eps s)(ep := Some (app_ep e (ksCurThread s)))\<rparr>)"
  using t cap c receiveIPC_append[OF t(1) a r, of bd cgr cg cs True]
  by (simp add: handleRecv_def Let_def getRegister_def deleteCallerCap_def cteDeleteOne_def empty_cte_def)

lemma reply_recv_agrees:
  assumes k: "kernel_entry s W" and t: "tcbs s (ksCurThread s) = Some t" "tcbFault t = Fault_NullFault"
    and regs: "tcbContext t capRegister = cptr" "tcbContext t msgInfoRegister = w" "\<not> fastpath_mi_check w"
    and cap: "lookupCap s (ksCurThread s) cptr = Some (Inr (EndpointCap bd cgr cg cs True ep))"
    and nb: "tcbBoundNotification t = 0 \<or> (\<exists>n. ntfns s (tcbBoundNotification t) = Some n \<and> ntfn_state n \<noteq> NtfnState_Active)"
    and e: "eps s ep = Some e" "ep_state e \<noteq> EPState_Send"
    and c: "ctes s (TCB_PTR_CTE_PTR (ksCurThread s) tcbCaller) = Some (reply_cte g caller)"
      "ctes s (TCB_PTR_CTE_PTR caller tcbReply) = Some (called_master caller (TCB_PTR_CTE_PTR (ksCurThread s) tcbCaller))"
    and d: "tcbs s caller = Some d" "tsType d = ThreadState_BlockedOnReply" "tcbFault d = Fault_NullFault" "tcbDomain d = ksCurDomain s"
    and v: "ctes s (TCB_PTR_CTE_PTR caller tcbVTable) = Some v" "cte_cap v = ArchCap (VSpaceCap asid root True)" "asid_map_is s asid root"
    and h: "isHighestPrio s (ksCurDomain s) (tcbPriority d) = Some True"
  shows "\<exists>s' s2. fastpath_reply_recv_commit (EndpointCap bd cgr cg cs True ep) ep caller root asid w s = Some s' \<and>
    handleSyscall decode maxIRQ active SysReplyRecv s = Some s2 \<and> same_but_objects (restored 0 (mi_set_capsUnwrapped w 0) s') s2"
proof -
  let ?cur = "ksCurThread s" and ?tl = "epQueue_tail e"
  have ty: "tsType t = ThreadState_Running" using k t(1) by (simp add: kernel_entry_def)
  have cc: "caller \<noteq> ?cur" using d t(1) ty by auto
  have act: "ksSchedulerAction s = 0" using k by (simp add: kernel_entry_def SchedulerAction_ResumeCurrentThread_def)
  have b: "base_sched {} s" using k by (simp add: kernel_entry_def valid_sched_def)
  have c01: "caller \<noteq> 0" "caller \<noteq> 1" using tcb_valid[OF b d(1)] by auto
  have idle: "?cur \<noteq> ksIdleThread s" using b t(1) ty by (auto simp: base_sched_def)
  have nq: "\<not> tcbQueued d" using b d(1,2) by (auto simp: base_sched_def qset_def runnable_tcb)
  have sl: "ctes s (TCB_PTR_CTE_PTR ?cur tcbBuffer) \<noteq> None" "ctes s (TCB_PTR_CTE_PTR caller tcbBuffer) \<noteq> None" using entry_slots[OF k] t(1) d(1) by simp_all
  have as: "asid AND 0xffff = asid" using k v by (intro asid_16) (fastforce simp: kernel_entry_def valid_cap_objs_def split: cap.splits arch_cap.splits)
  note lw = last_waiting[OF k e(1)]
  have wt: "waits t = None" "waits d = None" using ty d(2) by (simp_all add: waits_def)
  have tl: "?tl \<noteq> 0 \<longrightarrow> tcbs s ?tl \<noteq> None" "?tl \<noteq> ?cur" "?tl \<noteq> caller"
    using lw(2) t(1) d(1) wt c01 tcb_valid[OF b t(1)] by (cases "?tl = 0"; auto)+
  let ?C = "unreply_ctes (ctes s) ?cur caller"
  let ?d = "d\<lparr>tsType := ThreadState_Running, tcbContext := short_context w 0 (tcbContext t) (tcbContext d)\<rparr>"
  define s1 where "s1 = s\<lparr>tcbs := (tcbs s)(caller := Some ?d), ctes := ?C, ksSchedulerAction := caller\<rparr>"
  have z: "ctes s 0 = None" using k by (simp add: kernel_entry_def valid_callers_def)
  have r1: "handleReply s = Some s1" unfolding s1_def by (rule handleReply_eq[OF t regs(2,3) d(1,2) cc d(3,4) z c sl act])
  have cap1: "lookupCap s1 ?cur cptr = Some (Inr (EndpointCap bd cgr cg cs True ep))"
    by (rule lookupCap_same[OF _ cap]) (use unreply_cnodes[OF c] in \<open>auto simp: s1_def\<close>)
  let ?s2 = "s1\<lparr>tcbs := app_tcbs (tcbs s1) ?cur ?tl (receiving ep cg t), eps := (eps s1)(ep := Some (app_ep e ?cur))\<rparr>"
  have cur1: "ksCurThread s1 = ?cur" by (simp add: s1_def)
  have r2: "handleRecv True s1 = Some ?s2"
    using handleRecv_append[of s1 t cptr bd cgr cg cs ep e] cc t(1) regs(1) c01 cap1 nb e lw(1) tl unfolding cur1 by (simp add: s1_def unreply_ctes_def)
  have t2: "tcbs ?s2 caller = Some ?d" "tcbs ?s2 ?cur = Some ((receiving ep cg t)\<lparr>tcbEPPrev := ?tl, tcbEPNext := 0\<rparr>)"
    using cc tl(3) by (simp_all add: s1_def) (simp add: app_tcbs_def)
  have vt1: "ctes ?s2 (TCB_PTR_CTE_PTR caller tcbVTable) = Some v" using unreply_cnodes(2)[OF c v(1)] v(2) by (simp add: s1_def)
  have vt: "vm_root ?s2 caller = (asid, pptr_to_paddr root)" by (rule vm_root_mapped[OF vt1 v(2,3)]) (simp add: s1_def)
  have "isHighestPrio ?s2 (ksCurDomain s) (tcbPriority d) = Some True" using isHighestPrio_cong[of ?s2 s "ksCurDomain s" "tcbPriority d"] h by (simp add: s1_def)
  then have "schedule ?s2 = Some (?s2\<lparr>ksArch := (ksArch ?s2)\<lparr>ttbr := vm_root ?s2 caller\<rparr>, ksCurThread := caller, ksSchedulerAction := 0\<rparr>)"
    by (intro schedule_switch[where t = "(receiving ep cg t)\<lparr>tcbEPPrev := ?tl, tcbEPNext := 0\<rparr>" and d = ?d])
      (use t2 vt1 cc idle c01 nq in \<open>simp_all add: s1_def receiving_def\<close>)
  then have "handleSyscall decode maxIRQ active SysReplyRecv s = Some (?s2\<lparr>ksArch := (ksArch ?s2)\<lparr>ttbr := vm_root ?s2 caller\<rparr>, ksCurThread := caller, ksSchedulerAction := 0\<rparr>)"
    using r1 r2 t2 by (simp add: handleSyscall_def schedule_activate_def activateThread_def)
  moreover note fastpath_reply_recv_commit_eq[OF t(1) regs(3) d(1) cc c e(1) tl, of bd cgr cg cs True root asid]
  moreover have "same_but_objects (restored 0 (mi_set_capsUnwrapped w 0) (s\<lparr>
     tcbs := (app_tcbs (tcbs s) ?cur ?tl (receiving ep cg t))(caller := Some (d\<lparr>tsType := ThreadState_Running, blockingObject := 0,
        tcbContext := copied_regs (unat (mi_get_length w)) (tcbContext t) (tcbContext d)\<rparr>)),
     eps := (eps s)(ep := Some (app_ep e ?cur)), ctes := ?C,
     ksArch := (ksArch s)\<lparr>ttbr := (asid AND 0xffff, pptr_to_paddr root)\<rparr>, ksCurThread := caller\<rparr>))
     (?s2\<lparr>ksArch := (ksArch ?s2)\<lparr>ttbr := vm_root ?s2 caller\<rparr>, ksCurThread := caller, ksSchedulerAction := 0\<rparr>)" (is "same_but_objects (restored _ _ ?f) ?r")
  proof (rule same_but_objectsI)
    fix p
    show "map_option forget_object (tcbs (restored 0 (mi_set_capsUnwrapped w 0) ?f) p) = map_option forget_object (tcbs ?r p)"
      by (cases "p = caller"; cases "p = ?cur"; cases "p = ?tl") (use cc tl c01 in \<open>auto simp: restored_def s1_def forget_object_simps short_context_def app_tcbs_def\<close>)
  qed (use act vt as in \<open>cases s; simp add: restored_def s1_def\<close>)
  ultimately show ?thesis by blast
qed

lemma fastpath_reply_recv_agrees:
  assumes k: "kernel_entry s W" and t: "tcbs s (ksCurThread s) = Some t"
    and regs: "tcbContext t capRegister = cptr" "tcbContext t msgInfoRegister = w"
  shows "succeeds (fastpath_reply_recv cptr w s) (fp_agrees decode maxIRQ active SysReplyRecv s)"
proof (cases "fastpath_mi_check w \<or> tcbFault t \<noteq> Fault_NullFault")
  case True
  then show ?thesis using t by (simp add: fastpath_reply_recv_def Let_def)
next
  case f: False
  obtain root cap where cap: "ctes s (TCB_PTR_CTE_PTR (ksCurThread s) tcbCTable) = Some root" "lookup_fp s (cte_cap root) cptr = Some cap"
    "cap \<noteq> NullCap \<Longrightarrow> lookupCap s (ksCurThread s) cptr = Some (Inr cap)"
    "\<And>b cgr cg cs cr ep. cap = EndpointCap b cgr cg cs cr ep \<Longrightarrow> eps s ep \<noteq> None"
    using lookup_fp_cap[OF k, of "ksCurThread s" cptr] t by auto
  note start = t f cap(1,2)
  obtain act where act: "(if tcbBoundNotification t \<noteq> 0 then map_option (\<lambda>n. ntfn_state n = NtfnState_Active) (ntfns s (tcbBoundNotification t)) else Some False) = Some act"
      "\<not> act \<longrightarrow> tcbBoundNotification t = 0 \<or> (\<exists>n. ntfns s (tcbBoundNotification t) = Some n \<and> ntfn_state n \<noteq> NtfnState_Active)"
  proof (cases "tcbBoundNotification t = 0")
    case False
    then obtain n where "ntfns s (tcbBoundNotification t) = Some n" using k t unfolding kernel_entry_def valid_bound_def by blast
    then show ?thesis using False that[of "ntfn_state n = NtfnState_Active"] by simp
  qed (use that[of False] in simp)
  show ?thesis
  proof (cases "\<exists>b cgr cg cs ep. cap = EndpointCap b cgr cg cs True ep")
    case False
    then show ?thesis using start by (cases cap) (auto simp: fastpath_reply_recv_def Let_def)
  next
    case True
    then obtain b cgr cg cs ep where c: "cap = EndpointCap b cgr cg cs True ep" by blast
    obtain e where e: "eps s ep = Some e" using cap(4)[OF c] by blast
    obtain cc where cc: "ctes s (TCB_PTR_CTE_PTR (ksCurThread s) tcbCaller) = Some cc" "cte_cap cc = NullCap \<or> (\<exists>g caller d. cc = reply_cte g caller \<and>
        ctes s (TCB_PTR_CTE_PTR caller tcbReply) = Some (called_master caller (TCB_PTR_CTE_PTR (ksCurThread s) tcbCaller)) \<and>
        tcbs s caller = Some d \<and> tsType d = ThreadState_BlockedOnReply)"
      using k t unfolding kernel_entry_def valid_callers_def by (fastforce simp: empty_cte_def)
    note start = start c e act(1) cc(1)
    show ?thesis
    proof (cases "act \<or> ep_state e = EPState_Send \<or> cte_cap cc = NullCap")
      case True
      then show ?thesis using start by (auto simp: fastpath_reply_recv_def Let_def)
    next
      case ok: False
      then obtain g caller d where g: "cc = reply_cte g caller" "ctes s (TCB_PTR_CTE_PTR caller tcbReply) = Some (called_master caller (TCB_PTR_CTE_PTR (ksCurThread s) tcbCaller))"
        "tcbs s caller = Some d" "tsType d = ThreadState_BlockedOnReply" using cc(2) by blast
      have cap': "cte_cap cc = ReplyCap g False caller" using g(1) by (simp add: reply_cte_def)
      obtain v where v: "ctes s (TCB_PTR_CTE_PTR caller tcbVTable) = Some v" using entry_slots(2)[OF k] g(3) by blast
      note start = start ok cap' g(3) v
      show ?thesis
      proof (cases "tcbFault d \<noteq> Fault_NullFault \<or> \<not> isValidVTableRoot_fp (cte_cap v)")
        case True
        then show ?thesis using start by (auto simp: fastpath_reply_recv_def Let_def)
      next
        case valid: False
        then obtain asid root' where vs: "cte_cap v = ArchCap (VSpaceCap asid root' True)" "cap_vspace_cap_get (cte_cap v) = Some (asid, root')" using valid_vtable by blast
        obtain h where h: "isHighestPrio s (ksCurDomain s) (tcbPriority d) = Some h"
          using isHighestPrio_ok[of "{}" s "tcbPriority d"] k unfolding kernel_entry_def valid_sched_def by blast
        note dm = domain_guard[OF k g(3)]
        let ?ok = "asid_map_is s asid root' \<and> h \<and> \<not> (tcbDomain d \<noteq> ksCurDomain s \<and> numDomains s > 1)"
        have eq: "fastpath_reply_recv cptr w s = (if ?ok then do { s \<leftarrow> fastpath_reply_recv_commit cap ep caller root' asid w s; Some (Restore 0 (wordFromMessageInfo (mi_set_capsUnwrapped w 0)), s) }
            else Some (Slowpath SysReplyRecv, s))"
          using start valid vs(2) h unfolding fastpath_reply_recv_def by (auto simp: Let_def dm(1))
        show ?thesis
        proof (cases ?ok)
          case True
          then have gg: "tcbDomain d = ksCurDomain s" "isHighestPrio s (ksCurDomain s) (tcbPriority d) = Some True" "asid_map_is s asid root'"
            using dm(2) h by auto
          have nf: "tcbFault t = Fault_NullFault" "\<not> fastpath_mi_check w" "tcbFault d = Fault_NullFault" "ep_state e \<noteq> EPState_Send"
            and lc: "lookupCap s (ksCurThread s) cptr = Some (Inr (EndpointCap b cgr cg cs True ep))"
            and nb: "tcbBoundNotification t = 0 \<or> (\<exists>n. ntfns s (tcbBoundNotification t) = Some n \<and> ntfn_state n \<noteq> NtfnState_Active)"
            using f valid ok cap(3) c act(2) by simp_all
          obtain s' s2 where "fastpath_reply_recv_commit cap ep caller root' asid w s = Some s'" "handleSyscall decode maxIRQ active SysReplyRecv s = Some s2"
              "same_but_objects (restored 0 (mi_set_capsUnwrapped w 0) s') s2"
            using reply_recv_agrees[OF k t nf(1) regs nf(2) lc nb e nf(4) cc(1)[unfolded g(1)] g(2,3,4) nf(3) gg(1) v vs(1) gg(3,2)] c by blast
          then show ?thesis using True unfolding eq by (simp add: fp_agrees_def wordFromMessageInfo_def)
        qed (auto simp: eq)
      qed
    qed
  qed
qed

interpretation fpc: fast_path fastpath_call SysCall
  by unfold_locales (rule fastpath_call_agrees)

interpretation fprr: fast_path fastpath_reply_recv SysReplyRecv
  by unfold_locales (rule fastpath_reply_recv_agrees)

subsection \<open>A client and a server\<close>

text \<open>
  A running client with an endpoint capability at address 1 and a server that waits on that endpoint, in an
  address space of its own.
\<close>

definition ex_call :: kernel_state where
  "ex_call = ex_kernel\<lparr>
     tcbs := [0x1000 \<mapsto> ex_thread ThreadState_IdleThreadState 0,
              0x2000 \<mapsto> (ex_thread ThreadState_Running 5)\<lparr>tcbContext := (\<lambda>_. 0)(0 := 1, 1 := 2, 2 := 0x11, 3 := 0x22, 5 := 10)\<rparr>,
              0x3000 \<mapsto> (ex_thread ThreadState_BlockedOnReceive 9)\<lparr>blockingObject := 0x5000\<rparr>],
     eps := [0x5000 \<mapsto> \<lparr>epQueue_head = 0x3000, epQueue_tail = 0x3000, ep_state = EPState_Recv\<rparr>],
     ctes := (\<lambda>_. Some empty_cte)(
       0x2000 := Some \<lparr>cte_cap = CNodeCap 2 62 0 0x8000, cteMDBNode = nullMDBNode\<rparr>,
       0x2040 := Some (reply_master 0x2000),
       0x3020 := Some \<lparr>cte_cap = ArchCap (VSpaceCap 1 0x48000 True), cteMDBNode = nullMDBNode\<rparr>,
       0x8020 := Some \<lparr>cte_cap = EndpointCap 0x77 True True True True 0x5000, cteMDBNode = nullMDBNode\<rparr>,
       0 := None),
     ksArch := (ksArch ex_kernel)\<lparr>armKSASIDTable := (\<lambda>_. 0)(0 := 0x50000), asidPools := (\<lambda>_ _. asid_map_none)(0x50000 := (\<lambda>_. asid_map_none)(1 := asid_map_vspace 0x48000))\<rparr>,
     ipcServerList := (replicate 128 \<lparr>ServerThread = 0, svc_func = 0, svc_stk = 0\<rparr>)[10 := \<lparr>ServerThread = 0x3000, svc_func = 0x400000, svc_stk = 0x7000\<rparr>]\<rparr>"

definition ex_call_waiting :: "wait_obj \<Rightarrow> ptr list" where
  "ex_call_waiting = (\<lambda>_. [])(EP 0x5000 := [0x3000])"

lemma ex_slots:
  "TCB_PTR_CTE_PTR 0x1000 i = 0x1000 + push_bit 5 i" "TCB_PTR_CTE_PTR 0x2000 i = 0x2000 + push_bit 5 i" "TCB_PTR_CTE_PTR 0x3000 i = 0x3000 + push_bit 5 i"
  by (simp_all add: TCB_PTR_CTE_PTR_def cte_at_index_def MASKw_def MASK_def BIT_def seL4_TCBBits_def push_bit_eq_mult)

lemma ex_slot_numbers:
  "TCB_PTR_CTE_PTR 0x2000 tcbCTable = 0x2000" "TCB_PTR_CTE_PTR 0x2000 tcbVTable = 0x2020" "TCB_PTR_CTE_PTR 0x2000 tcbReply = 0x2040" "TCB_PTR_CTE_PTR 0x2000 tcbCaller = 0x2060"
  "TCB_PTR_CTE_PTR 0x3000 tcbCTable = 0x3000" "TCB_PTR_CTE_PTR 0x3000 tcbVTable = 0x3020" "TCB_PTR_CTE_PTR 0x3000 tcbReply = 0x3040" "TCB_PTR_CTE_PTR 0x3000 tcbCaller = 0x3060"
  "TCB_PTR_CTE_PTR 0x1000 tcbCaller = 0x1060"
  by (simp_all add: ex_slots tcbCTable_def tcbVTable_def tcbReply_def tcbCaller_def push_bit_eq_mult)

lemma entries_less: "i < tcbCNodeEntries \<Longrightarrow> i = 0 \<or> i = 1 \<or> i = 2 \<or> i = 3 \<or> i = 4"
proof -
  assume "i < tcbCNodeEntries"
  then have "unat i < 5" by (simp add: tcbCNodeEntries_def word_less_nat_alt)
  then have "unat i = 0 \<or> unat i = 1 \<or> unat i = 2 \<or> unat i = 3 \<or> unat i = 4" by linarith
  then show ?thesis by (auto simp: word_unat_eq_iff)
qed

lemma ex_thread_slots:
  assumes "p = 0x1000 \<or> p = 0x2000 \<or> p = 0x3000" "i < tcbCNodeEntries"
  shows "TCB_PTR_CTE_PTR p i \<noteq> 0"
  using assms(1) entries_less[OF assms(2)] by (elim disjE) (simp_all add: ex_slots push_bit_eq_mult)

lemma ex_call_ctes: "ctes ex_call p = None \<longleftrightarrow> p = 0"
  by (auto simp: ex_call_def)

lemma ex_call_sched: "valid_sched ex_call"
proof -
  have q: "valid_queues ex_call (\<lambda>_. [])"
    by (auto simp: valid_queues_def ex_call_def ex_kernel_def valid_tcb_def ex_thread_def bitmap_ok_def nonempty_def seL4_MaxPrio_def split: if_splits)
  have n: "qset ex_call = {}" using qset_queues[OF q] by simp
  have s: "thread_slots ex_call" unfolding thread_slots_def ex_call_ctes using ex_thread_slots by (auto simp: ex_call_def split: if_splits)
  have c: "ksCurThread ex_call = 0x2000" "ksIdleThread ex_call = 0x1000" "ksSchedulerAction ex_call = 0" by (simp_all add: ex_call_def ex_kernel_def)
  have "base_sched {} ex_call" unfolding base_sched_def c n using q s
    by (auto simp: valid_q_def valid_dom_def) (auto simp: ex_call_def ex_kernel_def ex_thread_def)
  moreover have "vm_current ex_call" unfolding vm_current_def vm_root_def c ex_slot_numbers by (simp add: ex_call_def ex_kernel_def empty_cte_def)
  moreover have "runnable ex_call 0x2000" by (simp add: runnable_tcb ex_call_def ex_thread_def)
  ultimately show ?thesis unfolding valid_sched_def valid_action_def c n by (simp add: SchedulerAction_ResumeCurrentThread_def)
qed

lemma ex_call_ipc: "valid_ipc ex_call ex_call_waiting"
  unfolding valid_ipc_def
proof (intro conjI allI impI)
  show "valid_wq ex_call ob (ex_call_waiting ob)" for ob
    by (auto simp: valid_wq_def wq_def ex_call_def ex_kernel_def ex_call_waiting_def ep_queue_def is_queue_def ep_ptr_get_queue_def
        ep_kind_def waits_def ex_thread_def split: wait_obj.splits)
next
  fix x t k ob
  assume "tcbs ex_call x = Some t \<and> waits t = Some (k, ob)"
  then show "x \<in> set (ex_call_waiting ob)" by (auto simp: ex_call_def ex_call_waiting_def waits_def ex_thread_def split: if_splits)
qed

lemma ex_call_entry: "kernel_entry ex_call ex_call_waiting"
proof -
  have four: "i < 4 \<Longrightarrow> i = 0 \<or> i = 1 \<or> i = 2 \<or> i = 3" for i :: nat by arith
  have slots: "ctes ex_call (cte_at_index 0x8000 (of_nat i)) \<noteq> None" if "i < 4" for i
    using four[OF that] unfolding ex_call_ctes by (elim disjE) (simp_all add: cte_at_index_def push_bit_eq_mult)
  have "valid_cspace ex_call" unfolding valid_cspace_def cnode_slots_def
    using slots by (auto simp: ex_call_def reply_master_def empty_cte_def and_MASKw split: if_splits)
  moreover have "valid_replies ex_call" unfolding valid_replies_def
    by (auto simp: ex_call_def ex_thread_def ex_slot_numbers split: if_splits)
  moreover have "valid_callers ex_call" unfolding valid_callers_def
    by (auto simp: ex_call_def ex_slot_numbers split: if_splits)
  moreover have "valid_cap_objs ex_call" unfolding valid_cap_objs_def
    by (auto simp: ex_call_def reply_master_def empty_cte_def split: if_splits)
  moreover have "valid_bound ex_call" by (auto simp: valid_bound_def ex_call_def ex_thread_def split: if_splits)
  ultimately show ?thesis using ex_call_sched ex_call_ipc
    by (simp add: kernel_entry_def) (simp add: ex_call_def ex_kernel_def ex_thread_def SchedulerAction_ResumeCurrentThread_def)
qed

text \<open>The same system while the server handles the call, with the client blocked on the reply.\<close>

definition ex_reply :: kernel_state where
  "ex_reply = ex_call\<lparr>
     tcbs := [0x1000 \<mapsto> ex_thread ThreadState_IdleThreadState 0,
              0x2000 \<mapsto> ex_thread ThreadState_BlockedOnReply 5,
              0x3000 \<mapsto> (ex_thread ThreadState_Running 9)\<lparr>tcbContext := (\<lambda>_. 0)(0 := 1, 1 := 1, 2 := 0x99)\<rparr>],
     eps := [0x5000 \<mapsto> \<lparr>epQueue_head = 0, epQueue_tail = 0, ep_state = EPState_Idle\<rparr>],
     ctes := (ctes ex_call)(
       0x3000 := Some \<lparr>cte_cap = CNodeCap 2 62 0 0x8000, cteMDBNode = nullMDBNode\<rparr>,
       0x2020 := Some \<lparr>cte_cap = ArchCap (VSpaceCap 2 0x4c000 True), cteMDBNode = nullMDBNode\<rparr>,
       0x2040 := Some (called_master 0x2000 0x3060), 0x3040 := Some (reply_master 0x3000), 0x3060 := Some (reply_cte True 0x2000)),
     ksArch := (ksArch ex_call)\<lparr>asidPools := (\<lambda>_ _. asid_map_none)(0x50000 := (\<lambda>_. asid_map_none)(1 := asid_map_vspace 0x48000, 2 := asid_map_vspace 0x4c000)),
       ttbr := (1, pptr_to_paddr 0x48000)\<rparr>,
     ksCurThread := 0x3000\<rparr>"

lemma ex_reply_ctes: "ctes ex_reply p = None \<longleftrightarrow> p = 0"
  by (auto simp: ex_reply_def ex_call_ctes)

lemma ex_reply_sched: "valid_sched ex_reply"
proof -
  have q: "valid_queues ex_reply (\<lambda>_. [])"
    by (auto simp: valid_queues_def ex_reply_def ex_call_def ex_kernel_def valid_tcb_def ex_thread_def bitmap_ok_def nonempty_def seL4_MaxPrio_def split: if_splits)
  have n: "qset ex_reply = {}" using qset_queues[OF q] by simp
  have s: "thread_slots ex_reply" unfolding thread_slots_def ex_reply_ctes using ex_thread_slots by (auto simp: ex_reply_def split: if_splits)
  have c: "ksCurThread ex_reply = 0x3000" "ksIdleThread ex_reply = 0x1000" "ksSchedulerAction ex_reply = 0" by (simp_all add: ex_reply_def ex_call_def ex_kernel_def)
  have "base_sched {} ex_reply" unfolding base_sched_def c n using q s
    by (auto simp: valid_q_def valid_dom_def) (auto simp: ex_reply_def ex_call_def ex_kernel_def ex_thread_def)
  moreover have "findVSpaceForASID ex_reply 1 = Inr 0x48000"
    by (simp add: findVSpaceForASID_def findMapForASID_def ex_reply_def ex_call_def ASID_POOL_def ASID_LOW_def asidLowBits_def MASKw_def MASK_def BIT_def push_bit_eq_mult drop_bit_eq_div)
  then have "vm_current ex_reply" unfolding vm_current_def vm_root_def c ex_slot_numbers by (simp add: ex_reply_def ex_call_def)
  moreover have "runnable ex_reply 0x3000" by (simp add: runnable_tcb ex_reply_def ex_thread_def)
  ultimately show ?thesis unfolding valid_sched_def valid_action_def c n by (simp add: SchedulerAction_ResumeCurrentThread_def)
qed

lemma ex_reply_ipc: "valid_ipc ex_reply (\<lambda>_. [])"
  unfolding valid_ipc_def
proof (intro conjI allI impI)
  show "valid_wq ex_reply ob []" for ob
    by (auto simp: valid_wq_def wq_def ex_reply_def ex_call_def ex_kernel_def ep_queue_def is_queue_def ep_ptr_get_queue_def ep_kind_def split: wait_obj.splits)
next
  fix x t k ob
  assume "tcbs ex_reply x = Some t \<and> waits t = Some (k, ob)"
  then show "x \<in> set []" by (auto simp: ex_reply_def waits_def ex_thread_def split: if_splits)
qed

lemma ex_reply_entry: "kernel_entry ex_reply (\<lambda>_. [])"
proof -
  have four: "i < 4 \<Longrightarrow> i = 0 \<or> i = 1 \<or> i = 2 \<or> i = 3" for i :: nat by arith
  have slots: "ctes ex_reply (cte_at_index 0x8000 (of_nat i)) \<noteq> None" if "i < 4" for i
    using four[OF that] unfolding ex_reply_ctes by (elim disjE) (simp_all add: cte_at_index_def push_bit_eq_mult)
  have "valid_cspace ex_reply" unfolding valid_cspace_def cnode_slots_def
    using slots by (auto simp: ex_reply_def ex_call_def reply_master_def called_master_def reply_cte_def empty_cte_def and_MASKw split: if_splits)
  moreover have "valid_replies ex_reply" unfolding valid_replies_def
    by (auto simp: ex_reply_def ex_call_def ex_thread_def ex_slot_numbers split: if_splits)
  moreover have "valid_callers ex_reply" unfolding valid_callers_def
  proof (intro conjI allI impI)
    show "ctes ex_reply 0 = None" by (simp add: ex_reply_ctes)
    fix p t assume "tcbs ex_reply p = Some t"
    then have "p = 0x1000 \<or> p = 0x2000 \<or> p = 0x3000" by (auto simp: ex_reply_def split: if_splits)
    moreover have "ctes ex_reply (TCB_PTR_CTE_PTR 0x1000 tcbCaller) = Some empty_cte" "ctes ex_reply (TCB_PTR_CTE_PTR 0x2000 tcbCaller) = Some empty_cte"
      "ctes ex_reply (TCB_PTR_CTE_PTR 0x3000 tcbCaller) = Some (reply_cte True 0x2000)"
      "ctes ex_reply (TCB_PTR_CTE_PTR 0x2000 tcbReply) = Some (called_master 0x2000 (TCB_PTR_CTE_PTR 0x3000 tcbCaller))"
      "\<exists>d. tcbs ex_reply 0x2000 = Some d \<and> tsType d = ThreadState_BlockedOnReply"
      by (simp_all add: ex_slot_numbers ex_reply_def ex_call_def ex_thread_def)
    ultimately show "ctes ex_reply (TCB_PTR_CTE_PTR p tcbCaller) = Some empty_cte \<or>
       (\<exists>g q d. ctes ex_reply (TCB_PTR_CTE_PTR p tcbCaller) = Some (reply_cte g q) \<and>
          ctes ex_reply (TCB_PTR_CTE_PTR q tcbReply) = Some (called_master q (TCB_PTR_CTE_PTR p tcbCaller)) \<and>
          tcbs ex_reply q = Some d \<and> tsType d = ThreadState_BlockedOnReply)" by blast
  qed
  moreover have "valid_cap_objs ex_reply" unfolding valid_cap_objs_def
    by (auto simp: ex_reply_def ex_call_def reply_master_def called_master_def reply_cte_def empty_cte_def split: if_splits)
  moreover have "valid_bound ex_reply" by (auto simp: valid_bound_def ex_reply_def ex_thread_def split: if_splits)
  ultimately show ?thesis using ex_reply_sched ex_reply_ipc
    by (simp add: kernel_entry_def) (simp add: ex_reply_def ex_call_def ex_kernel_def ex_thread_def SchedulerAction_ResumeCurrentThread_def)
qed

lemma ex_lookup_fp:
  assumes "map_option cte_cap (ctes s 0x8020) = Some (EndpointCap 0x77 True True True True 0x5000)"
  shows "lookup_fp s (CNodeCap 2 62 0 0x8000) 1 = Some (EndpointCap 0x77 True True True True 0x5000)"
proof -
  have "lookup_fp_loop s 1 (CNodeCap 2 62 0 0x8000) 0 = Some (Inr (EndpointCap 0x77 True True True True 0x5000, 64))"
    using assms by (subst lookup_fp_loop.simps) (clarsimp simp: Let_def cte_at_index_def push_bit_eq_mult drop_bit_eq_div wordBits_def)
  then show ?thesis by (simp add: lookup_fp_def wordBits_def)
qed

lemma ex_asid: "asid_map_is ex_call 1 0x48000" "asid_map_is ex_reply 2 0x4c000"
  by (simp_all add: asid_map_is_def findMapForASID_def ex_reply_def ex_call_def ASID_POOL_def ASID_LOW_def asidLowBits_def MASKw_def MASK_def BIT_def push_bit_eq_mult drop_bit_eq_div)

lemma ex_call_fast: "\<exists>s'. fastpath_call 1 2 ex_call = Some (Restore 0x77 2, s')"
proof -
  let ?e = "\<lparr>epQueue_head = 0x3000, epQueue_tail = 0x3000, ep_state = EPState_Recv\<rparr>"
  have c: "ksCurThread ex_call = 0x2000" "ctes ex_call 0x2000 = Some \<lparr>cte_cap = CNodeCap 2 62 0 0x8000, cteMDBNode = nullMDBNode\<rparr>"
    "eps ex_call 0x5000 = Some ?e" "ctes ex_call 0x3020 = Some \<lparr>cte_cap = ArchCap (VSpaceCap 1 0x48000 True), cteMDBNode = nullMDBNode\<rparr>"
    "ctes ex_call 0x2040 = Some (reply_master 0x2000)" "ctes ex_call 0x3060 = Some empty_cte" "ksCurDomain ex_call = 0" "numDomains ex_call = 2"
    by (simp_all add: ex_call_def ex_kernel_def)
  obtain t d where t: "tcbs ex_call 0x2000 = Some t" "tcbFault t = Fault_NullFault" "tcbPriority t = 5"
      and d: "tcbs ex_call 0x3000 = Some d" "tcbPriority d = 9" "tcbDomain d = 0" "tcbEPNext d = 0" by (simp add: ex_call_def ex_thread_def)
  have l: "lookup_fp ex_call (CNodeCap 2 62 0 0x8000) 1 = Some (EndpointCap 0x77 True True True True 0x5000)"
    by (rule ex_lookup_fp) (simp_all add: ex_call_def)
  have m: "\<not> fastpath_mi_check 2" "mi_set_capsUnwrapped 2 0 = 2" by (simp_all add: fastpath_mi_check_def mi_set_capsUnwrapped_def)
  obtain s' where s': "fastpath_call_commit 0x5000 0x3000 0x48000 1 2 ex_call = Some s'"
    using fastpath_call_commit_eq[of ex_call "0x5000" ?e "0x3000" d "0x2000" t 2 "0x48000" 1] c t d m by (auto simp: ex_slot_numbers)
  show ?thesis using c t d l m s' ex_asid(1)
    by (simp add: fastpath_call_def Let_def ex_slot_numbers isValidVTableRoot_fp_def cap_vspace_cap_get_def wordFromMessageInfo_def)
qed

subsection \<open>Properties of the fast paths and of registered servers\<close>

text \<open>
  The capability lookup of the fast path, which shifts the address to the left and defers the
  check of its length, always returns, and returns the capability the kernel's lookup finds, or a null
  capability where that lookup fails.
\<close>

lemma lookup_fp_equiv:
  assumes "valid_cspace s" "ctes s (TCB_PTR_CTE_PTR thread tcbCTable) = Some root"
  shows "\<exists>r. lookupCap s thread cptr = Some r \<and> lookup_fp s (cte_cap root) cptr = Some (case r of Inl _ \<Rightarrow> NullCap | Inr cap \<Rightarrow> cap)"
  by (rule lookup_fp_eq[OF assms])

text \<open>
  C4. From every state in which the kernel's invariants hold and the current thread runs, the fast path of
  a call is defined and either leaves the state as it is for the slow path, or returns to user mode in the
  state the slow path (lookup, decoding, message transfer, reply capability, scheduling and activation)
  produces, up to the object pointers of threads that wait for nothing.
\<close>

theorem fastpath_call_slowpath:
  assumes "kernel_entry s W" "tcbs s (ksCurThread s) = Some t" "tcbContext t capRegister = cptr" "tcbContext t msgInfoRegister = msgInfo"
  shows "fastpath_call cptr msgInfo s = Some (Slowpath SysCall, s) \<or>
    (\<exists>badge info s' s2. fastpath_call cptr msgInfo s = Some (Restore badge info, s') \<and>
       handleSyscall decode maxIRQ active SysCall s = Some s2 \<and> same_but_objects (restored badge info s') s2)"
  by (rule fpc.slowpath[OF assms])

theorem fastpath_call_slowpath_witness:
  "\<exists>badge info s' s2. fastpath_call 1 2 ex_call = Some (Restore badge info, s') \<and>
     handleSyscall (\<lambda>_ _ _ _ _ _ _ _ _. None) 0 None SysCall ex_call = Some s2 \<and> same_but_objects (restored badge info s') s2"
proof -
  obtain t where "tcbs ex_call (ksCurThread ex_call) = Some t" "tcbContext t capRegister = 1" "tcbContext t msgInfoRegister = 2"
    by (simp add: ex_call_def ex_kernel_def capRegister_def msgInfoRegister_def)
  from fastpath_call_slowpath[OF ex_call_entry this, of "\<lambda>_ _ _ _ _ _ _ _ _. None" 0 None] ex_call_fast show ?thesis by auto
qed

text \<open>
  C5. Likewise the fast path of a reply followed by a receive is defined and either leaves the
  state to the slow path or produces the state of the slow path, which replies, deletes the reply capability,
  queues the thread on the endpoint and switches to the caller.
\<close>

theorem fastpath_reply_recv_slowpath:
  assumes "kernel_entry s W" "tcbs s (ksCurThread s) = Some t" "tcbContext t capRegister = cptr" "tcbContext t msgInfoRegister = msgInfo"
  shows "fastpath_reply_recv cptr msgInfo s = Some (Slowpath SysReplyRecv, s) \<or>
    (\<exists>badge info s' s2. fastpath_reply_recv cptr msgInfo s = Some (Restore badge info, s') \<and>
       handleSyscall decode maxIRQ active SysReplyRecv s = Some s2 \<and> same_but_objects (restored badge info s') s2)"
  by (rule fprr.slowpath[OF assms])

lemma ex_reply_fast: "\<exists>s'. fastpath_reply_recv 1 1 ex_reply = Some (Restore 0 1, s')"
proof -
  let ?e = "\<lparr>epQueue_head = 0, epQueue_tail = 0, ep_state = EPState_Idle\<rparr>"
  have c: "ksCurThread ex_reply = 0x3000" "ctes ex_reply 0x3000 = Some \<lparr>cte_cap = CNodeCap 2 62 0 0x8000, cteMDBNode = nullMDBNode\<rparr>"
    "eps ex_reply 0x5000 = Some ?e" "ctes ex_reply 0x2020 = Some \<lparr>cte_cap = ArchCap (VSpaceCap 2 0x4c000 True), cteMDBNode = nullMDBNode\<rparr>"
    "ctes ex_reply 0x2040 = Some (called_master 0x2000 0x3060)" "ctes ex_reply 0x3060 = Some (reply_cte True 0x2000)" "ksCurDomain ex_reply = 0" "numDomains ex_reply = 2"
    "ksReadyQueuesL1Bitmap ex_reply 0 = 0"
    by (simp_all add: ex_reply_def ex_call_def ex_kernel_def)
  obtain t d where t: "tcbs ex_reply 0x3000 = Some t" "tcbFault t = Fault_NullFault" "tcbBoundNotification t = 0"
      and d: "tcbs ex_reply 0x2000 = Some d" "tcbFault d = Fault_NullFault" "tcbDomain d = 0" by (simp add: ex_reply_def ex_thread_def)
  have l: "lookup_fp ex_reply (CNodeCap 2 62 0 0x8000) 1 = Some (EndpointCap 0x77 True True True True 0x5000)"
    by (rule ex_lookup_fp) (simp_all add: ex_reply_def ex_call_def)
  have m: "\<not> fastpath_mi_check 1" "mi_set_capsUnwrapped 1 0 = 1" by (simp_all add: fastpath_mi_check_def mi_set_capsUnwrapped_def)
  obtain s' where s': "fastpath_reply_recv_commit (EndpointCap 0x77 True True True True 0x5000) 0x5000 0x2000 0x4c000 2 1 ex_reply = Some s'"
    using fastpath_reply_recv_commit_eq[of ex_reply t 1 "0x2000" d True "0x5000" ?e "0x77" True True True True "0x4c000" 2] c t d m by (auto simp: ex_slot_numbers)
  show ?thesis using c t d l m s' ex_asid(2)
    by (simp add: fastpath_reply_recv_def Let_def ex_slot_numbers isValidVTableRoot_fp_def cap_vspace_cap_get_def wordFromMessageInfo_def reply_cte_def isHighestPrio_def)
qed

theorem fastpath_reply_recv_slowpath_witness:
  "\<exists>badge info s' s2. fastpath_reply_recv 1 1 ex_reply = Some (Restore badge info, s') \<and>
     handleSyscall (\<lambda>_ _ _ _ _ _ _ _ _. None) 0 None SysReplyRecv ex_reply = Some s2 \<and> same_but_objects (restored badge info s') s2"
proof -
  obtain t where "tcbs ex_reply (ksCurThread ex_reply) = Some t" "tcbContext t capRegister = 1" "tcbContext t msgInfoRegister = 1"
    by (simp add: ex_reply_def capRegister_def msgInfoRegister_def)
  from fastpath_reply_recv_slowpath[OF ex_reply_entry this, of "\<lambda>_ _ _ _ _ _ _ _ _. None" 0 None] ex_reply_fast show ?thesis by auto
qed

text \<open>
  C17. Registering a server keeps the next port within the table, records the thread, its entry point and its
  stack at the next port, changes no other entry and returns the port in \<open>X4\<close>; after port 127 the next
  port is 0 again.
\<close>

theorem register_port:
  assumes "valid_ports s" "tcbs s (ksCurThread s) = Some t"
  shows "\<exists>s'. handleRegister s = Some s' \<and> valid_ports s' \<and>
    ipcServerList s' ! nat (ipcServerList_top s) = \<lparr>ServerThread = ksCurThread s, svc_func = tcbContext t X5, svc_stk = tcbContext t X4\<rparr> \<and>
    (\<forall>i. i \<noteq> nat (ipcServerList_top s) \<longrightarrow> ipcServerList s' ! i = ipcServerList s ! i) \<and>
    map_option (\<lambda>t. tcbContext t X4) (tcbs s' (ksCurThread s)) = Some (word_of_int (ipcServerList_top s)) \<and>
    ipcServerList_top s' = (if ipcServerList_top s = 127 then 0 else ipcServerList_top s + 1)"
  using handleRegister_eq[OF assms] assms(1) by (auto simp: valid_ports_def SERVER_PORT_NUM_def)

theorem register_port_witness:
  "\<exists>s'. handleRegister ex_call = Some s' \<and> valid_ports s' \<and> ipcServerList_top s' = 11 \<and> ServerThread (ipcServerList s' ! 10) = 0x2000"
proof -
  have v: "valid_ports ex_call" and top: "ipcServerList_top ex_call = 10" and cur: "ksCurThread ex_call = 0x2000"
    by (simp_all add: valid_ports_def ex_call_def ex_kernel_def SERVER_PORT_NUM_def)
  obtain t where t: "tcbs ex_call (ksCurThread ex_call) = Some t" by (simp add: ex_call_def ex_kernel_def)
  show ?thesis using register_port[OF v t] unfolding top cur by auto
qed

text \<open>
  C15. The call of a registered server enters the server thread at its registered entry point whatever state
  that thread is in and whatever capabilities the caller has: the outcome does not depend on the capability
  address, the server is made running and current with the copied message registers and its stack in \<open>X21\<close>,
  and the caller is blocked on a reply.
\<close>

theorem call_boost_enters:
  assumes "tcbs s (ksCurThread s) = Some t" "tcbContext t X5 = word_of_int port"
    and "0 \<le> port" "nat port < length (ipcServerList s)" "port < SERVER_PORT_NUM"
    and "ipcServerList s ! nat port = \<lparr>ServerThread = dest, svc_func = func, svc_stk = stk\<rparr>"
    and "tcbs s dest = Some d" "dest \<noteq> ksCurThread s"
    and "map_option cte_cap (ctes s (TCB_PTR_CTE_PTR dest tcbVTable)) = Some (ArchCap (VSpaceCap asid root mapped))" "asid_map_is s asid root"
    and "ctes s (TCB_PTR_CTE_PTR (ksCurThread s) tcbReply) = Some r" "ctes s (TCB_PTR_CTE_PTR dest tcbCaller) = Some cc"
      "TCB_PTR_CTE_PTR (ksCurThread s) tcbReply \<noteq> TCB_PTR_CTE_PTR dest tcbCaller"
    and "2 + unat (mi_get_length w) \<le> n_contextRegisters"
  shows "\<exists>s' d'. (\<forall>cptr. fastpath_callBoost cptr w s = Some (Restore 1 (mi_set_capsUnwrapped w 0), s')) \<and>
    ksCurThread s' = dest \<and> tcbs s' dest = Some d' \<and> tsType d' = ThreadState_Running \<and>
    tcbContext d' NextIP = func \<and> tcbContext d' X21 = stk \<and>
    (\<forall>i < unat (mi_get_length w). 2 + i \<noteq> X21 \<and> 2 + i \<noteq> NextIP \<longrightarrow> tcbContext d' (2 + i) = tcbContext t (2 + i)) \<and>
    map_option tsType (tcbs s' (ksCurThread s)) = Some ThreadState_BlockedOnReply"
  using callBoost_eq[OF assms] assms(8) by (simp add: regs_from_def X21_def NextIP_def)

theorem call_boost_enters_witness:
  "\<exists>s' d'. (\<forall>cptr. fastpath_callBoost cptr 2 ex_call = Some (Restore 1 2, s')) \<and> ksCurThread s' = 0x3000 \<and> tcbs s' 0x3000 = Some d' \<and> tcbContext d' NextIP = 0x400000"
proof -
  have m: "mi_set_capsUnwrapped 2 0 = 2" "mi_get_length 2 = 2" by (simp_all add: mi_set_capsUnwrapped_def mi_get_length_def)
  obtain t d where t: "tcbs ex_call (ksCurThread ex_call) = Some t" "tcbContext t X5 = word_of_int 10" "tcbs ex_call 0x3000 = Some d"
    by (simp add: ex_call_def ex_kernel_def X5_def)
  have cur: "ksCurThread ex_call = 0x2000" by (simp add: ex_call_def ex_kernel_def)
  have "\<exists>s' d'. (\<forall>cptr. fastpath_callBoost cptr 2 ex_call = Some (Restore 1 (mi_set_capsUnwrapped 2 0), s')) \<and>
    ksCurThread s' = 0x3000 \<and> tcbs s' 0x3000 = Some d' \<and> tsType d' = ThreadState_Running \<and>
    tcbContext d' NextIP = 0x400000 \<and> tcbContext d' X21 = 0x7000 \<and>
    (\<forall>i < unat (mi_get_length 2). 2 + i \<noteq> X21 \<and> 2 + i \<noteq> NextIP \<longrightarrow> tcbContext d' (2 + i) = tcbContext t (2 + i)) \<and>
    map_option tsType (tcbs s' (ksCurThread ex_call)) = Some ThreadState_BlockedOnReply"
    by (rule call_boost_enters[OF t(1,2) _ _ _ _ t(3) _ _ ex_asid(1), where mapped = True and r = "reply_master 0x2000" and cc = empty_cte])
      (simp_all add: cur ex_slot_numbers m n_contextRegisters_def SERVER_PORT_NUM_def, simp_all add: ex_call_def)
  then show ?thesis using m by auto
qed

text \<open>
  C16. Called in a state with a well-formed capability derivation tree while another client still waits for
  the reply of the server, it overwrites that client's reply capability: the caller slot of the server, which held it, then holds the reply
  capability of the new caller and links back to the new caller's reply master, while the reply master of the first client keeps its link to the slot.
  No choice of chains makes the capability derivation tree well formed any more.
\<close>

theorem call_boost_corrupts:
  assumes "tcbs s (ksCurThread s) = Some t" "tcbContext t X5 = word_of_int port"
    and "0 \<le> port" "nat port < length (ipcServerList s)" "port < SERVER_PORT_NUM"
    and "ipcServerList s ! nat port = \<lparr>ServerThread = dest, svc_func = func, svc_stk = stk\<rparr>"
    and "tcbs s dest = Some d" "dest \<noteq> ksCurThread s"
    and "map_option cte_cap (ctes s (TCB_PTR_CTE_PTR dest tcbVTable)) = Some (ArchCap (VSpaceCap asid root mapped))" "asid_map_is s asid root"
    and "ctes s (TCB_PTR_CTE_PTR (ksCurThread s) tcbReply) = Some (reply_master (ksCurThread s))"
    and "ctes s (TCB_PTR_CTE_PTR dest tcbCaller) = Some (reply_cte g client)" "TCB_PTR_CTE_PTR dest tcbCaller \<noteq> 0"
    and "ctes s (TCB_PTR_CTE_PTR client tcbReply) = Some (called_master client (TCB_PTR_CTE_PTR dest tcbCaller))" "client \<noteq> ksCurThread s"
    and "2 + unat (mi_get_length w) \<le> n_contextRegisters" "valid_mdb s L0"
  shows "\<exists>s' c. fastpath_callBoost cptr w s = Some (Restore 1 (mi_set_capsUnwrapped w 0), s') \<and>
    ctes s' (TCB_PTR_CTE_PTR dest tcbCaller) = Some c \<and> cte_cap c = ReplyCap (blockingIPCCanGrant d) False (ksCurThread s) \<and>
    mdbPrev (cteMDBNode c) = TCB_PTR_CTE_PTR (ksCurThread s) tcbReply \<and>
    ctes s' (TCB_PTR_CTE_PTR client tcbReply) = Some (called_master client (TCB_PTR_CTE_PTR dest tcbCaller)) \<and>
    (\<forall>p c'. ctes s' p = Some c' \<and> cte_cap c' = ReplyCap g False client \<longrightarrow> p \<noteq> TCB_PTR_CTE_PTR dest tcbCaller \<and> ctes s p = Some c') \<and>
    (\<forall>L. \<not> valid_mdb s' L)"
proof -
  let ?cur = "ksCurThread s" and ?slot = "TCB_PTR_CTE_PTR dest tcbCaller" and ?R = "TCB_PTR_CTE_PTR client tcbReply"
  have n: "TCB_PTR_CTE_PTR ?cur tcbReply \<noteq> ?slot" "?R \<noteq> ?slot" "?R \<noteq> TCB_PTR_CTE_PTR ?cur tcbReply"
    using assms(11,12,14,15) by (auto simp: reply_master_def reply_cte_def called_master_def)
  obtain s' where s': "fastpath_callBoost cptr w s = Some (Restore 1 (mi_set_capsUnwrapped w 0), s')"
      "ctes s' = boost_ctes (ctes s) (blockingIPCCanGrant d) ?cur dest"
    using callBoost_eq[OF assms(1-10) assms(11,12) n(1) assms(16)] by simp
  have R: "ctes s' ?R = Some (called_master client ?slot)" using s'(2) n assms(14) by (simp add: boost_ctes_def)
  obtain c where S: "ctes s' ?slot = Some c" "cte_cap c = ReplyCap (blockingIPCCanGrant d) False ?cur"
    "mdbPrev (cteMDBNode c) = TCB_PTR_CTE_PTR ?cur tcbReply"
    using s'(2) n(1) assms(12) by (simp add: boost_ctes_def)
  have "\<not> valid_mdb s' L" for L
    using mdb_next_prev[OF _ R _ _ assms(13), of L] S(1,3) n(3) by (auto simp: called_master_def)
  moreover have "p \<noteq> ?slot \<and> ctes s p = Some c'" if "ctes s' p = Some c'" "cte_cap c' = ReplyCap g False client" for p c'
    using that S(1,2) assms(11,15) s'(2) by (auto simp: boost_ctes_def reply_master_def split: if_splits)
  ultimately show ?thesis using s'(1) S R by blast
qed

definition ex_pending :: kernel_state where
  "ex_pending = ex_call\<lparr>ctes := (ctes ex_call)(0x3060 := Some (reply_cte True 0x4000), 0x4040 := Some (called_master 0x4000 0x3060))\<rparr>"

definition ex_pending_chains :: "ptr list set" where
  "ex_pending_chains = {[0x4040, 0x3060], [0x2000], [0x2040], [0x3020], [0x8020]}"

lemma ex_pending_mdb: "valid_mdb ex_pending ex_pending_chains"
proof -
  let ?m = "ctes ex_pending"
  have r: "TCB_PTR_CTE_PTR 0x4000 tcbReply = 0x4040"
    by (simp add: TCB_PTR_CTE_PTR_def cte_at_index_def MASKw_def MASK_def BIT_def seL4_TCBBits_def push_bit_eq_mult tcbReply_def)
  have m: "?m p = (if p = 0x3060 then Some (reply_cte True 0x4000) else if p = 0x4040 then Some (called_master 0x4000 0x3060) else
      if p = 0 then None else if p = 0x8020 then Some \<lparr>cte_cap = EndpointCap 0x77 True True True True 0x5000, cteMDBNode = nullMDBNode\<rparr> else
      if p = 0x3020 then Some \<lparr>cte_cap = ArchCap (VSpaceCap 1 0x48000 True), cteMDBNode = nullMDBNode\<rparr> else
      if p = 0x2040 then Some (reply_master 0x2000) else
      if p = 0x2000 then Some \<lparr>cte_cap = CNodeCap 2 62 0 0x8000, cteMDBNode = nullMDBNode\<rparr> else Some empty_cte)" for p
    by (simp add: ex_pending_def ex_call_def)
  have "is_chain ?m xs" if "xs \<in> ex_pending_chains" for xs
    using that unfolding ex_pending_chains_def
    by (auto simp: is_chain_def mnext_def mprev_def m r reply_cte_def called_master_def reply_master_def nullMDBNode_def)
  moreover have "p \<in> \<Union>(set ` ex_pending_chains) \<longleftrightarrow> (\<exists>c. ?m p = Some c \<and> cte_cap c \<noteq> NullCap)" for p
    unfolding ex_pending_chains_def m by (auto simp: empty_cte_def reply_cte_def called_master_def reply_master_def)
  moreover have "mnext c = 0 \<and> mprev c = 0" if "?m p = Some c" "cte_cap c = NullCap" for p c
    using that unfolding m by (auto simp: empty_cte_def reply_cte_def called_master_def reply_master_def nullMDBNode_def mnext_def mprev_def split: if_splits)
  moreover have "\<forall>xs\<in>ex_pending_chains. \<forall>ys\<in>ex_pending_chains. xs \<noteq> ys \<longrightarrow> set xs \<inter> set ys = {}"
    unfolding ex_pending_chains_def by simp
  moreover have "?m 0 = None" by (simp add: m)
  ultimately show ?thesis unfolding valid_mdb_def by blast
qed

theorem call_boost_corrupts_witness:
  "valid_mdb ex_pending ex_pending_chains \<and>
   (\<exists>s' c. fastpath_callBoost 0 2 ex_pending = Some (Restore 1 2, s') \<and> ctes s' 0x3060 = Some c \<and> cte_cap c = ReplyCap False False 0x2000 \<and>
      (\<forall>L. \<not> valid_mdb s' L))"
proof -
  have m: "mi_set_capsUnwrapped 2 0 = 2" "mi_get_length 2 = 2" by (simp_all add: mi_set_capsUnwrapped_def mi_get_length_def)
  obtain t d where t: "tcbs ex_pending (ksCurThread ex_pending) = Some t" "tcbContext t X5 = word_of_int 10" "tcbs ex_pending 0x3000 = Some d"
    by (simp add: ex_pending_def ex_call_def ex_kernel_def X5_def)
  have cur: "ksCurThread ex_pending = 0x2000" by (simp add: ex_pending_def ex_call_def ex_kernel_def)
  have a: "asid_map_is ex_pending 1 0x48000" using ex_asid(1) by (auto simp: asid_map_is_def findMapForASID_def ex_pending_def Let_def split: if_splits)
  have r: "TCB_PTR_CTE_PTR 0x4000 tcbReply = 0x4040"
    by (simp add: TCB_PTR_CTE_PTR_def cte_at_index_def MASKw_def MASK_def BIT_def seL4_TCBBits_def push_bit_eq_mult tcbReply_def)
  have d: "blockingIPCCanGrant d = False" using t(3) by (auto simp: ex_pending_def ex_call_def ex_thread_def)
  have "\<exists>s' c. fastpath_callBoost 0 2 ex_pending = Some (Restore 1 (mi_set_capsUnwrapped 2 0), s') \<and>
    ctes s' (TCB_PTR_CTE_PTR 0x3000 tcbCaller) = Some c \<and> cte_cap c = ReplyCap (blockingIPCCanGrant d) False (ksCurThread ex_pending) \<and>
    mdbPrev (cteMDBNode c) = TCB_PTR_CTE_PTR (ksCurThread ex_pending) tcbReply \<and>
    ctes s' (TCB_PTR_CTE_PTR 0x4000 tcbReply) = Some (called_master 0x4000 (TCB_PTR_CTE_PTR 0x3000 tcbCaller)) \<and>
    (\<forall>p c'. ctes s' p = Some c' \<and> cte_cap c' = ReplyCap True False 0x4000 \<longrightarrow> p \<noteq> TCB_PTR_CTE_PTR 0x3000 tcbCaller \<and> ctes ex_pending p = Some c') \<and>
    (\<forall>L. \<not> valid_mdb s' L)"
    by (rule call_boost_corrupts[OF t(1,2) _ _ _ _ t(3) _ _ a _ _ _ _ _ _ ex_pending_mdb, where mapped = True and func = "0x400000" and stk = "0x7000"])
      (simp_all add: cur ex_slot_numbers r m n_contextRegisters_def SERVER_PORT_NUM_def, simp_all add: ex_pending_def ex_call_def)
  then show ?thesis using m ex_pending_mdb d cur by (auto simp: ex_slot_numbers)
qed

end
