(* ===== verification/KInvocation.thy ===== *)
theory KInvocation
  imports KSyscall
begin

unbundle bit_operations_syntax

text \<open>
  What the invocations of kernel objects share: the labels that
  \<^verbatim>\<open>kernel/libsel4/include/interfaces/object-api.xml\<close> numbers in its order (after \<^verbatim>\<open>InvalidInvocation\<close>, without the
  methods of configurations that are off), the point where a long operation polls for interrupts
  (\<^verbatim>\<open>kernel/src/model/preemption.c\<close>), and the return of an error.
\<close>

subsection \<open>Invocation labels\<close>

definition UntypedRetype :: word_t where "UntypedRetype = 1"
definition CNodeRevoke :: word_t where "CNodeRevoke = 17"
definition CNodeDelete :: word_t where "CNodeDelete = 18"
definition CNodeCancelBadgedSends :: word_t where "CNodeCancelBadgedSends = 19"
definition CNodeCopy :: word_t where "CNodeCopy = 20"
definition CNodeMint :: word_t where "CNodeMint = 21"
definition CNodeMove :: word_t where "CNodeMove = 22"
definition CNodeMutate :: word_t where "CNodeMutate = 23"
definition CNodeRotate :: word_t where "CNodeRotate = 24"
definition CNodeSaveCaller :: word_t where "CNodeSaveCaller = 25"

lemmas cnode_labels = CNodeRevoke_def CNodeDelete_def CNodeCancelBadgedSends_def CNodeCopy_def CNodeMint_def CNodeMove_def
  CNodeMutate_def CNodeRotate_def CNodeSaveCaller_def

subsection \<open>Results\<close>

text \<open>An operation that returns an error leaves the state as it is.\<close>

definition syscall_fail :: "syscall_error \<Rightarrow> kernel_state \<Rightarrow> (exception \<times> kernel_state) option" where
  "syscall_fail e s = Some (EXCEPTION_SYSCALL_ERROR e, s)"

definition range_error :: "word_t \<Rightarrow> word_t \<Rightarrow> syscall_error" where
  "range_error lo hi = (no_error seL4_RangeError)\<lparr>rangeErrorMin := lo, rangeErrorMax := hi\<rparr>"

definition invalid_argument :: "word_t \<Rightarrow> syscall_error" where
  "invalid_argument n = (no_error seL4_InvalidArgument)\<lparr>invalidArgumentNumber := n\<rparr>"

definition invalid_capability :: "word_t \<Rightarrow> syscall_error" where
  "invalid_capability n = (no_error seL4_InvalidCapability)\<lparr>invalidCapNumber := n\<rparr>"

text \<open>An operation that returns no exception.\<close>

definition finished :: "kernel_state option \<Rightarrow> (exception \<times> kernel_state) option" where
  "finished r = map_option (Pair EXCEPTION_NONE) r"

subsection \<open>Preemption\<close>

definition CONFIG_MAX_NUM_WORK_UNITS_PER_PREEMPTION :: word_t where "CONFIG_MAX_NUM_WORK_UNITS_PER_PREEMPTION = 100"

text \<open>The answer of the interrupt controller to the next poll.\<close>

definition isIRQPending :: "kernel_state \<Rightarrow> bool \<times> kernel_state" where
  "isIRQPending s = (case irqPolls s of [] \<Rightarrow> (False, s) | b # bs \<Rightarrow> (b, s\<lparr>irqPolls := bs\<rparr>))"

definition preemptionPoint :: "kernel_state \<Rightarrow> exception \<times> kernel_state" where
  "preemptionPoint s =
     (let s = s\<lparr>ksWorkUnitsCompleted := ksWorkUnitsCompleted s + 1\<rparr>
      in if ksWorkUnitsCompleted s \<ge> CONFIG_MAX_NUM_WORK_UNITS_PER_PREEMPTION
         then let s = s\<lparr>ksWorkUnitsCompleted := 0\<rparr>; (pending, s) = isIRQPending s
              in if pending then (EXCEPTION_PREEMPTED, s) else (EXCEPTION_NONE, s)
         else (EXCEPTION_NONE, s))"

text \<open>A preemption point changes only the count of work and the polls to come, and it reports no error.\<close>

lemma preemptionPoint_effect:
  obtains e n ps where "preemptionPoint s = (e, s\<lparr>ksWorkUnitsCompleted := n, irqPolls := ps\<rparr>)"
    "e = EXCEPTION_NONE \<or> e = EXCEPTION_PREEMPTED"
proof -
  have i: "s\<lparr>ksWorkUnitsCompleted := n\<rparr> = s\<lparr>ksWorkUnitsCompleted := n, irqPolls := irqPolls s\<rparr>" for n by simp
  show thesis
  proof (cases "ksWorkUnitsCompleted s + 1 \<ge> CONFIG_MAX_NUM_WORK_UNITS_PER_PREEMPTION")
    case False
    then have "preemptionPoint s = (EXCEPTION_NONE, s\<lparr>ksWorkUnitsCompleted := ksWorkUnitsCompleted s + 1, irqPolls := irqPolls s\<rparr>)"
      by (simp add: preemptionPoint_def Let_def flip: i)
    then show ?thesis using that by blast
  next
    case True
    show ?thesis
    proof (cases "irqPolls s")
      case Nil
      then have "preemptionPoint s = (EXCEPTION_NONE, s\<lparr>ksWorkUnitsCompleted := 0, irqPolls := irqPolls s\<rparr>)"
        using True by (simp add: preemptionPoint_def Let_def isIRQPending_def flip: i)
      then show ?thesis using that by blast
    next
      case (Cons b bs)
      then have "preemptionPoint s = (if b then EXCEPTION_PREEMPTED else EXCEPTION_NONE, s\<lparr>ksWorkUnitsCompleted := 0, irqPolls := bs\<rparr>)"
        using True by (simp add: preemptionPoint_def Let_def isIRQPending_def)
      then show ?thesis using that by metis
    qed
  qed
qed

end
