(* ===== verification/KCNode.thy ===== *)
theory KCNode
  imports KInvocation
begin

unbundle bit_operations_syntax

text \<open>
  Operations on CNodes, \<^verbatim>\<open>kernel/src/object/cnode.c\<close>: deleting and revoking capabilities, with the zombies that
  stand for objects being taken apart, and the invocations that copy, mint, move, mutate and rotate
  capabilities, save the caller and cancel sends. The functions \<^verbatim>\<open>finaliseSlot\<close>, \<^verbatim>\<open>reduceZombie\<close> and \<^verbatim>\<open>cteDelete\<close>
  call each other: the last two take the one they call as an argument here, and \<open>finaliseSlot\<close> is the
  least fixed point, which is \<open>None\<close> also where the recursion does not end.
\<close>

subsection \<open>Finalising capabilities\<close>

definition tcbArchCNodeEntries :: word_t where "tcbArchCNodeEntries = tcbCNodeEntries"

definition finaliseCap :: "cap \<Rightarrow> bool \<Rightarrow> bool \<Rightarrow> kernel_state \<Rightarrow> (finaliseCap_ret \<times> kernel_state) option" where
  "finaliseCap cap final exposed s = (case finaliseCap_immediate cap final s of
     Some r \<Rightarrow> r
   | None \<Rightarrow>
       if exposed then None
       else (case cap of
           CNodeCap radix _ _ cnode \<Rightarrow>
             if final then Some ((Zombie_new (BITw radix) radix cnode, NullCap), s) else Some ((NullCap, NullCap), s)
         | ThreadCap tcb \<Rightarrow>
             if final then do {
               let cte_ptr = TCB_PTR_CTE_PTR tcb tcbCTable;
               s \<leftarrow> unbindNotification tcb s;
               s \<leftarrow> suspend tcb s;
               Some ((Zombie_new tcbArchCNodeEntries ZombieType_ZombieTCB cte_ptr, NullCap), s)
             }
             else Some ((NullCap, NullCap), s)
         | ZombieCap _ _ \<Rightarrow> Some ((cap, NullCap), s)
         | IRQHandlerCap irq \<Rightarrow>
             if final then do {
               s \<leftarrow> deletingIRQHandler irq s;
               Some ((NullCap, cap), s)
             }
             else Some ((NullCap, NullCap), s)
         | _ \<Rightarrow> Some ((NullCap, NullCap), s)))"

subsection \<open>Deleting\<close>

record finaliseSlot_ret =
  fs_status :: exception
  fs_success :: bool
  fs_cleanupInfo :: cap

definition cteDelete_with :: "(ptr \<Rightarrow> bool \<Rightarrow> kernel_state \<Rightarrow> (finaliseSlot_ret \<times> kernel_state) option) \<Rightarrow> ptr \<Rightarrow> bool \<Rightarrow> kernel_state \<Rightarrow>
    (exception \<times> kernel_state) option" where
  "cteDelete_with finaliseSlot slot exposed s = do {
     (fs_ret, s) \<leftarrow> finaliseSlot slot exposed s;
     if fs_status fs_ret \<noteq> EXCEPTION_NONE then Some (fs_status fs_ret, s)
     else do {
       s \<leftarrow> (if exposed \<or> fs_success fs_ret then emptySlot slot (fs_cleanupInfo fs_ret) s else Some s);
       Some (EXCEPTION_NONE, s)
     }
   }"

definition reduceZombie_with :: "(ptr \<Rightarrow> bool \<Rightarrow> kernel_state \<Rightarrow> (exception \<times> kernel_state) option) \<Rightarrow> ptr \<Rightarrow> bool \<Rightarrow> kernel_state \<Rightarrow>
    (exception \<times> kernel_state) option" where
  "reduceZombie_with cteDelete slot immediate s = do {
     c \<leftarrow> ctes s slot;
     (case cte_cap c of
        ZombieCap zid type \<Rightarrow> do {
          let ptr = cap_zombie_cap_get_capZombiePtr zid type;
          let n = cap_zombie_cap_get_capZombieNumber zid type;
          kassert (n > 0);
          if immediate then do {
            let endSlot = cte_at_index ptr (n - 1);
            (status, s) \<leftarrow> cteDelete endSlot False s;
            if status \<noteq> EXCEPTION_NONE then Some (status, s)
            else do {
              c \<leftarrow> ctes s slot;
              (case cte_cap c of
                 NullCap \<Rightarrow> Some (EXCEPTION_NONE, s)
               | ZombieCap zid2 type2 \<Rightarrow> do {
                   let ptr2 = cap_zombie_cap_get_capZombiePtr zid2 type2;
                   if ptr = ptr2 \<and> cap_zombie_cap_get_capZombieNumber zid2 type2 = n \<and> type2 = type then do {
                     e \<leftarrow> ctes s endSlot;
                     kassert (cte_cap e = NullCap);
                     s \<leftarrow> set_cap slot (cap_zombie_cap_set_capZombieNumber zid2 type2 (n - 1)) s;
                     Some (EXCEPTION_NONE, s)
                   }
                   else do {
                     kassert (ptr2 = slot \<and> ptr \<noteq> slot);
                     Some (EXCEPTION_NONE, s)
                   }
                 }
               | _ \<Rightarrow> None)
            }
          }
          else do {
            kassert (ptr \<noteq> slot);
            p \<leftarrow> ctes s ptr;
            kassert (case cte_cap p of ZombieCap zid2 type2 \<Rightarrow> ptr \<noteq> cap_zombie_cap_get_capZombiePtr zid2 type2 | _ \<Rightarrow> True);
            s \<leftarrow> capSwapForDelete ptr slot s;
            Some (EXCEPTION_NONE, s)
          }
        }
      | _ \<Rightarrow> None)
   }"

lemma cteDelete_with_mono [partial_function_mono]:
  assumes "\<And>x y z. mono_option (\<lambda>f. B f x y z)"
  shows "mono_option (\<lambda>f. cteDelete_with (B f) slot exposed s)"
  unfolding cteDelete_with_def using assms by (intro partial_function_mono)

lemma reduceZombie_with_mono [partial_function_mono]:
  assumes "\<And>x y z. mono_option (\<lambda>f. B f x y z)"
  shows "mono_option (\<lambda>f. reduceZombie_with (B f) slot immediate s)"
  unfolding reduceZombie_with_def Let_def
  apply (intro partial_function_mono assms)
  subgoal for c by (cases "cte_cap c"; simp; intro partial_function_mono assms)
  done

partial_function (option) finaliseSlot :: "ptr \<Rightarrow> bool \<Rightarrow> kernel_state \<Rightarrow> (finaliseSlot_ret \<times> kernel_state) option" where
  "finaliseSlot slot immediate s = do {
     c \<leftarrow> ctes s slot;
     if cte_cap c = NullCap
     then Some (\<lparr>fs_status = EXCEPTION_NONE, fs_success = True, fs_cleanupInfo = NullCap\<rparr>, s)
     else do {
       final \<leftarrow> isFinalCapability s slot;
       ((remainder, cleanupInfo), s) \<leftarrow> finaliseCap (cte_cap c) final False s;
       removable \<leftarrow> capRemovable remainder slot;
       if removable then Some (\<lparr>fs_status = EXCEPTION_NONE, fs_success = True, fs_cleanupInfo = cleanupInfo\<rparr>, s)
       else do {
         s \<leftarrow> set_cap slot remainder s;
         if \<not> immediate \<and> capCyclicZombie remainder slot
         then Some (\<lparr>fs_status = EXCEPTION_NONE, fs_success = False, fs_cleanupInfo = cleanupInfo\<rparr>, s)
         else do {
           (status, s) \<leftarrow> reduceZombie_with (cteDelete_with finaliseSlot) slot immediate s;
           if status \<noteq> EXCEPTION_NONE then Some (\<lparr>fs_status = status, fs_success = False, fs_cleanupInfo = NullCap\<rparr>, s)
           else do {
             let (status, s) = preemptionPoint s;
             if status \<noteq> EXCEPTION_NONE then Some (\<lparr>fs_status = status, fs_success = False, fs_cleanupInfo = NullCap\<rparr>, s)
             else finaliseSlot slot immediate s
           }
         }
       }
     }
   }"

definition cteDelete :: "ptr \<Rightarrow> bool \<Rightarrow> kernel_state \<Rightarrow> (exception \<times> kernel_state) option" where
  "cteDelete = cteDelete_with finaliseSlot"

definition reduceZombie :: "ptr \<Rightarrow> bool \<Rightarrow> kernel_state \<Rightarrow> (exception \<times> kernel_state) option" where
  "reduceZombie = reduceZombie_with cteDelete"

partial_function (option) cteRevoke :: "ptr \<Rightarrow> kernel_state \<Rightarrow> (exception \<times> kernel_state) option" where
  "cteRevoke slot s = do {
     c \<leftarrow> ctes s slot;
     let nextPtr = mdbNext (cteMDBNode c);
     child \<leftarrow> (if nextPtr \<noteq> 0 then map_option (isMDBParentOf c) (ctes s nextPtr) else Some False);
     if child then do {
       (status, s) \<leftarrow> cteDelete nextPtr True s;
       if status \<noteq> EXCEPTION_NONE then Some (status, s)
       else do {
         let (status, s) = preemptionPoint s;
         if status \<noteq> EXCEPTION_NONE then Some (status, s) else cteRevoke slot s
       }
     }
     else Some (EXCEPTION_NONE, s)
   }"

subsection \<open>Invocations\<close>

definition invokeCNodeRevoke :: "ptr \<Rightarrow> kernel_state \<Rightarrow> (exception \<times> kernel_state) option" where
  "invokeCNodeRevoke destSlot s = cteRevoke destSlot s"

definition invokeCNodeDelete :: "ptr \<Rightarrow> kernel_state \<Rightarrow> (exception \<times> kernel_state) option" where
  "invokeCNodeDelete destSlot s = cteDelete destSlot True s"

definition invokeCNodeCancelBadgedSends :: "cap \<Rightarrow> kernel_state \<Rightarrow> (exception \<times> kernel_state) option" where
  "invokeCNodeCancelBadgedSends cap s = (case cap of
     EndpointCap badge _ _ _ _ ep \<Rightarrow> do {
       s \<leftarrow> (if badge \<noteq> 0 then cancelBadgedSends ep badge s else Some s);
       Some (EXCEPTION_NONE, s)
     }
   | _ \<Rightarrow> None)"

definition invokeCNodeInsert :: "cap \<Rightarrow> ptr \<Rightarrow> ptr \<Rightarrow> kernel_state \<Rightarrow> (exception \<times> kernel_state) option" where
  "invokeCNodeInsert cap srcSlot destSlot s = do {
     s \<leftarrow> cteInsert cap srcSlot destSlot s;
     Some (EXCEPTION_NONE, s)
   }"

definition invokeCNodeMove :: "cap \<Rightarrow> ptr \<Rightarrow> ptr \<Rightarrow> kernel_state \<Rightarrow> (exception \<times> kernel_state) option" where
  "invokeCNodeMove cap srcSlot destSlot s = do {
     s \<leftarrow> cteMove cap srcSlot destSlot s;
     Some (EXCEPTION_NONE, s)
   }"

definition invokeCNodeRotate :: "cap \<Rightarrow> cap \<Rightarrow> ptr \<Rightarrow> ptr \<Rightarrow> ptr \<Rightarrow> kernel_state \<Rightarrow> (exception \<times> kernel_state) option" where
  "invokeCNodeRotate cap1 cap2 slot1 slot2 slot3 s = do {
     s \<leftarrow> (if slot1 = slot3 then cteSwap cap1 slot1 cap2 slot2 s
           else do {
             s \<leftarrow> cteMove cap2 slot2 slot3 s;
             cteMove cap1 slot1 slot2 s
           });
     Some (EXCEPTION_NONE, s)
   }"

definition invokeCNodeSaveCaller :: "ptr \<Rightarrow> kernel_state \<Rightarrow> (exception \<times> kernel_state) option" where
  "invokeCNodeSaveCaller destSlot s = do {
     let srcSlot = TCB_PTR_CTE_PTR (ksCurThread s) tcbCaller;
     c \<leftarrow> ctes s srcSlot;
     (case cte_cap c of
        NullCap \<Rightarrow> Some (EXCEPTION_NONE, s)
      | ReplyCap _ master _ \<Rightarrow> do {
          s \<leftarrow> (if \<not> master then cteMove (cte_cap c) srcSlot destSlot s else Some s);
          Some (EXCEPTION_NONE, s)
        }
      | _ \<Rightarrow> None)
   }"

text \<open>
  The new capability of a copy, mint, move or mutate and whether the source is emptied: the \<^verbatim>\<open>switch\<close> of
  \<^verbatim>\<open>decodeCNodeInvocation\<close>.
\<close>

definition cnode_new_cap :: "word_t \<Rightarrow> word_t \<Rightarrow> ptr \<Rightarrow> ptr \<Rightarrow> cap \<Rightarrow> kernel_state \<Rightarrow> (syscall_error + cap \<times> bool) option" where
  "cnode_new_cap invLabel len buffer srcSlot src s =
     (if invLabel = CNodeCopy then
        (if len < 5 then Some (Inl (no_error seL4_TruncatedMessage))
         else do {
           w \<leftarrow> getSyscallArg s 4 buffer;
           let srcCap = maskCapRights (rightsFromWord w) src;
           dc_ret \<leftarrow> deriveCap s srcSlot srcCap;
           Some (map_sum id (\<lambda>newCap. (newCap, False)) dc_ret)
         })
      else if invLabel = CNodeMint then
        (if len < 6 then Some (Inl (no_error seL4_TruncatedMessage))
         else do {
           w \<leftarrow> getSyscallArg s 4 buffer;
           capData \<leftarrow> getSyscallArg s 5 buffer;
           let srcCap = maskCapRights (rightsFromWord w) src;
           dc_ret \<leftarrow> deriveCap s srcSlot (updateCapData False capData srcCap);
           Some (map_sum id (\<lambda>newCap. (newCap, False)) dc_ret)
         })
      else if invLabel = CNodeMove then Some (Inr (src, True))
      else if invLabel = CNodeMutate then
        (if len < 5 then Some (Inl (no_error seL4_TruncatedMessage))
         else do {
           capData \<leftarrow> getSyscallArg s 4 buffer;
           Some (Inr (updateCapData True capData src, True))
         })
      else None)"

definition decodeCNode_copy :: "word_t \<Rightarrow> word_t \<Rightarrow> ptr \<Rightarrow> ptr \<Rightarrow> ptr list \<Rightarrow> kernel_state \<Rightarrow> (exception \<times> kernel_state) option" where
  "decodeCNode_copy invLabel len destSlot buffer excaps s =
     (if len < 4 \<or> excaps = [] then syscall_fail (no_error seL4_TruncatedMessage) s
      else do {
        srcIndex \<leftarrow> getSyscallArg s 2 buffer;
        srcDepth \<leftarrow> getSyscallArg s 3 buffer;
        root \<leftarrow> ctes s (hd excaps);
        r \<leftarrow> ensureEmptySlot s destSlot;
        (case r of
           Inl e \<Rightarrow> syscall_fail e s
         | Inr _ \<Rightarrow> do {
             lu \<leftarrow> lookupSourceSlot s (cte_cap root) srcIndex srcDepth;
             (case lu of
                Inl e \<Rightarrow> syscall_fail e s
              | Inr srcSlot \<Rightarrow> do {
                  src \<leftarrow> ctes s srcSlot;
                  if cte_cap src = NullCap then syscall_fail (lookup_error True (Lookup_missing_capability srcDepth)) s
                  else do {
                    res \<leftarrow> cnode_new_cap invLabel len buffer srcSlot (cte_cap src) s;
                    (case res of
                       Inl e \<Rightarrow> syscall_fail e s
                     | Inr (newCap, isMove) \<Rightarrow>
                         if newCap = NullCap then syscall_fail (no_error seL4_IllegalOperation) s
                         else do {
                           s \<leftarrow> setThreadState (ksCurThread s) ThreadState_Restart s;
                           if isMove then invokeCNodeMove newCap srcSlot destSlot s
                           else invokeCNodeInsert newCap srcSlot destSlot s
                         })
                  }
                })
           })
      })"

definition decodeCNode_rotate :: "word_t \<Rightarrow> ptr \<Rightarrow> ptr \<Rightarrow> ptr list \<Rightarrow> kernel_state \<Rightarrow> (exception \<times> kernel_state) option" where
  "decodeCNode_rotate len destSlot buffer excaps s =
     (if len < 8 \<or> length excaps < 2 then syscall_fail (no_error seL4_TruncatedMessage) s
      else do {
        pivotNewData \<leftarrow> getSyscallArg s 2 buffer;
        pivotIndex \<leftarrow> getSyscallArg s 3 buffer;
        pivotDepth \<leftarrow> getSyscallArg s 4 buffer;
        srcNewData \<leftarrow> getSyscallArg s 5 buffer;
        srcIndex \<leftarrow> getSyscallArg s 6 buffer;
        srcDepth \<leftarrow> getSyscallArg s 7 buffer;
        pivotRoot \<leftarrow> ctes s (excaps ! 0);
        srcRoot \<leftarrow> ctes s (excaps ! 1);
        lu \<leftarrow> lookupSourceSlot s (cte_cap srcRoot) srcIndex srcDepth;
        (case lu of
           Inl e \<Rightarrow> syscall_fail e s
         | Inr srcSlot \<Rightarrow> do {
             lu \<leftarrow> lookupPivotSlot s (cte_cap pivotRoot) pivotIndex pivotDepth;
             (case lu of
                Inl e \<Rightarrow> syscall_fail e s
              | Inr pivotSlot \<Rightarrow>
                  if pivotSlot = srcSlot \<or> pivotSlot = destSlot then syscall_fail (no_error seL4_IllegalOperation) s
                  else do {
                    r \<leftarrow> (if srcSlot \<noteq> destSlot then ensureEmptySlot s destSlot else Some (Inr ()));
                    (case r of
                       Inl e \<Rightarrow> syscall_fail e s
                     | Inr _ \<Rightarrow> do {
                         src \<leftarrow> ctes s srcSlot;
                         pivot \<leftarrow> ctes s pivotSlot;
                         if cte_cap src = NullCap then syscall_fail (lookup_error True (Lookup_missing_capability srcDepth)) s
                         else if cte_cap pivot = NullCap then syscall_fail (lookup_error False (Lookup_missing_capability pivotDepth)) s
                         else do {
                           let newSrcCap = updateCapData True srcNewData (cte_cap src);
                           let newPivotCap = updateCapData True pivotNewData (cte_cap pivot);
                           if newSrcCap = NullCap then syscall_fail (no_error seL4_IllegalOperation) s
                           else if newPivotCap = NullCap then syscall_fail (no_error seL4_IllegalOperation) s
                           else do {
                             s \<leftarrow> setThreadState (ksCurThread s) ThreadState_Restart s;
                             invokeCNodeRotate newSrcCap newPivotCap srcSlot pivotSlot destSlot s
                           }
                         }
                       })
                  })
           })
      })"

definition decodeCNodeInvocation :: "word_t \<Rightarrow> word_t \<Rightarrow> cap \<Rightarrow> ptr \<Rightarrow> ptr list \<Rightarrow> kernel_state \<Rightarrow> (exception \<times> kernel_state) option" where
  "decodeCNodeInvocation invLabel len cap buffer excaps s =
     (if invLabel < CNodeRevoke \<or> invLabel > CNodeSaveCaller then syscall_fail (no_error seL4_IllegalOperation) s
      else if len < 2 then syscall_fail (no_error seL4_TruncatedMessage) s
      else do {
        index \<leftarrow> getSyscallArg s 0 buffer;
        w_bits \<leftarrow> getSyscallArg s 1 buffer;
        lu \<leftarrow> lookupTargetSlot s cap index w_bits;
        (case lu of
           Inl e \<Rightarrow> syscall_fail e s
         | Inr destSlot \<Rightarrow>
             if CNodeCopy \<le> invLabel \<and> invLabel \<le> CNodeMutate then decodeCNode_copy invLabel len destSlot buffer excaps s
             else if invLabel = CNodeRevoke then do {
               s \<leftarrow> setThreadState (ksCurThread s) ThreadState_Restart s;
               invokeCNodeRevoke destSlot s
             }
             else if invLabel = CNodeDelete then do {
               s \<leftarrow> setThreadState (ksCurThread s) ThreadState_Restart s;
               invokeCNodeDelete destSlot s
             }
             else if invLabel = CNodeSaveCaller then do {
               r \<leftarrow> ensureEmptySlot s destSlot;
               (case r of
                  Inl e \<Rightarrow> syscall_fail e s
                | Inr _ \<Rightarrow> do {
                    s \<leftarrow> setThreadState (ksCurThread s) ThreadState_Restart s;
                    invokeCNodeSaveCaller destSlot s
                  })
             }
             else if invLabel = CNodeCancelBadgedSends then do {
               dest \<leftarrow> ctes s destSlot;
               if \<not> hasCancelSendRights (cte_cap dest) then syscall_fail (no_error seL4_IllegalOperation) s
               else do {
                 s \<leftarrow> setThreadState (ksCurThread s) ThreadState_Restart s;
                 invokeCNodeCancelBadgedSends (cte_cap dest) s
               }
             }
             else if invLabel = CNodeRotate then decodeCNode_rotate len destSlot buffer excaps s
             else Some (EXCEPTION_NONE, s))
      })"

end
