(* ===== verification/KUntyped.thy ===== *)
theory KUntyped
  imports KInvocation
begin

unbundle bit_operations_syntax

text \<open>
  Untyped memory, \<^verbatim>\<open>kernel/src/object/untyped.c\<close>, and the creation of objects, \<^verbatim>\<open>kernel/src/object/objecttype.c\<close>
  and \<^verbatim>\<open>kernel/src/arch/arm/64/object/objecttype.c\<close>. The kernel creates an object by reading zeroed memory
  as one; on the typed maps of the model this is what the annotations \<^verbatim>\<open>AUXUPD\<close> of the source say:
  \<open>typ_region_bytes\<close> ends the life of the objects of a block, and an object of a type begins as the value
  that zeroed memory has at that type. Memory that holds no object shows up as words (\<open>userMem\<close>), as entries
  of tables and as entries of pools, which \<open>clearMemory\<close> sets to zero. Cache maintenance has no effect on
  the state of the model.
\<close>

subsection \<open>Types and sizes of objects\<close>

definition seL4_UntypedObject :: word_t where "seL4_UntypedObject = 0"
definition seL4_TCBObject :: word_t where "seL4_TCBObject = 1"
definition seL4_EndpointObject :: word_t where "seL4_EndpointObject = 2"
definition seL4_NotificationObject :: word_t where "seL4_NotificationObject = 3"
definition seL4_CapTableObject :: word_t where "seL4_CapTableObject = 4"
definition seL4_NonArchObjectTypeCount :: word_t where "seL4_NonArchObjectTypeCount = 5"
definition seL4_ARM_HugePageObject :: word_t where "seL4_ARM_HugePageObject = 5"
definition seL4_ARM_VSpaceObject :: word_t where "seL4_ARM_VSpaceObject = 6"
definition seL4_ARM_SmallPageObject :: word_t where "seL4_ARM_SmallPageObject = 7"
definition seL4_ARM_LargePageObject :: word_t where "seL4_ARM_LargePageObject = 8"
definition seL4_ARM_PageTableObject :: word_t where "seL4_ARM_PageTableObject = 9"
definition seL4_ObjectTypeCount :: word_t where "seL4_ObjectTypeCount = 10"

lemmas object_types = seL4_UntypedObject_def seL4_TCBObject_def seL4_EndpointObject_def seL4_NotificationObject_def
  seL4_CapTableObject_def seL4_NonArchObjectTypeCount_def seL4_ARM_HugePageObject_def seL4_ARM_VSpaceObject_def
  seL4_ARM_SmallPageObject_def seL4_ARM_LargePageObject_def seL4_ARM_PageTableObject_def seL4_ObjectTypeCount_def

definition Arch_isFrameType :: "word_t \<Rightarrow> bool" where
  "Arch_isFrameType t \<longleftrightarrow> t = seL4_ARM_SmallPageObject \<or> t = seL4_ARM_LargePageObject \<or> t = seL4_ARM_HugePageObject"

definition Arch_getObjectSize :: "word_t \<Rightarrow> word_t option" where
  "Arch_getObjectSize t =
     (if t = seL4_ARM_SmallPageObject then Some seL4_PageBits
      else if t = seL4_ARM_LargePageObject then Some seL4_LargePageBits
      else if t = seL4_ARM_HugePageObject then Some seL4_HugePageBits
      else if t = seL4_ARM_PageTableObject then Some seL4_PageTableBits
      else if t = seL4_ARM_VSpaceObject then Some seL4_VSpaceBits
      else None)"

definition getObjectSize :: "word_t \<Rightarrow> word_t \<Rightarrow> word_t option" where
  "getObjectSize t userObjSize =
     (if t \<ge> seL4_NonArchObjectTypeCount then Arch_getObjectSize t
      else if t = seL4_TCBObject then Some seL4_TCBBits
      else if t = seL4_EndpointObject then Some seL4_EndpointBits
      else if t = seL4_NotificationObject then Some seL4_NotificationBits
      else if t = seL4_CapTableObject then Some (seL4_SlotBits + userObjSize)
      else if t = seL4_UntypedObject then Some userObjSize
      else None)"

subsection \<open>Blocks of memory\<close>

definition in_block :: "ptr \<Rightarrow> word_t \<Rightarrow> ptr \<Rightarrow> bool" where
  "in_block base bits p \<longleftrightarrow> p - base < BITw bits"

definition typ_region_bytes :: "ptr \<Rightarrow> word_t \<Rightarrow> kernel_state \<Rightarrow> kernel_state" where
  "typ_region_bytes base bits s = s\<lparr>
     tcbs := (\<lambda>p. if in_block base bits p then None else tcbs s p),
     eps := (\<lambda>p. if in_block base bits p then None else eps s p),
     ntfns := (\<lambda>p. if in_block base bits p then None else ntfns s p),
     ctes := (\<lambda>p. if in_block base bits p then None else ctes s p)\<rparr>"

definition clearMemory :: "ptr \<Rightarrow> word_t \<Rightarrow> kernel_state \<Rightarrow> kernel_state" where
  "clearMemory base bits s = upd_arch (\<lambda>a. a\<lparr>
       ptes := (\<lambda>p. if in_block base bits p then pte_invalid else ptes a p),
       asidPools := (\<lambda>p i. if in_block base bits (word_at p i) then asid_map_none else asidPools a p i)\<rparr>)
     (s\<lparr>userMem := (\<lambda>p. if in_block base bits p then 0 else userMem s p)\<rparr>)"

subsection \<open>Creating objects\<close>

definition TCB_OFFSET :: word_t where "TCB_OFFSET = BITw (seL4_TCBBits - 1)"
definition PSTATE_USER :: word_t where "PSTATE_USER = BIT 6 OR 0 OR BIT 8"

text \<open>Zeroed memory read as a slot, an endpoint, a notification and a thread.\<close>

definition zero_cte :: cte where
  "zero_cte = \<lparr>cte_cap = NullCap, cteMDBNode = nullMDBNode\<rparr>"

definition zero_endpoint :: endpoint where
  "zero_endpoint = \<lparr>epQueue_head = 0, epQueue_tail = 0, ep_state = EPState_Idle\<rparr>"

definition zero_notification :: notification where
  "zero_notification = \<lparr>ntfnBoundTCB = 0, ntfnMsgIdentifier = 0, ntfnQueue_head = 0, ntfnQueue_tail = 0, ntfn_state = NtfnState_Idle\<rparr>"

definition zero_tcb :: tcb where
  "zero_tcb = \<lparr>tsType = ThreadState_Inactive, tcbQueued = False, blockingObject = 0, blockingIPCBadge = 0,
     blockingIPCCanGrant = False, blockingIPCCanGrantReply = False, blockingIPCIsCall = False, tcbBoundNotification = 0,
     tcbFault = Fault_NullFault, tcbLookupFailure = Lookup_invalid_root, tcbDomain = 0, tcbFlags = 0, tcbMCP = 0, tcbPriority = 0,
     tcbTimeSlice = 0, tcbFaultHandler = 0, tcbIPCBuffer = 0, tcbSchedNext = 0, tcbSchedPrev = 0, tcbEPNext = 0,
     tcbEPPrev = 0, tcbContext = (\<lambda>_. 0)\<rparr>"

text \<open>\<open>n\<close> slots from an address on.\<close>

definition retyp_ctes :: "ptr \<Rightarrow> word_t \<Rightarrow> kernel_state \<Rightarrow> kernel_state" where
  "retyp_ctes base n s = s\<lparr>ctes := (\<lambda>p. if p - base < push_bit (unat seL4_SlotBits) n \<and> (p - base) AND MASKw seL4_SlotBits = 0
     then Some zero_cte else ctes s p)\<rparr>"

definition Arch_initContext :: "(nat \<Rightarrow> word_t) \<Rightarrow> nat \<Rightarrow> word_t" where
  "Arch_initContext context = context(SPSR_EL1 := PSTATE_USER)"

definition Arch_createObject :: "word_t \<Rightarrow> ptr \<Rightarrow> word_t \<Rightarrow> bool \<Rightarrow> kernel_state \<Rightarrow> (cap \<times> kernel_state) option" where
  "Arch_createObject t regionBase userSize deviceMemory s =
     (if t = seL4_ARM_SmallPageObject
      then Some (ArchCap (FrameCap asidInvalid regionBase ARMSmallPage 0 VMReadWrite deviceMemory), s)
      else if t = seL4_ARM_LargePageObject
      then Some (ArchCap (FrameCap asidInvalid regionBase ARMLargePage 0 VMReadWrite deviceMemory), s)
      else if t = seL4_ARM_HugePageObject
      then Some (ArchCap (FrameCap asidInvalid regionBase ARMHugePage 0 VMReadWrite deviceMemory), s)
      else if t = seL4_ARM_VSpaceObject then Some (ArchCap (VSpaceCap asidInvalid regionBase False), s)
      else if t = seL4_ARM_PageTableObject then Some (ArchCap (PageTableCap asidInvalid regionBase False 0), s)
      else None)"

definition createObject :: "word_t \<Rightarrow> ptr \<Rightarrow> word_t \<Rightarrow> bool \<Rightarrow> kernel_state \<Rightarrow> (cap \<times> kernel_state) option" where
  "createObject t regionBase userSize deviceMemory s =
     (if t \<ge> seL4_NonArchObjectTypeCount then Arch_createObject t regionBase userSize deviceMemory s
      else if t = seL4_TCBObject then
        (let tcb = regionBase + TCB_OFFSET;
             s = retyp_ctes regionBase tcbCNodeEntries s;
             s = s\<lparr>tcbs := (tcbs s)(tcb := Some (zero_tcb\<lparr>tcbContext := Arch_initContext (tcbContext zero_tcb),
                 tcbTimeSlice := CONFIG_TIME_SLICE, tcbDomain := ksCurDomain s\<rparr>))\<rparr>
         in Some (ThreadCap tcb, s))
      else if t = seL4_EndpointObject then
        Some (EndpointCap 0 True True True True regionBase, s\<lparr>eps := (eps s)(regionBase := Some zero_endpoint)\<rparr>)
      else if t = seL4_NotificationObject then
        Some (NotificationCap 0 True True regionBase, s\<lparr>ntfns := (ntfns s)(regionBase := Some zero_notification)\<rparr>)
      else if t = seL4_CapTableObject then Some (CNodeCap userSize 0 0 regionBase, retyp_ctes regionBase (BITw userSize) s)
      else if t = seL4_UntypedObject then Some (UntypedCap deviceMemory userSize 0 regionBase, s)
      else None)"

text \<open>The loop of \<^verbatim>\<open>createNewObjects\<close> over the indices that are left.\<close>

primrec createNewObjects_loop :: "word_t \<Rightarrow> ptr \<Rightarrow> ptr \<Rightarrow> word_t \<Rightarrow> ptr \<Rightarrow> word_t \<Rightarrow> bool \<Rightarrow> word_t \<Rightarrow> nat list \<Rightarrow> kernel_state \<Rightarrow> kernel_state option" where
  "createNewObjects_loop t parent destCNode destOffset nextFreeArea userSize deviceMemory objectSize [] s = Some s"
| "createNewObjects_loop t parent destCNode destOffset nextFreeArea userSize deviceMemory objectSize (i # is) s = do {
     let area = nextFreeArea + push_bit (unat objectSize) (of_nat i);
     (cap, s) \<leftarrow> createObject t area userSize deviceMemory (typ_region_bytes area objectSize s);
     s \<leftarrow> insertNewCap parent (cte_at_index destCNode (destOffset + of_nat i)) cap s;
     createNewObjects_loop t parent destCNode destOffset nextFreeArea userSize deviceMemory objectSize is s
   }"

definition createNewObjects :: "word_t \<Rightarrow> ptr \<Rightarrow> ptr \<Rightarrow> word_t \<Rightarrow> word_t \<Rightarrow> ptr \<Rightarrow> word_t \<Rightarrow> bool \<Rightarrow> kernel_state \<Rightarrow> kernel_state option" where
  "createNewObjects t parent destCNode destOffset destLength regionBase userSize deviceMemory s = do {
     objectSize \<leftarrow> getObjectSize t userSize;
     createNewObjects_loop t parent destCNode destOffset regionBase userSize deviceMemory objectSize [0 ..< unat destLength] s
   }"

subsection \<open>The free index of an untyped capability\<close>

definition FREE_INDEX_TO_OFFSET :: "word_t \<Rightarrow> word_t" where
  "FREE_INDEX_TO_OFFSET freeIndex = push_bit (unat seL4_MinUntypedBits) freeIndex"
definition GET_FREE_REF :: "ptr \<Rightarrow> word_t \<Rightarrow> word_t" where
  "GET_FREE_REF base freeIndex = base + FREE_INDEX_TO_OFFSET freeIndex"
definition GET_FREE_INDEX :: "ptr \<Rightarrow> word_t \<Rightarrow> word_t" where
  "GET_FREE_INDEX base free = drop_bit (unat seL4_MinUntypedBits) (free - base)"
definition GET_OFFSET_FREE_PTR :: "ptr \<Rightarrow> word_t \<Rightarrow> ptr" where
  "GET_OFFSET_FREE_PTR base offset = base + offset"
definition OFFSET_TO_FREE_INDEX :: "word_t \<Rightarrow> word_t" where
  "OFFSET_TO_FREE_INDEX offset = drop_bit (unat seL4_MinUntypedBits) offset"

definition cap_untyped_cap_set_capFreeIndex :: "cap \<Rightarrow> word_t \<Rightarrow> cap option" where
  "cap_untyped_cap_set_capFreeIndex cap freeIndex = (case cap of
     UntypedCap d b _ p \<Rightarrow> Some (UntypedCap d b freeIndex p) | _ \<Rightarrow> None)"

definition alignUp :: "word_t \<Rightarrow> word_t \<Rightarrow> word_t" where
  "alignUp baseValue alignment = (baseValue + (BITw alignment - 1)) AND NOT (MASKw alignment)"

subsection \<open>Retyping\<close>

definition CONFIG_RESET_CHUNK_BITS :: word_t where "CONFIG_RESET_CHUNK_BITS = 8"
definition CONFIG_RETYPE_FAN_OUT_LIMIT :: word_t where "CONFIG_RETYPE_FAN_OUT_LIMIT = 256"

text \<open>The loop of \<^verbatim>\<open>resetUntypedCap\<close>; \<open>None\<close> also when it does not end.\<close>

partial_function (option) resetUntypedCap_loop :: "ptr \<Rightarrow> cap \<Rightarrow> ptr \<Rightarrow> word_t \<Rightarrow> kernel_state \<Rightarrow> (exception \<times> kernel_state) option" where
  "resetUntypedCap_loop srcSlot prev_cap regionBase offset s =
     (if offset = - BITw CONFIG_RESET_CHUNK_BITS then Some (EXCEPTION_NONE, s)
      else do {
        let s = clearMemory (GET_OFFSET_FREE_PTR regionBase offset) CONFIG_RESET_CHUNK_BITS s;
        cap \<leftarrow> cap_untyped_cap_set_capFreeIndex prev_cap (OFFSET_TO_FREE_INDEX offset);
        s \<leftarrow> set_cap srcSlot cap s;
        let (status, s) = preemptionPoint s;
        if status \<noteq> EXCEPTION_NONE then Some (status, s)
        else resetUntypedCap_loop srcSlot prev_cap regionBase (offset - BITw CONFIG_RESET_CHUNK_BITS) s
      })"

definition resetUntypedCap :: "ptr \<Rightarrow> kernel_state \<Rightarrow> (exception \<times> kernel_state) option" where
  "resetUntypedCap srcSlot s = do {
     c \<leftarrow> ctes s srcSlot;
     let prev_cap = cte_cap c;
     (case prev_cap of
        UntypedCap deviceMemory block_size freeIndex regionBase \<Rightarrow> do {
          let offset = FREE_INDEX_TO_OFFSET freeIndex;
          if offset = 0 then Some (EXCEPTION_NONE, s)
          else do {
            let s = typ_region_bytes regionBase block_size s;
            if deviceMemory \<or> block_size < CONFIG_RESET_CHUNK_BITS then do {
              let s = (if deviceMemory then s else clearMemory regionBase block_size s);
              cap \<leftarrow> cap_untyped_cap_set_capFreeIndex prev_cap 0;
              s \<leftarrow> set_cap srcSlot cap s;
              Some (EXCEPTION_NONE, s)
            }
            else resetUntypedCap_loop srcSlot prev_cap regionBase (ROUND_DOWN (offset - 1) CONFIG_RESET_CHUNK_BITS) s
          }
        }
      | _ \<Rightarrow> None)
   }"

definition invokeUntyped_Retype :: "ptr \<Rightarrow> bool \<Rightarrow> ptr \<Rightarrow> word_t \<Rightarrow> word_t \<Rightarrow> ptr \<Rightarrow> word_t \<Rightarrow> word_t \<Rightarrow> bool \<Rightarrow> kernel_state \<Rightarrow>
    (exception \<times> kernel_state) option" where
  "invokeUntyped_Retype srcSlot reset retypeBase newType userSize destCNode destOffset destLength deviceMemory s = do {
     c \<leftarrow> ctes s srcSlot;
     (case cte_cap c of
        UntypedCap _ _ _ regionBase \<Rightarrow> do {
          (status, s) \<leftarrow> (if reset then resetUntypedCap srcSlot s else Some (EXCEPTION_NONE, s));
          if status \<noteq> EXCEPTION_NONE then Some (status, s)
          else do {
            size \<leftarrow> getObjectSize newType userSize;
            let totalObjectSize = push_bit (unat size) destLength;
            let freeRef = retypeBase + totalObjectSize;
            c \<leftarrow> ctes s srcSlot;
            cap \<leftarrow> cap_untyped_cap_set_capFreeIndex (cte_cap c) (GET_FREE_INDEX regionBase freeRef);
            s \<leftarrow> set_cap srcSlot cap s;
            s \<leftarrow> createNewObjects newType srcSlot destCNode destOffset destLength retypeBase userSize deviceMemory s;
            Some (EXCEPTION_NONE, s)
          }
        }
      | _ \<Rightarrow> None)
   }"

text \<open>The check that the slots of the destination window are empty.\<close>

primrec ensureEmptySlots :: "kernel_state \<Rightarrow> ptr \<Rightarrow> word_t list \<Rightarrow> (syscall_error + unit) option" where
  "ensureEmptySlots s destCNode [] = Some (Inr ())"
| "ensureEmptySlots s destCNode (i # is) = do {
     r \<leftarrow> ensureEmptySlot s (cte_at_index destCNode i);
     (case r of Inl e \<Rightarrow> Some (Inl e) | Inr _ \<Rightarrow> ensureEmptySlots s destCNode is)
   }"

text \<open>The capability of the destination CNode.\<close>

definition retype_node_cap :: "kernel_state \<Rightarrow> cap \<Rightarrow> word_t \<Rightarrow> word_t \<Rightarrow> (syscall_error + cap) option" where
  "retype_node_cap s rootCap nodeIndex nodeDepth =
     (if nodeDepth = 0 then Some (Inr rootCap)
      else do {
        lu \<leftarrow> lookupTargetSlot s rootCap nodeIndex nodeDepth;
        (case lu of Inl e \<Rightarrow> Some (Inl e) | Inr slot \<Rightarrow> map_option (\<lambda>c. Inr (cte_cap c)) (ctes s slot))
      })"

text \<open>The part of \<^verbatim>\<open>decodeUntypedInvocation\<close> after the check of the destination: the amount of free memory.\<close>

definition decodeUntyped_memory :: "ptr \<Rightarrow> cap \<Rightarrow> word_t \<Rightarrow> word_t \<Rightarrow> word_t \<Rightarrow> ptr \<Rightarrow> word_t \<Rightarrow> word_t \<Rightarrow> kernel_state \<Rightarrow>
    (exception \<times> kernel_state) option" where
  "decodeUntyped_memory slot cap newType userObjSize objectSize destCNode nodeOffset nodeWindow s = (case cap of
     UntypedCap deviceMemory block_size fi regionBase \<Rightarrow> do {
       status \<leftarrow> ensureNoChildren s slot;
       let (freeIndex, reset) = (case status of Inl _ \<Rightarrow> (fi, False) | Inr _ \<Rightarrow> (0, True));
       let freeRef = GET_FREE_REF regionBase freeIndex;
       let untypedFreeBytes = BITw block_size - FREE_INDEX_TO_OFFSET freeIndex;
       if drop_bit (unat objectSize) untypedFreeBytes < nodeWindow
       then syscall_fail ((no_error seL4_NotEnoughMemory)\<lparr>memoryLeft := untypedFreeBytes\<rparr>) s
       else if (deviceMemory \<and> \<not> Arch_isFrameType newType) \<and> newType \<noteq> seL4_UntypedObject
       then syscall_fail (invalid_argument 1) s
       else do {
         let alignedFreeRef = alignUp freeRef objectSize;
         s \<leftarrow> setThreadState (ksCurThread s) ThreadState_Restart s;
         invokeUntyped_Retype slot reset alignedFreeRef newType userObjSize destCNode nodeOffset nodeWindow deviceMemory s
       }
     }
   | _ \<Rightarrow> None)"

definition decodeUntypedInvocation :: "word_t \<Rightarrow> word_t \<Rightarrow> ptr \<Rightarrow> cap \<Rightarrow> bool \<Rightarrow> ptr \<Rightarrow> ptr list \<Rightarrow> kernel_state \<Rightarrow>
    (exception \<times> kernel_state) option" where
  "decodeUntypedInvocation invLabel len slot cap call buffer excaps s =
     (if invLabel \<noteq> UntypedRetype then syscall_fail (no_error seL4_IllegalOperation) s
      else if len < 6 \<or> excaps = [] then syscall_fail (no_error seL4_TruncatedMessage) s
      else do {
        newType \<leftarrow> getSyscallArg s 0 buffer;
        userObjSize \<leftarrow> getSyscallArg s 1 buffer;
        nodeIndex \<leftarrow> getSyscallArg s 2 buffer;
        nodeDepth \<leftarrow> getSyscallArg s 3 buffer;
        nodeOffset \<leftarrow> getSyscallArg s 4 buffer;
        nodeWindow \<leftarrow> getSyscallArg s 5 buffer;
        let rootSlot = hd excaps;
        if newType \<ge> seL4_ObjectTypeCount then syscall_fail (invalid_argument 0) s
        else do {
          objectSize \<leftarrow> getObjectSize newType userObjSize;
          if userObjSize \<ge> of_nat wordBits \<or> objectSize > seL4_MaxUntypedBits
          then syscall_fail (range_error 0 seL4_MaxUntypedBits) s
          else if newType = seL4_CapTableObject \<and> userObjSize = 0 then syscall_fail (invalid_argument 1) s
          else if newType = seL4_UntypedObject \<and> userObjSize < seL4_MinUntypedBits then syscall_fail (invalid_argument 1) s
          else do {
            root \<leftarrow> ctes s rootSlot;
            res \<leftarrow> retype_node_cap s (cte_cap root) nodeIndex nodeDepth;
            (case res of
               Inl e \<Rightarrow> syscall_fail e s
             | Inr nodeCap \<Rightarrow> (case nodeCap of
                 CNodeCap radix _ _ destCNode \<Rightarrow> do {
                   let nodeSize = BITw radix;
                   if nodeOffset > nodeSize - 1 then syscall_fail (range_error 0 (nodeSize - 1)) s
                   else if nodeWindow < 1 \<or> nodeWindow > CONFIG_RETYPE_FAN_OUT_LIMIT
                   then syscall_fail (range_error 1 CONFIG_RETYPE_FAN_OUT_LIMIT) s
                   else if nodeWindow > nodeSize - nodeOffset then syscall_fail (range_error 1 (nodeSize - nodeOffset)) s
                   else do {
                     r \<leftarrow> ensureEmptySlots s destCNode (map (\<lambda>i. nodeOffset + of_nat i) [0 ..< unat nodeWindow]);
                     (case r of
                        Inl e \<Rightarrow> syscall_fail e s
                      | Inr _ \<Rightarrow> decodeUntyped_memory slot cap newType userObjSize objectSize destCNode nodeOffset nodeWindow s)
                   }
                 }
               | _ \<Rightarrow> syscall_fail (lookup_error False (Lookup_missing_capability nodeDepth)) s))
          }
        }
      })"

end
