(* ===== verification/KUntypedInv.thy ===== *)
theory KUntypedInv
  imports KUntyped KFastpathInv
begin

unbundle bit_operations_syntax

text \<open>
  What retyping untyped memory promises: the objects it creates are aligned, lie in the part of the block that
  was free, do not overlap, and are reached through new capabilities below the untyped one in the
  derivation tree; resetting a block clears it also when it is interrupted.
\<close>

subsection \<open>Blocks of memory\<close>

definition aligned :: "ptr \<Rightarrow> word_t \<Rightarrow> bool" where
  "aligned p b \<longleftrightarrow> p AND MASKw b = 0"

lemma unat_lt64: "unat (x :: word_t) < 2 ^ 64"
  using unsigned_less[of x] by simp

lemma aligned_mod: "b < 64 \<Longrightarrow> aligned p b \<longleftrightarrow> 2 ^ unat b dvd unat p"
proof -
  have "aligned p b \<longleftrightarrow> unat (take_bit (unat b) p) = 0" by (simp only: aligned_def and_MASKw word_unat_eq_iff unat_0)
  then show ?thesis unfolding unsigned_take_bit_eq by (simp only: take_bit_eq_mod mod_eq_0_iff_dvd)
qed

lemma aligned_fits: 
  assumes "b < 64" "aligned p b"
  shows "unat p + 2 ^ unat b \<le> 2 ^ 64"
proof -
  obtain k where k: "unat p = 2 ^ unat b * k" using assms aligned_mod by (auto simp: dvd_def)
  have b: "unat b < 64" using assms(1) by (simp add: word_less_nat_alt)
  have e: "(2::nat) ^ 64 = 2 ^ unat b * 2 ^ (64 - unat b)" using b by (simp flip: power_add)
  have "2 ^ unat b * k < 2 ^ unat b * 2 ^ (64 - unat b)" using unat_lt64[of p] unfolding k e[symmetric] by simp
  then have "Suc k \<le> 2 ^ (64 - unat b)" by simp
  then have "2 ^ unat b * Suc k \<le> (2::nat) ^ 64" unfolding e by (rule mult_le_mono2)
  then show ?thesis using k by (simp add: algebra_simps)
qed

lemma in_block_iff:
  assumes "b < 64" "unat p + 2 ^ unat b \<le> 2 ^ 64"
  shows "in_block p b q \<longleftrightarrow> unat p \<le> unat q \<and> unat q < unat p + 2 ^ unat b"
proof -
  have "in_block p b q \<longleftrightarrow> unat (q - p) < 2 ^ unat b" using assms(1) by (simp add: in_block_def word_less_nat_alt unat_BITw)
  also have "\<dots> \<longleftrightarrow> unat p \<le> unat q \<and> unat q < unat p + 2 ^ unat b"
    using assms(2) unat_lt64[of q] unat_lt64[of p] by (auto simp: unat_sub_if_size word_size)
  finally show ?thesis .
qed

lemma and_not_shift: "x AND NOT (MASKw b) = push_bit (unat b) (drop_bit (unat b) x)"
  by (rule bit_word_eqI) (auto simp: MASKw_mask bit_simps)

lemma and_not_mask: "b < 64 \<Longrightarrow> unat (x AND NOT (MASKw b)) = unat x div 2 ^ unat b * 2 ^ unat b"
proof -
  assume b: "b < 64"
  note and_not_shift
  moreover have "unat x div 2 ^ unat b * 2 ^ unat b < 2 ^ 64"
    using div_times_less_eq_dividend[of "unat x" "2 ^ unat b"] unat_lt64[of x] by linarith
  moreover have "unat x div 2 ^ unat b < 2 ^ 64" using unat_lt64[of x] by (rule le_less_trans[OF div_le_dividend])
  ultimately show ?thesis
    by (simp add: push_bit_eq_mult unat_word_ariths unat_2p b[unfolded word_less_nat_alt, simplified] unat_drop_bit_eq drop_bit_eq_div)
qed

lemma unat_alignUp:
  assumes "b < 64" "unat x + 2 ^ unat b - 1 < 2 ^ 64"
  shows "unat (alignUp x b) = (unat x + 2 ^ unat b - 1) div 2 ^ unat b * 2 ^ unat b"
proof -
  have g: "(0::nat) < 2 ^ unat b" by simp
  have "unat (BITw b - 1) = 2 ^ unat b - 1" using unat_MASKw[OF assms(1)] by (simp add: MASKw_def MASK_def BITw_def)
  then have "unat (x + (BITw b - 1)) = unat x + 2 ^ unat b - 1" using assms(2) g by (simp add: unat_word_ariths)
  then show ?thesis by (simp add: alignUp_def and_not_mask[OF assms(1)])
qed

text \<open>Rounding up stays below every multiple.\<close>

lemma round_up:
  fixes x m k :: nat
  assumes "0 < m" "x \<le> k * m"
  shows "x \<le> (x + m - 1) div m * m" "(x + m - 1) div m * m \<le> k * m"
proof -
  have "x + m - 1 < (x + m - 1) div m * m + m" using assms(1) using dividend_less_div_times[of m "x + m - 1"] by simp
  then show "x \<le> (x + m - 1) div m * m" by linarith
  have "(x + m - 1) div m \<le> (k * m + (m - 1)) div m" using assms by (intro div_le_mono) linarith
  also have "(k * m + (m - 1)) div m = k" by (rule div_nat_eqI) (use assms(1) in \<open>auto simp: algebra_simps\<close>)
  finally show "(x + m - 1) div m * m \<le> k * m" by (rule mult_le_mono1)
qed

text \<open>The free part of an untyped block that the check of \<open>decodeUntyped_memory\<close> lets through has room for the objects.\<close>

lemma retype_room:
  assumes p: "aligned p b" "b < 64" and o: "unat off \<le> 2 ^ unat b" and sz: "sz < 64"
    and room: "n \<le> drop_bit (unat sz) (BITw b - off)" "1 \<le> n"
  shows "\<exists>o'. unat (alignUp (p + off) sz) = unat p + o' \<and> alignUp (p + off) sz - p = of_nat o' \<and> unat off \<le> o' \<and> o' + unat n * 2 ^ unat sz \<le> 2 ^ unat b \<and>
    2 ^ unat sz dvd o' \<and> aligned (alignUp (p + off) sz) sz"
proof -
  let ?m = "(2::nat) ^ unat sz" and ?o = "unat off"
  have m: "0 < ?m" by simp
  note fit = aligned_fits[OF p(2,1)]
  have "unat (BITw b - off) = 2 ^ unat b - ?o" using o unat_BITw[OF p(2)] by (subst unat_sub) (auto simp: word_le_nat_alt)
  then have "unat n \<le> (2 ^ unat b - ?o) div ?m" using room(1)[unfolded word_le_nat_alt unat_drop_bit_eq] by (simp add: drop_bit_eq_div)
  then have nm: "unat n * ?m \<le> 2 ^ unat b - ?o" using m by (simp add: less_eq_div_iff_mult_less_eq)
  have n1: "1 \<le> unat n" using room(2) by (simp add: word_le_nat_alt)
  have m1: "?m \<le> unat n * ?m" using n1 by simp
  have le: "?o + unat n * ?m \<le> 2 ^ unat b" using nm o m1 m by linarith
  have "?m \<le> 2 ^ unat b" using le m1 by linarith
  then have sb: "unat sz \<le> unat b" by simp
  obtain kb where kb: "(2::nat) ^ unat b = kb * ?m" using sb by (metis le_imp_power_dvd dvd_def mult.commute)
  obtain kp where kp: "unat p = kp * ?m"
    using aligned_mod[OF p(2)] p(1) le_imp_power_dvd[OF sb, of 2] by (metis dvd_trans dvd_def mult.commute)
  have "unat p + ?o < 2 ^ 64" using fit le m1 m by linarith
  then have x: "unat (p + off) = unat p + ?o" by (simp add: unat_word_ariths)
  define o' where "o' = (?o + ?m - 1) div ?m * ?m"
  have kn: "?o \<le> (kb - unat n) * ?m" using le kb by (simp add: diff_mult_distrib)
  have r: "?o \<le> o'" "o' \<le> (kb - unat n) * ?m" unfolding o'_def using round_up[OF m kn] by simp_all
  have "unat n \<le> kb" using le kb m by (metis add_leD2 mult_le_cancel2)
  then have top: "o' + unat n * ?m \<le> 2 ^ unat b" using r(2) kb by (metis add_mult_distrib le_add_diff_inverse2 add_le_mono1)
  have "unat (p + off) + ?m - 1 < 2 ^ 64" using x fit le m1 m by linarith
  from unat_alignUp[OF sz this] have "unat (alignUp (p + off) sz) = (unat (p + off) + ?m - 1) div ?m * ?m" .
  also have "unat (p + off) + ?m - 1 = kp * ?m + (?o + ?m - 1)" using x kp m by linarith
  also have "(kp * ?m + (?o + ?m - 1)) div ?m = kp + (?o + ?m - 1) div ?m" by (rule div_mult_self3) simp
  also have "(kp + (?o + ?m - 1) div ?m) * ?m = unat p + o'" using kp by (simp only: o'_def add_mult_distrib)
  finally have u: "unat (alignUp (p + off) sz) = unat p + o'" .
  moreover have "2 ^ unat sz dvd o'" by (simp add: o'_def)
  moreover from this have "aligned (alignUp (p + off) sz) sz" using aligned_mod[OF sz] u kp by simp
  moreover have "alignUp (p + off) sz - p = of_nat o'"
  proof -
    have "alignUp (p + off) sz = of_nat (unat (alignUp (p + off) sz))" by simp
    then have "alignUp (p + off) sz = of_nat (unat p + o')" unfolding u .
    then show ?thesis by simp
  qed
  ultimately show ?thesis using r(1) top by blast
qed

subsection \<open>Objects of a block\<close>

definition no_object :: "kernel_state \<Rightarrow> ptr \<Rightarrow> bool" where
  "no_object s q \<longleftrightarrow> tcbs s q = None \<and> eps s q = None \<and> ntfns s q = None \<and> ctes s q = None"

lemma typ_region_bytes_free: "(\<And>q. in_block p b q \<Longrightarrow> no_object s q) \<Longrightarrow> typ_region_bytes p b s = s"
proof -
  assume a: "\<And>q. in_block p b q \<Longrightarrow> no_object s q"
  have "(\<lambda>q. if in_block p b q then None else tcbs s q) = tcbs s" "(\<lambda>q. if in_block p b q then None else eps s q) = eps s"
    "(\<lambda>q. if in_block p b q then None else ntfns s q) = ntfns s" "(\<lambda>q. if in_block p b q then None else ctes s q) = ctes s"
    using a by (auto simp: no_object_def fun_eq_iff)
  then show ?thesis by (simp add: typ_region_bytes_def)
qed

text \<open>A change of the objects of a block, after which the slots in it are empty.\<close>

definition obj_frame :: "ptr \<Rightarrow> word_t \<Rightarrow> kernel_state \<Rightarrow> kernel_state \<Rightarrow> bool" where
  "obj_frame p b s s' \<longleftrightarrow> s'\<lparr>tcbs := tcbs s, eps := eps s, ntfns := ntfns s, ctes := ctes s\<rparr> = s \<and>
     (\<forall>q. \<not> in_block p b q \<longrightarrow> tcbs s' q = tcbs s q \<and> eps s' q = eps s q \<and> ntfns s' q = ntfns s q \<and> ctes s' q = ctes s q) \<and>
     (\<forall>q. in_block p b q \<longrightarrow> ctes s' q = None \<or> ctes s' q = Some zero_cte)"

text \<open>The object a capability names is the one retyping creates.\<close>

fun fresh_object :: "kernel_state \<Rightarrow> cap \<Rightarrow> bool" where
  "fresh_object s (EndpointCap badge gr g cs cr p) \<longleftrightarrow> badge = 0 \<and> gr \<and> g \<and> cs \<and> cr \<and> eps s p = Some zero_endpoint"
| "fresh_object s (NotificationCap badge cs cr p) \<longleftrightarrow> badge = 0 \<and> cs \<and> cr \<and> ntfns s p = Some zero_notification"
| "fresh_object s (CNodeCap r gs g p) \<longleftrightarrow> gs = 0 \<and> g = 0 \<and> (\<forall>i < 2 ^ unat r. map_option cte_cap (ctes s (cte_at_index p (of_nat i))) = Some NullCap)"
| "fresh_object s (ThreadCap p) \<longleftrightarrow> (\<exists>t. tcbs s p = Some t \<and> tsType t = ThreadState_Inactive \<and> \<not> tcbQueued t \<and> tcbDomain t = ksCurDomain s \<and>
     tcbBoundNotification t = 0 \<and> tcbPriority t = 0 \<and> tcbMCP t = 0) \<and> (\<forall>i < 5. map_option cte_cap (ctes s (TCB_PTR_CTE_PTR p (of_nat i))) = Some NullCap)"
| "fresh_object s (UntypedCap d b f p) \<longleftrightarrow> f = 0"
| "fresh_object s (ArchCap (FrameCap asid p sz va vr d)) \<longleftrightarrow> asid = asidInvalid \<and> va = 0 \<and> vr = VMReadWrite"
| "fresh_object s (ArchCap (PageTableCap asid p mapped va)) \<longleftrightarrow> asid = asidInvalid \<and> \<not> mapped"
| "fresh_object s (ArchCap (VSpaceCap asid p mapped)) \<longleftrightarrow> asid = asidInvalid \<and> \<not> mapped"
| "fresh_object s _ \<longleftrightarrow> False"

lemma retyp_ctes_slot:
  assumes "n \<le> 2 ^ 58" "i < unat n"
  shows "map_option cte_cap (ctes (retyp_ctes p n s) (cte_at_index p (of_nat i))) = Some NullCap"
proof -
  have n: "unat n \<le> 2 ^ 58" using assms(1) unat_2p[of 58] by (simp add: word_le_nat_alt)
  have u: "unat (push_bit 5 n) = unat n * 32" using n by (simp add: push_bit_eq_mult unat_word_ariths)
  have i: "unat (of_nat i :: word_t) = i" using assms(2) n by (simp add: unat_of_nat)
  have v: "unat (push_bit 5 (of_nat i :: word_t)) = i * 32" using i assms(2) n by (simp add: push_bit_eq_mult unat_word_ariths)
  have "push_bit 5 (of_nat i :: word_t) < push_bit 5 n" using u v assms(2) by (simp add: word_less_nat_alt)
  moreover have "push_bit 5 (of_nat i :: word_t) AND MASKw 5 = 0" by (rule bit_word_eqI) (auto simp: MASKw_mask bit_simps)
  ultimately show ?thesis by (simp add: retyp_ctes_def cte_at_index_def seL4_SlotBits_def zero_cte_def)
qed

lemma tcb_block:
  assumes "aligned p 11"
  shows "TCB_PTR_CTE_PTR (p + TCB_OFFSET) i = cte_at_index p i"
proof -
  have d: "2 ^ 11 dvd unat p" using assms aligned_mod[of 11 p] by simp
  have f: "unat p + 2 ^ 11 \<le> 2 ^ 64" using aligned_fits[of 11 p] assms by simp
  have o: "TCB_OFFSET = 1024" by (simp add: TCB_OFFSET_def BITw_def BIT_def seL4_TCBBits_def push_bit_eq_mult)
  have "unat (p + TCB_OFFSET) = unat p + 1024" using f unfolding o by (simp add: unat_word_ariths)
  then have "unat ((p + TCB_OFFSET) AND NOT (MASKw 11)) = unat p" using and_not_mask[of 11 "p + TCB_OFFSET"] d by (auto elim: dvdE)
  then have "(p + TCB_OFFSET) AND NOT (MASKw 11) = p" by (simp only: word_unat_eq_iff)
  then show ?thesis by (simp add: TCB_PTR_CTE_PTR_def seL4_TCBBits_def)
qed

text \<open>\<^verbatim>\<open>createObject\<close> makes a capability for exactly the block, and a new object in it.\<close>

lemma getObjectSize_cases:
  assumes "t < seL4_ObjectTypeCount" "getObjectSize t us = Some sz"
  obtains "t = seL4_UntypedObject" "sz = us" | "t = seL4_TCBObject" "sz = seL4_TCBBits" | "t = seL4_EndpointObject" "sz = seL4_EndpointBits"
    | "t = seL4_NotificationObject" "sz = seL4_NotificationBits" | "t = seL4_CapTableObject" "sz = seL4_SlotBits + us"
    | "seL4_NonArchObjectTypeCount \<le> t" "Arch_getObjectSize t = Some sz"
  using assms by (auto simp: getObjectSize_def split: if_splits)

lemma obj_frame_refl: "(\<And>q. in_block p b q \<Longrightarrow> no_object s q) \<Longrightarrow> obj_frame p b s s"
  by (simp add: obj_frame_def no_object_def)

definition creates :: "ptr \<Rightarrow> word_t \<Rightarrow> kernel_state \<Rightarrow> cap \<times> kernel_state \<Rightarrow> bool" where
  "creates p sz s r \<longleftrightarrow> (case r of (cap, s') \<Rightarrow> cap \<noteq> NullCap \<and> cap_get_capIsPhysical cap \<and> cap_get_capPtr cap = p \<and>
     cap_get_capSizeBits cap = sz \<and> fresh_object s' cap \<and> valid_cnode_cap cap \<and> obj_frame p sz s s')"

lemma createObject_arch:
  assumes "Arch_getObjectSize t = Some sz" "\<And>q. in_block p sz q \<Longrightarrow> no_object s q"
  shows "succeeds (Arch_createObject t p us dev s) (creates p sz s)"
  using obj_frame_refl[OF assms(2)] assms(1)
  by (auto simp: Arch_getObjectSize_def Arch_createObject_def creates_def object_types split: if_splits)

lemma in_block_self: "b < 64 \<Longrightarrow> in_block p b p"
  by (simp add: in_block_def word_less_nat_alt unat_BITw)

lemma createObject_simps:
  "createObject seL4_TCBObject p us dev s = Some (ThreadCap (p + TCB_OFFSET), (retyp_ctes p tcbCNodeEntries s)\<lparr>tcbs := (tcbs s)(p + TCB_OFFSET :=
     Some (zero_tcb\<lparr>tcbContext := Arch_initContext (tcbContext zero_tcb), tcbTimeSlice := CONFIG_TIME_SLICE, tcbDomain := ksCurDomain s\<rparr>))\<rparr>)"
  "createObject seL4_EndpointObject p us dev s = Some (EndpointCap 0 True True True True p, s\<lparr>eps := (eps s)(p := Some zero_endpoint)\<rparr>)"
  "createObject seL4_NotificationObject p us dev s = Some (NotificationCap 0 True True p, s\<lparr>ntfns := (ntfns s)(p := Some zero_notification)\<rparr>)"
  "createObject seL4_CapTableObject p us dev s = Some (CNodeCap us 0 0 p, retyp_ctes p (BITw us) s)"
  "createObject seL4_UntypedObject p us dev s = Some (UntypedCap dev us 0 p, s)"
  by (simp_all add: createObject_def object_types Let_def retyp_ctes_def word_le_nat_alt)

lemma createObject_tcb:
  assumes free: "\<And>q. in_block p seL4_TCBBits q \<Longrightarrow> no_object s q" and al: "aligned p seL4_TCBBits"
  shows "succeeds (createObject seL4_TCBObject p us dev s) (creates p seL4_TCBBits s)"
proof -
  note al' = al[unfolded seL4_TCBBits_def]
  have tb: "TCB_PTR_CTE_PTR (p + TCB_OFFSET) i = cte_at_index p i" for i by (rule tcb_block[OF al'])
  have o: "TCB_OFFSET = 1024" by (simp add: TCB_OFFSET_def BITw_def BIT_def seL4_TCBBits_def push_bit_eq_mult)
  have i5: "unat (5 :: word_t) = 5" by simp
  have inb: "in_block p seL4_TCBBits q" if "q - p < 160 \<or> q = p + 1024" for q
    using that by (auto simp: in_block_def BITw_def BIT_def seL4_TCBBits_def push_bit_eq_mult word_less_nat_alt)
  have sl: "map_option cte_cap (ctes (retyp_ctes p 5 s) (cte_at_index p (of_nat i))) = Some NullCap" if "i < 5" for i
    by (rule retyp_ctes_slot) (use that in \<open>simp_all add: word_le_nat_alt\<close>)
  have p5: "push_bit 5 (5 :: word_t) = 160" by (simp add: push_bit_eq_mult)
  show ?thesis using free inb sl tb
    by (simp add: createObject_simps creates_def zero_tcb_def obj_frame_def tcbCNodeEntries_def cte_at_index_def o)
       (auto simp: retyp_ctes_def seL4_SlotBits_def p5 no_object_def)
qed

lemma createObject_cnode:
  assumes free: "\<And>q. in_block p (seL4_SlotBits + us) q \<Longrightarrow> no_object s q" and us: "0 < us" "us \<le> 42"
  shows "succeeds (createObject seL4_CapTableObject p us dev s) (creates p (seL4_SlotBits + us) s)"
proof -
  have u: "unat us \<le> 42" "0 < unat us" using us by (simp_all add: word_le_nat_alt word_less_nat_alt)
  have e: "unat (5 + us) = 5 + unat us" using u by (simp add: unat_word_ariths)
  have b: "unat (BITw us) = 2 ^ unat us" by (rule unat_BITw) (use u in \<open>simp add: word_less_nat_alt\<close>)
  have "push_bit 5 (BITw us) = BITw (5 + us)" by (simp only: BITw_def BIT_def e push_bit_push_bit)
  then have fr: "obj_frame p (5 + us) s (retyp_ctes p (BITw us) s)"
    using free by (auto simp: obj_frame_def retyp_ctes_def seL4_SlotBits_def in_block_def no_object_def)
  have "(2::nat) ^ unat us \<le> 2 ^ 42" using u(1) by (rule power_increasing) simp
  then have "BITw us \<le> 2 ^ 58" using b unat_2p[of 58] by (simp add: word_le_nat_alt)
  then have sl: "map_option cte_cap (ctes (retyp_ctes p (BITw us) s) (cte_at_index p (of_nat i))) = Some NullCap" if "i < 2 ^ unat us" for i
    by (rule retyp_ctes_slot) (use that b in simp)
  show ?thesis using fr sl u by (simp add: createObject_simps creates_def seL4_SlotBits_def add.commute[of us])
qed

lemma createObject_ok:
  assumes "t < seL4_ObjectTypeCount" "getObjectSize t us = Some sz" "sz \<le> seL4_MaxUntypedBits" "us < 64"
    "t = seL4_CapTableObject \<longrightarrow> us \<noteq> 0" "aligned p sz" "\<And>q. in_block p sz q \<Longrightarrow> no_object s q"
  shows "succeeds (createObject t p us dev s) (creates p sz s)"
proof (rule getObjectSize_cases[OF assms(1,2)])
  assume t: "t = seL4_CapTableObject" "sz = seL4_SlotBits + us"
  have "unat us < 64" "unat (5 + us) \<le> 47" using assms(3,4) t by (simp_all add: word_less_nat_alt word_le_nat_alt seL4_SlotBits_def seL4_MaxUntypedBits_def)
  then have "us \<le> 42" by (simp add: word_le_nat_alt unat_word_ariths)
  moreover have "0 < us" using assms(5) t(1) by (simp add: word_neq_0_conv)
  ultimately show ?thesis using createObject_cnode[of p us s dev] assms(7) t by blast
next
  assume t: "t = seL4_TCBObject" "sz = seL4_TCBBits"
  show ?thesis using createObject_tcb[of p s us dev] assms(6,7) t by blast
next
  assume t: "seL4_NonArchObjectTypeCount \<le> t" "Arch_getObjectSize t = Some sz"
  show ?thesis using createObject_arch[OF t(2) assms(7), where us = us and dev = dev] t(1) by (simp add: createObject_def)
next
  assume t: "t = seL4_UntypedObject" "sz = us"
  show ?thesis using obj_frame_refl[OF assms(7)] t by (simp add: createObject_simps creates_def)
next
  assume t: "t = seL4_EndpointObject" "sz = seL4_EndpointBits"
  show ?thesis using assms(7) in_block_self[of sz p] t
    by (auto simp: createObject_simps creates_def obj_frame_def seL4_EndpointBits_def no_object_def)
next
  assume t: "t = seL4_NotificationObject" "sz = seL4_NotificationBits"
  show ?thesis using assms(7) in_block_self[of sz p] t
    by (auto simp: createObject_simps creates_def obj_frame_def seL4_NotificationBits_def no_object_def)
qed

text \<open>A new object lies in its block.\<close>

lemma fresh_object_frame:
  assumes f: "fresh_object s cap" "cap_get_capPtr cap = a" "cap_get_capSizeBits cap = sz" "sz \<le> seL4_MaxUntypedBits" "aligned a sz" "valid_cnode_cap cap"
    and same: "\<And>q. in_block a sz q \<Longrightarrow> tcbs s' q = tcbs s q \<and> eps s' q = eps s q \<and> ntfns s' q = ntfns s q \<and> map_option cte_cap (ctes s' q) = map_option cte_cap (ctes s q)"
    and dom: "ksCurDomain s' = ksCurDomain s"
  shows "fresh_object s' cap"
proof -
  have sz: "sz < 64" using f(4) by (simp add: seL4_MaxUntypedBits_def word_le_nat_alt word_less_nat_alt)
  note in0 = in_block_self[OF sz]
  show ?thesis
  proof (cases cap)
    case (CNodeCap r gs g p)
    have r: "unat r < 64" using f(6) CNodeCap by simp
    have "r + 5 \<le> 47" using f(3,4) CNodeCap by (simp add: seL4_SlotBits_def seL4_MaxUntypedBits_def)
    then have r42: "unat r \<le> 42" using r by (simp add: word_le_nat_alt unat_word_ariths)
    have "sz = r + 5" using f(3) CNodeCap by (simp add: seL4_SlotBits_def)
    then have sb: "unat sz = unat r + 5" "unat r \<le> 42" using r42 by (simp_all add: unat_word_ariths)
    have "in_block p sz (cte_at_index p (of_nat i))" if i: "i < 2 ^ unat r" for i
    proof -
      have "(2::nat) ^ unat r \<le> 2 ^ 42" using sb(2) by (rule power_increasing) simp
      then have u: "unat (of_nat i :: word_t) = i" "i * 32 < 2 ^ 64" using i by (simp_all add: unat_of_nat)
      have "unat (push_bit 5 (of_nat i :: word_t)) = i * 32" using u by (simp add: push_bit_eq_mult unat_word_ariths)
      then show ?thesis using i sb(1) sz by (simp add: in_block_def cte_at_index_def word_less_nat_alt unat_BITw power_add)
    qed
    then show ?thesis using f(1,2) same CNodeCap by auto
  next
    case (ThreadCap p)
    have s11: "sz = 11" using f(3) ThreadCap by (simp add: seL4_TCBBits_def)
    have a: "a = p AND NOT (MASKw 11)" using f(2) ThreadCap by (simp add: TCB_PTR_CTE_PTR_def cte_at_index_def seL4_TCBBits_def)
    have "unat a = unat p div 2048 * 2048" using a and_not_mask[of 11 p] by simp
    then have pin: "in_block a 11 p" using in_block_iff[of 11 a p] aligned_fits[of 11 a] f(5) s11 by simp
    have sl: "TCB_PTR_CTE_PTR p i = cte_at_index a i" for i by (simp add: TCB_PTR_CTE_PTR_def seL4_TCBBits_def a)
    have "in_block a 11 (cte_at_index a (of_nat i))" if "i < 5" for i
    proof -
      have "unat (of_nat i :: word_t) = i" using that by (simp add: unat_of_nat)
      then have "unat (push_bit 5 (of_nat i :: word_t)) = i * 32" using that by (simp add: push_bit_eq_mult unat_word_ariths)
      then show ?thesis using that by (simp add: in_block_def cte_at_index_def word_less_nat_alt unat_BITw)
    qed
    then show ?thesis using f(1) same[unfolded s11] pin dom ThreadCap by (auto simp: sl)
  next
    case (ArchCap c)
    then show ?thesis using f(1) by (cases c) auto
  qed (use f in0 same in auto)
qed

subsection \<open>Creating one object\<close>

definition cte_flags :: "cte \<Rightarrow> cap \<times> bool \<times> bool" where
  "cte_flags c = (cte_cap c, mdbRevocable (cteMDBNode c), mdbFirstBadged (cteMDBNode c))"

lemma insertNewCap_effect:
  assumes "insertNewCap par dst new s = Some s'" "par \<noteq> dst" "ctes s par = Some c" "mdbNext (cteMDBNode c) \<noteq> dst"
  shows "s'\<lparr>ctes := ctes s\<rparr> = s" "map_option cte_flags (ctes s' dst) = Some (new, True, True)"
    "q \<noteq> dst \<Longrightarrow> map_option cte_flags (ctes s' q) = map_option cte_flags (ctes s q)"
  using assms by (auto simp: insertNewCap_def cte_upds upd_cte_def cte_flags_def Let_def bind_eq_Some_conv split: option.splits if_splits)

lemma valid_mdb_grow:
  assumes v: "valid_mdb s L" and fr: "obj_frame p b s s'" and free: "\<And>q. in_block p b q \<Longrightarrow> no_object s q" and z: "\<not> in_block p b 0"
  shows "valid_mdb s' L"
proof -
  note d = valid_mdbD[OF v]
  have out: "ctes s' q = ctes s q" if "\<not> in_block p b q" for q using fr that by (simp add: obj_frame_def)
  have inb: "ctes s q = None \<and> (ctes s' q = None \<or> ctes s' q = Some zero_cte)" if "in_block p b q" for q
    using fr that free[OF that] by (simp add: obj_frame_def no_object_def)
  have live: "ctes s' q = Some c \<and> cte_cap c \<noteq> NullCap \<longleftrightarrow> ctes s q = Some c \<and> cte_cap c \<noteq> NullCap" for q c
    using out[of q] inb[of q] by (cases "in_block p b q") (auto simp: zero_cte_def)
  have "is_chain (ctes s') xs" if xs: "xs \<in> L" for xs
  proof -
    have "ctes s' q = ctes s q" if "q \<in> set xs" for q using d(3)[OF xs that] live[of q] by metis
    then have "dlink mnext mprev (ctes s') 0 xs 0 = dlink mnext mprev (ctes s) 0 xs 0" by (intro dlink_cong) simp
    then show ?thesis using d(1)[OF xs] by (simp add: is_chain_def)
  qed
  moreover have "mnext c = 0 \<and> mprev c = 0" if "ctes s' q = Some c" "cte_cap c = NullCap" for q c
    using that out[of q] inb[of q] d(5)[of q c] by (cases "in_block p b q") (auto simp: zero_cte_def nullMDBNode_def mnext_def mprev_def)
  ultimately show ?thesis using v live out[OF z] by (simp add: valid_mdb_def) blast
qed

text \<open>The slot \<open>d\<close> holds a new capability, without a right taken away, for a new object that fills the block at \<open>a\<close>.\<close>

definition new_cap :: "kernel_state \<Rightarrow> ptr \<Rightarrow> ptr \<Rightarrow> word_t \<Rightarrow> bool" where
  "new_cap s d a sz \<longleftrightarrow> (\<exists>cap. map_option cte_flags (ctes s d) = Some (cap, True, True) \<and> cap \<noteq> NullCap \<and> cap_get_capIsPhysical cap \<and>
     cap_get_capPtr cap = a \<and> cap_get_capSizeBits cap = sz \<and> fresh_object s cap \<and> valid_cnode_cap cap)"

text \<open>All but the objects and slots named is the same.\<close>

definition new_frame :: "(ptr \<Rightarrow> bool) \<Rightarrow> ptr set \<Rightarrow> kernel_state \<Rightarrow> kernel_state \<Rightarrow> bool" where
  "new_frame A D s s' \<longleftrightarrow> s'\<lparr>tcbs := tcbs s, eps := eps s, ntfns := ntfns s, ctes := ctes s\<rparr> = s \<and>
     (\<forall>q. \<not> A q \<longrightarrow> tcbs s' q = tcbs s q \<and> eps s' q = eps s q \<and> ntfns s' q = ntfns s q \<and>
       (q \<notin> D \<longrightarrow> map_option cte_flags (ctes s' q) = map_option cte_flags (ctes s q))) \<and>
     (\<forall>q c. A q \<and> q \<notin> D \<and> ctes s' q = Some c \<longrightarrow> cte_cap c = NullCap)"

lemma flags_cap: "map_option cte_flags (ctes s' q) = map_option cte_flags (ctes s q) \<Longrightarrow> map_option cte_cap (ctes s' q) = map_option cte_cap (ctes s q)"
  by (drule arg_cong[of _ _ "map_option fst"]) (simp add: option.map_comp comp_def cte_flags_def)

lemma new_frame_trans: "new_frame A D s s1 \<Longrightarrow> new_frame B E s1 s2 \<Longrightarrow> new_frame (\<lambda>q. A q \<or> B q) (D \<union> E) s s2"
proof -
  assume a: "new_frame A D s s1" "new_frame B E s1 s2"
  have "s2\<lparr>tcbs := tcbs s, eps := eps s, ntfns := ntfns s, ctes := ctes s\<rparr> =
     (s2\<lparr>tcbs := tcbs s1, eps := eps s1, ntfns := ntfns s1, ctes := ctes s1\<rparr>)\<lparr>tcbs := tcbs s, eps := eps s, ntfns := ntfns s, ctes := ctes s\<rparr>" by simp
  also have "\<dots> = s" using a by (simp add: new_frame_def)
  moreover have "cte_cap c = NullCap" if ab: "A q \<or> B q" "q \<notin> D \<union> E" "ctes s2 q = Some c" for q c
  proof (cases "B q")
    case False
    then have "map_option cte_cap (ctes s2 q) = map_option cte_cap (ctes s1 q)" using a(2) ab(2) by (intro flags_cap) (simp add: new_frame_def)
    then obtain c1 where "ctes s1 q = Some c1" "cte_cap c1 = cte_cap c" using ab(3) by (cases "ctes s1 q") auto
    then show ?thesis using False ab a(1) by (auto simp: new_frame_def)
  qed (use ab a(2) in \<open>auto simp: new_frame_def\<close>)
  ultimately show ?thesis using a by (simp add: new_frame_def) blast
qed

text \<open>One round of the loop of \<^verbatim>\<open>createNewObjects\<close>.\<close>

lemma create_one:
  assumes v: "valid_mdb s L" and ch: "ys @ par # zs \<in> L" and dst: "ctes s dst = Some d" "cte_cap d = NullCap"
    and t: "t < seL4_ObjectTypeCount" "getObjectSize t us = Some sz" "sz \<le> seL4_MaxUntypedBits" "us < 64" "t = seL4_CapTableObject \<longrightarrow> us \<noteq> 0"
    and a: "aligned a sz" "a \<noteq> 0" and free: "\<And>q. in_block a sz q \<Longrightarrow> no_object s q"
  shows "succeeds (createObject t a us dev (typ_region_bytes a sz s)) (\<lambda>(cap, s1). succeeds (insertNewCap par dst cap s1) (\<lambda>s'.
     valid_mdb s' (insert (ys @ par # dst # zs) (L - {ys @ par # zs})) \<and> new_cap s' dst a sz \<and> new_frame (in_block a sz) {dst} s s'))"
proof -
  have sz: "sz < 64" using t(3) by (simp add: seL4_MaxUntypedBits_def word_le_nat_alt word_less_nat_alt)
  have z: "\<not> in_block a sz 0" using in_block_iff[OF sz aligned_fits[OF sz a(1)], of 0] a(2) by (simp add: unat_eq_zero)
  obtain c where c: "ctes s par = Some c" "cte_cap c \<noteq> NullCap" using valid_mdbD(3)[OF v ch, of par] by auto
  have "succeeds (createObject t a us dev s) (creates a sz s)" by (rule createObject_ok) (use t a free in auto)
  moreover have tr: "typ_region_bytes a sz s = s" by (rule typ_region_bytes_free) (rule free)
  ultimately show ?thesis unfolding tr
  proof (elim succeeds_mono)
    fix r assume "creates a sz s r"
    then obtain cap s1 where r: "r = (cap, s1)" and cr: "cap \<noteq> NullCap" "cap_get_capIsPhysical cap" "cap_get_capPtr cap = a"
       "cap_get_capSizeBits cap = sz" "fresh_object s1 cap" "valid_cnode_cap cap" and fr: "obj_frame a sz s s1" by (auto simp: creates_def)
    have out: "ctes s1 q = ctes s q" if "ctes s q \<noteq> None" for q using fr free[of q] that by (auto simp: obj_frame_def no_object_def)
    have v1: "valid_mdb s1 L" by (rule valid_mdb_grow[OF v fr _ z]) (rule free)
    have dst1: "ctes s1 dst = Some d" and c1: "ctes s1 par = Some c" using out dst(1) c(1) by auto
    have nd: "mdbNext (cteMDBNode c) \<noteq> dst"
      using valid_mdb_next[OF v1 c1] dst(2) dst1 valid_mdbD(7)[OF v1] by (metis mnext_def option.inject option.simps(3))
    have pd: "par \<noteq> dst" using c dst by auto
    have nb: "\<not> in_block a sz dst" using free[of dst] dst(1) by (auto simp: no_object_def)
    have "succeeds (insertNewCap par dst cap s1) (\<lambda>s'. valid_mdb s' (insert (ys @ par # dst # zs) (L - {ys @ par # zs})))"
      by (rule succeeds_mono[OF insertNewCap_wp[OF v1 ch dst1 dst(2) cr(1)]]) (erule conjunct1)
    then show "case r of (cap, s1) \<Rightarrow> succeeds (insertNewCap par dst cap s1) (\<lambda>s'. valid_mdb s' (insert (ys @ par # dst # zs) (L - {ys @ par # zs})) \<and>
        new_cap s' dst a sz \<and> new_frame (in_block a sz) {dst} s s')" unfolding r prod.case
    proof (rule succeeds_mono)
      fix s' assume ins: "insertNewCap par dst cap s1 = Some s'" "valid_mdb s' (insert (ys @ par # dst # zs) (L - {ys @ par # zs}))"
      note e = insertNewCap_effect[OF ins(1) pd c1 nd]
      have rest: "tcbs s' = tcbs s1" "eps s' = eps s1" "ntfns s' = ntfns s1" "ksCurDomain s' = ksCurDomain s1"
        using arg_cong[OF e(1), of tcbs] arg_cong[OF e(1), of eps] arg_cong[OF e(1), of ntfns] arg_cong[OF e(1), of ksCurDomain] by simp_all
      have caps: "map_option cte_cap (ctes s' q) = map_option cte_cap (ctes s1 q)" if "q \<noteq> dst" for q
        by (rule flags_cap) (rule e(3)[OF that])
      have "fresh_object s' cap"
      proof (rule fresh_object_frame[OF cr(5,3,4) t(3) a(1) cr(6)])
        fix q assume "in_block a sz q"
        then have "q \<noteq> dst" using nb by blast
        then show "tcbs s' q = tcbs s1 q \<and> eps s' q = eps s1 q \<and> ntfns s' q = ntfns s1 q \<and> map_option cte_cap (ctes s' q) = map_option cte_cap (ctes s1 q)"
          using rest caps by simp
      qed (rule rest(4))
      then have n: "new_cap s' dst a sz" unfolding new_cap_def using cr(1-4,6) e(2) by blast
      have "s'\<lparr>tcbs := tcbs s, eps := eps s, ntfns := ntfns s, ctes := ctes s\<rparr> =
          (s'\<lparr>ctes := ctes s1\<rparr>)\<lparr>tcbs := tcbs s, eps := eps s, ntfns := ntfns s, ctes := ctes s\<rparr>" by simp
      then have "s'\<lparr>tcbs := tcbs s, eps := eps s, ntfns := ntfns s, ctes := ctes s\<rparr> = s" unfolding e(1) using fr by (simp add: obj_frame_def)
      moreover have "cte_cap k = NullCap" if "in_block a sz q" "q \<noteq> dst" "ctes s' q = Some k" for q k
        using caps[OF that(2)] that fr by (auto simp: obj_frame_def zero_cte_def)
      ultimately have "new_frame (in_block a sz) {dst} s s'" using fr rest e(3) by (auto simp: new_frame_def obj_frame_def)
      then show "valid_mdb s' (insert (ys @ par # dst # zs) (L - {ys @ par # zs})) \<and> new_cap s' dst a sz \<and> new_frame (in_block a sz) {dst} s s'"
        using ins(2) n by blast
    qed
  qed
qed

lemma new_cap_frame:
  assumes n: "new_cap s d a sz" "sz \<le> seL4_MaxUntypedBits" "aligned a sz" and fr: "new_frame A D s s'"
    and out: "d \<notin> D" "\<not> A d" "\<And>q. in_block a sz q \<Longrightarrow> \<not> A q \<and> q \<notin> D"
  shows "new_cap s' d a sz"
proof -
  obtain cap where cap: "map_option cte_flags (ctes s d) = Some (cap, True, True)" "cap \<noteq> NullCap" "cap_get_capIsPhysical cap"
    "cap_get_capPtr cap = a" "cap_get_capSizeBits cap = sz" "fresh_object s cap" "valid_cnode_cap cap" using n(1) by (auto simp: new_cap_def)
  have fl: "map_option cte_flags (ctes s' q) = map_option cte_flags (ctes s q)" if "\<not> A q" "q \<notin> D" for q using fr that by (simp add: new_frame_def)
  have "map_option cte_cap (ctes s' q) = map_option cte_cap (ctes s q)" if "\<not> A q" "q \<notin> D" for q
    by (rule flags_cap) (rule fl[OF that])
  moreover have "ksCurDomain s' = ksCurDomain s" using fr arg_cong[of _ s ksCurDomain, OF fr[unfolded new_frame_def, THEN conjunct1]] by simp
  ultimately have "fresh_object s' cap"
    by (intro fresh_object_frame[OF cap(6,4,5) n(2,3) cap(7)]) (use fr out(3) in \<open>auto simp: new_frame_def\<close>)
  moreover have "map_option cte_flags (ctes s' d) = Some (cap, True, True)" using fl[OF out(2,1)] cap(1) by simp
  ultimately show ?thesis unfolding new_cap_def using cap by blast
qed

subsection \<open>Creating all objects\<close>

lemma insert_chain_again:
  assumes "x \<in> L" "y \<notin> L - {x}"
  shows "insert z (insert y (L - {x}) - {y}) = insert z (L - {x})"
  using assms by auto

lemma createNewObjects_loop_ok:
  assumes t: "t < seL4_ObjectTypeCount" "getObjectSize t us = Some sz" "sz \<le> seL4_MaxUntypedBits" "us < 64" "t = seL4_CapTableObject \<longrightarrow> us \<noteq> 0"
    and area: "\<And>i. i < n \<Longrightarrow> aligned (base + push_bit (unat sz) (of_nat i)) sz \<and> base + push_bit (unat sz) (of_nat i) \<noteq> 0"
    and disj: "\<And>i j q. i < j \<Longrightarrow> j < n \<Longrightarrow> in_block (base + push_bit (unat sz) (of_nat i)) sz q \<Longrightarrow> \<not> in_block (base + push_bit (unat sz) (of_nat j)) sz q"
    and dist: "\<And>i j. i < j \<Longrightarrow> j < n \<Longrightarrow> cte_at_index dc (off + of_nat i) \<noteq> cte_at_index dc (off + of_nat j)"
  shows "valid_mdb s L \<Longrightarrow> ys @ par # zs \<in> L \<Longrightarrow> k \<le> n \<Longrightarrow>
    (\<And>i q. k \<le> i \<Longrightarrow> i < n \<Longrightarrow> in_block (base + push_bit (unat sz) (of_nat i)) sz q \<Longrightarrow> no_object s q) \<Longrightarrow>
    (\<And>i. k \<le> i \<Longrightarrow> i < n \<Longrightarrow> map_option cte_cap (ctes s (cte_at_index dc (off + of_nat i))) = Some NullCap) \<Longrightarrow>
    succeeds (createNewObjects_loop t par dc off base us dev sz [k..<n] s) (\<lambda>s'.
      valid_mdb s' (insert (ys @ par # rev (map (\<lambda>i. cte_at_index dc (off + of_nat i)) [k..<n]) @ zs) (L - {ys @ par # zs})) \<and>
      new_frame (\<lambda>q. \<exists>i\<in>{k..<n}. in_block (base + push_bit (unat sz) (of_nat i)) sz q) ((\<lambda>i. cte_at_index dc (off + of_nat i)) ` {k..<n}) s s' \<and>
      (\<forall>i\<in>{k..<n}. new_cap s' (cte_at_index dc (off + of_nat i)) (base + push_bit (unat sz) (of_nat i)) sz))"
proof (induction "n - k" arbitrary: k s L zs)
  case 0
  then have "k = n" by simp
  moreover have "insert (ys @ par # zs) (L - {ys @ par # zs}) = L" using 0 by auto
  ultimately show ?case using 0 by (simp add: new_frame_def)
next
  case (Suc m)
  let ?a = "\<lambda>i. base + push_bit (unat sz) (of_nat i)" and ?d = "\<lambda>i. cte_at_index dc (off + of_nat i)"
  have k: "k < n" using Suc.hyps(2) by simp
  obtain d where d: "ctes s (?d k) = Some d" "cte_cap d = NullCap" using Suc.prems(5)[of k] k by auto
  have up: "[k..<n] = k # [Suc k..<n]" using k by (simp add: upt_conv_Cons)
  have dout: "\<not> in_block (?a i) sz (?d j)" if "k \<le> i" "i < n" "k \<le> j" "j < n" for i j
    using Suc.prems(4)[OF that(1,2), of "?d j"] Suc.prems(5)[OF that(3,4)] by (auto simp: no_object_def)
  have "succeeds (createObject t (?a k) us dev (typ_region_bytes (?a k) sz s)) (\<lambda>(cap, s1). succeeds (insertNewCap par (?d k) cap s1) (\<lambda>s'.
     valid_mdb s' (insert (ys @ par # ?d k # zs) (L - {ys @ par # zs})) \<and> new_cap s' (?d k) (?a k) sz \<and> new_frame (in_block (?a k) sz) {?d k} s s'))"
    by (rule create_one[OF Suc.prems(1,2) d t]) (use area[OF k] Suc.prems(4)[of k] k in auto)
  then show ?case unfolding up createNewObjects_loop.simps Let_def succeeds_bind
  proof (elim succeeds_mono, goal_cases)
    case (1 r)
    obtain cap s1 where r: "r = (cap, s1)" by (cases r)
    show ?case using 1(2) unfolding r prod.case succeeds_bind
    proof (elim succeeds_mono, goal_cases)
      case (1 s2)
      let ?L = "insert (ys @ par # ?d k # zs) (L - {ys @ par # zs})"
      have s2: "valid_mdb s2 ?L" "new_cap s2 (?d k) (?a k) sz" "new_frame (in_block (?a k) sz) {?d k} s s2" using 1(2) by blast+
      have same: "tcbs s2 q = tcbs s q \<and> eps s2 q = eps s q \<and> ntfns s2 q = ntfns s q \<and> (q \<noteq> ?d k \<longrightarrow> map_option cte_flags (ctes s2 q) = map_option cte_flags (ctes s q))"
        if "\<not> in_block (?a k) sz q" for q using s2(3) that by (simp add: new_frame_def)
      have fr2: "no_object s2 q" if i: "Suc k \<le> i" "i < n" "in_block (?a i) sz q" for i q
      proof -
        have "no_object s q" "\<not> in_block (?a k) sz q" "q \<noteq> ?d k" using i Suc.prems(4)[of i q] disj[of k i q] dout[of i k] k by auto
        then show ?thesis using same[of q] by (simp add: no_object_def)
      qed
      have em2: "map_option cte_cap (ctes s2 (?d i)) = Some NullCap" if i: "Suc k \<le> i" "i < n" for i
      proof -
        have "map_option cte_flags (ctes s2 (?d i)) = map_option cte_flags (ctes s (?d i))" using same[of "?d i"] dout[of k i] dist[of k i] i k by auto
        from flags_cap[OF this] show ?thesis using Suc.prems(5)[of i] i by simp
      qed
      have "ys @ par # ?d k # zs \<notin> L - {ys @ par # zs}" using valid_mdbD(6)[OF Suc.prems(1) d, of "ys @ par # ?d k # zs"] by auto
      note again = insert_chain_again[OF Suc.prems(2) this]
      have "m = n - Suc k" "Suc k \<le> n" using Suc.hyps(2) k by auto
      then have "succeeds (createNewObjects_loop t par dc off base us dev sz [Suc k..<n] s2) (\<lambda>s'.
          valid_mdb s' (insert (ys @ par # rev (map ?d [Suc k..<n]) @ ?d k # zs) (?L - {ys @ par # ?d k # zs})) \<and>
          new_frame (\<lambda>q. \<exists>i\<in>{Suc k..<n}. in_block (?a i) sz q) (?d ` {Suc k..<n}) s2 s' \<and> (\<forall>i\<in>{Suc k..<n}. new_cap s' (?d i) (?a i) sz))"
        by (intro Suc.hyps(1)[OF _ s2(1)]) (use fr2 em2 in auto)
      then show ?case unfolding again
      proof (elim succeeds_mono, goal_cases)
        case (1 s')
        note 4 = 1
        have fr: "new_frame (\<lambda>q. \<exists>i\<in>{Suc k..<n}. in_block (?a i) sz q) (?d ` {Suc k..<n}) s2 s'"
          and nc: "\<forall>i\<in>{Suc k..<n}. new_cap s' (?d i) (?a i) sz" using 4(2) by blast+
        have "new_cap s' (?d k) (?a k) sz"
        proof (rule new_cap_frame[OF s2(2) t(3) _ fr])
          show "aligned (?a k) sz" using area[OF k] by simp
          have "?d k \<noteq> ?d j" if "j \<in> {Suc k..<n}" for j by (rule dist) (use that in auto)
          then show "?d k \<notin> ?d ` {Suc k..<n}" by blast
          show "\<not> (\<exists>i\<in>{Suc k..<n}. in_block (?a i) sz (?d k))" using dout[of _ k] k by force
          show "\<not> (\<exists>i\<in>{Suc k..<n}. in_block (?a i) sz q) \<and> q \<notin> ?d ` {Suc k..<n}" if "in_block (?a k) sz q" for q
            using disj[of k _ q] dout[of k] k that by force
        qed
        moreover have "new_frame (\<lambda>q. \<exists>i\<in>{k..<n}. in_block (?a i) sz q) (?d ` {k..<n}) s s'"
        proof -
          have "{k..<n} = insert k {Suc k..<n}" using k by auto
          then show ?thesis using new_frame_trans[OF s2(3) fr] by simp
        qed
        moreover have "{k..<n} = insert k {Suc k..<n}" using k by auto
        ultimately show ?case using 4(2) nc by simp
      qed
    qed
  qed
qed

end
