(* ===== verification/KRetype.thy ===== *)
theory KRetype
  imports KUntypedInv
begin

unbundle bit_operations_syntax

text \<open>
  The invocation of an untyped capability as a whole: the invariant of untyped capabilities, the reset of a
  block and its restart, and the outcomes of \<^verbatim>\<open>decodeUntypedInvocation\<close>.
\<close>

subsection \<open>The blocks and slots of a retype\<close>

lemma area_facts:
  fixes sz base :: word_t
  assumes sz: "sz < 64" and al: "aligned base sz" and top: "unat base + n * 2 ^ unat sz \<le> 2 ^ 64" and i: "i < n"
  shows "unat (base + push_bit (unat sz) (of_nat i)) = unat base + i * 2 ^ unat sz" "aligned (base + push_bit (unat sz) (of_nat i)) sz"
    "in_block (base + push_bit (unat sz) (of_nat i)) sz q \<longleftrightarrow> unat base + i * 2 ^ unat sz \<le> unat q \<and> unat q < unat base + Suc i * 2 ^ unat sz"
proof -
  let ?m = "(2::nat) ^ unat sz"
  have m: "0 < ?m" by simp
  have "Suc i * ?m \<le> n * ?m" using i by (intro mult_le_mono1) simp
  then have le: "unat base + i * ?m + ?m \<le> 2 ^ 64" using top by simp
  have "i * 1 \<le> i * ?m" by (rule mult_le_mono2) simp
  then have "i * ?m < 2 ^ 64" "i < 2 ^ 64" "unat base + i * ?m < 2 ^ 64" using le m by linarith+
  then have "unat (of_nat i * 2 ^ unat sz :: word_t) = i * ?m" using sz
    by (simp add: unat_word_ariths unat_of_nat unat_2p word_less_nat_alt)
  then show u: "unat (base + push_bit (unat sz) (of_nat i)) = unat base + i * ?m"
    using \<open>unat base + i * ?m < 2 ^ 64\<close> by (simp add: push_bit_eq_mult unat_word_ariths)
  show al': "aligned (base + push_bit (unat sz) (of_nat i)) sz" using al u by (simp add: aligned_mod[OF sz])
  show "in_block (base + push_bit (unat sz) (of_nat i)) sz q \<longleftrightarrow> unat base + i * ?m \<le> unat q \<and> unat q < unat base + Suc i * ?m"
    using in_block_iff[OF sz aligned_fits[OF sz al'], of q] u by (simp add: algebra_simps)
qed

lemma slot_distinct:
  fixes off dc :: word_t
  assumes "i < j" "j < n" "n \<le> 256"
  shows "cte_at_index dc (off + of_nat i) \<noteq> cte_at_index dc (off + of_nat j)"
proof
  assume "cte_at_index dc (off + of_nat i) = cte_at_index dc (off + of_nat j)"
  then have "(of_nat j - of_nat i) * 32 = (0 :: word_t)" by (simp add: cte_at_index_def push_bit_eq_mult algebra_simps)
  moreover have "(of_nat j - of_nat i) * 32 = (of_nat ((j - i) * 32) :: word_t)" using assms(1) by (simp add: of_nat_diff)
  ultimately have "unat (of_nat ((j - i) * 32) :: word_t) = 0" by simp
  moreover have "unat (of_nat ((j - i) * 32) :: word_t) = (j - i) * 32" unfolding unat_of_nat using assms by simp
  ultimately show False using assms(1) by simp
qed

subsection \<open>Clear memory\<close>

definition zero_at :: "kernel_state \<Rightarrow> ptr \<Rightarrow> bool" where
  "zero_at s q \<longleftrightarrow> userMem s q = 0 \<and> ptes (ksArch s) q = pte_invalid \<and> (\<forall>pool i. word_at pool i = q \<longrightarrow> asidPools (ksArch s) pool i = asid_map_none)"

definition mem_same :: "kernel_state \<Rightarrow> kernel_state \<Rightarrow> ptr \<Rightarrow> bool" where
  "mem_same s s' q \<longleftrightarrow> userMem s' q = userMem s q \<and> ptes (ksArch s') q = ptes (ksArch s) q \<and>
     (\<forall>pool i. word_at pool i = q \<longrightarrow> asidPools (ksArch s') pool i = asidPools (ksArch s) pool i)"

lemma clearMemory_effect:
  "in_block a b q \<Longrightarrow> zero_at (clearMemory a b s) q" "\<not> in_block a b q \<Longrightarrow> mem_same s (clearMemory a b s) q"
  by (auto simp: clearMemory_def upd_arch_def zero_at_def mem_same_def)

lemma mem_same_trans: "mem_same s s1 q \<Longrightarrow> mem_same s1 s2 q \<Longrightarrow> mem_same s s2 q"
  by (simp add: mem_same_def)

lemma mem_same_zero: "mem_same s s' q \<Longrightarrow> zero_at s' q = zero_at s q"
  by (auto simp: mem_same_def zero_at_def)

text \<open>A state with one slot's capability, some memory, the count of work and the polls changed.\<close>

definition reset_frame :: "ptr \<Rightarrow> cte \<Rightarrow> kernel_state \<Rightarrow> kernel_state \<Rightarrow> bool" where
  "reset_frame slot c s s' \<longleftrightarrow> ctes s' = (ctes s)(slot := Some c) \<and>
     s'\<lparr>ctes := ctes s, userMem := userMem s, ksArch := ksArch s, ksWorkUnitsCompleted := ksWorkUnitsCompleted s, irqPolls := irqPolls s\<rparr> = s \<and>
     armKSASIDTable (ksArch s') = armKSASIDTable (ksArch s)"

lemma reset_frame_trans: "reset_frame slot c s s1 \<Longrightarrow> reset_frame slot c' s1 s2 \<Longrightarrow> reset_frame slot c' s s2"
proof -
  let ?f = "\<lambda>s s'. s'\<lparr>ctes := ctes s, userMem := userMem s, ksArch := ksArch s, ksWorkUnitsCompleted := ksWorkUnitsCompleted s, irqPolls := irqPolls s\<rparr>"
  assume a: "reset_frame slot c s s1" "reset_frame slot c' s1 s2"
  have "?f s s2 = ?f s (?f s1 s2)" by simp
  also have "\<dots> = s" using a by (simp add: reset_frame_def)
  finally show ?thesis using a by (simp add: reset_frame_def)
qed

subsection \<open>Resetting a block\<close>

lemma preemptionPoint_frame:
  "\<exists>e s'. preemptionPoint s = (e, s') \<and> (e = EXCEPTION_NONE \<or> e = EXCEPTION_PREEMPTED) \<and>
     ctes s' = ctes s \<and> (\<forall>q. mem_same s s' q) \<and> ksArch s' = ksArch s \<and> s'\<lparr>ksWorkUnitsCompleted := ksWorkUnitsCompleted s, irqPolls := irqPolls s\<rparr> = s"
  by (rule preemptionPoint_effect[of s]) (auto simp: mem_same_def)

lemma chunk_offset: "of_nat (k * 256) - BITw CONFIG_RESET_CHUNK_BITS = (if k = 0 then - BITw CONFIG_RESET_CHUNK_BITS else of_nat ((k - 1) * 256) :: word_t)"
  by (cases k) (simp_all add: BITw_def BIT_def CONFIG_RESET_CHUNK_BITS_def push_bit_eq_mult)

lemma chunk_ne: "k < 2 ^ 39 \<Longrightarrow> of_nat (k * 256) \<noteq> - BITw CONFIG_RESET_CHUNK_BITS"
proof
  assume k: "k < 2 ^ 39" and "of_nat (k * 256) = - BITw CONFIG_RESET_CHUNK_BITS"
  then have "of_nat (k * 256 + 256) = (0 :: word_t)" by (simp add: BITw_def BIT_def CONFIG_RESET_CHUNK_BITS_def push_bit_eq_mult)
  then have "unat (of_nat (k * 256 + 256) :: word_t) = 0" by simp
  then show False using k unfolding unat_of_nat by simp
qed

lemma in_chunk:
  assumes "unat p + Suc k * 256 \<le> 2 ^ 64"
  shows "in_block (GET_OFFSET_FREE_PTR p (of_nat (k * 256))) CONFIG_RESET_CHUNK_BITS q \<longleftrightarrow> unat p + k * 256 \<le> unat q \<and> unat q < unat p + Suc k * 256"
proof -
  have "unat (of_nat (k * 256) :: word_t) = k * 256" unfolding unat_of_nat using assms by simp
  then have u: "unat (p + of_nat (k * 256)) = unat p + k * 256" using assms unfolding unat_word_ariths by simp
  then show ?thesis using in_block_iff[of CONFIG_RESET_CHUNK_BITS "p + of_nat (k * 256)" q] assms
    by (auto simp: GET_OFFSET_FREE_PTR_def CONFIG_RESET_CHUNK_BITS_def)
qed

lemma chunk_index: "k < 2 ^ 39 \<Longrightarrow> OFFSET_TO_FREE_INDEX (of_nat (k * 256)) = of_nat (k * 16)"
proof -
  assume k: "k < 2 ^ 39"
  then have "unat (of_nat (k * 256) :: word_t) = k * 256" "unat (of_nat (k * 16) :: word_t) = k * 16" unfolding unat_of_nat by simp_all
  then have "unat (drop_bit 4 (of_nat (k * 256) :: word_t)) = unat (of_nat (k * 16) :: word_t)" unfolding unat_drop_bit_eq by (simp add: drop_bit_eq_div)
  then show ?thesis by (simp only: OFFSET_TO_FREE_INDEX_def seL4_MinUntypedBits_def word_unat_eq_iff unat_numeral) simp
qed

lemma reset_step:
  assumes cap: "cap = UntypedCap dev b f p" and c: "ctes s slot = Some c" and k: "k < 2 ^ 39" "unat p + Suc k * 256 \<le> 2 ^ 64"
  obtains e s1 where "resetUntypedCap_loop slot cap p (of_nat (k * 256)) s = (if e \<noteq> EXCEPTION_NONE then Some (e, s1)
      else resetUntypedCap_loop slot cap p (of_nat (k * 256) - BITw CONFIG_RESET_CHUNK_BITS) s1)" "e = EXCEPTION_NONE \<or> e = EXCEPTION_PREEMPTED"
    "reset_frame slot (c\<lparr>cte_cap := UntypedCap dev b (of_nat (k * 16)) p\<rparr>) s s1"
    "\<forall>q. if unat p + k * 256 \<le> unat q \<and> unat q < unat p + Suc k * 256 then zero_at s1 q else mem_same s s1 q"
proof -
  let ?c = "c\<lparr>cte_cap := UntypedCap dev b (of_nat (k * 16)) p\<rparr>" and ?a = "GET_OFFSET_FREE_PTR p (of_nat (k * 256))"
  let ?s = "clearMemory ?a CONFIG_RESET_CHUNK_BITS s"
  let ?t = "?s\<lparr>ctes := (ctes ?s)(slot := Some ?c)\<rparr>"
  have c': "ctes ?s slot = Some c" using c by (simp add: clearMemory_def upd_arch_def)
  obtain e s1 where p: "preemptionPoint ?t = (e, s1)" "e = EXCEPTION_NONE \<or> e = EXCEPTION_PREEMPTED" "ctes s1 = ctes ?t" "\<forall>q. mem_same ?t s1 q"
    "ksArch s1 = ksArch ?t" "s1\<lparr>ksWorkUnitsCompleted := ksWorkUnitsCompleted ?t, irqPolls := irqPolls ?t\<rparr> = ?t" using preemptionPoint_frame[of ?t] by blast
  have "resetUntypedCap_loop slot cap p (of_nat (k * 256)) s = (if e \<noteq> EXCEPTION_NONE then Some (e, s1)
      else resetUntypedCap_loop slot cap p (of_nat (k * 256) - BITw CONFIG_RESET_CHUNK_BITS) s1)"
    using chunk_ne[OF k(1)] chunk_index[OF k(1)] c' p(1)
    by (subst resetUntypedCap_loop.simps) (simp add: cap cap_untyped_cap_set_capFreeIndex_def set_cap_def Let_def)
  moreover have "reset_frame slot ?c s s1"
  proof -
    let ?f = "\<lambda>s s'. s'\<lparr>ctes := ctes s, userMem := userMem s, ksArch := ksArch s, ksWorkUnitsCompleted := ksWorkUnitsCompleted s, irqPolls := irqPolls s\<rparr>"
    have "?f s s1 = ?f s (s1\<lparr>ksWorkUnitsCompleted := ksWorkUnitsCompleted ?t, irqPolls := irqPolls ?t\<rparr>)" by simp
    also have "\<dots> = s" unfolding p(6) by (simp add: clearMemory_def upd_arch_def)
    finally show ?thesis using p(3,5) by (simp add: reset_frame_def) (simp add: clearMemory_def upd_arch_def)
  qed
  moreover have "if unat p + k * 256 \<le> unat q \<and> unat q < unat p + Suc k * 256 then zero_at s1 q else mem_same s s1 q" for q
  proof -
    have t: "mem_same ?s s1 q" using p(4)[rule_format, of q] by (simp add: mem_same_def)
    show ?thesis using clearMemory_effect[of ?a CONFIG_RESET_CHUNK_BITS q s] in_chunk[OF k(2), of q] mem_same_zero[OF t] mem_same_trans[OF _ t] by auto
  qed
  ultimately show thesis using that p(2) by blast
qed

text \<open>
  The loop clears chunk after chunk, downwards; where it is preempted, what it has cleared is above the
  index that it has stored.
\<close>

lemma reset_loop_ok:
  assumes "cap = UntypedCap dev b f p"
  shows "ctes s slot = Some c \<Longrightarrow> k < 2 ^ 39 \<Longrightarrow> unat p + Suc k * 256 \<le> 2 ^ 64 \<Longrightarrow>
    succeeds (resetUntypedCap_loop slot cap p (of_nat (k * 256)) s) (\<lambda>(e, s'). \<exists>j \<le> k.
      (e = EXCEPTION_NONE \<and> j = 0 \<or> e = EXCEPTION_PREEMPTED) \<and> reset_frame slot (c\<lparr>cte_cap := UntypedCap dev b (of_nat (j * 16)) p\<rparr>) s s' \<and>
      (\<forall>q. if unat p + j * 256 \<le> unat q \<and> unat q < unat p + Suc k * 256 then zero_at s' q else mem_same s s' q))"
proof (induction k arbitrary: s c)
  case (0 s c)
  obtain e s1 where st: "resetUntypedCap_loop slot cap p (of_nat (0 * 256)) s = (if e \<noteq> EXCEPTION_NONE then Some (e, s1)
      else resetUntypedCap_loop slot cap p (of_nat (0 * 256) - BITw CONFIG_RESET_CHUNK_BITS) s1)" "e = EXCEPTION_NONE \<or> e = EXCEPTION_PREEMPTED"
    "reset_frame slot (c\<lparr>cte_cap := UntypedCap dev b (of_nat (0 * 16)) p\<rparr>) s s1"
    "\<forall>q. if unat p + 0 * 256 \<le> unat q \<and> unat q < unat p + Suc 0 * 256 then zero_at s1 q else mem_same s s1 q"
    by (rule reset_step[OF assms 0])
  have "resetUntypedCap_loop slot cap p (of_nat (0 * 256) - BITw CONFIG_RESET_CHUNK_BITS) s1 = Some (EXCEPTION_NONE, s1)"
    unfolding chunk_offset by (subst resetUntypedCap_loop.simps) simp
  then have "resetUntypedCap_loop slot cap p (of_nat (0 * 256)) s = Some (e, s1)" using st(1,2) by (simp split: if_splits)
  then show ?case using st(2-4) by simp
next
  case (Suc k)
  note prems = Suc.prems(1) Suc.prems(2) Suc.prems(3)
  obtain e s1 where st: "resetUntypedCap_loop slot cap p (of_nat (Suc k * 256)) s = (if e \<noteq> EXCEPTION_NONE then Some (e, s1)
      else resetUntypedCap_loop slot cap p (of_nat (Suc k * 256) - BITw CONFIG_RESET_CHUNK_BITS) s1)" "e = EXCEPTION_NONE \<or> e = EXCEPTION_PREEMPTED"
    "reset_frame slot (c\<lparr>cte_cap := UntypedCap dev b (of_nat (Suc k * 16)) p\<rparr>) s s1"
    "\<forall>q. if unat p + Suc k * 256 \<le> unat q \<and> unat q < unat p + Suc (Suc k) * 256 then zero_at s1 q else mem_same s s1 q"
    by (rule reset_step[OF assms prems])
  show ?case
  proof (cases "e = EXCEPTION_NONE")
    case False
    then have "e = EXCEPTION_PREEMPTED" "resetUntypedCap_loop slot cap p (of_nat (Suc k * 256)) s = Some (e, s1)" using st(1,2) by auto
    then show ?thesis using st(3,4) by auto
  next
    case True
    let ?c = "c\<lparr>cte_cap := UntypedCap dev b (of_nat (Suc k * 16)) p\<rparr>"
    have c1: "ctes s1 slot = Some ?c" using st(3) by (simp add: reset_frame_def)
    have eq: "resetUntypedCap_loop slot cap p (of_nat (Suc k * 256)) s = resetUntypedCap_loop slot cap p (of_nat (k * 256)) s1"
      using st(1) True unfolding chunk_offset by simp
    have k: "k < 2 ^ 39" "unat p + Suc k * 256 \<le> 2 ^ 64" using Suc.prems by auto
    show ?thesis unfolding eq
    proof (rule succeeds_mono[OF Suc.IH[OF c1 k]], clarify)
      fix e s' j
      assume j: "j \<le> k" "e = EXCEPTION_NONE \<and> j = 0 \<or> e = EXCEPTION_PREEMPTED"
        "reset_frame slot (?c\<lparr>cte_cap := UntypedCap dev b (of_nat (j * 16)) p\<rparr>) s1 s'"
        "\<forall>q. if unat p + j * 256 \<le> unat q \<and> unat q < unat p + Suc k * 256 then zero_at s' q else mem_same s1 s' q"
      have "if unat p + j * 256 \<le> unat q \<and> unat q < unat p + Suc (Suc k) * 256 then zero_at s' q else mem_same s s' q" for q
      proof (cases "unat q < unat p + Suc k * 256")
        case True
        then show ?thesis using j(4)[rule_format, of q] st(4)[rule_format, of q] mem_same_trans[of s s1 q s'] by (auto split: if_splits)
      next
        case False
        then have "j * 256 \<le> Suc k * 256" "mem_same s1 s' q" using j(1) j(4)[rule_format, of q] False by auto
        then show ?thesis using False st(4)[rule_format, of q] mem_same_zero[of s1 s' q] mem_same_trans[of s s1 q s'] by (auto split: if_splits)
      qed
      moreover have "reset_frame slot (c\<lparr>cte_cap := UntypedCap dev b (of_nat (j * 16)) p\<rparr>) s s'"
        using reset_frame_trans[OF st(3) j(3)] by simp
      ultimately show "\<exists>j\<le>Suc k. (e = EXCEPTION_NONE \<and> j = 0 \<or> e = EXCEPTION_PREEMPTED) \<and>
          reset_frame slot (c\<lparr>cte_cap := UntypedCap dev b (of_nat (j * 16)) p\<rparr>) s s' \<and>
          (\<forall>q. if unat p + j * 256 \<le> unat q \<and> unat q < unat p + Suc (Suc k) * 256 then zero_at s' q else mem_same s s' q)"
        using j(1,2) le_SucI by blast
    qed
  qed
qed

text \<open>The addresses of an untyped block from its free index on.\<close>

definition free_addr :: "ptr \<Rightarrow> word_t \<Rightarrow> word_t \<Rightarrow> ptr \<Rightarrow> bool" where
  "free_addr p b f q \<longleftrightarrow> unat p + 16 * unat f \<le> unat q \<and> unat q < unat p + 2 ^ unat b"

definition wf_untyped :: "ptr \<Rightarrow> word_t \<Rightarrow> word_t \<Rightarrow> bool" where
  "wf_untyped p b f \<longleftrightarrow> p \<noteq> 0 \<and> aligned p b \<and> seL4_MinUntypedBits \<le> b \<and> b \<le> seL4_MaxUntypedBits \<and> f \<le> MAX_FREE_INDEX b"

lemma wf_untypedD:
  assumes "wf_untyped p b f"
  shows "b < 64" "unat b \<le> 47" "4 \<le> unat b" "16 * unat f \<le> 2 ^ unat b" "unat p + 2 ^ unat b \<le> 2 ^ 64" "unat (FREE_INDEX_TO_OFFSET f) = 16 * unat f"
    "in_block p b q \<longleftrightarrow> unat p \<le> unat q \<and> unat q < unat p + 2 ^ unat b" "(2::nat) ^ unat b \<le> 2 ^ 47" "aligned p b" "p \<noteq> 0"
proof -
  show b: "unat b \<le> 47" "4 \<le> unat b" using assms by (simp_all add: wf_untyped_def seL4_MinUntypedBits_def seL4_MaxUntypedBits_def word_le_nat_alt)
  show b64: "b < 64" using b by (simp add: word_less_nat_alt)
  show al: "aligned p b" "p \<noteq> 0" using assms by (simp_all add: wf_untyped_def)
  have bm: "unat (b - 4) = unat b - 4" using b(2) by (subst unat_sub) (simp_all add: word_le_nat_alt)
  then have "unat (BITw (b - 4)) = 2 ^ (unat b - 4)" using b by (subst unat_BITw) (simp_all add: word_less_nat_alt)
  then have "unat f \<le> 2 ^ (unat b - 4)" using assms by (simp add: wf_untyped_def MAX_FREE_INDEX_def seL4_MinUntypedBits_def word_le_nat_alt)
  moreover have e: "(2::nat) ^ unat b = 16 * 2 ^ (unat b - 4)" using b(2) power_add[of "2::nat" 4 "unat b - 4"] by simp
  ultimately show f: "16 * unat f \<le> 2 ^ unat b" by simp
  show p47: "(2::nat) ^ unat b \<le> 2 ^ 47" using b(1) by (rule power_increasing) simp
  show fit: "unat p + 2 ^ unat b \<le> 2 ^ 64" by (rule aligned_fits[OF b64 al(1)])
  show "unat (FREE_INDEX_TO_OFFSET f) = 16 * unat f"
    using f p47 by (simp add: FREE_INDEX_TO_OFFSET_def seL4_MinUntypedBits_def push_bit_eq_mult unat_word_ariths)
  show "in_block p b q \<longleftrightarrow> unat p \<le> unat q \<and> unat q < unat p + 2 ^ unat b" by (rule in_block_iff[OF b64 fit])
qed

lemma first_chunk:
  assumes w: "wf_untyped p b f" and f: "f \<noteq> 0" and b: "\<not> b < CONFIG_RESET_CHUNK_BITS"
  obtains k where "ROUND_DOWN (FREE_INDEX_TO_OFFSET f - 1) CONFIG_RESET_CHUNK_BITS = of_nat (k * 256)" "k < 2 ^ 39"
    "unat p + Suc k * 256 \<le> unat p + 2 ^ unat b" "k * 16 < unat f" "16 * unat f \<le> Suc k * 256"
proof -
  note d = wf_untypedD[OF w]
  let ?o = "16 * unat f" and ?k = "(16 * unat f - 1) div 256"
  have f0: "0 < unat f" using f by (simp add: unat_gt_0)
  have o1: "unat (FREE_INDEX_TO_OFFSET f - 1) = ?o - 1" using d(6) f0 by (subst unat_sub) (simp_all add: word_le_nat_alt)
  have ko: "?k * 256 \<le> ?o - 1" "?o - 1 < Suc ?k * 256" by (simp_all add: div_times_less_eq_dividend)
  have "unat (push_bit 8 (drop_bit 8 (FREE_INDEX_TO_OFFSET f - 1))) = ?k * 256"
    using and_not_mask[of 8 "FREE_INDEX_TO_OFFSET f - 1"] unfolding and_not_shift o1 by simp
  moreover have "unat (of_nat (?k * 256) :: word_t) = ?k * 256" unfolding unat_of_nat using ko d(4,8) by simp
  ultimately have r: "ROUND_DOWN (FREE_INDEX_TO_OFFSET f - 1) CONFIG_RESET_CHUNK_BITS = of_nat (?k * 256)"
    by (simp only: ROUND_DOWN_def CONFIG_RESET_CHUNK_BITS_def word_unat_eq_iff unat_numeral) simp
  have b8: "8 \<le> unat b" using b by (simp add: CONFIG_RESET_CHUNK_BITS_def word_less_nat_alt)
  then have e: "(2::nat) ^ unat b = 2 ^ (unat b - 8) * 256" using power_add[of "2::nat" "unat b - 8" 8] by simp
  have "?k * 256 < 2 ^ (unat b - 8) * 256" using ko(1) d(4) f0 unfolding e by linarith
  then have "Suc ?k * 256 \<le> 2 ^ unat b" unfolding e by (intro mult_le_mono1) simp
  then show thesis using that[OF r] ko d(4,8) f0 by simp
qed

lemma reset_frame_refl: "ctes s slot = Some c \<Longrightarrow> reset_frame slot c s s"
  by (simp add: reset_frame_def fun_upd_idem)

lemma resetUntypedCap_ok:
  assumes c: "ctes s slot = Some c" "cte_cap c = UntypedCap dev b f p" and w: "wf_untyped p b f"
    and free: "\<And>q. in_block p b q \<Longrightarrow> no_object s q" and zero: "\<And>q. \<not> dev \<Longrightarrow> free_addr p b f q \<Longrightarrow> zero_at s q"
  shows "succeeds (resetUntypedCap slot s) (\<lambda>(e, s'). \<exists>f'. (e = EXCEPTION_NONE \<and> f' = 0 \<or> e = EXCEPTION_PREEMPTED \<and> f' < f) \<and>
     reset_frame slot (c\<lparr>cte_cap := UntypedCap dev b f' p\<rparr>) s s' \<and> (\<forall>q. \<not> in_block p b q \<longrightarrow> mem_same s s' q) \<and>
     (\<not> dev \<longrightarrow> (\<forall>q. free_addr p b f' q \<longrightarrow> zero_at s' q)))"
proof (cases "f = 0")
  case True
  have "c\<lparr>cte_cap := UntypedCap dev b 0 p\<rparr> = c" using c(2) True by (cases c) simp
  then have "reset_frame slot (c\<lparr>cte_cap := UntypedCap dev b 0 p\<rparr>) s s" using reset_frame_refl[OF c(1)] by simp
  then show ?thesis using c True zero
    by (auto simp: resetUntypedCap_def FREE_INDEX_TO_OFFSET_def mem_same_def)
next
  case False
  note d = wf_untypedD[OF w]
  have o: "FREE_INDEX_TO_OFFSET f \<noteq> 0" using d(6) False by (metis mult_eq_0_iff unat_0 unat_eq_zero zero_neq_numeral)
  have tr: "typ_region_bytes p b s = s" by (rule typ_region_bytes_free) (rule free)
  show ?thesis
  proof (cases "dev \<or> b < CONFIG_RESET_CHUNK_BITS")
    case True
    let ?s = "if dev then s else clearMemory p b s" and ?c = "c\<lparr>cte_cap := UntypedCap dev b 0 p\<rparr>"
    have cs: "ctes (clearMemory p b s) = ctes s" by (simp add: clearMemory_def upd_arch_def)
    let ?t = "?s\<lparr>ctes := (ctes s)(slot := Some ?c)\<rparr>"
    have "resetUntypedCap slot s = Some (EXCEPTION_NONE, ?t)"
      using c o True cs tr by (simp add: resetUntypedCap_def Let_def cap_untyped_cap_set_capFreeIndex_def set_cap_def)
    moreover have "reset_frame slot ?c s ?t" by (simp add: reset_frame_def clearMemory_def upd_arch_def)
    moreover have "\<not> in_block p b q \<longrightarrow> mem_same s ?t q" for q
      using clearMemory_effect(2)[of p b q s] by (auto simp: mem_same_def)
    moreover have "\<not> dev \<Longrightarrow> free_addr p b 0 q \<Longrightarrow> zero_at ?t q" for q
      using clearMemory_effect(1)[of p b q s] d(7)[of q] by (auto simp: zero_at_def free_addr_def)
    ultimately show ?thesis by auto
  next
    case big: False
    then obtain k where k: "ROUND_DOWN (FREE_INDEX_TO_OFFSET f - 1) CONFIG_RESET_CHUNK_BITS = of_nat (k * 256)" "k < 2 ^ 39"
      "unat p + Suc k * 256 \<le> unat p + 2 ^ unat b" "k * 16 < unat f" "16 * unat f \<le> Suc k * 256"
      by (meson first_chunk[OF w False])
    have eq: "resetUntypedCap slot s = resetUntypedCap_loop slot (UntypedCap dev b f p) p (of_nat (k * 256)) s"
      using c o big tr k(1) by (simp add: resetUntypedCap_def Let_def)
    have top: "unat p + Suc k * 256 \<le> 2 ^ 64" using k(3) d(5) by linarith
    show ?thesis unfolding eq
    proof (rule succeeds_mono[OF reset_loop_ok[OF refl c(1) k(2) top]], clarify)
      fix e s' j
      assume j: "j \<le> k" "e = EXCEPTION_NONE \<and> j = 0 \<or> e = EXCEPTION_PREEMPTED" "reset_frame slot (c\<lparr>cte_cap := UntypedCap dev b (of_nat (j * 16)) p\<rparr>) s s'"
        and m: "\<forall>q. if unat p + j * 256 \<le> unat q \<and> unat q < unat p + Suc k * 256 then zero_at s' q else mem_same s s' q"
      have u: "unat (of_nat (j * 16) :: word_t) = j * 16" unfolding unat_of_nat using j(1) k(2) by simp
      have lt: "(of_nat (j * 16) :: word_t) < f" unfolding word_less_nat_alt u using j(1) k(4) by linarith
      have "mem_same s s' q" if "\<not> in_block p b q" for q using that m[rule_format, of q] d(7)[of q] k(3) by (auto split: if_splits)
      moreover have "zero_at s' q" if "\<not> dev" "free_addr p b (of_nat (j * 16)) q" for q
      proof (cases "unat q < unat p + Suc k * 256")
        case True
        then show ?thesis using m[rule_format, of q] that(2) unfolding free_addr_def u by (auto split: if_splits)
      next
        case False
        then have "zero_at s q" using zero[OF that(1), of q] that(2) k(5) by (auto simp: free_addr_def)
        then show ?thesis using m[rule_format, of q] False mem_same_zero[of s s' q] by (auto split: if_splits)
      qed
      ultimately show "\<exists>f'. (e = EXCEPTION_NONE \<and> f' = 0 \<or> e = EXCEPTION_PREEMPTED \<and> f' < f) \<and> reset_frame slot (c\<lparr>cte_cap := UntypedCap dev b f' p\<rparr>) s s' \<and>
          (\<forall>q. \<not> in_block p b q \<longrightarrow> mem_same s s' q) \<and> (\<not> dev \<longrightarrow> (\<forall>q. free_addr p b f' q \<longrightarrow> zero_at s' q))"
        using j(2,3) lt by (intro exI[of _ "of_nat (j * 16)"]) auto
    qed
  qed
qed

subsection \<open>Retyping the free part\<close>

lemma valid_mdb_set_cap:
  assumes v: "valid_mdb s L" and c: "ctes s p = Some c" "cte_cap c \<noteq> NullCap" "cap \<noteq> NullCap"
  shows "valid_mdb (s\<lparr>ctes := (ctes s)(p := Some (c\<lparr>cte_cap := cap\<rparr>))\<rparr>) L"
proof -
  let ?m = "(ctes s)(p := Some (c\<lparr>cte_cap := cap\<rparr>))"
  have "dlink mnext mprev ?m 0 xs 0 = dlink mnext mprev (ctes s) 0 xs 0" for xs
    by (rule dlink_cong) (use c(1) in \<open>auto simp: mnext_def mprev_def\<close>)
  then have "is_chain ?m xs = is_chain (ctes s) xs" for xs by (simp add: is_chain_def)
  moreover have "(\<exists>k. ?m q = Some k \<and> cte_cap k \<noteq> NullCap) = (\<exists>k. ctes s q = Some k \<and> cte_cap k \<noteq> NullCap)" for q using c by simp
  moreover have "mnext k = 0 \<and> mprev k = 0" if "?m q = Some k" "cte_cap k = NullCap" for q k
    using that c valid_mdbD(5)[OF v] by (auto split: if_splits)
  ultimately show ?thesis using v valid_mdbD(7)[OF v] c by (auto simp: valid_mdb_def)
qed

text \<open>
  The blocks \<open>as\<close> of \<open>2 ^ sz\<close> bytes, taken in ascending order from the free part of an untyped block, hold new
  objects, the slots \<open>ds\<close> capabilities to them, and the free index is past them.
\<close>

definition retyped :: "kernel_state \<Rightarrow> kernel_state \<Rightarrow> ptr \<Rightarrow> cap \<Rightarrow> word_t \<Rightarrow> word_t \<Rightarrow> ptr list \<Rightarrow> ptr list \<Rightarrow> bool" where
  "retyped s s' slot cap f' sz as ds \<longleftrightarrow> (case cap of
     UntypedCap dev b f p \<Rightarrow> wf_untyped p b f' \<and>
       (\<forall>a\<in>set as. aligned a sz \<and> unat p + 16 * unat f \<le> unat a \<and> unat a + 2 ^ unat sz \<le> unat p + 16 * unat f') \<and>
       sorted_wrt (\<lambda>a a'. unat a + 2 ^ unat sz \<le> unat a') as \<and> as \<noteq> [] \<and> list_all2 (\<lambda>d a. new_cap s' d a sz) ds as \<and>
       new_frame (\<lambda>q. \<exists>a\<in>set as. in_block a sz q) (insert slot (set ds)) s s' \<and>
       map_option cte_flags (ctes s' slot) = map_option (\<lambda>c. cte_flags (c\<lparr>cte_cap := UntypedCap dev b f' p\<rparr>)) (ctes s slot)
   | _ \<Rightarrow> False)"

lemma free_index_after:
  assumes w: "wf_untyped p b f" and o: "alignUp (GET_FREE_REF p f) sz - p = of_nat o'" "o' + unat n * 2 ^ unat sz \<le> 2 ^ unat b" "2 ^ unat sz dvd o'"
    and sz: "4 \<le> unat sz" "unat sz < 64"
  shows "16 * unat (GET_FREE_INDEX p (alignUp (GET_FREE_REF p f) sz + push_bit (unat sz) n)) = o' + unat n * 2 ^ unat sz"
    "wf_untyped p b (GET_FREE_INDEX p (alignUp (GET_FREE_REF p f) sz + push_bit (unat sz) n))"
proof -
  note d = wf_untypedD[OF w]
  let ?e = "o' + unat n * 2 ^ unat sz" and ?f = "GET_FREE_INDEX p (alignUp (GET_FREE_REF p f) sz + push_bit (unat sz) n)"
  have lt: "?e < 2 ^ 64" using o(2) d(8) by (simp add: le_less_trans)
  have "alignUp (GET_FREE_REF p f) sz + push_bit (unat sz) n - p = of_nat ?e"
    using o(1) by (simp add: push_bit_eq_mult algebra_simps)
  moreover have "unat (of_nat ?e :: word_t) = ?e" unfolding unat_of_nat using lt by simp
  ultimately have "unat (alignUp (GET_FREE_REF p f) sz + push_bit (unat sz) n - p) = ?e" by metis
  then have f: "unat ?f = ?e div 16" unfolding GET_FREE_INDEX_def unat_drop_bit_eq by (simp add: drop_bit_eq_div seL4_MinUntypedBits_def)
  have "(2::nat) ^ 4 dvd 2 ^ unat sz" using sz(1) by (rule le_imp_power_dvd)
  then have "16 dvd ?e" using o(3) by (auto intro: dvd_trans)
  then show e: "16 * unat ?f = ?e" using f by simp
  have bm: "unat (b - 4) = unat b - 4" using d(3) by (subst unat_sub) (simp_all add: word_le_nat_alt)
  have "unat (BITw (b - 4)) = 2 ^ (unat b - 4)" using d(2,3) bm by (subst unat_BITw) (simp_all add: word_less_nat_alt)
  moreover have "(2::nat) ^ unat b = 16 * 2 ^ (unat b - 4)" using d(3) power_add[of "2::nat" 4 "unat b - 4"] by simp
  ultimately have "unat ?f \<le> unat (BITw (b - 4))" using e o(2) by simp
  then show "wf_untyped p b ?f" using w by (simp add: wf_untyped_def MAX_FREE_INDEX_def seL4_MinUntypedBits_def word_le_nat_alt)
qed

lemma retype_core:
  assumes v: "valid_mdb s L" and ch: "ys @ slot # zs \<in> L" and c: "ctes s slot = Some c" "cte_cap c = UntypedCap dev b f p" and w: "wf_untyped p b f"
    and free: "\<And>q. free_addr p b f q \<Longrightarrow> no_object s q"
    and t: "t < seL4_ObjectTypeCount" "getObjectSize t us = Some sz" "sz \<le> seL4_MaxUntypedBits" "us < 64" "t = seL4_CapTableObject \<longrightarrow> us \<noteq> 0"
      "4 \<le> sz"
    and n: "1 \<le> n" "n \<le> 256" "n \<le> drop_bit (unat sz) (BITw b - FREE_INDEX_TO_OFFSET f)"
    and empty: "\<And>i. i < unat n \<Longrightarrow> map_option cte_cap (ctes s (cte_at_index dc (off + of_nat i))) = Some NullCap"
  defines "base \<equiv> alignUp (GET_FREE_REF p f) sz"
  defines "f' \<equiv> GET_FREE_INDEX p (base + push_bit (unat sz) n)"
  shows "succeeds (set_cap slot (UntypedCap dev b f' p) s) (\<lambda>s1. succeeds (createNewObjects t slot dc off n base us dev s1) (\<lambda>s'.
      \<exists>ds as. ds = map (\<lambda>i. cte_at_index dc (off + of_nat i)) [0..<unat n] \<and> retyped s s' slot (cte_cap c) f' sz as ds \<and>
        valid_mdb s' (insert (ys @ slot # rev ds @ zs) (L - {ys @ slot # zs}))))"
proof -
  note d = wf_untypedD[OF w]
  let ?a = "\<lambda>i. base + push_bit (unat sz) (of_nat i)" and ?d = "\<lambda>i. cte_at_index dc (off + of_nat i)" and ?m = "(2::nat) ^ unat sz"
  have sz: "sz < 64" "4 \<le> unat sz" "unat sz < 64" using t(3,6) by (simp_all add: seL4_MaxUntypedBits_def word_le_nat_alt word_less_nat_alt)
  have n256: "unat n \<le> 256" "1 \<le> unat n" using n(1,2) by (simp_all add: word_le_nat_alt)
  have "unat (FREE_INDEX_TO_OFFSET f) \<le> 2 ^ unat b" using d(4,6) by simp
  then obtain o' where o: "unat base = unat p + o'" "base - p = of_nat o'" "16 * unat f \<le> o'" "o' + unat n * ?m \<le> 2 ^ unat b" "?m dvd o'" "aligned base sz"
    using retype_room[OF d(9,1) _ sz(1) n(3,1)] d(6) unfolding base_def GET_FREE_REF_def by metis
  note fi = free_index_after[OF w o(2)[unfolded base_def] o(4,5) sz(2,3), folded base_def, folded f'_def]
  have top: "unat base + unat n * ?m \<le> 2 ^ 64" using o(1,4) d(5) by linarith
  note ar = area_facts[OF sz(1) o(6) top]
  let ?s1 = "s\<lparr>ctes := (ctes s)(slot := Some (c\<lparr>cte_cap := UntypedCap dev b f' p\<rparr>))\<rparr>"
  have v1: "valid_mdb ?s1 L" using valid_mdb_set_cap[OF v c(1), of "UntypedCap dev b f' p"] c(2) by simp
  have blk: "free_addr p b f q" if "i < unat n" "in_block (?a i) sz q" for i q
  proof -
    have "Suc i * ?m \<le> unat n * ?m" using that(1) by (intro mult_le_mono1) simp
    then show ?thesis using ar(3)[OF that(1), of q] that(2) o(1,3,4) unfolding free_addr_def by (auto simp: algebra_simps)
  qed
  have ns: "\<not> free_addr p b f slot" using free[of slot] c(1) by (auto simp: no_object_def)
  have sd: "slot \<noteq> ?d i" if "i < unat n" for i using empty[OF that] c by auto
  have "succeeds (createNewObjects_loop t slot dc off base us dev sz [0..<unat n] ?s1) (\<lambda>s'.
      valid_mdb s' (insert (ys @ slot # rev (map ?d [0..<unat n]) @ zs) (L - {ys @ slot # zs})) \<and>
      new_frame (\<lambda>q. \<exists>i\<in>{0..<unat n}. in_block (?a i) sz q) (?d ` {0..<unat n}) ?s1 s' \<and> (\<forall>i\<in>{0..<unat n}. new_cap s' (?d i) (?a i) sz))"
  proof (rule createNewObjects_loop_ok[OF t(1-5) _ _ _ v1 ch])
    show "aligned (?a i) sz \<and> ?a i \<noteq> 0" if "i < unat n" for i
      using ar(1,2)[OF that] o(1) d(10) by (metis add_is_0 unat_0 unat_eq_zero)
    show "\<not> in_block (?a j) sz q" if "i < j" "j < unat n" "in_block (?a i) sz q" for i j q
    proof -
      have "Suc i * ?m \<le> j * ?m" using that(1) by (intro mult_le_mono1) simp
      then show ?thesis using ar(3)[of i q] ar(3)[of j q] that by auto
    qed
    show "?d i \<noteq> ?d j" if "i < j" "j < unat n" for i j by (rule slot_distinct[OF that n256(1)])
    show "no_object ?s1 q" if "0 \<le> i" "i < unat n" "in_block (?a i) sz q" for i q
      using free[OF blk[OF that(2,3)]] blk[OF that(2,3)] ns by (auto simp: no_object_def)
    show "map_option cte_cap (ctes ?s1 (?d i)) = Some NullCap" if "0 \<le> i" "i < unat n" for i using empty[OF that(2)] sd[OF that(2)] by simp
  qed simp
  then have "succeeds (createNewObjects t slot dc off n base us dev ?s1) (\<lambda>s'. \<exists>ds as. ds = map ?d [0..<unat n] \<and> retyped s s' slot (cte_cap c) f' sz as ds \<and>
        valid_mdb s' (insert (ys @ slot # rev ds @ zs) (L - {ys @ slot # zs})))"
    unfolding createNewObjects_def t(2) bind.bind_lunit
  proof (rule succeeds_mono, goal_cases)
    case (1 s')
    let ?as = "map ?a [0..<unat n]" and ?ds = "map ?d [0..<unat n]"
    have fr: "new_frame (\<lambda>q. \<exists>i\<in>{0..<unat n}. in_block (?a i) sz q) (?d ` {0..<unat n}) ?s1 s'"
      and nc: "\<forall>i\<in>{0..<unat n}. new_cap s' (?d i) (?a i) sz" using 1(2) by blast+
    have "aligned a sz \<and> unat p + 16 * unat f \<le> unat a \<and> unat a + ?m \<le> unat p + 16 * unat f'" if as: "a \<in> set ?as" for a
    proof -
      obtain i where i: "i < unat n" "a = ?a i" using as by auto
      have "Suc i * ?m \<le> unat n * ?m" using i(1) by (intro mult_le_mono1) simp
      then show ?thesis using ar(1,2)[OF i(1)] i(2) o(1,3) fi(1) by simp
    qed
    moreover have "sorted_wrt (\<lambda>a a'. unat a + ?m \<le> unat a') ?as"
    proof (clarsimp simp: sorted_wrt_iff_nth_less)
      fix i j assume ij: "i < j" "j < unat n"
      have "Suc i * ?m \<le> j * ?m" using ij(1) by (intro mult_le_mono1) simp
      then show "unat (?a i) + ?m \<le> unat (?a j)" using ar(1)[of i] ar(1)[OF ij(2)] ij by simp
    qed
    moreover have "new_frame (\<lambda>q. \<exists>a\<in>set ?as. in_block a sz q) (insert slot (set ?ds)) s s'"
    proof -
      have "new_frame (\<lambda>_. False) {slot} s ?s1" by (simp add: new_frame_def)
      from new_frame_trans[OF this fr] show ?thesis by simp
    qed
    moreover have "map_option cte_flags (ctes s' slot) = Some (cte_flags (c\<lparr>cte_cap := UntypedCap dev b f' p\<rparr>))"
    proof -
      have "\<not> (\<exists>i\<in>{0..<unat n}. in_block (?a i) sz slot)" using blk ns by auto
      moreover have "slot \<noteq> ?d i" if "i \<in> {0..<unat n}" for i by (rule sd) (use that in simp)
      then have "slot \<notin> ?d ` {0..<unat n}" by blast
      ultimately have "map_option cte_flags (ctes s' slot) = map_option cte_flags (ctes ?s1 slot)" using fr by (simp add: new_frame_def)
      then show ?thesis by simp
    qed
    moreover have "list_all2 (\<lambda>d a. new_cap s' d a sz) ?ds ?as" using nc by (simp add: list_all2_conv_all_nth)
    moreover have "?as \<noteq> []" using n256(2) by simp
    ultimately have "retyped s s' slot (cte_cap c) f' sz ?as ?ds" using fi(2) c by (simp add: retyped_def)
    then show ?case using 1(2) by blast
  qed
  then show ?thesis using c(1) by (simp add: set_cap_def)
qed

end
