(* ===== verification/KDecodeUntyped.thy ===== *)
theory KDecodeUntyped
  imports KRetype
begin

unbundle bit_operations_syntax

text \<open>
  The outcomes of \<^verbatim>\<open>decodeUntypedInvocation\<close>: an error that changes nothing, a reset that is interrupted and can be
  resumed, or new objects in the free part of the block. Each outcome keeps the invariants of untyped
  capabilities, of the derivation tree and of the capability space.
\<close>

subsection \<open>The invariant of untyped capabilities\<close>

text \<open>
  An untyped capability in a slot: its block is aligned to its size, the memory from its free index on holds no object
  and, unless it is device memory, is zero; while no capability is derived from it the whole block holds
  no object.
\<close>

definition valid_untyped :: "kernel_state \<Rightarrow> ptr \<Rightarrow> cap \<Rightarrow> bool" where
  "valid_untyped s slot cap \<longleftrightarrow> (case cap of
     UntypedCap dev b f p \<Rightarrow> wf_untyped p b f \<and>
       (\<exists>c. ctes s slot = Some c \<and> cte_cap c = cap \<and> mdbRevocable (cteMDBNode c)) \<and>
       (\<forall>q. free_addr p b f q \<longrightarrow> no_object s q \<and> (\<not> dev \<longrightarrow> zero_at s q)) \<and>
       (ensureNoChildren s slot = Some (Inr ()) \<longrightarrow> (\<forall>q. in_block p b q \<longrightarrow> no_object s q))
   | _ \<Rightarrow> False)"

text \<open>
  What a successful retype does to the whole state: new objects in ascending blocks of the part of the
  untyped block from index \<open>f0\<close> to index \<open>f'\<close>, capabilities to them in the slots \<open>ds\<close>, and nothing else but the state of
  the current thread and the memory of the block.
\<close>

definition retype_result :: "kernel_state \<Rightarrow> kernel_state \<Rightarrow> ptr \<Rightarrow> cap \<Rightarrow> word_t \<Rightarrow> word_t \<Rightarrow> word_t \<Rightarrow> ptr list \<Rightarrow> ptr list \<Rightarrow> bool" where
  "retype_result s s' slot cap f0 f' sz as ds \<longleftrightarrow> (case cap of
     UntypedCap dev b f p \<Rightarrow>
       (\<forall>a\<in>set as. aligned a sz \<and> unat p + 16 * unat f0 \<le> unat a \<and> unat a + 2 ^ unat sz \<le> unat p + 16 * unat f') \<and> 16 * unat f' \<le> 2 ^ unat b \<and>
       sorted_wrt (\<lambda>a a'. unat a + 2 ^ unat sz \<le> unat a') as \<and> as \<noteq> [] \<and> list_all2 (\<lambda>d a. new_cap s' d a sz) ds as \<and>
       (\<forall>q. \<not> (\<exists>a\<in>set as. in_block a sz q) \<longrightarrow> (q \<noteq> ksCurThread s \<longrightarrow> tcbs s' q = tcbs s q) \<and> eps s' q = eps s q \<and> ntfns s' q = ntfns s q \<and>
         (q \<notin> insert slot (set ds) \<longrightarrow> map_option cte_flags (ctes s' q) = map_option cte_flags (ctes s q))) \<and>
       (\<forall>q. \<not> in_block p b q \<longrightarrow> mem_same s s' q)
   | _ \<Rightarrow> False)"

lemma ensureNoChildren_ok:
  assumes "valid_mdb s L" "ctes s slot = Some c"
  shows "ensureNoChildren s slot = Some (Inr ()) \<or> ensureNoChildren s slot = Some (Inl (no_error seL4_RevokeFirst))"
proof (cases "mnext c = 0")
  case True
  then show ?thesis using assms(2) by (simp add: ensureNoChildren_def mnext_def)
next
  case False
  then obtain n where "ctes s (mnext c) = Some n" using valid_mdb_next[OF assms] by blast
  then show ?thesis using assms(2) False by (simp add: ensureNoChildren_def mnext_def)
qed

text \<open>A new capability is derived from the untyped one.\<close>

lemma new_cap_child:
  assumes n: "new_cap s d a sz" "ctes s d = Some k" and u: "cte_cap c = UntypedCap dev b f p" "mdbRevocable (cteMDBNode c)" "wf_untyped p b f"
    and a: "sz \<le> seL4_MaxUntypedBits" "aligned a sz" "unat p \<le> unat a" "unat a + 2 ^ unat sz \<le> unat p + 2 ^ unat b"
  shows "isMDBParentOf c k"
proof -
  note d = wf_untypedD[OF u(3)]
  have sz: "sz < 64" using a(1) by (simp add: seL4_MaxUntypedBits_def word_le_nat_alt word_less_nat_alt)
  have k: "cap_get_capPtr (cte_cap k) = a" "cap_get_capSizeBits (cte_cap k) = sz" "cap_get_capIsPhysical (cte_cap k)"
    using n by (auto simp: new_cap_def cte_flags_def)
  have "sameRegionAs (UntypedCap dev b f p) (cte_cap k)"
    using interval_le[of b p sz a] d(1,5) sz aligned_fits[OF sz a(2)] a(3,4) k by (simp add: sameRegionAs_def Let_def)
  then show ?thesis using u by (simp add: isMDBParentOf_def)
qed

lemma retyped_keeps:
  assumes r: "retyped s s' slot (cte_cap c) f' sz as ds" and sz: "sz \<le> seL4_MaxUntypedBits" and v': "valid_mdb s' L'" "ys @ slot # rev ds @ zs \<in> L'"
    and c: "ctes s slot = Some c" "cte_cap c = UntypedCap dev b f p" "mdbRevocable (cteMDBNode c)"
    and free: "\<forall>q. free_addr p b f q \<longrightarrow> no_object s q \<and> (\<not> dev \<longrightarrow> zero_at s q)" and em: "\<forall>d\<in>set ds. ctes s d \<noteq> None"
  shows "valid_untyped s' slot (UntypedCap dev b f' p)" "ensureNoChildren s' slot = Some (Inl (no_error seL4_RevokeFirst))"
proof -
  have w: "wf_untyped p b f'" and as: "\<forall>a\<in>set as. aligned a sz \<and> unat p + 16 * unat f \<le> unat a \<and> unat a + 2 ^ unat sz \<le> unat p + 16 * unat f'" "as \<noteq> []"
    and nc: "list_all2 (\<lambda>d a. new_cap s' d a sz) ds as" and fr: "new_frame (\<lambda>q. \<exists>a\<in>set as. in_block a sz q) (insert slot (set ds)) s s'"
    and fl: "map_option cte_flags (ctes s' slot) = Some (cte_flags (c\<lparr>cte_cap := UntypedCap dev b f' p\<rparr>))" using r c by (simp_all add: retyped_def)
  note d = wf_untypedD[OF w]
  obtain c' where c': "ctes s' slot = Some c'" "cte_cap c' = UntypedCap dev b f' p" "mdbRevocable (cteMDBNode c')"
    using fl c(3) by (cases "ctes s' slot") (auto simp: cte_flags_def)
  have ds: "ds \<noteq> []" using nc as(2) by auto
  have last: "new_cap s' (last ds) (last as) sz" "last as \<in> set as" "last ds \<in> set ds"
    using nc as(2) ds list_all2_lengthD[OF nc] list_all2_nthD[OF nc, of "length ds - 1"] by (auto simp: last_conv_nth)
  obtain k where k: "ctes s' (last ds) = Some k" using last(1) by (auto simp: new_cap_def)
  have mn: "mnext c' = last ds" using chain_neighbours(2)[OF valid_mdbD(1)[OF v'] c'(1)] ds by (simp add: hd_rev)
  have "last ds \<noteq> 0" using k valid_mdbD(7)[OF v'(1)] by auto
  moreover have "isMDBParentOf c' k"
    by (rule new_cap_child[OF last(1) k c'(2,3) w sz]) (use as(1) last(2) d(4) in \<open>auto dest!: bspec\<close>)
  ultimately show nchild: "ensureNoChildren s' slot = Some (Inl (no_error seL4_RevokeFirst))"
    using c'(1) mn k by (simp add: ensureNoChildren_def mnext_def)
  have mem: "zero_at s' q = zero_at s q" for q
    using arg_cong[of _ s userMem, OF fr[unfolded new_frame_def, THEN conjunct1]] arg_cong[of _ s ksArch, OF fr[unfolded new_frame_def, THEN conjunct1]]
    by (simp add: zero_at_def)
  have sz64: "sz < 64" using sz by (simp add: seL4_MaxUntypedBits_def word_le_nat_alt word_less_nat_alt)
  obtain a0 where a0: "a0 \<in> set as" using as(2) by (cases as) auto
  have ff: "16 * unat f \<le> 16 * unat f'" using as(1) a0 by fastforce
  have "no_object s' q \<and> (\<not> dev \<longrightarrow> zero_at s' q)" if q: "free_addr p b f' q" for q
  proof -
    have fa: "free_addr p b f q" using q ff by (simp add: free_addr_def)
    have "\<not> in_block a sz q" if "a \<in> set as" for a
      using that as(1) q in_block_iff[OF sz64 aligned_fits[OF sz64], of a q] by (auto simp: free_addr_def)
    moreover have "q \<notin> insert slot (set ds)" using free fa em c(1) by (auto simp: no_object_def)
    ultimately have "tcbs s' q = tcbs s q \<and> eps s' q = eps s q \<and> ntfns s' q = ntfns s q \<and> map_option cte_flags (ctes s' q) = map_option cte_flags (ctes s q)"
      using fr by (auto simp: new_frame_def)
    then show ?thesis using free fa mem[of q] by (simp add: no_object_def)
  qed
  then show "valid_untyped s' slot (UntypedCap dev b f' p)" using w c' nchild by (simp add: valid_untyped_def)
qed

lemma retyped_cspace:
  assumes r: "retyped s s' slot (UntypedCap dev b f p) f' sz as ds" and v: "valid_cspace s" and em: "\<forall>d\<in>set ds. ctes s d \<noteq> None"
    and free: "\<And>a q. a \<in> set as \<Longrightarrow> in_block a sz q \<Longrightarrow> ctes s q = None"
  shows "valid_cspace s'"
proof -
  let ?A = "\<lambda>q. \<exists>a\<in>set as. in_block a sz q"
  have nc: "list_all2 (\<lambda>d a. new_cap s' d a sz) ds as" and fr: "new_frame ?A (insert slot (set ds)) s s'"
    and fl: "map_option cte_flags (ctes s' slot) = map_option (\<lambda>c. cte_flags (c\<lparr>cte_cap := UntypedCap dev b f' p\<rparr>)) (ctes s slot)" using r by (simp_all add: retyped_def)
  have nd: "\<exists>a. new_cap s' d a sz" if "d \<in> set ds" for d using nc that by (metis in_set_conv_nth list_all2_conv_all_nth)
  have dom: "ctes s' q \<noteq> None" if q: "ctes s q \<noteq> None" for q
  proof -
    consider "q \<in> set ds" | "q = slot" "q \<notin> set ds" | "q \<noteq> slot" "q \<notin> set ds" by blast
    then show ?thesis
    proof cases
      case 1
      then show ?thesis using nd[OF 1] by (auto simp: new_cap_def)
    next
      case 2
      then show ?thesis using fl q by auto
    next
      case 3
      have "\<not> ?A q" using free[of _ q] q by auto
      then have "map_option cte_flags (ctes s' q) = map_option cte_flags (ctes s q)" using fr 3 by (simp add: new_frame_def)
      then show ?thesis using q by (metis option.map_disc_iff)
    qed
  qed
  have "cnode_slots s' (cte_cap c)" if q: "ctes s' q = Some c" for q c
  proof -
    consider "q \<in> set ds" | "q = slot" "q \<notin> set ds" | "q \<noteq> slot" "q \<notin> set ds" "?A q" | "q \<noteq> slot" "q \<notin> set ds" "\<not> ?A q" by blast
    then show ?thesis
    proof cases
      case 1
      then obtain a where "new_cap s' q a sz" using nd by blast
      then have "fresh_object s' (cte_cap c)" "valid_cnode_cap (cte_cap c)" using q by (auto simp: new_cap_def cte_flags_def)
      then show ?thesis by (cases "cte_cap c") (auto simp: cnode_slots_def)
    next
      case 2
      then have "cte_cap c = UntypedCap dev b f' p" using fl q by (cases "ctes s slot") (auto simp: cte_flags_def)
      then show ?thesis by (simp add: cnode_slots_def)
    next
      case 3
      then have "cte_cap c = NullCap" using fr q by (simp add: new_frame_def)
      then show ?thesis by (simp add: cnode_slots_def)
    next
      case 4
      then have "map_option cte_flags (ctes s' q) = map_option cte_flags (ctes s q)" using fr by (simp add: new_frame_def)
      then have "map_option cte_cap (ctes s' q) = map_option cte_cap (ctes s q)" by (rule flags_cap)
      then have "cnode_slots s (cte_cap c)" using v q by (cases "ctes s q") (auto simp: valid_cspace_def)
      then show ?thesis using dom by (auto simp: cnode_slots_def)
    qed
  qed
  then show ?thesis by (simp add: valid_cspace_def)
qed

subsection \<open>The invocation\<close>

lemma reset_frame_objs:
  assumes "reset_frame slot c s s1"
  shows "tcbs s1 = tcbs s" "eps s1 = eps s" "ntfns s1 = ntfns s" "ctes s1 = (ctes s)(slot := Some c)"
proof -
  have e: "s1\<lparr>ctes := ctes s, userMem := userMem s, ksArch := ksArch s, ksWorkUnitsCompleted := ksWorkUnitsCompleted s, irqPolls := irqPolls s\<rparr> = s"
    using assms by (simp add: reset_frame_def)
  show "tcbs s1 = tcbs s" "eps s1 = eps s" "ntfns s1 = ntfns s" using arg_cong[OF e, of tcbs] arg_cong[OF e, of eps] arg_cong[OF e, of ntfns] by simp_all
  show "ctes s1 = (ctes s)(slot := Some c)" using assms by (simp add: reset_frame_def)
qed

lemma valid_mdb_ctes: "ctes s' = ctes s \<Longrightarrow> valid_mdb s' L = valid_mdb s L"
  by (simp add: valid_mdb_def)

lemma reset_frame_keeps:
  assumes rf: "reset_frame slot (c\<lparr>cte_cap := UntypedCap dev b f' p\<rparr>) s s1" and v: "valid_mdb s L" "valid_cspace s"
    and c: "ctes s slot = Some c" "cte_cap c = UntypedCap dev b f p"
  shows "valid_mdb s1 L" "valid_cspace s1" "no_object s1 q = no_object s q"
    "map_option cte_cap (ctes s d) = Some NullCap \<Longrightarrow> map_option cte_cap (ctes s1 d) = Some NullCap"
proof -
  note o = reset_frame_objs[OF rf]
  let ?t = "s\<lparr>ctes := (ctes s)(slot := Some (c\<lparr>cte_cap := UntypedCap dev b f' p\<rparr>))\<rparr>"
  have "valid_mdb ?t L" using valid_mdb_set_cap[OF v(1) c(1), of "UntypedCap dev b f' p"] c(2) by simp
  then show "valid_mdb s1 L" using valid_mdb_ctes[of s1 ?t L] o(4) by simp
  show "valid_cspace s1" using v(2) c unfolding valid_cspace_def o(4) cnode_slots_def by auto
  show "no_object s1 q = no_object s q" using c(1) by (auto simp: no_object_def o)
  show "map_option cte_cap (ctes s d) = Some NullCap \<Longrightarrow> map_option cte_cap (ctes s1 d) = Some NullCap" using c by (auto simp: o(4))
qed

lemma retyped_result:
  assumes r: "retyped s1 s' slot (UntypedCap dev b f0 p) f' sz as ds" and rf: "reset_frame slot c s s1"
    and m: "\<forall>q. \<not> in_block p b q \<longrightarrow> mem_same s s1 q"
  shows "retype_result s s' slot (UntypedCap dev b f p) f0 f' sz as ds"
proof -
  have w: "wf_untyped p b f'" and fr: "new_frame (\<lambda>q. \<exists>a\<in>set as. in_block a sz q) (insert slot (set ds)) s1 s'" using r by (simp_all add: retyped_def)
  have "userMem s' = userMem s1" "ksArch s' = ksArch s1"
    using arg_cong[of _ s1 userMem, OF fr[unfolded new_frame_def, THEN conjunct1]] arg_cong[of _ s1 ksArch, OF fr[unfolded new_frame_def, THEN conjunct1]] by simp_all
  then have "mem_same s1 s' q" for q by (simp add: mem_same_def)
  then have "\<forall>q. \<not> in_block p b q \<longrightarrow> mem_same s s' q" using m mem_same_trans by blast
  then show ?thesis using r fr reset_frame_objs[OF rf] wf_untypedD(4)[OF w] by (simp add: retype_result_def retyped_def new_frame_def)
qed

definition retype_done :: "kernel_state \<Rightarrow> ptr list set \<Rightarrow> ptr list \<Rightarrow> ptr \<Rightarrow> ptr list \<Rightarrow> cap \<Rightarrow> word_t \<Rightarrow> kernel_state \<Rightarrow> bool" where
  "retype_done s L ys slot zs cap f0 s' \<longleftrightarrow> (\<exists>f' sz as ds. retype_result s s' slot cap f0 f' sz as ds \<and>
     (\<forall>d\<in>set ds. map_option cte_cap (ctes s d) = Some NullCap) \<and>
     valid_mdb s' (insert (ys @ slot # rev ds @ zs) (L - {ys @ slot # zs})) \<and> ensureNoChildren s' slot = Some (Inl (no_error seL4_RevokeFirst)) \<and>
     valid_untyped s' slot (UntypedCap (capIsDevice cap) (capBlockSize cap) f' (capPtr cap)) \<and> valid_cspace s')"

text \<open>An interrupted reset: the capability has a smaller free index, and its invariant holds.\<close>

definition reset_progress :: "kernel_state \<Rightarrow> ptr list set \<Rightarrow> ptr \<Rightarrow> cap \<Rightarrow> kernel_state \<Rightarrow> bool" where
  "reset_progress s L slot cap s' \<longleftrightarrow> (\<exists>f' < capFreeIndex cap.
     valid_untyped s' slot (UntypedCap (capIsDevice cap) (capBlockSize cap) f' (capPtr cap)) \<and> valid_mdb s' L \<and> valid_cspace s' \<and>
     (\<forall>q. \<not> in_block (capPtr cap) (capBlockSize cap) q \<longrightarrow> mem_same s s' q))"

definition retype_outcome :: "kernel_state \<Rightarrow> ptr list set \<Rightarrow> ptr list \<Rightarrow> ptr \<Rightarrow> ptr list \<Rightarrow> cap \<Rightarrow> word_t \<Rightarrow> exception \<times> kernel_state \<Rightarrow> bool" where
  "retype_outcome s L ys slot zs cap f0 r \<longleftrightarrow> (case r of
     (EXCEPTION_NONE, s') \<Rightarrow> retype_done s L ys slot zs cap f0 s'
   | (EXCEPTION_PREEMPTED, s') \<Rightarrow> reset_progress s L slot cap s'
   | (EXCEPTION_SYSCALL_ERROR _, s') \<Rightarrow> False)"

lemma retype_from:
  assumes v: "valid_mdb s L" "valid_cspace s" and ch: "ys @ slot # zs \<in> L"
    and c: "ctes s slot = Some c" "cte_cap c = UntypedCap dev b f p" "mdbRevocable (cteMDBNode c)"
    and rf: "reset_frame slot (c\<lparr>cte_cap := UntypedCap dev b f0 p\<rparr>) s s1" and m: "\<forall>q. \<not> in_block p b q \<longrightarrow> mem_same s s1 q"
    and w: "wf_untyped p b f0" and free: "\<forall>q. free_addr p b f0 q \<longrightarrow> no_object s q \<and> (\<not> dev \<longrightarrow> zero_at s1 q)"
    and t: "t < seL4_ObjectTypeCount" "getObjectSize t us = Some sz" "sz \<le> seL4_MaxUntypedBits" "us < 64" "t = seL4_CapTableObject \<longrightarrow> us \<noteq> 0" "4 \<le> sz"
    and n: "1 \<le> n" "n \<le> 256" "n \<le> drop_bit (unat sz) (BITw b - FREE_INDEX_TO_OFFSET f0)"
    and empty: "\<And>i. i < unat n \<Longrightarrow> map_option cte_cap (ctes s (cte_at_index dc (off + of_nat i))) = Some NullCap"
  defines "base \<equiv> alignUp (GET_FREE_REF p f0) sz"
  shows "succeeds (set_cap slot (UntypedCap dev b (GET_FREE_INDEX p (base + push_bit (unat sz) n)) p) s1)
    (\<lambda>s2. succeeds (createNewObjects t slot dc off n base us dev s2) (retype_done s L ys slot zs (cte_cap c) f0))"
proof -
  note k = reset_frame_keeps[OF rf v c(1,2)] and o = reset_frame_objs[OF rf]
  let ?c = "c\<lparr>cte_cap := UntypedCap dev b f0 p\<rparr>"
  have c1: "ctes s1 slot = Some ?c" "cte_cap ?c = UntypedCap dev b f0 p" "mdbRevocable (cteMDBNode ?c)" using o(4) c(3) by simp_all
  have fr1: "\<forall>q. free_addr p b f0 q \<longrightarrow> no_object s1 q \<and> (\<not> dev \<longrightarrow> zero_at s1 q)" using free k(3) by blast
  have em1: "map_option cte_cap (ctes s1 (cte_at_index dc (off + of_nat i))) = Some NullCap" if "i < unat n" for i using k(4) empty[OF that] by blast
  have "succeeds (set_cap slot (UntypedCap dev b (GET_FREE_INDEX p (base + push_bit (unat sz) n)) p) s1) (\<lambda>s2. succeeds (createNewObjects t slot dc off n base us dev s2) (\<lambda>s'.
      \<exists>ds as. ds = map (\<lambda>i. cte_at_index dc (off + of_nat i)) [0..<unat n] \<and> retyped s1 s' slot (cte_cap ?c) (GET_FREE_INDEX p (base + push_bit (unat sz) n)) sz as ds \<and>
        valid_mdb s' (insert (ys @ slot # rev ds @ zs) (L - {ys @ slot # zs}))))"
    unfolding base_def by (rule retype_core[OF k(1) ch c1(1,2) w _ t n em1]) (use fr1 in blast)
  then show ?thesis
  proof (elim succeeds_mono)
    fix s' assume "\<exists>ds as. ds = map (\<lambda>i. cte_at_index dc (off + of_nat i)) [0..<unat n] \<and> retyped s1 s' slot (cte_cap ?c) (GET_FREE_INDEX p (base + push_bit (unat sz) n)) sz as ds \<and>
        valid_mdb s' (insert (ys @ slot # rev ds @ zs) (L - {ys @ slot # zs}))"
    then obtain ds as f' where ds: "ds = map (\<lambda>i. cte_at_index dc (off + of_nat i)) [0..<unat n]" and r: "retyped s1 s' slot (cte_cap ?c) f' sz as ds"
      and v': "valid_mdb s' (insert (ys @ slot # rev ds @ zs) (L - {ys @ slot # zs}))" by blast
    have em: "\<forall>d\<in>set ds. map_option cte_cap (ctes s d) = Some NullCap" using empty ds by auto
    then have em': "\<forall>d\<in>set ds. ctes s1 d \<noteq> None" using k(4) by fastforce
    note keep = retyped_keeps[OF r t(3) v' insertI1 c1 fr1 em']
    have sz64: "sz < 64" using t(3) by (simp add: seL4_MaxUntypedBits_def word_le_nat_alt word_less_nat_alt)
    have "valid_cspace s'"
    proof (rule retyped_cspace[OF r[unfolded c1(2)] k(2) em'])
      fix a q assume a: "a \<in> set as" "in_block a sz q"
      then have "aligned a sz" "unat p + 16 * unat f0 \<le> unat a" "unat a + 2 ^ unat sz \<le> unat p + 16 * unat f'" "16 * unat f' \<le> 2 ^ unat b"
        using r c1(2) wf_untypedD(4)[of p b f'] by (auto simp: retyped_def)
      then have "free_addr p b f0 q" using a(2) in_block_iff[OF sz64 aligned_fits[OF sz64], of a q] by (auto simp: free_addr_def)
      then show "ctes s1 q = None" using fr1 by (simp add: no_object_def)
    qed
    then show "retype_done s L ys slot zs (cte_cap c) f0 s'" unfolding retype_done_def c(2) cap.sel
      using retyped_result[OF r[unfolded c1(2)] rf m, where f = f] em v' keep by blast
  qed
qed

lemma invokeUntyped_Retype_reset:
  assumes c: "ctes s slot = Some c" "cte_cap c = UntypedCap dev b f p" and t: "getObjectSize t us = Some sz"
    and r: "succeeds (resetUntypedCap slot s) (\<lambda>(e, s1). if e \<noteq> EXCEPTION_NONE then P (e, s1)
      else \<exists>c'. ctes s1 slot = Some c' \<and> cte_cap c' = UntypedCap dev b 0 p \<and>
        succeeds (set_cap slot (UntypedCap dev b (GET_FREE_INDEX p (base + push_bit (unat sz) n)) p) s1)
          (\<lambda>s2. succeeds (createNewObjects t slot dc off n base us dev s2) (\<lambda>s'. P (EXCEPTION_NONE, s'))))"
  shows "succeeds (invokeUntyped_Retype slot True base t us dc off n dev s) P"
proof -
  have eq: "invokeUntyped_Retype slot True base t us dc off n dev s = resetUntypedCap slot s \<bind> (\<lambda>(status, s1).
     if status \<noteq> EXCEPTION_NONE then Some (status, s1)
     else do {
       c \<leftarrow> ctes s1 slot;
       cap \<leftarrow> cap_untyped_cap_set_capFreeIndex (cte_cap c) (GET_FREE_INDEX p (base + push_bit (unat sz) n));
       s2 \<leftarrow> set_cap slot cap s1;
       s3 \<leftarrow> createNewObjects t slot dc off n base us dev s2;
       Some (EXCEPTION_NONE, s3)
     })" unfolding invokeUntyped_Retype_def c t bind.bind_lunit cap.case Let_def if_True by (rule refl)
  show ?thesis unfolding eq succeeds_bind using r
    by (rule succeeds_mono) (auto simp: cap_untyped_cap_set_capFreeIndex_def split: if_splits)
qed

lemma invokeUntyped_Retype_ok:
  assumes v: "valid_mdb s L" "valid_cspace s" and ch: "ys @ slot # zs \<in> L" and vu: "valid_untyped s slot (UntypedCap dev b f p)"
    and rs: "reset = (ensureNoChildren s slot = Some (Inr ()))"
    and t: "t < seL4_ObjectTypeCount" "getObjectSize t us = Some sz" "sz \<le> seL4_MaxUntypedBits" "us < 64" "t = seL4_CapTableObject \<longrightarrow> us \<noteq> 0" "4 \<le> sz"
    and n: "1 \<le> n" "n \<le> 256" "n \<le> drop_bit (unat sz) (BITw b - FREE_INDEX_TO_OFFSET (if reset then 0 else f))"
    and empty: "\<And>i. i < unat n \<Longrightarrow> map_option cte_cap (ctes s (cte_at_index dc (off + of_nat i))) = Some NullCap"
  shows "succeeds (invokeUntyped_Retype slot reset (alignUp (GET_FREE_REF p (if reset then 0 else f)) sz) t us dc off n dev s)
    (retype_outcome s L ys slot zs (UntypedCap dev b f p) (if reset then 0 else f))"
proof -
  have w: "wf_untyped p b f" and free: "\<forall>q. free_addr p b f q \<longrightarrow> no_object s q \<and> (\<not> dev \<longrightarrow> zero_at s q)"
    and none: "reset \<Longrightarrow> \<forall>q. in_block p b q \<longrightarrow> no_object s q" using vu rs by (simp_all add: valid_untyped_def)
  obtain c where c: "ctes s slot = Some c" "cte_cap c = UntypedCap dev b f p" "mdbRevocable (cteMDBNode c)" using vu by (auto simp: valid_untyped_def)
  note core = retype_from[OF v ch c _ _ _ _ t n(1,2) _ empty, unfolded c(2)]
  show ?thesis
  proof (cases reset)
    case False
    have idc: "c\<lparr>cte_cap := UntypedCap dev b f p\<rparr> = c" using c(2) by (cases c) simp
    have "succeeds (set_cap slot (UntypedCap dev b (GET_FREE_INDEX p (alignUp (GET_FREE_REF p f) sz + push_bit (unat sz) n)) p) s)
      (\<lambda>s2. succeeds (createNewObjects t slot dc off n (alignUp (GET_FREE_REF p f) sz) us dev s2) (retype_done s L ys slot zs (UntypedCap dev b f p) f))"
      by (rule core) (use idc reset_frame_refl[OF c(1)] w free n(3) False in \<open>auto simp: mem_same_def\<close>)
    then show ?thesis using c t(2) False
      by (simp add: invokeUntyped_Retype_def cap_untyped_cap_set_capFreeIndex_def Let_def retype_outcome_def)
  next
    case True
    have w0: "wf_untyped p b 0" using w by (simp add: wf_untyped_def)
    have f0: "free_addr p b 0 q \<Longrightarrow> in_block p b q" for q using wf_untypedD(7)[OF w] by (simp add: free_addr_def)
    have "succeeds (resetUntypedCap slot s) (\<lambda>(e, s'). \<exists>f'. (e = EXCEPTION_NONE \<and> f' = 0 \<or> e = EXCEPTION_PREEMPTED \<and> f' < f) \<and>
       reset_frame slot (c\<lparr>cte_cap := UntypedCap dev b f' p\<rparr>) s s' \<and> (\<forall>q. \<not> in_block p b q \<longrightarrow> mem_same s s' q) \<and>
       (\<not> dev \<longrightarrow> (\<forall>q. free_addr p b f' q \<longrightarrow> zero_at s' q)))"
      by (rule resetUntypedCap_ok[OF c(1,2) w]) (use none[OF True] free in auto)
    moreover have rT: "reset = True" using True by simp
    ultimately show ?thesis unfolding rT if_True
    proof (intro invokeUntyped_Retype_reset[OF c(1,2) t(2)], elim succeeds_mono, clarify)
      fix e s1 f'
      assume e: "e = EXCEPTION_NONE \<and> f' = 0 \<or> e = EXCEPTION_PREEMPTED \<and> f' < f" and rf: "reset_frame slot (c\<lparr>cte_cap := UntypedCap dev b f' p\<rparr>) s s1"
        and m: "\<forall>q. \<not> in_block p b q \<longrightarrow> mem_same s s1 q" and z: "\<not> dev \<longrightarrow> (\<forall>q. free_addr p b f' q \<longrightarrow> zero_at s1 q)"
      note k = reset_frame_keeps[OF rf v c(1,2)] and o = reset_frame_objs[OF rf]
      show "if e \<noteq> EXCEPTION_NONE then retype_outcome s L ys slot zs (UntypedCap dev b f p) 0 (e, s1)
        else \<exists>c'. ctes s1 slot = Some c' \<and> cte_cap c' = UntypedCap dev b 0 p \<and>
          succeeds (set_cap slot (UntypedCap dev b (GET_FREE_INDEX p (alignUp (GET_FREE_REF p 0) sz + push_bit (unat sz) n)) p) s1)
            (\<lambda>s2. succeeds (createNewObjects t slot dc off n (alignUp (GET_FREE_REF p 0) sz) us dev s2)
              (\<lambda>s'. retype_outcome s L ys slot zs (UntypedCap dev b f p) 0 (EXCEPTION_NONE, s')))"
      proof (cases "e = EXCEPTION_NONE")
        case none': True
        then have f': "f' = 0" using e by simp
        have "succeeds (set_cap slot (UntypedCap dev b (GET_FREE_INDEX p (alignUp (GET_FREE_REF p 0) sz + push_bit (unat sz) n)) p) s1)
            (\<lambda>s2. succeeds (createNewObjects t slot dc off n (alignUp (GET_FREE_REF p 0) sz) us dev s2) (retype_done s L ys slot zs (UntypedCap dev b f p) 0))"
          by (rule core[OF rf[unfolded f'] m w0]) (use f0 none[OF True] z f' n(3) True in auto)
        then show ?thesis using none' o(4) f' by (simp add: retype_outcome_def)
      next
        case False
        then have e': "e = EXCEPTION_PREEMPTED" "f' < f" using e by auto
        have "wf_untyped p b f'" using w e'(2) by (auto simp: wf_untyped_def)
        moreover have "free_addr p b f' q \<Longrightarrow> in_block p b q" for q using wf_untypedD(7)[OF w] by (simp add: free_addr_def)
        ultimately have "valid_untyped s1 slot (UntypedCap dev b f' p)"
          using none[OF True] z k(3) o(4) c(3) by (simp add: valid_untyped_def)
        then show ?thesis using e' k(1,2) m by (auto simp: retype_outcome_def reset_progress_def)
      qed
    qed
  qed
qed

subsection \<open>Decoding\<close>

text \<open>The current thread is restart_cur before the operation starts.\<close>

definition restart_cur :: "kernel_state \<Rightarrow> kernel_state" where
  "restart_cur s = s\<lparr>tcbs := (tcbs s)(ksCurThread s := map_option (\<lambda>t. t\<lparr>tsType := ThreadState_Restart\<rparr>) (tcbs s (ksCurThread s)))\<rparr>"

lemma setThreadState_restart_cur: "tcbs s (ksCurThread s) \<noteq> None \<Longrightarrow> setThreadState (ksCurThread s) ThreadState_Restart s = Some (restart_cur s)"
  by (auto simp: setThreadState_def scheduleTCB_def isRunnable_def restart_cur_def)

lemma restart_cur_simps [simp]:
  "ctes (restart_cur s) = ctes s" "valid_mdb (restart_cur s) L = valid_mdb s L" "valid_cspace (restart_cur s) = valid_cspace s"
  "ensureNoChildren (restart_cur s) slot = ensureNoChildren s slot" "valid_untyped (restart_cur s) slot cap = valid_untyped s slot cap"
proof -
  show c: "ctes (restart_cur s) = ctes s" by (simp add: restart_cur_def)
  show "valid_mdb (restart_cur s) L = valid_mdb s L" by (rule valid_mdb_ctes[OF c])
  show "valid_cspace (restart_cur s) = valid_cspace s" by (simp add: valid_cspace_def cnode_slots_def c)
  show e: "ensureNoChildren (restart_cur s) slot = ensureNoChildren s slot" unfolding ensureNoChildren_def c by (rule refl)
  have o: "no_object (restart_cur s) q = no_object s q" "zero_at (restart_cur s) q = zero_at s q" for q
    by (auto simp: no_object_def zero_at_def restart_cur_def)
  show "valid_untyped (restart_cur s) slot cap = valid_untyped s slot cap" unfolding valid_untyped_def c e o by (rule refl)
qed

lemma restart_cur_outcome: "retype_outcome (restart_cur s) L ys slot zs cap f0 r \<Longrightarrow> retype_outcome s L ys slot zs cap f0 r"
proof -
  have m: "mem_same (restart_cur s) s' q = mem_same s s' q" for s' q by (simp add: mem_same_def restart_cur_def)
  have rr: "retype_result s s' slot cap f0 f' sz as ds" if "retype_result (restart_cur s) s' slot cap f0 f' sz as ds" for s' f' sz as ds
    using that unfolding retype_result_def m by (auto simp: restart_cur_def split: cap.splits)
  have "retype_done s L ys slot zs cap f0 s'" if "retype_done (restart_cur s) L ys slot zs cap f0 s'" for s'
    using that rr unfolding retype_done_def restart_cur_simps by blast
  then show "retype_outcome (restart_cur s) L ys slot zs cap f0 r \<Longrightarrow> retype_outcome s L ys slot zs cap f0 r"
    unfolding retype_outcome_def reset_progress_def m by (auto split: exception.splits)
qed

text \<open>The index from which a retype takes memory: everything is free while nothing is derived.\<close>

definition first_free :: "kernel_state \<Rightarrow> ptr \<Rightarrow> cap \<Rightarrow> word_t" where
  "first_free s slot cap = (if ensureNoChildren s slot = Some (Inr ()) then 0 else capFreeIndex cap)"

lemma decodeUntyped_memory_ok:
  assumes v: "valid_mdb s L" "valid_cspace s" and ch: "ys @ slot # zs \<in> L" and vu: "valid_untyped s slot cap" and cur: "tcbs s (ksCurThread s) \<noteq> None"
    and t: "t < seL4_ObjectTypeCount" "getObjectSize t us = Some sz" "sz \<le> seL4_MaxUntypedBits" "us < 64" "t = seL4_CapTableObject \<longrightarrow> us \<noteq> 0" "4 \<le> sz"
    and n: "1 \<le> n" "n \<le> 256"
    and empty: "\<And>i. i < unat n \<Longrightarrow> map_option cte_cap (ctes s (cte_at_index dc (off + of_nat i))) = Some NullCap"
  shows "succeeds (decodeUntyped_memory slot cap t us sz dc off n s) (\<lambda>r. (\<exists>e. r = (EXCEPTION_SYSCALL_ERROR e, s)) \<or> retype_outcome s L ys slot zs cap (first_free s slot cap) r)"
proof -
  obtain dev b f p where cap: "cap = UntypedCap dev b f p" using vu by (cases cap) (auto simp: valid_untyped_def)
  obtain c where c: "ctes s slot = Some c" using vu by (auto simp: cap valid_untyped_def)
  let ?reset = "ensureNoChildren s slot = Some (Inr ())"
  let ?f = "if ?reset then 0 else f"
  have ff: "first_free s slot cap = ?f" by (simp add: first_free_def cap)
  have ok: "succeeds (invokeUntyped_Retype slot ?reset (alignUp (GET_FREE_REF p ?f) sz) t us dc off n dev (restart_cur s)) (retype_outcome s L ys slot zs cap ?f)"
    if "n \<le> drop_bit (unat sz) (BITw b - FREE_INDEX_TO_OFFSET ?f)"
    using invokeUntyped_Retype_ok[of "restart_cur s" L ys slot zs dev b f p ?reset t us sz n dc off] v ch vu cap t n that empty
    by (auto elim!: succeeds_mono intro: restart_cur_outcome)
  have "decodeUntyped_memory slot cap t us sz dc off n s = (
      let untypedFreeBytes = BITw b - FREE_INDEX_TO_OFFSET ?f
      in if drop_bit (unat sz) untypedFreeBytes < n then syscall_fail ((no_error seL4_NotEnoughMemory)\<lparr>memoryLeft := untypedFreeBytes\<rparr>) s
         else if (dev \<and> \<not> Arch_isFrameType t) \<and> t \<noteq> seL4_UntypedObject then syscall_fail (invalid_argument 1) s
         else invokeUntyped_Retype slot ?reset (alignUp (GET_FREE_REF p ?f) sz) t us dc off n dev (restart_cur s))"
    using ensureNoChildren_ok[OF v(1) c] setThreadState_restart_cur[OF cur] by (auto simp: decodeUntyped_memory_def cap Let_def)
  then show ?thesis unfolding ff using ok by (auto simp: Let_def syscall_fail_def not_less elim!: succeeds_mono)
qed

lemma ensureEmptySlots_ok:
  assumes "\<And>i. i \<in> set is \<Longrightarrow> ctes s (cte_at_index dc i) \<noteq> None"
  shows "(\<exists>e. ensureEmptySlots s dc is = Some (Inl e)) \<or>
    ensureEmptySlots s dc is = Some (Inr ()) \<and> (\<forall>i\<in>set is. map_option cte_cap (ctes s (cte_at_index dc i)) = Some NullCap)"
  using assms
proof (induction "is")
  case (Cons i js)
  then obtain c where c: "ctes s (cte_at_index dc i) = Some c" by fastforce
  then show ?case using Cons by (auto simp: ensureEmptySlot_def)
qed simp

lemma retype_node_cap_ok:
  assumes v: "valid_cspace s" "cnode_slots s root"
  shows "\<exists>r. retype_node_cap s root idx depth = Some r \<and> (\<forall>cap. r = Inr cap \<longrightarrow> cnode_slots s cap)"
proof (cases "depth = 0")
  case True
  then show ?thesis using v(2) by (simp add: retype_node_cap_def)
next
  case False
  obtain r where r: "lookupTargetSlot s root idx depth = Some r" and rr: "case r of Inr slot \<Rightarrow> resolves s root (bits_of (unat depth) idx) (Inr (slot, 0)) | Inl _ \<Rightarrow> True"
    using cnode_op_lookup[OF v, of False idx depth] unfolding lookupTargetSlot_def
    by (elim exE conjE) (rename_tac r, case_tac r, auto)
  show ?thesis
  proof (cases r)
    case (Inr slot)
    then obtain c where "ctes s slot = Some c" using resolves_slot[of s root _ "Inr (slot, 0)", OF _ v] rr by auto
    then show ?thesis using False r Inr v(1) by (auto simp: retype_node_cap_def valid_cspace_def)
  qed (use False r in \<open>simp add: retype_node_cap_def\<close>)
qed

lemma getSyscallArg_ok: "tcbs s (ksCurThread s) \<noteq> None \<Longrightarrow> buffer \<noteq> 0 \<Longrightarrow> \<exists>w. getSyscallArg s i buffer = Some w"
  by (auto simp: getSyscallArg_def getRegister_def)

lemma object_size_min:
  assumes "t < seL4_ObjectTypeCount" "getObjectSize t us = Some sz" "us < 64" "\<not> (t = seL4_UntypedObject \<and> us < seL4_MinUntypedBits)"
  shows "4 \<le> sz"
  using getObjectSize_cases[OF assms(1,2)]
proof cases
  case 5
  have "unat (5 + us) = 5 + unat us" using assms(3) by (simp add: unat_word_ariths word_less_nat_alt)
  then show ?thesis using 5(2) by (simp add: seL4_SlotBits_def word_le_nat_alt)
qed (use assms(4) in \<open>auto simp: seL4_TCBBits_def seL4_EndpointBits_def seL4_NotificationBits_def seL4_MinUntypedBits_def not_less Arch_getObjectSize_def
      seL4_PageBits_def seL4_LargePageBits_def seL4_HugePageBits_def seL4_PageTableBits_def seL4_VSpaceBits_def word_le_nat_alt split: if_splits\<close>)

lemma getObjectSize_total: "t < seL4_ObjectTypeCount \<Longrightarrow> \<exists>sz. getObjectSize t us = Some sz"
proof -
  assume "t < seL4_ObjectTypeCount"
  then have "unat t < 10" by (simp add: seL4_ObjectTypeCount_def word_less_nat_alt)
  then have "unat t \<in> {0, 1, 2, 3, 4, 5, 6, 7, 8, 9}" by auto
  then have "t \<in> {0, 1, 2, 3, 4, 5, 6, 7, 8, 9}" by (auto simp: word_unat_eq_iff)
  then show ?thesis by (auto simp: getObjectSize_def Arch_getObjectSize_def object_types word_le_nat_alt)
qed

lemma window_slots:
  assumes cs: "cnode_slots s (CNodeCap r gs g dc)" and off: "\<not> off > BITw r - 1" and n: "\<not> n > BITw r - off" and i: "i < unat n"
  shows "ctes s (cte_at_index dc (off + of_nat i)) \<noteq> None"
proof -
  have r: "unat r < 64" using cs by (simp add: cnode_slots_def)
  then have b: "unat (BITw r) = 2 ^ unat r" by (intro unat_BITw) (simp add: word_less_nat_alt)
  have p: "(2::nat) ^ unat r < 2 ^ 64" using r by (intro power_strict_increasing) simp_all
  have "unat (BITw r - 1) = 2 ^ unat r - 1" using b by (subst unat_sub) (simp_all add: word_le_nat_alt)
  then have o: "unat off < 2 ^ unat r" using off by (simp add: word_less_nat_alt not_less) (metis Suc_pred less_Suc_eq_le zero_less_numeral zero_less_power)
  have "unat (BITw r - off) = 2 ^ unat r - unat off" using b o by (subst unat_sub) (simp_all add: word_le_nat_alt)
  then have "unat off + i < 2 ^ unat r" using n o i by (simp add: word_less_nat_alt not_less)
  moreover have "off + of_nat i = of_nat (unat off + i)" by simp
  ultimately show ?thesis using cs by (metis cnode_slots_def)
qed

subsection \<open>A small system\<close>

text \<open>A CNode with four slots: itself, an untyped block of 4096 bytes, and two empty slots.\<close>

definition ex_untyped :: "word_t \<Rightarrow> kernel_state" where
  "ex_untyped f = ex_kernel\<lparr>ctes := [0x8000 \<mapsto> \<lparr>cte_cap = CNodeCap 2 0 0 0x8000, cteMDBNode = nullMDBNode\<lparr>mdbRevocable := True\<rparr>\<rparr>,
       0x8020 \<mapsto> \<lparr>cte_cap = UntypedCap False 12 f 0x10000, cteMDBNode = nullMDBNode\<lparr>mdbRevocable := True\<rparr>\<rparr>,
       0x8040 \<mapsto> zero_cte, 0x8060 \<mapsto> zero_cte],
     tcbs := (tcbs ex_kernel)(0x2000 := Some ((ex_thread ThreadState_Running 5)\<lparr>tcbContext := (\<lambda>_. 0)(2 := seL4_EndpointObject)\<rparr>)),
     userMem := (\<lambda>_. 0)(0x20028 := 2, 0x20030 := 2)\<rparr>"

lemma ex_untyped_args:
  "getSyscallArg (ex_untyped f) 0 0x20000 = Some seL4_EndpointObject" "getSyscallArg (ex_untyped f) (Suc 0) 0x20000 = Some 0"
  "getSyscallArg (ex_untyped f) 2 0x20000 = Some 0" "getSyscallArg (ex_untyped f) 3 0x20000 = Some 0"
  "getSyscallArg (ex_untyped f) 4 0x20000 = Some 2" "getSyscallArg (ex_untyped f) 5 0x20000 = Some 2"
  by (simp_all add: getSyscallArg_def n_msgRegisters_def msgRegisters_def getRegister_def ex_untyped_def ex_kernel_def word_at_def push_bit_eq_mult)

lemma ex_untyped_chains: "valid_mdb (ex_untyped f) {[0x8000], [0x8020]}"
  by (auto simp: valid_mdb_def is_chain_def ex_untyped_def mnext_def mprev_def nullMDBNode_def zero_cte_def split: if_splits)

lemma ex_untyped_cspace: "valid_cspace (ex_untyped f)"
proof -
  have "ctes (ex_untyped f) (cte_at_index 0x8000 (of_nat i)) \<noteq> None" if "i < 4" for i :: nat
  proof -
    have "i = 0 \<or> i = 1 \<or> i = 2 \<or> i = 3" using that by arith
    then show ?thesis by (elim disjE) (simp_all add: ex_untyped_def cte_at_index_def push_bit_eq_mult)
  qed
  then show ?thesis by (auto simp: valid_cspace_def cnode_slots_def ex_untyped_def zero_cte_def split: if_splits)
qed

lemma ex_untyped_block: "in_block 0x10000 12 q \<longleftrightarrow> 0x10000 \<le> unat q \<and> unat q < 0x11000"
  using in_block_iff[of 12 "0x10000" q] by simp

lemma ex_untyped_free: "in_block 0x10000 12 q \<Longrightarrow> no_object (ex_untyped f) q \<and> zero_at (ex_untyped f) q"
  unfolding ex_untyped_block by (auto simp: no_object_def zero_at_def ex_untyped_def ex_kernel_def)

lemma ex_untyped_valid: "f \<le> 0x100 \<Longrightarrow> valid_untyped (ex_untyped f) 0x8020 (UntypedCap False 12 f 0x10000)"
proof -
  assume f: "f \<le> 0x100"
  have "free_addr 0x10000 12 f q \<Longrightarrow> in_block 0x10000 12 q" for q unfolding ex_untyped_block by (simp add: free_addr_def)
  moreover have "wf_untyped 0x10000 12 f" using f
    by (simp add: wf_untyped_def aligned_def MASKw_mask MAX_FREE_INDEX_def seL4_MinUntypedBits_def seL4_MaxUntypedBits_def BITw_def BIT_def push_bit_eq_mult word_le_nat_alt mask_eq_exp_minus_1)
  ultimately show ?thesis using ex_untyped_free[of _ f]
    by (auto simp: valid_untyped_def) (simp_all add: ex_untyped_def)
qed

subsection \<open>Properties of retyping\<close>

text \<open>The invocation itself reports no error.\<close>

lemma preemption_no_error: "fst (preemptionPoint s) \<noteq> EXCEPTION_SYSCALL_ERROR e"
  using preemptionPoint_frame[of s] by auto

lemma reset_loop_no_error:
  assumes "resetUntypedCap_loop slot cap p off s = Some r"
  shows "fst r \<noteq> EXCEPTION_SYSCALL_ERROR e"
proof (rule resetUntypedCap_loop.raw_induct[where P = "\<lambda>_ _ _ _ _ r. fst r \<noteq> EXCEPTION_SYSCALL_ERROR e", OF _ assms], goal_cases)
  case (1 loop slot cap p off s r)
  have ih: "fst r \<noteq> EXCEPTION_SYSCALL_ERROR e" if "loop slot cap p o' s' = Some r" for o' s' using 1(1) that .
  then show ?case using 1(2) preemption_no_error by (auto simp: Let_def bind_eq_Some_conv case_prod_unfold dest: ih split: if_splits)
qed

lemma reset_no_error: "resetUntypedCap slot s = Some r \<Longrightarrow> fst r \<noteq> EXCEPTION_SYSCALL_ERROR e"
  by (cases "ctes s slot"; cases "cte_cap (the (ctes s slot))")
    (auto simp: resetUntypedCap_def Let_def bind_eq_Some_conv reset_loop_no_error split: if_splits)

lemma invoke_no_error: "invokeUntyped_Retype slot reset base t us dc off n dev s = Some r \<Longrightarrow> fst r \<noteq> EXCEPTION_SYSCALL_ERROR e"
  by (cases "ctes s slot"; cases "cte_cap (the (ctes s slot))")
    (auto simp: invokeUntyped_Retype_def Let_def bind_eq_Some_conv dest!: reset_no_error[of _ _ _ e] split: if_splits)

lemma invoke_not_error: "invokeUntyped_Retype slot reset base t us dc off n dev s \<noteq> Some (EXCEPTION_SYSCALL_ERROR e, s')"
  using invoke_no_error[of slot reset base t us dc off n dev s "(EXCEPTION_SYSCALL_ERROR e, s')" e] by auto

text \<open>
  C31. Invoking an untyped capability never fails to return: it reports an error and changes nothing; or it is
  preempted while it clears the block, with a smaller free index and all invariants intact; or it creates the
  objects. Then every new object is aligned to its size, lies in the part of the block that was
  free before and below the new free index, which is still inside the block, and overlaps no other one;
  the new capabilities fill slots that were empty and stand in the derivation tree right below the untyped
  capability, which they are derived from; every other object, capability and memory outside the block
  is unchanged, and what is left of the free part is still clear.
\<close>

theorem retype_safe:
  assumes v: "valid_mdb s L" "valid_cspace s" and ch: "ys @ slot # zs \<in> L" and vu: "valid_untyped s slot cap" and cur: "tcbs s (ksCurThread s) \<noteq> None"
    and buf: "buffer \<noteq> 0" and ex: "\<forall>x\<in>set excaps. ctes s x \<noteq> None"
  shows "succeeds (decodeUntypedInvocation label len slot cap call buffer excaps s)
    (\<lambda>r. (\<exists>e. r = (EXCEPTION_SYSCALL_ERROR e, s)) \<or> retype_outcome s L ys slot zs cap (first_free s slot cap) r)" (is "succeeds _ ?P")
proof (cases "label \<noteq> UntypedRetype \<or> len < 6 \<or> excaps = []")
  case True
  then show ?thesis by (auto simp: decodeUntypedInvocation_def syscall_fail_def)
next
  case False
  note arg = getSyscallArg_ok[OF cur buf]
  obtain t us idx depth off n where a: "getSyscallArg s 0 buffer = Some t" "getSyscallArg s 1 buffer = Some us" "getSyscallArg s 2 buffer = Some idx"
    "getSyscallArg s 3 buffer = Some depth" "getSyscallArg s 4 buffer = Some off" "getSyscallArg s 5 buffer = Some n"
    using arg[of 0] arg[of 1] arg[of 2] arg[of 3] arg[of 4] arg[of 5] by blast
  have fail: "succeeds (syscall_fail e s) ?P" for e by (simp add: syscall_fail_def)
  show ?thesis
  proof (cases "t < seL4_ObjectTypeCount")
    case t: True
    obtain sz where sz: "getObjectSize t us = Some sz" using getObjectSize_total[OF t] by blast
    obtain rc where rc: "ctes s (hd excaps) = Some rc" using False ex by (cases excaps) auto
    obtain nr where nr: "retype_node_cap s (cte_cap rc) idx depth = Some nr" "\<And>c. nr = Inr c \<Longrightarrow> cnode_slots s c"
      using retype_node_cap_ok[OF v(2), of "cte_cap rc" idx depth] v(2) rc by (auto simp: valid_cspace_def)
    have mem: "succeeds (decodeUntyped_memory slot cap t us sz dc off n s) ?P"
      if "\<not> (us \<ge> of_nat wordBits \<or> sz > seL4_MaxUntypedBits)" "\<not> (t = seL4_CapTableObject \<and> us = 0)" "\<not> (t = seL4_UntypedObject \<and> us < seL4_MinUntypedBits)"
        "\<not> (n < 1 \<or> n > CONFIG_RETYPE_FAN_OUT_LIMIT)" "\<forall>i\<in>set (map (\<lambda>i. off + of_nat i) [0..<unat n]). map_option cte_cap (ctes s (cte_at_index dc i)) = Some NullCap" for dc
    proof (rule decodeUntyped_memory_ok[OF v ch vu cur t sz])
      show us: "us < 64" using that(1) by (simp add: wordBits_def not_le)
      show "4 \<le> sz" by (rule object_size_min[OF t sz us that(3)])
      show "1 \<le> n" using that(4) linorder_not_less by blast
    qed (use that in \<open>auto simp: CONFIG_RETYPE_FAN_OUT_LIMIT_def not_less\<close>)
    show ?thesis
    proof (cases nr)
      case (Inl e)
      then show ?thesis using False a t sz rc nr(1) fail by (simp add: decodeUntypedInvocation_def not_le)
    next
      case nr': (Inr nc)
      show ?thesis
      proof (cases "\<exists>r gs g dc. nc = CNodeCap r gs g dc")
        case no: False
        then have "(case nc of CNodeCap r gs g dc \<Rightarrow> X r dc | _ \<Rightarrow> Y) = Y" for X :: "word_t \<Rightarrow> ptr \<Rightarrow> (exception \<times> kernel_state) option" and Y by (auto split: cap.splits)
        then show ?thesis using False a t sz rc nr(1) nr' fail by (simp add: decodeUntypedInvocation_def not_le)
      next
        case True
        then obtain r gs g dc where nc: "nc = CNodeCap r gs g dc" by blast
        note slots = window_slots[OF nr(2)[OF nr', unfolded nc]]
        show ?thesis
        proof (cases "off > BITw r - 1 \<or> (n < 1 \<or> n > CONFIG_RETYPE_FAN_OUT_LIMIT) \<or> n > BITw r - off")
          case True
          then show ?thesis using False a t sz rc nr(1) nr' nc fail by (auto simp: decodeUntypedInvocation_def not_le Let_def)
        next
          case in': False
          then have "ctes s (cte_at_index dc i) \<noteq> None" if "i \<in> set (map (\<lambda>i. off + of_nat i) [0..<unat n])" for i using slots[of off n] that by auto
          from ensureEmptySlots_ok[of "map (\<lambda>i. off + of_nat i) [0..<unat n]", OF this] show ?thesis
            using False a t sz rc nr(1) nr' nc fail in' mem by (auto simp: decodeUntypedInvocation_def not_le Let_def)
        qed
      qed
    qed
  qed (use False a fail in \<open>auto simp: decodeUntypedInvocation_def not_less\<close>)
qed

theorem retype_safe_witness:
  "\<exists>s'. decodeUntypedInvocation UntypedRetype 6 0x8020 (UntypedCap False 12 0 0x10000) True 0x20000 [0x8000] (ex_untyped 0) = Some (EXCEPTION_NONE, s') \<and>
    retype_done (ex_untyped 0) {[0x8000], [0x8020]} [] 0x8020 [] (UntypedCap False 12 0 0x10000) 0 s'"
proof -
  let ?s = "ex_untyped 0" and ?cap = "UntypedCap False 12 0 0x10000"
  let ?r = "decodeUntypedInvocation UntypedRetype 6 0x8020 ?cap True 0x20000 [0x8000] ?s"
  have nc: "ensureNoChildren ?s 0x8020 = Some (Inr ())" by (simp add: ensureNoChildren_def ex_untyped_def nullMDBNode_def)
  have ff: "first_free ?s 0x8020 ?cap = 0" using nc by (simp add: first_free_def)
  have cur: "tcbs ?s (ksCurThread ?s) \<noteq> None" by (simp add: ex_untyped_def ex_kernel_def)
  have sz: "getObjectSize seL4_EndpointObject 0 = Some 4" by (simp add: getObjectSize_def object_types seL4_EndpointBits_def word_le_nat_alt)
  have "ensureEmptySlots ?s 0x8000 (map (\<lambda>i. 2 + of_nat i) [0..<2]) = Some (Inr ())"
    by (simp add: ensureEmptySlot_def ex_untyped_def zero_cte_def cte_at_index_def push_bit_eq_mult upt_rec)
  moreover have "?s = ex_untyped 0" "ctes ?s 0x8000 = Some \<lparr>cte_cap = CNodeCap 2 0 0 0x8000, cteMDBNode = nullMDBNode\<lparr>mdbRevocable := True\<rparr>\<rparr>" by (simp_all add: ex_untyped_def)
  ultimately have "?r = decodeUntyped_memory 0x8020 ?cap seL4_EndpointObject 0 4 0x8000 2 2 ?s"
    using sz by (simp add: decodeUntypedInvocation_def ex_untyped_args retype_node_cap_def BITw_def BIT_def push_bit_eq_mult Let_def)
      (simp add: object_types wordBits_def seL4_MaxUntypedBits_def CONFIG_RETYPE_FAN_OUT_LIMIT_def word_le_nat_alt word_less_nat_alt)
  also have "\<dots> = invokeUntyped_Retype 0x8020 True (alignUp (GET_FREE_REF 0x10000 0) 4) seL4_EndpointObject 0 0x8000 2 2 False (restart_cur ?s)"
    using nc setThreadState_restart_cur[OF cur]
    by (simp add: decodeUntyped_memory_def Let_def FREE_INDEX_TO_OFFSET_def BITw_def BIT_def push_bit_eq_mult drop_bit_eq_div word_less_nat_alt unat_div)
  finally have ne: "?r \<noteq> Some (EXCEPTION_SYSCALL_ERROR e, s')" for e s' by (simp add: invoke_not_error)
  have "succeeds ?r (\<lambda>r. (\<exists>e. r = (EXCEPTION_SYSCALL_ERROR e, ?s)) \<or> retype_outcome ?s {[0x8000], [0x8020]} [] 0x8020 [] ?cap (first_free ?s 0x8020 ?cap) r)"
    by (rule retype_safe[OF ex_untyped_chains ex_untyped_cspace _ ex_untyped_valid cur]) (simp_all add: ex_untyped_def)
  then obtain e s' where r: "?r = Some (e, s')" and o: "retype_outcome ?s {[0x8000], [0x8020]} [] 0x8020 [] ?cap 0 (e, s')"
    unfolding ff using ne by (auto simp: succeeds_def)
  then show ?thesis by (cases e) (auto simp: retype_outcome_def reset_progress_def)
qed

text \<open>
  C32. The check for enough memory is exact: the invocation is refused for lack of memory, with the number of free
  bytes, if and only if the objects do not fit into the free part of the block one after the other and aligned to
  their size. The free part is the whole block while nothing is derived from the capability.
\<close>

theorem memory_check_exact:
  assumes w: "wf_untyped p b f" and nc: "ensureNoChildren s slot = Some r" and sz: "sz < 64" and n: "1 \<le> n"
  shows "(\<exists>e s'. decodeUntyped_memory slot (UntypedCap dev b f p) t us sz dc off n s = Some (EXCEPTION_SYSCALL_ERROR e, s') \<and>
      se_type e = seL4_NotEnoughMemory \<and> unat (memoryLeft e) = 2 ^ unat b - 16 * unat (first_free s slot (UntypedCap dev b f p))) \<longleftrightarrow>
    \<not> (\<exists>o'. 16 * unat (first_free s slot (UntypedCap dev b f p)) \<le> o' \<and> 2 ^ unat sz dvd o' \<and> o' + unat n * 2 ^ unat sz \<le> 2 ^ unat b)"
proof -
  let ?reset = "ensureNoChildren s slot = Some (Inr ())" and ?f = "first_free s slot (UntypedCap dev b f p)"
  let ?o = "FREE_INDEX_TO_OFFSET ?f" and ?m = "(2::nat) ^ unat sz"
  have "wf_untyped p b ?f" using w by (simp add: first_free_def wf_untyped_def)
  note d = wf_untypedD[OF this]
  have fb: "unat (BITw b - ?o) = 2 ^ unat b - 16 * unat ?f" using d(4,6) unat_BITw[OF d(1)] by (subst unat_sub) (auto simp: word_le_nat_alt)
  have eq: "decodeUntyped_memory slot (UntypedCap dev b f p) t us sz dc off n s =
      (if drop_bit (unat sz) (BITw b - ?o) < n then syscall_fail ((no_error seL4_NotEnoughMemory)\<lparr>memoryLeft := BITw b - ?o\<rparr>) s
       else if (dev \<and> \<not> Arch_isFrameType t) \<and> t \<noteq> seL4_UntypedObject then syscall_fail (invalid_argument 1) s
       else setThreadState (ksCurThread s) ThreadState_Restart s \<bind> invokeUntyped_Retype slot ?reset (alignUp (GET_FREE_REF p ?f) sz) t us dc off n dev)"
    using nc by (auto simp: decodeUntyped_memory_def first_free_def Let_def split: sum.splits)
  have inv: "setThreadState (ksCurThread s) ThreadState_Restart s \<bind> invokeUntyped_Retype slot ?reset (alignUp (GET_FREE_REF p ?f) sz) t us dc off n dev \<noteq>
      Some (EXCEPTION_SYSCALL_ERROR e, s')" for e s' by (auto simp: bind_eq_Some_conv invoke_not_error)
  have ne: "drop_bit (unat sz) (BITw b - ?o) < n" if "decodeUntyped_memory slot (UntypedCap dev b f p) t us sz dc off n s = Some (EXCEPTION_SYSCALL_ERROR e, s')"
      "se_type e = seL4_NotEnoughMemory" for e s'
  proof (rule ccontr)
    assume "\<not> drop_bit (unat sz) (BITw b - ?o) < n"
    then have "invalid_argument 1 = e" using that(1)[unfolded eq] inv[of e s'] by (simp add: syscall_fail_def split: if_splits)
    then show False using that(2) by (auto simp: invalid_argument_def no_error_def)
  qed
  have room: "drop_bit (unat sz) (BITw b - ?o) < n \<longleftrightarrow> \<not> (\<exists>o'. 16 * unat ?f \<le> o' \<and> ?m dvd o' \<and> o' + unat n * ?m \<le> 2 ^ unat b)"
  proof
    assume "drop_bit (unat sz) (BITw b - ?o) < n"
    then have lt: "(2 ^ unat b - 16 * unat ?f) div ?m < unat n" unfolding word_less_nat_alt unat_drop_bit_eq fb by (simp add: drop_bit_eq_div)
    show "\<not> (\<exists>o'. 16 * unat ?f \<le> o' \<and> ?m dvd o' \<and> o' + unat n * ?m \<le> 2 ^ unat b)"
    proof
      assume "\<exists>o'. 16 * unat ?f \<le> o' \<and> ?m dvd o' \<and> o' + unat n * ?m \<le> 2 ^ unat b"
      then have "unat n * ?m \<le> 2 ^ unat b - 16 * unat ?f" by auto
      then have "unat n \<le> (2 ^ unat b - 16 * unat ?f) div ?m" by (subst less_eq_div_iff_mult_less_eq) simp_all
      then show False using lt by linarith
    qed
  next
    assume no: "\<not> (\<exists>o'. 16 * unat ?f \<le> o' \<and> ?m dvd o' \<and> o' + unat n * ?m \<le> 2 ^ unat b)"
    show "drop_bit (unat sz) (BITw b - ?o) < n"
    proof (rule ccontr)
      assume "\<not> drop_bit (unat sz) (BITw b - ?o) < n"
      then have "n \<le> drop_bit (unat sz) (BITw b - ?o)" by simp
      from retype_room[OF d(9,1) _ sz this n] show False using no d(4,6) by auto
    qed
  qed
  show ?thesis
  proof (cases "drop_bit (unat sz) (BITw b - ?o) < n")
    case True
    let ?e = "(no_error seL4_NotEnoughMemory)\<lparr>memoryLeft := BITw b - ?o\<rparr>"
    have "decodeUntyped_memory slot (UntypedCap dev b f p) t us sz dc off n s = Some (EXCEPTION_SYSCALL_ERROR ?e, s)" unfolding eq using True by (simp add: syscall_fail_def)
    moreover have "se_type ?e = seL4_NotEnoughMemory" "unat (memoryLeft ?e) = 2 ^ unat b - 16 * unat ?f" using fb by (simp_all add: no_error_def)
    ultimately show ?thesis using room True by blast
  next
    case False
    then show ?thesis using ne room by blast
  qed
qed

theorem memory_check_exact_witness:
  "wf_untyped 0x10000 12 0x80 \<and> first_free (ex_untyped 0x80) 0x8020 (UntypedCap False 12 0x80 0x10000) = 0 \<and>
   (\<exists>e s'. decodeUntyped_memory 0x8020 (UntypedCap False 12 0x80 0x10000) seL4_TCBObject 0 11 0x8000 2 3 (ex_untyped 0x80) = Some (EXCEPTION_SYSCALL_ERROR e, s') \<and>
     se_type e = seL4_NotEnoughMemory \<and> unat (memoryLeft e) = 4096)"
proof -
  let ?s = "ex_untyped 0x80" and ?cap = "UntypedCap False 12 0x80 0x10000"
  have w: "wf_untyped 0x10000 12 0x80" using ex_untyped_valid[of "0x80"] by (simp add: valid_untyped_def)
  have nc: "ensureNoChildren ?s 0x8020 = Some (Inr ())" by (simp add: ensureNoChildren_def ex_untyped_def nullMDBNode_def)
  have ff: "first_free ?s 0x8020 ?cap = 0" using nc by (simp add: first_free_def)
  have "\<not> (\<exists>o'. 16 * unat (0 :: word_t) \<le> o' \<and> 2 ^ unat (11 :: word_t) dvd o' \<and> o' + unat (3 :: word_t) * 2 ^ unat (11 :: word_t) \<le> 2 ^ unat (12 :: word_t))" by simp
  then show ?thesis using memory_check_exact[OF w nc, of 11 3 False seL4_TCBObject 0 "0x8000" 2] w ff by simp
qed

lemma reset_device:
  assumes "ctes s slot = Some c" "cte_cap c = UntypedCap True b f p" "\<forall>q. in_block p b q \<longrightarrow> no_object s q" "resetUntypedCap slot s = Some (e, s')"
  shows "e = EXCEPTION_NONE \<and> userMem s' = userMem s \<and> ksArch s' = ksArch s"
proof -
  have "typ_region_bytes p b s = s" by (rule typ_region_bytes_free) (use assms(3) in blast)
  then show ?thesis using assms(1,2,4)
    by (auto simp: resetUntypedCap_def Let_def cap_untyped_cap_set_capFreeIndex_def set_cap_def split: if_splits)
qed

text \<open>
  C33. Resetting an untyped block that holds no object always returns. When it runs to its end the free index is 0,
  and for ordinary memory all of the block is clear; when an interrupt stops it the free index has become smaller and, for ordinary memory, everything from it
  on is clear, so that the restarted system call goes on below. The reset of device memory runs to its end and writes no memory, not even the block. Memory outside the
  block is never written, and only the capability in the slot changes.
\<close>

theorem reset_restartable:
  assumes "ctes s slot = Some c" "cte_cap c = UntypedCap dev b f p" "wf_untyped p b f"
    "\<forall>q. in_block p b q \<longrightarrow> no_object s q" "\<not> dev \<longrightarrow> (\<forall>q. free_addr p b f q \<longrightarrow> zero_at s q)"
  shows "\<exists>e s' f'. resetUntypedCap slot s = Some (e, s') \<and> (e = EXCEPTION_NONE \<and> f' = 0 \<or> e = EXCEPTION_PREEMPTED \<and> f' < f) \<and>
     reset_frame slot (c\<lparr>cte_cap := UntypedCap dev b f' p\<rparr>) s s' \<and> (\<forall>q. \<not> in_block p b q \<longrightarrow> mem_same s s' q) \<and>
     (\<not> dev \<longrightarrow> (\<forall>q. free_addr p b f' q \<longrightarrow> zero_at s' q)) \<and>
     (dev \<longrightarrow> e = EXCEPTION_NONE \<and> userMem s' = userMem s \<and> ksArch s' = ksArch s)"
proof -
  obtain e s' f' where r: "resetUntypedCap slot s = Some (e, s')" "e = EXCEPTION_NONE \<and> f' = 0 \<or> e = EXCEPTION_PREEMPTED \<and> f' < f"
     "reset_frame slot (c\<lparr>cte_cap := UntypedCap dev b f' p\<rparr>) s s'" "\<forall>q. \<not> in_block p b q \<longrightarrow> mem_same s s' q"
     "\<not> dev \<longrightarrow> (\<forall>q. free_addr p b f' q \<longrightarrow> zero_at s' q)"
    using resetUntypedCap_ok[OF assms(1-3)] assms(4,5) by (fastforce simp: succeeds_def)
  moreover have "dev \<longrightarrow> e = EXCEPTION_NONE \<and> userMem s' = userMem s \<and> ksArch s' = ksArch s"
    using reset_device[OF assms(1) _ assms(4) r(1), of f] assms(2) by auto
  ultimately show ?thesis by blast
qed

theorem reset_restartable_witness:
  "\<exists>e s' f'. resetUntypedCap 0x8020 (ex_untyped 0x100) = Some (e, s') \<and> (e = EXCEPTION_NONE \<and> f' = 0 \<or> e = EXCEPTION_PREEMPTED \<and> f' < 0x100) \<and>
    (\<forall>q. free_addr 0x10000 12 f' q \<longrightarrow> zero_at s' q)"
proof -
  let ?s = "ex_untyped 0x100" and ?c = "\<lparr>cte_cap = UntypedCap False 12 0x100 0x10000, cteMDBNode = nullMDBNode\<lparr>mdbRevocable := True\<rparr>\<rparr>"
  have w: "wf_untyped 0x10000 12 0x100" using ex_untyped_valid[of "0x100"] by (simp add: valid_untyped_def)
  have c: "ctes ?s 0x8020 = Some ?c" "cte_cap ?c = UntypedCap False 12 0x100 0x10000" by (simp_all add: ex_untyped_def)
  have "\<forall>q. in_block 0x10000 12 q \<longrightarrow> no_object ?s q" "\<not> False \<longrightarrow> (\<forall>q. free_addr 0x10000 12 0x100 q \<longrightarrow> zero_at ?s q)"
    using ex_untyped_free[of _ "0x100"] by (auto simp: free_addr_def)
  from reset_restartable[OF c w this] show ?thesis by blast
qed

end
