(* ===== verification/KCNodeInv.thy ===== *)
theory KCNodeInv
  imports KCNode KDecodeUntyped
begin

unbundle bit_operations_syntax

text \<open>
  What the CNode invocations do to the capabilities and to the derivation tree.
\<close>

subsection \<open>Which capabilities change\<close>

definition caps_frame :: "ptr set \<Rightarrow> kernel_state \<Rightarrow> kernel_state \<Rightarrow> bool" where
  "caps_frame D s s' \<longleftrightarrow> s'\<lparr>ctes := ctes s\<rparr> = s \<and> (\<forall>q. ctes s' q = None \<longleftrightarrow> ctes s q = None) \<and> (\<forall>q. q \<notin> D \<longrightarrow> map_option cte_cap (ctes s' q) = map_option cte_cap (ctes s q))"

lemma caps_frame_refl [simp]: "caps_frame D s s"
  by (simp add: caps_frame_def)

lemma caps_frameD: "caps_frame D s s' \<Longrightarrow> q \<notin> D \<Longrightarrow> ctes s q = Some c \<Longrightarrow> \<exists>c'. ctes s' q = Some c' \<and> cte_cap c' = cte_cap c"
proof -
  assume "caps_frame D s s'" "q \<notin> D" "ctes s q = Some c"
  then have "map_option cte_cap (ctes s' q) = Some (cte_cap c)" by (simp add: caps_frame_def)
  then show ?thesis by auto
qed

lemma caps_frame_trans: "caps_frame D s s1 \<Longrightarrow> caps_frame E s1 s2 \<Longrightarrow> caps_frame (D \<union> E) s s2"
proof -
  assume a: "caps_frame D s s1" "caps_frame E s1 s2"
  have "s2\<lparr>ctes := ctes s\<rparr> = (s2\<lparr>ctes := ctes s1\<rparr>)\<lparr>ctes := ctes s\<rparr>" by simp
  also have "\<dots> = s" using a by (simp add: caps_frame_def)
  finally show ?thesis using a by (simp add: caps_frame_def)
qed

lemma caps_frame_mono: "caps_frame D s s' \<Longrightarrow> D \<subseteq> E \<Longrightarrow> caps_frame E s s'"
  by (auto simp: caps_frame_def)

lemma caps_frame_chain: "caps_frame D s1 s2 \<Longrightarrow> caps_frame D s s1 \<Longrightarrow> caps_frame D s s2"
  using caps_frame_trans[of D s s1 D s2] by simp

lemma caps_frame_upd:
  "upd_cte p f s = Some s' \<Longrightarrow> p \<in> D \<Longrightarrow> caps_frame D s s'"
  "upd_cte p f s = Some s' \<Longrightarrow> (\<And>c. cte_cap (f c) = cte_cap c) \<Longrightarrow> caps_frame D s s'"
  by (auto simp: caps_frame_def upd_cte_def split: option.splits if_splits)

lemma caps_frame_ops:
  "set_cap p cap s = Some s' \<Longrightarrow> p \<in> D \<Longrightarrow> caps_frame D s s'"
  "set_node p n s = Some s' \<Longrightarrow> caps_frame D s s'"
  "upd_mdb p g s = Some s' \<Longrightarrow> caps_frame D s s'"
  "upd_mdb_nz p g s = Some s' \<Longrightarrow> caps_frame D s s'"
proof -
  show "set_cap p cap s = Some s' \<Longrightarrow> p \<in> D \<Longrightarrow> caps_frame D s s'" unfolding set_cap_def by (rule caps_frame_upd(1))
  show "set_node p n s = Some s' \<Longrightarrow> caps_frame D s s'" unfolding set_node_def by (erule caps_frame_upd(2)) simp
  show u: "upd_mdb p g s = Some s' \<Longrightarrow> caps_frame D s s'" unfolding upd_mdb_def by (erule caps_frame_upd(2)) simp
  show "upd_mdb_nz p g s = Some s' \<Longrightarrow> caps_frame D s s'" using u by (auto simp: upd_mdb_nz_def split: if_splits)
qed

lemma set_cap_frame:
  "set_cap p cap s = Some s' \<Longrightarrow> caps_frame {p} s s'" "set_cap p cap s = Some s' \<Longrightarrow> caps_frame {p, q} s s'" "set_cap p cap s = Some s' \<Longrightarrow> caps_frame {q, p} s s'"
  by (erule caps_frame_ops(1), simp)+

lemma setUntypedCapAsFull_frame: "setUntypedCapAsFull a b p s = Some s' \<Longrightarrow> caps_frame {p, q} s s'"
  by (auto simp: setUntypedCapAsFull_def caps_frame_upd(1) split: cap.splits if_splits)

lemma cteInsert_frame: "cteInsert new src dst s = Some s' \<Longrightarrow> caps_frame {src, dst} s s'"
  by (clarsimp simp: cteInsert_def bind_eq_Some_conv Let_def dest!: setUntypedCapAsFull_frame[of _ _ src _ _ dst]
    set_cap_frame(2)[of src _ _ _ dst] set_cap_frame(3)[of dst _ _ _ src] caps_frame_ops(2-)[where D = "{src, dst}"]) (elim caps_frame_chain, simp)

lemma cteMove_frame: "cteMove new src dst s = Some s' \<Longrightarrow> caps_frame {src, dst} s s'"
  by (clarsimp simp: cteMove_def bind_eq_Some_conv Let_def dest!:
    set_cap_frame(2)[of src _ _ _ dst] set_cap_frame(3)[of dst _ _ _ src] caps_frame_ops(2-)[where D = "{src, dst}"]) (elim caps_frame_chain, simp)

lemma cteSwap_frame: "cteSwap a x b y s = Some s' \<Longrightarrow> caps_frame {x, y} s s'"
  by (clarsimp simp: cteSwap_def bind_eq_Some_conv Let_def dest!:
    set_cap_frame(2)[of x _ _ _ y] set_cap_frame(3)[of y _ _ _ x] caps_frame_ops(2-)[where D = "{x, y}"]) (elim caps_frame_chain, simp)

lemma emptySlot_frame:
  assumes "emptySlot x info s = Some s'" "postCapDeletion info = id"
  shows "caps_frame {x} s s'"
proof -
  obtain c where c: "ctes s x = Some c" using assms by (auto simp: emptySlot_def bind_eq_Some_conv)
  show ?thesis
  proof (cases "cte_cap c = NullCap")
    case False
    then show ?thesis using assms c
      by (clarsimp simp: emptySlot_def bind_eq_Some_conv Let_def dest!: set_cap_frame(1) caps_frame_ops(2-)[where D = "{x}"])
        (elim caps_frame_chain, simp)
  qed (use assms c in \<open>simp add: emptySlot_def\<close>)
qed

subsection \<open>Copying and moving\<close>

text \<open>A copy of a capability for a frame is not mapped.\<close>

fun cap_forget_mapping :: "cap \<Rightarrow> cap" where
  "cap_forget_mapping (ArchCap (FrameCap _ p sz va vr d)) = ArchCap (FrameCap asidInvalid p sz va vr d)"
| "cap_forget_mapping c = c"

text \<open>The capability \<open>new\<close> is for the object of \<open>src\<close>, gives no right \<open>src\<close> does not give, and has its badge if it has one.\<close>

definition weaker_cap :: "cap \<Rightarrow> cap \<Rightarrow> bool" where
  "weaker_cap new src \<longleftrightarrow> cap_identity (cap_forget_mapping new) = cap_identity (cap_forget_mapping src) \<and>
     cap_right_set new \<subseteq> cap_right_set src \<and> (cap_badge new = cap_badge src \<or> cap_badge src = 0)"

lemma weaker_cap_refl [simp]: "weaker_cap c c"
  by (simp add: weaker_cap_def)

lemma identity_forget: "cap_identity a = cap_identity b \<Longrightarrow> cap_identity (cap_forget_mapping a) = cap_identity (cap_forget_mapping b)"
proof -
  have "cap_identity (cap_forget_mapping c) = cap_forget_mapping (cap_identity c)" for c
  proof (cases c)
    case (ArchCap a)
    then show ?thesis by (cases a) simp_all
  qed simp_all
  then show "cap_identity a = cap_identity b \<Longrightarrow> cap_identity (cap_forget_mapping a) = cap_identity (cap_forget_mapping b)" by simp
qed

lemma updateCapData_weaker: "updateCapData preserve d (maskCapRights m c) = new \<Longrightarrow> new \<noteq> NullCap \<Longrightarrow> weaker_cap new c"
  using update_cap_data[of preserve d "maskCapRights m c"] mask_right_set[of m c] mask_identity[of m c]
  by (auto simp: weaker_cap_def intro: identity_forget)

lemma weaker_mask: "weaker_cap (maskCapRights m c) c"
  using mask_right_set[of m c] mask_identity[of m c] by (auto simp: weaker_cap_def intro: identity_forget)

lemma weaker_update: "updateCapData preserve d c \<noteq> NullCap \<Longrightarrow> weaker_cap (updateCapData preserve d c) c"
  using update_cap_data[of preserve d c] by (auto simp: weaker_cap_def intro: identity_forget)

lemma map_sum_Inr: "map_sum f g r = Inr y \<longleftrightarrow> (\<exists>x. r = Inr x \<and> y = g x)"
  by (cases r) auto

lemma deriveCap_weaker:
  assumes "deriveCap s slot c = Some (Inr new)" "new \<noteq> NullCap" "weaker_cap c src"
  shows "weaker_cap new src" "valid_cnode_cap c \<Longrightarrow> valid_cnode_cap new"
proof -
  have "new = c \<or> new = cap_forget_mapping c"
  proof (cases c)
    case (ArchCap a)
    then show ?thesis using assms(1) by (cases a) (auto simp: deriveCap_def Arch_deriveCap_def split: if_splits)
  qed (use assms in \<open>auto simp: deriveCap_def map_sum_Inr\<close>)
  moreover have "cap_right_set (cap_forget_mapping c) = cap_right_set c" "cap_badge (cap_forget_mapping c) = cap_badge c"
    "cap_forget_mapping (cap_forget_mapping c) = cap_forget_mapping c" "valid_cnode_cap (cap_forget_mapping c) = valid_cnode_cap c" for c
    by (cases c rule: cap_forget_mapping.cases; simp)+
  ultimately show "weaker_cap new src" "valid_cnode_cap c \<Longrightarrow> valid_cnode_cap new" using assms(3) by (auto simp: weaker_cap_def)
qed

text \<open>A capability that is derived from one with a badge has a badge of the same kind.\<close>

lemma weaker_revocable: "weaker_cap new src \<Longrightarrow> \<exists>rv. isCapRevocable new src = Some rv"
proof -
  assume w: "weaker_cap new src"
  have "(\<exists>b gr g se rcv p. src = EndpointCap b gr g se rcv p)" if "new = EndpointCap b gr g se rcv p" for b gr g se rcv p
    using w that by (cases src rule: cap_forget_mapping.cases) (auto simp: weaker_cap_def)
  moreover have "(\<exists>b rcv se p. src = NotificationCap b rcv se p)" if "new = NotificationCap b rcv se p" for b rcv se p
    using w that by (cases src rule: cap_forget_mapping.cases) (auto simp: weaker_cap_def)
  ultimately show ?thesis by (cases new) (auto simp: isCapRevocable_def)
qed

text \<open>The capability a copy, mint, move or mutate hands on.\<close>

lemma cnode_new_cap_cases:
  assumes "cnode_new_cap label len buffer slot src s = Some (Inr (new, mv))" "new \<noteq> NullCap"
  obtains m where "label = CNodeCopy" "\<not> mv" "deriveCap s slot (maskCapRights m src) = Some (Inr new)"
  | m d where "label = CNodeMint" "\<not> mv" "deriveCap s slot (updateCapData False d (maskCapRights m src)) = Some (Inr new)"
  | "label = CNodeMove" "mv" "new = src"
  | d where "label = CNodeMutate" "mv" "new = updateCapData True d src"
  using assms by (auto simp: cnode_new_cap_def bind_eq_Some_conv Let_def map_sum_Inr split: if_splits)

lemma cnode_new_cap_weaker:
  assumes n: "cnode_new_cap label len buffer slot src s = Some (Inr (new, mv))" "new \<noteq> NullCap"
  shows "weaker_cap new src" "mv \<longleftrightarrow> CNodeMove \<le> label" "valid_cnode_cap src \<Longrightarrow> valid_cnode_cap new"
proof -
  have m: "valid_cnode_cap (maskCapRights m src) = valid_cnode_cap src" for m by (cases src) auto
  have nn: "c \<noteq> NullCap" if "deriveCap s slot c = Some (Inr new)" for c using that n(2) by (auto simp: deriveCap_def)
  show "weaker_cap new src" using n
  proof (cases rule: cnode_new_cap_cases)
    case (1 m)
    then show ?thesis using deriveCap_weaker(1) n(2) weaker_mask by blast
  next
    case (2 m d)
    then show ?thesis using deriveCap_weaker(1) n(2) nn updateCapData_weaker by blast
  qed (use n(2) weaker_update in auto)
  show "mv \<longleftrightarrow> CNodeMove \<le> label" using n by (cases rule: cnode_new_cap_cases) (auto simp: cnode_labels)
  show "valid_cnode_cap new" if "valid_cnode_cap src" using n
  proof (cases rule: cnode_new_cap_cases)
    case (1 m)
    then show ?thesis using deriveCap_weaker(2) n(2) that m weaker_mask by blast
  next
    case (2 m d)
    then show ?thesis using deriveCap_weaker(2)[OF _ n(2)] nn updateCapData_weaker update_cnode_valid that m by blast
  qed (use that update_cnode_valid in auto)
qed

text \<open>Capabilities whose slots are there.\<close>

lemma valid_cspace_frame:
  assumes v: "valid_cspace s" and fr: "caps_frame D s s'"
    and new: "\<And>q c. q \<in> D \<Longrightarrow> ctes s' q = Some c \<Longrightarrow> cnode_slots s (cte_cap c)"
  shows "valid_cspace s'"
  unfolding valid_cspace_def
proof (intro allI impI)
  have cs: "cnode_slots s' cap = cnode_slots s cap" for cap using fr by (simp add: cnode_slots_def caps_frame_def)
  fix q c assume q: "ctes s' q = Some c"
  show "cnode_slots s' (cte_cap c)"
  proof (cases "q \<in> D")
    case False
    then have "map_option cte_cap (ctes s q) = Some (cte_cap c)" using fr q by (metis caps_frame_def option.simps(9))
    then show ?thesis using v cs by (metis option.map_disc_iff option.distinct(1) option.exhaust option.simps(9) option.inject valid_cspace_def)
  qed (use q new cs in auto)
qed

lemma weaker_slots: "weaker_cap new src \<Longrightarrow> cnode_slots s src \<Longrightarrow> valid_cnode_cap new \<Longrightarrow> cnode_slots s new"
  by (cases src rule: cap_forget_mapping.cases; cases new rule: cap_forget_mapping.cases) (auto simp: cnode_slots_def weaker_cap_def)

lemma restart_slots [simp]: "cnode_slots (restart_cur s) c = cnode_slots s c"
  by (simp add: cnode_slots_def)

lemma null_slots [simp]: "cnode_slots s NullCap"
  by (simp add: cnode_slots_def)

lemma as_full_slots [simp]: "cnode_slots s (as_full new c) = cnode_slots s c"
  by (simp add: as_full_def cnode_slots_def split: cap.splits)

text \<open>The result of a copy or move: the slots \<open>src\<close> and \<open>dst\<close> change, nothing else does.\<close>

definition cnode_copied :: "kernel_state \<Rightarrow> ptr list set \<Rightarrow> ptr \<Rightarrow> ptr \<Rightarrow> cap \<Rightarrow> bool \<Rightarrow> kernel_state \<Rightarrow> bool" where
  "cnode_copied s L src dst new mv s' \<longleftrightarrow> (\<exists>c. ctes s src = Some c \<and> weaker_cap new (cte_cap c) \<and> caps_frame {src, dst} (restart_cur s) s' \<and> valid_cspace s' \<and>
     map_option cte_cap (ctes s' dst) = Some new \<and>
     (if mv then map_option cte_cap (ctes s' src) = Some NullCap \<and> valid_mdb s' (map (swp src dst) ` L)
      else map_option cte_cap (ctes s' src) = Some (as_full new (cte_cap c)) \<and>
        (\<exists>ys zs. ys @ src # zs \<in> L \<and> valid_mdb s' (insert (ys @ src # dst # zs) (L - {ys @ src # zs})))))"

lemma invokeCNodeInsert_ok:
  assumes v: "valid_mdb s L" "valid_cspace s" and d: "ctes s dst = Some d" "cte_cap d = NullCap" and c: "ctes s src = Some c" "cte_cap c \<noteq> NullCap"
    and new: "new \<noteq> NullCap" "weaker_cap new (cte_cap c)" "valid_cnode_cap new"
  shows "succeeds (invokeCNodeInsert new src dst (restart_cur s)) (\<lambda>(e, s'). e = EXCEPTION_NONE \<and> cnode_copied s L src dst new False s')"
proof -
  obtain ys zs where ch: "ys @ src # zs \<in> L" using valid_mdbD(4)[OF v(1) c] by (metis split_list)
  obtain rv where rv: "isCapRevocable new (cte_cap c) = Some rv" using weaker_revocable[OF new(2)] by blast
  let ?s = "restart_cur s"
  have "succeeds (cteInsert new src dst ?s) (\<lambda>s'. cnode_copied s L src dst new False s')"
  proof (rule succeeds_mono[OF cteInsert_wp[of ?s L ys src zs dst d c new rv]])
    fix s' assume r: "cteInsert new src dst ?s = Some s'" and w: "valid_mdb s' (insert (ys @ src # dst # zs) (L - {ys @ src # zs})) \<and>
     ctes s' dst = Some (d\<lparr>cte_cap := new, cteMDBNode := \<lparr>mdbNext = mnext c, mdbRevocable = rv, mdbFirstBadged = rv, mdbPrev = src\<rparr>\<rparr>) \<and>
     ctes s' src = Some (c\<lparr>cte_cap := as_full new (cte_cap c), cteMDBNode := (cteMDBNode c)\<lparr>mdbNext := dst\<rparr>\<rparr>)"
    have cs: "cnode_slots s (cte_cap c)" using v(2) c(1) by (auto simp: valid_cspace_def)
    have "valid_cspace s'"
      by (rule valid_cspace_frame[of ?s "{src, dst}"]) (use v(2) cteInsert_frame[OF r] w weaker_slots[OF new(2) cs new(3)] cs in auto)
    then show "cnode_copied s L src dst new False s'" using w cteInsert_frame[OF r] c(1) new(2) ch by (auto simp: cnode_copied_def)
  qed (use v ch d c rv new in simp_all)
  then show ?thesis by (auto simp: invokeCNodeInsert_def)
qed

lemma invokeCNodeMove_ok:
  assumes v: "valid_mdb s L" "valid_cspace s" and d: "ctes s dst = Some d" "cte_cap d = NullCap" and c: "ctes s src = Some c" "cte_cap c \<noteq> NullCap"
    and new: "new \<noteq> NullCap" "weaker_cap new (cte_cap c)" "valid_cnode_cap new"
  shows "succeeds (invokeCNodeMove new src dst (restart_cur s)) (\<lambda>(e, s'). e = EXCEPTION_NONE \<and> cnode_copied s L src dst new True s')"
proof -
  let ?s = "restart_cur s"
  have "succeeds (cteMove new src dst ?s) (\<lambda>s'. cnode_copied s L src dst new True s')"
  proof (rule succeeds_mono[OF cteMove_wp[of ?s L dst d src c new]])
    fix s' assume r: "cteMove new src dst ?s = Some s'" and w: "valid_mdb s' (map (swp src dst) ` L) \<and>
     ctes s' dst = Some (d\<lparr>cte_cap := new, cteMDBNode := cteMDBNode c\<rparr>) \<and> map_option cte_cap (ctes s' src) = Some NullCap"
    have cs: "cnode_slots s (cte_cap c)" using v(2) c(1) by (auto simp: valid_cspace_def)
    have "valid_cspace s'"
      by (rule valid_cspace_frame[of ?s "{src, dst}"]) (use v(2) cteMove_frame[OF r] w weaker_slots[OF new(2) cs new(3)] cs in auto)
    then show "cnode_copied s L src dst new True s'" using w cteMove_frame[OF r] c(1) new(2) by (auto simp: cnode_copied_def)
  qed (use v d c new in simp_all)
  then show ?thesis by (auto simp: invokeCNodeMove_def)
qed

lemma cnode_lookup_ok:
  assumes "valid_cspace s" "cnode_slots s root"
  obtains e where "lookupSlotForCNodeOp isSource s root i d = Some (Inl e)"
  | slot c where "lookupSlotForCNodeOp isSource s root i d = Some (Inr slot)" "ctes s slot = Some c"
proof -
  obtain r where r: "lookupSlotForCNodeOp isSource s root i d = Some r" and rr: "\<And>slot. r = Inr slot \<Longrightarrow> resolves s root (bits_of (unat d) i) (Inr (slot, 0))"
    using cnode_op_lookup[OF assms, of isSource i d] by (elim exE conjE) (rename_tac r, case_tac r, auto)
  show thesis
  proof (cases r)
    case (Inr slot)
    then show ?thesis using that(2) r resolves_slot[OF rr[OF Inr] assms refl] by blast
  qed (use that(1) r in blast)
qed

lemma cnode_new_cap_total:
  assumes "valid_mdb s L" "ctes s slot = Some c" "tcbs s (ksCurThread s) \<noteq> None" "buffer \<noteq> 0" "CNodeCopy \<le> label" "label \<le> CNodeMutate"
  shows "\<exists>r. cnode_new_cap label len buffer slot src s = Some r"
proof -
  have d: "\<exists>r. deriveCap s slot cap = Some r" for cap using ensureNoChildren_ok[OF assms(1,2)] by (cases cap) (auto simp: deriveCap_def)
  have l: "label = CNodeCopy \<or> label = CNodeMint \<or> label = CNodeMove \<or> label = CNodeMutate"
    using assms(5,6) unfolding cnode_labels by (simp add: word_le_nat_alt word_unat_eq_iff) arith
  obtain w v where "getSyscallArg s 4 buffer = Some w" "getSyscallArg s 5 buffer = Some v" using getSyscallArg_ok[OF assms(3,4)] by metis
  then show ?thesis using l d[of "maskCapRights (rightsFromWord w) src"] d[of "updateCapData False v (maskCapRights (rightsFromWord w) src)"]
    unfolding cnode_new_cap_def by (elim disjE exE) (simp_all add: Let_def cnode_labels)
qed

text \<open>
  A request to copy, mint, move or mutate that can be granted: both slots can be looked up, the destination is empty, the source
  is not, and there is a capability to hand on.
\<close>

definition copy_request :: "word_t \<Rightarrow> word_t \<Rightarrow> cap \<Rightarrow> ptr \<Rightarrow> ptr list \<Rightarrow> kernel_state \<Rightarrow> ptr \<Rightarrow> ptr \<Rightarrow> cap \<Rightarrow> bool" where
  "copy_request label len cap buffer excaps s src dst new \<longleftrightarrow> 4 \<le> len \<and> excaps \<noteq> [] \<and>
     (\<exists>i d i' d' root c mv. getSyscallArg s 0 buffer = Some i \<and> getSyscallArg s 1 buffer = Some d \<and> lookupTargetSlot s cap i d = Some (Inr dst) \<and>
        map_option cte_cap (ctes s dst) = Some NullCap \<and> getSyscallArg s 2 buffer = Some i' \<and> getSyscallArg s 3 buffer = Some d' \<and>
        ctes s (hd excaps) = Some root \<and> lookupSourceSlot s (cte_cap root) i' d' = Some (Inr src) \<and> ctes s src = Some c \<and> cte_cap c \<noteq> NullCap \<and>
        cnode_new_cap label len buffer src (cte_cap c) s = Some (Inr (new, mv)) \<and> new \<noteq> NullCap)"

definition copy_outcome :: "word_t \<Rightarrow> word_t \<Rightarrow> cap \<Rightarrow> ptr \<Rightarrow> ptr list \<Rightarrow> kernel_state \<Rightarrow> ptr list set \<Rightarrow> exception \<times> kernel_state \<Rightarrow> bool" where
  "copy_outcome label len cap buffer excaps s L = (\<lambda>(r, s'). case r of
     EXCEPTION_NONE \<Rightarrow> \<exists>src dst new. copy_request label len cap buffer excaps s src dst new \<and> cnode_copied s L src dst new (CNodeMove \<le> label) s'
   | EXCEPTION_SYSCALL_ERROR e \<Rightarrow> s' = s \<and> (\<forall>src dst new. \<not> copy_request label len cap buffer excaps s src dst new)
   | _ \<Rightarrow> False)"

lemma copy_fail: "(\<And>src dst new. \<not> copy_request label len cap buffer excaps s src dst new) \<Longrightarrow> succeeds (syscall_fail e s) (copy_outcome label len cap buffer excaps s L)"
  by (simp add: syscall_fail_def copy_outcome_def)

text \<open>What happens once the destination is found and is empty.\<close>

lemma decodeCNode_copy_source:
  assumes v: "valid_mdb s L" "valid_cspace s" and cur: "tcbs s (ksCurThread s) \<noteq> None" and buf: "buffer \<noteq> 0"
    and l: "CNodeCopy \<le> label" "label \<le> CNodeMutate" "4 \<le> len" "excaps \<noteq> []" "ctes s (hd excaps) = Some root"
    and dst: "getSyscallArg s 0 buffer = Some i" "getSyscallArg s 1 buffer = Some d" "lookupTargetSlot s cap i d = Some (Inr dst)" "ctes s dst = Some dc" "cte_cap dc = NullCap"
  shows "succeeds (decodeCNode_copy label len dst buffer excaps s) (copy_outcome label len cap buffer excaps s L)"
proof -
  obtain i' d' where a: "getSyscallArg s 2 buffer = Some i'" "getSyscallArg s 3 buffer = Some d'" using getSyscallArg_ok[OF cur buf] by metis
  have rs: "cnode_slots s (cte_cap root)" using v(2) l(5) by (auto simp: valid_cspace_def)
  have l3: "\<not> len < 4" using l(3) by (simp add: not_less)
  consider e where "lookupSourceSlot s (cte_cap root) i' d' = Some (Inl e)" | src c where "lookupSourceSlot s (cte_cap root) i' d' = Some (Inr src)" "ctes s src = Some c"
    unfolding lookupSourceSlot_def by (rule cnode_lookup_ok[OF v(2) rs])
  then show ?thesis
  proof cases
    case (1 e)
    then show ?thesis using copy_fail dst l l3 a by (auto simp: decodeCNode_copy_def ensureEmptySlot_def copy_request_def)
  next
    case src: (2 src c)
    obtain r where r: "cnode_new_cap label len buffer src (cte_cap c) s = Some r" using cnode_new_cap_total[OF v(1) src(2) cur buf l(1,2)] by blast
    show ?thesis
    proof (cases "cte_cap c = NullCap \<or> (\<exists>e. r = Inl e) \<or> (\<exists>mv. r = Inr (NullCap, mv))")
      case True
      then have "\<not> copy_request label len cap buffer excaps s src' dst' new" for src' dst' new using a l r src dst by (auto simp: copy_request_def)
      from copy_fail[OF this] show ?thesis using True dst l l3 a src r by (auto simp: decodeCNode_copy_def ensureEmptySlot_def)
    next
      case False
      then obtain new mv where n: "r = Inr (new, mv)" "new \<noteq> NullCap" "cte_cap c \<noteq> NullCap" by (cases r) auto
      have vc: "valid_cnode_cap (cte_cap c)" using v(2) src(2) by (auto simp: valid_cspace_def cnode_slots_def)
      note w = cnode_new_cap_weaker[OF r[unfolded n(1)] n(2)]
      have rq: "copy_request label len cap buffer excaps s src dst new" unfolding copy_request_def using a l dst src r n by auto
      have eq: "decodeCNode_copy label len dst buffer excaps s =
        (if mv then invokeCNodeMove new src dst (restart_cur s) else invokeCNodeInsert new src dst (restart_cur s))"
        using dst l l3 a src r n setThreadState_restart_cur[OF cur] by (simp add: decodeCNode_copy_def ensureEmptySlot_def)
      have "succeeds (if mv then invokeCNodeMove new src dst (restart_cur s) else invokeCNodeInsert new src dst (restart_cur s))
        (\<lambda>(e, s'). e = EXCEPTION_NONE \<and> cnode_copied s L src dst new mv s')"
        using invokeCNodeMove_ok[OF v dst(4,5) src(2) n(3,2) w(1) w(3)[OF vc]] invokeCNodeInsert_ok[OF v dst(4,5) src(2) n(3,2) w(1) w(3)[OF vc]] by simp
      then show ?thesis unfolding eq by (rule succeeds_mono) (use rq w(2) in \<open>clarsimp simp: copy_outcome_def, blast\<close>)
    qed
  qed
qed

text \<open>
  C34. An invocation of a CNode that asks to copy, mint, move or mutate a capability always returns. If both slots can be looked up, the
  destination is empty, the source is not and there is a capability to hand on, then the destination gets a capability for the
  same object with no more rights and no other badge, a copy stands right after its source in the derivation tree and a moved capability takes
  the place of its source, which is emptied; no other capability and no object changes but the state of the calling
  thread. In every other case an error is reported and nothing changes.
\<close>

theorem cnode_copy:
  assumes v: "valid_mdb s L" "valid_cspace s" "cnode_slots s cap" and cur: "tcbs s (ksCurThread s) \<noteq> None" and buf: "buffer \<noteq> 0"
    and ex: "\<forall>x\<in>set excaps. ctes s x \<noteq> None" and l: "CNodeCopy \<le> label" "label \<le> CNodeMutate"
  shows "succeeds (decodeCNodeInvocation label len cap buffer excaps s) (copy_outcome label len cap buffer excaps s L)"
proof -
  obtain i d i' d' where a: "getSyscallArg s 0 buffer = Some i" "getSyscallArg s 1 buffer = Some d" "getSyscallArg s 2 buffer = Some i'" "getSyscallArg s 3 buffer = Some d'"
    using getSyscallArg_ok[OF cur buf] by metis
  have l': "\<not> (label < CNodeRevoke \<or> label > CNodeSaveCaller)" using l unfolding cnode_labels by (simp add: word_le_nat_alt word_less_nat_alt)
  consider e where "lookupTargetSlot s cap i d = Some (Inl e)" | dst dc where "lookupTargetSlot s cap i d = Some (Inr dst)" "ctes s dst = Some dc"
    unfolding lookupTargetSlot_def by (rule cnode_lookup_ok[OF v(2,3)])
  then show ?thesis
  proof cases
    case (1 e)
    then have "\<not> copy_request label len cap buffer excaps s src' dst' new" for src' dst' new using a by (auto simp: copy_request_def)
    from copy_fail[OF this] show ?thesis using 1 a l' by (simp add: decodeCNodeInvocation_def)
  next
    case (2 dst dc)
    have eq: "decodeCNodeInvocation label len cap buffer excaps s =
      (if len < 2 then syscall_fail (no_error seL4_TruncatedMessage) s else decodeCNode_copy label len dst buffer excaps s)"
      using 2(1) a l l' by (simp add: decodeCNodeInvocation_def)
    show ?thesis
    proof (cases "len < 4 \<or> excaps = [] \<or> cte_cap dc \<noteq> NullCap")
      case True
      then have "\<not> copy_request label len cap buffer excaps s src' dst' new" for src' dst' new using a 2 by (auto simp: copy_request_def)
      from copy_fail[OF this] show ?thesis unfolding eq using True 2 a ex by (cases excaps) (auto simp: decodeCNode_copy_def ensureEmptySlot_def)
    next
      case False
      then obtain root where root: "ctes s (hd excaps) = Some root" using ex by (cases excaps) auto
      have len: "4 \<le> len" "\<not> len < 2" using False by (auto simp: word_less_nat_alt word_le_nat_alt not_less)
      show ?thesis unfolding eq using decodeCNode_copy_source[OF v(1,2) cur buf l len(1) _ root a(1,2) 2] False len(2) by simp
    qed
  qed
qed

subsection \<open>A small system\<close>

text \<open>A CNode with four slots: itself, an endpoint capability, a copy with badge 7, and an empty slot; the thread asks for a copy with badge 9.\<close>

definition ex_cnode :: kernel_state where
  "ex_cnode = ex_kernel\<lparr>ctes := [0x8000 \<mapsto> \<lparr>cte_cap = CNodeCap 2 0 0 0x8000, cteMDBNode = nullMDBNode\<lparr>mdbRevocable := True\<rparr>\<rparr>,
       0x8020 \<mapsto> \<lparr>cte_cap = EndpointCap 0 True True True True 0x80000, cteMDBNode = \<lparr>mdbNext = 0x8040, mdbRevocable = True, mdbFirstBadged = True, mdbPrev = 0\<rparr>\<rparr>,
       0x8040 \<mapsto> \<lparr>cte_cap = EndpointCap 7 True True True False 0x80000, cteMDBNode = \<lparr>mdbNext = 0, mdbRevocable = True, mdbFirstBadged = True, mdbPrev = 0x8020\<rparr>\<rparr>,
       0x8060 \<mapsto> zero_cte],
     tcbs := (tcbs ex_kernel)(0x2000 := Some ((ex_thread ThreadState_Running 5)\<lparr>tcbContext := (\<lambda>_. 0)(2 := 3, 3 := 2, 4 := 1, 5 := 2)\<rparr>)),
     userMem := (\<lambda>_. 0)(0x20028 := 1, 0x20030 := 9)\<rparr>"

lemma ex_cnode_args:
  "getSyscallArg ex_cnode 0 0x20000 = Some 3" "getSyscallArg ex_cnode (Suc 0) 0x20000 = Some 2" "getSyscallArg ex_cnode 2 0x20000 = Some 1"
  "getSyscallArg ex_cnode 3 0x20000 = Some 2" "getSyscallArg ex_cnode 4 0x20000 = Some 1" "getSyscallArg ex_cnode 5 0x20000 = Some 9"
  by (simp_all add: getSyscallArg_def n_msgRegisters_def msgRegisters_def getRegister_def ex_cnode_def ex_kernel_def word_at_def push_bit_eq_mult)

lemma ex_cnode_chains: "valid_mdb ex_cnode {[0x8000], [0x8020, 0x8040]}"
  by (auto simp: valid_mdb_def is_chain_def ex_cnode_def mnext_def mprev_def nullMDBNode_def zero_cte_def split: if_splits)

lemma ex_cnode_cspace: "valid_cspace ex_cnode" "cnode_slots ex_cnode (CNodeCap 2 0 0 0x8000)"
proof -
  have "ctes ex_cnode (cte_at_index 0x8000 (of_nat i)) \<noteq> None" if "i < 4" for i :: nat
  proof -
    have "i = 0 \<or> i = 1 \<or> i = 2 \<or> i = 3" using that by arith
    then show ?thesis by (elim disjE) (simp_all add: ex_cnode_def cte_at_index_def push_bit_eq_mult)
  qed
  then show "cnode_slots ex_cnode (CNodeCap 2 0 0 0x8000)" by (auto simp: cnode_slots_def)
  then show "valid_cspace ex_cnode" by (auto simp: valid_cspace_def ex_cnode_def zero_cte_def cnode_slots_def split: if_splits)
qed

lemma ex_cnode_lookup: "i = 1 \<or> i = 3 \<Longrightarrow> lookupSlotForCNodeOp b ex_cnode (CNodeCap 2 0 0 0x8000) i 2 = Some (Inr (0x8000 + 0x20 * i))"
  by (simp add: lookupSlotForCNodeOp_def resolveAddressBits_def, subst resolve_loop.simps)
    (auto simp: Let_def MASKw_def MASK_def BIT_def push_bit_eq_mult drop_bit_eq_div wordRadix_def wordBits_def cte_at_index_def word_less_nat_alt)

theorem cnode_copy_witness:
  "\<exists>s'. decodeCNodeInvocation CNodeMint 6 (CNodeCap 2 0 0 0x8000) 0x20000 [0x8000] ex_cnode = Some (EXCEPTION_NONE, s') \<and>
    (\<exists>src dst new. cnode_copied ex_cnode {[0x8000], [0x8020, 0x8040]} src dst new False s')"
proof -
  let ?cap = "CNodeCap 2 0 0 0x8000" and ?L = "{[0x8000], [0x8020, 0x8040]}" and ?new = "EndpointCap 9 False False True False 0x80000"
  have l: "lookupTargetSlot ex_cnode ?cap 3 2 = Some (Inr 0x8060)" "lookupSourceSlot ex_cnode ?cap 1 2 = Some (Inr 0x8020)"
    using ex_cnode_lookup[of 3] ex_cnode_lookup[of 1] by (simp_all add: lookupTargetSlot_def lookupSourceSlot_def)
  obtain rt src where c: "ctes ex_cnode 0x8000 = Some rt" "cte_cap rt = ?cap" "ctes ex_cnode 0x8020 = Some src" "cte_cap src = EndpointCap 0 True True True True 0x80000"
    "map_option cte_cap (ctes ex_cnode 0x8060) = Some NullCap" by (simp add: ex_cnode_def zero_cte_def)
  have "cnode_new_cap CNodeMint 6 0x20000 0x8020 (EndpointCap 0 True True True True 0x80000) ex_cnode = Some (Inr (?new, False))"
    by (simp add: cnode_new_cap_def cnode_labels ex_cnode_args rightsFromWord_def deriveCap_def)
  then have rq: "copy_request CNodeMint 6 ?cap 0x20000 [0x8000] ex_cnode 0x8020 0x8060 ?new"
    unfolding copy_request_def using l c by (auto simp: ex_cnode_args word_le_nat_alt)
  have "succeeds (decodeCNodeInvocation CNodeMint 6 ?cap 0x20000 [0x8000] ex_cnode) (copy_outcome CNodeMint 6 ?cap 0x20000 [0x8000] ex_cnode ?L)"
    by (rule cnode_copy[OF ex_cnode_chains ex_cnode_cspace]) (simp_all add: ex_cnode_def ex_kernel_def cnode_labels word_le_nat_alt)
  then obtain e s' where r: "decodeCNodeInvocation CNodeMint 6 ?cap 0x20000 [0x8000] ex_cnode = Some (e, s')" "copy_outcome CNodeMint 6 ?cap 0x20000 [0x8000] ex_cnode ?L (e, s')"
    by (auto simp: succeeds_def)
  moreover have "e = EXCEPTION_NONE" using r(2) rq by (cases e) (auto simp: copy_outcome_def)
  moreover have "\<not> CNodeMove \<le> CNodeMint" by (simp add: cnode_labels)
  ultimately show ?thesis by (auto simp: copy_outcome_def)
qed

end
