(* ===== verification/KCNodeDelete.thy ===== *)
theory KCNodeDelete
  imports KCNodeInv
begin

unbundle bit_operations_syntax

text \<open>
  Deleting capabilities, revoking the copies of a capability, and taking a CNode apart.
\<close>

subsection \<open>Removing slots from the derivation tree\<close>

definition without :: "ptr set \<Rightarrow> ptr list set \<Rightarrow> ptr list set" where
  "without D L = filter (\<lambda>q. q \<notin> D) ` L - {[]}"

lemma without_without [simp]: "without E (without D L) = without (D \<union> E) L"
proof -
  have f: "filter (\<lambda>q. q \<notin> D \<union> E) xs = filter (\<lambda>q. q \<notin> E) (filter (\<lambda>q. q \<notin> D) xs)" for xs :: "ptr list"
    unfolding filter_filter by (rule filter_cong) auto
  have "filter (\<lambda>q. q \<notin> E) ` (M - {[]}) - {[]} = filter (\<lambda>q. q \<notin> E) ` M - {[]}" for M :: "ptr list set" by (auto simp: image_iff)
  then show ?thesis unfolding without_def f by (simp add: image_image)
qed

lemma without_empty: "valid_mdb s L \<Longrightarrow> without {} L = L"
  using valid_mdbD(1)[of s L "[]"] by (auto simp: without_def is_chain_def)

lemma remove_one:
  assumes v: "valid_mdb s L" and ch: "ys @ x # zs \<in> L"
  shows "(if ys @ zs = [] then L - {ys @ x # zs} else insert (ys @ zs) (L - {ys @ x # zs})) = without {x} L"
proof -
  note d = valid_mdbD[OF v]
  have x: "filter (\<lambda>q. q \<noteq> x) (ys @ x # zs) = ys @ zs" using d(1)[OF ch] by (auto simp: is_chain_def intro!: arg_cong2[of _ _ _ _ "(@)"] filter_True)
  have other: "filter (\<lambda>q. q \<noteq> x) xs = xs" "xs \<noteq> []" if "xs \<in> L" "xs \<noteq> ys @ x # zs" for xs
    using d(2)[OF ch that(1), of x] d(1)[OF that(1)] that(2) by (auto simp: is_chain_def filter_id_conv)
  have "filter (\<lambda>q. q \<notin> {x}) ` L = insert (ys @ zs) (L - {ys @ x # zs})"
  proof (intro set_eqI iffI)
    fix xs assume "xs \<in> filter (\<lambda>q. q \<notin> {x}) ` L"
    then obtain us where "us \<in> L" "xs = filter (\<lambda>q. q \<noteq> x) us" by auto
    then show "xs \<in> insert (ys @ zs) (L - {ys @ x # zs})" using x other[of us] by (cases "us = ys @ x # zs") auto
  next
    fix xs assume "xs \<in> insert (ys @ zs) (L - {ys @ x # zs})"
    then show "xs \<in> filter (\<lambda>q. q \<notin> {x}) ` L" using x ch other[of xs] by (auto simp: image_iff intro: bexI[of _ "ys @ x # zs"] bexI[of _ xs])
  qed
  moreover have "ys @ zs \<noteq> [] \<Longrightarrow> [] \<notin> insert (ys @ zs) (L - {ys @ x # zs})" "[] \<notin> L - {ys @ x # zs}" using other(2)[of "[]"] by auto
  ultimately show ?thesis by (auto simp: without_def)
qed

lemma emptySlot_ok:
  assumes v: "valid_mdb s L" and c: "ctes s x = Some c"
  shows "succeeds (emptySlot x NullCap s) (\<lambda>s'. valid_mdb s' (without {x} L) \<and> caps_frame {x} s s' \<and> map_option cte_cap (ctes s' x) = Some NullCap)"
proof (cases "cte_cap c = NullCap")
  case True
  have "filter (\<lambda>q. q \<noteq> x) xs = xs" if "xs \<in> L" for xs using valid_mdbD(6)[OF v c True that] by (auto simp: filter_id_conv)
  then have "without {x} L = without {} L" by (auto simp: without_def)
  then show ?thesis using c True v without_empty[OF v] by (simp add: emptySlot_def)
next
  case False
  then obtain xs where "xs \<in> L" "x \<in> set xs" using valid_mdbD(4)[OF v c] by blast
  then obtain ys zs where ch: "ys @ x # zs \<in> L" by (metis split_list)
  have i: "postCapDeletion NullCap = id" by (auto simp: postCapDeletion_def)
  show ?thesis using emptySlot_wp[OF v ch, of NullCap, unfolded remove_one[OF v ch]]
    by (rule succeeds_mono) (auto dest: emptySlot_frame[OF _ i])
qed

text \<open>The flags of the other slots; the slot after the removed one may become the first with its badge.\<close>

lemma flags_upd_mdb_nz:
  assumes "upd_mdb_nz p g s = Some s'" "\<And>n. mdbRevocable (g n) = mdbRevocable n \<and> mdbFirstBadged (g n) = mdbFirstBadged n"
  shows "map_option cte_flags (ctes s' q) = map_option cte_flags (ctes s q)"
  using assms by (auto simp: upd_mdb_nz_def upd_mdb_def upd_cte_def cte_flags_def split: option.splits if_splits)

lemma flags_upd_cte: "upd_cte p f s = Some s' \<Longrightarrow> q \<noteq> p \<Longrightarrow> ctes s' q = ctes s q"
  by (auto simp: upd_cte_def split: option.splits)

lemma emptySlot_flags:
  assumes e: "emptySlot x NullCap s = Some s'" and c: "ctes s x = Some c" and q: "q \<noteq> x"
  shows "map_option cte_flags (ctes s' q) = map_option (\<lambda>k. (cte_cap k, mdbRevocable (cteMDBNode k), mdbFirstBadged (cteMDBNode k) \<or>
     cte_cap c \<noteq> NullCap \<and> q = mnext c \<and> q \<noteq> 0 \<and> mdbFirstBadged (cteMDBNode c))) (ctes s q)"
proof (cases "cte_cap c = NullCap")
  case True
  then show ?thesis using e c by (auto simp: emptySlot_def cte_flags_def[abs_def])
next
  case False
  let ?fb = "\<lambda>n. n\<lparr>mdbFirstBadged := mdbFirstBadged n \<or> mdbFirstBadged (cteMDBNode c)\<rparr>"
  obtain s1 s2 s3 s4 where o: "upd_mdb_nz (mdbPrev (cteMDBNode c)) (\<lambda>n. n\<lparr>mdbNext := mnext c\<rparr>) s = Some s1"
    "upd_mdb_nz (mnext c) (\<lambda>n. n\<lparr>mdbPrev := mdbPrev (cteMDBNode c)\<rparr>) s1 = Some s2" "upd_mdb_nz (mnext c) ?fb s2 = Some s3"
    "set_cap x NullCap s3 = Some s4" "set_node x nullMDBNode s4 = Some s'"
    using e c False by (auto simp: emptySlot_def Let_def mnext_def postCapDeletion_def bind_eq_Some_conv)
  have "map_option cte_flags (ctes s2 q) = map_option cte_flags (ctes s q)" using flags_upd_mdb_nz[OF o(1), of q] flags_upd_mdb_nz[OF o(2), of q] by simp
  moreover have "ctes s' q = ctes s3 q" using flags_upd_cte[OF o(4)[unfolded set_cap_def] q] flags_upd_cte[OF o(5)[unfolded set_node_def] q] by simp
  moreover have "map_option cte_flags (ctes s3 q) = map_option (\<lambda>(a, b, f). (a, b, f \<or> q = mnext c \<and> q \<noteq> 0 \<and> mdbFirstBadged (cteMDBNode c))) (map_option cte_flags (ctes s2 q))"
    using o(3) by (cases "q = 0") (auto simp: upd_mdb_nz_def upd_mdb_def upd_cte_def cte_flags_def[abs_def] option.map_comp comp_def split: option.splits if_splits)
  ultimately show ?thesis using False by (simp add: option.map_comp comp_def cte_flags_def[abs_def])
qed

subsection \<open>Capabilities whose removal touches no object\<close>

text \<open>Kinds of capabilities that are removed at once unless they are the last of their object.\<close>

fun plain_cap :: "cap \<Rightarrow> bool" where
  "plain_cap (ArchCap _) = False"
| "plain_cap (ZombieCap _ _) = False"
| "plain_cap _ = True"

text \<open>Kinds of capabilities whose removal never has to do with an object.\<close>

fun inert_cap :: "cap \<Rightarrow> bool" where
  "inert_cap (UntypedCap _ _ _ _) = True"
| "inert_cap (ReplyCap _ _ _) = True"
| "inert_cap DomainCap = True"
| "inert_cap IRQControlCap = True"
| "inert_cap NullCap = True"
| "inert_cap _ = False"

lemma finaliseCap_plain: "plain_cap cap \<Longrightarrow> \<not> final \<or> inert_cap cap \<Longrightarrow> finaliseCap cap final False s = Some ((NullCap, NullCap), s)"
  by (cases cap) (auto simp: finaliseCap_def finaliseCap_immediate_def)

lemma cteDelete_plain:
  assumes "ctes s x = Some c" "plain_cap (cte_cap c)" "isFinalCapability s x = Some final" "\<not> final \<or> inert_cap (cte_cap c)"
  shows "cteDelete x exposed s = map_option (Pair EXCEPTION_NONE) (emptySlot x NullCap s)"
proof (cases "cte_cap c = NullCap")
  case True
  then show ?thesis using assms(1) by (simp add: cteDelete_def cteDelete_with_def finaliseSlot.simps[of x] emptySlot_def)
next
  case False
  then have "finaliseSlot x exposed s = Some (\<lparr>fs_status = EXCEPTION_NONE, fs_success = True, fs_cleanupInfo = NullCap\<rparr>, s)"
    using assms(1,3) finaliseCap_plain[OF assms(2,4), of s] by (subst finaliseSlot.simps) (simp add: capRemovable_def)
  then show ?thesis by (cases "emptySlot x NullCap s") (simp_all add: cteDelete_def cteDelete_with_def)
qed

lemma isFinalCapability_total: "valid_mdb s L \<Longrightarrow> ctes s x = Some c \<Longrightarrow> \<exists>b. isFinalCapability s x = Some b"
proof -
  assume v: "valid_mdb s L" and c: "ctes s x = Some c"
  have "\<exists>k. ctes s (mdbPrev (cteMDBNode c)) = Some k" if "mdbPrev (cteMDBNode c) \<noteq> 0" using valid_mdb_prev[OF v c] that by (metis mprev_def)
  moreover have "\<exists>k. ctes s (mdbNext (cteMDBNode c)) = Some k" if "mdbNext (cteMDBNode c) \<noteq> 0" using valid_mdb_next[OF v c] that by (metis mnext_def)
  ultimately have "isFinalCapability s x \<noteq> None" using c by (auto simp: isFinalCapability_def Let_def) blast+
  then show ?thesis by blast
qed

lemma cteDelete_inert:
  assumes v: "valid_mdb s L" and c: "ctes s x = Some c" "inert_cap (cte_cap c)"
  shows "cteDelete x exposed s = map_option (Pair EXCEPTION_NONE) (emptySlot x NullCap s)"
proof -
  obtain b where b: "isFinalCapability s x = Some b" using isFinalCapability_total[OF v c(1)] by blast
  have "plain_cap (cte_cap c)" using c(2) by (cases "cte_cap c") auto
  from cteDelete_plain[OF c(1) this b] show ?thesis using c(2) by simp
qed

text \<open>A capability next to another one of the same object is not the last.\<close>

lemma not_final:
  assumes v: "valid_mdb s L" and ch: "ys @ x # zs \<in> L" and ctg: "contiguous (ctes s) (ys @ x # zs)" and c: "ctes s x = Some c"
    and p: "p \<in> set ys \<and> sameObjectAs (cte_cap (the (ctes s p))) (cte_cap c) \<or> p \<in> set zs \<and> sameObjectAs (cte_cap c) (cte_cap (the (ctes s p)))"
  shows "isFinalCapability s x = Some False"
  using final_no_other[OF valid_mdbD(1)[OF v ch] c ctg] p by auto

subsection \<open>Revoking the copies of a capability\<close>

text \<open>Capabilities that stand for one object; what is derived from them stands for the same object.\<close>

fun object_cap :: "cap \<Rightarrow> bool" where
  "object_cap (EndpointCap _ _ _ _ _ _) = True"
| "object_cap (NotificationCap _ _ _ _) = True"
| "object_cap (ReplyCap _ _ _) = True"
| "object_cap (CNodeCap _ _ _ _) = True"
| "object_cap (ThreadCap _) = True"
| "object_cap (IRQHandlerCap _) = True"
| "object_cap DomainCap = True"
| "object_cap _ = False"

lemma child_of_object:
  assumes "object_cap (cte_cap c)" "isMDBParentOf c d"
  shows "sameObjectAs (cte_cap c) (cte_cap d)" "plain_cap (cte_cap d)" "cte_cap d \<noteq> NullCap"
  using assms by (cases "cte_cap c"; cases "cte_cap d"; simp add: isMDBParentOf_def sameRegionAs_def sameObjectAs_def split: if_splits)+

text \<open>Which slots are children does not change when a child is removed.\<close>

lemma child_flags:
  assumes "object_cap (cte_cap c)" "isMDBParentOf c d" "cte_cap e' = cte_cap e"
    "mdbFirstBadged (cteMDBNode e') = mdbFirstBadged (cteMDBNode e) \<or> mdbFirstBadged (cteMDBNode e') = (mdbFirstBadged (cteMDBNode e) \<or> mdbFirstBadged (cteMDBNode d))"
    "cte_cap c' = cte_cap c" "mdbRevocable (cteMDBNode c') = mdbRevocable (cteMDBNode c)"
  shows "isMDBParentOf c' e' = isMDBParentOf c e"
  using assms by (cases "cte_cap c") (auto simp: isMDBParentOf_def split: if_splits)

text \<open>All but the capabilities in the slots \<open>D\<close>, the links and what a preemption point counts is the same.\<close>

definition node_frame :: "ptr set \<Rightarrow> kernel_state \<Rightarrow> kernel_state \<Rightarrow> bool" where
  "node_frame D s s' \<longleftrightarrow> s'\<lparr>ctes := ctes s, ksWorkUnitsCompleted := ksWorkUnitsCompleted s, irqPolls := irqPolls s\<rparr> = s \<and>
     (\<forall>q. ctes s' q = None \<longleftrightarrow> ctes s q = None) \<and> (\<forall>q. q \<notin> D \<longrightarrow> map_option cte_cap (ctes s' q) = map_option cte_cap (ctes s q))"

lemma node_frame_caps: "caps_frame D s s' \<Longrightarrow> node_frame D s (s'\<lparr>ksWorkUnitsCompleted := n, irqPolls := ps\<rparr>)"
proof -
  assume f: "caps_frame D s s'"
  have "(s'\<lparr>ksWorkUnitsCompleted := n, irqPolls := ps\<rparr>)\<lparr>ctes := ctes s, ksWorkUnitsCompleted := ksWorkUnitsCompleted s, irqPolls := irqPolls s\<rparr> =
    (s'\<lparr>ctes := ctes s\<rparr>)\<lparr>ksWorkUnitsCompleted := ksWorkUnitsCompleted s, irqPolls := irqPolls s\<rparr>" by simp
  also have "\<dots> = s" using f by (simp add: caps_frame_def)
  finally show ?thesis using f by (simp add: node_frame_def caps_frame_def)
qed

lemma caps_node_frame: "caps_frame D s s' \<Longrightarrow> node_frame D s s'"
  using node_frame_caps[of D s s' "irqPolls s'" "ksWorkUnitsCompleted s'"] by simp

lemma node_frame_trans: "node_frame D s s1 \<Longrightarrow> node_frame E s1 s2 \<Longrightarrow> node_frame (D \<union> E) s s2"
proof -
  assume a: "node_frame D s s1" "node_frame E s1 s2"
  have "s2\<lparr>ctes := ctes s, ksWorkUnitsCompleted := ksWorkUnitsCompleted s, irqPolls := irqPolls s\<rparr> =
    (s2\<lparr>ctes := ctes s1, ksWorkUnitsCompleted := ksWorkUnitsCompleted s1, irqPolls := irqPolls s1\<rparr>)
      \<lparr>ctes := ctes s, ksWorkUnitsCompleted := ksWorkUnitsCompleted s, irqPolls := irqPolls s\<rparr>" by simp
  also have "\<dots> = s" using a by (simp add: node_frame_def)
  finally show ?thesis using a by (simp add: node_frame_def)
qed

lemma valid_mdb_polled [simp]: "valid_mdb (s\<lparr>ksWorkUnitsCompleted := n, irqPolls := ps\<rparr>) L = valid_mdb s L"
  by (rule valid_mdb_ctes) simp

lemma flags_same: "map_option cte_flags x = Some (a, b, f) \<longleftrightarrow> (\<exists>k. x = Some k \<and> cte_cap k = a \<and> mdbRevocable (cteMDBNode k) = b \<and> mdbFirstBadged (cteMDBNode k) = f)"
  by (cases x) (auto simp: cte_flags_def)

text \<open>One round: the first child is removed, the others stay children.\<close>

lemma revoke_round:
  assumes v: "valid_mdb s L" and ch: "ys @ slot # d # zs \<in> L" and c: "ctes s slot = Some c" "object_cap (cte_cap c)" and d: "ctes s d = Some dc" "isMDBParentOf c dc"
  shows "succeeds (cteDelete d True s) (\<lambda>(e, s'). e = EXCEPTION_NONE \<and> valid_mdb s' (without {d} L) \<and> caps_frame {d} s s' \<and> ys @ slot # zs \<in> without {d} L \<and>
     map_option cte_cap (ctes s' d) = Some NullCap \<and> (\<exists>c'. ctes s' slot = Some c' \<and> cte_cap c' = cte_cap c \<and>
     (\<forall>q k k'. q \<noteq> d \<longrightarrow> ctes s q = Some k \<longrightarrow> ctes s' q = Some k' \<longrightarrow> isMDBParentOf c' k' = isMDBParentOf c k)))"
proof -
  have dist: "distinct (ys @ slot # d # zs)" using valid_mdbD(1)[OF v ch] by (simp add: is_chain_def)
  note ch' = valid_mdbD(1)[OF v ch]
  have ch2: "is_chain (ctes s) ((ys @ [slot]) @ d # zs)" using ch' by simp
  have "isFinalCapability s d = Some False" using isFinalCapability_eq[OF ch2 d(1)] child_of_object(1)[OF c(2) d(2)] c(1) by simp
  from cteDelete_plain[OF d(1) child_of_object(2)[OF c(2) d(2)] this]
  have e: "cteDelete d True s = map_option (Pair EXCEPTION_NONE) (emptySlot d NullCap s)" by simp
  have "filter (\<lambda>q. q \<notin> {d}) (ys @ slot # d # zs) = ys @ slot # zs" using dist by (auto intro!: filter_True arg_cong2[of _ _ _ _ "(@)"])
  then have in_w: "ys @ slot # zs \<in> without {d} L" unfolding without_def using ch by (force simp: image_iff)
  show ?thesis unfolding e succeeds_map
  proof (rule succeeds_mono[OF emptySlot_ok[OF v d(1)]])
    fix s' assume r: "emptySlot d NullCap s = Some s'" and ok: "valid_mdb s' (without {d} L) \<and> caps_frame {d} s s' \<and> map_option cte_cap (ctes s' d) = Some NullCap"
    have fl: "map_option cte_flags (ctes s' q) = Some (cte_cap k, mdbRevocable (cteMDBNode k), mdbFirstBadged (cteMDBNode k) \<or>
       cte_cap dc \<noteq> NullCap \<and> q = mnext dc \<and> q \<noteq> 0 \<and> mdbFirstBadged (cteMDBNode dc))" if "q \<noteq> d" "ctes s q = Some k" for q k
      using emptySlot_flags[OF r d(1) that(1)] that(2) by simp
    obtain c' where c': "ctes s' slot = Some c'" "cte_cap c' = cte_cap c" "mdbRevocable (cteMDBNode c') = mdbRevocable (cteMDBNode c)"
      using fl[OF _ c(1)] dist unfolding flags_same by auto
    have "isMDBParentOf c' k' = isMDBParentOf c k" if "q \<noteq> d" "ctes s q = Some k" "ctes s' q = Some k'" for q k k'
      by (rule child_flags[OF c(2) d(2) _ _ c'(2,3)]) (use fl[OF that(1,2)] that(3) in \<open>auto simp: cte_flags_def\<close>)
    then show "case (EXCEPTION_NONE, s') of (e, s') \<Rightarrow> e = EXCEPTION_NONE \<and> valid_mdb s' (without {d} L) \<and> caps_frame {d} s s' \<and> ys @ slot # zs \<in> without {d} L \<and>
     map_option cte_cap (ctes s' d) = Some NullCap \<and> (\<exists>c'. ctes s' slot = Some c' \<and> cte_cap c' = cte_cap c \<and>
     (\<forall>q k k'. q \<noteq> d \<longrightarrow> ctes s q = Some k \<longrightarrow> ctes s' q = Some k' \<longrightarrow> isMDBParentOf c' k' = isMDBParentOf c k))"
      using ok c' in_w by auto
  qed
qed

lemma cteRevoke_loop:
  assumes "valid_mdb s L" "ys @ slot # ds @ zs \<in> L" "ctes s slot = Some c" "object_cap (cte_cap c)" "\<forall>d\<in>set ds. isMDBParentOf c (the (ctes s d))"
    "zs = [] \<or> \<not> isMDBParentOf c (the (ctes s (hd zs)))"
  shows "succeeds (cteRevoke slot s) (\<lambda>(e, s'). \<exists>n\<le>length ds. valid_mdb s' (without (set (take n ds)) L) \<and> node_frame (set (take n ds)) s s' \<and>
     (\<forall>q\<in>set (take n ds). map_option cte_cap (ctes s' q) = Some NullCap) \<and>
     (e = EXCEPTION_NONE \<and> n = length ds \<and> ensureNoChildren s' slot = Some (Inr ()) \<or> e = EXCEPTION_PREEMPTED \<and> 0 < n))" (is "succeeds _ (?P ds L s)")
  using assms
proof (induction ds arbitrary: s L c)
  case Nil
  note nx = chain_neighbours(2)[OF valid_mdbD(1)[OF Nil.prems(1)], of ys slot "zs" c]
  have n0: "mdbNext (cteMDBNode c) = hd (zs @ [0])" using nx Nil.prems(2,3) by (simp add: mnext_def)
  have k: "\<exists>k. ctes s (hd zs) = Some k" if "zs \<noteq> []" using valid_mdbD(3)[OF Nil.prems(1,2), of "hd zs"] that by fastforce
  then have k0: "hd zs \<noteq> 0" if "zs \<noteq> []" using valid_mdbD(7)[OF Nil.prems(1)] that by force
  have "cteRevoke slot s = Some (EXCEPTION_NONE, s) \<and> ensureNoChildren s slot = Some (Inr ())"
    using n0 k k0 Nil.prems(3,6) by (cases zs) (auto simp: cteRevoke.simps[of slot s] ensureNoChildren_def)
  then show ?case using without_empty[OF Nil.prems(1)] Nil.prems(1) by (simp add: caps_node_frame)
next
  case (Cons d ds)
  have ch: "ys @ slot # d # (ds @ zs) \<in> L" using Cons.prems(2) by simp
  have dist: "distinct (ys @ slot # d # ds @ zs)" using valid_mdbD(1)[OF Cons.prems(1) ch] by (simp add: is_chain_def)
  have live: "\<exists>k. ctes s q = Some k" if "q \<in> set (d # ds @ zs)" for q using valid_mdbD(3)[OF Cons.prems(1) ch, of q] that by auto
  obtain dc where d: "ctes s d = Some dc" "isMDBParentOf c dc" using live[of d] Cons.prems(5) by auto
  have nd: "mdbNext (cteMDBNode c) = d" "d \<noteq> 0"
    using chain_neighbours(2)[OF valid_mdbD(1)[OF Cons.prems(1) ch] Cons.prems(3)] d(1) valid_mdbD(7)[OF Cons.prems(1)] by (auto simp: mnext_def)
  have eq: "cteRevoke slot s = do {
       (status, s) \<leftarrow> cteDelete d True s;
       if status \<noteq> EXCEPTION_NONE then Some (status, s)
       else let (status, s) = preemptionPoint s in if status \<noteq> EXCEPTION_NONE then Some (status, s) else cteRevoke slot s}"
    using Cons.prems(3) nd d by (subst cteRevoke.simps) simp
  show ?case unfolding eq succeeds_bind
  proof (rule succeeds_mono[OF revoke_round[OF Cons.prems(1) ch Cons.prems(3,4) d]])
    fix x assume "case x of (e, s1) \<Rightarrow> e = EXCEPTION_NONE \<and> valid_mdb s1 (without {d} L) \<and> caps_frame {d} s s1 \<and> ys @ slot # ds @ zs \<in> without {d} L \<and>
     map_option cte_cap (ctes s1 d) = Some NullCap \<and> (\<exists>c'. ctes s1 slot = Some c' \<and> cte_cap c' = cte_cap c \<and>
     (\<forall>q k k'. q \<noteq> d \<longrightarrow> ctes s q = Some k \<longrightarrow> ctes s1 q = Some k' \<longrightarrow> isMDBParentOf c' k' = isMDBParentOf c k))"
    then obtain s1 c1 where x: "x = (EXCEPTION_NONE, s1)" and r: "valid_mdb s1 (without {d} L)" "caps_frame {d} s s1" "ys @ slot # ds @ zs \<in> without {d} L" "map_option cte_cap (ctes s1 d) = Some NullCap"
      "ctes s1 slot = Some c1" "cte_cap c1 = cte_cap c" and par: "\<forall>q k k'. q \<noteq> d \<longrightarrow> ctes s q = Some k \<longrightarrow> ctes s1 q = Some k' \<longrightarrow> isMDBParentOf c1 k' = isMDBParentOf c k" by auto
    obtain e n ps where pp: "preemptionPoint s1 = (e, s1\<lparr>ksWorkUnitsCompleted := n, irqPolls := ps\<rparr>)" "e = EXCEPTION_NONE \<or> e = EXCEPTION_PREEMPTED"
      by (rule preemptionPoint_effect)
    let ?s1 = "s1\<lparr>ksWorkUnitsCompleted := n, irqPolls := ps\<rparr>"
    have fr: "node_frame {d} s ?s1" by (rule node_frame_caps[OF r(2)])
    show "succeeds (case x of (status, s1) \<Rightarrow> if status \<noteq> EXCEPTION_NONE then Some (status, s1)
       else let (status, s) = preemptionPoint s1 in if status \<noteq> EXCEPTION_NONE then Some (status, s) else cteRevoke slot s) (?P (d # ds) L s)"
    proof (cases "e = EXCEPTION_NONE")
      case False
      then show ?thesis using x pp fr r(1,4) by (auto intro!: exI[of _ 1])
    next
      case True
      have p1: "isMDBParentOf c1 (the (ctes s1 q)) = isMDBParentOf c (the (ctes s q))" if q: "q \<in> set (ds @ zs)" for q
      proof -
        obtain k where "ctes s q = Some k" using live[of q] q by auto
        moreover have "ctes s1 q \<noteq> None" using r(2) calculation by (simp add: caps_frame_def)
        ultimately show ?thesis using par dist q by auto
      qed
      have "succeeds (cteRevoke slot ?s1) (?P ds (without {d} L) ?s1)"
        by (rule Cons.IH[of _ _ c1]) (use r p1 Cons.prems in auto)
      then have "succeeds (cteRevoke slot ?s1) (?P (d # ds) L s)"
      proof (rule succeeds_mono)
        fix x assume "?P ds (without {d} L) ?s1 x"
        then obtain e' s' m where x: "x = (e', s')" and m: "m \<le> length ds" "valid_mdb s' (without (set (take m ds)) (without {d} L))" "node_frame (set (take m ds)) ?s1 s'"
          "\<forall>q\<in>set (take m ds). map_option cte_cap (ctes s' q) = Some NullCap"
          and o: "e' = EXCEPTION_NONE \<and> m = length ds \<and> ensureNoChildren s' slot = Some (Inr ()) \<or> e' = EXCEPTION_PREEMPTED \<and> 0 < m" by (cases x) auto
        have "node_frame (set (take (Suc m) (d # ds))) s s'" using node_frame_trans[OF fr m(3)] by simp
        moreover have "map_option cte_cap (ctes s' d) = Some NullCap" using m(3) r(4) dist by (auto simp: node_frame_def dest: in_set_takeD)
        ultimately show "?P (d # ds) L s x" unfolding x using m o by (auto intro!: exI[of _ "Suc m"])
      qed
      then show ?thesis using x True pp by simp
    qed
  qed
qed

subsection \<open>Objects with contiguous capabilities\<close>

text \<open>Contiguity in terms of slots that follow each other, not necessarily directly.\<close>

lemma contiguous_iff: "contiguous m xs \<longleftrightarrow> (\<forall>us a vs b ws d ts. xs = us @ a # vs @ b # ws @ d # ts \<longrightarrow> sameObjectAs (cte_cap (the (m a))) (cte_cap (the (m d))) \<longrightarrow>
   sameObjectAs (cte_cap (the (m a))) (cte_cap (the (m b))) \<and> sameObjectAs (cte_cap (the (m b))) (cte_cap (the (m d))))" (is "_ \<longleftrightarrow> ?R")
proof
  assume c: "contiguous m xs"
  show ?R
  proof (intro allI impI)
    fix us a vs b ws d ts assume xs: "xs = us @ a # vs @ b # ws @ d # ts" and s: "sameObjectAs (cte_cap (the (m a))) (cte_cap (the (m d)))"
    let ?i = "length us" and ?j = "length us + Suc (length vs)" and ?k = "length us + Suc (length vs) + Suc (length ws)"
    have "xs ! ?i = a" "xs ! ?j = b" "xs ! ?k = d" "?i < ?j" "?j < ?k" "?k < length xs" using xs by (simp_all add: nth_append)
    then show "sameObjectAs (cte_cap (the (m a))) (cte_cap (the (m b))) \<and> sameObjectAs (cte_cap (the (m b))) (cte_cap (the (m d)))"
      using c[unfolded contiguous_def, rule_format, of ?i ?j ?k] s by metis
  qed
next
  assume r: ?R
  show "contiguous m xs" unfolding contiguous_def
  proof (intro allI impI, elim conjE)
    fix i j k assume a: "i < j" "j < k" "k < length xs" and s: "sameObjectAs (cte_cap (the (m (xs ! i)))) (cte_cap (the (m (xs ! k))))"
    have "xs = take i xs @ xs ! i # drop (Suc i) xs" using a by (simp add: id_take_nth_drop)
    moreover have "drop (Suc i) xs = take (j - Suc i) (drop (Suc i) xs) @ xs ! j # drop (Suc j) xs"
      using id_take_nth_drop[of "j - Suc i" "drop (Suc i) xs"] a by (simp add: add.commute)
    moreover have "drop (Suc j) xs = take (k - Suc j) (drop (Suc j) xs) @ xs ! k # drop (Suc k) xs"
      using id_take_nth_drop[of "k - Suc j" "drop (Suc j) xs"] a by (simp add: add.commute)
    ultimately have "xs = take i xs @ xs ! i # take (j - Suc i) (drop (Suc i) xs) @ xs ! j # take (k - Suc j) (drop (Suc j) xs) @ xs ! k # drop (Suc k) xs" by simp
    from r[rule_format, OF this s] show "sameObjectAs (cte_cap (the (m (xs ! i)))) (cte_cap (the (m (xs ! j)))) \<and> sameObjectAs (cte_cap (the (m (xs ! j)))) (cte_cap (the (m (xs ! k))))" .
  qed
qed

lemma filter_split: "filter P xs = us @ a # vs \<Longrightarrow> \<exists>us' vs'. xs = us' @ a # vs' \<and> filter P vs' = vs"
proof (induction us arbitrary: xs)
  case Nil
  then show ?case using filter_eq_ConsD by fastforce
next
  case (Cons u us)
  then obtain ps qs where "xs = ps @ u # qs" "filter P qs = us @ a # vs" using filter_eq_ConsD[of P xs u "us @ a # vs"] by auto
  then show ?case using Cons.IH[of qs] by (metis append.assoc append_Cons)
qed

lemma contiguous_filter:
  assumes "contiguous m xs" "\<And>q. q \<in> set xs \<Longrightarrow> P q \<Longrightarrow> map_option cte_cap (m' q) = map_option cte_cap (m q) \<and> m q \<noteq> None"
  shows "contiguous m' (filter P xs)"
  unfolding contiguous_iff
proof (intro allI impI)
  fix us a vs b ws d ts assume f: "filter P xs = us @ a # vs @ b # ws @ d # ts" and s: "sameObjectAs (cte_cap (the (m' a))) (cte_cap (the (m' d)))"
  obtain us1 r1 where 1: "xs = us1 @ a # r1" "filter P r1 = vs @ b # ws @ d # ts" using filter_split[OF f] by blast
  obtain vs1 r2 where 2: "r1 = vs1 @ b # r2" "filter P r2 = ws @ d # ts" using filter_split[OF 1(2)] by blast
  obtain ws1 ts1 where 3: "r2 = ws1 @ d # ts1" using filter_split[OF 2(2)] by blast
  have "a \<in> set (filter P xs)" "b \<in> set (filter P xs)" "d \<in> set (filter P xs)" unfolding f by auto
  then have "the (m' q) \<in> {c. cte_cap c = cte_cap (the (m q))}" if "q \<in> {a, b, d}" for q using assms(2)[of q] that by (cases "m q"; cases "m' q") auto
  then have e: "cte_cap (the (m' a)) = cte_cap (the (m a))" "cte_cap (the (m' b)) = cte_cap (the (m b))" "cte_cap (the (m' d)) = cte_cap (the (m d))" by auto
  have "xs = us1 @ a # vs1 @ b # ws1 @ d # ts1" using 1 2 3 by simp
  from assms(1)[unfolded contiguous_iff, rule_format, OF this] s
  show "sameObjectAs (cte_cap (the (m' a))) (cte_cap (the (m' b))) \<and> sameObjectAs (cte_cap (the (m' b))) (cte_cap (the (m' d)))" unfolding e by blast
qed

definition contiguous_all :: "kernel_state \<Rightarrow> ptr list set \<Rightarrow> bool" where
  "contiguous_all s L \<longleftrightarrow> (\<forall>xs\<in>L. contiguous (ctes s) xs)"

lemma contiguous_all_without:
  assumes "contiguous_all s L" "valid_mdb s L" "\<And>q. q \<notin> D \<Longrightarrow> map_option cte_cap (ctes s' q) = map_option cte_cap (ctes s q)"
  shows "contiguous_all s' (without D L)"
  unfolding contiguous_all_def
proof
  fix xs assume "xs \<in> without D L"
  then obtain us where u: "us \<in> L" "xs = filter (\<lambda>q. q \<notin> D) us" by (auto simp: without_def)
  have "ctes s q \<noteq> None" if "q \<in> set us" for q using valid_mdbD(3)[OF assms(2) u(1) that] by auto
  then show "contiguous (ctes s') xs" unfolding u(2) using assms(1,3) u(1) by (intro contiguous_filter) (auto simp: contiguous_all_def)
qed

lemma sameObject_zombie [simp]: "\<not> sameObjectAs (ZombieCap z t) c" "\<not> sameObjectAs c (ZombieCap z t)"
  by (cases c; simp add: sameObjectAs_def sameRegionAs_def)+

text \<open>Making the last capability of an object a zombie.\<close>

lemma contiguous_zombie:
  assumes ctg: "contiguous_all s L" and v: "valid_mdb s L" and x: "ctes s x = Some c" "isFinalCapability s x = Some True"
    and s': "set_cap x (ZombieCap z t) s = Some s'"
  shows "contiguous_all s' L"
  unfolding contiguous_all_def contiguous_iff
proof (intro ballI allI impI)
  fix xs us a vs b ws d ts assume xs: "xs \<in> L" "xs = us @ a # vs @ b # ws @ d # ts"
    and s: "sameObjectAs (cte_cap (the (ctes s' a))) (cte_cap (the (ctes s' d)))"
  have e: "ctes s' = (ctes s)(x := Some (c\<lparr>cte_cap := ZombieCap z t\<rparr>))" using s' x(1) by (auto simp: set_cap_def upd_cte_def)
  have ad: "a \<noteq> x" "d \<noteq> x" using s by (auto simp: e)
  then have s0: "sameObjectAs (cte_cap (the (ctes s a))) (cte_cap (the (ctes s d)))" using s by (simp add: e)
  have cx: "contiguous (ctes s) xs" using ctg xs(1) by (simp add: contiguous_all_def)
  have same: "sameObjectAs (cte_cap (the (ctes s a))) (cte_cap (the (ctes s b)))" "sameObjectAs (cte_cap (the (ctes s b))) (cte_cap (the (ctes s d)))"
    using cx[unfolded contiguous_iff, rule_format, OF xs(2) s0] by auto
  have "b \<noteq> x"
  proof
    assume "b = x"
    then have "(us @ a # vs) @ x # (ws @ d # ts) \<in> L" "contiguous (ctes s) ((us @ a # vs) @ x # (ws @ d # ts))" using xs cx by simp_all
    from not_final[OF v this x(1), of a] show False using same(1) x \<open>b = x\<close> by simp
  qed
  then show "sameObjectAs (cte_cap (the (ctes s' a))) (cte_cap (the (ctes s' b))) \<and> sameObjectAs (cte_cap (the (ctes s' b))) (cte_cap (the (ctes s' d)))"
    using same ad by (simp add: e)
qed

lemma contiguous_renumber:
  assumes "contiguous_all s L" "ctes s x = Some c" "cte_cap c = ZombieCap z t" "set_cap x (ZombieCap z' t') s = Some s'"
  shows "contiguous_all s' L"
proof -
  have e: "ctes s' = (ctes s)(x := Some (c\<lparr>cte_cap := ZombieCap z' t'\<rparr>))" using assms(2,4) by (auto simp: set_cap_def upd_cte_def)
  have eq: "sameObjectAs (cte_cap (the (ctes s' p))) (cte_cap (the (ctes s' q))) = sameObjectAs (cte_cap (the (ctes s p))) (cte_cap (the (ctes s q)))" for p q
    using assms(2,3) by (simp add: e)
  show ?thesis using assms(1) unfolding contiguous_all_def contiguous_def eq .
qed

subsection \<open>Taking a CNode apart\<close>

definition node_slot :: "ptr \<Rightarrow> nat \<Rightarrow> ptr" where
  "node_slot p i = cte_at_index p (of_nat i)"

lemma node_slot_inj: "i < 2 ^ 59 \<Longrightarrow> j < 2 ^ 59 \<Longrightarrow> node_slot p i = node_slot p j \<Longrightarrow> i = j"
proof -
  assume a: "i < 2 ^ 59" "j < 2 ^ 59" "node_slot p i = node_slot p j"
  then have "of_nat (32 * i) = (of_nat (32 * j) :: word_t)" by (simp add: node_slot_def cte_at_index_def push_bit_eq_mult mult.commute)
  then have "unat (of_nat (32 * i) :: word_t) = unat (of_nat (32 * j) :: word_t)" by (rule arg_cong)
  then have "32 * i = 32 * j" using a(1,2) unfolding unat_of_nat by simp
  then show "i = j" by simp
qed

text \<open>
  A slot outside of the objects being taken apart: its removal does not touch an object, because there is a capability of the
  same object in a slot not in \<open>X\<close>.
\<close>

definition held :: "kernel_state \<Rightarrow> ptr list set \<Rightarrow> ptr set \<Rightarrow> ptr \<Rightarrow> bool" where
  "held s L X q \<longleftrightarrow> (\<exists>c. ctes s q = Some c \<and> (inert_cap (cte_cap c) \<or>
     object_cap (cte_cap c) \<and> (\<exists>xs\<in>L. \<exists>q'\<in>set xs. q \<in> set xs \<and> q' \<notin> X \<and> sameObjectAs (cte_cap (the (ctes s q'))) (cte_cap c))))"

lemma sameObject_sym: "object_cap c \<Longrightarrow> sameObjectAs d c \<Longrightarrow> sameObjectAs c d"
  by (cases c; cases d) (auto simp: sameObjectAs_def sameRegionAs_def)

lemma object_plain: "object_cap c \<Longrightarrow> plain_cap c"
  by (cases c) auto

lemma cteDelete_held:
  assumes v: "valid_mdb s L" "contiguous_all s L" and h: "held s L X q" "q \<in> X"
  shows "succeeds (cteDelete q exposed s) (\<lambda>(e, s'). e = EXCEPTION_NONE \<and> valid_mdb s' (without {q} L) \<and> caps_frame {q} s s' \<and>
     map_option cte_cap (ctes s' q) = Some NullCap \<and> contiguous_all s' (without {q} L))"
proof -
  obtain c where c: "ctes s q = Some c" using h(1) by (auto simp: held_def)
  have e: "cteDelete q exposed s = map_option (Pair EXCEPTION_NONE) (emptySlot q NullCap s)"
  proof (cases "inert_cap (cte_cap c)")
    case False
    then obtain xs q' where o: "object_cap (cte_cap c)" "xs \<in> L" "q' \<in> set xs" "q \<in> set xs" "q' \<notin> X" "sameObjectAs (cte_cap (the (ctes s q'))) (cte_cap c)"
      using h(1) c by (auto simp: held_def)
    obtain ys zs where xs: "xs = ys @ q # zs" using o(4) by (metis split_list)
    have "q' \<in> set ys \<or> q' \<in> set zs" using o(3,5) h(2) xs by auto
    then have "isFinalCapability s q = Some False"
      using not_final[of s L ys q zs c q'] v o xs c sameObject_sym[OF o(1,6)] by (auto simp: contiguous_all_def)
    from cteDelete_plain[OF c object_plain[OF o(1)] this] show ?thesis by simp
  qed (rule cteDelete_inert[OF v(1) c])
  show ?thesis unfolding e succeeds_map
    by (rule succeeds_mono[OF emptySlot_ok[OF v(1) c]]) (use contiguous_all_without[OF v(2,1), of "{q}"] in \<open>simp add: caps_frame_def\<close>)
qed

lemma held_without:
  assumes h: "held s L X q" and q: "q \<notin> D" and D: "D \<subseteq> X" and cap: "\<And>q. q \<notin> D \<Longrightarrow> map_option cte_cap (ctes s' q) = map_option cte_cap (ctes s q)"
  shows "held s' (without D L) X q"
proof -
  obtain c where c: "ctes s q = Some c" using h by (auto simp: held_def)
  then obtain c' where c': "ctes s' q = Some c'" "cte_cap c' = cte_cap c" using cap[OF q] by auto
  show ?thesis
  proof (cases "inert_cap (cte_cap c)")
    case False
    then obtain xs q' where o: "object_cap (cte_cap c)" "xs \<in> L" "q' \<in> set xs" "q \<in> set xs" "q' \<notin> X" "sameObjectAs (cte_cap (the (ctes s q'))) (cte_cap c)"
      using h c by (auto simp: held_def)
    have q': "q' \<notin> D" using o(5) D by blast
    have "q \<in> set (filter (\<lambda>q. q \<notin> D) xs)" "q' \<in> set (filter (\<lambda>q. q \<notin> D) xs)" using o(3,4) q q' by auto
    moreover from this have "filter (\<lambda>q. q \<notin> D) xs \<in> without D L" unfolding without_def using o(2) by (metis DiffI empty_iff image_eqI list.set(1) singletonD)
    moreover have "cte_cap (the (ctes s' q')) = cte_cap (the (ctes s q'))" if "ctes s q' \<noteq> None" using cap[OF q'] that by (cases "ctes s' q'"; cases "ctes s q'") auto
    moreover have "ctes s' q' = None" if "ctes s q' = None" using cap[OF q'] that by simp
    ultimately show ?thesis unfolding held_def using o(1,5,6) c' by (metis (no_types, lifting))
  qed (use c' in \<open>auto simp: held_def\<close>)
qed

text \<open>
  The slot \<open>x\<close> holds a zombie for the CNode of \<open>2 ^ r\<close> slots at \<open>p\<close> of which the first \<open>n\<close> are left, and the capabilities in them can be
  removed.
\<close>

definition node_set :: "ptr \<Rightarrow> word_t \<Rightarrow> ptr set" where
  "node_set p r = node_slot p ` {..<2 ^ unat r}"

definition removable_node :: "kernel_state \<Rightarrow> ptr list set \<Rightarrow> ptr \<Rightarrow> ptr \<Rightarrow> word_t \<Rightarrow> nat \<Rightarrow> bool" where
  "removable_node s L x p r n \<longleftrightarrow> valid_mdb s L \<and> contiguous_all s L \<and> r < 59 \<and> p AND MASKw (r + 1) = 0 \<and> x \<notin> node_set p r \<and> n \<le> 2 ^ unat r \<and>
     (\<forall>i<n. held s L (insert x (node_set p r)) (node_slot p i)) \<and>
     (\<forall>i. n \<le> i \<and> i < 2 ^ unat r \<longrightarrow> map_option cte_cap (ctes s (node_slot p i)) = Some NullCap)"

definition node_zombie :: "kernel_state \<Rightarrow> ptr \<Rightarrow> ptr \<Rightarrow> word_t \<Rightarrow> nat \<Rightarrow> bool" where
  "node_zombie s x p r n \<longleftrightarrow> (\<exists>zid. map_option cte_cap (ctes s x) = Some (ZombieCap zid r) \<and>
     cap_zombie_cap_get_capZombiePtr zid r = p \<and> cap_zombie_cap_get_capZombieNumber zid r = of_nat n)"

lemma node_base: "p \<in> node_set p r"
  unfolding node_set_def by (rule image_eqI[of _ _ 0]) (simp_all add: node_slot_def cte_at_index_def)

lemma radix_facts:
  assumes "r < 59" "n \<le> 2 ^ unat r"
  shows "cap_zombie_cap_get_capZombieBits r = r" "r \<noteq> ZombieType_ZombieTCB" "unat (of_nat n :: word_t) = n" "(of_nat n :: word_t) \<le> BITw r" "n < 2 ^ 59"
proof -
  have r: "unat r < 59" using assms(1) by (simp add: word_less_nat_alt)
  show r64: "r \<noteq> ZombieType_ZombieTCB" using assms(1) by (auto simp: ZombieType_ZombieTCB_def BIT_def wordRadix_def)
  have "take_bit 6 (unat r) = unat r" using r by (intro take_bit_nat_eq_self) simp
  then have "unat (take_bit 6 r) = unat r" by (simp only: unsigned_take_bit_eq)
  then show "cap_zombie_cap_get_capZombieBits r = r"
    using r64 by (simp add: cap_zombie_cap_get_capZombieBits_def ZombieType_ZombieCNode_def MASK_mask take_bit_eq_mask[symmetric] word_unat_eq_iff wordRadix_def)
  have "(2::nat) ^ unat r < 2 ^ 59" using r by (intro power_strict_increasing) simp_all
  then show n: "n < 2 ^ 59" using assms(2) by linarith
  then show u: "unat (of_nat n :: word_t) = n" by (simp add: unat_of_nat)
  have "unat (BITw r) = 2 ^ unat r" by (rule unat_BITw) (use r in \<open>simp add: word_less_nat_alt\<close>)
  then show "(of_nat n :: word_t) \<le> BITw r" unfolding word_le_nat_alt u using assms(2) by simp
qed

text \<open>Storing a zombie with another number of slots.\<close>

lemma zombie_number:
  assumes "r < 59" "n \<le> 2 ^ unat r" "p AND MASKw (r + 1) = 0" "cap_zombie_cap_get_capZombiePtr zid r = p"
  obtains zid' where "cap_zombie_cap_set_capZombieNumber zid r (of_nat n) = ZombieCap zid' r" "cap_zombie_cap_get_capZombiePtr zid' r = p"
    "cap_zombie_cap_get_capZombieNumber zid' r = of_nat n"
proof -
  note f = radix_facts[OF assms(1,2)]
  have s: "(of_nat n :: word_t) AND MASKw (r + 1) = of_nat n" using f(4) assms(1) by (intro small_and_mask) (auto simp: word_less_nat_alt)
  have pp: "zid AND NOT (MASKw (r + 1)) = p" "p AND NOT (MASKw (r + 1)) = p"
    using assms(4) f(1) by (auto simp: cap_zombie_cap_get_capZombiePtr_def)
  note s' = and_or_split[OF assms(3) s, unfolded pp(2) s]
  show thesis
    by (rule that[of "p OR of_nat n"])
      (use f(1) pp s s' in \<open>simp_all add: cap_zombie_cap_set_capZombieNumber_def cap_zombie_cap_get_capZombiePtr_def cap_zombie_cap_get_capZombieNumber_def\<close>)
qed

lemma removable_frame:
  assumes "removable_node s L x p r n" "valid_mdb s' L" "contiguous_all s' L" "caps_frame {x} s s'"
  shows "removable_node s' L x p r n"
proof -
  let ?X = "insert x (node_set p r)"
  have sl: "node_slot p i \<in> node_set p r" if "i < 2 ^ unat r" for i using that by (simp add: node_set_def)
  have same: "map_option cte_cap (ctes s' q) = map_option cte_cap (ctes s q)" if "q \<notin> {x}" for q using assms(4) that by (simp add: caps_frame_def)
  have "held s' L ?X (node_slot p i)" if i: "i < n" for i
  proof -
    have h: "held s L ?X (node_slot p i)" and nx: "node_slot p i \<noteq> x" using assms(1) i sl[of i] by (auto simp: removable_node_def)
    obtain c where c: "ctes s (node_slot p i) = Some c" using h by (auto simp: held_def)
    then obtain c' where c': "ctes s' (node_slot p i) = Some c'" "cte_cap c' = cte_cap c" using same[of "node_slot p i"] nx by auto
    have "cte_cap (the (ctes s' q)) = cte_cap (the (ctes s q)) \<or> ctes s q = None \<and> ctes s' q = None" if "q \<notin> ?X" for q
      using same[of q] that by (cases "ctes s q"; cases "ctes s' q") auto
    then show ?thesis using h c c' unfolding held_def by (metis (no_types, lifting) option.inject)
  qed
  moreover have "map_option cte_cap (ctes s' (node_slot p i)) = Some NullCap" if "n \<le> i" "i < 2 ^ unat r" for i
  proof -
    have "node_slot p i \<notin> {x}" using assms(1) sl[OF that(2)] by (auto simp: removable_node_def)
    moreover have "map_option cte_cap (ctes s (node_slot p i)) = Some NullCap" using assms(1) that unfolding removable_node_def by blast
    ultimately show ?thesis using same by metis
  qed
  ultimately show ?thesis using assms(1-3) by (simp add: removable_node_def)
qed

text \<open>One step: the last of the remaining slots is emptied and the zombie counts one less.\<close>

lemma reduceZombie_step:
  assumes n: "removable_node s L x p r (Suc n)" and z: "node_zombie s x p r (Suc n)"
  shows "succeeds (reduceZombie x True s) (\<lambda>(e, s'). e = EXCEPTION_NONE \<and> removable_node s' (without {node_slot p n} L) x p r n \<and> node_zombie s' x p r n \<and>
     caps_frame (insert x (node_set p r)) s s')"
proof -
  let ?X = "insert x (node_set p r)" and ?q = "node_slot p n"
  have v: "valid_mdb s L" "contiguous_all s L" "r < 59" "p AND MASKw (r + 1) = 0" "x \<notin> node_set p r" "Suc n \<le> 2 ^ unat r"
    and h: "held s L ?X (node_slot p i)" if "i < Suc n" for i using n that by (auto simp: removable_node_def)
  note v = v[of 0, simplified]
  note f = radix_facts[OF v(3,6)] and f' = radix_facts[OF v(3), of n]
  have q: "?q \<in> node_set p r" "?q \<noteq> x" using v(5,6) by (auto simp: node_set_def)
  obtain c zid where c: "ctes s x = Some c" "cte_cap c = ZombieCap zid r" and zp: "cap_zombie_cap_get_capZombiePtr zid r = p"
    and zn: "cap_zombie_cap_get_capZombieNumber zid r = of_nat (Suc n)" using z by (auto simp: node_zombie_def)
  obtain zid' where z': "cap_zombie_cap_set_capZombieNumber zid r (of_nat n) = ZombieCap zid' r" "cap_zombie_cap_get_capZombiePtr zid' r = p"
    "cap_zombie_cap_get_capZombieNumber zid' r = of_nat n" using zombie_number[OF v(3) _ v(4) zp, of n] v(6) by auto
  have pos: "0 < (of_nat (Suc n) :: word_t)" using f(3) unfolding word_less_nat_alt by simp
  have en: "cte_at_index p (of_nat (Suc n) - 1) = ?q" by (simp add: node_slot_def)
  have d: "succeeds (cteDelete ?q False s) (\<lambda>(e, s'). e = EXCEPTION_NONE \<and> valid_mdb s' (without {?q} L) \<and> caps_frame {?q} s s' \<and>
     map_option cte_cap (ctes s' ?q) = Some NullCap \<and> contiguous_all s' (without {?q} L))"
    by (rule cteDelete_held[OF v(1,2) h[of n]]) (use q in simp_all)
  then obtain s1 where s1: "cteDelete ?q False s = Some (EXCEPTION_NONE, s1)" and ok: "valid_mdb s1 (without {?q} L)" "caps_frame {?q} s s1"
    "map_option cte_cap (ctes s1 ?q) = Some NullCap" "contiguous_all s1 (without {?q} L)" by (auto simp: succeeds_def)
  obtain c1 where c1: "ctes s1 x = Some c1" "cte_cap c1 = ZombieCap zid r" using caps_frameD[OF ok(2) _ c(1)] c(2) q(2) by auto
  obtain e1 where e1: "ctes s1 ?q = Some e1" "cte_cap e1 = NullCap" using ok(3) by auto
  let ?s2 = "s1\<lparr>ctes := (ctes s1)(x := Some (c1\<lparr>cte_cap := ZombieCap zid' r\<rparr>))\<rparr>"
  have s2: "set_cap x (ZombieCap zid' r) s1 = Some ?s2" using c1 by (simp add: set_cap_def upd_cte_def)
  have eq: "reduceZombie x True s = Some (EXCEPTION_NONE, ?s2)"
    using c zp zn pos en s1 c1 e1 z'(1) s2 by (simp add: reduceZombie_def reduceZombie_with_def Let_def)
  have r1: "removable_node s1 (without {?q} L) x p r n"
  proof -
    have "held s1 (without {?q} L) ?X (node_slot p i)" if i: "i < n" for i
      by (rule held_without[OF h[of i]]) (use i q ok(2) node_slot_inj[of i n p] f(5) in \<open>auto simp: caps_frame_def\<close>)
    moreover have "map_option cte_cap (ctes s1 (node_slot p i)) = Some NullCap" if "n \<le> i" "i < 2 ^ unat r" for i
    proof (cases "i = n")
      case False
      then have "node_slot p i \<noteq> ?q" using node_slot_inj[of i n p] radix_facts(5)[OF v(3), of i] f(5) that by auto
      then have "map_option cte_cap (ctes s1 (node_slot p i)) = map_option cte_cap (ctes s (node_slot p i))" using ok(2) by (simp add: caps_frame_def)
      then show ?thesis using n that False by (simp add: removable_node_def)
    qed (use ok(3) in simp)
    ultimately show ?thesis using v ok by (simp add: removable_node_def)
  qed
  have "removable_node ?s2 (without {?q} L) x p r n"
    by (rule removable_frame[OF r1 valid_mdb_set_cap[OF ok(1) c1(1)] contiguous_renumber[OF ok(4) c1 s2] set_cap_frame(1)[OF s2]]) (use c1 in simp_all)
  moreover have "node_zombie ?s2 x p r n" using z' by (simp add: node_zombie_def)
  moreover have "caps_frame ?X s ?s2" using caps_frame_trans[OF ok(2) set_cap_frame(1)[OF s2]] q(1) by (elim caps_frame_mono) auto
  ultimately show ?thesis unfolding eq by simp
qed

lemma set_same_cap: "ctes s x = Some c \<Longrightarrow> set_cap x (cte_cap c) s = Some s"
proof -
  assume c: "ctes s x = Some c"
  have "(ctes s)(x := Some c) = ctes s" using c by auto
  then show ?thesis using c by (simp add: set_cap_def upd_cte_def)
qed

text \<open>One turn of the loop for a zombie.\<close>

lemma finaliseSlot_zombie:
  assumes "valid_mdb s L" "node_zombie s x p r n" "p \<noteq> x" "unat (of_nat n :: word_t) = n"
  shows "finaliseSlot x True s =
    (if n = 0 then Some (\<lparr>fs_status = EXCEPTION_NONE, fs_success = True, fs_cleanupInfo = NullCap\<rparr>, s)
     else do {
       (status, s) \<leftarrow> reduceZombie x True s;
       if status \<noteq> EXCEPTION_NONE then Some (\<lparr>fs_status = status, fs_success = False, fs_cleanupInfo = NullCap\<rparr>, s)
       else let (status, s) = preemptionPoint s
            in if status \<noteq> EXCEPTION_NONE then Some (\<lparr>fs_status = status, fs_success = False, fs_cleanupInfo = NullCap\<rparr>, s)
               else finaliseSlot x True s})"
proof -
  obtain c zid where c: "ctes s x = Some c" "cte_cap c = ZombieCap zid r" and zp: "cap_zombie_cap_get_capZombiePtr zid r = p"
    and zn: "cap_zombie_cap_get_capZombieNumber zid r = of_nat n" using assms(2) by (auto simp: node_zombie_def)
  obtain b where b: "isFinalCapability s x = Some b" using isFinalCapability_total[OF assms(1) c(1)] by blast
  have f: "finaliseCap (ZombieCap zid r) b False s = Some ((ZombieCap zid r, NullCap), s)" by (simp add: finaliseCap_def finaliseCap_immediate_def)
  have n0: "(of_nat n :: word_t) = 0 \<longleftrightarrow> n = 0" using assms(4) by (auto simp: word_unat_eq_iff)
  have rem: "capRemovable (ZombieCap zid r) x = Some (n = 0)" using zp zn assms(3) n0 by (auto simp: capRemovable_def Let_def)
  have st: "set_cap x (ZombieCap zid r) s = Some s" using set_same_cap[OF c(1)] c(2) by simp
  have rz: "reduceZombie_with (cteDelete_with finaliseSlot) = reduceZombie" by (simp add: reduceZombie_def cteDelete_def)
  show ?thesis using c b f rem st by (subst finaliseSlot.simps) (simp add: rz)
qed

lemma finaliseSlot_node:
  assumes "removable_node s L x p r n" "node_zombie s x p r n"
  shows "succeeds (finaliseSlot x True s) (\<lambda>(ret, s'). \<exists>m. fs_cleanupInfo ret = NullCap \<and> node_frame (insert x (node_set p r)) s s' \<and>
     removable_node s' (without (node_slot p ` {m..<n}) L) x p r m \<and> node_zombie s' x p r m \<and>
     (fs_status ret = EXCEPTION_NONE \<and> m = 0 \<or> fs_status ret = EXCEPTION_PREEMPTED \<and> m < n))" (is "succeeds _ (?P n L s)")
  using assms
proof (induction n arbitrary: s L)
  case 0
  have v: "valid_mdb s L" "r < 59" "x \<notin> node_set p r" using 0(1) by (auto simp: removable_node_def)
  have px: "p \<noteq> x" using v(3) node_base by blast
  show ?case using finaliseSlot_zombie[OF v(1) 0(2) px] 0 without_empty[OF v(1)] by (simp add: caps_node_frame)
next
  case (Suc n)
  let ?X = "insert x (node_set p r)" and ?q = "node_slot p n"
  have v: "valid_mdb s L" "r < 59" "x \<notin> node_set p r" "Suc n \<le> 2 ^ unat r" using Suc.prems(1) by (auto simp: removable_node_def)
  have px: "p \<noteq> x" using v(3) node_base by blast
  obtain s1 where s1: "reduceZombie x True s = Some (EXCEPTION_NONE, s1)" and r1: "removable_node s1 (without {?q} L) x p r n" "node_zombie s1 x p r n" "caps_frame ?X s s1"
    using reduceZombie_step[OF Suc.prems] by (auto simp: succeeds_def)
  obtain e k ps where pp: "preemptionPoint s1 = (e, s1\<lparr>ksWorkUnitsCompleted := k, irqPolls := ps\<rparr>)" "e = EXCEPTION_NONE \<or> e = EXCEPTION_PREEMPTED"
    by (rule preemptionPoint_effect)
  let ?s1 = "s1\<lparr>ksWorkUnitsCompleted := k, irqPolls := ps\<rparr>"
  have r2: "removable_node ?s1 (without {?q} L) x p r n" "node_zombie ?s1 x p r n" using r1(1,2) by (simp_all add: removable_node_def node_zombie_def contiguous_all_def held_def)
  have fr: "node_frame ?X s ?s1" by (rule node_frame_caps[OF r1(3)])
  note eq = finaliseSlot_zombie[OF v(1) Suc.prems(2) px radix_facts(3)[OF v(2,4)]]
  have one: "without (node_slot p ` {n..<Suc n}) L = without {?q} L" by (simp add: atLeastLessThanSuc)
  show ?case
  proof (cases "e = EXCEPTION_NONE")
    case False
    then show ?thesis using eq s1 pp r2 fr one by (auto intro!: exI[of _ n])
  next
    case True
    have "succeeds (finaliseSlot x True ?s1) (?P (Suc n) L s)"
    proof (rule succeeds_mono[OF Suc.IH[OF r2]])
      fix y assume "?P n (without {?q} L) ?s1 y"
      then obtain ret s' m where y: "y = (ret, s')" and m: "fs_cleanupInfo ret = NullCap" "node_frame ?X ?s1 s'" "removable_node s' (without (node_slot p ` {m..<n}) (without {?q} L)) x p r m"
        "node_zombie s' x p r m" "fs_status ret = EXCEPTION_NONE \<and> m = 0 \<or> fs_status ret = EXCEPTION_PREEMPTED \<and> m < n" by (cases y) auto
      have le: "m \<le> n" using m(5) by auto
      then have "{m..<Suc n} = insert n {m..<n}" by auto
      then have "without (node_slot p ` {m..<n}) (without {?q} L) = without (node_slot p ` {m..<Suc n}) L" by simp
      then show "?P (Suc n) L s y" using y m node_frame_trans[OF fr m(2)] by (auto intro!: exI[of _ m])
    qed
    then show ?thesis using eq s1 pp True by simp
  qed
qed

text \<open>The last capability of a CNode becomes a zombie with all slots.\<close>

lemma finaliseSlot_cnode:
  assumes n: "removable_node s L x p r (2 ^ unat r)" and c: "ctes s x = Some c" "cte_cap c = CNodeCap r gs g p" "isFinalCapability s x = Some True"
  obtains s0 where "finaliseSlot x True s = finaliseSlot x True s0" "removable_node s0 L x p r (2 ^ unat r)" "node_zombie s0 x p r (2 ^ unat r)" "caps_frame {x} s s0"
proof -
  have v: "valid_mdb s L" "contiguous_all s L" "r < 59" "p AND MASKw (r + 1) = 0" "x \<notin> node_set p r" using n by (auto simp: removable_node_def)
  note f = radix_facts[OF v(3) order.refl]
  have b: "BITw r = of_nat (2 ^ unat r)" by (simp add: BITw_def BIT_def push_bit_eq_mult)
  obtain zid where z: "Zombie_new (BITw r) r p = ZombieCap zid r" "cap_zombie_cap_get_capZombieNumber zid r = of_nat (2 ^ unat r)" "cap_zombie_cap_get_capZombiePtr zid r = p"
    using zombie_roundtrip[of r p "BITw r" 0] v(3,4) f(1) b by (auto simp: word_less_nat_alt)
  let ?s0 = "s\<lparr>ctes := (ctes s)(x := Some (c\<lparr>cte_cap := ZombieCap zid r\<rparr>))\<rparr>"
  have s0: "set_cap x (ZombieCap zid r) s = Some ?s0" using c(1) by (simp add: set_cap_def upd_cte_def)
  have v0: "valid_mdb ?s0 L" by (rule valid_mdb_set_cap[OF v(1) c(1)]) (use c(2) in simp_all)
  have nz: "node_zombie ?s0 x p r (2 ^ unat r)" using z by (simp add: node_zombie_def)
  have px: "p \<noteq> x" using v(5) node_base by blast
  have rem: "capRemovable (ZombieCap zid r) x = Some False" using z px f(3) by (auto simp: capRemovable_def Let_def word_unat_eq_iff)
  have fc: "finaliseCap (CNodeCap r gs g p) True False s = Some ((ZombieCap zid r, NullCap), s)" using z(1) by (simp add: finaliseCap_def finaliseCap_immediate_def)
  have rz: "reduceZombie_with (cteDelete_with finaliseSlot) = reduceZombie" by (simp add: reduceZombie_def cteDelete_def)
  have "finaliseSlot x True s = finaliseSlot x True ?s0"
    unfolding finaliseSlot_zombie[OF v0 nz px f(3)] using c fc rem s0 by (subst finaliseSlot.simps) (simp add: rz)
  then show thesis using nz removable_frame[OF n v0 contiguous_zombie[OF v(2,1) c(1,3) s0] set_cap_frame(1)[OF s0]] set_cap_frame(1)[OF s0] that by blast
qed

text \<open>
  C35. Deleting the last capability of a CNode always returns when every slot of it is empty, holds a capability whose removal never touches an
  object (untyped memory, reply, domain, interrupt control), or a capability of an object that has another capability outside the CNode and the slot; the capabilities of
  an object are taken to stand together in the derivation tree. Either all slots of the CNode and the slot of the capability are empty and out of the derivation tree, or an interrupt
  stopped the deletion and a zombie stands in the slot, which counts fewer slots, those beyond it being empty: the state
  is one from which deleting the zombie goes on in the same way. No other capability and no object changes.
\<close>

theorem delete_cnode:
  assumes n: "removable_node s L x p r n"
    and x: "node_zombie s x p r n \<or> n = 2 ^ unat r \<and> (\<exists>c gs g. ctes s x = Some c \<and> cte_cap c = CNodeCap r gs g p \<and> isFinalCapability s x = Some True)"
  shows "succeeds (cteDelete x True s) (\<lambda>(e, s'). node_frame (insert x (node_set p r)) s s' \<and>
    (e = EXCEPTION_NONE \<and> valid_mdb s' (without (insert x (node_slot p ` {..<n})) L) \<and> (\<forall>q\<in>insert x (node_set p r). map_option cte_cap (ctes s' q) = Some NullCap) \<or>
     e = EXCEPTION_PREEMPTED \<and> (\<exists>m<n. node_zombie s' x p r m \<and> removable_node s' (without (node_slot p ` {m..<n}) L) x p r m)))" (is "succeeds _ ?Q")
proof -
  let ?X = "insert x (node_set p r)"
  obtain s0 where s0: "finaliseSlot x True s = finaliseSlot x True s0" "removable_node s0 L x p r n" "node_zombie s0 x p r n" "caps_frame {x} s s0"
    using x finaliseSlot_cnode[of s L x p r] n by (metis caps_frame_refl)
  have fr0: "node_frame ?X s s0" using s0(4) by (intro caps_node_frame) (erule caps_frame_mono, simp)
  show ?thesis unfolding cteDelete_def cteDelete_with_def s0(1) succeeds_bind
  proof (rule succeeds_mono[OF finaliseSlot_node[OF s0(2,3)]])
    fix y assume "case y of (ret, s') \<Rightarrow> \<exists>m. fs_cleanupInfo ret = NullCap \<and> node_frame ?X s0 s' \<and> removable_node s' (without (node_slot p ` {m..<n}) L) x p r m \<and> node_zombie s' x p r m \<and>
      (fs_status ret = EXCEPTION_NONE \<and> m = 0 \<or> fs_status ret = EXCEPTION_PREEMPTED \<and> m < n)"
    then obtain ret s1 m where y: "y = (ret, s1)" "fs_cleanupInfo ret = NullCap" and r: "node_frame ?X s0 s1" "removable_node s1 (without (node_slot p ` {m..<n}) L) x p r m" "node_zombie s1 x p r m"
      and st: "fs_status ret = EXCEPTION_NONE \<and> m = 0 \<or> fs_status ret = EXCEPTION_PREEMPTED \<and> m < n" by (cases y) auto
    have fr: "node_frame ?X s s1" using node_frame_trans[OF fr0 r(1)] by simp
    obtain c where c: "ctes s1 x = Some c" using r(3) by (auto simp: node_zombie_def)
    show "succeeds (case y of (fs_ret, s) \<Rightarrow> if fs_status fs_ret \<noteq> EXCEPTION_NONE then Some (fs_status fs_ret, s)
      else (if True \<or> fs_success fs_ret then emptySlot x (fs_cleanupInfo fs_ret) s else Some s) \<bind> (\<lambda>s. Some (EXCEPTION_NONE, s))) ?Q"
    proof (cases "fs_status ret = EXCEPTION_NONE")
      case False
      then show ?thesis using y st fr r by auto
    next
      case True
      then have m0: "m = 0" using st by auto
      have r0: "removable_node s1 (without (node_slot p ` {..<n}) L) x p r 0" using r(2) m0 by (simp add: atLeast0LessThan)
      have "succeeds (emptySlot x NullCap s1) (\<lambda>s'. ?Q (EXCEPTION_NONE, s'))"
      proof (rule succeeds_mono[OF emptySlot_ok[OF _ c]])
        show "valid_mdb s1 (without (node_slot p ` {..<n}) L)" using r0 by (simp add: removable_node_def)
        fix s' assume e: "valid_mdb s' (without {x} (without (node_slot p ` {..<n}) L)) \<and> caps_frame {x} s1 s' \<and> map_option cte_cap (ctes s' x) = Some NullCap"
        then have "node_frame ?X s s'" using node_frame_trans[OF fr caps_node_frame, of "{x}" s'] by (simp add: insert_absorb)
        moreover have "map_option cte_cap (ctes s' q) = Some NullCap" if q: "q \<in> ?X" for q
        proof (cases "q = x")
          case False
          then obtain i where i: "q = node_slot p i" "i < 2 ^ unat r" using q by (auto simp: node_set_def)
          then have "map_option cte_cap (ctes s1 q) = Some NullCap" using r0 unfolding removable_node_def by blast
          then show ?thesis using e False by (simp add: caps_frame_def)
        qed (use e in simp)
        moreover have "node_slot p ` {..<n} \<union> {x} = insert x (node_slot p ` {..<n})" by simp
        ultimately show "?Q (EXCEPTION_NONE, s')" using e by (simp only: without_without) simp
      qed
      then show ?thesis using y True by simp
    qed
  qed
qed

text \<open>
  C36. Revoking a capability of an endpoint, notification, reply, CNode, thread, interrupt or domain always returns: it removes
  the capabilities derived from it, which follow it in the derivation tree, one after the other. Either all are gone and the slot has no
  children, or an interrupt stopped it after at least one was removed. No other capability and no object changes.
\<close>

theorem revoke_copies:
  assumes "valid_mdb s L" "ys @ slot # zs \<in> L" "ctes s slot = Some c" "object_cap (cte_cap c)"
  shows "let ds = takeWhile (\<lambda>d. isMDBParentOf c (the (ctes s d))) zs in
    succeeds (cteRevoke slot s) (\<lambda>(e, s'). \<exists>n\<le>length ds. valid_mdb s' (without (set (take n ds)) L) \<and> node_frame (set (take n ds)) s s' \<and>
      (\<forall>q\<in>set (take n ds). map_option cte_cap (ctes s' q) = Some NullCap) \<and>
      (e = EXCEPTION_NONE \<and> n = length ds \<and> ensureNoChildren s' slot = Some (Inr ()) \<or> e = EXCEPTION_PREEMPTED \<and> 0 < n))"
  unfolding Let_def
proof (rule cteRevoke_loop[OF assms(1) _ assms(3,4)])
  let ?P = "\<lambda>d. isMDBParentOf c (the (ctes s d))"
  show "ys @ slot # takeWhile ?P zs @ dropWhile ?P zs \<in> L" using assms(2) by simp
  show "\<forall>d\<in>set (takeWhile ?P zs). ?P d" by (auto dest: set_takeWhileD)
  show "dropWhile ?P zs = [] \<or> \<not> ?P (hd (dropWhile ?P zs))" using hd_dropWhile[of ?P zs] by blast
qed

subsection \<open>Witnesses\<close>

theorem revoke_copies_witness:
  "\<exists>e s'. cteRevoke 0x8020 ex_cnode = Some (e, s') \<and> map_option cte_cap (ctes s' 0x8040) = Some NullCap \<and> valid_mdb s' {[0x8000], [0x8020]}"
proof -
  let ?L = "{[0x8000], [0x8020, 0x8040]}" and ?c = "\<lparr>cte_cap = EndpointCap 0 True True True True 0x80000, cteMDBNode = \<lparr>mdbNext = 0x8040, mdbRevocable = True, mdbFirstBadged = True, mdbPrev = 0\<rparr>\<rparr>"
  have c: "ctes ex_cnode 0x8020 = Some ?c" by (simp add: ex_cnode_def)
  have p: "isMDBParentOf ?c (the (ctes ex_cnode 0x8040))" by (simp add: ex_cnode_def isMDBParentOf_def sameRegionAs_def)
  have "[] @ 0x8020 # [0x8040] \<in> ?L" by simp
  from revoke_copies[OF ex_cnode_chains this c] p obtain e s' n where r: "cteRevoke 0x8020 ex_cnode = Some (e, s')" "n \<le> 1" "valid_mdb s' (without (set (take n [0x8040])) ?L)"
    "\<forall>q\<in>set (take n [0x8040]). map_option cte_cap (ctes s' q) = Some NullCap" "n = 1 \<or> 0 < n" by (auto simp: succeeds_def Let_def)
  then have n: "n = 1" by auto
  have "without {0x8040} ?L = {[0x8000], [0x8020]}" by (auto simp: without_def)
  then show ?thesis using r n by auto
qed

text \<open>A capability of a CNode with two slots, one empty and one with a copy of an endpoint capability.\<close>

definition ex_node :: kernel_state where
  "ex_node = ex_kernel\<lparr>ctes := [0x8000 \<mapsto> \<lparr>cte_cap = CNodeCap 1 0 0 0x9000, cteMDBNode = nullMDBNode\<lparr>mdbRevocable := True\<rparr>\<rparr>,
       0x8020 \<mapsto> \<lparr>cte_cap = EndpointCap 0 True True True True 0x80000, cteMDBNode = \<lparr>mdbNext = 0x9000, mdbRevocable = True, mdbFirstBadged = True, mdbPrev = 0\<rparr>\<rparr>,
       0x9000 \<mapsto> \<lparr>cte_cap = EndpointCap 7 True True True False 0x80000, cteMDBNode = \<lparr>mdbNext = 0, mdbRevocable = True, mdbFirstBadged = True, mdbPrev = 0x8020\<rparr>\<rparr>,
       0x9020 \<mapsto> zero_cte]\<rparr>"

lemma ex_node_set: "node_set 0x9000 1 = {0x9000, 0x9020}"
proof -
  have "{..<2 ^ unat (1 :: word_t)} = {0, 1 :: nat}" by auto
  then show ?thesis by (simp add: node_set_def node_slot_def cte_at_index_def push_bit_eq_mult)
qed

lemma ex_node_removable: "removable_node ex_node {[0x8000], [0x8020, 0x9000]} 0x8000 0x9000 1 2"
proof -
  let ?L = "{[0x8000], [0x8020, 0x9000]}"
  have "valid_mdb ex_node ?L"
    by (auto simp: valid_mdb_def is_chain_def ex_node_def mnext_def mprev_def nullMDBNode_def zero_cte_def split: if_splits)
  moreover have "contiguous_all ex_node ?L" by (auto simp: contiguous_all_def contiguous_def)
  moreover have "held ex_node ?L (insert 0x8000 (node_set 0x9000 1)) (node_slot 0x9000 i)" if "i < 2" for i
  proof -
    have "i = 0 \<or> i = 1" using that by arith
    then show ?thesis unfolding ex_node_set by (elim disjE)
      (simp_all add: held_def node_slot_def cte_at_index_def push_bit_eq_mult ex_node_def zero_cte_def sameObjectAs_def sameRegionAs_def)
  qed
  ultimately show ?thesis by (auto simp: removable_node_def ex_node_set MASKw_mask mask_eq_exp_minus_1)
qed

theorem delete_cnode_witness:
  "\<exists>e s'. cteDelete 0x8000 True ex_node = Some (e, s') \<and> node_frame {0x8000, 0x9000, 0x9020} ex_node s' \<and>
    (e = EXCEPTION_NONE \<and> map_option cte_cap (ctes s' 0x9000) = Some NullCap \<or> e = EXCEPTION_PREEMPTED \<and> (\<exists>m<2. node_zombie s' 0x8000 0x9000 1 m))"
proof -
  have "2 = (2::nat) ^ unat (1 :: word_t) \<and> (\<exists>c gs g. ctes ex_node 0x8000 = Some c \<and> cte_cap c = CNodeCap 1 gs g 0x9000 \<and> isFinalCapability ex_node 0x8000 = Some True)"
    by (simp add: ex_node_def isFinalCapability_def nullMDBNode_def)
  from delete_cnode[OF ex_node_removable disjI2[OF this]] show ?thesis unfolding ex_node_set by (fastforce simp: succeeds_def)
qed

end
