(* ===== verification/KTcb.thy ===== *)
theory KTcb
  imports KCNodeDelete
begin

unbundle bit_operations_syntax

text \<open>
  Invocations of threads and of the domain capability, \<^verbatim>\<open>kernel/src/object/tcb.c\<close>: reading, writing and copying
  registers, setting priorities, address spaces and buffers, suspending and resuming, binding
  notifications. Saving the state of the FPU has no effect on the model.
\<close>

subsection \<open>Invocation labels\<close>

definition TCBReadRegisters :: word_t where "TCBReadRegisters = 2"
definition TCBWriteRegisters :: word_t where "TCBWriteRegisters = 3"
definition TCBCopyRegisters :: word_t where "TCBCopyRegisters = 4"
definition TCBConfigure :: word_t where "TCBConfigure = 5"
definition TCBSetPriority :: word_t where "TCBSetPriority = 6"
definition TCBSetMCPriority :: word_t where "TCBSetMCPriority = 7"
definition TCBSetSchedParams :: word_t where "TCBSetSchedParams = 8"
definition TCBSetIPCBuffer :: word_t where "TCBSetIPCBuffer = 9"
definition TCBSetSpace :: word_t where "TCBSetSpace = 10"
definition TCBSuspend :: word_t where "TCBSuspend = 11"
definition TCBResume :: word_t where "TCBResume = 12"
definition TCBBindNotification :: word_t where "TCBBindNotification = 13"
definition TCBUnbindNotification :: word_t where "TCBUnbindNotification = 14"
definition TCBSetTLSBase :: word_t where "TCBSetTLSBase = 15"
definition TCBSetFlags :: word_t where "TCBSetFlags = 16"
definition DomainSetSet :: word_t where "DomainSetSet = 30"

lemmas tcb_labels = TCBReadRegisters_def TCBWriteRegisters_def TCBCopyRegisters_def TCBConfigure_def TCBSetPriority_def TCBSetMCPriority_def
  TCBSetSchedParams_def TCBSetIPCBuffer_def TCBSetSpace_def TCBSuspend_def TCBResume_def TCBBindNotification_def TCBUnbindNotification_def
  TCBSetTLSBase_def TCBSetFlags_def

subsection \<open>Helpers\<close>

text \<open>An operation goes on with \<open>f\<close> unless a step before reported an exception.\<close>

definition on_success :: "(exception \<times> kernel_state) option \<Rightarrow> (kernel_state \<Rightarrow> (exception \<times> kernel_state) option) \<Rightarrow> (exception \<times> kernel_state) option" where
  "on_success r f = do {
     (e, s) \<leftarrow> r;
     if e \<noteq> EXCEPTION_NONE then Some (e, s) else f s
   }"

text \<open>A loop over indices.\<close>

primrec for_each :: "nat list \<Rightarrow> (nat \<Rightarrow> kernel_state \<Rightarrow> kernel_state option) \<Rightarrow> kernel_state \<Rightarrow> kernel_state option" where
  "for_each [] f s = Some s"
| "for_each (i # is) f s = do { s \<leftarrow> f i s; for_each is f s }"

subsection \<open>Registers of a thread\<close>

definition TLS_BASE :: nat where "TLS_BASE = 35"

definition frameRegisters :: "nat list" where
  "frameRegisters = [FaultIP, SP_EL0, SPSR_EL1, 0, 1, 2, 3, 4, 5, 6, 7, 8, 16, 17, 18, 29, 30]"

definition gpRegisters :: "nat list" where
  "gpRegisters = [9, 10, 11, 12, 13, 14, 15, 19, 20, 21, 22, 23, 24, 25, 26, 27, 28, 35, 36]"

definition n_frameRegisters :: nat where "n_frameRegisters = 17"
definition n_gpRegisters :: nat where "n_gpRegisters = 19"

subsection \<open>Invocations\<close>

definition invokeTCB_Suspend :: "ptr \<Rightarrow> kernel_state \<Rightarrow> (exception \<times> kernel_state) option" where
  "invokeTCB_Suspend thread s = finished (suspend thread s)"

definition invokeTCB_Resume :: "ptr \<Rightarrow> kernel_state \<Rightarrow> (exception \<times> kernel_state) option" where
  "invokeTCB_Resume thread s = finished (restart thread s)"

definition thread_control_update_priority :: word_t where "thread_control_update_priority = 1"
definition thread_control_update_ipc_buffer :: word_t where "thread_control_update_ipc_buffer = 2"
definition thread_control_update_space :: word_t where "thread_control_update_space = 4"
definition thread_control_update_mcp :: word_t where "thread_control_update_mcp = 8"

lemmas thread_control_flags = thread_control_update_priority_def thread_control_update_ipc_buffer_def thread_control_update_space_def thread_control_update_mcp_def

text \<open>Whether the slots the new capability and the thread come from still hold capabilities of these objects.\<close>

definition caps_unchanged :: "ptr \<Rightarrow> ptr \<Rightarrow> cap \<Rightarrow> ptr \<Rightarrow> kernel_state \<Rightarrow> bool option" where
  "caps_unchanged target slot newCap srcSlot s = do {
     src \<leftarrow> ctes s srcSlot;
     if sameObjectAs newCap (cte_cap src) then map_option (\<lambda>c. sameObjectAs (ThreadCap target) (cte_cap c)) (ctes s slot)
     else Some False
   }"

text \<open>Replacing the root of the capability space or the address space of a thread.\<close>

definition replace_root :: "ptr \<Rightarrow> ptr \<Rightarrow> word_t \<Rightarrow> cap \<Rightarrow> ptr \<Rightarrow> kernel_state \<Rightarrow> (exception \<times> kernel_state) option" where
  "replace_root target slot index newCap srcSlot s = do {
     let rootSlot = TCB_PTR_CTE_PTR target index;
     on_success (cteDelete rootSlot True s) (\<lambda>s. do {
       ok \<leftarrow> caps_unchanged target slot newCap srcSlot s;
       finished (if ok then cteInsert newCap srcSlot rootSlot s else Some s)
     })
   }"

definition replace_buffer :: "ptr \<Rightarrow> ptr \<Rightarrow> word_t \<Rightarrow> cap \<Rightarrow> ptr \<Rightarrow> kernel_state \<Rightarrow> (exception \<times> kernel_state) option" where
  "replace_buffer target slot bufferAddr bufferCap bufferSrcSlot s = do {
     let bufferSlot = TCB_PTR_CTE_PTR target tcbBuffer;
     on_success (cteDelete bufferSlot True s) (\<lambda>s. do {
       s \<leftarrow> upd_tcb target (\<lambda>t. t\<lparr>tcbIPCBuffer := bufferAddr\<rparr>) s;
       ok \<leftarrow> (if bufferSrcSlot \<noteq> 0 then caps_unchanged target slot bufferCap bufferSrcSlot s else Some False);
       s \<leftarrow> (if ok then cteInsert bufferCap bufferSrcSlot bufferSlot s else Some s);
       finished (if target = ksCurThread s then rescheduleRequired s else Some s)
     })
   }"

definition invokeTCB_ThreadControl :: "ptr \<Rightarrow> ptr \<Rightarrow> cptr_t \<Rightarrow> prio_t \<Rightarrow> prio_t \<Rightarrow> cap \<Rightarrow> ptr \<Rightarrow> cap \<Rightarrow> ptr \<Rightarrow> word_t \<Rightarrow> cap \<Rightarrow> ptr \<Rightarrow> word_t \<Rightarrow>
    kernel_state \<Rightarrow> (exception \<times> kernel_state) option" where
  "invokeTCB_ThreadControl target slot faultep mcp priority cRoot_newCap cRoot_srcSlot vRoot_newCap vRoot_srcSlot bufferAddr bufferCap bufferSrcSlot updateFlags s = do {
     s \<leftarrow> (if updateFlags AND thread_control_update_space \<noteq> 0 then upd_tcb target (\<lambda>t. t\<lparr>tcbFaultHandler := faultep\<rparr>) s else Some s);
     s \<leftarrow> (if updateFlags AND thread_control_update_mcp \<noteq> 0 then setMCPriority target mcp s else Some s);
     on_success (if updateFlags AND thread_control_update_space \<noteq> 0 then replace_root target slot tcbCTable cRoot_newCap cRoot_srcSlot s else Some (EXCEPTION_NONE, s)) (\<lambda>s.
     on_success (if updateFlags AND thread_control_update_space \<noteq> 0 then replace_root target slot tcbVTable vRoot_newCap vRoot_srcSlot s else Some (EXCEPTION_NONE, s)) (\<lambda>s.
     on_success (if updateFlags AND thread_control_update_ipc_buffer \<noteq> 0 then replace_buffer target slot bufferAddr bufferCap bufferSrcSlot s else Some (EXCEPTION_NONE, s)) (\<lambda>s.
       finished (if updateFlags AND thread_control_update_priority \<noteq> 0 then setPriority target priority s else Some s))))
   }"

definition copy_registers :: "nat list \<Rightarrow> ptr \<Rightarrow> ptr \<Rightarrow> kernel_state \<Rightarrow> kernel_state option" where
  "copy_registers regs tcb_src dest = for_each [0..<length regs] (\<lambda>i s. do {
     v \<leftarrow> getRegister s tcb_src (regs ! i);
     setRegister dest (regs ! i) v s
   })"

definition invokeTCB_CopyRegisters :: "ptr \<Rightarrow> ptr \<Rightarrow> bool \<Rightarrow> bool \<Rightarrow> bool \<Rightarrow> bool \<Rightarrow> kernel_state \<Rightarrow> (exception \<times> kernel_state) option" where
  "invokeTCB_CopyRegisters dest tcb_src suspendSource resumeTarget transferFrame transferInteger s = do {
     s \<leftarrow> (if suspendSource then suspend tcb_src s else Some s);
     s \<leftarrow> (if resumeTarget then restart dest s else Some s);
     s \<leftarrow> (if transferFrame then do {
             s \<leftarrow> copy_registers frameRegisters tcb_src dest s;
             pc \<leftarrow> getRestartPC s dest;
             setNextPC dest pc s
           } else Some s);
     s \<leftarrow> (if transferInteger then copy_registers gpRegisters tcb_src dest s else Some s);
     finished (if dest = ksCurThread s then rescheduleRequired s else Some s)
   }"

text \<open>
  Reading the registers of a thread: the first ones into message registers, the others into the buffer, if there is one. The
  loop over message registers for the second group, \<^verbatim>\<open>i + n_frameRegisters < n_msgRegisters\<close>, is never entered.
\<close>

definition read_registers :: "ptr \<Rightarrow> ptr \<Rightarrow> nat \<Rightarrow> kernel_state \<Rightarrow> kernel_state option" where
  "read_registers thread tcb_src n s = do {
     ipcBuffer \<leftarrow> lookupIPCBuffer True thread s;
     s \<leftarrow> setRegister thread badgeRegister 0 s;
     let i = min n (min n_frameRegisters n_msgRegisters);
     s \<leftarrow> for_each [0..<i] (\<lambda>i s. do { v \<leftarrow> getRegister s tcb_src (frameRegisters ! i); setRegister thread (msgRegisters ! i) v s }) s;
     let j = (if ipcBuffer \<noteq> 0 then min n n_frameRegisters else i);
     s \<leftarrow> for_each [i..<j] (\<lambda>i s. do { v \<leftarrow> getRegister s tcb_src (frameRegisters ! i); Some (set_word ipcBuffer (of_nat (i + 1)) v s) }) s;
     let i = min n_gpRegisters (min (n - n_frameRegisters) (n_msgRegisters - n_frameRegisters));
     s \<leftarrow> for_each [0..<i] (\<lambda>i s. do { v \<leftarrow> getRegister s tcb_src (gpRegisters ! i); setRegister thread (msgRegisters ! (i + n_frameRegisters)) v s }) s;
     let k = (if ipcBuffer \<noteq> 0 then min n_gpRegisters (n - n_frameRegisters) else i);
     s \<leftarrow> for_each [i..<k] (\<lambda>i s. do { v \<leftarrow> getRegister s tcb_src (gpRegisters ! i); Some (set_word ipcBuffer (of_nat (i + n_frameRegisters + 1)) v s) }) s;
     setRegister thread msgInfoRegister (wordFromMessageInfo (seL4_MessageInfo_new 0 0 0 (of_nat (k + j)))) s
   }"

definition invokeTCB_ReadRegisters :: "ptr \<Rightarrow> bool \<Rightarrow> word_t \<Rightarrow> bool \<Rightarrow> kernel_state \<Rightarrow> (exception \<times> kernel_state) option" where
  "invokeTCB_ReadRegisters tcb_src suspendSource n call s = do {
     let thread = ksCurThread s;
     s \<leftarrow> (if suspendSource then suspend tcb_src s else Some s);
     s \<leftarrow> (if call then read_registers thread tcb_src (unat n) s else Some s);
     finished (setThreadState thread ThreadState_Running s)
   }"

definition write_registers :: "nat list \<Rightarrow> nat list \<Rightarrow> nat \<Rightarrow> ptr \<Rightarrow> ptr \<Rightarrow> kernel_state \<Rightarrow> kernel_state option" where
  "write_registers regs is arg dest buffer = for_each is (\<lambda>i s. do {
     v \<leftarrow> getSyscallArg s (i + arg) buffer;
     setRegister dest (regs ! i) (sanitiseRegister (regs ! i) v (Arch_getSanitiseRegisterInfo dest)) s
   })"

definition invokeTCB_WriteRegisters :: "ptr \<Rightarrow> bool \<Rightarrow> word_t \<Rightarrow> ptr \<Rightarrow> kernel_state \<Rightarrow> (exception \<times> kernel_state) option" where
  "invokeTCB_WriteRegisters dest resumeTarget n buffer s = do {
     let n = (if n > of_nat (n_frameRegisters + n_gpRegisters) then n_frameRegisters + n_gpRegisters else unat n);
     s \<leftarrow> write_registers frameRegisters [0..<min n_frameRegisters n] 2 dest buffer s;
     s \<leftarrow> write_registers gpRegisters [0..<min n_gpRegisters (n - n_frameRegisters)] (n_frameRegisters + 2) dest buffer s;
     pc \<leftarrow> getRestartPC s dest;
     s \<leftarrow> setNextPC dest pc s;
     s \<leftarrow> (if resumeTarget then restart dest s else Some s);
     finished (if dest = ksCurThread s then rescheduleRequired s else Some s)
   }"

definition invokeTCB_NotificationControl :: "ptr \<Rightarrow> ptr \<Rightarrow> kernel_state \<Rightarrow> (exception \<times> kernel_state) option" where
  "invokeTCB_NotificationControl tcb ntfnPtr s = finished (if ntfnPtr \<noteq> 0 then bindNotification tcb ntfnPtr s else unbindNotification tcb s)"

definition invokeSetTLSBase :: "ptr \<Rightarrow> word_t \<Rightarrow> kernel_state \<Rightarrow> (exception \<times> kernel_state) option" where
  "invokeSetTLSBase thread tls_base s = do {
     s \<leftarrow> setRegister thread TLS_BASE tls_base s;
     finished (if thread = ksCurThread s then rescheduleRequired s else Some s)
   }"

definition seL4_TCBFlag_MASK :: word_t where "seL4_TCBFlag_MASK = 1"

definition invokeSetFlags :: "ptr \<Rightarrow> word_t \<Rightarrow> word_t \<Rightarrow> bool \<Rightarrow> kernel_state \<Rightarrow> kernel_state option" where
  "invokeSetFlags thread clear set_flags call s = do {
     let cur_thread = ksCurThread s;
     t \<leftarrow> tcbs s thread;
     let flags = (tcbFlags t AND NOT clear) OR (set_flags AND seL4_TCBFlag_MASK);
     s \<leftarrow> upd_tcb thread (\<lambda>t. t\<lparr>tcbFlags := flags\<rparr>) s;
     s \<leftarrow> (if call then do {
             ipcBuffer \<leftarrow> lookupIPCBuffer True cur_thread s;
             s \<leftarrow> setRegister cur_thread badgeRegister 0 s;
             (len, s) \<leftarrow> setMR cur_thread ipcBuffer 0 flags s;
             setRegister cur_thread msgInfoRegister (wordFromMessageInfo (seL4_MessageInfo_new 0 0 0 len)) s
           } else Some s);
     setThreadState cur_thread ThreadState_Running s
   }"

definition invokeDomainSetSet :: "ptr \<Rightarrow> dom_t \<Rightarrow> kernel_state \<Rightarrow> kernel_state option" where
  "invokeDomainSetSet tcb dm s = setDomain tcb dm s"

subsection \<open>Decoding\<close>

definition NULL_PRIO :: prio_t where "NULL_PRIO = 0"

definition checkPrio :: "prio_t \<Rightarrow> ptr \<Rightarrow> kernel_state \<Rightarrow> (syscall_error + unit) option" where
  "checkPrio prio auth s = do {
     t \<leftarrow> tcbs s auth;
     kassert (tcbMCP t \<le> seL4_MaxPrio);
     Some (if prio > tcbMCP t then Inl (range_error seL4_MinPrio (tcbMCP t)) else Inr ())
   }"

definition decodeSetTLSBase :: "ptr \<Rightarrow> word_t \<Rightarrow> ptr \<Rightarrow> kernel_state \<Rightarrow> (exception \<times> kernel_state) option" where
  "decodeSetTLSBase tcb len buffer s =
     (if len < 1 then syscall_fail (no_error seL4_TruncatedMessage) s
      else do {
        tls_base \<leftarrow> getSyscallArg s 0 buffer;
        s \<leftarrow> setThreadState (ksCurThread s) ThreadState_Restart s;
        invokeSetTLSBase tcb tls_base s
      })"

definition decodeSetFlags :: "ptr \<Rightarrow> word_t \<Rightarrow> bool \<Rightarrow> ptr \<Rightarrow> kernel_state \<Rightarrow> (exception \<times> kernel_state) option" where
  "decodeSetFlags tcb len call buffer s =
     (if len < 2 then syscall_fail (no_error seL4_TruncatedMessage) s
      else do {
        clear \<leftarrow> getSyscallArg s 0 buffer;
        set_flags \<leftarrow> getSyscallArg s 1 buffer;
        s \<leftarrow> setThreadState (ksCurThread s) ThreadState_Restart s;
        finished (invokeSetFlags tcb clear set_flags call s)
      })"

definition decodeCopyRegisters :: "ptr \<Rightarrow> word_t \<Rightarrow> ptr \<Rightarrow> ptr list \<Rightarrow> kernel_state \<Rightarrow> (exception \<times> kernel_state) option" where
  "decodeCopyRegisters tcb len buffer excaps s =
     (if len < 1 \<or> excaps = [] then syscall_fail (no_error seL4_TruncatedMessage) s
      else do {
        flags \<leftarrow> getSyscallArg s 0 buffer;
        c \<leftarrow> ctes s (excaps ! 0);
        (case cte_cap c of
           ThreadCap srcTCB \<Rightarrow> do {
             s \<leftarrow> setThreadState (ksCurThread s) ThreadState_Restart s;
             invokeTCB_CopyRegisters tcb srcTCB (bit flags 0) (bit flags 1) (bit flags 2) (bit flags 3) s
           }
         | _ \<Rightarrow> syscall_fail (invalid_capability 1) s)
      })"

definition decodeReadRegisters :: "ptr \<Rightarrow> word_t \<Rightarrow> bool \<Rightarrow> ptr \<Rightarrow> kernel_state \<Rightarrow> (exception \<times> kernel_state) option" where
  "decodeReadRegisters tcb len call buffer s =
     (if len < 2 then syscall_fail (no_error seL4_TruncatedMessage) s
      else do {
        flags \<leftarrow> getSyscallArg s 0 buffer;
        n \<leftarrow> getSyscallArg s 1 buffer;
        if n < 1 \<or> n > of_nat (n_frameRegisters + n_gpRegisters)
        then syscall_fail (range_error 1 (of_nat (n_frameRegisters + n_gpRegisters))) s
        else if tcb = ksCurThread s then syscall_fail (no_error seL4_IllegalOperation) s
        else do {
          s \<leftarrow> setThreadState (ksCurThread s) ThreadState_Restart s;
          invokeTCB_ReadRegisters tcb (bit flags 0) n call s
        }
      })"

definition decodeWriteRegisters :: "ptr \<Rightarrow> word_t \<Rightarrow> ptr \<Rightarrow> kernel_state \<Rightarrow> (exception \<times> kernel_state) option" where
  "decodeWriteRegisters tcb len buffer s =
     (if len < 2 then syscall_fail (no_error seL4_TruncatedMessage) s
      else do {
        flags \<leftarrow> getSyscallArg s 0 buffer;
        w \<leftarrow> getSyscallArg s 1 buffer;
        if len - 2 < w then syscall_fail (no_error seL4_TruncatedMessage) s
        else if tcb = ksCurThread s then syscall_fail (no_error seL4_IllegalOperation) s
        else do {
          s \<leftarrow> setThreadState (ksCurThread s) ThreadState_Restart s;
          invokeTCB_WriteRegisters tcb (bit flags 0) w buffer s
        }
      })"

text \<open>The capability for a buffer: none for address 0, a copy of the frame capability otherwise.\<close>

definition buffer_cap :: "kernel_state \<Rightarrow> word_t \<Rightarrow> ptr \<Rightarrow> cap \<Rightarrow> (syscall_error + ptr \<times> cap) option" where
  "buffer_cap s bufferAddr bufferSlot bufferCap =
     (if bufferAddr = 0 then Some (Inr (0, bufferCap))
      else do {
        dc_ret \<leftarrow> deriveCap s bufferSlot bufferCap;
        Some (case dc_ret of
           Inl e \<Rightarrow> Inl e
         | Inr bufferCap \<Rightarrow> map_sum id (\<lambda>_. (bufferSlot, bufferCap)) (checkValidIPCBuffer bufferAddr bufferCap))
      })"

text \<open>The capabilities for the roots of a thread's capability space and address space.\<close>

definition root_cap :: "kernel_state \<Rightarrow> word_t \<Rightarrow> ptr \<Rightarrow> cap \<Rightarrow> (cap \<Rightarrow> bool) \<Rightarrow> (syscall_error + cap) option" where
  "root_cap s rootData rootSlot rootCap valid = do {
     let rootCap = (if rootData \<noteq> 0 then updateCapData False rootData rootCap else rootCap);
     dc_ret \<leftarrow> deriveCap s rootSlot rootCap;
     Some (case dc_ret of
        Inl e \<Rightarrow> Inl e
      | Inr rootCap \<Rightarrow> if \<not> valid rootCap then Inl (no_error seL4_IllegalOperation) else Inr rootCap)
   }"

fun is_cnode_cap :: "cap \<Rightarrow> bool" where
  "is_cnode_cap (CNodeCap _ _ _ _) = True"
| "is_cnode_cap _ = False"

definition roots_deleting :: "kernel_state \<Rightarrow> ptr \<Rightarrow> bool option" where
  "roots_deleting s tcb = do {
     c \<leftarrow> slotCapLongRunningDelete s (TCB_PTR_CTE_PTR tcb tcbCTable);
     if c then Some True else slotCapLongRunningDelete s (TCB_PTR_CTE_PTR tcb tcbVTable)
   }"

definition decode_roots :: "ptr \<Rightarrow> word_t \<Rightarrow> ptr \<Rightarrow> cap \<Rightarrow> word_t \<Rightarrow> ptr \<Rightarrow> cap \<Rightarrow> kernel_state \<Rightarrow> (syscall_error + cap \<times> cap) option" where
  "decode_roots tcb cRootData cRootSlot cRootCap vRootData vRootSlot vRootCap s = do {
     busy \<leftarrow> roots_deleting s tcb;
     if busy then Some (Inl (no_error seL4_IllegalOperation))
     else do {
       c \<leftarrow> root_cap s cRootData cRootSlot cRootCap is_cnode_cap;
       (case c of
          Inl e \<Rightarrow> Some (Inl e)
        | Inr cRootCap \<Rightarrow> do {
            v \<leftarrow> root_cap s vRootData vRootSlot vRootCap isValidVTableRoot;
            Some (map_sum id (Pair cRootCap) v)
          })
     }
   }"

definition decodeTCBConfigure :: "ptr \<Rightarrow> word_t \<Rightarrow> ptr \<Rightarrow> ptr \<Rightarrow> ptr list \<Rightarrow> kernel_state \<Rightarrow> (exception \<times> kernel_state) option" where
  "decodeTCBConfigure tcb len slot buffer excaps s =
     (if len < 4 \<or> length excaps < 3 then syscall_fail (no_error seL4_TruncatedMessage) s
      else do {
        faultEP \<leftarrow> getSyscallArg s 0 buffer;
        cRootData \<leftarrow> getSyscallArg s 1 buffer;
        vRootData \<leftarrow> getSyscallArg s 2 buffer;
        bufferAddr \<leftarrow> getSyscallArg s 3 buffer;
        cRoot \<leftarrow> ctes s (excaps ! 0);
        vRoot \<leftarrow> ctes s (excaps ! 1);
        buf \<leftarrow> ctes s (excaps ! 2);
        b \<leftarrow> buffer_cap s bufferAddr (excaps ! 2) (cte_cap buf);
        (case b of
           Inl e \<Rightarrow> syscall_fail e s
         | Inr (bufferSlot, bufferCap) \<Rightarrow> do {
             r \<leftarrow> decode_roots tcb cRootData (excaps ! 0) (cte_cap cRoot) vRootData (excaps ! 1) (cte_cap vRoot) s;
             (case r of
                Inl e \<Rightarrow> syscall_fail e s
              | Inr (cRootCap, vRootCap) \<Rightarrow> do {
                  s \<leftarrow> setThreadState (ksCurThread s) ThreadState_Restart s;
                  invokeTCB_ThreadControl tcb slot faultEP NULL_PRIO NULL_PRIO cRootCap (excaps ! 0) vRootCap (excaps ! 1)
                    bufferAddr bufferCap bufferSlot (thread_control_update_space OR thread_control_update_ipc_buffer) s
                })
           })
      })"

definition decodeSetPriority :: "ptr \<Rightarrow> word_t \<Rightarrow> ptr \<Rightarrow> ptr list \<Rightarrow> kernel_state \<Rightarrow> (exception \<times> kernel_state) option" where
  "decodeSetPriority tcb len buffer excaps s =
     (if len < 1 \<or> excaps = [] then syscall_fail (no_error seL4_TruncatedMessage) s
      else do {
        newPrio \<leftarrow> getSyscallArg s 0 buffer;
        c \<leftarrow> ctes s (excaps ! 0);
        (case cte_cap c of
           ThreadCap authTCB \<Rightarrow> do {
             status \<leftarrow> checkPrio newPrio authTCB s;
             (case status of
                Inl e \<Rightarrow> syscall_fail e s
              | Inr _ \<Rightarrow> do {
                  s \<leftarrow> setThreadState (ksCurThread s) ThreadState_Restart s;
                  invokeTCB_ThreadControl tcb 0 0 NULL_PRIO newPrio NullCap 0 NullCap 0 0 NullCap 0 thread_control_update_priority s
                })
           }
         | _ \<Rightarrow> syscall_fail (invalid_capability 1) s)
      })"

definition decodeSetMCPriority :: "ptr \<Rightarrow> word_t \<Rightarrow> ptr \<Rightarrow> ptr list \<Rightarrow> kernel_state \<Rightarrow> (exception \<times> kernel_state) option" where
  "decodeSetMCPriority tcb len buffer excaps s =
     (if len < 1 \<or> excaps = [] then syscall_fail (no_error seL4_TruncatedMessage) s
      else do {
        newMcp \<leftarrow> getSyscallArg s 0 buffer;
        c \<leftarrow> ctes s (excaps ! 0);
        (case cte_cap c of
           ThreadCap authTCB \<Rightarrow> do {
             status \<leftarrow> checkPrio newMcp authTCB s;
             (case status of
                Inl e \<Rightarrow> syscall_fail e s
              | Inr _ \<Rightarrow> do {
                  s \<leftarrow> setThreadState (ksCurThread s) ThreadState_Restart s;
                  invokeTCB_ThreadControl tcb 0 0 newMcp NULL_PRIO NullCap 0 NullCap 0 0 NullCap 0 thread_control_update_mcp s
                })
           }
         | _ \<Rightarrow> syscall_fail (invalid_capability 1) s)
      })"

definition decodeSetSchedParams :: "ptr \<Rightarrow> word_t \<Rightarrow> ptr \<Rightarrow> ptr list \<Rightarrow> kernel_state \<Rightarrow> (exception \<times> kernel_state) option" where
  "decodeSetSchedParams tcb len buffer excaps s =
     (if len < 2 \<or> excaps = [] then syscall_fail (no_error seL4_TruncatedMessage) s
      else do {
        newMcp \<leftarrow> getSyscallArg s 0 buffer;
        newPrio \<leftarrow> getSyscallArg s 1 buffer;
        c \<leftarrow> ctes s (excaps ! 0);
        (case cte_cap c of
           ThreadCap authTCB \<Rightarrow> do {
             status \<leftarrow> checkPrio newMcp authTCB s;
             (case status of
                Inl e \<Rightarrow> syscall_fail e s
              | Inr _ \<Rightarrow> do {
                  status \<leftarrow> checkPrio newPrio authTCB s;
                  (case status of
                     Inl e \<Rightarrow> syscall_fail e s
                   | Inr _ \<Rightarrow> do {
                       s \<leftarrow> setThreadState (ksCurThread s) ThreadState_Restart s;
                       invokeTCB_ThreadControl tcb 0 0 newMcp newPrio NullCap 0 NullCap 0 0 NullCap 0
                         (thread_control_update_mcp OR thread_control_update_priority) s
                     })
                })
           }
         | _ \<Rightarrow> syscall_fail (invalid_capability 1) s)
      })"

definition decodeSetIPCBuffer :: "ptr \<Rightarrow> word_t \<Rightarrow> ptr \<Rightarrow> ptr \<Rightarrow> ptr list \<Rightarrow> kernel_state \<Rightarrow> (exception \<times> kernel_state) option" where
  "decodeSetIPCBuffer tcb len slot buffer excaps s =
     (if len < 1 \<or> excaps = [] then syscall_fail (no_error seL4_TruncatedMessage) s
      else do {
        bufferPtr \<leftarrow> getSyscallArg s 0 buffer;
        buf \<leftarrow> ctes s (excaps ! 0);
        b \<leftarrow> buffer_cap s bufferPtr (excaps ! 0) (cte_cap buf);
        (case b of
           Inl e \<Rightarrow> syscall_fail e s
         | Inr (bufferSlot, bufferCap) \<Rightarrow> do {
             s \<leftarrow> setThreadState (ksCurThread s) ThreadState_Restart s;
             invokeTCB_ThreadControl tcb slot 0 NULL_PRIO NULL_PRIO NullCap 0 NullCap 0 bufferPtr bufferCap bufferSlot
               thread_control_update_ipc_buffer s
           })
      })"

definition decodeSetSpace :: "ptr \<Rightarrow> word_t \<Rightarrow> ptr \<Rightarrow> ptr \<Rightarrow> ptr list \<Rightarrow> kernel_state \<Rightarrow> (exception \<times> kernel_state) option" where
  "decodeSetSpace tcb len slot buffer excaps s =
     (if len < 3 \<or> length excaps < 2 then syscall_fail (no_error seL4_TruncatedMessage) s
      else do {
        faultEP \<leftarrow> getSyscallArg s 0 buffer;
        cRootData \<leftarrow> getSyscallArg s 1 buffer;
        vRootData \<leftarrow> getSyscallArg s 2 buffer;
        cRoot \<leftarrow> ctes s (excaps ! 0);
        vRoot \<leftarrow> ctes s (excaps ! 1);
        r \<leftarrow> decode_roots tcb cRootData (excaps ! 0) (cte_cap cRoot) vRootData (excaps ! 1) (cte_cap vRoot) s;
        (case r of
           Inl e \<Rightarrow> syscall_fail e s
         | Inr (cRootCap, vRootCap) \<Rightarrow> do {
             s \<leftarrow> setThreadState (ksCurThread s) ThreadState_Restart s;
             invokeTCB_ThreadControl tcb slot faultEP NULL_PRIO NULL_PRIO cRootCap (excaps ! 0) vRootCap (excaps ! 1) 0 NullCap 0
               thread_control_update_space s
           })
      })"

definition decodeDomainInvocation :: "word_t \<Rightarrow> word_t \<Rightarrow> ptr \<Rightarrow> ptr list \<Rightarrow> kernel_state \<Rightarrow> (exception \<times> kernel_state) option" where
  "decodeDomainInvocation invLabel len buffer excaps s =
     (if invLabel \<noteq> DomainSetSet then syscall_fail (no_error seL4_IllegalOperation) s
      else if len = 0 then syscall_fail (no_error seL4_TruncatedMessage) s
      else do {
        dm \<leftarrow> getSyscallArg s 0 buffer;
        if dm \<ge> numDomains s then syscall_fail (invalid_argument 0) s
        else if excaps = [] then syscall_fail (no_error seL4_TruncatedMessage) s
        else do {
          c \<leftarrow> ctes s (excaps ! 0);
          (case cte_cap c of
             ThreadCap tcb \<Rightarrow> do {
               s \<leftarrow> setThreadState (ksCurThread s) ThreadState_Restart s;
               finished (invokeDomainSetSet tcb dm s)
             }
           | _ \<Rightarrow> syscall_fail (invalid_argument 1) s)
        }
      })"

definition decodeBindNotification :: "ptr \<Rightarrow> ptr list \<Rightarrow> kernel_state \<Rightarrow> (exception \<times> kernel_state) option" where
  "decodeBindNotification tcb excaps s =
     (if excaps = [] then syscall_fail (no_error seL4_TruncatedMessage) s
      else do {
        t \<leftarrow> tcbs s tcb;
        if tcbBoundNotification t \<noteq> 0 then syscall_fail (no_error seL4_IllegalOperation) s
        else do {
          c \<leftarrow> ctes s (excaps ! 0);
          (case cte_cap c of
             NotificationCap _ canReceive _ ntfnPtr \<Rightarrow>
               if \<not> canReceive then syscall_fail (no_error seL4_IllegalOperation) s
               else do {
                 n \<leftarrow> ntfns s ntfnPtr;
                 if ntfnQueue_head n \<noteq> 0 \<or> ntfnBoundTCB n \<noteq> 0 then syscall_fail (no_error seL4_IllegalOperation) s
                 else do {
                   s \<leftarrow> setThreadState (ksCurThread s) ThreadState_Restart s;
                   invokeTCB_NotificationControl tcb ntfnPtr s
                 }
               }
           | _ \<Rightarrow> syscall_fail (no_error seL4_IllegalOperation) s)
        }
      })"

definition decodeUnbindNotification :: "ptr \<Rightarrow> kernel_state \<Rightarrow> (exception \<times> kernel_state) option" where
  "decodeUnbindNotification tcb s = do {
     t \<leftarrow> tcbs s tcb;
     if tcbBoundNotification t = 0 then syscall_fail (no_error seL4_IllegalOperation) s
     else do {
       s \<leftarrow> setThreadState (ksCurThread s) ThreadState_Restart s;
       invokeTCB_NotificationControl tcb 0 s
     }
   }"

definition decodeTCBInvocation :: "word_t \<Rightarrow> word_t \<Rightarrow> ptr \<Rightarrow> ptr \<Rightarrow> bool \<Rightarrow> ptr \<Rightarrow> ptr list \<Rightarrow> kernel_state \<Rightarrow> (exception \<times> kernel_state) option" where
  "decodeTCBInvocation invLabel len tcb slot call buffer excaps s =
     (if invLabel = TCBReadRegisters then decodeReadRegisters tcb len call buffer s
      else if invLabel = TCBWriteRegisters then decodeWriteRegisters tcb len buffer s
      else if invLabel = TCBCopyRegisters then decodeCopyRegisters tcb len buffer excaps s
      else if invLabel = TCBSuspend then do {
        s \<leftarrow> setThreadState (ksCurThread s) ThreadState_Restart s;
        invokeTCB_Suspend tcb s
      }
      else if invLabel = TCBResume then do {
        s \<leftarrow> setThreadState (ksCurThread s) ThreadState_Restart s;
        invokeTCB_Resume tcb s
      }
      else if invLabel = TCBConfigure then decodeTCBConfigure tcb len slot buffer excaps s
      else if invLabel = TCBSetPriority then decodeSetPriority tcb len buffer excaps s
      else if invLabel = TCBSetMCPriority then decodeSetMCPriority tcb len buffer excaps s
      else if invLabel = TCBSetSchedParams then decodeSetSchedParams tcb len buffer excaps s
      else if invLabel = TCBSetIPCBuffer then decodeSetIPCBuffer tcb len slot buffer excaps s
      else if invLabel = TCBSetSpace then decodeSetSpace tcb len slot buffer excaps s
      else if invLabel = TCBBindNotification then decodeBindNotification tcb excaps s
      else if invLabel = TCBUnbindNotification then decodeUnbindNotification tcb s
      else if invLabel = TCBSetTLSBase then decodeSetTLSBase tcb len buffer s
      else if invLabel = TCBSetFlags then decodeSetFlags tcb len call buffer s
      else syscall_fail (no_error seL4_IllegalOperation) s)"

end
