(* ===== verification/KTcbInv.thy ===== *)
theory KTcbInv
  imports KTcb
begin

unbundle bit_operations_syntax

text \<open>Setting the scheduling parameters of a thread: the authority it takes, and what it changes.\<close>

subsection \<open>Requests\<close>

text \<open>
  A request to set the maximum controlled priority or the priority of a thread: the first extra capability is that of a
  thread, whose own maximum controlled priority \<open>m\<close> bounds the new values.
\<close>

definition sched_labels :: "word_t list" where
  "sched_labels = [TCBSetPriority, TCBSetMCPriority, TCBSetSchedParams]"

definition sched_request :: "word_t \<Rightarrow> word_t \<Rightarrow> ptr \<Rightarrow> ptr list \<Rightarrow> kernel_state \<Rightarrow> prio_t option \<Rightarrow> prio_t option \<Rightarrow> prio_t \<Rightarrow> bool" where
  "sched_request label len buffer excaps s mcp prio m \<longleftrightarrow> excaps \<noteq> [] \<and>
     (\<exists>c auth t. ctes s (excaps ! 0) = Some c \<and> cte_cap c = ThreadCap auth \<and> tcbs s auth = Some t \<and> tcbMCP t = m) \<and>
     (if label = TCBSetSchedParams then 2 \<le> len \<and> (\<exists>a b. getSyscallArg s 0 buffer = Some a \<and> getSyscallArg s 1 buffer = Some b \<and> mcp = Some a \<and> prio = Some b)
      else 1 \<le> len \<and> (\<exists>a. getSyscallArg s 0 buffer = Some a \<and> (mcp, prio) = (if label = TCBSetMCPriority then (Some a, None) else (None, Some a)))) \<and>
     (\<forall>p\<in>set_option mcp \<union> set_option prio. p \<le> m)"

definition with_sched :: "prio_t option \<Rightarrow> prio_t option \<Rightarrow> tcb \<Rightarrow> tcb" where
  "with_sched mcp prio t = t\<lparr>tcbMCP := case_option (tcbMCP t) id mcp, tcbPriority := case_option (tcbPriority t) id prio\<rparr>"

text \<open>All controlled priorities are priorities the kernel knows.\<close>

definition mcp_bound :: "kernel_state \<Rightarrow> bool" where
  "mcp_bound s \<longleftrightarrow> (\<forall>t\<in>ran (tcbs s). tcbMCP t \<le> seL4_MaxPrio)"

text \<open>The parameters of the thread are set, the caller is restarted, and of no thread anything else changes but its links in the ready queue.\<close>

definition sched_set :: "kernel_state \<Rightarrow> ptr \<Rightarrow> prio_t option \<Rightarrow> prio_t option \<Rightarrow> kernel_state \<Rightarrow> bool" where
  "sched_set s tcb mcp prio s' \<longleftrightarrow> valid_sched s' \<and> mcp_bound s' \<and> ctes s' = ctes s \<and>
     (\<forall>q. map_option core (tcbs s' q) = map_option (\<lambda>t. core (if q = tcb then with_sched mcp prio t else t)) (tcbs (restart_cur s) q))"

definition sched_outcome :: "word_t \<Rightarrow> word_t \<Rightarrow> ptr \<Rightarrow> ptr \<Rightarrow> ptr list \<Rightarrow> kernel_state \<Rightarrow> exception \<times> kernel_state \<Rightarrow> bool" where
  "sched_outcome label len tcb buffer excaps s = (\<lambda>(r, s'). case r of
     EXCEPTION_NONE \<Rightarrow> \<exists>mcp prio m. sched_request label len buffer excaps s mcp prio m \<and> sched_set s tcb mcp prio s'
   | EXCEPTION_SYSCALL_ERROR e \<Rightarrow> s' = s \<and> (\<forall>mcp prio m. \<not> sched_request label len buffer excaps s mcp prio m)
   | _ \<Rightarrow> False)"

subsection \<open>The invocation\<close>

text \<open>The part of the invocation that these requests use.\<close>

definition set_params :: "ptr \<Rightarrow> prio_t option \<Rightarrow> prio_t option \<Rightarrow> kernel_state \<Rightarrow> kernel_state option" where
  "set_params tcb mcp prio s = do {
     s \<leftarrow> (case mcp of Some m \<Rightarrow> setMCPriority tcb m s | None \<Rightarrow> Some s);
     (case prio of Some p \<Rightarrow> setPriority tcb p s | None \<Rightarrow> Some s)
   }"

lemma thread_control_sched:
  "invokeTCB_ThreadControl tcb 0 0 mcp prio NullCap 0 NullCap 0 0 NullCap 0 thread_control_update_priority s = finished (set_params tcb None (Some prio) s)"
  "invokeTCB_ThreadControl tcb 0 0 mcp prio NullCap 0 NullCap 0 0 NullCap 0 thread_control_update_mcp s = finished (set_params tcb (Some mcp) None s)"
  "invokeTCB_ThreadControl tcb 0 0 mcp prio NullCap 0 NullCap 0 0 NullCap 0 (thread_control_update_mcp OR thread_control_update_priority) s =
     finished (set_params tcb (Some mcp) (Some prio) s)"
  by (simp_all add: invokeTCB_ThreadControl_def thread_control_flags on_success_def finished_def set_params_def map_option_bind)
    (cases "setMCPriority tcb mcp s"; simp)+

lemma restart_cur_sched:
  assumes v: "valid_sched s" and c: "ksCurThread s \<noteq> ksIdleThread s"
  shows "valid_sched (restart_cur s)"
proof -
  obtain t where t: "tcbs s (ksCurThread s) = Some t" using v by (auto simp: valid_sched_def base_sched_def)
  have "succeeds (setThreadState (ksCurThread s) ThreadState_Restart s) valid_sched"
    by (rule succeeds_mono[OF setThreadState_wp[of "{}" s _ t _ "{}"]]) (use v c t in \<open>auto simp: valid_sched_def\<close>)
  then show ?thesis using setThreadState_restart_cur[of s] t by simp
qed

lemma setMCPriority_sched:
  assumes v: "valid_sched s" and t: "tcbs s p = Some t"
  shows "valid_sched (s\<lparr>tcbs := (tcbs s)(p \<mapsto> t\<lparr>tcbMCP := m\<rparr>)\<rparr>)"
proof -
  let ?s = "s\<lparr>tcbs := (tcbs s)(p \<mapsto> t\<lparr>tcbMCP := m\<rparr>)\<rparr>"
  have b: "base_sched {} s" "valid_action s" using v by (auto simp: valid_sched_def)
  have "runnable_type (tsType t)" if "p \<in> qset s" using that b(1) t by (auto simp: base_sched_def runnable_tcb)
  then have b1: "base_sched {} ?s" "qset ?s = qset s"
    using tcb_valid[OF b(1) t] by (intro base_upd_tcb[OF b(1) t]; auto)+
  have r: "runnable ?s q = runnable s q" for q using t by (auto simp: runnable_tcb)
  have "map_option tcbDomain (tcbs ?s q) = map_option tcbDomain (tcbs s q)" for q using t by simp
  moreover have "vm_current ?s = vm_current s" by (rule vm_current_cong) simp_all
  ultimately have "valid_action ?s" using b(2) unfolding valid_action_def b1(2) r by simp
  then show ?thesis using b1 by (simp add: valid_sched_def)
qed

lemma set_params_ok:
  assumes v: "valid_sched s" "mcp_bound s" and t: "tcbs s p = Some t" and m: "\<forall>x\<in>set_option mcp \<union> set_option prio. x \<le> seL4_MaxPrio"
  shows "succeeds (set_params p mcp prio s) (\<lambda>s'. valid_sched s' \<and> mcp_bound s' \<and> ctes s' = ctes s \<and>
    (\<forall>q. map_option core (tcbs s' q) = map_option (\<lambda>t. core (if q = p then with_sched mcp prio t else t)) (tcbs s q)))"
proof -
  define t' where "t' = (case mcp of None \<Rightarrow> t | Some x \<Rightarrow> t\<lparr>tcbMCP := x\<rparr>)"
  define s1 where "s1 = s\<lparr>tcbs := (tcbs s)(p \<mapsto> t')\<rparr>"
  have s1: "(case mcp of Some m \<Rightarrow> setMCPriority p m s | None \<Rightarrow> Some s) = Some s1"
    using t by (auto simp: s1_def t'_def setMCPriority_def fun_upd_idem split: option.splits)
  have v1: "valid_sched s1" using v(1) setMCPriority_sched[OF v(1) t] t by (auto simp: s1_def t'_def fun_upd_idem split: option.splits)
  have m1: "mcp_bound s1" using v(2) t m by (auto simp: mcp_bound_def s1_def t'_def ran_def split: option.splits if_splits)
  have t1: "tcbs s1 p = Some t'" by (simp add: s1_def)
  show ?thesis
  proof (cases prio)
    case None
    then have "with_sched mcp prio t = t'" by (simp add: with_sched_def t'_def split: option.splits)
    then show ?thesis using None s1 v1 m1 t by (simp add: set_params_def) (simp add: s1_def)
  next
    case (Some x)
    have w: "with_sched mcp prio t = t'\<lparr>tcbPriority := x\<rparr>" using Some by (simp add: with_sched_def t'_def split: option.splits)
    have "succeeds (setPriority p x s1) (\<lambda>s'. valid_sched s' \<and> ctes s' = ctes s1 \<and>
        (\<forall>q. map_option core (tcbs s' q) = (if q = p then Some (core (t'\<lparr>tcbPriority := x\<rparr>)) else map_option core (tcbs s1 q))))"
      by (rule succeeds_mono[OF setPriority_wp[OF v1 t1]]) (use m Some in auto)
    then obtain s' where s': "setPriority p x s1 = Some s'" "valid_sched s'" "ctes s' = ctes s"
      "\<And>q. map_option core (tcbs s' q) = (if q = p then Some (core (t'\<lparr>tcbPriority := x\<rparr>)) else map_option core (tcbs s1 q))"
      by (auto simp: succeeds_def s1_def)
    have "map_option tcbMCP (tcbs s' q) = map_option tcbMCP (tcbs s1 q)" for q
      using arg_cong[OF s'(4)[of q], of "map_option tcbMCP"] t1 by (simp add: option.map_comp comp_def core_def split: if_splits)
    then have "tcbMCP t2 \<le> seL4_MaxPrio" if "tcbs s' q = Some t2" for q t2
      using that m1 by (metis (mono_tags, lifting) mcp_bound_def map_option_eq_Some ranI)
    then have "mcp_bound s'" by (auto simp: mcp_bound_def ran_def)
    then show ?thesis using Some s1 s' t w by (simp add: set_params_def) (auto simp: s1_def)
  qed
qed

text \<open>The decoder, for a well-formed message.\<close>

lemma decode_sched:
  assumes l: "label \<in> set sched_labels" and a: "getSyscallArg s 0 buffer = Some a" "getSyscallArg s 1 buffer = Some b"
    and c: "excaps \<noteq> []" "ctes s (excaps ! 0) = Some c" "cte_cap c = ThreadCap auth" "tcbs s auth = Some t" "tcbMCP t \<le> seL4_MaxPrio" and cur: "tcbs s (ksCurThread s) \<noteq> None"
    and len: "(if label = TCBSetSchedParams then 2 else 1) \<le> len"
  shows "decodeTCBInvocation label len tcb slot call buffer excaps s =
    (let mcp = (if label = TCBSetPriority then None else Some a); prio = (if label = TCBSetPriority then Some a else if label = TCBSetMCPriority then None else Some b)
     in if \<forall>p\<in>set_option mcp \<union> set_option prio. p \<le> tcbMCP t then finished (set_params tcb mcp prio (restart_cur s))
        else syscall_fail (range_error seL4_MinPrio (tcbMCP t)) s)"
proof -
  note s = setThreadState_restart_cur[OF cur]
  have n: "TCBSetPriority \<noteq> TCBSetMCPriority" "TCBSetPriority \<noteq> TCBSetSchedParams" "TCBSetMCPriority \<noteq> TCBSetSchedParams" by (simp_all add: tcb_labels)
  have l1: "decodeTCBInvocation TCBSetPriority len tcb slot call buffer excaps s = decodeSetPriority tcb len buffer excaps s"
    "decodeTCBInvocation TCBSetMCPriority len tcb slot call buffer excaps s = decodeSetMCPriority tcb len buffer excaps s"
    "decodeTCBInvocation TCBSetSchedParams len tcb slot call buffer excaps s = decodeSetSchedParams tcb len buffer excaps s"
    by (simp_all add: decodeTCBInvocation_def tcb_labels)
  consider "label = TCBSetPriority" "\<not> len < 1" | "label = TCBSetMCPriority" "\<not> len < 1" | "label = TCBSetSchedParams" "\<not> len < 2"
    using l len n by (auto simp: sched_labels_def word_less_nat_alt word_le_nat_alt)
  then show ?thesis
  proof cases
    case 1
    then show ?thesis using a c s by (auto simp: l1 decodeSetPriority_def checkPrio_def thread_control_sched not_le n)
  next
    case 2
    then show ?thesis using a c s n by (auto simp: l1 decodeSetMCPriority_def checkPrio_def thread_control_sched not_le)
  next
    case 3
    then show ?thesis using a c s n by (auto simp: l1 decodeSetSchedParams_def checkPrio_def thread_control_sched not_le)
  qed
qed

text \<open>The decoder, for a message that is too short or names no thread.\<close>

lemma decode_sched_refused:
  assumes l: "label \<in> set sched_labels" and a: "getSyscallArg s 0 buffer = Some a" "getSyscallArg s 1 buffer = Some b" and x: "\<forall>x\<in>set excaps. ctes s x \<noteq> None"
    and r: "len < (if label = TCBSetSchedParams then 2 else 1) \<or> excaps = [] \<or> (\<exists>c. ctes s (excaps ! 0) = Some c \<and> (\<forall>u. cte_cap c \<noteq> ThreadCap u))"
  shows "\<exists>e. decodeTCBInvocation label len tcb slot call buffer excaps s = syscall_fail e s"
proof -
  have d: "decodeTCBInvocation label len tcb slot call buffer excaps s =
      (if label = TCBSetPriority then decodeSetPriority tcb len buffer excaps s
       else if label = TCBSetMCPriority then decodeSetMCPriority tcb len buffer excaps s else decodeSetSchedParams tcb len buffer excaps s)"
    and lab: "label = TCBSetPriority \<or> label = TCBSetMCPriority \<or> label = TCBSetSchedParams"
    using l by (auto simp: decodeTCBInvocation_def sched_labels_def tcb_labels)
  show ?thesis unfolding d using r lab a x
    by (cases excaps) (auto simp: decodeSetPriority_def decodeSetMCPriority_def decodeSetSchedParams_def tcb_labels split: if_splits cap.splits)
qed

subsection \<open>Property\<close>

text \<open>
  C30. A request to set the priority or the maximum controlled priority of a thread always returns. It is granted exactly
  when the message is complete and names a thread whose own maximum controlled priority is at least the new values, so that
  no thread gets a priority or control beyond that of the thread the caller holds a capability for. Then the parameters of the
  thread are set, the invariant of the scheduler holds, whether the thread is queued, current or blocked, and of other
  threads nothing but their place in the ready queue and the state of the caller changes. Otherwise nothing changes.
\<close>

theorem sched_authority:
  assumes v: "valid_sched s" "mcp_bound s" and cur: "ksCurThread s \<noteq> ksIdleThread s" and l: "label \<in> set sched_labels" and t: "tcbs s tcb \<noteq> None"
    and buf: "buffer \<noteq> 0" and ex: "\<forall>x\<in>set excaps. ctes s x \<noteq> None" and caps: "\<forall>c\<in>ran (ctes s). \<forall>a. cte_cap c = ThreadCap a \<longrightarrow> tcbs s a \<noteq> None"
  shows "succeeds (decodeTCBInvocation label len tcb slot call buffer excaps s) (sched_outcome label len tcb buffer excaps s)"
proof -
  have c: "tcbs s (ksCurThread s) \<noteq> None" using v(1) by (auto simp: valid_sched_def base_sched_def)
  obtain a b where ab: "getSyscallArg s 0 buffer = Some a" "getSyscallArg s 1 buffer = Some b" using getSyscallArg_ok[OF c buf] by metis
  define n :: word_t where "n = (if label = TCBSetSchedParams then 2 else 1)"
  have f: "succeeds (syscall_fail e s) (sched_outcome label len tcb buffer excaps s)" if "\<And>mcp prio m. \<not> sched_request label len buffer excaps s mcp prio m" for e
    using that by (simp add: syscall_fail_def sched_outcome_def)
  show ?thesis
  proof (cases "len < n \<or> excaps = [] \<or> (\<exists>c. ctes s (excaps ! 0) = Some c \<and> (\<forall>u. cte_cap c \<noteq> ThreadCap u))")
    case True
    then have "\<not> sched_request label len buffer excaps s mcp prio m" for mcp prio m by (auto simp: sched_request_def n_def)
    from f[OF this] show ?thesis using decode_sched_refused[OF l ab ex] True unfolding n_def by metis
  next
    case False
    then obtain x auth where x: "\<not> len < n" "excaps \<noteq> []" "ctes s (excaps ! 0) = Some x" "cte_cap x = ThreadCap auth" using ex by (cases excaps) auto
    obtain t' where t': "tcbs s auth = Some t'" using caps x(3,4) by (auto simp: ran_def)
    have m: "tcbMCP t' \<le> seL4_MaxPrio" using v(2) t' by (auto simp: mcp_bound_def ran_def)
    define mcp prio where "mcp = (if label = TCBSetPriority then None else Some a)" and "prio = (if label = TCBSetPriority then Some a else if label = TCBSetMCPriority then None else Some b)"
    let ?ok = "\<forall>p\<in>set_option mcp \<union> set_option prio. p \<le> tcbMCP t'"
    have le: "(if label = TCBSetSchedParams then 2 else 1) \<le> len" using x(1) by (simp add: n_def not_less split: if_splits)
    have "label = TCBSetPriority \<or> label = TCBSetMCPriority \<or> label = TCBSetSchedParams" using l by (auto simp: sched_labels_def)
    moreover have "TCBSetPriority \<noteq> TCBSetMCPriority" "TCBSetPriority \<noteq> TCBSetSchedParams" "TCBSetMCPriority \<noteq> TCBSetSchedParams" by (simp_all add: tcb_labels)
    ultimately have rq: "sched_request label len buffer excaps s mcp' prio' m' \<longleftrightarrow> mcp' = mcp \<and> prio' = prio \<and> m' = tcbMCP t' \<and> ?ok" for mcp' prio' m'
      using x t' ab le by (auto simp: sched_request_def mcp_def prio_def split: if_splits)
    have eq: "decodeTCBInvocation label len tcb slot call buffer excaps s =
        (if ?ok then finished (set_params tcb mcp prio (restart_cur s)) else syscall_fail (range_error seL4_MinPrio (tcbMCP t')) s)"
      using decode_sched[OF l ab x(2,3,4) t' m c le] by (simp add: mcp_def prio_def)
    show ?thesis
    proof (cases ?ok)
      case True
      have mb: "mcp_bound (restart_cur s)" using v(2) by (auto simp: mcp_bound_def restart_cur_def ran_def split: if_splits)
      have "tcbs (restart_cur s) tcb \<noteq> None" using t by (auto simp: restart_cur_def)
      then obtain tt where tt: "tcbs (restart_cur s) tcb = Some tt" by auto
      have "\<forall>p\<in>set_option mcp \<union> set_option prio. p \<le> seL4_MaxPrio" using True m by (meson order_trans)
      from set_params_ok[OF restart_cur_sched[OF v(1) cur] mb tt this]
      have "succeeds (set_params tcb mcp prio (restart_cur s)) (sched_set s tcb mcp prio)" by (rule succeeds_mono) (auto simp: sched_set_def)
      then show ?thesis unfolding eq using True rq by (auto simp: succeeds_def finished_def sched_outcome_def)
    next
      case False
      then have "\<not> sched_request label len buffer excaps s mcp' prio' m'" for mcp' prio' m' using rq by blast
      from f[OF this] show ?thesis unfolding eq if_not_P[OF False] .
    qed
  qed
qed

subsection \<open>A small system\<close>

text \<open>The running thread asks to raise the runnable one to priority 9, with its own capability as authority.\<close>

definition ex_prio :: kernel_state where
  "ex_prio = ex_kernel\<lparr>ctes := (ctes ex_kernel)(0x9000 \<mapsto> \<lparr>cte_cap = ThreadCap 0x2000, cteMDBNode = nullMDBNode\<rparr>),
     tcbs := (tcbs ex_kernel)(0x2000 \<mapsto> (ex_thread ThreadState_Running 5)\<lparr>tcbContext := (\<lambda>_. 0)(2 := 9), tcbMCP := 10\<rparr>)\<rparr>"

lemma ex_prio_queues: "valid_queues ex_prio (\<lambda>_. [])"
  by (auto simp: valid_queues_def ex_prio_def ex_kernel_def valid_tcb_def ex_thread_def bitmap_ok_def nonempty_def seL4_MaxPrio_def split: if_splits)

lemma ex_prio_sched: "valid_sched ex_prio"
proof -
  have q: "valid_q ex_prio" "qset ex_prio = {}" using ex_prio_queues qset_queues[OF ex_prio_queues] by (auto simp: valid_q_def)
  have "vm_current ex_prio" by (simp add: vm_current_def vm_root_def ex_prio_def ex_kernel_def)
  then show ?thesis using q
    by (auto simp: valid_sched_def base_sched_def valid_action_def valid_dom_def ex_prio_def ex_kernel_def ex_thread_def runnable_tcb thread_slots_def
        SchedulerAction_ResumeCurrentThread_def SchedulerAction_ChooseNewThread_def)
qed

theorem sched_authority_witness:
  "\<exists>s'. decodeTCBInvocation TCBSetPriority 1 0x3000 0x9040 True 0x20000 [0x9000] ex_prio = Some (EXCEPTION_NONE, s') \<and>
     map_option tcbPriority (tcbs s' 0x3000) = Some 9 \<and> valid_sched s'"
proof -
  have a: "getSyscallArg ex_prio 0 0x20000 = Some 9"
    by (simp add: getSyscallArg_def n_msgRegisters_def msgRegisters_def getRegister_def ex_prio_def ex_kernel_def)
  have "succeeds (decodeTCBInvocation TCBSetPriority 1 0x3000 0x9040 True 0x20000 [0x9000] ex_prio) (sched_outcome TCBSetPriority 1 0x3000 0x20000 [0x9000] ex_prio)"
    by (rule sched_authority[OF ex_prio_sched])
      (auto simp: mcp_bound_def ex_prio_def ex_kernel_def ex_thread_def seL4_MaxPrio_def sched_labels_def ran_def split: if_splits)
  then obtain e s' where r: "decodeTCBInvocation TCBSetPriority 1 0x3000 0x9040 True 0x20000 [0x9000] ex_prio = Some (e, s')"
    "sched_outcome TCBSetPriority 1 0x3000 0x20000 [0x9000] ex_prio (e, s')"
    by (auto simp: succeeds_def)
  have rq: "sched_request TCBSetPriority 1 0x20000 [0x9000] ex_prio None (Some 9) 10"
    using a by (simp add: sched_request_def tcb_labels) (simp add: ex_prio_def ex_thread_def)
  have e: "e = EXCEPTION_NONE" using r(2) rq by (cases e) (auto simp: sched_outcome_def)
  then obtain mcp prio m where q: "sched_request TCBSetPriority 1 0x20000 [0x9000] ex_prio mcp prio m" "sched_set ex_prio 0x3000 mcp prio s'"
    using r(2) by (auto simp: sched_outcome_def)
  have "prio = Some 9" using q(1) a by (simp add: sched_request_def tcb_labels)
  then have "map_option core (tcbs s' 0x3000) = Some (core (with_sched mcp (Some 9) (ex_thread ThreadState_Restart 7)))"
    using q(2) by (simp add: sched_set_def restart_cur_def ex_prio_def ex_kernel_def)
  from arg_cong[OF this, of "map_option tcbPriority"] have "map_option tcbPriority (tcbs s' 0x3000) = Some 9"
    by (simp add: option.map_comp comp_def core_def with_sched_def)
  then show ?thesis using r(1) e q(2) by (simp add: sched_set_def)
qed

end
