(* ===== verification/KVSpaceInv.thy ===== *)
theory KVSpaceInv
  imports KVSpace KSchedule
begin

text \<open>
  What the address-space operations of \<open>src/kernel/src/arch/arm/64/kernel/vspace.c\<close> guarantee: the
  walk of \<open>lookupPTSlot\<close> as a property of the page tables, and the effect of \<open>unmapPage\<close> and
  \<open>deleteASID\<close> on what the hardware translates.
\<close>

unbundle bit_operations_syntax

subsection \<open>The walk\<close>

text \<open>Writing an entry that is no table does not change the walk that ends at it.\<close>

lemma walk_upd:
  "lookupPTSlot_loop a v l slot b = (r, b') \<Longrightarrow> \<not> pte_is_table (ptes a r) \<Longrightarrow> \<not> pte_is_table e \<Longrightarrow>
   lookupPTSlot_loop (a\<lparr>ptes := (ptes a)(r := e)\<rparr>) v l slot b = (r, b')"
proof (induction l arbitrary: slot b)
  case (Suc l)
  then show ?case by (cases "slot = r") (auto simp: Let_def split: if_splits)
qed simp

lemma walk_cong: "ptes a' = ptes a \<Longrightarrow> lookupPTSlot_loop a' v l slot b = lookupPTSlot_loop a v l slot b"
  by (induction l arbitrary: slot b) (auto simp: Let_def)

lemma lookupPTSlot_cong: "ptes (ksArch s') = ptes (ksArch s) \<Longrightarrow> lookupPTSlot s' root v = lookupPTSlot s root v"
  using walk_cong[of "ksArch s'" "ksArch s"] by (simp add: lookupPTSlot_def Let_def)

lemma lookupPTSlot_upd:
  assumes "lookupPTSlot s root v = (slot, b)" "\<not> pte_is_table (ptes (ksArch s) slot)" "\<not> pte_is_table e"
    "ptes (ksArch s') = (ptes (ksArch s))(slot := e)"
  shows "lookupPTSlot s' root v = (slot, b)"
proof -
  have "lookupPTSlot s' root v = lookupPTSlot (s\<lparr>ksArch := (ksArch s)\<lparr>ptes := (ptes (ksArch s))(slot := e)\<rparr>\<rparr>) root v"
    using assms(4) by (intro lookupPTSlot_cong) simp
  then show ?thesis using assms(1-3) by (simp add: lookupPTSlot_def Let_def walk_upd)
qed

text \<open>
  The tables the hardware passes on its way to an address: from the root, at level 3, an entry of the kind
  that leads to a table gives the table of the next level. The entry of a level is selected by nine bits of
  the address.
\<close>

definition level_slot :: "ptr \<Rightarrow> word_t \<Rightarrow> nat \<Rightarrow> ptr" where
  "level_slot pt v k = pt + 8 * take_bit 9 (drop_bit (9 * k + 12) v)"

inductive table_at :: "kernel_state \<Rightarrow> ptr \<Rightarrow> word_t \<Rightarrow> nat \<Rightarrow> ptr \<Rightarrow> bool" for s root v where
  table_root: "table_at s root v 3 root"
| table_next: "table_at s root v (Suc k) pt \<Longrightarrow> ptes (ksArch s) (level_slot pt v (Suc k)) = pte_table base \<Longrightarrow>
    table_at s root v k (paddr_to_pptr base)"

lemma level_slot_pte_at:
  assumes "k \<le> 3"
  shows "pte_at pt (drop_bit (unat (9 * of_nat k + 12 :: word_t)) v AND MASKw 9) = level_slot pt v k"
proof -
  have "k = 0 \<or> k = 1 \<or> k = 2 \<or> k = 3" using assms by linarith
  then have "unat (9 * of_nat k + 12 :: word_t) = 9 * k + 12" by auto
  then show ?thesis by (simp add: pte_at_def level_slot_def and_MASKw push_bit_eq_mult mult.commute)
qed

lemma walk_tables:
  assumes "l \<le> 3" "table_at s root v l pt" "lookupPTSlot_loop (ksArch s) v l (level_slot pt v l) (9 * of_nat l + 12) = (r, b)"
  shows "\<exists>k pt. k \<le> 3 \<and> table_at s root v k pt \<and> r = level_slot pt v k \<and> b = 9 * of_nat k + 12 \<and>
    (k = 0 \<or> \<not> pte_is_table (ptes (ksArch s) r))"
  using assms
proof (induction l arbitrary: pt)
  case 0
  then show ?case by (intro exI[of _ 0] exI[of _ pt]) auto
next
  case (Suc l)
  show ?case
  proof (cases "ptes (ksArch s) (level_slot pt v (Suc l))")
    case (pte_table base)
    have b: "9 * of_nat (Suc l) + 12 - PT_INDEX_BITS = 9 * of_nat l + 12" by (simp add: PT_INDEX_BITS_def)
    have "lookupPTSlot_loop (ksArch s) v l (level_slot (paddr_to_pptr base) v l) (9 * of_nat l + 12) = (r, b)"
      using Suc.prems(1,3) level_slot_pte_at[of l "paddr_to_pptr base" v]
      unfolding lookupPTSlot_loop.simps Let_def b pte_table by (simp add: PT_INDEX_BITS_def)
    then show ?thesis using Suc.IH table_next[OF Suc.prems(2) pte_table] Suc.prems(1) by simp
  qed (use Suc.prems in \<open>auto intro!: exI[of _ "Suc l"] exI[of _ pt]\<close>)
qed

lemma lookupPTSlot_tables:
  "\<exists>k pt. k \<le> 3 \<and> table_at s root v k pt \<and> lookupPTSlot s root v = (level_slot pt v k, 9 * of_nat k + 12) \<and>
     (k = 0 \<or> \<not> pte_is_table (ptes (ksArch s) (level_slot pt v k)))"
proof -
  obtain r b where "lookupPTSlot_loop (ksArch s) v 3 (level_slot root v 3) (9 * of_nat 3 + 12) = (r, b)" by fastforce
  moreover have "lookupPTSlot s root v = lookupPTSlot_loop (ksArch s) v 3 (level_slot root v 3) (9 * of_nat 3 + 12)"
    using level_slot_pte_at[of 3 root v]
    by (simp add: lookupPTSlot_def UPT_LEVELS_def PT_INDEX_BITS_def seL4_PageBits_def seL4_VSpaceIndexBits_def Let_def)
  ultimately show ?thesis using walk_tables[OF _ table_root] by fastforce
qed

text \<open>A page of a frame that the hardware finds at an address of an address space.\<close>

definition page_at :: "kernel_state \<Rightarrow> word_t \<Rightarrow> word_t \<Rightarrow> vm_page_size \<Rightarrow> ptr \<Rightarrow> bool" where
  "page_at s asid vptr sz pptr = (case findVSpaceForASID s asid of
     Inl _ \<Rightarrow> False
   | Inr root \<Rightarrow> (let (ptSlot, ptBitsLeft) = lookupPTSlot s root vptr; pte = ptes (ksArch s) ptSlot
       in ptBitsLeft = pageBitsForSize sz \<and> pte_is_page_type pte \<and> pte_get_page_base_address pte = pptr_to_paddr pptr))"

lemma findVSpaceForASID_cong:
  "armKSASIDTable (ksArch s') = armKSASIDTable (ksArch s) \<Longrightarrow> asidPools (ksArch s') = asidPools (ksArch s) \<Longrightarrow>
   findVSpaceForASID s' asid = findVSpaceForASID s asid"
  by (simp add: findVSpaceForASID_def findMapForASID_def Let_def)

lemma pte_page_not_table: "pte_is_page_type e \<Longrightarrow> \<not> pte_is_table e"
  by (cases e) auto

lemma unmapPage_wp:
  assumes a: "asid < 0x10000"
  shows "\<exists>s'. unmapPage sz asid vptr pptr s = Some s' \<and> \<not> page_at s' asid vptr sz pptr \<and>
     (if page_at s asid vptr sz pptr
      then \<exists>root k pt slot. findVSpaceForASID s asid = Inr root \<and> k \<le> 3 \<and> table_at s root vptr k pt \<and> slot = level_slot pt vptr k \<and>
        pageBitsForSize sz = 9 * of_nat k + 12 \<and> pte_is_page_type (ptes (ksArch s) slot) \<and>
        pte_get_page_base_address (ptes (ksArch s) slot) = pptr_to_paddr pptr \<and>
        s' = s\<lparr>ksArch := (ksArch s)\<lparr>ptes := (ptes (ksArch s))(slot := pte_invalid),
          tlbOps := TlbSingle (push_bit 48 asid OR drop_bit 12 vptr) # tlbOps (ksArch s)\<rparr>\<rparr>
      else s' = s)"
proof (cases "page_at s asid vptr sz pptr")
  case False
  then have "unmapPage sz asid vptr pptr s = Some s"
    by (auto simp: unmapPage_def page_at_def Let_def split: sum.splits prod.splits)
  then show ?thesis using False by simp
next
  case True
  then obtain root slot where r: "findVSpaceForASID s asid = Inr root" "lookupPTSlot s root vptr = (slot, pageBitsForSize sz)"
    and p: "pte_is_page_type (ptes (ksArch s) slot)" "pte_get_page_base_address (ptes (ksArch s) slot) = pptr_to_paddr pptr"
    by (auto simp: page_at_def Let_def split: sum.splits prod.splits)
  let ?s = "invalidateTLBByASIDVA asid vptr (set_pte slot pte_invalid s)"
  have 16: "asid < BITw 16" using a by (simp add: BITw_def BIT_def push_bit_eq_mult)
  have u: "unmapPage sz asid vptr pptr s = Some ?s" using r p 16 by (simp add: unmapPage_def Let_def)
  have st: "?s = s\<lparr>ksArch := (ksArch s)\<lparr>ptes := (ptes (ksArch s))(slot := pte_invalid),
      tlbOps := TlbSingle (push_bit 48 asid OR drop_bit 12 vptr) # tlbOps (ksArch s)\<rparr>\<rparr>"
    and pt: "ptes (ksArch ?s) = (ptes (ksArch s))(slot := pte_invalid)"
    and v: "findVSpaceForASID ?s asid = Inr root"
    using r(1) by (auto simp: invalidateTLBByASIDVA_def set_pte_def upd_arch_def seL4_PageBits_def findVSpaceForASID_def findMapForASID_def Let_def)
  have "lookupPTSlot ?s root vptr = (slot, pageBitsForSize sz)"
    using lookupPTSlot_upd[OF r(2) pte_page_not_table[OF p(1)] _ pt] by simp
  then have gone: "\<not> page_at ?s asid vptr sz pptr" using v pt by (simp add: page_at_def Let_def)
  obtain k t where t: "k \<le> 3" "table_at s root vptr k t" "slot = level_slot t vptr k" "pageBitsForSize sz = 9 * of_nat k + 12"
    using lookupPTSlot_tables[of s root vptr] r(2) by auto
  have "\<exists>root k pt slot. findVSpaceForASID s asid = Inr root \<and> k \<le> 3 \<and> table_at s root vptr k pt \<and> slot = level_slot pt vptr k \<and>
        pageBitsForSize sz = 9 * of_nat k + 12 \<and> pte_is_page_type (ptes (ksArch s) slot) \<and>
        pte_get_page_base_address (ptes (ksArch s) slot) = pptr_to_paddr pptr \<and>
        ?s = s\<lparr>ksArch := (ksArch s)\<lparr>ptes := (ptes (ksArch s))(slot := pte_invalid),
          tlbOps := TlbSingle (push_bit 48 asid OR drop_bit 12 vptr) # tlbOps (ksArch s)\<rparr>\<rparr>"
    using r(1) t p st by (intro exI[of _ root] exI[of _ k] exI[of _ t] exI[of _ slot] conjI)
  then show ?thesis using u gone True by (intro exI[of _ ?s]) simp
qed

lemma vm_root_cases:
  "vm_root s p = (0, armKSGlobalUserVSpace (ksArch s)) \<or>
   (\<exists>asid root. vm_root s p = (asid, pptr_to_paddr root) \<and> findVSpaceForASID s asid = Inr root)"
proof (cases "\<exists>asid root. map_option cte_cap (ctes s (TCB_PTR_CTE_PTR p tcbVTable)) = Some (ArchCap (VSpaceCap asid root True)) \<and> findVSpaceForASID s asid = Inr root")
  case True
  then obtain asid root where r: "map_option cte_cap (ctes s (TCB_PTR_CTE_PTR p tcbVTable)) = Some (ArchCap (VSpaceCap asid root True))" "findVSpaceForASID s asid = Inr root"
    by blast
  then have "vm_root s p = (asid, pptr_to_paddr root)" unfolding vm_root_def r(1) by simp
  then show ?thesis using r(2) by blast
next
  case False
  then have "vm_root s p = (0, armKSGlobalUserVSpace (ksArch s))"
    unfolding vm_root_def
    by (cases "map_option cte_cap (ctes s (TCB_PTR_CTE_PTR p tcbVTable))") (auto split: cap.splits arch_cap.splits)
  then show ?thesis ..
qed

lemma vm_root_deleted:
  assumes "findVSpaceForASID s asid \<noteq> Inr root" "asid \<noteq> 0"
  shows "vm_root s p \<noteq> (asid, pptr_to_paddr root)"
proof
  assume e: "vm_root s p = (asid, pptr_to_paddr root)"
  then obtain root' where "pptr_to_paddr root' = pptr_to_paddr root" "findVSpaceForASID s asid = Inr root'"
    using vm_root_cases[of s p] assms(2) by auto
  then show False using assms(1) by (simp add: pptr_to_paddr_def)
qed

definition same_asid_slot :: "kernel_state \<Rightarrow> word_t \<Rightarrow> word_t \<Rightarrow> bool" where
  "same_asid_slot s a b \<longleftrightarrow> armKSASIDTable (ksArch s) (ASID_POOL a) = armKSASIDTable (ksArch s) (ASID_POOL b) \<and> ASID_LOW a = ASID_LOW b"

lemma deleteASID_wp:
  assumes cur: "ctes s (TCB_PTR_CTE_PTR (ksCurThread s) tcbVTable) \<noteq> None"
  shows "\<exists>s'. deleteASID asid root s = Some s' \<and> findVSpaceForASID s' asid \<noteq> Inr root \<and>
     (\<forall>b. \<not> same_asid_slot s asid b \<longrightarrow> findMapForASID s' b = findMapForASID s b) \<and>
     (if findVSpaceForASID s asid = Inr root
      then tlbOps (ksArch s') = TlbASID asid # tlbOps (ksArch s) \<and> ttbr (ksArch s') = vm_root s' (ksCurThread s')
      else s' = s)"
proof (cases "findVSpaceForASID s asid = Inr root")
  case False
  then have "deleteASID asid root s = Some s"
    by (auto simp: deleteASID_def findVSpaceForASID_def findMapForASID_def Let_def)
  then show ?thesis using False by simp
next
  case True
  define poolPtr where "poolPtr = armKSASIDTable (ksArch s) (ASID_POOL asid)"
  have p: "poolPtr \<noteq> 0" "asidPools (ksArch s) poolPtr (ASID_LOW asid) = asid_map_vspace root"
    using True by (auto simp: findVSpaceForASID_def findMapForASID_def Let_def poolPtr_def split: if_splits asid_map.splits)
  let ?a = "(ksArch s)\<lparr>tlbOps := TlbASID asid # tlbOps (ksArch s), asidPools := (asidPools (ksArch s))(poolPtr := (asidPools (ksArch s) poolPtr)(ASID_LOW asid := asid_map_none))\<rparr>"
  let ?r = "s\<lparr>ksArch := ?a\<rparr>"
  let ?s = "?r\<lparr>ksArch := ?a\<lparr>ttbr := vm_root ?r (ksCurThread s)\<rparr>\<rparr>"
  have "deleteASID asid root s = setVMRoot (ksCurThread s) ?r"
    using p by (simp add: deleteASID_def Let_def invalidateTLBByASID_def upd_arch_def flip: poolPtr_def)
  also have "\<dots> = Some ?s" using setVMRoot_eq[of ?r "ksCurThread s"] cur by simp
  finally have d: "deleteASID asid root s = Some ?s" .
  have "findVSpaceForASID ?s asid \<noteq> Inr root"
    using p by (simp add: findVSpaceForASID_def findMapForASID_def Let_def flip: poolPtr_def)
  moreover have "findMapForASID ?s b = findMapForASID s b" if "\<not> same_asid_slot s asid b" for b
    using that by (auto simp: findMapForASID_def Let_def same_asid_slot_def poolPtr_def)
  moreover have "vm_root ?s (ksCurThread s) = vm_root ?r (ksCurThread s)" by (rule vm_root_cong) simp_all
  ultimately show ?thesis using d True by (simp del: fun_upd_apply)
qed

subsection \<open>Properties\<close>

text \<open>The walk of the translation tables always ends, after at most four levels, at the
  entry that nine bits of the address select in a table the hardware reaches for that address, and reports 12, 21, 30
  or 39 bits left according to the level; unless it ends at the last level, the entry leads to no further table.\<close>

lemma lookup_pt_slot:
  "\<exists>k pt. k \<le> 3 \<and> table_at s root v k pt \<and> lookupPTSlot s root v = (level_slot pt v k, 9 * of_nat k + 12) \<and>
     (k = 0 \<or> \<not> pte_is_table (ptes (ksArch s) (level_slot pt v k)))"
  by (rule lookupPTSlot_tables)

text \<open>C39: Unmapping a page always succeeds for a 16-bit identifier; afterwards the walk at the
  address no longer finds a page of that size of that frame. If one was there, the entry that mapped it, which nine bits of
  the address select in the table the hardware reaches at the level of the page size, is now invalid and
  the translation of the address is dropped from the lookaside buffer, and the state has not changed in any other way: no other entry, no table on the way.
  Otherwise nothing changed, so a stale capability cannot remove the mapping of another frame.\<close>

theorem unmap_page:
  assumes "asid < 0x10000"
  shows "\<exists>s'. unmapPage sz asid vptr pptr s = Some s' \<and> \<not> page_at s' asid vptr sz pptr \<and>
     (if page_at s asid vptr sz pptr
      then \<exists>root k pt slot. findVSpaceForASID s asid = Inr root \<and> k \<le> 3 \<and> table_at s root vptr k pt \<and> slot = level_slot pt vptr k \<and>
        pageBitsForSize sz = 9 * of_nat k + 12 \<and> pte_is_page_type (ptes (ksArch s) slot) \<and>
        pte_get_page_base_address (ptes (ksArch s) slot) = pptr_to_paddr pptr \<and>
        s' = s\<lparr>ksArch := (ksArch s)\<lparr>ptes := (ptes (ksArch s))(slot := pte_invalid),
          tlbOps := TlbSingle (push_bit 48 asid OR drop_bit 12 vptr) # tlbOps (ksArch s)\<rparr>\<rparr>
      else s' = s)"
  using unmapPage_wp[OF assms] .

text \<open>C40: Deleting an address space removes it from its identifier and from no other one, drops its
  translations from the lookaside buffer, and never leaves it active: the translation table base
  register afterwards does not name it under that identifier.\<close>

theorem delete_asid:
  assumes "ctes s (TCB_PTR_CTE_PTR (ksCurThread s) tcbVTable) \<noteq> None" "findVSpaceForASID s asid = Inr root" "asid \<noteq> 0"
  shows "\<exists>s'. deleteASID asid root s = Some s' \<and> findVSpaceForASID s' asid \<noteq> Inr root \<and>
     (\<forall>b. \<not> same_asid_slot s asid b \<longrightarrow> findMapForASID s' b = findMapForASID s b) \<and>
     tlbOps (ksArch s') = TlbASID asid # tlbOps (ksArch s) \<and> ttbr (ksArch s') \<noteq> (asid, pptr_to_paddr root)"
proof -
  obtain s' where s': "deleteASID asid root s = Some s'" "findVSpaceForASID s' asid \<noteq> Inr root"
    "\<forall>b. \<not> same_asid_slot s asid b \<longrightarrow> findMapForASID s' b = findMapForASID s b"
    "tlbOps (ksArch s') = TlbASID asid # tlbOps (ksArch s)" "ttbr (ksArch s') = vm_root s' (ksCurThread s')"
    using deleteASID_wp[OF assms(1), of asid root] assms(2) by auto
  moreover have "ttbr (ksArch s') \<noteq> (asid, pptr_to_paddr root)" using s'(5) vm_root_deleted[OF s'(2) assms(3)] by simp
  ultimately show ?thesis by blast
qed

subsection \<open>Witnesses\<close>

text \<open>An address space with identifier 1 and one large page at \<open>0x400000\<close>.\<close>

definition ex_vm :: kernel_state where
  "ex_vm = ex_kernel\<lparr>ksArch := (ksArch ex_kernel)\<lparr>
     armKSASIDTable := (\<lambda>i. if i = 0 then 0x5000 else 0),
     asidPools := (\<lambda>p i. if p = 0x5000 \<and> i = 1 then asid_map_vspace 0xffffff8000010000 else asid_map_none),
     ptes := (\<lambda>_. pte_invalid)(0xffffff8000010000 := pte_table 0x11000, 0xffffff8000011000 := pte_table 0x12000,
       0xffffff8000012010 := pte_page False 0x200000 1 1 0 1 4)\<rparr>\<rparr>"

lemma ex_vm_find: "findVSpaceForASID ex_vm 1 = Inr 0xffffff8000010000"
  by (simp add: findVSpaceForASID_def findMapForASID_def ex_vm_def ASID_POOL_def ASID_LOW_def asidLowBits_def MASKw_def MASK_def BIT_def
      push_bit_eq_mult drop_bit_eq_div Let_def)

lemma ex_vm_lookup: "lookupPTSlot ex_vm 0xffffff8000010000 0x400000 = (0xffffff8000012010, 21)"
proof -
  have m: "MASKw 9 = 511" by (simp add: MASKw_def MASK_def BIT_def push_bit_eq_mult)
  have l: "UPT_LEVELS - 1 = Suc (Suc (Suc 0))" by (simp add: UPT_LEVELS_def)
  show ?thesis unfolding lookupPTSlot_def l PT_INDEX_BITS_def seL4_PageBits_def seL4_VSpaceIndexBits_def m Let_def
    by (simp add: pte_at_def push_bit_eq_mult drop_bit_eq_div ex_vm_def paddr_to_pptr_def PPTR_BASE_OFFSET_def PT_INDEX_BITS_def m Let_def)
qed

lemma ex_vm_page: "page_at ex_vm 1 0x400000 ARMLargePage 0xffffff8000200000"
  by (simp add: page_at_def ex_vm_find ex_vm_lookup Let_def seL4_LargePageBits_def)
    (simp add: ex_vm_def pte_get_page_base_address_def PTE_ADDR_def pptr_to_paddr_def PPTR_BASE_OFFSET_def)

theorem unmap_page_witness:
  "page_at ex_vm 1 0x400000 ARMLargePage 0xffffff8000200000 \<and>
   (\<exists>s'. unmapPage ARMLargePage 1 0x400000 0xffffff8000200000 ex_vm = Some s' \<and> \<not> page_at s' 1 0x400000 ARMLargePage 0xffffff8000200000)"
  using unmap_page[of 1 ARMLargePage "0x400000" "0xffffff8000200000" ex_vm] ex_vm_page by auto

theorem delete_asid_witness:
  "\<exists>s'. deleteASID 1 0xffffff8000010000 ex_vm = Some s' \<and> findVSpaceForASID s' 1 \<noteq> Inr 0xffffff8000010000"
proof -
  have "ctes ex_vm (TCB_PTR_CTE_PTR (ksCurThread ex_vm) tcbVTable) \<noteq> None" by (simp add: ex_vm_def ex_kernel_def)
  from delete_asid[OF this ex_vm_find] show ?thesis by auto
qed

end
