(* ===== verification/KArch.thy ===== *)
theory KArch
  imports KCNodeDelete KVSpaceInv
begin

unbundle bit_operations_syntax

text \<open>
  Invocations of address spaces, tables, frames and identifiers,
  \<^verbatim>\<open>kernel/src/arch/arm/64/kernel/vspace.c\<close>, and of interrupt control and handlers, \<^verbatim>\<open>kernel/src/object/interrupt.c\<close> and
  \<^verbatim>\<open>kernel/src/arch/arm/object/interrupt.c\<close>. Cache maintenance has no effect on the state of the model.
\<close>

subsection \<open>Invocation labels\<close>

definition IRQIssueIRQHandler :: word_t where "IRQIssueIRQHandler = 26"
definition IRQAckIRQ :: word_t where "IRQAckIRQ = 27"
definition IRQSetIRQHandler :: word_t where "IRQSetIRQHandler = 28"
definition IRQClearIRQHandler :: word_t where "IRQClearIRQHandler = 29"
definition ARMVSpaceClean_Data :: word_t where "ARMVSpaceClean_Data = 31"
definition ARMVSpaceInvalidate_Data :: word_t where "ARMVSpaceInvalidate_Data = 32"
definition ARMVSpaceCleanInvalidate_Data :: word_t where "ARMVSpaceCleanInvalidate_Data = 33"
definition ARMVSpaceUnify_Instruction :: word_t where "ARMVSpaceUnify_Instruction = 34"
definition ARMPageTableMap :: word_t where "ARMPageTableMap = 35"
definition ARMPageTableUnmap :: word_t where "ARMPageTableUnmap = 36"
definition ARMPageMap :: word_t where "ARMPageMap = 37"
definition ARMPageUnmap :: word_t where "ARMPageUnmap = 38"
definition ARMPageClean_Data :: word_t where "ARMPageClean_Data = 39"
definition ARMPageInvalidate_Data :: word_t where "ARMPageInvalidate_Data = 40"
definition ARMPageCleanInvalidate_Data :: word_t where "ARMPageCleanInvalidate_Data = 41"
definition ARMPageUnify_Instruction :: word_t where "ARMPageUnify_Instruction = 42"
definition ARMPageGetAddress :: word_t where "ARMPageGetAddress = 43"
definition ARMASIDControlMakePool :: word_t where "ARMASIDControlMakePool = 44"
definition ARMASIDPoolAssign :: word_t where "ARMASIDPoolAssign = 45"
definition ARMIRQIssueIRQHandlerTrigger :: word_t where "ARMIRQIssueIRQHandlerTrigger = 46"
definition ARMIRQIssueSGISignal :: word_t where "ARMIRQIssueSGISignal = 47"

subsection \<open>Flushing\<close>

definition vspace_flush_labels :: "word_t list" where
  "vspace_flush_labels = [ARMVSpaceClean_Data, ARMVSpaceInvalidate_Data, ARMVSpaceCleanInvalidate_Data, ARMVSpaceUnify_Instruction]"

definition page_flush_labels :: "word_t list" where
  "page_flush_labels = [ARMPageClean_Data, ARMPageInvalidate_Data, ARMPageCleanInvalidate_Data, ARMPageUnify_Instruction]"

definition doFlush :: "word_t \<Rightarrow> word_t \<Rightarrow> word_t \<Rightarrow> word_t \<Rightarrow> kernel_state \<Rightarrow> kernel_state option" where
  "doFlush invLabel start end_addr pstart s =
     (if invLabel \<in> set vspace_flush_labels \<or> invLabel \<in> set page_flush_labels then Some s else None)"

text \<open>Flushing happens in the address space of the addresses, which the kernel leaves again.\<close>

definition performPageFlush :: "word_t \<Rightarrow> ptr \<Rightarrow> word_t \<Rightarrow> word_t \<Rightarrow> word_t \<Rightarrow> word_t \<Rightarrow> kernel_state \<Rightarrow> (exception \<times> kernel_state) option" where
  "performPageFlush invLabel vspaceRoot asid start end_addr pstart s = do {
     s \<leftarrow> (if start < end_addr then do {
             (root_switched, s) \<leftarrow> setVMRootForFlush vspaceRoot asid s;
             s \<leftarrow> doFlush invLabel start end_addr pstart s;
             if root_switched then setVMRoot (ksCurThread s) s else Some s
           }
           else Some s);
     Some (EXCEPTION_NONE, s)
   }"

definition performVSpaceFlush :: "word_t \<Rightarrow> ptr \<Rightarrow> word_t \<Rightarrow> word_t \<Rightarrow> word_t \<Rightarrow> word_t \<Rightarrow> kernel_state \<Rightarrow> (exception \<times> kernel_state) option" where
  "performVSpaceFlush invLabel vspaceRoot asid start end_addr pstart s = do {
     s \<leftarrow> (if start < end_addr then do {
             (root_switched, s) \<leftarrow> setVMRootForFlush vspaceRoot asid s;
             s \<leftarrow> doFlush invLabel start end_addr pstart s;
             if root_switched then setVMRoot (ksCurThread s) s else Some s
           }
           else Some s);
     Some (EXCEPTION_NONE, s)
   }"

definition no_write_rights :: "pte \<Rightarrow> bool option" where
  "no_write_rights pte = map_option (\<lambda>r. r \<noteq> VMReadWrite) (vmRightsFromPTE pte)"

definition decodeARMVSpaceRootInvocation :: "word_t \<Rightarrow> word_t \<Rightarrow> arch_cap \<Rightarrow> ptr \<Rightarrow> kernel_state \<Rightarrow> (exception \<times> kernel_state) option" where
  "decodeARMVSpaceRootInvocation invLabel len cap buffer s =
     (if invLabel \<notin> set vspace_flush_labels then syscall_fail (no_error seL4_IllegalOperation) s
      else if len < 2 then syscall_fail (no_error seL4_TruncatedMessage) s
      else do {
        start \<leftarrow> getSyscallArg s 0 buffer;
        end_addr \<leftarrow> getSyscallArg s 1 buffer;
        if end_addr \<le> start then syscall_fail (invalid_argument 1) s
        else if end_addr > USER_TOP then syscall_fail (no_error seL4_IllegalOperation) s
        else if \<not> isValidNativeRoot (ArchCap cap) then syscall_fail (invalid_capability 0) s
        else do {
          let vspaceRoot = capVSBasePtr cap;
          let asid = capVSMappedASID cap;
          (case findVSpaceForASID s asid of
             Inl f \<Rightarrow> syscall_fail (lookup_error False f) s
           | Inr root \<Rightarrow>
               if root \<noteq> vspaceRoot then syscall_fail (invalid_capability 0) s
               else do {
                 let (ptSlot, ptBitsLeft) = lookupPTSlot s vspaceRoot start;
                 let pte = ptes (ksArch s) ptSlot;
                 if \<not> pte_is_page_type pte then do {
                   s \<leftarrow> setThreadState (ksCurThread s) ThreadState_Restart s;
                   Some (EXCEPTION_NONE, s)
                 }
                 else if ROUND_DOWN start ptBitsLeft \<noteq> ROUND_DOWN (end_addr - 1) ptBitsLeft
                 then syscall_fail (range_error start (ROUND_DOWN start ptBitsLeft + MASKw ptBitsLeft)) s
                 else do {
                   bad \<leftarrow> (if invLabel = ARMVSpaceInvalidate_Data then no_write_rights pte else Some False);
                   if bad then syscall_fail (no_error seL4_IllegalOperation) s
                   else do {
                     let frame_base = pte_get_page_base_address pte;
                     let pstart = frame_base + (start AND MASKw ptBitsLeft);
                     s \<leftarrow> setThreadState (ksCurThread s) ThreadState_Restart s;
                     performVSpaceFlush invLabel vspaceRoot asid start (end_addr - 1) pstart s
                   }
                 }
               })
        }
      })"

subsection \<open>Page tables\<close>

definition performPageTableInvocationMap :: "cap \<Rightarrow> ptr \<Rightarrow> pte \<Rightarrow> ptr \<Rightarrow> kernel_state \<Rightarrow> (exception \<times> kernel_state) option" where
  "performPageTableInvocationMap cap ctSlot pte ptSlot s = do {
     s \<leftarrow> set_cap ctSlot cap s;
     Some (EXCEPTION_NONE, set_pte ptSlot pte s)
   }"

definition performPageTableInvocationUnmap :: "arch_cap \<Rightarrow> ptr \<Rightarrow> kernel_state \<Rightarrow> (exception \<times> kernel_state) option" where
  "performPageTableInvocationUnmap cap ctSlot s = (case cap of
     PageTableCap asid pt mapped addr \<Rightarrow> do {
       s \<leftarrow> (if mapped then do {
               s \<leftarrow> unmapPageTable asid addr pt s;
               Some (clearMemory pt seL4_PageTableBits s)
             } else Some s);
       c \<leftarrow> ctes s ctSlot;
       (case cte_cap c of
          ArchCap (PageTableCap asid pt _ addr) \<Rightarrow> do {
            s \<leftarrow> set_cap ctSlot (ArchCap (PageTableCap asid pt False addr)) s;
            Some (EXCEPTION_NONE, s)
          }
        | _ \<Rightarrow> None)
     }
   | _ \<Rightarrow> None)"

definition decodeARMPageTableInvocation :: "word_t \<Rightarrow> word_t \<Rightarrow> ptr \<Rightarrow> arch_cap \<Rightarrow> ptr \<Rightarrow> ptr list \<Rightarrow> kernel_state \<Rightarrow>
    (exception \<times> kernel_state) option" where
  "decodeARMPageTableInvocation invLabel len cte cap buffer excaps s =
     (if invLabel = ARMPageTableUnmap then do {
        final \<leftarrow> isFinalCapability s cte;
        if \<not> final then syscall_fail (no_error seL4_RevokeFirst) s
        else do {
          s \<leftarrow> setThreadState (ksCurThread s) ThreadState_Restart s;
          performPageTableInvocationUnmap cap cte s
        }
      }
      else if invLabel \<noteq> ARMPageTableMap then syscall_fail (no_error seL4_IllegalOperation) s
      else if len < 2 \<or> excaps = [] then syscall_fail (no_error seL4_TruncatedMessage) s
      else if capPTIsMapped cap then syscall_fail (invalid_capability 0) s
      else do {
        vaddr \<leftarrow> getSyscallArg s 0 buffer;
        c \<leftarrow> ctes s (excaps ! 0);
        (case cte_cap c of
           ArchCap (VSpaceCap asid vspaceRoot True) \<Rightarrow>
             if vaddr > USER_TOP then syscall_fail (invalid_argument 0) s
             else (case findVSpaceForASID s asid of
                 Inl f \<Rightarrow> syscall_fail (lookup_error False f) s
               | Inr root \<Rightarrow>
                   if root \<noteq> vspaceRoot then syscall_fail (invalid_capability 1) s
                   else do {
                     let (ptSlot, ptBitsLeft) = lookupPTSlot s vspaceRoot vaddr;
                     if ptBitsLeft = seL4_PageBits \<or> pte_get_valid (ptes (ksArch s) ptSlot) then syscall_fail (no_error seL4_DeleteFirst) s
                     else do {
                       let pte = pte_table (PTE_ADDR (pptr_to_paddr (capPTBasePtr cap)));
                       let cap = PageTableCap asid (capPTBasePtr cap) True (vaddr AND NOT (MASKw ptBitsLeft));
                       s \<leftarrow> setThreadState (ksCurThread s) ThreadState_Restart s;
                       performPageTableInvocationMap (ArchCap cap) cte pte ptSlot s
                     }
                   })
         | _ \<Rightarrow> syscall_fail (invalid_capability 1) s)
      })"

subsection \<open>Frames\<close>

definition performPageInvocationMap :: "word_t \<Rightarrow> arch_cap \<Rightarrow> ptr \<Rightarrow> pte \<Rightarrow> ptr \<Rightarrow> kernel_state \<Rightarrow> (exception \<times> kernel_state) option" where
  "performPageInvocationMap asid cap ctSlot pte ptSlot s = do {
     let tlbflush_required = pte_get_valid (ptes (ksArch s) ptSlot);
     s \<leftarrow> set_cap ctSlot (ArchCap cap) s;
     let s = set_pte ptSlot pte s;
     s \<leftarrow> (if tlbflush_required then do {
             kassert (asid < BITw 16);
             Some (invalidateTLBByASIDVA asid (capFMappedAddress cap) s)
           } else Some s);
     Some (EXCEPTION_NONE, s)
   }"

definition performPageInvocationUnmap :: "arch_cap \<Rightarrow> ptr \<Rightarrow> kernel_state \<Rightarrow> (exception \<times> kernel_state) option" where
  "performPageInvocationUnmap cap ctSlot s = do {
     s \<leftarrow> (if capFMappedASID cap \<noteq> 0 then unmapPage (capFSize cap) (capFMappedASID cap) (capFMappedAddress cap) (capFBasePtr cap) s else Some s);
     c \<leftarrow> ctes s ctSlot;
     (case cte_cap c of
        ArchCap (FrameCap _ p sz _ vr d) \<Rightarrow> do {
          s \<leftarrow> set_cap ctSlot (ArchCap (FrameCap asidInvalid p sz 0 vr d)) s;
          Some (EXCEPTION_NONE, s)
        }
      | _ \<Rightarrow> None)
   }"

definition performPageGetAddress :: "ptr \<Rightarrow> bool \<Rightarrow> kernel_state \<Rightarrow> (exception \<times> kernel_state) option" where
  "performPageGetAddress base_ptr call s = do {
     let base = pptr_to_paddr base_ptr;
     let thread = ksCurThread s;
     s \<leftarrow> (if call then do {
             ipcBuffer \<leftarrow> lookupIPCBuffer True thread s;
             s \<leftarrow> setRegister thread badgeRegister 0 s;
             (len, s) \<leftarrow> setMR thread ipcBuffer 0 base s;
             setRegister thread msgInfoRegister (wordFromMessageInfo (seL4_MessageInfo_new 0 0 0 len)) s
           } else Some s);
     s \<leftarrow> setThreadState (ksCurThread s) ThreadState_Running s;
     Some (EXCEPTION_NONE, s)
   }"

definition checkVPAlignment :: "vm_page_size \<Rightarrow> word_t \<Rightarrow> bool" where
  "checkVPAlignment sz w \<longleftrightarrow> w AND MASKw (pageBitsForSize sz) = 0"

definition decodeARMPageMap :: "word_t \<Rightarrow> ptr \<Rightarrow> arch_cap \<Rightarrow> ptr \<Rightarrow> ptr list \<Rightarrow> kernel_state \<Rightarrow> (exception \<times> kernel_state) option" where
  "decodeARMPageMap len cte cap buffer excaps s =
     (if len < 3 \<or> excaps = [] then syscall_fail (no_error seL4_TruncatedMessage) s
      else do {
        vaddr \<leftarrow> getSyscallArg s 0 buffer;
        w \<leftarrow> getSyscallArg s 2 buffer;
        let attributes = vmAttributesFromWord w;
        c \<leftarrow> ctes s (excaps ! 0);
        let frameSize = capFSize cap;
        w \<leftarrow> getSyscallArg s 1 buffer;
        let vmRights = maskVMRights (capFVMRights cap) (rightsFromWord w);
        (case cte_cap c of
           ArchCap (VSpaceCap asid vspaceRoot True) \<Rightarrow> (case findVSpaceForASID s asid of
               Inl f \<Rightarrow> syscall_fail (lookup_error False f) s
             | Inr root \<Rightarrow>
                 if root \<noteq> vspaceRoot then syscall_fail (invalid_capability 1) s
                 else if \<not> checkVPAlignment frameSize vaddr then syscall_fail (no_error seL4_AlignmentError) s
                 else if capFMappedASID cap \<noteq> asidInvalid \<and> capFMappedASID cap \<noteq> asid then syscall_fail (invalid_capability 1) s
                 else if capFMappedASID cap \<noteq> asidInvalid \<and> capFMappedAddress cap \<noteq> vaddr then syscall_fail (invalid_argument 0) s
                 else if capFMappedASID cap = asidInvalid \<and> vaddr + BITw (pageBitsForSize frameSize) - 1 > USER_TOP
                 then syscall_fail (invalid_argument 0) s
                 else do {
                   let cap = FrameCap asid (capFBasePtr cap) frameSize vaddr (capFVMRights cap) (capFIsDevice cap);
                   let base = pptr_to_paddr (capFBasePtr cap);
                   let (ptSlot, ptBitsLeft) = lookupPTSlot s vspaceRoot vaddr;
                   if ptBitsLeft \<noteq> pageBitsForSize frameSize then syscall_fail (lookup_error False (Lookup_missing_capability ptBitsLeft)) s
                   else do {
                     s \<leftarrow> setThreadState (ksCurThread s) ThreadState_Restart s;
                     performPageInvocationMap asid cap cte (makeUserPagePTE base vmRights attributes frameSize) ptSlot s
                   }
                 })
         | _ \<Rightarrow> syscall_fail (invalid_capability 1) s)
      })"

definition decodeARMPageFlush :: "word_t \<Rightarrow> word_t \<Rightarrow> arch_cap \<Rightarrow> ptr \<Rightarrow> kernel_state \<Rightarrow> (exception \<times> kernel_state) option" where
  "decodeARMPageFlush invLabel len cap buffer s =
     (if len < 2 then syscall_fail (no_error seL4_TruncatedMessage) s
      else if capFMappedASID cap = 0 then syscall_fail (no_error seL4_IllegalOperation) s
      else do {
        let vaddr = capFMappedAddress cap;
        let asid = capFMappedASID cap;
        (case findVSpaceForASID s asid of
           Inl f \<Rightarrow> syscall_fail (lookup_error False f) s
         | Inr root \<Rightarrow> do {
             start \<leftarrow> getSyscallArg s 0 buffer;
             end_addr \<leftarrow> getSyscallArg s 1 buffer;
             if end_addr \<le> start then syscall_fail (invalid_argument 1) s
             else do {
               let page_size = BITw (pageBitsForSize (capFSize cap));
               if start \<ge> page_size \<or> end_addr > page_size then syscall_fail (invalid_argument 0) s
               else do {
                 let pstart = pptr_to_paddr (capFBasePtr cap) + start;
                 let (ptSlot, ptBitsLeft) = lookupPTSlot s root vaddr;
                 let pte = ptes (ksArch s) ptSlot;
                 if ptBitsLeft \<noteq> pageBitsForSize (capFSize cap) \<or> \<not> pte_is_page_type pte \<or>
                    pte_get_page_base_address pte \<noteq> pptr_to_paddr (capFBasePtr cap)
                 then syscall_fail (invalid_capability 0) s
                 else do {
                   bad \<leftarrow> (if invLabel = ARMPageInvalidate_Data then no_write_rights pte else Some False);
                   if bad then syscall_fail (no_error seL4_IllegalOperation) s
                   else do {
                     s \<leftarrow> setThreadState (ksCurThread s) ThreadState_Restart s;
                     performPageFlush invLabel root asid (vaddr + start) (vaddr + end_addr - 1) pstart s
                   }
                 }
               }
             }
           })
      })"

definition decodeARMFrameInvocation :: "word_t \<Rightarrow> word_t \<Rightarrow> ptr \<Rightarrow> arch_cap \<Rightarrow> bool \<Rightarrow> ptr \<Rightarrow> ptr list \<Rightarrow> kernel_state \<Rightarrow>
    (exception \<times> kernel_state) option" where
  "decodeARMFrameInvocation invLabel len cte cap call buffer excaps s =
     (if invLabel = ARMPageMap then decodeARMPageMap len cte cap buffer excaps s
      else if invLabel = ARMPageUnmap then do {
        s \<leftarrow> setThreadState (ksCurThread s) ThreadState_Restart s;
        performPageInvocationUnmap cap cte s
      }
      else if invLabel \<in> set page_flush_labels then decodeARMPageFlush invLabel len cap buffer s
      else if invLabel = ARMPageGetAddress then do {
        s \<leftarrow> setThreadState (ksCurThread s) ThreadState_Restart s;
        performPageGetAddress (capFBasePtr cap) call s
      }
      else syscall_fail (no_error seL4_IllegalOperation) s)"

subsection \<open>Address space identifiers\<close>

definition performASIDControlInvocation :: "ptr \<Rightarrow> ptr \<Rightarrow> ptr \<Rightarrow> word_t \<Rightarrow> kernel_state \<Rightarrow> (exception \<times> kernel_state) option" where
  "performASIDControlInvocation frame slot parent asid_base s = do {
     c \<leftarrow> ctes s parent;
     (case cte_cap c of
        UntypedCap d sz _ p \<Rightarrow> do {
          s \<leftarrow> set_cap parent (UntypedCap d sz (MAX_FREE_INDEX sz) p) s;
          let s = clearMemory frame seL4_ASIDPoolBits s;
          s \<leftarrow> cteInsert (ArchCap (ASIDPoolCap asid_base frame)) parent slot s;
          kassert (asid_base AND MASKw asidLowBits = 0);
          Some (EXCEPTION_NONE, upd_arch (\<lambda>a. a\<lparr>armKSASIDTable := (armKSASIDTable a)(ASID_POOL asid_base := frame)\<rparr>) s)
        }
      | _ \<Rightarrow> None)
   }"

text \<open>The first entry from \<open>i\<close> on that is free; \<open>n\<close> entries are left.\<close>

fun free_index :: "(word_t \<Rightarrow> bool) \<Rightarrow> word_t \<Rightarrow> nat \<Rightarrow> word_t" where
  "free_index used i 0 = i"
| "free_index used i (Suc n) = (if used i then free_index used (i + 1) n else i)"

definition decodeARMASIDControl :: "word_t \<Rightarrow> word_t \<Rightarrow> ptr \<Rightarrow> ptr list \<Rightarrow> kernel_state \<Rightarrow> (exception \<times> kernel_state) option" where
  "decodeARMASIDControl invLabel len buffer excaps s =
     (if invLabel \<noteq> ARMASIDControlMakePool then syscall_fail (no_error seL4_IllegalOperation) s
      else if len < 2 \<or> length excaps < 2 then syscall_fail (no_error seL4_TruncatedMessage) s
      else do {
        index \<leftarrow> getSyscallArg s 0 buffer;
        depth \<leftarrow> getSyscallArg s 1 buffer;
        let parentSlot = excaps ! 0;
        untyped \<leftarrow> ctes s parentSlot;
        root \<leftarrow> ctes s (excaps ! 1);
        let i = free_index (\<lambda>i. armKSASIDTable (ksArch s) i \<noteq> 0) 0 (unat nASIDPools);
        if i = nASIDPools then syscall_fail (no_error seL4_DeleteFirst) s
        else do {
          let asid_base = push_bit (unat asidLowBits) i;
          (case cte_cap untyped of
             UntypedCap isDevice blockSize _ frame \<Rightarrow>
               if blockSize \<noteq> seL4_ASIDPoolBits \<or> isDevice then syscall_fail (invalid_capability 1) s
               else do {
                 status \<leftarrow> ensureNoChildren s parentSlot;
                 (case status of
                    Inl e \<Rightarrow> syscall_fail e s
                  | Inr _ \<Rightarrow> do {
                      lu_ret \<leftarrow> lookupTargetSlot s (cte_cap root) index depth;
                      (case lu_ret of
                         Inl e \<Rightarrow> syscall_fail e s
                       | Inr destSlot \<Rightarrow> do {
                           status \<leftarrow> ensureEmptySlot s destSlot;
                           (case status of
                              Inl e \<Rightarrow> syscall_fail e s
                            | Inr _ \<Rightarrow> do {
                                s \<leftarrow> setThreadState (ksCurThread s) ThreadState_Restart s;
                                performASIDControlInvocation frame destSlot parentSlot asid_base s
                              })
                         })
                    })
               }
           | _ \<Rightarrow> syscall_fail (invalid_capability 1) s)
        }
      })"

definition performASIDPoolInvocation :: "word_t \<Rightarrow> ptr \<Rightarrow> ptr \<Rightarrow> kernel_state \<Rightarrow> (exception \<times> kernel_state) option" where
  "performASIDPoolInvocation asid poolPtr vspaceCapSlot s = do {
     c \<leftarrow> ctes s vspaceCapSlot;
     (case cte_cap c of
        ArchCap (VSpaceCap _ root _) \<Rightarrow> do {
          s \<leftarrow> set_cap vspaceCapSlot (ArchCap (VSpaceCap asid root True)) s;
          Some (EXCEPTION_NONE, upd_arch (\<lambda>a. a\<lparr>asidPools := (asidPools a)(poolPtr := (asidPools a poolPtr)(ASID_LOW asid := asid_map_vspace root))\<rparr>) s)
        }
      | _ \<Rightarrow> None)
   }"

definition decodeARMASIDPool :: "word_t \<Rightarrow> word_t \<Rightarrow> ptr \<Rightarrow> ptr list \<Rightarrow> kernel_state \<Rightarrow> (exception \<times> kernel_state) option" where
  "decodeARMASIDPool invLabel asid_base poolPtr excaps s =
     (if invLabel \<noteq> ARMASIDPoolAssign then syscall_fail (no_error seL4_IllegalOperation) s
      else if excaps = [] then syscall_fail (no_error seL4_TruncatedMessage) s
      else do {
        let vspaceCapSlot = excaps ! 0;
        c \<leftarrow> ctes s vspaceCapSlot;
        (case cte_cap c of
           ArchCap (VSpaceCap _ _ False) \<Rightarrow> do {
             let pool = armKSASIDTable (ksArch s) (ASID_POOL asid_base);
             if pool = 0 then syscall_fail (lookup_error False Lookup_invalid_root) s
             else if pool \<noteq> poolPtr then syscall_fail (invalid_capability 0) s
             else do {
               let i = free_index (\<lambda>i. asid_base + i = 0 \<or> asidPools (ksArch s) pool i \<noteq> asid_map_none) 0 (2 ^ unat asidLowBits);
               if i = BITw asidLowBits then syscall_fail (no_error seL4_DeleteFirst) s
               else do {
                 s \<leftarrow> setThreadState (ksCurThread s) ThreadState_Restart s;
                 performASIDPoolInvocation (asid_base + i) pool vspaceCapSlot s
               }
             }
           }
         | _ \<Rightarrow> syscall_fail (invalid_capability 1) s)
      })"

definition decodeARMMMUInvocation :: "word_t \<Rightarrow> word_t \<Rightarrow> ptr \<Rightarrow> arch_cap \<Rightarrow> bool \<Rightarrow> ptr \<Rightarrow> ptr list \<Rightarrow> kernel_state \<Rightarrow>
    (exception \<times> kernel_state) option" where
  "decodeARMMMUInvocation invLabel len cte cap call buffer excaps s = (case cap of
     VSpaceCap _ _ _ \<Rightarrow> decodeARMVSpaceRootInvocation invLabel len cap buffer s
   | PageTableCap _ _ _ _ \<Rightarrow> decodeARMPageTableInvocation invLabel len cte cap buffer excaps s
   | FrameCap _ _ _ _ _ _ \<Rightarrow> decodeARMFrameInvocation invLabel len cte cap call buffer excaps s
   | ASIDControlCap \<Rightarrow> decodeARMASIDControl invLabel len buffer excaps s
   | ASIDPoolCap asid_base pool \<Rightarrow> decodeARMASIDPool invLabel asid_base pool excaps s
   | _ \<Rightarrow> None)"

subsection \<open>Interrupts\<close>

definition NUM_SGIS :: word_t where "NUM_SGIS = 16"
definition GIC_SGI_NUM_TARGETS :: word_t where "GIC_SGI_NUM_TARGETS = 8"

definition setIRQTrigger :: "irq_t \<Rightarrow> bool \<Rightarrow> kernel_state \<Rightarrow> kernel_state" where
  "setIRQTrigger irq trigger s =
     (let index = irq div 16; offset = (irq mod 16) * 2; b = ucast (BITw (offset + 1))
      in s\<lparr>gicConfig := (gicConfig s)(index := if trigger then gicConfig s index OR b else gicConfig s index AND NOT b)\<rparr>)"

definition plat_SGITargetValid :: "word_t \<Rightarrow> bool" where
  "plat_SGITargetValid target \<longleftrightarrow> target < GIC_SGI_NUM_TARGETS"

definition plat_sendSGI :: "word_t \<Rightarrow> word_t \<Rightarrow> kernel_state \<Rightarrow> kernel_state" where
  "plat_sendSGI irq target s = s\<lparr>sgiControl := ucast (push_bit 16 (BITw target) OR irq) # sgiControl s\<rparr>"

definition Arch_checkIRQ :: "irq_t \<Rightarrow> irq_t \<Rightarrow> syscall_error + unit" where
  "Arch_checkIRQ maxIRQ irq_w = (if irq_w > maxIRQ then Inl (range_error 0 maxIRQ) else Inr ())"

text \<open>The checks that issuing a capability for an interrupt has in common, up to the slot for it.\<close>

definition decode_issue :: "irq_t \<Rightarrow> word_t \<Rightarrow> cap \<Rightarrow> word_t \<Rightarrow> word_t \<Rightarrow> kernel_state \<Rightarrow> (syscall_error + ptr) option" where
  "decode_issue maxIRQ irq cnodeCap index depth s = (case Arch_checkIRQ maxIRQ irq of
     Inl e \<Rightarrow> Some (Inl e)
   | Inr _ \<Rightarrow>
       if isIRQActive s irq then Some (Inl (no_error seL4_RevokeFirst))
       else do {
         lu_ret \<leftarrow> lookupTargetSlot s cnodeCap index depth;
         (case lu_ret of
            Inl e \<Rightarrow> Some (Inl e)
          | Inr destSlot \<Rightarrow> map_option (map_sum id (\<lambda>_. destSlot)) (ensureEmptySlot s destSlot))
       })"

definition Arch_invokeIRQControl :: "irq_t \<Rightarrow> ptr \<Rightarrow> ptr \<Rightarrow> bool \<Rightarrow> kernel_state \<Rightarrow> (exception \<times> kernel_state) option" where
  "Arch_invokeIRQControl irq handlerSlot controlSlot trigger s = finished (invokeIRQControl irq handlerSlot controlSlot (setIRQTrigger irq trigger s))"

definition Arch_invokeIssueSGISignal :: "word_t \<Rightarrow> word_t \<Rightarrow> ptr \<Rightarrow> ptr \<Rightarrow> kernel_state \<Rightarrow> (exception \<times> kernel_state) option" where
  "Arch_invokeIssueSGISignal irq target sgiSlot controlSlot s = finished (cteInsert (ArchCap (SGISignalCap irq target)) controlSlot sgiSlot s)"

definition Arch_decodeIRQControlInvocation :: "irq_t \<Rightarrow> word_t \<Rightarrow> word_t \<Rightarrow> ptr \<Rightarrow> ptr \<Rightarrow> ptr list \<Rightarrow> kernel_state \<Rightarrow>
    (exception \<times> kernel_state) option" where
  "Arch_decodeIRQControlInvocation maxIRQ invLabel len srcSlot buffer excaps s =
     (if invLabel = ARMIRQIssueIRQHandlerTrigger then
        (if len < 4 \<or> excaps = [] then syscall_fail (no_error seL4_TruncatedMessage) s
         else do {
           irq \<leftarrow> getSyscallArg s 0 buffer;
           trigger \<leftarrow> getSyscallArg s 1 buffer;
           index \<leftarrow> getSyscallArg s 2 buffer;
           depth \<leftarrow> getSyscallArg s 3 buffer;
           c \<leftarrow> ctes s (excaps ! 0);
           r \<leftarrow> decode_issue maxIRQ irq (cte_cap c) index depth s;
           (case r of
              Inl e \<Rightarrow> syscall_fail e s
            | Inr destSlot \<Rightarrow> do {
                s \<leftarrow> setThreadState (ksCurThread s) ThreadState_Restart s;
                Arch_invokeIRQControl irq destSlot srcSlot (trigger \<noteq> 0) s
              })
         })
      else if invLabel = ARMIRQIssueSGISignal then
        (if len < 4 \<or> excaps = [] then syscall_fail (no_error seL4_TruncatedMessage) s
         else do {
           irq \<leftarrow> getSyscallArg s 0 buffer;
           target \<leftarrow> getSyscallArg s 1 buffer;
           index \<leftarrow> getSyscallArg s 2 buffer;
           depth \<leftarrow> getSyscallArg s 3 buffer;
           c \<leftarrow> ctes s (excaps ! 0);
           if irq \<ge> NUM_SGIS then syscall_fail (range_error 0 (NUM_SGIS - 1)) s
           else if \<not> plat_SGITargetValid target then syscall_fail (invalid_argument 1) s
           else do {
             lu_ret \<leftarrow> lookupTargetSlot s (cte_cap c) index depth;
             (case lu_ret of
                Inl e \<Rightarrow> syscall_fail e s
              | Inr destSlot \<Rightarrow> do {
                  status \<leftarrow> ensureEmptySlot s destSlot;
                  (case status of
                     Inl e \<Rightarrow> syscall_fail e s
                   | Inr _ \<Rightarrow> do {
                       s \<leftarrow> setThreadState (ksCurThread s) ThreadState_Restart s;
                       Arch_invokeIssueSGISignal irq target destSlot srcSlot s
                     })
                })
           }
         })
      else syscall_fail (no_error seL4_IllegalOperation) s)"

definition decodeIRQControlInvocation :: "irq_t \<Rightarrow> word_t \<Rightarrow> word_t \<Rightarrow> ptr \<Rightarrow> ptr \<Rightarrow> ptr list \<Rightarrow> kernel_state \<Rightarrow>
    (exception \<times> kernel_state) option" where
  "decodeIRQControlInvocation maxIRQ invLabel len srcSlot buffer excaps s =
     (if invLabel = IRQIssueIRQHandler then
        (if len < 3 \<or> excaps = [] then syscall_fail (no_error seL4_TruncatedMessage) s
         else do {
           irq \<leftarrow> getSyscallArg s 0 buffer;
           index \<leftarrow> getSyscallArg s 1 buffer;
           depth \<leftarrow> getSyscallArg s 2 buffer;
           c \<leftarrow> ctes s (excaps ! 0);
           r \<leftarrow> decode_issue maxIRQ irq (cte_cap c) index depth s;
           (case r of
              Inl e \<Rightarrow> syscall_fail e s
            | Inr destSlot \<Rightarrow> do {
                s \<leftarrow> setThreadState (ksCurThread s) ThreadState_Restart s;
                finished (invokeIRQControl irq destSlot srcSlot s)
              })
         })
      else Arch_decodeIRQControlInvocation maxIRQ invLabel len srcSlot buffer excaps s)"

definition decodeIRQHandlerInvocation :: "word_t \<Rightarrow> irq_t \<Rightarrow> ptr list \<Rightarrow> kernel_state \<Rightarrow> (exception \<times> kernel_state) option" where
  "decodeIRQHandlerInvocation invLabel irq excaps s =
     (if invLabel = IRQAckIRQ then do {
        s \<leftarrow> setThreadState (ksCurThread s) ThreadState_Restart s;
        Some (EXCEPTION_NONE, invokeIRQHandler_AckIRQ irq s)
      }
      else if invLabel = IRQSetIRQHandler then
        (if excaps = [] then syscall_fail (no_error seL4_TruncatedMessage) s
         else do {
           c \<leftarrow> ctes s (excaps ! 0);
           (case cte_cap c of
              NotificationCap _ _ True _ \<Rightarrow> do {
                s \<leftarrow> setThreadState (ksCurThread s) ThreadState_Restart s;
                finished (invokeIRQHandler_SetIRQHandler irq (cte_cap c) (excaps ! 0) s)
              }
            | _ \<Rightarrow> syscall_fail (invalid_capability 0) s)
         })
      else if invLabel = IRQClearIRQHandler then do {
        s \<leftarrow> setThreadState (ksCurThread s) ThreadState_Restart s;
        finished (invokeIRQHandler_ClearIRQHandler irq s)
      }
      else syscall_fail (no_error seL4_IllegalOperation) s)"

definition invokeSGISignalGenerate :: "word_t \<Rightarrow> word_t \<Rightarrow> kernel_state \<Rightarrow> (exception \<times> kernel_state) option" where
  "invokeSGISignalGenerate irq target s = Some (EXCEPTION_NONE, plat_sendSGI irq target s)"

definition decodeSGISignalInvocation :: "word_t \<Rightarrow> word_t \<Rightarrow> kernel_state \<Rightarrow> (exception \<times> kernel_state) option" where
  "decodeSGISignalInvocation irq target s = do {
     s \<leftarrow> setThreadState (ksCurThread s) ThreadState_Restart s;
     invokeSGISignalGenerate irq target s
   }"

definition Arch_decodeInvocation :: "word_t \<Rightarrow> word_t \<Rightarrow> ptr \<Rightarrow> arch_cap \<Rightarrow> bool \<Rightarrow> ptr \<Rightarrow> ptr list \<Rightarrow> kernel_state \<Rightarrow>
    (exception \<times> kernel_state) option" where
  "Arch_decodeInvocation invLabel len slot cap call buffer excaps s = (case cap of
     SGISignalCap irq target \<Rightarrow> decodeSGISignalInvocation irq target s
   | _ \<Rightarrow> decodeARMMMUInvocation invLabel len slot cap call buffer excaps s)"

end
