(* ===== verification/KFrameInv.thy ===== *)
theory KFrameInv
  imports KArch
begin

unbundle bit_operations_syntax

text \<open>What mapping a frame guarantees for the translation of addresses.\<close>

subsection \<open>Translation tables\<close>

text \<open>In a live address space, an entry of a table of the last level leads to no further table.\<close>

definition leaf_entries :: "kernel_state \<Rightarrow> bool" where
  "leaf_entries s \<longleftrightarrow> (\<forall>asid root v pt. findVSpaceForASID s asid = Inr root \<longrightarrow> table_at s root v 0 pt \<longrightarrow>
     \<not> pte_is_table (ptes (ksArch s) (level_slot pt v 0)))"

lemma lookup_no_table:
  assumes "leaf_entries s" "findVSpaceForASID s asid = Inr root" "lookupPTSlot s root v = (slot, b)"
  shows "\<not> pte_is_table (ptes (ksArch s) slot)"
  using lookupPTSlot_tables[of s root v] assms by (auto simp: leaf_entries_def)

text \<open>Replacing an entry that leads to no table by another one leaves every walk as it is.\<close>

lemma walk_entry:
  "\<not> pte_is_table (ptes a slot) \<Longrightarrow> \<not> pte_is_table e \<Longrightarrow>
   lookupPTSlot_loop (a\<lparr>ptes := (ptes a)(slot := e)\<rparr>) v l p b = lookupPTSlot_loop a v l p b"
  by (induction l arbitrary: p b) (auto simp: Let_def)

lemma lookup_entry:
  assumes "\<not> pte_is_table (ptes (ksArch s) slot)" "\<not> pte_is_table e" "ptes (ksArch s') = (ptes (ksArch s))(slot := e)"
  shows "lookupPTSlot s' root v = lookupPTSlot s root v"
proof -
  have "lookupPTSlot s' root v = lookupPTSlot (s\<lparr>ksArch := (ksArch s)\<lparr>ptes := (ptes (ksArch s))(slot := e)\<rparr>\<rparr>) root v"
    using assms(3) by (intro lookupPTSlot_cong) simp
  then show ?thesis using assms(1,2) by (simp add: lookupPTSlot_def Let_def walk_entry)
qed

lemma table_at_entry:
  assumes "\<not> pte_is_table e" "ptes (ksArch s') = (ptes (ksArch s))(slot := e)" "table_at s' root v k pt"
  shows "table_at s root v k pt"
  using assms(3)
proof induction
  case (table_next k pt base)
  then have "ptes (ksArch s) (level_slot pt v (Suc k)) = pte_table base" using assms(1,2) by (auto split: if_splits)
  then show ?case using table_next table_at.table_next by blast
qed (rule table_root)

lemma leaf_entries_upd:
  assumes "leaf_entries s" "\<not> pte_is_table e" "ptes (ksArch s') = (ptes (ksArch s))(slot := e)"
    and v: "\<And>asid. findVSpaceForASID s' asid = findVSpaceForASID s asid"
  shows "leaf_entries s'"
  unfolding leaf_entries_def
proof (intro allI impI)
  fix asid root v pt
  assume f: "findVSpaceForASID s' asid = Inr root" and "table_at s' root v 0 pt"
  from table_at_entry[OF assms(2,3) this(2)] have "\<not> pte_is_table (ptes (ksArch s) (level_slot pt v 0))"
    using assms(1) f v unfolding leaf_entries_def by metis
  then show "\<not> pte_is_table (ptes (ksArch s') (level_slot pt v 0))" using assms(2,3) by simp
qed

subsection \<open>Frames\<close>

text \<open>Where a page may lie, and a frame capability whose page lies there if it is mapped.\<close>

definition user_page :: "vm_page_size \<Rightarrow> word_t \<Rightarrow> bool" where
  "user_page sz v \<longleftrightarrow> 2 ^ unat (pageBitsForSize sz) dvd unat v \<and> unat v + 2 ^ unat (pageBitsForSize sz) \<le> unat USER_TOP + 1"

definition valid_frame_cap :: "arch_cap \<Rightarrow> bool" where
  "valid_frame_cap cap \<longleftrightarrow> (case cap of
     FrameCap asid p sz v _ _ \<Rightarrow> PTE_ADDR (pptr_to_paddr p) = pptr_to_paddr p \<and> (asid \<noteq> asidInvalid \<longrightarrow> user_page sz v)
   | _ \<Rightarrow> False)"

lemma page_bits: "unat (pageBitsForSize sz) \<in> {12, 21, 30}"
  by (cases sz) (simp_all add: seL4_PageBits_def seL4_LargePageBits_def seL4_HugePageBits_def)

lemma user_page_check:
  assumes "checkVPAlignment sz v" "\<not> v + BITw (pageBitsForSize sz) - 1 > USER_TOP"
  shows "user_page sz v"
proof -
  let ?n = "unat (pageBitsForSize sz)"
  have n: "?n < 64" using page_bits[of sz] by auto
  have al: "take_bit ?n v = 0" using assms(1) by (simp add: checkVPAlignment_def and_MASKw)
  then have d: "2 ^ ?n dvd unat v" by (metis take_bit_eq_0_iff unat_0 unsigned_take_bit_eq)
  have lt: "unat v + 2 ^ ?n \<le> 2 ^ 64"
  proof -
    obtain k where k: "unat v = 2 ^ ?n * k" using d by (rule dvdE)
    have "(2::nat) ^ 64 = 2 ^ ?n * 2 ^ (64 - ?n)" using n by (simp flip: power_add)
    moreover have "unat v < 2 ^ 64" using unsigned_less[of v] by simp
    ultimately have "2 ^ ?n * k < 2 ^ ?n * 2 ^ (64 - ?n)" using k by simp
    then have "k + 1 \<le> 2 ^ (64 - ?n)" by simp
    then have "2 ^ ?n * (k + 1) \<le> 2 ^ ?n * 2 ^ (64 - ?n)" by (rule mult_le_mono2)
    then show ?thesis using k \<open>2 ^ 64 = _\<close> by (simp add: algebra_simps)
  qed
  have "pageBitsForSize sz < 64" using n by (simp add: word_less_nat_alt)
  then have m: "unat (MASKw (pageBitsForSize sz)) = 2 ^ ?n - 1" by (rule unat_MASKw)
  have "unat (v + MASKw (pageBitsForSize sz)) = unat v + (2 ^ ?n - 1)"
    using lt m by (subst unat_add_lem[THEN iffD1]) auto
  moreover have "v + BITw (pageBitsForSize sz) - 1 = v + MASKw (pageBitsForSize sz)" by (simp add: MASKw_def BITw_def MASK_def)
  ultimately have "unat v + (2 ^ ?n - 1) \<le> unat USER_TOP" using assms(2) by (metis not_less word_le_nat_alt)
  then show ?thesis using d by (simp add: user_page_def)
qed

subsection \<open>Mapping\<close>

text \<open>A request to map a frame that names an address space, an address and rights the kernel can agree to.\<close>

definition map_request :: "word_t \<Rightarrow> arch_cap \<Rightarrow> ptr \<Rightarrow> ptr list \<Rightarrow> kernel_state \<Rightarrow> word_t \<Rightarrow> ptr \<Rightarrow> word_t \<Rightarrow> vm_rights \<Rightarrow> vm_attributes \<Rightarrow> bool" where
  "map_request len cap buffer excaps s asid root vaddr R A \<longleftrightarrow> 3 \<le> len \<and> excaps \<noteq> [] \<and> getSyscallArg s 0 buffer = Some vaddr \<and>
     (\<exists>c. ctes s (excaps ! 0) = Some c \<and> cte_cap c = ArchCap (VSpaceCap asid root True)) \<and>
     (\<exists>w. getSyscallArg s 1 buffer = Some w \<and> R = maskVMRights (capFVMRights cap) (rightsFromWord w)) \<and>
     (\<exists>w. getSyscallArg s 2 buffer = Some w \<and> A = vmAttributesFromWord w) \<and>
     findVSpaceForASID s asid = Inr root \<and> checkVPAlignment (capFSize cap) vaddr \<and>
     (if capFMappedASID cap = asidInvalid then vaddr + BITw (pageBitsForSize (capFSize cap)) - 1 \<le> USER_TOP
      else capFMappedASID cap = asid \<and> capFMappedAddress cap = vaddr) \<and>
     snd (lookupPTSlot s root vaddr) = pageBitsForSize (capFSize cap)"

text \<open>The frame is mapped: the entry for the address, and only that one, leads to it.\<close>

definition frame_mapped :: "kernel_state \<Rightarrow> ptr \<Rightarrow> arch_cap \<Rightarrow> word_t \<Rightarrow> ptr \<Rightarrow> word_t \<Rightarrow> vm_rights \<Rightarrow> vm_attributes \<Rightarrow> kernel_state \<Rightarrow> bool" where
  "frame_mapped s cte cap asid root vaddr R A s' \<longleftrightarrow>
     page_at s' asid vaddr (capFSize cap) (capFBasePtr cap) \<and>
     (\<exists>slot e. fst (lookupPTSlot s root vaddr) = slot \<and> ptes (ksArch s') = (ptes (ksArch s))(slot := e) \<and>
        vmRightsFromPTE e = Some R \<and> pte_UXN e = armExecuteNever A \<and>
        tlbOps (ksArch s') = (if ptes (ksArch s) slot = pte_invalid then [] else [TlbSingle (push_bit 48 asid OR drop_bit 12 vaddr)]) @ tlbOps (ksArch s)) \<and>
     (\<forall>r v. lookupPTSlot s' r v = lookupPTSlot s r v) \<and> (\<forall>a. findVSpaceForASID s' a = findVSpaceForASID s a) \<and> leaf_entries s' \<and>
     (\<exists>c. ctes s cte = Some c \<and> ctes s' = (ctes s)(cte \<mapsto> c\<lparr>cte_cap := ArchCap (FrameCap asid (capFBasePtr cap) (capFSize cap) vaddr (capFVMRights cap) (capFIsDevice cap))\<rparr>)) \<and>
     valid_frame_cap (FrameCap asid (capFBasePtr cap) (capFSize cap) vaddr (capFVMRights cap) (capFIsDevice cap))"

definition map_outcome :: "word_t \<Rightarrow> ptr \<Rightarrow> arch_cap \<Rightarrow> ptr \<Rightarrow> ptr list \<Rightarrow> kernel_state \<Rightarrow> exception \<times> kernel_state \<Rightarrow> bool" where
  "map_outcome len cte cap buffer excaps s = (\<lambda>(r, s'). case r of
     EXCEPTION_NONE \<Rightarrow> \<exists>asid root vaddr R A. map_request len cap buffer excaps s asid root vaddr R A \<and> frame_mapped s cte cap asid root vaddr R A s'
   | EXCEPTION_SYSCALL_ERROR e \<Rightarrow> s' = s \<and> (\<forall>asid root vaddr R A. \<not> map_request len cap buffer excaps s asid root vaddr R A)
   | _ \<Rightarrow> False)"

lemma user_pte:
  assumes "PTE_ADDR base = base"
  shows "pte_is_page_type (makeUserPagePTE base R A sz)" "\<not> pte_is_table (makeUserPagePTE base R A sz)"
    "pte_get_page_base_address (makeUserPagePTE base R A sz) = base" "vmRightsFromPTE (makeUserPagePTE base R A sz) = Some R"
    "pte_UXN (makeUserPagePTE base R A sz) = armExecuteNever A"
proof -
  show "pte_is_page_type (makeUserPagePTE base R A sz)" "\<not> pte_is_table (makeUserPagePTE base R A sz)"
    "pte_get_page_base_address (makeUserPagePTE base R A sz) = base" "pte_UXN (makeUserPagePTE base R A sz) = armExecuteNever A"
    using assms by (auto simp: makeUserPagePTE_def pte_get_page_base_address_def Let_def)
  show "vmRightsFromPTE (makeUserPagePTE base R A sz) = Some R"
    by (cases R) (auto simp: makeUserPagePTE_def vmRightsFromPTE_def Let_def)
qed

lemma performPageInvocationMap_ok:
  assumes cap: "cap = FrameCap fasid p sz fva vr dev" and p: "PTE_ADDR (pptr_to_paddr p) = pptr_to_paddr p" and leaf: "leaf_entries s"
    and c: "ctes s cte = Some c" and asid: "asid < 0x10000" "findVSpaceForASID s asid = Inr root"
    and lu: "lookupPTSlot s root vaddr = (slot, pageBitsForSize sz)" and u: "asid \<noteq> asidInvalid \<longrightarrow> user_page sz vaddr"
  shows "succeeds (performPageInvocationMap asid (FrameCap asid p sz vaddr vr dev) cte (makeUserPagePTE (pptr_to_paddr p) R A sz) slot (restart_cur s))
    (\<lambda>(e, s'). e = EXCEPTION_NONE \<and> frame_mapped s cte cap asid root vaddr R A s')"
proof -
  let ?e = "makeUserPagePTE (pptr_to_paddr p) R A sz" and ?cap = "FrameCap asid p sz vaddr vr dev"
  let ?s = "set_pte slot ?e ((restart_cur s)\<lparr>ctes := (ctes s)(cte \<mapsto> c\<lparr>cte_cap := ArchCap ?cap\<rparr>)\<rparr>)"
  define s' where "s' = (if ptes (ksArch s) slot = pte_invalid then ?s else invalidateTLBByASIDVA asid vaddr ?s)"
  note e = user_pte[OF p, of R A sz]
  have 16: "asid < BITw 16" using asid(1) by (simp add: BITw_def BIT_def push_bit_eq_mult)
  have ar: "ksArch (restart_cur s) = ksArch s" by (simp add: restart_cur_def)
  have r: "performPageInvocationMap asid ?cap cte ?e slot (restart_cur s) = Some (EXCEPTION_NONE, s')"
    using c 16 by (simp add: performPageInvocationMap_def set_cap_def upd_cte_def s'_def ar pte_get_valid_def)
  have pt: "ptes (ksArch s') = (ptes (ksArch s))(slot := ?e)"
    and tl: "tlbOps (ksArch s') = (if ptes (ksArch s) slot = pte_invalid then [] else [TlbSingle (push_bit 48 asid OR drop_bit 12 vaddr)]) @ tlbOps (ksArch s)"
    and ct: "ctes s' = (ctes s)(cte \<mapsto> c\<lparr>cte_cap := ArchCap ?cap\<rparr>)"
    by (simp_all add: s'_def invalidateTLBByASIDVA_def set_pte_def upd_arch_def seL4_PageBits_def ar)
  have v: "findVSpaceForASID s' a = findVSpaceForASID s a" for a
    by (rule findVSpaceForASID_cong) (simp_all add: s'_def invalidateTLBByASIDVA_def set_pte_def upd_arch_def ar)
  have nt: "\<not> pte_is_table (ptes (ksArch s) slot)" by (rule lookup_no_table[OF leaf asid(2) lu])
  have w: "lookupPTSlot s' r v = lookupPTSlot s r v" for r v by (rule lookup_entry[OF nt e(2) pt])
  have "page_at s' asid vaddr sz p" using e by (simp add: page_at_def v asid(2) w lu pt)
  moreover have "leaf_entries s'" by (rule leaf_entries_upd[OF leaf e(2) pt v])
  ultimately have "frame_mapped s cte cap asid root vaddr R A s'"
    unfolding frame_mapped_def cap using e pt tl ct v w lu c p u by (auto simp: valid_frame_cap_def)
  then show ?thesis by (simp add: r)
qed

lemma map_fail: "(\<And>asid root vaddr R A. \<not> map_request len cap buffer excaps s asid root vaddr R A) \<Longrightarrow> succeeds (syscall_fail e s) (map_outcome len cte cap buffer excaps s)"
  by (simp add: syscall_fail_def map_outcome_def)

text \<open>
  C29. A request to map a frame always returns. It is refused without effect, or the capability in the request names a live
  address space, the address is aligned, the page ends below the top of user space and there is a table for pages of this size at the
  address; a frame that is mapped already is mapped again only where it is. Then the walk of the translation tables at
  the address finds the frame, with the requested rights as far as the capability of the frame has them; exactly the
  entry for the address changed and the translation of an entry that was valid before is dropped from the
  lookaside buffer; every other walk ends where it did, and the capability records the mapping.
\<close>

theorem page_map:
  assumes cap: "cap = FrameCap fasid p sz fva vr dev" "valid_frame_cap cap" and leaf: "leaf_entries s"
    and cur: "tcbs s (ksCurThread s) \<noteq> None" and buf: "buffer \<noteq> 0" and slots: "ctes s cte \<noteq> None" "\<forall>x\<in>set excaps. ctes s x \<noteq> None"
    and asids: "\<forall>c\<in>ran (ctes s). \<forall>asid root. cte_cap c = ArchCap (VSpaceCap asid root True) \<longrightarrow> asid < 0x10000"
  shows "succeeds (decodeARMFrameInvocation ARMPageMap len cte cap call buffer excaps s) (map_outcome len cte cap buffer excaps s)"
proof (cases "\<exists>asid root vaddr R A. map_request len cap buffer excaps s asid root vaddr R A")
  case True
  then obtain asid root vaddr R A where rq: "map_request len cap buffer excaps s asid root vaddr R A" by blast
  then obtain c w1 w2 where a: "getSyscallArg s 0 buffer = Some vaddr" "getSyscallArg s 1 buffer = Some w1" "getSyscallArg s 2 buffer = Some w2"
    and R: "R = maskVMRights vr (rightsFromWord w1)" "A = vmAttributesFromWord w2"
    and c: "ctes s (excaps ! 0) = Some c" "cte_cap c = ArchCap (VSpaceCap asid root True)" and v: "findVSpaceForASID s asid = Inr root"
    and al: "checkVPAlignment sz vaddr" and lu: "snd (lookupPTSlot s root vaddr) = pageBitsForSize sz"
    by (auto simp: map_request_def cap(1))
  have len: "\<not> len < 3" "excaps \<noteq> []" using rq by (auto simp: map_request_def)
  have as: "asid < 0x10000" using asids c by (auto simp: ran_def)
  have "user_page sz vaddr"
    using rq user_page_check[OF al] cap(2) by (auto simp: map_request_def cap(1) valid_frame_cap_def split: if_splits)
  moreover obtain slot where sl: "lookupPTSlot s root vaddr = (slot, pageBitsForSize sz)" using lu by (cases "lookupPTSlot s root vaddr") auto
  moreover obtain ct where "ctes s cte = Some ct" using slots(1) by auto
  ultimately have "succeeds (performPageInvocationMap asid (FrameCap asid p sz vaddr vr dev) cte (makeUserPagePTE (pptr_to_paddr p) R A sz) slot (restart_cur s))
    (\<lambda>(e, s'). e = EXCEPTION_NONE \<and> frame_mapped s cte cap asid root vaddr R A s')"
    using cap(2) by (intro performPageInvocationMap_ok[OF cap(1) _ leaf _ as v]) (auto simp: cap(1) valid_frame_cap_def)
  moreover have "decodeARMFrameInvocation ARMPageMap len cte cap call buffer excaps s =
      performPageInvocationMap asid (FrameCap asid p sz vaddr vr dev) cte (makeUserPagePTE (pptr_to_paddr p) R A sz) slot (restart_cur s)"
    using len a c v al sl rq setThreadState_restart_cur[OF cur]
    by (auto simp: decodeARMFrameInvocation_def decodeARMPageMap_def cap(1) R map_request_def not_less split: if_splits)
  ultimately show ?thesis using rq unfolding succeeds_def by (fastforce simp: map_outcome_def)
next
  case False
  then have f: "succeeds (syscall_fail e s) (map_outcome len cte cap buffer excaps s)" for e using map_fail by blast
  obtain vaddr w1 w2 where a: "getSyscallArg s 0 buffer = Some vaddr" "getSyscallArg s 1 buffer = Some w1" "getSyscallArg s 2 buffer = Some w2"
    using getSyscallArg_ok[OF cur buf] by metis
  show ?thesis
  proof (cases "len < 3 \<or> excaps = []")
    case True
    then show ?thesis using f by (auto simp: decodeARMFrameInvocation_def decodeARMPageMap_def)
  next
    case len: False
    then obtain c where c: "ctes s (excaps ! 0) = Some c" using slots(2) by (cases excaps) auto
    show ?thesis
    proof (cases "\<exists>asid root. cte_cap c = ArchCap (VSpaceCap asid root True)")
      case root: True
      then obtain asid root where r: "cte_cap c = ArchCap (VSpaceCap asid root True)" by blast
      obtain slot b where sl: "lookupPTSlot s root vaddr = (slot, b)" by fastforce
      have "\<not> map_request len cap buffer excaps s asid root vaddr (maskVMRights vr (rightsFromWord w1)) (vmAttributesFromWord w2)" using False by blast
      then show ?thesis using len a c r sl f
        by (auto simp: decodeARMFrameInvocation_def decodeARMPageMap_def cap(1) map_request_def not_less split: sum.splits if_splits)
    next
      case False
      then have "decodeARMFrameInvocation ARMPageMap len cte cap call buffer excaps s = syscall_fail (invalid_capability 1) s"
        using len a c by (auto simp: decodeARMFrameInvocation_def decodeARMPageMap_def Let_def split: cap.splits arch_cap.splits bool.splits)
      then show ?thesis using f by simp
    qed
  qed
qed

subsection \<open>A small system\<close>

text \<open>In the address space of \<open>ex_vm\<close>, the current thread asks to map a second large frame at \<open>0x600000\<close>, for reading and writing.\<close>

definition ex_map :: kernel_state where
  "ex_map = ex_vm\<lparr>ctes := (ctes ex_vm)(0x9000 \<mapsto> \<lparr>cte_cap = ArchCap (FrameCap 0 0xffffff8000400000 ARMLargePage 0 VMReadWrite False), cteMDBNode = nullMDBNode\<rparr>,
       0x9020 \<mapsto> \<lparr>cte_cap = ArchCap (VSpaceCap 1 0xffffff8000010000 True), cteMDBNode = nullMDBNode\<rparr>),
     tcbs := (tcbs ex_vm)(0x2000 \<mapsto> (ex_thread ThreadState_Running 5)\<lparr>tcbContext := (\<lambda>_. 0)(2 := 0x600000, 3 := 3, 4 := 1)\<rparr>)\<rparr>"

lemma ex_map_arch: "ksArch ex_map = ksArch ex_vm"
  by (simp add: ex_map_def)

lemma ex_map_find: "findVSpaceForASID ex_map 1 = Inr 0xffffff8000010000"
  using findVSpaceForASID_cong[of ex_map ex_vm] ex_vm_find by (simp add: ex_map_arch)

lemma ex_map_lookup: "lookupPTSlot ex_map 0xffffff8000010000 0x600000 = (0xffffff8000012018, 21)"
proof -
  have m: "MASKw 9 = 511" by (simp add: MASKw_def MASK_def BIT_def push_bit_eq_mult)
  have l: "UPT_LEVELS - 1 = Suc (Suc (Suc 0))" by (simp add: UPT_LEVELS_def)
  show ?thesis unfolding lookupPTSlot_def l PT_INDEX_BITS_def seL4_PageBits_def seL4_VSpaceIndexBits_def m Let_def
    by (simp add: pte_at_def push_bit_eq_mult drop_bit_eq_div ex_map_arch ex_vm_def paddr_to_pptr_def PPTR_BASE_OFFSET_def PT_INDEX_BITS_def m Let_def)
qed

lemma ex_map_root: "findVSpaceForASID ex_map asid = Inr root \<Longrightarrow> root = 0xffffff8000010000"
  by (auto simp: findVSpaceForASID_def findMapForASID_def ex_map_arch ex_vm_def Let_def split: if_splits)

lemma level_slot_in_table: "level_slot pt v k - pt < 0x1000"
proof -
  have "unat (8 * take_bit 9 (drop_bit (9 * k + 12) v)) < 0x1000"
  proof -
    have "unat (take_bit 9 (drop_bit (9 * k + 12) v)) < 512"
      using take_bit_nat_less_exp[of 9] by (simp add: unsigned_take_bit_eq)
    then show ?thesis by (simp add: unat_word_ariths)
  qed
  then show ?thesis by (simp add: level_slot_def word_less_nat_alt)
qed

lemma ex_map_tables:
  assumes "table_at ex_map 0xffffff8000010000 v k pt"
  shows "k = 3 \<and> pt = 0xffffff8000010000 \<or> k = 2 \<and> pt = 0xffffff8000011000 \<or> k = 1 \<and> pt = 0xffffff8000012000"
  using assms
proof induction
  case (table_next k pt base)
  have "level_slot pt v (Suc k) = 0xffffff8000010000 \<and> base = 0x11000 \<or> level_slot pt v (Suc k) = 0xffffff8000011000 \<and> base = 0x12000"
    using table_next.hyps(2) by (auto simp: ex_map_arch ex_vm_def split: if_splits)
  then show ?case using table_next.IH level_slot_in_table[of pt v "Suc k"]
    by (auto simp: paddr_to_pptr_def PPTR_BASE_OFFSET_def)
qed simp

lemma ex_map_leaf: "leaf_entries ex_map"
  using ex_map_root ex_map_tables by (fastforce simp: leaf_entries_def)

lemma ex_map_args: "getSyscallArg ex_map 0 0x20000 = Some 0x600000" "getSyscallArg ex_map 1 0x20000 = Some 3" "getSyscallArg ex_map 2 0x20000 = Some 1"
  by (simp_all add: getSyscallArg_def n_msgRegisters_def msgRegisters_def getRegister_def ex_map_def ex_vm_def ex_kernel_def)

theorem page_map_witness:
  "\<exists>s'. decodeARMFrameInvocation ARMPageMap 3 0x9000 (FrameCap 0 0xffffff8000400000 ARMLargePage 0 VMReadWrite False) True 0x20000 [0x9020] ex_map = Some (EXCEPTION_NONE, s') \<and>
     page_at s' 1 0x600000 ARMLargePage 0xffffff8000400000"
proof -
  let ?cap = "FrameCap 0 0xffffff8000400000 ARMLargePage 0 VMReadWrite False"
  have v: "valid_frame_cap ?cap" by (simp add: valid_frame_cap_def pptr_to_paddr_def PPTR_BASE_OFFSET_def PTE_ADDR_def asidInvalid_def)
  have as: "\<forall>c\<in>ran (ctes ex_map). \<forall>asid root. cte_cap c = ArchCap (VSpaceCap asid root True) \<longrightarrow> asid < 0x10000"
    by (auto simp: ran_def ex_map_def ex_vm_def ex_kernel_def split: if_splits)
  have "succeeds (decodeARMFrameInvocation ARMPageMap 3 0x9000 ?cap True 0x20000 [0x9020] ex_map) (map_outcome 3 0x9000 ?cap 0x20000 [0x9020] ex_map)"
    by (rule page_map[OF refl v ex_map_leaf _ _ _ _ as]) (simp_all add: ex_map_def ex_vm_def ex_kernel_def)
  then obtain e s' where r: "decodeARMFrameInvocation ARMPageMap 3 0x9000 ?cap True 0x20000 [0x9020] ex_map = Some (e, s')"
    "map_outcome 3 0x9000 ?cap 0x20000 [0x9020] ex_map (e, s')"
    by (auto simp: succeeds_def)
  have rq: "\<exists>R A. map_request 3 ?cap 0x20000 [0x9020] ex_map 1 0xffffff8000010000 0x600000 R A"
    by (simp add: map_request_def ex_map_args ex_map_args(2)[unfolded One_nat_def] ex_map_find ex_map_lookup seL4_LargePageBits_def checkVPAlignment_def MASKw_def MASK_def BITw_def BIT_def
        push_bit_eq_mult USER_TOP_def asidInvalid_def)
      (simp add: ex_map_def)
  have "e = EXCEPTION_NONE" using r(2) rq by (cases e) (auto simp: map_outcome_def)
  then obtain asid root vaddr R A where q: "map_request 3 ?cap 0x20000 [0x9020] ex_map asid root vaddr R A" "frame_mapped ex_map 0x9000 ?cap asid root vaddr R A s'"
    using r(2) by (auto simp: map_outcome_def)
  have "ctes ex_map 0x9020 = Some \<lparr>cte_cap = ArchCap (VSpaceCap 1 0xffffff8000010000 True), cteMDBNode = nullMDBNode\<rparr>" by (simp add: ex_map_def)
  then have "asid = 1" "vaddr = 0x600000" using q(1) by (auto simp: map_request_def ex_map_args)
  then show ?thesis using r(1) q(2) \<open>e = EXCEPTION_NONE\<close> by (auto simp: frame_mapped_def)
qed

end
