(* ===== verification/KDecode.thy ===== *)
theory KDecode
  imports KTcb KArch
begin

unbundle bit_operations_syntax

text \<open>
  The decoders of all kinds of objects together, as \<^verbatim>\<open>decodeInvocation\<close> of \<^verbatim>\<open>kernel/src/object/objecttype.c\<close> calls them, and
  what all of them promise: an invocation that is refused had no effect.
\<close>

subsection \<open>The decoders together\<close>

definition kernel_decode :: "irq_t \<Rightarrow> decoder" where
  "kernel_decode maxIRQ invLabel len capIndex slot cap call buffer excaps s = (case cap of
     ArchCap acap \<Rightarrow> Arch_decodeInvocation invLabel len slot acap call buffer excaps s
   | ThreadCap tcb \<Rightarrow> decodeTCBInvocation invLabel len tcb slot call buffer excaps s
   | DomainCap \<Rightarrow> decodeDomainInvocation invLabel len buffer excaps s
   | CNodeCap _ _ _ _ \<Rightarrow> decodeCNodeInvocation invLabel len cap buffer excaps s
   | UntypedCap _ _ _ _ \<Rightarrow> decodeUntypedInvocation invLabel len slot cap call buffer excaps s
   | IRQControlCap \<Rightarrow> decodeIRQControlInvocation maxIRQ invLabel len slot buffer excaps s
   | IRQHandlerCap irq \<Rightarrow> decodeIRQHandlerInvocation invLabel irq excaps s
   | _ \<Rightarrow> None)"

text \<open>The length of a message that \<^verbatim>\<open>handleInvocation\<close> hands to the decoder.\<close>

definition message_length :: "ptr \<Rightarrow> word_t \<Rightarrow> word_t" where
  "message_length buffer w =
     (let len = mi_get_length (messageInfoFromWord w) in if len > of_nat n_msgRegisters \<and> buffer = 0 then of_nat n_msgRegisters else len)"

subsection \<open>Refusals\<close>

text \<open>A result that is no refusal, and one that leaves the state \<open>s\<close> as it is if it is one.\<close>

definition no_refusal :: "(exception \<times> kernel_state) option \<Rightarrow> bool" where
  "no_refusal r \<longleftrightarrow> (\<forall>e s'. r \<noteq> Some (EXCEPTION_SYSCALL_ERROR e, s'))"

definition refuses_cleanly :: "kernel_state \<Rightarrow> (exception \<times> kernel_state) option \<Rightarrow> bool" where
  "refuses_cleanly s r \<longleftrightarrow> (\<forall>e s'. r = Some (EXCEPTION_SYSCALL_ERROR e, s') \<longrightarrow> s' = s)"

named_theorems refusal

lemma no_refusal_basic [refusal]:
  "no_refusal None" "no_refusal (Some (EXCEPTION_NONE, s))" "no_refusal (finished r)"
  "no_refusal (m \<bind> f) \<longleftrightarrow> (\<forall>x. m = Some x \<longrightarrow> no_refusal (f x))"
  "no_refusal (Let a g) \<longleftrightarrow> no_refusal (g a)"
  by (auto simp: no_refusal_def finished_def bind_eq_Some_conv)

lemma refuses_basic [refusal]:
  "refuses_cleanly s None" "refuses_cleanly s (Some (EXCEPTION_NONE, s'))" "refuses_cleanly s (finished r)"
  "refuses_cleanly s (syscall_fail e s)"
  "refuses_cleanly s (m \<bind> f) \<longleftrightarrow> (\<forall>x. m = Some x \<longrightarrow> refuses_cleanly s (f x))"
  "refuses_cleanly s (Let a g) \<longleftrightarrow> refuses_cleanly s (g a)"
  by (auto simp: refuses_cleanly_def finished_def syscall_fail_def bind_eq_Some_conv)

lemma no_refusal_clean: "no_refusal r \<Longrightarrow> refuses_cleanly s r"
  by (auto simp: no_refusal_def refuses_cleanly_def)

lemma no_refusal_on_success [refusal]:
  "no_refusal r \<Longrightarrow> (\<And>s'. no_refusal (f s')) \<Longrightarrow> no_refusal (on_success r f)"
  by (auto simp: no_refusal_def on_success_def bind_eq_Some_conv split: if_splits)

text \<open>Deleting, revoking and clearing end, or are preempted, but report no error.\<close>

lemma reduceZombie_with_no_error:
  assumes "\<And>slot exposed s. no_refusal (del slot exposed s)"
  shows "no_refusal (reduceZombie_with del slot immediate s)"
  unfolding reduceZombie_with_def Let_def
  using assms by (auto simp: no_refusal_def bind_eq_Some_conv split: cap.splits if_splits)

lemma finaliseSlot_no_error:
  assumes "finaliseSlot slot imm s = Some r"
  shows "fs_status (fst r) \<noteq> EXCEPTION_SYSCALL_ERROR e"
proof (rule finaliseSlot.raw_induct[where P = "\<lambda>_ _ _ r. \<forall>e. fs_status (fst r) \<noteq> EXCEPTION_SYSCALL_ERROR e", OF _ assms, THEN spec], goal_cases)
  case (1 f slot imm s r)
  have "no_refusal (cteDelete_with f slot exposed s)" for slot exposed s
    using 1(1) by (fastforce simp: no_refusal_def cteDelete_with_def bind_eq_Some_conv split: if_splits)
  then have z: "no_refusal (reduceZombie_with (cteDelete_with f) slot imm s)" for s
    by (rule reduceZombie_with_no_error)
  have ih: "fs_status (fst r) \<noteq> EXCEPTION_SYSCALL_ERROR e" if "f slot imm s' = Some r" for e s' using 1(1) that by blast
  show ?case using 1(2) z preemption_no_error
    by (auto simp: bind_eq_Some_conv no_refusal_def Let_def case_prod_unfold dest: ih split: if_splits)
qed

lemma cteDelete_no_error [refusal]: "no_refusal (cteDelete slot exposed s)"
  using finaliseSlot_no_error
  by (fastforce simp: no_refusal_def cteDelete_def cteDelete_with_def bind_eq_Some_conv split: if_splits)

lemma cteRevoke_no_error [refusal]: "no_refusal (cteRevoke slot s)"
proof -
  have "fst r \<noteq> EXCEPTION_SYSCALL_ERROR e" if "cteRevoke slot s = Some r" for r e
  proof (rule cteRevoke.raw_induct[where P = "\<lambda>_ _ r. \<forall>e. fst r \<noteq> EXCEPTION_SYSCALL_ERROR e", OF _ that, THEN spec], goal_cases)
    case (1 f slot s r)
    have ih: "fst r \<noteq> EXCEPTION_SYSCALL_ERROR e" if "f slot s' = Some r" for e s' using 1(1) that by blast
    show ?case using 1(2) preemption_no_error cteDelete_no_error
      by (auto simp: bind_eq_Some_conv no_refusal_def Let_def case_prod_unfold dest: ih split: if_splits)
  qed
  then show ?thesis by (fastforce simp: no_refusal_def)
qed

lemma retype_no_error [refusal]: "no_refusal (invokeUntyped_Retype slot reset base t us dc off n dev s)"
  by (simp add: no_refusal_def invoke_not_error)

lemma thread_control_no_error [refusal]:
  "no_refusal (replace_root target slot index newCap srcSlot s)" "no_refusal (replace_buffer target slot addr c src s)"
  "no_refusal (invokeTCB_ThreadControl target slot faultep mcp prio cc cs vc vs addr bc bs flags s)"
proof -
  show r: "no_refusal (replace_root target slot index newCap srcSlot s)" for index newCap srcSlot s
    by (simp add: replace_root_def refusal)
  show b: "no_refusal (replace_buffer target slot addr c src s)" for addr c src s
    by (simp add: replace_buffer_def refusal)
  show "no_refusal (invokeTCB_ThreadControl target slot faultep mcp prio cc cs vc vs addr bc bs flags s)"
    by (simp add: invokeTCB_ThreadControl_def refusal r b)
qed

lemma clean_clauses [refusal]:
  "refuses_cleanly s (invokeUntyped_Retype slot reset base t us dc off n dev s')"
  "refuses_cleanly s (invokeTCB_ThreadControl target sl faultep mcp prio cc cs vc vs addr bc bs flags s')"
  "refuses_cleanly s (cteDelete p exposed s')" "refuses_cleanly s (cteRevoke p s')"
  by (simp_all add: no_refusal_clean refusal)

subsubsection \<open>Untyped memory and CNodes\<close>

lemma untyped_clean: "refuses_cleanly s (decodeUntypedInvocation invLabel len slot cap call buffer excaps s)"
proof -
  have "refuses_cleanly s (decodeUntyped_memory slot cap a b c d e f s)" for a b c d e f
    by (auto simp: decodeUntyped_memory_def refusal split: cap.splits prod.splits)
  then show ?thesis by (auto simp: decodeUntypedInvocation_def refusal split: cap.splits sum.splits)
qed

lemma cnode_clean: "refuses_cleanly s (decodeCNodeInvocation invLabel len cap buffer excaps s)"
proof -
  have 1: "refuses_cleanly s (decodeCNode_copy invLabel len dest buffer excaps s)" for dest
    by (auto simp: decodeCNode_copy_def invokeCNodeMove_def invokeCNodeInsert_def refusal split: sum.splits prod.splits)
  have 2: "refuses_cleanly s (decodeCNode_rotate len dest buffer excaps s)" for dest
    by (auto simp: decodeCNode_rotate_def invokeCNodeRotate_def refusal split: sum.splits prod.splits)
  have 3: "refuses_cleanly s (invokeCNodeSaveCaller dest s')" "refuses_cleanly s (invokeCNodeCancelBadgedSends c s')" for dest c s'
    by (auto simp: invokeCNodeSaveCaller_def invokeCNodeCancelBadgedSends_def refusal split: cap.splits)
  show ?thesis
    by (auto simp: decodeCNodeInvocation_def invokeCNodeRevoke_def invokeCNodeDelete_def 1 2 3 refusal split: sum.splits)
qed

subsubsection \<open>Threads\<close>

lemma registers_clean:
  "refuses_cleanly s (decodeReadRegisters tcb len call buffer s)" "refuses_cleanly s (decodeWriteRegisters tcb len buffer s)"
  "refuses_cleanly s (decodeCopyRegisters tcb len buffer excaps s)"
  "refuses_cleanly s (decodeSetTLSBase tcb len buffer s)" "refuses_cleanly s (decodeSetFlags tcb len call buffer s)"
  by (auto simp: decodeReadRegisters_def decodeWriteRegisters_def decodeCopyRegisters_def decodeSetTLSBase_def decodeSetFlags_def
      invokeTCB_ReadRegisters_def invokeTCB_WriteRegisters_def invokeTCB_CopyRegisters_def invokeSetTLSBase_def refusal split: cap.splits)

lemma prio_clean:
  "refuses_cleanly s (decodeSetPriority tcb len buffer excaps s)" "refuses_cleanly s (decodeSetMCPriority tcb len buffer excaps s)"
  "refuses_cleanly s (decodeSetSchedParams tcb len buffer excaps s)"
  by (auto simp: decodeSetPriority_def decodeSetMCPriority_def decodeSetSchedParams_def refusal split: cap.splits sum.splits)

lemma space_clean:
  "refuses_cleanly s (decodeTCBConfigure tcb len slot buffer excaps s)" "refuses_cleanly s (decodeSetIPCBuffer tcb len slot buffer excaps s)"
  "refuses_cleanly s (decodeSetSpace tcb len slot buffer excaps s)"
  by (auto simp: decodeTCBConfigure_def decodeSetIPCBuffer_def decodeSetSpace_def refusal split: sum.splits prod.splits)

lemma binding_clean:
  "refuses_cleanly s (decodeBindNotification tcb excaps s)" "refuses_cleanly s (decodeUnbindNotification tcb s)"
  "refuses_cleanly s (decodeDomainInvocation invLabel len buffer excaps s)"
  by (auto simp: decodeBindNotification_def decodeUnbindNotification_def decodeDomainInvocation_def invokeTCB_NotificationControl_def refusal split: cap.splits)

lemma tcb_clean: "refuses_cleanly s (decodeTCBInvocation invLabel len tcb slot call buffer excaps s)"
  unfolding decodeTCBInvocation_def
  by (simp add: registers_clean prio_clean space_clean binding_clean invokeTCB_Suspend_def invokeTCB_Resume_def refusal)

subsubsection \<open>Address spaces and interrupts\<close>

lemma vspace_clean:
  "refuses_cleanly s (decodeARMVSpaceRootInvocation invLabel len acap buffer s)"
  "refuses_cleanly s (decodeARMPageTableInvocation invLabel len slot acap buffer excaps s)"
  by (auto simp: decodeARMVSpaceRootInvocation_def decodeARMPageTableInvocation_def performVSpaceFlush_def performPageTableInvocationMap_def
      performPageTableInvocationUnmap_def refusal split: cap.splits arch_cap.splits sum.splits prod.splits bool.splits)

lemma frame_clean: "refuses_cleanly s (decodeARMFrameInvocation invLabel len slot acap call buffer excaps s)"
proof -
  have 1: "refuses_cleanly s (decodeARMPageMap len slot acap buffer excaps s)"
    by (auto simp: decodeARMPageMap_def performPageInvocationMap_def refusal split: cap.splits arch_cap.splits sum.splits prod.splits bool.splits)
  have 2: "refuses_cleanly s (decodeARMPageFlush invLabel len acap buffer s)"
    by (auto simp: decodeARMPageFlush_def performPageFlush_def refusal split: sum.splits prod.splits)
  show ?thesis
    by (auto simp: decodeARMFrameInvocation_def performPageInvocationUnmap_def performPageGetAddress_def 1 2 refusal split: cap.splits arch_cap.splits)
qed

lemma asid_clean:
  "refuses_cleanly s (decodeARMASIDControl invLabel len buffer excaps s)" "refuses_cleanly s (decodeARMASIDPool invLabel base pool excaps s)"
  by (auto simp: decodeARMASIDControl_def decodeARMASIDPool_def performASIDControlInvocation_def performASIDPoolInvocation_def refusal
      split: cap.splits arch_cap.splits sum.splits prod.splits bool.splits)

lemma arch_clean: "refuses_cleanly s (Arch_decodeInvocation invLabel len slot acap call buffer excaps s)"
  by (auto simp: Arch_decodeInvocation_def decodeARMMMUInvocation_def decodeSGISignalInvocation_def invokeSGISignalGenerate_def
      vspace_clean frame_clean asid_clean refusal split: arch_cap.splits)

lemma irq_clean:
  "refuses_cleanly s (decodeIRQControlInvocation maxIRQ invLabel len slot buffer excaps s)"
  "refuses_cleanly s (decodeIRQHandlerInvocation invLabel irq excaps s)"
  by (auto simp: decodeIRQControlInvocation_def Arch_decodeIRQControlInvocation_def decodeIRQHandlerInvocation_def Arch_invokeIRQControl_def
      Arch_invokeIssueSGISignal_def refusal split: cap.splits sum.splits bool.splits)

lemma kernel_decode_clean: "refuses_cleanly s (kernel_decode maxIRQ invLabel len cptr slot cap call buffer excaps s)"
  by (auto simp: kernel_decode_def arch_clean tcb_clean binding_clean cnode_clean untyped_clean irq_clean refusal split: cap.splits)

subsection \<open>The contract of a decoder\<close>

text \<open>What \<^verbatim>\<open>handleInvocation\<close> relies on: a decoder that reports an error left the state as it was.\<close>

locale clean_decoder =
  fixes decode :: decoder
  assumes clean: "refuses_cleanly s (decode invLabel len cptr slot cap call buffer excaps s)"
begin

lemma decodeInvocation_clean: "refuses_cleanly s (decodeInvocation decode invLabel len cptr slot cap block call buffer excaps s)"
  by (auto simp: decodeInvocation_def performInvocation_Endpoint_def performInvocation_Notification_def performInvocation_Reply_def invalid_cap_error_def
      refusal clean split: cap.splits) (auto simp: refuses_cleanly_def)

lemma refused_unchanged:
  assumes "decodeInvocation decode invLabel len cptr slot cap block call buffer excaps s = Some (EXCEPTION_SYSCALL_ERROR e, s')"
  shows "s' = s"
  using decodeInvocation_clean[of s invLabel len cptr slot cap block call buffer excaps] assms by (simp add: refuses_cleanly_def)

lemma handle_refused:
  assumes "getRegister s (ksCurThread s) msgInfoRegister = Some w" "getRegister s (ksCurThread s) capRegister = Some cptr"
    "lookupCapAndSlot s (ksCurThread s) cptr = Some (Inr (slot, cap))" "lookupIPCBuffer False (ksCurThread s) s = Some buffer"
    "lookupExtraCaps s (ksCurThread s) buffer (messageInfoFromWord w) = Some (Inr excaps)"
    "message_length buffer w = len"
    "decodeInvocation decode (mi_get_label (messageInfoFromWord w)) len cptr slot cap isBlocking isCall buffer excaps s = Some (EXCEPTION_SYSCALL_ERROR e, s')"
  shows "handleInvocation decode isCall isBlocking s = map_option (Pair False) (if isCall then replyFromKernel_error (ksCurThread s) e s else Some s)"
  using assms refused_unchanged[OF assms(7)]
  by (simp add: handleInvocation_def handleInvocation_finish_def message_length_def Let_def)

end

interpretation kd: clean_decoder "kernel_decode maxIRQ" for maxIRQ
  by unfold_locales (rule kernel_decode_clean)

subsection \<open>Property\<close>

text \<open>The system call of the current thread names a capability of its space and is refused with an error.\<close>

definition refused :: "irq_t \<Rightarrow> bool \<Rightarrow> bool \<Rightarrow> kernel_state \<Rightarrow> syscall_error \<Rightarrow> bool" where
  "refused maxIRQ isCall isBlocking s e \<longleftrightarrow> (\<exists>w cptr slot cap buffer excaps s'.
     getRegister s (ksCurThread s) msgInfoRegister = Some w \<and> getRegister s (ksCurThread s) capRegister = Some cptr \<and>
     lookupCapAndSlot s (ksCurThread s) cptr = Some (Inr (slot, cap)) \<and> lookupIPCBuffer False (ksCurThread s) s = Some buffer \<and>
     lookupExtraCaps s (ksCurThread s) buffer (messageInfoFromWord w) = Some (Inr excaps) \<and>
     decodeInvocation (kernel_decode maxIRQ) (mi_get_label (messageInfoFromWord w)) (message_length buffer w) cptr slot cap isBlocking isCall buffer excaps s =
       Some (EXCEPTION_SYSCALL_ERROR e, s'))"

text \<open>
  C28. Whatever kind of object is invoked - untyped memory, CNodes, threads, domains, endpoints, notifications,
  replies, interrupts, address spaces, tables, frames or identifiers - an invocation that is refused had no effect: the kernel
  answers a call with the error in the state in which it was made, and leaves the state as it is for a send.
\<close>

theorem refused_invocation:
  assumes "refused maxIRQ isCall isBlocking s e"
  shows "handleInvocation (kernel_decode maxIRQ) isCall isBlocking s =
    map_option (Pair False) (if isCall then replyFromKernel_error (ksCurThread s) e s else Some s)"
  using assms kd.handle_refused unfolding refused_def by blast

text \<open>The thread of \<open>ex_call\<close> has a capability for a thread in the place of the endpoint and asks for a priority without naming an authority.\<close>

definition ex_refused :: kernel_state where
  "ex_refused = ex_call\<lparr>ctes := (ctes ex_call)(0x8020 \<mapsto> \<lparr>cte_cap = ThreadCap 0x3000, cteMDBNode = nullMDBNode\<rparr>),
     tcbs := (tcbs ex_call)(0x2000 \<mapsto> (ex_thread ThreadState_Running 5)\<lparr>tcbContext := (\<lambda>_. 0)(0 := 1, 1 := 0x6001, 2 := 9)\<rparr>)\<rparr>"

lemma ex_refused_refused: "refused 100 False True ex_refused (no_error seL4_TruncatedMessage)"
proof -
  have c: "ksCurThread ex_refused = 0x2000" by (simp add: ex_refused_def ex_call_def ex_kernel_def)
  have r: "getRegister ex_refused 0x2000 msgInfoRegister = Some 0x6001" "getRegister ex_refused 0x2000 capRegister = Some 1"
    by (simp_all add: getRegister_def ex_refused_def msgInfoRegister_def capRegister_def)
  have root: "ctes ex_refused 0x2000 = Some \<lparr>cte_cap = CNodeCap 2 62 0 0x8000, cteMDBNode = nullMDBNode\<rparr>"
    "ctes ex_refused 0x8020 = Some \<lparr>cte_cap = ThreadCap 0x3000, cteMDBNode = nullMDBNode\<rparr>"
    "ctes ex_refused 0x2080 = Some empty_cte" by (simp_all add: ex_refused_def ex_call_def)
  have "resolveAddressBits ex_refused (CNodeCap 2 62 0 0x8000) 1 64 = Some (Inr (0x8020, 0))"
    by (simp add: resolveAddressBits_def, subst resolve_loop.simps)
      (simp add: Let_def MASKw_def MASK_def BIT_def push_bit_eq_mult drop_bit_eq_div wordRadix_def wordBits_def cte_at_index_def)
  then have l: "lookupCapAndSlot ex_refused 0x2000 1 = Some (Inr (0x8020, ThreadCap 0x3000))"
    by (simp add: lookupCapAndSlot_def lookupSlot_def ex_slot_numbers root wordBits_def)
  have b: "lookupIPCBuffer False 0x2000 ex_refused = Some 0"
    using root(3) by (simp add: lookupIPCBuffer_def ex_slots tcbBuffer_def push_bit_eq_mult empty_cte_def) (simp add: ex_refused_def)
  have m: "messageInfoFromWord 0x6001 = 0x6001" "mi_get_label 0x6001 = TCBSetPriority" "message_length 0 0x6001 = 1"
    by (simp_all add: messageInfoFromWord_def mi_get_length_def mi_get_label_def seL4_MsgMaxLength_def tcb_labels drop_bit_eq_div message_length_def n_msgRegisters_def)
  have "decodeInvocation (kernel_decode 100) TCBSetPriority 1 1 0x8020 (ThreadCap 0x3000) True False 0 [] ex_refused =
      Some (EXCEPTION_SYSCALL_ERROR (no_error seL4_TruncatedMessage), ex_refused)"
    by (simp add: decodeInvocation_def kernel_decode_def decodeTCBInvocation_def tcb_labels decodeSetPriority_def syscall_fail_def)
  then show ?thesis unfolding refused_def c using r l b m by (auto simp: lookupExtraCaps_def intro!: exI)
qed

theorem refused_invocation_witness: "handleInvocation (kernel_decode 100) False True ex_refused = Some (False, ex_refused)"
  using refused_invocation[OF ex_refused_refused] by simp

end
