(* ===== verification/Spec2Isabelle.thy ===== *)
theory Spec2Isabelle
  imports SpinLock FStart KFastpathInv KTcbInv KFrameInv KDecode
begin

text \<open>
  A verification library for a system of an seL4 kernel and the HyperAMP server that runs on it and
  exchanges messages with a Linux zone through shared memory.

  \<^bold>\<open>The program.\<close> Two parts of the repository carry its own logic. The HyperAMP applications
  (\<^verbatim>\<open>src/projects/sel4test/apps\<close>) put blocks into bounded queues in shared memory, guarded by a spin lock,
  a server answers encryption, verification and bulk requests on channel CH0 and forwards data on
  channel CH1, and a front-end engine behind CH1 multiplexes sessions over such queues. The kernel (\<^verbatim>\<open>src/kernel\<close>) schedules threads, keeps capabilities and their derivation tree,
  resolves capability addresses, switches address spaces, passes messages through endpoints and
  notifications, has fast paths for calls and replies, and is extended here by a table of servers
  (\<^verbatim>\<open>handleRegister\<close>) and a call that enters a registered server directly (\<^verbatim>\<open>fastpath_callBoost\<close>).

  \<^bold>\<open>The configuration\<close> of the kernel that is modelled: AArch64, one core, no mixed-criticality scheduling,
  no hypervisor, SMMU or SMC support, GICv2, no debug or benchmark code. Code of other configurations is
  not translated, also where it stands between the lines of a function that is.

  \<^bold>\<open>How the theories model the code.\<close>
  \<^item> \<open>Prelude\<close>: machine integers, a flat byte memory with little-endian access, separation of ranges.
  \<^item> \<open>Fifo\<close>: the interface of a bounded queue as a locale, with what every interleaving of its steps
    guarantees. \<open>DLinks\<close>: doubly linked lists in a map of objects, with a locale for link fields that is
    interpreted for the ready queues and for the queues of endpoints and notifications.
  \<^item> \<open>ShmQueue\<close> (\<^verbatim>\<open>front/src/hyperamp_shm_queue.c\<close>): the queue on byte memory, its control block read and
    written field by field. It interprets the locale of \<open>Fifo\<close>.
  \<^item> \<open>SpinLock\<close>: the lock of that file again, as a step relation over single AArch64 instructions of any
    number of zones.
  \<^item> \<open>Channel\<close>, \<open>ChannelCh0\<close>, \<open>ChannelCh1\<close> (\<^verbatim>\<open>hyperamp-server/src/channel*.c\<close>): channels over two queues; the
    services of CH0 on memory; the forwarding of CH1 over the interface of the front-end engine.
  \<^item> \<open>FEvents\<close>, \<open>FMessage\<close>, \<open>FSession\<close>, \<open>FPool\<close>, \<open>FEngine\<close> (\<^verbatim>\<open>front/src/frontend_proto.c\<close>, \<^verbatim>\<open>session.c\<close>, \<^verbatim>\<open>session_pool.c\<close>,
    \<^verbatim>\<open>frontend_api.c\<close>, \<^verbatim>\<open>engine.c\<close>): the front-end engine. Messages are bytes of the shared memory; sessions are objects in a
    map, freed sessions are gone from it; the linked queues are lists; results of \<^verbatim>\<open>malloc\<close> are given as a sequence.
    \<open>FMessageInv\<close> shows which block a message becomes, \<open>FStream\<close> that a session is two byte streams (the locale
    \<open>byte_stream\<close>, interpreted for both directions), \<open>FEngineInv\<close> what a round does, \<open>FPoolInv\<close> the life of a session, and
    \<open>FChannel\<close> instantiates the interface of CH1 with this engine. \<open>FAddr\<close> reads address strings as the macros of \<^verbatim>\<open>session.h\<close> do with
    \<^verbatim>\<open>sscanf\<close>, and \<open>FStart\<close> (\<^verbatim>\<open>engine.c\<close>, \<^verbatim>\<open>dev.c\<close>, \<^verbatim>\<open>channel_ch1.c\<close>) brings up the engine and CH1; memory the code does not initialise is an argument.
  \<^item> \<open>KStructures\<close> (\<^verbatim>\<open>include/object/structures.h\<close>, the bit-field files, \<^verbatim>\<open>include/model/statedata.h\<close>): the
    data and the global state, a record whose maps give the object at an address. Bit fields of the
    objects are record fields; where the code depends on their width the truncation is written out.
  \<^item> \<open>KReady\<close>, \<open>KSchedule\<close> (\<^verbatim>\<open>src/object/tcb.c\<close>, \<^verbatim>\<open>include/kernel/thread.h\<close>, \<^verbatim>\<open>src/kernel/thread.c\<close>): ready queues,
    bitmaps, and the choice of and switch to the next thread.
  \<^item> \<open>KCaps\<close>, \<open>KCSpace\<close>, \<open>KMdb\<close>, \<open>KMdbInv\<close> (\<^verbatim>\<open>src/object/objecttype.c\<close>, \<^verbatim>\<open>src/kernel/cspace.c\<close>,
    \<^verbatim>\<open>src/object/cnode.c\<close>): capabilities, address resolution, and the derivation tree as linked slots.
  \<^item> \<open>KVSpace\<close>, \<open>KVSpaceInv\<close> (\<^verbatim>\<open>src/arch/arm/64/kernel/vspace.c\<close>): address space identifiers, page tables, the
    address space in force, and the requests to invalidate translations.
  \<^item> \<open>KMessage\<close> (\<^verbatim>\<open>src/api/faults.c\<close>, message parts of \<^verbatim>\<open>src/kernel/thread.c\<close> and \<^verbatim>\<open>src/object/tcb.c\<close>): message
    registers and buffers, capability transfer, fault messages.
  \<^item> \<open>KIpc\<close>, \<open>KIpcInv\<close> (\<^verbatim>\<open>src/object/endpoint.c\<close>, \<^verbatim>\<open>src/object/notification.c\<close>, \<^verbatim>\<open>src/kernel/faulthandler.c\<close>): sending,
    receiving, signalling, cancelling, replying and reporting faults.
  \<^item> \<open>KSyscall\<close> (\<^verbatim>\<open>src/api/syscall.c\<close>, \<^verbatim>\<open>src/object/interrupt.c\<close>): the entries into the kernel. The decoders of the
    invocations of threads, CNodes, untyped memory, interrupts and address spaces are a parameter, which \<open>KDecode\<close> instantiates.
  \<^item> \<open>KInvocation\<close>, \<open>KUntyped\<close> (\<^verbatim>\<open>src/object/untyped.c\<close>, \<^verbatim>\<open>src/object/objecttype.c\<close>, \<^verbatim>\<open>src/model/preemption.c\<close>): invocation
    labels and errors, the preemption point, and the creation of objects from untyped memory. \<open>KUntypedInv\<close>, \<open>KRetype\<close> and
    \<open>KDecodeUntyped\<close> hold the lemmas on clearing, on creating objects and on the whole invocation.
  \<^item> \<open>KCNode\<close> (\<^verbatim>\<open>src/object/cnode.c\<close>): deleting with zombies, revoking, and the invocations of CNodes. \<open>KCNodeInv\<close> shows what
    copying and moving does, \<open>KCNodeDelete\<close> that revoking copies and taking a CNode apart end.
  \<^item> \<open>KTcb\<close> (\<^verbatim>\<open>src/object/tcb.c\<close>): the invocations of threads and of the domain capability. \<open>KTcbInv\<close> shows who may set priorities.
  \<^item> \<open>KArch\<close> (\<^verbatim>\<open>src/arch/arm/64/kernel/vspace.c\<close>, \<^verbatim>\<open>src/object/interrupt.c\<close>, \<^verbatim>\<open>src/arch/arm/object/interrupt.c\<close>): the invocations of address
    spaces, tables, frames, identifiers and interrupts. \<open>KFrameInv\<close> shows what mapping a frame does to the translation.
  \<^item> \<open>KDecode\<close> (\<^verbatim>\<open>src/object/objecttype.c\<close>): all decoders together. The locale \<open>clean_decoder\<close> states what the entry into the kernel
    relies on, a refusal without effect, and is interpreted for them.
  \<^item> \<open>KFastpath\<close>, \<open>KFastpathInv\<close> (\<^verbatim>\<open>src/fastpath/fastpath.c\<close> and its headers): the fast paths and the call of a
    registered server. The locale \<open>fast_path\<close> states what a fast path owes the slow path; both fast paths
    are interpretations of it.

  \<^bold>\<open>Conventions.\<close> An operation of the kernel returns an option: \<open>None\<close> stands for an access to an address
  that holds no such object, a failed assertion, or a loop that does not end (\<^theory_text>\<open>partial_function\<close>). A theorem
  that an operation has a result therefore includes that it returns and touches objects of the right kind
  only. Errors the code reports are values: codes, or sums whose left side is the error or the fault.
  No fuel is used: loops are structural recursions or \<^theory_text>\<open>partial_function\<close>s whose results are proved to exist
  from the invariants. The registers of the hardware, the active interrupt and the fault address are
  arguments; masks, acknowledgements of interrupts and invalidations of translations are recorded in the state.

  \<^bold>\<open>What is shown.\<close>
  \<^item> Shared memory: enqueue and dequeue refine the operations of a bounded list, every interleaving of
    sends and receives is first-in first-out within the bound, refused calls have no effect on queue or data, and the lock admits
    one zone at a time. The channels of the server share the slots of their two queues, which can lose a message.
  \<^item> Server: requests on CH0 leave the receive queue and are answered with the transformed payload, bulk encryption is inverted by
    decryption, signed data are accepted exactly when well formed, and the bounds check of bulk requests
    keeps all changes inside the region unless its 32-bit sum wraps around, when a byte far outside is changed. Starting CH1 establishes the invariants
    of the engine and requests its two sessions.
  \<^item> Front end: bytes sent on a session are the bytes its messages carry and bytes of messages are the bytes received, in
    order and under every interleaving; a message built on one side gives the other side the bytes of its segment; a round of the engine empties the receive queue, loses no byte
    in either direction and serves every session until the transmit queue is full; a printed address is read back; requesting and closing sessions keeps identifiers, table and queues consistent, except
    that closing a session with unread data leaves a freed session in a queue and a refused session keeps a freed identifier.
  \<^item> Scheduler: the ready queues are lists per domain and priority, the bitmap lookup is the maximum over
    them, and the choice of the next thread keeps the invariant. A newly chosen thread is not outranked, nor is a proposed one if the running thread was not.
  \<^item> Capabilities: masking and minting add no authority, comparison of regions is inclusion of address
    ranges, resolution consumes the bits of an address as its specification does; the derivation tree stays
    a set of linked chains under insertion, swapping and removal, and where the capabilities of an object stand together in their chain, the local test for the final
    capability is the global one. That they do is an assumption of the theorems on deletion and revocation.
  \<^item> Address spaces: the walk ends in at most four levels at the selected entry, mapping a frame changes exactly the entry for an
    aligned user address and grants no more rights than the capability has, unmapping invalidates the entry
    of the frame and changes nothing else, and a deleted identifier leaves no active address space.
  \<^item> Threads: priorities are set exactly when the thread named as authority controls them, and the scheduler's invariant is kept.
  \<^item> All invocations: one that is refused had no effect, whatever object it names.
  \<^item> Messages: a send, a call or a receive without passed capabilities delivers badge and message to the first waiting thread, a call
    leaves a reply capability with the receiver, waiting is
    first-in first-out, signals wake the first waiting thread, cancelling removes exactly one or all.
  \<^item> Fast paths: from every state with the invariants, a fast path either leaves the state to the slow path
    or reaches the state of the slow path; its capability lookup is the kernel's lookup.
  \<^item> Untyped memory: an invocation creates aligned, disjoint objects in the free part of the block or has no effect but
    clearing; its check for memory is exact, and an interrupted reset can be restarted.
  \<^item> CNodes: an invocation that copies or moves a capability adds no authority, keeps the derivation tree and changes nothing
    else; revoking the copies of a capability and deleting a CNode whose capabilities are inert or have copies outside end, or are preempted in a state from which they go on.
  \<^item> Server table: registration stays within the table; the direct call enters the server without a check
    of authority or state and can destroy the derivation tree.

  \<^bold>\<open>Not modelled.\<close> Boot; the effect of cache maintenance on memory and the FPU; the older queues of pooled memory of the front-end engine
  and the start-up and polling loop of the server; C++ applications, tests and the third-party libraries under \<^verbatim>\<open>src/projects\<close>.
\<close>

end
